(* ===== verification/Prelude.thy ===== *)
theory Prelude
  imports Main "HOL-Library.Word"
begin

text \<open>
  Shared vocabulary of the development: the widths of Rust's unsigned integers, the checked,
  saturating and wrapping operations the harness uses on them, \<open>anyhow\<close> results as a sum
  type, and the generic lemmas the component theories rely on.

  A \<open>Result\<close> of the code is \<open>anyhow_error + 'a\<close>: \<open>Inl\<close> is the error, a chain of
  messages with the outermost context first, as \<open>anyhow\<close> keeps it. The target has a
  64-bit \<open>usize\<close>, so \<open>usize::try_from\<close> of a \<open>u32\<close> or \<open>u64\<close> never fails;
  indices and lengths are \<open>nat\<close>.
\<close>

section \<open>Fact collections\<close>

named_theorems checked_iff \<open>when a checked operation or a result returns a value\<close>
named_theorems unat_sat \<open>natural-number value of saturating operations\<close>
named_theorems result_simps \<open>evaluation of results\<close>

section \<open>Machine integers\<close>

type_synonym u8 = "8 word"
type_synonym u16 = "16 word"
type_synonym u32 = "32 word"
type_synonym u64 = "64 word"
type_synonym u128 = "128 word"

definition checked_add :: "'a::len word \<Rightarrow> 'a word \<Rightarrow> 'a word option" where
  "checked_add a b = (if unat a + unat b < 2 ^ LENGTH('a) then Some (a + b) else None)"

definition checked_mul :: "'a::len word \<Rightarrow> 'a word \<Rightarrow> 'a word option" where
  "checked_mul a b = (if unat a * unat b < 2 ^ LENGTH('a) then Some (a * b) else None)"

definition checked_sub :: "'a::len word \<Rightarrow> 'a word \<Rightarrow> 'a word option" where
  "checked_sub a b = (if b \<le> a then Some (a - b) else None)"

definition checked_div :: "'a::len word \<Rightarrow> 'a word \<Rightarrow> 'a word option" where
  "checked_div a b = (if b = 0 then None else Some (a div b))"

definition saturating_add :: "'a::len word \<Rightarrow> 'a word \<Rightarrow> 'a word" where
  "saturating_add a b = (if unat a + unat b < 2 ^ LENGTH('a) then a + b else - 1)"

definition saturating_sub :: "'a::len word \<Rightarrow> 'a word \<Rightarrow> 'a word" where
  "saturating_sub a b = (if b \<le> a then a - b else 0)"

definition saturating_mul :: "'a::len word \<Rightarrow> 'a word \<Rightarrow> 'a word" where
  "saturating_mul a b = (if unat a * unat b < 2 ^ LENGTH('a) then a * b else - 1)"

text \<open>\<open>u64::try_from(x).unwrap_or(u64::MAX)\<close> for an \<open>x\<close> of any size.\<close>

definition clamp_to :: "nat \<Rightarrow> 'a::len word" where
  "clamp_to n = (if n < 2 ^ LENGTH('a) then of_nat n else - 1)"

text \<open>\<open>T::try_from(x).ok()\<close>.\<close>

definition try_to :: "nat \<Rightarrow> 'a::len word option" where
  "try_to n = (if n < 2 ^ LENGTH('a) then Some (of_nat n) else None)"

text \<open>\<open>a.div_ceil(b)\<close> on unsigned integers (\<open>b\<close> is never zero in the code).\<close>

definition div_ceil :: "'a::len word \<Rightarrow> 'a word \<Rightarrow> 'a word" where
  "div_ceil a b = (if a mod b = 0 then a div b else a div b + 1)"

definition div_ceil_nat :: "nat \<Rightarrow> nat \<Rightarrow> nat" where
  "div_ceil_nat a b = (if a mod b = 0 then a div b else a div b + 1)"

lemma unat_minus_one_max: "unat (- 1 :: 'a::len word) = 2 ^ LENGTH('a) - 1"
  by (simp add: unsigned_minus_1_eq_mask mask_eq_exp_minus_1)

lemma unat_less_2p [simp]: "unat (x :: 'a::len word) < 2 ^ LENGTH('a)"
  by (rule unsigned_less)

lemma word_eq_unat_iff: "(a :: 'a::len word) = b \<longleftrightarrow> unat a = unat b"
  by (simp add: word_unat_eq_iff)

lemma checked_add_Some [checked_iff]:
  "checked_add a b = Some (c :: 'a::len word) \<longleftrightarrow> unat c = unat a + unat b"
proof
  assume "checked_add a b = Some c"
  then show "unat c = unat a + unat b"
    by (auto simp: checked_add_def unat_word_ariths split: if_splits)
next
  assume h: "unat c = unat a + unat b"
  moreover have "unat c < 2 ^ LENGTH('a)" by simp
  ultimately show "checked_add a b = Some c"
    by (simp add: checked_add_def word_eq_unat_iff unat_word_ariths)
qed

lemma checked_mul_Some [checked_iff]:
  "checked_mul a b = Some (c :: 'a::len word) \<longleftrightarrow> unat c = unat a * unat b"
proof
  assume "checked_mul a b = Some c"
  then show "unat c = unat a * unat b"
    by (auto simp: checked_mul_def unat_word_ariths split: if_splits)
next
  assume h: "unat c = unat a * unat b"
  moreover have "unat c < 2 ^ LENGTH('a)" by simp
  ultimately show "checked_mul a b = Some c"
    by (simp add: checked_mul_def word_eq_unat_iff unat_word_ariths)
qed

lemma checked_sub_Some [checked_iff]:
  "checked_sub a b = Some (c :: 'a::len word) \<longleftrightarrow> unat a = unat b + unat c"
proof
  assume "checked_sub a b = Some c"
  then show "unat a = unat b + unat c"
    by (auto simp: checked_sub_def unat_sub word_le_nat_alt split: if_splits)
next
  assume h: "unat a = unat b + unat c"
  then have "b \<le> a" by (simp add: word_le_nat_alt)
  with h show "checked_sub a b = Some c"
    by (simp add: checked_sub_def word_eq_unat_iff unat_sub)
qed

lemma checked_add_None: "checked_add a b = None \<longleftrightarrow> 2 ^ LENGTH('a) \<le> unat (a :: 'a::len word) + unat b"
  by (auto simp: checked_add_def)

lemma checked_mul_None: "checked_mul a b = None \<longleftrightarrow> 2 ^ LENGTH('a) \<le> unat (a :: 'a::len word) * unat b"
  by (auto simp: checked_mul_def)

lemma checked_sub_None: "checked_sub a b = None \<longleftrightarrow> unat (a :: 'a::len word) < unat b"
  by (auto simp: checked_sub_def word_le_nat_alt)

lemma unat_saturating_add [unat_sat]:
  "unat (saturating_add a b :: 'a::len word) = min (unat a + unat b) (2 ^ LENGTH('a) - 1)"
  by (auto simp: saturating_add_def unat_word_ariths unat_minus_one_max)

lemma unat_saturating_sub [unat_sat]:
  "unat (saturating_sub a b :: 'a::len word) = unat a - unat b"
  by (auto simp: saturating_sub_def unat_sub word_le_nat_alt)

lemma unat_saturating_mul [unat_sat]:
  "unat (saturating_mul a b :: 'a::len word) = min (unat a * unat b) (2 ^ LENGTH('a) - 1)"
  by (auto simp: saturating_mul_def unat_word_ariths unat_minus_one_max)

lemma unat_clamp_to [unat_sat]: "unat (clamp_to n :: 'a::len word) = min n (2 ^ LENGTH('a) - 1)"
  by (auto simp: clamp_to_def unat_minus_one_max unat_of_nat)

lemma try_to_Some [checked_iff]: "try_to n = Some (w :: 'a::len word) \<longleftrightarrow> unat w = n"
  by (auto simp: try_to_def unat_of_nat word_eq_unat_iff)

lemma try_to_None: "(try_to n :: 'a::len word option) = None \<longleftrightarrow> 2 ^ LENGTH('a) \<le> n"
  by (auto simp: try_to_def)

lemma saturating_add_zero [simp]: "saturating_add 0 a = a" "saturating_add a 0 = a"
  by (simp_all add: saturating_add_def)

lemma saturating_add_commute: "saturating_add a b = saturating_add b a"
  by (simp add: saturating_add_def add.commute)

lemma min_add_assoc: "min (min (a + b) m + c) m = min (a + min (b + c) m) (m :: nat)"
  by (auto simp: min_def)

lemma saturating_add_assoc:
  "saturating_add (saturating_add a b) c = saturating_add a (saturating_add b c)"
  by (simp only: word_eq_unat_iff unat_sat min_add_assoc)

lemma saturating_add_eq_0: "saturating_add a b = 0 \<longleftrightarrow> a = 0 \<and> b = (0 :: 'a::len word)"
proof -
  have "(1::nat) < 2 ^ LENGTH('a)" by (rule one_less_power) simp_all
  then show ?thesis
    by (auto simp: word_eq_unat_iff unat_sat min_def split: if_splits)
qed

lemma unat_div_ceil_le: "b \<noteq> 0 \<Longrightarrow> unat (div_ceil a b :: 'a::len word) \<le> unat a"
proof (cases "a mod b = 0")
  case True
  then show ?thesis by (simp add: div_ceil_def unat_div)
next
  case False
  assume "b \<noteq> 0"
  then have b: "0 < unat b" by (simp add: unat_gt_0)
  from False have m: "unat a mod unat b \<noteq> 0"
    by (simp add: word_eq_unat_iff unat_mod)
  then have b2: "1 < unat b" using b by (metis One_nat_def less_one mod_less_divisor mod_by_1 nat_neq_iff One_nat_def)
  from m have a: "0 < unat a" by (metis gr0I mod_0)
  have "unat a div unat b < unat a" using a b2 by simp
  then have "unat a div unat b + 1 \<le> unat a" by simp
  moreover have "unat (a div b + 1) \<le> unat (a div b) + 1"
    by (simp add: unat_word_ariths)
  ultimately show ?thesis using False by (simp add: div_ceil_def unat_div)
qed

section \<open>Results\<close>

datatype anyhow_error = Anyhow "string list"

type_synonym 'a result = "anyhow_error + 'a"

definition err :: "string \<Rightarrow> 'a result" where
  "err msg = Inl (Anyhow [msg])"

fun add_context :: "string \<Rightarrow> anyhow_error \<Rightarrow> anyhow_error" where
  "add_context msg (Anyhow chain) = Anyhow (msg # chain)"

text \<open>\<open>r.context(msg)\<close> on a result, \<open>o.context(msg)\<close> on an option.\<close>

definition with_context :: "string \<Rightarrow> 'a result \<Rightarrow> 'a result" where
  "with_context msg r = (case r of Inl e \<Rightarrow> Inl (add_context msg e) | Inr x \<Rightarrow> Inr x)"

definition ok_or :: "string \<Rightarrow> 'a option \<Rightarrow> 'a result" where
  "ok_or msg v = (case v of None \<Rightarrow> err msg | Some x \<Rightarrow> Inr x)"

text \<open>\<open>r?\<close> followed by the rest of the function.\<close>

definition bind_ok :: "'a result \<Rightarrow> ('a \<Rightarrow> 'b result) \<Rightarrow> 'b result" where
  "bind_ok r f = (case r of Inl e \<Rightarrow> Inl e | Inr x \<Rightarrow> f x)"

text \<open>\<open>ensure!(c, msg)\<close> followed by the rest of the function.\<close>

definition ensure :: "bool \<Rightarrow> string \<Rightarrow> 'a result \<Rightarrow> 'a result" where
  "ensure c msg rest = (if c then rest else err msg)"

definition is_ok :: "'a result \<Rightarrow> bool" where
  "is_ok r = (case r of Inl _ \<Rightarrow> False | Inr _ \<Rightarrow> True)"

definition ok :: "'a result \<Rightarrow> 'a option" where
  "ok r = (case r of Inl _ \<Rightarrow> None | Inr x \<Rightarrow> Some x)"

text \<open>\<open>{error:#}\<close>: the chain of messages joined by colons.\<close>

fun join_with :: "string \<Rightarrow> string list \<Rightarrow> string" where
  "join_with sep [] = []"
| "join_with sep [x] = x"
| "join_with sep (x # y # zs) = x @ sep @ join_with sep (y # zs)"

fun show_error :: "anyhow_error \<Rightarrow> string" where
  "show_error (Anyhow chain) = join_with '': '' chain"

lemma bind_ok_simps [simp]: "bind_ok (Inr x) f = f x" "bind_ok (Inl e) f = Inl e"
  by (simp_all add: bind_ok_def)

lemma bind_ok_err [simp]: "bind_ok (err msg) f = err msg"
  by (simp add: err_def)

lemma bind_ok_Inr [checked_iff]: "bind_ok r f = Inr y \<longleftrightarrow> (\<exists>x. r = Inr x \<and> f x = Inr y)"
  by (simp add: bind_ok_def split: sum.splits)

lemma ensure_True [simp]: "ensure True msg rest = rest"
  by (simp add: ensure_def)

lemma ensure_False [simp]: "ensure False msg rest = err msg"
  by (simp add: ensure_def)

lemma ensure_Inr [checked_iff]: "ensure c msg rest = Inr y \<longleftrightarrow> c \<and> rest = Inr y"
  by (simp add: ensure_def err_def)

lemma err_not_Inr [simp]: "err msg \<noteq> Inr y" "Inr y \<noteq> err msg"
  by (simp_all add: err_def)

lemma ok_or_Inr [checked_iff]: "ok_or msg v = Inr y \<longleftrightarrow> v = Some y"
  by (simp add: ok_or_def split: option.splits)

lemma ok_or_simps [simp]: "ok_or msg (Some x) = Inr x" "ok_or msg None = err msg"
  by (simp_all add: ok_or_def)

lemma with_context_Inr [checked_iff]: "with_context msg r = Inr y \<longleftrightarrow> r = Inr y"
  by (simp add: with_context_def split: sum.splits)

lemma with_context_simps [simp]:
  "with_context msg (Inr x) = Inr x" "with_context msg (Inl e) = Inl (add_context msg e)"
  by (simp_all add: with_context_def)

lemma is_ok_simps [simp]: "is_ok (Inr x)" "\<not> is_ok (Inl e)" "\<not> is_ok (err msg)"
  by (simp_all add: is_ok_def err_def)

lemma is_ok_iff: "is_ok r \<longleftrightarrow> (\<exists>x. r = Inr x)"
  by (cases r) simp_all

lemma ok_simps [simp]: "ok (Inr x) = Some x" "ok (Inl e) = None" "ok (err msg) = None"
  by (simp_all add: ok_def err_def)

lemma ok_Some [checked_iff]: "ok r = Some x \<longleftrightarrow> r = Inr x"
  by (cases r) simp_all

text \<open>Collecting an iterator of results stops at the first error.\<close>

fun collect_results :: "'a result list \<Rightarrow> 'a list result" where
  "collect_results [] = Inr []"
| "collect_results (r # rs) =
     bind_ok r (\<lambda>x. bind_ok (collect_results rs) (\<lambda>xs. Inr (x # xs)))"

lemma collect_results_Inr: "collect_results rs = Inr xs \<longleftrightarrow> rs = map Inr xs"
proof (induction rs arbitrary: xs)
  case Nil
  then show ?case by auto
next
  case (Cons r rs)
  then show ?case by (cases r; cases xs) (auto simp: checked_iff)
qed

section \<open>Durations\<close>

text \<open>
  \<open>std::time::Duration\<close> is a \<open>u64\<close> of seconds and the nanoseconds below a second; it is a
  count of nanoseconds here, and its saturating operations stop at \<open>Duration::MAX\<close>. An
  \<open>Instant\<close> is the nanoseconds of a monotonic clock since an arbitrary origin.
\<close>

type_synonym duration = nat
type_synonym instant = nat

definition duration_max :: duration where
  "duration_max = 2 ^ 64 * 1000000000 - 1"

definition from_millis :: "nat \<Rightarrow> duration" where
  "from_millis n = n * 1000000"

definition from_secs :: "nat \<Rightarrow> duration" where
  "from_secs n = n * 1000000000"

definition dur_saturating_add :: "duration \<Rightarrow> duration \<Rightarrow> duration" where
  "dur_saturating_add a b = min (a + b) duration_max"

definition dur_saturating_mul :: "duration \<Rightarrow> u32 \<Rightarrow> duration" where
  "dur_saturating_mul a n = min (a * unat n) duration_max"

definition dur_checked_div :: "duration \<Rightarrow> u32 \<Rightarrow> duration option" where
  "dur_checked_div a n = (if n = 0 then None else Some (a div unat n))"

text \<open>\<open>u64::try_from(duration.as_millis()).unwrap_or(u64::MAX)\<close>.\<close>

definition millis :: "duration \<Rightarrow> u64" where
  "millis d = clamp_to (d div 1000000)"

section \<open>Lists\<close>

text \<open>\<open>slice.get(i)\<close> and \<open>slice.get(a..b)\<close>.\<close>

definition get_at :: "'a list \<Rightarrow> nat \<Rightarrow> 'a option" where
  "get_at xs i = (if i < length xs then Some (xs ! i) else None)"

definition get_range :: "'a list \<Rightarrow> nat \<Rightarrow> nat \<Rightarrow> 'a list option" where
  "get_range xs a b = (if a \<le> b \<and> b \<le> length xs then Some (take (b - a) (drop a xs)) else None)"

definition get_from :: "'a list \<Rightarrow> nat \<Rightarrow> 'a list option" where
  "get_from xs a = (if a \<le> length xs then Some (drop a xs) else None)"

lemma get_at_Some [checked_iff]: "get_at xs i = Some x \<longleftrightarrow> i < length xs \<and> x = xs ! i"
  by (auto simp: get_at_def)

lemma get_at_None: "get_at xs i = None \<longleftrightarrow> length xs \<le> i"
  by (auto simp: get_at_def)

definition max_of :: "'a::linorder list \<Rightarrow> 'a option" where
  "max_of xs = (case xs of [] \<Rightarrow> None | y # ys \<Rightarrow> Some (fold max ys y))"

lemma fold_max_ge: "y \<le> fold max xs y \<and> (\<forall>x \<in> set xs. x \<le> fold max xs (y::'a::linorder))"
proof (induction xs arbitrary: y)
  case Nil
  then show ?case by simp
next
  case (Cons x xs)
  have "max x y \<le> fold max xs (max x y)" using Cons.IH by blast
  then show ?case using Cons.IH [of "max x y"] by (simp add: max.commute)
qed

lemma fold_max_in: "fold max xs y \<in> insert y (set (xs :: 'a::linorder list))"
proof (induction xs arbitrary: y)
  case Nil
  then show ?case by simp
next
  case (Cons x xs)
  have "fold max xs (max x y) \<in> insert (max x y) (set xs)" by (rule Cons.IH)
  moreover have "max x y = x \<or> max x y = y" by (auto simp: max_def)
  ultimately show ?case by auto
qed

lemma max_of_Some: "max_of xs = Some m \<longleftrightarrow> m \<in> set xs \<and> (\<forall>x \<in> set xs. x \<le> m)"
proof (cases xs)
  case Nil
  then show ?thesis by (simp add: max_of_def)
next
  case (Cons y ys)
  have ge: "\<forall>x \<in> set xs. x \<le> fold max ys y" and mem: "fold max ys y \<in> set xs"
    using fold_max_ge [of y ys] fold_max_in [of ys y] Cons by auto
  then show ?thesis using Cons
    by (auto simp: max_of_def intro: antisym)
qed

lemma max_of_None: "max_of xs = None \<longleftrightarrow> xs = []"
  by (simp add: max_of_def split: list.splits)

end
