(* ===== verification/RustStr.thy ===== *)
theory RustStr
  imports Prelude
begin

text \<open>
  The part of Rust's string and integer-parsing library the harness uses. A \<open>str\<close> is its
  UTF-8 bytes, a \<open>char list\<close> of 8-bit characters, so \<open>length\<close> is \<open>str::len\<close>.
  Operations with an ASCII pattern work on the bytes; \<open>chars_count\<close> counts scalar values
  by skipping continuation bytes; \<open>trim\<close> removes every encoded Unicode white-space
  character. Decimal formatting and \<open>str::parse\<close> follow the standard library, and the
  round trip between them is proved.
\<close>

section \<open>Decimal output\<close>

definition digit_char :: "nat \<Rightarrow> char" where
  "digit_char d = char_of (48 + d)"

fun show_nat :: "nat \<Rightarrow> string" where
  "show_nat n = (if n < 10 then [digit_char n] else show_nat (n div 10) @ [digit_char (n mod 10)])"

declare show_nat.simps [simp del]

definition show_word :: "'a::len word \<Rightarrow> string" where
  "show_word w = show_nat (unat w)"

text \<open>\<open>{:0width$}\<close>: left padding with zeros.\<close>

definition pad_zero :: "nat \<Rightarrow> string \<Rightarrow> string" where
  "pad_zero width s = replicate (width - length s) (CHR ''0'') @ s"

section \<open>Integer parsing\<close>

definition digit_of :: "char \<Rightarrow> nat option" where
  "digit_of c = (let n = of_char c in if 48 \<le> n \<and> n \<le> 57 then Some (n - 48) else None)"

definition is_ascii_digit :: "char \<Rightarrow> bool" where
  "is_ascii_digit c \<longleftrightarrow> digit_of c \<noteq> None"

definition invalid_digit :: string where
  "invalid_digit = ''invalid digit found in string''"

definition pos_overflow :: string where
  "pos_overflow = ''number too large to fit in target type''"

definition empty_integer :: string where
  "empty_integer = ''cannot parse integer from empty string''"

text \<open>The digit loop of \<open>from_str_radix\<close> with upper bound \<open>limit\<close> (exclusive).\<close>

fun parse_digits :: "nat \<Rightarrow> nat \<Rightarrow> string \<Rightarrow> nat result" where
  "parse_digits limit acc [] = Inr acc"
| "parse_digits limit acc (c # cs) =
     (case digit_of c of
        None \<Rightarrow> err invalid_digit
      | Some d \<Rightarrow>
          (if acc * 10 + d < limit then parse_digits limit (acc * 10 + d) cs
           else err pos_overflow))"

definition parse_unsigned :: "nat \<Rightarrow> string \<Rightarrow> nat result" where
  "parse_unsigned limit s =
     (case s of
        [] \<Rightarrow> err empty_integer
      | c # cs \<Rightarrow>
          (if cs = [] \<and> (c = CHR ''+'' \<or> c = CHR ''-'') then err invalid_digit
           else if c = CHR ''+'' then parse_digits limit 0 cs
           else parse_digits limit 0 s))"

definition parse_u64 :: "string \<Rightarrow> u64 result" where
  "parse_u64 s = bind_ok (parse_unsigned (2 ^ 64) s) (\<lambda>n. Inr (of_nat n))"

text \<open>\<open>str::parse::<i64>\<close>: a minus sign accumulates downwards, bounded by \<open>i64::MIN\<close>.\<close>

definition neg_overflow :: string where
  "neg_overflow = ''number too small to fit in target type''"

fun parse_neg_digits :: "nat \<Rightarrow> nat \<Rightarrow> string \<Rightarrow> nat result" where
  "parse_neg_digits limit acc [] = Inr acc"
| "parse_neg_digits limit acc (c # cs) =
     (case digit_of c of
        None \<Rightarrow> err invalid_digit
      | Some d \<Rightarrow>
          (if acc * 10 + d \<le> limit then parse_neg_digits limit (acc * 10 + d) cs
           else err neg_overflow))"

definition parse_i64 :: "string \<Rightarrow> int result" where
  "parse_i64 s =
     (case s of
        [] \<Rightarrow> err empty_integer
      | c # cs \<Rightarrow>
          (if cs = [] \<and> (c = CHR ''+'' \<or> c = CHR ''-'') then err invalid_digit
           else if c = CHR ''-'' then
             bind_ok (parse_neg_digits (2 ^ 63) 0 cs) (\<lambda>n. Inr (- int n))
           else if c = CHR ''+'' then
             bind_ok (parse_digits (2 ^ 63) 0 cs) (\<lambda>n. Inr (int n))
           else bind_ok (parse_digits (2 ^ 63) 0 s) (\<lambda>n. Inr (int n))))"

lemma digit_of_digit_char [simp]: "d < 10 \<Longrightarrow> digit_of (digit_char d) = Some d"
  by (simp add: digit_of_def digit_char_def)

lemma digit_char_not_sign: "d < 10 \<Longrightarrow> digit_char d \<noteq> CHR ''+'' \<and> digit_char d \<noteq> CHR ''-''"
proof -
  assume "d < 10"
  then have "digit_of (digit_char d) \<noteq> None" by simp
  moreover have "digit_of (CHR ''+'') = None" "digit_of (CHR ''-'') = None"
    by (simp_all add: digit_of_def)
  ultimately show ?thesis by metis
qed

lemma parse_digits_append:
  "parse_digits limit acc (xs @ ys)
     = bind_ok (parse_digits limit acc xs) (\<lambda>a. parse_digits limit a ys)"
  by (induction limit acc xs rule: parse_digits.induct) (auto simp: err_def split: option.splits)

lemma show_nat_digits: "c \<in> set (show_nat n) \<Longrightarrow> is_ascii_digit c"
proof (induction n rule: show_nat.induct)
  case (1 n)
  show ?case
  proof (cases "n < 10")
    case True
    with "1.prems" show ?thesis by (simp add: show_nat.simps [of n] is_ascii_digit_def)
  next
    case False
    with "1.prems" have "c \<in> set (show_nat (n div 10)) \<or> c = digit_char (n mod 10)"
      by (auto simp: show_nat.simps [of n])
    then show ?thesis using "1.IH" [OF False] by (auto simp: is_ascii_digit_def)
  qed
qed

lemma show_nat_nonempty [simp]: "show_nat n \<noteq> []"
  by (simp add: show_nat.simps [of n])

lemma show_nat_hd_not_sign: "hd (show_nat n) \<noteq> CHR ''+'' \<and> hd (show_nat n) \<noteq> CHR ''-''"
proof -
  have "is_ascii_digit (hd (show_nat n))"
    by (rule show_nat_digits [of _ n]) simp
  moreover have "\<not> is_ascii_digit (CHR ''+'')" "\<not> is_ascii_digit (CHR ''-'')"
    by (simp_all add: is_ascii_digit_def digit_of_def)
  ultimately show ?thesis by metis
qed

lemma parse_digits_show_nat: "n < limit \<Longrightarrow> parse_digits limit 0 (show_nat n) = Inr n"
proof (induction n rule: show_nat.induct)
  case (1 n)
  show ?case
  proof (cases "n < 10")
    case True
    with "1.prems" show ?thesis by (simp add: show_nat.simps [of n])
  next
    case False
    have "n div 10 < limit" using "1.prems" by simp
    with "1.IH" [OF False] have "parse_digits limit 0 (show_nat (n div 10)) = Inr (n div 10)"
      by simp
    moreover have "n div 10 * 10 + n mod 10 = n" by simp
    ultimately show ?thesis using False "1.prems"
      by (simp add: show_nat.simps [of n] parse_digits_append)
  qed
qed

lemma parse_unsigned_show_nat: "n < limit \<Longrightarrow> parse_unsigned limit (show_nat n) = Inr n"
proof -
  assume n: "n < limit"
  obtain c cs where s: "show_nat n = c # cs" by (cases "show_nat n") simp_all
  then have "c \<noteq> CHR ''+''" "c \<noteq> CHR ''-''" using show_nat_hd_not_sign [of n] by auto
  then show ?thesis using parse_digits_show_nat [OF n] s
    by (simp add: parse_unsigned_def)
qed

lemma parse_u64_show_word [simp]: "parse_u64 (show_word w) = Inr w"
proof -
  have "unat w < 2 ^ 64" using unat_less_2p [of w] by simp
  then have "parse_unsigned (2 ^ 64) (show_nat (unat w)) = Inr (unat w)"
    by (rule parse_unsigned_show_nat)
  then show ?thesis
    by (simp only: parse_u64_def show_word_def bind_ok_simps of_nat_unat ucast_id)
qed

lemma show_nat_inject: "show_nat a = show_nat b \<longleftrightarrow> a = b"
proof
  assume h: "show_nat a = show_nat b"
  have "a < Suc (max a b)" "b < Suc (max a b)" by linarith+
  then have pa: "parse_unsigned (Suc (max a b)) (show_nat a) = Inr a"
    and pb: "parse_unsigned (Suc (max a b)) (show_nat b) = Inr b"
    by (blast intro: parse_unsigned_show_nat)+
  show "a = b" using pa [unfolded h] pb by (metis sum.inject(2))
next
  assume "a = b"
  then show "show_nat a = show_nat b" by (rule arg_cong)
qed

section \<open>Splitting and trimming\<close>

definition starts_with :: "string \<Rightarrow> string \<Rightarrow> bool" where
  "starts_with p s \<longleftrightarrow> take (length p) s = p"

definition ends_with :: "string \<Rightarrow> string \<Rightarrow> bool" where
  "ends_with p s \<longleftrightarrow> starts_with (rev p) (rev s)"

definition strip_prefix :: "string \<Rightarrow> string \<Rightarrow> string option" where
  "strip_prefix p s = (if starts_with p s then Some (drop (length p) s) else None)"

definition strip_suffix :: "string \<Rightarrow> string \<Rightarrow> string option" where
  "strip_suffix p s = (if ends_with p s then Some (take (length s - length p) s) else None)"

fun contains_str :: "string \<Rightarrow> string \<Rightarrow> bool" where
  "contains_str p [] \<longleftrightarrow> p = []"
| "contains_str p (c # cs) \<longleftrightarrow> starts_with p (c # cs) \<or> contains_str p cs"

text \<open>\<open>str::split(char)\<close>: always at least one piece.\<close>

fun split_on :: "(char \<Rightarrow> bool) \<Rightarrow> string \<Rightarrow> string list" where
  "split_on p [] = [[]]"
| "split_on p (c # cs) =
     (if p c then [] # split_on p cs
      else (case split_on p cs of [] \<Rightarrow> [[c]] | q # qs \<Rightarrow> (c # q) # qs))"

definition split_char :: "char \<Rightarrow> string \<Rightarrow> string list" where
  "split_char d s = split_on (\<lambda>c. c = d) s"

text \<open>\<open>str::rsplit_once(char)\<close>: the last occurrence.\<close>

definition rsplit_once :: "char \<Rightarrow> string \<Rightarrow> (string \<times> string) option" where
  "rsplit_once d s =
     (if d \<in> set s
      then Some (rev (tl (dropWhile (\<lambda>c. c \<noteq> d) (rev s))), rev (takeWhile (\<lambda>c. c \<noteq> d) (rev s)))
      else None)"

text \<open>\<open>str::split_once(char)\<close>: the first occurrence.\<close>

definition split_once :: "char \<Rightarrow> string \<Rightarrow> (string \<times> string) option" where
  "split_once d s =
     (if d \<in> set s
      then Some (takeWhile (\<lambda>c. c \<noteq> d) s, tl (dropWhile (\<lambda>c. c \<noteq> d) s))
      else None)"

text \<open>
  \<open>str::lines\<close>: pieces ended by a line feed, a final empty piece dropped, one carriage
  return before the line feed dropped.
\<close>

definition strip_cr :: "string \<Rightarrow> string" where
  "strip_cr l = (if l \<noteq> [] \<and> last l = CHR 0x0D then butlast l else l)"

definition lines_of :: "string \<Rightarrow> string list" where
  "lines_of s =
     (let ps = split_char (CHR 0x0A) s in
      map strip_cr (butlast ps) @ (if last ps = [] then [] else [last ps]))"

text \<open>The UTF-8 encodings of the characters with the Unicode \<open>White_Space\<close> property.\<close>

definition white_space :: "string list" where
  "white_space =
     [[CHR 0x09], [CHR 0x0A], [CHR 0x0B], [CHR 0x0C], [CHR 0x0D], [CHR 0x20],
      [CHR 0xC2, CHR 0x85], [CHR 0xC2, CHR 0xA0], [CHR 0xE1, CHR 0x9A, CHR 0x80],
      [CHR 0xE2, CHR 0x80, CHR 0x80], [CHR 0xE2, CHR 0x80, CHR 0x81],
      [CHR 0xE2, CHR 0x80, CHR 0x82], [CHR 0xE2, CHR 0x80, CHR 0x83],
      [CHR 0xE2, CHR 0x80, CHR 0x84], [CHR 0xE2, CHR 0x80, CHR 0x85],
      [CHR 0xE2, CHR 0x80, CHR 0x86], [CHR 0xE2, CHR 0x80, CHR 0x87],
      [CHR 0xE2, CHR 0x80, CHR 0x88], [CHR 0xE2, CHR 0x80, CHR 0x89],
      [CHR 0xE2, CHR 0x80, CHR 0x8A], [CHR 0xE2, CHR 0x80, CHR 0xA8],
      [CHR 0xE2, CHR 0x80, CHR 0xA9], [CHR 0xE2, CHR 0x80, CHR 0xAF],
      [CHR 0xE2, CHR 0x81, CHR 0x9F], [CHR 0xE3, CHR 0x80, CHR 0x80]]"

text \<open>\<open>drop_any ps s\<close> removes leading pieces of \<open>ps\<close> (all non-empty) while one fits.\<close>

fun drop_any :: "string list \<Rightarrow> string \<Rightarrow> string" where
  "drop_any ps s =
     (case find (\<lambda>p. p \<noteq> [] \<and> starts_with p s) ps of
        None \<Rightarrow> s
      | Some p \<Rightarrow> (if p = [] \<or> s = [] then s else drop_any ps (drop (length p) s)))"

declare drop_any.simps [simp del]

definition trim_start :: "string \<Rightarrow> string" where
  "trim_start s = drop_any white_space s"

definition trim_end :: "string \<Rightarrow> string" where
  "trim_end s = rev (drop_any (map rev white_space) (rev s))"

definition trim :: "string \<Rightarrow> string" where
  "trim s = trim_end (trim_start s)"

text \<open>\<open>trim_end_matches(pattern)\<close> for a set of ASCII characters.\<close>

definition trim_end_matches :: "char list \<Rightarrow> string \<Rightarrow> string" where
  "trim_end_matches ds s = rev (dropWhile (\<lambda>c. c \<in> set ds) (rev s))"

definition is_ascii_whitespace :: "char \<Rightarrow> bool" where
  "is_ascii_whitespace c \<longleftrightarrow> c \<in> set [CHR 0x09, CHR 0x0A, CHR 0x0C, CHR 0x0D, CHR 0x20]"

text \<open>\<open>str::split_ascii_whitespace\<close>: the non-empty runs between ASCII white space.\<close>

definition split_ascii_whitespace :: "string \<Rightarrow> string list" where
  "split_ascii_whitespace s = filter (\<lambda>f. f \<noteq> []) (split_on is_ascii_whitespace s)"

text \<open>Scalar values of a UTF-8 string: the bytes that do not continue another.\<close>

definition is_continuation :: "char \<Rightarrow> bool" where
  "is_continuation c \<longleftrightarrow> (let n = (of_char c :: nat) in 128 \<le> n \<and> n < 192)"

definition chars_count :: "string \<Rightarrow> nat" where
  "chars_count s = length (filter (\<lambda>c. \<not> is_continuation c) s)"

definition is_ascii_lowercase :: "char \<Rightarrow> bool" where
  "is_ascii_lowercase c \<longleftrightarrow> (let n = (of_char c :: nat) in 97 \<le> n \<and> n \<le> 122)"

definition is_ascii_uppercase :: "char \<Rightarrow> bool" where
  "is_ascii_uppercase c \<longleftrightarrow> (let n = (of_char c :: nat) in 65 \<le> n \<and> n \<le> 90)"

definition is_ascii_alphanumeric :: "char \<Rightarrow> bool" where
  "is_ascii_alphanumeric c \<longleftrightarrow> is_ascii_lowercase c \<or> is_ascii_uppercase c \<or> is_ascii_digit c"

lemma split_on_nonempty [simp]: "split_on p s \<noteq> []"
  by (induction s) (auto split: list.splits)

lemma split_on_no_delim: "q \<in> set (split_on p s) \<Longrightarrow> c \<in> set q \<Longrightarrow> \<not> p c"
proof (induction s arbitrary: q c)
  case Nil
  then show ?case by simp
next
  case (Cons d cs)
  obtain a as where sp: "split_on p cs = a # as" by (cases "split_on p cs") simp_all
  have IH: "\<And>q c. q \<in> set (split_on p cs) \<Longrightarrow> c \<in> set q \<Longrightarrow> \<not> p c" by (rule Cons.IH)
  show ?case
  proof (cases "p d")
    case True
    then have "q = [] \<or> q \<in> set (split_on p cs)" using Cons.prems by auto
    then show ?thesis using IH Cons.prems(2) by auto
  next
    case False
    then have "q = d # a \<or> q \<in> set as" using Cons.prems sp by auto
    then show ?thesis using False IH [of a c] IH [of q c] sp Cons.prems(2) by auto
  qed
qed

lemma split_char_nonempty [simp]: "split_char d s \<noteq> []"
  by (simp add: split_char_def)

lemma split_char_no_delim: "q \<in> set (split_char d s) \<Longrightarrow> d \<notin> set q"
  using split_on_no_delim [of q "\<lambda>c. c = d" s d] by (auto simp: split_char_def)

lemma join_split_char: "join_with [d] (split_char d s) = s"
  unfolding split_char_def
proof (induction s)
  case Nil
  then show ?case by simp
next
  case (Cons c cs)
  obtain q qs where s: "split_on (\<lambda>c. c = d) cs = q # qs"
    by (cases "split_on (\<lambda>c. c = d) cs") simp_all
  then show ?case using Cons by (cases qs) auto
qed

lemma split_char_at: "d \<notin> set xs \<Longrightarrow> split_char d (xs @ d # ys) = xs # split_char d ys"
proof (induction xs)
  case Nil
  then show ?case by (simp add: split_char_def)
next
  case (Cons x xs)
  then show ?case by (auto simp: split_char_def)
qed

lemma split_join:
  "ps \<noteq> [] \<Longrightarrow> \<forall>p \<in> set ps. d \<notin> set p \<Longrightarrow> split_char d (join_with [d] ps) = ps"
proof (induction ps rule: induct_list012)
  case 1
  then show ?case by simp
next
  case (2 x)
  then show ?case by (induction x) (auto simp: split_char_def)
next
  case (3 x y zs)
  then show ?case by (simp add: split_char_at)
qed

lemma split_lines:
  "\<forall>t \<in> set ts. CHR 0x0A \<notin> set t \<Longrightarrow>
     split_char (CHR 0x0A) (concat (map (\<lambda>t. t @ [CHR 0x0A]) ts)) = ts @ [[]]"
  by (induction ts) (simp_all add: split_char_at, simp add: split_char_def)

lemma lines_of_lines:
  assumes "\<And>t. t \<in> set ts \<Longrightarrow> CHR 0x0A \<notin> set t \<and> (t = [] \<or> last t \<noteq> CHR 0x0D)"
  shows "lines_of (concat (map (\<lambda>t. t @ [CHR 0x0A]) ts)) = ts"
proof -
  have "map strip_cr ts = ts"
    using assms by (intro map_idI) (auto simp: strip_cr_def)
  then show ?thesis using assms by (simp add: lines_of_def split_lines)
qed

lemma split_char_eq: "split_char d s = ps \<longleftrightarrow> ps \<noteq> [] \<and> s = join_with [d] ps \<and> (\<forall>p \<in> set ps. d \<notin> set p)"
  using split_join join_split_char split_char_no_delim by (metis split_char_nonempty)

lemma strip_prefix_Some: "strip_prefix p s = Some t \<longleftrightarrow> s = p @ t"
  by (auto simp: strip_prefix_def starts_with_def) (metis append_take_drop_id)

lemma strip_suffix_Some: "strip_suffix p s = Some t \<longleftrightarrow> s = t @ p"
proof
  assume h: "strip_suffix p s = Some t"
  then have "take (length p) (rev s) = rev p" and t: "t = take (length s - length p) s"
    by (auto simp: strip_suffix_def ends_with_def starts_with_def split: if_splits)
  then have "rev (take (length p) (rev s)) = p" by simp
  then have "drop (length s - length p) s = p" by (simp add: rev_take)
  then show "s = t @ p" using t by (metis append_take_drop_id)
qed (simp add: strip_suffix_def ends_with_def starts_with_def)

lemma rsplit_once_Some:
  "rsplit_once d s = Some (a, b) \<longleftrightarrow> s = a @ d # b \<and> d \<notin> set b"
proof
  assume "rsplit_once d s = Some (a, b)"
  then have d: "d \<in> set (rev s)" and a: "a = rev (tl (dropWhile (\<lambda>c. c \<noteq> d) (rev s)))"
    and b: "b = rev (takeWhile (\<lambda>c. c \<noteq> d) (rev s))"
    by (auto simp: rsplit_once_def split: if_splits)
  from d obtain ys zs where s: "rev s = ys @ d # zs" "d \<notin> set ys"
    using split_list_first by metis
  then have t: "takeWhile (\<lambda>c. c \<noteq> d) (rev s) = ys" "dropWhile (\<lambda>c. c \<noteq> d) (rev s) = d # zs"
    by (auto simp: takeWhile_append dropWhile_append)
  have "s = rev zs @ d # rev ys" using s(1) by (metis rev_append rev_rev_ident rev.simps(2) append.assoc append_Cons append_Nil)
  then show "s = a @ d # b \<and> d \<notin> set b" using t a b s(2) by simp
next
  assume h: "s = a @ d # b \<and> d \<notin> set b"
  then have "takeWhile (\<lambda>c. c \<noteq> d) (rev s) = rev b" "dropWhile (\<lambda>c. c \<noteq> d) (rev s) = d # rev a"
    by (auto simp: takeWhile_append dropWhile_append)
  then show "rsplit_once d s = Some (a, b)" using h by (simp add: rsplit_once_def)
qed

lemma rsplit_once_None: "rsplit_once d s = None \<longleftrightarrow> d \<notin> set s"
  by (simp add: rsplit_once_def)

section \<open>UTF-8\<close>

text \<open>
  \<open>str::from_utf8\<close> accepts the well-formed byte sequences of the Unicode standard: no overlong form,
  no surrogate, nothing above U+10FFFF. The error text is shortened to its fixed part.
\<close>

definition is_cont :: "nat \<Rightarrow> bool" where
  "is_cont b \<longleftrightarrow> 128 \<le> b \<and> b \<le> 191"

fun utf8_bytes :: "nat list \<Rightarrow> bool" where
  "utf8_bytes [] \<longleftrightarrow> True"
| "utf8_bytes (a # bs) \<longleftrightarrow>
     (if a < 128 then utf8_bytes bs
      else if 194 \<le> a \<and> a \<le> 223 then
        (case bs of b # cs \<Rightarrow> is_cont b \<and> utf8_bytes cs | _ \<Rightarrow> False)
      else if 224 \<le> a \<and> a \<le> 239 then
        (case bs of
           b # c # cs \<Rightarrow> is_cont b \<and> is_cont c \<and> (a = 224 \<longrightarrow> 160 \<le> b) \<and> (a = 237 \<longrightarrow> b \<le> 159)
             \<and> utf8_bytes cs
         | _ \<Rightarrow> False)
      else if 240 \<le> a \<and> a \<le> 244 then
        (case bs of
           b # c # d # cs \<Rightarrow> is_cont b \<and> is_cont c \<and> is_cont d \<and> (a = 240 \<longrightarrow> 144 \<le> b)
             \<and> (a = 244 \<longrightarrow> b \<le> 143) \<and> utf8_bytes cs
         | _ \<Rightarrow> False)
      else False)"

definition from_utf8 :: "string \<Rightarrow> string result" where
  "from_utf8 s = (if utf8_bytes (map of_char s) then Inr s else err ''invalid utf-8 sequence'')"

lemma utf8_ascii: "\<forall>b \<in> set bs. b < 128 \<Longrightarrow> utf8_bytes bs"
  by (induction bs) simp_all

end
