(* ===== verification/Model.thy ===== *)
theory Model
  imports RustStr
begin

text \<open>
  \<open>src/model.rs\<close>: scenario specifications and their validation, the workload plan each
  specification implies, the server policy, the observation a run accumulates and the result
  the harness persists and validates. Integers have the widths of the code; the arithmetic of
  a plan is the checked arithmetic of the code, in its order.
\<close>

section \<open>Constants\<close>

definition RESULT_SCHEMA_VERSION :: u32 where "RESULT_SCHEMA_VERSION = 4"
definition AUDIO_PACKETS_PER_SECOND :: u32 where "AUDIO_PACKETS_PER_SECOND = 50"
definition AUDIO_PACKET_PAYLOAD_BYTES :: nat where "AUDIO_PACKET_PAYLOAD_BYTES = 80"
definition VIDEO_FRAMES_PER_SECOND :: u32 where "VIDEO_FRAMES_PER_SECOND = 30"
definition VIDEO_KEYFRAME_INTERVAL :: u64 where "VIDEO_KEYFRAME_INTERVAL = 60"
definition VIDEO_LOW_DELTA_PACKETS :: u64 where "VIDEO_LOW_DELTA_PACKETS = 1"
definition VIDEO_LOW_KEYFRAME_PACKETS :: u64 where "VIDEO_LOW_KEYFRAME_PACKETS = 2"
definition VIDEO_LOW_PACKET_PAYLOAD_BYTES :: nat where "VIDEO_LOW_PACKET_PAYLOAD_BYTES = 600"
definition VIDEO_HIGH_DELTA_PACKETS :: u64 where "VIDEO_HIGH_DELTA_PACKETS = 14"
definition VIDEO_HIGH_KEYFRAME_PACKETS :: u64 where "VIDEO_HIGH_KEYFRAME_PACKETS = 20"
definition VIDEO_HIGH_PACKET_PAYLOAD_BYTES :: nat where "VIDEO_HIGH_PACKET_PAYLOAD_BYTES = 1100"
definition MAX_OFFERED_PACKETS :: u64 where "MAX_OFFERED_PACKETS = 100000000"
definition MAX_EXPECTED_DELIVERIES :: u64 where "MAX_EXPECTED_DELIVERIES = 1000000000"

lemmas model_consts =
  RESULT_SCHEMA_VERSION_def AUDIO_PACKETS_PER_SECOND_def AUDIO_PACKET_PAYLOAD_BYTES_def
  VIDEO_FRAMES_PER_SECOND_def VIDEO_KEYFRAME_INTERVAL_def VIDEO_LOW_DELTA_PACKETS_def
  VIDEO_LOW_KEYFRAME_PACKETS_def VIDEO_LOW_PACKET_PAYLOAD_BYTES_def
  VIDEO_HIGH_DELTA_PACKETS_def VIDEO_HIGH_KEYFRAME_PACKETS_def
  VIDEO_HIGH_PACKET_PAYLOAD_BYTES_def MAX_OFFERED_PACKETS_def MAX_EXPECTED_DELIVERIES_def

section \<open>Data\<close>

datatype scenario_spec =
    Smoke (sp_receivers: u32) (sp_packets: u32)
  | AudioMesh (sp_rooms: u32) (sp_peers: u32) (sp_seconds: u32)
  | VideoGallery (sp_rooms: u32) (sp_peers: u32) (sp_publishers: u32) (sp_seconds: u32)
  | MixedConference (sp_rooms: u32) (sp_peers: u32) (sp_audio_publishers: u32)
      (sp_video_publishers: u32) (sp_seconds: u32)

record workload_plan =
  wp_streams :: u64
  wp_routes :: u64
  wp_offered_packets :: u64
  wp_offered_payload_bytes :: u64
  wp_expected_deliveries :: u64
  wp_expected_delivery_payload_bytes :: u64

record server_policy =
  media_workers :: u32
  room_size :: u32
  max_pre_auth_websocket_sessions_per_origin :: u32
  max_active_audio_speakers :: u32
  max_video_downloads_per_receiver :: u32
  max_bitrate_in_bps :: u64
  max_bitrate_out_bps :: u64

record correctness_summary =
  missing_packets :: u64
  duplicate_packets :: u64
  out_of_order_packets :: u64
  unexpected_packets :: u64
  payload_mismatches :: u64

record run_observation =
  obs_offered_packets :: u64
  obs_offered_payload_bytes :: u64
  obs_delivered_packets :: u64
  obs_delivered_payload_bytes :: u64
  obs_correctness :: correctness_summary
  obs_elapsed_ms :: u64
  obs_max_send_lag_ms :: u64

record scenario_result =
  res_schema_version :: u32
  res_profile :: string
  res_o_sfu_revision :: "string option"
  res_scenario :: scenario_spec
  res_server_policy :: server_policy
  res_plan :: workload_plan
  res_offered_packets :: u64
  res_offered_payload_bytes :: u64
  res_delivered_packets :: u64
  res_delivered_payload_bytes :: u64
  res_correctness :: correctness_summary
  res_elapsed_ms :: u64
  res_max_send_lag_ms :: u64

section \<open>Checked plan arithmetic\<close>

definition u64_from :: "u32 \<Rightarrow> u64" where
  "u64_from x = ucast x"

definition plan_add :: "u64 \<Rightarrow> u64 \<Rightarrow> u64 result" where
  "plan_add left right = ok_or ''workload cardinality overflowed'' (checked_add left right)"

definition plan_mul :: "u64 \<Rightarrow> u64 \<Rightarrow> u64 result" where
  "plan_mul left right = ok_or ''workload cardinality overflowed'' (checked_mul left right)"

definition byte_count :: "nat \<Rightarrow> u64 result" where
  "byte_count value = ok_or ''payload byte count exceeds u64'' (try_to value)"

definition new_plan ::
  "u64 \<Rightarrow> u64 \<Rightarrow> u64 \<Rightarrow> u64 \<Rightarrow> u64 \<Rightarrow> u64 \<Rightarrow> workload_plan result" where
  "new_plan streams routes offered_packets offered_payload_bytes expected_deliveries
      expected_delivery_payload_bytes =
     ensure (streams > 0) ''workload must contain a stream'' (
     ensure (routes > 0) ''workload must contain a route'' (
     Inr \<lparr>wp_streams = streams, wp_routes = routes,
          wp_offered_packets = offered_packets,
          wp_offered_payload_bytes = offered_payload_bytes,
          wp_expected_deliveries = expected_deliveries,
          wp_expected_delivery_payload_bytes = expected_delivery_payload_bytes\<rparr>))"

text \<open>Exact low and high VP8 packet counts of one publisher.\<close>

definition video_packets_per_layer :: "u32 \<Rightarrow> (u64 \<times> u64) result" where
  "video_packets_per_layer seconds =
     bind_ok (plan_mul (u64_from seconds) (u64_from VIDEO_FRAMES_PER_SECOND)) (\<lambda>frames.
     let keyframes = div_ceil frames VIDEO_KEYFRAME_INTERVAL in
     bind_ok (plan_mul (frames - keyframes) VIDEO_LOW_DELTA_PACKETS) (\<lambda>low_delta.
     bind_ok (plan_mul keyframes VIDEO_LOW_KEYFRAME_PACKETS) (\<lambda>low_key.
     bind_ok (plan_add low_delta low_key) (\<lambda>low_packets.
     bind_ok (plan_mul (frames - keyframes) VIDEO_HIGH_DELTA_PACKETS) (\<lambda>high_delta.
     bind_ok (plan_mul keyframes VIDEO_HIGH_KEYFRAME_PACKETS) (\<lambda>high_key.
     bind_ok (plan_add high_delta high_key) (\<lambda>high_packets.
     Inr (low_packets, high_packets))))))))"

definition audio_plan :: "u32 \<Rightarrow> u32 \<Rightarrow> u32 \<Rightarrow> u32 \<Rightarrow> workload_plan result" where
  "audio_plan rooms peers publishers seconds =
     bind_ok (plan_mul (u64_from seconds) (u64_from AUDIO_PACKETS_PER_SECOND))
       (\<lambda>packets_per_publisher.
     bind_ok (plan_mul (u64_from rooms) (u64_from publishers)) (\<lambda>streams.
     bind_ok (ok_or ''audio workload requires at least two peers''
       (checked_sub (u64_from peers) 1)) (\<lambda>remote_peers.
     bind_ok (plan_mul streams remote_peers) (\<lambda>routes.
     bind_ok (plan_mul streams packets_per_publisher) (\<lambda>offered_packets.
     bind_ok (plan_mul routes packets_per_publisher) (\<lambda>expected_deliveries.
     bind_ok (byte_count AUDIO_PACKET_PAYLOAD_BYTES) (\<lambda>payload_bytes.
     bind_ok (plan_mul offered_packets payload_bytes) (\<lambda>offered_payload.
     bind_ok (plan_mul expected_deliveries payload_bytes) (\<lambda>expected_payload.
     new_plan streams routes offered_packets offered_payload expected_deliveries
       expected_payload)))))))))"

definition video_plan :: "u32 \<Rightarrow> u32 \<Rightarrow> u32 \<Rightarrow> u32 \<Rightarrow> workload_plan result" where
  "video_plan rooms peers publishers seconds =
     (let rooms = u64_from rooms; peers = u64_from peers; publishers = u64_from publishers in
     bind_ok (video_packets_per_layer seconds) (\<lambda>(low_packets, high_packets).
     bind_ok (plan_mul rooms publishers) (\<lambda>sources.
     bind_ok (plan_mul sources 2) (\<lambda>streams.
     bind_ok (plan_mul sources low_packets) (\<lambda>offered_low_packets.
     bind_ok (plan_mul sources high_packets) (\<lambda>offered_high_packets.
     bind_ok (plan_add offered_low_packets offered_high_packets) (\<lambda>offered_packets.
     bind_ok (byte_count VIDEO_LOW_PACKET_PAYLOAD_BYTES) (\<lambda>low_payload_bytes.
     bind_ok (byte_count VIDEO_HIGH_PACKET_PAYLOAD_BYTES) (\<lambda>high_payload_bytes.
     bind_ok (plan_mul offered_low_packets low_payload_bytes) (\<lambda>offered_low_payload.
     bind_ok (plan_mul offered_high_packets high_payload_bytes) (\<lambda>offered_high_payload.
     bind_ok (plan_add offered_low_payload offered_high_payload) (\<lambda>offered_payload_bytes.
     bind_ok (ok_or ''video gallery requires at least two peers'' (checked_sub peers 1))
       (\<lambda>remote_peers.
     bind_ok (plan_mul publishers remote_peers) (\<lambda>routes_per_room.
     let high_routes_per_room = (if publishers = 1 then remote_peers else peers) in
     bind_ok (ok_or ''video route count underflowed''
       (checked_sub routes_per_room high_routes_per_room)) (\<lambda>low_routes_per_room.
     bind_ok (plan_mul rooms high_routes_per_room) (\<lambda>high_routes.
     bind_ok (plan_mul rooms low_routes_per_room) (\<lambda>low_routes.
     bind_ok (plan_mul high_routes high_packets) (\<lambda>expected_high_deliveries.
     bind_ok (plan_mul low_routes low_packets) (\<lambda>expected_low_deliveries.
     bind_ok (plan_add expected_high_deliveries expected_low_deliveries)
       (\<lambda>expected_deliveries.
     bind_ok (plan_mul expected_high_deliveries high_payload_bytes) (\<lambda>high_payload.
     bind_ok (plan_mul expected_low_deliveries low_payload_bytes) (\<lambda>low_payload.
     bind_ok (plan_add high_payload low_payload) (\<lambda>expected_delivery_payload_bytes.
     bind_ok (plan_mul rooms routes_per_room) (\<lambda>routes.
     new_plan streams routes offered_packets offered_payload_bytes expected_deliveries
       expected_delivery_payload_bytes))))))))))))))))))))))))"

definition mixed_plan ::
  "u32 \<Rightarrow> u32 \<Rightarrow> u32 \<Rightarrow> u32 \<Rightarrow> u32 \<Rightarrow> workload_plan result" where
  "mixed_plan rooms peers audio_publishers video_publishers seconds =
     bind_ok (audio_plan rooms peers audio_publishers seconds) (\<lambda>audio.
     bind_ok (video_plan rooms peers video_publishers seconds) (\<lambda>video.
     bind_ok (plan_add (wp_streams audio) (wp_streams video)) (\<lambda>streams.
     bind_ok (plan_add (wp_routes audio) (wp_routes video)) (\<lambda>routes.
     bind_ok (plan_add (wp_offered_packets audio) (wp_offered_packets video)) (\<lambda>offered.
     bind_ok (plan_add (wp_offered_payload_bytes audio) (wp_offered_payload_bytes video))
       (\<lambda>offered_payload.
     bind_ok (plan_add (wp_expected_deliveries audio) (wp_expected_deliveries video))
       (\<lambda>expected.
     bind_ok (plan_add (wp_expected_delivery_payload_bytes audio)
         (wp_expected_delivery_payload_bytes video)) (\<lambda>expected_payload.
     new_plan streams routes offered offered_payload expected expected_payload))))))))"

definition smoke_plan :: "u32 \<Rightarrow> u32 \<Rightarrow> workload_plan result" where
  "smoke_plan receivers packets =
     (let offered_packets = u64_from packets; routes = u64_from receivers in
     bind_ok (byte_count AUDIO_PACKET_PAYLOAD_BYTES) (\<lambda>payload_bytes.
     bind_ok (plan_mul offered_packets payload_bytes) (\<lambda>offered_payload.
     bind_ok (plan_mul routes offered_packets) (\<lambda>expected.
     bind_ok (bind_ok (plan_mul routes offered_packets) (\<lambda>deliveries.
       plan_mul deliveries payload_bytes)) (\<lambda>expected_payload.
     new_plan 1 routes offered_packets offered_payload expected expected_payload)))))"

fun plan :: "scenario_spec \<Rightarrow> workload_plan result" where
  "plan (Smoke receivers packets) = smoke_plan receivers packets"
| "plan (AudioMesh rooms peers seconds) = audio_plan rooms peers peers seconds"
| "plan (VideoGallery rooms peers publishers seconds) =
     video_plan rooms peers publishers seconds"
| "plan (MixedConference rooms peers audio_publishers video_publishers seconds) =
     mixed_plan rooms peers audio_publishers video_publishers seconds"

section \<open>Specifications\<close>

definition validate_plan_size :: "scenario_spec \<Rightarrow> unit result" where
  "validate_plan_size spec =
     bind_ok (plan spec) (\<lambda>p.
     ensure (wp_offered_packets p \<le> MAX_OFFERED_PACKETS)
       ''workload exceeds the offered packet limit'' (
     ensure (wp_expected_deliveries p \<le> MAX_EXPECTED_DELIVERIES)
       ''workload exceeds the delivery limit'' (
     Inr ())))"

definition smoke :: "u32 \<Rightarrow> u32 \<Rightarrow> scenario_spec result" where
  "smoke receivers packets =
     ensure (1 \<le> receivers \<and> receivers \<le> 99) ''receivers must be between 1 and 99'' (
     ensure (1 \<le> packets \<and> packets \<le> 180000) ''packets must be between 1 and 180000'' (
     Inr (Smoke receivers packets)))"

definition audio_mesh :: "u32 \<Rightarrow> u32 \<Rightarrow> u32 \<Rightarrow> scenario_spec result" where
  "audio_mesh rooms peers seconds =
     ensure (1 \<le> rooms \<and> rooms \<le> 64) ''rooms must be between 1 and 64'' (
     ensure (2 \<le> peers \<and> peers \<le> 100) ''peers must be between 2 and 100'' (
     ensure (1 \<le> seconds \<and> seconds \<le> 3600) ''seconds must be between 1 and 3600'' (
     let spec = AudioMesh rooms peers seconds in
     bind_ok (validate_plan_size spec) (\<lambda>_. Inr spec))))"

definition video_gallery :: "u32 \<Rightarrow> u32 \<Rightarrow> u32 \<Rightarrow> u32 \<Rightarrow> scenario_spec result" where
  "video_gallery rooms peers publishers seconds =
     ensure (1 \<le> rooms \<and> rooms \<le> 64) ''rooms must be between 1 and 64'' (
     ensure (3 \<le> peers \<and> peers \<le> 100) ''peers must be between 3 and 100'' (
     ensure (publishers > 0) ''publishers must be greater than zero'' (
     ensure (publishers \<le> peers) ''publishers cannot exceed peers'' (
     ensure (publishers \<le> 10) ''publishers cannot exceed ten video downloads'' (
     ensure (1 \<le> seconds \<and> seconds \<le> 3600) ''seconds must be between 1 and 3600'' (
     let spec = VideoGallery rooms peers publishers seconds in
     bind_ok (validate_plan_size spec) (\<lambda>_. Inr spec)))))))"

definition mixed_conference ::
  "u32 \<Rightarrow> u32 \<Rightarrow> u32 \<Rightarrow> u32 \<Rightarrow> u32 \<Rightarrow> scenario_spec result" where
  "mixed_conference rooms peers audio_publishers video_publishers seconds =
     ensure (1 \<le> rooms \<and> rooms \<le> 64) ''rooms must be between 1 and 64'' (
     ensure (3 \<le> peers \<and> peers \<le> 100) ''peers must be between 3 and 100'' (
     ensure (audio_publishers > 0) ''audio publishers must be greater than zero'' (
     ensure (audio_publishers \<le> peers) ''audio publishers cannot exceed peers'' (
     ensure (video_publishers > 0) ''video publishers must be greater than zero'' (
     ensure (video_publishers \<le> audio_publishers)
       ''video publishers must be a subset of audio publishers'' (
     ensure (video_publishers \<le> 10) ''video publishers cannot exceed ten video downloads'' (
     ensure (1 \<le> seconds \<and> seconds \<le> 3600) ''seconds must be between 1 and 3600'' (
     let spec = MixedConference rooms peers audio_publishers video_publishers seconds in
     bind_ok (validate_plan_size spec) (\<lambda>_. Inr spec)))))))))"

fun validate_spec :: "scenario_spec \<Rightarrow> unit result" where
  "validate_spec (Smoke receivers packets) =
     bind_ok (smoke receivers packets) (\<lambda>_. Inr ())"
| "validate_spec (AudioMesh rooms peers seconds) =
     bind_ok (audio_mesh rooms peers seconds) (\<lambda>_. Inr ())"
| "validate_spec (VideoGallery rooms peers publishers seconds) =
     bind_ok (video_gallery rooms peers publishers seconds) (\<lambda>_. Inr ())"
| "validate_spec (MixedConference rooms peers audio_publishers video_publishers seconds) =
     bind_ok (mixed_conference rooms peers audio_publishers video_publishers seconds)
       (\<lambda>_. Inr ())"

fun room_count :: "scenario_spec \<Rightarrow> u32" where
  "room_count (Smoke _ _) = 1"
| "room_count (AudioMesh rooms _ _) = rooms"
| "room_count (VideoGallery rooms _ _ _) = rooms"
| "room_count (MixedConference rooms _ _ _ _) = rooms"

text \<open>\<open>receivers + 1\<close> wraps in a release build; validation keeps it at most 100.\<close>

fun peers_per_room :: "scenario_spec \<Rightarrow> u32" where
  "peers_per_room (Smoke receivers _) = receivers + 1"
| "peers_per_room (AudioMesh _ peers _) = peers"
| "peers_per_room (VideoGallery _ peers _ _) = peers"
| "peers_per_room (MixedConference _ peers _ _ _) = peers"

fun audio_publishers_per_room :: "scenario_spec \<Rightarrow> u32" where
  "audio_publishers_per_room (Smoke _ _) = 1"
| "audio_publishers_per_room (AudioMesh _ peers _) = peers"
| "audio_publishers_per_room (VideoGallery _ _ _ _) = 0"
| "audio_publishers_per_room (MixedConference _ _ audio_publishers _ _) = audio_publishers"

fun video_publishers_per_room :: "scenario_spec \<Rightarrow> u32" where
  "video_publishers_per_room (Smoke _ _) = 0"
| "video_publishers_per_room (AudioMesh _ _ _) = 0"
| "video_publishers_per_room (VideoGallery _ _ publishers _) = publishers"
| "video_publishers_per_room (MixedConference _ _ _ video_publishers _) = video_publishers"

fun duration_seconds :: "scenario_spec \<Rightarrow> u32" where
  "duration_seconds (Smoke _ packets) = div_ceil packets AUDIO_PACKETS_PER_SECOND"
| "duration_seconds (AudioMesh _ _ seconds) = seconds"
| "duration_seconds (VideoGallery _ _ _ seconds) = seconds"
| "duration_seconds (MixedConference _ _ _ _ seconds) = seconds"

fun profile :: "scenario_spec \<Rightarrow> string" where
  "profile (Smoke _ _) = ''opus-fanout-smoke-v3''"
| "profile (AudioMesh _ _ _) = ''opus-20ms-audio-mesh-v2''"
| "profile (VideoGallery _ _ _ _) = ''vp8-simulcast-gallery-v2''"
| "profile (MixedConference _ _ _ _ _) = ''opus-vp8-mixed-conference-v2''"

fun active_audio_speakers :: "scenario_spec \<Rightarrow> u32" where
  "active_audio_speakers (AudioMesh _ peers _) = peers"
| "active_audio_speakers (MixedConference _ _ audio_publishers _ _) = audio_publishers"
| "active_audio_speakers (Smoke _ _) = 4"
| "active_audio_speakers (VideoGallery _ _ _ _) = 4"

definition policy_for_scenario :: "scenario_spec \<Rightarrow> server_policy" where
  "policy_for_scenario spec =
     \<lparr>media_workers = 1, room_size = peers_per_room spec,
      max_pre_auth_websocket_sessions_per_origin =
        saturating_mul (room_count spec) (peers_per_room spec),
      max_active_audio_speakers = active_audio_speakers spec,
      max_video_downloads_per_receiver = 10,
      max_bitrate_in_bps = 8000000, max_bitrate_out_bps = 10000000\<rparr>"

section \<open>Observations\<close>

definition no_correctness :: correctness_summary where
  "no_correctness =
     \<lparr>missing_packets = 0, duplicate_packets = 0, out_of_order_packets = 0,
      unexpected_packets = 0, payload_mismatches = 0\<rparr>"

definition discrepancy_count :: "correctness_summary \<Rightarrow> u64" where
  "discrepancy_count c =
     saturating_add (saturating_add (saturating_add (saturating_add
       (missing_packets c) (duplicate_packets c)) (out_of_order_packets c))
       (unexpected_packets c)) (payload_mismatches c)"

definition merge_correctness ::
  "correctness_summary \<Rightarrow> correctness_summary \<Rightarrow> correctness_summary" where
  "merge_correctness c d =
     \<lparr>missing_packets = saturating_add (missing_packets c) (missing_packets d),
      duplicate_packets = saturating_add (duplicate_packets c) (duplicate_packets d),
      out_of_order_packets = saturating_add (out_of_order_packets c) (out_of_order_packets d),
      unexpected_packets = saturating_add (unexpected_packets c) (unexpected_packets d),
      payload_mismatches = saturating_add (payload_mismatches c) (payload_mismatches d)\<rparr>"

definition no_observation :: run_observation where
  "no_observation =
     \<lparr>obs_offered_packets = 0, obs_offered_payload_bytes = 0, obs_delivered_packets = 0,
      obs_delivered_payload_bytes = 0, obs_correctness = no_correctness, obs_elapsed_ms = 0,
      obs_max_send_lag_ms = 0\<rparr>"

definition merge_observation :: "run_observation \<Rightarrow> run_observation \<Rightarrow> run_observation" where
  "merge_observation a b =
     \<lparr>obs_offered_packets = saturating_add (obs_offered_packets a) (obs_offered_packets b),
      obs_offered_payload_bytes =
        saturating_add (obs_offered_payload_bytes a) (obs_offered_payload_bytes b),
      obs_delivered_packets = saturating_add (obs_delivered_packets a) (obs_delivered_packets b),
      obs_delivered_payload_bytes =
        saturating_add (obs_delivered_payload_bytes a) (obs_delivered_payload_bytes b),
      obs_correctness = merge_correctness (obs_correctness a) (obs_correctness b),
      obs_elapsed_ms = max (obs_elapsed_ms a) (obs_elapsed_ms b),
      obs_max_send_lag_ms = max (obs_max_send_lag_ms a) (obs_max_send_lag_ms b)\<rparr>"

section \<open>Results\<close>

text \<open>\<open>O_SFU_REVISION\<close> is the revision the build script locked: an argument here.\<close>

definition completed :: "string \<Rightarrow> scenario_spec \<Rightarrow> run_observation \<Rightarrow> scenario_result result" where
  "completed o_sfu_revision spec observation =
     bind_ok (plan spec) (\<lambda>p.
     Inr \<lparr>res_schema_version = RESULT_SCHEMA_VERSION, res_profile = profile spec,
          res_o_sfu_revision = Some o_sfu_revision, res_scenario = spec,
          res_server_policy = policy_for_scenario spec, res_plan = p,
          res_offered_packets = obs_offered_packets observation,
          res_offered_payload_bytes = obs_offered_payload_bytes observation,
          res_delivered_packets = obs_delivered_packets observation,
          res_delivered_payload_bytes = obs_delivered_payload_bytes observation,
          res_correctness = obs_correctness observation,
          res_elapsed_ms = max (obs_elapsed_ms observation) 1,
          res_max_send_lag_ms = obs_max_send_lag_ms observation\<rparr>)"

definition achieved_deliveries_per_second :: "scenario_result \<Rightarrow> u64" where
  "achieved_deliveries_per_second r =
     (let scaled = saturating_mul (ucast (res_delivered_packets r) :: u128) 1000;
          rate = (case checked_div scaled (ucast (max (res_elapsed_ms r) 1)) of
                    None \<Rightarrow> 0 | Some q \<Rightarrow> q)
      in clamp_to (unat rate))"

definition validate_result :: "scenario_result \<Rightarrow> scenario_spec \<Rightarrow> unit result" where
  "validate_result r spec =
     bind_ok (validate_spec spec) (\<lambda>_.
     bind_ok (plan spec) (\<lambda>p.
     ensure (res_schema_version r = RESULT_SCHEMA_VERSION)
       (''unsupported result schema '' @ show_word (res_schema_version r)) (
     ensure (res_scenario r = spec) ''scenario specification changed'' (
     ensure (res_profile r = profile spec) ''media profile changed'' (
     ensure (res_server_policy r = policy_for_scenario spec) ''server policy changed'' (
     ensure (res_plan r = p) ''workload plan changed'' (
     ensure (res_offered_packets r = wp_offered_packets p) ''offered packet count changed'' (
     ensure (res_offered_payload_bytes r = wp_offered_payload_bytes p)
       ''offered payload byte count changed'' (
     ensure (res_delivered_packets r = wp_expected_deliveries p)
       (''delivered '' @ show_word (res_delivered_packets r) @ '' of ''
          @ show_word (wp_expected_deliveries p) @ '' packets'') (
     ensure (res_delivered_payload_bytes r = wp_expected_delivery_payload_bytes p)
       ''delivered payload byte count changed'' (
     ensure (discrepancy_count (res_correctness r) = 0)
       (''fixed work contains '' @ show_word (discrepancy_count (res_correctness r))
          @ '' packet discrepancies'') (
     ensure (res_elapsed_ms r > 0) ''elapsed time must be greater than zero'' (
     Inr ())))))))))))))"

end
