(* ===== verification/Payload.thy ===== *)
theory Payload
  imports Model
begin

unbundle bit_operations_syntax

text \<open>
  The load identity of \<open>src/client/media.rs\<close>: packet phases, payload kinds and video layers with
  their byte codes, \<open>encoded_payload\<close>, which writes an identity and its deterministic body into a
  packet, and \<open>inspect_payload\<close>, which finds and checks it. Payloads are byte lists; a field is
  big-endian as in the code. The main result characterises the payloads that inspection accepts
  as exactly the encodings.
\<close>

type_synonym bytes = "u8 list"

section \<open>Byte codes\<close>

datatype packet_phase = WarmupPacket | MeasuredPacket
datatype payload_kind = Audio | Video
datatype video_layer = Low | High

text \<open>An enumeration with a byte code and a partial inverse.\<close>

locale byte_code =
  fixes code :: "'a \<Rightarrow> u8" and decode :: "u8 \<Rightarrow> 'a result"
  assumes decode_code: "decode (code x) = Inr x"
    and code_decode: "decode b = Inr x \<Longrightarrow> code x = b"
begin

lemma code_inject: "code x = code y \<longleftrightarrow> x = y"
  using decode_code by (metis sum.inject(2))

lemma decode_Inr: "decode b = Inr x \<longleftrightarrow> b = code x"
  using decode_code code_decode by blast

lemma decode_fails: "\<not> is_ok (decode b) \<longleftrightarrow> b \<notin> range code"
  by (auto simp: is_ok_iff decode_Inr)

end

fun phase_code :: "packet_phase \<Rightarrow> u8" where
  "phase_code WarmupPacket = 0"
| "phase_code MeasuredPacket = 1"

definition phase_of_code :: "u8 \<Rightarrow> packet_phase result" where
  "phase_of_code value =
     (if value = 0 then Inr WarmupPacket else if value = 1 then Inr MeasuredPacket
      else err (''unknown packet phase '' @ show_word value))"

fun kind_code :: "payload_kind \<Rightarrow> u8" where
  "kind_code Audio = 1"
| "kind_code Video = 2"

definition kind_of_code :: "u8 \<Rightarrow> payload_kind result" where
  "kind_of_code value =
     (if value = 1 then Inr Audio else if value = 2 then Inr Video
      else err (''unknown payload kind '' @ show_word value))"

fun rid :: "video_layer \<Rightarrow> string" where
  "rid Low = ''lo''"
| "rid High = ''hi''"

fun packet_payload_len :: "video_layer \<Rightarrow> nat" where
  "packet_payload_len Low = VIDEO_LOW_PACKET_PAYLOAD_BYTES"
| "packet_payload_len High = VIDEO_HIGH_PACKET_PAYLOAD_BYTES"

fun layer_code :: "video_layer \<Rightarrow> u8" where
  "layer_code Low = 1"
| "layer_code High = 2"

definition layer_of_code :: "u8 \<Rightarrow> video_layer result" where
  "layer_of_code value =
     (if value = 1 then Inr Low else if value = 2 then Inr High
      else err (''unknown video layer '' @ show_word value))"

interpretation phase_byte: byte_code phase_code phase_of_code
proof
  show "phase_of_code (phase_code x) = Inr x" for x by (cases x) (simp_all add: phase_of_code_def)
qed (auto simp: phase_of_code_def split: if_splits)

interpretation kind_byte: byte_code kind_code kind_of_code
proof
  show "kind_of_code (kind_code x) = Inr x" for x by (cases x) (simp_all add: kind_of_code_def)
qed (auto simp: kind_of_code_def split: if_splits)

interpretation layer_byte: byte_code layer_code layer_of_code
proof
  show "layer_of_code (layer_code x) = Inr x" for x by (cases x) (simp_all add: layer_of_code_def)
qed (auto simp: layer_of_code_def split: if_splits)

section \<open>Byte order\<close>

definition be16 :: "u16 \<Rightarrow> bytes" where
  "be16 x = [ucast (drop_bit 8 x), ucast x]"

definition be32 :: "u32 \<Rightarrow> bytes" where
  "be32 x = [ucast (drop_bit 24 x), ucast (drop_bit 16 x), ucast (drop_bit 8 x), ucast x]"

fun from_be16 :: "bytes \<Rightarrow> u16" where
  "from_be16 [a, b] = push_bit 8 (ucast a) OR ucast b"
| "from_be16 _ = 0"

fun from_be32 :: "bytes \<Rightarrow> u32" where
  "from_be32 [a, b, c, d] =
     push_bit 24 (ucast a) OR push_bit 16 (ucast b) OR push_bit 8 (ucast c) OR ucast d"
| "from_be32 _ = 0"

lemma length_be [simp]: "length (be16 x) = 2" "length (be32 y) = 4"
  by (simp_all add: be16_def be32_def)

lemma from_be16_be16 [simp]: "from_be16 (be16 x) = x"
  by (rule bit_word_eqI) (auto simp: be16_def bit_simps)

lemma from_be32_be32 [simp]: "from_be32 (be32 x) = x"
proof (rule bit_word_eqI)
  fix n
  assume "n < LENGTH(32)"
  consider "n < 8" | "8 \<le> n" "n < 16" | "16 \<le> n" "n < 24" | "24 \<le> n" by linarith
  then show "bit (from_be32 (be32 x)) n \<longleftrightarrow> bit x n"
    by cases (use \<open>n < LENGTH(32)\<close> in \<open>auto simp: be32_def bit_simps\<close>)
qed

lemma be16_from_be16: "length bs = 2 \<Longrightarrow> be16 (from_be16 bs) = bs"
proof -
  assume "length bs = 2"
  then obtain a b where bs: "bs = [a, b]" by (auto simp: length_Suc_conv numeral_2_eq_2)
  have "ucast (drop_bit 8 (from_be16 bs)) = a" "ucast (from_be16 bs) = b"
    unfolding bs by (rule bit_word_eqI, auto simp: bit_simps dest: bit_imp_le_length)+
  then show ?thesis by (simp add: be16_def bs)
qed

lemma be32_from_be32: "length bs = 4 \<Longrightarrow> be32 (from_be32 bs) = bs"
proof -
  assume "length bs = 4"
  then obtain a b c d where bs: "bs = [a, b, c, d]"
    by (auto simp: length_Suc_conv numeral_eq_Suc)
  have "ucast (drop_bit 24 (from_be32 bs)) = a" "ucast (drop_bit 16 (from_be32 bs)) = b"
    "ucast (drop_bit 8 (from_be32 bs)) = c" "ucast (from_be32 bs) = d"
    unfolding bs by (rule bit_word_eqI, auto simp: bit_simps dest: bit_imp_le_length)+
  then show ?thesis by (simp add: be32_def bs)
qed

section \<open>Identities\<close>

record packet_identity =
  id_kind :: payload_kind
  id_phase :: packet_phase
  id_layer :: "video_layer option"
  id_source :: u16
  id_ordinal :: u32
  id_frame :: u32
  id_fragment :: u16
  id_fragments :: u16

record payload_inspection =
  identity :: packet_identity
  payload_matches :: bool

definition IDENTITY_MAGIC :: bytes where "IDENTITY_MAGIC = [0x4F, 0x53, 0x46, 0x55]"
definition IDENTITY_VERSION :: u8 where "IDENTITY_VERSION = 1"
definition IDENTITY_HEADER_LEN :: nat where "IDENTITY_HEADER_LEN = 22"
definition VP8_DESCRIPTOR_LEN :: nat where "VP8_DESCRIPTOR_LEN = 6"
definition VP8_KEYFRAME_PREFIX_LEN :: nat where "VP8_KEYFRAME_PREFIX_LEN = 10"
definition MAX_IDENTITY_OFFSET :: nat where
  "MAX_IDENTITY_OFFSET = VP8_DESCRIPTOR_LEN + VP8_KEYFRAME_PREFIX_LEN"

lemmas identity_consts = IDENTITY_MAGIC_def IDENTITY_VERSION_def IDENTITY_HEADER_LEN_def
  VP8_DESCRIPTOR_LEN_def VP8_KEYFRAME_PREFIX_LEN_def MAX_IDENTITY_OFFSET_def

definition payload_byte :: "packet_identity \<Rightarrow> nat \<Rightarrow> u8" where
  "payload_byte i offset =
     0x41 + clamp_to offset + ucast (id_source i) + ucast (id_ordinal i)
       + ucast (drop_bit 16 (id_ordinal i)) + ucast (drop_bit 8 (id_frame i))
       + ucast (id_fragment i)"

definition identity_header :: "packet_identity \<Rightarrow> bytes" where
  "identity_header i =
     IDENTITY_MAGIC @ [IDENTITY_VERSION, kind_code (id_kind i), phase_code (id_phase i),
       (case id_layer i of None \<Rightarrow> 0 | Some layer \<Rightarrow> layer_code layer)]
     @ be16 (id_source i) @ be32 (id_ordinal i) @ be32 (id_frame i)
     @ be16 (id_fragment i) @ be16 (id_fragments i)"

text \<open>The loop that pushes a body byte computed from the current length, then \<open>truncate\<close>.\<close>

definition encoded_payload :: "packet_identity \<Rightarrow> nat \<Rightarrow> bytes \<Rightarrow> bytes" where
  "encoded_payload i payload_len prefix =
     (let start = prefix @ identity_header i in
      take payload_len (start @ map (payload_byte i) [length start..<payload_len]))"

text \<open>\<open>payload.windows(4).take(17).position(...)\<close>.\<close>

definition identity_position :: "bytes \<Rightarrow> nat option" where
  "identity_position payload =
     find (\<lambda>n. take (length IDENTITY_MAGIC) (drop n payload) = IDENTITY_MAGIC)
       [0..<min (MAX_IDENTITY_OFFSET + 1) (length payload + 1 - length IDENTITY_MAGIC)]"

definition read_array :: "nat \<Rightarrow> bytes \<Rightarrow> nat \<Rightarrow> bytes result" where
  "read_array n payload offset =
     ok_or ''load identity field is truncated'' (get_range payload offset (offset + n))"

definition header_byte :: "bytes \<Rightarrow> nat \<Rightarrow> string \<Rightarrow> u8 result" where
  "header_byte header n msg = ok_or msg (get_at header n)"

definition read_layer :: "u8 \<Rightarrow> video_layer option result" where
  "read_layer b = (if b = 0 then Inr None else bind_ok (layer_of_code b) (\<lambda>layer. Inr (Some layer)))"

definition read_identity :: "bytes \<Rightarrow> packet_identity result" where
  "read_identity header =
     bind_ok (bind_ok (header_byte header 5 ''payload kind is missing'') kind_of_code) (\<lambda>kind.
     bind_ok (bind_ok (header_byte header 6 ''packet phase is missing'') phase_of_code) (\<lambda>phase.
     bind_ok (bind_ok (header_byte header 7 ''video layer is missing'') read_layer) (\<lambda>layer.
     bind_ok (read_array 2 header 8) (\<lambda>source.
     bind_ok (read_array 4 header 10) (\<lambda>ordinal.
     bind_ok (read_array 4 header 14) (\<lambda>frame.
     bind_ok (read_array 2 header 18) (\<lambda>fragment.
     bind_ok (read_array 2 header 20) (\<lambda>fragments.
     Inr \<lparr>id_kind = kind, id_phase = phase, id_layer = layer, id_source = from_be16 source,
          id_ordinal = from_be32 ordinal, id_frame = from_be32 frame,
          id_fragment = from_be16 fragment, id_fragments = from_be16 fragments\<rparr>))))))))"

definition expected_len :: "packet_identity \<Rightarrow> nat result" where
  "expected_len i =
     (case (id_kind i, id_layer i) of
        (Audio, None) \<Rightarrow> Inr AUDIO_PACKET_PAYLOAD_BYTES
      | (Video, Some layer) \<Rightarrow> Inr (packet_payload_len layer)
      | _ \<Rightarrow> err ''payload kind and layer disagree'')"

definition body_matches :: "packet_identity \<Rightarrow> bytes \<Rightarrow> nat \<Rightarrow> bool" where
  "body_matches i payload start =
     (case get_from payload start of
        None \<Rightarrow> False
      | Some body \<Rightarrow>
          list_all (\<lambda>(offset, byte). byte = payload_byte i (start + offset)) (enumerate 0 body))"

definition inspect_payload :: "bytes \<Rightarrow> payload_inspection result" where
  "inspect_payload payload =
     bind_ok (ok_or ''RTP payload has no load identity'' (identity_position payload)) (\<lambda>offset.
     bind_ok (ok_or ''RTP payload has a truncated load identity''
       (get_range payload offset (offset + IDENTITY_HEADER_LEN))) (\<lambda>header.
     ensure (get_at header 4 = Some IDENTITY_VERSION) ''unsupported load identity version'' (
     bind_ok (read_identity header) (\<lambda>i.
     bind_ok (expected_len i) (\<lambda>len.
     Inr \<lparr>identity = i,
          payload_matches =
            (length payload = len \<and> body_matches i payload (offset + IDENTITY_HEADER_LEN))\<rparr>)))))"

section \<open>The header round trip\<close>

lemma layer_code_nonzero [simp]: "layer_code l \<noteq> 0"
  by (cases l) simp_all

lemma length_identity_header [simp]: "length (identity_header i) = 22"
  by (simp add: identity_header_def identity_consts)

lemma read_identity_header: "read_identity (identity_header i) = Inr i"
  by (cases "id_layer i")
     (simp_all add: read_identity_def identity_header_def header_byte_def get_at_def get_range_def
       read_array_def read_layer_def identity_consts be16_def be32_def kind_byte.decode_code
       phase_byte.decode_code layer_byte.decode_code flip: be16_def be32_def)

lemma read_layer_code: "read_layer b = Inr l \<longleftrightarrow> b = (case l of None \<Rightarrow> 0 | Some layer \<Rightarrow> layer_code layer)"
  by (cases l) (auto simp: read_layer_def checked_iff layer_byte.decode_Inr)

lemma length_22: "length xs = 22 \<Longrightarrow>
  \<exists>a b c d e f g h i j k l m n p q r s t u v w. xs = [a, b, c, d, e, f, g, h, i, j, k, l, m, n, p, q, r, s, t, u, v, w]"
  by (clarsimp simp: numeral_eq_Suc length_Suc_conv)

lemma identity_header_of_read:
  assumes "length header = 22" "take 4 header = IDENTITY_MAGIC"
    and "get_at header 4 = Some IDENTITY_VERSION" "read_identity header = Inr i"
  shows "header = identity_header i"
proof -
  obtain a b c d e f g h i' j k l m n p q r s t u v w where
    hd: "header = [a, b, c, d, e, f, g, h, i', j, k, l, m, n, p, q, r, s, t, u, v, w]"
    using length_22 [OF assms(1)] by (elim exE) (rule that)
  have be: "be16 (from_be16 [x, y]) = [x, y]" "be32 (from_be32 [x, y, z, z']) = [x, y, z, z']"
    for x y z z' by (rule be16_from_be16 be32_from_be32, simp)+
  show ?thesis
    using assms(2-4) unfolding hd
    by (auto simp: read_identity_def header_byte_def get_at_def get_range_def read_array_def
        checked_iff kind_byte.decode_Inr phase_byte.decode_Inr read_layer_code identity_header_def
        identity_consts be simp del: from_be16.simps from_be32.simps)
qed

section \<open>Finding the identity\<close>

lemma find_first:
  "find P [0..<k] = Some n \<longleftrightarrow> n < k \<and> P n \<and> (\<forall>m<n. \<not> P m)"
  by (auto simp: find_Some_iff nth_upt)

lemma identity_position_Some:
  "identity_position p = Some n \<longleftrightarrow>
     n \<le> 16 \<and> take 4 (drop n p) = IDENTITY_MAGIC \<and> (\<forall>m<n. take 4 (drop m p) \<noteq> IDENTITY_MAGIC)"
proof -
  have "n < length p + 1 - 4" if "take 4 (drop n p) = IDENTITY_MAGIC"
  proof -
    have "length (take 4 (drop n p)) = 4" using that by (simp add: identity_consts)
    then show ?thesis by simp
  qed
  moreover have "length IDENTITY_MAGIC = 4" by (simp add: identity_consts)
  ultimately show ?thesis
    by (auto simp: identity_position_def find_first MAX_IDENTITY_OFFSET_def VP8_DESCRIPTOR_LEN_def
        VP8_KEYFRAME_PREFIX_LEN_def)
qed

text \<open>No window that starts inside the prefix reads as the magic.\<close>

definition safe_prefix :: "bytes \<Rightarrow> bool" where
  "safe_prefix prefix \<longleftrightarrow> length prefix \<le> 16 \<and>
     list_all (\<lambda>m. take 4 (drop m (prefix @ IDENTITY_MAGIC)) \<noteq> IDENTITY_MAGIC) [0..<length prefix]"

lemma encoded_payload_append:
  assumes "length prefix + 22 \<le> len"
  shows "encoded_payload i len prefix =
    prefix @ identity_header i @ map (payload_byte i) [length prefix + 22..<len]"
  using assms by (simp add: encoded_payload_def Let_def)

lemma length_encoded_payload:
  "length prefix + 22 \<le> len \<Longrightarrow> length (encoded_payload i len prefix) = len"
  by (simp add: encoded_payload_append)

lemma identity_header_magic: "identity_header i = IDENTITY_MAGIC @ drop 4 (identity_header i)"
  by (simp add: identity_header_def identity_consts)

lemma length_magic [simp]: "length IDENTITY_MAGIC = 4"
  by (simp add: identity_consts)

lemma window_prefix:
  assumes "m < length prefix"
  shows "take 4 (drop m (prefix @ IDENTITY_MAGIC @ rest)) = take 4 (drop m (prefix @ IDENTITY_MAGIC))"
  using assms by (simp add: length_magic)

lemma identity_position_encoded:
  assumes "length prefix + 22 \<le> len"
  shows "identity_position (encoded_payload i len prefix) = Some (length prefix) \<longleftrightarrow> safe_prefix prefix"
proof -
  obtain rest where e: "encoded_payload i len prefix = prefix @ IDENTITY_MAGIC @ rest"
    using encoded_payload_append [OF assms, of i] identity_header_magic [of i] by (metis append.assoc)
  have "take 4 (drop (length prefix) (prefix @ IDENTITY_MAGIC @ rest)) = IDENTITY_MAGIC"
    by (simp add: identity_consts)
  then show ?thesis
    unfolding identity_position_Some e safe_prefix_def
    by (auto simp: window_prefix list_all_iff)
qed

lemma body_matches_iff:
  "body_matches i p k \<longleftrightarrow> k \<le> length p \<and> drop k p = map (payload_byte i) [k..<length p]"
proof (cases "k \<le> length p")
  case True
  have "list_all (\<lambda>(offset, byte). byte = payload_byte i (k + offset)) (enumerate 0 (drop k p))
      \<longleftrightarrow> (\<forall>n < length p - k. drop k p ! n = payload_byte i (k + n))"
    by (auto simp: list_all_length nth_enumerate_eq)
  also have "\<dots> \<longleftrightarrow> drop k p = map (payload_byte i) [k..<length p]"
    by (auto simp: list_eq_iff_nth_eq)
  finally show ?thesis using True by (simp add: body_matches_def get_from_def)
next
  case False
  then show ?thesis by (simp add: body_matches_def get_from_def)
qed

lemma inspect_encoded:
  assumes "expected_len i = Inr len" "length prefix + 22 \<le> len" "safe_prefix prefix"
  shows "inspect_payload (encoded_payload i len prefix) = Inr \<lparr>identity = i, payload_matches = True\<rparr>"
proof -
  let ?p = "encoded_payload i len prefix"
  have p: "?p = prefix @ identity_header i @ map (payload_byte i) [length prefix + 22..<len]"
    using assms(2) by (rule encoded_payload_append)
  have pos: "identity_position ?p = Some (length prefix)"
    using identity_position_encoded [OF assms(2)] assms(3) by blast
  have len: "length ?p = len" using assms(2) by (rule length_encoded_payload)
  have hdr: "get_range ?p (length prefix) (length prefix + IDENTITY_HEADER_LEN) = Some (identity_header i)"
    using assms(2) len p by (simp add: get_range_def IDENTITY_HEADER_LEN_def)
  have ver: "get_at (identity_header i) 4 = Some IDENTITY_VERSION"
    by (simp add: get_at_def identity_header_def identity_consts)
  have "drop (length prefix + 22) ?p = map (payload_byte i) [length prefix + 22..<len]"
    unfolding p by simp
  then have body: "body_matches i ?p (length prefix + IDENTITY_HEADER_LEN)"
    using assms(2) len by (simp add: body_matches_iff IDENTITY_HEADER_LEN_def)
  show ?thesis
    by (simp add: inspect_payload_def pos hdr ver read_identity_header assms(1) len body)
qed

lemma expected_len_bound: "expected_len i = Inr len \<Longrightarrow> 80 \<le> len"
  by (cases "id_kind i"; cases "id_layer i"; cases "the (id_layer i)")
     (auto simp: expected_len_def model_consts)

lemma inspect_matchesD:
  assumes "inspect_payload p = Inr \<lparr>identity = i, payload_matches = True\<rparr>"
  shows "\<exists>prefix len. expected_len i = Inr len \<and> safe_prefix prefix \<and> length prefix + 22 \<le> len \<and>
    p = encoded_payload i len prefix"
proof -
  obtain n header len where n: "identity_position p = Some n"
    and h: "get_range p n (n + 22) = Some header" "get_at header 4 = Some IDENTITY_VERSION"
      "read_identity header = Inr i" and len: "expected_len i = Inr len"
    and m: "length p = len" "body_matches i p (n + 22)"
    using assms by (auto simp: inspect_payload_def checked_iff IDENTITY_HEADER_LEN_def)
  from n have mg: "n \<le> 16" "take 4 (drop n p) = IDENTITY_MAGIC" by (simp_all add: identity_position_Some)
  from h(1) have hd: "header = take 22 (drop n p)" and le: "n + 22 \<le> length p"
    by (auto simp: get_range_def split: if_splits)
  have "length header = 22" using hd le by simp
  moreover have "take 4 header = IDENTITY_MAGIC" using hd mg(2) by (simp add: min_def)
  ultimately have hdr: "header = identity_header i" using h(2,3) by (rule identity_header_of_read)
  have "drop (n + 22) p = map (payload_byte i) [n + 22..<length p]"
    using m(2) by (simp add: body_matches_iff)
  then have "p = take n p @ identity_header i @ map (payload_byte i) [n + 22..<length p]"
    using hd hdr by (metis append_take_drop_id drop_drop add.commute)
  moreover have lp: "length (take n p) = n" using le by simp
  ultimately have e: "p = encoded_payload i len (take n p)"
    using encoded_payload_append [of "take n p" len i] le m(1) by simp
  moreover have "safe_prefix (take n p)"
    using identity_position_encoded [of "take n p" len i] e n lp le m(1) by simp
  ultimately show ?thesis using len lp le m(1) by fastforce
qed

section \<open>Body bytes\<close>

text \<open>
  The specification of a body byte, in numbers: a constant, the place of the byte in the payload and five
  bytes of the identity, added up modulo 256.
\<close>

definition body_value :: "packet_identity \<Rightarrow> nat \<Rightarrow> nat" where
  "body_value i place =
     (65 + min place 255 + unat (id_source i) mod 256 + unat (id_ordinal i) mod 256
       + unat (id_ordinal i) div 65536 mod 256 + unat (id_frame i) div 256 mod 256
       + unat (id_fragment i) mod 256) mod 256"

lemma sum_of_bytes:
  "(m + a mod 256 + b mod 256 + c mod 256 + d mod 256 + e mod 256) mod 256 = (m + a + b + c + d + e) mod (256 :: nat)"
  by (intro mod_add_cong refl mod_mod_trivial)

lemma payload_byte_value: "unat (payload_byte i place) = body_value i place"
proof -
  have "unat (clamp_to place :: u8) = min place 255" by (simp add: unat_sat)
  moreover have "unat (drop_bit 16 (id_ordinal i)) = unat (id_ordinal i) div 65536"
    "unat (drop_bit 8 (id_frame i)) = unat (id_frame i) div 256"
    by (simp_all only: unat_drop_bit_eq) (simp_all add: drop_bit_eq_div)
  ultimately show ?thesis
    unfolding payload_byte_def body_value_def sum_of_bytes
    by (simp add: unat_word_ariths unsigned_ucast_eq take_bit_eq_mod mod_simps)
qed

text \<open>
  C5: \<open>inspect_payload\<close> reports a payload as intact exactly when it is what \<open>encoded_payload\<close> writes for
  the identity it reports: a prefix of at most 16 bytes in which the magic cannot start, the header of the
  identity, and up to the length of the stream's packets a body whose every byte is the constant 65 plus its
  place and five bytes of the identity. What the prefix holds is not checked.
\<close>

theorem inspect_payload_exact:
  "inspect_payload p = Inr \<lparr>identity = i, payload_matches = True\<rparr> \<longleftrightarrow>
     (\<exists>prefix len. expected_len i = Inr len \<and> safe_prefix prefix \<and> p = encoded_payload i len prefix \<and>
        length p = len \<and> take (length prefix + 22) p = prefix @ identity_header i \<and>
        map unat (drop (length prefix + 22) p) = map (body_value i) [length prefix + 22..<len])"
proof
  assume "inspect_payload p = Inr \<lparr>identity = i, payload_matches = True\<rparr>"
  then obtain prefix len where h: "expected_len i = Inr len" "safe_prefix prefix" "length prefix + 22 \<le> len"
    "p = encoded_payload i len prefix"
    using inspect_matchesD by blast
  then have "length p = len" "take (length prefix + 22) p = prefix @ identity_header i"
    "map unat (drop (length prefix + 22) p) = map (body_value i) [length prefix + 22..<len]"
    using encoded_payload_append [OF h(3), of i] by (simp_all add: payload_byte_value)
  then show "\<exists>prefix len. expected_len i = Inr len \<and> safe_prefix prefix \<and> p = encoded_payload i len prefix \<and>
      length p = len \<and> take (length prefix + 22) p = prefix @ identity_header i \<and>
      map unat (drop (length prefix + 22) p) = map (body_value i) [length prefix + 22..<len]"
    using h by blast
next
  assume "\<exists>prefix len. expected_len i = Inr len \<and> safe_prefix prefix \<and> p = encoded_payload i len prefix \<and>
      length p = len \<and> take (length prefix + 22) p = prefix @ identity_header i \<and>
      map unat (drop (length prefix + 22) p) = map (body_value i) [length prefix + 22..<len]"
  then obtain prefix len where h: "expected_len i = Inr len" "safe_prefix prefix"
    "p = encoded_payload i len prefix" by blast
  have "length prefix + 22 \<le> len"
    using h(2) expected_len_bound [OF h(1)] by (simp add: safe_prefix_def)
  with h show "inspect_payload p = Inr \<lparr>identity = i, payload_matches = True\<rparr>"
    by (simp add: inspect_encoded)
qed

section \<open>Corrupted bytes\<close>

text \<open>An intact payload, taken apart at the place of its identity.\<close>

definition intact_at :: "nat \<Rightarrow> packet_identity \<Rightarrow> bytes \<Rightarrow> bool" where
  "intact_at n i p \<longleftrightarrow>
     identity_position p = Some n \<and> expected_len i = Inr (length p) \<and> n + 22 \<le> length p \<and>
     take 22 (drop n p) = identity_header i \<and> drop (n + 22) p = map (payload_byte i) [n + 22..<length p]"

lemma intact_at_iff:
  assumes "identity_position p = Some n"
  shows "inspect_payload p = Inr \<lparr>identity = i, payload_matches = True\<rparr> \<longleftrightarrow> intact_at n i p"
proof
  assume "inspect_payload p = Inr \<lparr>identity = i, payload_matches = True\<rparr>"
  then obtain prefix len where h: "expected_len i = Inr len" "safe_prefix prefix" "length prefix + 22 \<le> len"
    "p = encoded_payload i len prefix"
    using inspect_matchesD by blast
  have "identity_position p = Some (length prefix)" using identity_position_encoded [OF h(3), of i] h(2,4) by simp
  then have "n = length prefix" using assms by simp
  then show "intact_at n i p"
    using h encoded_payload_append [OF h(3), of i] assms by (simp add: intact_at_def)
next
  assume "intact_at n i p"
  then have h: "expected_len i = Inr (length p)" "n + 22 \<le> length p" "take 22 (drop n p) = identity_header i"
    "drop (n + 22) p = map (payload_byte i) [n + 22..<length p]"
    by (simp_all add: intact_at_def)
  have lp: "length (take n p) = n" using h(2) by simp
  have "p = take n p @ identity_header i @ map (payload_byte i) [n + 22..<length p]"
    using h(3,4) by (metis append_take_drop_id drop_drop add.commute)
  then have e: "p = encoded_payload i (length p) (take n p)"
    using encoded_payload_append [of "take n p" "length p" i] h(2) lp by simp
  then have "safe_prefix (take n p)"
    using identity_position_encoded [of "take n p" "length p" i] assms h(2) lp by simp
  then show "inspect_payload p = Inr \<lparr>identity = i, payload_matches = True\<rparr>"
    using inspect_encoded [OF h(1), of "take n p"] h(2) lp e by simp
qed

text \<open>A byte behind the magic does not move the identity.\<close>

lemma position_kept:
  assumes "identity_position p = Some n" "4 \<le> k" "n + k < length p"
  shows "identity_position (p[n + k := b]) = Some n"
proof -
  have "take 4 (drop m (p[n + k := b])) = take 4 (drop m p)" if "m \<le> n" for m
    using that assms(2) by (intro nth_equalityI) (auto simp: nth_list_update)
  then show ?thesis using assms(1) by (simp add: identity_position_Some)
qed

text \<open>The bytes of the header that the body depends on: of source, ordinal, frame and fragment.\<close>

definition mixed_bytes :: "nat set" where "mixed_bytes = {9, 11, 13, 16, 19}"

definition header_mix :: "bytes \<Rightarrow> u8" where
  "header_mix header = header ! 9 + header ! 13 + header ! 11 + header ! 16 + header ! 19"

lemma unmixed_bytes: "k < 22 \<Longrightarrow> 8 \<le> k \<and> k \<notin> mixed_bytes \<longleftrightarrow> k \<in> {8, 10, 12, 14, 15, 17, 18, 20, 21}"
proof -
  have "list_all (\<lambda>k. (8 \<le> k \<and> k \<notin> mixed_bytes) = (k \<in> {8, 10, 12, 14, 15, 17, 18, 20, 21})) [0..<22]"
    by code_simp
  then show "k < 22 \<Longrightarrow> ?thesis" by (simp add: list_all_iff)
qed

lemma payload_byte_mix: "payload_byte i k = 0x41 + clamp_to k + header_mix (identity_header i)"
  by (simp add: payload_byte_def header_mix_def identity_header_def identity_consts be16_def be32_def
      nth_append nth_Cons split: option.split)

lemma payload_byte_same:
  "payload_byte j k = payload_byte i k \<longleftrightarrow> header_mix (identity_header j) = header_mix (identity_header i)"
  by (simp add: payload_byte_mix)

lemma header_mix_update:
  assumes "k < length header" "22 \<le> length header" "b \<noteq> header ! k"
  shows "header_mix (header[k := b]) = header_mix header \<longleftrightarrow> k \<notin> mixed_bytes"
  using assms by (auto simp: header_mix_def mixed_bytes_def nth_list_update)

text \<open>A header with other numbers in it is the header of another identity of the same stream of packets.\<close>

lemma header_of_bytes:
  assumes "length header = 22" "take 8 header = take 8 (identity_header i)"
  shows "\<exists>j. identity_header j = header \<and> expected_len j = expected_len i"
proof -
  obtain a b c d e f g h i' j k l m n p q r s t u v w where
    hd: "header = [a, b, c, d, e, f, g, h, i', j, k, l, m, n, p, q, r, s, t, u, v, w]"
    using length_22 [OF assms(1)] by (elim exE) (rule that)
  let ?j = "i\<lparr>id_source := from_be16 [i', j], id_ordinal := from_be32 [k, l, m, n],
    id_frame := from_be32 [p, q, r, s], id_fragment := from_be16 [t, u], id_fragments := from_be16 [v, w]\<rparr>"
  have be: "be16 (from_be16 [x, y]) = [x, y]" "be32 (from_be32 [x, y, z, z']) = [x, y, z, z']"
    for x y z z' by (rule be16_from_be16 be32_from_be32, simp)+
  have "identity_header ?j = header"
    using assms(2) unfolding hd
    by (simp add: identity_header_def identity_consts be del: from_be16.simps from_be32.simps)
  moreover have "expected_len ?j = expected_len i" by (simp add: expected_len_def)
  ultimately show ?thesis by blast
qed

lemma identity_header_inject: "identity_header j = identity_header i \<Longrightarrow> j = i"
  using read_identity_header by (metis sum.inject(2))

text \<open>Which headers with one byte changed from the fourth on belong to packets of the same length.\<close>

lemma changed_header:
  assumes "expected_len i = Inr len" "4 \<le> k" "k < 22" "b \<noteq> identity_header i ! k"
  shows "(\<exists>j. identity_header j = (identity_header i)[k := b] \<and> expected_len j = expected_len i) \<longleftrightarrow>
    8 \<le> k \<or> k = 6 \<and> b \<in> {0, 1}"
proof (cases "8 \<le> k")
  case True
  then have "take 8 ((identity_header i)[k := b]) = take 8 (identity_header i)" by simp
  then show ?thesis using True header_of_bytes [of "(identity_header i)[k := b]" i] by simp
next
  case False
  then consider "k = 4" | "k = 5" | "k = 6" | "k = 7" using assms(2) by linarith
  then show ?thesis
  proof cases
    case 1
    then have "\<nexists>j. identity_header j = (identity_header i)[k := b]"
      using assms(4) by (auto simp: identity_header_def identity_consts)
    then show ?thesis using 1 by auto
  next
    case 2
    have "\<not> (identity_header j = (identity_header i)[k := b] \<and> expected_len j = expected_len i)" for j
      using assms(1,4) 2
      by (cases "id_kind i"; cases "id_kind j"; cases "id_layer i"; cases "id_layer j")
        (auto simp: identity_header_def identity_consts expected_len_def err_def be16_def be32_def)
    then show ?thesis using 2 by auto
  next
    case 3
    have "identity_header (i\<lparr>id_phase := phase\<rparr>) = (identity_header i)[6 := phase_code phase]" for phase
      by (simp add: identity_header_def identity_consts)
    moreover have "expected_len (i\<lparr>id_phase := phase\<rparr>) = expected_len i" for phase by (simp add: expected_len_def)
    moreover have "\<exists>phase. phase_code phase = b" if "b \<in> {0, 1}"
      using that phase_code.simps by (metis insertE singletonD)
    moreover have "b \<in> {0, 1}" if "identity_header j = (identity_header i)[6 := b]" for j
    proof -
      have "phase_code (id_phase j) = b"
        using arg_cong [OF that, of "\<lambda>hdr. hdr ! 6"] by (simp add: identity_header_def identity_consts)
      then show ?thesis by (cases "id_phase j") auto
    qed
    ultimately show ?thesis using 3 by (metis numeral_eq_iff order_refl semiring_norm(85) semiring_norm(87) not_numeral_le_zero False)
  next
    case 4
    have "\<not> (identity_header j = (identity_header i)[k := b] \<and> expected_len j = expected_len i)" for j
      using assms(1,4) 4
      by (cases "id_kind i"; cases "id_kind j"; cases "id_layer i"; cases "id_layer j";
          cases "the (id_layer i)"; cases "the (id_layer j)")
        (auto simp: identity_header_def identity_consts expected_len_def err_def be16_def be32_def model_consts)
    then show ?thesis using 4 by auto
  qed
qed

text \<open>
  C16: what a changed byte does to an intact payload, for every byte behind the magic. A changed byte of the
  body is always noticed; so is one of the version, the kind, the layer, and of the header bytes the body
  depends on. The other bytes of the header are not noticed, the phase as long as it stays a phase: the payload
  is reported as intact, but never with the identity it was sent with.
\<close>

theorem corrupted_byte_classified:
  assumes "inspect_payload p = Inr \<lparr>identity = i, payload_matches = True\<rparr>" and "identity_position p = Some n"
    and "4 \<le> k" and "n + k < length p" and "b \<noteq> p ! (n + k)"
  shows "((\<exists>j. inspect_payload (p[n + k := b]) = Inr \<lparr>identity = j, payload_matches = True\<rparr>) \<longleftrightarrow>
      k \<in> {8, 10, 12, 14, 15, 17, 18, 20, 21} \<or> k = 6 \<and> b \<in> {0, 1}) \<and>
    inspect_payload (p[n + k := b]) \<noteq> Inr \<lparr>identity = i, payload_matches = True\<rparr>"
proof -
  let ?q = "p[n + k := b]"
  have p: "intact_at n i p" using assms(1) by (simp add: intact_at_iff [OF assms(2)])
  have q: "inspect_payload ?q = Inr \<lparr>identity = j, payload_matches = True\<rparr> \<longleftrightarrow> intact_at n j ?q" for j
    by (rule intact_at_iff [OF position_kept [OF assms(2-4)]])
  have place: "identity_position ?q = Some n" by (rule position_kept [OF assms(2-4)])
  have hdr: "take 22 (drop n p) = identity_header i" "n + 22 \<le> length p" "expected_len i = Inr (length p)"
    "drop (n + 22) p = map (payload_byte i) [n + 22..<length p]"
    using p by (simp_all add: intact_at_def)
  show ?thesis
  proof (cases "k < 22")
    case True
    have at: "identity_header i ! k = p ! (n + k)"
      using True hdr(2) by (simp add: hdr(1) [symmetric])
    have head: "take 22 (drop n ?q) = (identity_header i)[k := b]"
      using True hdr(2) by (simp add: hdr(1) [symmetric] drop_update_swap take_update_swap)
    have tail: "drop (n + 22) ?q = map (payload_byte i) [n + 22..<length p]" using True hdr(4) by simp
    have more: "n + 22 < length p"
      using expected_len_bound [OF hdr(3)] assms(2) by (simp add: identity_position_Some)
    have body: "map (payload_byte i) [n + 22..<length p] = map (payload_byte j) [n + 22..<length p] \<longleftrightarrow>
        header_mix (identity_header j) = header_mix (identity_header i)" for j
      using more by (auto simp: payload_byte_same)
    have mix: "header_mix ((identity_header i)[k := b]) = header_mix (identity_header i) \<longleftrightarrow> k \<notin> mixed_bytes"
      using True assms(5) at by (intro header_mix_update) simp_all
    have "intact_at n j ?q \<longleftrightarrow>
        identity_header j = (identity_header i)[k := b] \<and> expected_len j = expected_len i \<and> k \<notin> mixed_bytes" for j
      unfolding intact_at_def head tail using place hdr(2,3) body mix by auto
    then have "(\<exists>j. intact_at n j ?q) \<longleftrightarrow> (8 \<le> k \<or> k = 6 \<and> b \<in> {0, 1}) \<and> k \<notin> mixed_bytes"
      using changed_header [OF hdr(3) assms(3) True] assms(5) at by auto
    moreover have "(8 \<le> k \<or> k = 6 \<and> b \<in> {0, 1}) \<and> k \<notin> mixed_bytes \<longleftrightarrow>
        k \<in> {8, 10, 12, 14, 15, 17, 18, 20, 21} \<or> k = 6 \<and> b \<in> {0, 1}"
      using unmixed_bytes [OF True] by (auto simp: mixed_bytes_def)
    moreover have "\<not> intact_at n i ?q"
    proof
      assume "intact_at n i ?q"
      then have "(identity_header i)[k := b] ! k = identity_header i ! k" by (simp add: intact_at_def head)
      then show False using True assms(5) at by simp
    qed
    ultimately show ?thesis by (simp add: q)
  next
    case False
    have head: "take 22 (drop n ?q) = identity_header i"
      using False hdr(1) by (simp add: drop_update_swap)
    have "\<not> intact_at n j ?q" for j
    proof
      assume j: "intact_at n j ?q"
      then have "j = i" using head by (auto simp: intact_at_def dest: identity_header_inject)
      then have "drop (n + 22) ?q = drop (n + 22) p" using j hdr(4) by (simp add: intact_at_def)
      then have "drop (n + 22) ?q ! (k - 22) = drop (n + 22) p ! (k - 22)" by simp
      then show False using False assms(4,5) by simp
    qed
    then show ?thesis using False by (auto simp: q)
  qed
qed

text \<open>An Opus packet: a changed number of fragments passes as another packet, a changed source does not.\<close>

definition sample_identity :: packet_identity where
  "sample_identity =
     \<lparr>id_kind = Audio, id_phase = MeasuredPacket, id_layer = None, id_source = 3, id_ordinal = 7, id_frame = 7,
      id_fragment = 0, id_fragments = 1\<rparr>"

theorem corrupted_byte_classified_witness:
  "(\<exists>j. inspect_payload ((encoded_payload sample_identity 80 [])[21 := 2]) = Inr \<lparr>identity = j, payload_matches = True\<rparr>) \<and>
   (\<nexists>j. inspect_payload ((encoded_payload sample_identity 80 [])[9 := 2]) = Inr \<lparr>identity = j, payload_matches = True\<rparr>)"
proof -
  let ?p = "encoded_payload sample_identity 80 []"
  have safe: "safe_prefix []" by (simp add: safe_prefix_def)
  have i: "inspect_payload ?p = Inr \<lparr>identity = sample_identity, payload_matches = True\<rparr>"
    using safe by (intro inspect_encoded) (simp_all add: expected_len_def sample_identity_def model_consts)
  have pos: "identity_position ?p = Some 0"
    using identity_position_encoded [of "[]" 80 sample_identity] safe by simp
  have len: "length ?p = 80" using length_encoded_payload [of "[]" 80 sample_identity] by simp
  have bytes: "?p ! 21 = 1" "?p ! 9 = 3"
    by (simp_all add: encoded_payload_append [of "[]" 80] nth_append identity_header_def identity_consts be16_def be32_def
        sample_identity_def)
  show ?thesis
    using corrupted_byte_classified [OF i pos, where k = 21 and b = 2] corrupted_byte_classified [OF i pos, where k = 9 and b = 2] len bytes by simp
qed

text \<open>The same payload never carries two identities.\<close>

lemma encoded_payload_inject:
  assumes "expected_len i = Inr len" "expected_len j = Inr len'" "safe_prefix p" "safe_prefix q"
    and "encoded_payload i len p = encoded_payload j len' q"
  shows "i = j"
proof -
  have "length p + 22 \<le> len" "length q + 22 \<le> len'"
    using assms(3,4) expected_len_bound [OF assms(1)] expected_len_bound [OF assms(2)]
    by (simp_all add: safe_prefix_def)
  then have "inspect_payload (encoded_payload i len p) = Inr \<lparr>identity = i, payload_matches = True\<rparr>"
    "inspect_payload (encoded_payload j len' q) = Inr \<lparr>identity = j, payload_matches = True\<rparr>"
    using assms(1-4) by (simp_all add: inspect_encoded)
  then show ?thesis using assms(5) by simp
qed

end
