(* ===== verification/PlanFacts.thy ===== *)
theory PlanFacts
  imports Model
begin

text \<open>
  Facts about the plan arithmetic of \<open>src/model.rs\<close>: the closed forms the checked operations
  compute, and that no operation overflows for a specification within the public bounds, so a
  bounded specification always has a plan.
\<close>

section \<open>Checked steps over natural numbers\<close>

lemma unat_u64_from [simp]: "unat (u64_from x) = unat x"
  proof -
  have "unat x < 2 ^ 32" using unat_less_2p [of x] by simp
  then show ?thesis by (simp add: u64_from_def unsigned_ucast_eq take_bit_eq_mod)
qed

lemma plan_mul_Inr [checked_iff]: "plan_mul a b = Inr c \<longleftrightarrow> unat c = unat a * unat b"
  by (simp add: plan_mul_def checked_iff)

lemma plan_add_Inr [checked_iff]: "plan_add a b = Inr c \<longleftrightarrow> unat c = unat a + unat b"
  by (simp add: plan_add_def checked_iff)

lemma byte_count_Inr [checked_iff]: "byte_count n = Inr c \<longleftrightarrow> unat c = n"
  by (simp add: byte_count_def checked_iff)

lemma new_plan_Inr [checked_iff]:
  "new_plan s r o1 o2 e1 e2 = Inr p \<longleftrightarrow>
     s > 0 \<and> r > 0 \<and>
     p = \<lparr>wp_streams = s, wp_routes = r, wp_offered_packets = o1, wp_offered_payload_bytes = o2,
          wp_expected_deliveries = e1, wp_expected_delivery_payload_bytes = e2\<rparr>"
  by (auto simp: new_plan_def checked_iff)

lemma ex_u64: "n < 2 ^ 64 \<Longrightarrow> \<exists>c :: u64. unat c = n"
  by (rule exI [of _ "of_nat n"]) (simp add: unat_of_nat)

lemma plan_mul_ok:
  "unat a * unat b < 2 ^ 64 \<Longrightarrow> \<exists>c. plan_mul a b = Inr c \<and> unat c = unat a * unat b"
  using ex_u64 [of "unat a * unat b"] by (simp add: checked_iff)

lemma plan_add_ok:
  "unat a + unat b < 2 ^ 64 \<Longrightarrow> \<exists>c. plan_add a b = Inr c \<and> unat c = unat a + unat b"
  using ex_u64 [of "unat a + unat b"] by (simp add: checked_iff)

lemma byte_count_ok: "n < 2 ^ 64 \<Longrightarrow> \<exists>c. byte_count n = Inr c \<and> unat c = n"
  using ex_u64 [of n] by (simp add: checked_iff)

section \<open>Frames and keyframes\<close>

text \<open>Keyframes among \<open>s\<close> seconds of video: one in every 60 frames, rounded up.\<close>

definition keyframes_in :: "nat \<Rightarrow> nat" where
  "keyframes_in s = (s + 1) div 2"

definition low_packets_in :: "nat \<Rightarrow> nat" where
  "low_packets_in s = 30 * s + keyframes_in s"

definition high_packets_in :: "nat \<Rightarrow> nat" where
  "high_packets_in s = 420 * s + 6 * keyframes_in s"

lemma unat_div_ceil:
  assumes "b \<noteq> 0"
  shows "unat (div_ceil a b :: 'a::len word) = div_ceil_nat (unat a) (unat b)"
proof (cases "a mod b = 0")
  case True
  then show ?thesis by (simp add: div_ceil_def div_ceil_nat_def unat_div word_eq_unat_iff unat_mod)
next
  case False
  then have m: "unat a mod unat b \<noteq> 0" by (simp add: word_eq_unat_iff unat_mod)
  have "unat (div_ceil a b) \<le> unat a" using assms by (rule unat_div_ceil_le)
  moreover have "0 < unat a" using m by (metis gr0I mod_0)
  moreover have "unat (a div b + 1) = (unat a div unat b + 1) mod 2 ^ LENGTH('a)"
    by (simp add: unat_word_ariths unat_div mod_Suc_eq)
  moreover have "unat a div unat b + 1 \<le> 2 ^ LENGTH('a)"
  proof -
    have "unat a div unat b \<le> unat a" by (rule div_le_dividend)
    also have "\<dots> < 2 ^ LENGTH('a)" by simp
    finally show ?thesis by simp
  qed
  moreover have "unat a div unat b + 1 \<noteq> 2 ^ LENGTH('a)"
  proof
    assume e: "unat a div unat b + 1 = 2 ^ LENGTH('a)"
    have "unat a < 2 ^ LENGTH('a)" by simp
    with e have "unat a div unat b = unat a"
      using div_le_dividend [of "unat a" "unat b"] by linarith
    moreover have "unat b > 1"
    proof (rule ccontr)
      assume "\<not> unat b > 1"
      then have "unat b = 1" using assms by (simp add: word_eq_unat_iff)
      with m show False by simp
    qed
    ultimately show False using \<open>0 < unat a\<close> by (metis div_less_dividend less_irrefl)
  qed
  ultimately show ?thesis using False m by (simp add: div_ceil_def div_ceil_nat_def)
qed

lemma keyframes_in_eq: "div_ceil_nat (30 * s) 60 = keyframes_in s"
proof (cases "even s")
  case True
  then obtain k where "s = 2 * k" by (rule evenE)
  then show ?thesis by (simp add: div_ceil_nat_def keyframes_in_def)
next
  case False
  then obtain k where k: "s = 2 * k + 1" by (rule oddE)
  then have "30 * s = 30 + 60 * k" by simp
  then have "30 * s div 60 = k" "30 * s mod 60 = 30" by simp_all
  with k show ?thesis by (simp add: div_ceil_nat_def keyframes_in_def)
qed

lemma keyframes_in_le: "keyframes_in s \<le> s"
  by (simp add: keyframes_in_def)

lemma video_packets_per_layer_ok:
  "\<exists>low high. video_packets_per_layer seconds = Inr (low, high)
     \<and> unat low = low_packets_in (unat seconds) \<and> unat high = high_packets_in (unat seconds)"
proof -
  let ?s = "unat seconds"
  have s: "?s < 2 ^ 32" using unat_less_2p [of seconds] by simp
  have k: "keyframes_in ?s \<le> ?s" by (rule keyframes_in_le)
  obtain frames where f: "plan_mul (u64_from seconds) (u64_from VIDEO_FRAMES_PER_SECOND) = Inr frames"
    and uf: "unat frames = ?s * 30"
    using plan_mul_ok [of "u64_from seconds" "u64_from VIDEO_FRAMES_PER_SECOND"] s
    by (auto simp: model_consts)
  define kf where "kf = div_ceil frames VIDEO_KEYFRAME_INTERVAL"
  have ukf: "unat kf = keyframes_in ?s"
    using keyframes_in_eq [of ?s] uf
    by (simp add: kf_def unat_div_ceil model_consts mult.commute)
  have sub: "unat (frames - kf) = 30 * ?s - keyframes_in ?s"
    using k uf ukf by (simp add: unat_sub word_le_nat_alt)
  have "\<exists>l. plan_mul (frames - kf) VIDEO_LOW_DELTA_PACKETS = Inr l \<and> unat l = 30 * ?s - keyframes_in ?s"
    using plan_mul_ok [of "frames - kf" VIDEO_LOW_DELTA_PACKETS] s k sub by (simp add: model_consts)
  moreover have "\<exists>l. plan_mul kf VIDEO_LOW_KEYFRAME_PACKETS = Inr l \<and> unat l = keyframes_in ?s * 2"
    using plan_mul_ok [of kf VIDEO_LOW_KEYFRAME_PACKETS] s k ukf by (simp add: model_consts)
  moreover have "\<exists>l. plan_mul (frames - kf) VIDEO_HIGH_DELTA_PACKETS = Inr l
      \<and> unat l = (30 * ?s - keyframes_in ?s) * 14"
    using plan_mul_ok [of "frames - kf" VIDEO_HIGH_DELTA_PACKETS] s k sub by (simp add: model_consts)
  moreover have "\<exists>l. plan_mul kf VIDEO_HIGH_KEYFRAME_PACKETS = Inr l \<and> unat l = keyframes_in ?s * 20"
    using plan_mul_ok [of kf VIDEO_HIGH_KEYFRAME_PACKETS] s k ukf by (simp add: model_consts)
  ultimately obtain ld lk hd hk where
    p: "plan_mul (frames - kf) VIDEO_LOW_DELTA_PACKETS = Inr ld"
       "plan_mul kf VIDEO_LOW_KEYFRAME_PACKETS = Inr lk"
       "plan_mul (frames - kf) VIDEO_HIGH_DELTA_PACKETS = Inr hd"
       "plan_mul kf VIDEO_HIGH_KEYFRAME_PACKETS = Inr hk"
    and u: "unat ld = 30 * ?s - keyframes_in ?s" "unat lk = keyframes_in ?s * 2"
       "unat hd = (30 * ?s - keyframes_in ?s) * 14" "unat hk = keyframes_in ?s * 20"
    by blast
  obtain low where l: "plan_add ld lk = Inr low" "unat low = low_packets_in ?s"
    using plan_add_ok [of ld lk] u s k by (auto simp: low_packets_in_def)
  obtain high where h: "plan_add hd hk = Inr high" "unat high = high_packets_in ?s"
  proof -
    have e: "(30 * ?s - keyframes_in ?s) * 14 + keyframes_in ?s * 20 = high_packets_in ?s"
      using k by (simp add: high_packets_in_def)
    then show ?thesis using plan_add_ok [of hd hk] u s k that
      by (auto simp: high_packets_in_def)
  qed
  show ?thesis
    using f p l h by (auto simp: video_packets_per_layer_def Let_def kf_def)
qed

section \<open>Closed forms of the plans\<close>

text \<open>
  \<open>high_routes N M\<close> and \<open>low_routes N M\<close>: featured and thumbnail routes of a room of \<open>N\<close> peers
  of which \<open>M\<close> publish a camera, as the plan computes them.
\<close>

definition high_routes :: "nat \<Rightarrow> nat \<Rightarrow> nat" where
  "high_routes N M = (if M = 1 then N - 1 else N)"

definition low_routes :: "nat \<Rightarrow> nat \<Rightarrow> nat" where
  "low_routes N M = M * (N - 1) - high_routes N M"

definition is_audio_plan :: "nat \<Rightarrow> nat \<Rightarrow> nat \<Rightarrow> nat \<Rightarrow> workload_plan \<Rightarrow> bool" where
  "is_audio_plan R N M T p \<longleftrightarrow>
     unat (wp_streams p) = R * M \<and>
     unat (wp_routes p) = R * M * (N - 1) \<and>
     unat (wp_offered_packets p) = R * M * T \<and>
     unat (wp_offered_payload_bytes p) = R * M * T * 80 \<and>
     unat (wp_expected_deliveries p) = R * M * (N - 1) * T \<and>
     unat (wp_expected_delivery_payload_bytes p) = R * M * (N - 1) * T * 80"

definition is_video_plan :: "nat \<Rightarrow> nat \<Rightarrow> nat \<Rightarrow> nat \<Rightarrow> nat \<Rightarrow> workload_plan \<Rightarrow> bool" where
  "is_video_plan R N M l h p \<longleftrightarrow>
     unat (wp_streams p) = R * M * 2 \<and>
     unat (wp_routes p) = R * (M * (N - 1)) \<and>
     unat (wp_offered_packets p) = R * M * l + R * M * h \<and>
     unat (wp_offered_payload_bytes p) = R * M * l * 600 + R * M * h * 1100 \<and>
     unat (wp_expected_deliveries p) = R * high_routes N M * h + R * low_routes N M * l \<and>
     unat (wp_expected_delivery_payload_bytes p)
       = R * high_routes N M * h * 1100 + R * low_routes N M * l * 600"

definition plan_sum :: "workload_plan \<Rightarrow> workload_plan \<Rightarrow> workload_plan \<Rightarrow> bool" where
  "plan_sum a v p \<longleftrightarrow>
     unat (wp_streams p) = unat (wp_streams a) + unat (wp_streams v) \<and>
     unat (wp_routes p) = unat (wp_routes a) + unat (wp_routes v) \<and>
     unat (wp_offered_packets p) = unat (wp_offered_packets a) + unat (wp_offered_packets v) \<and>
     unat (wp_offered_payload_bytes p)
       = unat (wp_offered_payload_bytes a) + unat (wp_offered_payload_bytes v) \<and>
     unat (wp_expected_deliveries p)
       = unat (wp_expected_deliveries a) + unat (wp_expected_deliveries v) \<and>
     unat (wp_expected_delivery_payload_bytes p)
       = unat (wp_expected_delivery_payload_bytes a) + unat (wp_expected_delivery_payload_bytes v)"

lemma audio_plan_values:
  assumes "audio_plan rooms peers publishers seconds = Inr p"
  shows "is_audio_plan (unat rooms) (unat peers) (unat publishers) (unat seconds * 50) p"
    and "1 \<le> unat peers"
proof -
  have "is_audio_plan (unat rooms) (unat peers) (unat publishers) (unat seconds * 50) p
      \<and> 1 \<le> unat peers"
    using assms
    by (simp add: audio_plan_def checked_iff is_audio_plan_def model_consts)
       (elim exE conjE, simp add: mult.assoc)
  then show "is_audio_plan (unat rooms) (unat peers) (unat publishers) (unat seconds * 50) p"
    and "1 \<le> unat peers" by simp_all
qed

lemma video_plan_values:
  assumes "video_plan rooms peers publishers seconds = Inr p"
  shows "is_video_plan (unat rooms) (unat peers) (unat publishers)
           (low_packets_in (unat seconds)) (high_packets_in (unat seconds)) p"
    and "1 \<le> unat peers"
    and "high_routes (unat peers) (unat publishers) \<le> unat publishers * (unat peers - 1)"
proof -
  obtain low high where l: "video_packets_per_layer seconds = Inr (low, high)"
    and u: "unat low = low_packets_in (unat seconds)" "unat high = high_packets_in (unat seconds)"
    using video_packets_per_layer_ok by blast
  have one: "publishers = 1 \<longleftrightarrow> unat publishers = 1" by (simp add: word_eq_unat_iff)
  have one': "u64_from publishers = 1 \<longleftrightarrow> unat publishers = 1"
    by (simp add: word_eq_unat_iff [of "u64_from publishers"])
  have "is_video_plan (unat rooms) (unat peers) (unat publishers)
           (low_packets_in (unat seconds)) (high_packets_in (unat seconds)) p
      \<and> 1 \<le> unat peers
      \<and> high_routes (unat peers) (unat publishers) \<le> unat publishers * (unat peers - 1)"
    using assms
    apply (simp add: video_plan_def checked_iff is_video_plan_def model_consts l u one' Let_def
        high_routes_def low_routes_def)
    apply (elim exE conjE)
    apply (cases "unat publishers = 1")
     apply (simp_all add: mult.assoc)
    apply (metis add_diff_cancel_left' add_Suc)
    done
  then show "is_video_plan (unat rooms) (unat peers) (unat publishers)
           (low_packets_in (unat seconds)) (high_packets_in (unat seconds)) p"
    and "1 \<le> unat peers"
    and "high_routes (unat peers) (unat publishers) \<le> unat publishers * (unat peers - 1)"
    by simp_all
qed

lemma mixed_plan_values:
  assumes "mixed_plan rooms peers ap vp seconds = Inr p"
  shows "\<exists>a v. audio_plan rooms peers ap seconds = Inr a \<and> video_plan rooms peers vp seconds = Inr v
     \<and> plan_sum a v p"
  using assms by (auto simp: mixed_plan_def checked_iff plan_sum_def)

lemma smoke_plan_values:
  assumes "smoke_plan receivers packets = Inr p"
  shows "is_audio_plan 1 (unat receivers + 1) 1 (unat packets) p"
  using assms by (auto simp: smoke_plan_def checked_iff is_audio_plan_def model_consts Let_def)

section \<open>Bounded specifications always have a plan\<close>

text \<open>The range checks of the constructors, without the plan-size limits.\<close>

fun bounded_spec :: "scenario_spec \<Rightarrow> bool" where
  "bounded_spec (Smoke receivers packets) \<longleftrightarrow>
     1 \<le> receivers \<and> receivers \<le> 99 \<and> 1 \<le> packets \<and> packets \<le> 180000"
| "bounded_spec (AudioMesh rooms peers seconds) \<longleftrightarrow>
     1 \<le> rooms \<and> rooms \<le> 64 \<and> 2 \<le> peers \<and> peers \<le> 100 \<and> 1 \<le> seconds \<and> seconds \<le> 3600"
| "bounded_spec (VideoGallery rooms peers publishers seconds) \<longleftrightarrow>
     1 \<le> rooms \<and> rooms \<le> 64 \<and> 3 \<le> peers \<and> peers \<le> 100 \<and>
     0 < publishers \<and> publishers \<le> peers \<and> publishers \<le> 10 \<and>
     1 \<le> seconds \<and> seconds \<le> 3600"
| "bounded_spec (MixedConference rooms peers audio_publishers video_publishers seconds) \<longleftrightarrow>
     1 \<le> rooms \<and> rooms \<le> 64 \<and> 3 \<le> peers \<and> peers \<le> 100 \<and>
     0 < audio_publishers \<and> audio_publishers \<le> peers \<and>
     0 < video_publishers \<and> video_publishers \<le> audio_publishers \<and> video_publishers \<le> 10 \<and>
     1 \<le> seconds \<and> seconds \<le> 3600"

lemma bind_mul_ok:
  assumes "unat a \<le> A" "unat b \<le> B" "A * B < 2 ^ 64"
    and "\<And>c. unat c \<le> A * B \<Longrightarrow> unat c = unat a * unat b \<Longrightarrow> \<exists>p. f c = Inr p"
  shows "\<exists>p. bind_ok (plan_mul a b) f = Inr p"
proof -
  have le: "unat a * unat b \<le> A * B" using assms(1,2) by (rule mult_le_mono)
  with assms(3) obtain c where "plan_mul a b = Inr c" "unat c = unat a * unat b"
    using plan_mul_ok [of a b] by fastforce
  then show ?thesis using assms(4) [of c] le by simp
qed

lemma bind_add_ok:
  assumes "unat a \<le> A" "unat b \<le> B" "A + B < 2 ^ 64"
    and "\<And>c. unat c \<le> A + B \<Longrightarrow> unat c = unat a + unat b \<Longrightarrow> \<exists>p. f c = Inr p"
  shows "\<exists>p. bind_ok (plan_add a b) f = Inr p"
proof -
  have le: "unat a + unat b \<le> A + B" using assms(1,2) by (rule add_mono)
  with assms(3) obtain c where "plan_add a b = Inr c" "unat c = unat a + unat b"
    using plan_add_ok [of a b] by fastforce
  then show ?thesis using assms(4) [of c] le by simp
qed

lemma bind_sub_ok:
  assumes "unat b \<le> unat a" "unat a \<le> A"
    and "\<And>c. unat c \<le> A \<Longrightarrow> unat c = unat a - unat b \<Longrightarrow> \<exists>p. f c = Inr p"
  shows "\<exists>p. bind_ok (ok_or msg (checked_sub a b)) f = Inr p"
proof -
  have "checked_sub a b = Some (a - b)" "unat (a - b) = unat a - unat b"
    using assms(1) by (simp_all add: checked_sub_def word_le_nat_alt unat_sub)
  then show ?thesis using assms(2) assms(3) [of "a - b"] by simp
qed

lemma bind_bytes_ok:
  assumes "n < 2 ^ 64" and "\<And>c. unat c \<le> n \<Longrightarrow> unat c = n \<Longrightarrow> \<exists>p. f c = Inr p"
  shows "\<exists>p. bind_ok (byte_count n) f = Inr p"
  using byte_count_ok [OF assms(1)] assms(2) by fastforce

lemma new_plan_ok: "0 < unat s \<Longrightarrow> 0 < unat r \<Longrightarrow> \<exists>p. new_plan s r o1 o2 e1 e2 = Inr p"
  by (simp add: new_plan_def unat_gt_0 word_neq_0_conv)

lemma audio_plan_ok:
  assumes "1 \<le> unat rooms" "unat rooms \<le> 64" "2 \<le> unat peers" "unat peers \<le> 100"
    and "1 \<le> unat publishers" "unat publishers \<le> 100" "unat seconds \<le> 3600"
  shows "\<exists>p. audio_plan rooms peers publishers seconds = Inr p"
  unfolding audio_plan_def
  apply (rule bind_mul_ok [where A = 3600 and B = 50])
     apply (use assms in \<open>simp_all add: model_consts del: One_nat_def\<close>)
  apply (rule bind_mul_ok [where A = 64 and B = 100])
     apply (use assms in \<open>simp_all del: One_nat_def\<close>)
  apply (rule bind_sub_ok [where A = 100])
    apply (use assms in \<open>simp_all del: One_nat_def\<close>)
  apply (rule bind_mul_ok [where A = 6400 and B = 100], simp_all del: One_nat_def)
  apply (rule bind_mul_ok [where A = 6400 and B = 180000], simp_all del: One_nat_def)
  apply (rule bind_mul_ok [where A = 640000 and B = 180000], simp_all del: One_nat_def)
  apply (rule bind_bytes_ok, simp del: One_nat_def)
  apply (rule bind_mul_ok [where A = 1152000000 and B = 80], simp_all del: One_nat_def)
  apply (rule bind_mul_ok [where A = 115200000000 and B = 80], simp_all del: One_nat_def)
  apply (rule new_plan_ok)
   apply (use assms in simp_all)
  done

lemma high_routes_le:
  assumes "2 \<le> N" "1 \<le> M"
  shows "high_routes N M \<le> M * (N - 1)"
proof (cases "M = 1")
  case True
  then show ?thesis by (simp add: high_routes_def)
next
  case False
  have "N \<le> 2 * (N - 1)" using assms by simp
  also have "\<dots> \<le> M * (N - 1)" using False assms by (intro mult_le_mono1) simp
  finally show ?thesis using False by (simp only: high_routes_def if_False)
qed

lemma packets_in_le:
  assumes "s \<le> 3600"
  shows "low_packets_in s \<le> 109800" "high_packets_in s \<le> 1522800"
proof -
  have "keyframes_in s \<le> 1800" using assms by (simp add: keyframes_in_def)
  then show "low_packets_in s \<le> 109800" "high_packets_in s \<le> 1522800"
    using assms by (simp_all add: low_packets_in_def high_packets_in_def)
qed

text \<open>The second half of \<open>video_plan\<close>: the deliveries, once the room's routes are known.\<close>

lemma video_deliveries_ok:
  fixes rooms :: u64
  assumes "1 \<le> unat rooms" "unat rooms \<le> 64" "0 < unat streams" "0 < unat rr"
    and "unat hr \<le> 100" "unat hr \<le> unat rr" "unat rr \<le> 1000"
    and "unat l \<le> 109800" "unat h \<le> 1522800" "unat hb = 1100" "unat lb = 600"
  shows "\<exists>p. bind_ok (ok_or msg (checked_sub rr hr)) (\<lambda>low_routes_per_room.
     bind_ok (plan_mul rooms hr) (\<lambda>high_routes.
     bind_ok (plan_mul rooms low_routes_per_room) (\<lambda>low_routes.
     bind_ok (plan_mul high_routes h) (\<lambda>expected_high_deliveries.
     bind_ok (plan_mul low_routes l) (\<lambda>expected_low_deliveries.
     bind_ok (plan_add expected_high_deliveries expected_low_deliveries)
       (\<lambda>expected_deliveries.
     bind_ok (plan_mul expected_high_deliveries hb) (\<lambda>high_payload.
     bind_ok (plan_mul expected_low_deliveries lb) (\<lambda>low_payload.
     bind_ok (plan_add high_payload low_payload) (\<lambda>expected_delivery_payload_bytes.
     bind_ok (plan_mul rooms rr) (\<lambda>routes.
     new_plan streams routes o1 o2 expected_deliveries
       expected_delivery_payload_bytes)))))))))) = Inr p"
  apply (rule bind_sub_ok [where A = 1000, OF assms(6,7)])
  apply (rule bind_mul_ok [where A = 64 and B = 100, OF assms(2,5)], simp)
  apply (rule bind_mul_ok [where A = 64 and B = 1000, OF assms(2)], assumption, simp)
  apply (rule bind_mul_ok [where A = 6400 and B = 1522800, OF _ assms(9)], simp, simp)
  apply (rule bind_mul_ok [where A = 64000 and B = 109800, OF _ assms(8)], simp, simp)
  apply (rule bind_add_ok [where A = 9745920000 and B = 7027200000], simp, simp, simp)
  apply (rule bind_mul_ok [where A = 9745920000 and B = 1100], simp, simp add: assms(10), simp)
  apply (rule bind_mul_ok [where A = 7027200000 and B = 600], simp, simp add: assms(11), simp)
  apply (rule bind_add_ok [where A = 10720512000000 and B = 4216320000000], simp, simp, simp)
  apply (rule bind_mul_ok [where A = 64 and B = 1000, OF assms(2,7)], simp)
  apply (rule new_plan_ok [OF assms(3)])
  using assms(1,4) apply simp
  done

lemma video_plan_ok:
  assumes "1 \<le> unat rooms" "unat rooms \<le> 64" "3 \<le> unat peers" "unat peers \<le> 100"
    and "1 \<le> unat publishers" "unat publishers \<le> 10" "unat seconds \<le> 3600"
  shows "\<exists>p. video_plan rooms peers publishers seconds = Inr p"
proof -
  obtain l h where lh: "video_packets_per_layer seconds = Inr (l, h)"
    and u: "unat l = low_packets_in (unat seconds)" "unat h = high_packets_in (unat seconds)"
    using video_packets_per_layer_ok by blast
  have b: "unat l \<le> 109800" "unat h \<le> 1522800"
    using u packets_in_le [OF assms(7)] by simp_all
  let ?N = "u64_from peers"
  let ?M = "u64_from publishers"
  have one: "?M = 1 \<longleftrightarrow> unat publishers = 1" by (simp add: word_eq_unat_iff [of ?M])
  have rooms: "unat (u64_from rooms) \<le> 64" "1 \<le> unat (u64_from rooms)"
    and pubs: "unat ?M \<le> 10" and peers: "unat ?N \<le> 100" "1 \<le> unat ?N"
    using assms by simp_all
  have H: "unat (if ?M = 1 then r else ?N) \<le> unat rr"
    and H': "unat (if ?M = 1 then r else ?N) \<le> 100"
    and pos: "0 < unat rr"
    if "unat r = unat ?N - unat (1 :: u64)" "unat rr = unat ?M * unat r" for r rr :: u64
    using high_routes_le [of "unat peers" "unat publishers"] assms that one
    by (auto simp: high_routes_def)
  show ?thesis
    unfolding video_plan_def Let_def lh bind_ok_simps prod.case
    apply (rule bind_mul_ok [where A = 64 and B = 10, OF rooms(1) pubs], simp)
    apply (rule bind_mul_ok [where A = 640 and B = 2], simp, simp, simp)
    apply (rule bind_mul_ok [where A = 640 and B = 109800, OF _ b(1)], simp, simp)
    apply (rule bind_mul_ok [where A = 640 and B = 1522800, OF _ b(2)], simp, simp)
    apply (rule bind_add_ok [where A = 70272000 and B = 974592000], simp, simp, simp)
    apply (rule bind_bytes_ok, simp add: model_consts)
    apply (rule bind_bytes_ok, simp add: model_consts)
    apply (rule bind_mul_ok [where A = 70272000 and B = 600], simp, simp add: model_consts, simp)
    apply (rule bind_mul_ok [where A = 974592000 and B = 1100], simp, simp add: model_consts, simp)
    apply (rule bind_add_ok [where A = 42163200000 and B = 1072051200000], simp, simp, simp)
    apply (rule bind_sub_ok [where A = 100], simp only: unsigned_1, rule peers(2), rule peers(1))
    apply (rule bind_mul_ok [where A = 10 and B = 100, OF pubs], assumption, simp)
    apply (rule video_deliveries_ok [OF rooms(2,1) _ pos H' H _ b])
    using assms(1,5)
            apply (simp_all add: model_consts)
    apply linarith
    done
qed

lemma mult_bounded:
  fixes a b c :: nat
  assumes "a \<le> A" "b \<le> B"
  shows "a * b \<le> A * B"
  using assms by (rule mult_le_mono)

lemma audio_plan_bounded:
  assumes "is_audio_plan R N M T p" "R \<le> 64" "N \<le> 100" "M \<le> 100" "T \<le> 180000"
  shows "unat (wp_streams p) \<le> 6400" "unat (wp_routes p) \<le> 640000"
    "unat (wp_offered_packets p) \<le> 1152000000"
    "unat (wp_offered_payload_bytes p) \<le> 92160000000"
    "unat (wp_expected_deliveries p) \<le> 115200000000"
    "unat (wp_expected_delivery_payload_bytes p) \<le> 9216000000000"
proof -
  have s: "R * M \<le> 6400" using mult_bounded [OF assms(2,4)] by simp
  have "N - 1 \<le> 100" using assms(3) by simp
  then have r: "R * M * (N - 1) \<le> 640000" using mult_bounded [OF s] by force
  have o1: "R * M * T \<le> 1152000000" using mult_bounded [OF s assms(5)] by simp
  have e: "R * M * (N - 1) * T \<le> 115200000000" using mult_bounded [OF r assms(5)] by simp
  show "unat (wp_streams p) \<le> 6400" "unat (wp_routes p) \<le> 640000"
    "unat (wp_offered_packets p) \<le> 1152000000"
    "unat (wp_offered_payload_bytes p) \<le> 92160000000"
    "unat (wp_expected_deliveries p) \<le> 115200000000"
    "unat (wp_expected_delivery_payload_bytes p) \<le> 9216000000000"
    using s r o1 e assms(1) by (simp_all only: is_audio_plan_def)
qed

lemma plan_add_bounded_ok:
  assumes "unat a < 2 ^ 63" "unat b < 2 ^ 63"
    and "\<And>c. unat c = unat a + unat b \<Longrightarrow> \<exists>p. f c = Inr p"
  shows "\<exists>p. bind_ok (plan_add a b) f = Inr p"
proof -
  have "unat a + unat b < 2 ^ 64" using assms(1,2) by simp
  then obtain c where "plan_add a b = Inr c" "unat c = unat a + unat b"
    using plan_add_ok by blast
  then show ?thesis using assms(3) by simp
qed

lemma video_plan_bounded:
  assumes "is_video_plan R N M l h p" "R \<le> 64" "N \<le> 100" "M \<le> 10"
    and "l \<le> 109800" "h \<le> 1522800"
  shows "unat (wp_streams p) < 2 ^ 63" "unat (wp_routes p) < 2 ^ 63"
    "unat (wp_offered_packets p) < 2 ^ 63"
    "unat (wp_offered_payload_bytes p) < 2 ^ 63"
    "unat (wp_expected_deliveries p) < 2 ^ 63"
    "unat (wp_expected_delivery_payload_bytes p) < 2 ^ 63"
proof -
  have s: "R * M \<le> 640" using mult_bounded [OF assms(2,4)] by simp
  have n: "N - 1 \<le> 100" using assms(3) by simp
  have r: "R * (M * (N - 1)) \<le> 64000"
    using mult_bounded [OF assms(2) mult_bounded [OF assms(4) n]] by simp
  have ol: "R * M * l \<le> 70272000" using mult_bounded [OF s assms(5)] by simp
  have oh: "R * M * h \<le> 974592000" using mult_bounded [OF s assms(6)] by simp
  have "high_routes N M \<le> 100" using assms(3) n by (simp add: high_routes_def)
  then have "R * high_routes N M \<le> 6400" using mult_bounded [OF assms(2)] by force
  then have eh: "R * high_routes N M * h \<le> 9745920000" using mult_bounded [OF _ assms(6)] by force
  have "low_routes N M \<le> 1000"
    using mult_bounded [OF assms(4) n] by (simp add: low_routes_def)
  then have "R * low_routes N M \<le> 64000" using mult_bounded [OF assms(2)] by force
  then have el: "R * low_routes N M * l \<le> 7027200000" using mult_bounded [OF _ assms(5)] by force
  show "unat (wp_streams p) < 2 ^ 63" "unat (wp_routes p) < 2 ^ 63"
    "unat (wp_offered_packets p) < 2 ^ 63"
    "unat (wp_offered_payload_bytes p) < 2 ^ 63"
    "unat (wp_expected_deliveries p) < 2 ^ 63"
    "unat (wp_expected_delivery_payload_bytes p) < 2 ^ 63"
    using s s [unfolded mult.commute [of R M]] r ol oh eh el assms(1)
    unfolding is_video_plan_def by simp_all
qed

lemma mixed_plan_ok:
  assumes "1 \<le> unat rooms" "unat rooms \<le> 64" "3 \<le> unat peers" "unat peers \<le> 100"
    and "1 \<le> unat ap" "unat ap \<le> 100" "1 \<le> unat vp" "unat vp \<le> 10" "unat seconds \<le> 3600"
  shows "\<exists>p. mixed_plan rooms peers ap vp seconds = Inr p"
proof -
  obtain a where a: "audio_plan rooms peers ap seconds = Inr a"
    using audio_plan_ok [of rooms peers ap seconds] assms by auto
  obtain v where v: "video_plan rooms peers vp seconds = Inr v"
    using video_plan_ok [of rooms peers vp seconds] assms by auto
  have t: "unat seconds * 50 \<le> 180000" using assms(9) by simp
  note ab = audio_plan_bounded [OF audio_plan_values(1) [OF a] assms(2,4,6) t]
  note vb = video_plan_bounded [OF video_plan_values(1) [OF v] assms(2,4,8) packets_in_le [OF assms(9)]]
  have sp: "0 < unat (wp_streams a)" "0 < unat (wp_routes a)"
    using audio_plan_values [OF a] assms by (simp_all add: is_audio_plan_def)
  show ?thesis
    unfolding mixed_plan_def a v bind_ok_simps
    apply (rule plan_add_bounded_ok [OF _ vb(1)], use ab(1) in simp)
    apply (rule plan_add_bounded_ok [OF _ vb(2)], use ab(2) in simp)
    apply (rule plan_add_bounded_ok [OF _ vb(3)], use ab(3) in simp)
    apply (rule plan_add_bounded_ok [OF _ vb(4)], use ab(4) in simp)
    apply (rule plan_add_bounded_ok [OF _ vb(5)], use ab(5) in simp)
    apply (rule plan_add_bounded_ok [OF _ vb(6)], use ab(6) in simp)
    apply (rule new_plan_ok)
     apply (use sp in linarith)+
    done
qed

lemma smoke_plan_ok:
  assumes "1 \<le> unat receivers" "unat receivers \<le> 99" "unat packets \<le> 180000"
  shows "\<exists>p. smoke_plan receivers packets = Inr p"
proof -
  have r: "unat (u64_from receivers) \<le> 99" and p: "unat (u64_from packets) \<le> 180000"
    using assms by simp_all
  obtain d where d: "plan_mul (u64_from receivers) (u64_from packets) = Inr d"
    and ud: "unat d \<le> 17820000"
    using plan_mul_ok [of "u64_from receivers" "u64_from packets"] mult_bounded [OF r p] by fastforce
  show ?thesis
    unfolding smoke_plan_def Let_def d bind_ok_simps
    apply (rule bind_bytes_ok, simp add: model_consts)
    apply (rule bind_mul_ok [where A = 180000 and B = 80, OF p], simp add: model_consts, simp)
    apply (rule bind_mul_ok [where A = 17820000 and B = 80, OF ud], simp add: model_consts, simp)
    apply (rule new_plan_ok)
    using assms apply simp_all
    done
qed

lemma bounded_plan_ok: "bounded_spec spec \<Longrightarrow> \<exists>p. plan spec = Inr p"
  by (cases spec)
     (auto simp: word_le_nat_alt word_less_nat_alt
       intro!: smoke_plan_ok audio_plan_ok video_plan_ok mixed_plan_ok)

section \<open>What validation accepts\<close>

text \<open>The plan-size limits, on a specification whose plan exists.\<close>

definition within_limits :: "scenario_spec \<Rightarrow> bool" where
  "within_limits spec \<longleftrightarrow>
     (case plan spec of
        Inl _ \<Rightarrow> False
      | Inr p \<Rightarrow> wp_offered_packets p \<le> 100000000 \<and> wp_expected_deliveries p \<le> 1000000000)"

lemma validate_plan_size_ok: "is_ok (validate_plan_size spec) \<longleftrightarrow> within_limits spec"
  by (cases "plan spec")
     (auto simp: validate_plan_size_def within_limits_def model_consts ensure_def split: if_splits)

lemma bind_unit_is_ok: "is_ok (bind_ok r (\<lambda>_. Inr u)) \<longleftrightarrow> is_ok r"
  by (cases r) simp_all

lemma is_ok_ensure: "is_ok (ensure c msg rest) \<longleftrightarrow> c \<and> is_ok rest"
  by (simp add: ensure_def)

lemma smoke_within_limits:
  assumes "bounded_spec (Smoke receivers packets)"
  shows "within_limits (Smoke receivers packets)"
proof -
  obtain p where p: "smoke_plan receivers packets = Inr p" using bounded_plan_ok [OF assms] by auto
  note v = smoke_plan_values [OF p]
  have b: "unat receivers \<le> 99" "unat packets \<le> 180000"
    using assms by (auto simp: word_le_nat_alt)
  have "unat receivers * unat packets \<le> 17820000" using mult_bounded [OF b] by simp
  then show ?thesis using p v b
    by (simp add: within_limits_def is_audio_plan_def word_le_nat_alt)
qed

lemma validate_spec_iff: "is_ok (validate_spec spec) \<longleftrightarrow> bounded_spec spec \<and> within_limits spec"
  by (cases spec)
     (use smoke_within_limits in \<open>auto simp: smoke_def audio_mesh_def video_gallery_def
        mixed_conference_def bind_unit_is_ok is_ok_ensure Let_def validate_plan_size_ok\<close>)

end
