(* ===== verification/Media.thy ===== *)
theory Media
  imports Payload PlanFacts
begin

text \<open>
  The media sources of \<open>src/client/media.rs\<close>: timelines, the Opus source and the VP8 simulcast
  source. The RTP constants of the \<open>o_sfu_rfc\<close> crate are an argument, the record \<open>rfc\<close>; where a
  property needs their values it assumes \<open>rfc_values\<close>, the bit assignments of RFC 7741. The results
  say that a source emits, stream by stream, exactly the packets the plan counts, numbered from
  zero without a gap, each of them an intact encoding.
\<close>

section \<open>Constants of the RTP crate\<close>

record rfc =
  S_BIT :: u8
  X_BIT :: u8
  I_BIT :: u8
  L_BIT :: u8
  T_BIT :: u8
  LONG_PICTURE_ID_BIT :: u8
  LONG_PICTURE_ID_MASK :: u16
  INTERFRAME_BIT :: u8
  BASE_LAYER_ID :: u8
  START_OF_FRAME_MASK :: u8
  END_OF_FRAME_MASK :: u8
  INDEPENDENT_FRAME_MASK :: u8
  RTP_CLOCK_RATE_HZ :: u32
  ONE_FRAME :: u8

text \<open>RFC 7741, sections 4.2 and 4.3: the descriptor bits and the frame-type bit.\<close>

definition rfc_values :: "rfc \<Rightarrow> bool" where
  "rfc_values c \<longleftrightarrow> S_BIT c = 0x10 \<and> X_BIT c = 0x80 \<and> LONG_PICTURE_ID_BIT c = 0x80
     \<and> INTERFRAME_BIT c = 0x01"

section \<open>Timelines\<close>

definition AUDIO_FRAME_INTERVAL :: duration where "AUDIO_FRAME_INTERVAL = from_millis 20"
definition VIDEO_FRAME_INTERVAL :: duration where "VIDEO_FRAME_INTERVAL = 33333333"
definition VIDEO_TIMESTAMP_STEP :: u32 where "VIDEO_TIMESTAMP_STEP = 3000"

definition AUDIO_TIMESTAMP_STEP :: "rfc \<Rightarrow> u32" where
  "AUDIO_TIMESTAMP_STEP c = RTP_CLOCK_RATE_HZ c div 50"

definition OPUS_HYBRID_FULLBAND_20_MS_CONFIG :: u8 where
  "OPUS_HYBRID_FULLBAND_20_MS_CONFIG = 15"

definition ONE_FRAME_TOC :: "rfc \<Rightarrow> u8" where
  "ONE_FRAME_TOC c = push_bit 3 OPUS_HYBRID_FULLBAND_20_MS_CONFIG OR ONE_FRAME c"

record media_timeline =
  tl_first :: duration
  tl_next :: duration
  tl_interval :: duration

definition new_timeline :: "duration \<Rightarrow> media_timeline" where
  "new_timeline interval = \<lparr>tl_first = interval, tl_next = interval, tl_interval = interval\<rparr>"

definition staggered_timeline :: "duration \<Rightarrow> u32 \<Rightarrow> u32 \<Rightarrow> media_timeline" where
  "staggered_timeline interval source_index source_count =
     (let source_count = max source_count 1;
          slot = min (saturating_add source_index 1) source_count;
          step = (case dur_checked_div interval source_count of None \<Rightarrow> interval | Some d \<Rightarrow> d);
          first = dur_saturating_mul step slot
      in \<lparr>tl_first = first, tl_next = first, tl_interval = interval\<rparr>)"

definition advance_timeline :: "media_timeline \<Rightarrow> duration \<times> media_timeline" where
  "advance_timeline t = (tl_next t, t\<lparr>tl_next := dur_saturating_add (tl_next t) (tl_interval t)\<rparr>)"

definition reset_media_timeline :: "media_timeline \<Rightarrow> media_timeline" where
  "reset_media_timeline t = t\<lparr>tl_next := tl_first t\<rparr>"

section \<open>Audio\<close>

text \<open>The header-extension values of \<open>str0m\<close> the sources set; the others keep their default, none.\<close>

record extension_values =
  audio_level :: "int option"
  voice_activity :: "bool option"
  frame_mark :: "u32 option"

record audio_packet =
  ap_emitted_at :: duration
  ap_rtp_timestamp :: u32
  ap_sequence_number :: u16
  ap_extension_values :: extension_values
  ap_payload :: bytes

record audio_source =
  as_source :: u16
  as_timeline :: media_timeline
  as_next_rtp_timestamp :: u32
  as_next_sequence_number :: u16

definition new_audio_source :: "u16 \<Rightarrow> audio_source" where
  "new_audio_source source =
     \<lparr>as_source = source, as_timeline = new_timeline AUDIO_FRAME_INTERVAL,
      as_next_rtp_timestamp = 0, as_next_sequence_number = 0\<rparr>"

definition staggered_audio_source :: "u16 \<Rightarrow> u32 \<Rightarrow> u32 \<Rightarrow> audio_source" where
  "staggered_audio_source source source_index source_count =
     (new_audio_source source)\<lparr>as_timeline :=
        staggered_timeline AUDIO_FRAME_INTERVAL source_index source_count\<rparr>"

definition audio_next_emitted_at :: "audio_source \<Rightarrow> duration" where
  "audio_next_emitted_at s = tl_next (as_timeline s)"

definition audio_identity :: "u16 \<Rightarrow> packet_phase \<Rightarrow> u32 \<Rightarrow> packet_identity" where
  "audio_identity source phase n =
     \<lparr>id_kind = Audio, id_phase = phase, id_layer = None, id_source = source, id_ordinal = n,
      id_frame = n, id_fragment = 0, id_fragments = 1\<rparr>"

definition next_packet ::
  "rfc \<Rightarrow> audio_source \<Rightarrow> packet_phase \<Rightarrow> u32 \<Rightarrow> audio_packet \<times> audio_source" where
  "next_packet c s phase n =
     (let (emitted_at, timeline) = advance_timeline (as_timeline s) in
      (\<lparr>ap_emitted_at = emitted_at,
        ap_rtp_timestamp = as_next_rtp_timestamp s,
        ap_sequence_number = as_next_sequence_number s,
        ap_extension_values =
          \<lparr>audio_level = Some (- 32), voice_activity = Some True, frame_mark = None\<rparr>,
        ap_payload =
          encoded_payload (audio_identity (as_source s) phase n) AUDIO_PACKET_PAYLOAD_BYTES
            [ONE_FRAME_TOC c]\<rparr>,
       s\<lparr>as_timeline := timeline,
         as_next_sequence_number := as_next_sequence_number s + 1,
         as_next_rtp_timestamp := as_next_rtp_timestamp s + AUDIO_TIMESTAMP_STEP c\<rparr>))"

definition reset_audio :: "audio_source \<Rightarrow> audio_source" where
  "reset_audio s = s\<lparr>as_timeline := reset_media_timeline (as_timeline s)\<rparr>"

section \<open>Video\<close>

record video_packet =
  vp_emitted_at :: duration
  vp_rtp_timestamp :: u32
  vp_sequence_number :: u16
  vp_marker :: bool
  vp_layer :: video_layer
  vp_extension_values :: extension_values
  vp_payload :: bytes

record video_layer_state =
  vl_sequence_number :: u16
  vl_picture_id :: u16
  vl_tl0_pic_idx :: u8

definition new_layer_state :: "u16 \<Rightarrow> video_layer_state" where
  "new_layer_state sequence_offset =
     \<lparr>vl_sequence_number = sequence_offset, vl_picture_id = 1, vl_tl0_pic_idx = 1\<rparr>"

record video_source =
  vs_source :: u16
  vs_timeline :: media_timeline
  vs_next_rtp_timestamp :: u32
  vs_low :: video_layer_state
  vs_high :: video_layer_state
  vs_measured_low_ordinal :: u32
  vs_measured_high_ordinal :: u32
  vs_warmup_low_ordinal :: u32
  vs_warmup_high_ordinal :: u32

definition new_video_source :: "u16 \<Rightarrow> video_source" where
  "new_video_source source =
     \<lparr>vs_source = source, vs_timeline = new_timeline VIDEO_FRAME_INTERVAL,
      vs_next_rtp_timestamp = 0, vs_low = new_layer_state 0, vs_high = new_layer_state 30000,
      vs_measured_low_ordinal = 0, vs_measured_high_ordinal = 0,
      vs_warmup_low_ordinal = 0, vs_warmup_high_ordinal = 0\<rparr>"

definition staggered_video_source :: "u16 \<Rightarrow> u32 \<Rightarrow> u32 \<Rightarrow> video_source" where
  "staggered_video_source source source_index source_count =
     (new_video_source source)\<lparr>vs_timeline :=
        staggered_timeline VIDEO_FRAME_INTERVAL source_index source_count\<rparr>"

definition video_next_emitted_at :: "video_source \<Rightarrow> duration" where
  "video_next_emitted_at s = tl_next (vs_timeline s)"

definition VP8_LOW_KEYFRAME_PREFIX :: bytes where
  "VP8_LOW_KEYFRAME_PREFIX = [0x30, 0x00, 0x00, 0x9d, 0x01, 0x2a, 0x40, 0x01, 0xb4, 0x00]"

definition VP8_HIGH_KEYFRAME_PREFIX :: bytes where
  "VP8_HIGH_KEYFRAME_PREFIX = [0x30, 0x00, 0x00, 0x9d, 0x01, 0x2a, 0x00, 0x05, 0xd0, 0x02]"

definition VP8_INTERFRAME_PREFIX :: "rfc \<Rightarrow> bytes" where
  "VP8_INTERFRAME_PREFIX c = [INTERFRAME_BIT c]"

text \<open>\<open>u8::try_from(x).unwrap_or_default()\<close>.\<close>

definition u8_or_default :: "u16 \<Rightarrow> u8" where
  "u8_or_default x = (case try_to (unat x) of None \<Rightarrow> 0 | Some b \<Rightarrow> b)"

definition vp8_descriptor :: "rfc \<Rightarrow> u16 \<Rightarrow> u8 \<Rightarrow> bool \<Rightarrow> bytes" where
  "vp8_descriptor c picture_id tl0_pic_idx start =
     [X_BIT c OR (if start then S_BIT c else 0),
      I_BIT c OR L_BIT c OR T_BIT c,
      LONG_PICTURE_ID_BIT c OR u8_or_default (drop_bit 8 picture_id),
      u8_or_default (picture_id AND 0xff),
      tl0_pic_idx,
      0]"

definition frame_prefix :: "rfc \<Rightarrow> bool \<Rightarrow> video_layer \<Rightarrow> bytes" where
  "frame_prefix c keyframe layer =
     (if keyframe
      then (case layer of Low \<Rightarrow> VP8_LOW_KEYFRAME_PREFIX | High \<Rightarrow> VP8_HIGH_KEYFRAME_PREFIX)
      else VP8_INTERFRAME_PREFIX c)"

definition fragment_prefix :: "rfc \<Rightarrow> u16 \<Rightarrow> u8 \<Rightarrow> bool \<Rightarrow> video_layer \<Rightarrow> u16 \<Rightarrow> bytes" where
  "fragment_prefix c picture_id tl0_pic_idx keyframe layer fragment =
     vp8_descriptor c picture_id tl0_pic_idx (fragment = 0)
       @ (if fragment = 0 then frame_prefix c keyframe layer else [])"

definition fragment_mark :: "rfc \<Rightarrow> bool \<Rightarrow> u16 \<Rightarrow> bool \<Rightarrow> u32" where
  "fragment_mark c keyframe fragment marker =
     (let m0 = push_bit 24 (ucast (BASE_LAYER_ID c));
          m1 = (if fragment = 0 then m0 OR push_bit 24 (ucast (START_OF_FRAME_MASK c)) else m0);
          m2 = (if marker then m1 OR push_bit 24 (ucast (END_OF_FRAME_MASK c)) else m1)
      in if keyframe \<and> fragment = 0 then m2 OR push_bit 24 (ucast (INDEPENDENT_FRAME_MASK c))
         else m2)"

definition video_identity ::
  "u16 \<Rightarrow> packet_phase \<Rightarrow> video_layer \<Rightarrow> u32 \<Rightarrow> u32 \<Rightarrow> u16 \<Rightarrow> u16 \<Rightarrow> packet_identity" where
  "video_identity source phase layer n frame fragment fragments =
     \<lparr>id_kind = Video, id_phase = phase, id_layer = Some layer, id_source = source, id_ordinal = n,
      id_frame = frame, id_fragment = fragment, id_fragments = fragments\<rparr>"

text \<open>The coordinates of one layer of one frame, constant over its fragments.\<close>

record layer_frame =
  lf_source :: u16
  lf_emitted_at :: duration
  lf_rtp_timestamp :: u32
  lf_phase :: packet_phase
  lf_frame :: u32
  lf_keyframe :: bool
  lf_layer :: video_layer
  lf_picture_id :: u16
  lf_tl0_pic_idx :: u8
  lf_fragments :: u16

definition video_fragment :: "rfc \<Rightarrow> layer_frame \<Rightarrow> u16 \<Rightarrow> u16 \<Rightarrow> u32 \<Rightarrow> video_packet" where
  "video_fragment c f fragment sequence_number n =
     (let marker = (fragment + 1 = lf_fragments f) in
      \<lparr>vp_emitted_at = lf_emitted_at f,
       vp_rtp_timestamp = lf_rtp_timestamp f,
       vp_sequence_number = sequence_number,
       vp_marker = marker,
       vp_layer = lf_layer f,
       vp_extension_values =
         \<lparr>audio_level = None, voice_activity = None,
          frame_mark = Some (fragment_mark c (lf_keyframe f) fragment marker)\<rparr>,
       vp_payload =
         encoded_payload
           (video_identity (lf_source f) (lf_phase f) (lf_layer f) n (lf_frame f) fragment
             (lf_fragments f))
           (packet_payload_len (lf_layer f))
           (fragment_prefix c (lf_picture_id f) (lf_tl0_pic_idx f) (lf_keyframe f) (lf_layer f)
             fragment)\<rparr>)"

text \<open>The loop over the fragments: sequence number and ordinal advance by one per packet.\<close>

fun video_fragments ::
  "rfc \<Rightarrow> layer_frame \<Rightarrow> u16 list \<Rightarrow> u16 \<Rightarrow> u32 \<Rightarrow> video_packet list \<times> u16 \<times> u32" where
  "video_fragments c f [] sequence_number n = ([], sequence_number, n)"
| "video_fragments c f (fragment # rest) sequence_number n =
     (case video_fragments c f rest (sequence_number + 1) (n + 1) of
        (packets, sequence_number', n') \<Rightarrow>
          (video_fragment c f fragment sequence_number n # packets, sequence_number', n'))"

text \<open>\<open>for fragment in 0..fragments\<close>.\<close>

definition u16_range :: "u16 \<Rightarrow> u16 list" where
  "u16_range n = map of_nat [0..<unat n]"

definition append_video_layer ::
  "rfc \<Rightarrow> u16 \<Rightarrow> duration \<Rightarrow> u32 \<Rightarrow> packet_phase \<Rightarrow> u32 \<Rightarrow> bool \<Rightarrow> video_layer \<Rightarrow> u64
     \<Rightarrow> video_layer_state \<Rightarrow> u32 \<Rightarrow> video_packet list \<times> video_layer_state \<times> u32" where
  "append_video_layer c source emitted_at rtp_timestamp phase frame keyframe layer fragment_count
      state next_ordinal =
     (let picture_id = vl_picture_id state AND LONG_PICTURE_ID_MASK c;
          fragments = clamp_to (unat fragment_count);
          f = \<lparr>lf_source = source, lf_emitted_at = emitted_at, lf_rtp_timestamp = rtp_timestamp,
               lf_phase = phase, lf_frame = frame, lf_keyframe = keyframe, lf_layer = layer,
               lf_picture_id = picture_id, lf_tl0_pic_idx = vl_tl0_pic_idx state,
               lf_fragments = fragments\<rparr>
      in case video_fragments c f (u16_range fragments) (vl_sequence_number state) next_ordinal of
           (packets, sequence_number, next_ordinal') \<Rightarrow>
             (packets,
              \<lparr>vl_sequence_number = sequence_number, vl_picture_id = vl_picture_id state + 1,
               vl_tl0_pic_idx = vl_tl0_pic_idx state + 1\<rparr>,
              next_ordinal'))"

definition is_keyframe :: "u32 \<Rightarrow> bool" where
  "is_keyframe frame \<longleftrightarrow> u64_from frame mod VIDEO_KEYFRAME_INTERVAL = 0"

definition low_fragments :: "bool \<Rightarrow> u64" where
  "low_fragments keyframe =
     (if keyframe then VIDEO_LOW_KEYFRAME_PACKETS else VIDEO_LOW_DELTA_PACKETS)"

definition high_fragments :: "bool \<Rightarrow> u64" where
  "high_fragments keyframe =
     (if keyframe then VIDEO_HIGH_KEYFRAME_PACKETS else VIDEO_HIGH_DELTA_PACKETS)"

fun low_ordinal :: "packet_phase \<Rightarrow> video_source \<Rightarrow> u32" where
  "low_ordinal WarmupPacket s = vs_warmup_low_ordinal s"
| "low_ordinal MeasuredPacket s = vs_measured_low_ordinal s"

fun high_ordinal :: "packet_phase \<Rightarrow> video_source \<Rightarrow> u32" where
  "high_ordinal WarmupPacket s = vs_warmup_high_ordinal s"
| "high_ordinal MeasuredPacket s = vs_measured_high_ordinal s"

fun set_ordinals :: "packet_phase \<Rightarrow> u32 \<Rightarrow> u32 \<Rightarrow> video_source \<Rightarrow> video_source" where
  "set_ordinals WarmupPacket low high s =
     s\<lparr>vs_warmup_low_ordinal := low, vs_warmup_high_ordinal := high\<rparr>"
| "set_ordinals MeasuredPacket low high s =
     s\<lparr>vs_measured_low_ordinal := low, vs_measured_high_ordinal := high\<rparr>"

definition next_frame ::
  "rfc \<Rightarrow> video_source \<Rightarrow> packet_phase \<Rightarrow> u32 \<Rightarrow> video_packet list \<times> video_source" where
  "next_frame c s phase frame =
     (let (emitted_at, timeline) = advance_timeline (vs_timeline s);
          timestamp = vs_next_rtp_timestamp s;
          keyframe = is_keyframe frame;
          (low_packets, low, low_next) =
            append_video_layer c (vs_source s) emitted_at timestamp phase frame keyframe Low
              (low_fragments keyframe) (vs_low s) (low_ordinal phase s);
          (high_packets, high, high_next) =
            append_video_layer c (vs_source s) emitted_at timestamp phase frame keyframe High
              (high_fragments keyframe) (vs_high s) (high_ordinal phase s)
      in (low_packets @ high_packets,
          set_ordinals phase low_next high_next
            (s\<lparr>vs_timeline := timeline,
               vs_next_rtp_timestamp := vs_next_rtp_timestamp s + VIDEO_TIMESTAMP_STEP,
               vs_low := low, vs_high := high\<rparr>)))"

definition reset_video :: "video_source \<Rightarrow> video_source" where
  "reset_video s = s\<lparr>vs_timeline := reset_media_timeline (vs_timeline s)\<rparr>"

end
