(* ===== verification/MediaFacts.thy ===== *)
theory MediaFacts
  imports Media
begin

text \<open>
  What the media sources emit: every payload of either source is an intact encoding of its identity,
  and the packets of each stream of a measured run are numbered from zero without gap, as many as
  the plan counts.
\<close>

section \<open>Prefixes in which the identity cannot start\<close>

lemma or_bit7 [simp]: "(0x80 OR x :: u8) \<noteq> 0x4F" "(0x80 OR x :: u8) \<noteq> 0x53" "(0x80 OR x :: u8) \<noteq> 0x46"
proof -
  have b: "bit (0x80 OR x :: u8) 7" by (simp add: bit_simps) 
  have n: "\<not> bit (0x4F :: u8) 7" "\<not> bit (0x53 :: u8) 7" "\<not> bit (0x46 :: u8) 7"
    by simp_all
  show "(0x80 OR x :: u8) \<noteq> 0x4F" "(0x80 OR x :: u8) \<noteq> 0x53" "(0x80 OR x :: u8) \<noteq> 0x46"
    using b n by metis+
qed

lemma toc_not_magic: "ONE_FRAME_TOC c \<noteq> 0x4F"
proof -
  have t: "ONE_FRAME_TOC c = 0x78 OR ONE_FRAME c"
    by (simp add: ONE_FRAME_TOC_def OPUS_HYBRID_FULLBAND_20_MS_CONFIG_def push_bit_eq_mult)
  have "bit (0x78 OR ONE_FRAME c) 5" by (simp add: bit_simps)
  moreover have "\<not> bit (0x4F :: u8) 5" by simp
  ultimately show ?thesis unfolding t by metis
qed

lemma safe_toc: "safe_prefix [ONE_FRAME_TOC c]"
  using toc_not_magic [of c] by (simp add: safe_prefix_def identity_consts)

lemma safe_fragment_prefix:
  assumes "rfc_values c"
  shows "safe_prefix (fragment_prefix c picture_id tl0 keyframe layer fragment)"
  using assms
  by (cases keyframe; cases layer; cases "fragment = 0")
     (simp_all add: safe_prefix_def fragment_prefix_def vp8_descriptor_def frame_prefix_def
       rfc_values_def VP8_LOW_KEYFRAME_PREFIX_def VP8_HIGH_KEYFRAME_PREFIX_def
       VP8_INTERFRAME_PREFIX_def identity_consts upt_rec_numeral)

section \<open>Emitted payloads are intact\<close>

lemma inspect_safe:
  assumes "expected_len i = Inr len" "safe_prefix prefix"
  shows "inspect_payload (encoded_payload i len prefix) = Inr \<lparr>identity = i, payload_matches = True\<rparr>"
proof -
  have "length prefix + 22 \<le> len"
    using assms(2) expected_len_bound [OF assms(1)] by (simp add: safe_prefix_def)
  with assms show ?thesis by (simp add: inspect_encoded)
qed

lemma length_safe:
  assumes "expected_len i = Inr len" "safe_prefix prefix"
  shows "length (encoded_payload i len prefix) = len"
proof -
  have "length prefix + 22 \<le> len"
    using assms(2) expected_len_bound [OF assms(1)] by (simp add: safe_prefix_def)
  then show ?thesis by (rule length_encoded_payload)
qed

lemma expected_len_audio [simp]: "expected_len (audio_identity source phase n) = Inr AUDIO_PACKET_PAYLOAD_BYTES"
  by (simp add: expected_len_def audio_identity_def)

lemma expected_len_video [simp]:
  "expected_len (video_identity source phase layer n frame fragment fragments) = Inr (packet_payload_len layer)"
  by (simp add: expected_len_def video_identity_def)

definition intact :: "bytes \<Rightarrow> packet_identity \<Rightarrow> bool" where
  "intact payload i \<longleftrightarrow>
     inspect_payload payload = Inr \<lparr>identity = i, payload_matches = True\<rparr>"

lemma audio_packet_intact:
  "intact (ap_payload (fst (next_packet c s phase n))) (audio_identity (as_source s) phase n)"
  by (simp add: intact_def next_packet_def advance_timeline_def inspect_safe safe_toc)

lemma audio_packet_length: "length (ap_payload (fst (next_packet c s phase n))) = 80"
  using length_safe [OF expected_len_audio safe_toc]
  by (simp add: next_packet_def advance_timeline_def model_consts)

lemma video_fragment_intact:
  assumes "rfc_values c"
  shows "intact (vp_payload (video_fragment c f fragment sequence_number n))
    (video_identity (lf_source f) (lf_phase f) (lf_layer f) n (lf_frame f) fragment (lf_fragments f))"
  using assms by (simp add: intact_def video_fragment_def Let_def inspect_safe safe_fragment_prefix)

lemma video_fragment_length:
  assumes "rfc_values c"
  shows "length (vp_payload (video_fragment c f fragment sequence_number n)) = packet_payload_len (lf_layer f)"
  using length_safe [OF expected_len_video safe_fragment_prefix [OF assms]]
  by (simp add: video_fragment_def Let_def)

section \<open>Numbering\<close>

text \<open>
  \<open>numbered source kind layer start payloads\<close>: the payloads are intact measured packets of one stream
  whose ordinals count up from \<open>start\<close>.
\<close>

definition stream_identity ::
  "u16 \<Rightarrow> payload_kind \<Rightarrow> video_layer option \<Rightarrow> packet_phase \<Rightarrow> u32 \<Rightarrow> packet_identity \<Rightarrow> bool" where
  "stream_identity source kind layer phase n i \<longleftrightarrow>
     id_source i = source \<and> id_kind i = kind \<and> id_layer i = layer \<and> id_phase i = phase
     \<and> id_ordinal i = n"

definition numbered ::
  "u16 \<Rightarrow> payload_kind \<Rightarrow> video_layer option \<Rightarrow> packet_phase \<Rightarrow> nat \<Rightarrow> bytes list \<Rightarrow> bool" where
  "numbered source kind layer phase start payloads \<longleftrightarrow>
     (\<forall>k < length payloads. \<exists>i. intact (payloads ! k) i
        \<and> stream_identity source kind layer phase (of_nat (start + k)) i)"

lemma numbered_Nil [simp]: "numbered source kind layer phase start []"
  by (simp add: numbered_def)

lemma numbered_Cons:
  "numbered source kind layer phase start (p # ps) \<longleftrightarrow>
     (\<exists>i. intact p i \<and> stream_identity source kind layer phase (of_nat start) i)
     \<and> numbered source kind layer phase (Suc start) ps"
  unfolding numbered_def list.size(4) add.right_neutral add_Suc_right All_less_Suc2
  by (simp del: of_nat_Suc of_nat_add)

lemma numbered_append:
  "numbered source kind layer phase start (ps @ qs) \<longleftrightarrow>
     numbered source kind layer phase start ps
     \<and> numbered source kind layer phase (start + length ps) qs"
  by (induction ps arbitrary: start) (simp_all add: numbered_Cons)

section \<open>The audio stream\<close>

text \<open>The packets of ordinals \<open>start, start + 1, ...\<close>, \<open>count\<close> of them.\<close>

fun audio_packets :: "rfc \<Rightarrow> audio_source \<Rightarrow> packet_phase \<Rightarrow> nat \<Rightarrow> nat \<Rightarrow> audio_packet list" where
  "audio_packets c s phase start 0 = []"
| "audio_packets c s phase start (Suc count) =
     (case next_packet c s phase (of_nat start) of
        (packet, s') \<Rightarrow> packet # audio_packets c s' phase (Suc start) count)"

lemma next_packet_source [simp]: "as_source (snd (next_packet c s phase n)) = as_source s"
  by (simp add: next_packet_def advance_timeline_def)

lemma audio_packets_numbered:
  "length (audio_packets c s phase start count) = count \<and>
   numbered (as_source s) Audio None phase start (map ap_payload (audio_packets c s phase start count)) \<and>
   (\<forall>p \<in> set (audio_packets c s phase start count). length (ap_payload p) = 80)"
proof (induction count arbitrary: s start)
  case 0
  then show ?case by simp
next
  case (Suc count)
  obtain packet s' where n: "next_packet c s phase (of_nat start) = (packet, s')" by fastforce
  have s: "as_source s' = as_source s" using next_packet_source [of c s phase "of_nat start"] n by simp
  have i: "intact (ap_payload packet) (audio_identity (as_source s) phase (of_nat start))"
    using audio_packet_intact [of c s phase "of_nat start"] n by simp
  moreover have "length (ap_payload packet) = 80"
    using audio_packet_length [of c s phase "of_nat start"] n by simp
  moreover have "stream_identity (as_source s) Audio None phase (of_nat start)
      (audio_identity (as_source s) phase (of_nat start))"
    by (simp add: stream_identity_def audio_identity_def)
  ultimately show ?case using Suc.IH [of s' "Suc start"] s n
    by (auto simp: numbered_Cons simp del: of_nat_Suc)
qed

section \<open>The video streams\<close>

definition layer_payloads :: "video_layer \<Rightarrow> video_packet list \<Rightarrow> bytes list" where
  "layer_payloads layer packets = map vp_payload (filter (\<lambda>p. vp_layer p = layer) packets)"

lemma layer_payloads_append [simp]:
  "layer_payloads layer (ps @ qs) = layer_payloads layer ps @ layer_payloads layer qs"
  by (simp add: layer_payloads_def)

lemma video_fragments_numbered:
  assumes "rfc_values c"
    and "video_fragments c f fragments sequence_number (of_nat start) = (packets, sequence_number', n')"
  shows "length packets = length fragments \<and> n' = of_nat (start + length fragments)
    \<and> (\<forall>p \<in> set packets. vp_layer p = lf_layer f \<and> length (vp_payload p) = packet_payload_len (lf_layer f))
    \<and> numbered (lf_source f) Video (Some (lf_layer f)) (lf_phase f) start (map vp_payload packets)"
  using assms(2)
proof (induction fragments arbitrary: sequence_number start packets sequence_number' n')
  case Nil
  then show ?case by simp
next
  case (Cons fragment rest)
  obtain ps sn n2 where r: "video_fragments c f rest (sequence_number + 1) (of_nat (Suc start)) = (ps, sn, n2)"
    by (metis prod_cases3)
  have i: "intact (vp_payload (video_fragment c f fragment sequence_number (of_nat start)))
    (video_identity (lf_source f) (lf_phase f) (lf_layer f) (of_nat start) (lf_frame f) fragment (lf_fragments f))"
    by (rule video_fragment_intact [OF assms(1)])
  moreover have "stream_identity (lf_source f) Video (Some (lf_layer f)) (lf_phase f) (of_nat start)
    (video_identity (lf_source f) (lf_phase f) (lf_layer f) (of_nat start) (lf_frame f) fragment (lf_fragments f))"
    by (simp add: stream_identity_def video_identity_def)
  moreover have "vp_layer (video_fragment c f fragment sequence_number (of_nat start)) = lf_layer f"
    by (simp add: video_fragment_def Let_def)
  moreover have "(of_nat start :: u32) + 1 = of_nat (Suc start)" by simp
  ultimately show ?case
    using Cons.IH [OF r] Cons.prems r video_fragment_length [OF assms(1)]
    by (auto simp: numbered_Cons simp del: of_nat_Suc)
qed

lemma length_u16_range [simp]: "length (u16_range n) = unat n"
  by (simp add: u16_range_def)

lemma append_video_layer_numbered:
  assumes "rfc_values c" "unat fragment_count < 2 ^ 16"
    and "append_video_layer c source emitted_at timestamp phase frame keyframe layer fragment_count
      state (of_nat start) = (packets, state', n')"
  shows "length packets = unat fragment_count \<and> n' = of_nat (start + unat fragment_count)
    \<and> (\<forall>p \<in> set packets. vp_layer p = layer \<and> length (vp_payload p) = packet_payload_len layer)
    \<and> numbered source Video (Some layer) phase start (map vp_payload packets)"
proof -
  have k: "unat (clamp_to (unat fragment_count) :: u16) = unat fragment_count"
    using assms(2) by (simp add: unat_sat)
  show ?thesis
    using assms(3) video_fragments_numbered [OF assms(1)] k
    by (fastforce simp: append_video_layer_def Let_def split: prod.splits)
qed

text \<open>Packets of one frame per layer, as numbers.\<close>

definition low_count :: "nat \<Rightarrow> nat" where
  "low_count frame = (if frame mod 60 = 0 then 2 else 1)"

definition high_count :: "nat \<Rightarrow> nat" where
  "high_count frame = (if frame mod 60 = 0 then 20 else 14)"

lemma is_keyframe_nat: "is_keyframe frame \<longleftrightarrow> unat frame mod 60 = 0"
  by (simp add: is_keyframe_def word_eq_unat_iff unat_mod model_consts)

lemma fragments_count:
  "unat (low_fragments (is_keyframe frame)) = low_count (unat frame)"
  "unat (high_fragments (is_keyframe frame)) = high_count (unat frame)"
  by (simp_all add: low_fragments_def high_fragments_def low_count_def high_count_def is_keyframe_nat
      model_consts)

lemma count_small: "low_count f < 2 ^ 16" "high_count f < 2 ^ 16"
  by (simp_all add: low_count_def high_count_def)

lemma layer_payloads_all:
  "\<forall>p \<in> set ps. vp_layer p = l \<Longrightarrow> layer_payloads l ps = map vp_payload ps"
  "\<forall>p \<in> set ps. vp_layer p \<noteq> l \<Longrightarrow> layer_payloads l ps = []"
  by (simp_all add: layer_payloads_def)

lemma next_frame_numbered:
  assumes "rfc_values c" "low_ordinal phase s = of_nat lo" "high_ordinal phase s = of_nat hi"
    and "next_frame c s phase frame = (packets, s')"
  shows "numbered (vs_source s) Video (Some Low) phase lo (layer_payloads Low packets)
    \<and> numbered (vs_source s) Video (Some High) phase hi (layer_payloads High packets)
    \<and> length (layer_payloads Low packets) = low_count (unat frame)
    \<and> length (layer_payloads High packets) = high_count (unat frame)
    \<and> low_ordinal phase s' = of_nat (lo + low_count (unat frame))
    \<and> high_ordinal phase s' = of_nat (hi + high_count (unat frame))
    \<and> vs_source s' = vs_source s
    \<and> (\<forall>p \<in> set packets. length (vp_payload p) = packet_payload_len (vp_layer p))"
proof -
  let ?k = "is_keyframe frame"
  let ?e = "fst (advance_timeline (vs_timeline s))"
  let ?t = "vs_next_rtp_timestamp s"
  obtain lp ls ln where l: "append_video_layer c (vs_source s) ?e ?t phase frame ?k Low
      (low_fragments ?k) (vs_low s) (of_nat lo) = (lp, ls, ln)" by (metis prod_cases3)
  obtain hp hs hn where h: "append_video_layer c (vs_source s) ?e ?t phase frame ?k High
      (high_fragments ?k) (vs_high s) (of_nat hi) = (hp, hs, hn)" by (metis prod_cases3)
  have L: "length lp = low_count (unat frame) \<and> ln = of_nat (lo + low_count (unat frame))
    \<and> (\<forall>p \<in> set lp. vp_layer p = Low \<and> length (vp_payload p) = packet_payload_len Low)
    \<and> numbered (vs_source s) Video (Some Low) phase lo (map vp_payload lp)"
    using append_video_layer_numbered [OF assms(1) _ l] count_small by (simp add: fragments_count)
  have H: "length hp = high_count (unat frame) \<and> hn = of_nat (hi + high_count (unat frame))
    \<and> (\<forall>p \<in> set hp. vp_layer p = High \<and> length (vp_payload p) = packet_payload_len High)
    \<and> numbered (vs_source s) Video (Some High) phase hi (map vp_payload hp)"
    using append_video_layer_numbered [OF assms(1) _ h] count_small by (simp add: fragments_count)
  have p: "packets = lp @ hp" and s': "vs_source s' = vs_source s"
    "low_ordinal phase s' = ln" "high_ordinal phase s' = hn"
    using assms(2-4) l h by (cases phase; auto simp: next_frame_def Let_def split: prod.splits)+
  have "layer_payloads Low packets = map vp_payload lp" "layer_payloads High packets = map vp_payload hp"
    using L H p by (simp_all add: layer_payloads_all)
  then show ?thesis using L H p s' by auto
qed

text \<open>The packets of frames \<open>start, start + 1, ...\<close>, \<open>count\<close> frames.\<close>

fun video_packets :: "rfc \<Rightarrow> video_source \<Rightarrow> packet_phase \<Rightarrow> nat \<Rightarrow> nat \<Rightarrow> video_packet list" where
  "video_packets c s phase start 0 = []"
| "video_packets c s phase start (Suc count) =
     (case next_frame c s phase (of_nat start) of
        (packets, s') \<Rightarrow> packets @ video_packets c s' phase (Suc start) count)"

lemma video_packets_numbered:
  assumes "rfc_values c" "low_ordinal phase s = of_nat lo" "high_ordinal phase s = of_nat hi"
    and "start + count \<le> 2 ^ 32"
  shows "numbered (vs_source s) Video (Some Low) phase lo
      (layer_payloads Low (video_packets c s phase start count))
    \<and> numbered (vs_source s) Video (Some High) phase hi
      (layer_payloads High (video_packets c s phase start count))
    \<and> length (layer_payloads Low (video_packets c s phase start count))
        = sum_list (map low_count [start..<start + count])
    \<and> length (layer_payloads High (video_packets c s phase start count))
        = sum_list (map high_count [start..<start + count])
    \<and> (\<forall>p \<in> set (video_packets c s phase start count).
          length (vp_payload p) = packet_payload_len (vp_layer p))"
  using assms(2-4)
proof (induction count arbitrary: s start lo hi)
  case 0
  then show ?case by (simp add: layer_payloads_def)
next
  case (Suc count)
  obtain packets s' where n: "next_frame c s phase (of_nat start) = (packets, s')" by fastforce
  have u: "unat (of_nat start :: u32) = start" using Suc.prems(3) by (simp add: unat_of_nat)
  note f = next_frame_numbered [OF assms(1) Suc.prems(1,2) n, unfolded u]
  have r: "[start..<start + Suc count] = start # [Suc start..<Suc start + count]"
    by (simp add: upt_rec)
  have IH: "numbered (vs_source s') Video (Some Low) phase (lo + low_count start)
      (layer_payloads Low (video_packets c s' phase (Suc start) count))
    \<and> numbered (vs_source s') Video (Some High) phase (hi + high_count start)
      (layer_payloads High (video_packets c s' phase (Suc start) count))
    \<and> length (layer_payloads Low (video_packets c s' phase (Suc start) count))
        = sum_list (map low_count [Suc start..<Suc start + count])
    \<and> length (layer_payloads High (video_packets c s' phase (Suc start) count))
        = sum_list (map high_count [Suc start..<Suc start + count])
    \<and> (\<forall>p \<in> set (video_packets c s' phase (Suc start) count).
          length (vp_payload p) = packet_payload_len (vp_layer p))"
    by (rule Suc.IH) (use f Suc.prems(3) in simp_all)
  show ?case unfolding r using IH f n
    by (auto simp: numbered_append)
qed

lemma keyframes_sum:
  "sum_list (map low_count [0..<n]) = n + div_ceil_nat n 60 \<and>
   sum_list (map high_count [0..<n]) = 14 * n + 6 * div_ceil_nat n 60"
proof (induction n)
  case 0
  then show ?case by (simp add: div_ceil_nat_def)
next
  case (Suc n)
  have "div_ceil_nat (Suc n) 60 = div_ceil_nat n 60 + (if n mod 60 = 0 then 1 else 0)"
  proof (cases "n mod 60 = 59")
    case True
    then have "Suc n div 60 = Suc (n div 60)" "Suc n mod 60 = 0"
      by (simp_all add: div_Suc mod_Suc)
    then show ?thesis using True by (simp add: div_ceil_nat_def)
  next
    case False
    then have "Suc n div 60 = n div 60" "Suc n mod 60 = Suc (n mod 60)"
      by (simp_all add: div_Suc mod_Suc)
    then show ?thesis by (simp add: div_ceil_nat_def)
  qed
  with Suc show ?case by (simp add: low_count_def high_count_def)
qed

lemma stream_counts:
  "sum_list (map low_count [0..<30 * s]) = low_packets_in s"
  "sum_list (map high_count [0..<30 * s]) = high_packets_in s"
  using keyframes_sum [of "30 * s"] by (simp_all add: keyframes_in_eq low_packets_in_def high_packets_in_def)

section \<open>What a measured run emits\<close>

lemma fresh_ordinals [simp]:
  "low_ordinal phase (new_video_source source) = 0" "high_ordinal phase (new_video_source source) = 0"
  "low_ordinal phase (staggered_video_source source i n) = 0"
  "high_ordinal phase (staggered_video_source source i n) = 0"
  by (cases phase; simp add: staggered_video_source_def new_video_source_def)+

text \<open>
  C7: an audio source sends one intact 80-byte packet per ordinal, the ordinals counting up from
  zero, whatever its timeline.
\<close>

theorem audio_stream_exact:
  "length (audio_packets c s MeasuredPacket 0 count) = count \<and>
   numbered (as_source s) Audio None MeasuredPacket 0
     (map ap_payload (audio_packets c s MeasuredPacket 0 count)) \<and>
   sum_list (map (\<lambda>p. length (ap_payload p)) (audio_packets c s MeasuredPacket 0 count)) = 80 * count"
proof -
  note a = audio_packets_numbered [of c s MeasuredPacket 0 count]
  then have "map (\<lambda>p. length (ap_payload p)) (audio_packets c s MeasuredPacket 0 count)
      = replicate count 80"
    by (intro replicate_eqI) auto
  with a show ?thesis by (simp add: sum_list_replicate)
qed

text \<open>
  C6: over any whole number of seconds a camera source sends, on each of its two layers, exactly the
  number of packets \<open>video_packets_per_layer\<close> plans, all intact and numbered from zero without gap;
  so no ordinal is skipped at a keyframe and none is shared between the layers.
\<close>

theorem video_streams_exact:
  assumes "rfc_values c"
    and "vs_measured_low_ordinal s = 0" "vs_measured_high_ordinal s = 0"
    and "unat seconds \<le> 3600" and "video_packets_per_layer seconds = Inr (low, high)"
  shows "\<forall>packets. packets = video_packets c s MeasuredPacket 0 (30 * unat seconds) \<longrightarrow>
    numbered (vs_source s) Video (Some Low) MeasuredPacket 0 (layer_payloads Low packets) \<and>
    numbered (vs_source s) Video (Some High) MeasuredPacket 0 (layer_payloads High packets) \<and>
    length (layer_payloads Low packets) = unat low \<and>
    length (layer_payloads High packets) = unat high"
proof -
  have lh: "unat low = low_packets_in (unat seconds)" "unat high = high_packets_in (unat seconds)"
    using video_packets_per_layer_ok [of seconds] assms(5) by auto
  show ?thesis
    using video_packets_numbered [OF assms(1), of MeasuredPacket s 0 0 0 "30 * unat seconds"]
      assms(2-4) stream_counts [of "unat seconds"] lh by simp
qed

text \<open>The values RFC 7741 and RFC 6716 give the constants.\<close>

definition rfc_7741 :: rfc where
  "rfc_7741 =
     \<lparr>S_BIT = 0x10, X_BIT = 0x80, I_BIT = 0x80, L_BIT = 0x40, T_BIT = 0x20,
      LONG_PICTURE_ID_BIT = 0x80, LONG_PICTURE_ID_MASK = 0x7fff, INTERFRAME_BIT = 0x01,
      BASE_LAYER_ID = 0, START_OF_FRAME_MASK = 0x80, END_OF_FRAME_MASK = 0x40,
      INDEPENDENT_FRAME_MASK = 0x20, RTP_CLOCK_RATE_HZ = 48000, ONE_FRAME = 0\<rparr>"

lemma rfc_values_7741 [simp]: "rfc_values rfc_7741"
  by (simp add: rfc_values_def rfc_7741_def)

theorem video_streams_exact_witness:
  "length (layer_payloads High
     (video_packets rfc_7741 (new_video_source 7) MeasuredPacket 0 (30 * unat (10 :: u32)))) = 4230"
proof -
  obtain low high where l: "video_packets_per_layer 10 = Inr (low, high)"
    "unat high = high_packets_in (unat (10 :: u32))"
    using video_packets_per_layer_ok [of 10] by blast
  then have "unat high = 4230" by (simp add: high_packets_in_def keyframes_in_def)
  moreover have "unat (10 :: u32) \<le> 3600" by simp
  ultimately show ?thesis
    using video_streams_exact [OF rfc_values_7741 _ _ _ l(1), of "new_video_source 7"]
    by (simp add: new_video_source_def)
qed

section \<open>Interface: timelines\<close>

text \<open>A source whose turns are due at a fixed spacing; resetting it brings back the first time.\<close>

locale paced_source =
  fixes due :: "'src \<Rightarrow> duration" and turn :: "'src \<Rightarrow> 'src" and reset :: "'src \<Rightarrow> 'src"
    and spacing :: "'src \<Rightarrow> duration" and first :: "'src \<Rightarrow> duration"
  assumes due_turn: "due (turn s) = dur_saturating_add (due s) (spacing s)"
    and spacing_turn: "spacing (turn s) = spacing s"
    and first_turn: "first (turn s) = first s"
    and due_reset: "due (reset s) = first s"
    and spacing_reset: "spacing (reset s) = spacing s"
begin

fun turns :: "nat \<Rightarrow> 'src \<Rightarrow> 'src" where
  "turns 0 s = s"
| "turns (Suc n) s = turn (turns n s)"

lemma spacing_turns [simp]: "spacing (turns n s) = spacing s"
  by (induction n) (simp_all add: spacing_turn)

lemma first_turns [simp]: "first (turns n s) = first s"
  by (induction n) (simp_all add: first_turn)

lemma due_turns: "due s + n * spacing s \<le> duration_max \<Longrightarrow> due (turns n s) = due s + n * spacing s"
  by (induction n) (simp_all add: due_turn dur_saturating_add_def)

lemma due_after_reset:
  "first s + n * spacing s \<le> duration_max \<Longrightarrow>
     due (turns n (reset (turns m s))) = first s + n * spacing s"
  using due_turns [of "reset (turns m s)" n] by (simp add: due_reset spacing_reset)

end

definition audio_turn :: "rfc \<Rightarrow> packet_phase \<Rightarrow> u32 \<Rightarrow> audio_source \<Rightarrow> audio_source" where
  "audio_turn c phase n s = snd (next_packet c s phase n)"

definition video_turn :: "rfc \<Rightarrow> packet_phase \<Rightarrow> u32 \<Rightarrow> video_source \<Rightarrow> video_source" where
  "video_turn c phase frame s = snd (next_frame c s phase frame)"

lemma video_turn_timeline:
  "vs_timeline (video_turn c phase frame s) = snd (advance_timeline (vs_timeline s))"
  by (cases phase) (simp_all add: video_turn_def next_frame_def Let_def split: prod.splits)

interpretation audio_pace: paced_source audio_next_emitted_at "audio_turn c phase n" reset_audio
  "\<lambda>s. tl_interval (as_timeline s)" "\<lambda>s. tl_first (as_timeline s)"
  by unfold_locales
    (simp_all add: audio_next_emitted_at_def audio_turn_def next_packet_def advance_timeline_def
      reset_audio_def reset_media_timeline_def)

interpretation video_pace: paced_source video_next_emitted_at "video_turn c phase frame" reset_video
  "\<lambda>s. tl_interval (vs_timeline s)" "\<lambda>s. tl_first (vs_timeline s)"
  by unfold_locales
    (simp_all add: video_next_emitted_at_def video_turn_timeline advance_timeline_def
      reset_video_def reset_media_timeline_def)

end
