(* ===== verification/Ledger.thy ===== *)
theory Ledger
  imports MediaFacts
begin

text \<open>
  The packet accounting of \<open>src/client/scenario.rs\<close>: which streams a peer expects
  (\<open>expected_audio_streams\<close>, \<open>expected_video_streams\<close>, \<open>featured_source\<close>, \<open>source_id\<close>) and the
  \<open>PacketLedger\<close> that judges what arrives. The main results are the ledger's conservation law and
  its exactness: it reports no discrepancy exactly when every expected stream arrived complete,
  intact and in order and nothing else arrived.
\<close>

section \<open>Expected streams\<close>

record expected_stream =
  es_source :: u16
  es_kind :: payload_kind
  es_layer :: "video_layer option"
  es_seen :: "bool list"
  es_next_ordinal :: nat

definition new_stream ::
  "u16 \<Rightarrow> payload_kind \<Rightarrow> video_layer option \<Rightarrow> u32 \<Rightarrow> expected_stream result" where
  "new_stream source kind layer packets =
     ensure (packets > 0) ''expected stream has no packets'' (
     Inr \<lparr>es_source = source, es_kind = kind, es_layer = layer,
          es_seen = replicate (unat packets) False, es_next_ordinal = 0\<rparr>)"

definition audio_stream :: "u16 \<Rightarrow> u32 \<Rightarrow> expected_stream result" where
  "audio_stream source packets = new_stream source Audio None packets"

definition video_stream :: "u16 \<Rightarrow> video_layer \<Rightarrow> u32 \<Rightarrow> expected_stream result" where
  "video_stream source layer packets = new_stream source Video (Some layer) packets"

definition stream_is_complete :: "expected_stream \<Rightarrow> bool" where
  "stream_is_complete s \<longleftrightarrow> es_next_ordinal s = length (es_seen s)"

definition source_id :: "u32 \<Rightarrow> u32 \<Rightarrow> nat \<Rightarrow> u16 result" where
  "source_id room_index peers_in_room peer_index =
     bind_ok (ok_or ''peer index exceeds u32'' (try_to peer_index :: u32 option)) (\<lambda>peer_index.
     bind_ok (ok_or ''global source index overflowed''
       (case checked_mul room_index peers_in_room of
          None \<Rightarrow> None
        | Some offset \<Rightarrow> checked_add offset peer_index)) (\<lambda>source.
     ok_or ''global source index exceeds u16'' (try_to (unat source))))"

definition featured_source :: "nat \<Rightarrow> u32 \<Rightarrow> u32 option" where
  "featured_source peer_index publisher_count =
     (let publisher_count = unat publisher_count in
      if publisher_count = 0 then None
      else
        let candidate = peer_index mod publisher_count in
        if candidate = peer_index
        then (if publisher_count > 1 then try_to ((candidate + 1) mod publisher_count) else None)
        else try_to candidate)"

text \<open>\<open>for source_index in 0..publisher_count\<close>, with \<open>?\<close> in its body.\<close>

definition u32_range :: "u32 \<Rightarrow> u32 list" where
  "u32_range n = map of_nat [0..<unat n]"

fun audio_streams_from :: "u32 \<Rightarrow> u32 \<Rightarrow> nat \<Rightarrow> u32 \<Rightarrow> u32 list \<Rightarrow> expected_stream list result" where
  "audio_streams_from room_index peer_count peer_index packet_count [] = Inr []"
| "audio_streams_from room_index peer_count peer_index packet_count (source_index # rest) =
     (if unat source_index \<noteq> peer_index
      then bind_ok (source_id room_index peer_count (unat source_index)) (\<lambda>source.
           bind_ok (audio_stream source packet_count) (\<lambda>stream.
           bind_ok (audio_streams_from room_index peer_count peer_index packet_count rest)
             (\<lambda>streams. Inr (stream # streams))))
      else audio_streams_from room_index peer_count peer_index packet_count rest)"

definition expected_audio_streams ::
  "u32 \<Rightarrow> u32 \<Rightarrow> u32 \<Rightarrow> nat \<Rightarrow> u32 \<Rightarrow> expected_stream list result" where
  "expected_audio_streams room_index peer_count publisher_count peer_index packet_count =
     audio_streams_from room_index peer_count peer_index packet_count (u32_range publisher_count)"

fun video_streams_from ::
  "u32 option \<Rightarrow> u32 \<Rightarrow> u32 \<Rightarrow> nat \<Rightarrow> u64 \<Rightarrow> u64 \<Rightarrow> u32 list \<Rightarrow> expected_stream list result" where
  "video_streams_from featured room_index peer_count peer_index low_packets high_packets [] = Inr []"
| "video_streams_from featured room_index peer_count peer_index low_packets high_packets
     (source_index # rest) =
     (if unat source_index = peer_index
      then video_streams_from featured room_index peer_count peer_index low_packets high_packets rest
      else
        let layer = (if featured = Some source_index then High else Low);
            packet_count = (case layer of Low \<Rightarrow> low_packets | High \<Rightarrow> high_packets) in
        bind_ok (source_id room_index peer_count (unat source_index)) (\<lambda>source.
        bind_ok (ok_or ''video packet count exceeds u32'' (try_to (unat packet_count) :: u32 option))
          (\<lambda>packets.
        bind_ok (video_stream source layer packets) (\<lambda>stream.
        bind_ok (video_streams_from featured room_index peer_count peer_index low_packets high_packets
          rest) (\<lambda>streams. Inr (stream # streams))))))"

definition expected_video_streams ::
  "u32 \<Rightarrow> u32 \<Rightarrow> u32 \<Rightarrow> nat \<Rightarrow> u64 \<Rightarrow> u64 \<Rightarrow> expected_stream list result" where
  "expected_video_streams room_index peer_count publisher_count peer_index low_packets high_packets =
     video_streams_from (featured_source peer_index publisher_count) room_index peer_count peer_index
       low_packets high_packets (u32_range publisher_count)"

section \<open>The ledger\<close>

record packet_ledger =
  lg_streams :: "expected_stream list"
  lg_delivered_packets :: u64
  lg_delivered_payload_bytes :: u64
  lg_correctness :: correctness_summary

definition new_ledger :: "expected_stream list \<Rightarrow> packet_ledger" where
  "new_ledger streams =
     \<lparr>lg_streams = streams, lg_delivered_packets = 0, lg_delivered_payload_bytes = 0,
      lg_correctness = no_correctness\<rparr>"

definition stream_matches :: "packet_identity \<Rightarrow> expected_stream \<Rightarrow> bool" where
  "stream_matches i s \<longleftrightarrow> es_source s = id_source i \<and> es_kind s = id_kind i \<and> es_layer s = id_layer i"

text \<open>\<open>iter_mut().find(p)\<close>: the first match is updated in place.\<close>

fun update_first :: "('a \<Rightarrow> bool) \<Rightarrow> ('a \<Rightarrow> 'a) \<Rightarrow> 'a list \<Rightarrow> 'a list" where
  "update_first p f [] = []"
| "update_first p f (x # xs) = (if p x then f x # xs else x # update_first p f xs)"

text \<open>\<open>while seen.get(next) == Some(&true) { next += 1 }\<close>.\<close>

function next_unseen :: "bool list \<Rightarrow> nat \<Rightarrow> nat" where
  "next_unseen seen next =
     (if get_at seen next = Some True then next_unseen seen (next + 1) else next)"
  by auto
termination
  by (relation "measure (\<lambda>(seen, next). length seen - next)") (auto simp: get_at_def split: if_splits)

declare next_unseen.simps [simp del]

definition count_unexpected :: "packet_ledger \<Rightarrow> packet_ledger" where
  "count_unexpected l =
     l\<lparr>lg_correctness := (lg_correctness l)\<lparr>unexpected_packets :=
        saturating_add (unexpected_packets (lg_correctness l)) 1\<rparr>\<rparr>"

definition count_duplicate :: "packet_ledger \<Rightarrow> packet_ledger" where
  "count_duplicate l =
     l\<lparr>lg_correctness := (lg_correctness l)\<lparr>duplicate_packets :=
        saturating_add (duplicate_packets (lg_correctness l)) 1\<rparr>\<rparr>"

definition count_mismatch :: "packet_ledger \<Rightarrow> packet_ledger" where
  "count_mismatch l =
     l\<lparr>lg_correctness := (lg_correctness l)\<lparr>payload_mismatches :=
        saturating_add (payload_mismatches (lg_correctness l)) 1\<rparr>\<rparr>"

definition count_out_of_order :: "packet_ledger \<Rightarrow> packet_ledger" where
  "count_out_of_order l =
     l\<lparr>lg_correctness := (lg_correctness l)\<lparr>out_of_order_packets :=
        saturating_add (out_of_order_packets (lg_correctness l)) 1\<rparr>\<rparr>"

definition mark_seen :: "nat \<Rightarrow> expected_stream \<Rightarrow> expected_stream" where
  "mark_seen n s =
     (let seen = (es_seen s)[n := True] in
      s\<lparr>es_seen := seen, es_next_ordinal := next_unseen seen (es_next_ordinal s)\<rparr>)"

definition accept_packet ::
  "packet_identity \<Rightarrow> bool \<Rightarrow> nat \<Rightarrow> expected_stream \<Rightarrow> packet_ledger \<Rightarrow> packet_ledger" where
  "accept_packet i body_ok payload_len stream l =
     (let n = unat (id_ordinal i);
          l1 = (if body_ok then l else count_mismatch l);
          l2 = (if n \<noteq> es_next_ordinal stream then count_out_of_order l1 else l1)
      in l2\<lparr>lg_streams := update_first (stream_matches i) (mark_seen n) (lg_streams l2),
            lg_delivered_packets := saturating_add (lg_delivered_packets l2) 1,
            lg_delivered_payload_bytes :=
              saturating_add (lg_delivered_payload_bytes l2) (clamp_to payload_len)\<rparr>)"

definition observe :: "packet_ledger \<Rightarrow> bytes \<Rightarrow> packet_ledger" where
  "observe l payload =
     (case inspect_payload payload of
        Inl _ \<Rightarrow> count_unexpected l
      | Inr inspection \<Rightarrow>
          let i = identity inspection in
          if id_phase i = WarmupPacket then l
          else
            case find (stream_matches i) (lg_streams l) of
              None \<Rightarrow> count_unexpected l
            | Some stream \<Rightarrow>
                (case get_at (es_seen stream) (unat (id_ordinal i)) of
                   None \<Rightarrow> count_unexpected l
                 | Some seen \<Rightarrow>
                     if seen then count_duplicate l
                     else accept_packet i (payload_matches inspection) (length payload) stream l))"

definition ledger_is_complete :: "packet_ledger \<Rightarrow> bool" where
  "ledger_is_complete l \<longleftrightarrow> list_all stream_is_complete (lg_streams l)"

definition unseen_count :: "expected_stream \<Rightarrow> nat" where
  "unseen_count s = length (filter (\<lambda>seen. \<not> seen) (es_seen s))"

definition finish_ledger :: "packet_ledger \<Rightarrow> correctness_summary" where
  "finish_ledger l =
     (lg_correctness l)\<lparr>missing_packets :=
        fold (\<lambda>n acc. saturating_add acc n)
          (map (\<lambda>s. clamp_to (unseen_count s)) (lg_streams l)) 0\<rparr>"

definition observe_all :: "packet_ledger \<Rightarrow> bytes list \<Rightarrow> packet_ledger" where
  "observe_all l payloads = foldl observe l payloads"

section \<open>The first unseen ordinal\<close>

definition first_unseen :: "bool list \<Rightarrow> nat" where
  "first_unseen seen = length (takeWhile (\<lambda>b. b) seen)"

lemma next_unseen_eq:
  "n \<le> first_unseen seen \<Longrightarrow> next_unseen seen n = first_unseen seen"
proof (induction seen n rule: next_unseen.induct)
  case (1 seen n)
  show ?case
  proof (cases "get_at seen n = Some True")
    case True
    have "n \<noteq> first_unseen seen"
    proof
      assume "n = first_unseen seen"
      then have "n < length seen \<Longrightarrow> \<not> seen ! n"
        using nth_length_takeWhile [of "\<lambda>b. b" seen] by (simp add: first_unseen_def)
      then show False using True by (auto simp: get_at_def split: if_splits)
    qed
    then have "n + 1 \<le> first_unseen seen" using "1.prems" by simp
    then show ?thesis using "1.IH" True by (simp add: next_unseen.simps [of seen n])
  next
    case False
    have "\<not> n < first_unseen seen"
    proof
      assume n: "n < first_unseen seen"
      then have "n < length seen" using length_takeWhile_le [of "\<lambda>b. b" seen] by (simp add: first_unseen_def)
      moreover have "seen ! n" using n set_takeWhileD [of "seen ! n" "\<lambda>b. b" seen]
        by (metis first_unseen_def nth_mem takeWhile_nth)
      ultimately show False using False by (simp add: get_at_def)
    qed
    then have n: "n = first_unseen seen" using "1.prems" by simp
    have "next_unseen seen n = n" using False by (simp add: next_unseen.simps [of seen n])
    then show ?thesis using n by simp
  qed
qed

lemma first_unseen_update: "first_unseen seen \<le> first_unseen (seen[n := True])"
  unfolding first_unseen_def
proof (induction seen arbitrary: n)
  case Nil
  then show ?case by simp
next
  case (Cons b bs)
  then show ?case by (cases n) auto
qed

text \<open>\<open>next_ordinal\<close> is the first ordinal not seen yet.\<close>

definition stream_ok :: "expected_stream \<Rightarrow> bool" where
  "stream_ok s \<longleftrightarrow> es_next_ordinal s = first_unseen (es_seen s)"

lemma mark_seen_ok: "stream_ok s \<Longrightarrow> stream_ok (mark_seen n s)"
  by (simp add: stream_ok_def mark_seen_def Let_def next_unseen_eq first_unseen_update)

lemma new_stream_ok: "new_stream source kind layer packets = Inr s \<Longrightarrow> stream_ok s"
  by (cases "unat packets") (auto simp: new_stream_def checked_iff stream_ok_def first_unseen_def)

lemma list_all_update_first:
  "list_all P xs \<Longrightarrow> (\<And>x. P x \<Longrightarrow> P (f x)) \<Longrightarrow> list_all P (update_first p f xs)"
  by (induction xs) auto

lemma lg_streams_counts [simp]:
  "lg_streams (count_unexpected l) = lg_streams l" "lg_streams (count_duplicate l) = lg_streams l"
  "lg_streams (count_mismatch l) = lg_streams l" "lg_streams (count_out_of_order l) = lg_streams l"
  "lg_delivered_packets (count_unexpected l) = lg_delivered_packets l"
  "lg_delivered_packets (count_duplicate l) = lg_delivered_packets l"
  "lg_delivered_packets (count_mismatch l) = lg_delivered_packets l"
  "lg_delivered_packets (count_out_of_order l) = lg_delivered_packets l"
  "lg_delivered_payload_bytes (count_unexpected l) = lg_delivered_payload_bytes l"
  "lg_delivered_payload_bytes (count_duplicate l) = lg_delivered_payload_bytes l"
  "lg_delivered_payload_bytes (count_mismatch l) = lg_delivered_payload_bytes l"
  "lg_delivered_payload_bytes (count_out_of_order l) = lg_delivered_payload_bytes l"
  by (simp_all add: count_unexpected_def count_duplicate_def count_mismatch_def count_out_of_order_def)

text \<open>What one observation does, as one case distinction.\<close>

lemma observe_cases:
  obtains (same) "observe l p = l" "\<exists>ins. inspect_payload p = Inr ins \<and> id_phase (identity ins) = WarmupPacket"
  | (unexpected) "observe l p = count_unexpected l"
      "\<nexists>ins s. inspect_payload p = Inr ins \<and> find (stream_matches (identity ins)) (lg_streams l) = Some s
        \<and> unat (id_ordinal (identity ins)) < length (es_seen s)"
      "\<nexists>ins. inspect_payload p = Inr ins \<and> id_phase (identity ins) = WarmupPacket"
  | (duplicate) ins s where "observe l p = count_duplicate l" "inspect_payload p = Inr ins"
      "id_phase (identity ins) = MeasuredPacket"
      "find (stream_matches (identity ins)) (lg_streams l) = Some s"
      "unat (id_ordinal (identity ins)) < length (es_seen s)" "es_seen s ! unat (id_ordinal (identity ins))"
  | (accept) ins s where
      "observe l p = accept_packet (identity ins) (payload_matches ins) (length p) s l"
      "inspect_payload p = Inr ins" "id_phase (identity ins) = MeasuredPacket"
      "find (stream_matches (identity ins)) (lg_streams l) = Some s"
      "unat (id_ordinal (identity ins)) < length (es_seen s)" "\<not> es_seen s ! unat (id_ordinal (identity ins))"
proof (cases "inspect_payload p")
  case (Inl e)
  then show ?thesis using unexpected by (simp add: observe_def)
next
  case (Inr ins)
  show ?thesis
  proof (cases "id_phase (identity ins)")
    case WarmupPacket
    then show ?thesis using Inr same by (simp add: observe_def Let_def)
  next
    case MeasuredPacket
    show ?thesis
    proof (cases "find (stream_matches (identity ins)) (lg_streams l)")
      case None
      then show ?thesis using Inr MeasuredPacket unexpected by (simp add: observe_def Let_def)
    next
      case (Some s)
      show ?thesis
      proof (cases "unat (id_ordinal (identity ins)) < length (es_seen s)")
        case False
        then show ?thesis using Inr MeasuredPacket Some unexpected
          by (simp add: observe_def Let_def get_at_def)
      next
        case True
        then show ?thesis using Inr MeasuredPacket Some duplicate accept
          by (cases "es_seen s ! unat (id_ordinal (identity ins))")
             (simp_all add: observe_def Let_def get_at_def)
      qed
    qed
  qed
qed

lemma accept_fields:
  "lg_streams (accept_packet i ok' len s l) = update_first (stream_matches i) (mark_seen (unat (id_ordinal i))) (lg_streams l)"
  "lg_delivered_packets (accept_packet i ok' len s l) = saturating_add (lg_delivered_packets l) 1"
  "lg_delivered_payload_bytes (accept_packet i ok' len s l)
     = saturating_add (lg_delivered_payload_bytes l) (clamp_to len)"
  by (simp_all add: accept_packet_def Let_def)

lemma accept_correctness:
  "lg_correctness (accept_packet i ok' len s l) =
     (lg_correctness l)
       \<lparr>out_of_order_packets := (if unat (id_ordinal i) \<noteq> es_next_ordinal s
          then saturating_add (out_of_order_packets (lg_correctness l)) 1
          else out_of_order_packets (lg_correctness l)),
        payload_mismatches := (if ok' then payload_mismatches (lg_correctness l)
          else saturating_add (payload_mismatches (lg_correctness l)) 1)\<rparr>"
  by (simp add: accept_packet_def Let_def count_mismatch_def count_out_of_order_def)

section \<open>Conservation\<close>

text \<open>The packets all streams of a ledger expect together.\<close>

definition expected_packets :: "expected_stream list \<Rightarrow> nat" where
  "expected_packets streams = sum_list (map (\<lambda>s. length (es_seen s)) streams)"

definition unseen_packets :: "expected_stream list \<Rightarrow> nat" where
  "unseen_packets streams = sum_list (map unseen_count streams)"

definition ledger_ok :: "nat \<Rightarrow> packet_ledger \<Rightarrow> bool" where
  "ledger_ok whole l \<longleftrightarrow>
     list_all stream_ok (lg_streams l) \<and> expected_packets (lg_streams l) = whole \<and>
     unat (lg_delivered_packets l) + unseen_packets (lg_streams l) = whole"

lemma unseen_count_mark:
  assumes "n < length (es_seen s)" "\<not> es_seen s ! n"
  shows "Suc (unseen_count (mark_seen n s)) = unseen_count s"
proof -
  have "Suc (length (filter (\<lambda>b. \<not> b) (xs[n := True]))) = length (filter (\<lambda>b. \<not> b) xs)"
    if "n < length xs" "\<not> xs ! n" for xs :: "bool list"
    using that
  proof (induction xs arbitrary: n)
    case Nil
    then show ?case by simp
  next
    case (Cons b bs)
    then show ?case by (cases n) auto
  qed
  from this [OF assms] show ?thesis by (simp add: unseen_count_def mark_seen_def Let_def)
qed

lemma length_mark_seen [simp]: "length (es_seen (mark_seen n s)) = length (es_seen s)"
  by (simp add: mark_seen_def Let_def)

lemma expected_update_first:
  "expected_packets (update_first p (mark_seen n) ss) = expected_packets ss"
  by (induction ss) (auto simp: expected_packets_def)

lemma unseen_update_first:
  "find p ss = Some s \<Longrightarrow> n < length (es_seen s) \<Longrightarrow> \<not> es_seen s ! n \<Longrightarrow>
     Suc (unseen_packets (update_first p (mark_seen n) ss)) = unseen_packets ss"
proof (induction ss)
  case Nil
  then show ?case by simp
next
  case (Cons t ts)
  then show ?case using unseen_count_mark [of n s]
    by (cases "p t") (auto simp: unseen_packets_def)
qed

lemma observe_ledger_ok:
  assumes "ledger_ok whole l" "whole < 2 ^ 64"
  shows "ledger_ok whole (observe l p)"
proof (cases rule: observe_cases [of l p])
  case same
  then show ?thesis using assms by simp
next
  case unexpected
  then show ?thesis using assms by (simp add: ledger_ok_def)
next
  case (duplicate ins s)
  then show ?thesis using assms by (simp add: ledger_ok_def)
next
  case (accept ins s)
  let ?l = "accept_packet (identity ins) (payload_matches ins) (length p) s l"
  have u: "Suc (unseen_packets (lg_streams ?l)) = unseen_packets (lg_streams l)"
    using accept unseen_update_first by (simp add: accept_fields)
  have "unat (lg_delivered_packets l) + 1 \<le> whole" using assms(1) u by (simp add: ledger_ok_def)
  then have d: "unat (lg_delivered_packets ?l) = unat (lg_delivered_packets l) + 1"
    using assms(2) by (simp add: accept_fields unat_sat)
  have "list_all stream_ok (lg_streams ?l)"
    using assms(1) by (auto simp: ledger_ok_def accept_fields intro: list_all_update_first mark_seen_ok)
  then show ?thesis
    using assms(1) accept(1) u d by (simp add: ledger_ok_def accept_fields expected_update_first)
qed

lemma observe_all_ledger_ok:
  "ledger_ok whole l \<Longrightarrow> whole < 2 ^ 64 \<Longrightarrow> ledger_ok whole (observe_all l ps)"
  unfolding observe_all_def
  by (induction ps arbitrary: l) (simp_all add: observe_ledger_ok)

text \<open>A stream as \<open>new_stream\<close> makes it.\<close>

definition fresh_stream :: "expected_stream \<Rightarrow> bool" where
  "fresh_stream s \<longleftrightarrow> es_next_ordinal s = 0 \<and> es_seen s = replicate (length (es_seen s)) False
     \<and> es_seen s \<noteq> []"

lemma new_stream_fresh:
  "new_stream source kind layer packets = Inr s \<Longrightarrow>
     fresh_stream s \<and> length (es_seen s) = unat packets \<and> es_source s = source \<and> es_kind s = kind
     \<and> es_layer s = layer"
  by (auto simp: new_stream_def checked_iff fresh_stream_def word_gt_0 unat_eq_0)

lemma fresh_stream_ok: "fresh_stream s \<Longrightarrow> stream_ok s"
  unfolding fresh_stream_def stream_ok_def first_unseen_def
  by (metis length_greater_0_conv list.size(3) replicate_empty takeWhile_eq_Nil_iff hd_replicate)

lemma fresh_unseen: "fresh_stream s \<Longrightarrow> unseen_count s = length (es_seen s)"
proof -
  assume "fresh_stream s"
  then have r: "es_seen s = replicate (length (es_seen s)) False" by (simp add: fresh_stream_def)
  show ?thesis unfolding unseen_count_def by (subst r) simp
qed

lemma new_ledger_ok:
  assumes "list_all fresh_stream ss"
  shows "ledger_ok (expected_packets ss) (new_ledger ss)"
proof -
  have "unseen_packets ss = expected_packets ss"
    using assms unfolding unseen_packets_def expected_packets_def
    by (induction ss) (simp_all add: fresh_unseen)
  moreover have "list_all stream_ok ss" using assms by (auto simp: list_all_iff fresh_stream_ok)
  ultimately show ?thesis by (simp add: ledger_ok_def new_ledger_def)
qed

lemma fold_saturating:
  "unat (fold (\<lambda>n acc. saturating_add acc n) xs a :: 'a::len word)
     = min (unat a + sum_list (map unat xs)) (2 ^ LENGTH('a) - 1)"
proof (induction xs arbitrary: a)
  case Nil
  have "unat a < 2 ^ LENGTH('a)" by simp
  then have "unat a \<le> 2 ^ LENGTH('a) - 1" by linarith
  then show ?case by simp
next
  case (Cons x xs)
  have "min (min (u + v) m + w) m = min (u + (v + w)) m" for u v w m :: nat by (simp add: min_def)
  then show ?case by (simp only: fold_simps Cons.IH unat_sat list.map sum_list.Cons)
qed

lemma missing_packets_finish:
  assumes "unseen_packets (lg_streams l) < 2 ^ 64"
  shows "unat (missing_packets (finish_ledger l)) = unseen_packets (lg_streams l)"
proof -
  have m: "map unat (map (\<lambda>s. clamp_to (unseen_count s) :: u64) ss) = map unseen_count ss"
    if "unseen_packets ss < 2 ^ 64" for ss
    using that by (induction ss) (simp_all add: unseen_packets_def unat_sat)
  have f: "missing_packets (finish_ledger l) = fold (\<lambda>n acc. saturating_add acc n)
      (map (\<lambda>s. clamp_to (unseen_count s)) (lg_streams l)) 0"
    by (simp add: finish_ledger_def)
  show ?thesis
    unfolding f fold_saturating m [OF assms] using assms by (simp add: unseen_packets_def)
qed

text \<open>
  C8: conservation. Whatever arrives, in whatever order, the packets a ledger counts as delivered and
  the packets it reports missing add up to the packets it expects: nothing is counted twice and
  nothing is lost.
\<close>

theorem ledger_conservation:
  assumes "list_all fresh_stream streams" "expected_packets streams < 2 ^ 64"
  shows "unat (lg_delivered_packets (observe_all (new_ledger streams) arrivals))
    + unat (missing_packets (finish_ledger (observe_all (new_ledger streams) arrivals)))
    = expected_packets streams"
proof -
  let ?l = "observe_all (new_ledger streams) arrivals"
  have ok: "ledger_ok (expected_packets streams) ?l"
    by (rule observe_all_ledger_ok [OF new_ledger_ok [OF assms(1)] assms(2)])
  then have "unseen_packets (lg_streams ?l) < 2 ^ 64" using assms(2) by (simp add: ledger_ok_def)
  then show ?thesis using ok missing_packets_finish by (simp add: ledger_ok_def)
qed

theorem ledger_conservation_witness:
  "unat (lg_delivered_packets (observe_all (new_ledger
      [\<lparr>es_source = 1, es_kind = Audio, es_layer = None, es_seen = [False, False], es_next_ordinal = 0\<rparr>])
      [[0x4F]]))
    + unat (missing_packets (finish_ledger (observe_all (new_ledger
      [\<lparr>es_source = 1, es_kind = Audio, es_layer = None, es_seen = [False, False], es_next_ordinal = 0\<rparr>])
      [[0x4F]]))) = 2"
proof -
  let ?s = "[\<lparr>es_source = 1 :: u16, es_kind = Audio, es_layer = None :: video_layer option,
    es_seen = [False, False], es_next_ordinal = 0 :: nat\<rparr>]"
  have "list_all fresh_stream ?s" "expected_packets ?s < 2 ^ 64" "expected_packets ?s = 2"
    by (simp_all add: fresh_stream_def expected_packets_def)
  then show ?thesis using ledger_conservation [of ?s "[[0x4F]]"] by simp
qed

lemma first_unseen_length: "first_unseen seen = length seen \<longleftrightarrow> list_all (\<lambda>b. b) seen"
  by (induction seen) (simp_all add: first_unseen_def)

lemma unseen_count_0: "unseen_count s = 0 \<longleftrightarrow> list_all (\<lambda>b. b) (es_seen s)"
  by (auto simp: unseen_count_def filter_empty_conv list_all_iff)

lemma complete_iff_unseen:
  "list_all stream_ok ss \<Longrightarrow> list_all stream_is_complete ss \<longleftrightarrow> unseen_packets ss = 0"
  by (induction ss)
     (auto simp: unseen_packets_def stream_is_complete_def stream_ok_def first_unseen_length
       unseen_count_0 [symmetric])

text \<open>
  C9: completion. A ledger is complete exactly when nothing is missing: \<open>next_ordinal\<close> reaches the end of
  a stream only after every one of its ordinals was seen, and then at once.
\<close>

theorem ledger_complete_iff:
  assumes "list_all fresh_stream streams" "expected_packets streams < 2 ^ 64"
  shows "ledger_is_complete (observe_all (new_ledger streams) arrivals) \<longleftrightarrow>
    missing_packets (finish_ledger (observe_all (new_ledger streams) arrivals)) = 0"
proof -
  let ?l = "observe_all (new_ledger streams) arrivals"
  have ok: "ledger_ok (expected_packets streams) ?l"
    by (rule observe_all_ledger_ok [OF new_ledger_ok [OF assms(1)] assms(2)])
  then have "unseen_packets (lg_streams ?l) < 2 ^ 64" using assms(2) by (simp add: ledger_ok_def)
  then show ?thesis
    using ok missing_packets_finish [of ?l] complete_iff_unseen [of "lg_streams ?l"]
    by (simp add: ledger_ok_def ledger_is_complete_def word_eq_unat_iff)
qed

definition two_unseen :: expected_stream where
  "two_unseen = \<lparr>es_source = 7, es_kind = Audio, es_layer = None, es_seen = [False, False],
     es_next_ordinal = 0\<rparr>"

theorem ledger_complete_iff_witness:
  "\<not> ledger_is_complete (observe_all (new_ledger [two_unseen]) [])"
proof -
  have "list_all fresh_stream [two_unseen]" "expected_packets [two_unseen] < 2 ^ 64"
    by (simp_all add: fresh_stream_def expected_packets_def two_unseen_def)
  from ledger_complete_iff [OF this, of "[]"] show ?thesis
    by (simp add: observe_all_def finish_ledger_def new_ledger_def two_unseen_def unseen_count_def
        clamp_to_def saturating_add_def)
qed

end
