(* ===== verification/Observation.thy ===== *)
theory Observation
  imports PlanFacts "HOL-Library.Multiset"
begin

text \<open>
  The observations of \<open>src/model.rs\<close> as a commutative monoid, how \<open>src/client/scenario.rs\<close>
  folds them when tasks finish (\<open>collect_peer_observations\<close> and the \<open>collect_rooms\<close> block of
  \<open>run\<close>), and what \<open>ScenarioResult::validate\<close> accepts of a completed result.
\<close>

section \<open>Interface: values merged in any order\<close>

locale merge_monoid =
  fixes merge :: "'a \<Rightarrow> 'a \<Rightarrow> 'a" and none :: 'a
  assumes merge_assoc: "merge (merge a b) c = merge a (merge b c)"
    and merge_commute: "merge a b = merge b a"
    and merge_none: "merge none a = a"
begin

lemma merge_none_right: "merge a none = a"
  using merge_none merge_commute by metis

lemma merge_left_commute: "merge a (merge b c) = merge b (merge a c)"
  using merge_assoc merge_commute by metis

lemma foldl_start: "foldl merge (merge a b) xs = merge a (foldl merge b xs)"
  by (induction xs arbitrary: b) (simp_all add: merge_assoc)

lemma foldl_Cons: "foldl merge none (x # xs) = merge x (foldl merge none xs)"
  using foldl_start [of x none xs] by (simp add: merge_none merge_none_right)

lemma foldl_append: "foldl merge none (xs @ ys) = merge (foldl merge none xs) (foldl merge none ys)"
  using foldl_start [of "foldl merge none xs" none ys] by (simp add: merge_none_right)

lemma foldl_remove1:
  "x \<in> set ys \<Longrightarrow> merge x (foldl merge none (remove1 x ys)) = foldl merge none ys"
proof (induction ys)
  case Nil
  then show ?case by simp
next
  case (Cons y ys)
  show ?case
  proof (cases "x = y")
    case True
    then show ?thesis by (simp only: remove1.simps if_True foldl_Cons refl)
  next
    case False
    then have "x \<in> set ys" using Cons.prems by simp
    then have "merge x (foldl merge none (remove1 x ys)) = foldl merge none ys" by (rule Cons.IH)
    then show ?thesis using False merge_left_commute [of x y]
      by (simp only: remove1.simps if_False foldl_Cons)
  qed
qed

lemma foldl_mset: "mset xs = mset ys \<Longrightarrow> foldl merge none xs = foldl merge none ys"
proof (induction xs arbitrary: ys)
  case Nil
  then show ?case by simp
next
  case (Cons x xs)
  then have x: "x \<in> set ys" by (metis list.set_intros(1) set_mset_mset)
  have "mset xs = mset (remove1 x ys)" using Cons.prems by (metis add_mset_remove_trivial mset.simps(2) mset_remove1)
  then have "foldl merge none xs = foldl merge none (remove1 x ys)" by (rule Cons.IH)
  then show ?case using foldl_remove1 [OF x] foldl_Cons by simp
qed

end

lemma max_word_zero [simp]: "max (0 :: 'a::len word) a = a" "max a (0 :: 'a word) = a"
  by (simp_all add: max_def)

lemma saturating_add_left_commute: "saturating_add a (saturating_add b c) = saturating_add b (saturating_add a c)"
  by (metis saturating_add_assoc saturating_add_commute)

lemmas saturating_add_ac = saturating_add_assoc saturating_add_commute saturating_add_left_commute

lemma merge_correctness_laws:
  "merge_correctness (merge_correctness a b) c = merge_correctness a (merge_correctness b c)"
  "merge_correctness a b = merge_correctness b a"
  "merge_correctness no_correctness a = a"
  by (simp_all add: merge_correctness_def no_correctness_def saturating_add_ac)

interpretation correctness: merge_monoid merge_correctness no_correctness
  by unfold_locales (fact merge_correctness_laws)+

lemma merge_observation_laws:
  "merge_observation (merge_observation a b) c = merge_observation a (merge_observation b c)"
  "merge_observation a b = merge_observation b a"
  "merge_observation no_observation a = a"
  by (simp_all add: merge_observation_def no_observation_def saturating_add_ac
      correctness.merge_assoc correctness.merge_commute correctness.merge_left_commute
      correctness.merge_none max.assoc max.commute max.left_commute)

interpretation observation: merge_monoid merge_observation no_observation
  by unfold_locales (fact merge_observation_laws)+

section \<open>Collecting task results\<close>

text \<open>
  \<open>results\<close> is what \<open>join_next\<close> yields, in the order the tasks finish: a join error, or the
  task's own result.
\<close>

fun collect_from ::
  "string \<Rightarrow> run_observation \<Rightarrow> run_observation result result list \<Rightarrow> run_observation result"
where
  "collect_from msg observation [] = Inr observation"
| "collect_from msg observation (r # rs) =
     bind_ok (with_context msg r) (\<lambda>task.
     bind_ok task (\<lambda>peer_observation.
     collect_from msg (merge_observation observation peer_observation) rs))"

definition collect_peer_observations ::
  "run_observation result result list \<Rightarrow> run_observation result" where
  "collect_peer_observations results = collect_from ''RTC peer task failed'' no_observation results"

definition collect_rooms :: "run_observation result result list \<Rightarrow> run_observation result" where
  "collect_rooms results = collect_from ''load room task failed'' no_observation results"

lemma collect_from_map [simp]:
  "collect_from msg a (map (\<lambda>x. Inr (Inr x)) os) = Inr (foldl merge_observation a os)"
  by (induction os arbitrary: a) simp_all

lemma collect_from_InrD:
  "collect_from msg a rs = Inr b \<Longrightarrow> \<exists>os. rs = map (\<lambda>x. Inr (Inr x)) os"
proof (induction rs arbitrary: a)
  case Nil
  then show ?case by simp
next
  case (Cons r rs)
  then obtain x where r: "r = Inr (Inr x)" "collect_from msg (merge_observation a x) rs = Inr b"
    by (auto simp: checked_iff)
  then obtain os where "rs = map (\<lambda>x. Inr (Inr x)) os" using Cons.IH by blast
  with r have "r # rs = map (\<lambda>x. Inr (Inr x)) (x # os)" by simp
  then show ?case by (rule exI)
qed

lemma mset_Inr_Inr:
  "mset (map (\<lambda>x. Inr (Inr x)) xs) = mset (map (\<lambda>x. Inr (Inr x)) ys) \<longleftrightarrow> mset xs = mset ys"
  by (simp only: mset_map) (rule inj_eq, rule multiset.inj_map, rule injI, simp)

lemma collect_from_order:
  assumes "mset rs = mset rs'" and "collect_from msg no_observation rs = Inr b"
  shows "collect_from msg no_observation rs' = Inr b"
proof -
  obtain os where os: "rs = map (\<lambda>x. Inr (Inr x)) os"
    using collect_from_InrD [OF assms(2)] by blast
  have "set rs' = set rs" using assms(1) by (metis set_mset_mset)
  then have "\<forall>r \<in> set rs'. \<exists>x. r = Inr (Inr x)" using os by auto
  then have "\<exists>os'. rs' = map (\<lambda>x. Inr (Inr x)) os'" by (rule iffD2 [OF ex_map_conv])
  then obtain os' where os': "rs' = map (\<lambda>x. Inr (Inr x)) os'" by blast
  have "mset os = mset os'" using assms(1) unfolding os os' by (rule iffD1 [OF mset_Inr_Inr])
  then have "foldl merge_observation no_observation os = foldl merge_observation no_observation os'"
    by (rule observation.foldl_mset)
  then show ?thesis using assms(2) unfolding os os' collect_from_map by simp
qed

text \<open>
  C13: the observation of a room (and of the whole run) does not depend on the order in which
  its peer tasks finish: any permutation of the same task results is collected into the same
  observation, saturation of the counters included.
\<close>

theorem collect_peer_observations_order:
  assumes "mset results = mset results'"
    and "collect_peer_observations results = Inr whole"
  shows "collect_peer_observations results' = Inr whole"
  using assms unfolding collect_peer_observations_def by (rule collect_from_order)

theorem collect_peer_observations_order_witness:
  "collect_peer_observations [Inr (Inr (no_observation\<lparr>obs_offered_packets := 2\<rparr>)), Inr (Inr no_observation)]
     = Inr (no_observation\<lparr>obs_offered_packets := 2\<rparr>)"
proof -
  have "mset [Inr (Inr no_observation), Inr (Inr (no_observation\<lparr>obs_offered_packets := 2\<rparr>))]
      = mset [Inr (Inr (no_observation\<lparr>obs_offered_packets := 2\<rparr>)), Inr (Inr no_observation)]" by simp
  moreover have "collect_peer_observations
      [Inr (Inr no_observation), Inr (Inr (no_observation\<lparr>obs_offered_packets := 2\<rparr>))]
      = Inr (no_observation\<lparr>obs_offered_packets := 2\<rparr>)"
    by (simp add: collect_peer_observations_def observation.merge_none)
  ultimately show ?thesis by (rule collect_peer_observations_order)
qed

section \<open>Completed results\<close>

lemma discrepancy_count_eq_0: "discrepancy_count c = 0 \<longleftrightarrow> c = no_correctness"
  by (cases c) (auto simp: discrepancy_count_def no_correctness_def saturating_add_eq_0)

text \<open>What an observation must say for its completed result to be valid.\<close>

definition observes_plan :: "workload_plan \<Rightarrow> run_observation \<Rightarrow> bool" where
  "observes_plan p observation \<longleftrightarrow>
     obs_offered_packets observation = wp_offered_packets p \<and>
     obs_offered_payload_bytes observation = wp_offered_payload_bytes p \<and>
     obs_delivered_packets observation = wp_expected_deliveries p \<and>
     obs_delivered_payload_bytes observation = wp_expected_delivery_payload_bytes p \<and>
     obs_correctness observation = no_correctness"

lemma max_one_pos: "0 < max x (1 :: 'a::len word)"
  by (metis max.cobounded2 word_gt_0 word_le_0_iff zero_neq_one)

lemma completed_valid_iff:
  assumes "completed revision spec observation = Inr r"
  shows "is_ok (validate_result r spec) \<longleftrightarrow>
    is_ok (validate_spec spec) \<and> (\<exists>p. plan spec = Inr p \<and> observes_plan p observation)"
proof -
  obtain p where p: "plan spec = Inr p" using assms by (auto simp: completed_def checked_iff)
  have v: "is_ok (bind_ok (validate_spec spec) f) \<longleftrightarrow> is_ok (validate_spec spec) \<and> is_ok (f ())"
    for f :: "unit \<Rightarrow> unit result"
    by (cases "validate_spec spec") simp_all
  show ?thesis using assms p
    by (auto simp: completed_def validate_result_def v is_ok_ensure observes_plan_def
        discrepancy_count_eq_0 max_one_pos)
qed

end
