(* ===== verification/LedgerExact.thy ===== *)
theory LedgerExact
  imports Ledger Observation
begin

text \<open>
  Exactness of the \<open>PacketLedger\<close>: an abstract reading of what arrived, stream by stream, and the
  proof that the counters of the code stay at zero exactly for in-order, intact, complete arrivals,
  however the streams of a peer interleave and whatever warm-up packets are mixed in.
\<close>

section \<open>What arrived, stream by stream\<close>

text \<open>The ordinals of the measured packets of one stream, in order of arrival.\<close>

definition ordinal_of :: "expected_stream \<Rightarrow> bytes \<Rightarrow> nat option" where
  "ordinal_of s p =
     (case inspect_payload p of
        Inl _ \<Rightarrow> None
      | Inr ins \<Rightarrow>
          if id_phase (identity ins) = MeasuredPacket \<and> stream_matches (identity ins) s
          then Some (unat (id_ordinal (identity ins))) else None)"

definition ordinals :: "expected_stream \<Rightarrow> bytes list \<Rightarrow> nat list" where
  "ordinals s ps = List.map_filter (ordinal_of s) ps"

text \<open>A payload that is no discrepancy by itself: warm-up, or an intact packet of a known stream.\<close>

definition expected_payload :: "expected_stream list \<Rightarrow> bytes \<Rightarrow> bool" where
  "expected_payload ss p \<longleftrightarrow>
     (case inspect_payload p of
        Inl _ \<Rightarrow> False
      | Inr ins \<Rightarrow>
          id_phase (identity ins) = WarmupPacket \<or>
          (payload_matches ins \<and> list_ex (stream_matches (identity ins)) ss))"

text \<open>In order so far: each stream has brought its first ordinals, none beyond its end.\<close>

definition in_order :: "expected_stream list \<Rightarrow> bytes list \<Rightarrow> bool" where
  "in_order ss ps \<longleftrightarrow>
     list_all (expected_payload ss) ps \<and>
     list_all (\<lambda>s. ordinals s ps = [0..<length (ordinals s ps)]
       \<and> length (ordinals s ps) \<le> length (es_seen s)) ss"

text \<open>Exact: each stream has brought all its ordinals in order, and nothing unexpected came.\<close>

definition exact_arrivals :: "expected_stream list \<Rightarrow> bytes list \<Rightarrow> bool" where
  "exact_arrivals ss ps \<longleftrightarrow>
     list_all (expected_payload ss) ps \<and>
     list_all (\<lambda>s. ordinals s ps = [0..<length (es_seen s)]) ss"

definition stream_key :: "expected_stream \<Rightarrow> u16 \<times> payload_kind \<times> video_layer option" where
  "stream_key s = (es_source s, es_kind s, es_layer s)"

definition distinct_streams :: "expected_stream list \<Rightarrow> bool" where
  "distinct_streams ss \<longleftrightarrow> distinct (map stream_key ss)"

lemma ordinals_append: "ordinals s (ps @ qs) = ordinals s ps @ ordinals s qs"
  by (simp add: ordinals_def List.map_filter_def)

lemma ordinals_single: "ordinals s [p] = (case ordinal_of s p of None \<Rightarrow> [] | Some n \<Rightarrow> [n])"
  by (simp add: ordinals_def List.map_filter_def split: option.splits)

lemma matches_same_key: "stream_matches i s \<Longrightarrow> stream_matches i t \<longleftrightarrow> stream_key t = stream_key s"
  by (auto simp: stream_matches_def stream_key_def)

section \<open>The state while everything is in order\<close>

text \<open>A stream after its first \<open>m\<close> packets.\<close>

definition advanced :: "nat \<Rightarrow> expected_stream \<Rightarrow> expected_stream" where
  "advanced m s = s\<lparr>es_seen := replicate m True @ replicate (length (es_seen s) - m) False,
     es_next_ordinal := m\<rparr>"

definition progress :: "expected_stream list \<Rightarrow> bytes list \<Rightarrow> expected_stream list" where
  "progress ss ps = map (\<lambda>s. advanced (length (ordinals s ps)) s) ss"

lemma advanced_key [simp]: "stream_key (advanced m s) = stream_key s"
  by (simp add: advanced_def stream_key_def)

lemma advanced_matches [simp]: "stream_matches i (advanced m s) = stream_matches i s"
  by (simp add: advanced_def stream_matches_def)

lemma advanced_0: "fresh_stream s \<Longrightarrow> advanced 0 s = s"
  by (cases s) (auto simp: fresh_stream_def advanced_def)

lemma mark_advanced:
  assumes "m < length (es_seen s)"
  shows "mark_seen m (advanced m s) = advanced (Suc m) s"
proof -
  have r: "replicate (length (es_seen s) - m) False = False # replicate (length (es_seen s) - Suc m) False"
    using assms by (metis Suc_diff_Suc replicate_Suc)
  have u: "(replicate m True @ False # replicate k False)[m := True] = replicate (Suc m) True @ replicate k False"
    for k by (simp add: list_update_append replicate_append_same)
  have f: "first_unseen (replicate n True @ replicate k False) = n" for n k
    by (cases k) (simp_all add: first_unseen_def takeWhile_append)
  have "next_unseen (replicate (Suc m) True @ replicate k False) m = Suc m" for k
    using next_unseen_eq [of m "replicate (Suc m) True @ replicate k False"] f [of "Suc m" k] by simp
  then show ?thesis by (simp add: mark_seen_def advanced_def Let_def r u)
qed

lemma advanced_seen:
  assumes "m \<le> length (es_seen s)"
  shows "length (es_seen (advanced m s)) = length (es_seen s)"
    and "n < length (es_seen s) \<Longrightarrow> es_seen (advanced m s) ! n \<longleftrightarrow> n < m"
  using assms by (auto simp: advanced_def nth_append)

lemma find_SomeD: "find p xs = Some x \<Longrightarrow> p x \<and> x \<in> set xs"
  by (induction xs) (auto split: if_splits)

lemma find_progress:
  "find (stream_matches i) (progress ss ps) =
     map_option (\<lambda>s. advanced (length (ordinals s ps)) s) (find (stream_matches i) ss)"
  unfolding progress_def by (induction ss) auto

lemma update_progress:
  assumes "distinct_streams ss" "find (stream_matches i) ss = Some s"
    and "\<And>t. stream_key t = stream_key s \<Longrightarrow> t \<in> set ss \<Longrightarrow> f (g t) = h t"
    and "\<And>t. stream_key t \<noteq> stream_key s \<Longrightarrow> t \<in> set ss \<Longrightarrow> g t = h t"
    and "\<And>t. stream_matches i (g t) = stream_matches i t"
  shows "update_first (stream_matches i) f (map g ss) = map h ss"
  using assms(1-4)
proof (induction ss)
  case Nil
  then show ?case by simp
next
  case (Cons t ts)
  have sm: "stream_matches i s" using find_SomeD [OF Cons.prems(2)] by simp
  show ?case
  proof (cases "stream_matches i t")
    case True
    then have ts: "s = t" using Cons.prems(2) by simp
    have "stream_key u \<noteq> stream_key s" if "u \<in> set ts" for u
      using that Cons.prems(1) ts by (force simp: distinct_streams_def image_iff)
    then have "map g ts = map h ts" using Cons.prems(4) by auto
    then show ?thesis using True ts Cons.prems(3) assms(5) by simp
  next
    case False
    then have "stream_key t \<noteq> stream_key s" using matches_same_key [OF sm] by blast
    then have "g t = h t" using Cons.prems(4) by simp
    moreover have "update_first (stream_matches i) f (map g ts) = map h ts"
      using Cons.IH Cons.prems False by (simp add: distinct_streams_def)
    ultimately show ?thesis using False assms(5) [of t] by simp
  qed
qed

section \<open>Counters never return to zero\<close>

lemma saturating_inc [simp]: "saturating_add x (1 :: u64) \<noteq> 0"
  by (simp add: saturating_add_eq_0)

lemma count_discrepancy:
  "lg_correctness (count_unexpected l) \<noteq> no_correctness"
  "lg_correctness (count_duplicate l) \<noteq> no_correctness"
  by (cases "lg_correctness l"; simp add: count_unexpected_def count_duplicate_def no_correctness_def)+

lemma accept_discrepancy:
  "lg_correctness (accept_packet i body len s l) = no_correctness \<longleftrightarrow>
     lg_correctness l = no_correctness \<and> body \<and> unat (id_ordinal i) = es_next_ordinal s"
  unfolding accept_correctness
  by (cases "lg_correctness l") (auto simp: no_correctness_def)

lemma discrepancy_sticks:
  assumes "lg_correctness l \<noteq> no_correctness"
  shows "lg_correctness (observe l p) \<noteq> no_correctness"
  using assms by (cases rule: observe_cases [of l p]) (auto simp: count_discrepancy accept_discrepancy)

section \<open>Exactness\<close>

lemma in_order_snocD: "in_order ss (ps @ [p]) \<Longrightarrow> in_order ss ps"
proof -
  have "xs = [0..<length xs] \<and> length xs \<le> n"
    if h: "xs @ ys = [0..<length (xs @ ys)]" "length (xs @ ys) \<le> n" for xs ys :: "nat list" and n
  proof -
    have "xs = take (length xs) (xs @ ys)" by simp
    also have "\<dots> = take (length xs) [0..<length (xs @ ys)]" using h(1) by simp
    finally show ?thesis using h(2) by (simp add: take_upt)
  qed
  then show "in_order ss (ps @ [p]) \<Longrightarrow> in_order ss ps"
    by (auto simp: in_order_def list_all_iff ordinals_append)
qed

lemma observe_in_order:
  assumes "distinct_streams ss" "list_all fresh_stream ss" "in_order ss ps"
    and "lg_streams l = progress ss ps" "lg_correctness l = no_correctness"
  shows "(lg_correctness (observe l p) = no_correctness \<longleftrightarrow> in_order ss (ps @ [p])) \<and>
    (in_order ss (ps @ [p]) \<longrightarrow> lg_streams (observe l p) = progress ss (ps @ [p]))"
proof -
  have ord: "ordinals s ps = [0..<length (ordinals s ps)]" "length (ordinals s ps) \<le> length (es_seen s)"
    if "s \<in> set ss" for s using assms(3) that by (auto simp: in_order_def list_all_iff)
  have fnd: "find (stream_matches i) (lg_streams l) =
      map_option (\<lambda>s. advanced (length (ordinals s ps)) s) (find (stream_matches i) ss)" for i
    by (simp add: assms(4) find_progress)
  have bad: "\<not> in_order ss (ps @ [p])" if "\<not> expected_payload ss p"
    using that by (simp add: in_order_def)
  show ?thesis
  proof (cases rule: observe_cases [of l p])
    case same
    then obtain ins where i: "inspect_payload p = Inr ins" "id_phase (identity ins) = WarmupPacket" by blast
    then have n: "ordinals s (ps @ [p]) = ordinals s ps" for s
      by (simp add: ordinals_append ordinals_single ordinal_of_def)
    then have "in_order ss (ps @ [p])" "progress ss (ps @ [p]) = progress ss ps"
      using assms(3) i by (simp_all add: in_order_def progress_def expected_payload_def)
    then show ?thesis using same(1) assms(4,5) by simp
  next
    case unexpected
    have "\<not> in_order ss (ps @ [p])"
    proof
      assume io: "in_order ss (ps @ [p])"
      then have "expected_payload ss p" by (simp add: in_order_def)
      then obtain ins where i: "inspect_payload p = Inr ins" "id_phase (identity ins) = MeasuredPacket"
        "list_ex (stream_matches (identity ins)) ss"
        using unexpected(3) by (auto simp: expected_payload_def split: sum.splits)
          (metis (full_types) packet_phase.exhaust)
      then obtain s where s: "find (stream_matches (identity ins)) ss = Some s"
        by (metis find_None_iff list_ex_iff option.exhaust)
      then have ss: "s \<in> set ss" and sm: "stream_matches (identity ins) s"
        by (auto simp: find_Some_iff)
      let ?n = "unat (id_ordinal (identity ins))"
      have o: "ordinals s (ps @ [p]) = ordinals s ps @ [?n]"
        using i sm by (simp add: ordinals_append ordinals_single ordinal_of_def)
      have len: "length (ordinals s (ps @ [p])) \<le> length (es_seen s)"
        and up: "ordinals s (ps @ [p]) = [0..<length (ordinals s (ps @ [p]))]"
        using io ss by (auto simp: in_order_def list_all_iff)
      have "ordinals s ps @ [?n] = [0..<length (ordinals s ps)] @ [length (ordinals s ps)]"
        using up unfolding o by (metis length_append_singleton upt_Suc_append zero_le)
      then have "?n = length (ordinals s ps)" by (metis append1_eq_conv)
      then have "?n < length (es_seen s)" using len o by simp
      then show False using unexpected(2) i(1) s fnd advanced_seen(1) [OF ord(2) [OF ss]] by auto
    qed
    then show ?thesis using unexpected(1) count_discrepancy by simp
  next
    case (duplicate ins s')
    then obtain s where s: "find (stream_matches (identity ins)) ss = Some s"
      "s' = advanced (length (ordinals s ps)) s" using fnd by auto
    then have ss: "s \<in> set ss" and sm: "stream_matches (identity ins) s"
      by (auto simp: find_Some_iff)
    let ?n = "unat (id_ordinal (identity ins))"
    have lt: "?n < length (ordinals s ps)"
      using duplicate(5,6) s(2) advanced_seen [OF ord(2) [OF ss]] by simp
    have o: "ordinals s (ps @ [p]) = ordinals s ps @ [?n]"
      using duplicate sm by (simp add: ordinals_append ordinals_single ordinal_of_def)
    have "\<not> in_order ss (ps @ [p])"
    proof
      assume "in_order ss (ps @ [p])"
      then have up: "ordinals s (ps @ [p]) = [0..<length (ordinals s (ps @ [p]))]"
        using ss by (auto simp: in_order_def list_all_iff)
      have "ordinals s ps @ [?n] = [0..<length (ordinals s ps)] @ [length (ordinals s ps)]"
        using up unfolding o by (metis length_append_singleton upt_Suc_append zero_le)
      then have "?n = length (ordinals s ps)" by (metis append1_eq_conv)
      then show False using lt by simp
    qed
    then show ?thesis using duplicate(1) count_discrepancy by simp
  next
    case (accept ins s')
    then obtain s where s: "find (stream_matches (identity ins)) ss = Some s"
      "s' = advanced (length (ordinals s ps)) s" using fnd by auto
    then have ss: "s \<in> set ss" and sm: "stream_matches (identity ins) s"
      by (auto simp: find_Some_iff)
    let ?n = "unat (id_ordinal (identity ins))"
    let ?m = "length (ordinals s ps)"
    have lt: "?n < length (es_seen s)" "?m \<le> ?n"
      using accept(5,6) s(2) advanced_seen [OF ord(2) [OF ss]] by auto
    have oid: "ordinal_of t p = (if stream_key t = stream_key s then Some ?n else None)" for t
      using accept(2,3) matches_same_key [OF sm, of t] by (simp add: ordinal_of_def)
    have o: "ordinals s (ps @ [p]) = ordinals s ps @ [?n]"
      by (simp add: ordinals_append ordinals_single oid)
    have uniq: "t = s" if "t \<in> set ss" "stream_key t = stream_key s" for t
      using that assms(1) ss by (auto simp: distinct_streams_def distinct_map inj_on_def)
    have other: "ordinals t (ps @ [p]) = ordinals t ps" if "stream_key t \<noteq> stream_key s" for t
      using that by (simp add: ordinals_append ordinals_single oid)
    have clean: "lg_correctness (observe l p) = no_correctness \<longleftrightarrow> payload_matches ins \<and> ?n = ?m"
      using accept(1) assms(5) s(2) by (simp add: accept_discrepancy advanced_def)
    have io: "in_order ss (ps @ [p]) \<longleftrightarrow> payload_matches ins \<and> ?n = ?m"
    proof
      assume io: "in_order ss (ps @ [p])"
      then have up: "ordinals s (ps @ [p]) = [0..<length (ordinals s (ps @ [p]))]"
        using ss by (auto simp: in_order_def list_all_iff)
      have "ordinals s ps @ [?n] = [0..<?m] @ [?m]"
        using up unfolding o by (metis length_append_singleton upt_Suc_append zero_le)
      then have "?n = ?m" by (metis append1_eq_conv)
      moreover have "payload_matches ins"
        using io accept(2,3) by (simp add: in_order_def expected_payload_def)
      ultimately show "payload_matches ins \<and> ?n = ?m" by simp
    next
      assume h: "payload_matches ins \<and> ?n = ?m"
      have "expected_payload ss p"
        using accept(2) h ss sm by (auto simp: expected_payload_def list_ex_iff)
      moreover have "ordinals t (ps @ [p]) = [0..<length (ordinals t (ps @ [p]))]
          \<and> length (ordinals t (ps @ [p])) \<le> length (es_seen t)" if t: "t \<in> set ss" for t
      proof (cases "stream_key t = stream_key s")
        case True
        then have "t = s" using uniq t by blast
        then show ?thesis using o h lt ord(1) [OF ss] by simp
      next
        case False
        then show ?thesis using other ord [OF t] by simp
      qed
      ultimately show "in_order ss (ps @ [p])"
        using assms(3) by (simp add: in_order_def list_all_iff)
    qed
    have "lg_streams (observe l p) = progress ss (ps @ [p])" if "?n = ?m"
    proof -
      have "update_first (stream_matches (identity ins)) (mark_seen ?n)
          (map (\<lambda>s. advanced (length (ordinals s ps)) s) ss)
        = map (\<lambda>s. advanced (length (ordinals s (ps @ [p]))) s) ss"
      proof (rule update_progress [OF assms(1) s(1)])
        fix t
        assume t: "stream_key t = stream_key s" "t \<in> set ss"
        then have "t = s" using uniq by blast
        then show "mark_seen ?n (advanced (length (ordinals t ps)) t)
            = advanced (length (ordinals t (ps @ [p]))) t"
          using o lt that mark_advanced [of ?m s] by simp
      qed (use other in simp_all)
      then show ?thesis using accept(1) assms(4) by (simp add: accept_fields progress_def)
    qed
    then show ?thesis using clean io by blast
  qed
qed

lemma observe_all_in_order:
  assumes "distinct_streams ss" "list_all fresh_stream ss"
  shows "(lg_correctness (observe_all (new_ledger ss) ps) = no_correctness \<longleftrightarrow> in_order ss ps) \<and>
    (in_order ss ps \<longrightarrow> lg_streams (observe_all (new_ledger ss) ps) = progress ss ps)"
proof (induction ps rule: rev_induct)
  case Nil
  have "progress ss [] = ss"
    using assms(2) unfolding progress_def
    by (intro map_idI) (auto simp: list_all_iff ordinals_def List.map_filter_def advanced_0)
  then show ?case
    by (simp add: observe_all_def new_ledger_def in_order_def list_all_iff ordinals_def List.map_filter_def)
next
  case (snoc p ps)
  let ?l = "observe_all (new_ledger ss) ps"
  have step: "observe_all (new_ledger ss) (ps @ [p]) = observe ?l p" by (simp add: observe_all_def)
  show ?case
  proof (cases "in_order ss ps")
    case True
    then show ?thesis using observe_in_order [OF assms True, of ?l p] snoc step by simp
  next
    case False
    then have "lg_correctness (observe ?l p) \<noteq> no_correctness"
      using snoc discrepancy_sticks by blast
    moreover have "\<not> in_order ss (ps @ [p])" using False in_order_snocD by blast
    ultimately show ?thesis using step by simp
  qed
qed

lemma unseen_advanced: "m \<le> length (es_seen s) \<Longrightarrow> unseen_count (advanced m s) = length (es_seen s) - m"
  by (simp add: unseen_count_def advanced_def)

lemma unseen_progress_0:
  assumes "in_order ss ps"
  shows "unseen_packets (progress ss ps) = 0 \<longleftrightarrow>
    list_all (\<lambda>s. length (es_seen s) \<le> length (ordinals s ps)) ss"
  using assms unfolding in_order_def progress_def unseen_packets_def
  by (auto simp: list_all_iff unseen_advanced)

lemma exact_iff_in_order:
  "exact_arrivals ss ps \<longleftrightarrow>
     in_order ss ps \<and> list_all (\<lambda>s. length (es_seen s) \<le> length (ordinals s ps)) ss"
  unfolding exact_arrivals_def in_order_def
  by (auto simp: list_all_iff) (metis length_upt minus_nat.diff_0 le_antisym)+

lemma finish_correctness:
  "finish_ledger l = no_correctness \<longleftrightarrow>
     (lg_correctness l)\<lparr>missing_packets := 0\<rparr> = no_correctness \<and> missing_packets (finish_ledger l) = 0"
  by (cases "lg_correctness l") (auto simp: finish_ledger_def no_correctness_def)

lemma missing_untouched:
  "missing_packets (lg_correctness l) = 0 \<Longrightarrow> missing_packets (lg_correctness (observe l p)) = 0"
  by (cases rule: observe_cases [of l p])
     (auto simp: count_unexpected_def count_duplicate_def accept_correctness)

lemma missing_zero: "missing_packets (lg_correctness (observe_all (new_ledger ss) ps)) = 0"
proof (induction ps rule: rev_induct)
  case Nil
  show ?case by (simp add: observe_all_def new_ledger_def no_correctness_def)
next
  case (snoc p ps)
  then show ?case using missing_untouched by (simp add: observe_all_def)
qed

lemma ledger_exact_iff:
  assumes "distinct_streams ss" "list_all fresh_stream ss" "expected_packets ss < 2 ^ 64"
  shows "finish_ledger (observe_all (new_ledger ss) ps) = no_correctness \<longleftrightarrow> exact_arrivals ss ps"
proof -
  let ?l = "observe_all (new_ledger ss) ps"
  have ok: "ledger_ok (expected_packets ss) ?l"
    by (rule observe_all_ledger_ok [OF new_ledger_ok [OF assms(2)] assms(3)])
  then have "unseen_packets (lg_streams ?l) < 2 ^ 64" using assms(3) by (simp add: ledger_ok_def)
  then have m: "missing_packets (finish_ledger ?l) = 0 \<longleftrightarrow> unseen_packets (lg_streams ?l) = 0"
    using missing_packets_finish by (simp add: word_eq_unat_iff)
  have "(lg_correctness ?l)\<lparr>missing_packets := 0\<rparr> = lg_correctness ?l"
    using missing_zero [of ss ps] by (cases "lg_correctness ?l") simp
  then have "finish_ledger ?l = no_correctness \<longleftrightarrow> in_order ss ps \<and> unseen_packets (lg_streams ?l) = 0"
    using finish_correctness [of ?l] m observe_all_in_order [OF assms(1,2), of ps] by simp
  then show ?thesis
    using observe_all_in_order [OF assms(1,2), of ps] unseen_progress_0 exact_iff_in_order by metis
qed

section \<open>Numbered streams arrive exactly\<close>

definition carried :: "expected_stream \<Rightarrow> bytes \<Rightarrow> bool" where
  "carried s p \<longleftrightarrow> ordinal_of s p \<noteq> None"

lemma ordinals_filter: "ordinals s (filter (carried s) ps) = ordinals s ps"
  by (induction ps) (auto simp: ordinals_def carried_def List.map_filter_def)

lemma numbered_ordinals:
  assumes "numbered (es_source s) (es_kind s) (es_layer s) MeasuredPacket start ps"
    and "start + length ps \<le> 2 ^ 32"
  shows "ordinals s ps = [start..<start + length ps]"
  using assms
proof (induction ps arbitrary: start)
  case Nil
  then show ?case by (simp add: ordinals_def List.map_filter_def)
next
  case (Cons p ps)
  then obtain i where i: "intact p i"
    "stream_identity (es_source s) (es_kind s) (es_layer s) MeasuredPacket (of_nat start) i"
    and rest: "numbered (es_source s) (es_kind s) (es_layer s) MeasuredPacket (Suc start) ps"
    by (auto simp: numbered_Cons simp del: of_nat_Suc)
  have "unat (of_nat start :: u32) = start" using Cons.prems(2) by (simp add: unat_of_nat)
  then have "ordinal_of s p = Some start"
    using i by (simp add: ordinal_of_def intact_def stream_identity_def stream_matches_def)
  then have "ordinals s (p # ps) = start # ordinals s ps"
    by (simp add: ordinals_def List.map_filter_def)
  also have "ordinals s ps = [Suc start..<Suc start + length ps]"
    using Cons.IH [OF rest] Cons.prems(2) by simp
  finally show ?case by (simp add: upt_rec)
qed

text \<open>
  \<open>delivered_exactly ss sent ps\<close>: the arrivals carry, stream by stream and in order, exactly what was
  sent on it, and besides that only intact warm-up packets.
\<close>

definition delivered_exactly ::
  "expected_stream list \<Rightarrow> (expected_stream \<Rightarrow> bytes list) \<Rightarrow> bytes list \<Rightarrow> bool" where
  "delivered_exactly ss sent ps \<longleftrightarrow>
     list_all (\<lambda>s. filter (carried s) ps = sent s) ss \<and>
     list_all (\<lambda>p. list_ex (\<lambda>s. carried s p) ss
       \<or> (\<exists>i. intact p i \<and> id_phase i = WarmupPacket)) ps"

lemma exact_of_delivered:
  assumes "delivered_exactly ss sent ps"
    and "list_all (\<lambda>s. numbered (es_source s) (es_kind s) (es_layer s) MeasuredPacket 0 (sent s)
      \<and> length (sent s) = length (es_seen s) \<and> length (sent s) \<le> 2 ^ 32) ss"
  shows "exact_arrivals ss ps"
proof -
  have "ordinals s ps = [0..<length (es_seen s)]" if "s \<in> set ss" for s
    using assms that numbered_ordinals [of s 0 "sent s"] ordinals_filter [of s ps]
    by (auto simp: delivered_exactly_def list_all_iff)
  moreover have "expected_payload ss p" if p: "p \<in> set ps" for p
  proof -
    from assms(1) p consider (stream) s where "s \<in> set ss" "carried s p"
      | (warmup) i where "intact p i" "id_phase i = WarmupPacket"
      by (auto simp: delivered_exactly_def list_all_iff list_ex_iff)
    then show ?thesis
    proof cases
      case stream
      then have "p \<in> set (filter (carried s) ps)" using p by simp
      moreover have "filter (carried s) ps = sent s" using assms(1) stream(1)
        by (simp add: delivered_exactly_def list_all_iff)
      ultimately have "p \<in> set (sent s)" by metis
      then obtain k where "k < length (sent s)" "p = sent s ! k" by (auto simp: in_set_conv_nth)
      moreover have "numbered (es_source s) (es_kind s) (es_layer s) MeasuredPacket 0 (sent s)"
        using assms(2) stream(1) by (simp add: list_all_iff)
      ultimately obtain i where "intact p i" unfolding numbered_def by blast
      then show ?thesis using stream
        by (auto simp: expected_payload_def intact_def carried_def ordinal_of_def list_ex_iff split: if_splits)
    next
      case warmup
      then show ?thesis by (simp add: expected_payload_def intact_def)
    qed
  qed
  ultimately show ?thesis by (simp add: exact_arrivals_def list_all_iff)
qed

text \<open>
  C3: exactness of the ledger. Over streams with distinct keys a finished ledger reports no discrepancy
  exactly when every arrival is a warm-up packet or an intact packet of an expected stream and each
  stream's measured packets arrived in the order 0, 1, ..., to its end. How the streams interleave,
  and where warm-up packets fall, does not matter.
\<close>

theorem ledger_exact:
  assumes "distinct_streams streams" "list_all fresh_stream streams" "expected_packets streams < 2 ^ 64"
  shows "discrepancy_count (finish_ledger (observe_all (new_ledger streams) arrivals)) = 0
    \<longleftrightarrow> exact_arrivals streams arrivals"
  using ledger_exact_iff [OF assms] by (simp add: discrepancy_count_eq_0)

definition two_packets :: "bytes list" where
  "two_packets = map ap_payload (audio_packets rfc_7741 (new_audio_source 7) MeasuredPacket 0 2)"

definition two_packet_stream :: expected_stream where
  "two_packet_stream = \<lparr>es_source = 7, es_kind = Audio, es_layer = None, es_seen = [False, False],
     es_next_ordinal = 0\<rparr>"

lemma two_packets_exact: "exact_arrivals [two_packet_stream] two_packets"
proof -
  have n: "numbered 7 Audio None MeasuredPacket 0 two_packets" "length two_packets = 2"
    using audio_packets_numbered [of rfc_7741 "new_audio_source 7" MeasuredPacket 0 2]
    by (simp_all add: two_packets_def new_audio_source_def)
  have "carried two_packet_stream p" if p: "p \<in> set two_packets" for p
  proof -
    obtain k where "k < length two_packets" "p = two_packets ! k" using p by (auto simp: in_set_conv_nth)
    then obtain i where "intact p i" "stream_identity 7 Audio None MeasuredPacket (of_nat (0 + k)) i"
      using n(1) unfolding numbered_def by blast
    then show ?thesis
      by (simp add: carried_def ordinal_of_def intact_def stream_identity_def stream_matches_def
          two_packet_stream_def)
  qed
  then have "delivered_exactly [two_packet_stream] (\<lambda>_. two_packets) two_packets"
    by (auto simp: delivered_exactly_def list_all_iff)
  then show ?thesis
    by (rule exact_of_delivered) (use n in \<open>simp add: two_packet_stream_def\<close>)
qed

theorem ledger_exact_witness:
  "discrepancy_count (finish_ledger (observe_all (new_ledger [two_packet_stream]) two_packets)) = 0"
proof -
  have "distinct_streams [two_packet_stream]" "list_all fresh_stream [two_packet_stream]"
    "expected_packets [two_packet_stream] < 2 ^ 64"
    by (simp_all add: distinct_streams_def fresh_stream_def two_packet_stream_def expected_packets_def)
  from ledger_exact [OF this, of two_packets] two_packets_exact show ?thesis by simp
qed

end
