(* ===== verification/Rooms.thy ===== *)
theory Rooms
  imports LedgerExact
begin

text \<open>
  How \<open>src/client/scenario.rs\<close> sets up the peers of a room: the media each peer sends (\<open>PeerMedia\<close>),
  the camera layouts it asks for, the streams its ledger expects, and the dispatch of \<open>run\<close> over the
  four scenarios. \<open>PlanLedger\<close> shows that the expectations of all ledgers add up to the plan,
  \<open>JoiningFacts\<close> that the layouts a room asks for feature exactly the sources whose high layer the
  ledgers expect.
\<close>

section \<open>The media of a peer\<close>

record peer_media =
  pm_audio :: "audio_source option"
  pm_audio_packet_count :: u32
  pm_video :: "video_source option"
  pm_video_frame_count :: u32

definition mixed_media ::
  "audio_source option \<Rightarrow> u32 \<Rightarrow> video_source option \<Rightarrow> u32 \<Rightarrow> peer_media" where
  "mixed_media audio audio_packet_count video video_frame_count =
     \<lparr>pm_audio = audio, pm_audio_packet_count = audio_packet_count, pm_video = video,
      pm_video_frame_count = video_frame_count\<rparr>"

definition audio_media :: "audio_source option \<Rightarrow> u32 \<Rightarrow> peer_media" where
  "audio_media source packet_count = mixed_media source packet_count None 0"

definition video_media :: "video_source option \<Rightarrow> u32 \<Rightarrow> peer_media" where
  "video_media source frame_count = mixed_media None 0 source frame_count"

definition target_duration :: "peer_media \<Rightarrow> duration" where
  "target_duration m =
     max (dur_saturating_mul AUDIO_FRAME_INTERVAL (pm_audio_packet_count m))
         (dur_saturating_mul VIDEO_FRAME_INTERVAL (pm_video_frame_count m))"

definition reset_timelines :: "peer_media \<Rightarrow> peer_media" where
  "reset_timelines m =
     m\<lparr>pm_audio := map_option reset_audio (pm_audio m),
       pm_video := map_option reset_video (pm_video m)\<rparr>"

datatype media_turn = AudioTurn | VideoTurn

definition due_if :: "bool \<Rightarrow> 'a option \<Rightarrow> 'a option" where
  "due_if c v = (if c then v else None)"

definition next_turn :: "peer_media \<Rightarrow> u32 \<Rightarrow> u32 \<Rightarrow> media_turn option" where
  "next_turn m audio_ordinal video_frame =
     (let audio_due = map_option audio_next_emitted_at
            (due_if (audio_ordinal < pm_audio_packet_count m) (pm_audio m));
          video_due = map_option video_next_emitted_at
            (due_if (video_frame < pm_video_frame_count m) (pm_video m))
      in case (audio_due, video_due) of
           (Some audio, Some video) \<Rightarrow> if audio \<le> video then Some AudioTurn else Some VideoTurn
         | (None, Some _) \<Rightarrow> Some VideoTurn
         | (Some _, None) \<Rightarrow> Some AudioTurn
         | (None, None) \<Rightarrow> None)"

section \<open>Keys\<close>

text \<open>The constants of \<open>src/lib.rs\<close> that the harness shares with the server it starts.\<close>

definition AUTH_KEY :: string where "AUTH_KEY = ''u6bsUQEWrHdKIuYplirRnbBmLbrKV5PxKG7DtA71mng=''"
definition ROOM_ISSUER :: string where "ROOM_ISSUER = ''o-sfu-load-testing''"
definition ROOM_KEY :: string where "ROOM_KEY = ''Y2hhbm5lbC1rZXk=''"

section \<open>Camera layouts\<close>

datatype video_layout_intent = Featured | VisibleThumbnail | Hidden

text \<open>
  The layouts \<open>configure_video_layouts\<close> sends for one peer: an intent per other camera, keyed by the
  integer user id of its publisher.
\<close>

definition camera_layouts :: "nat \<Rightarrow> u32 \<Rightarrow> (int \<times> video_layout_intent) list" where
  "camera_layouts peer_index publisher_count =
     (let featured = featured_source peer_index publisher_count in
      map (\<lambda>source_index.
             (uint source_index + 1,
              if featured = Some source_index then Featured else VisibleThumbnail))
        (filter (\<lambda>source_index. unat source_index \<noteq> peer_index) (u32_range publisher_count)))"

section \<open>One peer of a room\<close>

text \<open>\<open>(peer_index < publisher_count).then(f)\<close>.\<close>

definition when_publisher :: "nat \<Rightarrow> u32 \<Rightarrow> 'a \<Rightarrow> 'a option" where
  "when_publisher peer_index publisher_count x =
     (if peer_index < unat publisher_count then Some x else None)"

definition audio_room_peer ::
  "u32 \<Rightarrow> u32 \<Rightarrow> u32 \<Rightarrow> u32 \<Rightarrow> nat \<Rightarrow> (peer_media \<times> packet_ledger) result" where
  "audio_room_peer room_index peer_count publisher_count packet_count peer_index =
     bind_ok (source_id room_index peer_count peer_index) (\<lambda>peer_source.
     let source = when_publisher peer_index publisher_count (new_audio_source peer_source) in
     bind_ok (expected_audio_streams room_index peer_count publisher_count peer_index packet_count)
       (\<lambda>expected.
     Inr (audio_media source packet_count, new_ledger expected)))"

definition video_room_peer ::
  "u32 \<Rightarrow> u32 \<Rightarrow> u32 \<Rightarrow> u32 \<Rightarrow> nat \<Rightarrow> (peer_media \<times> packet_ledger) result" where
  "video_room_peer room_index peer_count publisher_count seconds peer_index =
     bind_ok (video_packets_per_layer seconds) (\<lambda>(low_packets, high_packets).
     bind_ok (ok_or ''video frame count exceeds u32'' (checked_mul seconds VIDEO_FRAMES_PER_SECOND))
       (\<lambda>frame_count.
     bind_ok (source_id room_index peer_count peer_index) (\<lambda>peer_source.
     let source = when_publisher peer_index publisher_count (new_video_source peer_source) in
     bind_ok (expected_video_streams room_index peer_count publisher_count peer_index low_packets
         high_packets) (\<lambda>expected.
     Inr (video_media source frame_count, new_ledger expected)))))"

definition mixed_room_peer ::
  "u32 \<Rightarrow> u32 \<Rightarrow> u32 \<Rightarrow> u32 \<Rightarrow> u32 \<Rightarrow> nat \<Rightarrow> (peer_media \<times> packet_ledger) result" where
  "mixed_room_peer room_index peer_count audio_publisher_count video_publisher_count seconds
      peer_index =
     bind_ok (ok_or ''audio packet count exceeds u32''
       (checked_mul seconds AUDIO_PACKETS_PER_SECOND)) (\<lambda>audio_packet_count.
     bind_ok (ok_or ''video frame count exceeds u32'' (checked_mul seconds VIDEO_FRAMES_PER_SECOND))
       (\<lambda>video_frame_count.
     bind_ok (video_packets_per_layer seconds) (\<lambda>(low_packets, high_packets).
     bind_ok (source_id room_index peer_count peer_index) (\<lambda>peer_source.
     bind_ok (ok_or ''peer index exceeds u32'' (try_to peer_index :: u32 option)) (\<lambda>source_index.
     let audio = when_publisher peer_index audio_publisher_count
           (staggered_audio_source peer_source source_index audio_publisher_count);
         video = when_publisher peer_index video_publisher_count
           (staggered_video_source peer_source source_index video_publisher_count) in
     bind_ok (expected_audio_streams room_index peer_count audio_publisher_count peer_index
         audio_packet_count) (\<lambda>expected.
     bind_ok (expected_video_streams room_index peer_count video_publisher_count peer_index
         low_packets high_packets) (\<lambda>expected_video.
     Inr (mixed_media audio audio_packet_count video video_frame_count,
          new_ledger (expected @ expected_video)))))))))"

text \<open>The dispatch of \<open>run\<close>, for the peer \<open>peer_index\<close> of the room \<open>room_index\<close>.\<close>

fun scenario_peer :: "scenario_spec \<Rightarrow> u32 \<Rightarrow> nat \<Rightarrow> (peer_media \<times> packet_ledger) result" where
  "scenario_peer (Smoke receivers packets) room_index peer_index =
     audio_room_peer room_index (receivers + 1) 1 packets peer_index"
| "scenario_peer (AudioMesh rooms peers seconds) room_index peer_index =
     bind_ok (ok_or ''audio packet count exceeds u32''
       (checked_mul seconds AUDIO_PACKETS_PER_SECOND)) (\<lambda>packets.
     audio_room_peer room_index peers peers packets peer_index)"
| "scenario_peer (VideoGallery rooms peers publishers seconds) room_index peer_index =
     video_room_peer room_index peers publishers seconds peer_index"
| "scenario_peer (MixedConference rooms peers audio_publishers video_publishers seconds)
     room_index peer_index =
     mixed_room_peer room_index peers audio_publishers video_publishers seconds peer_index"

definition peer_total :: "scenario_spec \<Rightarrow> u64 result" where
  "peer_total spec =
     ok_or ''scenario peer count overflowed''
       (checked_mul (u64_from (room_count spec)) (u64_from (peers_per_room spec)))"

section \<open>Featured sources\<close>

lemma u32_range_index: "x \<in> set (u32_range n) \<longleftrightarrow> unat x < unat n"
proof
  assume "x \<in> set (u32_range n)"
  then obtain k where "x = of_nat k" "k < unat n" by (auto simp: u32_range_def)
  moreover from this have "k < 2 ^ 32" using unat_less_2p [of n] by simp
  ultimately show "unat x < unat n" by (simp add: unat_of_nat)
next
  assume "unat x < unat n"
  then have "x = of_nat (unat x)" "unat x \<in> set [0..<unat n]" by simp_all
  then show "x \<in> set (u32_range n)" unfolding u32_range_def by (metis image_eqI set_map)
qed

lemma unat_u32_range: "map unat (u32_range n) = [0..<unat n]"
proof -
  have "unat (of_nat k :: u32) = k" if "k \<in> set [0..<unat n]" for k
    using that unat_less_2p [of n] by (simp add: unat_of_nat)
  then show ?thesis unfolding u32_range_def map_map by (intro map_idI) simp
qed

lemma featured_nat:
  "map_option unat (featured_source peer m) =
     (if unat m = 0 then None
      else if peer < unat m then (if unat m > 1 then Some ((peer + 1) mod unat m) else None)
      else Some (peer mod unat m))"
proof -
  have m: "unat m < 2 ^ 32" using unat_less_2p [of m] by simp
  have c: "peer mod unat m = peer \<longleftrightarrow> peer < unat m" if "unat m \<noteq> 0"
    using that by (metis bot_nat_0.not_eq_extremum mod_less mod_less_divisor)
  have t: "(try_to (k mod unat m) :: u32 option) = Some (of_nat (k mod unat m))
      \<and> unat (of_nat (k mod unat m) :: u32) = k mod unat m" if "unat m \<noteq> 0" for k
  proof -
    have "k mod unat m < 2 ^ 32" using that m by (meson bot_nat_0.not_eq_extremum less_trans mod_less_divisor)
    then show ?thesis by (simp add: try_to_def unat_of_nat)
  qed
  show ?thesis
    using t [of peer] t [of "peer + 1"] c by (auto simp: featured_source_def Let_def)
qed

lemma featured_ok:
  assumes "featured_source peer m = Some f"
  shows "unat f < unat m" "unat f \<noteq> peer"
proof -
  from assms have f: "map_option unat (featured_source peer m) = Some (unat f)" by simp
  then have m: "unat m \<noteq> 0" unfolding featured_nat by (simp split: if_splits)
  have "unat f = (peer + 1) mod unat m \<or> unat f = peer mod unat m"
    using f m unfolding featured_nat by (auto split: if_splits)
  then show "unat f < unat m" using m by (metis bot_nat_0.not_eq_extremum mod_less_divisor)
  show "unat f \<noteq> peer"
  proof (cases "peer < unat m")
    case True
    then have "unat m > 1" "unat f = (peer + 1) mod unat m"
      using f m unfolding featured_nat by (auto split: if_splits)
    then show ?thesis using True by (cases "peer + 1 = unat m") auto
  next
    case False
    then have "unat f = peer mod unat m" using f m unfolding featured_nat by auto
    then show ?thesis using False m by (metis bot_nat_0.not_eq_extremum mod_less_divisor)
  qed
qed

lemma featured_exists: "(\<exists>f. featured_source peer m = Some f) \<longleftrightarrow> unat m > 1 \<or> (unat m = 1 \<and> peer > 0)"
  using featured_nat [of peer m] by (cases "featured_source peer m") (auto split: if_splits)

section \<open>The streams of a peer\<close>

definition source_number :: "u32 \<Rightarrow> u32 \<Rightarrow> nat \<Rightarrow> nat" where
  "source_number room_index peer_count index = unat room_index * unat peer_count + index"

lemma source_id_ok:
  assumes "source_number room_index peer_count index < 2 ^ 16"
  shows "source_id room_index peer_count index = Inr (of_nat (source_number room_index peer_count index))"
proof -
  let ?n = "source_number room_index peer_count index"
  have i: "index < 2 ^ 16" and o1: "unat room_index * unat peer_count < 2 ^ 16"
    using assms by (simp_all add: source_number_def)
  obtain off where off: "checked_mul room_index peer_count = Some off"
    "unat off = unat room_index * unat peer_count"
  proof -
    have "checked_mul room_index peer_count = Some (room_index * peer_count)"
      using o1 by (simp add: checked_mul_def)
    then show ?thesis using that by (simp add: checked_iff)
  qed
  have p: "(try_to index :: u32 option) = Some (of_nat index)" "unat (of_nat index :: u32) = index"
    using i by (simp_all add: try_to_def unat_of_nat)
  have "checked_add off (of_nat index) = Some (off + of_nat index)"
    using assms off p by (simp add: checked_add_def source_number_def)
  moreover from this have "unat (off + of_nat index) = ?n"
    using off p by (simp add: checked_iff source_number_def)
  ultimately show ?thesis
    using assms off p by (simp add: source_id_def try_to_def)
qed

definition audio_entry :: "u32 \<Rightarrow> u32 \<Rightarrow> u32 \<Rightarrow> nat \<Rightarrow> expected_stream" where
  "audio_entry room_index peer_count packets index =
     \<lparr>es_source = of_nat (source_number room_index peer_count index), es_kind = Audio, es_layer = None,
      es_seen = replicate (unat packets) False, es_next_ordinal = 0\<rparr>"

definition video_entry :: "u32 \<Rightarrow> u32 \<Rightarrow> nat \<Rightarrow> nat \<Rightarrow> nat option \<Rightarrow> nat \<Rightarrow> expected_stream" where
  "video_entry room_index peer_count low high featured index =
     \<lparr>es_source = of_nat (source_number room_index peer_count index), es_kind = Video,
      es_layer = Some (if featured = Some index then High else Low),
      es_seen = replicate (if featured = Some index then high else low) False, es_next_ordinal = 0\<rparr>"

lemma audio_streams_closed:
  assumes "0 < unat packets" "\<forall>x \<in> set xs. source_number room_index peer_count (unat x) < 2 ^ 16"
  shows "audio_streams_from room_index peer_count peer packets xs =
    Inr (map (audio_entry room_index peer_count packets) (filter (\<lambda>k. k \<noteq> peer) (map unat xs)))"
  using assms(2)
proof (induction xs)
  case Nil
  then show ?case by simp
next
  case (Cons x xs)
  have "packets > 0" using assms(1) by (simp add: word_less_nat_alt)
  then have "audio_stream s packets = Inr \<lparr>es_source = s, es_kind = Audio, es_layer = None,
      es_seen = replicate (unat packets) False, es_next_ordinal = 0\<rparr>" for s
    by (simp add: audio_stream_def new_stream_def)
  then show ?case using Cons source_id_ok [of room_index peer_count "unat x"]
    by (simp add: audio_entry_def)
qed

lemma video_streams_closed:
  assumes "0 < unat low" "0 < unat high" "unat low < 2 ^ 32" "unat high < 2 ^ 32"
    and "\<forall>x \<in> set xs. source_number room_index peer_count (unat x) < 2 ^ 16"
  shows "video_streams_from featured room_index peer_count peer low high xs =
    Inr (map (video_entry room_index peer_count (unat low) (unat high) (map_option unat featured))
      (filter (\<lambda>k. k \<noteq> peer) (map unat xs)))"
  using assms(5)
proof (induction xs)
  case Nil
  then show ?case by simp
next
  case (Cons x xs)
  have "(try_to (unat n) :: u32 option) = Some (of_nat (unat n)) \<and> unat (of_nat (unat n) :: u32) = unat n"
    if "unat n < 2 ^ 32" for n :: u64
    using that by (simp only: try_to_def unat_of_nat) simp
  then have t: "ok_or ''video packet count exceeds u32'' (try_to (unat n) :: u32 option) = Inr (of_nat (unat n))"
    "unat (of_nat (unat n) :: u32) = unat n" if "unat n < 2 ^ 32" for n :: u64
    using that by simp_all
  have v: "video_stream s layer (of_nat (unat n)) = Inr \<lparr>es_source = s, es_kind = Video,
      es_layer = Some layer, es_seen = replicate (unat n) False, es_next_ordinal = 0\<rparr>"
    if "0 < unat n" "unat n < 2 ^ 32" for s layer and n :: u64
    using t(2) [OF that(2)] that by (simp add: video_stream_def new_stream_def word_less_nat_alt)
  have m: "map_option unat featured = Some (unat x) \<longleftrightarrow> featured = Some x"
    by (cases featured) (auto simp: word_eq_unat_iff)
  show ?case
  proof (cases "unat x = peer")
    case True
    then show ?thesis using Cons by simp
  next
    case False
    then show ?thesis
      using Cons source_id_ok [of room_index peer_count "unat x"] assms(1-4) t v m
      by (simp add: video_entry_def Let_def)
  qed
qed

lemma expected_audio_closed:
  assumes "0 < unat packets" "source_number room_index peer_count (unat publishers) \<le> 2 ^ 16"
  shows "expected_audio_streams room_index peer_count publishers peer packets =
    Inr (map (audio_entry room_index peer_count packets) (filter (\<lambda>k. k \<noteq> peer) [0..<unat publishers]))"
  using assms audio_streams_closed [of packets "u32_range publishers" room_index peer_count peer]
  by (force simp: expected_audio_streams_def unat_u32_range u32_range_index source_number_def)

lemma expected_video_closed:
  assumes "0 < unat low" "0 < unat high" "unat low < 2 ^ 32" "unat high < 2 ^ 32"
    and "source_number room_index peer_count (unat publishers) \<le> 2 ^ 16"
  shows "expected_video_streams room_index peer_count publishers peer low high =
    Inr (map (video_entry room_index peer_count (unat low) (unat high)
        (map_option unat (featured_source peer publishers)))
      (filter (\<lambda>k. k \<noteq> peer) [0..<unat publishers]))"
  using assms video_streams_closed [OF assms(1-4), of "u32_range publishers" room_index peer_count]
  by (force simp: expected_video_streams_def unat_u32_range u32_range_index source_number_def)

end
