(* ===== verification/PlanLedger.thy ===== *)
theory PlanLedger
  imports Rooms
begin

text \<open>
  The plan of \<open>src/model.rs\<close> against the peers of \<open>src/client/scenario.rs\<close>: summed over the rooms and
  peers of a bounded specification, what the ledgers expect is what the plan says is delivered, in
  packets and in bytes, and what the sources send is what the plan says is offered.
\<close>

section \<open>Counting the routes of a room\<close>

definition others :: "nat \<Rightarrow> nat \<Rightarrow> nat" where
  "others M peer = (if peer < M then M - 1 else M)"

lemma length_others: "length (filter (\<lambda>k. k \<noteq> peer) [0..<M]) = others M peer"
proof (induction M)
  case 0
  then show ?case by (simp add: others_def)
next
  case (Suc M)
  then show ?case by (auto simp: others_def)
qed

lemma sum_others: "M \<le> N \<Longrightarrow> (\<Sum>peer<N. others M peer) = M * (N - 1)"
proof -
  assume h: "M \<le> N"
  have "(\<Sum>peer<N. others M peer) = (\<Sum>peer<M. M - 1) + (\<Sum>peer\<in>{M..<N}. M)"
  proof -
    have u: "{..<N} = {..<M} \<union> {M..<N}" using h by auto
    have d: "finite {..<M}" "finite {M..<N}" "{..<M} \<inter> {M..<N} = {}" by auto
    have "sum (others M) {..<M} = (\<Sum>peer<M. M - 1)" "sum (others M) {M..<N} = (\<Sum>peer\<in>{M..<N}. M)"
      by (rule sum.cong; auto simp: others_def)+
    then show ?thesis unfolding u using sum.union_disjoint [OF d, of "others M"] by (simp only:)
  qed
  also have "\<dots> = M * (M - 1) + (N - M) * M" by simp
  also have "\<dots> = M * (N - 1)"
  proof (cases M)
    case 0
    then show ?thesis by simp
  next
    case (Suc m)
    then obtain d where "N = M + d" using h le_Suc_ex by blast
    then show ?thesis using Suc by (simp add: algebra_simps)
  qed
  finally show ?thesis .
qed

definition featured_count :: "u32 \<Rightarrow> nat \<Rightarrow> nat" where
  "featured_count m peer = (if featured_source peer m = None then 0 else 1)"

lemma featured_count_eq:
  "unat m \<noteq> 0 \<Longrightarrow> featured_count m peer = (if unat m > 1 \<or> peer > 0 then 1 else 0)"
  using featured_exists [of peer m] by (cases "featured_source peer m") (auto simp: featured_count_def)

lemma sum_featured:
  assumes "unat m \<noteq> 0"
  shows "(\<Sum>peer<N. featured_count m peer) = high_routes N (unat m)"
proof (cases "unat m = 1")
  case True
  have "(\<Sum>peer<N. featured_count m peer) = (\<Sum>peer<N. if peer > 0 then 1 else 0)"
    using featured_count_eq [OF assms] True by simp
  also have "\<dots> = N - 1" by (induction N) auto
  finally show ?thesis using True by (simp add: high_routes_def)
next
  case False
  then have "featured_count m peer = 1" for peer using featured_count_eq [OF assms, of peer] assms by simp
  then show ?thesis using False by (simp add: high_routes_def)
qed

lemma featured_count_le:
  assumes "unat m \<noteq> 0"
  shows "featured_count m peer \<le> others (unat m) peer"
  using assms featured_count_eq [OF assms, of peer] by (auto simp: others_def)

text \<open>Summing over the other cameras, with one value for the featured one.\<close>

lemma sum_list_one:
  assumes "f \<in> set xs" "distinct xs"
  shows "sum_list (map (\<lambda>k. if k = f then a else b) xs) = a + (length xs - 1) * (b :: nat)"
  using assms
proof (induction xs)
  case Nil
  then show ?case by simp
next
  case (Cons x xs)
  show ?case
  proof (cases "x = f")
    case True
    then have "map (\<lambda>k. if k = f then a else b) xs = map (\<lambda>k. b) xs" using Cons.prems by auto
    then have "sum_list (map (\<lambda>k. if k = f then a else b) xs) = length xs * b"
      by (simp only: sum_list_triv of_nat_id)
    then show ?thesis using True by (simp only: list.map sum_list.Cons if_True refl) simp
  next
    case False
    then have "f \<in> set xs" using Cons.prems by simp
    moreover from this have "length xs > 0" by auto
    ultimately show ?thesis using Cons False by (simp add: algebra_simps) (cases "length xs"; simp)
  qed
qed

lemma sum_camera_values:
  assumes "unat m \<noteq> 0"
  shows "sum_list (map (\<lambda>k. if map_option unat (featured_source peer m) = Some k then a else b)
      (filter (\<lambda>k. k \<noteq> peer) [0..<unat m]))
    = featured_count m peer * a + (others (unat m) peer - featured_count m peer) * b"
proof (cases "featured_source peer m")
  case None
  then show ?thesis by (simp add: featured_count_def sum_list_triv length_others)
next
  case (Some f)
  have "unat f \<in> set (filter (\<lambda>k. k \<noteq> peer) [0..<unat m])" using featured_ok [OF Some] by simp
  from sum_list_one [OF this, of a b] have
    "sum_list (map (\<lambda>k. if k = unat f then a else b) (filter (\<lambda>k. k \<noteq> peer) [0..<unat m]))
      = a + (others (unat m) peer - 1) * b"
    by (simp add: length_others)
  moreover have "(\<lambda>k. if map_option unat (featured_source peer m) = Some k then a else b)
      = (\<lambda>k. if k = unat f then a else b)"
    using Some by auto
  ultimately show ?thesis using Some by (simp only:) (simp add: featured_count_def)
qed

section \<open>Bytes a stream expects\<close>

definition stream_payload_len :: "expected_stream \<Rightarrow> nat" where
  "stream_payload_len s =
     (case es_layer s of None \<Rightarrow> AUDIO_PACKET_PAYLOAD_BYTES | Some layer \<Rightarrow> packet_payload_len layer)"

definition expected_bytes :: "expected_stream list \<Rightarrow> nat" where
  "expected_bytes streams = sum_list (map (\<lambda>s. length (es_seen s) * stream_payload_len s) streams)"

lemma expected_append [simp]:
  "expected_packets (a @ b) = expected_packets a + expected_packets b"
  "expected_bytes (a @ b) = expected_bytes a + expected_bytes b"
  by (simp_all add: expected_packets_def expected_bytes_def)

lemma audio_entries_expected:
  "expected_packets (map (audio_entry r n packets) ks) = length ks * unat packets"
  "expected_bytes (map (audio_entry r n packets) ks) = length ks * unat packets * 80"
  by (simp_all add: expected_packets_def expected_bytes_def audio_entry_def stream_payload_len_def
      sum_list_triv o_def model_consts)

lemma video_entries_expected:
  assumes "unat m \<noteq> 0"
  shows "expected_packets (map (video_entry r n low high (map_option unat (featured_source peer m)))
      (filter (\<lambda>k. k \<noteq> peer) [0..<unat m]))
    = featured_count m peer * high + (others (unat m) peer - featured_count m peer) * low"
  and "expected_bytes (map (video_entry r n low high (map_option unat (featured_source peer m)))
      (filter (\<lambda>k. k \<noteq> peer) [0..<unat m]))
    = featured_count m peer * (high * 1100) + (others (unat m) peer - featured_count m peer) * (low * 600)"
proof -
  let ?F = "map_option unat (featured_source peer m)"
  have p: "length (es_seen (video_entry r n low high ?F k)) = (if ?F = Some k then high else low)" for k
    by (simp add: video_entry_def)
  have b: "length (es_seen (video_entry r n low high ?F k)) * stream_payload_len (video_entry r n low high ?F k)
      = (if ?F = Some k then high * 1100 else low * 600)" for k
    by (cases "?F = Some k")
       (simp_all add: video_entry_def stream_payload_len_def model_consts del: map_option_eq_Some)
  show "expected_packets (map (video_entry r n low high ?F) (filter (\<lambda>k. k \<noteq> peer) [0..<unat m]))
    = featured_count m peer * high + (others (unat m) peer - featured_count m peer) * low"
    unfolding expected_packets_def map_map o_def p by (rule sum_camera_values [OF assms])
  show "expected_bytes (map (video_entry r n low high ?F) (filter (\<lambda>k. k \<noteq> peer) [0..<unat m]))
    = featured_count m peer * (high * 1100) + (others (unat m) peer - featured_count m peer) * (low * 600)"
    unfolding expected_bytes_def map_map o_def b by (rule sum_camera_values [OF assms])
qed

lemma sum_camera_rooms:
  assumes "unat m \<noteq> 0" "unat m \<le> N"
  shows "(\<Sum>peer<N. featured_count m peer * a + (others (unat m) peer - featured_count m peer) * b)
    = high_routes N (unat m) * a + low_routes N (unat m) * b"
proof -
  have "(\<Sum>peer<N. featured_count m peer * a + (others (unat m) peer - featured_count m peer) * b)
    = (\<Sum>peer<N. featured_count m peer) * a + (\<Sum>peer<N. others (unat m) peer - featured_count m peer) * b"
    by (simp add: sum.distrib sum_distrib_right)
  also have "(\<Sum>peer<N. others (unat m) peer - featured_count m peer)
    = (\<Sum>peer<N. others (unat m) peer) - (\<Sum>peer<N. featured_count m peer)"
    by (rule sum_subtractf_nat) (rule featured_count_le [OF assms(1)])
  finally show ?thesis
    by (simp add: sum_others [OF assms(2)] sum_featured [OF assms(1)] low_routes_def)
qed

section \<open>The peers of a bounded specification\<close>

lemma audio_room_peer_closed:
  assumes "0 < unat packets" "source_number room n (unat publishers) \<le> 2 ^ 16"
    and "source_number room n peer < 2 ^ 16"
  shows "audio_room_peer room n publishers packets peer =
    Inr (audio_media (when_publisher peer publishers (new_audio_source (of_nat (source_number room n peer))))
           packets,
         new_ledger (map (audio_entry room n packets) (filter (\<lambda>k. k \<noteq> peer) [0..<unat publishers])))"
  using assms by (simp add: audio_room_peer_def source_id_ok expected_audio_closed)

lemma seconds_mul:
  assumes "unat (seconds :: u32) \<le> 3600" "unat (r :: u32) \<le> 50"
  shows "\<exists>k. checked_mul seconds r = Some k \<and> unat k = unat seconds * unat r"
proof -
  have "unat seconds * unat r \<le> 3600 * 50" using assms by (rule mult_le_mono)
  then have "checked_mul seconds r = Some (seconds * r)" by (simp add: checked_mul_def)
  then show ?thesis by (auto simp: checked_iff)
qed

lemma video_packets_pos:
  assumes "1 \<le> s" "s \<le> 3600"
  shows "0 < low_packets_in s" "0 < high_packets_in s" "low_packets_in s < 2 ^ 32" "high_packets_in s < 2 ^ 32"
  using assms packets_in_le [OF assms(2)] by (simp_all add: low_packets_in_def high_packets_in_def)

definition video_entries :: "u32 \<Rightarrow> u32 \<Rightarrow> nat \<Rightarrow> u32 \<Rightarrow> nat \<Rightarrow> expected_stream list" where
  "video_entries room n seconds publishers peer =
     map (video_entry room n (low_packets_in seconds) (high_packets_in seconds)
         (map_option unat (featured_source peer publishers)))
       (filter (\<lambda>k. k \<noteq> peer) [0..<unat publishers])"

lemma video_streams_of_seconds:
  assumes "1 \<le> unat seconds" "unat seconds \<le> 3600"
    and "source_number room n (unat publishers) \<le> 2 ^ 16"
  obtains low high where "video_packets_per_layer seconds = Inr (low, high)"
    "expected_video_streams room n publishers peer low high
       = Inr (video_entries room n (unat seconds) publishers peer)"
proof -
  obtain low high where v: "video_packets_per_layer seconds = Inr (low, high)"
    "unat low = low_packets_in (unat seconds)" "unat high = high_packets_in (unat seconds)"
    using video_packets_per_layer_ok [of seconds] by blast
  then show ?thesis
    using that [OF v(1)] expected_video_closed [of low high room n publishers peer]
      video_packets_pos [OF assms(1,2)] assms(3)
    by (simp add: video_entries_def)
qed

lemma video_room_peer_closed:
  assumes "1 \<le> unat seconds" "unat seconds \<le> 3600"
    and "source_number room n (unat publishers) \<le> 2 ^ 16" "source_number room n peer < 2 ^ 16"
  shows "\<exists>frames. unat frames = 30 * unat seconds \<and>
    video_room_peer room n publishers seconds peer =
      Inr (video_media (when_publisher peer publishers
             (new_video_source (of_nat (source_number room n peer)))) frames,
           new_ledger (video_entries room n (unat seconds) publishers peer))"
proof -
  obtain low high where v: "video_packets_per_layer seconds = Inr (low, high)"
    "expected_video_streams room n publishers peer low high
       = Inr (video_entries room n (unat seconds) publishers peer)"
    by (rule video_streams_of_seconds [OF assms(1-3)])
  obtain frames where f: "checked_mul seconds VIDEO_FRAMES_PER_SECOND = Some frames"
    "unat frames = unat seconds * 30"
    using seconds_mul [OF assms(2), of VIDEO_FRAMES_PER_SECOND] by (auto simp: model_consts)
  show ?thesis
    using v f source_id_ok [OF assms(4)] by (intro exI [of _ frames]) (simp add: video_room_peer_def)
qed

lemma mixed_room_peer_closed:
  assumes "1 \<le> unat seconds" "unat seconds \<le> 3600"
    and "source_number room n (unat aps) \<le> 2 ^ 16" "source_number room n (unat vps) \<le> 2 ^ 16"
    and "source_number room n peer < 2 ^ 16"
  shows "\<exists>packets frames index. unat packets = 50 * unat seconds \<and> unat frames = 30 * unat seconds \<and>
    mixed_room_peer room n aps vps seconds peer =
      Inr (mixed_media
             (when_publisher peer aps
                (staggered_audio_source (of_nat (source_number room n peer)) index aps)) packets
             (when_publisher peer vps
                (staggered_video_source (of_nat (source_number room n peer)) index vps)) frames,
           new_ledger (map (audio_entry room n packets) (filter (\<lambda>k. k \<noteq> peer) [0..<unat aps])
             @ video_entries room n (unat seconds) vps peer))"
proof -
  obtain low high where v: "video_packets_per_layer seconds = Inr (low, high)"
    "expected_video_streams room n vps peer low high
       = Inr (video_entries room n (unat seconds) vps peer)"
    by (rule video_streams_of_seconds [OF assms(1,2,4)])
  obtain frames where f: "checked_mul seconds VIDEO_FRAMES_PER_SECOND = Some frames"
    "unat frames = unat seconds * 30"
    using seconds_mul [OF assms(2), of VIDEO_FRAMES_PER_SECOND] by (auto simp: model_consts)
  obtain packets where p: "checked_mul seconds AUDIO_PACKETS_PER_SECOND = Some packets"
    "unat packets = unat seconds * 50"
    using seconds_mul [OF assms(2), of AUDIO_PACKETS_PER_SECOND] by (auto simp: model_consts)
  have "peer < 2 ^ 32" using assms(5) by (simp add: source_number_def)
  then have i: "(try_to peer :: u32 option) = Some (of_nat peer)" by (simp add: try_to_def)
  have "0 < unat packets" using p(2) assms(1) by simp
  note a = expected_audio_closed [OF this assms(3), of peer]
  show ?thesis
    using v f p i a source_id_ok [OF assms(5)]
    by (intro exI [of _ packets] exI [of _ frames] exI [of _ "of_nat peer"])
       (simp add: mixed_room_peer_def Let_def)
qed

text \<open>The rooms and peers of a specification, as numbers.\<close>

definition rooms_of :: "scenario_spec \<Rightarrow> nat" where
  "rooms_of spec = unat (room_count spec)"

definition peers_of :: "scenario_spec \<Rightarrow> nat" where
  "peers_of spec = unat (peers_per_room spec)"

definition peer_streams :: "scenario_spec \<Rightarrow> nat \<Rightarrow> nat \<Rightarrow> expected_stream list" where
  "peer_streams spec room peer =
     (case scenario_peer spec (of_nat room) peer of
        Inl _ \<Rightarrow> [] | Inr (media, ledger) \<Rightarrow> lg_streams ledger)"

definition no_media :: peer_media where
  "no_media = mixed_media None 0 None 0"

definition media_of_peer :: "scenario_spec \<Rightarrow> nat \<Rightarrow> nat \<Rightarrow> peer_media" where
  "media_of_peer spec room peer =
     (case scenario_peer spec (of_nat room) peer of
        Inl _ \<Rightarrow> no_media | Inr (media, ledger) \<Rightarrow> media)"

lemma source_number_small:
  assumes "room < 64" "unat n \<le> 100" "k \<le> 100"
  shows "source_number (of_nat room) n k < 2 ^ 16"
proof -
  have u: "unat (of_nat room :: u32) = room" using assms(1) by (simp add: unat_of_nat)
  have "room * unat n \<le> 63 * 100" using assms(1,2) by (intro mult_le_mono) simp_all
  then show ?thesis using assms(3) u by (simp add: source_number_def)
qed

lemma bounded_nat:
  "bounded_spec (Smoke a b) \<longleftrightarrow> 1 \<le> unat a \<and> unat a \<le> 99 \<and> 1 \<le> unat b \<and> unat b \<le> 180000"
  "bounded_spec (AudioMesh a b c) \<longleftrightarrow>
     1 \<le> unat a \<and> unat a \<le> 64 \<and> 2 \<le> unat b \<and> unat b \<le> 100 \<and> 1 \<le> unat c \<and> unat c \<le> 3600"
  "bounded_spec (VideoGallery a b d c) \<longleftrightarrow>
     1 \<le> unat a \<and> unat a \<le> 64 \<and> 3 \<le> unat b \<and> unat b \<le> 100 \<and> 0 < unat d \<and> unat d \<le> unat b \<and>
     unat d \<le> 10 \<and> 1 \<le> unat c \<and> unat c \<le> 3600"
  "bounded_spec (MixedConference a b d e c) \<longleftrightarrow>
     1 \<le> unat a \<and> unat a \<le> 64 \<and> 3 \<le> unat b \<and> unat b \<le> 100 \<and> 0 < unat d \<and> unat d \<le> unat b \<and>
     0 < unat e \<and> unat e \<le> unat d \<and> unat e \<le> 10 \<and> 1 \<le> unat c \<and> unat c \<le> 3600"
  by (simp_all add: word_le_nat_alt word_less_nat_alt)

lemma smoke_peers: "unat (r :: u32) \<le> 99 \<Longrightarrow> unat (r + 1) = unat r + 1"
  by (simp add: unat_word_ariths)

section \<open>The streams of every peer\<close>

text \<open>The expected streams in closed form; \<open>spec_audio\<close> and \<open>spec_video\<close> are publishers of a room.\<close>

fun spec_audio_packets :: "scenario_spec \<Rightarrow> nat" where
  "spec_audio_packets (Smoke _ packets) = unat packets"
| "spec_audio_packets spec = 50 * unat (duration_seconds spec)"

text \<open>A media as a room sets it up: audio and video counts of a publisher, ordinals still at zero.\<close>

definition media_counts :: "peer_media \<Rightarrow> bool \<Rightarrow> nat \<Rightarrow> bool \<Rightarrow> nat \<Rightarrow> u16 \<Rightarrow> bool" where
  "media_counts m audio packets video seconds source \<longleftrightarrow>
     (pm_audio m \<noteq> None \<longleftrightarrow> audio) \<and> (audio \<longrightarrow> unat (pm_audio_packet_count m) = packets) \<and>
     (pm_video m \<noteq> None \<longleftrightarrow> video) \<and> (video \<longrightarrow> unat (pm_video_frame_count m) = 30 * seconds) \<and>
     (\<forall>s. pm_audio m = Some s \<longrightarrow> as_source s = source) \<and>
     (\<forall>s. pm_video m = Some s \<longrightarrow> vs_source s = source
        \<and> vs_measured_low_ordinal s = 0 \<and> vs_measured_high_ordinal s = 0)"

lemma room_media_counts:
  assumes "unat packets = n"
  shows "media_counts (audio_media (when_publisher peer publishers (new_audio_source source)) packets)
      (peer < unat publishers) n False seconds source"
    and "unat frames = 30 * seconds \<Longrightarrow>
      media_counts (video_media (when_publisher peer publishers (new_video_source source)) frames)
      False n (peer < unat publishers) seconds source"
    and "unat frames = 30 * seconds \<Longrightarrow> media_counts (mixed_media
        (when_publisher peer aps (staggered_audio_source source index aps)) packets
        (when_publisher peer vps (staggered_video_source source index vps)) frames)
      (peer < unat aps) n (peer < unat vps) seconds source"
  using assms
  by (auto simp: media_counts_def audio_media_def video_media_def mixed_media_def when_publisher_def
      new_audio_source_def new_video_source_def staggered_audio_source_def staggered_video_source_def)

lemma scenario_peer_bounded:
  assumes "bounded_spec spec" "room < rooms_of spec" "peer < peers_of spec"
  shows "\<exists>media packets.
    scenario_peer spec (of_nat room) peer = Inr (media, new_ledger
      (map (audio_entry (of_nat room) (peers_per_room spec) packets)
         (filter (\<lambda>k. k \<noteq> peer) [0..<unat (audio_publishers_per_room spec)])
       @ video_entries (of_nat room) (peers_per_room spec) (unat (duration_seconds spec))
           (video_publishers_per_room spec) peer)) \<and>
    unat packets = spec_audio_packets spec \<and>
    media_counts media (peer < unat (audio_publishers_per_room spec)) (spec_audio_packets spec)
      (peer < unat (video_publishers_per_room spec)) (unat (duration_seconds spec))
      (of_nat (source_number (of_nat room) (peers_per_room spec) peer))"
proof (cases spec)
  case (Smoke receivers packets)
  have b: "unat receivers \<le> 99" "1 \<le> unat packets" "unat (receivers + 1) = unat receivers + 1"
    using assms(1) Smoke smoke_peers by (simp_all add: bounded_nat del: bounded_spec.simps)
  have r: "room < 64" "peer \<le> 100" using assms(2,3) Smoke b by (simp_all add: rooms_of_def peers_of_def)
  have "scenario_peer spec (of_nat room) peer = Inr
      (audio_media (when_publisher peer 1 (new_audio_source (of_nat (source_number (of_nat room) (receivers + 1) peer)))) packets,
       new_ledger (map (audio_entry (of_nat room) (receivers + 1) packets) (filter (\<lambda>k. k \<noteq> peer) [0..<unat (1 :: u32)])))"
    using audio_room_peer_closed [of packets "of_nat room" "receivers + 1" 1 peer]
      source_number_small [of room "receivers + 1" 1] source_number_small [of room "receivers + 1" peer]
      b r Smoke by simp
  moreover have "media_counts
      (audio_media (when_publisher peer 1 (new_audio_source (of_nat (source_number (of_nat room) (receivers + 1) peer)))) packets)
      (peer < 1) (unat packets) False (unat (duration_seconds spec))
      (of_nat (source_number (of_nat room) (receivers + 1) peer))"
    using room_media_counts(1) [OF refl, of peer 1] by simp
  ultimately show ?thesis using Smoke
    by (intro exI conjI) (assumption | simp add: video_entries_def)+
next
  case (AudioMesh rooms peers seconds)
  have b: "unat rooms \<le> 64" "unat peers \<le> 100" "1 \<le> unat seconds" "unat seconds \<le> 3600"
    using assms(1) AudioMesh by (simp_all add: bounded_nat del: bounded_spec.simps)
  have r: "room < 64" "peer \<le> 100" using assms(2,3) AudioMesh b by (simp_all add: rooms_of_def peers_of_def)
  obtain packets where p: "checked_mul seconds AUDIO_PACKETS_PER_SECOND = Some packets"
    "unat packets = unat seconds * 50"
    using seconds_mul [OF b(4), of AUDIO_PACKETS_PER_SECOND] by (auto simp: model_consts)
  have "scenario_peer spec (of_nat room) peer = Inr
      (audio_media (when_publisher peer peers (new_audio_source (of_nat (source_number (of_nat room) peers peer)))) packets,
       new_ledger (map (audio_entry (of_nat room) peers packets) (filter (\<lambda>k. k \<noteq> peer) [0..<unat peers])))"
    using audio_room_peer_closed [of packets "of_nat room" peers peers peer]
      source_number_small [of room peers "unat peers"] source_number_small [of room peers peer]
      b r p AudioMesh by simp
  moreover have "unat packets = 50 * unat seconds" using p(2) by simp
  moreover have "media_counts
      (audio_media (when_publisher peer peers (new_audio_source (of_nat (source_number (of_nat room) peers peer)))) packets)
      (peer < unat peers) (50 * unat seconds) False (unat (duration_seconds spec))
      (of_nat (source_number (of_nat room) peers peer))"
    using p(2) by (intro room_media_counts(1)) simp
  ultimately show ?thesis using AudioMesh
    by (intro exI conjI) (assumption | simp add: video_entries_def)+
next
  case (VideoGallery rooms peers publishers seconds)
  have b: "unat rooms \<le> 64" "unat peers \<le> 100" "unat publishers \<le> 10" "1 \<le> unat seconds" "unat seconds \<le> 3600"
    using assms(1) VideoGallery by (simp_all add: bounded_nat del: bounded_spec.simps)
  have r: "room < 64" "peer \<le> 100" using assms(2,3) VideoGallery b by (simp_all add: rooms_of_def peers_of_def)
  obtain packets :: u32 where p: "unat packets = 50 * unat seconds"
    using seconds_mul [OF b(5), of 50] by (auto simp: mult.commute)
  let ?s = "of_nat (source_number (of_nat room) peers peer)"
  obtain frames where f: "unat frames = 30 * unat seconds"
    "video_room_peer (of_nat room) peers publishers seconds peer =
      Inr (video_media (when_publisher peer publishers (new_video_source ?s)) frames,
           new_ledger (video_entries (of_nat room) peers (unat seconds) publishers peer))"
    using video_room_peer_closed [of seconds "of_nat room" peers publishers peer]
      source_number_small [of room peers "unat publishers"] source_number_small [of room peers peer] b r
    by auto
  have "media_counts (video_media (when_publisher peer publishers (new_video_source ?s)) frames)
      False (50 * unat seconds) (peer < unat publishers) (unat seconds) ?s"
    by (rule room_media_counts(2) [OF p f(1)])
  then show ?thesis using f(2) p VideoGallery
    by (intro exI [of _ "video_media (when_publisher peer publishers (new_video_source ?s)) frames"]
        exI [of _ packets]) simp
next
  case (MixedConference rooms peers aps vps seconds)
  have b: "unat rooms \<le> 64" "unat peers \<le> 100" "unat aps \<le> 100" "unat vps \<le> 100" "1 \<le> unat seconds" "unat seconds \<le> 3600"
    using assms(1) MixedConference by (simp_all add: bounded_nat del: bounded_spec.simps)
  have r: "room < 64" "peer \<le> 100" using assms(2,3) MixedConference b by (simp_all add: rooms_of_def peers_of_def)
  let ?s = "of_nat (source_number (of_nat room) peers peer)"
  let ?m = "\<lambda>packets frames index. mixed_media
      (when_publisher peer aps (staggered_audio_source ?s index aps)) packets
      (when_publisher peer vps (staggered_video_source ?s index vps)) frames"
  obtain packets frames index where f: "unat packets = 50 * unat seconds" "unat frames = 30 * unat seconds"
    "mixed_room_peer (of_nat room) peers aps vps seconds peer = Inr (?m packets frames index,
       new_ledger (map (audio_entry (of_nat room) peers packets) (filter (\<lambda>k. k \<noteq> peer) [0..<unat aps])
         @ video_entries (of_nat room) peers (unat seconds) vps peer))"
    using mixed_room_peer_closed [of seconds "of_nat room" peers aps vps peer]
      source_number_small [of room peers "unat aps"] source_number_small [of room peers "unat vps"]
      source_number_small [of room peers peer] b r by auto
  have "media_counts (?m packets frames index) (peer < unat aps) (50 * unat seconds)
      (peer < unat vps) (unat seconds) ?s"
    by (rule room_media_counts(3) [OF f(1,2)])
  then show ?thesis using f MixedConference
    by (intro exI [of _ "?m packets frames index"] exI [of _ packets]) simp
qed

lemma peer_streams_bounded:
  assumes "bounded_spec spec" "room < rooms_of spec" "peer < peers_of spec"
  shows "\<exists>packets. unat packets = spec_audio_packets spec \<and>
    peer_streams spec room peer =
      map (audio_entry (of_nat room) (peers_per_room spec) packets)
         (filter (\<lambda>k. k \<noteq> peer) [0..<unat (audio_publishers_per_room spec)])
       @ video_entries (of_nat room) (peers_per_room spec) (unat (duration_seconds spec))
           (video_publishers_per_room spec) peer"
  using scenario_peer_bounded [OF assms] by (auto simp: peer_streams_def new_ledger_def)

definition video_packets_expected :: "scenario_spec \<Rightarrow> nat \<Rightarrow> nat \<Rightarrow> nat \<Rightarrow> nat" where
  "video_packets_expected spec peer high low =
     (let m = video_publishers_per_room spec in
      if unat m = 0 then 0
      else featured_count m peer * high + (others (unat m) peer - featured_count m peer) * low)"

lemma peer_expected:
  assumes "bounded_spec spec" "room < rooms_of spec" "peer < peers_of spec"
  shows "expected_packets (peer_streams spec room peer) =
      others (unat (audio_publishers_per_room spec)) peer * spec_audio_packets spec
      + video_packets_expected spec peer (high_packets_in (unat (duration_seconds spec)))
          (low_packets_in (unat (duration_seconds spec)))"
    and "expected_bytes (peer_streams spec room peer) =
      others (unat (audio_publishers_per_room spec)) peer * (spec_audio_packets spec * 80)
      + video_packets_expected spec peer (high_packets_in (unat (duration_seconds spec)) * 1100)
          (low_packets_in (unat (duration_seconds spec)) * 600)"
proof -
  obtain packets where p: "unat packets = spec_audio_packets spec"
    "peer_streams spec room peer =
      map (audio_entry (of_nat room) (peers_per_room spec) packets)
         (filter (\<lambda>k. k \<noteq> peer) [0..<unat (audio_publishers_per_room spec)])
       @ video_entries (of_nat room) (peers_per_room spec) (unat (duration_seconds spec))
           (video_publishers_per_room spec) peer"
    using peer_streams_bounded [OF assms] by blast
  show "expected_packets (peer_streams spec room peer) =
      others (unat (audio_publishers_per_room spec)) peer * spec_audio_packets spec
      + video_packets_expected spec peer (high_packets_in (unat (duration_seconds spec)))
          (low_packets_in (unat (duration_seconds spec)))"
    unfolding p(2) expected_append audio_entries_expected length_others p(1) video_entries_def
      video_packets_expected_def Let_def
    using video_entries_expected(1) [of "video_publishers_per_room spec"]
    by (cases "unat (video_publishers_per_room spec) = 0") (simp_all add: expected_packets_def [of "[]"])
  show "expected_bytes (peer_streams spec room peer) =
      others (unat (audio_publishers_per_room spec)) peer * (spec_audio_packets spec * 80)
      + video_packets_expected spec peer (high_packets_in (unat (duration_seconds spec)) * 1100)
          (low_packets_in (unat (duration_seconds spec)) * 600)"
    unfolding p(2) expected_append audio_entries_expected length_others p(1) video_entries_def
      video_packets_expected_def Let_def
    using video_entries_expected(2) [of "video_publishers_per_room spec"]
    by (cases "unat (video_publishers_per_room spec) = 0") (simp_all add: expected_bytes_def [of "[]"])
qed

section \<open>Sums over rooms and peers\<close>

text \<open>Deliveries of one room: audio routes and camera routes.\<close>

definition room_deliveries :: "scenario_spec \<Rightarrow> nat \<Rightarrow> nat \<Rightarrow> nat \<Rightarrow> nat" where
  "room_deliveries spec audio high low =
     unat (audio_publishers_per_room spec) * (peers_of spec - 1) * audio
     + (if unat (video_publishers_per_room spec) = 0 then 0
        else high_routes (peers_of spec) (unat (video_publishers_per_room spec)) * high
          + low_routes (peers_of spec) (unat (video_publishers_per_room spec)) * low)"

lemma publishers_le:
  assumes "bounded_spec spec"
  shows "unat (audio_publishers_per_room spec) \<le> peers_of spec"
    "unat (video_publishers_per_room spec) \<le> peers_of spec"
  using assms smoke_peers
  by (cases spec; auto simp: peers_of_def bounded_nat simp del: bounded_spec.simps)+

lemma sum_room:
  assumes "bounded_spec spec"
  shows "(\<Sum>peer<peers_of spec. others (unat (audio_publishers_per_room spec)) peer * a
      + video_packets_expected spec peer high low) = room_deliveries spec a high low"
proof -
  have a: "(\<Sum>peer<peers_of spec. others (unat (audio_publishers_per_room spec)) peer * a)
      = unat (audio_publishers_per_room spec) * (peers_of spec - 1) * a"
    using sum_others [OF publishers_le(1) [OF assms]] by (simp add: sum_distrib_right [symmetric])
  have v: "(\<Sum>peer<peers_of spec. video_packets_expected spec peer high low)
      = (if unat (video_publishers_per_room spec) = 0 then 0
        else high_routes (peers_of spec) (unat (video_publishers_per_room spec)) * high
          + low_routes (peers_of spec) (unat (video_publishers_per_room spec)) * low)"
    using sum_camera_rooms [of "video_publishers_per_room spec" "peers_of spec" high low]
      publishers_le(2) [OF assms]
    by (cases "unat (video_publishers_per_room spec) = 0")
       (simp_all add: video_packets_expected_def Let_def)
  show ?thesis unfolding room_deliveries_def a [symmetric] v [symmetric] by (rule sum.distrib)
qed

lemma plan_deliveries:
  assumes "bounded_spec spec" "plan spec = Inr p"
  shows "unat (wp_expected_deliveries p) = rooms_of spec * room_deliveries spec (spec_audio_packets spec)
      (high_packets_in (unat (duration_seconds spec))) (low_packets_in (unat (duration_seconds spec)))"
    and "unat (wp_expected_delivery_payload_bytes p) = rooms_of spec * room_deliveries spec
      (spec_audio_packets spec * 80)
      (high_packets_in (unat (duration_seconds spec)) * 1100)
      (low_packets_in (unat (duration_seconds spec)) * 600)"
proof -
  have "unat (wp_expected_deliveries p) = rooms_of spec * room_deliveries spec (spec_audio_packets spec)
      (high_packets_in (unat (duration_seconds spec))) (low_packets_in (unat (duration_seconds spec))) \<and>
    unat (wp_expected_delivery_payload_bytes p) = rooms_of spec * room_deliveries spec
      (spec_audio_packets spec * 80)
      (high_packets_in (unat (duration_seconds spec)) * 1100)
      (low_packets_in (unat (duration_seconds spec)) * 600)"
  proof (cases spec)
    case (Smoke receivers packets)
    have "unat (receivers + 1) = unat receivers + 1"
      using assms(1) Smoke smoke_peers by (simp add: bounded_nat del: bounded_spec.simps)
    then show ?thesis using smoke_plan_values [of receivers packets p] assms(2) Smoke
      by (simp add: is_audio_plan_def room_deliveries_def rooms_of_def peers_of_def)
  next
    case (AudioMesh rooms peers seconds)
    then show ?thesis using audio_plan_values(1) [of rooms peers peers seconds p] assms(2)
      by (simp add: is_audio_plan_def room_deliveries_def rooms_of_def peers_of_def mult.assoc mult.commute)
  next
    case (VideoGallery rooms peers publishers seconds)
    have "unat publishers \<noteq> 0" using assms(1) VideoGallery by (simp add: bounded_nat del: bounded_spec.simps)
    then show ?thesis using video_plan_values(1) [of rooms peers publishers seconds p] assms(2) VideoGallery
      by (simp add: is_video_plan_def room_deliveries_def rooms_of_def peers_of_def algebra_simps)
  next
    case (MixedConference rooms peers aps vps seconds)
    have m: "unat vps \<noteq> 0" using assms(1) MixedConference by (simp add: bounded_nat del: bounded_spec.simps)
    obtain a v where av: "audio_plan rooms peers aps seconds = Inr a"
      "video_plan rooms peers vps seconds = Inr v" "plan_sum a v p"
      using mixed_plan_values assms(2) MixedConference by fastforce
    show ?thesis
      using audio_plan_values(1) [OF av(1)] video_plan_values(1) [OF av(2)] av(3) m MixedConference
      by (simp add: is_audio_plan_def is_video_plan_def plan_sum_def room_deliveries_def rooms_of_def
          peers_of_def algebra_simps)
  qed
  then show "unat (wp_expected_deliveries p) = rooms_of spec * room_deliveries spec (spec_audio_packets spec)
      (high_packets_in (unat (duration_seconds spec))) (low_packets_in (unat (duration_seconds spec)))"
    and "unat (wp_expected_delivery_payload_bytes p) = rooms_of spec * room_deliveries spec
      (spec_audio_packets spec * 80)
      (high_packets_in (unat (duration_seconds spec)) * 1100)
      (low_packets_in (unat (duration_seconds spec)) * 600)"
    by simp_all
qed

lemma ledgers_sum_to_plan:
  assumes "bounded_spec spec" "plan spec = Inr p"
  shows "(\<Sum>room<rooms_of spec. \<Sum>peer<peers_of spec. expected_packets (peer_streams spec room peer))
      = unat (wp_expected_deliveries p)"
    and "(\<Sum>room<rooms_of spec. \<Sum>peer<peers_of spec. expected_bytes (peer_streams spec room peer))
      = unat (wp_expected_delivery_payload_bytes p)"
  using plan_deliveries [OF assms] sum_room [OF assms(1)] by (simp_all add: peer_expected [OF assms(1)])

text \<open>
  C4: the plan of a valid specification counts exactly what the peers' ledgers expect: summed over
  all rooms and peers, the expected packets are the plan's deliveries and their payload bytes are the
  plan's delivery bytes, featured and thumbnail layers included.
\<close>

theorem plan_counts_the_ledgers:
  assumes "is_ok (validate_spec spec)" "plan spec = Inr p"
  shows "(\<Sum>room<rooms_of spec. \<Sum>peer<peers_of spec. expected_packets (peer_streams spec room peer))
      = unat (wp_expected_deliveries p) \<and>
    (\<Sum>room<rooms_of spec. \<Sum>peer<peers_of spec. expected_bytes (peer_streams spec room peer))
      = unat (wp_expected_delivery_payload_bytes p)"
  using ledgers_sum_to_plan [OF _ assms(2)] assms(1) by (simp add: validate_spec_iff)

definition small_conference :: scenario_spec where
  "small_conference = MixedConference 2 4 3 2 10"

lemma small_conference_valid: "is_ok (validate_spec small_conference)"
  by (simp add: small_conference_def mixed_conference_def validate_plan_size_def mixed_plan_def
      audio_plan_def video_plan_def video_packets_per_layer_def plan_mul_def plan_add_def byte_count_def
      new_plan_def checked_mul_def checked_add_def checked_sub_def try_to_def u64_from_def div_ceil_def
      model_consts Let_def)

theorem plan_counts_the_ledgers_witness:
  "\<exists>p. plan small_conference = Inr p \<and>
    (\<Sum>room<rooms_of small_conference. \<Sum>peer<peers_of small_conference.
       expected_packets (peer_streams small_conference room peer)) = unat (wp_expected_deliveries p)"
proof -
  have "bounded_spec small_conference" by (simp add: small_conference_def)
  then obtain p where "plan small_conference = Inr p" using bounded_plan_ok by blast
  then show ?thesis using plan_counts_the_ledgers [OF small_conference_valid] by blast
qed

section \<open>Ledgers of a specification are well formed\<close>

lemma peer_streams_fresh:
  assumes "bounded_spec spec" "room < rooms_of spec" "peer < peers_of spec"
  shows "list_all fresh_stream (peer_streams spec room peer)"
proof -
  obtain packets where p: "unat packets = spec_audio_packets spec"
    "peer_streams spec room peer =
      map (audio_entry (of_nat room) (peers_per_room spec) packets)
         (filter (\<lambda>k. k \<noteq> peer) [0..<unat (audio_publishers_per_room spec)])
       @ video_entries (of_nat room) (peers_per_room spec) (unat (duration_seconds spec))
           (video_publishers_per_room spec) peer"
    using peer_streams_bounded [OF assms] by blast
  have s: "0 < spec_audio_packets spec"
    using assms(1) by (cases spec) (auto simp: bounded_nat simp del: bounded_spec.simps)
  have v: "0 < unat (duration_seconds spec) \<or> unat (video_publishers_per_room spec) = 0"
    using assms(1) by (cases spec) (auto simp: bounded_nat simp del: bounded_spec.simps)
  have "fresh_stream (audio_entry r n packets k)" for r n k
    using p(1) s by (simp add: fresh_stream_def audio_entry_def)
  moreover have "fresh_stream (video_entry r n (low_packets_in d) (high_packets_in d) f k)"
    if "0 < d" for r n d f k
    using that by (simp add: fresh_stream_def video_entry_def low_packets_in_def high_packets_in_def)
  ultimately show ?thesis using v by (auto simp: p(2) video_entries_def list_all_iff)
qed

lemma source_of_nat_inj:
  assumes "source_number r n i < 2 ^ 16" "source_number r n j < 2 ^ 16"
    and "(of_nat (source_number r n i) :: u16) = of_nat (source_number r n j)"
  shows "i = j"
proof -
  have "unat (of_nat (source_number r n i) :: u16) = source_number r n i"
    "unat (of_nat (source_number r n j) :: u16) = source_number r n j"
    using assms(1,2) by (simp_all add: unat_of_nat)
  then have "source_number r n i = source_number r n j" using assms(3) by metis
  then show ?thesis by (simp add: source_number_def)
qed

lemma bounded_sizes:
  assumes "bounded_spec spec"
  shows "rooms_of spec \<le> 64" "peers_of spec \<le> 100"
  using assms smoke_peers
  by (cases spec; auto simp: rooms_of_def peers_of_def bounded_nat simp del: bounded_spec.simps)+

lemma peer_streams_distinct:
  assumes "bounded_spec spec" "room < rooms_of spec" "peer < peers_of spec"
  shows "distinct_streams (peer_streams spec room peer)"
proof -
  obtain packets where p:
    "peer_streams spec room peer =
      map (audio_entry (of_nat room) (peers_per_room spec) packets)
         (filter (\<lambda>k. k \<noteq> peer) [0..<unat (audio_publishers_per_room spec)])
       @ video_entries (of_nat room) (peers_per_room spec) (unat (duration_seconds spec))
           (video_publishers_per_room spec) peer"
    using peer_streams_bounded [OF assms] by blast
  let ?r = "of_nat room" and ?n = "peers_per_room spec"
  have small: "source_number ?r ?n k < 2 ^ 16"
    if "k < unat (audio_publishers_per_room spec) \<or> k < unat (video_publishers_per_room spec)" for k
    using source_number_small [of room ?n k] bounded_sizes [OF assms(1)] publishers_le [OF assms(1)]
      assms(2) that by (auto simp: peers_of_def)
  have inj: "i = j"
    if "(of_nat (source_number ?r ?n i) :: u16) = of_nat (source_number ?r ?n j)"
      and "i < unat (audio_publishers_per_room spec) \<or> i < unat (video_publishers_per_room spec)"
      and "j < unat (audio_publishers_per_room spec) \<or> j < unat (video_publishers_per_room spec)" for i j
    using source_of_nat_inj [OF small [OF that(2)] small [OF that(3)] that(1)] .
  have ka: "stream_key (audio_entry ?r ?n packets k) = (of_nat (source_number ?r ?n k), Audio, None)" for k
    by (simp add: stream_key_def audio_entry_def)
  have kv: "stream_key (video_entry ?r ?n l h f k)
      = (of_nat (source_number ?r ?n k), Video, Some (if f = Some k then High else Low))" for k l h f
    by (simp add: stream_key_def video_entry_def)
  have da: "distinct (map (\<lambda>k. stream_key (audio_entry ?r ?n packets k))
      (filter (\<lambda>k. k \<noteq> peer) [0..<unat (audio_publishers_per_room spec)]))"
    by (auto simp: distinct_map inj_on_def ka intro: inj)
  have dv: "distinct (map (\<lambda>k. stream_key (video_entry ?r ?n l h f k))
      (filter (\<lambda>k. k \<noteq> peer) [0..<unat (video_publishers_per_room spec)]))" for l h f
    by (auto simp: distinct_map inj_on_def kv intro: inj)
  show ?thesis
    using da dv by (auto simp: distinct_streams_def p video_entries_def o_def ka kv
        simp del: map_option_eq_Some)
qed

lemma peer_expected_small:
  assumes "is_ok (validate_spec spec)" "room < rooms_of spec" "peer < peers_of spec"
  shows "expected_packets (peer_streams spec room peer) < 2 ^ 32"
proof -
  have b: "bounded_spec spec" and w: "within_limits spec"
    using assms(1) by (simp_all add: validate_spec_iff)
  obtain p where p: "plan spec = Inr p" using bounded_plan_ok [OF b] by blast
  then have "unat (wp_expected_deliveries p) \<le> 1000000000"
    using w by (simp add: within_limits_def word_le_nat_alt)
  moreover have "expected_packets (peer_streams spec room peer)
      \<le> (\<Sum>peer<peers_of spec. expected_packets (peer_streams spec room peer))"
    using assms(3) by (intro member_le_sum) simp_all
  moreover have "\<dots> \<le> (\<Sum>room<rooms_of spec. \<Sum>peer<peers_of spec. expected_packets (peer_streams spec room peer))"
    using assms(2) by (intro member_le_sum [where f = "\<lambda>room. \<Sum>peer<peers_of spec. expected_packets (peer_streams spec room peer)"]) simp_all
  ultimately show ?thesis using ledgers_sum_to_plan(1) [OF b p] by simp
qed

end
