(* ===== verification/Effects.thy ===== *)
theory Effects
  imports RustStr "HOL-Library.Sublist"
begin

text \<open>
  Effects of the harness as explicit histories. An action takes the list of effects performed so
  far and returns its result with the extended list; what the outside world answers is a function
  of that history, an argument of every definition that performs effects. Early returns of the
  code (\<open>?\<close>, \<open>bail!\<close>, \<open>ensure!\<close>) stop an action and keep the effects already performed.
\<close>

type_synonym ('e, 'a) act = "'e list \<Rightarrow> 'a result \<times> 'e list"

definition return_act :: "'a \<Rightarrow> ('e, 'a) act" where
  "return_act x = (\<lambda>h. (Inr x, h))"

definition lift_act :: "'a result \<Rightarrow> ('e, 'a) act" where
  "lift_act r = (\<lambda>h. (r, h))"

definition fail_act :: "string \<Rightarrow> ('e, 'a) act" where
  "fail_act msg = lift_act (err msg)"

definition bind_act :: "('e, 'a) act \<Rightarrow> ('a \<Rightarrow> ('e, 'b) act) \<Rightarrow> ('e, 'b) act" where
  "bind_act m f = (\<lambda>h. case m h of (Inl e, h') \<Rightarrow> (Inl e, h') | (Inr x, h') \<Rightarrow> f x h')"

definition act_context :: "string \<Rightarrow> ('e, 'a) act \<Rightarrow> ('e, 'a) act" where
  "act_context msg m = (\<lambda>h. case m h of (r, h') \<Rightarrow> (with_context msg r, h'))"

definition ensure_act :: "bool \<Rightarrow> string \<Rightarrow> ('e, 'a) act \<Rightarrow> ('e, 'a) act" where
  "ensure_act c msg rest = (if c then rest else fail_act msg)"

text \<open>Perform one effect: the world answers it in view of the history before it.\<close>

definition effect :: "('e list \<Rightarrow> 'e \<Rightarrow> 'a result) \<Rightarrow> 'e \<Rightarrow> ('e, 'a) act" where
  "effect world e = (\<lambda>h. (world h e, h @ [e]))"

text \<open>The result of an action as a value, errors included, without stopping the caller.\<close>

definition attempt :: "('e, 'a) act \<Rightarrow> ('e, 'a result) act" where
  "attempt m = (\<lambda>h. case m h of (r, h') \<Rightarrow> (Inr r, h'))"

lemmas act_defs = return_act_def lift_act_def fail_act_def bind_act_def act_context_def
  ensure_act_def effect_def attempt_def

lemma bind_act_Inr:
  "bind_act m f h = (Inr y, h'') \<longleftrightarrow> (\<exists>x h'. m h = (Inr x, h') \<and> f x h' = (Inr y, h''))"
  by (auto simp: bind_act_def split: prod.splits sum.splits)

lemma return_act_Inr: "return_act x h = (Inr y, h') \<longleftrightarrow> y = x \<and> h' = h"
  by (auto simp: return_act_def)

lemma lift_act_Inr: "lift_act r h = (Inr y, h') \<longleftrightarrow> r = Inr y \<and> h' = h"
  by (auto simp: lift_act_def)

lemma fail_act_Inr [simp]: "fail_act msg h \<noteq> (Inr y, h')"
  by (simp add: fail_act_def lift_act_def)

lemma act_context_Inr: "act_context msg m h = (Inr y, h') \<longleftrightarrow> m h = (Inr y, h')"
  by (auto simp: act_context_def checked_iff split: prod.splits)

lemma ensure_act_Inr: "ensure_act c msg rest h = (Inr y, h') \<longleftrightarrow> c \<and> rest h = (Inr y, h')"
  by (simp add: ensure_act_def)

lemma effect_Inr: "effect world e h = (Inr y, h') \<longleftrightarrow> world h e = Inr y \<and> h' = h @ [e]"
  by (auto simp: effect_def)

lemma attempt_Inr: "attempt m h = (Inr r, h') \<longleftrightarrow> m h = (r, h')"
  by (auto simp: attempt_def split: prod.splits)

lemmas act_Inr = bind_act_Inr return_act_Inr lift_act_Inr act_context_Inr ensure_act_Inr
  effect_Inr attempt_Inr

section \<open>Histories only grow\<close>

definition grows :: "('e, 'a) act \<Rightarrow> bool" where
  "grows m \<longleftrightarrow> (\<forall>h. prefix h (snd (m h)))"

named_theorems grows_intros \<open>actions that only extend the history\<close>

lemma growsI: "(\<And>h. prefix h (snd (m h))) \<Longrightarrow> grows m"
  by (simp add: grows_def)

lemma growsD: "grows m \<Longrightarrow> m h = (r, h') \<Longrightarrow> prefix h h'"
  by (metis grows_def snd_conv)

lemma grows_return [grows_intros]: "grows (return_act x)"
  by (simp add: grows_def return_act_def)

lemma grows_lift [grows_intros]: "grows (lift_act r)"
  by (simp add: grows_def lift_act_def)

lemma grows_fail [grows_intros]: "grows (fail_act msg)"
  by (simp add: fail_act_def grows_lift)

lemma grows_effect [grows_intros]: "grows (effect world e)"
  by (simp add: grows_def effect_def)

lemma grows_bind [grows_intros]:
  assumes "grows m" and "\<And>x. grows (f x)"
  shows "grows (bind_act m f)"
proof (rule growsI)
  fix h
  obtain r h' where m: "m h = (r, h')" by fastforce
  then have p: "prefix h h'" using growsD [OF assms(1)] by blast
  show "prefix h (snd (bind_act m f h))"
  proof (cases r)
    case (Inl e)
    then show ?thesis using m p by (simp add: bind_act_def)
  next
    case (Inr x)
    have "prefix h' (snd (f x h'))" using assms(2) by (simp add: grows_def)
    then show ?thesis using m p Inr by (simp add: bind_act_def)
  qed
qed

lemma grows_context [grows_intros]: "grows m \<Longrightarrow> grows (act_context msg m)"
  by (auto simp: grows_def act_context_def split: prod.splits) (metis snd_conv)

lemma grows_attempt [grows_intros]: "grows m \<Longrightarrow> grows (attempt m)"
  by (auto simp: grows_def attempt_def split: prod.splits) (metis snd_conv)

lemma grows_ensure [grows_intros]: "grows m \<Longrightarrow> grows (ensure_act c msg m)"
  by (simp add: ensure_act_def grows_fail)

section \<open>Paths\<close>

text \<open>A path as its components; \<open>Path::parent\<close> drops the last one.\<close>

record fs_path =
  rooted :: bool
  components :: "string list"

definition path_parent :: "fs_path \<Rightarrow> fs_path option" where
  "path_parent p = (if components p = [] then None else Some (p\<lparr>components := butlast (components p)\<rparr>))"

definition is_empty_path :: "fs_path \<Rightarrow> bool" where
  "is_empty_path p \<longleftrightarrow> \<not> rooted p \<and> components p = []"

definition show_path :: "fs_path \<Rightarrow> string" where
  "show_path p = (if rooted p then ''/'' else []) @ join_with ''/'' (components p)"

definition join_path :: "fs_path \<Rightarrow> string list \<Rightarrow> fs_path" where
  "join_path p names = p\<lparr>components := components p @ names\<rparr>"

end
