(* ===== verification/Phase.thy ===== *)
theory Phase
  imports Effects
begin

text \<open>
  \<open>src/phase.rs\<close>: the four scenario phases and their order, the sequence checker
  \<open>PhaseSequence\<close>, and the RTC worker's half of the handshake that asks the controller to
  persist a phase before RTC work continues (\<open>exchange_phase\<close>). The JSON encoder and decoder are
  arguments: \<open>serde_json\<close> is not part of the repository.
\<close>

section \<open>Phases\<close>

datatype scenario_phase = Setup | Warmup | Measured | Drain

fun ordinal :: "scenario_phase \<Rightarrow> nat" where
  "ordinal Setup = 0"
| "ordinal Warmup = 1"
| "ordinal Measured = 2"
| "ordinal Drain = 3"

definition ORDERED :: "scenario_phase list" where
  "ORDERED = [Setup, Warmup, Measured, Drain]"

definition PHASE_COUNT :: nat where
  "PHASE_COUNT = length ORDERED"

fun show_phase :: "scenario_phase \<Rightarrow> string" where
  "show_phase Setup = ''setup''"
| "show_phase Warmup = ''warmup''"
| "show_phase Measured = ''measured''"
| "show_phase Drain = ''drain''"

lemma ordinal_inject [simp]: "ordinal a = ordinal b \<longleftrightarrow> a = b"
  by (cases a; cases b) simp_all

text \<open>Phases are ordered by their ordinal.\<close>

instantiation scenario_phase :: linorder
begin

definition less_eq_scenario_phase :: "scenario_phase \<Rightarrow> scenario_phase \<Rightarrow> bool" where
  "less_eq_scenario_phase a b \<longleftrightarrow> ordinal a \<le> ordinal b"

definition less_scenario_phase :: "scenario_phase \<Rightarrow> scenario_phase \<Rightarrow> bool" where
  "less_scenario_phase a b \<longleftrightarrow> ordinal a < ordinal b"

instance
proof
  fix x y :: scenario_phase
  assume "x \<le> y" "y \<le> x"
  then have "ordinal x = ordinal y" unfolding less_eq_scenario_phase_def by (rule le_antisym)
  then show "x = y" by simp
qed (auto simp: less_eq_scenario_phase_def less_scenario_phase_def)

end

lemma ordinal_less_4: "ordinal p < 4"
  by (cases p) simp_all

lemma ORDERED_nth: "ordinal p = n \<longleftrightarrow> n < 4 \<and> p = ORDERED ! n"
  by (cases p) (auto simp: ORDERED_def less_Suc_eq numeral_eq_Suc)

lemma length_ORDERED [simp]: "length ORDERED = 4" "PHASE_COUNT = 4"
  by (simp_all add: ORDERED_def PHASE_COUNT_def)

lemma sorted_ORDERED: "sorted ORDERED \<and> distinct ORDERED \<and> set ORDERED = UNIV"
  by (auto simp: ORDERED_def less_eq_scenario_phase_def intro: scenario_phase.exhaust)

section \<open>Sequence checking\<close>

record phase_sequence =
  ps_count :: u8

definition new_sequence :: phase_sequence where
  "new_sequence = \<lparr>ps_count = 0\<rparr>"

definition advance :: "phase_sequence \<Rightarrow> scenario_phase \<Rightarrow> phase_sequence result" where
  "advance s phase =
     bind_ok (ok_or ''scenario phase sequence is already complete''
       (get_at ORDERED (unat (ps_count s)))) (\<lambda>expected.
     ensure (phase = expected)
       (''expected '' @ show_phase expected @ '' phase, received '' @ show_phase phase) (
     Inr (s\<lparr>ps_count := saturating_add (ps_count s) 1\<rparr>)))"

definition finish_phases :: "phase_sequence \<Rightarrow> unit result" where
  "finish_phases s =
     ensure (unat (ps_count s) = PHASE_COUNT) ''scenario phase sequence is incomplete'' (Inr ())"

section \<open>Interface: states that count accepted phases\<close>

text \<open>A state admits phases only in their order; \<open>accepted\<close> is how many it has admitted.\<close>

locale phase_gate =
  fixes step :: "'st \<Rightarrow> scenario_phase \<Rightarrow> 'st result" and accepted :: "'st \<Rightarrow> nat"
  assumes step_ordered: "step s p = Inr s' \<Longrightarrow> ordinal p = accepted s \<and> accepted s' = Suc (accepted s)"
begin

fun run_steps :: "'st \<Rightarrow> scenario_phase list \<Rightarrow> 'st result" where
  "run_steps s [] = Inr s"
| "run_steps s (p # ps) = bind_ok (step s p) (\<lambda>s'. run_steps s' ps)"

lemma run_steps_ordered:
  "run_steps s ps = Inr s' \<Longrightarrow>
     accepted s' = accepted s + length ps \<and> ps = take (length ps) (drop (accepted s) ORDERED)"
proof (induction ps arbitrary: s)
  case Nil
  then show ?case by simp
next
  case (Cons p ps)
  then obtain t where t: "step s p = Inr t" "run_steps t ps = Inr s'" by (auto simp: checked_iff)
  from step_ordered [OF t(1)] have o: "ordinal p = accepted s" "accepted t = Suc (accepted s)"
    by simp_all
  then have n: "accepted s < length ORDERED" "p = ORDERED ! accepted s" by (simp_all add: ORDERED_nth)
  then have "drop (accepted s) ORDERED = p # drop (Suc (accepted s)) ORDERED"
    by (simp add: Cons_nth_drop_Suc)
  with Cons.IH [OF t(2)] o show ?case by simp
qed

lemma run_steps_prefix:
  "accepted s = 0 \<Longrightarrow> run_steps s ps = Inr s' \<Longrightarrow> ps = take (length ps) ORDERED \<and> length ps \<le> 4"
proof -
  assume "accepted s = 0" and r: "run_steps s ps = Inr s'"
  then have p: "ps = take (length ps) ORDERED" using run_steps_ordered [OF r] by simp
  then have "length ps = min 4 (length ps)" by (metis length_take length_ORDERED(1) min.commute)
  then show ?thesis using p by simp
qed

lemma run_steps_complete:
  assumes "accepted s = 0" "run_steps s ps = Inr s'" "accepted s' = 4"
  shows "ps = ORDERED"
proof -
  have "length ps = 4" using run_steps_ordered [OF assms(2)] assms(1,3) by simp
  then show ?thesis using run_steps_prefix [OF assms(1,2)] by simp
qed

end

text \<open>A live gate admits every phase that is in order.\<close>

locale live_phase_gate = phase_gate +
  assumes step_live: "accepted s = ordinal p \<Longrightarrow> \<exists>s'. step s p = Inr s'"
begin

lemma run_steps_live:
  "ps = take (length ps) (drop (accepted s) ORDERED) \<Longrightarrow> \<exists>s'. run_steps s ps = Inr s'"
proof (induction ps arbitrary: s)
  case Nil
  then show ?case by simp
next
  case (Cons p ps)
  have ne: "drop (accepted s) ORDERED \<noteq> []" using Cons.prems by auto
  then have n: "accepted s < length ORDERED" by (meson drop_eq_Nil leI)
  then have d: "drop (accepted s) ORDERED = ORDERED ! accepted s # drop (Suc (accepted s)) ORDERED"
    by (rule Cons_nth_drop_Suc [symmetric])
  then have p: "ordinal p = accepted s" using Cons.prems n by (auto simp: ORDERED_nth)
  then obtain t where t: "step s p = Inr t" using step_live [of s p] by auto
  have "ps = take (length ps) (drop (accepted t) ORDERED)"
    using step_ordered [OF t] Cons.prems d p by auto
  then show ?case using Cons.IH [of t] t by simp
qed

end

lemma advance_Inr:
  "advance s p = Inr s' \<longleftrightarrow>
     unat (ps_count s) < 4 \<and> p = ORDERED ! unat (ps_count s) \<and>
     s' = s\<lparr>ps_count := saturating_add (ps_count s) 1\<rparr>"
  by (auto simp: advance_def checked_iff)

lemma advance_count:
  "advance s p = Inr s' \<Longrightarrow> unat (ps_count s') = Suc (unat (ps_count s))"
  by (auto simp: advance_Inr unat_sat)

interpretation sequence: live_phase_gate advance "\<lambda>s. unat (ps_count s)"
proof
  show "ordinal p = unat (ps_count s) \<and> unat (ps_count s') = Suc (unat (ps_count s))"
    if "advance s p = Inr s'" for s p s'
    using that advance_count [OF that] by (auto simp: advance_Inr ORDERED_nth)
  show "\<exists>s'. advance s p = Inr s'" if "unat (ps_count s) = ordinal p" for s p
    using that ORDERED_nth [of p "unat (ps_count s)"] by (simp add: advance_Inr)
qed

text \<open>The phases a sequence has checked, one after the other.\<close>

fun advance_all :: "phase_sequence \<Rightarrow> scenario_phase list \<Rightarrow> phase_sequence result" where
  "advance_all s [] = Inr s"
| "advance_all s (p # ps) = bind_ok (advance s p) (\<lambda>s'. advance_all s' ps)"

lemma advance_all_run: "advance_all s ps = sequence.run_steps s ps"
  by (induction ps arbitrary: s) simp_all

lemma finish_phases_Inr: "finish_phases s = Inr u \<longleftrightarrow> unat (ps_count s) = 4"
  by (simp add: finish_phases_def checked_iff)

lemma new_sequence_count [simp]: "unat (ps_count new_sequence) = 0"
  by (simp add: new_sequence_def)

lemma advance_all_iff: "is_ok (advance_all new_sequence ps) \<longleftrightarrow> prefix ps ORDERED"
proof -
  have "prefix ps ORDERED \<longleftrightarrow> ps = take (length ps) ORDERED"
    by (auto simp: prefix_def) (metis append_eq_conv_conj append_take_drop_id)+
  moreover have "is_ok (advance_all new_sequence ps) \<longleftrightarrow> ps = take (length ps) ORDERED"
    using sequence.run_steps_prefix [of new_sequence ps] sequence.run_steps_live [of ps new_sequence]
    by (auto simp: is_ok_iff advance_all_run)
  ultimately show ?thesis by simp
qed

text \<open>
  C12: a fresh \<open>PhaseSequence\<close> accepts exactly the prefixes of setup, warmup, measured, drain, in
  that order and each once, and \<open>finish\<close> succeeds after exactly the whole sequence.
\<close>

theorem phase_sequence_exact:
  "is_ok (advance_all new_sequence phases) = prefix phases [Setup, Warmup, Measured, Drain] \<and>
   is_ok (bind_ok (advance_all new_sequence phases) finish_phases)
     = (phases = [Setup, Warmup, Measured, Drain])"
proof -
  have fin: "is_ok (bind_ok (advance_all new_sequence phases) finish_phases) \<longleftrightarrow> phases = ORDERED"
  proof
    assume "is_ok (bind_ok (advance_all new_sequence phases) finish_phases)"
    then obtain s where s: "sequence.run_steps new_sequence phases = Inr s" "unat (ps_count s) = 4"
      by (auto simp: is_ok_iff checked_iff finish_phases_Inr advance_all_run)
    show "phases = ORDERED" using sequence.run_steps_complete [OF _ s] by simp
  next
    assume p: "phases = ORDERED"
    then obtain s where "advance_all new_sequence phases = Inr s"
      using advance_all_iff [of phases] by (auto simp: is_ok_iff)
    moreover from this have "unat (ps_count s) = 4"
      using sequence.run_steps_ordered [of new_sequence phases s] p by (simp add: advance_all_run)
    ultimately show "is_ok (bind_ok (advance_all new_sequence phases) finish_phases)"
      by (simp add: finish_phases_def)
  qed
  then show ?thesis using advance_all_iff [of phases] by (simp only: ORDERED_def)
qed

section \<open>The worker's half of the handshake\<close>

datatype phase_effect =
    WriteOut string
  | FlushOut
  | ReadLine

text \<open>
  \<open>to_json\<close> encodes a \<open>PhaseEvent\<close>: the pieces that \<open>serde_json::to_writer\<close> hands to the writer one
  after the other, and whether the encoding ends without an error. \<open>from_json\<close> decodes a
  \<open>PhaseAcknowledgement\<close>; \<open>out\<close> answers writes and flushes and \<open>line\<close> answers \<open>read_line\<close> with the
  bytes of one line, none at the end of the stream.
\<close>

record phase_io =
  to_json :: "scenario_phase \<Rightarrow> string list \<times> unit result"
  from_json :: "string \<Rightarrow> scenario_phase result"
  out :: "phase_effect list \<Rightarrow> phase_effect \<Rightarrow> unit result"
  line :: "phase_effect list \<Rightarrow> phase_effect \<Rightarrow> string result"

text \<open>\<open>to_writer\<close>: the first failed write stops it, with the pieces before it already written.\<close>

fun write_pieces :: "phase_io \<Rightarrow> string list \<Rightarrow> unit result \<Rightarrow> (phase_effect, unit) act" where
  "write_pieces io [] ending = lift_act ending"
| "write_pieces io (piece # pieces) ending =
     bind_act (effect (out io) (WriteOut piece)) (\<lambda>_. write_pieces io pieces ending)"

definition to_writer :: "phase_io \<Rightarrow> scenario_phase \<Rightarrow> (phase_effect, unit) act" where
  "to_writer io phase = (case to_json io phase of (pieces, ending) \<Rightarrow> write_pieces io pieces ending)"

definition exchange_phase :: "phase_io \<Rightarrow> scenario_phase \<Rightarrow> (phase_effect, unit) act" where
  "exchange_phase io phase =
     bind_act (act_context ''failed to encode an RTC phase event'' (to_writer io phase)) (\<lambda>_.
     bind_act (act_context ''failed to terminate an RTC phase event''
       (effect (out io) (WriteOut [CHR 0x0A]))) (\<lambda>_.
     bind_act (act_context ''failed to flush an RTC phase event''
       (effect (out io) FlushOut)) (\<lambda>_.
     bind_act (act_context ''failed to read an RTC phase acknowledgement''
       (effect (line io) ReadLine)) (\<lambda>acknowledgement.
     ensure_act (length acknowledgement > 0) ''controller closed the RTC phase stream'' (
     bind_act (act_context ''failed to decode an RTC phase acknowledgement''
       (lift_act (from_json io acknowledgement))) (\<lambda>acknowledged.
     ensure_act (acknowledged = phase)
       (''controller acknowledged '' @ show_phase acknowledged @ '' during '' @ show_phase phase) (
     return_act ())))))))"

text \<open>A successful exchange has written every piece of the event before it waits for the answer.\<close>

lemma write_pieces_ok:
  "write_pieces io pieces ending h = (Inr u, h') \<Longrightarrow>
     ending = Inr () \<and> h' = h @ map WriteOut pieces"
  by (induction pieces arbitrary: h) (fastforce simp: act_Inr)+

lemma exchange_phase_history:
  assumes "exchange_phase io phase h = (Inr u, h')"
  shows "h' = h @ map WriteOut (fst (to_json io phase)) @ [WriteOut [CHR 0x0A], FlushOut, ReadLine]"
  using assms
  by (auto simp: exchange_phase_def to_writer_def act_Inr dest!: write_pieces_ok split: prod.splits)

end
