(* ===== verification/Scenario.thy ===== *)
theory Scenario
  imports PlanLedger Phase
begin

text \<open>
  One peer's task of \<open>src/client/scenario.rs\<close>: warm-up, the measured media loop, draining and the
  observation it returns. What the RTC peer, the clock, the barrier and the phase reporter answer is
  a function of the history of effects. The two loops that wait for packets until a deadline may run
  for ever if the clock stands still, so they are partial functions whose value is \<open>None\<close> then; with
  a clock that reaches the deadline they return.
\<close>

section \<open>Runs that may not return\<close>

type_synonym ('e, 'a) run = "'e list \<Rightarrow> ('a result \<times> 'e list) option"

definition lift_run :: "('e, 'a) act \<Rightarrow> ('e, 'a) run" where
  "lift_run m = (\<lambda>h. Some (m h))"

definition bind_run :: "('e, 'a) run \<Rightarrow> ('a \<Rightarrow> ('e, 'b) run) \<Rightarrow> ('e, 'b) run" where
  "bind_run m f =
     (\<lambda>h. case m h of
            None \<Rightarrow> None
          | Some (Inl e, h') \<Rightarrow> Some (Inl e, h')
          | Some (Inr x, h') \<Rightarrow> f x h')"

lemma lift_run_Some [simp]: "lift_run m h = Some (r, h') \<longleftrightarrow> m h = (r, h')"
  by (simp add: lift_run_def)

lemma bind_run_Inr:
  "bind_run m f h = Some (Inr y, h'') \<longleftrightarrow>
     (\<exists>x h'. m h = Some (Inr x, h') \<and> f x h' = Some (Inr y, h''))"
  by (auto simp: bind_run_def split: option.splits prod.splits sum.splits)

section \<open>The world of a peer\<close>

datatype peer_effect =
    SendAudio audio_packet
  | SendVideo video_packet
  | ReadPayload duration
  | ReadPayloadWithin duration
  | Now
  | BarrierWait
  | ReportPhase scenario_phase
  | ResetPacing
  | SetSendOrigin instant
  | NotifyMeasuredReady
  | AwaitMeasuredAcknowledgement
  | ClosePeer

text \<open>
  \<open>send_reply\<close> gives the payload length of a sent packet, \<open>read_reply\<close> the payload that arrived, if
  any, \<open>within_reply\<close> the same under a timeout, none when it elapsed; \<open>measured_at\<close> is the content of
  the shared \<open>OnceLock\<close>.
\<close>

record peer_world =
  send_reply :: "peer_effect list \<Rightarrow> peer_effect \<Rightarrow> nat result"
  read_reply :: "peer_effect list \<Rightarrow> peer_effect \<Rightarrow> bytes option result"
  within_reply :: "peer_effect list \<Rightarrow> peer_effect \<Rightarrow> bytes option result option"
  clock :: "peer_effect list \<Rightarrow> instant"
  barrier_leader :: "peer_effect list \<Rightarrow> bool"
  unit_reply :: "peer_effect list \<Rightarrow> peer_effect \<Rightarrow> unit result"
  measured_at :: "peer_effect list \<Rightarrow> instant option"

definition now :: "peer_world \<Rightarrow> (peer_effect, instant) act" where
  "now w = effect (\<lambda>h e. Inr (clock w h)) Now"

definition barrier :: "peer_world \<Rightarrow> (peer_effect, bool) act" where
  "barrier w = effect (\<lambda>h e. Inr (barrier_leader w h)) BarrierWait"

definition PACKET_TIMEOUT :: duration where "PACKET_TIMEOUT = from_secs 10"
definition OPPORTUNISTIC_DRAIN_LIMIT :: nat where "OPPORTUNISTIC_DRAIN_LIMIT = 64"
definition QUIESCENCE_TIMEOUT :: duration where "QUIESCENCE_TIMEOUT = from_millis 200"
definition ROUTE_SETTLE_TIME :: duration where "ROUTE_SETTLE_TIME = from_millis 300"
definition MEASURE_START_LEAD :: duration where "MEASURE_START_LEAD = from_secs 1"
definition WARMUP_AUDIO_PACKETS :: nat where "WARMUP_AUDIO_PACKETS = 5"
definition WARMUP_VIDEO_FRAMES :: nat where "WARMUP_VIDEO_FRAMES = 2"

section \<open>Receiving\<close>

definition observe_option :: "packet_ledger \<Rightarrow> bytes option \<Rightarrow> packet_ledger" where
  "observe_option l payload = (case payload of None \<Rightarrow> l | Some p \<Rightarrow> observe l p)"

partial_function (option) receive_until_complete ::
  "peer_world \<Rightarrow> instant \<Rightarrow> packet_ledger \<Rightarrow> (peer_effect, packet_ledger) run" where
  "receive_until_complete w deadline l h =
     (if ledger_is_complete l then Some (Inr l, h)
      else if clock w h < deadline then
        let h1 = h @ [Now];
            remaining = deadline - clock w h1;
            h2 = h1 @ [Now]
        in case effect (read_reply w) (ReadPayload remaining) h2 of
             (Inl e, h3) \<Rightarrow> Some (Inl e, h3)
           | (Inr payload, h3) \<Rightarrow> receive_until_complete w deadline (observe_option l payload) h3
      else Some (Inr l, h @ [Now]))"

fun drain_pending_from ::
  "peer_world \<Rightarrow> nat \<Rightarrow> packet_ledger \<Rightarrow> (peer_effect, packet_ledger) act" where
  "drain_pending_from w 0 l = return_act l"
| "drain_pending_from w (Suc n) l =
     bind_act (effect (read_reply w) (ReadPayload 0)) (\<lambda>payload.
     case payload of
       None \<Rightarrow> return_act l
     | Some p \<Rightarrow> drain_pending_from w n (observe l p))"

definition drain_pending :: "peer_world \<Rightarrow> packet_ledger \<Rightarrow> (peer_effect, packet_ledger) act" where
  "drain_pending w l = drain_pending_from w OPPORTUNISTIC_DRAIN_LIMIT l"

partial_function (option) drain_until ::
  "peer_world \<Rightarrow> instant \<Rightarrow> packet_ledger \<Rightarrow> (peer_effect, packet_ledger) run" where
  "drain_until w deadline l h =
     (if clock w h < deadline then
        let h1 = h @ [Now];
            remaining = deadline - clock w h1;
            h2 = h1 @ [Now]
        in case within_reply w h2 (ReadPayloadWithin remaining) of
             None \<Rightarrow> Some (Inr l, h2 @ [ReadPayloadWithin remaining])
           | Some (Inl e) \<Rightarrow> Some (Inl e, h2 @ [ReadPayloadWithin remaining])
           | Some (Inr payload) \<Rightarrow>
               drain_until w deadline (observe_option l payload) (h2 @ [ReadPayloadWithin remaining])
      else Some (Inr l, h @ [Now]))"

definition drain_for ::
  "peer_world \<Rightarrow> duration \<Rightarrow> packet_ledger \<Rightarrow> (peer_effect, packet_ledger) run" where
  "drain_for w duration l =
     bind_run (lift_run (now w)) (\<lambda>t. drain_until w (t + duration) l)"

section \<open>Warm-up\<close>

fun warmup_audio ::
  "rfc \<Rightarrow> peer_world \<Rightarrow> nat list \<Rightarrow> audio_source \<Rightarrow> packet_ledger
     \<Rightarrow> (peer_effect, audio_source \<times> packet_ledger) act" where
  "warmup_audio c w [] s l = return_act (s, l)"
| "warmup_audio c w (n # ns) s l =
     (case next_packet c s WarmupPacket (of_nat n) of
        (packet, s') \<Rightarrow>
          bind_act (effect (send_reply w) (SendAudio packet)) (\<lambda>payload_len.
          bind_act (drain_pending w l) (\<lambda>l'.
          warmup_audio c w ns s' l')))"

fun warmup_frame ::
  "peer_world \<Rightarrow> video_packet list \<Rightarrow> packet_ledger \<Rightarrow> (peer_effect, packet_ledger) act" where
  "warmup_frame w [] l = return_act l"
| "warmup_frame w (packet # rest) l =
     bind_act (effect (send_reply w) (SendVideo packet)) (\<lambda>payload_len.
     bind_act (drain_pending w l) (\<lambda>l'.
     warmup_frame w rest l'))"

fun warmup_video ::
  "rfc \<Rightarrow> peer_world \<Rightarrow> nat list \<Rightarrow> video_source \<Rightarrow> packet_ledger
     \<Rightarrow> (peer_effect, video_source \<times> packet_ledger) act" where
  "warmup_video c w [] s l = return_act (s, l)"
| "warmup_video c w (frame # frames) s l =
     (case next_frame c s WarmupPacket (of_nat frame) of
        (packets, s') \<Rightarrow>
          bind_act (warmup_frame w packets l) (\<lambda>l'.
          warmup_video c w frames s' l'))"

definition send_warmup ::
  "rfc \<Rightarrow> peer_world \<Rightarrow> peer_media \<Rightarrow> packet_ledger \<Rightarrow> (peer_effect, peer_media \<times> packet_ledger) act"
where
  "send_warmup c w m l =
     bind_act (case pm_audio m of
         None \<Rightarrow> return_act (m, l)
       | Some source \<Rightarrow>
           bind_act (warmup_audio c w [0..<WARMUP_AUDIO_PACKETS] source l) (\<lambda>(source', l').
           return_act (m\<lparr>pm_audio := Some source'\<rparr>, l'))) (\<lambda>(m1, l1).
     case pm_video m1 of
       None \<Rightarrow> return_act (m1, l1)
     | Some source \<Rightarrow>
         bind_act (warmup_video c w [0..<WARMUP_VIDEO_FRAMES] source l1) (\<lambda>(source', l').
         return_act (m1\<lparr>pm_video := Some source'\<rparr>, l')))"

definition report_if :: "peer_world \<Rightarrow> bool \<Rightarrow> scenario_phase \<Rightarrow> (peer_effect, unit) act" where
  "report_if w is_leader phase =
     (if is_leader then effect (unit_reply w) (ReportPhase phase) else return_act ())"

text \<open>\<open>*sync.measured_at.get_or_init(|| Instant::now() + MEASURE_START_LEAD)\<close>.\<close>

definition measured_start :: "peer_world \<Rightarrow> (peer_effect, instant) act" where
  "measured_start w =
     (\<lambda>h. case measured_at w h of
            Some t \<Rightarrow> (Inr t, h)
          | None \<Rightarrow> (Inr (clock w h + MEASURE_START_LEAD), h @ [Now]))"

definition tell :: "peer_effect \<Rightarrow> (peer_effect, unit) act" where
  "tell e = effect (\<lambda>h e. Inr ()) e"

definition prepare_media_peer ::
  "rfc \<Rightarrow> peer_world \<Rightarrow> peer_media \<Rightarrow> packet_ledger
     \<Rightarrow> (peer_effect, instant \<times> peer_media \<times> packet_ledger) run" where
  "prepare_media_peer c w m l =
     bind_run (lift_run (barrier w)) (\<lambda>first.
     bind_run (lift_run (report_if w first Warmup)) (\<lambda>_.
     bind_run (lift_run (barrier w)) (\<lambda>_.
     bind_run (lift_run (send_warmup c w m l)) (\<lambda>(m1, l1).
     bind_run (drain_for w ROUTE_SETTLE_TIME l1) (\<lambda>l2.
     bind_run (lift_run (barrier w)) (\<lambda>_.
     let m2 = reset_timelines m1 in
     bind_run (lift_run (tell ResetPacing)) (\<lambda>_.
     bind_run (lift_run (barrier w)) (\<lambda>_.
     bind_run (lift_run (measured_start w)) (\<lambda>started_at.
     bind_run (lift_run (tell (SetSendOrigin started_at))) (\<lambda>_.
     bind_run (lift_run (barrier w)) (\<lambda>third.
     bind_run (lift_run (if third then tell NotifyMeasuredReady else return_act ())) (\<lambda>_.
     bind_run (lift_run (tell AwaitMeasuredAcknowledgement)) (\<lambda>_.
     lift_run (return_act (started_at, m2, l2)))))))))))))))"

section \<open>The measured loop\<close>

definition elapsed_millis_ceil :: "duration \<Rightarrow> u64" where
  "elapsed_millis_ceil d = clamp_to (div_ceil_nat d 1000000)"

text \<open>\<open>sent_at\<close> is the \<open>Instant::now()\<close> of the code.\<close>

definition observe_send ::
  "run_observation \<Rightarrow> nat \<Rightarrow> instant \<Rightarrow> duration \<Rightarrow> instant \<Rightarrow> run_observation" where
  "observe_send observation payload_len started_at emitted_at sent_at =
     observation
       \<lparr>obs_offered_packets := saturating_add (obs_offered_packets observation) 1,
        obs_offered_payload_bytes :=
          saturating_add (obs_offered_payload_bytes observation) (clamp_to payload_len),
        obs_max_send_lag_ms :=
          max (obs_max_send_lag_ms observation) (millis (sent_at - (started_at + emitted_at)))\<rparr>"

fun measured_frame ::
  "peer_world \<Rightarrow> instant \<Rightarrow> video_packet list \<Rightarrow> run_observation \<Rightarrow> packet_ledger
     \<Rightarrow> (peer_effect, run_observation \<times> packet_ledger) act" where
  "measured_frame w started_at [] observation l = return_act (observation, l)"
| "measured_frame w started_at (packet # rest) observation l =
     bind_act (effect (send_reply w) (SendVideo packet)) (\<lambda>payload_len.
     bind_act (now w) (\<lambda>t.
     bind_act (drain_pending w l) (\<lambda>l'.
     measured_frame w started_at rest
       (observe_send observation payload_len started_at (vp_emitted_at packet) t) l')))"

function measured_loop ::
  "rfc \<Rightarrow> peer_world \<Rightarrow> instant \<Rightarrow> peer_media \<Rightarrow> u32 \<Rightarrow> u32 \<Rightarrow> run_observation \<Rightarrow> packet_ledger
     \<Rightarrow> (peer_effect, run_observation \<times> packet_ledger) act" where
  "measured_loop c w started_at m audio_ordinal video_frame observation l h =
     (case next_turn m audio_ordinal video_frame of
        None \<Rightarrow> (Inr (observation, l), h)
      | Some AudioTurn \<Rightarrow>
          (case pm_audio m of
             None \<Rightarrow> (err ''audio source is missing'', h)
           | Some source \<Rightarrow>
               (case next_packet c source MeasuredPacket audio_ordinal of
                  (packet, source') \<Rightarrow>
                    (case bind_act (effect (send_reply w) (SendAudio packet)) (\<lambda>payload_len.
                          bind_act (now w) (\<lambda>t.
                          bind_act (drain_pending w l) (\<lambda>l'.
                          return_act (observe_send observation payload_len started_at
                            (ap_emitted_at packet) t, l')))) h of
                       (Inl e, h') \<Rightarrow> (Inl e, h')
                     | (Inr (observation', l'), h') \<Rightarrow>
                         measured_loop c w started_at (m\<lparr>pm_audio := Some source'\<rparr>)
                           (saturating_add audio_ordinal 1) video_frame observation' l' h')))
      | Some VideoTurn \<Rightarrow>
          (case pm_video m of
             None \<Rightarrow> (err ''video source is missing'', h)
           | Some source \<Rightarrow>
               (case next_frame c source MeasuredPacket video_frame of
                  (packets, source') \<Rightarrow>
                    (case measured_frame w started_at packets observation l h of
                       (Inl e, h') \<Rightarrow> (Inl e, h')
                     | (Inr (observation', l'), h') \<Rightarrow>
                         measured_loop c w started_at (m\<lparr>pm_video := Some source'\<rparr>)
                           audio_ordinal (saturating_add video_frame 1) observation' l' h'))))"
  by pat_completeness auto

text \<open>A turn is due only below its count, so its ordinal really advances.\<close>

lemma next_turn_Some:
  "next_turn m a v = Some AudioTurn \<Longrightarrow> a < pm_audio_packet_count m"
  "next_turn m a v = Some VideoTurn \<Longrightarrow> v < pm_video_frame_count m"
  by (auto simp: next_turn_def due_if_def Let_def split: option.splits if_splits)

lemma ordinal_step:
  "(a :: u32) < n \<Longrightarrow> unat (saturating_add a 1) = Suc (unat a)"
proof -
  assume "a < n"
  then have "unat a < unat n" by (simp add: word_less_nat_alt)
  moreover have "unat n < 2 ^ 32" using unat_less_2p [of n] by simp
  ultimately show ?thesis by (simp add: unat_sat)
qed

termination measured_loop
proof (relation "measure (\<lambda>(c, w, started_at, m, a, v, observation, l, h).
    (unat (pm_audio_packet_count m) - unat a) + (unat (pm_video_frame_count m) - unat v))", goal_cases)
  case 1
  then show ?case by simp
next
  case (2 c w started_at m a v observation l h)
  then have "a < pm_audio_packet_count m" using next_turn_Some by blast
  then show ?case using ordinal_step [of a] by (simp add: word_less_nat_alt)
next
  case (3 c w started_at m a v observation l h)
  then have "v < pm_video_frame_count m" using next_turn_Some by blast
  then show ?case using ordinal_step [of v] by (simp add: word_less_nat_alt)
qed

declare measured_loop.simps [simp del]

section \<open>The peer task\<close>

definition peer_observation ::
  "run_observation \<Rightarrow> packet_ledger \<Rightarrow> duration \<Rightarrow> run_observation" where
  "peer_observation observation l elapsed =
     observation
       \<lparr>obs_elapsed_ms := max (elapsed_millis_ceil elapsed) 1,
        obs_delivered_packets := lg_delivered_packets l,
        obs_delivered_payload_bytes := lg_delivered_payload_bytes l,
        obs_correctness := finish_ledger l\<rparr>"

definition run_media_peer ::
  "rfc \<Rightarrow> peer_world \<Rightarrow> peer_media \<Rightarrow> packet_ledger \<Rightarrow> (peer_effect, run_observation) run" where
  "run_media_peer c w m l =
     bind_run (prepare_media_peer c w m l) (\<lambda>(started_at, m1, l1).
     let target = target_duration m1;
         deadline = started_at + target + PACKET_TIMEOUT in
     bind_run (lift_run (measured_loop c w started_at m1 0 0 no_observation l1)) (\<lambda>(observation, l2).
     bind_run (receive_until_complete w deadline l2) (\<lambda>l3.
     bind_run (lift_run (now w)) (\<lambda>completed_at.
     bind_run (lift_run (barrier w)) (\<lambda>is_leader.
     bind_run (lift_run (report_if w is_leader Drain)) (\<lambda>_.
     bind_run (lift_run (barrier w)) (\<lambda>_.
     bind_run (drain_for w QUIESCENCE_TIMEOUT l3) (\<lambda>l4.
     let finished = peer_observation observation l4 (max (completed_at - started_at) target) in
     bind_run (lift_run (effect (unit_reply w) ClosePeer)) (\<lambda>_.
     lift_run (return_act finished))))))))))"

end
