(* ===== verification/ScenarioFacts.thy ===== *)
theory ScenarioFacts
  imports Scenario
begin

text \<open>
  What a peer task of \<open>src/client/scenario.rs\<close> has done when it returns: its ledger has seen exactly
  what arrived in its history, it has sent every measured packet of its sources in order, and the
  observation counts those sends. The waiting loops return when the clock reaches the deadline.
\<close>

section \<open>What arrived\<close>

fun answered :: "peer_world \<Rightarrow> peer_effect list \<Rightarrow> peer_effect \<Rightarrow> bytes list" where
  "answered w h (ReadPayload d) =
     (case read_reply w h (ReadPayload d) of Inr (Some p) \<Rightarrow> [p] | _ \<Rightarrow> [])"
| "answered w h (ReadPayloadWithin d) =
     (case within_reply w h (ReadPayloadWithin d) of Some (Inr (Some p)) \<Rightarrow> [p] | _ \<Rightarrow> [])"
| "answered w h _ = []"

definition arrivals :: "peer_world \<Rightarrow> peer_effect list \<Rightarrow> bytes list" where
  "arrivals w h = concat (map (\<lambda>i. answered w (take i h) (h ! i)) [0..<length h])"

lemma arrivals_Nil [simp]: "arrivals w [] = []"
  by (simp add: arrivals_def)

lemma arrivals_snoc [simp]: "arrivals w (h @ [e]) = arrivals w h @ answered w h e"
proof -
  have "map (\<lambda>i. answered w (take i (h @ [e])) ((h @ [e]) ! i)) [0..<length h]
      = map (\<lambda>i. answered w (take i h) (h ! i)) [0..<length h]"
    by (rule map_cong) (auto simp: nth_append)
  then show ?thesis
    by (simp only: arrivals_def length_append_singleton upt_Suc_append [OF le0] map_append concat_append)
       simp
qed

definition tracks :: "peer_world \<Rightarrow> packet_ledger \<Rightarrow> peer_effect list \<Rightarrow> packet_ledger \<Rightarrow> bool" where
  "tracks w l0 h l \<longleftrightarrow> l = observe_all l0 (arrivals w h)"

lemma tracks_other: "tracks w l0 h l \<Longrightarrow> answered w h e = [] \<Longrightarrow> tracks w l0 (h @ [e]) l"
  by (simp add: tracks_def)

lemma tracks_read:
  "tracks w l0 h l \<Longrightarrow> read_reply w h (ReadPayload d) = Inr payload \<Longrightarrow>
     tracks w l0 (h @ [ReadPayload d]) (observe_option l payload)"
  by (cases payload) (simp_all add: tracks_def observe_option_def observe_all_def)

lemma tracks_within:
  "tracks w l0 h l \<Longrightarrow> within_reply w h (ReadPayloadWithin d) = Some (Inr payload) \<Longrightarrow>
     tracks w l0 (h @ [ReadPayloadWithin d]) (observe_option l payload)"
  by (cases payload) (simp_all add: tracks_def observe_option_def observe_all_def)

section \<open>What was sent\<close>

fun audio_of :: "peer_effect \<Rightarrow> audio_packet list" where
  "audio_of (SendAudio p) = [p]"
| "audio_of _ = []"

fun video_of :: "peer_effect \<Rightarrow> video_packet list" where
  "video_of (SendVideo p) = [p]"
| "video_of _ = []"

definition audio_sends :: "peer_effect list \<Rightarrow> audio_packet list" where
  "audio_sends h = concat (map audio_of h)"

definition video_sends :: "peer_effect list \<Rightarrow> video_packet list" where
  "video_sends h = concat (map video_of h)"

lemma sends_simps [simp]:
  "audio_sends [] = []" "video_sends [] = []"
  "audio_sends (h @ h') = audio_sends h @ audio_sends h'"
  "video_sends (h @ h') = video_sends h @ video_sends h'"
  "audio_sends (e # h) = audio_of e @ audio_sends h"
  "video_sends (e # h) = video_of e @ video_sends h"
  by (simp_all add: audio_sends_def video_sends_def)

text \<open>An extension of the history that sends nothing and passes no phase.\<close>

definition quiet :: "peer_effect list \<Rightarrow> bool" where
  "quiet h \<longleftrightarrow> audio_sends h = [] \<and> video_sends h = [] \<and> AwaitMeasuredAcknowledgement \<notin> set h"

lemma quiet_Nil [simp]: "quiet []"
  by (simp add: quiet_def)

lemma quiet_append: "quiet h \<Longrightarrow> quiet h' \<Longrightarrow> quiet (h @ h')"
  by (auto simp: quiet_def)

lemma quiet_Cons [simp]:
  "quiet (Now # h) = quiet h" "quiet (ReadPayload d # h) = quiet h"
  "quiet (ReadPayloadWithin d # h) = quiet h" "quiet (BarrierWait # h) = quiet h"
  "quiet (ReportPhase p # h) = quiet h" "quiet (ClosePeer # h) = quiet h"
  "quiet (ResetPacing # h) = quiet h" "quiet (SetSendOrigin t # h) = quiet h"
  "quiet (NotifyMeasuredReady # h) = quiet h"
  by (simp_all add: quiet_def)

section \<open>Receiving\<close>

lemma drain_pending_from_result:
  "drain_pending_from w n l h = (Inr l', h') \<Longrightarrow>
     (tracks w l0 h l \<longrightarrow> tracks w l0 h' l') \<and> (\<exists>k. h' = h @ replicate k (ReadPayload 0))"
proof (induction n arbitrary: l h)
  case 0
  then show ?case by (auto simp: return_act_def intro: exI [of _ 0])
next
  case (Suc n)
  then obtain payload where r: "read_reply w h (ReadPayload 0) = Inr payload"
    and rest: "(case payload of None \<Rightarrow> return_act l | Some p \<Rightarrow> drain_pending_from w n (observe l p))
      (h @ [ReadPayload 0]) = (Inr l', h')"
    by (auto simp: act_Inr)
  have t: "tracks w l0 h l \<longrightarrow> tracks w l0 (h @ [ReadPayload 0]) (observe_option l payload)"
    using r tracks_read by blast
  show ?case
  proof (cases payload)
    case None
    then show ?thesis using rest t
      by (auto simp: return_act_def observe_option_def intro: exI [of _ 1])
  next
    case (Some p)
    then have "(tracks w l0 (h @ [ReadPayload 0]) (observe l p) \<longrightarrow> tracks w l0 h' l') \<and>
        (\<exists>k. h' = (h @ [ReadPayload 0]) @ replicate k (ReadPayload 0))"
      using Suc.IH [of "observe l p" "h @ [ReadPayload 0]"] rest by simp
    then show ?thesis using t Some by (auto simp: observe_option_def intro: exI [of _ "Suc _"])
  qed
qed

lemma quiet_replicate: "quiet (replicate k (ReadPayload d))"
  by (induction k) simp_all

lemma drain_pending_result:
  assumes "drain_pending w l h = (Inr l', h')"
  shows "(tracks w l0 h l \<longrightarrow> tracks w l0 h' l') \<and> (\<exists>g. h' = h @ g \<and> quiet g)"
  using drain_pending_from_result [OF assms [unfolded drain_pending_def]] quiet_replicate by blast

text \<open>The outcome of a waiting loop started at \<open>h\<close> with a tracked ledger.\<close>

definition waited ::
  "peer_world \<Rightarrow> packet_ledger \<Rightarrow> peer_effect list \<Rightarrow> packet_ledger \<Rightarrow> packet_ledger result \<times> peer_effect list \<Rightarrow> bool"
where
  "waited w l0 h l x \<longleftrightarrow>
     (\<exists>g. snd x = h @ g \<and> quiet g) \<and>
     (tracks w l0 h l \<longrightarrow> (\<forall>l'. fst x = Inr l' \<longrightarrow> tracks w l0 (snd x) l'))"

lemma waited_stop: "waited w l0 h l (Inr l, h)"
  by (simp add: waited_def)

lemma waited_late: "waited w l0 h l (Inr l, h @ [Now])"
  by (auto simp: waited_def tracks_other)

lemma waited_fail: "quiet g \<Longrightarrow> waited w l0 h l (Inl e, h @ g)"
  by (simp add: waited_def)

lemma waited_more:
  assumes "waited w l0 (h @ g) l' x" "quiet g" "tracks w l0 h l \<Longrightarrow> tracks w l0 (h @ g) l'"
  shows "waited w l0 h l x"
proof -
  have "\<exists>g'. snd x = h @ g' \<and> quiet g'" if "snd x = (h @ g) @ k" "quiet k" for k
    using that assms(2) quiet_append by (intro exI [of _ "g @ k"]) auto
  then show ?thesis using assms(1,3) unfolding waited_def by blast
qed

lemma tracks_read_late:
  "tracks w l0 h l \<Longrightarrow> read_reply w (h @ [Now, Now]) (ReadPayload d) = Inr payload \<Longrightarrow>
     tracks w l0 (h @ [Now, Now, ReadPayload d]) (observe_option l payload)"
  using tracks_read [of w l0 "h @ [Now, Now]" l d payload]
    tracks_other [of w l0 "h @ [Now]" l Now] tracks_other [of w l0 h l Now] by simp

lemma tracks_within_late:
  "tracks w l0 h l \<Longrightarrow> within_reply w (h @ [Now, Now]) (ReadPayloadWithin d) = Some (Inr payload) \<Longrightarrow>
     tracks w l0 (h @ [Now, Now, ReadPayloadWithin d]) (observe_option l payload)"
  using tracks_within [of w l0 "h @ [Now, Now]" l d payload]
    tracks_other [of w l0 "h @ [Now]" l Now] tracks_other [of w l0 h l Now] by simp

lemma receive_until_complete_waited:
  assumes "receive_until_complete w deadline l h = Some x"
  shows "waited w l0 h l x"
proof (rule receive_until_complete.raw_induct [where P = "\<lambda>w deadline l h x. waited w l0 h l x", OF _ assms])
  fix rec and w :: peer_world and deadline l h x
  let ?d = "deadline - clock w (h @ [Now])"
  let ?g = "[Now, Now, ReadPayload ?d]"
  assume IH: "\<And>w deadline l h x. rec w deadline l h = Some x \<Longrightarrow> waited w l0 h l x"
    and body: "(if ledger_is_complete l then Some (Inr l, h)
      else if clock w h < deadline then
        let h1 = h @ [Now]; remaining = deadline - clock w h1; h2 = h1 @ [Now]
        in case effect (read_reply w) (ReadPayload remaining) h2 of
             (Inl e, h3) \<Rightarrow> Some (Inl e, h3)
           | (Inr payload, h3) \<Rightarrow> rec w deadline (observe_option l payload) h3
      else Some (Inr l, h @ [Now])) = Some x"
  consider "x = (Inr l, h)" | "x = (Inr l, h @ [Now])" | e where "x = (Inl e, h @ ?g)"
    | payload where "read_reply w (h @ [Now, Now]) (ReadPayload ?d) = Inr payload"
        "rec w deadline (observe_option l payload) (h @ ?g) = Some x"
    using body by (auto simp: Let_def effect_def split: if_splits sum.splits)
  then show "waited w l0 h l x"
  proof cases
    case 4
    show ?thesis
      by (rule waited_more [OF IH [OF 4(2)]]) (use 4(1) tracks_read_late in simp_all)
  qed (simp_all add: waited_stop waited_late waited_fail)
qed

lemma drain_until_waited:
  assumes "drain_until w deadline l h = Some x"
  shows "waited w l0 h l x"
proof (rule drain_until.raw_induct [where P = "\<lambda>w deadline l h x. waited w l0 h l x", OF _ assms])
  fix rec and w :: peer_world and deadline l h x
  let ?d = "deadline - clock w (h @ [Now])"
  let ?g = "[Now, Now, ReadPayloadWithin ?d]"
  assume IH: "\<And>w deadline l h x. rec w deadline l h = Some x \<Longrightarrow> waited w l0 h l x"
    and body: "(if clock w h < deadline then
        let h1 = h @ [Now]; remaining = deadline - clock w h1; h2 = h1 @ [Now]
        in case within_reply w h2 (ReadPayloadWithin remaining) of
             None \<Rightarrow> Some (Inr l, h2 @ [ReadPayloadWithin remaining])
           | Some (Inl e) \<Rightarrow> Some (Inl e, h2 @ [ReadPayloadWithin remaining])
           | Some (Inr payload) \<Rightarrow>
               rec w deadline (observe_option l payload) (h2 @ [ReadPayloadWithin remaining])
      else Some (Inr l, h @ [Now])) = Some x"
  consider "x = (Inr l, h @ [Now])" | e where "x = (Inl e, h @ ?g)"
    | "within_reply w (h @ [Now, Now]) (ReadPayloadWithin ?d) = None" "x = (Inr l, h @ ?g)"
    | payload where "within_reply w (h @ [Now, Now]) (ReadPayloadWithin ?d) = Some (Inr payload)"
        "rec w deadline (observe_option l payload) (h @ ?g) = Some x"
    using body by (auto simp: Let_def split: if_splits sum.splits option.splits)
  then show "waited w l0 h l x"
  proof cases
    case 3
    have "tracks w l0 (h @ ?g) l" if "tracks w l0 h l"
      using 3(1) tracks_other [of w l0 "h @ [Now, Now]" l "ReadPayloadWithin ?d"]
        tracks_other [of w l0 "h @ [Now]" l Now] tracks_other [OF that, of Now] by simp
    then show ?thesis using 3(2) by (auto simp: waited_def)
  next
    case 4
    show ?thesis
      by (rule waited_more [OF IH [OF 4(2)]]) (use 4(1) tracks_within_late in simp_all)
  qed (simp_all add: waited_late waited_fail)
qed

lemma drain_for_result:
  assumes "drain_for w d l h = Some (Inr l', h')"
  shows "(tracks w l0 h l \<longrightarrow> tracks w l0 h' l') \<and> (\<exists>g. h' = h @ g \<and> quiet g)"
proof -
  have u: "drain_until w (clock w h + d) l (h @ [Now]) = Some (Inr l', h')"
    using assms by (simp add: drain_for_def bind_run_Inr now_def effect_def lift_run_def bind_run_def)
  have "waited w l0 h l (Inr l', h')"
    by (rule waited_more [OF drain_until_waited [OF u]]) (simp_all add: tracks_other)
  then show ?thesis by (auto simp: waited_def)
qed

section \<open>Returning\<close>

text \<open>From its \<open>n\<close>-th reading on the clock shows the deadline or later.\<close>

definition readings :: "peer_effect list \<Rightarrow> nat" where
  "readings h = length (filter (\<lambda>e. e = Now) h)"

definition clock_reaches :: "peer_world \<Rightarrow> instant \<Rightarrow> nat \<Rightarrow> bool" where
  "clock_reaches w deadline n \<longleftrightarrow> (\<forall>h. n \<le> readings h \<longrightarrow> deadline \<le> clock w h)"

lemma readings_simps [simp]:
  "readings (h @ g) = readings h + readings g" "readings [] = 0"
  "readings (Now # h) = Suc (readings h)" "readings (ReadPayload d # h) = readings h"
  "readings (ReadPayloadWithin d # h) = readings h"
  by (simp_all add: readings_def)

lemma receive_until_complete_returns:
  assumes "clock_reaches w deadline n"
  shows "\<exists>x. receive_until_complete w deadline l h = Some x"
proof (induction "n - readings h" arbitrary: l h rule: less_induct)
  case less
  show ?case
  proof (cases "ledger_is_complete l \<or> \<not> clock w h < deadline")
    case True
    then show ?thesis by (auto simp: receive_until_complete.simps [of w deadline l h])
  next
    case False
    then have "readings h < n" using assms [unfolded clock_reaches_def, rule_format, of h] by linarith
    let ?d = "deadline - clock w (h @ [Now])"
    have "n - readings (h @ [Now, Now, ReadPayload ?d]) < n - readings h"
      using \<open>readings h < n\<close> by simp
    then show ?thesis using less False
      by (cases "read_reply w (h @ [Now, Now]) (ReadPayload ?d)")
         (simp_all add: receive_until_complete.simps [of w deadline l h] Let_def effect_def)
  qed
qed

lemma drain_until_returns:
  assumes "clock_reaches w deadline n"
  shows "\<exists>x. drain_until w deadline l h = Some x"
proof (induction "n - readings h" arbitrary: l h rule: less_induct)
  case less
  show ?case
  proof (cases "clock w h < deadline")
    case False
    then show ?thesis by (simp add: drain_until.simps [of w deadline l h])
  next
    case True
    then have "readings h < n" using assms [unfolded clock_reaches_def, rule_format, of h] by linarith
    let ?d = "deadline - clock w (h @ [Now])"
    have "n - readings (h @ [Now, Now, ReadPayloadWithin ?d]) < n - readings h"
      using \<open>readings h < n\<close> by simp
    then show ?thesis using less True
      by (auto simp: drain_until.simps [of w deadline l h] Let_def split: option.splits sum.splits)
  qed
qed

text \<open>
  C15: the waiting loops always return. When the clock reaches the deadline after finitely many
  readings, \<open>receive_until_complete\<close> and the loop of \<open>drain_for\<close> end with a result, whatever the peer
  receives.
\<close>

theorem waiting_returns:
  assumes "clock_reaches w deadline n"
  shows "(\<exists>r h'. receive_until_complete w deadline l h = Some (r, h')) \<and>
    (\<exists>r h'. drain_until w deadline l h = Some (r, h'))"
  using receive_until_complete_returns [OF assms] drain_until_returns [OF assms] by auto

section \<open>Warm-up\<close>

lemma tracks_send: "tracks w l0 h l \<Longrightarrow> tracks w l0 (h @ [SendAudio p]) l"
  "tracks w l0 h l \<Longrightarrow> tracks w l0 (h @ [SendVideo q]) l"
  by (simp_all add: tracks_other)

definition no_phase :: "peer_effect list \<Rightarrow> bool" where
  "no_phase h \<longleftrightarrow> AwaitMeasuredAcknowledgement \<notin> set h"

lemma quiet_no_phase: "quiet g \<Longrightarrow> no_phase g"
  by (simp add: quiet_def no_phase_def)

lemma no_phase_simps [simp]:
  "no_phase []" "no_phase (g @ k) \<longleftrightarrow> no_phase g \<and> no_phase k"
  "no_phase (SendAudio p # g) = no_phase g" "no_phase (SendVideo q # g) = no_phase g"
  "no_phase (Now # g) = no_phase g"
  by (auto simp: no_phase_def)

text \<open>
  A step that keeps the ledger tracked, does not pass the start of the measurement and has sent the
  given packets.
\<close>

definition keeps :: "peer_world \<Rightarrow> packet_ledger \<Rightarrow> peer_effect list \<Rightarrow> packet_ledger
    \<Rightarrow> peer_effect list \<Rightarrow> packet_ledger \<Rightarrow> audio_packet list \<Rightarrow> video_packet list \<Rightarrow> bool" where
  "keeps w l0 h l h' l' as vs \<longleftrightarrow>
     (tracks w l0 h l \<longrightarrow> tracks w l0 h' l') \<and>
     (\<exists>g. h' = h @ g \<and> no_phase g \<and> audio_sends g = as \<and> video_sends g = vs)"

lemma keeps_trans:
  "keeps w l0 h l h1 l1 as vs \<Longrightarrow> keeps w l0 h1 l1 h2 l2 as' vs' \<Longrightarrow>
     keeps w l0 h l h2 l2 (as @ as') (vs @ vs')"
  by (fastforce simp: keeps_def)

lemma keeps_refl [simp]: "keeps w l0 h l h l [] []"
  by (simp add: keeps_def)

lemma keeps_quiet:
  assumes "(tracks w l0 h l \<longrightarrow> tracks w l0 h' l') \<and> (\<exists>g. h' = h @ g \<and> quiet g)"
  shows "keeps w l0 h l h' l' [] []"
  using assms by (auto simp: keeps_def quiet_def no_phase_def)

lemma keeps_effect:
  assumes "answered w h e = []" "e \<noteq> AwaitMeasuredAcknowledgement"
  shows "keeps w l0 h l (h @ [e]) l (audio_of e) (video_of e)"
  using assms by (auto simp: keeps_def no_phase_def tracks_other)

lemma keeps_audio: "keeps w l0 h l (h @ [SendAudio p]) l [p] []"
  using keeps_effect [of w h "SendAudio p"] by simp

lemma keeps_video: "keeps w l0 h l (h @ [SendVideo p]) l [] [p]"
  using keeps_effect [of w h "SendVideo p"] by simp

lemma keeps_now: "keeps w l0 h l (h @ [Now]) l [] []"
  using keeps_effect [of w h Now] by simp

lemma keeps_drain: "drain_pending w l h = (Inr l', h') \<Longrightarrow> keeps w l0 h l h' l' [] []"
  by (rule keeps_quiet) (rule drain_pending_result)

lemma warmup_audio_result:
  "warmup_audio c w ns s l h = (Inr (s', l'), h') \<Longrightarrow>
     as_source s' = as_source s \<and> (\<exists>as. keeps w l0 h l h' l' as [])"
proof (induction ns arbitrary: s l h)
  case Nil
  then show ?case by (auto simp: act_Inr intro: exI [of _ "[]"])
next
  case (Cons n ns)
  obtain p s1 where p: "next_packet c s WarmupPacket (of_nat n) = (p, s1)" by fastforce
  then have s1: "as_source s1 = as_source s" using next_packet_source [of c s WarmupPacket "of_nat n"] by simp
  obtain l1 h1 where d: "drain_pending w l (h @ [SendAudio p]) = (Inr l1, h1)"
    and r: "warmup_audio c w ns s1 l1 h1 = (Inr (s', l'), h')"
    using Cons.prems p by (auto simp: act_Inr)
  obtain as where "as_source s' = as_source s1" "keeps w l0 h1 l1 h' l' as []"
    using Cons.IH [OF r] by blast
  then show ?case
    using s1 keeps_trans [OF keeps_trans [OF keeps_audio keeps_drain [OF d]]] by fastforce
qed

lemma warmup_frame_result:
  "warmup_frame w ps l h = (Inr l', h') \<Longrightarrow> keeps w l0 h l h' l' [] ps"
proof (induction ps arbitrary: l h)
  case Nil
  then show ?case by (auto simp: act_Inr)
next
  case (Cons p ps)
  obtain l1 h1 where d: "drain_pending w l (h @ [SendVideo p]) = (Inr l1, h1)"
    and r: "warmup_frame w ps l1 h1 = (Inr l', h')"
    using Cons.prems by (auto simp: act_Inr)
  show ?case
    using keeps_trans [OF keeps_trans [OF keeps_video keeps_drain [OF d]] Cons.IH [OF r]] by simp
qed

text \<open>Warm-up frames leave the measured ordinals alone.\<close>

definition same_measured :: "video_source \<Rightarrow> video_source \<Rightarrow> bool" where
  "same_measured s s' \<longleftrightarrow> vs_source s' = vs_source s
     \<and> vs_measured_low_ordinal s' = vs_measured_low_ordinal s
     \<and> vs_measured_high_ordinal s' = vs_measured_high_ordinal s"

lemma warmup_next_frame: "same_measured s (snd (next_frame c s WarmupPacket frame))"
  by (simp add: same_measured_def next_frame_def Let_def split: prod.splits)

lemma warmup_video_result:
  "warmup_video c w ns s l h = (Inr (s', l'), h') \<Longrightarrow>
     same_measured s s' \<and> (\<exists>vs. keeps w l0 h l h' l' [] vs)"
proof (induction ns arbitrary: s l h)
  case Nil
  then show ?case by (auto simp: act_Inr same_measured_def intro: exI [of _ "[]"])
next
  case (Cons n ns)
  obtain ps s1 where p: "next_frame c s WarmupPacket (of_nat n) = (ps, s1)" by fastforce
  then have s1: "same_measured s s1" using warmup_next_frame [of s c "of_nat n"] by simp
  obtain l1 h1 where d: "warmup_frame w ps l h = (Inr l1, h1)"
    and r: "warmup_video c w ns s1 l1 h1 = (Inr (s', l'), h')"
    using Cons.prems p by (auto simp: act_Inr)
  obtain vs where "same_measured s1 s'" "keeps w l0 h1 l1 h' l' [] vs"
    using Cons.IH [OF r] by blast
  then show ?case
    using s1 keeps_trans [OF warmup_frame_result [OF d]] by (fastforce simp: same_measured_def)
qed

text \<open>The media of a peer up to timelines and warm-up state.\<close>

definition same_media :: "peer_media \<Rightarrow> peer_media \<Rightarrow> bool" where
  "same_media m m' \<longleftrightarrow>
     rel_option (\<lambda>s s'. as_source s' = as_source s) (pm_audio m) (pm_audio m') \<and>
     rel_option same_measured (pm_video m) (pm_video m') \<and>
     pm_audio_packet_count m' = pm_audio_packet_count m \<and>
     pm_video_frame_count m' = pm_video_frame_count m"

lemma same_media_refl: "same_media m m"
  by (simp add: same_media_def same_measured_def option.rel_refl)

lemma same_media_reset: "same_media m m' \<Longrightarrow> same_media m (reset_timelines m')"
  by (cases "pm_audio m"; cases "pm_audio m'"; cases "pm_video m"; cases "pm_video m'")
     (auto simp: same_media_def reset_timelines_def reset_audio_def reset_video_def same_measured_def)

lemma send_warmup_result:
  assumes "send_warmup c w m l h = (Inr (m', l'), h')"
  shows "same_media m m' \<and> (\<exists>as vs. keeps w l0 h l h' l' as vs)"
proof -
  obtain m1 l1 h1 where a: "(case pm_audio m of
         None \<Rightarrow> return_act (m, l)
       | Some source \<Rightarrow>
           bind_act (warmup_audio c w [0..<WARMUP_AUDIO_PACKETS] source l) (\<lambda>(source', l').
           return_act (m\<lparr>pm_audio := Some source'\<rparr>, l'))) h = (Inr (m1, l1), h1)"
    and v: "(case pm_video m1 of
       None \<Rightarrow> return_act (m1, l1)
     | Some source \<Rightarrow>
         bind_act (warmup_video c w [0..<WARMUP_VIDEO_FRAMES] source l1) (\<lambda>(source', l').
         return_act (m1\<lparr>pm_video := Some source'\<rparr>, l'))) h1 = (Inr (m', l'), h')"
    using assms by (auto simp: send_warmup_def act_Inr)
  have A: "same_media m m1 \<and> (\<exists>as vs. keeps w l0 h l h1 l1 as vs)"
  proof (cases "pm_audio m")
    case None
    then have "m1 = m" "l1 = l" "h1 = h" using a by (auto simp: act_Inr)
    then show ?thesis using same_media_refl keeps_refl by blast
  next
    case (Some s)
    then obtain s' where "warmup_audio c w [0..<WARMUP_AUDIO_PACKETS] s l h = (Inr (s', l1), h1)"
      "m1 = m\<lparr>pm_audio := Some s'\<rparr>"
      using a by (auto simp: act_Inr)
    then show ?thesis using warmup_audio_result [of c w "[0..<WARMUP_AUDIO_PACKETS]" s l h s' l1 h1 l0] Some
      by (auto simp: same_media_def same_measured_def option.rel_refl)
  qed
  have V: "same_media m1 m' \<and> (\<exists>as vs. keeps w l0 h1 l1 h' l' as vs)"
  proof (cases "pm_video m1")
    case None
    then have "m' = m1" "l' = l1" "h' = h1" using v by (auto simp: act_Inr)
    then show ?thesis using same_media_refl keeps_refl by blast
  next
    case (Some s)
    then obtain s' where "warmup_video c w [0..<WARMUP_VIDEO_FRAMES] s l1 h1 = (Inr (s', l'), h')"
      "m' = m1\<lparr>pm_video := Some s'\<rparr>"
      using v by (auto simp: act_Inr)
    then show ?thesis using warmup_video_result [of c w "[0..<WARMUP_VIDEO_FRAMES]" s l1 h1 s' l' h' l0] Some
      by (auto simp: same_media_def option.rel_refl)
  qed
  have "same_media m m'"
    using A V by (cases "pm_audio m"; cases "pm_audio m1"; cases "pm_audio m'"; cases "pm_video m";
        cases "pm_video m1"; cases "pm_video m'") (auto simp: same_media_def same_measured_def)
  then show ?thesis using A V keeps_trans by blast
qed

section \<open>The start of the measurement\<close>

lemma quiet_now [simp]: "now w h = (Inr t, h') \<longleftrightarrow> t = clock w h \<and> h' = h @ [Now]"
  by (auto simp: now_def effect_def)

lemma barrier_now [simp]: "barrier w h = (Inr b, h') \<longleftrightarrow> b = barrier_leader w h \<and> h' = h @ [BarrierWait]"
  by (auto simp: barrier_def effect_def)

lemma tell_now [simp]: "tell e h = (Inr u, h') \<longleftrightarrow> h' = h @ [e]"
  by (auto simp: tell_def effect_def)

lemma keeps_report:
  "report_if w b p h = (Inr u, h') \<Longrightarrow> keeps w l0 h l h' l [] []"
  using keeps_effect [of w h "ReportPhase p" l0 l] by (auto simp: report_if_def act_Inr split: if_splits)

lemma keeps_start:
  "measured_start w h = (Inr t, h') \<Longrightarrow> keeps w l0 h l h' l [] []"
  using keeps_now by (auto simp: measured_start_def split: option.splits)

lemma keeps_tell:
  "e = ResetPacing \<or> e = SetSendOrigin t \<or> e = NotifyMeasuredReady \<or> e = BarrierWait \<Longrightarrow>
     keeps w l0 h l (h @ [e]) l [] []"
  using keeps_effect [of w h e l0 l] by auto

lemma prepare_media_peer_result:
  assumes "prepare_media_peer c w m l h = Some (Inr (t, m', l'), h')"
  shows "same_media m m' \<and>
    (\<exists>h1 as vs. keeps w l0 h l h1 l' as vs \<and> h' = h1 @ [AwaitMeasuredAcknowledgement])"
proof -
  obtain h1 h2 h3 h4 h5 h6 h7 m1 l1 where
    r1: "report_if w (barrier_leader w h) Warmup (h @ [BarrierWait]) = (Inr (), h1)"
    and sw: "send_warmup c w m l (h1 @ [BarrierWait]) = (Inr (m1, l1), h2)"
    and df: "drain_for w ROUTE_SETTLE_TIME l1 h2 = Some (Inr l', h3)"
    and m': "m' = reset_timelines m1"
    and ms: "measured_start w (((h3 @ [BarrierWait]) @ [ResetPacing]) @ [BarrierWait]) = (Inr t, h4)"
    and nt: "(if barrier_leader w (h4 @ [SetSendOrigin t]) then tell NotifyMeasuredReady else return_act ())
      ((h4 @ [SetSendOrigin t]) @ [BarrierWait]) = (Inr (), h5)"
    and fin: "h' = h5 @ [AwaitMeasuredAcknowledgement]"
    using assms by (auto simp: prepare_media_peer_def bind_run_Inr act_Inr Let_def)
  obtain as vs where W: "same_media m m1" "keeps w l0 (h1 @ [BarrierWait]) l h2 l1 as vs"
    using send_warmup_result [OF sw] by blast
  have K1: "keeps w l0 h l (h1 @ [BarrierWait]) l [] []"
    using keeps_trans [OF keeps_trans [OF keeps_tell keeps_report [OF r1]] keeps_tell] by fastforce
  have K3: "keeps w l0 h2 l1 h3 l' [] []" by (rule keeps_quiet) (rule drain_for_result [OF df])
  have K4: "keeps w l0 h3 l' (((h3 @ [BarrierWait]) @ [ResetPacing]) @ [BarrierWait]) l' [] []"
    using keeps_trans [OF keeps_trans [OF keeps_tell [of BarrierWait] keeps_tell [of ResetPacing]]
        keeps_tell [of BarrierWait]] by fastforce
  have K5: "keeps w l0 h4 l' ((h4 @ [SetSendOrigin t]) @ [BarrierWait]) l' [] []"
    using keeps_trans [OF keeps_tell [of "SetSendOrigin t"] keeps_tell [of BarrierWait]] by fastforce
  have K6: "keeps w l0 ((h4 @ [SetSendOrigin t]) @ [BarrierWait]) l' h5 l' [] []"
    using nt keeps_tell [of NotifyMeasuredReady t w l0 "(h4 @ [SetSendOrigin t]) @ [BarrierWait]" l']
    by (auto simp: act_Inr split: if_splits)
  have "keeps w l0 h l h5 l' as vs"
    using keeps_trans [OF keeps_trans [OF keeps_trans [OF keeps_trans [OF keeps_trans [OF
      keeps_trans [OF K1 W(2)] K3] K4] keeps_start [OF ms]] K5] K6] by simp
  then show ?thesis using same_media_reset [OF W(1)] m' fin by blast
qed

section \<open>The measured loop\<close>

text \<open>What remains to be sent from the given ordinals on.\<close>

definition audio_left :: "rfc \<Rightarrow> peer_media \<Rightarrow> u32 \<Rightarrow> audio_packet list" where
  "audio_left c m a =
     (case pm_audio m of
        None \<Rightarrow> []
      | Some s \<Rightarrow> audio_packets c s MeasuredPacket (unat a) (unat (pm_audio_packet_count m) - unat a))"

definition video_left :: "rfc \<Rightarrow> peer_media \<Rightarrow> u32 \<Rightarrow> video_packet list" where
  "video_left c m v =
     (case pm_video m of
        None \<Rightarrow> []
      | Some s \<Rightarrow> video_packets c s MeasuredPacket (unat v) (unat (pm_video_frame_count m) - unat v))"

text \<open>An honest peer reports the payload length of what it sent.\<close>

definition honest_sends :: "peer_world \<Rightarrow> bool" where
  "honest_sends w \<longleftrightarrow>
     (\<forall>h p n. send_reply w h (SendAudio p) = Inr n \<longrightarrow> n = length (ap_payload p)) \<and>
     (\<forall>h p n. send_reply w h (SendVideo p) = Inr n \<longrightarrow> n = length (vp_payload p))"

definition sat :: "nat \<Rightarrow> nat" where
  "sat n = min n (2 ^ 64 - 1)"

lemma sat_sat: "sat (sat a + b) = sat (a + b)"
  by (simp add: sat_def min_def)

text \<open>The counters after sending packets of the given payload lengths.\<close>

definition counts :: "run_observation \<Rightarrow> nat list \<Rightarrow> run_observation \<Rightarrow> bool" where
  "counts before lens after \<longleftrightarrow>
     unat (obs_offered_packets after) = sat (unat (obs_offered_packets before) + length lens) \<and>
     unat (obs_offered_payload_bytes after) = sat (unat (obs_offered_payload_bytes before) + sum_list lens)"

lemma sat_unat: "sat (unat (x :: u64)) = unat x"
proof -
  have "unat x < 2 ^ 64" using unat_less_2p [of x] by simp
  then show ?thesis by (simp add: sat_def)
qed

lemma counts_refl: "counts observation [] observation"
  by (simp add: counts_def sat_unat)

lemma counts_trans: "counts a xs b \<Longrightarrow> counts b ys c \<Longrightarrow> counts a (xs @ ys) c"
  by (simp add: counts_def sat_sat add.assoc)

lemma counts_send: "counts observation [n] (observe_send observation n t e t')"
proof -
  have "min (a + min b m) m = min (a + b) m" for a b m :: nat by (simp add: min_def)
  then show ?thesis by (simp add: counts_def observe_send_def unat_sat sat_def)
qed

lemma counts_order: "counts a xs b \<Longrightarrow> mset xs = mset ys \<Longrightarrow> counts a ys b"
  using mset_eq_length [of xs ys] sum_mset_sum_list [of xs] sum_mset_sum_list [of ys]
  by (simp add: counts_def)

lemma measured_frame_result:
  assumes "honest_sends w"
  shows "measured_frame w t ps observation l h = (Inr (observation', l'), h') \<Longrightarrow>
     keeps w l0 h l h' l' [] ps \<and> counts observation (map (\<lambda>p. length (vp_payload p)) ps) observation'"
proof (induction ps arbitrary: observation l h)
  case Nil
  then show ?case by (auto simp: act_Inr counts_refl)
next
  case (Cons p ps)
  obtain n l1 h1 where n: "send_reply w h (SendVideo p) = Inr n"
    and d: "drain_pending w l ((h @ [SendVideo p]) @ [Now]) = (Inr l1, h1)"
    and r: "measured_frame w t ps (observe_send observation n t (vp_emitted_at p) (clock w (h @ [SendVideo p]))) l1 h1
      = (Inr (observation', l'), h')"
    using Cons.prems by (auto simp: act_Inr)
  have "n = length (vp_payload p)" using assms n by (simp add: honest_sends_def)
  then show ?case
    using Cons.IH [OF r] counts_trans [OF counts_send]
      keeps_trans [OF keeps_trans [OF keeps_trans [OF keeps_video keeps_now] keeps_drain [OF d]]]
    by fastforce
qed

lemma next_turn_None:
  assumes "next_turn m a v = None"
  shows "audio_left c m a = [] \<and> video_left c m v = []"
proof -
  have "pm_audio m = None \<or> \<not> a < pm_audio_packet_count m"
    "pm_video m = None \<or> \<not> v < pm_video_frame_count m"
    using assms by (auto simp: next_turn_def due_if_def Let_def split: option.splits if_splits)
  then show ?thesis
    by (auto simp: audio_left_def video_left_def word_less_nat_alt not_less split: option.splits)
qed

lemma audio_left_step:
  assumes "pm_audio m = Some s" "a < pm_audio_packet_count m"
    and "next_packet c s MeasuredPacket a = (p, s')"
  shows "audio_left c m a = p # audio_left c (m\<lparr>pm_audio := Some s'\<rparr>) (saturating_add a 1)"
proof -
  have lt: "unat a < unat (pm_audio_packet_count m)" using assms(2) by (simp add: word_less_nat_alt)
  then have "unat (pm_audio_packet_count m) - unat a = Suc (unat (pm_audio_packet_count m) - Suc (unat a))"
    by simp
  then show ?thesis using assms ordinal_step [OF assms(2)] by (simp add: audio_left_def)
qed

lemma video_left_step:
  assumes "pm_video m = Some s" "v < pm_video_frame_count m"
    and "next_frame c s MeasuredPacket v = (ps, s')"
  shows "video_left c m v = ps @ video_left c (m\<lparr>pm_video := Some s'\<rparr>) (saturating_add v 1)"
proof -
  have lt: "unat v < unat (pm_video_frame_count m)" using assms(2) by (simp add: word_less_nat_alt)
  then have "unat (pm_video_frame_count m) - unat v = Suc (unat (pm_video_frame_count m) - Suc (unat v))"
    by simp
  then show ?thesis using assms ordinal_step [OF assms(2)] by (simp add: video_left_def)
qed

lemma left_other:
  "video_left c (m\<lparr>pm_audio := s\<rparr>) v = video_left c m v"
  "audio_left c (m\<lparr>pm_video := s'\<rparr>) a = audio_left c m a"
  by (simp_all add: audio_left_def video_left_def split: option.splits)

definition payload_lengths :: "audio_packet list \<Rightarrow> video_packet list \<Rightarrow> nat list" where
  "payload_lengths as vs = map (\<lambda>p. length (ap_payload p)) as @ map (\<lambda>p. length (vp_payload p)) vs"

lemma measured_loop_result:
  "honest_sends w \<Longrightarrow> measured_loop c w t m a v observation l h = (Inr (observation', l'), h') \<Longrightarrow>
     keeps w l0 h l h' l' (audio_left c m a) (video_left c m v) \<and>
     counts observation (payload_lengths (audio_left c m a) (video_left c m v)) observation'"
proof (induction c w t m a v observation l h rule: measured_loop.induct)
  case (1 c w t m a v observation l h)
  note unf = measured_loop.simps [of c w t m a v observation l h]
  consider (stop) "next_turn m a v = None" | (audio) "next_turn m a v = Some AudioTurn"
    | (video) "next_turn m a v = Some VideoTurn"
    by (metis media_turn.exhaust option.exhaust)
  then show ?case
  proof cases
    case stop
    then show ?thesis using "1.prems" next_turn_None [OF stop]
      by (auto simp: unf counts_refl payload_lengths_def)
  next
    case audio
    then obtain s where s: "pm_audio m = Some s"
      using "1.prems" by (cases "pm_audio m") (simp_all add: unf err_def)
    obtain p s' where p: "next_packet c s MeasuredPacket a = (p, s')" by fastforce
    let ?m = "m\<lparr>pm_audio := Some s'\<rparr>" and ?a = "saturating_add a 1"
    let ?step = "bind_act (effect (send_reply w) (SendAudio p)) (\<lambda>payload_len.
      bind_act (now w) (\<lambda>t'. bind_act (drain_pending w l) (\<lambda>l'.
      return_act (observe_send observation payload_len t (ap_emitted_at p) t', l')))) h"
    obtain q h1 where st: "?step = (Inr q, h1)"
      using "1.prems" audio s p by (cases ?step) (auto simp: unf split: sum.splits)
    obtain ob l1 where q: "q = (ob, l1)" by fastforce
    obtain n where n: "send_reply w h (SendAudio p) = Inr n"
      and d: "drain_pending w l ((h @ [SendAudio p]) @ [Now]) = (Inr l1, h1)"
      and ob: "ob = observe_send observation n t (ap_emitted_at p) (clock w (h @ [SendAudio p]))"
      using st q by (auto simp: act_Inr)
    have r: "measured_loop c w t ?m ?a v ob l1 h1 = (Inr (observation', l'), h')"
      using "1.prems" audio s p st q by (simp add: unf)
    have IH: "keeps w l0 h1 l1 h' l' (audio_left c ?m ?a) (video_left c ?m v) \<and>
      counts ob (payload_lengths (audio_left c ?m ?a) (video_left c ?m v)) observation'"
      by (rule "1.IH"(1) [OF audio refl s p [symmetric] st [symmetric] refl q [symmetric] "1.prems"(1) r])
    have left: "audio_left c m a = p # audio_left c ?m ?a" "video_left c ?m v = video_left c m v"
      using audio_left_step [OF s next_turn_Some(1) [OF audio] p] by (simp_all add: left_other)
    have "n = length (ap_payload p)" using "1.prems"(1) n by (simp add: honest_sends_def)
    then have "counts observation [length (ap_payload p)] ob" unfolding ob by (simp only: counts_send)
    from counts_trans [OF this conjunct2 [OF IH]]
    have "counts observation (payload_lengths (audio_left c m a) (video_left c m v)) observation'"
      by (simp add: left payload_lengths_def)
    moreover have "keeps w l0 h l h' l' (audio_left c m a) (video_left c m v)"
      using keeps_trans [OF keeps_trans [OF keeps_trans [OF keeps_audio keeps_now] keeps_drain [OF d]]
        conjunct1 [OF IH]] left by simp
    ultimately show ?thesis by blast
  next
    case video
    then obtain s where s: "pm_video m = Some s"
      using "1.prems" by (cases "pm_video m") (simp_all add: unf err_def)
    obtain ps s' where p: "next_frame c s MeasuredPacket v = (ps, s')" by fastforce
    let ?m = "m\<lparr>pm_video := Some s'\<rparr>" and ?v = "saturating_add v 1"
    obtain q h1 where st: "measured_frame w t ps observation l h = (Inr q, h1)"
      using "1.prems" video s p
      by (cases "measured_frame w t ps observation l h") (auto simp: unf split: sum.splits)
    obtain ob l1 where q: "q = (ob, l1)" by fastforce
    have r: "measured_loop c w t ?m a ?v ob l1 h1 = (Inr (observation', l'), h')"
      using "1.prems" video s p st q by (simp add: unf)
    have IH: "keeps w l0 h1 l1 h' l' (audio_left c ?m a) (video_left c ?m ?v) \<and>
      counts ob (payload_lengths (audio_left c ?m a) (video_left c ?m ?v)) observation'"
      by (rule "1.IH"(2) [OF video refl s p [symmetric] st [symmetric] refl q [symmetric] "1.prems"(1) r])
    have left: "video_left c m v = ps @ video_left c ?m ?v" "audio_left c ?m a = audio_left c m a"
      using video_left_step [OF s next_turn_Some(2) [OF video] p] by (simp_all add: left_other)
    have F: "keeps w l0 h l h1 l1 [] ps" "counts observation (map (\<lambda>p. length (vp_payload p)) ps) ob"
      using measured_frame_result [OF "1.prems"(1), of t ps observation l h ob l1 h1 l0] st q by simp_all
    have "counts observation (payload_lengths (audio_left c m a) (video_left c m v)) observation'"
      by (rule counts_order [OF counts_trans [OF F(2) conjunct2 [OF IH]]])
         (simp add: left payload_lengths_def)
    moreover have "keeps w l0 h l h' l' (audio_left c m a) (video_left c m v)"
      using keeps_trans [OF F(1) conjunct1 [OF IH]] left by simp
    ultimately show ?thesis by blast
  qed
qed

section \<open>The whole task\<close>

text \<open>The sends of the measurement: those after the measured phase was acknowledged.\<close>

definition measured_part :: "peer_effect list \<Rightarrow> peer_effect list" where
  "measured_part h = tl (dropWhile (\<lambda>e. e \<noteq> AwaitMeasuredAcknowledgement) h)"

lemma measured_part_split:
  "no_phase g \<Longrightarrow> measured_part (g @ AwaitMeasuredAcknowledgement # k) = k"
  by (induction g) (auto simp: measured_part_def no_phase_def)

text \<open>
  What a returned task says: the observation holds the counters of the ledger over everything that
  arrived, and the counts of exactly the packets its sources owe.
\<close>

definition task_done ::
  "rfc \<Rightarrow> peer_world \<Rightarrow> peer_media \<Rightarrow> packet_ledger \<Rightarrow> run_observation \<Rightarrow> peer_effect list \<Rightarrow> bool" where
  "task_done c w m l observation h \<longleftrightarrow>
     (let final = observe_all l (arrivals w h) in
      obs_delivered_packets observation = lg_delivered_packets final \<and>
      obs_delivered_payload_bytes observation = lg_delivered_payload_bytes final \<and>
      obs_correctness observation = finish_ledger final \<and>
      0 < obs_elapsed_ms observation) \<and>
     (\<exists>m'. same_media m m' \<and>
        audio_sends (measured_part h) = audio_left c m' 0 \<and>
        video_sends (measured_part h) = video_left c m' 0 \<and>
        counts no_observation (payload_lengths (audio_left c m' 0) (video_left c m' 0)) observation)"

lemma run_media_peer_result:
  assumes "honest_sends w" "run_media_peer c w m l [] = Some (Inr observation, h)"
  shows "task_done c w m l observation h"
proof -
  obtain t m1 l1 h1 ob l2 h2 l3 h3 h4 l4 h5 where
    prep: "prepare_media_peer c w m l [] = Some (Inr (t, m1, l1), h1)"
    and loop: "measured_loop c w t m1 0 0 no_observation l1 h1 = (Inr (ob, l2), h2)"
    and recv: "receive_until_complete w (t + target_duration m1 + PACKET_TIMEOUT) l2 h2 = Some (Inr l3, h3)"
    and rep: "report_if w (barrier_leader w (h3 @ [Now])) Drain ((h3 @ [Now]) @ [BarrierWait]) = (Inr (), h4)"
    and drain: "drain_for w QUIESCENCE_TIMEOUT l3 (h4 @ [BarrierWait]) = Some (Inr l4, h5)"
    and ob: "observation = peer_observation ob l4 (max (clock w h3 - t) (target_duration m1))"
    and h: "h = h5 @ [ClosePeer]"
    using assms(2) by (auto simp: run_media_peer_def bind_run_Inr act_Inr Let_def)
  obtain h0 as vs where P: "same_media m m1" "keeps w l [] l h0 l1 as vs"
    "h1 = h0 @ [AwaitMeasuredAcknowledgement]"
    using prepare_media_peer_result [OF prep] by blast
  have L: "keeps w l h1 l1 h2 l2 (audio_left c m1 0) (video_left c m1 0)"
    "counts no_observation (payload_lengths (audio_left c m1 0) (video_left c m1 0)) ob"
    using measured_loop_result [OF assms(1) loop] by blast+
  have R: "keeps w l h2 l2 h3 l3 [] []"
    using receive_until_complete_waited [OF recv] by (intro keeps_quiet) (auto simp: waited_def)
  have B: "keeps w l h3 l3 (h4 @ [BarrierWait]) l3 [] []"
    using keeps_trans [OF keeps_trans [OF keeps_trans [OF keeps_now keeps_tell [of BarrierWait]]
      keeps_report [OF rep]] keeps_tell [of BarrierWait]] by simp
  have D: "keeps w l (h4 @ [BarrierWait]) l3 h5 l4 [] []"
    by (rule keeps_quiet) (rule drain_for_result [OF drain])
  have C: "keeps w l h5 l4 h l4 [] []"
    unfolding h using keeps_effect [of w h5 ClosePeer l l4] by simp
  have S: "keeps w l h1 l1 h l4 (audio_left c m1 0) (video_left c m1 0)"
    using keeps_trans [OF keeps_trans [OF keeps_trans [OF keeps_trans [OF L(1) R] B] D] C] by simp
  have "tracks w l [] l" by (simp add: tracks_def observe_all_def)
  then have "tracks w l h0 l1" using P(2) by (simp add: keeps_def)
  then have "tracks w l h1 l1" unfolding P(3) by (rule tracks_other) simp
  then have tr: "l4 = observe_all l (arrivals w h)" using S by (simp add: keeps_def tracks_def)
  obtain k where k: "h = h1 @ k" "audio_sends k = audio_left c m1 0" "video_sends k = video_left c m1 0"
    using S by (auto simp: keeps_def)
  have "no_phase h0" using P(2) by (auto simp: keeps_def)
  then have "measured_part h = k" using k(1) P(3) measured_part_split by simp
  moreover have "counts no_observation (payload_lengths (audio_left c m1 0) (video_left c m1 0)) observation"
    using L(2) ob by (simp add: counts_def peer_observation_def)
  moreover have "0 < obs_elapsed_ms observation" using ob by (simp add: peer_observation_def max_one_pos)
  ultimately show ?thesis using P(1) k tr ob
    by (auto simp: task_done_def peer_observation_def Let_def)
qed

section \<open>A task in a healthy world returns\<close>

text \<open>No reply is an error and the clock passes every deadline.\<close>

definition healthy_world :: "peer_world \<Rightarrow> bool" where
  "healthy_world w \<longleftrightarrow>
     (\<forall>h e. is_ok (send_reply w h e)) \<and> (\<forall>h e. is_ok (read_reply w h e)) \<and>
     (\<forall>h e x. within_reply w h e = Some x \<longrightarrow> is_ok x) \<and> (\<forall>h e. is_ok (unit_reply w h e)) \<and>
     (\<forall>d. \<exists>n. clock_reaches w d n)"

definition succeeds :: "('e, 'a) act \<Rightarrow> bool" where
  "succeeds m \<longleftrightarrow> (\<forall>h. \<exists>x h'. m h = (Inr x, h'))"

lemma succeedsD: "succeeds m \<Longrightarrow> \<exists>x h'. m h = (Inr x, h')"
  by (simp add: succeeds_def)

lemma succeeds_return [intro]: "succeeds (return_act x)"
  by (simp add: succeeds_def return_act_def)

lemma succeeds_bind [intro]: "succeeds m \<Longrightarrow> (\<And>x. succeeds (f x)) \<Longrightarrow> succeeds (bind_act m f)"
  unfolding succeeds_def bind_act_def by (metis (mono_tags, lifting) case_prod_conv old.sum.simps(6))

lemma succeeds_effect [intro]: "(\<And>h. is_ok (world h e)) \<Longrightarrow> succeeds (effect world e)"
  unfolding succeeds_def effect_def is_ok_iff by blast

lemma succeeds_now [intro]: "succeeds (now w)" and succeeds_barrier [intro]: "succeeds (barrier w)"
  and succeeds_tell [intro]: "succeeds (tell e)"
  by (simp_all add: now_def barrier_def tell_def succeeds_effect)

lemma succeeds_drain: "healthy_world w \<Longrightarrow> succeeds (drain_pending_from w n l)"
proof (induction n arbitrary: l)
  case 0
  then show ?case by (simp add: succeeds_return)
next
  case (Suc n)
  then show ?case
    by (auto simp: healthy_world_def intro!: succeeds_bind succeeds_effect split: option.splits)
qed

lemma succeeds_drain_pending [intro]: "healthy_world w \<Longrightarrow> succeeds (drain_pending w l)"
  by (simp add: drain_pending_def succeeds_drain)

lemma healthy_send: "healthy_world w \<Longrightarrow> succeeds (effect (send_reply w) e)"
  by (auto simp: healthy_world_def)

lemma succeeds_warmup_audio: "healthy_world w \<Longrightarrow> succeeds (warmup_audio c w ns s l)"
  by (induction ns arbitrary: s l)
     (auto intro!: succeeds_bind healthy_send succeeds_drain_pending split: prod.splits)

lemma succeeds_warmup_frame: "healthy_world w \<Longrightarrow> succeeds (warmup_frame w ps l)"
  by (induction ps arbitrary: l) (auto intro!: succeeds_bind healthy_send succeeds_drain_pending)

lemma succeeds_warmup_video: "healthy_world w \<Longrightarrow> succeeds (warmup_video c w ns s l)"
  by (induction ns arbitrary: s l)
     (auto intro!: succeeds_bind succeeds_warmup_frame split: prod.splits)

lemma succeeds_send_warmup: "healthy_world w \<Longrightarrow> succeeds (send_warmup c w m l)"
  unfolding send_warmup_def
  by (auto intro!: succeeds_bind succeeds_warmup_audio succeeds_warmup_video split: option.splits)

lemma succeeds_report: "healthy_world w \<Longrightarrow> succeeds (report_if w b p)"
  by (auto simp: report_if_def healthy_world_def)

lemma succeeds_start: "succeeds (measured_start w)"
  by (auto simp: succeeds_def measured_start_def split: option.splits)

lemma succeeds_frame: "healthy_world w \<Longrightarrow> succeeds (measured_frame w t ps observation l)"
  by (induction ps arbitrary: observation l)
     (auto intro!: succeeds_bind healthy_send succeeds_drain_pending)

lemma succeeds_loop:
  "healthy_world w \<Longrightarrow> \<exists>x h'. measured_loop c w t m a v observation l h = (Inr x, h')"
proof (induction c w t m a v observation l h rule: measured_loop.induct)
  case (1 c w t m a v observation l h)
  note unf = measured_loop.simps [of c w t m a v observation l h]
  consider (stop) "next_turn m a v = None" | (audio) "next_turn m a v = Some AudioTurn"
    | (video) "next_turn m a v = Some VideoTurn"
    by (metis media_turn.exhaust option.exhaust)
  then show ?case
  proof cases
    case stop
    then show ?thesis by (simp add: unf)
  next
    case audio
    then obtain s where s: "pm_audio m = Some s"
      by (auto simp: next_turn_def due_if_def Let_def split: option.splits if_splits)
    obtain p s' where p: "next_packet c s MeasuredPacket a = (p, s')" by fastforce
    let ?step = "bind_act (effect (send_reply w) (SendAudio p)) (\<lambda>payload_len.
      bind_act (now w) (\<lambda>t'. bind_act (drain_pending w l) (\<lambda>l'.
      return_act (observe_send observation payload_len t (ap_emitted_at p) t', l')))) h"
    have "succeeds (bind_act (effect (send_reply w) (SendAudio p)) (\<lambda>payload_len.
      bind_act (now w) (\<lambda>t'. bind_act (drain_pending w l) (\<lambda>l'.
      return_act (observe_send observation payload_len t (ap_emitted_at p) t', l')))))"
      using "1.prems" by (auto intro!: succeeds_bind healthy_send)
    then obtain q h1 where st: "?step = (Inr q, h1)" using succeedsD by blast
    obtain ob l1 where q: "q = (ob, l1)" by fastforce
    show ?thesis
      using "1.IH"(1) [OF audio refl s p [symmetric] st [symmetric] refl q [symmetric] "1.prems"] audio s p st q
      by (simp add: unf)
  next
    case video
    then obtain s where s: "pm_video m = Some s"
      by (auto simp: next_turn_def due_if_def Let_def split: option.splits if_splits)
    obtain ps s' where p: "next_frame c s MeasuredPacket v = (ps, s')" by fastforce
    obtain q h1 where st: "measured_frame w t ps observation l h = (Inr q, h1)"
      using succeedsD [OF succeeds_frame [OF "1.prems"]] by blast
    obtain ob l1 where q: "q = (ob, l1)" by fastforce
    show ?thesis
      using "1.IH"(2) [OF video refl s p [symmetric] st [symmetric] refl q [symmetric] "1.prems"] video s p st q
      by (simp add: unf)
  qed
qed

text \<open>The same for runs.\<close>

definition returns :: "('e, 'a) run \<Rightarrow> bool" where
  "returns m \<longleftrightarrow> (\<forall>h. \<exists>x h'. m h = Some (Inr x, h'))"

lemma returns_lift [intro]: "succeeds m \<Longrightarrow> returns (lift_run m)"
  by (simp add: returns_def succeeds_def lift_run_def)

lemma returns_bind [intro]: "returns m \<Longrightarrow> (\<And>x. returns (f x)) \<Longrightarrow> returns (bind_run m f)"
  unfolding returns_def bind_run_Inr by metis

lemma receive_no_error:
  assumes "healthy_world w" "receive_until_complete w deadline l h = Some x"
  shows "is_ok (fst x)"
proof -
  have "healthy_world w \<longrightarrow> is_ok (fst x)"
  proof (rule receive_until_complete.raw_induct
      [where P = "\<lambda>w deadline l h x. healthy_world w \<longrightarrow> is_ok (fst x)", OF _ assms(2)])
    fix rec and w :: peer_world and deadline l h x
    let ?d = "deadline - clock w (h @ [Now])"
    assume IH: "\<And>w deadline l h x. rec w deadline l h = Some x \<Longrightarrow> healthy_world w \<longrightarrow> is_ok (fst x)"
      and body: "(if ledger_is_complete l then Some (Inr l, h)
        else if clock w h < deadline then
          let h1 = h @ [Now]; remaining = deadline - clock w h1; h2 = h1 @ [Now]
          in case effect (read_reply w) (ReadPayload remaining) h2 of
               (Inl e, h3) \<Rightarrow> Some (Inl e, h3)
             | (Inr payload, h3) \<Rightarrow> rec w deadline (observe_option l payload) h3
        else Some (Inr l, h @ [Now])) = Some x"
    show "healthy_world w \<longrightarrow> is_ok (fst x)"
    proof
      assume hw: "healthy_world w"
      then obtain payload where "read_reply w (h @ [Now, Now]) (ReadPayload ?d) = Inr payload"
        unfolding healthy_world_def is_ok_iff by blast
      then show "is_ok (fst x)"
        using body IH hw by (auto simp: Let_def effect_def split: if_splits)
    qed
  qed
  then show ?thesis using assms(1) by blast
qed

lemma drain_no_error:
  assumes "healthy_world w" "drain_until w deadline l h = Some x"
  shows "is_ok (fst x)"
proof -
  have "healthy_world w \<longrightarrow> is_ok (fst x)"
  proof (rule drain_until.raw_induct
      [where P = "\<lambda>w deadline l h x. healthy_world w \<longrightarrow> is_ok (fst x)", OF _ assms(2)])
    fix rec and w :: peer_world and deadline l h x
    assume IH: "\<And>w deadline l h x. rec w deadline l h = Some x \<Longrightarrow> healthy_world w \<longrightarrow> is_ok (fst x)"
      and body: "(if clock w h < deadline then
          let h1 = h @ [Now]; remaining = deadline - clock w h1; h2 = h1 @ [Now]
          in case within_reply w h2 (ReadPayloadWithin remaining) of
               None \<Rightarrow> Some (Inr l, h2 @ [ReadPayloadWithin remaining])
             | Some (Inl e) \<Rightarrow> Some (Inl e, h2 @ [ReadPayloadWithin remaining])
             | Some (Inr payload) \<Rightarrow>
                 rec w deadline (observe_option l payload) (h2 @ [ReadPayloadWithin remaining])
        else Some (Inr l, h @ [Now])) = Some x"
    show "healthy_world w \<longrightarrow> is_ok (fst x)"
    proof
      assume hw: "healthy_world w"
      then have "within_reply w h2 e \<noteq> Some (Inl er)" for h2 e er
        unfolding healthy_world_def by fastforce
      then show "is_ok (fst x)"
        using body IH hw by (auto simp: Let_def split: if_splits option.splits sum.splits)
    qed
  qed
  then show ?thesis using assms(1) by blast
qed

lemma returns_receive: "healthy_world w \<Longrightarrow> returns (receive_until_complete w deadline l)"
proof -
  assume hw: "healthy_world w"
  then obtain n where n: "clock_reaches w deadline n" unfolding healthy_world_def by blast
  have "\<exists>x h'. receive_until_complete w deadline l h = Some (Inr x, h')" for h
  proof -
    obtain r h' where r: "receive_until_complete w deadline l h = Some (r, h')"
      using receive_until_complete_returns [OF n, of l h] by auto
    then show ?thesis using receive_no_error [OF hw r] by (auto simp: is_ok_iff)
  qed
  then show ?thesis by (simp add: returns_def)
qed

lemma returns_drain: "healthy_world w \<Longrightarrow> returns (drain_for w d l)"
proof -
  assume hw: "healthy_world w"
  have "returns (drain_until w t l)" for t
  proof -
    obtain n where n: "clock_reaches w t n" using hw unfolding healthy_world_def by blast
    have "\<exists>x h'. drain_until w t l h = Some (Inr x, h')" for h
    proof -
      obtain r h' where r: "drain_until w t l h = Some (r, h')"
        using drain_until_returns [OF n, of l h] by auto
      then show ?thesis using drain_no_error [OF hw r] by (auto simp: is_ok_iff)
    qed
    then show ?thesis by (simp add: returns_def)
  qed
  then show ?thesis unfolding drain_for_def by blast
qed

lemma returns_prepare: "healthy_world w \<Longrightarrow> returns (prepare_media_peer c w m l)"
  unfolding prepare_media_peer_def Let_def
  by (auto intro!: returns_bind returns_lift returns_drain succeeds_send_warmup succeeds_report succeeds_start)

lemma returns_peer:
  assumes "healthy_world w"
  shows "\<exists>observation h'. run_media_peer c w m l h = Some (Inr observation, h')"
proof -
  have "returns (lift_run (measured_loop c w t m' a v observation l'))" for t m' a v observation l'
    using succeeds_loop [OF assms] by (simp add: returns_def lift_run_def)
  moreover have "returns (lift_run (effect (unit_reply w) ClosePeer))"
    using assms by (intro returns_lift succeeds_effect) (simp add: healthy_world_def)
  ultimately have "returns (run_media_peer c w m l)"
    unfolding run_media_peer_def Let_def using assms
    by (auto intro!: returns_bind returns_prepare returns_receive returns_drain succeeds_report)
  then show ?thesis by (simp add: returns_def)
qed

text \<open>
  C14: a peer's task returns. In a world whose replies are no errors and whose clock passes every
  deadline, \<open>run_media_peer\<close> ends with an observation: no loop of the task waits for ever, also when
  packets are lost.
\<close>

theorem run_media_peer_returns:
  assumes "healthy_world w"
  shows "\<exists>observation h'. run_media_peer c w m l h = Some (Inr observation, h')"
  using assms by (rule returns_peer)

text \<open>A silent world: every send succeeds, nothing arrives, the clock ticks with every reading.\<close>

definition silent_world :: peer_world where
  "silent_world =
     \<lparr>send_reply = (\<lambda>h e. Inr (case e of SendAudio p \<Rightarrow> length (ap_payload p)
        | SendVideo p \<Rightarrow> length (vp_payload p) | _ \<Rightarrow> 0)),
      read_reply = (\<lambda>h e. Inr None), within_reply = (\<lambda>h e. None),
      clock = readings, barrier_leader = (\<lambda>h. False), unit_reply = (\<lambda>h e. Inr ()),
      measured_at = (\<lambda>h. Some 0)\<rparr>"

lemma silent_healthy: "healthy_world silent_world"
  by (auto simp: healthy_world_def silent_world_def clock_reaches_def)

lemma silent_honest: "honest_sends silent_world"
  by (simp add: honest_sends_def silent_world_def)

theorem run_media_peer_returns_witness:
  "\<exists>observation h'. run_media_peer rfc_7741 silent_world (audio_media (Some (new_audio_source 1)) 3)
     (new_ledger [two_packet_stream]) [] = Some (Inr observation, h')"
  using run_media_peer_returns [OF silent_healthy] by blast

theorem waiting_returns_witness:
  "\<exists>r h'. receive_until_complete silent_world 50 (new_ledger [two_packet_stream]) [] = Some (r, h')"
proof -
  have "clock_reaches silent_world 50 50" by (simp add: clock_reaches_def silent_world_def)
  from waiting_returns [OF this] show ?thesis by blast
qed

end
