(* ===== verification/RunResult.thy ===== *)
theory RunResult
  imports ScenarioFacts
begin

text \<open>
  The end of \<open>run\<close> in \<open>src/client/scenario.rs\<close>: the observations of all peers are folded, completed
  into a \<open>ScenarioResult\<close>, written and validated. The results tie the parts of the harness together:
  the validation of a finished run succeeds exactly when every peer received exactly the streams its
  ledger expects (warm-up packets apart), and an SFU that forwards what the peers sent always passes.
\<close>

section \<open>Delivered bytes\<close>

lemma inspect_matching_length:
  assumes "inspect_payload p = Inr ins" "payload_matches ins" "stream_matches (identity ins) s"
  shows "length p = stream_payload_len s"
proof -
  obtain offset header len where i: "expected_len (identity ins) = Inr len"
    "payload_matches ins = (length p = len \<and> body_matches (identity ins) p (offset + IDENTITY_HEADER_LEN))"
    using assms(1) by (auto simp: inspect_payload_def checked_iff)
  then show ?thesis using assms(2,3)
    by (auto simp: expected_len_def stream_matches_def stream_payload_len_def
        split: payload_kind.splits option.splits)
qed

definition carried_bytes :: "expected_stream list \<Rightarrow> bytes list \<Rightarrow> nat" where
  "carried_bytes ss ps = sum_list (map (\<lambda>s. length (ordinals s ps) * stream_payload_len s) ss)"

lemma carried_bytes_step:
  assumes "distinct_streams ss" "s \<in> set ss"
    and "\<And>t. f t = (if stream_key t = stream_key s then Suc (g t) else (g t :: nat))"
  shows "sum_list (map (\<lambda>t. f t * stream_payload_len t) ss)
    = sum_list (map (\<lambda>t. g t * stream_payload_len t) ss) + stream_payload_len s"
  using assms(1,2)
proof (induction ss)
  case Nil
  then show ?case by simp
next
  case (Cons t ts)
  show ?case
  proof (cases "t = s")
    case True
    then have "stream_key u \<noteq> stream_key s" if "u \<in> set ts" for u
      using that Cons.prems(1) by (force simp: distinct_streams_def image_iff)
    then have "f u = g u" if "u \<in> set ts" for u using that by (simp add: assms(3))
    then have "map (\<lambda>t. f t * stream_payload_len t) ts = map (\<lambda>t. g t * stream_payload_len t) ts"
      by simp
    moreover have "f t = Suc (g t)" using True assms(3) [of t] by simp
    ultimately show ?thesis using True by (simp only: list.map sum_list.Cons) simp
  next
    case False
    then have s: "s \<in> set ts" using Cons.prems(2) by simp
    then have "stream_key t \<noteq> stream_key s"
      using Cons.prems(1) by (force simp: distinct_streams_def image_iff)
    then have "f t = g t" using assms(3) [of t] by simp
    moreover have "distinct_streams ts" using Cons.prems(1) by (simp add: distinct_streams_def)
    ultimately show ?thesis using Cons.IH s by (simp only: list.map sum_list.Cons add.assoc)
  qed
qed

lemma delivered_bytes_in_order:
  assumes "distinct_streams ss" "list_all fresh_stream ss" "in_order ss ps"
  shows "unat (lg_delivered_payload_bytes (observe_all (new_ledger ss) ps)) = sat (carried_bytes ss ps)"
  using assms(3)
proof (induction ps rule: rev_induct)
  case Nil
  then show ?case
    by (simp add: observe_all_def new_ledger_def carried_bytes_def ordinals_def List.map_filter_def
        sat_def sum_list_0)
next
  case (snoc p ps)
  let ?l = "observe_all (new_ledger ss) ps"
  have io: "in_order ss ps" using snoc.prems by (rule in_order_snocD)
  have st: "lg_streams ?l = progress ss ps" "lg_correctness ?l = no_correctness"
    using observe_all_in_order [OF assms(1,2), of ps] io by simp_all
  have step: "observe_all (new_ledger ss) (ps @ [p]) = observe ?l p" by (simp add: observe_all_def)
  have clean: "lg_correctness (observe ?l p) = no_correctness"
    using observe_in_order [OF assms(1,2) io st] snoc.prems by simp
  show ?case
  proof (cases rule: observe_cases [of ?l p])
    case same
    then obtain ins where "inspect_payload p = Inr ins" "id_phase (identity ins) = WarmupPacket" by blast
    then have "ordinals s (ps @ [p]) = ordinals s ps" for s
      by (simp add: ordinals_append ordinals_single ordinal_of_def)
    then show ?thesis using same(1) snoc.IH io step by (simp add: carried_bytes_def)
  next
    case unexpected
    then show ?thesis using clean count_discrepancy by simp
  next
    case (duplicate ins s')
    then show ?thesis using clean count_discrepancy by simp
  next
    case (accept ins s')
    have m: "payload_matches ins" using clean accept(1) by (simp add: accept_discrepancy)
    obtain s where s: "find (stream_matches (identity ins)) ss = Some s"
      using accept(4) st(1) by (auto simp: find_progress)
    then have ss: "s \<in> set ss" and sm: "stream_matches (identity ins) s" by (auto simp: find_Some_iff)
    have oid: "ordinals t (ps @ [p]) = ordinals t ps
        @ (if stream_key t = stream_key s then [unat (id_ordinal (identity ins))] else [])" for t
      using accept(2,3) matches_same_key [OF sm, of t]
      by (simp add: ordinals_append ordinals_single ordinal_of_def)
    have "carried_bytes ss (ps @ [p]) = carried_bytes ss ps + stream_payload_len s"
      unfolding carried_bytes_def by (rule carried_bytes_step [OF assms(1) ss]) (simp add: oid)
    moreover have "length p = stream_payload_len s" by (rule inspect_matching_length [OF accept(2) m sm])
    moreover have "sat (sat a + min b (2 ^ 64 - 1)) = sat (a + b)" for a b
      by (simp add: sat_def min_def)
    ultimately show ?thesis
      using accept(1) snoc.IH [OF io] step by (simp add: accept_fields unat_sat sat_def)
  qed
qed

lemma exact_bytes:
  assumes "exact_arrivals ss ps"
  shows "carried_bytes ss ps = expected_bytes ss"
  using assms unfolding carried_bytes_def expected_bytes_def exact_arrivals_def
  by (intro arg_cong [where f = sum_list] map_cong) (auto simp: list_all_iff)

lemma exact_deliveries:
  assumes "distinct_streams ss" "list_all fresh_stream ss" "expected_packets ss < 2 ^ 64"
    and "exact_arrivals ss ps"
  shows "unat (lg_delivered_packets (observe_all (new_ledger ss) ps)) = expected_packets ss"
    and "unat (lg_delivered_payload_bytes (observe_all (new_ledger ss) ps)) = sat (expected_bytes ss)"
proof -
  let ?l = "observe_all (new_ledger ss) ps"
  have f: "finish_ledger ?l = no_correctness"
    using ledger_exact_iff [OF assms(1-3)] assms(4) by blast
  have ok: "ledger_ok (expected_packets ss) ?l"
    by (rule observe_all_ledger_ok [OF new_ledger_ok [OF assms(2)] assms(3)])
  then have "unseen_packets (lg_streams ?l) < 2 ^ 64" using assms(3) by (simp add: ledger_ok_def)
  then have "unseen_packets (lg_streams ?l) = 0"
    using missing_packets_finish [of ?l] f by (simp add: no_correctness_def)
  then show "unat (lg_delivered_packets ?l) = expected_packets ss"
    using ok by (simp add: ledger_ok_def)
  have "in_order ss ps" using assms(4) exact_iff_in_order by blast
  then show "unat (lg_delivered_payload_bytes ?l) = sat (expected_bytes ss)"
    using delivered_bytes_in_order [OF assms(1,2)] exact_bytes [OF assms(4)] by simp
qed

section \<open>Offered packets\<close>

lemma layers_partition:
  "length ps = length (layer_payloads Low ps) + length (layer_payloads High ps)"
  "(\<forall>p \<in> set ps. length (vp_payload p) = packet_payload_len (vp_layer p)) \<Longrightarrow>
     sum_list (map (\<lambda>p. length (vp_payload p)) ps)
       = length (layer_payloads Low ps) * 600 + length (layer_payloads High ps) * 1100"
proof -
  have c: "vp_layer p = Low \<or> vp_layer p = High" for p by (cases "vp_layer p") auto
  show "length ps = length (layer_payloads Low ps) + length (layer_payloads High ps)"
    by (induction ps) (use c in \<open>auto simp: layer_payloads_def\<close>)
  show "(\<forall>p \<in> set ps. length (vp_payload p) = packet_payload_len (vp_layer p)) \<Longrightarrow>
     sum_list (map (\<lambda>p. length (vp_payload p)) ps)
       = length (layer_payloads Low ps) * 600 + length (layer_payloads High ps) * 1100"
    by (induction ps) (use c in \<open>auto simp: layer_payloads_def model_consts\<close>)
qed

lemma media_counts_same:
  assumes "media_counts m audio packets video seconds source" "same_media m m'"
  shows "media_counts m' audio packets video seconds source"
  using assms
  by (cases "pm_audio m"; cases "pm_audio m'"; cases "pm_video m"; cases "pm_video m'")
     (auto simp: media_counts_def same_media_def same_measured_def)

lemma audio_left_counts:
  assumes "media_counts m audio packets video seconds source"
  shows "numbered source Audio None MeasuredPacket 0 (map ap_payload (audio_left c m 0))"
    and "length (audio_left c m 0) = (if audio then packets else 0)"
    and "sum_list (map (\<lambda>p. length (ap_payload p)) (audio_left c m 0)) = (if audio then packets * 80 else 0)"
proof -
  have "map (\<lambda>p. length (ap_payload p)) (audio_packets c s MeasuredPacket 0 n) = replicate n 80" for s n
    using audio_packets_numbered [of c s MeasuredPacket 0 n] by (intro replicate_eqI) auto
  then show "sum_list (map (\<lambda>p. length (ap_payload p)) (audio_left c m 0)) = (if audio then packets * 80 else 0)"
    using assms by (auto simp: media_counts_def audio_left_def sum_list_replicate split: option.splits)
  show "numbered source Audio None MeasuredPacket 0 (map ap_payload (audio_left c m 0))"
    and "length (audio_left c m 0) = (if audio then packets else 0)"
    using assms audio_packets_numbered
    by (auto simp: media_counts_def audio_left_def split: option.splits)
qed

lemma video_left_counts:
  assumes "rfc_values c" "media_counts m audio packets video seconds source" "seconds \<le> 3600"
  shows "numbered source Video (Some Low) MeasuredPacket 0 (layer_payloads Low (video_left c m 0))"
    and "numbered source Video (Some High) MeasuredPacket 0 (layer_payloads High (video_left c m 0))"
    and "length (layer_payloads Low (video_left c m 0)) = (if video then low_packets_in seconds else 0)"
    and "length (layer_payloads High (video_left c m 0)) = (if video then high_packets_in seconds else 0)"
    and "\<forall>p \<in> set (video_left c m 0). length (vp_payload p) = packet_payload_len (vp_layer p)"
proof -
  have v: "numbered source Video (Some Low) MeasuredPacket 0 (layer_payloads Low (video_left c m 0)) \<and>
    numbered source Video (Some High) MeasuredPacket 0 (layer_payloads High (video_left c m 0)) \<and>
    length (layer_payloads Low (video_left c m 0)) = (if video then low_packets_in seconds else 0) \<and>
    length (layer_payloads High (video_left c m 0)) = (if video then high_packets_in seconds else 0) \<and>
    (\<forall>p \<in> set (video_left c m 0). length (vp_payload p) = packet_payload_len (vp_layer p))"
  proof (cases "pm_video m")
    case None
    then show ?thesis using assms(2) by (simp add: media_counts_def video_left_def layer_payloads_def)
  next
    case (Some s)
    then have s: "video" "unat (pm_video_frame_count m) = 30 * seconds" "vs_source s = source"
      "low_ordinal MeasuredPacket s = of_nat 0" "high_ordinal MeasuredPacket s = of_nat 0"
      using assms(2) by (auto simp: media_counts_def)
    then show ?thesis
      using video_packets_numbered [OF assms(1) s(4,5), of 0 "30 * seconds"] assms(3) Some stream_counts [of seconds]
      by (simp add: video_left_def)
  qed
  then show "numbered source Video (Some Low) MeasuredPacket 0 (layer_payloads Low (video_left c m 0))"
    and "numbered source Video (Some High) MeasuredPacket 0 (layer_payloads High (video_left c m 0))"
    and "length (layer_payloads Low (video_left c m 0)) = (if video then low_packets_in seconds else 0)"
    and "length (layer_payloads High (video_left c m 0)) = (if video then high_packets_in seconds else 0)"
    and "\<forall>p \<in> set (video_left c m 0). length (vp_payload p) = packet_payload_len (vp_layer p)"
    by blast+
qed

definition offered_of :: "bool \<Rightarrow> nat \<Rightarrow> bool \<Rightarrow> nat \<Rightarrow> nat" where
  "offered_of audio packets video seconds = (if audio then packets else 0)
     + (if video then low_packets_in seconds + high_packets_in seconds else 0)"

definition offered_bytes_of :: "bool \<Rightarrow> nat \<Rightarrow> bool \<Rightarrow> nat \<Rightarrow> nat" where
  "offered_bytes_of audio packets video seconds = (if audio then packets * 80 else 0)
     + (if video then low_packets_in seconds * 600 + high_packets_in seconds * 1100 else 0)"

lemma offered_counts:
  assumes "rfc_values c" "media_counts m audio packets video seconds source" "seconds \<le> 3600"
    and "counts no_observation (payload_lengths (audio_left c m 0) (video_left c m 0)) observation"
  shows "unat (obs_offered_packets observation) = sat (offered_of audio packets video seconds)"
    and "unat (obs_offered_payload_bytes observation) = sat (offered_bytes_of audio packets video seconds)"
proof -
  note a = audio_left_counts [OF assms(2), of c]
  note v = video_left_counts [OF assms(1-3)]
  have "length (payload_lengths (audio_left c m 0) (video_left c m 0)) = offered_of audio packets video seconds"
    using a(2) v(3,4) layers_partition(1) [of "video_left c m 0"]
    by (simp add: payload_lengths_def offered_of_def)
  moreover have "sum_list (payload_lengths (audio_left c m 0) (video_left c m 0))
      = offered_bytes_of audio packets video seconds"
    using a(3) v(3,4) layers_partition(2) [OF v(5)]
    by (simp add: payload_lengths_def offered_bytes_of_def)
  ultimately show "unat (obs_offered_packets observation) = sat (offered_of audio packets video seconds)"
    and "unat (obs_offered_payload_bytes observation) = sat (offered_bytes_of audio packets video seconds)"
    using assms(4) by (simp_all add: counts_def no_observation_def)
qed

section \<open>Offered packets of the whole run\<close>

lemma peer_setup:
  assumes "bounded_spec spec" "room < rooms_of spec" "peer < peers_of spec"
  shows "scenario_peer spec (of_nat room) peer
      = Inr (media_of_peer spec room peer, new_ledger (peer_streams spec room peer))"
    and "media_counts (media_of_peer spec room peer)
      (peer < unat (audio_publishers_per_room spec)) (spec_audio_packets spec)
      (peer < unat (video_publishers_per_room spec)) (unat (duration_seconds spec))
      (of_nat (source_number (of_nat room) (peers_per_room spec) peer))"
  using scenario_peer_bounded [OF assms]
  by (auto simp: media_of_peer_def peer_streams_def new_ledger_def)

definition peer_offered :: "scenario_spec \<Rightarrow> nat \<Rightarrow> nat" where
  "peer_offered spec peer = offered_of (peer < unat (audio_publishers_per_room spec))
     (spec_audio_packets spec) (peer < unat (video_publishers_per_room spec)) (unat (duration_seconds spec))"

definition peer_offered_bytes :: "scenario_spec \<Rightarrow> nat \<Rightarrow> nat" where
  "peer_offered_bytes spec peer = offered_bytes_of (peer < unat (audio_publishers_per_room spec))
     (spec_audio_packets spec) (peer < unat (video_publishers_per_room spec)) (unat (duration_seconds spec))"

lemma sum_publishers:
  assumes "M \<le> (N :: nat)"
  shows "(\<Sum>k<N. if k < M then a else 0) = M * (a :: nat)"
proof -
  have "(\<Sum>k<N. if k < M then a else 0) = (\<Sum>k \<in> {..<N} \<inter> {k. k < M}. a)"
    by (rule sum.inter_restrict [symmetric, OF finite_lessThan, of "{k. k < M}", simplified mem_Collect_eq])
  moreover have "{..<N} \<inter> {k. k < M} = {..<M}" using assms by auto
  ultimately show ?thesis by simp
qed

lemma sum_offered:
  assumes "bounded_spec spec"
  shows "(\<Sum>peer<peers_of spec. peer_offered spec peer)
      = unat (audio_publishers_per_room spec) * spec_audio_packets spec
        + unat (video_publishers_per_room spec)
          * (low_packets_in (unat (duration_seconds spec)) + high_packets_in (unat (duration_seconds spec)))"
    and "(\<Sum>peer<peers_of spec. peer_offered_bytes spec peer)
      = unat (audio_publishers_per_room spec) * (spec_audio_packets spec * 80)
        + unat (video_publishers_per_room spec)
          * (low_packets_in (unat (duration_seconds spec)) * 600
             + high_packets_in (unat (duration_seconds spec)) * 1100)"
  unfolding peer_offered_def offered_of_def peer_offered_bytes_def offered_bytes_of_def sum.distrib
    sum_publishers [OF publishers_le(1) [OF assms]] sum_publishers [OF publishers_le(2) [OF assms]]
  by (rule refl)+

lemma plan_offered:
  assumes "bounded_spec spec" "plan spec = Inr p"
  shows "unat (wp_offered_packets p) = rooms_of spec * (\<Sum>peer<peers_of spec. peer_offered spec peer) \<and>
    unat (wp_offered_payload_bytes p) = rooms_of spec * (\<Sum>peer<peers_of spec. peer_offered_bytes spec peer)"
proof -
  have "unat (wp_offered_packets p) = rooms_of spec *
      (unat (audio_publishers_per_room spec) * spec_audio_packets spec
        + unat (video_publishers_per_room spec)
          * (low_packets_in (unat (duration_seconds spec)) + high_packets_in (unat (duration_seconds spec)))) \<and>
    unat (wp_offered_payload_bytes p) = rooms_of spec *
      (unat (audio_publishers_per_room spec) * (spec_audio_packets spec * 80)
        + unat (video_publishers_per_room spec)
          * (low_packets_in (unat (duration_seconds spec)) * 600
             + high_packets_in (unat (duration_seconds spec)) * 1100))" (is ?counts)
  proof (cases spec)
    case (Smoke receivers packets)
    then show ?counts
      using smoke_plan_values [of receivers packets p] assms(2)
      by (simp add: is_audio_plan_def rooms_of_def)
  next
    case (AudioMesh rooms peers seconds)
    then show ?counts
      using audio_plan_values(1) [of rooms peers peers seconds p] assms(2)
      by (simp add: is_audio_plan_def rooms_of_def algebra_simps)
  next
    case (VideoGallery rooms peers publishers seconds)
    then show ?counts
      using video_plan_values(1) [of rooms peers publishers seconds p] assms(2)
      by (simp add: is_video_plan_def rooms_of_def algebra_simps)
  next
    case (MixedConference rooms peers aps vps seconds)
    obtain a v where av: "audio_plan rooms peers aps seconds = Inr a"
      "video_plan rooms peers vps seconds = Inr v" "plan_sum a v p"
      using mixed_plan_values assms(2) MixedConference by fastforce
    show ?counts
      using audio_plan_values(1) [OF av(1)] video_plan_values(1) [OF av(2)] av(3) MixedConference
      by (simp add: is_audio_plan_def is_video_plan_def plan_sum_def rooms_of_def algebra_simps)
  qed
  then show ?thesis unfolding sum_offered [OF assms(1)] .
qed

section \<open>Folding the observations\<close>

lemma merge_counts:
  "unat (obs_offered_packets (merge_observation a b)) = sat (unat (obs_offered_packets a) + unat (obs_offered_packets b))"
  "unat (obs_offered_payload_bytes (merge_observation a b))
     = sat (unat (obs_offered_payload_bytes a) + unat (obs_offered_payload_bytes b))"
  "unat (obs_delivered_packets (merge_observation a b))
     = sat (unat (obs_delivered_packets a) + unat (obs_delivered_packets b))"
  "unat (obs_delivered_payload_bytes (merge_observation a b))
     = sat (unat (obs_delivered_payload_bytes a) + unat (obs_delivered_payload_bytes b))"
  "obs_correctness (merge_observation a b) = no_correctness \<longleftrightarrow>
     obs_correctness a = no_correctness \<and> obs_correctness b = no_correctness"
proof -
  have "merge_correctness c d = no_correctness \<longleftrightarrow> c = no_correctness \<and> d = no_correctness" for c d
    by (cases c; cases d) (auto simp: merge_correctness_def no_correctness_def saturating_add_eq_0)
  then show "obs_correctness (merge_observation a b) = no_correctness \<longleftrightarrow>
     obs_correctness a = no_correctness \<and> obs_correctness b = no_correctness"
    by (simp add: merge_observation_def)
qed (simp_all add: merge_observation_def unat_sat sat_def)

text \<open>A counter that merging adds up with saturation.\<close>

definition adds_up :: "(run_observation \<Rightarrow> u64) \<Rightarrow> bool" where
  "adds_up f \<longleftrightarrow> f no_observation = 0 \<and>
     (\<forall>a b. unat (f (merge_observation a b)) = sat (unat (f a) + unat (f b)))"

lemma counters_add_up:
  "adds_up obs_offered_packets" "adds_up obs_offered_payload_bytes"
  "adds_up obs_delivered_packets" "adds_up obs_delivered_payload_bytes"
  by (simp_all add: adds_up_def merge_counts no_observation_def)

lemma adds_up_sum:
  assumes "adds_up f" "\<And>x. x \<in> set xs \<Longrightarrow> unat (f (g x)) = sat (n x)"
  shows "unat (f (foldl merge_observation no_observation (map g xs))) = sat (sum_list (map n xs))"
  using assms(2)
proof (induction xs)
  case Nil
  then show ?case using assms(1) by (simp add: adds_up_def sat_def)
next
  case (Cons x xs)
  have "sat (sat a + sat b) = sat (a + b)" for a b by (simp add: sat_def min_def)
  then show ?case using Cons assms(1)
    by (simp add: adds_up_def observation.foldl_Cons del: foldl_Cons)
qed

lemma clean_sum:
  "obs_correctness (foldl merge_observation no_observation os) = no_correctness \<longleftrightarrow>
     list_all (\<lambda>observation. obs_correctness observation = no_correctness) os"
proof (induction os)
  case Nil
  then show ?case by (simp add: no_observation_def)
next
  case (Cons observation os)
  then show ?case by (simp add: observation.foldl_Cons merge_counts(5) del: foldl_Cons)
qed

section \<open>The end of a run\<close>

datatype run_effect =
    MakeDirs fs_path
  | WriteResult fs_path string

record run_world =
  result_to_json :: "scenario_result \<Rightarrow> string result"
  file_reply :: "run_effect list \<Rightarrow> run_effect \<Rightarrow> unit result"

definition write_result :: "run_world \<Rightarrow> fs_path \<Rightarrow> scenario_result \<Rightarrow> (run_effect, unit) act" where
  "write_result w output_path r =
     bind_act (case path_parent output_path of
         Some parent \<Rightarrow>
           if is_empty_path parent then return_act ()
           else act_context ''failed to create the result directory''
             (effect (file_reply w) (MakeDirs parent))
       | None \<Rightarrow> return_act ()) (\<lambda>_.
     bind_act (act_context ''failed to encode the result'' (lift_act (result_to_json w r))) (\<lambda>payload.
     act_context ''failed to write the scenario result''
       (effect (file_reply w) (WriteResult output_path payload))))"

text \<open>\<open>tokio::try_join!\<close> fails with the error of the branch that fails first: the left one if \<open>left_first\<close>.\<close>

definition try_join :: "bool \<Rightarrow> 'a result \<Rightarrow> 'b result \<Rightarrow> ('a \<times> 'b) result" where
  "try_join left_first a b =
     (if left_first then bind_ok a (\<lambda>x. bind_ok b (\<lambda>y. Inr (x, y)))
      else bind_ok b (\<lambda>y. bind_ok a (\<lambda>x. Inr (x, y))))"

text \<open>The task of one room names the room when it fails.\<close>

definition room_task :: "nat \<Rightarrow> run_observation result \<Rightarrow> run_observation result" where
  "room_task room_index r = with_context (''load room '' @ show_nat room_index @ '' failed'') r"

lemma room_task_Inr [simp]: "room_task room_index (Inr x) = Inr x"
  by (simp add: room_task_def)

text \<open>
  The rest of \<open>run\<close>. \<open>rooms\<close> is what \<open>room_tasks.join_next\<close> yields and \<open>reported\<close> the result of \<open>report_measured\<close>;
  \<open>usize\<close> has 64 bits.
\<close>

definition run_scenario ::
  "run_world \<Rightarrow> string \<Rightarrow> fs_path \<Rightarrow> scenario_spec \<Rightarrow> bool \<Rightarrow> run_observation result result list
     \<Rightarrow> unit result \<Rightarrow> (run_effect, scenario_result) act" where
  "run_scenario w revision output_path spec rooms_first rooms reported =
     bind_act (lift_act (validate_spec spec)) (\<lambda>_.
     bind_act (lift_act (peer_total spec)) (\<lambda>peers.
     bind_act (lift_act (try_join rooms_first (collect_rooms rooms) reported)) (\<lambda>(observation, _).
     bind_act (lift_act (completed revision spec observation)) (\<lambda>r.
     bind_act (write_result w output_path r) (\<lambda>_.
     bind_act (lift_act (validate_result r spec)) (\<lambda>_.
     return_act r))))))"

section \<open>When a run succeeds\<close>

text \<open>
  The peers of a run: the world of each peer task, what it returned and its history.
\<close>

type_synonym peer_tasks = "nat \<Rightarrow> nat \<Rightarrow> peer_world \<times> run_observation \<times> peer_effect list"

definition task_world :: "peer_tasks \<Rightarrow> nat \<Rightarrow> nat \<Rightarrow> peer_world" where
  "task_world t room peer = fst (t room peer)"

definition task_result :: "peer_tasks \<Rightarrow> nat \<Rightarrow> nat \<Rightarrow> run_observation" where
  "task_result t room peer = fst (snd (t room peer))"

definition task_history :: "peer_tasks \<Rightarrow> nat \<Rightarrow> nat \<Rightarrow> peer_effect list" where
  "task_history t room peer = snd (snd (t room peer))"

definition received :: "peer_tasks \<Rightarrow> nat \<Rightarrow> nat \<Rightarrow> bytes list" where
  "received t room peer = arrivals (task_world t room peer) (task_history t room peer)"

text \<open>Every peer of the specification ran its task to the end, in a world that counts sends honestly.\<close>

definition ran_all :: "rfc \<Rightarrow> scenario_spec \<Rightarrow> peer_tasks \<Rightarrow> bool" where
  "ran_all c spec t \<longleftrightarrow> rfc_values c \<and> (\<forall>room < rooms_of spec. \<forall>peer < peers_of spec.
     honest_sends (task_world t room peer) \<and>
     run_media_peer c (task_world t room peer) (media_of_peer spec room peer)
       (new_ledger (peer_streams spec room peer)) []
     = Some (Inr (task_result t room peer), task_history t room peer))"

text \<open>What the tasks of a room and of the run yield, in any order of finishing.\<close>

definition yielded :: "scenario_spec \<Rightarrow> peer_tasks \<Rightarrow> run_observation result result list \<Rightarrow> bool" where
  "yielded spec t rooms \<longleftrightarrow> (\<exists>finished.
     (\<forall>room < rooms_of spec. mset (finished room)
        = mset (map (\<lambda>peer. Inr (Inr (task_result t room peer))) [0..<peers_of spec])) \<and>
     mset rooms = mset (map (\<lambda>room. Inr (room_task room (collect_peer_observations (finished room))))
       [0..<rooms_of spec]))"

definition room_observation :: "scenario_spec \<Rightarrow> peer_tasks \<Rightarrow> nat \<Rightarrow> run_observation" where
  "room_observation spec t room =
     foldl merge_observation no_observation (map (task_result t room) [0..<peers_of spec])"

definition whole_observation :: "scenario_spec \<Rightarrow> peer_tasks \<Rightarrow> run_observation" where
  "whole_observation spec t =
     foldl merge_observation no_observation (map (room_observation spec t) [0..<rooms_of spec])"

lemma collected_map:
  "collect_peer_observations (map (\<lambda>x. Inr (Inr (g x))) xs) = Inr (foldl merge_observation no_observation (map g xs))"
  "collect_rooms (map (\<lambda>x. Inr (Inr (g x))) xs) = Inr (foldl merge_observation no_observation (map g xs))"
  using collect_from_map [of _ no_observation "map g xs"]
  by (simp_all add: collect_peer_observations_def collect_rooms_def o_def)

lemma yielded_collect:
  assumes "yielded spec t rooms"
  shows "collect_rooms rooms = Inr (whole_observation spec t)"
proof -
  obtain finished where f:
    "\<forall>room < rooms_of spec. mset (finished room)
        = mset (map (\<lambda>peer. Inr (Inr (task_result t room peer))) [0..<peers_of spec])"
    "mset rooms = mset (map (\<lambda>room. Inr (room_task room (collect_peer_observations (finished room))))
       [0..<rooms_of spec])"
    using assms unfolding yielded_def by blast
  have "collect_peer_observations (finished room) = Inr (room_observation spec t room)"
    if "room < rooms_of spec" for room
  proof -
    have "mset (map (\<lambda>peer. Inr (Inr (task_result t room peer))) [0..<peers_of spec]) = mset (finished room)"
      using f(1) that by simp
    moreover have "collect_peer_observations (map (\<lambda>peer. Inr (Inr (task_result t room peer))) [0..<peers_of spec])
        = Inr (room_observation spec t room)"
      unfolding room_observation_def by (rule collected_map(1))
    ultimately show ?thesis unfolding collect_peer_observations_def by (rule collect_from_order)
  qed
  then have eq: "map (\<lambda>room. Inr (room_task room (collect_peer_observations (finished room)))) [0..<rooms_of spec]
      = map (\<lambda>room. Inr (Inr (room_observation spec t room))) [0..<rooms_of spec]" by simp
  have m: "mset (map (\<lambda>room. Inr (Inr (room_observation spec t room))) [0..<rooms_of spec]) = mset rooms"
    using f(2) unfolding eq by (rule sym)
  have "collect_rooms (map (\<lambda>room. Inr (Inr (room_observation spec t room))) [0..<rooms_of spec])
      = Inr (whole_observation spec t)"
    unfolding whole_observation_def by (rule collected_map(2))
  then show ?thesis unfolding collect_rooms_def by (rule collect_from_order [OF m])
qed

lemma smoke_seconds: "n \<le> 180000 \<Longrightarrow> div_ceil_nat n 50 \<le> 3600"
  using div_mult_mod_eq [of n 50] unfolding div_ceil_nat_def by (auto split: if_splits; linarith)

lemma bounded_seconds: "bounded_spec spec \<Longrightarrow> unat (duration_seconds spec) \<le> 3600"
  by (cases spec)
    (auto simp: bounded_nat unat_div_ceil model_consts smoke_seconds simp del: bounded_spec.simps)

lemma task_facts:
  assumes "ran_all c spec t" "is_ok (validate_spec spec)" "room < rooms_of spec" "peer < peers_of spec"
  shows "unat (obs_offered_packets (task_result t room peer)) = sat (peer_offered spec peer)"
    and "unat (obs_offered_payload_bytes (task_result t room peer)) = sat (peer_offered_bytes spec peer)"
    and "obs_correctness (task_result t room peer) = no_correctness \<longleftrightarrow>
      exact_arrivals (peer_streams spec room peer) (received t room peer)"
    and "exact_arrivals (peer_streams spec room peer) (received t room peer) \<Longrightarrow>
      unat (obs_delivered_packets (task_result t room peer)) = sat (expected_packets (peer_streams spec room peer))"
    and "exact_arrivals (peer_streams spec room peer) (received t room peer) \<Longrightarrow>
      unat (obs_delivered_payload_bytes (task_result t room peer)) = sat (expected_bytes (peer_streams spec room peer))"
proof -
  let ?ss = "peer_streams spec room peer"
  have b: "bounded_spec spec" using assms(2) by (simp add: validate_spec_iff)
  note secs = bounded_seconds [OF b]
  have td: "task_done c (task_world t room peer) (media_of_peer spec room peer) (new_ledger ?ss)
      (task_result t room peer) (task_history t room peer)"
    using assms(1,3,4) by (intro run_media_peer_result) (auto simp: ran_all_def)
  then obtain m' where m: "same_media (media_of_peer spec room peer) m'"
    "counts no_observation (payload_lengths (audio_left c m' 0) (video_left c m' 0)) (task_result t room peer)"
    by (auto simp: task_done_def)
  note mc = media_counts_same [OF peer_setup(2) [OF b assms(3,4)] m(1)]
  have rfc: "rfc_values c" using assms(1) by (simp add: ran_all_def)
  show "unat (obs_offered_packets (task_result t room peer)) = sat (peer_offered spec peer)"
    "unat (obs_offered_payload_bytes (task_result t room peer)) = sat (peer_offered_bytes spec peer)"
    using offered_counts [OF rfc mc secs m(2)] by (simp_all add: peer_offered_def peer_offered_bytes_def)
  let ?l = "observe_all (new_ledger ?ss) (received t room peer)"
  have r: "obs_delivered_packets (task_result t room peer) = lg_delivered_packets ?l"
    "obs_delivered_payload_bytes (task_result t room peer) = lg_delivered_payload_bytes ?l"
    "obs_correctness (task_result t room peer) = finish_ledger ?l"
    using td by (auto simp: task_done_def Let_def received_def)
  have s: "distinct_streams ?ss" "list_all fresh_stream ?ss" "expected_packets ?ss < 2 ^ 64"
    using peer_streams_distinct [OF b assms(3,4)] peer_streams_fresh [OF b assms(3,4)]
      peer_expected_small [OF assms(2-4)] by simp_all
  show "obs_correctness (task_result t room peer) = no_correctness \<longleftrightarrow>
      exact_arrivals ?ss (received t room peer)"
    unfolding r(3) by (rule ledger_exact_iff [OF s])
  have "sat (expected_packets ?ss) = expected_packets ?ss" using s(3) by (simp add: sat_def)
  then show "unat (obs_delivered_packets (task_result t room peer)) = sat (expected_packets ?ss)"
    "unat (obs_delivered_payload_bytes (task_result t room peer)) = sat (expected_bytes ?ss)"
    if "exact_arrivals ?ss (received t room peer)"
    using exact_deliveries [OF s that] r by simp_all
qed

text \<open>Sums over all peers of all rooms, as the folds compute them.\<close>

lemma whole_sum:
  assumes "adds_up f" "\<And>room peer. room < rooms_of spec \<Longrightarrow> peer < peers_of spec \<Longrightarrow>
      unat (f (task_result t room peer)) = sat (n room peer)"
  shows "unat (f (whole_observation spec t)) = sat (\<Sum>room<rooms_of spec. \<Sum>peer<peers_of spec. n room peer)"
proof -
  have "unat (f (room_observation spec t room)) = sat (\<Sum>peer<peers_of spec. n room peer)"
    if "room < rooms_of spec" for room
    unfolding room_observation_def
    using adds_up_sum [OF assms(1), of "[0..<peers_of spec]" "task_result t room" "n room"] assms(2) that
    by (simp add: sum_list_sum_nth atLeast0LessThan)
  then show ?thesis unfolding whole_observation_def
    using adds_up_sum [OF assms(1), of "[0..<rooms_of spec]" "room_observation spec t"
        "\<lambda>room. \<Sum>peer<peers_of spec. n room peer"]
    by (simp add: sum_list_sum_nth atLeast0LessThan)
qed

lemma whole_clean:
  "obs_correctness (whole_observation spec t) = no_correctness \<longleftrightarrow>
     (\<forall>room < rooms_of spec. \<forall>peer < peers_of spec. obs_correctness (task_result t room peer) = no_correctness)"
  by (auto simp: whole_observation_def room_observation_def clean_sum list_all_iff)

definition all_exact :: "scenario_spec \<Rightarrow> peer_tasks \<Rightarrow> bool" where
  "all_exact spec t \<longleftrightarrow> (\<forall>room < rooms_of spec. \<forall>peer < peers_of spec.
     exact_arrivals (peer_streams spec room peer) (received t room peer))"

lemma observes_plan_iff:
  assumes "is_ok (validate_spec spec)" "plan spec = Inr p" "ran_all c spec t"
  shows "observes_plan p (whole_observation spec t) \<longleftrightarrow> all_exact spec t"
proof -
  have b: "bounded_spec spec" using assms(1) by (simp add: validate_spec_iff)
  note facts = task_facts [OF assms(3,1)]
  have clean: "obs_correctness (whole_observation spec t) = no_correctness \<longleftrightarrow> all_exact spec t"
    using facts(3) by (auto simp: whole_clean all_exact_def)
  have su: "sat (unat x) = unat x" for x :: u64 by (rule sat_unat)
  have "unat (obs_offered_packets (whole_observation spec t)) = unat (wp_offered_packets p)"
    "unat (obs_offered_payload_bytes (whole_observation spec t)) = unat (wp_offered_payload_bytes p)"
  proof -
    have "(\<Sum>room<rooms_of spec. \<Sum>peer<peers_of spec. peer_offered spec peer) = unat (wp_offered_packets p)"
      "(\<Sum>room<rooms_of spec. \<Sum>peer<peers_of spec. peer_offered_bytes spec peer)
        = unat (wp_offered_payload_bytes p)"
      using plan_offered [OF b assms(2)] by simp_all
    then show "unat (obs_offered_packets (whole_observation spec t)) = unat (wp_offered_packets p)"
      "unat (obs_offered_payload_bytes (whole_observation spec t)) = unat (wp_offered_payload_bytes p)"
      using whole_sum [of _ spec t "\<lambda>_. peer_offered spec", OF counters_add_up(1) facts(1)]
        whole_sum [of _ spec t "\<lambda>_. peer_offered_bytes spec", OF counters_add_up(2) facts(2)]
      by (simp_all only: su)
  qed
  moreover have "unat (obs_delivered_packets (whole_observation spec t)) = unat (wp_expected_deliveries p)"
    "unat (obs_delivered_payload_bytes (whole_observation spec t)) = unat (wp_expected_delivery_payload_bytes p)"
    if e: "all_exact spec t"
    using whole_sum [OF counters_add_up(3) facts(4)] whole_sum [OF counters_add_up(4) facts(5)] e
      ledgers_sum_to_plan [OF b assms(2)] su by (simp_all add: all_exact_def)
  ultimately show ?thesis using clean by (auto simp: observes_plan_def word_eq_unat_iff)
qed

lemma peer_total_ok:
  assumes "bounded_spec spec"
  shows "is_ok (peer_total spec)"
proof -
  have "unat (room_count spec) * unat (peers_per_room spec) \<le> 64 * 100"
    using bounded_sizes [OF assms] unfolding rooms_of_def peers_of_def by (rule mult_le_mono)
  then show ?thesis by (simp add: peer_total_def checked_mul_def)
qed

lemma write_result_ok:
  assumes "\<forall>h e. file_reply w h e = Inr ()" "\<forall>r. is_ok (result_to_json w r)"
  shows "fst (write_result w path r h) = Inr ()"
proof -
  obtain json where "result_to_json w r = Inr json" using assms(2) unfolding is_ok_iff by blast
  then show ?thesis using assms(1)
    by (simp add: write_result_def act_defs with_context_def split: option.splits)
qed

text \<open>
  C1: exact work. Of a valid specification, run to the end by all its peers, when the result can be
  encoded and its file and directory be written, the run succeeds if and only if every peer received
  exactly its expected streams: each complete, in order and every packet with a payload that
  \<open>inspect_payload\<close> finds matching; and nothing else but packets that inspection reads as warm-up
  packets, which the ledger tolerates whether they match or not. So a single measured packet that is lost, duplicated, reordered or foreign, or that
  inspection rejects, at any peer of any room fails the run, and nothing else does: not the order in
  which tasks finish, not the interleaving of expected streams, not saturation of the totals. Which
  changes of a packet inspection notices is stated in \<open>Payload\<close>.
\<close>

theorem run_succeeds_iff:
  assumes "is_ok (validate_spec spec)" "ran_all c spec t" "yielded spec t rooms"
    and "\<forall>h e. file_reply w h e = Inr ()" "\<forall>r. is_ok (result_to_json w r)"
  shows "is_ok (fst (run_scenario w revision path spec rooms_first rooms (Inr ()) h)) \<longleftrightarrow> all_exact spec t"
proof -
  have b: "bounded_spec spec" using assms(1) by (simp add: validate_spec_iff)
  obtain p where p: "plan spec = Inr p" using bounded_plan_ok [OF b] by blast
  obtain r where r: "completed revision spec (whole_observation spec t) = Inr r"
    using p by (simp add: completed_def)
  obtain n where n: "peer_total spec = Inr n" using peer_total_ok [OF b] by (auto simp: is_ok_iff)
  obtain h' where h': "write_result w path r h = (Inr (), h')"
    using write_result_ok [OF assms(4,5), of path r h] by (metis eq_fst_iff)
  have "is_ok (validate_result r spec) \<longleftrightarrow> all_exact spec t"
    using completed_valid_iff [OF r] observes_plan_iff [OF assms(1) p assms(2)] assms(1) p by simp
  moreover obtain u where "validate_spec spec = Inr u" using assms(1) by (auto simp: is_ok_iff)
  ultimately show ?thesis
    using n r h' yielded_collect [OF assms(3)]
    by (cases "validate_result r spec")
       (simp_all add: run_scenario_def act_defs try_join_def)
qed

section \<open>An SFU that forwards\<close>

definition sent_payloads :: "expected_stream \<Rightarrow> peer_effect list \<Rightarrow> bytes list" where
  "sent_payloads s h =
     (case es_layer s of
        None \<Rightarrow> map ap_payload (audio_sends h)
      | Some layer \<Rightarrow> layer_payloads layer (video_sends h))"

text \<open>
  What the peers received is what the SFU owes them: of each expected stream, exactly what its
  publisher sent in the measured phase, and besides that only intact warm-up packets.
\<close>

definition forwarded :: "scenario_spec \<Rightarrow> peer_tasks \<Rightarrow> bool" where
  "forwarded spec t \<longleftrightarrow> (\<forall>room < rooms_of spec. \<forall>peer < peers_of spec.
     (\<forall>s \<in> set (peer_streams spec room peer). \<exists>k < peers_of spec.
        es_source s = of_nat (source_number (of_nat room) (peers_per_room spec) k) \<and>
        filter (carried s) (received t room peer)
          = sent_payloads s (measured_part (task_history t room k))) \<and>
     (\<forall>p \<in> set (received t room peer).
        list_ex (\<lambda>s. carried s p) (peer_streams spec room peer)
        \<or> (\<exists>i. intact p i \<and> id_phase i = WarmupPacket)))"

text \<open>What the publisher \<open>k\<close> of a room has sent when its task is done.\<close>

lemma task_sent:
  assumes "ran_all c spec t" "bounded_spec spec" "room < rooms_of spec" "k < peers_of spec"
  shows "\<exists>m. media_counts m (k < unat (audio_publishers_per_room spec)) (spec_audio_packets spec)
      (k < unat (video_publishers_per_room spec)) (unat (duration_seconds spec))
      (of_nat (source_number (of_nat room) (peers_per_room spec) k)) \<and>
    audio_sends (measured_part (task_history t room k)) = audio_left c m 0 \<and>
    video_sends (measured_part (task_history t room k)) = video_left c m 0"
proof -
  have "task_done c (task_world t room k) (media_of_peer spec room k) (new_ledger (peer_streams spec room k))
      (task_result t room k) (task_history t room k)"
    using assms(1,3,4) by (intro run_media_peer_result) (auto simp: ran_all_def)
  then show ?thesis
    using media_counts_same [OF peer_setup(2) [OF assms(2-4)]] unfolding task_done_def by blast
qed

text \<open>The streams a peer expects, by publisher.\<close>

lemma peer_stream_cases:
  assumes "bounded_spec spec" "room < rooms_of spec" "peer < peers_of spec"
    and "s \<in> set (peer_streams spec room peer)"
  obtains (audio) k where "k < unat (audio_publishers_per_room spec)" "es_kind s = Audio" "es_layer s = None"
      "es_source s = of_nat (source_number (of_nat room) (peers_per_room spec) k)"
      "length (es_seen s) = spec_audio_packets spec"
  | (video) k layer where "k < unat (video_publishers_per_room spec)" "es_kind s = Video" "es_layer s = Some layer"
      "es_source s = of_nat (source_number (of_nat room) (peers_per_room spec) k)"
      "length (es_seen s) = (case layer of Low \<Rightarrow> low_packets_in (unat (duration_seconds spec))
         | High \<Rightarrow> high_packets_in (unat (duration_seconds spec)))"
  using peer_streams_bounded [OF assms(1-3)] assms(4)
  by (fastforce simp: audio_entry_def video_entry_def video_entries_def simp del: map_option_eq_Some)

lemma sent_numbered:
  assumes "ran_all c spec t" "is_ok (validate_spec spec)" "room < rooms_of spec" "peer < peers_of spec"
    and "s \<in> set (peer_streams spec room peer)" "k < peers_of spec"
    and "es_source s = of_nat (source_number (of_nat room) (peers_per_room spec) k)"
  shows "numbered (es_source s) (es_kind s) (es_layer s) MeasuredPacket 0
      (sent_payloads s (measured_part (task_history t room k)))
    \<and> length (sent_payloads s (measured_part (task_history t room k))) = length (es_seen s)"
proof -
  have b: "bounded_spec spec" using assms(2) by (simp add: validate_spec_iff)
  have rfc: "rfc_values c" using assms(1) by (simp add: ran_all_def)
  obtain m where m: "media_counts m (k < unat (audio_publishers_per_room spec)) (spec_audio_packets spec)
      (k < unat (video_publishers_per_room spec)) (unat (duration_seconds spec)) (es_source s)"
    "audio_sends (measured_part (task_history t room k)) = audio_left c m 0"
    "video_sends (measured_part (task_history t room k)) = video_left c m 0"
    using task_sent [OF assms(1) b assms(3,6)] assms(7) by auto
  note a = audio_left_counts [OF m(1), of c] and v = video_left_counts [OF rfc m(1) bounded_seconds [OF b]]
  have "peers_of spec \<le> 100" "rooms_of spec \<le> 64" using bounded_sizes [OF b] by simp_all
  then have small: "source_number (of_nat room) (peers_per_room spec) i < 2 ^ 16" if "i < peers_of spec" for i
    using source_number_small [of room "peers_per_room spec" i] that assms(3) by (simp add: peers_of_def)
  have same: "j = k"
    if "es_source s = of_nat (source_number (of_nat room) (peers_per_room spec) j)" "j < peers_of spec" for j
    using source_of_nat_inj [OF small [OF that(2)] small [OF assms(6)]] that(1) assms(7) by simp
  from b assms(3,4,5) show ?thesis
  proof (cases rule: peer_stream_cases)
    case (audio j)
    then have "j = k" using same publishers_le(1) [OF b] by simp
    then show ?thesis using audio a m(2) by (simp add: sent_payloads_def)
  next
    case (video j layer)
    then have "j = k" using same publishers_le(2) [OF b] by simp
    then show ?thesis using video v m(3) by (cases layer) (simp_all add: sent_payloads_def)
  qed
qed

lemma forwarded_all_exact:
  assumes "ran_all c spec t" "is_ok (validate_spec spec)" "forwarded spec t"
  shows "all_exact spec t"
  unfolding all_exact_def
proof (intro allI impI)
  fix room peer
  assume r: "room < rooms_of spec" and p: "peer < peers_of spec"
  let ?ss = "peer_streams spec room peer" and ?ps = "received t room peer"
  have st: "\<exists>sent. filter (carried s) ?ps = sent \<and>
      numbered (es_source s) (es_kind s) (es_layer s) MeasuredPacket 0 sent \<and> length sent = length (es_seen s)"
    if "s \<in> set ?ss" for s
    using assms(3) r p that sent_numbered [OF assms(1,2) r p that] unfolding forwarded_def by metis
  have e: "length (es_seen s) \<le> 2 ^ 32" if "s \<in> set ?ss" for s
  proof -
    have "length (es_seen s) \<le> expected_packets ?ss"
      unfolding expected_packets_def using that by (intro member_le_sum_list) simp_all
    then show ?thesis using peer_expected_small [OF assms(2) r p] by simp
  qed
  show "exact_arrivals ?ss ?ps"
  proof (rule exact_of_delivered [where sent = "\<lambda>s. filter (carried s) ?ps"])
    show "delivered_exactly ?ss (\<lambda>s. filter (carried s) ?ps) ?ps"
      using assms(3) r p by (auto simp: delivered_exactly_def forwarded_def list_all_iff)
    show "list_all (\<lambda>s. numbered (es_source s) (es_kind s) (es_layer s) MeasuredPacket 0
          (filter (carried s) ?ps)
        \<and> length (filter (carried s) ?ps) = length (es_seen s)
        \<and> length (filter (carried s) ?ps) \<le> 2 ^ 32) ?ss"
      using st e by (fastforce simp: list_all_iff)
  qed
qed

text \<open>
  C2: a faithful SFU passes. When each peer receives of every expected stream exactly the packets its
  publisher sent, in their order, the streams interleaved in any way with each other and with
  intact warm-up packets, and nothing besides, every room's expectations are met and the run
  succeeds: what the sources send, what the ledgers expect and what the plan counts agree for every
  valid specification.
\<close>

theorem forwarding_succeeds:
  assumes "is_ok (validate_spec spec)" "ran_all c spec t" "forwarded spec t"
    and "completed revision spec (whole_observation spec t) = Inr r"
  shows "validate_result r spec = Inr ()"
proof -
  have "\<exists>p. plan spec = Inr p"
    using assms(1) bounded_plan_ok by (auto simp: validate_spec_iff)
  then obtain p where p: "plan spec = Inr p" by blast
  have "observes_plan p (whole_observation spec t)"
    using observes_plan_iff [OF assms(1) p assms(2)] forwarded_all_exact [OF assms(2,1,3)] by simp
  then have "is_ok (validate_result r spec)"
    using completed_valid_iff [OF assms(4)] assms(1) p by blast
  then show ?thesis by (auto simp: is_ok_iff)
qed

section \<open>An example run\<close>

text \<open>One room, one publisher with one packet, one receiver.\<close>

definition one_call :: scenario_spec where
  "one_call = Smoke 1 1"

definition one_packet :: bytes where
  "one_packet = ap_payload (fst (next_packet rfc_7741 (new_audio_source 0) MeasuredPacket 0))"

text \<open>A world in which every read brings the same payload, at time zero.\<close>

definition relaying_world :: "bytes \<Rightarrow> peer_world" where
  "relaying_world p = silent_world\<lparr>read_reply := (\<lambda>h e. Inr (Some p)), clock := (\<lambda>h. 0)\<rparr>"

lemma one_call_valid: "is_ok (validate_spec one_call)"
proof -
  obtain p where "plan one_call = Inr p"
    using bounded_plan_ok [of one_call] by (auto simp: one_call_def)
  then show ?thesis
    using smoke_plan_values [of 1 1 p]
    unfolding validate_spec_iff
    by (simp add: one_call_def within_limits_def is_audio_plan_def word_le_nat_alt model_consts)
qed

lemma one_call_sizes: "rooms_of one_call = 1" "peers_of one_call = 2" "peers_per_room one_call = 2"
  by (simp_all add: rooms_of_def peers_of_def one_call_def)

lemma one_call_streams:
  "peer_streams one_call 0 0 = []" "peer_streams one_call 0 1 = [audio_entry 0 2 1 0]"
proof -
  have b: "bounded_spec one_call" by (simp add: one_call_def)
  have one: "unat packets = 1 \<Longrightarrow> packets = 1" for packets :: u32 by (simp add: word_eq_unat_iff)
  show "peer_streams one_call 0 0 = []"
    using peer_streams_bounded [OF b, of 0 0] one_call_sizes
    by (auto simp: one_call_def video_entries_def)
  show "peer_streams one_call 0 1 = [audio_entry 0 2 1 0]"
    using peer_streams_bounded [OF b, of 0 1] one_call_sizes one
    by (auto simp: one_call_def video_entries_def)
qed

lemma constant_arrivals:
  assumes "\<And>h e. answered w h e = answered w [] e"
  shows "arrivals w h = concat (map (answered w []) h)"
proof (induction h rule: rev_induct)
  case Nil
  then show ?case by simp
next
  case (snoc e h)
  have "answered w h e = answered w [] e" by (rule assms)
  then show ?case using snoc by simp
qed

lemma one_packet_numbered: "numbered 0 Audio None MeasuredPacket 0 [one_packet]"
  using audio_packets_numbered [of rfc_7741 "new_audio_source 0" MeasuredPacket 0 1]
  by (simp add: one_packet_def new_audio_source_def split: prod.splits)

lemma one_packet_arrives: "exact_arrivals [audio_entry 0 2 1 0] [one_packet]"
  "carried (audio_entry 0 2 1 0) one_packet"
proof -
  obtain i where i: "intact one_packet i" "stream_identity 0 Audio None MeasuredPacket 0 i"
    using one_packet_numbered by (auto simp: numbered_def)
  have m: "stream_matches i (audio_entry 0 2 1 0)"
    using i(2) by (simp add: stream_identity_def stream_matches_def audio_entry_def source_number_def)
  then show "carried (audio_entry 0 2 1 0) one_packet"
    using i by (simp add: carried_def ordinal_of_def intact_def stream_identity_def)
  show "exact_arrivals [audio_entry 0 2 1 0] [one_packet]"
    using i m by (simp add: exact_arrivals_def expected_payload_def ordinals_def ordinal_of_def
        List.map_filter_def intact_def stream_identity_def audio_entry_def)
qed

lemma one_packet_completes:
  "\<not> ledger_is_complete (new_ledger [audio_entry 0 2 1 0])"
  "ledger_is_complete (observe (new_ledger [audio_entry 0 2 1 0]) one_packet)"
proof -
  let ?ss = "[audio_entry 0 2 1 0]"
  show "\<not> ledger_is_complete (new_ledger ?ss)"
    by (simp add: ledger_is_complete_def new_ledger_def stream_is_complete_def audio_entry_def)
  have s: "distinct_streams ?ss" "list_all fresh_stream ?ss" "expected_packets ?ss < 2 ^ 64"
    by (simp_all add: distinct_streams_def fresh_stream_def audio_entry_def expected_packets_def)
  have "lg_streams (observe_all (new_ledger ?ss) [one_packet]) = progress ?ss [one_packet]"
    using observe_all_in_order [OF s(1,2)] one_packet_arrives(1) exact_iff_in_order by blast
  moreover have "ordinals (audio_entry 0 2 1 0) [one_packet] = [0]"
    using one_packet_arrives(1) by (simp add: exact_arrivals_def audio_entry_def)
  ultimately show "ledger_is_complete (observe (new_ledger ?ss) one_packet)"
    by (simp add: observe_all_def ledger_is_complete_def progress_def advanced_def
        stream_is_complete_def audio_entry_def)
qed

lemma one_call_receiver_media:
  "pm_audio (media_of_peer one_call 0 1) = None" "pm_video (media_of_peer one_call 0 1) = None"
  using peer_setup(2) [of one_call 0 1] one_call_sizes
  by (auto simp: media_counts_def one_call_def)

lemma receiver_returns:
  assumes "pm_audio m = None" "pm_video m = None"
  shows "\<exists>observation h. run_media_peer c (relaying_world one_packet) m (new_ledger [audio_entry 0 2 1 0]) []
      = Some (Inr observation, h) \<and> arrivals (relaying_world one_packet) h = [one_packet]"
proof -
  have a: "arrivals (relaying_world one_packet) h = concat (map (answered (relaying_world one_packet) []) h)" for h
    by (rule constant_arrivals) (case_tac e; simp add: relaying_world_def silent_world_def)
  show ?thesis unfolding a
    using assms one_packet_completes
    by (simp add: run_media_peer_def prepare_media_peer_def relaying_world_def silent_world_def Let_def
        bind_run_def lift_run_def barrier_def report_if_def act_defs send_warmup_def drain_for_def now_def
        drain_until.simps tell_def measured_start_def reset_timelines_def target_duration_def
        measured_loop.simps next_turn_def due_if_def receive_until_complete.simps observe_option_def
        ROUTE_SETTLE_TIME_def QUIESCENCE_TIMEOUT_def PACKET_TIMEOUT_def from_secs_def from_millis_def)
qed

definition one_call_tasks ::
  "run_observation \<Rightarrow> peer_effect list \<Rightarrow> peer_world \<Rightarrow> run_observation \<Rightarrow> peer_effect list \<Rightarrow> peer_tasks" where
  "one_call_tasks observation h w observation' h' =
     (\<lambda>room peer. if peer = 0 then (silent_world, observation, h) else (w, observation', h'))"

lemma one_call_ran:
  assumes "run_media_peer rfc_7741 silent_world (media_of_peer one_call 0 0) (new_ledger []) []
      = Some (Inr observation, h)"
    and "run_media_peer rfc_7741 w (media_of_peer one_call 0 1) (new_ledger [audio_entry 0 2 1 0]) []
      = Some (Inr observation', h')"
    and "honest_sends w"
  shows "ran_all rfc_7741 one_call (one_call_tasks observation h w observation' h')"
  using assms silent_honest one_call_streams one_call_sizes
  by (auto simp: ran_all_def one_call_tasks_def task_world_def task_result_def task_history_def less_2_cases_iff)

lemma one_call_yielded:
  "yielded one_call t [Inr (room_task 0 (collect_peer_observations
     [Inr (Inr (task_result t 0 1)), Inr (Inr (task_result t 0 0))]))]"
  unfolding yielded_def one_call_sizes
  by (rule exI [of _ "\<lambda>room. [Inr (Inr (task_result t 0 1)), Inr (Inr (task_result t 0 0))]"])
     (simp add: upt_rec)

lemma silent_arrivals: "arrivals silent_world h = []"
proof -
  have "answered silent_world h e = []" for h e by (cases e) (simp_all add: silent_world_def)
  then show ?thesis by (simp add: arrivals_def)
qed

definition disk :: run_world where
  "disk = \<lparr>result_to_json = (\<lambda>r. Inr ''{}''), file_reply = (\<lambda>h e. Inr ())\<rparr>"

text \<open>When nothing is forwarded the run fails.\<close>

theorem run_succeeds_iff_witness:
  "\<exists>t rooms. ran_all rfc_7741 one_call t \<and> yielded one_call t rooms \<and>
     \<not> is_ok (fst (run_scenario disk ''r'' \<lparr>rooted = False, components = [''out'', ''r.json'']\<rparr> one_call True
         rooms (Inr ()) []))"
proof -
  obtain observation h observation' h' where r:
    "run_media_peer rfc_7741 silent_world (media_of_peer one_call 0 0) (new_ledger []) []
      = Some (Inr observation, h)"
    "run_media_peer rfc_7741 silent_world (media_of_peer one_call 0 1) (new_ledger [audio_entry 0 2 1 0]) []
      = Some (Inr observation', h')"
    using returns_peer [OF silent_healthy] by meson
  let ?t = "one_call_tasks observation h silent_world observation' h'"
  have ran: "ran_all rfc_7741 one_call ?t" by (rule one_call_ran [OF r silent_honest])
  have "received ?t 0 1 = []"
    by (simp add: received_def one_call_tasks_def task_world_def silent_arrivals)
  then have "\<not> exact_arrivals (peer_streams one_call 0 1) (received ?t 0 1)"
    unfolding one_call_streams by (simp add: exact_arrivals_def ordinals_def List.map_filter_def audio_entry_def)
  then have n: "\<not> all_exact one_call ?t" unfolding all_exact_def one_call_sizes by (metis zero_less_one one_less_numeral_iff semiring_norm(76))
  have d: "\<forall>h e. file_reply disk h e = Inr ()" "\<forall>r. is_ok (result_to_json disk r)"
    by (simp_all add: disk_def)
  show ?thesis
    using run_succeeds_iff [OF one_call_valid ran one_call_yielded d] ran one_call_yielded n by blast
qed

text \<open>When the one packet is forwarded it succeeds.\<close>

lemma one_call_forwarded:
  assumes "ran_all rfc_7741 one_call t" "received t 0 0 = []" "received t 0 1 = [one_packet]"
  shows "forwarded one_call t"
proof -
  have b: "bounded_spec one_call" by (simp add: one_call_def)
  obtain m where m: "media_counts m True 1 False (unat (duration_seconds one_call)) 0"
    "audio_sends (measured_part (task_history t 0 0)) = audio_left rfc_7741 m 0"
    using task_sent [OF assms(1) b, of 0 0] one_call_sizes
    by (auto simp: one_call_def source_number_def)
  then obtain s where s: "pm_audio m = Some s" "as_source s = 0" "unat (pm_audio_packet_count m) = 1"
    by (auto simp: media_counts_def)
  then have "map ap_payload (audio_left rfc_7741 m 0) = [one_packet]"
    by (simp add: audio_left_def one_packet_def next_packet_def advance_timeline_def new_audio_source_def
        split: prod.splits)
  then have "sent_payloads (audio_entry 0 2 1 0) (measured_part (task_history t 0 0)) = [one_packet]"
    using m(2) by (simp add: sent_payloads_def audio_entry_def)
  moreover have "es_source (audio_entry 0 2 1 0) = of_nat (source_number (of_nat 0) 2 0)"
    by (simp add: audio_entry_def)
  ultimately show ?thesis
    using assms(2,3) one_call_streams one_packet_arrives(2)
    unfolding forwarded_def one_call_sizes by (auto simp: less_2_cases_iff)
qed

theorem forwarding_succeeds_witness:
  "\<exists>t r. ran_all rfc_7741 one_call t \<and> forwarded one_call t \<and>
     completed ''r'' one_call (whole_observation one_call t) = Inr r \<and> validate_result r one_call = Inr ()"
proof -
  let ?w = "relaying_world one_packet"
  obtain observation h where r:
    "run_media_peer rfc_7741 silent_world (media_of_peer one_call 0 0) (new_ledger []) []
      = Some (Inr observation, h)"
    using returns_peer [OF silent_healthy] by meson
  obtain observation' h' where r':
    "run_media_peer rfc_7741 ?w (media_of_peer one_call 0 1) (new_ledger [audio_entry 0 2 1 0]) []
      = Some (Inr observation', h')" "arrivals ?w h' = [one_packet]"
    using receiver_returns [OF one_call_receiver_media] by meson
  have honest: "honest_sends ?w" by (simp add: honest_sends_def relaying_world_def silent_world_def)
  let ?t = "one_call_tasks observation h ?w observation' h'"
  have ran: "ran_all rfc_7741 one_call ?t" by (rule one_call_ran [OF r r'(1) honest])
  have f: "forwarded one_call ?t"
    by (rule one_call_forwarded [OF ran])
       (use r' in \<open>simp_all add: received_def one_call_tasks_def task_world_def task_history_def silent_arrivals\<close>)
  have "bounded_spec one_call" by (simp add: one_call_def)
  then obtain p where "plan one_call = Inr p" using bounded_plan_ok by blast
  then obtain r where "completed ''r'' one_call (whole_observation one_call ?t) = Inr r"
    by (auto simp: completed_def)
  then show ?thesis using forwarding_succeeds [OF one_call_valid ran f] ran f by blast
qed

end
