(* ===== verification/PhaseStream.thy ===== *)
theory PhaseStream
  imports Phase
begin

text \<open>
  The controller's half of the phase handshake in \<open>src/controller.rs\<close>: \<open>read_phase_frame\<close> cuts a
  bounded line out of a buffered byte stream and \<open>capture_rtc_phases\<close> logs, checks, marks and
  acknowledges each event. The main results are that a frame does not depend on how the bytes
  were split into reads, and that no byte of an acknowledgement is written unless the telemetry's
  \<open>mark\<close> returned success for this phase. What \<open>mark\<close> does is the subject of the telemetry
  theories; here it is one effect, answered by the world.
\<close>

section \<open>Frames\<close>

definition MAX_PHASE_FRAME_BYTES :: nat where
  "MAX_PHASE_FRAME_BYTES = 256"

text \<open>
  The buffered reader: unread bytes of the current buffer, and what the following reads of the pipe
  return; an empty read, or no further read, is the end of the stream.
\<close>

record frame_source =
  buffered :: string
  reads :: "string result list"

text \<open>\<open>fill_buf\<close>: the buffer, refilled by one read when it is empty.\<close>

definition fill_buf :: "frame_source \<Rightarrow> string result \<times> frame_source" where
  "fill_buf s =
     (if buffered s \<noteq> [] then (Inr (buffered s), s)
      else (case reads s of
              [] \<Rightarrow> (Inr [], s)
            | Inl e # rs \<Rightarrow> (Inl e, s\<lparr>reads := rs\<rparr>)
            | Inr chunk # rs \<Rightarrow> (Inr chunk, s\<lparr>buffered := chunk, reads := rs\<rparr>)))"

definition position :: "char \<Rightarrow> string \<Rightarrow> nat option" where
  "position c s = (if c \<in> set s then Some (length (takeWhile (\<lambda>d. d \<noteq> c) s)) else None)"

definition newline :: char where
  "newline = CHR 0x0A"

definition source_size :: "frame_source \<Rightarrow> nat" where
  "source_size s = length (buffered s) + length (reads s)
     + sum_list (map (\<lambda>r. case r of Inl _ \<Rightarrow> 0 | Inr c \<Rightarrow> length c) (reads s))"

lemma fill_buf_size:
  "fill_buf s = (Inr available, s') \<Longrightarrow> available \<noteq> [] \<Longrightarrow>
     buffered s' = available \<and> source_size s' \<le> source_size s"
  by (auto simp: fill_buf_def source_size_def split: if_splits list.splits sum.splits)

text \<open>The loop of \<open>read_phase_frame\<close>: every turn consumes at least one byte.\<close>

function read_frame_from :: "string \<Rightarrow> frame_source \<Rightarrow> string option result \<times> frame_source" where
  "read_frame_from frame source =
     (case fill_buf source of
        (Inl e, source') \<Rightarrow> (Inl (add_context ''failed to read an RTC phase event'' e), source')
      | (Inr available, source') \<Rightarrow>
          (if available = []
           then (ensure (frame = []) ''RTC phase stream ended within an event'' (Inr None), source')
           else
             let consumed = (case position newline available of
                               None \<Rightarrow> length available
                             | Some index \<Rightarrow> index + 1) in
             if length frame + consumed \<le> MAX_PHASE_FRAME_BYTES
             then
               let frame' = frame @ take consumed available;
                   complete = (get_at available (consumed - 1) = Some newline);
                   source'' = source'\<lparr>buffered := drop consumed available\<rparr> in
               (if complete then (Inr (Some frame'), source'') else read_frame_from frame' source'')
             else (err ''RTC phase event exceeds 256 bytes'', source')))"
  by auto
termination
proof (relation "measure (\<lambda>(frame, source). source_size source)", goal_cases)
  case 1
  then show ?case by simp
next
  case (2 frame source r source' available consumed frame' complete source'')
  have f: "buffered source' = available" "source_size source' \<le> source_size source"
    using fill_buf_size [of source available source'] 2 by auto
  have "0 < consumed" using 2 by (auto split: option.splits)
  moreover have "0 < length available" using 2 by simp
  ultimately have "length (drop consumed available) < length available" by simp
  then have "source_size source'' < source_size source'"
    using f 2 by (simp add: source_size_def)
  then show ?case using f by simp
qed

declare read_frame_from.simps [simp del]

definition read_phase_frame :: "frame_source \<Rightarrow> string option result \<times> frame_source" where
  "read_phase_frame source = read_frame_from [] source"

section \<open>Independence of the split into reads\<close>

text \<open>
  A healthy source has no read error and no empty read before the end; \<open>remaining\<close> is all it will
  ever yield.
\<close>

definition healthy :: "frame_source \<Rightarrow> bool" where
  "healthy s \<longleftrightarrow> (\<forall>r \<in> set (reads s). \<exists>c. r = Inr c \<and> c \<noteq> [])"

definition remaining :: "frame_source \<Rightarrow> string" where
  "remaining s = buffered s @ concat (map (\<lambda>r. case r of Inl _ \<Rightarrow> [] | Inr c \<Rightarrow> c) (reads s))"

text \<open>What one frame of a whole byte string is, given the bytes already taken.\<close>

definition frame_spec :: "string \<Rightarrow> string \<Rightarrow> string option result" where
  "frame_spec frame bytes =
     (if newline \<in> set bytes then
        (let whole = frame @ takeWhile (\<lambda>c. c \<noteq> newline) bytes @ [newline] in
         ensure (length whole \<le> 256) ''RTC phase event exceeds 256 bytes'' (Inr (Some whole)))
      else
        ensure (bytes = [] \<or> length frame + length bytes \<le> 256)
          ''RTC phase event exceeds 256 bytes'' (
        ensure (frame @ bytes = []) ''RTC phase stream ended within an event'' (Inr None)))"

definition rest_spec :: "string \<Rightarrow> string" where
  "rest_spec bytes = tl (dropWhile (\<lambda>c. c \<noteq> newline) bytes)"

lemma fill_buf_healthy:
  assumes "healthy s" "fill_buf s = (r, s')"
  shows "\<exists>available. r = Inr available \<and> remaining s' = remaining s \<and> healthy s' \<and>
    (available = [] \<longleftrightarrow> remaining s = []) \<and> buffered s' = available"
  using assms
  by (cases "buffered s"; cases "reads s")
     (auto simp: fill_buf_def healthy_def remaining_def split: sum.splits if_splits)

lemma position_Some:
  "position c s = Some i \<Longrightarrow>
     i < length s \<and> s ! i = c \<and> take i s = takeWhile (\<lambda>d. d \<noteq> c) s
     \<and> drop (Suc i) s = tl (dropWhile (\<lambda>d. d \<noteq> c) s) \<and> c \<in> set s
     \<and> length (takeWhile (\<lambda>d. d \<noteq> c) s) = i"
proof -
  assume "position c s = Some i"
  then have c: "c \<in> set s" and i: "i = length (takeWhile (\<lambda>d. d \<noteq> c) s)"
    by (auto simp: position_def split: if_splits)
  obtain ys zs where s: "s = ys @ c # zs" "c \<notin> set ys" using split_list_first [OF c] by blast
  then have "takeWhile (\<lambda>d. d \<noteq> c) s = ys" "dropWhile (\<lambda>d. d \<noteq> c) s = c # zs"
    by (auto simp: takeWhile_append dropWhile_append)
  with s i c show ?thesis by simp
qed

lemma position_None: "position c s = None \<longleftrightarrow> c \<notin> set s"
  by (simp add: position_def)

lemma read_frame_from_spec:
  assumes "healthy source" "length frame \<le> 256" "newline \<notin> set frame"
  shows "fst (read_frame_from frame source) = frame_spec frame (remaining source) \<and>
    (is_ok (frame_spec frame (remaining source)) \<longrightarrow>
       healthy (snd (read_frame_from frame source)) \<and>
       remaining (snd (read_frame_from frame source)) = rest_spec (remaining source))"
  using assms
proof (induction frame source rule: read_frame_from.induct)
  case (1 frame source)
  obtain r s1 where f: "fill_buf source = (r, s1)" by fastforce
  then obtain available where av: "r = Inr available" "remaining s1 = remaining source" "healthy s1"
    "available = [] \<longleftrightarrow> remaining source = []" "buffered s1 = available"
    using fill_buf_healthy "1.prems" by metis
  show ?case
  proof (cases "available = []")
    case True
    then show ?thesis using f av
      by (simp add: read_frame_from.simps [of frame source] frame_spec_def rest_spec_def)
  next
    case ne: False
    define tail where "tail = concat (map (\<lambda>r. case r of Inl _ \<Rightarrow> [] | Inr c \<Rightarrow> c) (reads s1))"
    have rem: "remaining source = available @ tail" using av by (simp add: remaining_def tail_def)
    have rem': "remaining (s1\<lparr>buffered := bs\<rparr>) = bs @ tail" for bs
      by (simp add: remaining_def tail_def)
    have hl': "healthy (s1\<lparr>buffered := bs\<rparr>)" for bs using av by (simp add: healthy_def)
    show ?thesis
    proof (cases "position newline available")
      case (Some i)
      note p = position_Some [OF Some]
      have t: "takeWhile (\<lambda>c. c \<noteq> newline) (available @ tail) = take i available"
        and d: "tl (dropWhile (\<lambda>c. c \<noteq> newline) (available @ tail)) = drop (Suc i) available @ tail"
        using p by (auto simp: takeWhile_append dropWhile_append)
      have tk: "take (Suc i) available = take i available @ [newline]"
        using p by (simp add: take_Suc_conv_app_nth)
      show ?thesis
        using f av ne Some p t d tk
        by (simp add: read_frame_from.simps [of frame source] MAX_PHASE_FRAME_BYTES_def Let_def
            frame_spec_def rest_spec_def rem rem' hl' get_at_def ensure_def)
    next
      case None
      then have nn: "newline \<notin> set available" by (simp add: position_None)
      have mem: "available ! (length available - 1) \<noteq> newline"
        using nn ne by (metis diff_less length_greater_0_conv nth_mem zero_less_one)
      have last: "get_at available (length available - 1) \<noteq> Some newline"
        using mem by (auto simp: get_at_def)
      show ?thesis
      proof (cases "length frame + length available \<le> 256")
        case True
        let ?s = "s1\<lparr>buffered := []\<rparr>"
        have step: "read_frame_from frame source = read_frame_from (frame @ available) ?s"
          using f av ne None last True
          by (simp add: read_frame_from.simps [of frame source] MAX_PHASE_FRAME_BYTES_def Let_def)
        have IH: "fst (read_frame_from (frame @ available) ?s) = frame_spec (frame @ available) (remaining ?s) \<and>
          (is_ok (frame_spec (frame @ available) (remaining ?s)) \<longrightarrow>
             healthy (snd (read_frame_from (frame @ available) ?s)) \<and>
             remaining (snd (read_frame_from (frame @ available) ?s)) = rest_spec (remaining ?s))"
          using "1.IH" [OF f [symmetric] av(1), of "length available" "frame @ available" False ?s]
            ne None last True nn "1.prems" hl' [of "[]"]
          by (simp add: MAX_PHASE_FRAME_BYTES_def)
        have "frame_spec frame (available @ tail) = frame_spec (frame @ available) tail"
          using nn ne True by (auto simp: frame_spec_def Let_def takeWhile_append ensure_def add.assoc)
        moreover have "rest_spec (available @ tail) = rest_spec tail"
          if "newline \<in> set tail \<or> tail = []"
          using nn that by (auto simp: rest_spec_def dropWhile_append dropWhile_eq_Nil_conv)
        moreover have "newline \<in> set tail" if "is_ok (frame_spec (frame @ available) tail)"
          using that ne by (auto simp: frame_spec_def ensure_def split: if_splits)
        ultimately show ?thesis using IH step rem rem' [of "[]"] by simp
      next
        case False
        have "is_ok (frame_spec frame (available @ tail)) = False"
          "frame_spec frame (available @ tail) = err ''RTC phase event exceeds 256 bytes''"
          using nn ne False
          by (auto simp: frame_spec_def Let_def takeWhile_append ensure_def)
        then show ?thesis using f av ne None last False rem
          by (simp add: read_frame_from.simps [of frame source] MAX_PHASE_FRAME_BYTES_def Let_def)
      qed
    qed
  qed
qed

text \<open>
  C11: \<open>read_phase_frame\<close> does not depend on how the pipe splits its bytes: on a source without read
  errors it returns the first line with its line feed when that has at most 256 bytes, none at
  the end of the stream, and an error for a longer line or a truncated one; after a frame the
  bytes behind its line feed remain.
\<close>

theorem read_phase_frame_chunking:
  assumes "healthy source"
  shows "fst (read_phase_frame source) = frame_spec [] (remaining source) \<and>
    (is_ok (fst (read_phase_frame source)) \<longrightarrow>
       remaining (snd (read_phase_frame source)) = rest_spec (remaining source))"
  using read_frame_from_spec [OF assms, of "[]"] by (simp add: read_phase_frame_def)

theorem read_phase_frame_chunking_witness:
  "fst (read_phase_frame \<lparr>buffered = ''ab'', reads = [Inr ''c'', Inr [newline, CHR ''d'']]\<rparr>)
     = Inr (Some (''abc'' @ [newline]))"
proof -
  have "healthy \<lparr>buffered = ''ab'', reads = [Inr ''c'', Inr [newline, CHR ''d'']]\<rparr>"
    by (simp add: healthy_def)
  from read_phase_frame_chunking [OF this] show ?thesis
    by (simp add: frame_spec_def remaining_def newline_def)
qed

lemma read_frame_from_size:
  "read_frame_from frame source = (Inr (Some f), source') \<Longrightarrow>
     source_size source' < source_size source \<and> f \<noteq> []"
proof (induction frame source rule: read_frame_from.induct)
  case (1 frame source)
  obtain r s1 where f: "fill_buf source = (r, s1)" by fastforce
  show ?case
  proof (cases r)
    case (Inl e)
    then show ?thesis using f "1.prems" by (simp add: read_frame_from.simps [of frame source])
  next
    case (Inr available)
    show ?thesis
    proof (cases "available = []")
      case True
      then show ?thesis using f Inr "1.prems"
        by (auto simp: read_frame_from.simps [of frame source] ensure_def split: if_splits)
    next
      case ne: False
      define consumed where "consumed = (case position newline available of
                               None \<Rightarrow> length available
                             | Some index \<Rightarrow> index + 1)"
      let ?s = "s1\<lparr>buffered := drop consumed available\<rparr>"
      have pos: "0 < consumed" using ne by (simp add: consumed_def split: option.splits)
      have b: "buffered s1 = available" "source_size s1 \<le> source_size source"
        using fill_buf_size [of source available s1] f Inr ne by auto
      have "length available - consumed < length available" using pos ne by simp
      with b have less: "source_size ?s < source_size source" by (simp add: source_size_def)
      show ?thesis
      proof (cases "length frame + consumed \<le> MAX_PHASE_FRAME_BYTES")
        case True
        show ?thesis
        proof (cases "get_at available (consumed - 1) = Some newline")
          case c: True
          then show ?thesis using f Inr ne True "1.prems" less pos
            by (auto simp: read_frame_from.simps [of frame source] Let_def simp flip: consumed_def)
        next
          case c: False
          then have "read_frame_from (frame @ take consumed available) ?s = (Inr (Some f), source')"
            using f Inr ne True "1.prems"
            by (simp add: read_frame_from.simps [of frame source] Let_def flip: consumed_def)
          then show ?thesis
            using "1.IH" [OF f [symmetric] Inr ne consumed_def True refl refl refl c] less by simp
        qed
      next
        case False
        then show ?thesis using f Inr ne "1.prems"
          by (simp add: read_frame_from.simps [of frame source] Let_def flip: consumed_def)
      qed
    qed
  qed
qed

section \<open>Actions that stop at the first failed effect\<close>

text \<open>
  \<open>granted world h g\<close>: performed after the history \<open>h\<close>, every effect of \<open>g\<close> is answered by
  success. A careful action performs only such effects, and stops with an error as soon as one is
  refused.
\<close>

fun granted :: "('e list \<Rightarrow> 'e \<Rightarrow> unit result) \<Rightarrow> 'e list \<Rightarrow> 'e list \<Rightarrow> bool" where
  "granted world h [] \<longleftrightarrow> True"
| "granted world h (e # g) \<longleftrightarrow> world h e = Inr () \<and> granted world (h @ [e]) g"

lemma granted_append [simp]:
  "granted world h (g @ g') \<longleftrightarrow> granted world h g \<and> granted world (h @ g) g'"
  by (induction g arbitrary: h) auto

definition stopped_at_failure ::
  "('e list \<Rightarrow> 'e \<Rightarrow> unit result) \<Rightarrow> 'e list \<Rightarrow> 'e list \<Rightarrow> 'a result \<Rightarrow> bool" where
  "stopped_at_failure world h g r \<longleftrightarrow>
     granted world h g \<or> (\<not> is_ok r \<and> g \<noteq> [] \<and> granted world h (butlast g))"

definition careful :: "('e list \<Rightarrow> 'e \<Rightarrow> unit result) \<Rightarrow> ('e, 'a) act \<Rightarrow> bool" where
  "careful world m \<longleftrightarrow>
     (\<forall>h r h'. m h = (r, h') \<longrightarrow> (\<exists>g. h' = h @ g \<and> stopped_at_failure world h g r))"

named_theorems careful_intros \<open>actions that stop at the first failed effect\<close>

lemma carefulD:
  assumes "careful world m" "m h = (r, h')"
  obtains g where "h' = h @ g" "stopped_at_failure world h g r"
  using assms unfolding careful_def by blast

lemma stopped_at_failure_append:
  "granted world h g \<Longrightarrow> stopped_at_failure world (h @ g) g' r \<Longrightarrow>
     stopped_at_failure world h (g @ g') r"
  by (auto simp: stopped_at_failure_def butlast_append)

lemma stopped_at_failure_ok: "stopped_at_failure world h g (Inr x) \<longleftrightarrow> granted world h g"
  by (simp add: stopped_at_failure_def)

lemma stopped_at_failure_err:
  "stopped_at_failure world h g (Inl e :: 'a result) \<Longrightarrow> stopped_at_failure world h g (Inl e' :: 'b result)"
  by (simp add: stopped_at_failure_def)

lemma careful_return [careful_intros]: "careful world (return_act x)"
  by (simp add: careful_def return_act_def stopped_at_failure_def)

lemma careful_lift [careful_intros]: "careful world (lift_act r)"
  by (simp add: careful_def lift_act_def stopped_at_failure_def)

lemma careful_effect [careful_intros]: "careful world (effect world e)"
  by (cases "\<exists>h. \<not> is_ok (world h e)")
     (auto simp: careful_def effect_def stopped_at_failure_def is_ok_iff)

lemma careful_context [careful_intros]: "careful world m \<Longrightarrow> careful world (act_context msg m)"
  by (fastforce simp: careful_def act_context_def stopped_at_failure_def with_context_def
      split: prod.splits sum.splits)

lemma careful_ensure [careful_intros]: "careful world m \<Longrightarrow> careful world (ensure_act c msg m)"
  by (simp add: ensure_act_def fail_act_def careful_lift)

lemma careful_bind [careful_intros]:
  assumes "careful world m" and "\<And>x. careful world (f x)"
  shows "careful world (bind_act m f)"
  unfolding careful_def
proof (intro allI impI)
  fix h r h'
  assume b: "bind_act m f h = (r, h')"
  obtain r1 h1 where m: "m h = (r1, h1)" by fastforce
  obtain g where g: "h1 = h @ g" "stopped_at_failure world h g r1"
    using carefulD [OF assms(1) m] by blast
  show "\<exists>g. h' = h @ g \<and> stopped_at_failure world h g r"
  proof (cases r1)
    case (Inl e)
    then have "r = Inl e" "h' = h1" using b m by (simp_all add: bind_act_def)
    then show ?thesis using g Inl stopped_at_failure_err by blast
  next
    case (Inr x)
    then have "f x (h @ g) = (r, h')" using b m g by (simp add: bind_act_def)
    then obtain g' where "h' = (h @ g) @ g'" "stopped_at_failure world (h @ g) g' r"
      by (rule carefulD [OF assms(2)])
    then show ?thesis using stopped_at_failure_append g Inr
      by (metis append.assoc stopped_at_failure_ok)
  qed
qed

text \<open>Read off a whole history: an effect behind which another was performed had succeeded.\<close>

lemma stopped_at_failure_at:
  assumes "stopped_at_failure world h (before @ e # after) r" "after \<noteq> [] \<or> is_ok r"
  shows "world (h @ before) e = Inr ()"
  using assms by (auto simp: stopped_at_failure_def butlast_append)

section \<open>Capturing phases\<close>

datatype capture_effect =
    LogWrite string
  | LogFlush
  | MarkPhase scenario_phase
  | AckWrite string
  | AckFlush

text \<open>
  \<open>event_of_json\<close> decodes a \<open>PhaseEvent\<close>, \<open>ack_to_json\<close> encodes a \<open>PhaseAcknowledgement\<close>, and
  \<open>performs\<close> answers the effects: the log file, the telemetry marker and the worker's input.
\<close>

record capture_world =
  event_of_json :: "string \<Rightarrow> scenario_phase result"
  ack_to_json :: "scenario_phase \<Rightarrow> string result"
  performs :: "capture_effect list \<Rightarrow> capture_effect \<Rightarrow> unit result"

text \<open>One turn of the loop: the checked sequence and the phase of the event.\<close>

definition capture_frame ::
  "capture_world \<Rightarrow> phase_sequence \<Rightarrow> string
     \<Rightarrow> (capture_effect, phase_sequence \<times> scenario_phase) act" where
  "capture_frame w phases frame =
     bind_act (act_context ''failed to write the RTC stdout log''
       (effect (performs w) (LogWrite frame))) (\<lambda>_.
     bind_act (act_context ''failed to flush the RTC stdout log''
       (effect (performs w) LogFlush)) (\<lambda>_.
     bind_act (act_context ''RTC phase stream is not UTF-8'' (lift_act (from_utf8 frame))) (\<lambda>text.
     bind_act (act_context ''failed to decode an RTC phase event''
       (lift_act (event_of_json w (trim_end_matches [CHR 0x0D, CHR 0x0A] text)))) (\<lambda>phase.
     bind_act (lift_act (advance phases phase)) (\<lambda>phases'.
     bind_act (effect (performs w) (MarkPhase phase)) (\<lambda>_.
     bind_act (act_context ''failed to encode an RTC phase acknowledgement''
       (lift_act (ack_to_json w phase))) (\<lambda>acknowledgement.
     bind_act (act_context ''failed to acknowledge an RTC phase''
       (effect (performs w) (AckWrite acknowledgement))) (\<lambda>_.
     bind_act (act_context ''failed to terminate an RTC phase acknowledgement''
       (effect (performs w) (AckWrite [newline]))) (\<lambda>_.
     bind_act (act_context ''failed to flush an RTC phase acknowledgement''
       (effect (performs w) AckFlush)) (\<lambda>_.
     return_act (phases', phase)))))))))))"

function capture_from ::
  "capture_world \<Rightarrow> frame_source \<Rightarrow> phase_sequence \<Rightarrow> bool \<Rightarrow> (capture_effect, unit) act" where
  "capture_from w source phases setup_started h =
     (case read_phase_frame source of
        (Inl e, _) \<Rightarrow> (Inl e, h)
      | (Inr None, _) \<Rightarrow>
          ensure_act setup_started ''RTC worker omitted the setup phase''
            (lift_act (finish_phases phases)) h
      | (Inr (Some frame), source') \<Rightarrow>
          (case capture_frame w phases frame h of
             (Inl e, h') \<Rightarrow> (Inl e, h')
           | (Inr (phases', phase), h') \<Rightarrow>
               capture_from w source' phases' (setup_started \<or> phase = Setup) h'))"
  by pat_completeness auto
termination
  by (relation "measure (\<lambda>(w, source, phases, setup_started, h). source_size source)")
     (auto simp: read_phase_frame_def dest: read_frame_from_size [OF sym])

declare capture_from.simps [simp del]

definition capture_rtc_phases :: "capture_world \<Rightarrow> frame_source \<Rightarrow> (capture_effect, unit) act" where
  "capture_rtc_phases w source = capture_from w source new_sequence False"

text \<open>The effects of one completely handled frame.\<close>

definition ack_bytes :: "capture_world \<Rightarrow> scenario_phase \<Rightarrow> string" where
  "ack_bytes w phase = (case ack_to_json w phase of Inl _ \<Rightarrow> [] | Inr json \<Rightarrow> json)"

lemma ack_bytes_Inr [simp]: "ack_to_json w phase = Inr json \<Longrightarrow> ack_bytes w phase = json"
  by (simp add: ack_bytes_def)

definition frame_block :: "capture_world \<Rightarrow> string \<Rightarrow> scenario_phase \<Rightarrow> capture_effect list" where
  "frame_block w frame phase =
     [LogWrite frame, LogFlush, MarkPhase phase,
      AckWrite (ack_bytes w phase), AckWrite [newline], AckFlush]"

text \<open>A frame whose handling stopped early: at most its log entry, or a cut block of the phase due.\<close>

definition partial_block ::
  "capture_world \<Rightarrow> scenario_phase list \<Rightarrow> capture_effect list \<Rightarrow> bool" where
  "partial_block w handled tail \<longleftrightarrow>
     (\<exists>frame. prefix tail [LogWrite frame, LogFlush]) \<or>
     (\<exists>frame phase. prefix (handled @ [phase]) ORDERED \<and> prefix tail (frame_block w frame phase))"

lemma capture_frame_ok:
  "capture_frame w s frame h = (Inr (s', p), h') \<Longrightarrow> advance s p = Inr s' \<and> h' = h @ frame_block w frame p"
  by (auto simp: capture_frame_def act_Inr frame_block_def)

lemma capture_frame_err:
  "capture_frame w s frame h = (Inl e, h') \<Longrightarrow>
     \<exists>tail. h' = h @ tail \<and>
       (prefix tail [LogWrite frame, LogFlush] \<or>
        (\<exists>p s'. advance s p = Inr s' \<and> prefix tail (frame_block w frame p)))"
  by (auto simp: capture_frame_def act_defs frame_block_def with_context_def prefix_Cons
      split: sum.splits prod.splits)

lemma sequence_handled:
  assumes "advance_all new_sequence ps = Inr s" "advance s p = Inr s'"
  shows "advance_all new_sequence (ps @ [p]) = Inr s'"
proof -
  have "advance_all t (ps @ [p]) = bind_ok (advance_all t ps) (\<lambda>s. advance s p)" for t
  proof (induction ps arbitrary: t)
    case Nil
    show ?case by (cases "advance t p") simp_all
  next
    case (Cons q qs)
    then show ?case by (cases "advance t q") simp_all
  qed
  then show ?thesis using assms by simp
qed

lemma handled_prefix: "advance_all new_sequence ps = Inr s \<Longrightarrow> prefix ps ORDERED"
  using advance_all_iff [of ps] by simp

lemma handled_count:
  assumes "advance_all new_sequence ps = Inr s"
  shows "unat (ps_count s) = length ps"
  using sequence.run_steps_ordered [of new_sequence ps s] assms by (simp add: advance_all_run)

lemma capture_from_history:
  assumes "advance_all new_sequence ps = Inr s" "length fs = length ps"
    and "h = concat (map2 (frame_block w) fs ps)"
    and "capture_from w source s started h = (r, h')"
  shows "\<exists>fs' ps' tail. length fs' = length ps' \<and> prefix ps' ORDERED \<and>
    h' = concat (map2 (frame_block w) fs' ps') @ tail \<and> partial_block w ps' tail \<and>
    (r = Inr () \<longrightarrow> ps' = ORDERED \<and> tail = [])"
  using assms
proof (induction w source s started h arbitrary: fs ps r h' rule: capture_from.induct)
  case (1 w source s started h)
  obtain r1 source' where rd: "read_phase_frame source = (r1, source')" by fastforce
  note pre = handled_prefix [OF "1.prems"(1)]
  have stop: ?case if "h' = h" "r = Inr () \<longrightarrow> ps = ORDERED"
    by (rule exI [of _ fs], rule exI [of _ ps], rule exI [of _ "[]"])
       (use that pre "1.prems"(2,3) in \<open>auto simp: partial_block_def\<close>)
  consider (error) e where "r1 = Inl e" | (eof) "r1 = Inr None" | (frame) f where "r1 = Inr (Some f)"
    by (metis not_None_eq obj_sumE)
  then show ?case
  proof cases
    case error
    then have "h' = h" "r = Inl e" using rd "1.prems"(4) by (simp_all add: capture_from.simps [of w source])
    then show ?thesis using stop by simp
  next
    case eof
    then have "h' = h \<and> (r = Inr () \<longrightarrow> unat (ps_count s) = 4)"
      using rd "1.prems"(4)
      by (auto simp: capture_from.simps [of w source] ensure_act_def lift_act_def fail_act_def
          finish_phases_Inr err_def split: if_splits)
    moreover have "ps = ORDERED" if "unat (ps_count s) = 4"
      using sequence.run_steps_complete [of new_sequence ps s] that "1.prems"(1)
      by (simp add: advance_all_run)
    ultimately show ?thesis using stop by blast
  next
    case frame
    obtain r2 h2 where cf: "capture_frame w s f h = (r2, h2)" by fastforce
    show ?thesis
    proof (cases r2)
      case (Inl e)
      then have r: "r = Inl e" "h' = h2"
        using rd frame cf "1.prems"(4) by (simp_all add: capture_from.simps [of w source])
      obtain tail where t: "h2 = h @ tail"
        and tl: "prefix tail [LogWrite f, LogFlush] \<or>
          (\<exists>p s'. advance s p = Inr s' \<and> prefix tail (frame_block w f p))"
        using capture_frame_err [of w s f h e h2] cf Inl by blast
      have "partial_block w ps tail"
        using tl sequence_handled [OF "1.prems"(1)] handled_prefix
        unfolding partial_block_def by blast
      then show ?thesis using r t "1.prems"(2,3) pre by blast
    next
      case (Inr q)
      obtain s' p where q: "q = (s', p)" by fastforce
      with capture_frame_ok [of w s f h s' p h2] cf Inr
      have adv: "advance s p = Inr s'" and h2: "h2 = h @ frame_block w f p" by simp_all
      have next': "capture_from w source' s' (started \<or> p = Setup) h2 = (r, h')"
        using rd frame cf Inr q "1.prems"(4) by (simp add: capture_from.simps [of w source])
      have "h2 = concat (map2 (frame_block w) (fs @ [f]) (ps @ [p]))"
        using h2 "1.prems"(2,3) by (simp add: zip_append)
      then show ?thesis
        using "1.IH" [OF rd [symmetric] frame refl cf [symmetric] Inr q [symmetric],
            of "ps @ [p]" "fs @ [f]" r h']
          sequence_handled [OF "1.prems"(1) adv] "1.prems"(2) next'
        by simp
    qed
  qed
qed

lemma careful_capture_frame: "careful (performs w) (capture_frame w phases frame)"
  unfolding capture_frame_def by (intro careful_intros)

lemma capture_from_careful: "careful (performs w) (capture_from w source phases started)"
proof -
  have "\<exists>g. h' = h @ g \<and> stopped_at_failure (performs w) h g r"
    if "capture_from w source phases started h = (r, h')" for h r h'
    using that
  proof (induction w source phases started h arbitrary: r h' rule: capture_from.induct)
    case (1 w source phases started h)
    obtain r1 source' where rd: "read_phase_frame source = (r1, source')" by fastforce
    have stop: ?case if "h' = h"
      by (rule exI [of _ "[]"]) (simp add: that stopped_at_failure_def)
    show ?case
    proof (cases "\<exists>f. r1 = Inr (Some f)")
      case False
      then have "h' = h" using rd "1.prems"
        by (auto simp: capture_from.simps [of w source] ensure_act_def lift_act_def fail_act_def
            split: if_splits sum.splits option.splits)
      then show ?thesis by (rule stop)
    next
      case True
      then obtain f where frame: "r1 = Inr (Some f)" by blast
      obtain r2 h2 where cf: "capture_frame w phases f h = (r2, h2)" by fastforce
      obtain g where g: "h2 = h @ g" "stopped_at_failure (performs w) h g r2"
        using carefulD [OF careful_capture_frame cf] by blast
      show ?thesis
      proof (cases r2)
        case (Inl e)
        then have "r = Inl e" "h' = h2"
          using rd frame cf "1.prems" by (simp_all add: capture_from.simps [of w source])
        then show ?thesis using g Inl stopped_at_failure_err by blast
      next
        case (Inr q)
        obtain s' p where q: "q = (s', p)" by fastforce
        have "capture_from w source' s' (started \<or> p = Setup) h2 = (r, h')"
          using rd frame cf Inr q "1.prems" by (simp add: capture_from.simps [of w source])
        from "1.IH" [OF rd [symmetric] frame refl cf [symmetric] Inr q [symmetric] this]
        obtain g' where "h' = h2 @ g'" "stopped_at_failure (performs w) h2 g' r" by blast
        then show ?thesis using g Inr stopped_at_failure_append
          by (metis append.assoc stopped_at_failure_ok)
      qed
    qed
  qed
  then show ?thesis by (simp add: careful_def)
qed

text \<open>
  C10: the controller handles the worker's phases in order, each once: its history is a block of
  effects per phase of a prefix of setup, warmup, measured, drain, and possibly one cut block of the
  phase due. In a block the telemetry's \<open>mark\<close> comes before the first byte of the acknowledgement,
  and every effect behind which another one follows was answered by success: no byte of an
  acknowledgement is written unless \<open>mark\<close> returned success for this phase. When the controller
  itself succeeds, all four blocks are complete and all their effects succeeded.
\<close>

theorem capture_marks_before_acknowledging:
  assumes "capture_rtc_phases w source [] = (r, history)"
  shows "(\<exists>frames phases tail. length frames = length phases \<and> prefix phases ORDERED \<and>
      history = concat (map2 (frame_block w) frames phases) @ tail \<and> partial_block w phases tail \<and>
      (r = Inr () \<longrightarrow> phases = ORDERED \<and> tail = [])) \<and>
    (\<forall>before e after. history = before @ e # after \<and> (after \<noteq> [] \<or> r = Inr ()) \<longrightarrow>
      performs w before e = Inr ())"
proof
  show "\<exists>frames phases tail. length frames = length phases \<and> prefix phases ORDERED \<and>
      history = concat (map2 (frame_block w) frames phases) @ tail \<and> partial_block w phases tail \<and>
      (r = Inr () \<longrightarrow> phases = ORDERED \<and> tail = [])"
    using capture_from_history [of "[]" new_sequence "[]" "[]" w source False r history] assms
    by (simp add: capture_rtc_phases_def)
  have "stopped_at_failure (performs w) [] history r"
    using carefulD [OF capture_from_careful assms [unfolded capture_rtc_phases_def]] by simp
  then show "\<forall>before e after. history = before @ e # after \<and> (after \<noteq> [] \<or> r = Inr ()) \<longrightarrow>
      performs w before e = Inr ()"
    using stopped_at_failure_at [of "performs w" "[]"] by fastforce
qed

text \<open>A worker that sends its four phases by name, in two reads.\<close>

definition named_phases :: capture_world where
  "named_phases =
     \<lparr>event_of_json = (\<lambda>s. case find (\<lambda>p. show_phase p = s) ORDERED of
         None \<Rightarrow> err ''unknown phase'' | Some p \<Rightarrow> Inr p),
      ack_to_json = (\<lambda>p. Inr (show_phase p)), performs = (\<lambda>h e. Inr ())\<rparr>"

definition four_frames :: frame_source where
  "four_frames =
     \<lparr>buffered = [],
      reads = [Inr (''setup'' @ [newline] @ ''war''),
        Inr (''mup'' @ [newline] @ ''measured'' @ [newline] @ ''drain'' @ [newline])]\<rparr>"

lemma four_frames_captured:
  "capture_rtc_phases named_phases four_frames [] =
     (Inr (), concat (map2 (frame_block named_phases)
        [''setup'' @ [newline], ''warmup'' @ [newline], ''measured'' @ [newline], ''drain'' @ [newline]]
        ORDERED))"
  by code_simp

text \<open>The same worker when the telemetry refuses the second phase.\<close>

definition refused_warmup :: capture_world where
  "refused_warmup = named_phases\<lparr>performs :=
     (\<lambda>h e. case e of MarkPhase Warmup \<Rightarrow> err ''telemetry sampler stopped'' | _ \<Rightarrow> Inr ())\<rparr>"

lemma refused_warmup_captured:
  "capture_rtc_phases refused_warmup four_frames [] =
     (err ''telemetry sampler stopped'',
      frame_block refused_warmup (''setup'' @ [newline]) Setup
        @ [LogWrite (''warmup'' @ [newline]), LogFlush, MarkPhase Warmup])"
  by code_simp

theorem capture_marks_before_acknowledging_witness:
  "(\<exists>frames phases tail. length frames = length phases \<and> prefix phases ORDERED \<and>
      snd (capture_rtc_phases named_phases four_frames [])
        = concat (map2 (frame_block named_phases) frames phases) @ tail \<and>
      partial_block named_phases phases tail \<and> phases = ORDERED \<and> tail = []) \<and>
   performs refused_warmup [LogWrite (''setup'' @ [newline]), LogFlush] (MarkPhase Setup) = Inr ()"
proof
  show "\<exists>frames phases tail. length frames = length phases \<and> prefix phases ORDERED \<and>
      snd (capture_rtc_phases named_phases four_frames [])
        = concat (map2 (frame_block named_phases) frames phases) @ tail \<and>
      partial_block named_phases phases tail \<and> phases = ORDERED \<and> tail = []"
    using capture_marks_before_acknowledging [OF four_frames_captured]
    unfolding four_frames_captured by simp
  show "performs refused_warmup [LogWrite (''setup'' @ [newline]), LogFlush] (MarkPhase Setup) = Inr ()"
    using capture_marks_before_acknowledging [OF refused_warmup_captured]
    by (simp add: frame_block_def)
qed

end
