(* ===== verification/TelemetryParse.thy ===== *)
theory TelemetryParse
  imports RustStr
begin

text \<open>
  What \<open>src/telemetry.rs\<close> reads from its text sources: \<open>getconf -a\<close> (\<open>SystemParameters\<close>),
  \<open>/proc/PID/stat\<close> (\<open>ProcessSample\<close>) and the Prometheus metrics of the server (\<open>TrafficSample\<close>). The
  theorems say which texts are accepted and what is read from them: a process name cannot disturb the
  fields behind it, and every one of the six counters must occur exactly once.
\<close>

section \<open>System parameters\<close>

record system_parameters =
  sp_page_size :: u64
  sp_clock_ticks_per_second :: u64

text \<open>\<open>fields.next().and_then(|value| value.parse().ok())\<close>.\<close>

definition next_u64 :: "string list \<Rightarrow> u64 option" where
  "next_u64 words = (case words of [] \<Rightarrow> None | value # _ \<Rightarrow> ok (parse_u64 value))"

text \<open>One turn of the loop over lines: page size and clock ticks found so far.\<close>

definition parameter_line :: "string \<Rightarrow> u64 option \<times> u64 option \<Rightarrow> u64 option \<times> u64 option" where
  "parameter_line line found =
     (case found of (page_size, clock_ticks) \<Rightarrow>
        case split_ascii_whitespace line of
          [] \<Rightarrow> (page_size, clock_ticks)
        | name # words \<Rightarrow>
            let name = trim_end_matches '':'' name in
            if name = ''CLK_TCK'' then (page_size, next_u64 words)
            else if (name = ''PAGESIZE'' \<or> name = ''PAGE_SIZE'') \<and> page_size = None
            then (next_u64 words, clock_ticks)
            else (page_size, clock_ticks))"

definition parse_system_parameters :: "string \<Rightarrow> system_parameters result" where
  "parse_system_parameters output =
     (case fold parameter_line (lines_of output) (None, None) of (page_size, clock_ticks) \<Rightarrow>
        bind_ok (ok_or ''getconf omitted PAGESIZE'' page_size) (\<lambda>page_size.
        bind_ok (ok_or ''getconf omitted CLK_TCK'' clock_ticks) (\<lambda>clock_ticks.
        Inr \<lparr>sp_page_size = page_size, sp_clock_ticks_per_second = clock_ticks\<rparr>)))"

text \<open>What \<open>getconf -a\<close> left: its exit status as shown, success, and its output.\<close>

record command_output =
  co_success :: bool
  co_status :: string
  co_stdout :: string

definition load_parameters :: "command_output result \<Rightarrow> system_parameters result" where
  "load_parameters executed =
     bind_ok (with_context ''failed to execute getconf -a'' executed) (\<lambda>output.
     ensure (co_success output) (''getconf -a exited with '' @ co_status output) (
     bind_ok (with_context ''getconf returned non-UTF-8 output'' (from_utf8 (co_stdout output))) (\<lambda>text.
     bind_ok (parse_system_parameters text) (\<lambda>params.
     ensure (sp_page_size params > 0) ''getconf returned a zero page size'' (
     ensure (sp_clock_ticks_per_second params > 0) ''getconf returned a zero clock tick rate'' (
     Inr params))))))"

lemma load_parameters_positive:
  "load_parameters executed = Inr params \<Longrightarrow>
     sp_page_size params > 0 \<and> sp_clock_ticks_per_second params > 0"
  by (auto simp: load_parameters_def checked_iff)

section \<open>Process samples\<close>

record process_sample =
  pr_cpu_ticks :: u64
  pr_rss_bytes :: u64
  pr_start_time_ticks :: u64

text \<open>\<open>str::rfind(pattern)\<close>: the last offset at which the pattern occurs.\<close>

definition rfind :: "string \<Rightarrow> string \<Rightarrow> nat option" where
  "rfind p s = find (\<lambda>i. starts_with p (drop i s)) (rev [0..<Suc (length s)])"

record stat_slots =
  st_utime :: "u64 option"
  st_stime :: "u64 option"
  st_start_time :: "u64 option"
  st_rss_pages :: "int option"

definition no_stat_slots :: stat_slots where
  "no_stat_slots = \<lparr>st_utime = None, st_stime = None, st_start_time = None, st_rss_pages = None\<rparr>"

fun stat_fields :: "nat \<Rightarrow> string list \<Rightarrow> stat_slots \<Rightarrow> stat_slots result" where
  "stat_fields index [] slots = Inr slots"
| "stat_fields index (value # words) slots =
     bind_ok
       (if index + 3 = 14 then
          bind_ok (with_context ''invalid process utime'' (parse_u64 value)) (\<lambda>n. Inr (slots\<lparr>st_utime := Some n\<rparr>))
        else if index + 3 = 15 then
          bind_ok (with_context ''invalid process stime'' (parse_u64 value)) (\<lambda>n. Inr (slots\<lparr>st_stime := Some n\<rparr>))
        else if index + 3 = 22 then
          bind_ok (with_context ''invalid process start time'' (parse_u64 value))
            (\<lambda>n. Inr (slots\<lparr>st_start_time := Some n\<rparr>))
        else if index + 3 = 24 then
          bind_ok (with_context ''invalid process RSS'' (parse_i64 value)) (\<lambda>n. Inr (slots\<lparr>st_rss_pages := Some n\<rparr>))
        else Inr slots)
       (stat_fields (Suc index) words)"

definition parse_process_stat :: "string \<Rightarrow> u64 \<Rightarrow> process_sample result" where
  "parse_process_stat stat page_size =
     bind_ok (ok_or ''process stat has no command terminator'' (rfind '') '' stat)) (\<lambda>command_end.
     bind_ok (ok_or ''process stat command terminator is invalid'' (get_from stat (command_end + 2))) (\<lambda>tail.
     bind_ok (stat_fields 0 (split_ascii_whitespace tail) no_stat_slots) (\<lambda>slots.
     bind_ok (ok_or ''process stat is missing utime'' (st_utime slots)) (\<lambda>utime.
     bind_ok (ok_or ''process stat is missing stime'' (st_stime slots)) (\<lambda>stime.
     bind_ok (ok_or ''process CPU ticks overflowed'' (checked_add utime stime)) (\<lambda>cpu_ticks.
     bind_ok (ok_or ''process stat is missing RSS'' (st_rss_pages slots)) (\<lambda>rss.
     bind_ok (with_context ''process stat reported a negative RSS''
       (if rss < 0 then err ''out of range integral type conversion attempted'' else Inr (of_int rss)))
       (\<lambda>rss_pages.
     bind_ok (ok_or ''process RSS byte count overflowed'' (checked_mul rss_pages page_size)) (\<lambda>rss_bytes.
     bind_ok (ok_or ''process stat is missing start time'' (st_start_time slots)) (\<lambda>start_time.
     Inr \<lparr>pr_cpu_ticks = cpu_ticks, pr_rss_bytes = rss_bytes, pr_start_time_ticks = start_time\<rparr>))))))))))"

text \<open>What reading \<open>/proc/PID/stat\<close> gave: the text, nothing when the file is gone, or another error.\<close>

datatype file_read = FileText string | FileGone | FileError anyhow_error

definition read_process :: "u32 \<Rightarrow> u64 \<Rightarrow> file_read \<Rightarrow> process_sample option result" where
  "read_process pid page_size r =
     (let path = ''/proc/'' @ show_word pid @ ''/stat'' in
      case r of
        FileText stat \<Rightarrow>
          bind_ok (with_context (''failed to parse '' @ path) (parse_process_stat stat page_size))
            (\<lambda>sample. Inr (Some sample))
      | FileGone \<Rightarrow> Inr None
      | FileError e \<Rightarrow> Inl (add_context (''failed to read '' @ path) e))"

section \<open>Process names do not disturb the fields\<close>

lemma find_rev_upt:
  assumes "i < n" "P i" "\<And>j. i < j \<Longrightarrow> j < n \<Longrightarrow> \<not> P j"
  shows "find P (rev [0..<n]) = Some i"
  using assms
proof (induction n)
  case 0
  then show ?case by simp
next
  case (Suc n)
  then show ?case by (cases "i = n") auto
qed

lemma starts_with_append [simp]: "starts_with p (p @ s)"
  by (simp add: starts_with_def)

text \<open>The last \<open>) \<close> of a text whose rest has no closing parenthesis.\<close>

lemma rfind_terminator:
  assumes "CHR '')'' \<notin> set rest"
  shows "rfind '') '' (a @ '') '' @ rest) = Some (length a)"
  unfolding rfind_def
proof (rule find_rev_upt)
  show "length a < Suc (length (a @ '') '' @ rest))" by simp
  show "starts_with '') '' (drop (length a) (a @ '') '' @ rest))" by (simp add: starts_with_def)
  fix j
  assume j: "length a < j" "j < Suc (length (a @ '') '' @ rest))"
  then obtain k where k: "j = length a + Suc k" by (metis add_Suc_right less_imp_Suc_add)
  have "CHR '')'' \<notin> set (drop (Suc k) ('') '' @ rest))"
    using assms by (auto simp: Cons_eq_append_conv dest: in_set_dropD)
  moreover have "drop j (a @ '') '' @ rest) = drop (Suc k) ('') '' @ rest)" by (simp add: k)
  ultimately show "\<not> starts_with '') '' (drop j (a @ '') '' @ rest))"
    by (cases "drop (Suc k) ('') '' @ rest)") (auto simp: starts_with_def)
qed

lemma get_from_terminator: "get_from (a @ '') '' @ rest) (length a + 2) = Some rest"
  by (simp add: get_from_def)

text \<open>Space-separated words come back from \<open>split_ascii_whitespace\<close>.\<close>

definition word_text :: "string \<Rightarrow> bool" where
  "word_text f \<longleftrightarrow> f \<noteq> [] \<and> (\<forall>c \<in> set f. \<not> is_ascii_whitespace c \<and> c \<noteq> CHR '')'')"

lemma split_on_word:
  assumes "\<forall>c \<in> set f. \<not> p c"
  shows "split_on p (f @ d # s) = (if p d then f # split_on p s
      else (case split_on p (d # s) of [] \<Rightarrow> [f @ [d]] | q # qs \<Rightarrow> (f @ q) # qs))"
  using assms
  by (induction f) (auto split: list.splits)

lemma split_on_none: "\<forall>c \<in> set f. \<not> p c \<Longrightarrow> split_on p f = [f]"
  by (induction f) auto

lemma split_words:
  assumes "list_all word_text fs"
  shows "split_ascii_whitespace (join_with '' '' fs) = fs"
  using assms
proof (induction fs rule: induct_list012)
  case 1
  then show ?case by (simp add: split_ascii_whitespace_def)
next
  case (2 f)
  then have "\<forall>c \<in> set f. \<not> is_ascii_whitespace c" "f \<noteq> []" by (simp_all add: word_text_def)
  then show ?case by (simp add: split_ascii_whitespace_def split_on_none)
next
  case (3 f g fs)
  then have f: "\<forall>c \<in> set f. \<not> is_ascii_whitespace c" "f \<noteq> []" by (simp_all add: word_text_def)
  have sp: "is_ascii_whitespace (CHR '' '')" by (simp add: is_ascii_whitespace_def)
  have "split_ascii_whitespace (f @ CHR '' '' # join_with '' '' (g # fs))
      = f # split_ascii_whitespace (join_with '' '' (g # fs))"
    unfolding split_ascii_whitespace_def split_on_word [OF f(1)] using sp f(2) by simp
  then show ?case using 3 by simp
qed

lemma split_words_line:
  assumes "list_all word_text fs"
  shows "split_ascii_whitespace (join_with '' '' fs @ [CHR 0x0A]) = fs"
  using assms
proof (induction fs rule: induct_list012)
  case 1
  then show ?case by (simp add: split_ascii_whitespace_def is_ascii_whitespace_def)
next
  case (2 f)
  then have f: "\<forall>c \<in> set f. \<not> is_ascii_whitespace c" "f \<noteq> []" by (simp_all add: word_text_def)
  have "is_ascii_whitespace (CHR 0x0A)" by (simp add: is_ascii_whitespace_def)
  with f(2) have "filter (\<lambda>w. w \<noteq> []) (split_on is_ascii_whitespace (f @ CHR 0x0A # [])) = [f]"
    unfolding split_on_word [OF f(1)] by simp
  then show ?case by (simp only: split_ascii_whitespace_def join_with.simps)
next
  case (3 f g fs)
  then have f: "\<forall>c \<in> set f. \<not> is_ascii_whitespace c" "f \<noteq> []" by (simp_all add: word_text_def)
  have sp: "is_ascii_whitespace (CHR '' '')" by (simp add: is_ascii_whitespace_def)
  have "split_ascii_whitespace (f @ CHR '' '' # join_with '' '' (g # fs) @ [CHR 0x0A])
      = f # split_ascii_whitespace (join_with '' '' (g # fs) @ [CHR 0x0A])"
    unfolding split_ascii_whitespace_def split_on_word [OF f(1)] using sp f(2) by simp
  then show ?case using 3 by simp
qed

lemma stat_fields_append:
  "stat_fields i (xs @ ys) slots = bind_ok (stat_fields i xs slots) (stat_fields (i + length xs) ys)"
proof (induction i xs slots rule: stat_fields.induct)
  case (1 index slots)
  then show ?case by simp
next
  case (2 index v vs slots)
  then show ?case by (auto simp: bind_ok_def split: sum.splits)
qed

lemma stat_fields_skip:
  "\<forall>k < length xs. i + k \<notin> {11, 12, 19, 21} \<Longrightarrow> stat_fields i xs slots = Inr slots"
proof (induction i xs slots rule: stat_fields.induct)
  case (1 index slots)
  then show ?case by simp
next
  case (2 index v vs slots)
  have "index \<notin> {11, 12, 19, 21}" using 2(2) by fastforce
  moreover have "\<forall>k < length vs. Suc index + k \<notin> {11, 12, 19, 21}"
    using 2(2) by (metis Suc_less_eq add_Suc_shift length_Cons)
  ultimately show ?case using 2(1) by simp
qed

lemma parse_i64_show_nat: "n < 2 ^ 63 \<Longrightarrow> parse_i64 (show_nat n) = Inr (int n)"
proof -
  assume n: "n < 2 ^ 63"
  obtain c cs where s: "show_nat n = c # cs" by (cases "show_nat n") simp_all
  then have "c \<noteq> CHR ''+''" "c \<noteq> CHR ''-''" using show_nat_hd_not_sign [of n] by auto
  then show ?thesis using parse_digits_show_nat [OF n] s by (simp add: parse_i64_def)
qed

lemma split_at_fields:
  assumes "22 \<le> length fs"
  shows "\<exists>a b c d. fs = a @ fs ! 11 # fs ! 12 # b @ fs ! 19 # c @ fs ! 21 # d
    \<and> length a = 11 \<and> length b = 6 \<and> length c = 1"
proof (intro exI conjI)
  let ?a = "take 11 fs" and ?b = "take 6 (drop 13 fs)" and ?c = "take 1 (drop 20 fs)" and ?d = "drop 22 fs"
  show "length ?a = 11" "length ?b = 6" "length ?c = 1" using assms by simp_all
  have step: "drop n fs = fs ! n # drop (Suc n) fs" if "n < 22" for n
    using that assms by (simp add: Cons_nth_drop_Suc)
  have "fs = ?a @ drop 11 fs" by (rule append_take_drop_id [symmetric])
  moreover have "drop 11 fs = fs ! 11 # fs ! 12 # drop 13 fs" using step [of 11] step [of 12] by simp
  moreover have "drop 13 fs = ?b @ drop 19 fs" using append_take_drop_id [of 6 "drop 13 fs"] by simp
  moreover have "drop 19 fs = fs ! 19 # drop 20 fs" using step [of 19] by simp
  moreover have "drop 20 fs = ?c @ drop 21 fs" using append_take_drop_id [of 1 "drop 20 fs"] by simp
  moreover have "drop 21 fs = fs ! 21 # ?d" using step [of 21] by simp
  ultimately show "fs = ?a @ fs ! 11 # fs ! 12 # ?b @ fs ! 19 # ?c @ fs ! 21 # ?d" by metis
qed

lemma stat_fields_closed:
  assumes "22 \<le> length fs" "fs ! 11 = show_word utime" "fs ! 12 = show_word stime"
    "fs ! 19 = show_word start" "fs ! 21 = show_nat rss" "rss < 2 ^ 63"
  shows "stat_fields 0 fs no_stat_slots = Inr \<lparr>st_utime = Some utime, st_stime = Some stime,
    st_start_time = Some start, st_rss_pages = Some (int rss)\<rparr>"
proof -
  obtain a b c d where fs: "fs = a @ show_word utime # show_word stime # b @ show_word start # c @ show_nat rss # d"
    and n: "length a = 11" "length b = 6" "length c = 1"
    using split_at_fields [OF assms(1)] assms(2-5) by auto
  have skip: "stat_fields 0 a slots = Inr slots" "stat_fields 13 b slots = Inr slots"
    "stat_fields 20 c slots = Inr slots" "stat_fields 22 d slots = Inr slots" for slots
    using n by (auto intro!: stat_fields_skip)
  show ?thesis unfolding fs
    by (simp add: stat_fields_append skip n no_stat_slots_def parse_i64_show_nat [OF assms(6)])
qed

text \<open>A line of \<open>/proc/PID/stat\<close>: the pid, the process name in parentheses, then numbered fields.\<close>

definition stat_line :: "string \<Rightarrow> string \<Rightarrow> string list \<Rightarrow> string" where
  "stat_line pid command fs = pid @ '' ('' @ command @ '') '' @ join_with '' '' fs @ [CHR 0x0A]"

lemma join_words_no_paren: "list_all word_text fs \<Longrightarrow> CHR '')'' \<notin> set (join_with '' '' fs)"
  by (induction fs rule: induct_list012) (auto simp: word_text_def)

lemma parse_stat_line:
  assumes "list_all word_text fs" "22 \<le> length fs"
    and "fs ! 11 = show_word utime" "fs ! 12 = show_word stime" "fs ! 19 = show_word start"
    and "fs ! 21 = show_nat rss" "rss < 2 ^ 63"
  shows "parse_process_stat (stat_line pid command fs) page_size =
    (if 2 ^ 64 \<le> unat utime + unat stime then err ''process CPU ticks overflowed''
     else if 2 ^ 64 \<le> rss * unat page_size then err ''process RSS byte count overflowed''
     else Inr \<lparr>pr_cpu_ticks = utime + stime, pr_rss_bytes = of_nat rss * page_size,
       pr_start_time_ticks = start\<rparr>)"
proof -
  let ?rest = "join_with '' '' fs @ [CHR 0x0A]"
  have line: "stat_line pid command fs = (pid @ '' ('' @ command) @ '') '' @ ?rest"
    by (simp add: stat_line_def)
  have "CHR '')'' \<notin> set ?rest" using join_words_no_paren [OF assms(1)] by simp
  then have r: "rfind '') '' (stat_line pid command fs) = Some (length (pid @ '' ('' @ command))"
    unfolding line by (rule rfind_terminator)
  have tail: "get_from (stat_line pid command fs) (length (pid @ '' ('' @ command) + 2) = Some ?rest"
    unfolding line by (rule get_from_terminator)
  have "unat (of_nat rss :: u64) = rss" using assms(7) by (simp add: unat_of_nat)
  then show ?thesis
    unfolding parse_process_stat_def r ok_or_simps bind_ok_simps tail split_words_line [OF assms(1)]
      stat_fields_closed [OF assms(2-7)]
    by (simp add: checked_add_def checked_mul_def)
qed

text \<open>
  reading \<open>/proc/PID/stat\<close>. Whatever the process is called, closing parentheses and blanks
  included, the sample holds the sum of the two CPU times, the resident pages in bytes and the start
  time of the line's fields; overflowing sums and products are errors and never wrap.
\<close>

theorem process_stat_fields:
  assumes "list_all word_text fs" "22 \<le> length fs"
    and "fs ! 11 = show_word utime" "fs ! 12 = show_word stime" "fs ! 19 = show_word start"
    and "fs ! 21 = show_nat rss" "rss < 2 ^ 63"
  shows "parse_process_stat (stat_line pid command fs) page_size =
    (if 2 ^ 64 \<le> unat utime + unat stime then err ''process CPU ticks overflowed''
     else if 2 ^ 64 \<le> rss * unat page_size then err ''process RSS byte count overflowed''
     else Inr \<lparr>pr_cpu_ticks = utime + stime, pr_rss_bytes = of_nat rss * page_size,
       pr_start_time_ticks = start\<rparr>)"
  by (rule parse_stat_line [OF assms])

definition demo_fields :: "string list" where
  "demo_fields = replicate 11 ''S'' @ [show_word (5 :: u64), show_word (6 :: u64)]
      @ replicate 6 ''0'' @ [show_word (9 :: u64), ''0'', show_nat 3]"

lemma demo_fields_ok:
  "list_all word_text demo_fields" "22 \<le> length demo_fields" "demo_fields ! 11 = show_word (5 :: u64)"
  "demo_fields ! 12 = show_word (6 :: u64)" "demo_fields ! 19 = show_word (9 :: u64)"
  "demo_fields ! 21 = show_nat 3"
proof -
  have "show_word (5 :: u64) = ''5''" "show_word (6 :: u64) = ''6''" "show_word (9 :: u64) = ''9''"
    "show_nat 3 = ''3''"
    by (simp_all add: show_word_def show_nat.simps digit_char_def char_of_def bit_Suc_0_iff)
  then show "list_all word_text demo_fields"
    by (simp add: demo_fields_def list_all_iff word_text_def is_ascii_whitespace_def)
qed (simp_all add: demo_fields_def nth_append)

theorem process_stat_fields_witness:
  "parse_process_stat (stat_line ''7'' ''a) b'' demo_fields) 4096
    = Inr \<lparr>pr_cpu_ticks = 11, pr_rss_bytes = 12288, pr_start_time_ticks = 9\<rparr>"
proof -
  have r: "3 < (2 ^ 63 :: nat)" by simp
  from process_stat_fields [OF demo_fields_ok r, of "''7''" "''a) b''" 4096] show ?thesis by simp
qed

section \<open>Server traffic\<close>

record rtp_counters =
  rc_packets :: u64
  rc_payload_bytes :: u64

record traffic_sample =
  tr_ingress :: rtp_counters
  tr_egress :: rtp_counters
  tr_forwarded_local_rtc :: rtp_counters

definition RTP_PACKETS_INGRESS :: string where
  "RTP_PACKETS_INGRESS = ''osfu_rtp_packets_total{direction=\"ingress\"}''"
definition RTP_PACKETS_EGRESS :: string where
  "RTP_PACKETS_EGRESS = ''osfu_rtp_packets_total{direction=\"egress\"}''"
definition RTP_BYTES_INGRESS :: string where
  "RTP_BYTES_INGRESS = ''osfu_rtp_payload_bytes_total{direction=\"ingress\"}''"
definition RTP_BYTES_EGRESS :: string where
  "RTP_BYTES_EGRESS = ''osfu_rtp_payload_bytes_total{direction=\"egress\"}''"
definition RTP_FORWARDED_LOCAL :: string where
  "RTP_FORWARDED_LOCAL = ''osfu_rtp_forwarded_packets_total{destination=\"local_rtc\"}''"
definition RTP_FORWARDED_BYTES_LOCAL :: string where
  "RTP_FORWARDED_BYTES_LOCAL = ''osfu_rtp_forwarded_payload_bytes_total{destination=\"local_rtc\"}''"

text \<open>The slots of \<open>TrafficSlots\<close>; their contents are a map from slots to counters.\<close>

datatype traffic_slot =
    IngressPackets | IngressBytes | EgressPackets | EgressBytes | ForwardedPackets | ForwardedBytes

type_synonym traffic_slots = "traffic_slot \<Rightarrow> u64 option"

definition slot_of :: "string \<Rightarrow> traffic_slot option" where
  "slot_of series =
     (if series = RTP_PACKETS_INGRESS then Some IngressPackets
      else if series = RTP_BYTES_INGRESS then Some IngressBytes
      else if series = RTP_PACKETS_EGRESS then Some EgressPackets
      else if series = RTP_BYTES_EGRESS then Some EgressBytes
      else if series = RTP_FORWARDED_LOCAL then Some ForwardedPackets
      else if series = RTP_FORWARDED_BYTES_LOCAL then Some ForwardedBytes
      else None)"

text \<open>One line of the metrics: the slot it fills.\<close>

definition traffic_line :: "string \<Rightarrow> traffic_slots \<Rightarrow> traffic_slots result" where
  "traffic_line line slots =
     (if line = [] \<or> starts_with ''#'' line then Inr slots
      else case split_ascii_whitespace line of
        [] \<Rightarrow> Inr slots
      | series # words \<Rightarrow>
          (case slot_of series of
             None \<Rightarrow> Inr slots
           | Some slot \<Rightarrow>
               bind_ok (ok_or (''metric '' @ series @ '' has no value'')
                 (case words of [] \<Rightarrow> None | v # _ \<Rightarrow> Some v)) (\<lambda>v.
               bind_ok (with_context (''metric '' @ series @ '' has a non-counter value'') (parse_u64 v))
                 (\<lambda>counter.
               ensure (tl words = []) (''metric '' @ series @ '' has an unexpected timestamp'') (
               ensure (slots slot = None) (''metric '' @ series @ '' is duplicated'') (
               Inr (slots(slot \<mapsto> counter))))))))"

fun traffic_lines :: "string list \<Rightarrow> traffic_slots \<Rightarrow> traffic_slots result" where
  "traffic_lines [] slots = Inr slots"
| "traffic_lines (line # lines) slots = bind_ok (traffic_line line slots) (traffic_lines lines)"

definition required_counter :: "u64 option \<Rightarrow> string \<Rightarrow> u64 result" where
  "required_counter counter series = ok_or (''metrics payload is missing '' @ series) counter"

definition parse_traffic :: "string \<Rightarrow> traffic_sample result" where
  "parse_traffic payload =
     bind_ok (traffic_lines (map trim (lines_of payload)) (\<lambda>_. None)) (\<lambda>slots.
     bind_ok (required_counter (slots IngressPackets) RTP_PACKETS_INGRESS) (\<lambda>ingress_packets.
     bind_ok (required_counter (slots IngressBytes) RTP_BYTES_INGRESS) (\<lambda>ingress_bytes.
     bind_ok (required_counter (slots EgressPackets) RTP_PACKETS_EGRESS) (\<lambda>egress_packets.
     bind_ok (required_counter (slots EgressBytes) RTP_BYTES_EGRESS) (\<lambda>egress_bytes.
     bind_ok (required_counter (slots ForwardedPackets) RTP_FORWARDED_LOCAL) (\<lambda>forwarded_packets.
     bind_ok (required_counter (slots ForwardedBytes) RTP_FORWARDED_BYTES_LOCAL) (\<lambda>forwarded_bytes.
     Inr \<lparr>tr_ingress = \<lparr>rc_packets = ingress_packets, rc_payload_bytes = ingress_bytes\<rparr>,
          tr_egress = \<lparr>rc_packets = egress_packets, rc_payload_bytes = egress_bytes\<rparr>,
          tr_forwarded_local_rtc =
            \<lparr>rc_packets = forwarded_packets, rc_payload_bytes = forwarded_bytes\<rparr>\<rparr>)))))))"

text \<open>The counter of a sample a slot stands for.\<close>

fun counter_of :: "traffic_sample \<Rightarrow> traffic_slot \<Rightarrow> u64" where
  "counter_of t IngressPackets = rc_packets (tr_ingress t)"
| "counter_of t IngressBytes = rc_payload_bytes (tr_ingress t)"
| "counter_of t EgressPackets = rc_packets (tr_egress t)"
| "counter_of t EgressBytes = rc_payload_bytes (tr_egress t)"
| "counter_of t ForwardedPackets = rc_packets (tr_forwarded_local_rtc t)"
| "counter_of t ForwardedBytes = rc_payload_bytes (tr_forwarded_local_rtc t)"

text \<open>The lines that name a series, with the words behind its name.\<close>

definition entry_of :: "string \<Rightarrow> (traffic_slot \<times> string list) option" where
  "entry_of line =
     (if line = [] \<or> starts_with ''#'' line then None
      else case split_ascii_whitespace line of
        [] \<Rightarrow> None
      | series # words \<Rightarrow> map_option (\<lambda>slot. (slot, words)) (slot_of series))"

definition entries_of :: "string list \<Rightarrow> (traffic_slot \<times> string list) list" where
  "entries_of lines = List.map_filter entry_of lines"

text \<open>A list of words that is one counter.\<close>

definition single_counter :: "string list \<Rightarrow> u64 \<Rightarrow> bool" where
  "single_counter words n \<longleftrightarrow> (\<exists>v. words = [v] \<and> parse_u64 v = Inr n)"

lemma traffic_line_ignored: "entry_of line = None \<Longrightarrow> traffic_line line slots = Inr slots"
  by (auto simp: entry_of_def traffic_line_def split: list.splits if_splits)

lemma traffic_line_entry:
  "entry_of line = Some (slot, words) \<Longrightarrow>
     traffic_line line slots = Inr slots' \<longleftrightarrow>
       (\<exists>n. single_counter words n \<and> slots slot = None \<and> slots' = slots(slot \<mapsto> n))"
  by (cases words)
     (auto simp: entry_of_def traffic_line_def single_counter_def checked_iff split: list.splits if_splits)

text \<open>What a slot holds after the lines: its old content, or the counter of its only entry.\<close>

definition filled :: "(traffic_slot \<times> string list) list \<Rightarrow> traffic_slots \<Rightarrow> traffic_slots \<Rightarrow> traffic_slot \<Rightarrow> bool" where
  "filled entries slots slots' slot \<longleftrightarrow>
     (case map snd (filter (\<lambda>e. fst e = slot) entries) of
        [] \<Rightarrow> slots' slot = slots slot
      | words # more_values \<Rightarrow>
          more_values = [] \<and> slots slot = None \<and> (\<exists>n. single_counter words n \<and> slots' slot = Some n))"

lemma traffic_lines_iff:
  "traffic_lines lines slots = Inr slots' \<longleftrightarrow> (\<forall>slot. filled (entries_of lines) slots slots' slot)"
proof (induction lines arbitrary: slots)
  case Nil
  then show ?case by (auto simp: entries_of_def List.map_filter_def filled_def)
next
  case (Cons line lines)
  show ?case
  proof (cases "entry_of line")
    case None
    then have "entries_of (line # lines) = entries_of lines"
      by (simp add: entries_of_def List.map_filter_def)
    then show ?thesis using Cons.IH traffic_line_ignored [OF None] by simp
  next
    case (Some e)
    then obtain slot words where e: "entry_of line = Some (slot, words)" by (cases e) simp
    then have es: "entries_of (line # lines) = (slot, words) # entries_of lines"
      by (simp add: entries_of_def List.map_filter_def)
    have "traffic_lines (line # lines) slots = Inr slots' \<longleftrightarrow>
        (\<exists>n. single_counter words n \<and> slots slot = None \<and>
           (\<forall>s. filled (entries_of lines) (slots(slot \<mapsto> n)) slots' s))"
      using traffic_line_entry [OF e] Cons.IH by (auto simp: checked_iff)
    also have "\<dots> \<longleftrightarrow> (\<forall>s. filled ((slot, words) # entries_of lines) slots slots' s)"
    proof
      assume "\<exists>n. single_counter words n \<and> slots slot = None \<and>
           (\<forall>s. filled (entries_of lines) (slots(slot \<mapsto> n)) slots' s)"
      then show "\<forall>s. filled ((slot, words) # entries_of lines) slots slots' s"
        by (auto simp: filled_def split: list.splits if_splits)
    next
      assume h: "\<forall>s. filled ((slot, words) # entries_of lines) slots slots' s"
      then have "filled ((slot, words) # entries_of lines) slots slots' slot" by blast
      then obtain n where n: "single_counter words n" "slots slot = None" "slots' slot = Some n"
        "filter (\<lambda>e. fst e = slot) (entries_of lines) = []"
        by (auto simp: filled_def)
      have "filled (entries_of lines) (slots(slot \<mapsto> n)) slots' s" for s
        using spec [OF h, of s] n by (cases "s = slot") (auto simp: filled_def split: list.splits)
      then show "\<exists>n. single_counter words n \<and> slots slot = None \<and>
           (\<forall>s. filled (entries_of lines) (slots(slot \<mapsto> n)) slots' s)" using n by blast
    qed
    finally show ?thesis using es by simp
  qed
qed

text \<open>
  reading the metrics. A payload yields a traffic sample exactly when, for each of the six series,
  exactly one of its lines names the series and has as its only further word the counter of the sample;
  comments, blank lines and other series do not matter, nor does the order of the lines.
\<close>

theorem parse_traffic_iff:
  "parse_traffic payload = Inr t \<longleftrightarrow>
     (\<forall>slot. \<exists>words. map snd (filter (\<lambda>e. fst e = slot) (entries_of (map trim (lines_of payload)))) = [words]
        \<and> single_counter words (counter_of t slot))"
proof -
  let ?es = "entries_of (map trim (lines_of payload))"
  have all: "(\<forall>slot. P slot) \<longleftrightarrow> P IngressPackets \<and> P IngressBytes \<and> P EgressPackets \<and> P EgressBytes
      \<and> P ForwardedPackets \<and> P ForwardedBytes" for P
    using traffic_slot.exhaust by metis
  have "parse_traffic payload = Inr t \<longleftrightarrow>
      (\<exists>slots. traffic_lines (map trim (lines_of payload)) (\<lambda>_. None) = Inr slots
         \<and> (\<forall>slot. slots slot = Some (counter_of t slot)))"
  proof -
    have same: "\<lparr>tr_ingress = \<lparr>rc_packets = a, rc_payload_bytes = b\<rparr>,
          tr_egress = \<lparr>rc_packets = c, rc_payload_bytes = d\<rparr>,
          tr_forwarded_local_rtc = \<lparr>rc_packets = e, rc_payload_bytes = f\<rparr>\<rparr> = t \<longleftrightarrow>
        a = counter_of t IngressPackets \<and> b = counter_of t IngressBytes \<and> c = counter_of t EgressPackets
        \<and> d = counter_of t EgressBytes \<and> e = counter_of t ForwardedPackets
        \<and> f = counter_of t ForwardedBytes" for a b c d e f
      by (cases t; cases "tr_ingress t"; cases "tr_egress t"; cases "tr_forwarded_local_rtc t") auto
    show ?thesis
      unfolding all parse_traffic_def required_counter_def bind_ok_Inr ok_or_Inr sum.inject same by blast
  qed
  also have "\<dots> \<longleftrightarrow> (\<forall>slot. filled ?es Map.empty (\<lambda>slot. Some (counter_of t slot)) slot)"
  proof -
    have "(\<exists>slots. Q slots \<and> (\<forall>slot. slots slot = Some (counter_of t slot)))
        \<longleftrightarrow> Q (\<lambda>slot. Some (counter_of t slot))" for Q :: "traffic_slots \<Rightarrow> bool"
      unfolding fun_eq_iff [symmetric] by simp
    then show ?thesis unfolding traffic_lines_iff .
  qed
  also have "\<dots> \<longleftrightarrow> (\<forall>slot. \<exists>words. map snd (filter (\<lambda>e. fst e = slot) ?es) = [words]
        \<and> single_counter words (counter_of t slot))"
    by (intro iff_allI) (auto simp: filled_def split: list.splits)
  finally show ?thesis .
qed

end
