(* ===== verification/Telemetry.thy ===== *)
theory Telemetry
  imports TelemetryParse Phase
begin

text \<open>
  The sampler of \<open>src/telemetry.rs\<close>: its state, one observation (\<open>SamplerState::record\<close>), one phase
  marker (\<open>record_phase\<close>), the loop \<open>run_sampler\<close> over commands and ticks, and the summary. The clock,
  \<open>/proc\<close>, the HTTP replies and the output file answer in view of the history of effects; the loop
  handles a list of events, one per turn of its \<open>select!\<close>.
\<close>

section \<open>Records\<close>

definition SAMPLE_INTERVAL :: duration where "SAMPLE_INTERVAL = from_secs 1"
definition REQUEST_TIMEOUT :: duration where "REQUEST_TIMEOUT = from_millis 750"
definition SAMPLER_COMMAND_CAPACITY :: nat where "SAMPLER_COMMAND_CAPACITY = 8"
definition TELEMETRY_SCHEMA_VERSION :: u32 where "TELEMETRY_SCHEMA_VERSION = 2"

record telemetry_config =
  tc_base_url :: string
  tc_server_pid :: u32
  tc_rtc_pid :: u32
  tc_output_path :: fs_path

definition new_config :: "string \<Rightarrow> u32 \<Rightarrow> u32 \<Rightarrow> fs_path \<Rightarrow> telemetry_config" where
  "new_config base_url server_pid rtc_pid output_path =
     \<lparr>tc_base_url = trim_end_matches ''/'' base_url, tc_server_pid = server_pid, tc_rtc_pid = rtc_pid,
      tc_output_path = output_path\<rparr>"

record worker_pressure_sample =
  wk_media_worker_id :: nat
  wk_egress_bitrate_bps :: u64
  wk_packet_loop_delay_ms :: "u64 option"
  wk_command_backlog_depth :: nat
  wk_relay_mailbox_depth :: nat
  wk_worker_pressure_score :: u8

record sample_data =
  sd_clock_ticks_per_second :: u64
  sd_server_cpu_percent_milli :: "u64 option"
  sd_rtc_cpu_percent_milli :: "u64 option"
  sd_server_rss_bytes :: u64
  sd_rtc_rss_bytes :: "u64 option"
  sd_server :: process_sample
  sd_rtc :: "process_sample option"
  sd_traffic :: traffic_sample
  sd_workers :: "worker_pressure_sample list"

datatype telemetry_outcome =
    SampleOutcome sample_data
  | ErrorOutcome string
  | PhaseOutcome scenario_phase

record telemetry_record =
  rec_schema_version :: u32
  rec_elapsed_ms :: u64
  rec_scrape_duration_ms :: u64
  rec_final_sample :: bool
  rec_outcome :: telemetry_outcome

record telemetry_summary =
  su_sample_count :: nat
  su_error_count :: nat
  su_errors :: "string list"

section \<open>CPU rates\<close>

record timed_process_sample =
  tp_elapsed_ms :: u64
  tp_process :: process_sample

definition cpu_percent_milli ::
  "timed_process_sample option \<Rightarrow> u64 \<Rightarrow> process_sample \<Rightarrow> u64 \<Rightarrow> u64 option result" where
  "cpu_percent_milli previous elapsed_ms process clock_ticks_per_second =
     (case previous of
        None \<Rightarrow> Inr None
      | Some previous \<Rightarrow>
          ensure (pr_start_time_ticks (tp_process previous) = pr_start_time_ticks process)
            ''process start time changed while calculating CPU usage'' (
          bind_ok (ok_or ''telemetry elapsed time moved backwards''
            (checked_sub elapsed_ms (tp_elapsed_ms previous))) (\<lambda>elapsed_ms.
          if elapsed_ms = 0 then Inr None
          else
            bind_ok (ok_or ''process CPU ticks moved backwards''
              (checked_sub (pr_cpu_ticks process) (pr_cpu_ticks (tp_process previous)))) (\<lambda>cpu_ticks.
            let numerator = saturating_mul (ucast cpu_ticks :: u128) 100000000;
                denominator = saturating_mul (ucast clock_ticks_per_second :: u128) (ucast elapsed_ms) in
            bind_ok (ok_or ''process CPU rate has a zero divisor'' (checked_div numerator denominator))
              (\<lambda>rate. Inr (Some (clamp_to (unat rate))))))))"

definition advance_process_sample ::
  "timed_process_sample option \<Rightarrow> u64 \<Rightarrow> process_sample \<Rightarrow> timed_process_sample option" where
  "advance_process_sample previous elapsed_ms process =
     (if (case previous of None \<Rightarrow> True | Some previous \<Rightarrow> elapsed_ms > tp_elapsed_ms previous)
      then Some \<lparr>tp_elapsed_ms = elapsed_ms, tp_process = process\<rparr> else previous)"

definition verify_start_time :: "u64 option \<Rightarrow> process_sample \<Rightarrow> string \<Rightarrow> u64 option result" where
  "verify_start_time expected sample process =
     (case expected of
        Some expected_start \<Rightarrow>
          ensure (pr_start_time_ticks sample = expected_start)
            (process @ '' PID was reused: expected start time '' @ show_word expected_start @ '', got ''
               @ show_word (pr_start_time_ticks sample))
            (Inr expected)
      | None \<Rightarrow> Inr (Some (pr_start_time_ticks sample)))"

section \<open>Sampler state\<close>

record sampler_state =
  sa_metrics_url :: string
  sa_workers_url :: string
  sa_server_pid :: u32
  sa_rtc_pid :: u32
  sa_params :: system_parameters
  sa_started_at :: instant
  sa_server_start_time :: "u64 option"
  sa_rtc_start_time :: "u64 option"
  sa_previous_server :: "timed_process_sample option"
  sa_previous_rtc :: "timed_process_sample option"
  sa_sample_count :: nat
  sa_error_count :: nat
  sa_errors :: "string list"
  sa_phases :: phase_sequence

datatype sampler_effect =
    CreateDirs fs_path
  | CreateOutput fs_path
  | BuildClient
  | ReadClock
  | ReadStat u32
  | GetMetrics string
  | GetWorkers string
  | EncodeRecord telemetry_record
  | WriteLineFeed
  | FlushRecords
  | AnswerMarker "string option"

text \<open>
  An HTTP reply is nested as the code takes it apart: the request may fail, its status may be an
  error, and its body may be unreadable. \<open>io\<close> answers file and client effects.
\<close>

record sampler_world =
  metrics_path :: string
  workers_path :: string
  reads_clock :: "sampler_effect list \<Rightarrow> instant"
  stat_file :: "sampler_effect list \<Rightarrow> u32 \<Rightarrow> file_read"
  metrics_reply :: "sampler_effect list \<Rightarrow> string \<Rightarrow> string result result result"
  workers_reply :: "sampler_effect list \<Rightarrow> string \<Rightarrow> worker_pressure_sample list result result result"
  io :: "sampler_effect list \<Rightarrow> sampler_effect \<Rightarrow> unit result"

definition read_clock :: "sampler_world \<Rightarrow> (sampler_effect, instant) act" where
  "read_clock w = effect (\<lambda>h e. Inr (reads_clock w h)) ReadClock"

definition sample_process ::
  "sampler_world \<Rightarrow> u32 \<Rightarrow> u64 \<Rightarrow> (sampler_effect, process_sample option result) act" where
  "sample_process w pid page_size =
     effect (\<lambda>h e. Inr (read_process pid page_size (stat_file w h pid))) (ReadStat pid)"

definition fetch_traffic :: "sampler_world \<Rightarrow> string \<Rightarrow> (sampler_effect, traffic_sample result) act" where
  "fetch_traffic w url =
     effect (\<lambda>h e. Inr (
       bind_ok (with_context ''failed to fetch o-sfu metrics'' (metrics_reply w h url)) (\<lambda>response.
       bind_ok (with_context ''o-sfu metrics returned an error status'' response) (\<lambda>body.
       bind_ok (with_context ''failed to read o-sfu metrics'' body) parse_traffic)))) (GetMetrics url)"

definition fetch_workers ::
  "sampler_world \<Rightarrow> string \<Rightarrow> (sampler_effect, worker_pressure_sample list result) act" where
  "fetch_workers w url =
     effect (\<lambda>h e. Inr (
       bind_ok (with_context ''failed to fetch o-sfu worker diagnostics'' (workers_reply w h url)) (\<lambda>response.
       bind_ok (with_context ''o-sfu worker diagnostics returned an error status'' response) (\<lambda>body.
       bind_ok (with_context ''failed to decode o-sfu worker diagnostics'' body) (\<lambda>workers.
       Inr (sort_key wk_media_worker_id workers)))))) (GetWorkers url)"

section \<open>One observation\<close>

text \<open>
  The sequential part of \<open>capture\<close>, after its four reads: an early return keeps the start times
  already pinned.
\<close>

definition rates_outcome ::
  "sampler_state \<Rightarrow> u64 \<Rightarrow> process_sample \<Rightarrow> process_sample option \<Rightarrow> traffic_sample
     \<Rightarrow> worker_pressure_sample list \<Rightarrow> telemetry_outcome result \<times> sampler_state" where
  "rates_outcome s elapsed_ms server rtc traffic workers =
     (case bind_ok (cpu_percent_milli (sa_previous_server s) elapsed_ms server
               (sp_clock_ticks_per_second (sa_params s))) (\<lambda>server_cpu.
           bind_ok (case rtc of
               None \<Rightarrow> Inr None
             | Some r \<Rightarrow> cpu_percent_milli (sa_previous_rtc s) elapsed_ms r
                 (sp_clock_ticks_per_second (sa_params s))) (\<lambda>rtc_cpu.
           Inr (server_cpu, rtc_cpu))) of
        Inl e \<Rightarrow> (Inl e, s)
      | Inr (server_cpu, rtc_cpu) \<Rightarrow>
          (Inr (SampleOutcome
             \<lparr>sd_clock_ticks_per_second = sp_clock_ticks_per_second (sa_params s),
              sd_server_cpu_percent_milli = server_cpu, sd_rtc_cpu_percent_milli = rtc_cpu,
              sd_server_rss_bytes = pr_rss_bytes server, sd_rtc_rss_bytes = map_option pr_rss_bytes rtc,
              sd_server = server, sd_rtc = rtc, sd_traffic = traffic, sd_workers = workers\<rparr>),
           s\<lparr>sa_previous_server := advance_process_sample (sa_previous_server s) elapsed_ms server,
             sa_previous_rtc := (case rtc of
                 None \<Rightarrow> sa_previous_rtc s
               | Some r \<Rightarrow> advance_process_sample (sa_previous_rtc s) elapsed_ms r)\<rparr>))"

definition rtc_outcome ::
  "sampler_state \<Rightarrow> bool \<Rightarrow> process_sample option result \<Rightarrow> process_sample option result \<times> sampler_state" where
  "rtc_outcome s final_sample rtc =
     (case rtc of
        Inl e \<Rightarrow> (Inl e, s)
      | Inr (Some sample) \<Rightarrow>
          (case verify_start_time (sa_rtc_start_time s) sample ''RTC generator'' of
             Inl e \<Rightarrow> (Inl e, s)
           | Inr pinned \<Rightarrow> (Inr (Some sample), s\<lparr>sa_rtc_start_time := pinned\<rparr>))
      | Inr None \<Rightarrow>
          (if final_sample then (Inr None, s)
           else (err (''RTC generator process '' @ show_word (sa_rtc_pid s) @ '' disappeared''), s)))"

definition capture_outcome ::
  "sampler_state \<Rightarrow> bool \<Rightarrow> u64 \<Rightarrow> process_sample option result \<Rightarrow> process_sample option result
     \<Rightarrow> traffic_sample result \<Rightarrow> worker_pressure_sample list result
     \<Rightarrow> telemetry_outcome result \<times> sampler_state" where
  "capture_outcome s final_sample elapsed_ms server rtc traffic workers =
     (case bind_ok server (\<lambda>found. bind_ok
             (ok_or (''server process '' @ show_word (sa_server_pid s) @ '' disappeared'') found) (\<lambda>server.
           bind_ok (verify_start_time (sa_server_start_time s) server ''server'') (\<lambda>pinned.
           Inr (server, pinned)))) of
        Inl e \<Rightarrow> (Inl e, s)
      | Inr (server, pinned) \<Rightarrow>
          (case rtc_outcome (s\<lparr>sa_server_start_time := pinned\<rparr>) final_sample rtc of
             (Inl e, s') \<Rightarrow> (Inl e, s')
           | (Inr rtc, s') \<Rightarrow>
               (case bind_ok traffic (\<lambda>traffic. bind_ok workers (\<lambda>workers. Inr (traffic, workers))) of
                  Inl e \<Rightarrow> (Inl e, s')
                | Inr (traffic, workers) \<Rightarrow> rates_outcome s' elapsed_ms server rtc traffic workers)))"

definition capture ::
  "sampler_world \<Rightarrow> sampler_state \<Rightarrow> bool \<Rightarrow> u64
     \<Rightarrow> (sampler_effect, telemetry_outcome result \<times> sampler_state) act" where
  "capture w s final_sample elapsed_ms =
     bind_act (sample_process w (sa_server_pid s) (sp_page_size (sa_params s))) (\<lambda>server.
     bind_act (sample_process w (sa_rtc_pid s) (sp_page_size (sa_params s))) (\<lambda>rtc.
     bind_act (fetch_traffic w (sa_metrics_url s)) (\<lambda>traffic.
     bind_act (fetch_workers w (sa_workers_url s)) (\<lambda>workers.
     return_act (capture_outcome s final_sample elapsed_ms server rtc traffic workers)))))"

definition write_record :: "sampler_world \<Rightarrow> telemetry_record \<Rightarrow> (sampler_effect, unit) act" where
  "write_record w r =
     bind_act (act_context ''failed to encode a telemetry record'' (effect (io w) (EncodeRecord r))) (\<lambda>_.
     bind_act (act_context ''failed to terminate a telemetry record'' (effect (io w) WriteLineFeed)) (\<lambda>_.
     act_context ''failed to flush telemetry records'' (effect (io w) FlushRecords)))"

text \<open>A failed capture is counted and becomes an error record.\<close>

definition count_outcome :: "telemetry_outcome result \<Rightarrow> sampler_state \<Rightarrow> telemetry_outcome \<times> sampler_state" where
  "count_outcome captured s =
     (case captured of
        Inr outcome \<Rightarrow> (outcome, s\<lparr>sa_sample_count := sa_sample_count s + 1\<rparr>)
      | Inl e \<Rightarrow>
          (ErrorOutcome (show_error e),
           s\<lparr>sa_error_count := sa_error_count s + 1, sa_errors := sa_errors s @ [show_error e]\<rparr>))"

definition record_sample :: "sampler_world \<Rightarrow> bool \<Rightarrow> sampler_state \<Rightarrow> (sampler_effect, sampler_state) act" where
  "record_sample w final_sample s =
     bind_act (read_clock w) (\<lambda>observed_at.
     let elapsed_ms = millis (observed_at - sa_started_at s) in
     bind_act (read_clock w) (\<lambda>scrape_started.
     bind_act (capture w s final_sample elapsed_ms) (\<lambda>(captured, s1).
     case count_outcome captured s1 of (outcome, s2) \<Rightarrow>
     bind_act (read_clock w) (\<lambda>scraped_at.
     bind_act (write_record w
       \<lparr>rec_schema_version = TELEMETRY_SCHEMA_VERSION, rec_elapsed_ms = elapsed_ms,
        rec_scrape_duration_ms = millis (scraped_at - scrape_started),
        rec_final_sample = final_sample, rec_outcome = outcome\<rparr>) (\<lambda>_.
     return_act s2)))))"

definition phase_record :: "scenario_phase \<Rightarrow> u64 \<Rightarrow> telemetry_record" where
  "phase_record phase elapsed_ms =
     \<lparr>rec_schema_version = TELEMETRY_SCHEMA_VERSION, rec_elapsed_ms = elapsed_ms,
      rec_scrape_duration_ms = 0, rec_final_sample = False, rec_outcome = PhaseOutcome phase\<rparr>"

definition record_phase ::
  "sampler_world \<Rightarrow> sampler_state \<Rightarrow> scenario_phase \<Rightarrow> u64 \<Rightarrow> (sampler_effect, sampler_state) act" where
  "record_phase w s phase elapsed_ms =
     bind_act (lift_act (advance (sa_phases s) phase)) (\<lambda>phases.
     bind_act (write_record w (phase_record phase elapsed_ms)) (\<lambda>_.
     return_act (s\<lparr>sa_phases := phases\<rparr>)))"

definition summarize :: "sampler_state \<Rightarrow> telemetry_summary result" where
  "summarize s =
     bind_ok (finish_phases (sa_phases s)) (\<lambda>_.
     Inr \<lparr>su_sample_count = sa_sample_count s, su_error_count = sa_error_count s, su_errors = sa_errors s\<rparr>)"

section \<open>The loop\<close>

text \<open>
  One event per turn of the \<open>select!\<close>: a command, the closed channel, or a tick of the interval. The
  result is none while the loop still waits for events.
\<close>

datatype sampler_event =
    PhaseCommand scenario_phase u64
  | FinishCommand
  | CommandsClosed
  | Tick

fun run_sampler ::
  "sampler_world \<Rightarrow> sampler_event list \<Rightarrow> sampler_state \<Rightarrow> (sampler_effect, telemetry_summary option) act" where
  "run_sampler w [] s = return_act None"
| "run_sampler w (PhaseCommand phase elapsed_ms # events) s =
     bind_act (attempt (record_phase w s phase elapsed_ms)) (\<lambda>recorded.
     case recorded of
       Inr s' \<Rightarrow>
         bind_act (effect (\<lambda>h e. Inr ()) (AnswerMarker None)) (\<lambda>_. run_sampler w events s')
     | Inl e \<Rightarrow>
         bind_act (effect (\<lambda>h e. Inr ()) (AnswerMarker (Some (show_error e)))) (\<lambda>_. lift_act (Inl e)))"
| "run_sampler w (FinishCommand # events) s =
     bind_act (record_sample w True s) (\<lambda>s'.
     bind_act (lift_act (summarize s')) (\<lambda>summary. return_act (Some summary)))"
| "run_sampler w (CommandsClosed # events) s = fail_act ''telemetry command channel closed before finish''"
| "run_sampler w (Tick # events) s = bind_act (record_sample w False s) (run_sampler w events)"

text \<open>\<open>TelemetrySampler::start\<close> up to spawning the loop: the first observation is taken at once.\<close>

definition start_sampler ::
  "sampler_world \<Rightarrow> command_output result \<Rightarrow> telemetry_config \<Rightarrow> (sampler_effect, sampler_state) act" where
  "start_sampler w getconf config =
     bind_act (lift_act (load_parameters getconf)) (\<lambda>params.
     bind_act (case path_parent (tc_output_path config) of
         Some parent \<Rightarrow>
           if is_empty_path parent then return_act ()
           else act_context (''failed to create '' @ show_path parent) (effect (io w) (CreateDirs parent))
       | None \<Rightarrow> return_act ()) (\<lambda>_.
     bind_act (act_context (''failed to create '' @ show_path (tc_output_path config))
       (effect (io w) (CreateOutput (tc_output_path config)))) (\<lambda>_.
     bind_act (act_context ''failed to build the telemetry HTTP client'' (effect (io w) BuildClient)) (\<lambda>_.
     bind_act (read_clock w) (\<lambda>started_at.
     record_sample w False
       \<lparr>sa_metrics_url = tc_base_url config @ metrics_path w,
        sa_workers_url = tc_base_url config @ workers_path w,
        sa_server_pid = tc_server_pid config, sa_rtc_pid = tc_rtc_pid config, sa_params = params,
        sa_started_at = started_at, sa_server_start_time = None, sa_rtc_start_time = None,
        sa_previous_server = None, sa_previous_rtc = None, sa_sample_count = 0, sa_error_count = 0,
        sa_errors = [], sa_phases = new_sequence\<rparr>)))))"

text \<open>The sampler's whole life: the start and then its task.\<close>

definition sampler_run ::
  "sampler_world \<Rightarrow> command_output result \<Rightarrow> telemetry_config \<Rightarrow> sampler_event list
     \<Rightarrow> (sampler_effect, telemetry_summary option) act" where
  "sampler_run w getconf config events = bind_act (start_sampler w getconf config) (run_sampler w events)"

text \<open>
  \<open>TelemetryMarker::mark\<close>: whether the command was taken, and what the loop answered, none when it
  dropped the marker; \<open>TelemetrySampler::finish\<close>: whether the command was taken, and how the task ended.
\<close>

definition mark_result :: "bool \<Rightarrow> string option option \<Rightarrow> unit result" where
  "mark_result sent answer =
     ensure sent ''telemetry sampler stopped before the phase marker'' (
     bind_ok (ok_or ''telemetry sampler dropped the phase marker'' answer) (\<lambda>completed.
     case completed of None \<Rightarrow> Inr () | Some msg \<Rightarrow> err msg))"

definition finish_sampler :: "bool \<Rightarrow> telemetry_summary result result \<Rightarrow> telemetry_summary result" where
  "finish_sampler signaled task =
     bind_ok (with_context ''telemetry sampler task failed'' task) (\<lambda>ended.
     bind_ok ended (\<lambda>summary.
     ensure signaled ''telemetry sampler stopped before finish'' (Inr summary)))"

end
