(* ===== verification/TelemetryFacts.thy ===== *)
theory TelemetryFacts
  imports Telemetry
begin

text \<open>
  What the telemetry sampler guarantees: rates without overflow, one process per series of samples, a
  summary that accounts for every record in the file, markers answered only after they are on disk,
  and a loop that no failing collection can stop.
\<close>

section \<open>Rates\<close>

lemma unat_widen [simp]: "unat (ucast (x :: u64) :: u128) = unat x"
  by (simp add: unsigned_ucast_eq take_bit_nat_eq_self_iff less_trans [OF unat_less_2p])

lemma rate_word:
  "unat (saturating_mul (ucast (ticks :: u64) :: u128) 100000000) = unat ticks * 100000000"
  "unat (saturating_mul (ucast (a :: u64) :: u128) (ucast (b :: u64))) = unat a * unat b"
proof -
  have t: "unat ticks < 2 ^ 64" and a: "unat a < 2 ^ 64" and b: "unat b < 2 ^ 64"
    using unat_less_2p [of ticks] unat_less_2p [of a] unat_less_2p [of b] by simp_all
  show "unat (saturating_mul (ucast ticks :: u128) 100000000) = unat ticks * 100000000"
    using t by (simp add: unat_sat)
  have "unat a * unat b \<le> (2 ^ 64 - 1) * (2 ^ 64 - 1)" using a b by (intro mult_le_mono) simp_all
  then show "unat (saturating_mul (ucast a :: u128) (ucast b)) = unat a * unat b"
    by (simp add: unat_sat)
qed

text \<open>
  the CPU rate. A rate is reported exactly when there is an earlier observation of the same
  process, time has advanced, its tick counter has not gone backwards and the tick rate is positive;
  it is then the quotient of the exact products, in thousandths of a percent, capped at the largest
  64-bit value: no intermediate product overflows or saturates.
\<close>

theorem cpu_rate_exact:
  "cpu_percent_milli (Some previous) elapsed_ms process clock_ticks = Inr (Some rate) \<longleftrightarrow>
     pr_start_time_ticks (tp_process previous) = pr_start_time_ticks process \<and>
     tp_elapsed_ms previous < elapsed_ms \<and>
     pr_cpu_ticks (tp_process previous) \<le> pr_cpu_ticks process \<and> 0 < clock_ticks \<and>
     unat rate = min
       ((unat (pr_cpu_ticks process) - unat (pr_cpu_ticks (tp_process previous))) * 100000000
          div (unat clock_ticks * (unat elapsed_ms - unat (tp_elapsed_ms previous))))
       (2 ^ 64 - 1)"
proof -
  let ?e = "elapsed_ms - tp_elapsed_ms previous"
    and ?t = "pr_cpu_ticks process - pr_cpu_ticks (tp_process previous)"
  have zero: "saturating_mul (ucast clock_ticks :: u128) (ucast e) = 0 \<longleftrightarrow> clock_ticks = 0 \<or> e = 0" for e :: u64
    by (simp add: word_eq_unat_iff rate_word)
  have rate: "clamp_to (unat (saturating_mul (ucast t :: u128) 100000000
        div saturating_mul (ucast clock_ticks) (ucast e))) = rate \<longleftrightarrow>
      unat rate = min (unat t * 100000000 div (unat clock_ticks * unat e)) (2 ^ 64 - 1)" for t e :: u64
    unfolding word_eq_unat_iff [of "clamp_to _"] unat_clamp_to unat_div rate_word by auto
  have e: "tp_elapsed_ms previous \<le> elapsed_ms \<Longrightarrow>
      ?e = 0 \<longleftrightarrow> elapsed_ms = tp_elapsed_ms previous" "tp_elapsed_ms previous \<le> elapsed_ms \<Longrightarrow>
      unat ?e = unat elapsed_ms - unat (tp_elapsed_ms previous)"
    by (simp_all add: unat_sub)
  have t: "pr_cpu_ticks (tp_process previous) \<le> pr_cpu_ticks process \<Longrightarrow>
      unat ?t = unat (pr_cpu_ticks process) - unat (pr_cpu_ticks (tp_process previous))"
    by (simp add: unat_sub)
  have c: "0 < clock_ticks \<longleftrightarrow> clock_ticks \<noteq> 0" by (simp add: word_gt_0)
  show ?thesis
    unfolding cpu_percent_milli_def option.case ensure_Inr bind_ok_Inr ok_or_Inr checked_sub_def Let_def
      checked_div_def
    using zero rate e t c by (auto split: if_splits)
qed

section \<open>Records in the output\<close>

fun record_of :: "sampler_effect \<Rightarrow> telemetry_record list" where
  "record_of (EncodeRecord r) = [r]"
| "record_of _ = []"

definition recorded :: "sampler_effect list \<Rightarrow> telemetry_record list" where
  "recorded h = concat (map record_of h)"

lemma recorded_simps [simp]:
  "recorded [] = []" "recorded (h @ h') = recorded h @ recorded h'"
  "recorded (e # h) = record_of e @ recorded h"
  by (simp_all add: recorded_def)

fun sample_of :: "telemetry_outcome \<Rightarrow> sample_data list" where
  "sample_of (SampleOutcome d) = [d]"
| "sample_of _ = []"

fun error_of :: "telemetry_outcome \<Rightarrow> string list" where
  "error_of (ErrorOutcome msg) = [msg]"
| "error_of _ = []"

fun phase_of :: "telemetry_outcome \<Rightarrow> scenario_phase list" where
  "phase_of (PhaseOutcome p) = [p]"
| "phase_of _ = []"

definition samples_in :: "telemetry_record list \<Rightarrow> sample_data list" where
  "samples_in rs = concat (map (\<lambda>r. sample_of (rec_outcome r)) rs)"

definition errors_in :: "telemetry_record list \<Rightarrow> string list" where
  "errors_in rs = concat (map (\<lambda>r. error_of (rec_outcome r)) rs)"

definition phases_in :: "telemetry_record list \<Rightarrow> scenario_phase list" where
  "phases_in rs = concat (map (\<lambda>r. phase_of (rec_outcome r)) rs)"

lemma records_append [simp]:
  "samples_in (rs @ rs') = samples_in rs @ samples_in rs'" "samples_in [] = []"
  "errors_in (rs @ rs') = errors_in rs @ errors_in rs'" "errors_in [] = []"
  "phases_in (rs @ rs') = phases_in rs @ phases_in rs'" "phases_in [] = []"
  by (simp_all add: samples_in_def errors_in_def phases_in_def)

lemma records_single [simp]:
  "samples_in [r] = sample_of (rec_outcome r)" "errors_in [r] = error_of (rec_outcome r)"
  "phases_in [r] = phase_of (rec_outcome r)"
  by (simp_all add: samples_in_def errors_in_def phases_in_def)

section \<open>The invariant of the sampler\<close>

text \<open>The baseline of a rate belongs to the process whose start time is pinned.\<close>

definition baseline_ok :: "u64 option \<Rightarrow> timed_process_sample option \<Rightarrow> bool" where
  "baseline_ok pinned previous \<longleftrightarrow>
     (\<forall>p. previous = Some p \<longrightarrow> pinned = Some (pr_start_time_ticks (tp_process p)))"

text \<open>
  The state against the records already in the output: counters, messages and phases agree with
  them, and every sample is of the pinned processes.
\<close>

definition sampler_ok :: "sampler_state \<Rightarrow> telemetry_record list \<Rightarrow> bool" where
  "sampler_ok s rs \<longleftrightarrow>
     sa_sample_count s = length (samples_in rs) \<and> sa_error_count s = length (errors_in rs) \<and>
     sa_errors s = errors_in rs \<and>
     phases_in rs = take (unat (ps_count (sa_phases s))) ORDERED \<and> unat (ps_count (sa_phases s)) \<le> 4 \<and>
     (\<forall>r \<in> set rs. rec_schema_version r = TELEMETRY_SCHEMA_VERSION) \<and>
     (\<forall>d \<in> set (samples_in rs). sa_server_start_time s = Some (pr_start_time_ticks (sd_server d))) \<and>
     (\<forall>d \<in> set (samples_in rs). \<forall>p. sd_rtc d = Some p \<longrightarrow> sa_rtc_start_time s = Some (pr_start_time_ticks p)) \<and>
     baseline_ok (sa_server_start_time s) (sa_previous_server s) \<and>
     baseline_ok (sa_rtc_start_time s) (sa_previous_rtc s)"

text \<open>What one observation adds: the record, and the state that counted it.\<close>

definition record_observed :: "sampler_state \<Rightarrow> telemetry_record \<Rightarrow> sampler_state \<Rightarrow> bool" where
  "record_observed s r s' \<longleftrightarrow> rec_schema_version r = TELEMETRY_SCHEMA_VERSION \<and>
     (\<exists>server rtc traffic workers captured s1.
        capture_outcome s (rec_final_sample r) (rec_elapsed_ms r) server rtc traffic workers = (captured, s1) \<and>
        count_outcome captured s1 = (rec_outcome r, s'))"

lemma write_record_history:
  "write_record w r h = (x, h') \<Longrightarrow> recorded h' = recorded h @ [r]"
  by (auto simp: write_record_def act_defs split: prod.splits sum.splits)

lemma capture_history:
  "\<exists>server rtc traffic workers h'.
     capture w s final elapsed h = (Inr (capture_outcome s final elapsed server rtc traffic workers), h')
     \<and> recorded h' = recorded h"
  unfolding capture_def act_defs sample_process_def fetch_traffic_def fetch_workers_def by simp blast

lemma record_sample_observed:
  assumes "record_sample w final s h = (x, h')"
  shows "\<exists>r s'. record_observed s r s' \<and> rec_final_sample r = final \<and> recorded h' = recorded h @ [r]
    \<and> (\<forall>y. x = Inr y \<longrightarrow> y = s')"
proof -
  let ?h1 = "h @ [ReadClock, ReadClock]"
  let ?elapsed = "millis (reads_clock w h - sa_started_at s)"
  obtain server rtc traffic workers h2 where c: "capture w s final ?elapsed ?h1
      = (Inr (capture_outcome s final ?elapsed server rtc traffic workers), h2)" "recorded h2 = recorded ?h1"
    using capture_history by blast
  obtain captured s1 where cs: "capture_outcome s final ?elapsed server rtc traffic workers = (captured, s1)"
    by fastforce
  obtain outcome s2 where n: "count_outcome captured s1 = (outcome, s2)" by fastforce
  let ?r = "\<lparr>rec_schema_version = TELEMETRY_SCHEMA_VERSION, rec_elapsed_ms = ?elapsed,
        rec_scrape_duration_ms = millis (reads_clock w h2 - reads_clock w (h @ [ReadClock])),
        rec_final_sample = final, rec_outcome = outcome\<rparr>"
  obtain y h3 where wr: "write_record w ?r (h2 @ [ReadClock]) = (y, h3)" by fastforce
  have "record_observed s ?r s2"
    using cs n unfolding record_observed_def by (simp, blast)
  moreover have "h' = h3 \<and> (\<forall>z. x = Inr z \<longrightarrow> z = s2)"
    using assms c cs n wr
    by (cases y) (auto simp: record_sample_def Let_def read_clock_def bind_act_def effect_def return_act_def)
  moreover have "recorded h3 = recorded h @ [?r]"
    using write_record_history [OF wr] c(2) by simp
  ultimately show ?thesis by (intro exI [of _ ?r] exI [of _ s2]) simp
qed

lemma baseline_advance:
  "baseline_ok (Some (pr_start_time_ticks p)) previous \<Longrightarrow>
     baseline_ok (Some (pr_start_time_ticks p)) (advance_process_sample previous elapsed p)"
  by (auto simp: baseline_ok_def advance_process_sample_def)

lemma verify_pins:
  "verify_start_time expected p name = Inr pinned \<Longrightarrow>
     pinned = Some (pr_start_time_ticks p) \<and> (\<forall>n. expected = Some n \<longrightarrow> pinned = Some n)"
  by (auto simp: verify_start_time_def checked_iff split: option.splits)

text \<open>The start times only get pinned, and only samples of the pinned processes come out.\<close>

definition pins :: "sampler_state \<Rightarrow> sampler_state \<Rightarrow> bool" where
  "pins s s' \<longleftrightarrow>
     (\<forall>n. sa_server_start_time s = Some n \<longrightarrow> sa_server_start_time s' = Some n) \<and>
     (\<forall>n. sa_rtc_start_time s = Some n \<longrightarrow> sa_rtc_start_time s' = Some n) \<and>
     sa_sample_count s' = sa_sample_count s \<and> sa_error_count s' = sa_error_count s \<and>
     sa_errors s' = sa_errors s \<and> sa_phases s' = sa_phases s"

definition baselines_ok :: "sampler_state \<Rightarrow> bool" where
  "baselines_ok s \<longleftrightarrow> baseline_ok (sa_server_start_time s) (sa_previous_server s) \<and>
     baseline_ok (sa_rtc_start_time s) (sa_previous_rtc s)"

definition sample_pinned :: "sampler_state \<Rightarrow> sample_data \<Rightarrow> bool" where
  "sample_pinned s d \<longleftrightarrow> sa_server_start_time s = Some (pr_start_time_ticks (sd_server d)) \<and>
     (\<forall>p. sd_rtc d = Some p \<longrightarrow> sa_rtc_start_time s = Some (pr_start_time_ticks p))"

lemma baseline_pin:
  "baseline_ok expected previous \<Longrightarrow> (\<forall>n. expected = Some n \<longrightarrow> pinned = Some n) \<Longrightarrow> baseline_ok pinned previous"
  by (auto simp: baseline_ok_def)

lemma rtc_outcome_pins:
  assumes "rtc_outcome s final rtc = (x, s')" "baselines_ok s"
  shows "pins s s' \<and> baselines_ok s' \<and> sa_server_start_time s' = sa_server_start_time s \<and>
    (\<forall>p. x = Inr (Some p) \<longrightarrow> sa_rtc_start_time s' = Some (pr_start_time_ticks p))"
proof -
  have "baseline_ok pinned (sa_previous_rtc s)"
    if "verify_start_time (sa_rtc_start_time s) p name = Inr pinned" for p name pinned
    using baseline_pin [OF _ verify_pins [OF that, THEN conjunct2]] assms(2) by (simp add: baselines_ok_def)
  then show ?thesis
    using assms verify_pins
    by (auto simp: rtc_outcome_def pins_def baselines_ok_def split: sum.splits option.splits if_splits)
qed

lemma rates_outcome_pins:
  assumes "rates_outcome s elapsed server rtc traffic workers = (x, s')" "baselines_ok s"
    and "sa_server_start_time s = Some (pr_start_time_ticks server)"
    and "\<forall>p. rtc = Some p \<longrightarrow> sa_rtc_start_time s = Some (pr_start_time_ticks p)"
  shows "pins s s' \<and> baselines_ok s' \<and> (\<forall>outcome. x = Inr outcome \<longrightarrow> (\<exists>d. outcome = SampleOutcome d \<and> sample_pinned s' d))"
  using assms
  by (auto simp: rates_outcome_def pins_def baselines_ok_def sample_pinned_def baseline_advance
      split: sum.splits option.splits prod.splits)

lemma pins_trans: "pins a b \<Longrightarrow> pins b c \<Longrightarrow> pins a c"
  by (auto simp: pins_def)

lemma capture_outcome_pins:
  assumes "capture_outcome s final elapsed server rtc traffic workers = (x, s')" "baselines_ok s"
  shows "pins s s' \<and> baselines_ok s' \<and> (\<forall>outcome. x = Inr outcome \<longrightarrow> (\<exists>d. outcome = SampleOutcome d \<and> sample_pinned s' d))"
proof -
  let ?found = "bind_ok server (\<lambda>found. bind_ok
             (ok_or (''server process '' @ show_word (sa_server_pid s) @ '' disappeared'') found) (\<lambda>server.
           bind_ok (verify_start_time (sa_server_start_time s) server ''server'') (\<lambda>pinned.
           Inr (server, pinned))))"
  show ?thesis
  proof (cases ?found)
    case (Inl e)
    then have "x = Inl e" "s' = s" using assms by (simp_all add: capture_outcome_def)
    then show ?thesis using assms(2) by (simp add: pins_def)
  next
    case (Inr sp)
    then obtain p pinned where p: "?found = Inr (p, pinned)"
      and v: "verify_start_time (sa_server_start_time s) p ''server'' = Inr pinned"
      by (auto simp: checked_iff)
    let ?s1 = "s\<lparr>sa_server_start_time := pinned\<rparr>"
    have b1: "baselines_ok ?s1" "pins s ?s1" "sa_server_start_time ?s1 = Some (pr_start_time_ticks p)"
      using verify_pins [OF v] assms(2) baseline_pin [of "sa_server_start_time s" _ pinned]
      by (auto simp: baselines_ok_def pins_def)
    obtain y s2 where r: "rtc_outcome ?s1 final rtc = (y, s2)" by fastforce
    note rp = rtc_outcome_pins [OF r b1(1)]
    show ?thesis
    proof (cases y)
      case (Inl e)
      then have "x = Inl e" "s' = s2" using assms(1) p r by (simp_all add: capture_outcome_def)
      then show ?thesis using rp pins_trans [OF b1(2)] by simp
    next
      case (Inr q)
      show ?thesis
      proof (cases "bind_ok traffic (\<lambda>traffic. bind_ok workers (\<lambda>workers. Inr (traffic, workers)))")
        case (Inl e)
        then have "x = Inl e" "s' = s2" using assms(1) p r \<open>y = Inr q\<close> by (simp_all add: capture_outcome_def)
        then show ?thesis using rp pins_trans [OF b1(2)] by simp
      next
        case (Inr tw)
        obtain t ws where tw: "tw = (t, ws)" by fastforce
        have "rates_outcome s2 elapsed p q t ws = (x, s')"
          using assms(1) p r \<open>y = Inr q\<close> Inr tw by (simp add: capture_outcome_def)
        then have "pins s2 s' \<and> baselines_ok s' \<and>
            (\<forall>outcome. x = Inr outcome \<longrightarrow> (\<exists>d. outcome = SampleOutcome d \<and> sample_pinned s' d))"
          by (rule rates_outcome_pins) (use rp b1(3) \<open>y = Inr q\<close> in auto)
        then show ?thesis using pins_trans [OF pins_trans [OF b1(2)]] rp by blast
      qed
    qed
  qed
qed

lemma sampler_ok_alt:
  "sampler_ok s rs \<longleftrightarrow>
     sa_sample_count s = length (samples_in rs) \<and> sa_error_count s = length (errors_in rs) \<and>
     sa_errors s = errors_in rs \<and>
     phases_in rs = take (unat (ps_count (sa_phases s))) ORDERED \<and> unat (ps_count (sa_phases s)) \<le> 4 \<and>
     (\<forall>r \<in> set rs. rec_schema_version r = TELEMETRY_SCHEMA_VERSION) \<and>
     (\<forall>d \<in> set (samples_in rs). sample_pinned s d) \<and> baselines_ok s"
  by (auto simp: sampler_ok_def sample_pinned_def baselines_ok_def)

lemma observed_ok:
  assumes "sampler_ok s rs" "record_observed s r s'"
  shows "sampler_ok s' (rs @ [r]) \<and> phase_of (rec_outcome r) = []"
proof -
  obtain server rtc traffic workers captured s1 where
    c: "capture_outcome s (rec_final_sample r) (rec_elapsed_ms r) server rtc traffic workers = (captured, s1)"
    and n: "count_outcome captured s1 = (rec_outcome r, s')"
    and v: "rec_schema_version r = TELEMETRY_SCHEMA_VERSION"
    using assms(2) by (auto simp: record_observed_def)
  have "baselines_ok s" using assms(1) by (simp add: sampler_ok_alt)
  note p = capture_outcome_pins [OF c this]
  have old: "sample_pinned s1 d" if "sample_pinned s d" for d
    using that p by (auto simp: sample_pinned_def pins_def)
  have e: "sample_pinned s' d \<longleftrightarrow> sample_pinned s1 d" "baselines_ok s' \<longleftrightarrow> baselines_ok s1" for d
    using n by (auto simp: count_outcome_def sample_pinned_def baselines_ok_def split: sum.splits)
  show ?thesis
  proof (cases captured)
    case (Inl err)
    then have o: "rec_outcome r = ErrorOutcome (show_error err)" "s' = s1\<lparr>sa_error_count := sa_error_count s1 + 1,
        sa_errors := sa_errors s1 @ [show_error err]\<rparr>"
      using n by (simp_all add: count_outcome_def)
    then show ?thesis using assms(1) p v old e by (auto simp: sampler_ok_alt pins_def)
  next
    case (Inr outcome)
    then obtain d where "outcome = SampleOutcome d" "sample_pinned s1 d" using p by blast
    moreover from this have "rec_outcome r = SampleOutcome d" "s' = s1\<lparr>sa_sample_count := sa_sample_count s1 + 1\<rparr>"
      using n Inr by (simp_all add: count_outcome_def)
    ultimately show ?thesis using assms(1) p v old e by (auto simp: sampler_ok_alt pins_def)
  qed
qed

section \<open>The whole run\<close>

lemma take_Suc_ORDERED: "n < 4 \<Longrightarrow> take (Suc n) ORDERED = take n ORDERED @ [ORDERED ! n]"
  by (simp add: take_Suc_conv_app_nth)

lemma phase_step_ok:
  assumes "sampler_ok s rs" "advance (sa_phases s) p = Inr ps"
  shows "sampler_ok (s\<lparr>sa_phases := ps\<rparr>) (rs @ [phase_record p elapsed])"
proof -
  let ?n = "unat (ps_count (sa_phases s))"
  have n: "?n < 4" "p = ORDERED ! ?n" "unat (ps_count ps) = Suc ?n"
    using assms(2) advance_count [OF assms(2)] by (auto simp: advance_Inr)
  moreover have "phases_in (rs @ [phase_record p elapsed]) = phases_in rs @ [p]"
    "samples_in (rs @ [phase_record p elapsed]) = samples_in rs"
    "errors_in (rs @ [phase_record p elapsed]) = errors_in rs"
    by (simp_all add: phase_record_def)
  ultimately show ?thesis using assms(1)
    by (auto simp: sampler_ok_alt take_Suc_ORDERED sample_pinned_def baselines_ok_def phase_record_def)
qed

lemma record_phase_history:
  assumes "record_phase w s p elapsed h = (x, h')"
  shows "(\<exists>ps. advance (sa_phases s) p = Inr ps \<and> recorded h' = recorded h @ [phase_record p elapsed]
      \<and> (\<forall>y. x = Inr y \<longrightarrow> y = s\<lparr>sa_phases := ps\<rparr>)) \<or> (h' = h \<and> (\<exists>e. x = Inl e))"
proof (cases "advance (sa_phases s) p")
  case (Inl e)
  then show ?thesis using assms by (auto simp: record_phase_def bind_act_def lift_act_def)
next
  case (Inr ps)
  obtain y h1 where wr: "write_record w (phase_record p elapsed) h = (y, h1)" by fastforce
  then show ?thesis using write_record_history [OF wr] assms Inr
    by (cases y) (auto simp: record_phase_def bind_act_def lift_act_def return_act_def)
qed

text \<open>The sampler's phases pass the same gate as the controller's and the worker's.\<close>

interpretation marker: phase_gate "\<lambda>s p. fst (record_phase w s p elapsed h)"
  "\<lambda>s. unat (ps_count (sa_phases s))" for w elapsed h
proof
  fix s p s'
  assume "fst (record_phase w s p elapsed h) = Inr s'"
  then obtain h' where "record_phase w s p elapsed h = (Inr s', h')" by (metis prod.collapse)
  then obtain ps where "advance (sa_phases s) p = Inr ps" "s' = s\<lparr>sa_phases := ps\<rparr>"
    using record_phase_history by blast
  then show "ordinal p = unat (ps_count (sa_phases s))
      \<and> unat (ps_count (sa_phases s')) = Suc (unat (ps_count (sa_phases s)))"
    using sequence.step_ordered by simp
qed

text \<open>What holds when the loop ends or waits.\<close>

definition not_final :: "telemetry_record list \<Rightarrow> bool" where
  "not_final rs \<longleftrightarrow> (\<forall>r \<in> set rs. \<not> rec_final_sample r)"

definition accounted :: "telemetry_summary option result \<Rightarrow> telemetry_record list \<Rightarrow> bool" where
  "accounted x rs \<longleftrightarrow> (\<exists>s. sampler_ok s rs \<and>
     (\<forall>su. x = Inr (Some su) \<longrightarrow> summarize s = Inr su \<and>
        (\<exists>rs' r. rs = rs' @ [r] \<and> rec_final_sample r \<and> not_final rs')))"

lemma run_sampler_accounted:
  "run_sampler w events s h = (x, h') \<Longrightarrow> sampler_ok s (recorded h) \<Longrightarrow> not_final (recorded h) \<Longrightarrow>
     accounted x (recorded h')"
proof (induction w events s arbitrary: h rule: run_sampler.induct)
  case (1 w s)
  then show ?case by (auto simp: return_act_def accounted_def)
next
  case (2 w phase elapsed events s)
  obtain y h1 where y: "record_phase w s phase elapsed h = (y, h1)" by fastforce
  show ?case
  proof (cases y)
    case (Inl e)
    then have "x = Inl e" "recorded h' = recorded h1"
      using "2.prems"(1) y by (auto simp: bind_act_def attempt_def effect_def lift_act_def)
    moreover have "\<exists>s'. sampler_ok s' (recorded h1)"
      using record_phase_history [OF y] phase_step_ok [OF "2.prems"(2)] "2.prems"(2) by metis
    ultimately show ?thesis by (simp add: accounted_def)
  next
    case (Inr s')
    then obtain ps where ps: "advance (sa_phases s) phase = Inr ps" "s' = s\<lparr>sa_phases := ps\<rparr>"
      "recorded h1 = recorded h @ [phase_record phase elapsed]"
      using record_phase_history [OF y] by blast
    have "run_sampler w events s' (h1 @ [AnswerMarker None]) = (x, h')"
      using "2.prems"(1) y Inr by (auto simp: bind_act_def attempt_def effect_def)
    then show ?thesis
      by (rule "2.IH") (use ps phase_step_ok [OF "2.prems"(2) ps(1)] "2.prems"(3) in
        \<open>auto simp: not_final_def phase_record_def\<close>)
  qed
next
  case (3 w events s)
  obtain y h1 where y: "record_sample w True s h = (y, h1)" by fastforce
  obtain r s' where r: "record_observed s r s'" "rec_final_sample r" "recorded h1 = recorded h @ [r]"
    "\<forall>z. y = Inr z \<longrightarrow> z = s'" using record_sample_observed [OF y] by auto
  have ok: "sampler_ok s' (recorded h1)" using observed_ok [OF "3.prems"(2) r(1)] r(3) by simp
  have x: "h' = h1" "x = Inr (Some su) \<Longrightarrow> summarize s' = Inr su" for su
    using "3.prems"(1) y r(4)
    by (auto simp: bind_act_def lift_act_def return_act_def split: sum.splits)
  show ?case unfolding accounted_def using ok x r(2,3) "3.prems"(3) by metis
next
  case (4 w events s)
  then show ?case by (auto simp: fail_act_def lift_act_def err_def accounted_def)
next
  case (5 w events s)
  obtain y h1 where y: "record_sample w False s h = (y, h1)" by fastforce
  obtain r s' where r: "record_observed s r s'" "\<not> rec_final_sample r" "recorded h1 = recorded h @ [r]"
    "\<forall>z. y = Inr z \<longrightarrow> z = s'" using record_sample_observed [OF y] by auto
  have ok: "sampler_ok s' (recorded h1)" using observed_ok [OF "5.prems"(2) r(1)] r(3) by simp
  show ?case
  proof (cases y)
    case (Inl e)
    then show ?thesis using "5.prems"(1) y ok by (auto simp: bind_act_def accounted_def)
  next
    case (Inr z)
    then have "run_sampler w events s' h1 = (x, h')"
      using "5.prems"(1) y r(4) by (simp add: bind_act_def)
    then show ?thesis
      by (rule "5.IH") (use ok r(2,3) "5.prems"(3) in \<open>auto simp: not_final_def\<close>)
  qed
qed

lemma start_sampler_ok:
  assumes "start_sampler w getconf config h = (x, h')" "recorded h = []"
  shows "\<exists>s. sampler_ok s (recorded h') \<and> not_final (recorded h') \<and> (\<forall>y. x = Inr y \<longrightarrow> y = s)"
proof (cases "\<exists>s0 h0. sampler_ok s0 [] \<and> recorded h0 = [] \<and> record_sample w False s0 h0 = (x, h')")
  case True
  then obtain s0 h0 where s0: "sampler_ok s0 []" "recorded h0 = []" "record_sample w False s0 h0 = (x, h')"
    by blast
  obtain r s where r: "record_observed s0 r s" "\<not> rec_final_sample r" "recorded h' = [r]"
    "\<forall>z. x = Inr z \<longrightarrow> z = s" using record_sample_observed [OF s0(3)] s0(2) by auto
  then show ?thesis using observed_ok [OF s0(1) r(1)]
    by (intro exI [of _ s]) (simp add: not_final_def)
next
  case False
  let ?s0 = "\<lambda>params started_at. \<lparr>sa_metrics_url = tc_base_url config @ metrics_path w,
        sa_workers_url = tc_base_url config @ workers_path w,
        sa_server_pid = tc_server_pid config, sa_rtc_pid = tc_rtc_pid config, sa_params = params,
        sa_started_at = started_at, sa_server_start_time = None, sa_rtc_start_time = None,
        sa_previous_server = None, sa_previous_rtc = None, sa_sample_count = 0, sa_error_count = 0,
        sa_errors = [], sa_phases = new_sequence\<rparr>"
  have init: "sampler_ok (?s0 params started_at) []" for params started_at
    by (simp add: sampler_ok_def baseline_ok_def)
  have "recorded h' = [] \<and> (\<exists>e. x = Inl e)"
    using assms False init
    by (auto simp: start_sampler_def act_defs read_clock_def with_context_def
        split: sum.splits prod.splits option.splits if_splits)
  then show ?thesis using init by (auto simp: not_final_def)
qed

lemma sampler_run_accounted:
  assumes "sampler_run w getconf config events [] = (x, h)"
  shows "accounted x (recorded h)"
proof -
  obtain y h1 where y: "start_sampler w getconf config [] = (y, h1)" by fastforce
  then obtain s where s: "sampler_ok s (recorded h1)" "not_final (recorded h1)" "\<forall>z. y = Inr z \<longrightarrow> z = s"
    using start_sampler_ok [OF y] by auto
  show ?thesis
  proof (cases y)
    case (Inl e)
    then have "x = Inl e" "h = h1" using assms y by (simp_all add: sampler_run_def bind_act_def)
    then show ?thesis using s(1) by (auto simp: accounted_def)
  next
    case (Inr z)
    then have "run_sampler w events s h1 = (x, h)" using assms y s(3) by (simp add: sampler_run_def bind_act_def)
    then show ?thesis by (rule run_sampler_accounted) (fact s(1), fact s(2))
  qed
qed

text \<open>
  the summary accounts for the output. When the sampler ends with a summary, its counts are the
  numbers of sample and error records written since the start and its messages are those of the error
  records, in order; the phase markers written are setup, warmup, measured and drain, in that order;
  and the last record, and only the last, is the final observation.
\<close>

theorem sampler_summary_accounts:
  assumes "sampler_run w getconf config events [] = (Inr (Some summary), h)"
  shows "su_sample_count summary = length (samples_in (recorded h)) \<and>
    su_error_count summary = length (errors_in (recorded h)) \<and> su_errors summary = errors_in (recorded h) \<and>
    phases_in (recorded h) = [Setup, Warmup, Measured, Drain] \<and>
    (\<exists>rs r. recorded h = rs @ [r] \<and> rec_final_sample r \<and> not_final rs)"
proof -
  obtain s where s: "sampler_ok s (recorded h)" "summarize s = Inr summary"
    "\<exists>rs r. recorded h = rs @ [r] \<and> rec_final_sample r \<and> not_final rs"
    using sampler_run_accounted [OF assms] unfolding accounted_def by blast
  then have "unat (ps_count (sa_phases s)) = 4" by (auto simp: summarize_def checked_iff finish_phases_Inr)
  then have "phases_in (recorded h) = [Setup, Warmup, Measured, Drain]"
    using s(1) by (simp add: sampler_ok_def ORDERED_def)
  moreover have "su_sample_count summary = sa_sample_count s" "su_error_count summary = sa_error_count s"
    "su_errors summary = sa_errors s"
    using s(2) by (auto simp: summarize_def checked_iff)
  ultimately show ?thesis using s(1,3) by (simp add: sampler_ok_def)
qed

text \<open>
  C25: one process per series. However the sampler ends, all samples it wrote are of one server process
  and of one RTC process: a reused PID yields error records, never a mixed series.
\<close>

theorem samples_of_one_process:
  assumes "sampler_run w getconf config events [] = (x, h)"
    and "d \<in> set (samples_in (recorded h))" "d' \<in> set (samples_in (recorded h))"
  shows "pr_start_time_ticks (sd_server d) = pr_start_time_ticks (sd_server d') \<and>
    (\<forall>p p'. sd_rtc d = Some p \<longrightarrow> sd_rtc d' = Some p' \<longrightarrow> pr_start_time_ticks p = pr_start_time_ticks p')"
proof -
  obtain s where s: "sampler_ok s (recorded h)"
    using sampler_run_accounted [OF assms(1)] unfolding accounted_def by blast
  then have "sample_pinned s d" "sample_pinned s d'" using assms(2,3) by (auto simp: sampler_ok_alt)
  then show ?thesis by (auto simp: sample_pinned_def)
qed

section \<open>A sampler whose output works\<close>

definition working_output :: "sampler_world \<Rightarrow> bool" where
  "working_output w \<longleftrightarrow> (\<forall>h e. io w h e = Inr ())"

lemma write_record_works: "working_output w \<Longrightarrow> \<exists>h'. write_record w r h = (Inr (), h')"
  by (simp add: working_output_def write_record_def act_defs)

lemma observed_phases: "record_observed s r s' \<Longrightarrow> sa_phases s' = sa_phases s"
proof -
  assume "record_observed s r s'"
  then obtain server rtc traffic workers captured s1 where
    c: "capture_outcome s (rec_final_sample r) (rec_elapsed_ms r) server rtc traffic workers = (captured, s1)"
    and n: "count_outcome captured s1 = (rec_outcome r, s')"
    by (auto simp: record_observed_def)
  have "sa_phases s1 = sa_phases s"
    using c by (auto simp: capture_outcome_def rtc_outcome_def rates_outcome_def
        split: sum.splits prod.splits option.splits if_splits)
  then show ?thesis using n by (auto simp: count_outcome_def split: sum.splits)
qed

text \<open>No collection failure stops the sampler: it becomes an error record.\<close>

lemma record_sample_works:
  assumes "working_output w"
  shows "\<exists>s' h'. record_sample w final s h = (Inr s', h') \<and> sa_phases s' = sa_phases s"
proof -
  obtain x h' where x: "record_sample w final s h = (x, h')" by fastforce
  then obtain r s' where r: "record_observed s r s'" "\<forall>y. x = Inr y \<longrightarrow> y = s'"
    using record_sample_observed [OF x] by blast
  have "\<exists>y. x = Inr y"
    using x write_record_works [OF assms]
    by (auto simp: record_sample_def Let_def read_clock_def capture_def sample_process_def fetch_traffic_def
        fetch_workers_def bind_act_def effect_def return_act_def split: prod.splits sum.splits) (metis Pair_inject sum.distinct(1) old.sum.exhaust)+
  then show ?thesis using x r observed_phases [OF r(1)] by auto
qed

lemma record_phase_works:
  assumes "working_output w" "advance (sa_phases s) p = Inr ps"
  shows "\<exists>h'. record_phase w s p elapsed h = (Inr (s\<lparr>sa_phases := ps\<rparr>), h')"
  using write_record_works [OF assms(1)] assms(2)
  by (simp add: record_phase_def bind_act_def lift_act_def return_act_def split: prod.splits) (metis Pair_inject old.sum.simps(6))

fun asked :: "sampler_event list \<Rightarrow> scenario_phase list" where
  "asked [] = []"
| "asked (PhaseCommand p elapsed # events) = p # asked events"
| "asked (e # events) = asked events"

definition waits_or_asks :: "sampler_event \<Rightarrow> bool" where
  "waits_or_asks e \<longleftrightarrow> e = Tick \<or> (\<exists>p elapsed. e = PhaseCommand p elapsed)"

lemma run_sampler_works:
  assumes "working_output w"
  shows "list_all waits_or_asks events \<Longrightarrow>
    asked events = drop (unat (ps_count (sa_phases s))) ORDERED \<Longrightarrow> unat (ps_count (sa_phases s)) \<le> 4 \<Longrightarrow>
    \<exists>summary h'. run_sampler w (events @ FinishCommand # later) s h = (Inr (Some summary), h')"
proof (induction events arbitrary: s h)
  case Nil
  then have n: "unat (ps_count (sa_phases s)) = 4" by simp
  obtain s' h' where r: "record_sample w True s h = (Inr s', h')" "sa_phases s' = sa_phases s"
    using record_sample_works [OF assms] by blast
  then obtain summary where "summarize s' = Inr summary"
    using n by (simp add: summarize_def finish_phases_def)
  then show ?case using r by (simp add: bind_act_def lift_act_def return_act_def)
next
  case (Cons e events)
  then consider (tick) "e = Tick" | (phase) p elapsed where "e = PhaseCommand p elapsed"
    by (auto simp: waits_or_asks_def)
  then show ?case
  proof cases
    case tick
    obtain s' h1 where r: "record_sample w False s h = (Inr s', h1)" "sa_phases s' = sa_phases s"
      using record_sample_works [OF assms] by blast
    have "\<exists>summary h'. run_sampler w (events @ FinishCommand # later) s' h1 = (Inr (Some summary), h')"
      by (rule Cons.IH) (use Cons.prems tick r(2) in simp_all)
    then show ?thesis using tick r(1) by (simp add: bind_act_def)
  next
    case phase
    let ?n = "unat (ps_count (sa_phases s))"
    have d: "p # asked events = drop ?n ORDERED" using Cons.prems(2) phase by simp
    then have n: "?n < 4" by (metis drop_all length_ORDERED(1) linorder_not_le list.distinct(1))
    then have "drop ?n ORDERED = ORDERED ! ?n # drop (Suc ?n) ORDERED"
      by (simp add: Cons_nth_drop_Suc)
    with d have p: "p = ORDERED ! ?n" "asked events = drop (Suc ?n) ORDERED" by simp_all
    let ?ps = "sa_phases s\<lparr>ps_count := saturating_add (ps_count (sa_phases s)) 1\<rparr>"
    have a: "advance (sa_phases s) p = Inr ?ps" using n p(1) by (simp add: advance_Inr)
    obtain h1 where r: "record_phase w s p elapsed h = (Inr (s\<lparr>sa_phases := ?ps\<rparr>), h1)"
      using record_phase_works [OF assms a] by blast
    have "\<exists>summary h'. run_sampler w (events @ FinishCommand # later) (s\<lparr>sa_phases := ?ps\<rparr>)
        (h1 @ [AnswerMarker None]) = (Inr (Some summary), h')"
      by (rule Cons.IH) (use Cons.prems advance_count [OF a] p(2) n in simp_all)
    then show ?thesis using phase r by (simp add: bind_act_def attempt_def effect_def)
  qed
qed

lemma start_sampler_works:
  assumes "working_output w" "load_parameters getconf = Inr params"
  shows "\<exists>s h'. start_sampler w getconf config h = (Inr s, h') \<and> sa_phases s = new_sequence"
  using assms record_sample_works [OF assms(1)]
  by (auto simp: start_sampler_def act_defs read_clock_def working_output_def split: option.splits)
     (metis (no_types, lifting) sampler_state.select_convs(14))+

lemma finishes:
  assumes "working_output w" "load_parameters getconf = Inr params"
    and "list_all waits_or_asks events" "asked events = [Setup, Warmup, Measured, Drain]"
  shows "\<exists>summary h. sampler_run w getconf config (events @ [FinishCommand]) [] = (Inr (Some summary), h)"
proof -
  obtain s h where s: "start_sampler w getconf config [] = (Inr s, h)" "sa_phases s = new_sequence"
    using start_sampler_works [OF assms(1,2)] by blast
  have "asked events = drop (unat (ps_count (sa_phases s))) ORDERED"
    using assms(4) s(2) by (simp add: ORDERED_def)
  from run_sampler_works [OF assms(1,3) this, of "[]" h] show ?thesis
    using s by (simp add: sampler_run_def bind_act_def)
qed

text \<open>
  collection failures never stop the sampler. When its output file works and the host parameters
  load, any mixture of ticks with markers for the four phases in order, followed by the finish command,
  ends with a summary, whatever \<open>/proc\<close> and the server's endpoints return.
\<close>

theorem sampler_finishes:
  assumes "working_output w" "load_parameters getconf = Inr params"
    and "list_all waits_or_asks events" "asked events = [Setup, Warmup, Measured, Drain]"
  shows "\<exists>summary h. sampler_run w getconf config (events @ [FinishCommand]) [] = (Inr (Some summary), h)"
  by (rule finishes [OF assms])

section \<open>Markers are on disk before they are answered\<close>

definition durable :: "sampler_world \<Rightarrow> sampler_effect list \<Rightarrow> bool" where
  "durable w h \<longleftrightarrow> (\<forall>g g'. h = g @ AnswerMarker None # g' \<longrightarrow>
     (\<exists>k p elapsed. g = k @ [EncodeRecord (phase_record p elapsed), WriteLineFeed, FlushRecords] \<and>
        io w k (EncodeRecord (phase_record p elapsed)) = Inr () \<and>
        io w (k @ [EncodeRecord (phase_record p elapsed)]) WriteLineFeed = Inr () \<and>
        io w (k @ [EncodeRecord (phase_record p elapsed), WriteLineFeed]) FlushRecords = Inr ()))"

lemma durable_Nil [simp]: "durable w []"
  by (simp add: durable_def)

lemma durable_snoc:
  assumes "durable w h" "e \<noteq> AnswerMarker None"
  shows "durable w (h @ [e])"
proof -
  have "\<exists>k. h = g @ AnswerMarker None # k" if "h @ [e] = g @ AnswerMarker None # g'" for g g'
  proof (cases g' rule: rev_cases)
    case Nil
    then show ?thesis using that assms(2) by simp
  next
    case (snoc k e')
    then have "h = g @ AnswerMarker None # k" using that by simp
    then show ?thesis by blast
  qed
  then show ?thesis using assms(1) unfolding durable_def by blast
qed

lemma durable_append:
  "durable w h \<Longrightarrow> AnswerMarker None \<notin> set g \<Longrightarrow> durable w (h @ g)"
proof (induction g rule: rev_induct)
  case Nil
  then show ?case by simp
next
  case (snoc e g)
  then have "durable w ((h @ g) @ [e])" by (intro durable_snoc) auto
  then show ?case by simp
qed

text \<open>An action that answers no marker.\<close>

definition silent :: "(sampler_effect, 'a) act \<Rightarrow> bool" where
  "silent m \<longleftrightarrow> (\<forall>h. \<exists>g. snd (m h) = h @ g \<and> AnswerMarker None \<notin> set g)"

lemma silent_effect [intro]: "e \<noteq> AnswerMarker None \<Longrightarrow> silent (effect world e)"
  by (auto simp: silent_def effect_def)

lemma silent_pure [intro]: "silent (return_act x)" "silent (lift_act r)" "silent (fail_act msg)"
  by (auto simp: silent_def return_act_def lift_act_def fail_act_def)

lemma silent_bind [intro]:
  assumes "silent m" "\<And>x. silent (f x)"
  shows "silent (bind_act m f)"
  unfolding silent_def
proof
  fix h
  obtain r h1 where m: "m h = (r, h1)" by fastforce
  obtain g where g: "h1 = h @ g" "AnswerMarker None \<notin> set g"
    using assms(1) m unfolding silent_def by (metis snd_conv)
  show "\<exists>g. snd (bind_act m f h) = h @ g \<and> AnswerMarker None \<notin> set g"
  proof (cases r)
    case (Inl e)
    then show ?thesis using m g by (simp add: bind_act_def)
  next
    case (Inr x)
    obtain g' where "snd (f x h1) = h1 @ g'" "AnswerMarker None \<notin> set g'"
      using assms(2) unfolding silent_def by blast
    then show ?thesis using m g Inr by (auto simp: bind_act_def intro: exI [of _ "g @ g'"])
  qed
qed

lemma silent_context [intro]: "silent m \<Longrightarrow> silent (act_context msg m)"
  by (auto simp: silent_def act_context_def split: prod.splits) (metis snd_conv)

lemma silent_write_record: "silent (write_record w r)"
  unfolding write_record_def by (intro silent_bind silent_context silent_effect) simp_all

lemma silent_record_sample: "silent (record_sample w final s)"
  unfolding record_sample_def Let_def read_clock_def capture_def sample_process_def fetch_traffic_def fetch_workers_def
  by (auto intro!: silent_bind silent_effect silent_write_record split: prod.splits)

lemma silent_durable: "silent m \<Longrightarrow> m h = (x, h') \<Longrightarrow> durable w h \<Longrightarrow> durable w h'"
  unfolding silent_def using durable_append by (metis snd_conv)

lemma record_phase_durable:
  assumes "record_phase w s p elapsed h = (Inr s', h')" "durable w h"
  shows "durable w (h' @ [AnswerMarker None])"
proof -
  let ?r = "phase_record p elapsed"
  have h': "h' = h @ [EncodeRecord ?r, WriteLineFeed, FlushRecords]"
    and ok: "io w h (EncodeRecord ?r) = Inr ()" "io w (h @ [EncodeRecord ?r]) WriteLineFeed = Inr ()"
      "io w (h @ [EncodeRecord ?r, WriteLineFeed]) FlushRecords = Inr ()"
    using assms(1) by (auto simp: record_phase_def write_record_def act_Inr)
  have d: "durable w h'" unfolding h' by (rule durable_append [OF assms(2)]) simp
  show ?thesis unfolding durable_def
  proof (intro allI impI)
    fix g g'
    assume eq: "h' @ [AnswerMarker None] = g @ AnswerMarker None # g'"
    show "\<exists>k p elapsed. g = k @ [EncodeRecord (phase_record p elapsed), WriteLineFeed, FlushRecords] \<and>
        io w k (EncodeRecord (phase_record p elapsed)) = Inr () \<and>
        io w (k @ [EncodeRecord (phase_record p elapsed)]) WriteLineFeed = Inr () \<and>
        io w (k @ [EncodeRecord (phase_record p elapsed), WriteLineFeed]) FlushRecords = Inr ()"
    proof (cases "g' = []")
      case True
      then have "g = h'" using eq by simp
      then show ?thesis using h' ok by blast
    next
      case False
      then obtain k e where "g' = k @ [e]" by (metis rev_exhaust)
      then have "h' = g @ AnswerMarker None # k" using eq by simp
      then show ?thesis using d unfolding durable_def by blast
    qed
  qed
qed

lemma run_sampler_durable:
  "run_sampler w events s h = (x, h') \<Longrightarrow> durable w h \<Longrightarrow> durable w h'"
proof (induction w events s arbitrary: h rule: run_sampler.induct)
  case (2 w phase elapsed events s)
  obtain y h1 where y: "record_phase w s phase elapsed h = (y, h1)" by fastforce
  have sl: "silent (record_phase w s phase elapsed)"
    unfolding record_phase_def by (auto intro!: silent_bind silent_write_record)
  show ?case
  proof (cases y)
    case (Inl e)
    then have "h' = h1 @ [AnswerMarker (Some (show_error e))]"
      using "2.prems"(1) y by (auto simp: bind_act_def attempt_def effect_def lift_act_def)
    then show ?thesis using durable_snoc silent_durable [OF sl y "2.prems"(2)] by simp
  next
    case (Inr s')
    then have "run_sampler w events s' (h1 @ [AnswerMarker None]) = (x, h')"
      using "2.prems"(1) y by (auto simp: bind_act_def attempt_def effect_def)
    then show ?thesis
      by (rule "2.IH") (use record_phase_durable [of w s phase elapsed h s' h1] y Inr "2.prems"(2) in simp)
  qed
next
  case (5 w events s)
  obtain y h1 where y: "record_sample w False s h = (y, h1)" by fastforce
  have d: "durable w h1" by (rule silent_durable [OF silent_record_sample y "5.prems"(2)])
  show ?case
  proof (cases y)
    case (Inl e)
    then show ?thesis using "5.prems"(1) y d by (simp add: bind_act_def)
  next
    case (Inr z)
    then have "run_sampler w events z h1 = (x, h')" using "5.prems"(1) y by (simp add: bind_act_def)
    then show ?thesis by (rule "5.IH") (fact d)
  qed
next
  case (3 w events s)
  have "silent (bind_act (record_sample w True s) (\<lambda>s'.
     bind_act (lift_act (summarize s')) (\<lambda>summary. return_act (Some summary))))"
    by (auto intro!: silent_bind silent_record_sample)
  then show ?case using silent_durable 3 by (metis run_sampler.simps(3))
qed (auto simp: return_act_def fail_act_def lift_act_def)

text \<open>
  no marker is acknowledged before it is on disk. Whenever the sampler answers a marker with
  success, its last three effects encoded the record of a phase, ended the line and flushed the file,
  and all three succeeded.
\<close>

theorem markers_on_disk_before_answer:
  assumes "sampler_run w getconf config events [] = (x, h)" "h = before @ AnswerMarker None # after"
  shows "\<exists>k p elapsed. before = k @ [EncodeRecord (phase_record p elapsed), WriteLineFeed, FlushRecords] \<and>
     io w k (EncodeRecord (phase_record p elapsed)) = Inr () \<and>
     io w (k @ [EncodeRecord (phase_record p elapsed)]) WriteLineFeed = Inr () \<and>
     io w (k @ [EncodeRecord (phase_record p elapsed), WriteLineFeed]) FlushRecords = Inr ()"
proof -
  have sl: "silent (start_sampler w getconf config)"
    unfolding start_sampler_def read_clock_def
    by (auto intro!: silent_bind silent_context silent_effect silent_record_sample split: option.splits)
  obtain y h1 where y: "start_sampler w getconf config [] = (y, h1)" by fastforce
  have d: "durable w h1" by (rule silent_durable [OF sl y]) simp
  have "durable w h"
    using assms(1) y d run_sampler_durable by (cases y) (auto simp: sampler_run_def bind_act_def)
  then show ?thesis using assms(2) unfolding durable_def by blast
qed

section \<open>An example sampler\<close>

definition getconf_text :: string where
  "getconf_text = ''PAGESIZE 4096'' @ [CHR 0x0A] @ ''CLK_TCK 100'' @ [CHR 0x0A]"

lemma getconf_lines: "map split_ascii_whitespace (lines_of getconf_text) = [[''PAGESIZE'', ''4096''], [''CLK_TCK'', ''100'']]"
  by code_simp

lemma getconf_utf8: "from_utf8 getconf_text = Inr getconf_text"
  by code_simp

definition getconf_output :: "command_output result" where
  "getconf_output = Inr \<lparr>co_success = True, co_status = ''exit status: 0'', co_stdout = getconf_text\<rparr>"

lemma getconf_parameters:
  "load_parameters getconf_output = Inr \<lparr>sp_page_size = 4096, sp_clock_ticks_per_second = 100\<rparr>"
proof -
  obtain a b where l: "lines_of getconf_text = [a, b]" "split_ascii_whitespace a = [''PAGESIZE'', ''4096'']"
    "split_ascii_whitespace b = [''CLK_TCK'', ''100'']"
    using getconf_lines by (auto simp: map_eq_Cons_conv)
  have "parse_u64 ''4096'' = Inr 4096" "parse_u64 ''100'' = Inr 100"
    by (simp_all add: parse_u64_def parse_unsigned_def digit_of_def)
  then show ?thesis
    by (simp add: load_parameters_def getconf_output_def getconf_utf8 parse_system_parameters_def l
        parameter_line_def next_u64_def trim_end_matches_def)
qed

definition metrics_text :: string where
  "metrics_text = concat (map (\<lambda>series. series @ '' 0'' @ [CHR 0x0A])
     [RTP_PACKETS_INGRESS, RTP_BYTES_INGRESS, RTP_PACKETS_EGRESS, RTP_BYTES_EGRESS,
      RTP_FORWARDED_LOCAL, RTP_FORWARDED_BYTES_LOCAL])"

lemma metrics_entries:
  "entries_of (map trim (lines_of metrics_text)) =
     [(IngressPackets, [''0'']), (IngressBytes, [''0'']), (EgressPackets, [''0'']), (EgressBytes, [''0'']),
      (ForwardedPackets, [''0'']), (ForwardedBytes, [''0''])]"
  by code_simp

definition no_counters :: rtp_counters where
  "no_counters = \<lparr>rc_packets = 0, rc_payload_bytes = 0\<rparr>"

lemma metrics_traffic:
  "parse_traffic metrics_text =
     Inr \<lparr>tr_ingress = no_counters, tr_egress = no_counters, tr_forwarded_local_rtc = no_counters\<rparr>"
proof -
  have "parse_u64 ''0'' = Inr 0" by (simp add: parse_u64_def parse_unsigned_def digit_of_def)
  then show ?thesis unfolding parse_traffic_iff metrics_entries
    by (intro allI, rename_tac slot, case_tac slot) (simp_all add: single_counter_def no_counters_def)
qed

definition demo_world :: sampler_world where
  "demo_world =
     \<lparr>metrics_path = ''/metrics'', workers_path = ''/workers'',
      reads_clock = (\<lambda>h. from_secs (length h)),
      stat_file = (\<lambda>h pid. FileText (stat_line ''7'' ''a) b'' demo_fields)),
      metrics_reply = (\<lambda>h url. Inr (Inr (Inr metrics_text))),
      workers_reply = (\<lambda>h url. Inr (Inr (Inr []))), io = (\<lambda>h e. Inr ())\<rparr>"

definition demo_config :: telemetry_config where
  "demo_config = new_config ''http://sfu/'' 7 8 \<lparr>rooted = False, components = [''out'', ''t.jsonl'']\<rparr>"

definition demo_process :: process_sample where
  "demo_process = \<lparr>pr_cpu_ticks = 11, pr_rss_bytes = 12288, pr_start_time_ticks = 9\<rparr>"

lemma demo_read:
  "read_process pid 4096 (FileText (stat_line ''7'' ''a) b'' demo_fields)) = Inr (Some demo_process)"
proof -
  have r: "3 < (2 ^ 63 :: nat)" by simp
  from parse_stat_line [OF demo_fields_ok r, of "''7''" "''a) b''" 4096] show ?thesis
    by (simp add: read_process_def demo_process_def)
qed

lemma demo_working: "working_output demo_world"
  by (simp add: working_output_def demo_world_def)

definition demo_events :: "sampler_event list" where
  "demo_events = [PhaseCommand Setup 1, Tick, PhaseCommand Warmup 2, PhaseCommand Measured 3, Tick,
     PhaseCommand Drain 4]"

theorem sampler_finishes_witness:
  "\<exists>summary h. sampler_run demo_world getconf_output demo_config (demo_events @ [FinishCommand]) []
     = (Inr (Some summary), h)"
proof -
  have "list_all waits_or_asks demo_events" "asked demo_events = [Setup, Warmup, Measured, Drain]"
    by (simp_all add: demo_events_def waits_or_asks_def)
  then show ?thesis by (rule sampler_finishes [OF demo_working getconf_parameters])
qed

lemma demo_finishes:
  "\<exists>summary h. sampler_run demo_world getconf_output demo_config (demo_events @ [FinishCommand]) []
     = (Inr (Some summary), h)"
proof -
  have "list_all waits_or_asks demo_events" "asked demo_events = [Setup, Warmup, Measured, Drain]"
    by (simp_all add: demo_events_def waits_or_asks_def)
  then show ?thesis by (rule finishes [OF demo_working getconf_parameters])
qed

theorem sampler_summary_accounts_witness:
  "\<exists>summary h. sampler_run demo_world getconf_output demo_config (demo_events @ [FinishCommand]) []
     = (Inr (Some summary), h) \<and> phases_in (recorded h) = [Setup, Warmup, Measured, Drain] \<and>
     su_sample_count summary = length (samples_in (recorded h))"
  using demo_finishes sampler_summary_accounts by blast

lemma demo_samples:
  "\<exists>h d d'. sampler_run demo_world getconf_output demo_config [Tick] [] = (Inr None, h) \<and>
     samples_in (recorded h) = [d, d']"
  using getconf_parameters
  by (simp add: sampler_run_def start_sampler_def act_defs read_clock_def record_sample_def Let_def capture_def
      sample_process_def fetch_traffic_def fetch_workers_def demo_world_def demo_config_def new_config_def
      demo_read metrics_traffic path_parent_def is_empty_path_def capture_outcome_def verify_start_time_def
      rtc_outcome_def rates_outcome_def cpu_percent_milli_def count_outcome_def write_record_def
      from_secs_def millis_def advance_process_sample_def checked_sub_def clamp_to_def demo_process_def
      saturating_mul_def checked_div_def samples_in_def)

theorem samples_of_one_process_witness:
  "\<exists>h d d'. sampler_run demo_world getconf_output demo_config [Tick] [] = (Inr None, h) \<and>
     samples_in (recorded h) = [d, d'] \<and>
     pr_start_time_ticks (sd_server d) = pr_start_time_ticks (sd_server d')"
proof -
  obtain h d d' where h: "sampler_run demo_world getconf_output demo_config [Tick] [] = (Inr None, h)"
    "samples_in (recorded h) = [d, d']" using demo_samples by blast
  then show ?thesis using samples_of_one_process [OF h(1), of d d'] by auto
qed

lemma demo_marker:
  "\<exists>before. sampler_run demo_world getconf_output demo_config [PhaseCommand Setup 1] []
     = (Inr None, before @ AnswerMarker None # [])"
proof -
  obtain s h where s: "start_sampler demo_world getconf_output demo_config [] = (Inr s, h)"
    "sa_phases s = new_sequence"
    using start_sampler_works [OF demo_working getconf_parameters] by blast
  then have "advance (sa_phases s) Setup = Inr (new_sequence\<lparr>ps_count := 1\<rparr>)"
    by (simp add: advance_Inr ORDERED_def new_sequence_def saturating_add_def)
  then obtain s' h' where "record_phase demo_world s Setup 1 h = (Inr s', h')"
    using record_phase_works [OF demo_working] by blast
  then show ?thesis using s by (simp add: sampler_run_def bind_act_def attempt_def effect_def return_act_def)
qed

theorem markers_on_disk_before_answer_witness:
  "\<exists>h before. sampler_run demo_world getconf_output demo_config [PhaseCommand Setup 1] [] = (Inr None, h) \<and>
     h = before @ [AnswerMarker None] \<and> (\<exists>k p elapsed. before
       = k @ [EncodeRecord (phase_record p elapsed), WriteLineFeed, FlushRecords])"
proof -
  obtain before where b: "sampler_run demo_world getconf_output demo_config [PhaseCommand Setup 1] []
     = (Inr None, before @ AnswerMarker None # [])" using demo_marker by blast
  from markers_on_disk_before_answer [OF this refl] show ?thesis using b by blast
qed

end
