(* ===== verification/Samples.thy ===== *)
theory Samples
  imports Telemetry
begin

text \<open>
  The reading side of the telemetry file, from \<open>src/report.rs\<close>: a line of \<open>samples.jsonl\<close> becomes a
  sample, a gap, a phase marker or a counted failure (\<open>parse_samples\<close>, \<open>parse_current_record\<close>,
  \<open>TelemetrySample\<close>, \<open>WorkerTelemetry\<close>, \<open>PhaseMarker\<close>). JSON decoding belongs to \<open>serde_json\<close>: the
  two entry points the code calls are the record \<open>serde\<close>, a parameter of every definition.
\<close>

section \<open>JSON values\<close>

text \<open>
  \<open>serde_json::Value\<close> as documented: an integer number or another number, of which the code reads
  nothing, and objects by key.
\<close>

datatype json =
    JNull
  | JBool bool
  | JInt int
  | JReal string
  | JString string
  | JArray "json list"
  | JObject "(string \<times> json) list"

fun json_get :: "string \<Rightarrow> json \<Rightarrow> json option" where
  "json_get key (JObject entries) = map_of entries key"
| "json_get key _ = None"

fun as_u64 :: "json \<Rightarrow> u64 option" where
  "as_u64 (JInt n) = (if 0 \<le> n \<and> n < 2 ^ 64 then Some (of_int n) else None)"
| "as_u64 _ = None"

fun as_bool :: "json \<Rightarrow> bool option" where
  "as_bool (JBool b) = Some b"
| "as_bool _ = None"

fun as_str :: "json \<Rightarrow> string option" where
  "as_str (JString s) = Some s"
| "as_str _ = None"

fun as_array :: "json \<Rightarrow> json list option" where
  "as_array (JArray xs) = Some xs"
| "as_array _ = None"

text \<open>\<open>value.get(key).and_then(...)\<close> and \<open>value.get(object)?.get(key)?\<close>.\<close>

definition get_u64 :: "string \<Rightarrow> json \<Rightarrow> u64 option" where
  "get_u64 key v = Option.bind (json_get key v) as_u64"

definition get_bool :: "string \<Rightarrow> json \<Rightarrow> bool option" where
  "get_bool key v = Option.bind (json_get key v) as_bool"

definition nested_u64 :: "json \<Rightarrow> string \<Rightarrow> string \<Rightarrow> u64 option" where
  "nested_u64 v obj key = Option.bind (json_get obj v) (\<lambda>o'. Option.bind (json_get key o') as_u64)"

definition traffic_u64 :: "json \<Rightarrow> string \<Rightarrow> string \<Rightarrow> u64 option" where
  "traffic_u64 v direction key =
     Option.bind (json_get ''traffic'' v) (\<lambda>traffic.
     Option.bind (json_get direction traffic) (\<lambda>counters. Option.bind (json_get key counters) as_u64))"

text \<open>The decoders: \<open>from_str::<Value>\<close> and \<open>from_value::<TelemetryRecord>\<close>, or the error as displayed.\<close>

record serde =
  decode_value :: "string \<Rightarrow> string + json"
  decode_record :: "json \<Rightarrow> string + telemetry_record"

section \<open>Data\<close>

definition MAX_TELEMETRY_SAMPLES :: nat where "MAX_TELEMETRY_SAMPLES = 10000"
definition MAX_TELEMETRY_ERRORS :: nat where "MAX_TELEMETRY_ERRORS = 8"
definition MAX_TELEMETRY_WORKERS :: nat where "MAX_TELEMETRY_WORKERS = 64"

record worker_telemetry =
  wt_media_worker_id :: nat
  wt_egress_bitrate_bps :: u64
  wt_command_backlog_depth :: nat
  wt_relay_mailbox_depth :: nat
  wt_worker_pressure_score :: u8

record telemetry_sample =
  ts_elapsed_ms :: u64
  ts_is_gap :: bool
  ts_final_sample :: "bool option"
  ts_scrape_duration_ms :: "u64 option"
  ts_clock_ticks_per_second :: "u64 option"
  ts_server_cpu_ticks :: "u64 option"
  ts_server_start_time_ticks :: "u64 option"
  ts_server_rss_bytes :: "u64 option"
  ts_rtc_cpu_ticks :: "u64 option"
  ts_rtc_rss_bytes :: "u64 option"
  ts_server_cpu_percent_milli :: "u64 option"
  ts_rtc_cpu_percent_milli :: "u64 option"
  ts_ingress_packets :: "u64 option"
  ts_ingress_payload_bytes :: "u64 option"
  ts_egress_packets :: "u64 option"
  ts_forwarded_packets :: "u64 option"
  ts_egress_payload_bytes :: "u64 option"
  ts_forwarded_payload_bytes :: "u64 option"
  ts_workers :: "worker_telemetry list"
  ts_packet_loop_delay_ms :: "u64 option"
  ts_packet_loop_unresponsive :: bool

definition default_sample :: telemetry_sample where
  "default_sample =
     \<lparr>ts_elapsed_ms = 0, ts_is_gap = False, ts_final_sample = None, ts_scrape_duration_ms = None,
      ts_clock_ticks_per_second = None, ts_server_cpu_ticks = None, ts_server_start_time_ticks = None,
      ts_server_rss_bytes = None, ts_rtc_cpu_ticks = None, ts_rtc_rss_bytes = None,
      ts_server_cpu_percent_milli = None, ts_rtc_cpu_percent_milli = None, ts_ingress_packets = None,
      ts_ingress_payload_bytes = None, ts_egress_packets = None, ts_forwarded_packets = None,
      ts_egress_payload_bytes = None, ts_forwarded_payload_bytes = None, ts_workers = [],
      ts_packet_loop_delay_ms = None, ts_packet_loop_unresponsive = False\<rparr>"

record phase_marker =
  pm_elapsed_ms :: u64
  pm_phase :: scenario_phase

record sample_set =
  ss_samples :: "telemetry_sample list"
  ss_phases :: "phase_marker list"
  ss_unavailable :: nat
  ss_errors :: "string list"

section \<open>Workers\<close>

definition valid_workers :: "worker_telemetry list \<Rightarrow> bool" where
  "valid_workers workers \<longleftrightarrow>
     (\<forall>worker \<in> set workers. wt_media_worker_id worker < MAX_TELEMETRY_WORKERS) \<and>
     card (set (map wt_media_worker_id workers)) = length workers"

fun collect_options :: "'a option list \<Rightarrow> 'a list option" where
  "collect_options [] = Some []"
| "collect_options (x # xs) =
     Option.bind x (\<lambda>y. Option.bind (collect_options xs) (\<lambda>ys. Some (y # ys)))"

text \<open>\<open>u8::try_from(...).ok()\<close> of the score; a 64-bit value is always a \<open>usize\<close>.\<close>

definition worker_from_value :: "json \<Rightarrow> worker_telemetry option" where
  "worker_from_value v =
     Option.bind (get_u64 ''mediaWorkerId'' v) (\<lambda>worker_id.
     Option.bind (get_u64 ''egressBitrateBps'' v) (\<lambda>bitrate.
     Option.bind (get_u64 ''commandBacklogDepth'' v) (\<lambda>backlog.
     Option.bind (get_u64 ''relayMailboxDepth'' v) (\<lambda>mailbox.
     Option.bind (Option.bind (get_u64 ''workerPressureScore'' v) (\<lambda>n. try_to (unat n))) (\<lambda>score.
     Some \<lparr>wt_media_worker_id = unat worker_id, wt_egress_bitrate_bps = bitrate,
       wt_command_backlog_depth = unat backlog, wt_relay_mailbox_depth = unat mailbox,
       wt_worker_pressure_score = score\<rparr>)))))"

definition workers_from_values :: "json list \<Rightarrow> worker_telemetry list option" where
  "workers_from_values vs =
     (if length vs > MAX_TELEMETRY_WORKERS then None
      else Option.bind (collect_options (map worker_from_value vs)) (\<lambda>workers.
        if valid_workers workers then Some workers else None))"

definition worker_of_pressure :: "worker_pressure_sample \<Rightarrow> worker_telemetry" where
  "worker_of_pressure worker =
     \<lparr>wt_media_worker_id = wk_media_worker_id worker, wt_egress_bitrate_bps = wk_egress_bitrate_bps worker,
      wt_command_backlog_depth = wk_command_backlog_depth worker,
      wt_relay_mailbox_depth = wk_relay_mailbox_depth worker,
      wt_worker_pressure_score = wk_worker_pressure_score worker\<rparr>"

definition workers_from_current :: "worker_pressure_sample list \<Rightarrow> worker_telemetry list option" where
  "workers_from_current pressures =
     (if length pressures > MAX_TELEMETRY_WORKERS then None
      else let workers = map worker_of_pressure pressures in
        if valid_workers workers then Some workers else None)"

section \<open>Samples\<close>

definition gap_from_value :: "json \<Rightarrow> telemetry_sample option" where
  "gap_from_value v =
     Option.bind (get_u64 ''elapsedMs'' v) (\<lambda>elapsed_ms.
     Some (default_sample
       \<lparr>ts_elapsed_ms := elapsed_ms, ts_is_gap := True, ts_final_sample := get_bool ''finalSample'' v,
        ts_scrape_duration_ms := get_u64 ''scrapeDurationMs'' v\<rparr>))"

definition sample_from_current ::
  "u64 \<Rightarrow> u64 \<Rightarrow> bool option \<Rightarrow> telemetry_outcome \<Rightarrow> telemetry_sample option" where
  "sample_from_current elapsed_ms scrape_duration_ms final_sample outcome =
     (case outcome of
        SampleOutcome d \<Rightarrow>
          let unresponsive = (\<exists>worker \<in> set (sd_workers d). wk_packet_loop_delay_ms worker = None);
              delay = (if unresponsive then None
                       else max_of (List.map_filter wk_packet_loop_delay_ms (sd_workers d))) in
          Option.bind (workers_from_current (sd_workers d)) (\<lambda>workers.
          Some \<lparr>ts_elapsed_ms = elapsed_ms, ts_is_gap = False, ts_final_sample = final_sample,
            ts_scrape_duration_ms = Some scrape_duration_ms,
            ts_clock_ticks_per_second = Some (sd_clock_ticks_per_second d),
            ts_server_cpu_ticks = Some (pr_cpu_ticks (sd_server d)),
            ts_server_start_time_ticks = Some (pr_start_time_ticks (sd_server d)),
            ts_server_rss_bytes = Some (sd_server_rss_bytes d),
            ts_rtc_cpu_ticks = map_option pr_cpu_ticks (sd_rtc d),
            ts_rtc_rss_bytes = sd_rtc_rss_bytes d,
            ts_server_cpu_percent_milli = sd_server_cpu_percent_milli d,
            ts_rtc_cpu_percent_milli = sd_rtc_cpu_percent_milli d,
            ts_ingress_packets = Some (rc_packets (tr_ingress (sd_traffic d))),
            ts_ingress_payload_bytes = Some (rc_payload_bytes (tr_ingress (sd_traffic d))),
            ts_egress_packets = Some (rc_packets (tr_egress (sd_traffic d))),
            ts_forwarded_packets = Some (rc_packets (tr_forwarded_local_rtc (sd_traffic d))),
            ts_egress_payload_bytes = Some (rc_payload_bytes (tr_egress (sd_traffic d))),
            ts_forwarded_payload_bytes = Some (rc_payload_bytes (tr_forwarded_local_rtc (sd_traffic d))),
            ts_workers = workers, ts_packet_loop_delay_ms = delay,
            ts_packet_loop_unresponsive = unresponsive\<rparr>)
      | _ \<Rightarrow> None)"

text \<open>Records of the first schema carry no status; everything but the time is optional.\<close>

definition or_else :: "'a option \<Rightarrow> 'a option \<Rightarrow> 'a option" where
  "or_else a b = (case a of Some x \<Rightarrow> Some x | None \<Rightarrow> b)"

definition usable_sample :: "telemetry_sample \<Rightarrow> bool" where
  "usable_sample s \<longleftrightarrow>
     ts_server_cpu_ticks s \<noteq> None \<or> ts_server_rss_bytes s \<noteq> None \<or> ts_rtc_cpu_ticks s \<noteq> None \<or>
     ts_rtc_rss_bytes s \<noteq> None \<or> ts_server_cpu_percent_milli s \<noteq> None \<or>
     ts_rtc_cpu_percent_milli s \<noteq> None \<or> ts_ingress_packets s \<noteq> None \<or>
     ts_ingress_payload_bytes s \<noteq> None \<or> ts_egress_packets s \<noteq> None \<or>
     ts_forwarded_packets s \<noteq> None \<or> ts_egress_payload_bytes s \<noteq> None \<or>
     ts_forwarded_payload_bytes s \<noteq> None \<or> ts_workers s \<noteq> [] \<or> ts_packet_loop_delay_ms s \<noteq> None \<or>
     ts_packet_loop_unresponsive s \<or> ts_scrape_duration_ms s \<noteq> None"

definition value_workers :: "json \<Rightarrow> worker_telemetry list option" where
  "value_workers v =
     (case json_get ''workers'' v of
        Some workers \<Rightarrow> Option.bind (as_array workers) workers_from_values
      | None \<Rightarrow> Some [])"

definition value_delays :: "json \<Rightarrow> json list option" where
  "value_delays v =
     map_option (List.map_filter (json_get ''packetLoopDelayMs''))
       (Option.bind (json_get ''workers'' v) as_array)"

definition sample_from_value :: "json \<Rightarrow> telemetry_sample option" where
  "sample_from_value v =
     Option.bind (value_workers v) (\<lambda>workers.
     let unresponsive = (case value_delays v of None \<Rightarrow> False | Some delays \<Rightarrow> JNull \<in> set delays) in
     Option.bind (get_u64 ''elapsedMs'' v) (\<lambda>elapsed_ms.
     let sample =
       \<lparr>ts_elapsed_ms = elapsed_ms, ts_is_gap = False, ts_final_sample = get_bool ''finalSample'' v,
        ts_scrape_duration_ms = get_u64 ''scrapeDurationMs'' v,
        ts_clock_ticks_per_second = get_u64 ''clockTicksPerSecond'' v,
        ts_server_cpu_ticks = nested_u64 v ''server'' ''cpuTicks'',
        ts_server_start_time_ticks = nested_u64 v ''server'' ''startTimeTicks'',
        ts_server_rss_bytes = or_else (nested_u64 v ''server'' ''rssBytes'') (get_u64 ''serverRssBytes'' v),
        ts_rtc_cpu_ticks = nested_u64 v ''rtc'' ''cpuTicks'',
        ts_rtc_rss_bytes = or_else (nested_u64 v ''rtc'' ''rssBytes'') (get_u64 ''rtcRssBytes'' v),
        ts_server_cpu_percent_milli = get_u64 ''serverCpuPercentMilli'' v,
        ts_rtc_cpu_percent_milli = get_u64 ''rtcCpuPercentMilli'' v,
        ts_ingress_packets = traffic_u64 v ''ingress'' ''packets'',
        ts_ingress_payload_bytes = traffic_u64 v ''ingress'' ''payloadBytes'',
        ts_egress_packets = traffic_u64 v ''egress'' ''packets'',
        ts_forwarded_packets = traffic_u64 v ''forwardedLocalRtc'' ''packets'',
        ts_egress_payload_bytes = traffic_u64 v ''egress'' ''payloadBytes'',
        ts_forwarded_payload_bytes = traffic_u64 v ''forwardedLocalRtc'' ''payloadBytes'',
        ts_workers = workers,
        ts_packet_loop_delay_ms =
          (if unresponsive then None
           else Option.bind (value_delays v) (\<lambda>delays. max_of (List.map_filter as_u64 delays))),
        ts_packet_loop_unresponsive = unresponsive\<rparr> in
     if usable_sample sample then Some sample else None))"

section \<open>Phase markers\<close>

definition new_marker :: "u64 \<Rightarrow> scenario_phase \<Rightarrow> phase_marker option \<Rightarrow> string + phase_marker" where
  "new_marker elapsed_ms phase previous =
     (let n = (case previous of None \<Rightarrow> 0 | Some marker \<Rightarrow> ordinal (pm_phase marker) + 1) in
      case get_at ORDERED n of
        None \<Rightarrow> Inl ''telemetry contains more than four phase markers''
      | Some expected \<Rightarrow>
          if phase \<noteq> expected then
            Inl (''telemetry phase is out of order: expected '' @ show_phase expected @ '', got ''
              @ show_phase phase)
          else if (case previous of None \<Rightarrow> False | Some marker \<Rightarrow> elapsed_ms < pm_elapsed_ms marker) then
            Inl ''telemetry phase elapsed time moved backwards''
          else Inr \<lparr>pm_elapsed_ms = elapsed_ms, pm_phase = phase\<rparr>)"

section \<open>The file\<close>

text \<open>The mutable variables of \<open>parse_samples\<close>.\<close>

record samples_parse =
  sp_samples :: "telemetry_sample list"
  sp_phases :: "phase_marker list"
  sp_unavailable :: nat
  sp_errors :: "string list"
  sp_records :: nat
  sp_phases_required :: bool

definition empty_parse :: samples_parse where
  "empty_parse =
     \<lparr>sp_samples = [], sp_phases = [], sp_unavailable = 0, sp_errors = [], sp_records = 0,
      sp_phases_required = False\<rparr>"

definition retain_error :: "string \<Rightarrow> string list \<Rightarrow> string list" where
  "retain_error msg errors = (if length errors < MAX_TELEMETRY_ERRORS then errors @ [msg] else errors)"

text \<open>\<open>unavailable\<close> grows by one, the message is retained, and a gap is kept where one can be read.\<close>

definition push_failure :: "string \<Rightarrow> telemetry_sample option \<Rightarrow> samples_parse \<Rightarrow> samples_parse" where
  "push_failure msg gap p =
     p\<lparr>sp_unavailable := sp_unavailable p + 1, sp_errors := retain_error msg (sp_errors p),
       sp_samples := sp_samples p @ (case gap of None \<Rightarrow> [] | Some sample \<Rightarrow> [sample])\<rparr>"

definition push_sample :: "telemetry_sample \<Rightarrow> samples_parse \<Rightarrow> samples_parse" where
  "push_sample sample p = p\<lparr>sp_samples := sp_samples p @ [sample]\<rparr>"

definition telemetry_error :: "json \<Rightarrow> string" where
  "telemetry_error v =
     (case Option.bind (json_get ''message'' v) as_str of
        None \<Rightarrow> ''telemetry record contains no usable process data''
      | Some msg \<Rightarrow> msg)"

definition last_of :: "'a list \<Rightarrow> 'a option" where
  "last_of xs = (if xs = [] then None else Some (last xs))"

text \<open>A decoded record of the current schema, given the gap of its value.\<close>

definition push_record ::
  "telemetry_record \<Rightarrow> bool option \<Rightarrow> telemetry_sample option \<Rightarrow> samples_parse \<Rightarrow> samples_parse" where
  "push_record r final_sample gap p =
     (case rec_outcome r of
        SampleOutcome d \<Rightarrow>
          (case sample_from_current (rec_elapsed_ms r) (rec_scrape_duration_ms r) final_sample (rec_outcome r) of
             Some sample \<Rightarrow> push_sample sample p
           | None \<Rightarrow> push_failure ''telemetry sample contains invalid worker data'' gap p)
      | ErrorOutcome msg \<Rightarrow> push_failure msg gap p
      | PhaseOutcome phase \<Rightarrow>
          (case new_marker (rec_elapsed_ms r) phase (last_of (sp_phases p)) of
             Inr marker \<Rightarrow> p\<lparr>sp_phases := sp_phases p @ [marker]\<rparr>
           | Inl msg \<Rightarrow> push_failure msg None p))"

definition parse_current_record :: "serde \<Rightarrow> json \<Rightarrow> samples_parse \<Rightarrow> bool \<times> samples_parse" where
  "parse_current_record d v p =
     (let final_sample = get_bool ''finalSample'' v; gap = gap_from_value v in
      case decode_record d v of
        Inl msg \<Rightarrow> (False, push_failure (''malformed telemetry record: '' @ msg) gap p)
      | Inr r \<Rightarrow>
          (rec_schema_version r \<ge> TELEMETRY_SCHEMA_VERSION, push_record r final_sample gap p))"

definition parse_line :: "serde \<Rightarrow> string \<Rightarrow> samples_parse \<Rightarrow> samples_parse" where
  "parse_line d text p =
     (if sp_records p \<ge> MAX_TELEMETRY_SAMPLES
      then push_failure ''telemetry sample limit reached'' None p
      else
        let p = p\<lparr>sp_records := sp_records p + 1\<rparr> in
        case decode_value d text of
          Inl msg \<Rightarrow> push_failure (''malformed telemetry record: '' @ msg) None p
        | Inr v \<Rightarrow>
            if json_get ''status'' v = None then
              (case sample_from_value v of
                 Some sample \<Rightarrow> push_sample sample p
               | None \<Rightarrow> push_failure (telemetry_error v) (gap_from_value v) p)
            else
              case parse_current_record d v p of
                (required, p') \<Rightarrow> p'\<lparr>sp_phases_required := (sp_phases_required p' \<or> required)\<rparr>)"

definition check_phases :: "samples_parse \<Rightarrow> samples_parse" where
  "check_phases p =
     (if (sp_phases_required p \<or> sp_phases p \<noteq> []) \<and> length (sp_phases p) \<noteq> PHASE_COUNT
      then push_failure ''telemetry phase sequence is incomplete'' None p else p)"

definition record_lines :: "string \<Rightarrow> string list" where
  "record_lines payload = filter (\<lambda>line. line \<noteq> []) (map trim (lines_of payload))"

definition parse_samples :: "serde \<Rightarrow> string \<Rightarrow> sample_set" where
  "parse_samples d payload =
     (let p = check_phases (fold (parse_line d) (record_lines payload) empty_parse) in
      \<lparr>ss_samples = sort_key ts_elapsed_ms (sp_samples p), ss_phases = sp_phases p,
       ss_unavailable = sp_unavailable p, ss_errors = sp_errors p\<rparr>)"

end
