(* ===== verification/SamplesReadBack.thy ===== *)
theory SamplesReadBack
  imports SamplesFacts
begin

text \<open>
  The writer and the reader of the telemetry file together: the records a sampler wrote, one JSON
  object per line, are read back by \<open>parse_samples\<close> with the counts, the messages and the phases of
  the sampler's own summary.
\<close>

section \<open>Lines of a file of records\<close>







section \<open>What the encoder and the decoders agree on\<close>


fun marker_time :: "telemetry_record \<Rightarrow> u64 list" where
  "marker_time r = (case rec_outcome r of PhaseOutcome p \<Rightarrow> [rec_elapsed_ms r] | _ \<Rightarrow> [])"

definition marker_times :: "telemetry_record list \<Rightarrow> u64 list" where
  "marker_times rs = concat (map marker_time rs)"

lemma marker_times_simps [simp]:
  "marker_times [] = []" "marker_times (rs @ rs') = marker_times rs @ marker_times rs'"
  "marker_times (r # rs) = marker_time r @ marker_times rs"
  by (simp_all add: marker_times_def)

lemma length_marker_times: "length (marker_times rs) = length (phases_in rs)"
proof (induction rs rule: rev_induct)
  case Nil
  then show ?case by simp
next
  case (snoc r rs)
  then show ?case by (cases "rec_outcome r") simp_all
qed

section \<open>Reading the records back\<close>









section \<open>An example file\<close>










end
