(* ===== verification/Summary.thy ===== *)
theory Summary
  imports SamplesFacts
begin

text \<open>
  \<open>TelemetrySummary::from_samples\<close> of \<open>src/report.rs\<close>: the averages, rates and maxima a report shows of
  a sample set. Averages and rates cover the whole window and exist only between a first and a final
  observation; products are taken at 128 bits.
\<close>

section \<open>The whole window\<close>

definition whole_window_endpoints ::
  "telemetry_sample list \<Rightarrow> (telemetry_sample \<times> telemetry_sample) option" where
  "whole_window_endpoints samples =
     (case samples of
        [] \<Rightarrow> None
      | initial # _ \<Rightarrow>
          let final_sample = last samples in
          if \<not> ts_is_gap initial \<and> ts_final_sample initial = Some False \<and> \<not> ts_is_gap final_sample \<and>
            ts_final_sample final_sample = Some True \<and> ts_elapsed_ms final_sample > ts_elapsed_ms initial
          then Some (initial, final_sample) else None)"

text \<open>\<open>u128::from(a) * u128::from(b)\<close>.\<close>

definition wide_mul :: "u64 \<Rightarrow> u64 \<Rightarrow> u128" where
  "wide_mul a b = ucast a * ucast b"

text \<open>
  The loop over the samples after the first: the time of the previous observation, the weighted sum and
  the total weight; none when the time moved backwards.
\<close>

fun weigh_samples ::
  "(telemetry_sample \<Rightarrow> u64 option) \<Rightarrow> telemetry_sample list \<Rightarrow> u64 \<Rightarrow> u128 \<Rightarrow> u128
     \<Rightarrow> (u128 \<times> u128) option" where
  "weigh_samples v [] previous_ms weighted_sum total_weight = Some (weighted_sum, total_weight)"
| "weigh_samples v (sample # samples) previous_ms weighted_sum total_weight =
     (if ts_is_gap sample then weigh_samples v samples previous_ms weighted_sum total_weight
      else Option.bind (checked_sub (ts_elapsed_ms sample) previous_ms) (\<lambda>weight.
        case (if weight > 0 then v sample else None) of
          Some x \<Rightarrow>
            weigh_samples v samples (ts_elapsed_ms sample)
              (saturating_add weighted_sum (wide_mul x weight)) (saturating_add total_weight (ucast weight))
        | None \<Rightarrow> weigh_samples v samples (ts_elapsed_ms sample) weighted_sum total_weight))"

definition whole_window_average ::
  "telemetry_sample list \<Rightarrow> (telemetry_sample \<Rightarrow> bool) \<Rightarrow> (telemetry_sample \<Rightarrow> bool)
     \<Rightarrow> (telemetry_sample \<Rightarrow> u64 option) \<Rightarrow> u64 option" where
  "whole_window_average samples initial_usable final_usable v =
     Option.bind (whole_window_endpoints samples) (\<lambda>(initial, final_sample).
     if \<not> initial_usable initial \<or> \<not> final_usable final_sample then None
     else
       Option.bind (checked_sub (ts_elapsed_ms final_sample) (ts_elapsed_ms initial)) (\<lambda>elapsed_ms.
       Option.bind (weigh_samples v (tl samples) (ts_elapsed_ms initial) 0 0) (\<lambda>(weighted_sum, total_weight).
       if total_weight = ucast elapsed_ms then try_to (unat (weighted_sum div total_weight)) else None)))"

definition usable_ticks :: "telemetry_sample \<Rightarrow> bool" where
  "usable_ticks s \<longleftrightarrow>
     ts_server_cpu_ticks s \<noteq> None \<and> ts_server_start_time_ticks s \<noteq> None \<and> ts_clock_ticks_per_second s \<noteq> None"

definition server_cpu_ticks :: "telemetry_sample list \<Rightarrow> (u64 \<times> u64) option" where
  "server_cpu_ticks samples =
     Option.bind (whole_window_endpoints samples) (\<lambda>(initial, final_sample).
     if \<not> usable_ticks initial \<or> \<not> usable_ticks final_sample then None
     else
       Option.bind (ts_server_cpu_ticks initial) (\<lambda>initial_ticks.
       Option.bind (ts_server_start_time_ticks initial) (\<lambda>start_time.
       Option.bind (ts_clock_ticks_per_second initial) (\<lambda>ticks_per_second.
       Option.bind (ts_server_start_time_ticks final_sample) (\<lambda>final_start.
       Option.bind (ts_clock_ticks_per_second final_sample) (\<lambda>final_per_second.
       if final_start \<noteq> start_time \<or> final_per_second \<noteq> ticks_per_second \<or> ticks_per_second = 0 then None
       else
         Option.bind (ts_server_cpu_ticks final_sample) (\<lambda>final_ticks.
         Option.bind (checked_sub final_ticks initial_ticks) (\<lambda>delta.
         if delta > 0 then Some (delta, ticks_per_second) else None))))))))"

definition cpu_micros_per_million :: "u64 \<Rightarrow> u64 \<Rightarrow> u64 \<Rightarrow> u64 option" where
  "cpu_micros_per_million ticks ticks_per_second delivered_packets =
     (if ticks_per_second = 0 \<or> delivered_packets = 0 then None
      else
        let numerator = ucast ticks * (1000000000000 :: u128);
            denominator = wide_mul ticks_per_second delivered_packets in
        try_to (unat (numerator div denominator)))"

definition counter_rate ::
  "telemetry_sample list \<Rightarrow> (telemetry_sample \<Rightarrow> u64 option) \<Rightarrow> u64 \<Rightarrow> u64 option" where
  "counter_rate samples v scale =
     Option.bind (whole_window_endpoints samples) (\<lambda>(initial, final_sample).
     Option.bind (checked_sub (ts_elapsed_ms final_sample) (ts_elapsed_ms initial)) (\<lambda>elapsed_ms.
     Option.bind (v final_sample) (\<lambda>final_value.
     Option.bind (v initial) (\<lambda>initial_value.
     Option.bind (checked_sub final_value initial_value) (\<lambda>delta.
     Some (clamp_to (unat (wide_mul delta scale div ucast elapsed_ms))))))))"

section \<open>The summary\<close>

record run_telemetry =
  rt_samples :: nat
  rt_unavailable :: nat
  rt_elapsed_ms :: "u64 option"
  rt_server_ticks_observed :: bool
  rt_rtc_ticks_observed :: bool
  rt_server_cpu_percent_milli :: "u64 option"
  rt_server_cpu_peak_percent_milli :: "u64 option"
  rt_server_rss_bytes :: "u64 option"
  rt_rtc_cpu_percent_milli :: "u64 option"
  rt_rtc_rss_bytes :: "u64 option"
  rt_deliveries_per_server_cpu_second :: "u64 option"
  rt_server_cpu_micros_per_million_deliveries :: "u64 option"
  rt_forwarded_packets_per_second :: "u64 option"
  rt_egress_payload_bits_per_second :: "u64 option"
  rt_packet_loop_delay_ms :: "u64 option"
  rt_packet_loop_unresponsive_samples :: nat

definition no_telemetry :: run_telemetry where
  "no_telemetry =
     \<lparr>rt_samples = 0, rt_unavailable = 0, rt_elapsed_ms = None, rt_server_ticks_observed = False,
      rt_rtc_ticks_observed = False, rt_server_cpu_percent_milli = None,
      rt_server_cpu_peak_percent_milli = None, rt_server_rss_bytes = None, rt_rtc_cpu_percent_milli = None,
      rt_rtc_rss_bytes = None, rt_deliveries_per_server_cpu_second = None,
      rt_server_cpu_micros_per_million_deliveries = None, rt_forwarded_packets_per_second = None,
      rt_egress_payload_bits_per_second = None, rt_packet_loop_delay_ms = None,
      rt_packet_loop_unresponsive_samples = 0\<rparr>"

text \<open>\<open>samples.iter().filter_map(field).max()\<close>.\<close>

definition peak :: "(telemetry_sample \<Rightarrow> u64 option) \<Rightarrow> telemetry_sample list \<Rightarrow> u64 option" where
  "peak v samples = max_of (List.map_filter v samples)"

definition deliveries_per_second :: "u64 \<Rightarrow> u64 \<times> u64 \<Rightarrow> u64" where
  "deliveries_per_second delivered_packets rate =
     (case rate of (ticks, ticks_per_second) \<Rightarrow>
        clamp_to (unat (wide_mul delivered_packets ticks_per_second div ucast ticks)))"

definition telemetry_from_samples :: "sample_set option \<Rightarrow> u64 \<Rightarrow> run_telemetry" where
  "telemetry_from_samples sample_set delivered_packets =
     (case sample_set of
        None \<Rightarrow> no_telemetry
      | Some found \<Rightarrow>
          let samples = ss_samples found; cpu_ticks = server_cpu_ticks samples in
          \<lparr>rt_samples = length (filter (\<lambda>s. \<not> ts_is_gap s) samples),
           rt_unavailable = ss_unavailable found,
           rt_elapsed_ms = map_option ts_elapsed_ms (last_of samples),
           rt_server_ticks_observed = (\<exists>s \<in> set samples. ts_server_cpu_ticks s \<noteq> None),
           rt_rtc_ticks_observed = (\<exists>s \<in> set samples. ts_rtc_cpu_ticks s \<noteq> None),
           rt_server_cpu_percent_milli =
             whole_window_average samples (\<lambda>s. ts_server_cpu_ticks s \<noteq> None)
               (\<lambda>s. ts_server_cpu_ticks s \<noteq> None \<and> ts_server_cpu_percent_milli s \<noteq> None)
               ts_server_cpu_percent_milli,
           rt_server_cpu_peak_percent_milli = peak ts_server_cpu_percent_milli samples,
           rt_server_rss_bytes = peak ts_server_rss_bytes samples,
           rt_rtc_cpu_percent_milli =
             whole_window_average samples (\<lambda>s. ts_rtc_cpu_ticks s \<noteq> None)
               (\<lambda>s. ts_rtc_cpu_ticks s \<noteq> None \<and> ts_rtc_cpu_percent_milli s \<noteq> None)
               ts_rtc_cpu_percent_milli,
           rt_rtc_rss_bytes = peak ts_rtc_rss_bytes samples,
           rt_deliveries_per_server_cpu_second = map_option (deliveries_per_second delivered_packets) cpu_ticks,
           rt_server_cpu_micros_per_million_deliveries =
             Option.bind cpu_ticks (\<lambda>(ticks, ticks_per_second).
               cpu_micros_per_million ticks ticks_per_second delivered_packets),
           rt_forwarded_packets_per_second = counter_rate samples ts_forwarded_packets 1000,
           rt_egress_payload_bits_per_second = counter_rate samples ts_egress_payload_bytes 8000,
           rt_packet_loop_delay_ms = peak ts_packet_loop_delay_ms samples,
           rt_packet_loop_unresponsive_samples = length (filter ts_packet_loop_unresponsive samples)\<rparr>)"

section \<open>Exactness of the averages\<close>

lemma unat_wide_mul [simp]: "unat (wide_mul a b) = unat a * unat b"
proof -
  have "unat a * unat b < 2 ^ 64 * 2 ^ 64"
    using unat_less_2p [of a] unat_less_2p [of b] by (intro mult_strict_mono') simp_all
  then show ?thesis by (simp add: wide_mul_def unat_word_ariths)
qed

text \<open>
  The intervals between successive observations: their length, and the value observed at their end.
\<close>

fun intervals :: "(telemetry_sample \<Rightarrow> u64 option) \<Rightarrow> nat \<Rightarrow> telemetry_sample list \<Rightarrow> (nat \<times> u64 option) list" where
  "intervals v previous [] = []"
| "intervals v previous (s # samples) =
     (if ts_is_gap s then intervals v previous samples
      else (unat (ts_elapsed_ms s) - previous, v s) # intervals v (unat (ts_elapsed_ms s)) samples)"

definition interval_weight :: "nat \<times> u64 option \<Rightarrow> nat" where
  "interval_weight i = (case snd i of None \<Rightarrow> 0 | Some x \<Rightarrow> fst i)"

definition interval_area :: "nat \<times> u64 option \<Rightarrow> nat" where
  "interval_area i = (case snd i of None \<Rightarrow> 0 | Some x \<Rightarrow> unat x * fst i)"

definition total_weight :: "(nat \<times> u64 option) list \<Rightarrow> nat" where
  "total_weight is = sum_list (map interval_weight is)"

definition total_area :: "(nat \<times> u64 option) list \<Rightarrow> nat" where
  "total_area is = sum_list (map interval_area is)"

definition ordered_samples :: "telemetry_sample list \<Rightarrow> bool" where
  "ordered_samples samples \<longleftrightarrow> sorted (map (\<lambda>s. unat (ts_elapsed_ms s)) samples)"

text \<open>The time of the last observation, \<open>previous\<close> when there is none.\<close>

fun final_time :: "nat \<Rightarrow> telemetry_sample list \<Rightarrow> nat" where
  "final_time previous [] = previous"
| "final_time previous (s # samples) =
     final_time (if ts_is_gap s then previous else unat (ts_elapsed_ms s)) samples"

lemma intervals_le: "i \<in> set (intervals v previous samples) \<Longrightarrow> interval_weight i \<le> fst i"
  by (simp add: interval_weight_def split: option.splits)

lemma total_simps [simp]:
  "total_weight [] = 0" "total_weight (i # is) = interval_weight i + total_weight is"
  "total_area [] = 0" "total_area (i # is) = interval_area i + total_area is"
  by (simp_all add: total_weight_def total_area_def)

lemma interval_lengths:
  "sorted (previous # map (\<lambda>s. unat (ts_elapsed_ms s)) samples) \<Longrightarrow>
     sum_list (map fst (intervals v previous samples)) = final_time previous samples - previous \<and>
     previous \<le> final_time previous samples"
proof (induction v previous samples rule: intervals.induct)
  case (1 v previous)
  then show ?case by simp
next
  case (2 v previous s samples)
  show ?case using "2.prems" "2.IH" by (cases "ts_is_gap s") auto
qed

lemma total_weight_le: "total_weight is \<le> sum_list (map fst is)"
  by (induction "is") (auto simp: interval_weight_def split: option.splits)

lemma total_weight_full:
  "total_weight is = sum_list (map fst is) \<longleftrightarrow> (\<forall>i \<in> set is. fst i = 0 \<or> snd i \<noteq> None)"
proof (induction "is")
  case Nil
  then show ?case by simp
next
  case (Cons i "is")
  then show ?case using total_weight_le [of "is"] by (auto simp: interval_weight_def split: option.splits)
qed

lemma area_bounds:
  assumes "\<And>i x. i \<in> set is \<Longrightarrow> snd i = Some x \<Longrightarrow> lo \<le> unat x \<and> unat x \<le> hi"
  shows "lo * total_weight is \<le> total_area is \<and> total_area is \<le> hi * total_weight is"
  using assms
proof (induction "is")
  case Nil
  then show ?case by simp
next
  case (Cons i "is")
  have ih: "lo * total_weight is \<le> total_area is \<and> total_area is \<le> hi * total_weight is"
    by (rule Cons.IH) (rule Cons.prems, simp_all)
  have "lo * interval_weight i \<le> interval_area i \<and> interval_area i \<le> hi * interval_weight i"
    using Cons.prems [of i] by (auto simp: interval_weight_def interval_area_def split: option.splits)
  then show ?case using ih by (simp add: add_mult_distrib2 add_mono)
qed

abbreviation u64_top :: nat where "u64_top \<equiv> 2 ^ 64 - 1"

lemma u64_le_top: "unat (x :: u64) \<le> u64_top"
  using unat_less_2p [of x] by simp

lemma u128_room: "n \<le> u64_top * u64_top \<Longrightarrow> n < 2 ^ 128"
  by simp

lemma weigh_exact:
  "sorted (unat previous # map (\<lambda>s. unat (ts_elapsed_ms s)) samples) \<Longrightarrow>
     unat area \<le> u64_top * unat previous \<Longrightarrow> unat weight \<le> unat previous \<Longrightarrow>
     \<exists>area' weight'. weigh_samples v samples previous area weight = Some (area', weight') \<and>
       unat area' = unat area + total_area (intervals v (unat previous) samples) \<and>
       unat weight' = unat weight + total_weight (intervals v (unat previous) samples)"
proof (induction samples arbitrary: previous area weight)
  case Nil
  then show ?case by simp
next
  case (Cons s samples)
  show ?case
  proof (cases "ts_is_gap s")
    case True
    then show ?thesis using Cons.IH [of previous area weight] Cons.prems by simp
  next
    case False
    let ?t = "unat (ts_elapsed_ms s)" and ?w = "ts_elapsed_ms s - previous"
    have le: "unat previous \<le> ?t" and rest: "sorted (?t # map (\<lambda>s. unat (ts_elapsed_ms s)) samples)"
      using Cons.prems(1) by auto
    have w: "checked_sub (ts_elapsed_ms s) previous = Some ?w" "unat ?w = ?t - unat previous"
      using le by (simp_all add: checked_sub_def word_le_nat_alt unat_sub)
    have pos: "0 < ?w \<longleftrightarrow> unat previous < ?t" using w(2) le by (simp add: word_less_nat_alt)
    show ?thesis
    proof (cases "0 < ?w \<and> v s \<noteq> None")
      case True
      then obtain x where x: "v s = Some x" by blast
      have "unat x * unat ?w \<le> u64_top * (?t - unat previous)"
        using u64_le_top [of x] w(2) by (intro mult_le_mono) simp_all
      moreover have "u64_top * unat previous + u64_top * (?t - unat previous) = u64_top * ?t"
        using le by (metis add_mult_distrib2 le_add_diff_inverse)
      ultimately have a: "unat area + unat x * unat ?w \<le> u64_top * ?t" using Cons.prems(2) by linarith
      have "u64_top * ?t \<le> u64_top * u64_top" using u64_le_top by (intro mult_le_mono2)
      then have a2: "unat (saturating_add area (wide_mul x ?w)) = unat area + unat x * unat ?w"
        using a u128_room [of "unat area + unat x * unat ?w"] by (simp add: saturating_add_def unat_word_ariths)
      have "unat weight + unat ?w \<le> ?t" using Cons.prems(3) w(2) le by linarith
      then have b: "unat (saturating_add weight (ucast ?w)) = unat weight + unat ?w"
        using u64_le_top [of "ts_elapsed_ms s"] by (simp add: saturating_add_def unat_word_ariths)
      have "unat weight + unat ?w \<le> ?t" by fact
      from Cons.IH [OF rest, of "saturating_add area (wide_mul x ?w)" "saturating_add weight (ucast ?w)"]
      show ?thesis using a a2 b w x True False \<open>unat weight + unat ?w \<le> ?t\<close>
        by (simp add: interval_area_def interval_weight_def add.assoc)
    next
      case no: False
      have "u64_top * unat previous \<le> u64_top * ?t" using le by (rule mult_le_mono2)
      then have "unat area \<le> u64_top * ?t" "unat weight \<le> ?t" using Cons.prems le by linarith+
      from Cons.IH [OF rest this] show ?thesis
        using no False w pos le
        by (auto simp: interval_area_def interval_weight_def split: option.splits if_splits)
    qed
  qed
qed

lemma final_time_last:
  "samples \<noteq> [] \<Longrightarrow> \<not> ts_is_gap (last samples) \<Longrightarrow>
     final_time previous samples = unat (ts_elapsed_ms (last samples))"
  by (induction previous samples rule: final_time.induct) auto

lemma endpoints_Some:
  "whole_window_endpoints samples = Some (i, f) \<longleftrightarrow>
     (\<exists>rest. samples = i # rest \<and> f = last samples) \<and> \<not> ts_is_gap i \<and> ts_final_sample i = Some False \<and>
     \<not> ts_is_gap f \<and> ts_final_sample f = Some True \<and> ts_elapsed_ms i < ts_elapsed_ms f"
  by (auto simp: whole_window_endpoints_def Let_def split: list.splits if_splits)

lemma endpoints_window:
  assumes "whole_window_endpoints samples = Some (i, f)" "ordered_samples samples"
  shows "sorted (unat (ts_elapsed_ms i) # map (\<lambda>s. unat (ts_elapsed_ms s)) (tl samples))"
    and "sum_list (map fst (intervals v (unat (ts_elapsed_ms i)) (tl samples)))
      = unat (ts_elapsed_ms f) - unat (ts_elapsed_ms i)"
    and "unat (ts_elapsed_ms i) < unat (ts_elapsed_ms f)"
proof -
  obtain rest where rest: "samples = i # rest" "f = last samples" and f: "\<not> ts_is_gap f"
    and less: "ts_elapsed_ms i < ts_elapsed_ms f"
    using assms(1) by (auto simp: endpoints_Some)
  then have "rest \<noteq> []" by auto
  then have "final_time (unat (ts_elapsed_ms i)) rest = unat (ts_elapsed_ms f)"
    using rest f final_time_last by simp
  moreover show "sorted (unat (ts_elapsed_ms i) # map (\<lambda>s. unat (ts_elapsed_ms s)) (tl samples))"
    using assms(2) rest by (simp add: ordered_samples_def)
  ultimately show "sum_list (map fst (intervals v (unat (ts_elapsed_ms i)) (tl samples)))
      = unat (ts_elapsed_ms f) - unat (ts_elapsed_ms i)"
    using interval_lengths rest(1) by simp
  show "unat (ts_elapsed_ms i) < unat (ts_elapsed_ms f)" using less by (simp add: word_less_nat_alt)
qed

definition covered :: "(nat \<times> u64 option) list \<Rightarrow> bool" where
  "covered ivs \<longleftrightarrow> (\<forall>i \<in> set ivs. fst i = 0 \<or> snd i \<noteq> None)"

lemma unat_of_quotient:
  assumes "a \<le> u64_top * d" "0 < d"
  shows "(try_to (a div d) :: u64 option) = Some (of_nat (a div d))"
proof -
  have "a div d \<le> u64_top * d div d" using assms(1) by (rule div_le_mono)
  then show ?thesis using assms(2) by (simp add: try_to_def)
qed

lemma average_cases:
  assumes "ordered_samples samples" and e: "whole_window_endpoints samples = Some (i, f)"
    and ivs: "ivs = intervals v (unat (ts_elapsed_ms i)) (tl samples)"
  shows "whole_window_average samples initial_usable final_usable v =
    (if initial_usable i \<and> final_usable f \<and> covered ivs
     then Some (of_nat (total_area ivs div (unat (ts_elapsed_ms f) - unat (ts_elapsed_ms i)))) else None)"
proof -
  let ?elapsed = "ts_elapsed_ms f - ts_elapsed_ms i"
  note w = endpoints_window [OF e assms(1)]
  have sub: "checked_sub (ts_elapsed_ms f) (ts_elapsed_ms i) = Some ?elapsed"
    "unat ?elapsed = unat (ts_elapsed_ms f) - unat (ts_elapsed_ms i)"
    using w(3) by (simp_all add: checked_sub_def word_le_nat_alt unat_sub)
  obtain area weight where run: "weigh_samples v (tl samples) (ts_elapsed_ms i) 0 0 = Some (area, weight)"
    "unat area = total_area ivs" "unat weight = total_weight ivs"
    using weigh_exact [OF w(1), of 0 0 v] ivs by auto
  have full: "weight = ucast ?elapsed \<longleftrightarrow> covered ivs"
    using total_weight_full [of ivs] w(2) [of v] run(3) sub(2)
    by (simp add: covered_def word_eq_unat_iff ivs)
  have "total_area ivs \<le> u64_top * total_weight ivs"
    using area_bounds [of ivs 0 u64_top] u64_le_top by auto
  then have q: "total_weight ivs = unat ?elapsed \<Longrightarrow>
      try_to (total_area ivs div unat ?elapsed) = Some (of_nat (total_area ivs div unat ?elapsed) :: u64)"
    using w(3) sub(2) by (intro unat_of_quotient) auto
  show ?thesis
    using e sub run(1) full q run(2,3)
    by (auto simp: whole_window_average_def unat_div covered_def)
qed

text \<open>
  C34: a reported whole-window average is exact. On samples in the order of time it exists exactly when the
  first and the final observation are usable and every interval of positive length between successive
  observations carries a value; it is then the sum of value times length over the intervals divided by
  the window, rounded down: nothing overflows or saturates, and no average is reported over a hole.
\<close>

theorem whole_window_average_exact:
  assumes "ordered_samples samples" and "whole_window_endpoints samples = Some (i, f)"
    and "ivs = intervals v (unat (ts_elapsed_ms i)) (tl samples)"
  shows "whole_window_average samples initial_usable final_usable v =
    (if initial_usable i \<and> final_usable f \<and> covered ivs
     then Some (of_nat (total_area ivs div (unat (ts_elapsed_ms f) - unat (ts_elapsed_ms i)))) else None)"
  by (rule average_cases [OF assms])

lemma intervals_values: "k \<in> set (intervals v previous samples) \<Longrightarrow> \<exists>s \<in> set samples. snd k = v s"
  by (induction v previous samples rule: intervals.induct) (auto split: if_splits)

lemma quotient_between: "0 < d \<Longrightarrow> lo * d \<le> a \<Longrightarrow> a \<le> hi * d \<Longrightarrow> lo \<le> a div d \<and> a div d \<le> (hi :: nat)"
  using div_le_mono [of "lo * d" a d] div_le_mono [of a "hi * d" d] by simp

text \<open>
  an average lies between the smallest and the largest observed value.
\<close>

theorem whole_window_average_bounds:
  assumes "ordered_samples samples"
    and "whole_window_average samples initial_usable final_usable v = Some average"
    and "\<And>s x. s \<in> set samples \<Longrightarrow> v s = Some x \<Longrightarrow> lo \<le> unat x \<and> unat x \<le> hi"
  shows "lo \<le> unat average \<and> unat average \<le> hi"
proof -
  obtain i f where e: "whole_window_endpoints samples = Some (i, f)"
    using assms(2) by (auto simp: whole_window_average_def bind_eq_Some_conv)
  let ?ivs = "intervals v (unat (ts_elapsed_ms i)) (tl samples)"
  let ?d = "unat (ts_elapsed_ms f) - unat (ts_elapsed_ms i)"
  note w = endpoints_window [OF e assms(1)]
  from assms(2) have c: "covered ?ivs" and a: "average = of_nat (total_area ?ivs div ?d)"
    unfolding average_cases [OF assms(1) e refl] by (auto split: if_splits)
  have wd: "total_weight ?ivs = ?d" using total_weight_full [of ?ivs] c w(2) [of v] by (simp add: covered_def)
  have "lo \<le> unat x \<and> unat x \<le> hi" if "k \<in> set ?ivs" "snd k = Some x" for k x
    using intervals_values [OF that(1)] that(2) assms(3) list.set_sel(2) [of samples]
    by (metis empty_iff list.set(1) list.sel(2))
  then have b: "lo * ?d \<le> total_area ?ivs" "total_area ?ivs \<le> hi * ?d"
    using area_bounds [of ?ivs lo hi] wd by auto
  have d: "0 < ?d" using w(3) by simp
  have q: "lo \<le> total_area ?ivs div ?d" "total_area ?ivs div ?d \<le> hi"
    using quotient_between [OF d b] by blast+
  have "0 * ?d \<le> total_area ?ivs" "total_area ?ivs \<le> u64_top * ?d"
    using area_bounds [of ?ivs 0 u64_top] u64_le_top wd by auto
  then have "total_area ?ivs div ?d \<le> u64_top" using quotient_between [OF d] by blast
  then have "unat average = total_area ?ivs div ?d" using a by (simp add: unat_of_nat)
  then show ?thesis using q by simp
qed

text \<open>
  a counter rate is the exact quotient, capped at the largest 64-bit value, and its divisor is
  positive.
\<close>

theorem counter_rate_exact:
  "counter_rate samples v scale = Some rate \<longleftrightarrow>
     (\<exists>i f x y. whole_window_endpoints samples = Some (i, f) \<and> v i = Some x \<and> v f = Some y \<and> x \<le> y \<and>
        unat (ts_elapsed_ms i) < unat (ts_elapsed_ms f) \<and>
        unat rate = min ((unat y - unat x) * unat scale div (unat (ts_elapsed_ms f) - unat (ts_elapsed_ms i)))
          (2 ^ 64 - 1))"
proof -
  have sub: "checked_sub y x = Some z \<longleftrightarrow> x \<le> y \<and> z = y - x" for x y z :: u64
    by (auto simp: checked_sub_def)
  have clamp: "rate = clamp_to n \<longleftrightarrow> unat rate = min n (2 ^ 64 - 1)" for n
    by (simp add: word_eq_unat_iff unat_sat)
  have less: "ts_elapsed_ms i < ts_elapsed_ms f" if "whole_window_endpoints samples = Some (i, f)" for i f
    using that by (auto simp: endpoints_Some)
  show ?thesis
    by (fastforce simp: counter_rate_def bind_eq_Some_conv sub clamp eq_commute [of _ rate] unat_div unat_sub
        word_le_nat_alt word_less_nat_alt dest: less [simplified word_less_nat_alt])
qed

section \<open>An example window\<close>

definition timed_sample :: "u64 \<Rightarrow> bool \<Rightarrow> u64 option \<Rightarrow> telemetry_sample" where
  "timed_sample t final_sample percent = default_sample
     \<lparr>ts_elapsed_ms := t, ts_final_sample := Some final_sample, ts_server_cpu_percent_milli := percent\<rparr>"

definition example_window :: "telemetry_sample list" where
  "example_window = [timed_sample 0 False None, timed_sample 1000 False (Some 200), timed_sample 3000 True (Some 400)]"

lemma example_window_ordered: "ordered_samples example_window"
  by (simp add: ordered_samples_def example_window_def timed_sample_def default_sample_def)

lemma example_endpoints:
  "whole_window_endpoints example_window = Some (timed_sample 0 False None, timed_sample 3000 True (Some 400))"
  by (simp add: whole_window_endpoints_def example_window_def timed_sample_def default_sample_def)

lemma example_intervals:
  "intervals ts_server_cpu_percent_milli (unat (ts_elapsed_ms (timed_sample 0 False None))) (tl example_window)
     = [(1000, Some 200), (2000, Some 400)]"
  by (simp add: example_window_def timed_sample_def default_sample_def)

theorem whole_window_average_exact_witness:
  "whole_window_average example_window (\<lambda>s. True) (\<lambda>s. True) ts_server_cpu_percent_milli = Some 333"
  using whole_window_average_exact [OF example_window_ordered example_endpoints refl,
      of "\<lambda>s. True" "\<lambda>s. True" ts_server_cpu_percent_milli]
  by (simp add: example_intervals covered_def interval_area_def) (simp add: timed_sample_def default_sample_def)

lemma example_average:
  "whole_window_average example_window (\<lambda>s. True) (\<lambda>s. True) ts_server_cpu_percent_milli = Some 333"
  using average_cases [OF example_window_ordered example_endpoints refl,
      of "\<lambda>s. True" "\<lambda>s. True" ts_server_cpu_percent_milli]
  by (simp add: example_intervals covered_def interval_area_def) (simp add: timed_sample_def default_sample_def)

theorem whole_window_average_bounds_witness: "200 \<le> unat (333 :: u64) \<and> unat (333 :: u64) \<le> 400"
proof (rule whole_window_average_bounds [OF example_window_ordered example_average])
  show "200 \<le> unat x \<and> unat x \<le> 400"
    if "s \<in> set example_window" "ts_server_cpu_percent_milli s = Some x" for s x
    using that by (auto simp: example_window_def timed_sample_def default_sample_def)
qed

end
