(* ===== verification/ReportFormat.thy ===== *)
theory ReportFormat
  imports Model RustStr
begin

text \<open>
  The text the reports of \<open>src/report.rs\<close>, \<open>src/report/dashboard.rs\<close> and \<open>src/comparison.rs\<close> are made
  of: grouped numbers and rates, scenario and chart labels, escaped table cells, checked links, and the
  axis of a chart. Labels name files and charts, so they have to be distinct; cells and links hold
  text from outside, so they must not break the Markdown around them.
\<close>

section \<open>Numbers\<close>

text \<open>\<open>format_args!("{:01}")\<close> pads to one digit, which every number has.\<close>

fun group_digits :: "nat \<Rightarrow> nat \<Rightarrow> string \<Rightarrow> string" where
  "group_digits len index [] = []"
| "group_digits len index (digit # digits) =
     (if index > 0 \<and> (len - index) mod 3 = 0 then [CHR '','', digit] else [digit])
       @ group_digits len (index + 1) digits"

definition grouped :: "u64 \<Rightarrow> string" where
  "grouped n = (let digits = show_word n in group_digits (length digits) 0 digits)"

definition format_cpu_percent :: "u64 \<Rightarrow> string" where
  "format_cpu_percent n = show_word (n div 1000) @ ''.'' @ pad_zero 3 (show_word (n mod 1000)) @ ''%''"

definition show_tenths :: "u128 \<Rightarrow> string" where
  "show_tenths tenths = show_word (tenths div 10) @ ''.'' @ pad_zero 1 (show_word (tenths mod 10))"

definition format_mebibytes :: "u64 \<Rightarrow> string" where
  "format_mebibytes n = show_tenths (ucast n * 10 div (1024 * 1024)) @ '' MiB''"

definition format_milliseconds :: "u64 \<Rightarrow> string" where
  "format_milliseconds n = grouped n @ '' ms''"

definition format_delivery_efficiency :: "u64 \<Rightarrow> string" where
  "format_delivery_efficiency n = grouped n @ '' deliveries/CPU-s''"

definition format_packets_per_second :: "u64 \<Rightarrow> string" where
  "format_packets_per_second n = grouped n @ '' packets/s''"

definition format_decimal_rate :: "u64 \<Rightarrow> u64 \<Rightarrow> string \<Rightarrow> string" where
  "format_decimal_rate n unit suffix = show_tenths (ucast n * 10 div ucast unit) @ '' '' @ suffix"

definition format_bits_per_second :: "u64 \<Rightarrow> string" where
  "format_bits_per_second n =
     (if n \<ge> 1000000000 then format_decimal_rate n 1000000000 ''Gbit/s''
      else if n \<ge> 1000000 then format_decimal_rate n 1000000 ''Mbit/s''
      else if n \<ge> 1000 then format_decimal_rate n 1000 ''kbit/s''
      else grouped n @ '' bit/s'')"

definition format_optional :: "u64 option \<Rightarrow> (u64 \<Rightarrow> string) \<Rightarrow> string" where
  "format_optional v format = (case v of None \<Rightarrow> ''n/a'' | Some n \<Rightarrow> format n)"

definition rounded_div :: "u64 \<Rightarrow> u64 \<Rightarrow> u64" where
  "rounded_div n divisor = clamp_to (unat ((ucast n + ucast divisor div 2) div (ucast divisor :: u128)))"

definition payload_bits_per_second :: "u64 \<Rightarrow> u64 \<Rightarrow> u64" where
  "payload_bits_per_second bytes elapsed_ms =
     (if elapsed_ms = 0 then 0 else clamp_to (unat (ucast bytes * (8000 :: u128) div ucast elapsed_ms)))"

fun planned_duration_ms :: "scenario_spec \<Rightarrow> u64" where
  "planned_duration_ms (Smoke _ packets) = u64_from packets * 1000 div u64_from AUDIO_PACKETS_PER_SECOND"
| "planned_duration_ms (AudioMesh _ _ seconds) = u64_from seconds * 1000"
| "planned_duration_ms (VideoGallery _ _ _ seconds) = u64_from seconds * 1000"
| "planned_duration_ms (MixedConference _ _ _ _ seconds) = u64_from seconds * 1000"

definition scheduled_payload_bits_per_second :: "scenario_result \<Rightarrow> u64" where
  "scheduled_payload_bits_per_second r =
     payload_bits_per_second (wp_offered_payload_bytes (res_plan r)) (planned_duration_ms (res_scenario r))"

definition delivered_payload_bits_per_second :: "scenario_result \<Rightarrow> u64" where
  "delivered_payload_bits_per_second r = payload_bits_per_second (res_delivered_payload_bytes r) (res_elapsed_ms r)"

definition payload_rate_for_profile :: "u64 \<Rightarrow> nat \<Rightarrow> u32 \<Rightarrow> u64 result" where
  "payload_rate_for_profile packet_count payload_bytes seconds =
     ensure (seconds > 0) ''media profile duration must be positive'' (
     bind_ok (ok_or ''payload size exceeds u64'' (try_to payload_bytes)) (\<lambda>payload.
     bind_ok (ok_or ''media profile bitrate overflowed''
       (Option.bind (checked_mul packet_count payload) (\<lambda>bytes. checked_mul bytes 8))) (\<lambda>bits.
     ensure (bits mod u64_from seconds = 0) ''media profile bitrate is not an exact integer'' (
     Inr (bits div u64_from seconds)))))"

definition format_profile_packet_rate :: "u64 \<Rightarrow> u32 \<Rightarrow> string result" where
  "format_profile_packet_rate packet_count seconds =
     ensure (seconds > 0) ''media profile duration must be positive'' (
     bind_ok (ok_or ''media profile packet rate overflowed'' (checked_mul (ucast packet_count :: u128) 10))
       (\<lambda>tenths.
     ensure (tenths mod ucast seconds = 0) ''media profile packet rate needs more than one decimal'' (
     let tenths = tenths div ucast seconds in
     if tenths mod 10 = 0 then Inr (grouped (clamp_to (unat (tenths div 10))))
     else Inr (show_tenths tenths))))"

section \<open>Labels\<close>

fun scenario_label :: "scenario_spec \<Rightarrow> string" where
  "scenario_label (Smoke receivers packets) =
     ''smoke-'' @ show_word receivers @ ''r-'' @ show_word packets @ ''p''"
| "scenario_label (AudioMesh rooms peers seconds) =
     ''audio-mesh-'' @ show_word rooms @ ''x'' @ show_word peers @ ''-'' @ show_word seconds @ ''s''"
| "scenario_label (VideoGallery rooms peers publishers seconds) =
     ''video-gallery-'' @ show_word rooms @ ''x'' @ show_word peers @ ''-'' @ show_word publishers
       @ ''p-'' @ show_word seconds @ ''s''"
| "scenario_label (MixedConference rooms peers audio_publishers video_publishers seconds) =
     ''mixed-conference-'' @ show_word rooms @ ''x'' @ show_word peers @ ''-'' @ show_word audio_publishers
       @ ''a-'' @ show_word video_publishers @ ''v-'' @ show_word seconds @ ''s''"

fun chart_label :: "scenario_spec \<Rightarrow> string" where
  "chart_label (Smoke receivers packets) = ''S '' @ show_word receivers @ ''r/'' @ show_word packets @ ''p''"
| "chart_label (AudioMesh rooms peers seconds) =
     ''A '' @ show_word rooms @ ''x'' @ show_word peers @ ''/'' @ show_word seconds @ ''s''"
| "chart_label (VideoGallery rooms peers publishers seconds) =
     ''V '' @ show_word rooms @ ''x'' @ show_word peers @ ''/'' @ show_word publishers
       @ ''p/'' @ show_word seconds @ ''s''"
| "chart_label (MixedConference rooms peers audio_publishers video_publishers seconds) =
     ''M '' @ show_word rooms @ ''x'' @ show_word peers @ ''/'' @ show_word audio_publishers
       @ ''a/'' @ show_word video_publishers @ ''v/'' @ show_word seconds @ ''s''"

definition publisher_label :: "scenario_spec \<Rightarrow> string" where
  "publisher_label spec =
     (let audio = audio_publishers_per_room spec; video = video_publishers_per_room spec in
      if video = 0 then show_word audio @ '' audio''
      else if audio = 0 then show_word video @ '' video''
      else show_word audio @ '' audio / '' @ show_word video @ '' video'')"

section \<open>Table cells\<close>

definition escape_char :: "char \<Rightarrow> string" where
  "escape_char c =
     (if c = CHR ''&'' then ''&amp;'' else if c = CHR ''<'' then ''&lt;'' else if c = CHR ''>'' then ''&gt;''
      else if c = CHR ''|'' then ''&#124;'' else if c = CHR 0x5C then ''&#92;''
      else if c = CHR ''['' then ''&#91;'' else if c = CHR '']'' then ''&#93;''
      else if c = CHR ''('' then ''&#40;'' else if c = CHR '')'' then ''&#41;''
      else if c = CHR ''!'' then ''&#33;'' else if c = CHR ''*'' then ''&#42;''
      else if c = CHR ''_'' then ''&#95;'' else if c = CHR 0x60 then ''&#96;''
      else if c = CHR 0x7E then ''&#126;'' else if c = CHR 0x0D \<or> c = CHR 0x0A then '' ''
      else [c])"

definition escape_table :: "string \<Rightarrow> string" where
  "escape_table s = concat (map escape_char s)"

section \<open>Links\<close>

definition valid_repository_component :: "string \<Rightarrow> bool" where
  "valid_repository_component s \<longleftrightarrow>
     s \<noteq> [] \<and> list_all (\<lambda>c. is_ascii_alphanumeric c \<or> c \<in> set ''-_.'') s"

definition numeric_identifier :: "string \<Rightarrow> bool" where
  "numeric_identifier s \<longleftrightarrow> s \<noteq> [] \<and> list_all is_ascii_digit s"

definition github_parts :: "string \<Rightarrow> string list option" where
  "github_parts url = map_option (split_char (CHR ''/'')) (strip_prefix ''https://github.com/'' url)"

definition valid_artifact_parts :: "string list \<Rightarrow> bool" where
  "valid_artifact_parts parts =
     (case parts of
        [owner, repository, actions, runs, run_id, artifacts, artifact_id] \<Rightarrow>
          actions = ''actions'' \<and> runs = ''runs'' \<and> artifacts = ''artifacts'' \<and>
          valid_repository_component owner \<and> valid_repository_component repository \<and>
          numeric_identifier run_id \<and> numeric_identifier artifact_id
      | _ \<Rightarrow> False)"

definition validate_artifact_url :: "string option \<Rightarrow> unit result" where
  "validate_artifact_url artifact_url =
     (case artifact_url of
        None \<Rightarrow> Inr ()
      | Some url \<Rightarrow>
          ensure (case github_parts url of None \<Rightarrow> False | Some parts \<Rightarrow> valid_artifact_parts parts)
            ''artifact URL must identify one GitHub Actions artifact'' (Inr ()))"

definition valid_flamegraph_asset :: "string \<Rightarrow> bool" where
  "valid_flamegraph_asset s =
     (case Option.bind (strip_prefix ''o-sfu-flamegraph-'' s) (strip_suffix ''.png'') of
        None \<Rightarrow> False
      | Some ids \<Rightarrow>
          let ids = (case strip_prefix ''baseline-'' ids of
                       Some rest \<Rightarrow> rest
                     | None \<Rightarrow> (case strip_prefix ''comparison-'' ids of Some rest \<Rightarrow> rest | None \<Rightarrow> ids)) in
          (case split_char (CHR ''-'') ids of
             [run_id, attempt] \<Rightarrow> numeric_identifier run_id \<and> numeric_identifier attempt
           | _ \<Rightarrow> False))"

definition valid_flamegraph_parts :: "string list \<Rightarrow> bool" where
  "valid_flamegraph_parts parts =
     (case parts of
        [owner, repository, releases, download, tag, asset] \<Rightarrow>
          releases = ''releases'' \<and> download = ''download'' \<and> tag = ''load-test-assets'' \<and>
          valid_repository_component owner \<and> valid_repository_component repository \<and>
          valid_flamegraph_asset asset
      | _ \<Rightarrow> False)"

definition validate_flamegraph_url :: "string option \<Rightarrow> unit result" where
  "validate_flamegraph_url flamegraph_url =
     (case flamegraph_url of
        None \<Rightarrow> Inr ()
      | Some url \<Rightarrow>
          ensure (case github_parts url of None \<Rightarrow> False | Some parts \<Rightarrow> valid_flamegraph_parts parts)
            ''flamegraph URL must identify one published load-test PNG'' (Inr ()))"

definition GITHUB_SUMMARY_LIMIT_BYTES :: nat where "GITHUB_SUMMARY_LIMIT_BYTES = 1024 * 1024"

definition ensure_summary_size :: "string \<Rightarrow> unit result" where
  "ensure_summary_size summary =
     ensure (length summary \<le> GITHUB_SUMMARY_LIMIT_BYTES)
       ''report exceeds GitHub's one MiB job-summary limit'' (Inr ())"

section \<open>Chart axes\<close>

definition MAX_MERMAID_INTEGER :: u64 where "MAX_MERMAID_INTEGER = 9007199254740991"

text \<open>\<open>u64::ilog10\<close> of a positive number.\<close>

fun ilog10 :: "nat \<Rightarrow> nat" where
  "ilog10 n = (if n < 10 then 0 else Suc (ilog10 (n div 10)))"

declare ilog10.simps [simp del]

definition chart_axis_max :: "u64 list \<Rightarrow> u64 \<Rightarrow> u64" where
  "chart_axis_max vs minimum =
     (let maximum = (case max_of vs of None \<Rightarrow> 0 | Some m \<Rightarrow> m) in
      if maximum = 0 then max minimum 1
      else if maximum \<le> minimum then minimum
      else
        let padded = div_ceil (ucast maximum * 11) (10 :: u128);
            padded = min (case try_to (unat padded) of None \<Rightarrow> MAX_MERMAID_INTEGER | Some p \<Rightarrow> p) MAX_MERMAID_INTEGER;
            step = 10 ^ (ilog10 (unat padded) - 1) in
        max (max (min (saturating_mul (div_ceil padded step) step) MAX_MERMAID_INTEGER) maximum) minimum)"

end
