(* ===== verification/ReportFormatFacts.thy ===== *)
theory ReportFormatFacts
  imports ReportFormat
begin

text \<open>
  What the text of a report guarantees: grouped numbers keep their digits, labels are distinct, escaped
  cells keep their text and stay one cell, accepted links name one artifact and cannot leave their
  place, and a chart axis covers its values.
\<close>

section \<open>Grouped numbers\<close>

lemma show_word_digits: "c \<in> set (show_word w) \<Longrightarrow> is_ascii_digit c"
  by (simp add: show_word_def show_nat_digits)

lemma show_word_nonempty [simp]: "show_word w \<noteq> []"
  by (simp add: show_word_def)

lemma not_digit [simp]:
  "\<not> is_ascii_digit (CHR '','')" "\<not> is_ascii_digit (CHR ''-'')" "\<not> is_ascii_digit (CHR ''/'')"
  "\<not> is_ascii_digit (CHR ''x'')" "\<not> is_ascii_digit (CHR ''r'')" "\<not> is_ascii_digit (CHR ''p'')"
  "\<not> is_ascii_digit (CHR ''s'')" "\<not> is_ascii_digit (CHR ''a'')" "\<not> is_ascii_digit (CHR ''v'')"
  by (simp_all add: is_ascii_digit_def digit_of_def)

lemma group_digits_filter:
  "CHR '','' \<notin> set ds \<Longrightarrow> filter (\<lambda>c. c \<noteq> CHR '','') (group_digits len index ds) = ds"
  by (induction len index ds rule: group_digits.induct) auto

lemma split_char_Cons:
  "split_char d (c # cs) = (if c = d then [] # split_char d cs
     else (c # hd (split_char d cs)) # tl (split_char d cs))"
  by (cases "split_on (\<lambda>c. c = d) cs") (simp_all add: split_char_def)

lemma group_digits_pieces:
  "CHR '','' \<notin> set ds \<Longrightarrow> index > 0 \<Longrightarrow> len = index + length ds \<Longrightarrow>
     length (hd (split_char (CHR '','') (group_digits len index ds))) = length ds mod 3 \<and>
     (\<forall>p \<in> set (tl (split_char (CHR '','') (group_digits len index ds))). length p = 3)"
proof (induction len index ds rule: group_digits.induct)
  case (1 len index)
  then show ?case by (simp add: split_char_def)
next
  case (2 len index d ds)
  let ?rest = "group_digits len (index + 1) ds"
  obtain q qs where q: "split_char (CHR '','') ?rest = q # qs"
    by (cases "split_char (CHR '','') ?rest") simp_all
  have ih: "length q = length ds mod 3" "\<forall>p \<in> set qs. length p = 3"
    using 2 q by auto
  have d: "d \<noteq> CHR '',''" using "2.prems"(1) by auto
  have l: "len - index = Suc (length ds)" using "2.prems"(3) by simp
  show ?case
  proof (cases "Suc (length ds) mod 3 = 0")
    case True
    then have "length ds mod 3 = 2" by (metis mod_Suc numeral_2_eq_2 numeral_3_eq_3 Suc_inject nat.distinct(1))
    moreover have "split_char (CHR '','') (group_digits len index (d # ds)) = [] # (d # q) # qs"
      using True d l "2.prems"(2) q by (simp add: split_char_Cons)
    ultimately show ?thesis using ih True by simp
  next
    case False
    then have "Suc (length ds mod 3) = Suc (length ds) mod 3" by (metis mod_Suc)
    moreover have "split_char (CHR '','') (group_digits len index (d # ds)) = (d # q) # qs"
      using False d l "2.prems"(2) q by (simp add: split_char_Cons)
    ultimately show ?thesis using ih by simp
  qed
qed

text \<open>
  a grouped number shows exactly the digits of the number, with a comma before every third digit from
  the right and nowhere else.
\<close>

theorem grouped_exact:
  "filter (\<lambda>c. c \<noteq> CHR '','') (grouped n) = show_word n \<and>
   length (hd (split_char (CHR '','') (grouped n))) \<in> {1, 2, 3} \<and>
   list_all (\<lambda>p. length p = 3) (tl (split_char (CHR '','') (grouped n)))"
proof -
  have c: "CHR '','' \<notin> set (show_word n)" using show_word_digits not_digit(1) by blast
  obtain d ds where s: "show_word n = d # ds" by (cases "show_word n") simp_all
  have "group_digits (length (show_word n)) 0 (show_word n) = d # group_digits (1 + length ds) 1 ds"
    by (simp add: s)
  moreover have "length (hd (split_char (CHR '','') (group_digits (1 + length ds) 1 ds))) = length ds mod 3 \<and>
     (\<forall>p \<in> set (tl (split_char (CHR '','') (group_digits (1 + length ds) 1 ds))). length p = 3)"
    using c s by (intro group_digits_pieces) auto
  moreover have "length ds mod 3 < 3" by simp
  ultimately show ?thesis using c s
    by (auto simp: grouped_def Let_def group_digits_filter split_char_Cons list_all_iff)
qed

section \<open>Distinct labels\<close>

lemma digits_then:
  assumes "xs @ c # as = ys @ d # bs" "\<forall>x \<in> set xs. P x" "\<forall>y \<in> set ys. P y" "\<not> P c" "\<not> P d"
  shows "xs = ys \<and> c # as = d # bs"
  using assms
proof (induction xs arbitrary: ys)
  case Nil
  then show ?case by (cases ys) auto
next
  case (Cons x xs)
  then show ?case by (cases ys) auto
qed

lemma show_word_then:
  "show_word (a :: u32) @ c # as = show_word (b :: u32) @ d # bs \<Longrightarrow> \<not> is_ascii_digit c \<Longrightarrow>
     \<not> is_ascii_digit d \<Longrightarrow> a = b \<and> c = d \<and> as = bs"
proof -
  assume h: "show_word a @ c # as = show_word b @ d # bs" "\<not> is_ascii_digit c" "\<not> is_ascii_digit d"
  have "show_word a = show_word b \<and> c # as = d # bs"
    by (rule digits_then [where P = is_ascii_digit, OF h(1)]) (use show_word_digits h in auto)
  then show ?thesis by (simp add: show_word_def show_nat_inject word_eq_unat_iff)
qed

lemma show_word_then_iff [simp]:
  "\<not> is_ascii_digit c \<Longrightarrow> \<not> is_ascii_digit d \<Longrightarrow>
     show_word (a :: u32) @ c # as = show_word (b :: u32) @ d # bs \<longleftrightarrow> a = b \<and> c = d \<and> as = bs"
  using show_word_then by blast

lemma show_word_inject [simp]: "show_word (a :: 'a::len word) = show_word b \<longleftrightarrow> a = b"
  by (simp add: show_word_def show_nat_inject word_eq_unat_iff)

text \<open>
  different scenarios have different labels and different chart labels, so no two scenarios share a row,
  a chart point or a file name.
\<close>

theorem labels_distinct:
  "(scenario_label a = scenario_label b \<longleftrightarrow> a = b) \<and> (chart_label a = chart_label b \<longleftrightarrow> a = b)"
  by (cases a; cases b) auto

section \<open>Escaped cells\<close>

definition entities :: "(string \<times> char) list" where
  "entities = [(''&amp;'', CHR ''&''), (''&lt;'', CHR ''<''), (''&gt;'', CHR ''>''), (''&#124;'', CHR ''|''),
     (''&#92;'', CHR 0x5C), (''&#91;'', CHR ''[''), (''&#93;'', CHR '']''), (''&#40;'', CHR ''(''),
     (''&#41;'', CHR '')''), (''&#33;'', CHR ''!''), (''&#42;'', CHR ''*''), (''&#95;'', CHR ''_''),
     (''&#96;'', CHR 0x60), (''&#126;'', CHR 0x7E)]"

text \<open>How a reader of the rendered page sees the text: entities stand for their characters.\<close>

function rendered :: "string \<Rightarrow> string" where
  "rendered [] = []"
| "rendered (c # cs) =
     (case find (\<lambda>(entity, _). starts_with entity (c # cs)) entities of
        Some (entity, x) \<Rightarrow> x # rendered (drop (length entity - 1) cs)
      | None \<Rightarrow> c # rendered cs)"
  by pat_completeness auto
termination by (relation "measure length") auto

definition blank_newline :: "char \<Rightarrow> char" where
  "blank_newline c = (if c = CHR 0x0D \<or> c = CHR 0x0A then CHR '' '' else c)"

declare rendered.simps(2) [simp del]

lemma rendered_other: "c \<noteq> CHR ''&'' \<Longrightarrow> rendered (c # cs) = c # rendered cs"
  by (simp add: rendered.simps(2) entities_def starts_with_def)

lemma rendered_entity:
  "rendered (''&amp;'' @ cs) = CHR ''&'' # rendered cs" "rendered (''&lt;'' @ cs) = CHR ''<'' # rendered cs"
  "rendered (''&gt;'' @ cs) = CHR ''>'' # rendered cs" "rendered (''&#124;'' @ cs) = CHR ''|'' # rendered cs"
  "rendered (''&#92;'' @ cs) = CHR 0x5C # rendered cs" "rendered (''&#91;'' @ cs) = CHR ''['' # rendered cs"
  "rendered (''&#93;'' @ cs) = CHR '']'' # rendered cs" "rendered (''&#40;'' @ cs) = CHR ''('' # rendered cs"
  "rendered (''&#41;'' @ cs) = CHR '')'' # rendered cs" "rendered (''&#33;'' @ cs) = CHR ''!'' # rendered cs"
  "rendered (''&#42;'' @ cs) = CHR ''*'' # rendered cs" "rendered (''&#95;'' @ cs) = CHR ''_'' # rendered cs"
  "rendered (''&#96;'' @ cs) = CHR 0x60 # rendered cs" "rendered (''&#126;'' @ cs) = CHR 0x7E # rendered cs"
  by (simp_all add: rendered.simps(2) entities_def starts_with_def)

lemma rendered_escape_char: "rendered (escape_char c @ cs) = blank_newline c # rendered cs"
proof (cases "c \<in> snd ` set entities")
  case True
  then show ?thesis
    by (auto simp: entities_def escape_char_def blank_newline_def rendered_entity [simplified])
next
  case False
  then have "escape_char c = [blank_newline c]" "blank_newline c \<noteq> CHR ''&''"
    by (simp_all add: entities_def escape_char_def blank_newline_def)
  then show ?thesis by (simp add: rendered_other)
qed

definition markup :: "char set" where
  "markup = set ''<>|[]()!*_'' \<union> {CHR 0x5C, CHR 0x60, CHR 0x7E, CHR 0x0D, CHR 0x0A}"

lemma escape_char_safe: "set (escape_char c) \<inter> markup = {}"
  by (auto simp: escape_char_def markup_def)

text \<open>
  an escaped cell keeps its text and stays one cell. The rendered page shows every character of the
  original, line breaks as blanks, and the escaped text contains no cell separator, line break or
  Markdown delimiter.
\<close>

theorem escape_table_exact:
  "rendered (escape_table s) = map blank_newline s \<and> set (escape_table s) \<inter> markup = {}"
proof (induction s)
  case Nil
  then show ?case by (simp add: escape_table_def)
next
  case (Cons c s)
  then show ?case using escape_char_safe [of c] by (auto simp: escape_table_def rendered_escape_char)
qed

section \<open>Links\<close>

lemma seven_parts:
  "valid_artifact_parts parts \<longleftrightarrow> (\<exists>owner repository run_id artifact_id.
     parts = [owner, repository, ''actions'', ''runs'', run_id, ''artifacts'', artifact_id] \<and>
     valid_repository_component owner \<and> valid_repository_component repository \<and>
     numeric_identifier run_id \<and> numeric_identifier artifact_id)"
  by (auto simp: valid_artifact_parts_def split: list.splits)

lemma component_no_slash: "valid_repository_component s \<Longrightarrow> CHR ''/'' \<notin> set s"
  by (auto simp: valid_repository_component_def list_all_iff is_ascii_alphanumeric_def
      is_ascii_lowercase_def is_ascii_uppercase_def)

lemma identifier_no_slash: "numeric_identifier s \<Longrightarrow> CHR ''/'' \<notin> set s"
  by (auto simp: numeric_identifier_def list_all_iff)

definition artifact_url :: "string \<Rightarrow> string \<Rightarrow> string \<Rightarrow> string \<Rightarrow> string" where
  "artifact_url owner repository run_id artifact_id =
     ''https://github.com/'' @ join_with ''/''
       [owner, repository, ''actions'', ''runs'', run_id, ''artifacts'', artifact_id]"

lemma artifact_parts:
  "(\<exists>parts. github_parts url = Some parts \<and> valid_artifact_parts parts) \<longleftrightarrow>
     (\<exists>owner repository run_id artifact_id. url = artifact_url owner repository run_id artifact_id \<and>
        valid_repository_component owner \<and> valid_repository_component repository \<and>
        numeric_identifier run_id \<and> numeric_identifier artifact_id)" (is "?l \<longleftrightarrow> ?r")
proof
  assume ?l
  then obtain parts rest where p: "url = ''https://github.com/'' @ rest" "split_char (CHR ''/'') rest = parts"
    "valid_artifact_parts parts"
    by (auto simp: github_parts_def strip_prefix_Some)
  then have "rest = join_with ''/'' parts" using join_split_char by metis
  then show ?r using p(1,3) unfolding seven_parts artifact_url_def by blast
next
  assume ?r
  then obtain owner repository run_id artifact_id where
    url: "url = artifact_url owner repository run_id artifact_id" and
    ok: "valid_repository_component owner" "valid_repository_component repository"
      "numeric_identifier run_id" "numeric_identifier artifact_id"
    by blast
  let ?parts = "[owner, repository, ''actions'', ''runs'', run_id, ''artifacts'', artifact_id]"
  have "split_char (CHR ''/'') (join_with ''/'' ?parts) = ?parts"
    using ok by (intro split_join) (auto dest: component_no_slash identifier_no_slash)
  then have "github_parts url = Some ?parts"
    unfolding url artifact_url_def github_parts_def by (simp add: strip_prefix_def starts_with_def)
  then show ?l using ok by (auto simp: seven_parts)
qed

text \<open>
  the artifact link is accepted exactly when it is the URL of one artifact of one run of one
  repository, with names of letters, digits and \<open>-_.\<close> and numeric identifiers.
\<close>

theorem artifact_url_exact:
  "validate_artifact_url (Some url) = Inr () \<longleftrightarrow>
     (\<exists>owner repository run_id artifact_id. url = artifact_url owner repository run_id artifact_id \<and>
        valid_repository_component owner \<and> valid_repository_component repository \<and>
        numeric_identifier run_id \<and> numeric_identifier artifact_id)"
  unfolding artifact_parts [symmetric]
  by (auto simp: validate_artifact_url_def checked_iff split: option.splits)

definition link_char :: "char \<Rightarrow> bool" where
  "link_char c \<longleftrightarrow> is_ascii_alphanumeric c \<or> c \<in> set ''-_.:/''"

lemma parts_link_chars:
  "github_parts url = Some parts \<Longrightarrow> \<forall>p \<in> set parts. list_all link_char p \<Longrightarrow> list_all link_char url"
proof -
  assume u: "github_parts url = Some parts" and p: "\<forall>p \<in> set parts. list_all link_char p"
  obtain rest where r: "url = ''https://github.com/'' @ rest" "split_char (CHR ''/'') rest = parts"
    using u by (auto simp: github_parts_def strip_prefix_Some)
  have "list_all link_char (join_with ''/'' ps)" if "\<forall>p \<in> set ps. list_all link_char p" for ps
    using that by (induction ps rule: induct_list012) (auto simp: link_char_def)
  then have "list_all link_char rest" using p r(2) join_split_char by metis
  moreover have "list_all link_char ''https://github.com/''"
    by (simp add: link_char_def is_ascii_alphanumeric_def is_ascii_lowercase_def)
  ultimately show ?thesis using r(1) by simp
qed

lemma component_link: "valid_repository_component s \<Longrightarrow> list_all link_char s"
  by (auto simp: valid_repository_component_def list_all_iff link_char_def)

lemma identifier_link: "numeric_identifier s \<Longrightarrow> list_all link_char s"
  by (auto simp: numeric_identifier_def list_all_iff link_char_def is_ascii_alphanumeric_def)

lemmas literal_chars = link_char_def is_ascii_alphanumeric_def is_ascii_lowercase_def

lemma flamegraph_link: "valid_flamegraph_asset s \<Longrightarrow> list_all link_char s"
proof -
  assume h: "valid_flamegraph_asset s"
  then obtain rest ids where s: "s = ''o-sfu-flamegraph-'' @ rest" "rest = ids @ ''.png''"
    and tail: "\<exists>core. (ids = core \<or> ids = ''baseline-'' @ core \<or> ids = ''comparison-'' @ core) \<and>
      (\<exists>a b. split_char (CHR ''-'') core = [a, b] \<and> numeric_identifier a \<and> numeric_identifier b)"
    by (auto simp: valid_flamegraph_asset_def Let_def strip_prefix_Some strip_suffix_Some bind_eq_Some_conv
        split: option.splits list.splits)
  have "list_all link_char core" if "split_char (CHR ''-'') core = [a, b]" "numeric_identifier a" "numeric_identifier b"
    for core a b
  proof -
    have "core = a @ ''-'' @ b" using join_split_char [of "CHR ''-''" core] that(1) by simp
    then show ?thesis using that(2,3) identifier_link by (auto simp: link_char_def)
  qed
  then have "list_all link_char ids" using tail
    by (auto simp: literal_chars)
  then show ?thesis using s by (simp add: literal_chars)
qed

text \<open>
  an accepted link consists of letters, digits and \<open>-_.:/\<close> only, so it cannot close the parentheses of a
  Markdown link, start another one or end its line.
\<close>

theorem accepted_links_safe:
  assumes "validate_artifact_url (Some url) = Inr () \<or> validate_flamegraph_url (Some url) = Inr ()"
  shows "list_all link_char url"
proof -
  obtain parts where p: "github_parts url = Some parts" "valid_artifact_parts parts \<or> valid_flamegraph_parts parts"
    using assms
    by (auto simp: validate_artifact_url_def validate_flamegraph_url_def checked_iff split: option.splits)
  have "\<forall>q \<in> set parts. list_all link_char q"
    using p(2)
    by (auto simp: valid_artifact_parts_def valid_flamegraph_parts_def literal_chars split: list.splits
        intro: component_link identifier_link flamegraph_link)
  then show ?thesis by (rule parts_link_chars [OF p(1)])
qed

section \<open>Chart axes\<close>

text \<open>
  the axis of a chart covers every value and the wanted minimum, is never empty, and stays in the range
  of integers the chart renderer shows exactly when the values and the minimum do.
\<close>

theorem chart_axis_max_covers:
  assumes "axis = chart_axis_max vs minimum"
  shows "(\<forall>v \<in> set vs. v \<le> axis) \<and> minimum \<le> axis \<and> 0 < axis \<and>
    ((\<forall>v \<in> set vs. v \<le> MAX_MERMAID_INTEGER) \<and> minimum \<le> MAX_MERMAID_INTEGER \<longrightarrow> axis \<le> MAX_MERMAID_INTEGER)"
proof -
  have one: "(1 :: u64) \<le> x \<longleftrightarrow> 0 < x" for x
    by (simp add: word_le_nat_alt word_less_nat_alt Suc_le_eq)
  have m: "0 < MAX_MERMAID_INTEGER" "1 \<le> MAX_MERMAID_INTEGER" by (simp_all add: MAX_MERMAID_INTEGER_def)
  show ?thesis
  proof (cases "max_of vs")
    case None
    then have "axis = max minimum 1" using assms by (simp add: chart_axis_max_def)
    moreover have "vs = []" using None by (simp add: max_of_None)
    moreover have "0 < max minimum 1" unfolding one [symmetric] by simp
    moreover have "minimum \<le> MAX_MERMAID_INTEGER \<Longrightarrow> max minimum 1 \<le> MAX_MERMAID_INTEGER" using m(2) by simp
    ultimately show ?thesis by simp
  next
    case (Some k)
    then have k: "k \<in> set vs" "\<forall>v \<in> set vs. v \<le> k" by (simp_all add: max_of_Some)
    obtain z where z: "axis = (if k = 0 then max minimum 1 else if k \<le> minimum then minimum
        else max (max (min z MAX_MERMAID_INTEGER) k) minimum)"
      using assms unfolding chart_axis_max_def Let_def Some option.case by blast
    have "k \<le> axis \<and> minimum \<le> axis \<and> 0 < axis"
    proof (cases "k = 0")
      case True
      then have "axis = max minimum 1" using z by simp
      moreover have "0 < max minimum 1" unfolding one [symmetric] by simp
      ultimately show ?thesis using True by simp
    next
      case False
      then have "k \<le> axis \<and> minimum \<le> axis" using z by (simp add: le_max_iff_disj)
      moreover have "0 < k" using False by (simp add: word_gt_0)
      ultimately show ?thesis by (metis order_less_le_trans)
    qed
    moreover have "axis \<le> MAX_MERMAID_INTEGER" if "k \<le> MAX_MERMAID_INTEGER" "minimum \<le> MAX_MERMAID_INTEGER"
      using that z m(2) by (simp add: min.coboundedI2)
    ultimately show ?thesis using k by (meson order_trans)
  qed
qed

theorem chart_axis_max_covers_witness:
  "30 \<le> chart_axis_max [30, 70] 5 \<and> 70 \<le> chart_axis_max [30, 70] 5 \<and> 5 \<le> chart_axis_max [30, 70] 5"
  using chart_axis_max_covers [OF refl, of "[30, 70]" 5] by simp

definition example_artifact :: string where
  "example_artifact = artifact_url ''owner'' ''o-sfu'' ''12'' ''345''"

lemma example_artifact_valid: "validate_artifact_url (Some example_artifact) = Inr ()"
proof -
  have "valid_repository_component ''owner'' \<and> valid_repository_component ''o-sfu'' \<and>
      numeric_identifier ''12'' \<and> numeric_identifier ''345''"
    by (simp add: valid_repository_component_def numeric_identifier_def is_ascii_alphanumeric_def
        is_ascii_lowercase_def is_ascii_digit_def digit_of_def)
  then have "\<exists>parts. github_parts example_artifact = Some parts \<and> valid_artifact_parts parts"
    unfolding artifact_parts example_artifact_def by blast
  then show ?thesis by (auto simp: validate_artifact_url_def)
qed

theorem accepted_links_safe_witness:
  "validate_artifact_url (Some example_artifact) = Inr () \<and> list_all link_char example_artifact"
  using accepted_links_safe [of example_artifact] example_artifact_valid by blast

end
