(* ===== verification/Dashboard.thy ===== *)
theory Dashboard
  imports Summary ReportFormat
begin

text \<open>
  The telemetry dashboards of \<open>src/report/dashboard.rs\<close> up to the drawing: how samples become the panels'
  series, which points a phase boundary hides, how series are smoothed and scaled, and how axis values
  are shown. Drawing itself belongs to \<open>plotters\<close>.
\<close>

section \<open>Panels\<close>

type_synonym rgb = "u8 \<times> u8 \<times> u8"

definition COLOR_BLUE :: rgb where "COLOR_BLUE = (56, 139, 253)"
definition COLOR_ORANGE :: rgb where "COLOR_ORANGE = (219, 109, 40)"
definition COLOR_GREEN :: rgb where "COLOR_GREEN = (35, 134, 54)"
definition COLOR_PURPLE :: rgb where "COLOR_PURPLE = (130, 80, 223)"
definition COLOR_RED :: rgb where "COLOR_RED = (207, 34, 46)"
definition COLOR_VIOLET :: rgb where "COLOR_VIOLET = (111, 66, 193)"

definition SMOOTHING_RADIUS :: nat where "SMOOTHING_RADIUS = 2"

datatype chart_unit =
    Cpu | Mebibytes | PacketsPerSecond | MegabitsPerSecond | Multiplier | Milliseconds | Count | Percent

text \<open>A point is its time and its value; none is a gap.\<close>

type_synonym point = "u64 \<times> u64"

record chart_series =
  cs_name :: string
  cs_color :: rgb
  cs_raw_values :: "point option list option"
  cs_values :: "point option list"
  cs_interval_starts_ms :: "u64 option list option"
  cs_points_only :: bool
  cs_smooth :: bool

record panel =
  pn_title :: string
  pn_unit :: chart_unit
  pn_series :: "chart_series list"

record dashboard_data =
  dd_elapsed_ms :: u64
  dd_phases :: "phase_marker list"
  dd_panels :: "panel list"

record dashboard_limits =
  dl_elapsed_ms :: u64
  dl_panel_maxima :: "u64 list"

section \<open>Series of one field\<close>

fun value_starts_from :: "u64 option \<Rightarrow> point option list \<Rightarrow> u64 option list" where
  "value_starts_from previous [] = []"
| "value_starts_from previous (Some (elapsed_ms, _) # rest) = previous # value_starts_from (Some elapsed_ms) rest"
| "value_starts_from previous (None # rest) = None # value_starts_from previous rest"

definition previous_value_starts :: "point option list \<Rightarrow> u64 option list" where
  "previous_value_starts vs = value_starts_from None vs"

definition direct_series ::
  "string \<Rightarrow> rgb \<Rightarrow> telemetry_sample list \<Rightarrow> (telemetry_sample \<Rightarrow> u64 option) \<Rightarrow> bool \<Rightarrow> chart_series" where
  "direct_series name color samples v smooth =
     (let vs = map (\<lambda>s. map_option (\<lambda>x. (ts_elapsed_ms s, x)) (v s)) samples in
      \<lparr>cs_name = name, cs_color = color, cs_raw_values = None, cs_values = vs,
       cs_interval_starts_ms = (if smooth then Some (previous_value_starts vs) else None),
       cs_points_only = False, cs_smooth = smooth\<rparr>)"

definition point_series ::
  "string \<Rightarrow> rgb \<Rightarrow> telemetry_sample list \<Rightarrow> (telemetry_sample \<Rightarrow> u64 option) \<Rightarrow> chart_series" where
  "point_series name color samples v = (direct_series name color samples v False)\<lparr>cs_points_only := True\<rparr>"

section \<open>Series of counter differences\<close>

text \<open>The rate between two successive observations of a counter.\<close>

definition counter_point :: "u64 \<Rightarrow> point \<Rightarrow> point \<Rightarrow> point option" where
  "counter_point scale prior current =
     (case (prior, current) of ((previous_ms, previous_value), (elapsed_ms, current_value)) \<Rightarrow>
        Option.bind (checked_sub elapsed_ms previous_ms) (\<lambda>elapsed.
        if elapsed > 0 then
          map_option (\<lambda>delta. (elapsed_ms, clamp_to (unat (wide_mul delta scale div ucast elapsed))))
            (checked_sub current_value previous_value)
        else None))"

text \<open>Each turn yields a value and an interval start.\<close>

fun counter_loop ::
  "(telemetry_sample \<Rightarrow> u64 option) \<Rightarrow> u64 \<Rightarrow> point option \<Rightarrow> telemetry_sample list
     \<Rightarrow> (point option \<times> u64 option) list" where
  "counter_loop v scale previous [] = []"
| "counter_loop v scale previous (sample # samples) =
     (let current = map_option (\<lambda>x. (ts_elapsed_ms sample, x)) (v sample);
          turn = (case (previous, current) of
                    (Some prior, Some now) \<Rightarrow>
                      let p = counter_point scale prior now in (p, map_option (\<lambda>_. fst prior) p)
                  | _ \<Rightarrow> (None, None)) in
      turn # counter_loop v scale current samples)"

definition counter_series ::
  "string \<Rightarrow> rgb \<Rightarrow> telemetry_sample list \<Rightarrow> (telemetry_sample \<Rightarrow> u64 option) \<Rightarrow> u64 \<Rightarrow> chart_series" where
  "counter_series name color samples v scale =
     (let turns = counter_loop v scale None samples in
      \<lparr>cs_name = name, cs_color = color, cs_raw_values = None, cs_values = map fst turns,
       cs_interval_starts_ms = Some (map snd turns), cs_points_only = False, cs_smooth = True\<rparr>)"

definition fanout_point :: "u64 \<times> u64 \<times> u64 \<Rightarrow> u64 \<times> u64 \<times> u64 \<Rightarrow> point option" where
  "fanout_point prior current =
     (case (prior, current) of
        ((previous_ms, previous_ingress, previous_forwarded), (elapsed_ms, ingress, forwarded)) \<Rightarrow>
          Option.bind (checked_sub elapsed_ms previous_ms) (\<lambda>elapsed.
          if elapsed > 0 then
            Option.bind (checked_sub ingress previous_ingress) (\<lambda>ingress.
            Option.bind (checked_sub forwarded previous_forwarded) (\<lambda>forwarded.
            if ingress > 0 then Some (elapsed_ms, clamp_to (unat (wide_mul forwarded 1000 div ucast ingress)))
            else None))
          else None))"

text \<open>
  The fanout loop returns early from the turn of a sample without the two counters: that turn yields a
  value but pushes no interval start, and the previous observation is kept. Values and interval starts
  are therefore separate results.
\<close>

fun fanout_loop ::
  "(u64 \<times> u64 \<times> u64) option \<Rightarrow> telemetry_sample list \<Rightarrow> point option list \<times> u64 option list" where
  "fanout_loop previous [] = ([], [])"
| "fanout_loop previous (sample # samples) =
     (case (ts_ingress_packets sample, ts_forwarded_packets sample) of
        (Some ingress, Some forwarded) \<Rightarrow>
          let current = (ts_elapsed_ms sample, ingress, forwarded);
              p = Option.bind previous (\<lambda>prior. fanout_point prior current);
              start = Option.bind previous (\<lambda>prior. map_option (\<lambda>_. fst prior) p) in
          (case fanout_loop (Some current) samples of (vs, starts) \<Rightarrow> (p # vs, start # starts))
      | _ \<Rightarrow> (case fanout_loop previous samples of (vs, starts) \<Rightarrow> (None # vs, starts)))"

definition fanout_series :: "telemetry_sample list \<Rightarrow> chart_series" where
  "fanout_series samples =
     (case fanout_loop None samples of (vs, starts) \<Rightarrow>
        \<lparr>cs_name = ''Observed'', cs_color = COLOR_GREEN, cs_raw_values = None, cs_values = vs,
         cs_interval_starts_ms = Some starts, cs_points_only = False, cs_smooth = True\<rparr>)"

section \<open>Worker series\<close>

definition worker_color :: "nat \<Rightarrow> rgb" where
  "worker_color index =
     (if index mod 6 = 0 then COLOR_BLUE else if index mod 6 = 1 then COLOR_ORANGE
      else if index mod 6 = 2 then COLOR_GREEN else if index mod 6 = 3 then COLOR_PURPLE
      else if index mod 6 = 4 then COLOR_RED else COLOR_VIOLET)"

text \<open>One slot per media worker of the policy; a slot is filled once its worker was seen.\<close>

definition place_worker ::
  "nat \<Rightarrow> u64 \<Rightarrow> worker_telemetry \<Rightarrow> point option list option list \<Rightarrow> point option list option list result" where
  "place_worker sample_index elapsed_ms worker slots =
     bind_ok (ok_or (''telemetry sample at '' @ show_word elapsed_ms @ '' ms contains worker ''
         @ show_nat (wt_media_worker_id worker) @ '' outside result policy of ''
         @ show_nat (length slots) @ '' media workers'')
       (get_at slots (wt_media_worker_id worker))) (\<lambda>slot.
     let vs = (case slot of None \<Rightarrow> replicate (sample_index + 1) None | Some vs \<Rightarrow> vs) in
     bind_ok (ok_or ''worker series has no current sample'' (last_of vs)) (\<lambda>current.
     ensure (current = None)
       (''telemetry sample at '' @ show_word elapsed_ms @ '' ms repeats worker ''
         @ show_nat (wt_media_worker_id worker))
       (Inr (slots[wt_media_worker_id worker :=
          Some (butlast vs @ [Some (elapsed_ms, wt_egress_bitrate_bps worker)])]))))"

fun place_workers ::
  "nat \<Rightarrow> u64 \<Rightarrow> worker_telemetry list \<Rightarrow> point option list option list \<Rightarrow> point option list option list result" where
  "place_workers sample_index elapsed_ms [] slots = Inr slots"
| "place_workers sample_index elapsed_ms (worker # workers) slots =
     bind_ok (place_worker sample_index elapsed_ms worker slots) (place_workers sample_index elapsed_ms workers)"

fun worker_loop ::
  "nat \<Rightarrow> telemetry_sample list \<Rightarrow> point option list option list \<Rightarrow> point option list option list result" where
  "worker_loop sample_index [] slots = Inr slots"
| "worker_loop sample_index (sample # samples) slots =
     ensure (length (ts_workers sample) \<le> length slots)
       (''telemetry sample at '' @ show_word (ts_elapsed_ms sample) @ '' ms contains ''
         @ show_nat (length (ts_workers sample)) @ '' workers but result policy allows ''
         @ show_nat (length slots) @ '' media workers'') (
     bind_ok (place_workers sample_index (ts_elapsed_ms sample) (ts_workers sample)
       (map (map_option (\<lambda>vs. vs @ [None])) slots)) (worker_loop (sample_index + 1) samples))"

definition worker_chart :: "nat \<Rightarrow> point option list \<Rightarrow> chart_series" where
  "worker_chart worker_id vs =
     \<lparr>cs_name = ''Worker '' @ show_nat worker_id, cs_color = worker_color worker_id, cs_raw_values = None,
      cs_values = vs, cs_interval_starts_ms = Some (previous_value_starts vs), cs_points_only = False,
      cs_smooth = True\<rparr>"

definition worker_series :: "telemetry_sample list \<Rightarrow> u32 \<Rightarrow> chart_series list result" where
  "worker_series samples worker_limit =
     ensure (unat worker_limit > 0) ''result policy has no media workers'' (
     ensure (unat worker_limit \<le> MAX_TELEMETRY_WORKERS)
       (''dashboard supports at most '' @ show_nat MAX_TELEMETRY_WORKERS @ '' media workers'') (
     bind_ok (worker_loop 0 samples (replicate (unat worker_limit) None)) (\<lambda>slots.
     Inr (List.map_filter (\<lambda>(worker_id, slot). map_option (worker_chart worker_id) slot)
       (enumerate 0 slots)))))"

section \<open>Fields of a sample\<close>

definition successful_scrape_duration :: "telemetry_sample \<Rightarrow> u64 option" where
  "successful_scrape_duration s = (if \<not> ts_is_gap s then ts_scrape_duration_ms s else None)"

definition unavailable_scrape_duration :: "telemetry_sample \<Rightarrow> u64 option" where
  "unavailable_scrape_duration s = (if ts_is_gap s then ts_scrape_duration_ms s else None)"

definition max_command_backlog :: "telemetry_sample \<Rightarrow> u64 option" where
  "max_command_backlog s = max_of (map (\<lambda>w. clamp_to (wt_command_backlog_depth w)) (ts_workers s))"

definition max_relay_backlog :: "telemetry_sample \<Rightarrow> u64 option" where
  "max_relay_backlog s = max_of (map (\<lambda>w. clamp_to (wt_relay_mailbox_depth w)) (ts_workers s))"

definition max_worker_pressure :: "telemetry_sample \<Rightarrow> u64 option" where
  "max_worker_pressure s = max_of (map (\<lambda>w. ucast (wt_worker_pressure_score w)) (ts_workers s))"

section \<open>The panels of a dashboard\<close>

definition cpu_panel :: "telemetry_sample list \<Rightarrow> panel" where
  "cpu_panel samples =
     \<lparr>pn_title = ''Process CPU'', pn_unit = Cpu,
      pn_series =
        [direct_series ''SFU'' COLOR_BLUE samples ts_server_cpu_percent_milli True,
         direct_series ''RTC generator'' COLOR_ORANGE samples ts_rtc_cpu_percent_milli True]\<rparr>"

definition memory_panel :: "telemetry_sample list \<Rightarrow> panel" where
  "memory_panel samples =
     \<lparr>pn_title = ''Resident memory'', pn_unit = Mebibytes,
      pn_series =
        [direct_series ''SFU'' COLOR_BLUE samples ts_server_rss_bytes False,
         direct_series ''RTC generator'' COLOR_ORANGE samples ts_rtc_rss_bytes False]\<rparr>"

definition packet_rate_panel :: "telemetry_sample list \<Rightarrow> panel" where
  "packet_rate_panel samples =
     \<lparr>pn_title = ''RTP packets / second'', pn_unit = PacketsPerSecond,
      pn_series =
        [counter_series ''Ingress'' COLOR_BLUE samples ts_ingress_packets 1000,
         counter_series ''Forwarded local'' COLOR_GREEN samples ts_forwarded_packets 1000,
         counter_series ''Egress'' COLOR_ORANGE samples ts_egress_packets 1000]\<rparr>"

definition payload_rate_panel :: "telemetry_sample list \<Rightarrow> panel" where
  "payload_rate_panel samples =
     \<lparr>pn_title = ''RTP payload Mbit / second'', pn_unit = MegabitsPerSecond,
      pn_series =
        [counter_series ''Ingress'' COLOR_BLUE samples ts_ingress_payload_bytes 8000,
         counter_series ''Forwarded local'' COLOR_GREEN samples ts_forwarded_payload_bytes 8000,
         counter_series ''Egress'' COLOR_ORANGE samples ts_egress_payload_bytes 8000]\<rparr>"

definition fanout_panel :: "telemetry_sample list \<Rightarrow> u64 option \<Rightarrow> panel" where
  "fanout_panel samples expected_fanout_milli =
     \<lparr>pn_title = ''Local fanout multiplier'', pn_unit = Multiplier,
      pn_series = [fanout_series samples] @
        (case expected_fanout_milli of
           None \<Rightarrow> []
         | Some expected \<Rightarrow>
             [\<lparr>cs_name = ''Expected'', cs_color = COLOR_PURPLE, cs_raw_values = None,
               cs_values = map (\<lambda>s. if \<not> ts_is_gap s then Some (ts_elapsed_ms s, expected) else None) samples,
               cs_interval_starts_ms = None, cs_points_only = False, cs_smooth = False\<rparr>])\<rparr>"

definition worker_bitrate_panel :: "telemetry_sample list \<Rightarrow> u32 \<Rightarrow> panel result" where
  "worker_bitrate_panel samples worker_limit =
     bind_ok (worker_series samples worker_limit) (\<lambda>found.
     Inr \<lparr>pn_title = ''Worker egress Mbit / second'', pn_unit = MegabitsPerSecond, pn_series = found\<rparr>)"

definition packet_loop_panel :: "telemetry_sample list \<Rightarrow> panel" where
  "packet_loop_panel samples =
     \<lparr>pn_title = ''Packet-loop delay'', pn_unit = Milliseconds,
      pn_series = [direct_series ''Maximum worker'' COLOR_RED samples ts_packet_loop_delay_ms False]\<rparr>"

definition queue_panel :: "telemetry_sample list \<Rightarrow> panel" where
  "queue_panel samples =
     \<lparr>pn_title = ''Queue depth'', pn_unit = Count,
      pn_series =
        [direct_series ''Maximum command backlog'' COLOR_PURPLE samples max_command_backlog False,
         direct_series ''Maximum relay mailbox'' COLOR_RED samples max_relay_backlog False]\<rparr>"

definition pressure_panel :: "telemetry_sample list \<Rightarrow> panel" where
  "pressure_panel samples =
     \<lparr>pn_title = ''Worker pressure score'', pn_unit = Percent,
      pn_series = [direct_series ''Maximum worker'' COLOR_PURPLE samples max_worker_pressure False]\<rparr>"

definition scrape_panel :: "telemetry_sample list \<Rightarrow> panel" where
  "scrape_panel samples =
     \<lparr>pn_title = ''Telemetry scrape duration'', pn_unit = Milliseconds,
      pn_series =
        [direct_series ''Successful scrape'' COLOR_VIOLET samples successful_scrape_duration False,
         point_series ''Unavailable scrape'' COLOR_RED samples unavailable_scrape_duration]\<rparr>"

section \<open>Phase boundaries\<close>

definition crosses :: "phase_marker list \<Rightarrow> u64 \<Rightarrow> u64 \<Rightarrow> bool" where
  "crosses phases start_ms elapsed_ms \<longleftrightarrow>
     (\<exists>marker \<in> set phases. start_ms < pm_elapsed_ms marker \<and> pm_elapsed_ms marker \<le> elapsed_ms)"

definition crossing_turn :: "phase_marker list \<Rightarrow> point option \<times> u64 option \<Rightarrow> bool" where
  "crossing_turn phases turn =
     (case turn of (Some (elapsed_ms, _), Some start_ms) \<Rightarrow> crosses phases start_ms elapsed_ms | _ \<Rightarrow> False)"

text \<open>\<open>zip\<close> stops at the shorter list, so a value without an interval start is never hidden.\<close>

definition crossings :: "phase_marker list \<Rightarrow> point option list \<Rightarrow> u64 option list \<Rightarrow> nat list" where
  "crossings phases vs starts =
     map fst (filter (\<lambda>(index, turn). crossing_turn phases turn) (enumerate 0 (zip vs starts)))"

definition gap_phase_crossings :: "phase_marker list \<Rightarrow> chart_series \<Rightarrow> chart_series" where
  "gap_phase_crossings phases series =
     (case cs_interval_starts_ms series of
        None \<Rightarrow> series
      | Some starts \<Rightarrow>
          let found = crossings phases (cs_values series) starts in
          if found = [] then series
          else series
            \<lparr>cs_raw_values := (case cs_raw_values series of None \<Rightarrow> Some (cs_values series) | raw \<Rightarrow> raw),
             cs_values := fold (\<lambda>index vs. vs[index := None]) found (cs_values series)\<rparr>)"

definition new_dashboard :: "sample_set \<Rightarrow> u64 option \<Rightarrow> u32 \<Rightarrow> dashboard_data result" where
  "new_dashboard found expected_fanout_milli worker_limit =
     (let samples = ss_samples found;
          times = map ts_elapsed_ms samples @ map pm_elapsed_ms (ss_phases found);
          elapsed_ms = max (case max_of times of None \<Rightarrow> 1 | Some t \<Rightarrow> t) 1 in
      bind_ok (worker_bitrate_panel samples worker_limit) (\<lambda>workers.
      let panels =
        [cpu_panel samples, memory_panel samples, packet_rate_panel samples, payload_rate_panel samples,
         fanout_panel samples expected_fanout_milli, workers, packet_loop_panel samples, queue_panel samples,
         pressure_panel samples, scrape_panel samples] in
      Inr \<lparr>dd_elapsed_ms = elapsed_ms, dd_phases = ss_phases found,
        dd_panels = map (\<lambda>p. p\<lparr>pn_series := map (gap_phase_crossings (ss_phases found)) (pn_series p)\<rparr>) panels\<rparr>))"

section \<open>Limits\<close>

definition drawn_values :: "chart_series \<Rightarrow> point option list" where
  "drawn_values series = cs_values series @ (case cs_raw_values series of None \<Rightarrow> [] | Some raw \<Rightarrow> raw)"

definition panel_maximum :: "panel \<Rightarrow> u64" where
  "panel_maximum p =
     (case max_of (map snd (List.map_filter id (concat (map drawn_values (pn_series p))))) of
        None \<Rightarrow> 0 | Some m \<Rightarrow> m)"

definition padded_maximum :: "u64 \<Rightarrow> u64" where
  "padded_maximum n =
     (if n = 0 then 1 else max (clamp_to (unat (div_ceil (ucast n * 11) (10 :: u128)))) n)"

definition limits :: "dashboard_data \<Rightarrow> dashboard_limits" where
  "limits d =
     \<lparr>dl_elapsed_ms = max (dd_elapsed_ms d) 1,
      dl_panel_maxima = map (\<lambda>p. padded_maximum (panel_maximum p)) (dd_panels d)\<rparr>"

text \<open>\<open>iter_mut().zip(...)\<close> leaves the maxima beyond the shorter list as they are.\<close>

fun max_each :: "u64 list \<Rightarrow> u64 list \<Rightarrow> u64 list" where
  "max_each (x # xs) (y # ys) = max x y # max_each xs ys"
| "max_each xs _ = xs"

definition shared_limits :: "dashboard_data \<Rightarrow> dashboard_data \<Rightarrow> dashboard_limits" where
  "shared_limits left right =
     \<lparr>dl_elapsed_ms = max (dl_elapsed_ms (limits left)) (dl_elapsed_ms (limits right)),
      dl_panel_maxima = max_each (dl_panel_maxima (limits left)) (dl_panel_maxima (limits right))\<rparr>"

section \<open>Smoothing\<close>

fun segments_from :: "point list \<Rightarrow> point option list \<Rightarrow> point list list" where
  "segments_from current [] = (if current \<noteq> [] then [current] else [])"
| "segments_from current (Some p # vs) = segments_from (current @ [p]) vs"
| "segments_from current (None # vs) =
     (if current \<noteq> [] then current # segments_from [] vs else segments_from [] vs)"

definition contiguous_segments :: "point option list \<Rightarrow> point list list" where
  "contiguous_segments vs = segments_from [] vs"

fun sum_values :: "point list \<Rightarrow> u128 \<times> u128 \<Rightarrow> u128 \<times> u128" where
  "sum_values [] acc = acc"
| "sum_values ((_, x) # ps) (area, count) = sum_values ps (saturating_add area (ucast x), count + 1)"

definition window_average :: "point list \<Rightarrow> nat \<Rightarrow> nat \<Rightarrow> u64" where
  "window_average segment radius index =
     (let start = index - radius; stop = min (index + radius + 1) (length segment) in
      case sum_values (take (stop - start) (drop start segment)) (0, 0) of
        (area, count) \<Rightarrow> clamp_to (unat (area div max count 1)))"

text \<open>One segment: its averages are written behind the gaps that precede it.\<close>

fun skip_gaps :: "point option list \<Rightarrow> nat \<Rightarrow> nat" where
  "skip_gaps (None # vs) offset = skip_gaps vs (Suc offset)"
| "skip_gaps _ offset = offset"

definition average_segment :: "nat \<Rightarrow> point list \<Rightarrow> nat \<Rightarrow> point option list \<Rightarrow> point option list" where
  "average_segment radius segment offset output =
     fold (\<lambda>index out. out[offset + index := Some (fst (segment ! index), window_average segment radius index)])
       [0..<length segment] output"

fun average_segments ::
  "nat \<Rightarrow> point option list \<Rightarrow> point list list \<Rightarrow> nat \<Rightarrow> point option list \<Rightarrow> point option list" where
  "average_segments radius vs [] offset output = output"
| "average_segments radius vs (segment # segments) offset output =
     (let offset = skip_gaps (drop offset vs) offset in
      average_segments radius vs segments (offset + length segment)
        (average_segment radius segment offset output))"

definition moving_average :: "point option list \<Rightarrow> nat \<Rightarrow> point option list" where
  "moving_average vs radius =
     average_segments radius vs (contiguous_segments vs) 0 (replicate (length vs) None)"

section \<open>Shown values\<close>

definition format_fixed :: "u64 \<Rightarrow> u64 \<Rightarrow> u32 \<Rightarrow> string" where
  "format_fixed n unit decimals =
     (if unit = 0 then show_word n
      else
        let scale = (clamp_to (10 ^ unat decimals) :: u64);
            scaled = wide_mul n scale div ucast unit;
            whole = scaled div ucast scale; fraction = scaled mod ucast scale in
        if decimals = 0 then show_word whole
        else show_word whole @ ''.'' @ pad_zero (unat decimals) (show_word fraction))"

fun unit_label :: "chart_unit \<Rightarrow> string" where
  "unit_label Cpu = ''CPU percent''"
| "unit_label Mebibytes = ''MiB''"
| "unit_label PacketsPerSecond = ''packets/s''"
| "unit_label MegabitsPerSecond = ''Mbit/s''"
| "unit_label Multiplier = ''times''"
| "unit_label Milliseconds = ''milliseconds''"
| "unit_label Count = ''items''"
| "unit_label Percent = ''percent''"

fun format_unit :: "chart_unit \<Rightarrow> u64 \<Rightarrow> string" where
  "format_unit Cpu n = format_fixed n 1000 (if n < 10000 then 2 else 1)"
| "format_unit Multiplier n = format_fixed n 1000 1"
| "format_unit Mebibytes n = format_fixed n (1024 * 1024) 1"
| "format_unit MegabitsPerSecond n = format_fixed n 1000000 (if n < 1000000 then 3 else 1)"
| "format_unit PacketsPerSecond n = show_word n"
| "format_unit Milliseconds n = show_word n"
| "format_unit Count n = show_word n"
| "format_unit Percent n = show_word n"

definition format_milliseconds_as_seconds :: "u64 \<Rightarrow> string" where
  "format_milliseconds_as_seconds n = format_fixed n 1000 1"

end
