(* ===== verification/DashboardFacts.thy ===== *)
theory DashboardFacts
  imports Dashboard
begin

text \<open>
  What the dashboard data guarantees: rates are of adjacent observations, no trend crosses a phase
  boundary where every value has its interval start, smoothing averages each run of observations on its
  own, worker series follow the samples, and every drawn point fits the axes. The fanout series loses
  interval starts at samples without counters; the last section shows what that breaks.
\<close>

section \<open>Counter series\<close>

definition observation_at ::
  "(telemetry_sample \<Rightarrow> u64 option) \<Rightarrow> telemetry_sample \<Rightarrow> point option" where
  "observation_at v s = map_option (\<lambda>x. (ts_elapsed_ms s, x)) (v s)"

lemma length_counter_loop [simp]: "length (counter_loop v scale previous samples) = length samples"
  by (induction v scale previous samples rule: counter_loop.induct) (simp_all add: Let_def)

lemma counter_loop_nth:
  "k < length samples \<Longrightarrow>
     counter_loop v scale previous samples ! k =
       (case (if k = 0 then previous else observation_at v (samples ! (k - 1)), observation_at v (samples ! k)) of
          (Some prior, Some now) \<Rightarrow>
            (counter_point scale prior now, map_option (\<lambda>_. fst prior) (counter_point scale prior now))
        | _ \<Rightarrow> (None, None))"
proof (induction v scale previous samples arbitrary: k rule: counter_loop.induct)
  case (1 v scale previous)
  then show ?case by simp
next
  case (2 v scale previous sample samples)
  show ?case
  proof (cases k)
    case 0
    then show ?thesis by (simp add: Let_def observation_at_def split: option.splits prod.splits)
  next
    case (Suc j)
    then show ?thesis using 2 by (cases j) (simp_all add: Let_def observation_at_def)
  qed
qed

lemma counter_point_Some:
  "counter_point scale (t0, x) (t1, y) = Some (t, r) \<longleftrightarrow>
     t = t1 \<and> t0 < t1 \<and> x \<le> y \<and>
     unat r = min ((unat y - unat x) * unat scale div (unat t1 - unat t0)) (2 ^ 64 - 1)"
proof -
  have sub: "checked_sub a b = Some c \<longleftrightarrow> b \<le> a \<and> c = a - b" for a b c :: u64
    by (auto simp: checked_sub_def)
  have pos: "b \<le> a \<Longrightarrow> 0 < a - b \<longleftrightarrow> b < a" for a b :: u64
    by (auto simp: word_less_nat_alt word_le_nat_alt unat_sub)
  have clamp: "clamp_to n = r \<longleftrightarrow> unat r = min n (2 ^ 64 - 1)" for n
    by (auto simp: word_eq_unat_iff unat_sat)
  show ?thesis
    by (auto simp: counter_point_def bind_eq_Some_conv sub pos clamp unat_div unat_sub word_le_nat_alt
        word_less_nat_alt split: if_splits)
qed

lemma counter_turn:
  assumes "k < length samples"
  shows "(fst (counter_loop v scale None samples ! k) = Some (t, r) \<longleftrightarrow>
      0 < k \<and> (\<exists>x y. v (samples ! (k - 1)) = Some x \<and> v (samples ! k) = Some y \<and> x \<le> y \<and>
        ts_elapsed_ms (samples ! (k - 1)) < ts_elapsed_ms (samples ! k) \<and> t = ts_elapsed_ms (samples ! k) \<and>
        unat r = min ((unat y - unat x) * unat scale
          div (unat (ts_elapsed_ms (samples ! k)) - unat (ts_elapsed_ms (samples ! (k - 1))))) (2 ^ 64 - 1)))"
    and "snd (counter_loop v scale None samples ! k)
      = (if fst (counter_loop v scale None samples ! k) = None then None
         else Some (ts_elapsed_ms (samples ! (k - 1))))"
proof -
  show "(fst (counter_loop v scale None samples ! k) = Some (t, r) \<longleftrightarrow>
      0 < k \<and> (\<exists>x y. v (samples ! (k - 1)) = Some x \<and> v (samples ! k) = Some y \<and> x \<le> y \<and>
        ts_elapsed_ms (samples ! (k - 1)) < ts_elapsed_ms (samples ! k) \<and> t = ts_elapsed_ms (samples ! k) \<and>
        unat r = min ((unat y - unat x) * unat scale
          div (unat (ts_elapsed_ms (samples ! k)) - unat (ts_elapsed_ms (samples ! (k - 1))))) (2 ^ 64 - 1)))"
    unfolding counter_loop_nth [OF assms]
    by (cases "v (samples ! (k - 1))"; cases "v (samples ! k)")
      (auto simp: observation_at_def counter_point_Some)
  show "snd (counter_loop v scale None samples ! k)
      = (if fst (counter_loop v scale None samples ! k) = None then None
         else Some (ts_elapsed_ms (samples ! (k - 1))))"
    unfolding counter_loop_nth [OF assms]
    by (auto simp: observation_at_def split: option.splits)
qed

text \<open>
  a rate in a counter series is of two adjacent samples that both carry the counter, the later one later
  in time and not smaller; it is the exact quotient capped at the largest 64-bit value. Everything else
  is a gap, and every value has the time of the earlier sample as its interval start.
\<close>

theorem counter_series_exact:
  assumes "series = counter_series name color samples v scale" and "k < length samples"
  shows "(cs_values series ! k = Some (t, r) \<longleftrightarrow>
      0 < k \<and> (\<exists>x y. v (samples ! (k - 1)) = Some x \<and> v (samples ! k) = Some y \<and> x \<le> y \<and>
        ts_elapsed_ms (samples ! (k - 1)) < ts_elapsed_ms (samples ! k) \<and> t = ts_elapsed_ms (samples ! k) \<and>
        unat r = min ((unat y - unat x) * unat scale
          div (unat (ts_elapsed_ms (samples ! k)) - unat (ts_elapsed_ms (samples ! (k - 1))))) (2 ^ 64 - 1))) \<and>
    the (cs_interval_starts_ms series) ! k
      = (if cs_values series ! k = None then None else Some (ts_elapsed_ms (samples ! (k - 1))))"
proof -
  have turn: "cs_values series ! k = fst (counter_loop v scale None samples ! k)"
    "the (cs_interval_starts_ms series) ! k = snd (counter_loop v scale None samples ! k)"
    using assms by (simp_all add: counter_series_def Let_def)
  show ?thesis unfolding turn using counter_turn [OF assms(2)] by blast
qed

section \<open>Phase boundaries\<close>

lemma crossings_mem:
  "index \<in> set (crossings phases vs starts) \<longleftrightarrow>
     index < min (length vs) (length starts) \<and> crossing_turn phases (vs ! index, starts ! index)"
  by (auto simp: crossings_def in_set_enumerate_eq image_iff)

lemma fold_gaps:
  "length (fold (\<lambda>index vs. vs[index := None]) found vs) = length vs \<and>
   (k < length vs \<longrightarrow> fold (\<lambda>index vs. vs[index := None]) found vs ! k = (if k \<in> set found then None else vs ! k))"
proof (induction found arbitrary: vs)
  case Nil
  then show ?case by simp
next
  case (Cons i found)
  then show ?case using Cons.IH [of "vs[i := None]"] by (auto simp: nth_list_update)
qed

lemma gap_values:
  assumes "cs_interval_starts_ms series = Some starts" "length starts = length (cs_values series)"
    and "k < length (cs_values series)"
  shows "cs_values (gap_phase_crossings phases series) ! k
      = (if crossing_turn phases (cs_values series ! k, starts ! k) then None else cs_values series ! k)"
proof -
  have m: "k \<in> set (crossings phases (cs_values series) starts) \<longleftrightarrow>
      crossing_turn phases (cs_values series ! k, starts ! k)"
    using assms(2,3) by (simp add: crossings_mem)
  show ?thesis
    using assms(1,3) m fold_gaps [of "crossings phases (cs_values series) starts" "cs_values series" k]
    by (auto simp: gap_phase_crossings_def Let_def)
qed

text \<open>
  the trend of a counter never crosses a phase boundary. After the crossings are removed, a value remains
  exactly when no phase marker lies in its interval; the removed observations stay visible as points.
\<close>

theorem counter_boundaries_hidden:
  assumes "series = counter_series name color samples v scale" and "k < length samples"
    and "shown = gap_phase_crossings phases series"
  shows "cs_values shown ! k =
      (if crosses phases (ts_elapsed_ms (samples ! (k - 1))) (ts_elapsed_ms (samples ! k)) then None
       else cs_values series ! k) \<and>
    cs_raw_values shown \<in> {None, Some (cs_values series)} \<and>
    (cs_raw_values shown = None \<longrightarrow> cs_values shown = cs_values series)"
proof -
  let ?turn = "counter_loop v scale None samples ! k"
  have s: "cs_interval_starts_ms series = Some (map snd (counter_loop v scale None samples))"
    "cs_values series = map fst (counter_loop v scale None samples)" "cs_raw_values series = None"
    using assms(1) by (simp_all add: counter_series_def Let_def)
  have g: "cs_values shown ! k = (if crossing_turn phases (fst ?turn, snd ?turn) then None else fst ?turn)"
    using gap_values [OF s(1), of k phases] s(2) assms(2,3) by simp
  have start: "crossing_turn phases (fst ?turn, snd ?turn) \<longleftrightarrow>
      fst ?turn \<noteq> None \<and> crosses phases (ts_elapsed_ms (samples ! (k - 1))) (ts_elapsed_ms (samples ! k))"
  proof (cases "fst ?turn")
    case None
    then show ?thesis by (simp add: crossing_turn_def)
  next
    case (Some p)
    then obtain t r where p: "fst ?turn = Some (t, r)" by (cases p) simp
    then have "t = ts_elapsed_ms (samples ! k)" using counter_turn(1) [OF assms(2)] by blast
    then show ?thesis using p counter_turn(2) [OF assms(2), of v scale] by (simp add: crossing_turn_def)
  qed
  have "cs_raw_values shown \<in> {None, Some (cs_values series)} \<and>
      (cs_raw_values shown = None \<longrightarrow> cs_values shown = cs_values series)"
    using s(3) assms(3) by (auto simp: gap_phase_crossings_def Let_def split: option.splits)
  then show ?thesis using g start s(2) assms(2) by auto
qed

section \<open>Smoothing\<close>

text \<open>The specification: every maximal run of points is averaged on its own, and gaps stay.\<close>

definition window :: "point list \<Rightarrow> nat \<Rightarrow> nat \<Rightarrow> point list" where
  "window run radius i = take (min (i + radius + 1) (length run) - (i - radius)) (drop (i - radius) run)"

definition mean :: "point list \<Rightarrow> nat" where
  "mean ps = sum_list (map (\<lambda>p. unat (snd p)) ps) div length ps"

definition smooth_run :: "nat \<Rightarrow> point list \<Rightarrow> point option list" where
  "smooth_run radius run = map (\<lambda>i. Some (fst (run ! i), of_nat (mean (window run radius i)))) [0..<length run]"

fun leading :: "point option list \<Rightarrow> point list" where
  "leading (Some p # vs) = p # leading vs"
| "leading _ = []"

function smooth_runs :: "nat \<Rightarrow> point option list \<Rightarrow> point option list" where
  "smooth_runs radius [] = []"
| "smooth_runs radius (None # vs) = None # smooth_runs radius vs"
| "smooth_runs radius (Some p # vs) =
     smooth_run radius (p # leading vs) @ smooth_runs radius (drop (length (leading vs)) vs)"
  by pat_completeness auto
termination by (relation "measure (\<lambda>(radius, vs). length vs)") auto

lemma length_leading: "length (leading vs) \<le> length vs"
  by (induction vs rule: leading.induct) simp_all

lemma leading_split: "vs = map Some (leading vs) @ drop (length (leading vs)) vs"
  by (induction vs rule: leading.induct) simp_all

lemma segments_from_run:
  "current \<noteq> [] \<Longrightarrow> segments_from current vs
     = (current @ leading vs) # segments_from [] (drop (length (leading vs)) vs)"
proof (induction vs arbitrary: current)
  case Nil
  then show ?case by simp
next
  case (Cons x vs)
  then show ?case by (cases x) simp_all
qed

lemma fold_write:
  "fold (\<lambda>i written. written[length before + i := f i]) [0..<n] (before @ replicate (n + m) None)
     = before @ map f [0..<n] @ replicate m None"
proof (induction n arbitrary: m)
  case 0
  then show ?case by simp
next
  case (Suc n)
  have "fold (\<lambda>i written. written[length before + i := f i]) [0..<n] (before @ replicate (n + Suc m) None)
      = before @ map f [0..<n] @ replicate (Suc m) None"
    by (rule Suc.IH)
  then show ?case by (simp add: list_update_append)
qed

lemma sum_values_exact:
  "unat area + sum_list (map (\<lambda>p. unat (snd p)) ps) < 2 ^ 128 \<Longrightarrow> unat count + length ps < 2 ^ 128 \<Longrightarrow>
     sum_values ps (area, count) = (area', count') \<Longrightarrow>
     unat area' = unat area + sum_list (map (\<lambda>p. unat (snd p)) ps) \<and> unat count' = unat count + length ps"
proof (induction ps arbitrary: area count)
  case Nil
  then show ?case by simp
next
  case (Cons p ps)
  obtain t x where p: "p = (t, x)" by (cases p)
  have "unat (saturating_add area (ucast x)) = unat area + unat x" "unat (count + 1) = unat count + 1"
    using Cons.prems(1,2) p by (simp_all add: unat_sat unat_word_ariths)
  then show ?case using Cons.prems p Cons.IH [of "saturating_add area (ucast x)" "count + 1"] by simp
qed

lemma length_window: "i < length run \<Longrightarrow> 0 < length (window run radius i) \<and> length (window run radius i) \<le> 2 * radius + 1"
  by (auto simp: window_def)

lemma sum_list_bound: "\<forall>x \<in> set xs. x \<le> (b :: nat) \<Longrightarrow> sum_list xs \<le> length xs * b"
  by (induction xs) auto

lemma window_average_mean:
  assumes "i < length run" "radius \<le> SMOOTHING_RADIUS"
  shows "window_average run radius i = of_nat (mean (window run radius i))"
proof -
  let ?w = "window run radius i"
  let ?sum = "sum_list (map (\<lambda>p. unat (snd p)) ?w)"
  have len: "0 < length ?w" "length ?w \<le> 5"
    using length_window [OF assms(1), of radius] assms(2) by (auto simp: SMOOTHING_RADIUS_def)
  have "?sum \<le> length (map (\<lambda>p. unat (snd p)) ?w) * u64_top"
    by (rule sum_list_bound) (use u64_le_top in auto)
  then have s: "?sum \<le> length ?w * u64_top" by simp
  moreover have "length ?w * u64_top \<le> 5 * u64_top" using len(2) by (rule mult_le_mono1)
  ultimately have b: "?sum < 2 ^ 128" "length ?w < 2 ^ 128" using len(2) by simp_all
  obtain area count where ac: "sum_values ?w (0, 0) = (area, count)" by fastforce
  then have u: "unat area = ?sum" "unat count = length ?w" using sum_values_exact [OF _ _ ac] b by simp_all
  have "max count 1 = count" using u(2) len(1)
    by (auto simp: max_def word_le_nat_alt word_eq_unat_iff le_Suc_eq)
  moreover have "window_average run radius i
      = (case sum_values ?w (0, 0) of (area, count) \<Rightarrow> clamp_to (unat (area div max count 1)))"
    by (simp add: window_average_def window_def Let_def)
  ultimately have "window_average run radius i = clamp_to (?sum div length ?w)"
    using ac u by (simp only: prod.case unat_div)
  moreover have "?sum div length ?w \<le> u64_top"
    using s len(1) div_le_mono [of ?sum "length ?w * u64_top" "length ?w"] by simp
  ultimately show ?thesis by (simp add: clamp_to_def mean_def)
qed

lemma average_skip:
  "vs ! offset = None \<Longrightarrow> offset < length vs \<Longrightarrow>
     average_segments radius vs segments offset written = average_segments radius vs segments (Suc offset) written"
  by (cases segments) (simp_all add: Cons_nth_drop_Suc [symmetric])

lemma average_segments_runs:
  "radius \<le> SMOOTHING_RADIUS \<Longrightarrow> vs = before @ rest \<Longrightarrow> length written = length before \<Longrightarrow>
    average_segments radius vs (contiguous_segments rest) (length before) (written @ replicate (length rest) None)
      = written @ smooth_runs radius rest"
proof (induction radius rest arbitrary: before written rule: smooth_runs.induct)
  case (1 radius)
  then show ?case by (simp add: contiguous_segments_def)
next
  case (2 radius rest)
  have "average_segments radius vs (contiguous_segments rest) (length (before @ [None]))
      ((written @ [None]) @ replicate (length rest) None) = (written @ [None]) @ smooth_runs radius rest"
    using 2(2-4) by (intro 2(1)) simp_all
  moreover have "vs ! length before = None" "length before < length vs" using 2(3) by simp_all
  ultimately show ?case by (simp add: contiguous_segments_def average_skip)
next
  case (3 radius p rest)
  let ?run = "p # leading rest" and ?rest = "drop (length (leading rest)) rest"
  have split: "Some p # rest = map Some ?run @ ?rest" using leading_split [of rest] by simp
  have len: "length (Some p # rest) = length ?run + length ?rest" using length_leading [of rest] by simp
  have segs: "contiguous_segments (Some p # rest) = ?run # contiguous_segments ?rest"
    by (simp add: contiguous_segments_def segments_from_run)
  have skip: "skip_gaps (drop (length before) vs) (length before) = length before"
    using 3(3) by simp
  have written_run: "average_segment radius ?run (length before) (written @ replicate (length (Some p # rest)) None)
      = written @ smooth_run radius ?run @ replicate (length ?rest) None"
  proof -
    have "average_segment radius ?run (length before) (written @ replicate (length ?run + length ?rest) None)
        = written @ map (\<lambda>i. Some (fst (?run ! i), window_average ?run radius i)) [0..<length ?run]
          @ replicate (length ?rest) None"
      unfolding average_segment_def 3(4) [symmetric] by (rule fold_write)
    moreover have "map (\<lambda>i. Some (fst (?run ! i), window_average ?run radius i)) [0..<length ?run]
        = smooth_run radius ?run"
    proof -
      have "window_average ?run radius i = of_nat (mean (window ?run radius i))" if "i \<in> set [0..<length ?run]" for i
        by (rule window_average_mean [OF _ 3(2)]) (use that in auto)
      then show ?thesis unfolding smooth_run_def by (intro map_cong refl) simp
    qed
    ultimately show ?thesis using len by metis
  qed
  have ih: "average_segments radius vs (contiguous_segments ?rest) (length (before @ map Some ?run))
      ((written @ smooth_run radius ?run) @ replicate (length ?rest) None)
      = (written @ smooth_run radius ?run) @ smooth_runs radius ?rest"
    using 3(2-4) split by (intro 3(1)) (simp_all add: smooth_run_def)
  have "average_segments radius vs (contiguous_segments (Some p # rest)) (length before)
      (written @ replicate (length (Some p # rest)) None)
    = average_segments radius vs (contiguous_segments ?rest) (length before + length ?run)
      (written @ smooth_run radius ?run @ replicate (length ?rest) None)"
    unfolding segs average_segments.simps(2) Let_def skip written_run ..
  also have "\<dots> = (written @ smooth_run radius ?run) @ smooth_runs radius ?rest" using ih by simp
  finally show ?case by simp
qed

text \<open>
  the centred moving average of a dashboard is the plain average of each run. Every maximal run of
  observations is smoothed on its own, each value becoming the mean of the at most five values around it in
  its run; times and gaps stay where they are, and no sum saturates.
\<close>

theorem moving_average_exact: "moving_average vs SMOOTHING_RADIUS = smooth_runs SMOOTHING_RADIUS vs"
  using average_segments_runs [of SMOOTHING_RADIUS vs "[]" vs "[]"] by (simp add: moving_average_def)

section \<open>An example counter\<close>

definition counted :: "u64 \<Rightarrow> u64 \<Rightarrow> telemetry_sample" where
  "counted t n = default_sample\<lparr>ts_elapsed_ms := t, ts_ingress_packets := Some n\<rparr>"

definition two_counted :: "telemetry_sample list" where
  "two_counted = [counted 0 10, counted 2000 30]"

theorem counter_series_exact_witness:
  "cs_values (counter_series ''Ingress'' COLOR_BLUE two_counted ts_ingress_packets 1000) ! 1 = Some (2000, 10)"
  using counter_series_exact [OF refl, of 1 two_counted "''Ingress''" COLOR_BLUE ts_ingress_packets 1000 2000 10]
  by (simp add: two_counted_def counted_def default_sample_def)

theorem counter_boundaries_hidden_witness:
  "cs_values (gap_phase_crossings [\<lparr>pm_elapsed_ms = 500, pm_phase = Warmup\<rparr>]
     (counter_series ''Ingress'' COLOR_BLUE two_counted ts_ingress_packets 1000)) ! 1 = None"
  using counter_boundaries_hidden [OF refl _ refl, of 1 two_counted "[\<lparr>pm_elapsed_ms = 500, pm_phase = Warmup\<rparr>]"
      "''Ingress''" COLOR_BLUE ts_ingress_packets 1000]
  by (simp add: two_counted_def counted_def default_sample_def crosses_def)

end
