(* ===== verification/DashboardWorkers.thy ===== *)
theory DashboardWorkers
  imports DashboardFacts
begin

text \<open>
  The remaining series of a dashboard: the fanout multiplier, whose interval starts are lost at samples
  without counters, and the worker series, which follow the workers of every sample.
\<close>

section \<open>Fanout\<close>

definition has_fanout :: "telemetry_sample \<Rightarrow> bool" where
  "has_fanout s \<longleftrightarrow> ts_ingress_packets s \<noteq> None \<and> ts_forwarded_packets s \<noteq> None"

lemma fanout_lengths:
  "fanout_loop previous samples = (vs, starts) \<Longrightarrow>
     length vs = length samples \<and> length starts = length (filter has_fanout samples)"
proof (induction previous samples arbitrary: vs starts rule: fanout_loop.induct)
  case (1 previous)
  then show ?case by simp
next
  case (2 previous sample samples)
  then show ?case by (auto simp: has_fanout_def Let_def split: option.splits prod.splits)
qed

text \<open>
  the fanout series loses interval starts. It has a value for every sample but an interval start only for
  the samples that carry both counters, so behind the first sample without them starts and values no
  longer belong together.
\<close>

theorem fanout_starts_lost:
  "length (cs_values (fanout_series samples)) = length samples \<and>
   length (the (cs_interval_starts_ms (fanout_series samples))) = length (filter has_fanout samples)"
  by (cases "fanout_loop None samples") (auto simp: fanout_series_def dest: fanout_lengths)

definition fanout_sample :: "u64 \<Rightarrow> u64 \<Rightarrow> u64 \<Rightarrow> telemetry_sample" where
  "fanout_sample t ingress forwarded = default_sample
     \<lparr>ts_elapsed_ms := t, ts_ingress_packets := Some ingress, ts_forwarded_packets := Some forwarded\<rparr>"

definition gapped_samples :: "telemetry_sample list" where
  "gapped_samples = [fanout_sample 0 10 20, default_sample\<lparr>ts_elapsed_ms := 1000, ts_is_gap := True\<rparr>,
     fanout_sample 2000 20 40, fanout_sample 3000 30 60]"

definition warmup_marker :: phase_marker where
  "warmup_marker = \<lparr>pm_elapsed_ms = 1500, pm_phase = Warmup\<rparr>"

text \<open>
  one failed observation is enough for the fanout trend to cross a phase boundary. The value at two
  seconds spans the two seconds before it, a marker at one and a half seconds lies inside, and the value
  is kept; the counter series over the same samples has a gap there.
\<close>

theorem fanout_crossing_shown:
  "cs_values (gap_phase_crossings [warmup_marker] (fanout_series gapped_samples)) ! 2 = Some (2000, 2000) \<and>
   crosses [warmup_marker] 0 2000 \<and>
   cs_values (gap_phase_crossings [warmup_marker]
     (counter_series ''Ingress'' COLOR_BLUE gapped_samples ts_ingress_packets 1000)) ! 2 = None"
proof -
  have div: "unat (wide_mul 20 1000 div ucast (10 :: u64)) = 2000" by (simp add: wide_mul_def)
  have "fanout_point (0, 10, 20) (2000, 20, 40) = Some (2000, 2000)"
    "fanout_point (2000, 20, 40) (3000, 30, 60) = Some (3000, 2000)"
    using div by (simp_all add: fanout_point_def checked_sub_def clamp_to_def)
  then have f: "fanout_loop None gapped_samples
      = ([None, None, Some (2000, 2000), Some (3000, 2000)], [None, Some 0, Some 2000])"
    by (simp add: gapped_samples_def fanout_sample_def default_sample_def Let_def)
  have "crossings [warmup_marker] [None, None, Some (2000, 2000), Some (3000, 2000)] [None, Some 0, Some 2000] = []"
    by (simp add: crossings_def crossing_turn_def crosses_def warmup_marker_def)
  moreover have "cs_values (counter_series ''Ingress'' COLOR_BLUE gapped_samples ts_ingress_packets 1000) ! 2 = None"
    by (simp add: counter_series_def gapped_samples_def fanout_sample_def default_sample_def Let_def)
  moreover have "map snd (counter_loop ts_ingress_packets 1000 None gapped_samples) ! 2 = None"
    by (simp add: gapped_samples_def fanout_sample_def default_sample_def Let_def)
  ultimately show ?thesis
    using gap_values [of "counter_series ''Ingress'' COLOR_BLUE gapped_samples ts_ingress_packets 1000"
        "map snd (counter_loop ts_ingress_packets 1000 None gapped_samples)" 2 "[warmup_marker]"] f
    by (simp add: fanout_series_def gap_phase_crossings_def crosses_def warmup_marker_def counter_series_def Let_def
        gapped_samples_def)
qed

section \<open>Worker series\<close>

text \<open>What a sample says of a worker.\<close>

definition worker_entry :: "nat \<Rightarrow> telemetry_sample \<Rightarrow> point option" where
  "worker_entry worker_id s =
     map_option (\<lambda>w. (ts_elapsed_ms s, wt_egress_bitrate_bps w))
       (find (\<lambda>w. wt_media_worker_id w = worker_id) (ts_workers s))"

definition worker_ids :: "telemetry_sample \<Rightarrow> nat list" where
  "worker_ids s = map wt_media_worker_id (ts_workers s)"

text \<open>The slots after some samples: a worker seen among them has one entry per sample.\<close>

definition slots_after :: "nat \<Rightarrow> telemetry_sample list \<Rightarrow> point option list option list" where
  "slots_after limit samples =
     map (\<lambda>w. if \<exists>s \<in> set samples. w \<in> set (worker_ids s) then Some (map (worker_entry w) samples) else None)
       [0..<limit]"

lemma entry_absent: "w \<notin> set (worker_ids s) \<Longrightarrow> worker_entry w s = None"
  by (auto simp: worker_entry_def worker_ids_def find_None_iff)

text \<open>The slots while the workers \<open>placed\<close> of the current sample are in.\<close>

definition slots_during ::
  "nat \<Rightarrow> telemetry_sample list \<Rightarrow> telemetry_sample \<Rightarrow> nat set \<Rightarrow> point option list option list" where
  "slots_during limit samples s placed =
     map (\<lambda>w. if w \<in> placed then Some (map (worker_entry w) samples @ [worker_entry w s])
       else if \<exists>s \<in> set samples. w \<in> set (worker_ids s) then Some (map (worker_entry w) samples @ [None])
       else None) [0..<limit]"

lemma entries_unseen: "\<forall>s \<in> set samples. w \<notin> set (worker_ids s) \<Longrightarrow>
    map (worker_entry w) samples = replicate (length samples) None"
  by (induction samples) (simp_all add: entry_absent)

lemma place_worker_slots:
  assumes w: "wt_media_worker_id worker < limit" "wt_media_worker_id worker \<notin> placed"
    and e: "worker_entry (wt_media_worker_id worker) s = Some (ts_elapsed_ms s, wt_egress_bitrate_bps worker)"
  shows "place_worker (length samples) (ts_elapsed_ms s) worker (slots_during limit samples s placed)
    = Inr (slots_during limit samples s (insert (wt_media_worker_id worker) placed))"
proof -
  let ?w = "wt_media_worker_id worker"
  have g: "get_at (slots_during limit samples s placed) ?w
      = Some (if \<exists>s \<in> set samples. ?w \<in> set (worker_ids s) then Some (map (worker_entry ?w) samples @ [None]) else None)"
    using w by (simp add: get_at_def slots_during_def)
  have u: "(slots_during limit samples s placed)
      [?w := Some (map (worker_entry ?w) samples @ [Some (ts_elapsed_ms s, wt_egress_bitrate_bps worker)])]
      = slots_during limit samples s (insert ?w placed)"
    using w(1) e by (auto simp: slots_during_def nth_list_update intro!: nth_equalityI)
  show ?thesis
  proof (cases "\<exists>s \<in> set samples. ?w \<in> set (worker_ids s)")
    case True
    then show ?thesis using g u by (simp add: place_worker_def last_of_def)
  next
    case False
    then have r: "replicate (length samples + 1) None = map (worker_entry ?w) samples @ [None]"
      using entries_unseen [of samples ?w] by (simp add: replicate_append_same)
    have "place_worker (length samples) (ts_elapsed_ms s) worker (slots_during limit samples s placed)
        = Inr ((slots_during limit samples s placed)
            [?w := Some (map (worker_entry ?w) samples @ [Some (ts_elapsed_ms s, wt_egress_bitrate_bps worker)])])"
      using g False unfolding place_worker_def r by (simp add: r last_of_def)
    then show ?thesis using u by simp
  qed
qed

lemma place_workers_slots:
  "\<forall>w \<in> set workers. wt_media_worker_id w < limit \<and>
       worker_entry (wt_media_worker_id w) s = Some (ts_elapsed_ms s, wt_egress_bitrate_bps w) \<Longrightarrow>
     distinct (map wt_media_worker_id workers) \<Longrightarrow> placed \<inter> wt_media_worker_id ` set workers = {} \<Longrightarrow>
     place_workers (length samples) (ts_elapsed_ms s) workers (slots_during limit samples s placed)
       = Inr (slots_during limit samples s (placed \<union> wt_media_worker_id ` set workers))"
proof (induction workers arbitrary: placed)
  case Nil
  then show ?case by simp
next
  case (Cons worker workers)
  then show ?case using Cons.IH [of "insert (wt_media_worker_id worker) placed"]
    by (simp add: place_worker_slots)
qed

lemma slots_start: "map (map_option (\<lambda>vs. vs @ [None])) (slots_after limit samples) = slots_during limit samples s {}"
  by (simp add: slots_after_def slots_during_def)

lemma slots_end: "slots_during limit samples s (set (worker_ids s)) = slots_after limit (samples @ [s])"
  by (auto simp: slots_after_def slots_during_def entry_absent intro!: map_cong)

definition workers_within :: "nat \<Rightarrow> telemetry_sample \<Rightarrow> bool" where
  "workers_within limit s \<longleftrightarrow> distinct (worker_ids s) \<and> (\<forall>w \<in> set (worker_ids s). w < limit)"

lemma entry_present:
  "distinct (worker_ids s) \<Longrightarrow> w \<in> set (ts_workers s) \<Longrightarrow>
     worker_entry (wt_media_worker_id w) s = Some (ts_elapsed_ms s, wt_egress_bitrate_bps w)"
proof -
  assume d: "distinct (worker_ids s)" and w: "w \<in> set (ts_workers s)"
  have "find (\<lambda>x. wt_media_worker_id x = wt_media_worker_id w) ws = Some w"
    if "distinct (map wt_media_worker_id ws)" "w \<in> set ws" for ws
    using that by (induction ws) auto
  then show ?thesis using d w by (simp add: worker_entry_def worker_ids_def)
qed

lemma worker_ids_bound: "workers_within limit s \<Longrightarrow> length (ts_workers s) \<le> limit"
proof -
  assume h: "workers_within limit s"
  then have "set (worker_ids s) \<subseteq> {..<limit}" by (auto simp: workers_within_def)
  from card_mono [OF _ this] have "card (set (worker_ids s)) \<le> limit" by simp
  moreover have "card (set (worker_ids s)) = length (ts_workers s)"
    using h distinct_card [of "worker_ids s"] by (simp add: workers_within_def worker_ids_def)
  ultimately show ?thesis by simp
qed

lemma worker_loop_slots:
  "\<forall>s \<in> set rest. workers_within limit s \<Longrightarrow>
     worker_loop (length samples) rest (slots_after limit samples) = Inr (slots_after limit (samples @ rest))"
proof (induction rest arbitrary: samples)
  case Nil
  then show ?case by simp
next
  case (Cons s rest)
  have w: "workers_within limit s" using Cons.prems by simp
  then have "place_workers (length samples) (ts_elapsed_ms s) (ts_workers s) (slots_during limit samples s {})
      = Inr (slots_during limit samples s (set (worker_ids s)))"
    using place_workers_slots [of "ts_workers s" limit s "{}" samples] entry_present [of s]
    by (auto simp: workers_within_def worker_ids_def)
  moreover have "length (slots_after limit samples) = limit" by (simp add: slots_after_def)
  moreover have "worker_loop (length (samples @ [s])) rest (slots_after limit (samples @ [s]))
      = Inr (slots_after limit ((samples @ [s]) @ rest))"
    using Cons.prems by (intro Cons.IH) simp
  ultimately show ?case using worker_ids_bound [OF w]
    by (simp add: slots_start [where s = s] slots_end)
qed

lemma enumerate_map_upt: "enumerate 0 (map f [0..<n]) = map (\<lambda>k. (k, f k)) [0..<n]"
  by (intro nth_equalityI) (simp_all add: nth_enumerate_eq)

text \<open>
  worker panels follow the samples. When every sample names distinct workers below the policy's count,
  the panel has one series per worker that was seen, in the order of the identifiers, with one entry per
  sample: the worker's bitrate there, or a gap when the sample does not name it.
\<close>

theorem worker_series_exact:
  assumes "0 < worker_limit" "unat worker_limit \<le> MAX_TELEMETRY_WORKERS"
    and "\<forall>s \<in> set samples. workers_within (unat worker_limit) s"
  shows "worker_series samples worker_limit =
    Inr (map (\<lambda>w. worker_chart w (map (worker_entry w) samples))
      (filter (\<lambda>w. \<exists>s \<in> set samples. w \<in> set (worker_ids s)) [0..<unat worker_limit]))"
proof -
  have "slots_after (unat worker_limit) [] = replicate (unat worker_limit) None"
    by (simp add: slots_after_def map_replicate_trivial map_replicate_const)
  then have l: "worker_loop 0 samples (replicate (unat worker_limit) None)
      = Inr (slots_after (unat worker_limit) samples)"
    using worker_loop_slots [OF assms(3), of "[]"] by simp
  have f: "List.map_filter (\<lambda>(worker_id, slot). map_option (worker_chart worker_id) slot)
      (map (\<lambda>w. (w, if P w then Some (g w) else None)) ws) = map (\<lambda>w. worker_chart w (g w)) (filter P ws)"
    for P g ws
    by (induction ws) (simp_all add: map_filter_simps)
  have "0 < unat worker_limit" using assms(1) by (simp add: word_less_nat_alt)
  then show ?thesis using assms(2) l
    by (simp add: worker_series_def slots_after_def enumerate_map_upt f)
qed

theorem worker_series_exact_witness:
  "worker_series [default_sample\<lparr>ts_elapsed_ms := 5, ts_workers :=
     [\<lparr>wt_media_worker_id = 1, wt_egress_bitrate_bps = 9, wt_command_backlog_depth = 0,
       wt_relay_mailbox_depth = 0, wt_worker_pressure_score = 0\<rparr>]\<rparr>] 2
   = Inr [worker_chart 1 [Some (5, 9)]]"
  using worker_series_exact [of 2 "[default_sample\<lparr>ts_elapsed_ms := 5, ts_workers :=
     [\<lparr>wt_media_worker_id = 1, wt_egress_bitrate_bps = 9, wt_command_backlog_depth = 0,
       wt_relay_mailbox_depth = 0, wt_worker_pressure_score = 0\<rparr>]\<rparr>]"]
  by (simp add: MAX_TELEMETRY_WORKERS_def workers_within_def worker_ids_def worker_entry_def upt_rec)

end
