(* ===== verification/DashboardFit.thy ===== *)
theory DashboardFit
  imports DashboardWorkers
begin

text \<open>
  Every point of a dashboard, raw or trend, lies inside the axes its limits give: in time and in value,
  for a dashboard of its own and for two dashboards that share their limits.
\<close>

section \<open>Times of points\<close>

definition within_times :: "u64 set \<Rightarrow> point option list \<Rightarrow> bool" where
  "within_times tset vs \<longleftrightarrow> (\<forall>t x. Some (t, x) \<in> set vs \<longrightarrow> t \<in> tset)"

lemma within_simps [simp]:
  "within_times tset []"
  "within_times tset (None # vs) = within_times tset vs"
  "within_times tset (Some p # vs) \<longleftrightarrow> fst p \<in> tset \<and> within_times tset vs"
  "within_times tset (vs @ ws) \<longleftrightarrow> within_times tset vs \<and> within_times tset ws"
  "within_times tset (replicate n None)"
  by (cases p; auto simp: within_times_def)+

lemma within_mono: "within_times tset vs \<Longrightarrow> tset \<subseteq> tset' \<Longrightarrow> within_times tset' vs"
  by (auto simp: within_times_def)

definition sample_times :: "telemetry_sample list \<Rightarrow> u64 set" where
  "sample_times samples = ts_elapsed_ms ` set samples"

definition in_time :: "telemetry_sample list \<Rightarrow> chart_series \<Rightarrow> bool" where
  "in_time samples series \<longleftrightarrow> within_times (sample_times samples) (drawn_values series)"

lemma Some_eq_map: "Some y = map_option f x \<longleftrightarrow> (\<exists>z. x = Some z \<and> y = f z)"
  by (cases x) auto

lemma in_time_direct: "in_time samples (direct_series name color samples v smooth)"
  by (auto simp: in_time_def within_times_def drawn_values_def direct_series_def sample_times_def Let_def
      Some_eq_map)

lemma in_time_point: "in_time samples (point_series name color samples v)"
  by (auto simp: in_time_def within_times_def drawn_values_def direct_series_def point_series_def
      sample_times_def Let_def Some_eq_map)

lemma in_time_counter: "in_time samples (counter_series name color samples v scale)"
proof -
  have "t \<in> sample_times samples" if turn: "turn \<in> set (counter_loop v scale None samples)" "fst turn = Some (t, x)"
    for turn t x
  proof -
    obtain k where k: "k < length samples" "counter_loop v scale None samples ! k = turn"
      using turn(1) by (auto simp: in_set_conv_nth)
    then show ?thesis using turn(2) counter_turn(1) [OF k(1), of v scale t x] by (auto simp: sample_times_def)
  qed
  then show ?thesis
    by (force simp: in_time_def within_times_def drawn_values_def counter_series_def Let_def)
qed

lemma fanout_point_time: "fanout_point prior (t, i, f) = Some (t', r) \<Longrightarrow> t' = t"
  by (auto simp: fanout_point_def bind_eq_Some_conv split: prod.splits if_splits)

lemma in_time_fanout_loop:
  "fanout_loop previous samples = (vs, starts) \<Longrightarrow> within_times (sample_times samples) vs"
proof (induction samples arbitrary: previous vs starts)
  case Nil
  then show ?case by simp
next
  case (Cons sample samples)
  have tail: "within_times (sample_times samples) ws \<Longrightarrow> within_times (sample_times (sample # samples)) ws" for ws
    by (erule within_mono) (auto simp: sample_times_def)
  show ?case
  proof (cases "ts_ingress_packets sample = None \<or> ts_forwarded_packets sample = None")
    case True
    then obtain ws starts' where "vs = None # ws" "fanout_loop previous samples = (ws, starts')"
      using Cons.prems by (auto split: option.splits prod.splits)
    then show ?thesis using Cons.IH tail by auto
  next
    case False
    then obtain i f where c: "ts_ingress_packets sample = Some i" "ts_forwarded_packets sample = Some f" by auto
    let ?now = "(ts_elapsed_ms sample, i, f)"
    obtain ws starts' where ws: "vs = Option.bind previous (\<lambda>prior. fanout_point prior ?now) # ws"
      "fanout_loop (Some ?now) samples = (ws, starts')"
      using Cons.prems c by (auto simp: Let_def split: prod.splits)
    then show ?thesis using tail [OF Cons.IH [OF ws(2)]]
      by (cases "Option.bind previous (\<lambda>prior. fanout_point prior ?now)")
        (auto simp: bind_eq_Some_conv sample_times_def dest: fanout_point_time)
  qed
qed

lemma in_time_fanout: "in_time samples (fanout_series samples)"
  by (cases "fanout_loop None samples")
    (auto simp: in_time_def drawn_values_def fanout_series_def dest: in_time_fanout_loop)

lemma in_time_expected:
  "in_time samples \<lparr>cs_name = name, cs_color = color, cs_raw_values = None,
     cs_values = map (\<lambda>s. if \<not> ts_is_gap s then Some (ts_elapsed_ms s, e) else None) samples,
     cs_interval_starts_ms = None, cs_points_only = False, cs_smooth = False\<rparr>"
  by (auto simp: in_time_def within_times_def drawn_values_def sample_times_def)

definition slots_in_time :: "u64 set \<Rightarrow> point option list option list \<Rightarrow> bool" where
  "slots_in_time tset slots \<longleftrightarrow> (\<forall>vs. Some vs \<in> set slots \<longrightarrow> within_times tset vs)"

lemma slots_update:
  "slots_in_time tset slots \<Longrightarrow> within_times tset vs \<Longrightarrow> slots_in_time tset (slots[i := Some vs])"
  by (auto simp: slots_in_time_def dest: set_update_subset_insert [THEN subsetD])

lemma within_butlast: "within_times tset vs \<Longrightarrow> within_times tset (butlast vs)"
  by (auto simp: within_times_def dest: in_set_butlastD)

lemma place_worker_in_time:
  assumes "place_worker n t worker slots = Inr slots'" "slots_in_time tset slots" "t \<in> tset"
  shows "slots_in_time tset slots'"
proof -
  obtain slot where slot: "get_at slots (wt_media_worker_id worker) = Some slot"
    and s: "slots' = slots[wt_media_worker_id worker :=
      Some (butlast (case slot of None \<Rightarrow> replicate (n + 1) None | Some vs \<Rightarrow> vs)
        @ [Some (t, wt_egress_bitrate_bps worker)])]"
    using assms(1) unfolding place_worker_def Let_def by (simp only: checked_iff) blast
  have slot: "slot \<in> set slots" using slot by (auto simp: get_at_Some)
  have "within_times tset (case slot of None \<Rightarrow> replicate (n + 1) None | Some vs \<Rightarrow> vs)"
  proof (cases slot)
    case None
    then show ?thesis by (simp del: replicate_Suc)
  next
    case (Some vs)
    then show ?thesis using slot assms(2) by (simp add: slots_in_time_def)
  qed
  then have "within_times tset (butlast (case slot of None \<Rightarrow> replicate (n + 1) None | Some vs \<Rightarrow> vs)
      @ [Some (t, wt_egress_bitrate_bps worker)])"
    using assms(3) within_butlast unfolding within_simps by simp
  then show ?thesis unfolding s by (rule slots_update [OF assms(2)])
qed

lemma place_workers_in_time:
  "place_workers n t workers slots = Inr slots' \<Longrightarrow> slots_in_time tset slots \<Longrightarrow> t \<in> tset \<Longrightarrow>
     slots_in_time tset slots'"
  by (induction n t workers slots rule: place_workers.induct)
    (auto simp: checked_iff dest: place_worker_in_time)

lemma worker_loop_in_time:
  "worker_loop n samples slots = Inr slots' \<Longrightarrow> slots_in_time tset slots \<Longrightarrow> sample_times samples \<subseteq> tset \<Longrightarrow>
     slots_in_time tset slots'"
proof (induction n samples slots rule: worker_loop.induct)
  case (1 n slots)
  then show ?case by simp
next
  case (2 n sample samples slots)
  have "slots_in_time tset (map (map_option (\<lambda>vs. vs @ [None])) slots)"
    using "2.prems"(2) by (auto simp: slots_in_time_def Some_eq_map)
  then show ?case using 2
    by (auto simp: checked_iff sample_times_def dest: place_workers_in_time)
qed

lemma in_time_workers:
  "worker_series samples n = Inr found \<Longrightarrow> series \<in> set found \<Longrightarrow> in_time samples series"
proof -
  assume h: "worker_series samples n = Inr found" "series \<in> set found"
  then obtain slots where s: "worker_loop 0 samples (replicate (unat n) None) = Inr slots"
    "found = List.map_filter (\<lambda>(worker_id, slot). map_option (worker_chart worker_id) slot) (enumerate 0 slots)"
    by (auto simp: worker_series_def checked_iff)
  have "slots_in_time (sample_times samples) slots"
    by (rule worker_loop_in_time [OF s(1)]) (simp_all add: slots_in_time_def)
  moreover obtain w vs where "series = worker_chart w vs" "Some vs \<in> set slots"
  proof -
    obtain turn where "turn \<in> set (enumerate 0 slots)" "map_option (worker_chart (fst turn)) (snd turn) = Some series"
      using h(2) s(2) by (auto simp: map_filter_def)
    then show ?thesis using that by (auto simp: in_set_enumerate_eq) (metis nth_mem)
  qed
  ultimately show ?thesis
    by (auto simp: in_time_def slots_in_time_def worker_chart_def drawn_values_def)
qed

lemma fold_gaps_subset:
  "set (fold (\<lambda>index vs. vs[index := None]) found vs) \<subseteq> insert None (set vs)"
proof (induction found arbitrary: vs)
  case Nil
  then show ?case by auto
next
  case (Cons i found)
  then show ?case using set_update_subset_insert [of vs i None] by fastforce
qed

lemma in_time_gapped: "in_time samples series \<Longrightarrow> in_time samples (gap_phase_crossings phases series)"
proof -
  assume h: "in_time samples series"
  have "Some p \<in> set (drawn_values (gap_phase_crossings phases series)) \<Longrightarrow> Some p \<in> set (drawn_values series)" for p
    using fold_gaps_subset by (fastforce simp: gap_phase_crossings_def drawn_values_def Let_def split: option.splits if_splits)
  then show ?thesis using h by (auto simp: in_time_def within_times_def)
qed

section \<open>Axes\<close>

lemma panel_maximum_ge:
  "series \<in> set (pn_series p) \<Longrightarrow> Some (t, x) \<in> set (drawn_values series) \<Longrightarrow> x \<le> panel_maximum p"
proof -
  assume h: "series \<in> set (pn_series p)" "Some (t, x) \<in> set (drawn_values series)"
  let ?xs = "map snd (List.map_filter id (concat (map drawn_values (pn_series p))))"
  have x: "x \<in> set ?xs" using h by (force simp: map_filter_def image_iff)
  then obtain m where m: "max_of ?xs = Some m" by (cases "max_of ?xs") (auto simp: max_of_None)
  then have "x \<le> m" using x unfolding max_of_Some by blast
  then show ?thesis unfolding panel_maximum_def m by simp
qed

lemma padded_maximum_ge: "x \<le> padded_maximum x"
  by (auto simp: padded_maximum_def)

definition panel_in_time :: "telemetry_sample list \<Rightarrow> panel \<Rightarrow> bool" where
  "panel_in_time samples p \<longleftrightarrow> list_all (in_time samples) (pn_series p)"

lemmas in_time_series = in_time_direct in_time_point in_time_counter in_time_fanout in_time_expected

lemma panels_in_time:
  "panel_in_time samples (cpu_panel samples)" "panel_in_time samples (memory_panel samples)"
  "panel_in_time samples (packet_rate_panel samples)" "panel_in_time samples (payload_rate_panel samples)"
  "panel_in_time samples (fanout_panel samples e)" "panel_in_time samples (packet_loop_panel samples)"
  "panel_in_time samples (queue_panel samples)" "panel_in_time samples (pressure_panel samples)"
  "panel_in_time samples (scrape_panel samples)"
  by (simp_all add: panel_in_time_def in_time_series cpu_panel_def memory_panel_def packet_rate_panel_def
      payload_rate_panel_def fanout_panel_def packet_loop_panel_def queue_panel_def pressure_panel_def
      scrape_panel_def split: option.split)

lemma worker_panel_in_time: "worker_bitrate_panel samples n = Inr p \<Longrightarrow> panel_in_time samples p"
  by (auto simp: worker_bitrate_panel_def checked_iff panel_in_time_def list_all_iff dest: in_time_workers)

lemma dashboard_panels:
  assumes "new_dashboard found e n = Inr d" and "p \<in> set (dd_panels d)" and "series \<in> set (pn_series p)"
  shows "in_time (ss_samples found) series"
proof -
  let ?s = "ss_samples found"
  obtain workers where w: "worker_bitrate_panel ?s n = Inr workers"
    and d: "dd_panels d = map (\<lambda>q. q\<lparr>pn_series := map (gap_phase_crossings (ss_phases found)) (pn_series q)\<rparr>)
      [cpu_panel ?s, memory_panel ?s, packet_rate_panel ?s, payload_rate_panel ?s, fanout_panel ?s e, workers,
       packet_loop_panel ?s, queue_panel ?s, pressure_panel ?s, scrape_panel ?s]"
    using assms(1) unfolding new_dashboard_def Let_def by (auto simp: checked_iff simp del: list.map)
  have "list_all (panel_in_time ?s)
      [cpu_panel ?s, memory_panel ?s, packet_rate_panel ?s, payload_rate_panel ?s, fanout_panel ?s e, workers,
       packet_loop_panel ?s, queue_panel ?s, pressure_panel ?s, scrape_panel ?s]"
    using worker_panel_in_time [OF w] by (simp add: panels_in_time)
  moreover obtain q where "q \<in> set [cpu_panel ?s, memory_panel ?s, packet_rate_panel ?s, payload_rate_panel ?s,
       fanout_panel ?s e, workers, packet_loop_panel ?s, queue_panel ?s, pressure_panel ?s, scrape_panel ?s]"
    and p: "p = q\<lparr>pn_series := map (gap_phase_crossings (ss_phases found)) (pn_series q)\<rparr>"
    using assms(2) unfolding d set_map by blast
  ultimately have "panel_in_time ?s q" unfolding list_all_iff by blast
  then show ?thesis using assms(3) p by (auto simp: panel_in_time_def list_all_iff intro: in_time_gapped)
qed

lemma dashboard_length: "new_dashboard found e n = Inr d \<Longrightarrow> length (dd_panels d) = 10"
  by (auto simp: new_dashboard_def Let_def checked_iff)

lemma dashboard_elapsed:
  "new_dashboard found e n = Inr d \<Longrightarrow> t \<in> sample_times (ss_samples found) \<Longrightarrow> t \<le> dd_elapsed_ms d"
proof -
  assume h: "new_dashboard found e n = Inr d" "t \<in> sample_times (ss_samples found)"
  let ?tset = "map ts_elapsed_ms (ss_samples found) @ map pm_elapsed_ms (ss_phases found)"
  have "t \<in> set ?tset" using h(2) by (auto simp: sample_times_def)
  then obtain m where m: "max_of ?tset = Some m" "t \<le> m"
    by (cases "max_of ?tset") (auto simp: max_of_None max_of_Some)
  have "dd_elapsed_ms d = max m 1" using h(1) m(1) by (auto simp: new_dashboard_def Let_def checked_iff)
  then show ?thesis using m(2) by (simp add: le_max_iff_disj)
qed

lemma own_limits:
  assumes "new_dashboard found e n = Inr d" and "i < length (dd_panels d)"
    and "series \<in> set (pn_series (dd_panels d ! i))" and "Some (t, x) \<in> set (drawn_values series)"
  shows "t \<le> dl_elapsed_ms (limits d) \<and> x \<le> dl_panel_maxima (limits d) ! i"
proof -
  have "t \<in> sample_times (ss_samples found)"
    using dashboard_panels [OF assms(1) nth_mem [OF assms(2)] assms(3)] assms(4)
    by (auto simp: in_time_def within_times_def)
  then have "t \<le> dd_elapsed_ms d" by (rule dashboard_elapsed [OF assms(1)])
  moreover have "x \<le> padded_maximum (panel_maximum (dd_panels d ! i))"
    using panel_maximum_ge [OF assms(3,4)] padded_maximum_ge by (rule order_trans)
  ultimately show ?thesis using assms(2) by (simp add: limits_def le_max_iff_disj)
qed

lemma max_each_nth:
  "i < length xs \<Longrightarrow> i < length ys \<Longrightarrow> max_each xs ys ! i = max (xs ! i) (ys ! i)"
proof (induction xs ys arbitrary: i rule: max_each.induct)
  case (1 x xs y ys)
  then show ?case by (cases i) simp_all
qed simp_all

text \<open>
  every point of a dashboard fits its axes. Of two dashboards that share their limits, each raw or trend
  value of each panel lies within the shared time axis and within the shared value axis of its panel.
\<close>

theorem dashboard_points_fit:
  assumes "new_dashboard found e n = Inr d" and "new_dashboard found' e' n' = Inr d'"
    and "lim = shared_limits d d' \<or> lim = shared_limits d' d"
    and "i < length (dd_panels d)" and "series \<in> set (pn_series (dd_panels d ! i))"
    and "Some (t, x) \<in> set (drawn_values series)"
  shows "t \<le> dl_elapsed_ms lim \<and> x \<le> dl_panel_maxima lim ! i"
proof -
  have "t \<le> dl_elapsed_ms (limits d) \<and> x \<le> dl_panel_maxima (limits d) ! i"
    by (rule own_limits [OF assms(1,4,5,6)])
  moreover have "length (dl_panel_maxima (limits d)) = 10" "length (dl_panel_maxima (limits d')) = 10" "i < 10"
    using assms(4) dashboard_length [OF assms(1)] dashboard_length [OF assms(2)] by (simp_all add: limits_def)
  ultimately show ?thesis using assms(3)
    by (auto simp: shared_limits_def max_each_nth le_max_iff_disj)
qed

section \<open>An example\<close>

definition demo_set :: sample_set where
  "demo_set = \<lparr>ss_samples = two_counted, ss_phases = [], ss_unavailable = 0, ss_errors = []\<rparr>"

lemma demo_dashboard:
  "\<exists>d. new_dashboard demo_set None 1 = Inr d \<and>
     dd_panels d ! 2 = packet_rate_panel two_counted\<lparr>pn_series :=
       map (gap_phase_crossings []) (pn_series (packet_rate_panel two_counted))\<rparr>"
proof -
  have "worker_series two_counted 1 = Inr []"
    using worker_loop_slots [of two_counted 1 "[]"]
    by (simp add: worker_series_def MAX_TELEMETRY_WORKERS_def two_counted_def counted_def default_sample_def
        workers_within_def worker_ids_def slots_after_def)
  then show ?thesis by (simp add: new_dashboard_def worker_bitrate_panel_def demo_set_def Let_def)
qed

theorem dashboard_points_fit_witness:
  "\<exists>d. new_dashboard demo_set None 1 = Inr d \<and> 10 \<le> dl_panel_maxima (shared_limits d d) ! 2"
proof -
  obtain d where d: "new_dashboard demo_set None 1 = Inr d"
    "dd_panels d ! 2 = packet_rate_panel two_counted\<lparr>pn_series :=
       map (gap_phase_crossings []) (pn_series (packet_rate_panel two_counted))\<rparr>"
    using demo_dashboard by blast
  let ?c = "counter_series ''Ingress'' COLOR_BLUE two_counted ts_ingress_packets 1000"
  have "\<not> crossing_turn [] turn" for turn
    by (auto simp: crossing_turn_def crosses_def split: option.splits prod.splits)
  then have g: "gap_phase_crossings [] ?c = ?c"
    by (simp add: gap_phase_crossings_def counter_series_def crossings_def Let_def)
  have "fst (counter_loop ts_ingress_packets 1000 None two_counted ! 1) = Some (2000, 10)"
    using counter_turn(1) [of 1 two_counted ts_ingress_packets 1000 2000 10]
    by (simp add: two_counted_def counted_def default_sample_def)
  then have "Some (2000, 10) \<in> set (cs_values ?c)"
    by (auto simp: counter_series_def Let_def two_counted_def in_set_conv_nth intro!: exI [of _ "1 :: nat"])
  then have p: "Some (2000, 10) \<in> set (drawn_values ?c)" by (simp add: drawn_values_def)
  have m: "?c \<in> set (pn_series (dd_panels d ! 2))"
    unfolding d(2) by (simp add: packet_rate_panel_def) (simp add: g)
  have "2 < length (dd_panels d)" using dashboard_length [OF d(1)] by simp
  from dashboard_points_fit [OF d(1) d(1) _ this m p] d(1) show ?thesis by blast
qed

end
