(* ===== verification/Sync.thy ===== *)
theory Sync
  imports Phase
begin

text \<open>
  How the peers of a run synchronise (\<open>ScenarioSync\<close> of \<open>src/client/scenario.rs\<close>): the barrier all peers
  meet at seven times, the leader that reports a phase or wakes the reporter, the start time the first
  peer sets, and the flag and wake-up by which the reporter releases the peers into the measured phase.
  A step relation interleaves the peers and the reporter in any order. Of \<open>tokio\<close> it uses what its
  documentation promises: a barrier releases all waiters at once and names one arbitrary leader,
  \<open>notify_one\<close> leaves a permit when nobody waits, and a \<open>notified()\<close> future receives a
  \<open>notify_waiters\<close> from the moment it is created. Failures, which end the run, are not steps.
\<close>

section \<open>The program of a peer\<close>

datatype peer_work = SendWarmup | ResetTimelines | SendMeasured | DrainQuiet

datatype leader_action = ReportPhase scenario_phase | NotifyReady

text \<open>
  A barrier wait, one whose leader acts, the start time, the acknowledgement loop, and the work between
  them.
\<close>

datatype sync_op = Wait | WaitLeader leader_action | InitStart | AwaitAck | Work peer_work

text \<open>\<open>prepare_media_peer\<close> and the rest of \<open>run_media_peer\<close>.\<close>

definition peer_program :: "sync_op list" where
  "peer_program =
     [WaitLeader (ReportPhase Warmup), Wait, Work SendWarmup, Wait, Work ResetTimelines, Wait, InitStart,
      WaitLeader NotifyReady, AwaitAck, Work SendMeasured, WaitLeader (ReportPhase Drain), Wait,
      Work DrainQuiet]"

definition op_at :: "nat \<Rightarrow> sync_op option" where
  "op_at p = get_at peer_program p"

section \<open>States\<close>

text \<open>
  Within an operation a peer has arrived at the barrier, leads after it, or, in the acknowledgement loop,
  has created its future or awaits it; the flag says whether the future was woken.
\<close>

datatype stage = Ready | Arrived | Leading | Created bool | Awaiting bool

type_synonym peer = "nat \<times> stage"

datatype reporter_stage = WaitReady | GetStart | SleepUntil instant | Storing | Notifying | Reported | NoStart

record sync_state =
  sy_peers :: "peer list"
  sy_measured_at :: "instant option"
  sy_acknowledged :: bool
  sy_permit :: bool
  sy_reporter :: reporter_stage
  sy_phases :: "scenario_phase list"

text \<open>\<open>main\<close> of the RTC worker reports the setup phase before the peers exist.\<close>

definition new_sync :: "nat \<Rightarrow> sync_state" where
  "new_sync peer_total =
     \<lparr>sy_peers = replicate peer_total (0, Ready), sy_measured_at = None, sy_acknowledged = False,
      sy_permit = False, sy_reporter = WaitReady, sy_phases = [Setup]\<rparr>"

definition at :: "sync_state \<Rightarrow> nat \<Rightarrow> peer \<Rightarrow> bool" where
  "at s i x \<longleftrightarrow> i < length (sy_peers s) \<and> sy_peers s ! i = x"

definition move :: "nat \<Rightarrow> peer \<Rightarrow> sync_state \<Rightarrow> sync_state" where
  "move i x s = s\<lparr>sy_peers := (sy_peers s)[i := x]\<rparr>"

definition leads :: "sync_op option \<Rightarrow> bool" where
  "leads operation = (case operation of Some (WaitLeader _) \<Rightarrow> True | _ \<Rightarrow> False)"

definition released :: "nat \<Rightarrow> peer list \<Rightarrow> peer list" where
  "released leader peers =
     map (\<lambda>j. if j = leader \<and> leads (op_at (fst (peers ! j))) then (fst (peers ! j), Leading)
       else (fst (peers ! j) + 1, Ready)) [0..<length peers]"

fun woken :: "peer \<Rightarrow> peer" where
  "woken (p, Created _) = (p, Created True)"
| "woken (p, Awaiting _) = (p, Awaiting True)"
| "woken x = x"

section \<open>Steps\<close>

inductive peer_step :: "sync_state \<Rightarrow> sync_state \<Rightarrow> bool" where
  arrive: "at s i (p, Ready) \<Longrightarrow> op_at p = Some Wait \<or> leads (op_at p) \<Longrightarrow>
     peer_step s (move i (p, Arrived) s)"
| release: "\<forall>x \<in> set (sy_peers s). snd x = Arrived \<Longrightarrow> leader < length (sy_peers s) \<Longrightarrow>
     peer_step s (s\<lparr>sy_peers := released leader (sy_peers s)\<rparr>)"
| report: "at s i (p, Leading) \<Longrightarrow> op_at p = Some (WaitLeader (ReportPhase phase)) \<Longrightarrow>
     peer_step s (move i (p + 1, Ready) s\<lparr>sy_phases := sy_phases s @ [phase]\<rparr>)"
| notify_ready: "at s i (p, Leading) \<Longrightarrow> op_at p = Some (WaitLeader NotifyReady) \<Longrightarrow>
     peer_step s (move i (p + 1, Ready) s\<lparr>sy_permit := True\<rparr>)"
| work: "at s i (p, Ready) \<Longrightarrow> op_at p = Some (Work w) \<Longrightarrow> peer_step s (move i (p + 1, Ready) s)"
| init_start: "at s i (p, Ready) \<Longrightarrow> op_at p = Some InitStart \<Longrightarrow>
     peer_step s (move i (p + 1, Ready) s
       \<lparr>sy_measured_at := (case sy_measured_at s of None \<Rightarrow> Some t | Some t' \<Rightarrow> Some t')\<rparr>)"
| first_check: "at s i (p, Ready) \<Longrightarrow> op_at p = Some AwaitAck \<Longrightarrow>
     peer_step s (move i (if sy_acknowledged s then (p + 1, Ready) else (p, Created False)) s)"
| second_check: "at s i (p, Created flag) \<Longrightarrow>
     peer_step s (move i (if sy_acknowledged s then (p + 1, Ready) else (p, Awaiting flag)) s)"
| wake: "at s i (p, Awaiting True) \<Longrightarrow> peer_step s (move i (p, Ready) s)"

text \<open>\<open>report_measured\<close>.\<close>

inductive reporter_step :: "sync_state \<Rightarrow> sync_state \<Rightarrow> bool" where
  ready: "sy_reporter s = WaitReady \<Longrightarrow> sy_permit s \<Longrightarrow>
     reporter_step s (s\<lparr>sy_permit := False, sy_reporter := GetStart\<rparr>)"
| get_start: "sy_reporter s = GetStart \<Longrightarrow>
     reporter_step s (s\<lparr>sy_reporter := (case sy_measured_at s of None \<Rightarrow> NoStart | Some t \<Rightarrow> SleepUntil t)\<rparr>)"
| report_measured: "sy_reporter s = SleepUntil t \<Longrightarrow>
     reporter_step s (s\<lparr>sy_reporter := Storing, sy_phases := sy_phases s @ [Measured]\<rparr>)"
| store: "sy_reporter s = Storing \<Longrightarrow>
     reporter_step s (s\<lparr>sy_acknowledged := True, sy_reporter := Notifying\<rparr>)"
| notify_waiters: "sy_reporter s = Notifying \<Longrightarrow>
     reporter_step s (s\<lparr>sy_peers := map woken (sy_peers s), sy_reporter := Reported\<rparr>)"

definition sync_step :: "sync_state \<Rightarrow> sync_state \<Rightarrow> bool" where
  "sync_step s s' \<longleftrightarrow> peer_step s s' \<or> reporter_step s s'"

inductive reachable :: "nat \<Rightarrow> sync_state \<Rightarrow> bool" for n where
  start: "reachable n (new_sync n)"
| step: "reachable n s \<Longrightarrow> sync_step s s' \<Longrightarrow> reachable n s'"

definition finished :: "sync_state \<Rightarrow> bool" where
  "finished s \<longleftrightarrow> (\<forall>x \<in> set (sy_peers s). x = (length peer_program, Ready)) \<and> sy_reporter s = Reported"

section \<open>The invariant\<close>

text \<open>How many barriers a peer has passed at each position of the program.\<close>

definition passed :: "nat \<Rightarrow> nat" where
  "passed p = length (filter (\<lambda>operation. operation = Wait \<or> leads (Some operation)) (take p peer_program))"

definition generation :: "peer \<Rightarrow> nat" where
  "generation x = passed (fst x) + (if snd x = Leading then 1 else 0)"

definition peer_ok :: "peer \<Rightarrow> bool" where
  "peer_ok x \<longleftrightarrow>
     (case snd x of
        Ready \<Rightarrow> fst x \<le> 13
      | Arrived \<Rightarrow> fst x \<in> {0, 1, 3, 5, 7, 10, 11}
      | Leading \<Rightarrow> fst x \<in> {0, 7, 10}
      | Created _ \<Rightarrow> fst x = 8
      | Awaiting _ \<Rightarrow> fst x = 8)"

definition leaders :: "peer list \<Rightarrow> nat" where
  "leaders peers = length (filter (\<lambda>x. snd x = Leading) peers)"

definition measured_reported :: "sync_state \<Rightarrow> bool" where
  "measured_reported s \<longleftrightarrow> sy_reporter s \<in> {Storing, Notifying, Reported}"

text \<open>The phases reported while the peers are in generation \<open>g\<close>.\<close>

definition phases_at :: "nat \<Rightarrow> sync_state \<Rightarrow> scenario_phase list" where
  "phases_at g s =
     [Setup] @ (if g = 0 \<or> (g = 1 \<and> 0 < leaders (sy_peers s)) then [] else [Warmup])
       @ (if measured_reported s then [Measured] else [])
       @ (if g = 7 \<or> (g = 6 \<and> leaders (sy_peers s) = 0) then [Drain] else [])"

definition ready_sent :: "nat \<Rightarrow> sync_state \<Rightarrow> bool" where
  "ready_sent g s \<longleftrightarrow> g > 5 \<or> (g = 5 \<and> leaders (sy_peers s) = 0)"

definition peer_facts :: "sync_state \<Rightarrow> peer \<Rightarrow> bool" where
  "peer_facts s x \<longleftrightarrow>
     (fst x \<ge> 7 \<longrightarrow> sy_measured_at s \<noteq> None) \<and> (fst x \<ge> 9 \<longrightarrow> sy_acknowledged s) \<and>
     (snd x = Awaiting False \<longrightarrow> sy_reporter s \<noteq> Reported) \<and>
     (snd x \<in> {Created True, Awaiting True} \<longrightarrow> sy_acknowledged s)"

definition sync_inv :: "nat \<Rightarrow> nat \<Rightarrow> sync_state \<Rightarrow> bool" where
  "sync_inv n g s \<longleftrightarrow>
     length (sy_peers s) = n \<and> 0 < n \<and> leaders (sy_peers s) \<le> 1 \<and>
     (\<forall>x \<in> set (sy_peers s). peer_ok x \<and> generation x = g \<and> peer_facts s x) \<and>
     sy_phases s = phases_at g s \<and> sy_reporter s \<noteq> NoStart \<and>
     (sy_acknowledged s \<longleftrightarrow> sy_reporter s \<in> {Notifying, Reported}) \<and>
     (sy_reporter s \<noteq> WaitReady \<or> sy_permit s \<longleftrightarrow> ready_sent g s) \<and>
     (sy_reporter s = WaitReady \<or> \<not> sy_permit s)"

end
