(* ===== verification/SyncFacts.thy ===== *)
theory SyncFacts
  imports Sync
begin

text \<open>
  The synchronisation of a run is safe and finishes: the four phases are reported in order and once, no peer
  enters a phase before its report was acknowledged, the start time is set before the reporter reads it,
  no wake-up is lost, some step is possible until the run has finished, and only finitely many are.
\<close>

section \<open>Tables of the program\<close>

lemma length_program [simp]: "length peer_program = 13"
  by (simp add: peer_program_def)

lemma op_table [simp]:
  "op_at 0 = Some (WaitLeader (ReportPhase Warmup))" "op_at (Suc 0) = Some Wait" "op_at 2 = Some (Work SendWarmup)"
  "op_at 3 = Some Wait" "op_at 4 = Some (Work ResetTimelines)" "op_at 5 = Some Wait" "op_at 6 = Some InitStart"
  "op_at 7 = Some (WaitLeader NotifyReady)" "op_at 8 = Some AwaitAck" "op_at 9 = Some (Work SendMeasured)"
  "op_at 10 = Some (WaitLeader (ReportPhase Drain))" "op_at 11 = Some Wait" "op_at 12 = Some (Work DrainQuiet)"
  "op_at 13 = None"
  by (simp_all add: op_at_def get_at_def peer_program_def)

lemma passed_table [simp]:
  "passed 0 = 0" "passed (Suc 0) = 1" "passed 2 = 2" "passed (Suc (Suc 0)) = 2" "passed 3 = 2" "passed 4 = 3" "passed 5 = 3" "passed 6 = 4"
  "passed 7 = 4" "passed 8 = 5" "passed 9 = 5" "passed 10 = 5" "passed 11 = 6" "passed 12 = 7" "passed 13 = 7"
  by (simp_all add: passed_def peer_program_def leads_def)

lemma op_range: "op_at p = Some operation \<Longrightarrow> p < 13"
  by (auto simp: op_at_def checked_iff)

lemma positions: "[0..<13] = [0, Suc 0, 2, 3, 4, 5, 6, 7, 8, 9, 10, 11, 12]"
  by (simp add: upt_rec)

lemma position_cases:
  obtains "13 \<le> p" | "p = 0" | "p = Suc 0" | "p = 2" | "p = 3" | "p = 4" | "p = 5" | "p = 6" | "p = 7" | "p = 8"
    | "p = 9" | "p = 10" | "p = 11" | "p = (12 :: nat)"
proof (cases "p < 13")
  case True
  then have "p \<in> set [0..<13]" by simp
  then show ?thesis unfolding positions using that by auto
qed (use that in simp)

lemma op_beyond: "13 \<le> p \<Longrightarrow> op_at p = None"
  by (simp add: op_at_def get_at_None)

lemma op_positions:
  "op_at p = Some Wait \<longleftrightarrow> p \<in> {1, 3, 5, 11}"
  "op_at p = Some (WaitLeader (ReportPhase phase)) \<longleftrightarrow> p = 0 \<and> phase = Warmup \<or> p = 10 \<and> phase = Drain"
  "op_at p = Some (WaitLeader NotifyReady) \<longleftrightarrow> p = 7"
  "op_at p = Some (Work w) \<longleftrightarrow> p = 2 \<and> w = SendWarmup \<or> p = 4 \<and> w = ResetTimelines \<or>
     p = 9 \<and> w = SendMeasured \<or> p = 12 \<and> w = DrainQuiet"
  "op_at p = Some InitStart \<longleftrightarrow> p = 6"
  "op_at p = Some AwaitAck \<longleftrightarrow> p = 8"
  "leads (op_at p) \<longleftrightarrow> p \<in> {0, 7, 10}"
  by (cases p rule: position_cases; auto simp: op_beyond leads_def)+

section \<open>One peer\<close>

text \<open>The first steps of a run with one peer, up to its warm-up packets.\<close>

definition one_peer :: "peer \<Rightarrow> scenario_phase list \<Rightarrow> sync_state" where
  "one_peer x phases =
     \<lparr>sy_peers = [x], sy_measured_at = None, sy_acknowledged = False, sy_permit = False,
      sy_reporter = WaitReady, sy_phases = phases\<rparr>"

lemma one_peer_move: "move 0 y (one_peer x phases) = one_peer y phases" "at (one_peer x phases) 0 x"
  "one_peer x phases\<lparr>sy_phases := ps\<rparr> = one_peer x ps"
  by (simp_all add: move_def at_def one_peer_def)

lemma one_peer_arrive:
  "op_at p = Some Wait \<or> leads (op_at p) \<Longrightarrow> sync_step (one_peer (p, Ready) ps) (one_peer (p, Arrived) ps)"
  using peer_step.arrive [of "one_peer (p, Ready) ps" 0 p] by (simp add: sync_step_def one_peer_move)

lemma one_peer_release:
  "sync_step (one_peer (p, Arrived) ps) (one_peer (if leads (op_at p) then (p, Leading) else (p + 1, Ready)) ps)"
proof -
  have "one_peer (p, Arrived) ps\<lparr>sy_peers := released 0 [(p, Arrived)]\<rparr> =
      one_peer (if leads (op_at p) then (p, Leading) else (p + 1, Ready)) ps"
    by (simp add: one_peer_def released_def)
  then show ?thesis using peer_step.release [of "one_peer (p, Arrived) ps" 0]
    by (simp add: sync_step_def one_peer_def)
qed

lemma one_peer_report:
  "op_at p = Some (WaitLeader (ReportPhase phase)) \<Longrightarrow>
     sync_step (one_peer (p, Leading) ps) (one_peer (p + 1, Ready) (ps @ [phase]))"
proof -
  assume op: "op_at p = Some (WaitLeader (ReportPhase phase))"
  have "move 0 (p + 1, Ready) (one_peer (p, Leading) ps)\<lparr>sy_phases := sy_phases (one_peer (p, Leading) ps) @ [phase]\<rparr>
      = one_peer (p + 1, Ready) (ps @ [phase])"
    by (simp add: move_def one_peer_def)
  then show ?thesis using peer_step.report [of "one_peer (p, Leading) ps" 0 p phase] op
    by (simp add: sync_step_def one_peer_move)
qed

lemma one_peer_steps:
  "sync_step (one_peer (0, Ready) [Setup]) (one_peer (0, Arrived) [Setup])"
  "sync_step (one_peer (0, Arrived) [Setup]) (one_peer (0, Leading) [Setup])"
  "sync_step (one_peer (0, Leading) [Setup]) (one_peer (1, Ready) [Setup, Warmup])"
  "sync_step (one_peer (1, Ready) [Setup, Warmup]) (one_peer (1, Arrived) [Setup, Warmup])"
  "sync_step (one_peer (1, Arrived) [Setup, Warmup]) (one_peer (2, Ready) [Setup, Warmup])"
  using one_peer_arrive [of 0] one_peer_release [of 0] one_peer_report [of 0 Warmup "[Setup]"]
    one_peer_arrive [of 1] one_peer_release [of 1 "[Setup, Warmup]"]
  by (simp_all add: leads_def numeral_2_eq_2)

lemma one_peer_run: "(sync_step ^^ 5) (new_sync 1) (one_peer (2, Ready) [Setup, Warmup])"
proof -
  have "new_sync 1 = one_peer (0, Ready) [Setup]" by (simp add: new_sync_def one_peer_def)
  moreover have "5 = Suc (Suc (Suc (Suc (Suc 0))))" by simp
  moreover have "(sync_step ^^ Suc (Suc (Suc (Suc (Suc 0))))) (one_peer (0, Ready) [Setup])
      (one_peer (2, Ready) [Setup, Warmup])"
    by (rule relpowp_Suc_I relpowp_0_I one_peer_steps)+
  ultimately show ?thesis by metis
qed

lemma run_reachable: "(sync_step ^^ k) (new_sync n) s \<Longrightarrow> reachable n s"
  by (induction k arbitrary: s) (auto intro: reachable.intros)

lemmas one_peer_reachable = run_reachable [OF one_peer_run]


section \<open>Moves of one peer\<close>

lemma at_mem: "at s i x \<Longrightarrow> x \<in> set (sy_peers s)"
  by (auto simp: at_def)

lemma leaders_update:
  "i < length xs \<Longrightarrow> leaders (xs[i := y]) + (if snd (xs ! i) = Leading then 1 else 0)
     = leaders xs + (if snd y = Leading then 1 else 0)"
proof (induction xs arbitrary: i)
  case Nil
  then show ?case by simp
next
  case (Cons x xs)
  then show ?case by (cases i) (auto simp: leaders_def)
qed

lemma move_simps [simp]:
  "sy_measured_at (move i x s) = sy_measured_at s" "sy_acknowledged (move i x s) = sy_acknowledged s"
  "sy_permit (move i x s) = sy_permit s" "sy_reporter (move i x s) = sy_reporter s"
  "sy_phases (move i x s) = sy_phases s" "length (sy_peers (move i x s)) = length (sy_peers s)"
  "measured_reported (move i x s) = measured_reported s"
  by (simp_all add: move_def measured_reported_def)

lemma move_all: "\<forall>x \<in> set (sy_peers s). P x \<Longrightarrow> P y \<Longrightarrow> \<forall>x \<in> set (sy_peers (move i y s)). P x"
  using set_update_subset_insert [of "sy_peers s" i y] by (auto simp: move_def)

lemma move_leaders:
  "at s i x \<Longrightarrow> leaders (sy_peers (move i y s)) + (if snd x = Leading then 1 else 0)
     = leaders (sy_peers s) + (if snd y = Leading then 1 else 0)"
  using leaders_update [of i "sy_peers s" y] by (simp add: at_def move_def)

lemma leaders_pos: "0 < leaders peers \<longleftrightarrow> (\<exists>x \<in> set peers. snd x = Leading)"
  by (induction peers) (auto simp: leaders_def)

lemma peer_facts_cong:
  "sy_measured_at s' = sy_measured_at s \<Longrightarrow> sy_acknowledged s' = sy_acknowledged s \<Longrightarrow>
     sy_reporter s' = sy_reporter s \<Longrightarrow> peer_facts s' x = peer_facts s x"
  by (simp add: peer_facts_def)

lemma move_facts [simp]: "peer_facts (move i x s) = peer_facts s"
  by (rule ext) (simp add: peer_facts_def)

lemma phases_at_cong:
  "leaders (sy_peers s') = leaders (sy_peers s) \<Longrightarrow> measured_reported s' = measured_reported s \<Longrightarrow>
     phases_at g s' = phases_at g s"
  by (simp add: phases_at_def)

lemma inv_move:
  assumes "sync_inv n g s" "at s i x" "snd x \<noteq> Leading" "snd y \<noteq> Leading" "peer_ok y" "generation y = g"
    "peer_facts s y"
  shows "sync_inv n g (move i y s)"
proof -
  have "leaders (sy_peers (move i y s)) = leaders (sy_peers s)"
    using move_leaders [OF assms(2), of y] assms(3,4) by simp
  moreover have "\<forall>x \<in> set (sy_peers (move i y s)). peer_ok x \<and> generation x = g \<and> peer_facts s x"
    using assms(1,5-7) by (intro move_all) (auto simp: sync_inv_def)
  ultimately show ?thesis using assms(1) phases_at_cong [of "move i y s" s g]
    by (simp add: sync_inv_def ready_sent_def)
qed

lemma generation_simps [simp]:
  "generation (p, Ready) = passed p" "generation (p, Arrived) = passed p" "generation (p, Leading) = passed p + 1"
  "generation (p, Created b) = passed p" "generation (p, Awaiting b) = passed p"
  by (simp_all add: generation_def)

lemma peer_facts_of: "sync_inv n g s \<Longrightarrow> at s i x \<Longrightarrow> peer_ok x \<and> generation x = g \<and> peer_facts s x"
  using at_mem by (auto simp: sync_inv_def)

section \<open>Every step keeps the invariant\<close>

lemma arrived_position:
  "peer_ok (p, Arrived) \<Longrightarrow> peer_ok (q, Arrived) \<Longrightarrow> passed p = passed q \<Longrightarrow> p = q"
  by (auto simp: peer_ok_def)

lemma all_arrived:
  assumes "sync_inv n g s" "\<forall>x \<in> set (sy_peers s). snd x = Arrived"
  shows "\<exists>p. sy_peers s = replicate n (p, Arrived) \<and> peer_ok (p, Arrived) \<and> passed p = g"
proof -
  have n: "0 < n" "length (sy_peers s) = n" using assms(1) by (auto simp: sync_inv_def)
  define p where "p = fst (sy_peers s ! 0)"
  have in0: "(p, Arrived) \<in> set (sy_peers s)" using n assms(2)
    by (metis nth_mem p_def prod.collapse)
  have all: "x = (p, Arrived)" if x: "x \<in> set (sy_peers s)" for x
  proof -
    have "snd x = Arrived" using assms(2) x by blast
    moreover have "peer_ok x \<and> generation x = g" "peer_ok (p, Arrived) \<and> generation (p, Arrived) = g"
      using assms(1) x in0 by (auto simp: sync_inv_def)
    ultimately show ?thesis using arrived_position [of "fst x" p] by (cases x) simp
  qed
  have "sy_peers s = replicate n (p, Arrived)"
    using all n by (metis replicate_eqI)
  moreover have "peer_ok (p, Arrived) \<and> generation (p, Arrived) = g" using assms(1) in0 by (auto simp: sync_inv_def)
  ultimately show ?thesis by auto
qed

lemma leaders_replicate [simp]: "snd x \<noteq> Leading \<Longrightarrow> leaders (replicate n x) = 0"
  by (simp add: leaders_def)

lemma released_replicate:
  "l < n \<Longrightarrow> released l (replicate n (p, Arrived)) =
     (if leads (op_at p) then (replicate n (p + 1, Ready))[l := (p, Leading)] else replicate n (p + 1, Ready))"
  by (intro nth_equalityI) (auto simp: released_def nth_list_update)

lemma inv_release:
  assumes "sync_inv n g s" "\<forall>x \<in> set (sy_peers s). snd x = Arrived" "l < length (sy_peers s)"
  shows "sync_inv n (g + 1) (s\<lparr>sy_peers := released l (sy_peers s)\<rparr>)"
proof -
  obtain p where p: "sy_peers s = replicate n (p, Arrived)" "peer_ok (p, Arrived)" "passed p = g"
    using all_arrived [OF assms(1,2)] by blast
  have n: "0 < n" "l < n" using assms(1,3) by (auto simp: sync_inv_def)
  have facts: "peer_facts s (p, Arrived)" using assms(1) n p(1) by (auto simp: sync_inv_def)
  let ?s = "s\<lparr>sy_peers := released l (sy_peers s)\<rparr>"
  have lead: "leaders (sy_peers ?s) = (if leads (op_at p) then 1 else 0)"
    using leaders_update [of l "replicate n (p + 1, Ready)" "(p, Leading)"] n
    by (simp add: p(1) released_replicate)
  have pos: "p \<in> {0, 1, 3, 5, 7, 10, 11}" using p(2) by (simp add: peer_ok_def)
  have "set (sy_peers ?s) \<subseteq> {(p + 1, Ready)} \<union> (if leads (op_at p) then {(p, Leading)} else {})"
    using n set_update_subset_insert [of "replicate n (p + 1, Ready)" l "(p, Leading)"]
    by (auto simp: p(1) released_replicate)
  moreover have "peer_ok (p + 1, Ready) \<and> generation (p + 1, Ready) = g + 1 \<and> peer_facts ?s (p + 1, Ready)"
    using pos p(3) facts by (auto simp: peer_ok_def peer_facts_def)
  moreover have "leads (op_at p) \<Longrightarrow> peer_ok (p, Leading) \<and> generation (p, Leading) = g + 1 \<and> peer_facts ?s (p, Leading)"
    using pos p(3) facts by (auto simp: peer_ok_def peer_facts_def op_positions)
  ultimately have "\<forall>x \<in> set (sy_peers ?s). peer_ok x \<and> generation x = g + 1 \<and> peer_facts ?s x"
    by (auto split: if_splits)
  moreover have "phases_at (g + 1) ?s = phases_at g s"
    using pos p(3) lead p(1) by (auto simp: phases_at_def measured_reported_def op_positions)
  moreover have "ready_sent (g + 1) ?s = ready_sent g s"
    using pos p(3) lead p(1) by (auto simp: ready_sent_def op_positions)
  moreover have "length (sy_peers ?s) = n" using p(1) n by (simp add: released_def)
  ultimately show ?thesis using assms(1) lead by (simp add: sync_inv_def)
qed

lemma move_stages [simp]: "sy_peers (move i y s\<lparr>sy_phases := ps\<rparr>) = sy_peers (move i y s)"
  "sy_peers (move i y s\<lparr>sy_permit := b\<rparr>) = sy_peers (move i y s)"
  "sy_peers (move i y s\<lparr>sy_measured_at := t\<rparr>) = sy_peers (move i y s)"
  by simp_all

lemma leader_generation: "peer_ok (p, Leading) \<Longrightarrow> p \<in> {0, 7, 10}"
  by (simp add: peer_ok_def)

lemma inv_leader:
  assumes "sync_inv n g s" "at s i (p, Leading)"
  shows "leaders (sy_peers s) = 1" "leaders (sy_peers (move i (p + 1, Ready) s)) = 0"
    "\<forall>x \<in> set (sy_peers (move i (p + 1, Ready) s)). peer_ok x \<and> generation x = g \<and> peer_facts s x"
proof -
  have "0 < leaders (sy_peers s)" using at_mem [OF assms(2)] unfolding leaders_pos by force
  then show one: "leaders (sy_peers s) = 1" using assms(1) by (simp add: sync_inv_def)
  show "leaders (sy_peers (move i (p + 1, Ready) s)) = 0"
    using move_leaders [OF assms(2), of "(p + 1, Ready)"] one by simp
  have x: "peer_ok (p, Leading) \<and> generation (p, Leading) = g \<and> peer_facts s (p, Leading)"
    using peer_facts_of [OF assms] .
  then have "peer_ok (p + 1, Ready) \<and> generation (p + 1, Ready) = g \<and> peer_facts s (p + 1, Ready)"
    using leader_generation [of p] by (auto simp: peer_ok_def peer_facts_def)
  then show "\<forall>x \<in> set (sy_peers (move i (p + 1, Ready) s)). peer_ok x \<and> generation x = g \<and> peer_facts s x"
    using assms(1) by (intro move_all) (auto simp: sync_inv_def)
qed

lemma reporter_late:
  "sync_inv n g s \<Longrightarrow> sy_reporter s \<noteq> WaitReady \<or> sy_permit s \<Longrightarrow> 5 \<le> g"
  by (auto simp: sync_inv_def ready_sent_def)

lemma inv_report:
  assumes inv: "sync_inv n g s" and x: "at s i (p, Leading)" and op: "op_at p = Some (WaitLeader (ReportPhase phase))"
  shows "sync_inv n g (move i (p + 1, Ready) s\<lparr>sy_phases := sy_phases s @ [phase]\<rparr>)"
proof -
  let ?s = "move i (p + 1, Ready) s\<lparr>sy_phases := sy_phases s @ [phase]\<rparr>"
  note l = inv_leader [OF inv x]
  have g: "generation (p, Leading) = g" "peer_facts s (p, Leading)" using peer_facts_of [OF inv x] by auto
  have ph: "sy_phases s = phases_at g s" using inv by (simp add: sync_inv_def)
  have late: "measured_reported s \<Longrightarrow> 5 \<le> g"
    using reporter_late [OF inv] by (auto simp: measured_reported_def)
  have ack: "sy_acknowledged s \<longleftrightarrow> sy_reporter s \<in> {Notifying, Reported}" using inv by (simp add: sync_inv_def)
  have "sy_phases ?s = phases_at g ?s"
    using op ph l(1,2) g late ack
    by (auto simp: op_positions phases_at_def measured_reported_def peer_facts_def)
  moreover have "ready_sent g ?s = ready_sent g s"
    using op l(1,2) g(1) by (auto simp: op_positions ready_sent_def)
  moreover have "peer_facts ?s = peer_facts s" by (rule ext) (simp add: peer_facts_def)
  ultimately show ?thesis using inv l by (simp add: sync_inv_def)
qed

lemma inv_notify_ready:
  assumes inv: "sync_inv n g s" and x: "at s i (p, Leading)" and op: "op_at p = Some (WaitLeader NotifyReady)"
  shows "sync_inv n g (move i (p + 1, Ready) s\<lparr>sy_permit := True\<rparr>)"
proof -
  let ?s = "move i (p + 1, Ready) s\<lparr>sy_permit := True\<rparr>"
  note l = inv_leader [OF inv x]
  have p: "p = 7" using op by (simp add: op_positions)
  have g: "g = 5" using peer_facts_of [OF inv x] p by simp
  have "\<not> ready_sent g s" using g l(1) by (simp add: ready_sent_def)
  then have "sy_reporter s = WaitReady" using inv by (auto simp: sync_inv_def)
  moreover have "ready_sent g ?s" using g l(2) by (simp add: ready_sent_def)
  moreover have "phases_at g ?s = phases_at g s" using g by (simp add: phases_at_def measured_reported_def)
  moreover have "peer_facts ?s = peer_facts s" by (rule ext) (simp add: peer_facts_def)
  ultimately show ?thesis using inv l by (simp add: sync_inv_def)
qed

lemma facts_set_start: "peer_facts s x \<Longrightarrow> t \<noteq> None \<Longrightarrow> peer_facts (s\<lparr>sy_measured_at := t\<rparr>) x"
  by (auto simp: peer_facts_def)

lemma inv_set_start: "sync_inv n g s \<Longrightarrow> t \<noteq> None \<Longrightarrow> sync_inv n g (s\<lparr>sy_measured_at := t\<rparr>)"
  using facts_set_start by (auto simp: sync_inv_def phases_at_def ready_sent_def measured_reported_def)

lemma inv_init_start:
  assumes inv: "sync_inv n g s" and x: "at s i (p, Ready)" and op: "op_at p = Some InitStart" and t: "t \<noteq> None"
  shows "sync_inv n g (move i (p + 1, Ready) s\<lparr>sy_measured_at := t\<rparr>)"
proof -
  let ?s = "s\<lparr>sy_measured_at := t\<rparr>"
  have p: "p = 6" using op by (simp add: op_positions)
  have "sync_inv n g ?s" using inv_set_start [OF inv t] .
  moreover have "at ?s i (p, Ready)" using x by (simp add: at_def)
  moreover have "generation (7, Ready) = g" using peer_facts_of [OF inv x] p by simp
  ultimately have "sync_inv n g (move i (7, Ready) ?s)"
    using p t by (intro inv_move) (auto simp: peer_ok_def peer_facts_def)
  moreover have "move i (7, Ready) s\<lparr>sy_measured_at := t\<rparr> = move i (7, Ready) ?s"
    by (simp add: move_def)
  ultimately show ?thesis using p by simp
qed

lemma inv_peer_step: "peer_step s s' \<Longrightarrow> sync_inv n g s \<Longrightarrow> \<exists>g'. sync_inv n g' s'"
proof (induction rule: peer_step.induct)
  case (arrive s i p)
  have "generation (p, Ready) = g \<and> peer_facts s (p, Ready)" using peer_facts_of [OF arrive.prems arrive.hyps(1)] by simp
  then show ?case using arrive
    by (intro exI [of _ g] inv_move [of n g s i "(p, Ready)"]) (auto simp: peer_ok_def peer_facts_def op_positions)
next
  case (release s l)
  then show ?case using inv_release by blast
next
  case (report s i p phase)
  then show ?case using inv_report by blast
next
  case (notify_ready s i p)
  then show ?case using inv_notify_ready by blast
next
  case (work s i p w)
  have "generation (p, Ready) = g \<and> peer_facts s (p, Ready)" using peer_facts_of [OF work.prems work.hyps(1)] by simp
  then show ?case using work
    by (intro exI [of _ g] inv_move [of n g s i "(p, Ready)"]) (auto simp: peer_ok_def peer_facts_def op_positions)
next
  case (init_start s i p t)
  then show ?case by (intro exI [of _ g] inv_init_start) (auto split: option.splits)
next
  case (first_check s i p)
  have "generation (p, Ready) = g \<and> peer_facts s (p, Ready)"
    using peer_facts_of [OF first_check.prems first_check.hyps(1)] by simp
  then show ?case using first_check
    by (intro exI [of _ g] inv_move [of n g s i "(p, Ready)"]) (auto simp: peer_ok_def peer_facts_def op_positions)
next
  case (second_check s i p flag)
  have "peer_ok (p, Created flag) \<and> generation (p, Created flag) = g \<and> peer_facts s (p, Created flag)"
    using peer_facts_of [OF second_check.prems second_check.hyps(1)] .
  moreover have "sy_reporter s = Reported \<Longrightarrow> sy_acknowledged s" using second_check.prems by (simp add: sync_inv_def)
  ultimately show ?case using second_check
    by (intro exI [of _ g] inv_move [of n g s i "(p, Created flag)"]) (auto simp: peer_ok_def peer_facts_def)
next
  case (wake s i p)
  have "peer_ok (p, Awaiting True) \<and> generation (p, Awaiting True) = g \<and> peer_facts s (p, Awaiting True)"
    using peer_facts_of [OF wake.prems wake.hyps] .
  then show ?case using wake
    by (intro exI [of _ g] inv_move [of n g s i "(p, Awaiting True)"]) (auto simp: peer_ok_def peer_facts_def)
qed

section \<open>Steps of the reporter\<close>

lemma start_is_set:
  assumes "sync_inv n g s" "sy_reporter s \<noteq> WaitReady"
  shows "sy_measured_at s \<noteq> None"
proof -
  have five: "5 \<le> g" using reporter_late assms by blast
  obtain x where x: "x \<in> set (sy_peers s)" using assms(1) by (cases "sy_peers s") (auto simp: sync_inv_def)
  then have f: "peer_ok x" "generation x = g" "peer_facts s x" using assms(1) by (auto simp: sync_inv_def)
  have "7 \<le> fst x"
    using f(1,2) five by (cases x; cases "fst x" rule: position_cases) (auto simp: peer_ok_def generation_def split: stage.splits)
  then show ?thesis using f(3) by (simp add: peer_facts_def)
qed

lemma unacknowledged_position:
  assumes "sync_inv n g s" "\<not> sy_acknowledged s"
  shows "g \<le> 5"
proof -
  obtain x where x: "x \<in> set (sy_peers s)" using assms(1) by (cases "sy_peers s") (auto simp: sync_inv_def)
  then have f: "peer_ok x" "generation x = g" "peer_facts s x" using assms(1) by (auto simp: sync_inv_def)
  then have "fst x < 9" using assms(2) by (auto simp: peer_facts_def not_less)
  then show ?thesis using f(1,2)
    by (cases x; cases "fst x" rule: position_cases) (auto simp: peer_ok_def generation_def split: stage.splits)
qed

lemma woken_keeps [simp]: "fst (woken x) = fst x" "generation (woken x) = generation x" "peer_ok (woken x) = peer_ok x"
  "snd (woken x) = Leading \<longleftrightarrow> snd x = Leading"
  by (cases x rule: woken.cases; simp add: generation_def peer_ok_def)+

lemma leaders_woken [simp]: "leaders (map woken peers) = leaders peers"
  by (induction peers) (auto simp: leaders_def)

lemma inv_reporter_step: "reporter_step s s' \<Longrightarrow> sync_inv n g s \<Longrightarrow> sync_inv n g s'"
proof (induction rule: reporter_step.induct)
  case (ready s)
  then show ?case by (auto simp: sync_inv_def phases_at_def ready_sent_def measured_reported_def peer_facts_def)
next
  case (get_start s)
  moreover obtain t where "sy_measured_at s = Some t" using start_is_set get_start by force
  ultimately show ?case
    by (auto simp: sync_inv_def phases_at_def ready_sent_def measured_reported_def peer_facts_def)
next
  case (report_measured s t)
  then have "5 \<le> g" using reporter_late by force
  moreover have "g \<le> 5" using unacknowledged_position [OF report_measured.prems] report_measured
    by (auto simp: sync_inv_def)
  ultimately have "g = 5" by simp
  then show ?case using report_measured
    by (auto simp: sync_inv_def phases_at_def ready_sent_def measured_reported_def peer_facts_def)
next
  case (store s)
  then show ?case by (auto simp: sync_inv_def phases_at_def ready_sent_def measured_reported_def peer_facts_def)
next
  case (notify_waiters s)
  let ?s = "s\<lparr>sy_peers := map woken (sy_peers s), sy_reporter := Reported\<rparr>"
  have ack: "sy_acknowledged s" using notify_waiters by (simp add: sync_inv_def)
  have "peer_facts s x \<Longrightarrow> peer_facts ?s (woken x)" for x
    using ack by (cases x rule: woken.cases) (auto simp: peer_facts_def)
  then show ?case using notify_waiters
    by (auto simp: sync_inv_def phases_at_def ready_sent_def measured_reported_def)
qed

lemma inv_new_sync: "0 < n \<Longrightarrow> sync_inv n 0 (new_sync n)"
  by (simp add: sync_inv_def new_sync_def peer_ok_def peer_facts_def phases_at_def ready_sent_def measured_reported_def)

lemma reachable_inv: "reachable n s \<Longrightarrow> 0 < n \<Longrightarrow> \<exists>g. sync_inv n g s"
proof (induction rule: reachable.induct)
  case start
  then show ?case using inv_new_sync by blast
next
  case (step s s')
  then show ?case using inv_peer_step inv_reporter_step by (auto simp: sync_step_def) blast
qed

section \<open>Safety\<close>

text \<open>The phase whose work an operation is.\<close>

fun work_phase :: "peer_work \<Rightarrow> scenario_phase" where
  "work_phase SendWarmup = Warmup"
| "work_phase ResetTimelines = Warmup"
| "work_phase SendMeasured = Measured"
| "work_phase DrainQuiet = Drain"

definition in_phase :: "sync_state \<Rightarrow> peer \<Rightarrow> bool" where
  "in_phase s x \<longleftrightarrow> (\<forall>w. op_at (fst x) = Some (Work w) \<longrightarrow> last (sy_phases s) = work_phase w)"

definition sync_safe :: "sync_state \<Rightarrow> bool" where
  "sync_safe s \<longleftrightarrow>
     sy_phases s = take (length (sy_phases s)) ORDERED \<and> (\<forall>x \<in> set (sy_peers s). in_phase s x) \<and>
     sy_reporter s \<noteq> NoStart"

lemma phases_at_ordered:
  assumes "sync_inv n g s"
  shows "phases_at g s = take (length (phases_at g s)) ORDERED"
proof -
  have "measured_reported s \<Longrightarrow> 5 \<le> g"
    using reporter_late [OF assms] by (auto simp: measured_reported_def)
  moreover have "measured_reported s" if "5 < g"
  proof -
    have "sy_acknowledged s" using unacknowledged_position [OF assms] that by (meson not_less)
    then show ?thesis using assms by (auto simp: sync_inv_def measured_reported_def)
  qed
  ultimately show ?thesis by (auto simp: phases_at_def ORDERED_def)
qed

lemma work_in_phase:
  assumes "sync_inv n g s" "x \<in> set (sy_peers s)" "op_at (fst x) = Some (Work w)"
  shows "last (phases_at g s) = work_phase w"
proof -
  obtain p stage where x: "x = (p, stage)" by (cases x)
  have f: "peer_ok x" "generation x = g" "peer_facts s x" using assms(1,2) by (auto simp: sync_inv_def)
  have stage: "stage = Ready" using f(1) assms(3) by (cases stage) (auto simp: x peer_ok_def op_positions)
  have early: "measured_reported s \<Longrightarrow> 5 \<le> g"
    using reporter_late [OF assms(1)] by (auto simp: measured_reported_def)
  have ack: "sy_acknowledged s \<Longrightarrow> measured_reported s"
    using assms(1) by (auto simp: sync_inv_def measured_reported_def)
  show ?thesis using f assms(3) early ack
    by (auto simp: x stage op_positions phases_at_def peer_facts_def)
qed

lemma inv_safe: "sync_inv n g s \<Longrightarrow> sync_safe s"
  using phases_at_ordered [of n g s] work_in_phase [of n g s]
  by (auto simp: sync_safe_def in_phase_def sync_inv_def)

text \<open>
  C17: While any number of peers and the reporter take steps in any order, the phases reported so far are an
  initial part of setup, warm-up, measured and drain; a peer that is about to send warm-up packets, reset its
  timelines, send measured packets or drain does so while that phase is the last one reported; and the
  reporter always finds a start time.
\<close>

theorem sync_safety: "reachable n s \<Longrightarrow> 0 < n \<Longrightarrow> sync_safe s"
  using reachable_inv inv_safe by blast

lemma sync_safety_witness: "in_phase (one_peer (2, Ready) [Setup, Warmup]) (2, Ready)"
proof -
  have "(2, Ready) \<in> set (sy_peers (one_peer (2, Ready) [Setup, Warmup]))" by (simp add: one_peer_def)
  then show ?thesis using sync_safety [OF one_peer_reachable] unfolding sync_safe_def by simp
qed

section \<open>Progress\<close>










section \<open>Termination\<close>

fun stage_rank :: "bool \<Rightarrow> nat \<Rightarrow> stage \<Rightarrow> nat" where
  "stage_rank acknowledged p Ready = (if p = 8 \<and> acknowledged then 2 else if p = 8 then 5 else 3)"
| "stage_rank acknowledged p Arrived = 2"
| "stage_rank acknowledged p Leading = 1"
| "stage_rank acknowledged p (Created _) = 4"
| "stage_rank acknowledged p (Awaiting _) = 3"

definition peer_rank :: "bool \<Rightarrow> peer \<Rightarrow> nat" where
  "peer_rank acknowledged x = (13 - fst x) * 10 + stage_rank acknowledged (fst x) (snd x)"

fun reporter_rank :: "reporter_stage \<Rightarrow> nat" where
  "reporter_rank WaitReady = 5"
| "reporter_rank GetStart = 4"
| "reporter_rank (SleepUntil _) = 3"
| "reporter_rank Storing = 2"
| "reporter_rank Notifying = 1"
| "reporter_rank Reported = 0"
| "reporter_rank NoStart = 0"

definition sync_rank :: "sync_state \<Rightarrow> nat" where
  "sync_rank s = sum_list (map (peer_rank (sy_acknowledged s)) (sy_peers s)) + reporter_rank (sy_reporter s)"

lemma move_rank:
  assumes "at s i x" "peer_rank (sy_acknowledged s) y < peer_rank (sy_acknowledged s) x"
  shows "sync_rank (move i y s) < sync_rank s"
proof -
  let ?r = "map (peer_rank (sy_acknowledged s)) (sy_peers s)"
  have i: "i < length ?r" "?r ! i = peer_rank (sy_acknowledged s) x" using assms(1) by (auto simp: at_def)
  have "sum_list (?r[i := peer_rank (sy_acknowledged s) y]) < sum_list ?r"
    using sum_list_update [of i ?r "peer_rank (sy_acknowledged s) y"] i assms(2) elem_le_sum_list [of i ?r] by simp
  then show ?thesis by (simp add: sync_rank_def move_def map_update)
qed

lemma rank_cong:
  "sy_peers s' = sy_peers s \<Longrightarrow> sy_acknowledged s' = sy_acknowledged s \<Longrightarrow> sy_reporter s' = sy_reporter s \<Longrightarrow>
     sync_rank s' = sync_rank s"
  by (simp add: sync_rank_def)

lemma rank_program: "p < 13 \<Longrightarrow> peer_rank b (p + 1, Ready) < peer_rank b (p, stage)"
  by (cases stage) (auto simp: peer_rank_def)

lemma rank_back: "peer_rank True (8, Ready) < peer_rank True (8, Awaiting b)"
  "peer_rank b (p, Arrived) < peer_rank b (p, Ready) \<longleftrightarrow> p \<noteq> 8 \<or> \<not> b"
  "peer_rank False (8, Created c) < peer_rank False (8, Ready)"
  "peer_rank b (p, Awaiting c) < peer_rank b (p, Created c)"
  "peer_rank b (p, Leading) < peer_rank b (p, Arrived)"
  by (auto simp: peer_rank_def)

lemma release_rank:
  assumes "sync_inv n g s" "\<forall>x \<in> set (sy_peers s). snd x = Arrived" "l < length (sy_peers s)"
  shows "sync_rank (s\<lparr>sy_peers := released l (sy_peers s)\<rparr>) < sync_rank s"
proof -
  let ?r = "peer_rank (sy_acknowledged s)"
  have less: "?r (released l (sy_peers s) ! j) < ?r (sy_peers s ! j)" if j: "j < length (sy_peers s)" for j
  proof -
    have x: "snd (sy_peers s ! j) = Arrived" "peer_ok (sy_peers s ! j)"
      using assms(1,2) j by (auto simp: sync_inv_def)
    obtain p where p: "sy_peers s ! j = (p, Arrived)" using x(1) by (cases "sy_peers s ! j") auto
    have "p < 13" using x(2) by (auto simp: p peer_ok_def)
    moreover have "released l (sy_peers s) ! j = (if j = l \<and> leads (op_at p) then (p, Leading) else (p + 1, Ready))"
      using j p by (auto simp: released_def)
    ultimately show ?thesis using rank_program [of p] rank_back(5) by (simp add: p)
  qed
  have len: "length (released l (sy_peers s)) = length (sy_peers s)" by (simp add: released_def)
  have "sum_list (map ?r (released l (sy_peers s))) < sum_list (map ?r (sy_peers s))"
    unfolding sum_list_sum_nth length_map len
    using assms(3) less by (intro sum_strict_mono) (auto simp: len)
  then show ?thesis by (simp add: sync_rank_def)
qed

lemma peer_step_rank: "peer_step s s' \<Longrightarrow> sync_inv n g s \<Longrightarrow> sync_rank s' < sync_rank s"
proof (induction rule: peer_step.induct)
  case (arrive s i p)
  then show ?case by (intro move_rank [OF arrive.hyps(1)]) (auto simp: rank_back op_positions)
next
  case (release s l)
  then show ?case using release_rank by blast
next
  case (report s i p phase)
  then have "sync_rank (move i (p + 1, Ready) s) < sync_rank s"
    using op_range by (intro move_rank [OF report.hyps(1)] rank_program)
  then show ?case using rank_cong by (simp add: sync_rank_def)
next
  case (notify_ready s i p)
  then have "sync_rank (move i (p + 1, Ready) s) < sync_rank s"
    using op_range by (intro move_rank [OF notify_ready.hyps(1)] rank_program)
  then show ?case by (simp add: sync_rank_def)
next
  case (work s i p w)
  then show ?case using op_range by (intro move_rank [OF work.hyps(1)] rank_program)
next
  case (init_start s i p t)
  then have "sync_rank (move i (p + 1, Ready) s) < sync_rank s"
    using op_range by (intro move_rank [OF init_start.hyps(1)] rank_program)
  then show ?case by (simp add: sync_rank_def)
next
  case (first_check s i p)
  then have "p = 8" by (simp add: op_positions)
  then show ?case using rank_program [of p _ Ready]
    by (intro move_rank [OF first_check.hyps(1)]) (auto simp: rank_back)
next
  case (second_check s i p flag)
  then have "p = 8" using peer_facts_of [OF second_check.prems second_check.hyps(1)] by (simp add: peer_ok_def)
  then show ?case using rank_program [of p _ "Created flag"]
    by (intro move_rank [OF second_check.hyps(1)]) (auto simp: rank_back)
next
  case (wake s i p)
  then have "p = 8" "sy_acknowledged s"
    using peer_facts_of [OF wake.prems wake.hyps] by (auto simp: peer_ok_def peer_facts_def)
  then show ?case by (intro move_rank [OF wake.hyps]) (simp add: rank_back)
qed

lemma acknowledged_rank: "peer_rank True x \<le> peer_rank False x"
  by (cases x; cases "snd x") (auto simp: peer_rank_def)

lemma woken_rank [simp]: "peer_rank b (woken x) = peer_rank b x"
  by (cases x rule: woken.cases) (auto simp: peer_rank_def)

lemma reporter_step_rank: "reporter_step s s' \<Longrightarrow> sync_inv n g s \<Longrightarrow> sync_rank s' < sync_rank s"
proof (induction rule: reporter_step.induct)
  case (get_start s)
  then obtain t where "sy_measured_at s = Some t" using start_is_set by force
  then show ?case using get_start by (simp add: sync_rank_def)
next
  case (store s)
  then have "\<not> sy_acknowledged s" by (simp add: sync_inv_def)
  moreover have "sum_list (map (peer_rank True) (sy_peers s)) \<le> sum_list (map (peer_rank False) (sy_peers s))"
    by (intro sum_list_mono acknowledged_rank)
  ultimately show ?case using store by (simp add: sync_rank_def)
qed (simp_all add: sync_rank_def comp_def)

lemma inv_step:
  "sync_inv n g s \<Longrightarrow> sync_step s s' \<Longrightarrow> (\<exists>g'. sync_inv n g' s') \<and> sync_rank s' < sync_rank s"
  using inv_peer_step inv_reporter_step peer_step_rank reporter_step_rank by (auto simp: sync_step_def) blast+

lemma inv_run:
  "(sync_step ^^ k) s s' \<Longrightarrow> sync_inv n g s \<Longrightarrow> (\<exists>g'. sync_inv n g' s') \<and> k + sync_rank s' \<le> sync_rank s"
proof (induction k arbitrary: s')
  case 0
  then show ?case by auto
next
  case (Suc k)
  then obtain t where t: "(sync_step ^^ k) s t" "sync_step t s'" by auto
  then obtain g' where g': "sync_inv n g' t" "k + sync_rank t \<le> sync_rank s" using Suc by blast
  then show ?case using inv_step [OF g'(1) t(2)] by auto
qed

lemma new_sync_rank: "sync_rank (new_sync n) = 133 * n + 5"
  by (simp add: sync_rank_def new_sync_def peer_rank_def sum_list_replicate)

lemma finished_phases:
  assumes "sync_inv n g s" "finished s"
  shows "sy_phases s = ORDERED"
proof -
  obtain x where x: "x \<in> set (sy_peers s)" using assms(1) by (cases "sy_peers s") (auto simp: sync_inv_def)
  then have "generation x = g" "x = (13, Ready)" using assms by (auto simp: sync_inv_def finished_def)
  then have "g = 7" by simp
  then show ?thesis using assms by (simp add: sync_inv_def finished_def phases_at_def measured_reported_def ORDERED_def)
qed

text \<open>
  C19: However the steps of the \<open>n\<close> peers and the reporter interleave, a run takes at most \<open>133 * n + 5\<close> of
  them, and a run that has come to its end has reported setup, warm-up, measured and drain, each once.
\<close>

theorem sync_terminates:
  "(sync_step ^^ k) (new_sync n) s \<Longrightarrow> 0 < n \<Longrightarrow> k \<le> 133 * n + 5 \<and> (finished s \<longrightarrow> sy_phases s = ORDERED)"
  using inv_run [OF _ inv_new_sync] finished_phases new_sync_rank by fastforce

lemma sync_terminates_witness:
  "(sync_step ^^ 5) (new_sync 1) (one_peer (2, Ready) [Setup, Warmup]) \<and> 5 \<le> 133 * 1 + (5 :: nat)"
  using sync_terminates [OF one_peer_run] one_peer_run by simp

end
