(* ===== verification/RunInputs.thy ===== *)
theory RunInputs
  imports Summary ReportFormat Effects "HOL-Library.Product_Lexorder" "HOL-Library.List_Lexorder" "HOL-Library.Char_ord"
begin

text \<open>
  The inputs of the reports (\<open>src/report.rs\<close>): loading one run from a result file and the samples beside it,
  the verdicts on a run (validation, pacing, matching workloads), the order in which runs are shown and
  the statuses over all of them. The file system and the decoder of \<open>result.json\<close> are parameters.
\<close>

section \<open>Loading\<close>

definition RESULT_LIMIT_BYTES :: nat where "RESULT_LIMIT_BYTES = 1024 * 1024"
definition SAMPLES_LIMIT_BYTES :: nat where "SAMPLES_LIMIT_BYTES = 16 * 1024 * 1024"
definition MAX_INPUTS :: nat where "MAX_INPUTS = 256"

record run_data =
  rd_source :: string
  rd_result :: scenario_result
  rd_samples :: "sample_set option"

record load_failure =
  lf_source :: string
  lf_error :: string

datatype io_error = NotFound | OtherError string

fun show_io_error :: "io_error \<Rightarrow> string" where
  "show_io_error NotFound = ''No such file or directory (os error 2)''"
| "show_io_error (OtherError msg) = msg"

text \<open>
  What the file system answers: directories, the length \<open>fs::metadata\<close> reports, the bytes \<open>fs::read\<close>
  returns, which may have grown in between.
\<close>

record report_files =
  rf_is_dir :: "fs_path \<Rightarrow> bool"
  rf_metadata :: "fs_path \<Rightarrow> io_error + nat"
  rf_read :: "fs_path \<Rightarrow> io_error + string"

definition with_file_name :: "fs_path \<Rightarrow> string \<Rightarrow> fs_path" where
  "with_file_name p name = p\<lparr>components := butlast (components p) @ [name]\<rparr>"

definition io_result :: "string \<Rightarrow> io_error + 'a \<Rightarrow> 'a result" where
  "io_result msg r = (case r of Inl e \<Rightarrow> with_context msg (err (show_io_error e)) | Inr x \<Rightarrow> Inr x)"

definition read_within :: "report_files \<Rightarrow> fs_path \<Rightarrow> nat \<Rightarrow> nat \<Rightarrow> string result" where
  "read_within files path limit len =
     ensure (len \<le> limit)
       (show_path path @ '' exceeds its '' @ show_nat limit @ '' byte report-input limit'') (
     bind_ok (io_result (''failed to read '' @ show_path path) (rf_read files path)) (\<lambda>payload.
     ensure (length payload \<le> limit)
       (show_path path @ '' grew beyond its '' @ show_nat limit @ '' byte report-input limit'')
       (Inr payload)))"

definition read_bounded :: "report_files \<Rightarrow> fs_path \<Rightarrow> nat \<Rightarrow> string result" where
  "read_bounded files path limit =
     bind_ok (io_result (''failed to inspect '' @ show_path path) (rf_metadata files path))
       (read_within files path limit)"

definition read_optional_bounded :: "report_files \<Rightarrow> fs_path \<Rightarrow> nat \<Rightarrow> string option result" where
  "read_optional_bounded files path limit =
     (if rf_metadata files path = Inl NotFound then Inr None
      else bind_ok (read_bounded files path limit) (\<lambda>payload.
        with_context (show_path path @ '' is not UTF-8'') (bind_ok (from_utf8 payload) (\<lambda>s. Inr (Some s)))))"

definition load_run ::
  "report_files \<Rightarrow> (string \<Rightarrow> scenario_result result) \<Rightarrow> serde \<Rightarrow> fs_path \<Rightarrow> run_data result" where
  "load_run files decode_result d input =
     (let result_path = (if rf_is_dir files input then join_path input [''result.json''] else input) in
      bind_ok (read_bounded files result_path RESULT_LIMIT_BYTES) (\<lambda>payload.
      bind_ok (with_context (''failed to decode '' @ show_path result_path) (decode_result payload)) (\<lambda>r.
      bind_ok (read_optional_bounded files (with_file_name result_path ''samples.jsonl'') SAMPLES_LIMIT_BYTES)
        (\<lambda>samples.
      Inr \<lparr>rd_source = show_path input, rd_result = r,
           rd_samples = map_option (parse_samples d) samples\<rparr>))))"

text \<open>The loop over the inputs: every input is kept, as a run or as a failure.\<close>

fun load_inputs :: "(fs_path \<Rightarrow> run_data result) \<Rightarrow> fs_path list \<Rightarrow> run_data list \<times> load_failure list" where
  "load_inputs load [] = ([], [])"
| "load_inputs load (input # inputs) =
     (case load_inputs load inputs of (runs, failures) \<Rightarrow>
        (case load input of
           Inr run \<Rightarrow> (run # runs, failures)
         | Inl e \<Rightarrow> (runs, \<lparr>lf_source = show_path input, lf_error = show_error e\<rparr> # failures)))"

section \<open>Verdicts on one run\<close>

definition validate_run :: "run_data \<Rightarrow> unit result" where
  "validate_run run = validate_result (rd_result run) (res_scenario (rd_result run))"

definition run_passed :: "run_data \<Rightarrow> bool" where
  "run_passed run = is_ok (validate_run run)"

definition validation_label :: "run_data \<Rightarrow> string" where
  "validation_label run =
     (case validate_run run of Inl e \<Rightarrow> escape_table (show_error e) | Inr _ \<Rightarrow> ''ok'')"

fun pacing_interval_ms :: "scenario_spec \<Rightarrow> u64" where
  "pacing_interval_ms (VideoGallery _ _ _ _) = 34"
| "pacing_interval_ms _ = 20"

definition pacing_valid :: "scenario_result \<Rightarrow> bool" where
  "pacing_valid r \<longleftrightarrow> res_max_send_lag_ms r \<le> pacing_interval_ms (res_scenario r)"

definition pacing_label :: "scenario_result \<Rightarrow> string" where
  "pacing_label r = (if pacing_valid r then ''valid'' else ''INVALID'')"

definition workload_matches :: "run_data \<Rightarrow> run_data \<Rightarrow> bool" where
  "workload_matches baseline comparison \<longleftrightarrow>
     (let b = rd_result baseline; c = rd_result comparison in
      res_schema_version b = res_schema_version c \<and> res_profile b = res_profile c \<and>
      res_scenario b = res_scenario c \<and> res_server_policy b = res_server_policy c \<and>
      res_plan b = res_plan c \<and> res_offered_packets b = res_offered_packets c \<and>
      res_offered_payload_bytes b = res_offered_payload_bytes c)"

definition delivery_rate :: "scenario_result \<Rightarrow> u64" where
  "delivery_rate r = achieved_deliveries_per_second r"

section \<open>The order of runs\<close>

type_synonym scenario_order = "u8 \<times> u64 \<times> u64 \<times> u32 \<times> u32 \<times> u32 \<times> u32 \<times> u32"

fun scenario_rank :: "scenario_spec \<Rightarrow> u8" where
  "scenario_rank (Smoke _ _) = 0"
| "scenario_rank (AudioMesh _ _ _) = 1"
| "scenario_rank (VideoGallery _ _ _ _) = 2"
| "scenario_rank (MixedConference _ _ _ _ _) = 3"

definition scenario_key :: "scenario_spec \<Rightarrow> scenario_order" where
  "scenario_key spec =
     (let duration = max (u64_from (duration_seconds spec)) 1;
          expected_deliveries = (case plan spec of Inl _ \<Rightarrow> 0 | Inr p \<Rightarrow> wp_expected_deliveries p);
          deliveries_per_second = expected_deliveries div duration in
      (scenario_rank spec, deliveries_per_second, expected_deliveries, room_count spec, peers_per_room spec,
       audio_publishers_per_room spec, video_publishers_per_room spec, duration_seconds spec))"

section \<open>Statuses over all runs\<close>

definition exact_status :: "run_data list \<Rightarrow> load_failure list \<Rightarrow> string" where
  "exact_status runs failures =
     (if runs = [] \<and> failures = [] then ''n/a''
      else if failures = [] \<and> list_all run_passed runs then ''PASS'' else ''FAIL'')"

definition telemetry_incomplete :: "sample_set option \<Rightarrow> bool" where
  "telemetry_incomplete samples =
     (case samples of None \<Rightarrow> True | Some s \<Rightarrow> ss_samples s = [] \<or> ss_unavailable s > 0)"

definition run_unresponsive :: "sample_set option \<Rightarrow> bool" where
  "run_unresponsive samples =
     (case samples of None \<Rightarrow> False | Some s \<Rightarrow> list_ex ts_packet_loop_unresponsive (ss_samples s))"

definition telemetry_status :: "run_data list \<Rightarrow> string" where
  "telemetry_status runs =
     (if list_all (\<lambda>run. rd_samples run = None) runs then ''n/a''
      else if list_ex (\<lambda>run. telemetry_incomplete (rd_samples run)) runs then ''INCOMPLETE''
      else if list_ex (\<lambda>run. run_unresponsive (rd_samples run)) runs then ''UNHEALTHY''
      else ''COMPLETE'')"

definition pacing_status :: "run_data list \<Rightarrow> string" where
  "pacing_status runs =
     (if runs = [] then ''n/a''
      else if list_all (\<lambda>run. pacing_valid (rd_result run)) runs then ''VALID'' else ''INVALID'')"

text \<open>
  The \<open>BTreeSet\<close> of the revisions that are present: only its size, and its element when there is one,
  are used, so a list without duplicates stands for it.
\<close>

definition run_revision :: "run_data \<Rightarrow> string option" where
  "run_revision run = res_o_sfu_revision (rd_result run)"

definition revision_set :: "run_data list \<Rightarrow> string list" where
  "revision_set runs = remdups (List.map_filter run_revision runs)"

definition revision_missing :: "run_data list \<Rightarrow> bool" where
  "revision_missing runs = list_ex (\<lambda>run. run_revision run = None) runs"

definition revision_label :: "run_data list \<Rightarrow> string" where
  "revision_label runs =
     (let revisions = revision_set runs in
      if length revisions = 1 \<and> \<not> revision_missing runs then
        (case revisions of [] \<Rightarrow> ''n/a'' | revision # _ \<Rightarrow> revision)
      else if revisions = [] then ''n/a'' else ''mixed'')"

end
