(* ===== verification/Comparison.thy ===== *)
theory Comparison
  imports RunInputs
begin

text \<open>
  The comparison of two \<open>o-sfu\<close> revisions (\<open>src/comparison.rs\<close>): both sides are loaded and sorted, their
  runs paired by scenario, the revision of each side established, and the pairs judged: the same
  workloads, exact work, performance that may be compared. Deltas are comparison minus baseline.
\<close>

record comparison_side =
  cs_runs :: "run_data list"
  cs_failures :: "load_failure list"

record run_pair =
  pr_baseline :: run_data
  pr_comparison :: run_data
  pr_workload_matches :: bool

record run_pairing =
  rp_pairs :: "run_pair list"
  rp_issues :: "string list"

record revision_info =
  rv_label :: string
  rv_valid :: bool

text \<open>
  \<open>sort_unstable_by\<close> leaves the order of runs with equal keys open; they keep theirs here, and no theorem
  depends on it.
\<close>

definition load_side :: "(fs_path \<Rightarrow> run_data result) \<Rightarrow> fs_path list \<Rightarrow> comparison_side" where
  "load_side load inputs =
     (case load_inputs load inputs of (runs, failures) \<Rightarrow>
        \<lparr>cs_runs = sort_key (\<lambda>run. (scenario_key (res_scenario (rd_result run)), rd_source run)) runs,
         cs_failures = sort_key lf_source failures\<rparr>)"

section \<open>Pairs\<close>

definition run_spec :: "run_data \<Rightarrow> scenario_spec" where
  "run_spec run = res_scenario (rd_result run)"

definition paired_specs :: "run_data list \<Rightarrow> run_data list \<Rightarrow> scenario_spec list" where
  "paired_specs baseline comparison =
     remdups_adj (sort_key scenario_key (map run_spec (baseline @ comparison)))"

text \<open>The body of the loop over the scenarios: at most one pair and one issue.\<close>

definition pair_spec :: "run_data list \<Rightarrow> run_data list \<Rightarrow> scenario_spec \<Rightarrow> run_pair list \<times> string list" where
  "pair_spec baseline comparison spec =
     (case (filter (\<lambda>run. run_spec run = spec) baseline, filter (\<lambda>run. run_spec run = spec) comparison) of
        ([baseline_run], [comparison_run]) \<Rightarrow>
          let matches = workload_matches baseline_run comparison_run in
          ([\<lparr>pr_baseline = baseline_run, pr_comparison = comparison_run, pr_workload_matches = matches\<rparr>],
           if matches then [] else [scenario_label spec @ '' has different workload contracts''])
      | ([], _) \<Rightarrow> ([], [scenario_label spec @ '' is missing from the baseline''])
      | (_, []) \<Rightarrow> ([], [scenario_label spec @ '' is missing from the comparison''])
      | _ \<Rightarrow> ([], [scenario_label spec @ '' appears more than once on one side'']))"

definition pair_runs :: "run_data list \<Rightarrow> run_data list \<Rightarrow> run_pairing" where
  "pair_runs baseline comparison =
     (let rows = map (pair_spec baseline comparison) (paired_specs baseline comparison) in
      \<lparr>rp_pairs = concat (map fst rows), rp_issues = concat (map snd rows)\<rparr>)"

section \<open>Revisions\<close>

definition valid_revision :: "string \<Rightarrow> bool" where
  "valid_revision revision \<longleftrightarrow>
     length revision = 40 \<and> list_all (\<lambda>c. is_ascii_digit c \<or> c \<in> set ''abcdef'') revision"

definition side_revision :: "run_data list \<Rightarrow> revision_info" where
  "side_revision runs =
     (case (revision_set runs, revision_missing runs) of
        ([revision], False) \<Rightarrow> \<lparr>rv_label = revision, rv_valid = valid_revision revision\<rparr>
      | ([], _) \<Rightarrow> \<lparr>rv_label = ''n/a'', rv_valid = False\<rparr>
      | _ \<Rightarrow> \<lparr>rv_label = ''mixed'', rv_valid = False\<rparr>)"

text \<open>\<open>label.get(..12)\<close>; a valid revision is ASCII.\<close>

definition short_revision :: "revision_info \<Rightarrow> string \<Rightarrow> string" where
  "short_revision revision fallback =
     (if rv_valid revision then (case get_range (rv_label revision) 0 12 of None \<Rightarrow> fallback | Some s \<Rightarrow> s)
      else fallback)"

section \<open>Verdicts\<close>

definition side_telemetry :: "run_data \<Rightarrow> run_telemetry" where
  "side_telemetry run = telemetry_from_samples (rd_samples run) (res_delivered_packets (rd_result run))"

definition telemetry_complete :: "run_telemetry \<Rightarrow> bool" where
  "telemetry_complete summary \<longleftrightarrow>
     rt_samples summary > 0 \<and> rt_unavailable summary = 0 \<and>
     rt_server_cpu_micros_per_million_deliveries summary \<noteq> None \<and>
     rt_server_cpu_percent_milli summary \<noteq> None \<and> rt_server_cpu_peak_percent_milli summary \<noteq> None \<and>
     rt_server_rss_bytes summary \<noteq> None \<and> rt_rtc_cpu_percent_milli summary \<noteq> None \<and>
     rt_rtc_rss_bytes summary \<noteq> None \<and> rt_packet_loop_delay_ms summary \<noteq> None \<and>
     rt_forwarded_packets_per_second summary \<noteq> None \<and> rt_egress_payload_bits_per_second summary \<noteq> None"

definition pair_performance_valid :: "run_pair \<Rightarrow> bool" where
  "pair_performance_valid pair \<longleftrightarrow>
     pr_workload_matches pair \<and> pacing_valid (rd_result (pr_baseline pair)) \<and>
     pacing_valid (rd_result (pr_comparison pair)) \<and> telemetry_complete (side_telemetry (pr_baseline pair)) \<and>
     telemetry_complete (side_telemetry (pr_comparison pair))"

record comparison_verdict =
  cv_revisions_valid :: bool
  cv_workloads_match :: bool
  cv_exact :: bool
  cv_performance_valid :: bool

text \<open>The verdicts \<open>render_sides\<close> computes before it renders.\<close>

definition judge_comparison :: "comparison_side \<Rightarrow> comparison_side \<Rightarrow> comparison_verdict" where
  "judge_comparison baseline comparison =
     (let baseline_revision = side_revision (cs_runs baseline);
          comparison_revision = side_revision (cs_runs comparison);
          pairing = pair_runs (cs_runs baseline) (cs_runs comparison);
          revisions_valid = (rv_valid baseline_revision \<and> rv_valid comparison_revision \<and>
            rv_label baseline_revision \<noteq> rv_label comparison_revision);
          workloads_match = (rp_pairs pairing \<noteq> [] \<and> rp_issues pairing = [] \<and>
            list_all pr_workload_matches (rp_pairs pairing));
          exact = (workloads_match \<and> cs_failures baseline = [] \<and> cs_failures comparison = [] \<and>
            list_all (\<lambda>pair. is_ok (validate_run (pr_baseline pair)) \<and> is_ok (validate_run (pr_comparison pair)))
              (rp_pairs pairing));
          performance_valid = (revisions_valid \<and> exact \<and> list_all pair_performance_valid (rp_pairs pairing))
      in \<lparr>cv_revisions_valid = revisions_valid, cv_workloads_match = workloads_match, cv_exact = exact,
          cv_performance_valid = performance_valid\<rparr>)"

section \<open>Deltas\<close>

definition percentage_delta :: "u64 \<Rightarrow> u64 \<Rightarrow> u64 option" where
  "percentage_delta baseline magnitude =
     (if baseline = 0 then None
      else Some (clamp_to (unat (ucast magnitude * (1000 :: u128) div ucast baseline))))"

definition format_delta :: "u64 option \<Rightarrow> u64 option \<Rightarrow> (u64 \<Rightarrow> string) \<Rightarrow> string" where
  "format_delta baseline comparison format =
     (case (baseline, comparison) of
        (Some b, Some c) \<Rightarrow>
          let (sign, magnitude) =
                (if b < c then (''+'', c - b) else if c < b then (''-'', b - c) else ([], 0));
              absolute = format magnitude in
          (case percentage_delta b magnitude of
             None \<Rightarrow> sign @ absolute @ '' (n/a)''
           | Some tenths \<Rightarrow>
               let percent_sign = (if magnitude = 0 then [] else sign) in
               sign @ absolute @ '' ('' @ percent_sign @ show_word (tenths div 10) @ ''.''
                 @ pad_zero 1 (show_word (tenths mod 10)) @ ''%)'')
      | _ \<Rightarrow> ''n/a'')"

definition format_cpu_time :: "u64 \<Rightarrow> string" where
  "format_cpu_time micros =
     grouped (micros div 1000000) @ ''.'' @ pad_zero 6 (show_word (micros mod 1000000)) @ '' CPU s/1M''"

definition format_deliveries_per_second :: "u64 \<Rightarrow> string" where
  "format_deliveries_per_second n = grouped n @ '' deliveries/s''"

definition round_milli :: "u64 \<Rightarrow> u64" where
  "round_milli n = saturating_add n 500 div 1000"

definition bytes_to_mebibytes :: "u64 \<Rightarrow> u64" where
  "bytes_to_mebibytes n = div_ceil n (1024 * 1024)"

end
