(* ===== verification/ComparisonFacts.thy ===== *)
theory ComparisonFacts
  imports Comparison PlanFacts "HOL-Library.Multiset"
begin

text \<open>
  What the verdicts of a comparison mean: work is called exact when every scenario was run once on each side
  and every run passes its validation, performance is called valid when besides each side carries one full
  revision, the two differ, and every run kept its pace and has complete telemetry; the pairs of an
  exact comparison contain every run once.
\<close>

section \<open>Pairs\<close>

lemma paired_specs_set: "set (paired_specs baseline comparison) = run_spec ` set (baseline @ comparison)"
  by (simp add: paired_specs_def image_Un)

definition only_run :: "run_data list \<Rightarrow> scenario_spec \<Rightarrow> run_data \<Rightarrow> bool" where
  "only_run runs spec run \<longleftrightarrow> filter (\<lambda>run. run_spec run = spec) runs = [run]"

lemma only_run_mem: "only_run runs spec run \<Longrightarrow> run \<in> set runs \<and> run_spec run = spec"
proof -
  assume "only_run runs spec run"
  then have "run \<in> set (filter (\<lambda>run. run_spec run = spec) runs)" by (simp add: only_run_def)
  then show ?thesis by simp
qed

lemma only_run_unique:
  assumes "only_run runs spec run" "x \<in> set runs" "run_spec x = spec"
  shows "x = run"
proof -
  have "x \<in> set (filter (\<lambda>run. run_spec run = spec) runs)" using assms(2,3) by simp
  then show ?thesis using assms(1) unfolding only_run_def by (metis empty_iff insert_iff list.set)
qed

lemma pair_spec_no_issue:
  "snd (pair_spec baseline comparison spec) = [] \<longleftrightarrow>
     (\<exists>b c. only_run baseline spec b \<and> only_run comparison spec c \<and> workload_matches b c)"
  by (auto simp: pair_spec_def only_run_def Let_def split: list.splits)

lemma pair_spec_pair:
  "only_run baseline spec b \<Longrightarrow> only_run comparison spec c \<Longrightarrow>
     fst (pair_spec baseline comparison spec) =
       [\<lparr>pr_baseline = b, pr_comparison = c, pr_workload_matches = workload_matches b c\<rparr>]"
  by (simp add: pair_spec_def only_run_def Let_def)

lemma pair_spec_matches:
  "pair \<in> set (fst (pair_spec xs ys spec)) \<Longrightarrow>
     only_run xs spec (pr_baseline pair) \<and> only_run ys spec (pr_comparison pair)"
  by (auto simp: pair_spec_def only_run_def Let_def split: list.splits)

lemma only_run_all:
  assumes "run_spec ` set runs \<subseteq> S"
  shows "(\<forall>s \<in> S. \<exists>run. only_run runs s run) \<longleftrightarrow> distinct (map run_spec runs) \<and> run_spec ` set runs = S"
proof -
  define occurs where "occurs s = length (filter (\<lambda>run. run_spec run = s) runs)" for s
  have one: "(\<exists>run. only_run runs s run) \<longleftrightarrow> occurs s = 1" for s
    unfolding only_run_def occurs_def by (auto simp: length_Suc_conv)
  have count: "count (mset (map run_spec runs)) s = occurs s" for s
    unfolding occurs_def by (induction runs) auto
  have zero: "occurs s = 0 \<longleftrightarrow> s \<notin> run_spec ` set runs" for s
    unfolding occurs_def by (auto simp: filter_empty_conv)
  have dist: "distinct (map run_spec runs) \<longleftrightarrow> (\<forall>s. occurs s = (if s \<in> run_spec ` set runs then 1 else 0))"
    unfolding distinct_count_atmost_1 count set_map ..
  show ?thesis unfolding one dist
  proof (intro iffI conjI ballI allI)
    fix s assume all: "\<forall>s \<in> S. occurs s = 1"
    show "occurs s = (if s \<in> run_spec ` set runs then 1 else 0)"
      using all assms zero [of s] by auto
  next
    assume all: "\<forall>s \<in> S. occurs s = 1"
    then have "S \<subseteq> run_spec ` set runs" using zero by (metis subsetI zero_neq_one)
    then show "run_spec ` set runs = S" using assms by blast
  next
    fix s assume "(\<forall>s. occurs s = (if s \<in> run_spec ` set runs then 1 else 0)) \<and> run_spec ` set runs = S" "s \<in> S"
    then show "occurs s = 1" by simp
  qed
qed

definition same_specs :: "run_data list \<Rightarrow> run_data list \<Rightarrow> bool" where
  "same_specs baseline comparison \<longleftrightarrow>
     distinct (map run_spec baseline) \<and> mset (map run_spec baseline) = mset (map run_spec comparison)"

lemma same_specs_iff:
  "same_specs xs ys \<longleftrightarrow> distinct (map run_spec xs) \<and> distinct (map run_spec ys) \<and>
     run_spec ` set xs = run_spec ` set ys"
proof -
  have "mset (map run_spec xs) = mset (map run_spec ys) \<Longrightarrow> distinct (map run_spec xs) \<longleftrightarrow> distinct (map run_spec ys)"
    by (rule mset_eq_imp_distinct_iff)
  moreover have "distinct (map run_spec xs) \<and> distinct (map run_spec ys) \<Longrightarrow>
      mset (map run_spec xs) = mset (map run_spec ys) \<longleftrightarrow> run_spec ` set xs = run_spec ` set ys"
    using set_eq_iff_mset_eq_distinct [of "map run_spec xs" "map run_spec ys"] by simp
  ultimately show ?thesis unfolding same_specs_def by blast
qed

lemma no_issues_iff:
  "(\<forall>spec \<in> run_spec ` set (xs @ ys). snd (pair_spec xs ys spec) = []) \<longleftrightarrow>
     same_specs xs ys \<and> (\<forall>b \<in> set xs. \<forall>c \<in> set ys. run_spec b = run_spec c \<longrightarrow> workload_matches b c)"
  (is "?l \<longleftrightarrow> ?r")
proof
  let ?S = "run_spec ` set (xs @ ys)"
  have sub: "run_spec ` set xs \<subseteq> ?S" "run_spec ` set ys \<subseteq> ?S" by auto
  {
    assume l: ?l
    then have "\<forall>s \<in> ?S. \<exists>b. only_run xs s b" "\<forall>s \<in> ?S. \<exists>c. only_run ys s c"
      by (auto simp: pair_spec_no_issue)
    then have "same_specs xs ys"
      unfolding same_specs_iff only_run_all [OF sub(1)] only_run_all [OF sub(2)] by simp
    moreover have "workload_matches b c" if bc: "b \<in> set xs" "c \<in> set ys" "run_spec b = run_spec c" for b c
    proof -
      obtain b' c' where "only_run xs (run_spec b) b'" "only_run ys (run_spec b) c'" "workload_matches b' c'"
        using l bc(1) unfolding pair_spec_no_issue by (metis UnCI imageI set_append)
      then show ?thesis using only_run_unique bc by metis
    qed
    ultimately show ?r by blast
  next
    assume r: ?r
    then have "\<forall>s \<in> ?S. (\<exists>b. only_run xs s b)" "\<forall>s \<in> ?S. (\<exists>c. only_run ys s c)"
      using only_run_all [OF sub(1)] only_run_all [OF sub(2)] by (auto simp: same_specs_iff image_Un)
    then show ?l unfolding pair_spec_no_issue
      using r only_run_mem by (metis (no_types, lifting))
  }
qed

definition the_run :: "run_data list \<Rightarrow> scenario_spec \<Rightarrow> run_data" where
  "the_run runs spec = hd (filter (\<lambda>run. run_spec run = spec) runs)"

lemma only_run_the: "only_run runs spec run \<Longrightarrow> the_run runs spec = run"
  by (simp add: only_run_def the_run_def)

lemma distinct_only:
  assumes "distinct (map run_spec runs)" "run \<in> set runs"
  shows "only_run runs (run_spec run) run"
proof -
  obtain r where "only_run runs (run_spec run) r"
    using only_run_all [of runs "run_spec ` set runs"] assms by auto
  moreover have "run \<in> set (filter (\<lambda>r. run_spec r = run_spec run) runs)" using assms(2) by simp
  ultimately show ?thesis by (simp add: only_run_def)
qed

lemma distinct_the: "distinct (map run_spec runs) \<Longrightarrow> run \<in> set runs \<Longrightarrow> the_run runs (run_spec run) = run"
  using distinct_only only_run_the by blast

lemma issues_none:
  "rp_issues (pair_runs xs ys) = [] \<longleftrightarrow>
     same_specs xs ys \<and> (\<forall>b \<in> set xs. \<forall>c \<in> set ys. run_spec b = run_spec c \<longrightarrow> workload_matches b c)"
  unfolding no_issues_iff [symmetric] paired_specs_set [symmetric] by (auto simp: pair_runs_def Let_def)

lemma pairs_when_no_issue:
  assumes "rp_issues (pair_runs xs ys) = []"
  shows "rp_pairs (pair_runs xs ys) =
    map (\<lambda>s. \<lparr>pr_baseline = the_run xs s, pr_comparison = the_run ys s, pr_workload_matches = True\<rparr>)
      (paired_specs xs ys)"
proof -
  have "fst (pair_spec xs ys s) = [\<lparr>pr_baseline = the_run xs s, pr_comparison = the_run ys s, pr_workload_matches = True\<rparr>]"
    if s: "s \<in> set (paired_specs xs ys)" for s
  proof -
    have "snd (pair_spec xs ys s) = []" using assms s by (auto simp: pair_runs_def Let_def)
    then obtain b c where "only_run xs s b" "only_run ys s c" "workload_matches b c"
      by (auto simp: pair_spec_no_issue)
    then show ?thesis using pair_spec_pair only_run_the by fastforce
  qed
  then have "map fst (map (pair_spec xs ys) (paired_specs xs ys)) = map (\<lambda>s. [\<lparr>pr_baseline = the_run xs s,
      pr_comparison = the_run ys s, pr_workload_matches = True\<rparr>]) (paired_specs xs ys)"
    by simp
  then show ?thesis by (simp add: pair_runs_def Let_def del: map_map)
qed

lemma all_pairs:
  assumes "rp_issues (pair_runs xs ys) = []"
  shows "list_all (\<lambda>pair. P (pr_baseline pair) \<and> P (pr_comparison pair)) (rp_pairs (pair_runs xs ys)) \<longleftrightarrow>
    list_all P (xs @ ys)"
proof -
  have d: "distinct (map run_spec xs)" "distinct (map run_spec ys)" "run_spec ` set xs = run_spec ` set ys"
    using assms by (auto simp: issues_none same_specs_iff)
  have S: "set (paired_specs xs ys) = run_spec ` set xs" "set (paired_specs xs ys) = run_spec ` set ys"
    using d(3) by (auto simp: paired_specs_set image_Un)
  have "(\<forall>s \<in> set (paired_specs xs ys). P (the_run xs s)) \<longleftrightarrow> (\<forall>b \<in> set xs. P b)"
    unfolding S(1) using distinct_the [OF d(1)] by simp
  moreover have "(\<forall>s \<in> set (paired_specs xs ys). P (the_run ys s)) \<longleftrightarrow> (\<forall>c \<in> set ys. P c)"
    unfolding S(2) using distinct_the [OF d(2)] by simp
  ultimately show ?thesis unfolding pairs_when_no_issue [OF assms] by (auto simp: list_all_iff)
qed

lemma no_pairs: "rp_issues (pair_runs xs ys) = [] \<Longrightarrow> rp_pairs (pair_runs xs ys) = [] \<longleftrightarrow> xs = []"
  using paired_specs_set [of xs ys] by (auto simp: pairs_when_no_issue issues_none same_specs_def)

section \<open>Exact work\<close>

lemma valid_matches:
  assumes "run_passed b" "run_passed c" "run_spec b = run_spec c"
  shows "workload_matches b c"
  using assms
  by (auto simp: run_passed_def is_ok_iff validate_run_def validate_result_def run_spec_def workload_matches_def
      Let_def checked_iff)

lemma judge_exact:
  "cv_exact (judge_comparison baseline comparison) \<longleftrightarrow>
     rp_pairs (pair_runs (cs_runs baseline) (cs_runs comparison)) \<noteq> [] \<and>
     rp_issues (pair_runs (cs_runs baseline) (cs_runs comparison)) = [] \<and>
     list_all pr_workload_matches (rp_pairs (pair_runs (cs_runs baseline) (cs_runs comparison))) \<and>
     cs_failures baseline = [] \<and> cs_failures comparison = [] \<and>
     list_all (\<lambda>pair. run_passed (pr_baseline pair) \<and> run_passed (pr_comparison pair))
       (rp_pairs (pair_runs (cs_runs baseline) (cs_runs comparison)))"
  by (auto simp: judge_comparison_def Let_def run_passed_def)

lemma exact_iff:
  "cv_exact (judge_comparison baseline comparison) \<longleftrightarrow>
     cs_failures baseline = [] \<and> cs_failures comparison = [] \<and> cs_runs baseline \<noteq> [] \<and>
     same_specs (cs_runs baseline) (cs_runs comparison) \<and>
     list_all run_passed (cs_runs baseline @ cs_runs comparison)"
  (is "?l \<longleftrightarrow> ?r")
proof
  let ?xs = "cs_runs baseline" and ?ys = "cs_runs comparison"
  {
    assume ?l
    then have j: "rp_pairs (pair_runs ?xs ?ys) \<noteq> []" "rp_issues (pair_runs ?xs ?ys) = []"
      "cs_failures baseline = []" "cs_failures comparison = []"
      "list_all (\<lambda>pair. run_passed (pr_baseline pair) \<and> run_passed (pr_comparison pair)) (rp_pairs (pair_runs ?xs ?ys))"
      unfolding judge_exact by auto
    then show ?r using all_pairs [OF j(2), of run_passed] no_pairs [OF j(2)] issues_none [of ?xs ?ys] by simp
  next
    assume r: ?r
    then have no: "rp_issues (pair_runs ?xs ?ys) = []"
      using valid_matches by (auto simp: issues_none list_all_iff)
    then have "list_all pr_workload_matches (rp_pairs (pair_runs ?xs ?ys))"
      by (simp add: pairs_when_no_issue list_all_iff)
    then show ?l unfolding judge_exact using r no all_pairs [OF no, of run_passed] no_pairs [OF no] by simp
  }
qed

text \<open>
  A comparison is called exact exactly when no input failed to load, there is a baseline run, every scenario
  occurs once on each side, and every run passes the validation of its own result: the workload contracts of
  paired runs then agree without a further check.
\<close>

theorem comparison_exact_iff:
  "cv_exact (judge_comparison baseline comparison) \<longleftrightarrow>
     cs_failures baseline = [] \<and> cs_failures comparison = [] \<and> cs_runs baseline \<noteq> [] \<and>
     distinct (map run_spec (cs_runs baseline)) \<and>
     mset (map run_spec (cs_runs baseline)) = mset (map run_spec (cs_runs comparison)) \<and>
     list_all run_passed (cs_runs baseline @ cs_runs comparison)"
  using exact_iff unfolding same_specs_def by blast

section \<open>Revisions and performance\<close>

definition carries :: "string \<Rightarrow> run_data list \<Rightarrow> bool" where
  "carries revision runs \<longleftrightarrow> runs \<noteq> [] \<and> list_all (\<lambda>run. run_revision run = Some revision) runs"

lemma present_revisions:
  "set (List.map_filter run_revision runs) = {r. \<exists>run \<in> set runs. run_revision run = Some r}"
  by (induction runs) (auto simp: map_filter_simps split: option.splits)

lemma remdups_single: "remdups xs = [x] \<longleftrightarrow> set xs = {x}"
proof
  assume "set xs = {x}"
  then have "set (remdups xs) = {x}" "length (remdups xs) = 1"
    using distinct_card [of "remdups xs"] by auto
  then show "remdups xs = [x]" by (cases "remdups xs") auto
qed (metis list.simps(15) list.set(1) set_remdups)

lemma carries_iff: "carries revision runs \<longleftrightarrow> revision_set runs = [revision] \<and> \<not> revision_missing runs"
proof -
  have "runs \<noteq> [] \<and> (\<forall>run \<in> set runs. run_revision run = Some revision) \<longleftrightarrow>
      {r. \<exists>run \<in> set runs. run_revision run = Some r} = {revision} \<and> \<not> (\<exists>run \<in> set runs. run_revision run = None)"
    (is "?l \<longleftrightarrow> ?r")
  proof
    assume l: ?l
    then obtain run where "run \<in> set runs" using hd_in_set by blast
    then show ?r using l by fastforce
  next
    assume r: ?r
    then have "run_revision run = Some revision" if "run \<in> set runs" for run
      using that by (cases "run_revision run") (auto simp: set_eq_iff)
    then have "\<forall>run \<in> set runs. run_revision run = Some revision" by blast
    then show ?l using r by fastforce
  qed
  then show ?thesis
    by (simp add: carries_def revision_set_def revision_missing_def remdups_single present_revisions list_all_iff
        list_ex_iff)
qed

lemma side_revision_valid:
  "rv_valid (side_revision runs) \<and> rv_label (side_revision runs) = revision \<longleftrightarrow>
     carries revision runs \<and> valid_revision revision"
  unfolding carries_iff by (auto simp: side_revision_def split: list.splits bool.splits)

definition well_measured :: "run_data \<Rightarrow> bool" where
  "well_measured run \<longleftrightarrow> pacing_valid (rd_result run) \<and> telemetry_complete (side_telemetry run)"

lemma judge_performance:
  "cv_performance_valid (judge_comparison baseline comparison) \<longleftrightarrow>
     cv_revisions_valid (judge_comparison baseline comparison) \<and> cv_exact (judge_comparison baseline comparison) \<and>
     list_all pair_performance_valid (rp_pairs (pair_runs (cs_runs baseline) (cs_runs comparison)))"
  by (simp add: judge_comparison_def Let_def)

lemma revisions_valid_iff:
  "cv_revisions_valid (judge_comparison baseline comparison) \<longleftrightarrow>
     (\<exists>r r'. r \<noteq> r' \<and> valid_revision r \<and> valid_revision r' \<and> carries r (cs_runs baseline) \<and>
       carries r' (cs_runs comparison))"
proof -
  have "cv_revisions_valid (judge_comparison baseline comparison) \<longleftrightarrow>
      (\<exists>r r'. r \<noteq> r' \<and> (rv_valid (side_revision (cs_runs baseline)) \<and> rv_label (side_revision (cs_runs baseline)) = r) \<and>
        (rv_valid (side_revision (cs_runs comparison)) \<and> rv_label (side_revision (cs_runs comparison)) = r'))"
    by (auto simp: judge_comparison_def Let_def)
  then show ?thesis unfolding side_revision_valid by blast
qed

text \<open>
  C28: Performance is called comparable exactly when the comparison is exact, all baseline runs carry one full
  revision, all comparison runs carry another, and every run of both sides kept its pace and has complete
  telemetry.
\<close>

theorem comparison_performance_iff:
  "cv_performance_valid (judge_comparison baseline comparison) \<longleftrightarrow>
     cv_exact (judge_comparison baseline comparison) \<and>
     (\<exists>r r'. r \<noteq> r' \<and> valid_revision r \<and> valid_revision r' \<and> carries r (cs_runs baseline) \<and>
       carries r' (cs_runs comparison)) \<and>
     list_all (\<lambda>run. pacing_valid (rd_result run) \<and> telemetry_complete (side_telemetry run))
       (cs_runs baseline @ cs_runs comparison)"
proof -
  have "list_all pair_performance_valid (rp_pairs (pair_runs (cs_runs baseline) (cs_runs comparison))) \<longleftrightarrow>
      list_all well_measured (cs_runs baseline @ cs_runs comparison)"
    if "cv_exact (judge_comparison baseline comparison)"
  proof -
    have no: "rp_issues (pair_runs (cs_runs baseline) (cs_runs comparison)) = []"
      "list_all pr_workload_matches (rp_pairs (pair_runs (cs_runs baseline) (cs_runs comparison)))"
      using that unfolding judge_exact by auto
    show ?thesis unfolding all_pairs [OF no(1), symmetric]
      using no(2) by (auto simp: list_all_iff pair_performance_valid_def well_measured_def)
  qed
  then show ?thesis unfolding judge_performance revisions_valid_iff well_measured_def [abs_def] by blast
qed

section \<open>Every run in one pair\<close>

lemma smoke_key_inj:
  assumes "plan (Smoke a b) = Inr p" "plan (Smoke c d) = Inr q" "scenario_key (Smoke a b) = scenario_key (Smoke c d)"
  shows "a = c \<and> b = d"
proof -
  have ac: "a = c" and e: "wp_expected_deliveries p = wp_expected_deliveries q"
    using assms by (auto simp: scenario_key_def Let_def)
  have "is_audio_plan 1 (unat a + 1) 1 (unat b) p" "is_audio_plan 1 (unat c + 1) 1 (unat d) q"
    using assms(1,2) smoke_plan_values by auto
  then have "unat a * unat b = unat c * unat d" using e by (auto simp: is_audio_plan_def)
  moreover have "a \<noteq> 0" using assms(1) by (auto simp: smoke_plan_def new_plan_def checked_iff u64_from_def Let_def)
  ultimately show ?thesis using ac by (simp add: word_eq_unat_iff)
qed

lemma scenario_key_inj:
  "plan a = Inr p \<Longrightarrow> plan b = Inr q \<Longrightarrow> scenario_key a = scenario_key b \<Longrightarrow> a = b"
proof (cases a; cases b)
  fix r k r' k'
  assume "plan a = Inr p" "plan b = Inr q" "scenario_key a = scenario_key b" "a = Smoke r k" "b = Smoke r' k'"
  then show "a = b" using smoke_key_inj by blast
qed (auto simp: scenario_key_def Let_def)

lemma passed_plan: "run_passed run \<Longrightarrow> \<exists>p. plan (run_spec run) = Inr p"
  by (auto simp: run_passed_def is_ok_iff validate_run_def validate_result_def run_spec_def checked_iff)

lemma sorted_adj_distinct:
  "sorted (map f xs) \<Longrightarrow> inj_on f (set xs) \<Longrightarrow> distinct (remdups_adj xs)"
proof (induction xs rule: remdups_adj.induct)
  case (3 x y xs)
  then have "distinct (remdups_adj (y # xs))" by (auto simp: inj_on_def split: if_splits)
  moreover have "x \<notin> set (y # xs)" if "x \<noteq> y"
  proof
    assume "x \<in> set (y # xs)"
    then have "x \<in> set xs" using that by simp
    then have "f y \<le> f x" "f x \<le> f y" using 3(3) by auto
    then have "f x = f y" by simp
    then show False using 3(4) that by (simp add: inj_on_def)
  qed
  ultimately show ?case by auto
qed simp_all

lemma sorted_remdups_adj_key: "sorted (map f xs) \<Longrightarrow> sorted (map f (remdups_adj xs))"
  by (induction xs rule: remdups_adj.induct) auto

lemma the_run_specs:
  assumes "distinct (map run_spec runs)" "distinct specs" "set specs = run_spec ` set runs"
  shows "mset (map (the_run runs) specs) = mset runs"
proof -
  have "mset specs = mset (map run_spec runs)"
    using assms by (metis set_eq_iff_mset_eq_distinct set_map)
  then have "mset (map (the_run runs) specs) = mset (map (the_run runs) (map run_spec runs))"
    by (metis mset_map)
  also have "map (the_run runs) (map run_spec runs) = runs"
    using distinct_the [OF assms(1)] by (simp add: map_idI)
  finally show ?thesis .
qed

lemma exact_pairs:
  assumes "cv_exact (judge_comparison baseline comparison)"
  shows "mset (map pr_baseline (rp_pairs (pair_runs (cs_runs baseline) (cs_runs comparison)))) = mset (cs_runs baseline)"
    "mset (map pr_comparison (rp_pairs (pair_runs (cs_runs baseline) (cs_runs comparison)))) = mset (cs_runs comparison)"
    "sorted (map (\<lambda>pair. scenario_key (run_spec (pr_baseline pair)))
      (rp_pairs (pair_runs (cs_runs baseline) (cs_runs comparison))))"
proof -
  let ?xs = "cs_runs baseline" and ?ys = "cs_runs comparison"
  let ?specs = "paired_specs ?xs ?ys"
  have no: "rp_issues (pair_runs ?xs ?ys) = []" using assms unfolding judge_exact by simp
  have d: "distinct (map run_spec ?xs)" "distinct (map run_spec ?ys)" "run_spec ` set ?xs = run_spec ` set ?ys"
    and passed: "\<forall>run \<in> set (?xs @ ?ys). run_passed run"
    using assms unfolding exact_iff same_specs_iff list_all_iff by auto
  have S: "set ?specs = run_spec ` set ?xs" "set ?specs = run_spec ` set ?ys"
    using d(3) by (auto simp: paired_specs_set image_Un)
  have sorted: "sorted (map scenario_key ?specs)"
    unfolding paired_specs_def by (intro sorted_remdups_adj_key) simp
  have "inj_on scenario_key (run_spec ` set (?xs @ ?ys))"
    using passed_plan passed scenario_key_inj by (intro inj_onI) (metis imageE)
  then have distinct: "distinct ?specs"
    unfolding paired_specs_def by (intro sorted_adj_distinct [of scenario_key]) (auto simp: image_Un)
  note pairs = pairs_when_no_issue [OF no]
  show "mset (map pr_baseline (rp_pairs (pair_runs ?xs ?ys))) = mset ?xs"
    using the_run_specs [OF d(1) distinct S(1)] by (simp add: pairs comp_def)
  show "mset (map pr_comparison (rp_pairs (pair_runs ?xs ?ys))) = mset ?ys"
    using the_run_specs [OF d(2) distinct S(2)] by (simp add: pairs comp_def)
  have "run_spec (the_run ?xs s) = s" if "s \<in> set ?specs" for s
    using that distinct_the [OF d(1)] unfolding S(1) by auto
  then have keys: "map (\<lambda>pair. scenario_key (run_spec (pr_baseline pair))) (rp_pairs (pair_runs ?xs ?ys)) =
      map scenario_key ?specs"
    by (simp add: pairs)
  show "sorted (map (\<lambda>pair. scenario_key (run_spec (pr_baseline pair))) (rp_pairs (pair_runs ?xs ?ys)))"
    unfolding keys by (rule sorted)
qed

text \<open>
  In an exact comparison every baseline run and every comparison run stands in one pair, the two runs of a
  pair are of the same scenario, and the pairs are in the order of the scenario keys.
\<close>

theorem comparison_pairs_once:
  assumes "cv_exact (judge_comparison baseline comparison)"
  shows "mset (map pr_baseline (rp_pairs (pair_runs (cs_runs baseline) (cs_runs comparison)))) = mset (cs_runs baseline) \<and>
    mset (map pr_comparison (rp_pairs (pair_runs (cs_runs baseline) (cs_runs comparison)))) = mset (cs_runs comparison) \<and>
    map (run_spec \<circ> pr_baseline) (rp_pairs (pair_runs (cs_runs baseline) (cs_runs comparison))) =
      map (run_spec \<circ> pr_comparison) (rp_pairs (pair_runs (cs_runs baseline) (cs_runs comparison))) \<and>
    sorted (map (\<lambda>pair. scenario_key (run_spec (pr_baseline pair)))
      (rp_pairs (pair_runs (cs_runs baseline) (cs_runs comparison))))"
proof -
  let ?pairs = "rp_pairs (pair_runs (cs_runs baseline) (cs_runs comparison))"
  have "run_spec (pr_baseline pair) = run_spec (pr_comparison pair)" if "pair \<in> set ?pairs" for pair
    using that pair_spec_matches only_run_mem by (fastforce simp: pair_runs_def Let_def)
  then have "map (run_spec \<circ> pr_baseline) ?pairs = map (run_spec \<circ> pr_comparison) ?pairs" by simp
  then show ?thesis using exact_pairs [OF assms] by simp
qed

section \<open>An example\<close>

definition example_result :: "string \<Rightarrow> scenario_result" where
  "example_result revision =
     \<lparr>res_schema_version = 4, res_profile = ''opus-fanout-smoke-v3'', res_o_sfu_revision = Some revision,
      res_scenario = Smoke 1 1, res_server_policy = policy_for_scenario (Smoke 1 1),
      res_plan = \<lparr>wp_streams = 1, wp_routes = 1, wp_offered_packets = 1, wp_offered_payload_bytes = 80,
        wp_expected_deliveries = 1, wp_expected_delivery_payload_bytes = 80\<rparr>,
      res_offered_packets = 1, res_offered_payload_bytes = 80, res_delivered_packets = 1,
      res_delivered_payload_bytes = 80, res_correctness = no_correctness, res_elapsed_ms = 20,
      res_max_send_lag_ms = 3\<rparr>"

definition example_run :: "string \<Rightarrow> run_data" where
  "example_run revision = \<lparr>rd_source = revision, rd_result = example_result revision, rd_samples = None\<rparr>"

definition example_side :: "string \<Rightarrow> comparison_side" where
  "example_side revision = \<lparr>cs_runs = [example_run revision], cs_failures = []\<rparr>"

lemma example_plan: "plan (Smoke 1 1) = Inr (res_plan (example_result revision))"
  by (simp add: smoke_plan_def example_result_def plan_mul_def checked_mul_def new_plan_def byte_count_def try_to_def
      u64_from_def model_consts Let_def)

lemma example_passed: "run_passed (example_run revision)"
proof -
  have "validate_spec (Smoke 1 1) = Inr ()" by (simp add: smoke_def)
  then show ?thesis using example_plan [of revision]
    by (simp add: run_passed_def validate_run_def validate_result_def example_run_def example_result_def
        model_consts discrepancy_count_def no_correctness_def)
qed

lemma example_exact: "cv_exact (judge_comparison (example_side a) (example_side b))"
  unfolding exact_iff using example_passed
  by (simp add: example_side_def same_specs_def run_spec_def example_run_def example_result_def)

theorem comparison_pairs_once_witness:
  "mset (map pr_comparison (rp_pairs (pair_runs [example_run ''a''] [example_run ''b'']))) = {#example_run ''b''#}"
  using comparison_pairs_once [OF example_exact, of "''a''" "''b''"] by (simp add: example_side_def)

section \<open>Deltas\<close>

lemma unat_percentage:
  "unat (ucast magnitude * (1000 :: u128) div ucast baseline) = unat (magnitude :: u64) * 1000 div unat (baseline :: u64)"
proof -
  have "unat magnitude * 1000 < 2 ^ 128" using unat_less_2p [of magnitude] by simp
  then have "unat (ucast magnitude * (1000 :: u128)) = unat magnitude * 1000"
    by (simp add: unat_word_ariths)
  then show ?thesis by (simp add: unat_div)
qed

lemma percentage_delta_values:
  "percentage_delta b m = (if b = 0 then None else Some (clamp_to (unat m * 1000 div unat b)))"
  by (simp only: percentage_delta_def unat_percentage)

text \<open>
  The relative change in a comparison is the exact quotient of the change by the baseline, in tenths of a
  percent rounded down and capped at the largest 64-bit value; it is absent exactly for a zero baseline, and
  never wraps.
\<close>

theorem percentage_delta_exact:
  "map_option unat (percentage_delta baseline magnitude) =
     (if baseline = 0 then None else Some (min (1000 * unat magnitude div unat baseline) (2 ^ 64 - 1)))"
  by (simp add: percentage_delta_values unat_clamp_to mult.commute)

end
