(* ===== verification/Profile.thy ===== *)
theory Profile
  imports RunInputs
begin

text \<open>
  The CPU profile of \<open>src/profile/report.rs\<close>: folded stacks are added up line by line into sample counts per
  stack, leaf, thread and frame, and the counts are ranked and rendered. A count map is a list of entries
  in the order of its keys, as a \<open>BTreeMap\<close> iterates. A line adds to several counts one after the
  other, each addition checked, so the state after an error is part of the model.
\<close>

definition MAX_DIAGNOSTICS :: nat where "MAX_DIAGNOSTICS = 8"
definition MAX_FOLDED_LINES :: nat where "MAX_FOLDED_LINES = 1000000"
definition MAX_HOT_STACKS :: nat where "MAX_HOT_STACKS = 10"
definition MAX_ROWS :: nat where "MAX_ROWS = 15"

type_synonym counts = "(string \<times> u64) list"

record folded_profile =
  fp_total_samples :: u64
  fp_stack_samples :: counts
  fp_self_samples :: counts
  fp_inclusive_samples :: counts
  fp_thread_samples :: counts
  fp_kernel_samples :: u64
  fp_unresolved_leaf_samples :: u64
  fp_unresolved_stack_samples :: u64
  fp_malformed_lines :: nat
  fp_diagnostics :: "string list"

definition empty_profile :: folded_profile where
  "empty_profile =
     \<lparr>fp_total_samples = 0, fp_stack_samples = [], fp_self_samples = [], fp_inclusive_samples = [],
      fp_thread_samples = [], fp_kernel_samples = 0, fp_unresolved_leaf_samples = 0,
      fp_unresolved_stack_samples = 0, fp_malformed_lines = 0, fp_diagnostics = []\<rparr>"

section \<open>Adding a line\<close>

fun add_count :: "counts \<Rightarrow> string \<Rightarrow> u64 \<Rightarrow> counts result" where
  "add_count [] label count = Inr [(label, count)]"
| "add_count ((key, n) # entries) label count =
     (if label < key then Inr ((label, count) # (key, n) # entries)
      else if label = key then
        bind_ok (ok_or ''sample count overflowed'' (checked_add n count)) (\<lambda>m. Inr ((key, m) # entries))
      else bind_ok (add_count entries label count) (\<lambda>rest. Inr ((key, n) # rest)))"

definition unresolved :: "string \<Rightarrow> bool" where
  "unresolved frame \<longleftrightarrow>
     contains_str ''[unknown]'' frame \<or> starts_with ''0x'' frame \<or>
     (starts_with ''['' frame \<and> contains_str '' <'' frame)"

definition informative_inclusive_frame :: "string \<Rightarrow> bool" where
  "informative_inclusive_frame frame \<longleftrightarrow>
     \<not> unresolved frame \<and>
     frame \<notin> {''<std::sys::thread::unix::Thread>::new::thread_start'',
       ''core::ops::function::FnOnce::call_once{{vtable.shim}}'',
       ''std::sys::backtrace::__rust_begin_short_backtrace''}"

text \<open>The updates of a line run in order until one fails.\<close>

fun run_updates ::
  "(folded_profile \<Rightarrow> folded_profile result) list \<Rightarrow> folded_profile \<Rightarrow> unit result \<times> folded_profile" where
  "run_updates [] p = (Inr (), p)"
| "run_updates (u # us) p = (case u p of Inl e \<Rightarrow> (Inl e, p) | Inr p' \<Rightarrow> run_updates us p')"

definition add_total :: "u64 \<Rightarrow> folded_profile \<Rightarrow> folded_profile result" where
  "add_total count p =
     bind_ok (ok_or ''total sample count overflowed'' (checked_add (fp_total_samples p) count)) (\<lambda>n.
     Inr (p\<lparr>fp_total_samples := n\<rparr>))"

definition add_stack :: "string \<Rightarrow> u64 \<Rightarrow> folded_profile \<Rightarrow> folded_profile result" where
  "add_stack stack count p =
     bind_ok (add_count (fp_stack_samples p) stack count) (\<lambda>c. Inr (p\<lparr>fp_stack_samples := c\<rparr>))"

definition add_self :: "string \<Rightarrow> u64 \<Rightarrow> folded_profile \<Rightarrow> folded_profile result" where
  "add_self leaf count p =
     bind_ok (add_count (fp_self_samples p) leaf count) (\<lambda>c. Inr (p\<lparr>fp_self_samples := c\<rparr>))"

definition add_thread :: "string \<Rightarrow> u64 \<Rightarrow> folded_profile \<Rightarrow> folded_profile result" where
  "add_thread thread count p =
     bind_ok (add_count (fp_thread_samples p) thread count) (\<lambda>c. Inr (p\<lparr>fp_thread_samples := c\<rparr>))"

definition add_inclusive :: "u64 \<Rightarrow> string \<Rightarrow> folded_profile \<Rightarrow> folded_profile result" where
  "add_inclusive count frame p =
     bind_ok (add_count (fp_inclusive_samples p) frame count) (\<lambda>c. Inr (p\<lparr>fp_inclusive_samples := c\<rparr>))"

definition add_kernel :: "string \<Rightarrow> u64 \<Rightarrow> folded_profile \<Rightarrow> folded_profile result" where
  "add_kernel leaf count p =
     (if ends_with ''_[k]'' leaf then
        bind_ok (ok_or ''kernel sample count overflowed'' (checked_add (fp_kernel_samples p) count)) (\<lambda>n.
        Inr (p\<lparr>fp_kernel_samples := n\<rparr>))
      else Inr p)"

definition add_unresolved_leaf :: "string \<Rightarrow> u64 \<Rightarrow> folded_profile \<Rightarrow> folded_profile result" where
  "add_unresolved_leaf leaf count p =
     (if unresolved leaf then
        bind_ok (ok_or ''unresolved leaf sample count overflowed'' (checked_add (fp_unresolved_leaf_samples p) count))
          (\<lambda>n. Inr (p\<lparr>fp_unresolved_leaf_samples := n\<rparr>))
      else Inr p)"

definition add_unresolved_stack :: "string list \<Rightarrow> u64 \<Rightarrow> folded_profile \<Rightarrow> folded_profile result" where
  "add_unresolved_stack frames count p =
     (if list_ex unresolved frames then
        bind_ok (ok_or ''unresolved stack sample count overflowed'' (checked_add (fp_unresolved_stack_samples p) count))
          (\<lambda>n. Inr (p\<lparr>fp_unresolved_stack_samples := n\<rparr>))
      else Inr p)"

text \<open>The frames of a stack, and the distinct frames its inclusive counts go to, without the thread root.\<close>

definition stack_frames :: "string \<Rightarrow> string list" where
  "stack_frames stack = filter (\<lambda>frame. frame \<noteq> []) (split_char (CHR '';'') stack)"

definition inclusive_frames :: "string list \<Rightarrow> string list" where
  "inclusive_frames frames = sort (remdups (drop (if length frames > 1 then 1 else 0) frames))"

text \<open>The stack, its frames and the count of a line.\<close>

definition parse_folded :: "string \<Rightarrow> (string \<times> string list \<times> u64) result" where
  "parse_folded text =
     bind_ok (ok_or ''missing sample count'' (rsplit_once (CHR '' '') text)) (\<lambda>(stack, digits).
     bind_ok (with_context ''sample count is not an integer'' (parse_u64 digits)) (\<lambda>count.
     ensure (count > 0) ''sample count must be positive'' (
     let frames = stack_frames stack in
     if frames = [] then err ''stack contains no frames'' else Inr (stack, frames, count))))"

definition line_updates :: "string \<times> string list \<times> u64 \<Rightarrow> (folded_profile \<Rightarrow> folded_profile result) list" where
  "line_updates x =
     (case x of (stack, frames, count) \<Rightarrow>
        [add_total count, add_stack stack count, add_self (last frames) count, add_thread (hd frames) count]
          @ map (add_inclusive count) (inclusive_frames frames)
          @ [add_kernel (last frames) count, add_unresolved_leaf (last frames) count,
             add_unresolved_stack frames count])"

definition add_line :: "string \<Rightarrow> folded_profile \<Rightarrow> unit result \<times> folded_profile" where
  "add_line text p = (case parse_folded text of Inl e \<Rightarrow> (Inl e, p) | Inr x \<Rightarrow> run_updates (line_updates x) p)"

section \<open>Parsing a profile\<close>

text \<open>\<open>{error}\<close> shows the outermost message only; the count of malformed lines cannot reach \<open>usize::MAX\<close>.\<close>

fun outer_error :: "anyhow_error \<Rightarrow> string" where
  "outer_error (Anyhow chain) = (case chain of [] \<Rightarrow> [] | msg # _ \<Rightarrow> msg)"

definition count_malformed :: "nat \<Rightarrow> anyhow_error \<Rightarrow> folded_profile \<Rightarrow> folded_profile" where
  "count_malformed line_index e p =
     p\<lparr>fp_malformed_lines := fp_malformed_lines p + 1,
       fp_diagnostics := (if length (fp_diagnostics p) < MAX_DIAGNOSTICS
         then fp_diagnostics p @ [''line '' @ show_nat (line_index + 1) @ '': '' @ outer_error e]
         else fp_diagnostics p)\<rparr>"

definition folded_line :: "nat \<Rightarrow> string \<Rightarrow> folded_profile \<Rightarrow> folded_profile" where
  "folded_line line_index text p =
     (let text = trim text in
      if text = [] then p
      else (case add_line text p of
              (Inl e, p') \<Rightarrow> count_malformed line_index e p'
            | (Inr _, p') \<Rightarrow> p'))"

fun parse_folded_lines :: "nat \<Rightarrow> string list \<Rightarrow> folded_profile \<Rightarrow> folded_profile result" where
  "parse_folded_lines line_index [] p = Inr p"
| "parse_folded_lines line_index (text # texts) p =
     (if MAX_FOLDED_LINES \<le> line_index
      then err (''folded profile exceeds its '' @ show_nat MAX_FOLDED_LINES @ '' line limit'')
      else parse_folded_lines (line_index + 1) texts (folded_line line_index text p))"

definition parse_profile :: "string \<Rightarrow> folded_profile result" where
  "parse_profile payload = parse_folded_lines 0 (lines_of payload) empty_profile"

section \<open>Rankings\<close>

text \<open>\<open>sort_unstable_by\<close> with a comparison no two entries are equal in: larger counts first, then labels.\<close>

definition rank_key :: "string \<times> u64 \<Rightarrow> u64 \<times> string" where
  "rank_key entry = (- 1 - snd entry, fst entry)"

definition ranked :: "counts \<Rightarrow> nat \<Rightarrow> counts" where
  "ranked entries limit = take limit (sort_key rank_key entries)"

definition format_percent :: "u64 \<Rightarrow> u64 \<Rightarrow> string" where
  "format_percent count all_samples =
     (if all_samples = 0 then ''n/a''
      else
        let basis_points = ucast count * (10000 :: u128) div ucast all_samples in
        show_word (basis_points div 100) @ ''.'' @ pad_zero 2 (show_word (basis_points mod 100)) @ ''%'')"

definition format_count_percent :: "u64 \<Rightarrow> u64 \<Rightarrow> string" where
  "format_count_percent count all_samples = grouped count @ '' ('' @ format_percent count all_samples @ '')''"

definition format_duration :: "u64 \<Rightarrow> string" where
  "format_duration duration_ms =
     (if duration_ms < 1000 then show_word duration_ms @ '' ms''
      else show_word (duration_ms div 1000) @ ''.'' @ pad_zero 3 (show_word (duration_ms mod 1000)) @ '' s'')"

text \<open>The sum of the rows shown, and the count of the remaining entries of a partition.\<close>

definition shown_samples :: "counts \<Rightarrow> u64" where
  "shown_samples rows = fold (\<lambda>(_, count) n. saturating_add n count) rows 0"

definition remaining_samples :: "counts \<Rightarrow> u64 \<Rightarrow> nat \<Rightarrow> bool \<Rightarrow> u64 option" where
  "remaining_samples entries all_samples limit is_partition =
     (let shown = shown_samples (ranked entries limit) in
      if is_partition \<and> shown < all_samples then Some (all_samples - shown) else None)"

section \<open>Stack paths\<close>

definition OMITTED :: string where "OMITTED = ''... -> ''"

text \<open>
  The loop from the leaf towards the root: the frames kept, in stack order, and their length. Characters are
  counted as code points.
\<close>

fun keep_frames :: "nat \<Rightarrow> string list \<Rightarrow> nat \<Rightarrow> string list \<Rightarrow> string list" where
  "keep_frames available [] len kept = kept"
| "keep_frames available (frame # frames) len kept =
     (let separator = (if kept = [] then 0 else 4);
          next_length = len + separator + chars_count frame in
      if available < next_length then kept
      else keep_frames available frames next_length (frame # kept))"

text \<open>\<open>chars().take(n)\<close>: a code point ends before the next byte that does not continue it.\<close>

fun take_chars :: "nat \<Rightarrow> string \<Rightarrow> string" where
  "take_chars n [] = []"
| "take_chars n (c # cs) =
     (if is_continuation c then c # take_chars n cs
      else case n of 0 \<Rightarrow> [] | Suc m \<Rightarrow> c # take_chars m cs)"

definition display_stack :: "string \<Rightarrow> nat \<Rightarrow> string \<times> string" where
  "display_stack stack max_chars =
     (let parts = split_char (CHR '';'') stack; thread = hd parts; frames = tl parts;
          full = join_with '' -> '' frames in
      if chars_count full \<le> max_chars then (thread, full)
      else
        let available = max_chars - length OMITTED; kept = keep_frames available (rev frames) 0 [] in
        if kept = [] then
          (thread, OMITTED @ take_chars available (if frames = [] then ''n/a'' else last frames))
        else (thread, OMITTED @ join_with '' -> '' kept))"

end
