(* ===== verification/Controller.thy ===== *)
theory Controller
  imports Scenario
begin

text \<open>
  The run controller of \<open>src/controller.rs\<close>: it clears stale artifacts, starts the server and polls it
  until it is ready, runs the RTC worker beside the telemetry sampler and the phase stream, reads and
  validates the result, and stops the server. Files, processes, sockets, the clock and the spawned tasks
  answer through a record of functions of the history of effects; a \<open>select!\<close> is an answer that says
  which branch completed. Children are spawned with \<open>kill_on_drop\<close>, so an early return that drops one
  has it killed by tokio; that is not an effect of the code and not one of the history.
\<close>

definition STARTUP_TIMEOUT :: duration where "STARTUP_TIMEOUT = from_secs 20"
definition STARTUP_ATTEMPTS :: nat where "STARTUP_ATTEMPTS = 3"
definition READINESS_REQUEST_TIMEOUT :: duration where "READINESS_REQUEST_TIMEOUT = from_secs 1"
definition SHUTDOWN_TIMEOUT :: duration where "SHUTDOWN_TIMEOUT = from_secs 15"
definition READINESS_POLL_INTERVAL :: duration where "READINESS_POLL_INTERVAL = from_millis 100"
definition SETUP_ROUND_TIMEOUT :: duration where "SETUP_ROUND_TIMEOUT = from_secs 20"
definition RTC_WORKER_OVERHEAD :: duration where "RTC_WORKER_OVERHEAD = from_secs 40"

record run_config =
  server_binary :: fs_path
  rtc_binary :: fs_path
  output_directory :: fs_path
  server_cpus :: "string option"
  rtc_cpus :: "string option"
  profile_server :: bool
  config_spec :: scenario_spec

text \<open>An \<open>ExitStatus\<close>: whether it is a success, and how it is shown.\<close>

datatype exit_status = ExitStatus (status_success: bool) (show_status: string)

text \<open>A process to start: the program, its arguments and the variables added to its environment.\<close>

record child_command =
  cmd_program :: string
  cmd_args :: "string list"
  cmd_env :: "(string \<times> string) list"

datatype rtc_wait_outcome = WorkerCompleted | ServerExitedEarly exit_status | PhaseFailed
datatype rtc_worker_completion = CompletedWork | ServerGone exit_status

text \<open>The branch of a \<open>select!\<close> over the RTC worker that completed, with what its future returned.\<close>

datatype rtc_event =
    RtcExited "exit_status result"
  | ServerExitSeen "exit_status result"
  | DeadlineElapsed
  | SignalReceived bool
  | PhaseErrorSent

datatype controller_effect =
    CreateDirAll string | RemoveFile string | WriteFile string string | ReadFile string | CreateFile string
  | InstallHandler string
  | BindPort | LocalPort
  | SpawnServer child_command | TryWaitServer | ServerId | SendTerm u32 | WaitServer duration | KillServer
  | BuildReadinessClient | ClockReading | GetNoop string | SleepFor duration
  | SpawnRtc child_command | TakePipe | RtcId | TryWaitRtc | KillRtc | SelectRtc duration
  | StartSampler string u32 u32 string | FinishSampler
  | SpawnPhaseTask | JoinPhaseTask duration | AbortPhaseTask
  | StartProfiler u32 | FinishProfiler

datatype removal = Removed | AlreadyGone | RemoveFailed anyhow_error

record controller_world =
  performed :: "controller_effect list \<Rightarrow> controller_effect \<Rightarrow> unit result"
  removal_of :: "controller_effect list \<Rightarrow> controller_effect \<Rightarrow> removal"
  file_content :: "controller_effect list \<Rightarrow> controller_effect \<Rightarrow> string result"
  local_port :: "controller_effect list \<Rightarrow> controller_effect \<Rightarrow> u16 result"
  exit_seen :: "controller_effect list \<Rightarrow> controller_effect \<Rightarrow> exit_status option result"
  exit_within :: "controller_effect list \<Rightarrow> controller_effect \<Rightarrow> exit_status result option"
  term_status :: "controller_effect list \<Rightarrow> controller_effect \<Rightarrow> exit_status result"
  child_id :: "controller_effect list \<Rightarrow> controller_effect \<Rightarrow> u32 option"
  noop_status :: "controller_effect list \<Rightarrow> controller_effect \<Rightarrow> u16 result"
  clock_at :: "controller_effect list \<Rightarrow> instant"
  signal_at :: "controller_effect list \<Rightarrow> bool option"
  pipe_taken :: "controller_effect list \<Rightarrow> controller_effect \<Rightarrow> unit option"
  rtc_event_at :: "controller_effect list \<Rightarrow> controller_effect \<Rightarrow> rtc_event"
  phases_joined :: "controller_effect list \<Rightarrow> controller_effect \<Rightarrow> unit result result option"
  spec_to_json :: "scenario_spec \<Rightarrow> string result"
  result_of_json :: "string \<Rightarrow> scenario_result result"
  noop_route :: string

definition perform :: "controller_world \<Rightarrow> controller_effect \<Rightarrow> (controller_effect, unit) act" where
  "perform w e = effect (performed w) e"

text \<open>An answer that cannot fail, and one that may be missing.\<close>

definition ask :: "(controller_effect list \<Rightarrow> controller_effect \<Rightarrow> 'a) \<Rightarrow> controller_effect
    \<Rightarrow> (controller_effect, 'a) act" where
  "ask reply e = effect (\<lambda>h e. Inr (reply h e)) e"

definition ask_or :: "string \<Rightarrow> (controller_effect list \<Rightarrow> controller_effect \<Rightarrow> 'a option) \<Rightarrow> controller_effect
    \<Rightarrow> (controller_effect, 'a) act" where
  "ask_or msg reply e = effect (\<lambda>h e. ok_or msg (reply h e)) e"

section \<open>Configuration and commands\<close>

definition validate_cpu_set :: "string option \<Rightarrow> unit result" where
  "validate_cpu_set cpu_set =
     (case cpu_set of
        None \<Rightarrow> Inr ()
      | Some cpus \<Rightarrow>
          ensure (cpus \<noteq> []) ''CPU set cannot be empty'' (
          ensure (list_all (\<lambda>c. is_ascii_digit c \<or> c \<in> {CHR '','', CHR ''-''}) cpus)
            ''CPU set must contain CPU numbers, commas and ranges'' (Inr ())))"

definition isolated_command :: "fs_path \<Rightarrow> string option \<Rightarrow> child_command" where
  "isolated_command binary cpu_set =
     (case cpu_set of
        None \<Rightarrow> \<lparr>cmd_program = show_path binary, cmd_args = [], cmd_env = []\<rparr>
      | Some cpus \<Rightarrow> \<lparr>cmd_program = ''taskset'', cmd_args = [''--cpu-list'', cpus, show_path binary], cmd_env = []\<rparr>)"

definition localhost :: string where "localhost = ''127.0.0.1''"

definition server_command :: "run_config \<Rightarrow> u16 \<Rightarrow> child_command" where
  "server_command c http_port =
     (let policy = policy_for_scenario (config_spec c) in
      (isolated_command (server_binary c) (server_cpus c))\<lparr>cmd_env :=
        [(''ANNOUNCED_IP'', localhost),
         (''AUTH_KEY'', AUTH_KEY),
         (''BIND_ADDRESS'', localhost @ '':'' @ show_word http_port),
         (''ROOM_SIZE'', show_word (room_size policy)),
         (''RTC_MEDIA_WORKER_COUNT'', show_word (media_workers policy)),
         (''MAX_PRE_AUTH_WEBSOCKET_SESSIONS_PER_ORIGIN'', show_word (max_pre_auth_websocket_sessions_per_origin policy)),
         (''ROOM_MAX_ACTIVE_AUDIO_SPEAKERS'', show_word (max_active_audio_speakers policy)),
         (''ROOM_MAX_VIDEO_DOWNLOADS_PER_RECEIVER'', show_word (max_video_downloads_per_receiver policy)),
         (''MAX_BITRATE_IN'', show_word (max_bitrate_in_bps policy)),
         (''MAX_BITRATE_OUT'', show_word (max_bitrate_out_bps policy)),
         (''RTC_MIN_PORT'', ''49152''),
         (''RTC_MAX_PORT'', ''65535''),
         (''RTC_UDP_IO_BACKEND'', ''tokio''),
         (''SHUTDOWN_TIMEOUT_MS'', ''10000'')]\<rparr>)"

definition artifact :: "run_config \<Rightarrow> string \<Rightarrow> string" where
  "artifact c name = show_path (join_path (output_directory c) [name])"

definition rtc_command :: "run_config \<Rightarrow> string \<Rightarrow> string \<Rightarrow> child_command" where
  "rtc_command c base_url websocket_url =
     (let command = isolated_command (rtc_binary c) (rtc_cpus c) in
      command\<lparr>cmd_args := cmd_args command @
        [''--base-url'', base_url, ''--websocket-url'', websocket_url,
         ''--output'', artifact c ''result.json'', ''--spec'', artifact c ''scenario.json'']\<rparr>)"

definition rtc_worker_deadline :: "scenario_spec \<Rightarrow> duration" where
  "rtc_worker_deadline spec =
     (let setup_rounds = saturating_add (saturating_add (ucast (audio_publishers_per_room spec))
            (ucast (video_publishers_per_room spec))) (1 :: u64);
          setup_seconds = saturating_mul setup_rounds (of_nat (SETUP_ROUND_TIMEOUT div 1000000000));
          media_seconds = (ucast (duration_seconds spec) :: u64) in
      dur_saturating_add (dur_saturating_add (from_secs (unat setup_seconds)) (from_secs (unat media_seconds)))
        RTC_WORKER_OVERHEAD)"

section \<open>Combining failures\<close>

definition both_failed :: "string \<Rightarrow> anyhow_error \<Rightarrow> string \<Rightarrow> anyhow_error \<Rightarrow> 'a result" where
  "both_failed first e second e' = err (first @ show_error e @ second @ show_error e')"

fun combine_run_and_profile :: "scenario_result result \<Rightarrow> unit result \<Rightarrow> scenario_result result" where
  "combine_run_and_profile (Inr r) (Inr _) = Inr r"
| "combine_run_and_profile (Inl e) (Inr _) = Inl e"
| "combine_run_and_profile (Inr _) (Inl e) = Inl e"
| "combine_run_and_profile (Inl e) (Inl e') = both_failed ''RTC work failed: '' e ''. profile shutdown also failed: '' e'"

fun combine_run_and_shutdown :: "scenario_result result \<Rightarrow> unit result \<Rightarrow> scenario_result result" where
  "combine_run_and_shutdown (Inr r) (Inr _) = Inr r"
| "combine_run_and_shutdown (Inl e) (Inr _) = Inl e"
| "combine_run_and_shutdown (Inr _) (Inl e) = Inl e"
| "combine_run_and_shutdown (Inl e) (Inl e') = both_failed ''load run failed: '' e ''. o-sfu shutdown also failed: '' e'"

fun combine_startup_and_shutdown :: "anyhow_error \<Rightarrow> unit result \<Rightarrow> (string \<times> string) result" where
  "combine_startup_and_shutdown e (Inr _) = Inl e"
| "combine_startup_and_shutdown e (Inl e') = both_failed ''o-sfu startup failed: '' e ''. shutdown also failed: '' e'"

fun combine_rtc_and_phases :: "rtc_wait_outcome result \<Rightarrow> unit result \<Rightarrow> rtc_worker_completion result" where
  "combine_rtc_and_phases (Inr (ServerExitedEarly status)) _ = Inr (ServerGone status)"
| "combine_rtc_and_phases (Inr WorkerCompleted) (Inr _) = Inr CompletedWork"
| "combine_rtc_and_phases (Inr WorkerCompleted) (Inl e) = Inl e"
| "combine_rtc_and_phases (Inr PhaseFailed) (Inl e) = Inl e"
| "combine_rtc_and_phases (Inl e) (Inr _) = Inl e"
| "combine_rtc_and_phases (Inr PhaseFailed) (Inr _) = err ''RTC phase stream failed without an error''"
| "combine_rtc_and_phases (Inl e) (Inl e') = both_failed ''RTC work failed: '' e ''. phase stream also failed: '' e'"

fun combine_rtc_and_telemetry :: "rtc_worker_completion result \<Rightarrow> unit result \<Rightarrow> rtc_worker_completion result" where
  "combine_rtc_and_telemetry (Inr (ServerGone status)) _ = Inr (ServerGone status)"
| "combine_rtc_and_telemetry (Inr completion) (Inr _) = Inr completion"
| "combine_rtc_and_telemetry (Inl e) (Inr _) = Inl e"
| "combine_rtc_and_telemetry (Inr _) (Inl e) = Inl e"
| "combine_rtc_and_telemetry (Inl e) (Inl e') = both_failed ''RTC work failed: '' e ''. telemetry shutdown also failed: '' e'"

section \<open>Processes\<close>

text \<open>\<open>ShutdownSignals::recv\<close>: the stream yields a signal, or nothing when it is closed.\<close>

definition recv_signal :: "bool \<Rightarrow> unit result" where
  "recv_signal received = ensure received ''shutdown signal stream closed'' (Inr ())"

definition signal_error :: "string \<Rightarrow> bool \<Rightarrow> anyhow_error" where
  "signal_error msg received = (case recv_signal received of Inl e \<Rightarrow> e | Inr _ \<Rightarrow> Anyhow [msg])"

definition try_wait_server :: "controller_world \<Rightarrow> string \<Rightarrow> (controller_effect, exit_status option) act" where
  "try_wait_server w msg = act_context msg (effect (exit_seen w) TryWaitServer)"

definition stop_server :: "controller_world \<Rightarrow> (controller_effect, unit) act" where
  "stop_server w =
     bind_act (try_wait_server w ''failed to inspect the o-sfu process'') (\<lambda>status.
     if status \<noteq> None then fail_act ''o-sfu exited before shutdown''
     else
       bind_act (ask_or ''o-sfu process has no process id'' (child_id w) ServerId) (\<lambda>process_id.
       bind_act (act_context ''failed to signal the o-sfu process'' (effect (term_status w) (SendTerm process_id))) (\<lambda>signalled.
       ensure_act (status_success signalled) ''failed to send SIGTERM to o-sfu'' (
       bind_act (ask (exit_within w) (WaitServer SHUTDOWN_TIMEOUT)) (\<lambda>waited.
       case waited of
         Some status \<Rightarrow>
           bind_act (lift_act (with_context ''failed to wait for o-sfu shutdown'' status)) (\<lambda>status.
           ensure_act (status_success status) (''o-sfu shutdown exited with '' @ show_status status) (return_act ()))
       | None \<Rightarrow>
           bind_act (act_context ''failed to force-stop o-sfu'' (perform w KillServer)) (\<lambda>_.
           fail_act ''o-sfu exceeded its shutdown deadline''))))))"

definition stop_rtc_worker :: "controller_world \<Rightarrow> (controller_effect, unit) act" where
  "stop_rtc_worker w =
     bind_act (act_context ''failed to inspect the RTC worker'' (effect (exit_seen w) TryWaitRtc)) (\<lambda>status.
     if status = None then act_context ''failed to stop the RTC worker'' (perform w KillRtc) else return_act ())"

definition reserve_tcp_port :: "controller_world \<Rightarrow> (controller_effect, u16) act" where
  "reserve_tcp_port w =
     bind_act (act_context ''failed to reserve an HTTP port'' (perform w BindPort)) (\<lambda>_.
     act_context ''failed to read the reserved HTTP port'' (effect (local_port w) LocalPort))"

definition spawn_server :: "controller_world \<Rightarrow> run_config \<Rightarrow> u16 \<Rightarrow> (controller_effect, unit) act" where
  "spawn_server w c http_port =
     bind_act (act_context ''failed to create the o-sfu stdout log'' (perform w (CreateFile (artifact c ''o-sfu.stdout.log'')))) (\<lambda>_.
     bind_act (act_context ''failed to create the o-sfu stderr log'' (perform w (CreateFile (artifact c ''o-sfu.stderr.log'')))) (\<lambda>_.
     act_context ''failed to start the o-sfu process'' (perform w (SpawnServer (server_command c http_port)))))"

section \<open>Readiness\<close>

text \<open>
  \<open>wait_until_ready\<close> raced against the shutdown signals: the signal branch may complete before the
  first poll or at an await, that is during a request or a sleep, and the readiness future is then
  dropped. The loop may not end when the clock stands still, so its value may be \<open>None\<close>.
\<close>

datatype raced = Finished "unit result" | Interrupted bool

definition is_success_status :: "u16 result \<Rightarrow> bool" where
  "is_success_status reply = (case reply of Inl _ \<Rightarrow> False | Inr code \<Rightarrow> 200 \<le> code \<and> code < 300)"

text \<open>One round of the loop, after its reading of the clock: an outcome, or none when it polls again.\<close>

definition poll_once :: "controller_world \<Rightarrow> string \<Rightarrow> controller_effect list \<Rightarrow> raced option \<times> controller_effect list" where
  "poll_once w base_url h =
     (case try_wait_server w ''failed to inspect the o-sfu process'' h of
        (Inl e, h1) \<Rightarrow> (Some (Finished (Inl e)), h1)
      | (Inr (Some status), h1) \<Rightarrow>
          (Some (Finished (err (''o-sfu exited before readiness with '' @ show_status status))), h1)
      | (Inr None, h1) \<Rightarrow>
          (let get = GetNoop (base_url @ noop_route w); h2 = h1 @ [get];
               h3 = h2 @ [SleepFor READINESS_POLL_INTERVAL] in
           (case signal_at w h2 of
              Some received \<Rightarrow> (Some (Interrupted received), h2)
            | None \<Rightarrow>
                if is_success_status (noop_status w h1 get) then (Some (Finished (Inr ())), h2)
                else (map_option Interrupted (signal_at w h3), h3))))"

partial_function (option) poll_until_ready ::
  "controller_world \<Rightarrow> string \<Rightarrow> instant \<Rightarrow> (controller_effect, raced) run" where
  "poll_until_ready w base_url deadline h =
     (if clock_at w h < deadline then
        (case poll_once w base_url (h @ [ClockReading]) of
           (Some outcome, h1) \<Rightarrow> Some (Inr outcome, h1)
         | (None, h1) \<Rightarrow> poll_until_ready w base_url deadline h1)
      else Some (Inr (Finished (err ''o-sfu did not become ready'')), h @ [ClockReading]))"

definition wait_until_ready :: "controller_world \<Rightarrow> string \<Rightarrow> (controller_effect, raced) run" where
  "wait_until_ready w base_url h =
     (case signal_at w h of
        Some received \<Rightarrow> Some (Inr (Interrupted received), h)
      | None \<Rightarrow>
          (case act_context ''failed to build the readiness HTTP client'' (perform w BuildReadinessClient) h of
             (Inl e, h1) \<Rightarrow> Some (Inr (Finished (Inl e)), h1)
           | (Inr _, h1) \<Rightarrow> poll_until_ready w base_url (clock_at w h1 + STARTUP_TIMEOUT) (h1 @ [ClockReading])))"

definition interrupted_startup :: "controller_world \<Rightarrow> bool \<Rightarrow> (controller_effect, string \<times> string) act" where
  "interrupted_startup w received =
     (let signal_error = signal_error ''load run interrupted during o-sfu startup'' received in
      bind_act (try_wait_server w ''failed to inspect o-sfu after a shutdown signal'') (\<lambda>status.
      bind_act (if status \<noteq> None then return_act (Inr ()) else attempt (stop_server w)) (\<lambda>shutdown_result.
      lift_act (combine_startup_and_shutdown signal_error shutdown_result))))"

text \<open>An attempt: a reserved port and a server on it, then what its readiness means; none is another attempt.\<close>

definition begin_attempt :: "controller_world \<Rightarrow> run_config \<Rightarrow> (controller_effect, string \<times> string) act" where
  "begin_attempt w c =
     bind_act (reserve_tcp_port w) (\<lambda>http_port.
     let base_url = ''http://'' @ localhost @ '':'' @ show_word http_port;
         websocket_url = ''ws://'' @ localhost @ '':'' @ show_word http_port @ ''/'' in
     bind_act (spawn_server w c http_port) (\<lambda>_. return_act (base_url, websocket_url)))"

definition failed_attempt ::
  "controller_world \<Rightarrow> nat \<Rightarrow> anyhow_error \<Rightarrow> (controller_effect, (string \<times> string) option) act" where
  "failed_attempt w attempt_number e =
     bind_act (try_wait_server w ''failed to inspect o-sfu after startup failure'') (\<lambda>status.
     let exited = status \<noteq> None in
     if exited \<and> attempt_number < STARTUP_ATTEMPTS then return_act None
     else if exited then
       lift_act (Inl (add_context (''o-sfu failed all '' @ show_nat STARTUP_ATTEMPTS @ '' startup attempts'') e))
     else
       bind_act (attempt (stop_server w)) (\<lambda>shutdown_result.
       bind_act (lift_act (combine_startup_and_shutdown e shutdown_result)) (\<lambda>urls. return_act (Some urls))))"

definition settle_attempt ::
  "controller_world \<Rightarrow> nat \<Rightarrow> string \<times> string \<Rightarrow> raced \<Rightarrow> (controller_effect, (string \<times> string) option) act" where
  "settle_attempt w attempt_number urls readiness =
     (case readiness of
        Interrupted received \<Rightarrow>
          bind_act (interrupted_startup w received) (\<lambda>urls. return_act (Some urls))
      | Finished (Inr _) \<Rightarrow> return_act (Some urls)
      | Finished (Inl e) \<Rightarrow> failed_attempt w attempt_number e)"

fun startup_attempts ::
  "controller_world \<Rightarrow> run_config \<Rightarrow> nat list \<Rightarrow> (controller_effect, string \<times> string) run" where
  "startup_attempts w c [] = lift_run (fail_act ''o-sfu startup attempts were exhausted'')"
| "startup_attempts w c (attempt_number # later) =
     bind_run (lift_run (begin_attempt w c)) (\<lambda>urls.
     bind_run (wait_until_ready w (fst urls)) (\<lambda>readiness.
     bind_run (lift_run (settle_attempt w attempt_number urls readiness)) (\<lambda>settled.
     case settled of
       Some urls \<Rightarrow> lift_run (return_act urls)
     | None \<Rightarrow> startup_attempts w c later)))"

definition start_server :: "controller_world \<Rightarrow> run_config \<Rightarrow> (controller_effect, string \<times> string) run" where
  "start_server w c = startup_attempts w c [1..<STARTUP_ATTEMPTS + 1]"

section \<open>The RTC worker\<close>

definition wait_for_rtc_worker :: "controller_world \<Rightarrow> duration \<Rightarrow> (controller_effect, rtc_wait_outcome) act" where
  "wait_for_rtc_worker w deadline =
     bind_act (ask (rtc_event_at w) (SelectRtc deadline)) (\<lambda>event.
     case event of
       RtcExited status \<Rightarrow>
         bind_act (lift_act (with_context ''failed to wait for the RTC worker'' status)) (\<lambda>status.
         ensure_act (status_success status) (''RTC worker exited with '' @ show_status status) (
         return_act WorkerCompleted))
     | ServerExitSeen status \<Rightarrow>
         bind_act (lift_act (with_context ''failed to wait for o-sfu during RTC work'' status)) (\<lambda>status.
         bind_act (stop_rtc_worker w) (\<lambda>_. return_act (ServerExitedEarly status)))
     | DeadlineElapsed \<Rightarrow>
         bind_act (stop_rtc_worker w) (\<lambda>_.
         fail_act (''RTC worker exceeded its '' @ show_nat (deadline div 1000000000) @ '' second deadline''))
     | SignalReceived received \<Rightarrow>
         bind_act (act_context ''failed to stop the RTC worker after a shutdown signal'' (stop_rtc_worker w)) (\<lambda>_.
         lift_act (Inl (signal_error ''load run interrupted during RTC work'' received)))
     | PhaseErrorSent \<Rightarrow>
         bind_act (act_context ''failed to stop the RTC worker after a phase stream failure'' (stop_rtc_worker w)) (\<lambda>_.
         return_act PhaseFailed))"

definition join_phases :: "controller_world \<Rightarrow> (controller_effect, unit) act" where
  "join_phases w =
     bind_act (ask (phases_joined w) (JoinPhaseTask SHUTDOWN_TIMEOUT)) (\<lambda>joined.
     case joined of
       Some r \<Rightarrow> lift_act (bind_ok (with_context ''RTC phase stream task failed'' r) (\<lambda>phases. phases))
     | None \<Rightarrow> bind_act (ask (\<lambda>h e. ()) AbortPhaseTask) (\<lambda>_.
         fail_act ''RTC phase stream exceeded its shutdown deadline''))"

definition start_rtc_worker ::
  "controller_world \<Rightarrow> run_config \<Rightarrow> string \<Rightarrow> string \<Rightarrow> (controller_effect, unit) act" where
  "start_rtc_worker w c base_url websocket_url =
     bind_act (act_context ''failed to create the RTC stdout log'' (perform w (CreateFile (artifact c ''rtc.stdout.log'')))) (\<lambda>_.
     bind_act (act_context ''failed to create the RTC stderr log'' (perform w (CreateFile (artifact c ''rtc.stderr.log'')))) (\<lambda>_.
     bind_act (act_context ''failed to start the RTC worker'' (perform w (SpawnRtc (rtc_command c base_url websocket_url)))) (\<lambda>_.
     bind_act (ask_or ''RTC worker has no phase input'' (pipe_taken w) TakePipe) (\<lambda>_.
     bind_act (ask_or ''RTC worker has no phase output'' (pipe_taken w) TakePipe) (\<lambda>_.
     bind_act (ask_or ''o-sfu process has no process id'' (child_id w) ServerId) (\<lambda>server_pid.
     bind_act (ask_or ''RTC worker has no process id'' (child_id w) RtcId) (\<lambda>rtc_pid.
     act_context ''failed to start telemetry sampling''
       (perform w (StartSampler base_url server_pid rtc_pid (artifact c ''samples.jsonl''))))))))))"

definition run_rtc_worker ::
  "controller_world \<Rightarrow> run_config \<Rightarrow> string \<Rightarrow> string \<Rightarrow> (controller_effect, rtc_worker_completion) act" where
  "run_rtc_worker w c base_url websocket_url =
     bind_act (start_rtc_worker w c base_url websocket_url) (\<lambda>_.
     bind_act (ask (\<lambda>h e. ()) SpawnPhaseTask) (\<lambda>_.
     bind_act (attempt (wait_for_rtc_worker w (rtc_worker_deadline (config_spec c)))) (\<lambda>completion.
     bind_act (attempt (join_phases w)) (\<lambda>phase_result.
     bind_act (attempt (perform w FinishSampler)) (\<lambda>telemetry_result.
     lift_act (combine_rtc_and_telemetry (combine_rtc_and_phases completion phase_result) telemetry_result))))))"

section \<open>A run\<close>

definition remove_stale_artifact :: "controller_world \<Rightarrow> string \<Rightarrow> (controller_effect, unit) act" where
  "remove_stale_artifact w path =
     bind_act (ask (removal_of w) (RemoveFile path)) (\<lambda>outcome.
     case outcome of
       Removed \<Rightarrow> return_act ()
     | AlreadyGone \<Rightarrow> return_act ()
     | RemoveFailed e \<Rightarrow> lift_act (Inl (add_context (''failed to remove stale '' @ path) e)))"

fun remove_stale_artifacts :: "controller_world \<Rightarrow> string list \<Rightarrow> (controller_effect, unit) act" where
  "remove_stale_artifacts w [] = return_act ()"
| "remove_stale_artifacts w (path # paths) =
     bind_act (remove_stale_artifact w path) (\<lambda>_. remove_stale_artifacts w paths)"

definition new_signals :: "controller_world \<Rightarrow> (controller_effect, unit) act" where
  "new_signals w =
     bind_act (act_context ''failed to install the SIGINT handler'' (perform w (InstallHandler ''SIGINT''))) (\<lambda>_.
     act_context ''failed to install the SIGTERM handler'' (perform w (InstallHandler ''SIGTERM'')))"

text \<open>What is done before the server starts.\<close>

definition stale_artifacts :: "run_config \<Rightarrow> string list" where
  "stale_artifacts c =
     map (artifact c) [''result.json'', ''scenario.json'', ''samples.jsonl'', ''rtc.stdout.log'', ''rtc.stderr.log'']"

definition prepare_run :: "controller_world \<Rightarrow> run_config \<Rightarrow> (controller_effect, unit) act" where
  "prepare_run w c =
     bind_act (lift_act (validate_cpu_set (server_cpus c))) (\<lambda>_.
     bind_act (lift_act (validate_cpu_set (rtc_cpus c))) (\<lambda>_.
     bind_act (act_context ''failed to create the artifact directory'' (perform w (CreateDirAll (show_path (output_directory c))))) (\<lambda>_.
     bind_act (remove_stale_artifacts w (stale_artifacts c)) (\<lambda>_.
     bind_act (lift_act (with_context ''failed to encode the scenario specification'' (spec_to_json w (config_spec c)))) (\<lambda>encoded.
     bind_act (act_context ''failed to write scenario.json'' (perform w (WriteFile (artifact c ''scenario.json'') encoded))) (\<lambda>_.
     new_signals w))))))"

text \<open>The \<open>async\<close> block of \<open>run\<close>; the flag beside the result is \<open>server_exited\<close>.\<close>

definition read_result :: "controller_world \<Rightarrow> run_config \<Rightarrow> (controller_effect, scenario_result) act" where
  "read_result w c =
     bind_act (act_context ''RTC worker did not write result.json''
       (effect (file_content w) (ReadFile (artifact c ''result.json'')))) (\<lambda>payload.
     bind_act (lift_act (with_context ''failed to decode result.json'' (result_of_json w payload))) (\<lambda>r.
     bind_act (lift_act (validate_result r (config_spec c))) (\<lambda>_. return_act r)))"

definition rtc_work ::
  "controller_world \<Rightarrow> run_config \<Rightarrow> string \<Rightarrow> string \<Rightarrow> (controller_effect, scenario_result result \<times> bool) act" where
  "rtc_work w c base_url websocket_url =
     bind_act (attempt (run_rtc_worker w c base_url websocket_url)) (\<lambda>completion.
     case completion of
       Inl e \<Rightarrow> return_act (Inl e, False)
     | Inr (ServerGone status) \<Rightarrow>
         return_act (err (''o-sfu exited during RTC work with '' @ show_status status), True)
     | Inr CompletedWork \<Rightarrow> bind_act (attempt (read_result w c)) (\<lambda>r. return_act (r, False)))"

definition start_profiler :: "controller_world \<Rightarrow> run_config \<Rightarrow> (controller_effect, unit result) act" where
  "start_profiler w c =
     (if profile_server c then
        bind_act (ask_or ''o-sfu process has no process id'' (child_id w) ServerId) (\<lambda>server_pid.
        attempt (perform w (StartProfiler server_pid)))
      else return_act (Inr ()))"

definition supervise ::
  "controller_world \<Rightarrow> run_config \<Rightarrow> string \<Rightarrow> string \<Rightarrow> (controller_effect, scenario_result) act" where
  "supervise w c base_url websocket_url =
     bind_act (start_profiler w c) (\<lambda>profiler.
     case profiler of
       Inl e \<Rightarrow>
         bind_act (attempt (stop_server w)) (\<lambda>shutdown_result.
         lift_act (combine_run_and_shutdown (Inl (add_context ''failed to start o-sfu profiling'' e)) shutdown_result))
     | Inr _ \<Rightarrow>
         bind_act (rtc_work w c base_url websocket_url) (\<lambda>(run_result, server_exited).
         bind_act (if profile_server c then attempt (perform w FinishProfiler) else return_act (Inr ())) (\<lambda>profile_result.
         bind_act (if server_exited then return_act (Inr ()) else attempt (stop_server w)) (\<lambda>shutdown_result.
         lift_act (combine_run_and_shutdown (combine_run_and_profile run_result profile_result) shutdown_result)))))"

definition run_controller :: "controller_world \<Rightarrow> run_config \<Rightarrow> (controller_effect, scenario_result) run" where
  "run_controller w c =
     bind_run (lift_run (prepare_run w c)) (\<lambda>_.
     bind_run (start_server w c) (\<lambda>(base_url, websocket_url).
     lift_run (supervise w c base_url websocket_url)))"

end
