(* ===== verification/ProfilePrepare.thy ===== *)
theory ProfilePrepare
  imports Profile Controller
begin

text \<open>
  Preparing and loading a profile directory (\<open>src/profile/report.rs\<close>, \<open>prepare\<close>, \<open>load_prepared\<close> and the
  functions below them). The directory is a store of files; the history of an action is the list of changes
  made to it, so that every prefix of the history is a state a crash may leave behind. Errors of the file
  system, the tools of \<open>perf\<close> and \<open>inferno\<close>, the decoders of \<open>serde_json\<close> and the environment
  of the machine are fields of a record.
\<close>

definition CALL_GRAPH :: string where "CALL_GRAPH = ''fp''"
definition CAPTURE_FILE :: string where "CAPTURE_FILE = ''profile.json''"
definition ENVIRONMENT_FILE :: string where "ENVIRONMENT_FILE = ''environment.json''"
definition EVENT :: string where "EVENT = ''cpu-clock''"
definition FLAMEGRAPH_FILE :: string where "FLAMEGRAPH_FILE = ''flamegraph.svg''"
definition FOLDED_FILE :: string where "FOLDED_FILE = ''stacks.folded''"
definition FREQUENCY_HZ :: u32 where "FREQUENCY_HZ = 99"
definition PERF_DATA_FILE :: string where "PERF_DATA_FILE = ''perf.data''"
definition PROFILE_READY_FILE :: string where "PROFILE_READY_FILE = ''profile.ready''"

definition CAPTURE_LIMIT_BYTES :: nat where "CAPTURE_LIMIT_BYTES = 64 * 1024"
definition FOLDED_LIMIT_BYTES :: nat where "FOLDED_LIMIT_BYTES = 64 * 1024 * 1024"

definition PREPARED_FILES :: "string list" where
  "PREPARED_FILES =
     [PROFILE_READY_FILE, ENVIRONMENT_FILE, ''perf.script'', ''perf-script.stderr.log'', FOLDED_FILE,
      ''collapse.stderr.log'', FLAMEGRAPH_FILE, ''flamegraph.stderr.log'', ''perf-header.txt'',
      ''perf-header.stderr.log'', ''hotspots-self.txt'', ''hotspots-self.txt.stderr.log'',
      ''hotspots-inclusive.txt'', ''hotspots-inclusive.txt.stderr.log'', ''threads.txt'', ''threads.txt.stderr.log'']"

record capture_metadata =
  cm_schema_version :: u32
  cm_event :: string
  cm_frequency_hz :: u32
  cm_call_graph :: string
  cm_duration_ms :: u64

record environment_metadata =
  em_schema_version :: u32
  em_cpu_model :: string
  em_logical_cpus :: nat
  em_kernel :: string
  em_perf_version :: string
  em_inferno_version :: string
  em_rustc_version :: string
  em_runner_image :: string
  em_perf_event_max_stack :: string

record prepared_profile =
  pp_run :: run_data
  pp_capture :: capture_metadata
  pp_environment :: environment_metadata
  pp_profile :: folded_profile

section \<open>The directory and its world\<close>

datatype file_event = FileRemoved fs_path | FileStored fs_path string

record tool_run =
  tool_stdout :: string
  tool_stderr :: string
  tool_status :: exit_status

record profile_world =
  pw_files :: "fs_path \<Rightarrow> string option"
  pw_is_dir :: "fs_path \<Rightarrow> bool"
  pw_metadata_error :: "fs_path \<Rightarrow> string option"
  pw_read_error :: "fs_path \<Rightarrow> string option"
  pw_remove_error :: "file_event list \<Rightarrow> fs_path \<Rightarrow> string option"
  pw_create_error :: "file_event list \<Rightarrow> fs_path \<Rightarrow> string option"
  pw_write_error :: "file_event list \<Rightarrow> fs_path \<Rightarrow> (string \<times> string option) option"
  pw_tool :: "file_event list \<Rightarrow> child_command \<Rightarrow> string + tool_run"
  pw_decode_result :: "string \<Rightarrow> scenario_result result"
  pw_serde :: serde
  pw_decode_capture :: "string \<Rightarrow> capture_metadata result"
  pw_decode_environment :: "string \<Rightarrow> environment_metadata result"
  pw_encode_environment :: "environment_metadata \<Rightarrow> string result"
  pw_system_file :: "string \<Rightarrow> string option"
  pw_variable :: "string \<Rightarrow> string option"
  pw_output :: "string \<Rightarrow> string list \<Rightarrow> (exit_status \<times> string) option"
  pw_parallelism :: "nat option"

fun apply_event :: "file_event \<Rightarrow> (fs_path \<Rightarrow> string option) \<Rightarrow> fs_path \<Rightarrow> string option" where
  "apply_event (FileRemoved p) s = s(p := None)"
| "apply_event (FileStored p content) s = s(p := Some content)"

definition store_at :: "profile_world \<Rightarrow> file_event list \<Rightarrow> fs_path \<Rightarrow> string option" where
  "store_at w h = fold apply_event h (pw_files w)"

definition files_at :: "profile_world \<Rightarrow> file_event list \<Rightarrow> report_files" where
  "files_at w h =
     \<lparr>rf_is_dir = pw_is_dir w,
      rf_metadata = (\<lambda>p. case pw_metadata_error w p of
          Some msg \<Rightarrow> Inl (OtherError msg)
        | None \<Rightarrow> (case store_at w h p of None \<Rightarrow> Inl NotFound | Some content \<Rightarrow> Inr (length content))),
      rf_read = (\<lambda>p. case pw_read_error w p of
          Some msg \<Rightarrow> Inl (OtherError msg)
        | None \<Rightarrow> (case store_at w h p of None \<Rightarrow> Inl NotFound | Some content \<Rightarrow> Inr content))\<rparr>"

text \<open>Reading changes nothing. A failed write may leave a part of the content, or the file as it was.\<close>

definition look :: "profile_world \<Rightarrow> (report_files \<Rightarrow> 'a result) \<Rightarrow> (file_event, 'a) act" where
  "look w f = (\<lambda>h. (f (files_at w h), h))"

definition remove_file :: "profile_world \<Rightarrow> fs_path \<Rightarrow> (file_event, io_error + unit) act" where
  "remove_file w p = (\<lambda>h.
     case pw_remove_error w h p of
       Some msg \<Rightarrow> (Inr (Inl (OtherError msg)), h)
     | None \<Rightarrow>
         (case store_at w h p of
            None \<Rightarrow> (Inr (Inl NotFound), h)
          | Some _ \<Rightarrow> (Inr (Inr ()), h @ [FileRemoved p])))"

definition create_file :: "profile_world \<Rightarrow> fs_path \<Rightarrow> (file_event, unit) act" where
  "create_file w p = (\<lambda>h.
     case pw_create_error w h p of
       Some msg \<Rightarrow> (with_context (''failed to create '' @ show_path p) (err msg), h)
     | None \<Rightarrow> (Inr (), h @ [FileStored p []]))"

definition write_file :: "profile_world \<Rightarrow> string \<Rightarrow> fs_path \<Rightarrow> string \<Rightarrow> (file_event, unit) act" where
  "write_file w msg p content = (\<lambda>h.
     case pw_write_error w h p of
       Some (e, left) \<Rightarrow>
         (with_context msg (err e), h @ (case left of None \<Rightarrow> [] | Some part \<Rightarrow> [FileStored p part]))
     | None \<Rightarrow> (Inr (), h @ [FileStored p content]))"

definition read_limited :: "fs_path \<Rightarrow> nat \<Rightarrow> report_files \<Rightarrow> string result" where
  "read_limited path limit files =
     bind_ok (io_result (''failed to inspect '' @ show_path path) (rf_metadata files path)) (\<lambda>len.
     ensure (len \<le> limit) (show_path path @ '' exceeds its '' @ show_nat limit @ '' byte limit'') (
     bind_ok (io_result (''failed to read '' @ show_path path) (rf_read files path)) (\<lambda>payload.
     ensure (length payload \<le> limit) (show_path path @ '' grew beyond its '' @ show_nat limit @ '' byte limit'') (
     with_context (show_path path @ '' is not UTF-8'') (from_utf8 payload)))))"

definition ensure_nonempty :: "fs_path \<Rightarrow> report_files \<Rightarrow> unit result" where
  "ensure_nonempty path files =
     bind_ok (io_result (''failed to inspect '' @ show_path path) (rf_metadata files path)) (\<lambda>len.
     ensure (len > 0) (show_path path @ '' is empty'') (Inr ()))"

definition load_capture :: "profile_world \<Rightarrow> fs_path \<Rightarrow> report_files \<Rightarrow> capture_metadata result" where
  "load_capture w input files =
     bind_ok (read_limited (join_path input [CAPTURE_FILE]) CAPTURE_LIMIT_BYTES files) (\<lambda>payload.
     bind_ok (with_context ''failed to decode profile metadata'' (pw_decode_capture w payload)) (\<lambda>capture.
     ensure (cm_schema_version capture = 1) ''unsupported profile metadata schema'' (Inr capture)))"

definition run_of :: "profile_world \<Rightarrow> fs_path \<Rightarrow> report_files \<Rightarrow> run_data result" where
  "run_of w input files = load_run files (pw_decode_result w) (pw_serde w) input"

section \<open>Tools\<close>

definition run_to_file_with_handles ::
  "profile_world \<Rightarrow> child_command \<Rightarrow> fs_path \<Rightarrow> fs_path \<Rightarrow> string \<Rightarrow> (file_event, unit) act" where
  "run_to_file_with_handles w command target stderr label =
     bind_act (\<lambda>h. case pw_tool w h command of
         Inl msg \<Rightarrow> (with_context (''failed to run '' @ label) (err msg), h)
       | Inr t \<Rightarrow> (Inr (tool_status t), h @ [FileStored stderr (tool_stderr t), FileStored target (tool_stdout t)])) (\<lambda>status.
     ensure_act (status_success status) (label @ '' exited with '' @ show_status status)
       (look w (ensure_nonempty target)))"

definition run_to_file ::
  "profile_world \<Rightarrow> child_command \<Rightarrow> fs_path \<Rightarrow> fs_path \<Rightarrow> string \<Rightarrow> (file_event, unit) act" where
  "run_to_file w command target stderr label =
     bind_act (create_file w target) (\<lambda>_.
     bind_act (create_file w stderr) (\<lambda>_.
     run_to_file_with_handles w command target stderr label))"

definition run_perf :: "profile_world \<Rightarrow> string list \<Rightarrow> fs_path \<Rightarrow> fs_path \<Rightarrow> fs_path \<Rightarrow> (file_event, unit) act" where
  "run_perf w prefix_args input target stderr =
     bind_act (create_file w target) (\<lambda>_.
     bind_act (create_file w stderr) (\<lambda>_.
     run_to_file_with_handles w
       \<lparr>cmd_program = ''perf'', cmd_args = prefix_args @ [show_path input], cmd_env = []\<rparr> target stderr ''perf''))"

definition run_perf_report ::
  "profile_world \<Rightarrow> fs_path \<Rightarrow> fs_path \<Rightarrow> string \<Rightarrow> string list \<Rightarrow> (file_event, unit) act" where
  "run_perf_report w input perf_data output_name options =
     bind_act (create_file w (join_path input [output_name])) (\<lambda>_.
     bind_act (create_file w (join_path input [output_name @ ''.stderr.log''])) (\<lambda>_.
     run_to_file_with_handles w
       \<lparr>cmd_program = ''perf'',
        cmd_args = [''report'', ''--stdio'', ''--input'', show_path perf_data] @ options @ [''--percent-limit'', ''0.25''],
        cmd_env = []\<rparr>
       (join_path input [output_name]) (join_path input [output_name @ ''.stderr.log'']) ''perf report''))"

definition collapse_stacks :: "profile_world \<Rightarrow> fs_path \<Rightarrow> fs_path \<Rightarrow> fs_path \<Rightarrow> (file_event, unit) act" where
  "collapse_stacks w input perf_script folded =
     run_to_file w
       \<lparr>cmd_program = ''inferno-collapse-perf'', cmd_args = [''--kernel'', ''--tid'', ''--addrs'', show_path perf_script],
        cmd_env = []\<rparr> folded (join_path input [''collapse.stderr.log'']) ''inferno-collapse-perf''"

definition render_flamegraph :: "profile_world \<Rightarrow> fs_path \<Rightarrow> fs_path \<Rightarrow> (file_event, unit) act" where
  "render_flamegraph w input folded =
     bind_act (look w (run_of w input)) (\<lambda>run.
     let title = ''o-sfu CPU: '' @ scenario_label (res_scenario (rd_result run));
         subtitle = ''requested '' @ show_word FREQUENCY_HZ @ '' Hz cpu-clock, o-sfu ''
           @ (case res_o_sfu_revision (rd_result run) of None \<Rightarrow> ''unknown'' | Some revision \<Rightarrow> revision) in
     run_to_file w
       \<lparr>cmd_program = ''inferno-flamegraph'',
        cmd_args = [''--deterministic'', ''--width'', ''1800'', ''--minwidth'', ''0.05'', ''--title'', title,
          ''--subtitle'', subtitle, show_path folded], cmd_env = []\<rparr>
       (join_path input [FLAMEGRAPH_FILE]) (join_path input [''flamegraph.stderr.log'']) ''inferno-flamegraph'')"

section \<open>The environment\<close>

definition unavailable :: string where "unavailable = ''unavailable''"

fun cpu_field :: "string \<Rightarrow> string list \<Rightarrow> string option" where
  "cpu_field field [] = None"
| "cpu_field field (text # texts) =
     (case split_once (CHR '':'') text of
        None \<Rightarrow> cpu_field field texts
      | Some (name, val) \<Rightarrow> if trim name = field then Some (trim val) else cpu_field field texts)"

definition cpu_model :: "profile_world \<Rightarrow> string" where
  "cpu_model w =
     (case pw_system_file w ''/proc/cpuinfo'' of
        None \<Rightarrow> unavailable
      | Some cpuinfo \<Rightarrow>
          (case (case cpu_field ''model name'' (lines_of cpuinfo) of
                   Some model \<Rightarrow> Some model
                 | None \<Rightarrow> cpu_field ''Hardware'' (lines_of cpuinfo)) of
             None \<Rightarrow> unavailable
           | Some model \<Rightarrow> if model \<noteq> [] then model else unavailable))"

definition command_value :: "profile_world \<Rightarrow> string \<Rightarrow> string list \<Rightarrow> string" where
  "command_value w program arguments =
     (case pw_output w program arguments of
        None \<Rightarrow> unavailable
      | Some (status, printed) \<Rightarrow>
          if \<not> status_success status then unavailable
          else if trim printed = [] then unavailable else trim printed)"

definition system_value :: "profile_world \<Rightarrow> string \<Rightarrow> string" where
  "system_value w path =
     (case pw_system_file w path of
        None \<Rightarrow> unavailable
      | Some content \<Rightarrow> if trim content \<noteq> [] then trim content else unavailable)"

definition runner_image :: "profile_world \<Rightarrow> string" where
  "runner_image w =
     (case (pw_variable w ''ImageOS'', pw_variable w ''ImageVersion'') of
        (Some os, Some version) \<Rightarrow> os @ '' '' @ version
      | (Some os, None) \<Rightarrow> os
      | (None, Some version) \<Rightarrow> version
      | (None, None) \<Rightarrow> ''non-GitHub environment'')"

definition environment_of :: "profile_world \<Rightarrow> environment_metadata" where
  "environment_of w =
     \<lparr>em_schema_version = 1, em_cpu_model = cpu_model w,
      em_logical_cpus = (case pw_parallelism w of None \<Rightarrow> 0 | Some n \<Rightarrow> n),
      em_kernel = command_value w ''uname'' [''-srmo''],
      em_perf_version = command_value w ''perf'' [''version''],
      em_inferno_version = (case pw_variable w ''O_SFU_LOAD_INFERNO_VERSION'' of None \<Rightarrow> ''unreported'' | Some v \<Rightarrow> v),
      em_rustc_version = command_value w ''rustc'' [''--version''],
      em_runner_image = runner_image w,
      em_perf_event_max_stack = system_value w ''/proc/sys/kernel/perf_event_max_stack''\<rparr>"

definition write_environment :: "profile_world \<Rightarrow> fs_path \<Rightarrow> (file_event, unit) act" where
  "write_environment w input =
     bind_act (lift_act (with_context ''failed to encode the profiling environment''
       (pw_encode_environment w (environment_of w)))) (\<lambda>payload.
     write_file w ''failed to write the profiling environment'' (join_path input [ENVIRONMENT_FILE]) payload)"

section \<open>Preparing and loading\<close>

fun clear_files :: "profile_world \<Rightarrow> fs_path \<Rightarrow> string list \<Rightarrow> (file_event, unit) act" where
  "clear_files w input [] = return_act ()"
| "clear_files w input (name # names) =
     (let path = join_path input [name] in
      bind_act (remove_file w path) (\<lambda>removal.
      bind_act (if removal = Inl NotFound then return_act ()
                else lift_act (io_result (''failed to remove '' @ show_path path) removal)) (\<lambda>_.
      clear_files w input names)))"

definition clear_prepared :: "profile_world \<Rightarrow> fs_path \<Rightarrow> (file_event, unit) act" where
  "clear_prepared w input = clear_files w input PREPARED_FILES"

text \<open>Everything between the clearing of the directory and the ready marker.\<close>

definition prepare_files :: "profile_world \<Rightarrow> fs_path \<Rightarrow> (file_event, unit) act" where
  "prepare_files w input =
     (let perf_data = join_path input [PERF_DATA_FILE]; perf_script = join_path input [''perf.script''];
          folded = join_path input [FOLDED_FILE] in
      bind_act (look w (ensure_nonempty perf_data)) (\<lambda>_.
      bind_act (look w (load_capture w input)) (\<lambda>_.
      bind_act (look w (\<lambda>files. bind_ok (run_of w input files) validate_run)) (\<lambda>_.
      bind_act (run_perf w [''script'', ''--fields'', ''sw:-period'', ''--input''] perf_data perf_script
        (join_path input [''perf-script.stderr.log''])) (\<lambda>_.
      bind_act (collapse_stacks w input perf_script folded) (\<lambda>_.
      bind_act (look w (\<lambda>files. bind_ok (read_limited folded FOLDED_LIMIT_BYTES files) parse_profile)) (\<lambda>profile.
      ensure_act (fp_total_samples profile > 0) ''perf capture contains no samples'' (
      bind_act (render_flamegraph w input folded) (\<lambda>_.
      bind_act (run_perf w [''report'', ''--stdio'', ''--header-only'', ''--input''] perf_data
        (join_path input [''perf-header.txt'']) (join_path input [''perf-header.stderr.log''])) (\<lambda>_.
      bind_act (run_perf_report w input perf_data ''hotspots-self.txt'' [''--no-children'', ''--sort'', ''comm,dso,symbol'']) (\<lambda>_.
      bind_act (run_perf_report w input perf_data ''hotspots-inclusive.txt'' [''--children'', ''--sort'', ''comm,dso,symbol'']) (\<lambda>_.
      bind_act (run_perf_report w input perf_data ''threads.txt'' [''--no-children'', ''--sort'', ''comm,pid'']) (\<lambda>_.
      write_environment w input)))))))))))))"

definition prepare :: "profile_world \<Rightarrow> fs_path \<Rightarrow> (file_event, unit) act" where
  "prepare w input =
     ensure_act (pw_is_dir w input) ''profile input must be a directory'' (
     bind_act (clear_prepared w input) (\<lambda>_.
     bind_act (prepare_files w input) (\<lambda>_.
     write_file w ''failed to mark the CPU profile as complete'' (join_path input [PROFILE_READY_FILE])
       (''ready'' @ [CHR 0x0A]))))"

definition REQUIRED_FILES :: "string list" where
  "REQUIRED_FILES =
     [PROFILE_READY_FILE, PERF_DATA_FILE, FLAMEGRAPH_FILE, ''perf-header.txt'', ''hotspots-self.txt'',
      ''hotspots-inclusive.txt'', ''threads.txt'']"

fun ensure_all_nonempty :: "fs_path \<Rightarrow> string list \<Rightarrow> report_files \<Rightarrow> unit result" where
  "ensure_all_nonempty input [] files = Inr ()"
| "ensure_all_nonempty input (name # names) files =
     bind_ok (ensure_nonempty (join_path input [name]) files) (\<lambda>_. ensure_all_nonempty input names files)"

definition load_environment :: "profile_world \<Rightarrow> fs_path \<Rightarrow> report_files \<Rightarrow> environment_metadata result" where
  "load_environment w input files =
     bind_ok (read_limited (join_path input [ENVIRONMENT_FILE]) CAPTURE_LIMIT_BYTES files) (\<lambda>payload.
     bind_ok (with_context ''failed to decode profiling environment'' (pw_decode_environment w payload)) (\<lambda>environment.
     ensure (em_schema_version environment = 1) ''unsupported profiling environment schema'' (Inr environment)))"

definition load_prepared :: "profile_world \<Rightarrow> fs_path \<Rightarrow> report_files \<Rightarrow> prepared_profile result" where
  "load_prepared w input files =
     bind_ok (ensure_all_nonempty input REQUIRED_FILES files) (\<lambda>_.
     bind_ok (run_of w input files) (\<lambda>run.
     bind_ok (validate_run run) (\<lambda>_.
     bind_ok (load_capture w input files) (\<lambda>capture.
     bind_ok (load_environment w input files) (\<lambda>environment.
     bind_ok (read_limited (join_path input [FOLDED_FILE]) FOLDED_LIMIT_BYTES files) (\<lambda>folded.
     bind_ok (parse_profile folded) (\<lambda>profile.
     ensure (fp_total_samples profile > 0) ''profile contains no valid samples''
       (Inr \<lparr>pp_run = run, pp_capture = capture, pp_environment = environment, pp_profile = profile\<rparr>))))))))"

end
