(* ===== verification/ProfileFacts.thy ===== *)
theory ProfileFacts
  imports Profile
begin

text \<open>
  The counts of a parsed profile are those of the lines it accepted: per stack, leaf, thread and frame they are
  the sums of the matching lines, stacks, leaves and threads partition the samples, and a line that is
  rejected, late in its updates or early, leaves the profile as it was.
\<close>

section \<open>Count maps\<close>

definition count_of :: "counts \<Rightarrow> string \<Rightarrow> nat" where
  "count_of entries label = (case map_of entries label of None \<Rightarrow> 0 | Some n \<Rightarrow> unat n)"

definition sum_of :: "counts \<Rightarrow> nat" where
  "sum_of entries = sum_list (map (\<lambda>entry. unat (snd entry)) entries)"

text \<open>Keys strictly ascending, and no empty entries.\<close>

definition counts_ok :: "counts \<Rightarrow> bool" where
  "counts_ok entries \<longleftrightarrow> sorted_wrt (<) (map fst entries) \<and> (\<forall>entry \<in> set entries. snd entry \<noteq> 0)"

lemma counts_ok_Cons:
  "counts_ok ((key, n) # entries) \<longleftrightarrow> counts_ok entries \<and> n \<noteq> 0 \<and> (\<forall>entry \<in> set entries. key < fst entry)"
  by (auto simp: counts_ok_def)

lemma counts_ok_Nil [simp]: "counts_ok []"
  by (simp add: counts_ok_def)

lemma count_of_simps [simp]:
  "count_of [] label = 0"
  "count_of ((key, n) # entries) label = (if label = key then unat n else count_of entries label)"
  by (simp_all add: count_of_def)

lemma sum_of_simps [simp]: "sum_of [] = 0" "sum_of ((key, n) # entries) = unat n + sum_of entries"
  by (simp_all add: sum_of_def)

lemma count_of_smaller: "\<forall>entry \<in> set entries. label < fst entry \<Longrightarrow> count_of entries label = 0"
  by (induction entries) auto

lemma count_le_sum: "count_of entries label \<le> sum_of entries"
proof (induction entries)
  case (Cons e entries)
  then show ?case by (cases e) auto
qed simp

lemma add_count_facts:
  "counts_ok entries \<Longrightarrow> count \<noteq> 0 \<Longrightarrow> add_count entries label count = Inr entries' \<Longrightarrow>
     counts_ok entries' \<and> set (map fst entries') = insert label (set (map fst entries)) \<and>
     (\<forall>l. count_of entries' l = count_of entries l + (if l = label then unat count else 0)) \<and>
     sum_of entries' = sum_of entries + unat count"
proof (induction entries arbitrary: entries')
  case Nil
  then show ?case by (auto simp: counts_ok_Cons)
next
  case (Cons e entries)
  obtain key n where e: "e = (key, n)" by (cases e)
  have ok: "counts_ok entries" "n \<noteq> 0" "\<forall>entry \<in> set entries. key < fst entry"
    using Cons.prems(1) by (auto simp: e counts_ok_Cons)
  consider "label < key" | "label = key" | "key < label" by (rule linorder_cases)
  then show ?case
  proof cases
    case 1
    then have "\<forall>entry \<in> set (e # entries). label < fst entry" using ok(3) by (auto simp: e intro: less_trans)
    then have "count_of (e # entries) label = 0" by (rule count_of_smaller)
    then show ?thesis using 1 Cons.prems \<open>\<forall>entry \<in> set (e # entries). label < fst entry\<close>
      by (auto simp: e counts_ok_Cons)
  next
    case 2
    then obtain m where m: "checked_add n count = Some m" "entries' = (key, m) # entries"
      using Cons.prems(3) by (auto simp: e checked_iff ok_or_def split: option.splits)
    then have "unat m = unat n + unat count" by (simp add: checked_iff)
    moreover from this have "m \<noteq> 0" using ok(2) by (auto simp: word_eq_unat_iff)
    ultimately show ?thesis using ok m 2 by (auto simp: e counts_ok_Cons)
  next
    case 3
    then obtain rest where r: "add_count entries label count = Inr rest" "entries' = (key, n) # rest"
      using Cons.prems(3) by (auto simp: e checked_iff not_less_iff_gr_or_eq split: if_splits)
    note f = Cons.IH [OF ok(1) Cons.prems(2) r(1)]
    have "\<forall>entry \<in> set rest. key < fst entry"
    proof
      fix entry assume "entry \<in> set rest"
      then have "fst entry \<in> insert label (set (map fst entries))" using f by (metis image_eqI list.set_map)
      then show "key < fst entry" using ok(3) 3 by auto
    qed
    then show ?thesis using f ok(2) 3 r(2) by (auto simp: e counts_ok_Cons)
  qed
qed

lemma add_count_works:
  "counts_ok entries \<Longrightarrow> count_of entries label + unat count < 2 ^ 64 \<Longrightarrow>
     \<exists>entries'. add_count entries label count = Inr entries'"
proof (induction entries)
  case (Cons e entries)
  obtain key n where e: "e = (key, n)" by (cases e)
  have ok: "counts_ok entries" using Cons.prems(1) by (auto simp: e counts_ok_Cons)
  show ?case
  proof (cases "label = key")
    case True
    then show ?thesis using Cons.prems(2) by (simp add: e checked_add_def)
  next
    case False
    then show ?thesis using Cons.IH [OF ok] Cons.prems(2) by (auto simp: e)
  qed
qed simp

section \<open>What a list of accepted lines counts\<close>

type_synonym folded_entry = "string \<times> string list \<times> u64"

definition entry_samples :: "folded_entry \<Rightarrow> nat" where
  "entry_samples e = unat (snd (snd e))"

definition weight :: "(folded_entry \<Rightarrow> bool) \<Rightarrow> folded_entry list \<Rightarrow> nat" where
  "weight P entries = sum_list (map (\<lambda>e. if P e then entry_samples e else 0) entries)"

definition frames_of :: "folded_entry \<Rightarrow> string list" where
  "frames_of e = fst (snd e)"

definition kernel_leaf :: "folded_entry \<Rightarrow> bool" where
  "kernel_leaf e \<longleftrightarrow> ends_with ''_[k]'' (last (frames_of e))"

definition counts_by :: "(folded_entry \<Rightarrow> string) \<Rightarrow> folded_entry list \<Rightarrow> counts \<Rightarrow> bool" where
  "counts_by key E entries \<longleftrightarrow>
     counts_ok entries \<and> (\<forall>label. count_of entries label = weight (\<lambda>e. key e = label) E) \<and>
     sum_of entries = weight (\<lambda>e. True) E"

definition profile_of :: "folded_entry list \<Rightarrow> folded_profile \<Rightarrow> bool" where
  "profile_of E p \<longleftrightarrow>
     unat (fp_total_samples p) = weight (\<lambda>e. True) E \<and>
     counts_by fst E (fp_stack_samples p) \<and> counts_by (\<lambda>e. last (frames_of e)) E (fp_self_samples p) \<and>
     counts_by (\<lambda>e. hd (frames_of e)) E (fp_thread_samples p) \<and> counts_ok (fp_inclusive_samples p) \<and>
     (\<forall>frame. count_of (fp_inclusive_samples p) frame =
        weight (\<lambda>e. frame \<in> set (inclusive_frames (frames_of e))) E) \<and>
     unat (fp_kernel_samples p) = weight kernel_leaf E \<and>
     unat (fp_unresolved_leaf_samples p) = weight (\<lambda>e. unresolved (last (frames_of e))) E \<and>
     unat (fp_unresolved_stack_samples p) = weight (\<lambda>e. list_ex unresolved (frames_of e)) E"

lemma weight_simps [simp]:
  "weight P [] = 0" "weight P (E @ E') = weight P E + weight P E'"
  "weight P (e # E) = (if P e then entry_samples e else 0) + weight P E"
  by (simp_all add: weight_def)

lemma weight_mono: "(\<And>e. P e \<Longrightarrow> Q e) \<Longrightarrow> weight P E \<le> weight Q E"
  by (induction E) (auto simp: add_mono trans_le_add2)

lemma weight_le: "weight P E \<le> weight (\<lambda>e. True) E"
  by (rule weight_mono) simp

lemma counts_by_add:
  assumes "counts_by key E entries" "entry_samples e \<noteq> 0" "weight (\<lambda>e. True) E + entry_samples e < 2 ^ 64"
  shows "\<exists>entries'. add_count entries (key e) (snd (snd e)) = Inr entries' \<and> counts_by key (E @ [e]) entries'"
proof -
  have ok: "counts_ok entries" and c: "count_of entries (key e) \<le> weight (\<lambda>e. True) E"
    using assms(1) weight_le by (auto simp: counts_by_def)
  have "snd (snd e) \<noteq> 0" using assms(2) by (auto simp: entry_samples_def)
  moreover obtain entries' where "add_count entries (key e) (snd (snd e)) = Inr entries'"
    using add_count_works [OF ok, of "key e" "snd (snd e)"] c assms(3) by (auto simp: entry_samples_def)
  ultimately show ?thesis using add_count_facts [OF ok] assms(1)
    by (fastforce simp: counts_by_def entry_samples_def)
qed

lemma run_updates_append:
  "run_updates (us @ vs) p =
     (case run_updates us p of (Inl e, q) \<Rightarrow> (Inl e, q) | (Inr _, q) \<Rightarrow> run_updates vs q)"
  by (induction us arbitrary: p) (auto split: sum.splits)

lemma inclusive_updates:
  "distinct frames \<Longrightarrow> counts_ok (fp_inclusive_samples p) \<Longrightarrow> count \<noteq> 0 \<Longrightarrow>
     (\<forall>f. count_of (fp_inclusive_samples p) f + unat count < 2 ^ 64) \<Longrightarrow>
     \<exists>entries. run_updates (map (add_inclusive count) frames) p = (Inr (), p\<lparr>fp_inclusive_samples := entries\<rparr>) \<and>
       counts_ok entries \<and>
       (\<forall>f. count_of entries f = count_of (fp_inclusive_samples p) f + (if f \<in> set frames then unat count else 0))"
proof (induction frames rule: rev_induct)
  case Nil
  then show ?case by (intro exI [of _ "fp_inclusive_samples p"]) simp
next
  case (snoc frame frames)
  then obtain entries where r: "run_updates (map (add_inclusive count) frames) p = (Inr (), p\<lparr>fp_inclusive_samples := entries\<rparr>)"
    "counts_ok entries"
    "\<forall>f. count_of entries f = count_of (fp_inclusive_samples p) f + (if f \<in> set frames then unat count else 0)"
    by auto
  have "count_of entries frame + unat count < 2 ^ 64" using r(3) snoc.prems(1,4) by simp
  then obtain entries' where a: "add_count entries frame count = Inr entries'" using add_count_works r(2) by blast
  note f = add_count_facts [OF r(2) snoc.prems(3) a]
  have "run_updates (map (add_inclusive count) (frames @ [frame])) p = (Inr (), p\<lparr>fp_inclusive_samples := entries'\<rparr>)"
    using r(1) a by (simp add: run_updates_append add_inclusive_def)
  moreover have "count_of entries' g = count_of (fp_inclusive_samples p) g +
      (if g \<in> set (frames @ [frame]) then unat count else 0)" for g
    using f r(3) snoc.prems(1) by auto
  ultimately show ?case using f by blast
qed

lemma inclusive_frames_distinct [simp]: "distinct (inclusive_frames frames)"
  by (simp add: inclusive_frames_def)

lemma counter_add: "unat n \<le> weight (\<lambda>e. True) E \<Longrightarrow> weight (\<lambda>e. True) E + unat (count :: u64) < 2 ^ 64 \<Longrightarrow>
    checked_add n count = Some (n + count) \<and> unat (n + count) = unat n + unat count"
proof -
  assume a: "unat n \<le> weight (\<lambda>e. True) E" "weight (\<lambda>e. True) E + unat count < 2 ^ 64"
  then have "checked_add n count = Some (n + count)" by (simp add: checked_add_def)
  then show ?thesis by (simp add: checked_iff)
qed

lemma checked_step:
  assumes "unat n = weight P E" "weight (\<lambda>e. True) E + unat (count :: u64) < 2 ^ 64"
  shows "checked_add n count = Some (n + count)" "unat (n + count) = weight P E + unat count"
  using counter_add [of n E count] assms weight_le [of P E] by auto

lemma line_runs:
  assumes p: "profile_of E p" and e: "entry_samples e \<noteq> 0" "weight (\<lambda>e. True) E + entry_samples e < 2 ^ 64"
  shows "\<exists>p'. run_updates (line_updates e) p = (Inr (), p') \<and> profile_of (E @ [e]) p' \<and>
    fp_malformed_lines p' = fp_malformed_lines p \<and> fp_diagnostics p' = fp_diagnostics p"
proof -
  obtain stack frames count where x: "e = (stack, frames, count)" by (cases e)
  have c: "count \<noteq> 0" "weight (\<lambda>e. True) E + unat count < 2 ^ 64" using e by (auto simp: x entry_samples_def)
  note f = p [unfolded profile_of_def]
  obtain st where st: "add_count (fp_stack_samples p) stack count = Inr st" "counts_by fst (E @ [e]) st"
    using counts_by_add [of fst E _ e] f e by (auto simp: x)
  obtain se where se: "add_count (fp_self_samples p) (last frames) count = Inr se"
    "counts_by (\<lambda>e. last (frames_of e)) (E @ [e]) se"
    using counts_by_add [of "\<lambda>e. last (frames_of e)" E _ e] f e by (auto simp: x frames_of_def)
  obtain th where th: "add_count (fp_thread_samples p) (hd frames) count = Inr th"
    "counts_by (\<lambda>e. hd (frames_of e)) (E @ [e]) th"
    using counts_by_add [of "\<lambda>e. hd (frames_of e)" E _ e] f e by (auto simp: x frames_of_def)
  note tot = checked_step [of "fp_total_samples p" "\<lambda>e. True" E count]
  let ?q = "p\<lparr>fp_total_samples := fp_total_samples p + count, fp_stack_samples := st, fp_self_samples := se,
    fp_thread_samples := th\<rparr>"
  have room: "count_of (fp_inclusive_samples ?q) g + unat count < 2 ^ 64" for g
    using f c(2) weight_le [of "\<lambda>e. g \<in> set (inclusive_frames (frames_of e))" E] by auto
  have q_ok: "counts_ok (fp_inclusive_samples ?q)" using f by simp
  obtain inc where inc: "run_updates (map (add_inclusive count) (inclusive_frames frames)) ?q
      = (Inr (), ?q\<lparr>fp_inclusive_samples := inc\<rparr>)" "counts_ok inc"
    "\<forall>g. count_of inc g = count_of (fp_inclusive_samples p) g + (if g \<in> set (inclusive_frames frames) then unat count else 0)"
    using inclusive_updates [OF inclusive_frames_distinct q_ok c(1), of frames] room by auto
  note kern = checked_step [of "fp_kernel_samples p" kernel_leaf E count]
  note leaf = checked_step [of "fp_unresolved_leaf_samples p" "\<lambda>e. unresolved (last (frames_of e))" E count]
  note whole = checked_step [of "fp_unresolved_stack_samples p" "\<lambda>e. list_ex unresolved (frames_of e)" E count]
  let ?p' = "?q\<lparr>fp_inclusive_samples := inc,
    fp_kernel_samples := (if ends_with ''_[k]'' (last frames) then fp_kernel_samples p + count else fp_kernel_samples p),
    fp_unresolved_leaf_samples := (if unresolved (last frames) then fp_unresolved_leaf_samples p + count
      else fp_unresolved_leaf_samples p),
    fp_unresolved_stack_samples := (if list_ex unresolved frames then fp_unresolved_stack_samples p + count
      else fp_unresolved_stack_samples p)\<rparr>"
  have start: "run_updates [add_total count, add_stack stack count, add_self (last frames) count, add_thread (hd frames) count] p
      = (Inr (), ?q)"
    using tot(1) st(1) se(1) th(1) f c(2) by (simp add: add_total_def add_stack_def add_self_def add_thread_def)
  have finish: "run_updates [add_kernel (last frames) count, add_unresolved_leaf (last frames) count,
      add_unresolved_stack frames count] (?q\<lparr>fp_inclusive_samples := inc\<rparr>) = (Inr (), ?p')"
    using kern(1) leaf(1) whole(1) f c(2)
    by (simp add: add_kernel_def add_unresolved_leaf_def add_unresolved_stack_def)
  have "run_updates (line_updates e) p = (Inr (), ?p')"
    unfolding x line_updates_def prod.case run_updates_append start sum.case inc(1) finish by simp
  moreover have "profile_of (E @ [e]) ?p'"
    unfolding profile_of_def
    using f st(2) se(2) th(2) inc(2,3) tot(2) kern(2) leaf(2) whole(2) c(2)
    by (simp add: x frames_of_def entry_samples_def kernel_leaf_def)
  ultimately show ?thesis by (intro exI [of _ ?p']) simp
qed

lemma line_rejected:
  assumes "profile_of E p" "\<not> weight (\<lambda>e. True) E + entry_samples e < 2 ^ 64"
  shows "\<exists>err. run_updates (line_updates e) p = (Inl err, p)"
proof -
  obtain stack frames count where x: "e = (stack, frames, count)" by (cases e)
  have "checked_add (fp_total_samples p) count = None"
    using assms by (simp add: checked_add_None profile_of_def x entry_samples_def)
  then show ?thesis by (simp add: x line_updates_def add_total_def err_def)
qed

section \<open>The accepted lines\<close>

text \<open>The lines of a payload that parse, as long as the sum of their counts fits 64 bits.\<close>

fun accepted :: "nat \<Rightarrow> string list \<Rightarrow> folded_entry list" where
  "accepted n [] = []"
| "accepted n (text # texts) =
     (case parse_folded (trim text) of
        Inl _ \<Rightarrow> accepted n texts
      | Inr e \<Rightarrow> if n + entry_samples e < 2 ^ 64 then e # accepted (n + entry_samples e) texts else accepted n texts)"

definition written :: "string list \<Rightarrow> string list" where
  "written texts = filter (\<lambda>text. trim text \<noteq> []) texts"

definition diagnosed :: "folded_profile \<Rightarrow> bool" where
  "diagnosed p \<longleftrightarrow> length (fp_diagnostics p) = min 8 (fp_malformed_lines p)"

lemma parse_folded_Inr:
  "parse_folded text = Inr e \<Longrightarrow> entry_samples e \<noteq> 0 \<and> frames_of e \<noteq> []"
  by (auto simp: parse_folded_def checked_iff entry_samples_def frames_of_def word_eq_unat_iff Let_def word_less_nat_alt
      split: if_splits)

lemma parse_folded_Nil [simp]: "parse_folded [] = err ''missing sample count''"
  by (simp add: parse_folded_def rsplit_once_def)

lemma accepted_frames: "e \<in> set (accepted n texts) \<Longrightarrow> frames_of e \<noteq> []"
  by (induction n texts rule: accepted.induct) (auto dest: parse_folded_Inr split: sum.splits if_splits)

lemma profile_of_malformed [simp]: "profile_of E (count_malformed i e p) = profile_of E p"
  by (simp add: count_malformed_def profile_of_def)

lemma diagnosed_malformed: "diagnosed p \<Longrightarrow> diagnosed (count_malformed i e p)"
  by (auto simp: diagnosed_def count_malformed_def MAX_DIAGNOSTICS_def)

lemma malformed_count [simp]: "fp_malformed_lines (count_malformed i e p) = fp_malformed_lines p + 1"
  by (simp add: count_malformed_def)

lemma add_line_cases:
  assumes "profile_of E p"
  shows "(\<exists>e p'. parse_folded text = Inr e \<and> weight (\<lambda>e. True) E + entry_samples e < 2 ^ 64 \<and>
      add_line text p = (Inr (), p') \<and> profile_of (E @ [e]) p' \<and> fp_malformed_lines p' = fp_malformed_lines p \<and>
      fp_diagnostics p' = fp_diagnostics p)
    \<or> (\<exists>err. add_line text p = (Inl err, p)) \<and>
      (\<forall>e. parse_folded text = Inr e \<longrightarrow> \<not> weight (\<lambda>e. True) E + entry_samples e < 2 ^ 64)"
proof (cases "parse_folded text")
  case (Inl err)
  then show ?thesis by (simp add: add_line_def)
next
  case (Inr e)
  have n: "entry_samples e \<noteq> 0" using parse_folded_Inr [OF Inr] by blast
  show ?thesis
  proof (cases "weight (\<lambda>e. True) E + entry_samples e < 2 ^ 64")
    case True
    then show ?thesis using line_runs [OF assms n True] Inr by (auto simp: add_line_def)
  next
    case False
    then show ?thesis using line_rejected [OF assms False] Inr by (auto simp: add_line_def)
  qed
qed

lemma folded_line_accepts:
  assumes "profile_of E p" "diagnosed p"
  shows "profile_of (E @ accepted (weight (\<lambda>e. True) E) [text]) (folded_line i text p) \<and>
    fp_malformed_lines (folded_line i text p) + length (accepted (weight (\<lambda>e. True) E) [text])
      = fp_malformed_lines p + length (written [text]) \<and> diagnosed (folded_line i text p)"
proof (cases "trim text = []")
  case True
  then show ?thesis using assms by (simp add: folded_line_def written_def err_def)
next
  case False
  then show ?thesis using add_line_cases [OF assms(1), of "trim text"] assms diagnosed_malformed [OF assms(2)]
    by (auto simp: folded_line_def written_def diagnosed_def split: sum.splits)
qed

lemma accepted_Cons: "accepted n (text # texts) = accepted n [text] @ accepted (n + weight (\<lambda>e. True) (accepted n [text])) texts"
  by (auto split: sum.splits)

lemma parse_lines_accept:
  "parse_folded_lines i texts p = Inr q \<Longrightarrow> profile_of E p \<Longrightarrow> diagnosed p \<Longrightarrow>
     profile_of (E @ accepted (weight (\<lambda>e. True) E) texts) q \<and>
     fp_malformed_lines q + length (accepted (weight (\<lambda>e. True) E) texts)
       = fp_malformed_lines p + length (written texts) \<and> diagnosed q"
proof (induction texts arbitrary: i p E)
  case Nil
  then show ?case by (simp add: written_def)
next
  case (Cons t texts)
  let ?n = "weight (\<lambda>e. True) E"
  note l = folded_line_accepts [OF Cons.prems(2,3), of t i]
  have "parse_folded_lines (i + 1) texts (folded_line i t p) = Inr q"
    using Cons.prems(1) by (simp split: if_splits)
  then have "profile_of ((E @ accepted ?n [t]) @ accepted (weight (\<lambda>e. True) (E @ accepted ?n [t])) texts) q \<and>
      fp_malformed_lines q + length (accepted (weight (\<lambda>e. True) (E @ accepted ?n [t])) texts)
        = fp_malformed_lines (folded_line i t p) + length (written texts) \<and> diagnosed q"
    using Cons.IH l by blast
  moreover have "length (written (t # texts)) = length (written [t]) + length (written texts)"
    by (simp add: written_def)
  ultimately show ?case using l unfolding accepted_Cons [of ?n t texts] by simp
qed

lemma empty_profile_of: "profile_of [] empty_profile" "diagnosed empty_profile"
  by (simp_all add: profile_of_def counts_by_def empty_profile_def diagnosed_def)

lemma parsed_profile:
  "parse_profile payload = Inr p \<Longrightarrow> profile_of (accepted 0 (lines_of payload)) p \<and>
     fp_malformed_lines p + length (accepted 0 (lines_of payload)) = length (written (lines_of payload)) \<and> diagnosed p"
  using parse_lines_accept [OF _ empty_profile_of] by (simp add: parse_profile_def empty_profile_def)

text \<open>The frames of a stack without its thread root, which stands alone only in a stack of one frame.\<close>

definition below_root :: "string list \<Rightarrow> string list" where
  "below_root frames = (case frames of root # frame # rest \<Rightarrow> frame # rest | _ \<Rightarrow> frames)"

lemma set_inclusive_frames: "set (inclusive_frames frames) = set (below_root frames)"
  by (auto simp: inclusive_frames_def below_root_def split: list.splits)

text \<open>
  C40: A parsed profile counts exactly its accepted lines: all samples, those with a given stack, leaf, thread or
  frame (a frame once per line, however often it recurs, and the thread root not), the kernel and unresolved ones;
  every other written line is counted as malformed, and the first eight are described.
\<close>

theorem profile_counts_exact:
  assumes "parse_profile payload = Inr p" and "E = accepted 0 (lines_of payload)"
  shows "unat (fp_total_samples p) = weight (\<lambda>e. True) E \<and>
    count_of (fp_stack_samples p) label = weight (\<lambda>e. fst e = label) E \<and>
    count_of (fp_self_samples p) label = weight (\<lambda>e. last (frames_of e) = label) E \<and>
    count_of (fp_thread_samples p) label = weight (\<lambda>e. hd (frames_of e) = label) E \<and>
    count_of (fp_inclusive_samples p) label = weight (\<lambda>e. label \<in> set (below_root (frames_of e))) E \<and>
    unat (fp_kernel_samples p) = weight (\<lambda>e. ends_with ''_[k]'' (last (frames_of e))) E \<and>
    unat (fp_unresolved_leaf_samples p) = weight (\<lambda>e. unresolved (last (frames_of e))) E \<and>
    unat (fp_unresolved_stack_samples p) = weight (\<lambda>e. list_ex unresolved (frames_of e)) E \<and>
    fp_malformed_lines p + length E = length (written (lines_of payload)) \<and>
    length (fp_diagnostics p) = min 8 (fp_malformed_lines p)"
  using parsed_profile [OF assms(1)] unfolding assms(2) [symmetric]
  by (simp add: profile_of_def counts_by_def diagnosed_def kernel_leaf_def [abs_def] set_inclusive_frames)

text \<open>
  A rejected line leaves no trace: whenever adding a line to a parsed profile fails, for its syntax or because
  a count would overflow, the profile is the one before the line.
\<close>

theorem profile_line_atomic:
  assumes "parse_profile payload = Inr p" and "add_line text p = (Inl e, p')"
  shows "p' = p"
  using parsed_profile [OF assms(1)] add_line_cases [of _ p "text"] assms(2) by fastforce

lemma weight_mono_on: "\<forall>e \<in> set E. P e \<longrightarrow> Q e \<Longrightarrow> weight P E \<le> weight Q E"
  by (induction E) (auto simp: add_mono trans_le_add2)

text \<open>
  Stacks, leaves and threads partition the samples of a profile, and its kernel, unresolved and inclusive
  counts are parts of them.
\<close>

theorem profile_partitions:
  assumes "parse_profile payload = Inr p"
  shows "sum_of (fp_stack_samples p) = unat (fp_total_samples p) \<and>
    sum_of (fp_self_samples p) = unat (fp_total_samples p) \<and>
    sum_of (fp_thread_samples p) = unat (fp_total_samples p) \<and>
    count_of (fp_inclusive_samples p) frame \<le> unat (fp_total_samples p) \<and>
    fp_kernel_samples p \<le> fp_total_samples p \<and>
    fp_unresolved_leaf_samples p \<le> fp_unresolved_stack_samples p \<and>
    fp_unresolved_stack_samples p \<le> fp_total_samples p"
proof -
  let ?E = "accepted 0 (lines_of payload)"
  have "weight (\<lambda>e. unresolved (last (frames_of e))) ?E \<le> weight (\<lambda>e. list_ex unresolved (frames_of e)) ?E"
    using accepted_frames [of _ 0 "lines_of payload"] by (intro weight_mono_on) (auto simp: list_ex_iff intro!: bexI [of _ "last _"])
  then show ?thesis using parsed_profile [OF assms] weight_le [of _ ?E]
    by (simp add: profile_of_def counts_by_def word_le_nat_alt)
qed

section \<open>An example\<close>

definition example_folded :: string where
  "example_folded = ''r;m;s 60'' @ [CHR 0x0A] @ ''r;p;p 5'' @ [CHR 0x0A] @ ''bad''"

lemma example_lines: "lines_of example_folded = [''r;m;s 60'', ''r;p;p 5'', ''bad'']"
  by (simp add: example_folded_def lines_of_def split_char_def strip_cr_def)

lemma example_parsed: "\<exists>p. parse_profile example_folded = Inr p"
  by (simp add: parse_profile_def example_lines MAX_FOLDED_LINES_def)

lemma example_trim: "trim ''r;m;s 60'' = ''r;m;s 60''" "trim ''r;p;p 5'' = ''r;p;p 5''" "trim ''bad'' = ''bad''"
  by code_simp+

lemma example_entries:
  "parse_folded ''r;m;s 60'' = Inr (''r;m;s'', [''r'', ''m'', ''s''], 60)"
  "parse_folded ''r;p;p 5'' = Inr (''r;p;p'', [''r'', ''p'', ''p''], 5)"
  "\<exists>e. parse_folded ''bad'' = Inl e"
proof -
  have digits: "char_of (54 :: nat) = CHR ''6''" "char_of (53 :: nat) = CHR ''5''" "char_of (48 :: nat) = CHR ''0''"
    by code_simp+
  have d: "parse_u64 ''60'' = Inr 60" "parse_u64 ''5'' = Inr 5"
    using parse_u64_show_word [of 60] parse_u64_show_word [of 5] digits
    by (simp_all add: show_word_def digit_char_def show_nat.simps)
  show "parse_folded ''r;m;s 60'' = Inr (''r;m;s'', [''r'', ''m'', ''s''], 60)"
    "parse_folded ''r;p;p 5'' = Inr (''r;p;p'', [''r'', ''p'', ''p''], 5)" "\<exists>e. parse_folded ''bad'' = Inl e"
    by (simp_all add: parse_folded_def rsplit_once_def stack_frames_def split_char_def d err_def)
qed

lemma example_accepted:
  "accepted 0 (lines_of example_folded) = [(''r;m;s'', [''r'', ''m'', ''s''], 60), (''r;p;p'', [''r'', ''p'', ''p''], 5)]"
  using example_entries(3) by (auto simp: example_lines example_trim example_entries(1,2) entry_samples_def)

theorem profile_counts_exact_witness:
  "\<exists>p. parse_profile example_folded = Inr p \<and> count_of (fp_self_samples p) ''s'' = 60 \<and>
     count_of (fp_inclusive_samples p) ''p'' = 5 \<and> fp_malformed_lines p = 1"
proof -
  obtain p where p: "parse_profile example_folded = Inr p" using example_parsed by blast
  then show ?thesis
    using profile_counts_exact [OF p example_accepted [symmetric], of "''s''"]
      profile_counts_exact [OF p example_accepted [symmetric], of "''p''"]
    by (auto simp: frames_of_def entry_samples_def below_root_def written_def example_lines example_trim)
qed

lemma bad_line: "parse_profile example_folded = Inr p \<Longrightarrow> \<exists>e. add_line ''bad'' p = (Inl e, p)"
  using example_entries(3) by (auto simp: add_line_def)

theorem profile_line_atomic_witness:
  "\<exists>p e p'. parse_profile example_folded = Inr p \<and> add_line ''bad'' p = (Inl e, p') \<and> p' = p"
proof -
  obtain p e where p: "parse_profile example_folded = Inr p" "add_line ''bad'' p = (Inl e, p)"
    using example_parsed bad_line by blast
  then show ?thesis using profile_line_atomic [OF p] by blast
qed

theorem profile_partitions_witness:
  "\<exists>p. parse_profile example_folded = Inr p \<and> sum_of (fp_self_samples p) = unat (fp_total_samples p)"
proof -
  obtain p where p: "parse_profile example_folded = Inr p" using example_parsed by blast
  then show ?thesis using profile_partitions [OF p] by blast
qed

section \<open>Rankings\<close>

text \<open>The order of a ranking: more samples first, then the labels ascending.\<close>

definition ranks_before :: "string \<times> u64 \<Rightarrow> string \<times> u64 \<Rightarrow> bool" where
  "ranks_before a b \<longleftrightarrow> snd b < snd a \<or> (snd a = snd b \<and> fst a < fst b)"

lemma complement_less: "(- 1 - x < - 1 - y) = (y < (x :: u64))"
proof -
  have c: "unat (- 1 - x) = 2 ^ 64 - 1 - unat x" for x :: u64
    using unat_sub [of x "- 1"] by (simp add: unat_minus_one_max)
  have "unat x < 2 ^ 64" "unat y < 2 ^ 64" using unat_less_2p [of x] unat_less_2p [of y] by simp_all
  then show ?thesis by (simp add: word_less_nat_alt c) linarith
qed

lemma complement_le: "(- 1 - x \<le> - 1 - y) = (y \<le> (x :: u64))"
  by (metis complement_less linorder_not_less)

lemma rank_key_less: "rank_key a < rank_key b \<longleftrightarrow> ranks_before a b"
  by (auto simp: rank_key_def ranks_before_def complement_less complement_le less_prod_def)

lemma rank_key_inject: "rank_key a = rank_key b \<longleftrightarrow> a = b"
  by (auto simp: rank_key_def prod_eq_iff)

end
