(* ===== verification/ProfilePrepareFacts.thy ===== *)
theory ProfilePrepareFacts
  imports ProfilePrepare ProfileFacts ComparisonFacts
begin

text \<open>
  The ready marker of a profile directory: it is removed before anything else changes and written after
  everything else is complete, so no state in between can be loaded, and a directory that \<open>prepare\<close>
  finished is one \<open>load_prepared\<close> accepts.
\<close>

section \<open>What an action touches\<close>

fun event_path :: "file_event \<Rightarrow> fs_path" where
  "event_path (FileRemoved p) = p"
| "event_path (FileStored p content) = p"

definition touches :: "fs_path set \<Rightarrow> (file_event, 'a) act \<Rightarrow> bool" where
  "touches P m \<longleftrightarrow> (\<forall>h. \<exists>es. snd (m h) = h @ es \<and> event_path ` set es \<subseteq> P)"

named_theorems touches_intros \<open>actions that change only the given files\<close>

lemma touchesI: "(\<And>h. \<exists>es. snd (m h) = h @ es \<and> event_path ` set es \<subseteq> P) \<Longrightarrow> touches P m"
  by (simp add: touches_def)

lemma touchesD:
  assumes "touches P m" "m h = (r, h')"
  obtains es where "h' = h @ es" "event_path ` set es \<subseteq> P"
proof -
  from assms(1) have "\<exists>es. snd (m h) = h @ es \<and> event_path ` set es \<subseteq> P" by (simp add: touches_def)
  moreover have "snd (m h) = h'" by (simp only: assms(2) snd_conv)
  ultimately have "\<exists>es. h' = h @ es \<and> event_path ` set es \<subseteq> P" by (simp only:)
  then show thesis by (elim exE conjE) (rule that)
qed

lemma touches_mono: "touches P m \<Longrightarrow> P \<subseteq> Q \<Longrightarrow> touches Q m"
  unfolding touches_def by (meson subset_trans)

lemma touches_pure [touches_intros]:
  "touches P (return_act x)" "touches P (lift_act r)" "touches P (fail_act msg)" "touches P (look w f)"
  by (auto simp: touches_def return_act_def lift_act_def fail_act_def look_def)

lemma touches_bind [touches_intros]:
  assumes "touches P m" "\<And>x. touches P (f x)"
  shows "touches P (bind_act m f)"
proof (rule touchesI)
  fix h
  obtain r h1 where m: "m h = (r, h1)" by fastforce
  from assms(1) this obtain es where es: "h1 = h @ es" "event_path ` set es \<subseteq> P" by (rule touchesD)
  show "\<exists>es. snd (bind_act m f h) = h @ es \<and> event_path ` set es \<subseteq> P"
  proof (cases r)
    case (Inl e)
    then show ?thesis using m es by (simp add: bind_act_def)
  next
    case (Inr x)
    obtain r' h2 where f: "f x h1 = (r', h2)" by fastforce
    from assms(2) this obtain es' where "h2 = h1 @ es'" "event_path ` set es' \<subseteq> P" by (rule touchesD)
    then show ?thesis using m es Inr f by (intro exI [of _ "es @ es'"]) (auto simp: bind_act_def)
  qed
qed

lemma touches_ensure [touches_intros]: "touches P m \<Longrightarrow> touches P (ensure_act c msg m)"
  by (simp add: ensure_act_def touches_intros)

lemma touches_if [touches_intros]: "touches P m \<Longrightarrow> touches P m' \<Longrightarrow> touches P (if c then m else m')"
  by simp

lemma touches_files [touches_intros]:
  "p \<in> P \<Longrightarrow> touches P (remove_file w p)" "p \<in> P \<Longrightarrow> touches P (create_file w p)"
  "p \<in> P \<Longrightarrow> touches P (write_file w msg p content)"
  by (auto simp: touches_def remove_file_def create_file_def write_file_def split: option.split)

lemma touches_tool [touches_intros]:
  assumes "target \<in> P" "stderr \<in> P"
  shows "touches P (run_to_file_with_handles w command target stderr label)"
  unfolding run_to_file_with_handles_def
  by (intro touches_intros) (use assms in \<open>auto simp: touches_def split: sum.split\<close>)

lemma touches_runs [touches_intros]:
  "target \<in> P \<Longrightarrow> stderr \<in> P \<Longrightarrow> touches P (run_to_file w command target stderr label)"
  "target \<in> P \<Longrightarrow> stderr \<in> P \<Longrightarrow> touches P (run_perf w args input target stderr)"
  "join_path input [name] \<in> P \<Longrightarrow> join_path input [name @ ''.stderr.log''] \<in> P \<Longrightarrow>
     touches P (run_perf_report w input perf_data name options)"
  unfolding run_to_file_def run_perf_def run_perf_report_def by (intro touches_intros; assumption)+

lemma touches_steps [touches_intros]:
  "folded \<in> P \<Longrightarrow> join_path input [''collapse.stderr.log''] \<in> P \<Longrightarrow> touches P (collapse_stacks w input script folded)"
  "join_path input [FLAMEGRAPH_FILE] \<in> P \<Longrightarrow> join_path input [''flamegraph.stderr.log''] \<in> P \<Longrightarrow>
     touches P (render_flamegraph w input folded)"
  "join_path input [ENVIRONMENT_FILE] \<in> P \<Longrightarrow> touches P (write_environment w input)"
  unfolding collapse_stacks_def render_flamegraph_def write_environment_def Let_def
  by (intro touches_intros; assumption)+

lemma touches_clear [touches_intros]:
  "join_path input ` (\<lambda>name. [name]) ` set names \<subseteq> P \<Longrightarrow> touches P (clear_files w input names)"
  by (induction names) (auto simp: Let_def intro!: touches_intros)

section \<open>The store\<close>

lemma store_at_append: "store_at w (h @ es) = fold apply_event es (store_at w h)"
  by (simp add: store_at_def)

lemma fold_untouched: "p \<notin> event_path ` set es \<Longrightarrow> fold apply_event es s p = s p"
proof (induction es arbitrary: s)
  case (Cons e es)
  then show ?case by (cases e) auto
qed simp

lemma untouched:
  assumes "touches P m" "m h = (r, h')" "p \<notin> P"
  shows "store_at w h' p = store_at w h p"
  using assms(1,2)
proof (rule touchesD)
  fix es assume "h' = h @ es" "event_path ` set es \<subseteq> P"
  then show ?thesis using assms(3) by (simp add: store_at_append) (intro fold_untouched, blast)
qed

lemma join_path_inj [simp]: "join_path p ns = join_path p ms \<longleftrightarrow> ns = ms"
  by (cases p) (auto simp: join_path_def)

lemma nonempty_iff:
  "ensure_nonempty p (files_at w h) = Inr () \<longleftrightarrow>
     pw_metadata_error w p = None \<and> (\<exists>content. store_at w h p = Some content \<and> content \<noteq> [])"
  by (auto simp: ensure_nonempty_def files_at_def io_result_def checked_iff err_def with_context_def
      split: option.splits sum.splits)

lemma answers_cong:
  assumes "store_at w h p = store_at w h' p"
  shows "rf_metadata (files_at w h) p = rf_metadata (files_at w h') p" "rf_read (files_at w h) p = rf_read (files_at w h') p"
  using assms by (auto simp: files_at_def split: option.split)

lemma nonempty_cong:
  assumes "store_at w h p = store_at w h' p"
  shows "ensure_nonempty p (files_at w h) = ensure_nonempty p (files_at w h')"
  unfolding ensure_nonempty_def answers_cong [OF assms] ..

lemma read_cong:
  assumes "store_at w h p = store_at w h' p"
  shows "read_limited p n (files_at w h) = read_limited p n (files_at w h')"
  unfolding read_limited_def answers_cong [OF assms] ..

lemma capture_cong:
  assumes "store_at w h (join_path input [CAPTURE_FILE]) = store_at w h' (join_path input [CAPTURE_FILE])"
  shows "load_capture w input (files_at w h) = load_capture w input (files_at w h')"
  unfolding load_capture_def read_cong [OF assms] ..

lemma with_file_name_join: "with_file_name (join_path p [a]) b = join_path p [b]"
  by (cases p) (simp add: with_file_name_def join_path_def)

lemma run_cong:
  assumes "pw_is_dir w input"
    and r: "store_at w h (join_path input [''result.json'']) = store_at w h' (join_path input [''result.json''])"
    and s: "store_at w h (join_path input [''samples.jsonl'']) = store_at w h' (join_path input [''samples.jsonl''])"
  shows "run_of w input (files_at w h) = run_of w input (files_at w h')"
proof -
  have "rf_is_dir (files_at w h) input" "rf_is_dir (files_at w h') input" using assms(1) by (simp_all add: files_at_def)
  then show ?thesis
    unfolding run_of_def load_run_def Let_def read_bounded_def read_within_def read_optional_bounded_def
    by (simp only: if_True with_file_name_join answers_cong [OF r] answers_cong [OF s])
qed

section \<open>The marker\<close>

abbreviation marker_path :: "fs_path \<Rightarrow> fs_path" where
  "marker_path input \<equiv> join_path input [PROFILE_READY_FILE]"

definition prepared_paths :: "fs_path \<Rightarrow> fs_path set" where
  "prepared_paths input = join_path input ` (\<lambda>name. [name]) ` set (tl PREPARED_FILES)"

lemma marker_apart: "marker_path input \<notin> prepared_paths input"
  by (auto simp: prepared_paths_def PREPARED_FILES_def PROFILE_READY_FILE_def ENVIRONMENT_FILE_def FOLDED_FILE_def
      FLAMEGRAPH_FILE_def)

lemma touches_prepare_files: "touches (prepared_paths input) (prepare_files w input)"
  unfolding prepare_files_def Let_def
  by (intro touches_intros) (simp_all add: prepared_paths_def PREPARED_FILES_def)

lemma touches_clear_rest: "touches (prepared_paths input) (clear_files w input (tl PREPARED_FILES))"
  by (intro touches_intros) (simp add: prepared_paths_def)

lemma unmarked_prefix:
  assumes "touches P m" "m h = (r, h')" "p \<notin> P" "store_at w h p = None" "prefix h g" "prefix g h'"
  shows "store_at w g p = None"
proof -
  from assms(1,2) obtain es where es: "h' = h @ es" "event_path ` set es \<subseteq> P" by (rule touchesD)
  obtain k where k: "g = h @ k" "prefix k es" using assms(5,6) es(1) by (auto simp: prefix_def)
  then have "set k \<subseteq> set es" using set_mono_prefix by blast
  then have "p \<notin> event_path ` set k" using es(2) assms(3) by blast
  then show ?thesis using k assms(4) by (simp add: store_at_append fold_untouched)
qed

text \<open>The work after the marker is gone: the rest of the clearing, then the files.\<close>

definition prepare_rest :: "profile_world \<Rightarrow> fs_path \<Rightarrow> (file_event, unit) act" where
  "prepare_rest w input =
     bind_act (clear_files w input (tl PREPARED_FILES)) (\<lambda>_. prepare_files w input)"

lemma touches_rest: "touches (prepared_paths input) (prepare_rest w input)"
  unfolding prepare_rest_def by (intro touches_bind touches_clear_rest touches_prepare_files)

lemma clear_first:
  assumes "clear_prepared w input h = (r, h')"
  shows "(\<exists>e. r = Inl e) \<and> h' = h \<or>
    (\<exists>h1. store_at w h1 (marker_path input) = None \<and> (h1 = h \<or> h1 = h @ [FileRemoved (marker_path input)]) \<and>
      clear_files w input (tl PREPARED_FILES) h1 = (r, h'))"
proof -
  have files: "PREPARED_FILES = PROFILE_READY_FILE # tl PREPARED_FILES" by (simp add: PREPARED_FILES_def)
  have clear: "bind_act (remove_file w (marker_path input)) (\<lambda>removal.
      bind_act (if removal = Inl NotFound then return_act ()
        else lift_act (io_result (''failed to remove '' @ show_path (marker_path input)) removal)) (\<lambda>_.
      clear_files w input (tl PREPARED_FILES))) h = (r, h')"
    using assms unfolding clear_prepared_def by (subst (asm) files) (simp add: Let_def)
  note ops = remove_file_def bind_act_def io_result_def err_def with_context_def lift_act_def return_act_def
  consider msg where "pw_remove_error w h (marker_path input) = Some msg"
    | "pw_remove_error w h (marker_path input) = None" "store_at w h (marker_path input) = None"
    | content where "pw_remove_error w h (marker_path input) = None" "store_at w h (marker_path input) = Some content"
    by fastforce
  then show ?thesis
  proof cases
    case 1
    then show ?thesis using clear by (simp add: ops) blast
  next
    case 2
    then show ?thesis using clear by (intro disjI2 exI [of _ h]) (simp add: ops)
  next
    case 3
    then show ?thesis using clear
      by (intro disjI2 exI [of _ "h @ [FileRemoved (marker_path input)]"]) (simp add: ops store_at_append)
  qed
qed

lemma bind_assoc: "bind_act (bind_act m f) g = bind_act m (\<lambda>x. bind_act (f x) g)"
  by (auto simp: bind_act_def fun_eq_iff split: prod.split sum.split)

lemma prepare_split:
  assumes "prepare w input h = (r, h')"
  shows "h' = h \<or>
    (\<exists>h1 r1 h2. store_at w h1 (marker_path input) = None \<and> (h1 = h \<or> h1 = h @ [FileRemoved (marker_path input)]) \<and>
      prepare_rest w input h1 = (r1, h2) \<and>
      ((\<exists>e. r1 = Inl e) \<and> h' = h2 \<or>
       r1 = Inr () \<and> write_file w ''failed to mark the CPU profile as complete'' (marker_path input) (''ready'' @ [CHR 0x0A]) h2 = (r, h')))"
proof (cases "pw_is_dir w input")
  case False
  then show ?thesis using assms by (simp add: prepare_def ensure_act_def fail_act_def lift_act_def)
next
  case True
  let ?mark = "write_file w ''failed to mark the CPU profile as complete'' (marker_path input) (''ready'' @ [CHR 0x0A])"
  have p: "bind_act (clear_prepared w input) (\<lambda>_. bind_act (prepare_files w input) (\<lambda>_. ?mark)) h = (r, h')"
    using assms True by (simp add: prepare_def ensure_act_def)
  obtain r0 h0 where c: "clear_prepared w input h = (r0, h0)" by fastforce
  from clear_first [OF c] show ?thesis
  proof
    assume "(\<exists>e. r0 = Inl e) \<and> h0 = h"
    then show ?thesis using p c by (auto simp: bind_act_def)
  next
    assume "\<exists>h1. store_at w h1 (marker_path input) = None \<and> (h1 = h \<or> h1 = h @ [FileRemoved (marker_path input)]) \<and>
      clear_files w input (tl PREPARED_FILES) h1 = (r0, h0)"
    then obtain h1 where h1: "store_at w h1 (marker_path input) = None"
      "h1 = h \<or> h1 = h @ [FileRemoved (marker_path input)]" "clear_files w input (tl PREPARED_FILES) h1 = (r0, h0)" by blast
    then have "bind_act (prepare_rest w input) (\<lambda>_. ?mark) h1 = (r, h')"
      using p c unfolding prepare_rest_def bind_assoc by (auto simp: bind_act_def split: sum.splits)
    moreover obtain r1 h2 where r1: "prepare_rest w input h1 = (r1, h2)" by fastforce
    ultimately have "(\<exists>e. r1 = Inl e) \<and> h' = h2 \<or> r1 = Inr () \<and> ?mark h2 = (r, h')"
      by (cases r1) (auto simp: bind_act_def)
    then show ?thesis using h1(1,2) r1 by blast
  qed
qed

lemma load_needs_marker:
  "load_prepared w input (files_at w g) = Inr p \<Longrightarrow> store_at w g (marker_path input) \<noteq> None"
  by (auto simp: load_prepared_def REQUIRED_FILES_def checked_iff nonempty_iff)

text \<open>
  C38: no half-prepared directory can be loaded. However \<open>prepare\<close> ends, and at whatever change of the
  directory the machine stops, the directory is loadable only if nothing has been changed yet or if every step
  is complete and the marker is written.
\<close>

theorem prepare_never_half_done:
  assumes "prepare w input h = (r, h')" "prefix h g" "prefix g h'"
    and "load_prepared w input (files_at w g) = Inr p"
  shows "g = h \<or> g = h' \<and> (\<exists>h1 h2 content. prepare_rest w input h1 = (Inr (), h2) \<and>
    h' = h2 @ [FileStored (marker_path input) content])"
proof (cases "g = h")
  case False
  have marked: "store_at w g (marker_path input) \<noteq> None" using load_needs_marker [OF assms(4)] .
  have "h' \<noteq> h" using False assms(2,3) by (metis prefix_order.antisym)
  then obtain h1 r1 h2 where
    h1: "store_at w h1 (marker_path input) = None" "h1 = h \<or> h1 = h @ [FileRemoved (marker_path input)]"
    and rest: "prepare_rest w input h1 = (r1, h2)"
    and final: "(\<exists>e. r1 = Inl e) \<and> h' = h2 \<or>
       r1 = Inr () \<and> write_file w ''failed to mark the CPU profile as complete'' (marker_path input) (''ready'' @ [CHR 0x0A]) h2 = (r, h')"
    using prepare_split [OF assms(1)] by blast
  have ending: "h' = h2 \<or> r1 = Inr () \<and> (\<exists>content. h' = h2 @ [FileStored (marker_path input) content])"
    using final by (auto simp: write_file_def split: option.splits)
  have "\<not> prefix g h2"
  proof
    assume g: "prefix g h2"
    from touches_rest rest obtain es where es: "h2 = h1 @ es" by (rule touchesD)
    obtain k where k: "g = h @ k" "k \<noteq> []" using assms(2) False by (auto simp: prefix_def)
    have "prefix h1 g"
      using h1(2)
    proof
      assume h1: "h1 = h @ [FileRemoved (marker_path input)]"
      then have "prefix k (FileRemoved (marker_path input) # es)" using g es k(1) by simp
      then show ?thesis using h1 k by (cases k) auto
    qed (use assms(2) in simp)
    then show False using unmarked_prefix [OF touches_rest rest marker_apart h1(1) _ g] marked by blast
  qed
  then show ?thesis using ending assms(3) rest by auto
qed simp

section \<open>A prepared directory loads\<close>

lemma tool_output: "run_to_file_with_handles w command target stderr label h = (Inr (), h') \<Longrightarrow>
    ensure_nonempty target (files_at w h') = Inr ()"
  by (auto simp: run_to_file_with_handles_def act_Inr look_def)

lemma step_outputs:
  "run_perf w args input target stderr h = (Inr (), h') \<Longrightarrow> ensure_nonempty target (files_at w h') = Inr ()"
  "run_perf_report w input perf_data name options h = (Inr (), h') \<Longrightarrow>
     ensure_nonempty (join_path input [name]) (files_at w h') = Inr ()"
  "render_flamegraph w input folded h = (Inr (), h') \<Longrightarrow>
     ensure_nonempty (join_path input [FLAMEGRAPH_FILE]) (files_at w h') = Inr ()"
  by (auto simp: run_perf_def run_perf_report_def render_flamegraph_def run_to_file_def act_Inr Let_def dest: tool_output)

lemma look_Inr: "look w f h = (Inr x, h') \<longleftrightarrow> f (files_at w h) = Inr x \<and> h' = h"
  by (auto simp: look_def)

lemma steps_keep:
  "render_flamegraph w input folded h = (r, h') \<Longrightarrow>
     p \<notin> {join_path input [FLAMEGRAPH_FILE], join_path input [''flamegraph.stderr.log'']} \<Longrightarrow> store_at w h' p = store_at w h p"
  "run_perf w args file target stderr h = (r, h') \<Longrightarrow> p \<notin> {target, stderr} \<Longrightarrow> store_at w h' p = store_at w h p"
  "run_perf_report w input file name options h = (r, h') \<Longrightarrow>
     p \<notin> {join_path input [name], join_path input [name @ ''.stderr.log'']} \<Longrightarrow> store_at w h' p = store_at w h p"
  "write_environment w input h = (r, h') \<Longrightarrow> p \<notin> {join_path input [ENVIRONMENT_FILE]} \<Longrightarrow> store_at w h' p = store_at w h p"
proof -
  have t: "touches {join_path input [FLAMEGRAPH_FILE], join_path input [''flamegraph.stderr.log'']} (render_flamegraph w input folded)"
    "touches {target, stderr} (run_perf w args file target stderr)"
    "touches {join_path input [name], join_path input [name @ ''.stderr.log'']} (run_perf_report w input file name options)"
    "touches {join_path input [ENVIRONMENT_FILE]} (write_environment w input)"
    by (intro touches_intros; simp)+
  note k = untouched [OF t(1)] untouched [OF t(2)] untouched [OF t(3)] untouched [OF t(4)]
  show "render_flamegraph w input folded h = (r, h') \<Longrightarrow>
     p \<notin> {join_path input [FLAMEGRAPH_FILE], join_path input [''flamegraph.stderr.log'']} \<Longrightarrow> store_at w h' p = store_at w h p"
    "run_perf w args file target stderr h = (r, h') \<Longrightarrow> p \<notin> {target, stderr} \<Longrightarrow> store_at w h' p = store_at w h p"
    "run_perf_report w input file name options h = (r, h') \<Longrightarrow>
     p \<notin> {join_path input [name], join_path input [name @ ''.stderr.log'']} \<Longrightarrow> store_at w h' p = store_at w h p"
    "write_environment w input h = (r, h') \<Longrightarrow> p \<notin> {join_path input [ENVIRONMENT_FILE]} \<Longrightarrow> store_at w h' p = store_at w h p"
    by (erule (1) k)+
qed

lemma ex_unit: "(\<exists>x :: unit. P x) \<longleftrightarrow> P ()"
  by (rule iffI; (elim exE)?; auto)

lemma prepared_files_kept:
  assumes "prepare_files w input h = (Inr (), h')"
  shows "ensure_nonempty (join_path input [PERF_DATA_FILE]) (files_at w h) = Inr ()"
    "\<exists>capture. load_capture w input (files_at w h) = Inr capture"
    "\<exists>run. run_of w input (files_at w h) = Inr run \<and> validate_run run = Inr ()"
    "list_all (\<lambda>name. ensure_nonempty (join_path input [name]) (files_at w h') = Inr ())
       [FLAMEGRAPH_FILE, ''perf-header.txt'', ''hotspots-self.txt'', ''hotspots-inclusive.txt'', ''threads.txt'']"
    "\<exists>folded profile. read_limited (join_path input [FOLDED_FILE]) FOLDED_LIMIT_BYTES (files_at w h') = Inr folded \<and>
       parse_profile folded = Inr profile \<and> 0 < fp_total_samples profile"
    "\<exists>payload. pw_encode_environment w (environment_of w) = Inr payload \<and>
       store_at w h' (join_path input [ENVIRONMENT_FILE]) = Some payload"
proof -
  let ?p = "\<lambda>name. join_path input [name]"
  obtain k1 k2 k3 k4 k5 k6 k7 capture run folded profile where steps:
    "ensure_nonempty (?p PERF_DATA_FILE) (files_at w h) = Inr ()"
    "load_capture w input (files_at w h) = Inr capture"
    "run_of w input (files_at w h) = Inr run" "validate_run run = Inr ()"
    "run_perf w [''script'', ''--fields'', ''sw:-period'', ''--input''] (?p PERF_DATA_FILE) (?p ''perf.script'')
        (?p ''perf-script.stderr.log'') h = (Inr (), k1)"
    "collapse_stacks w input (?p ''perf.script'') (?p FOLDED_FILE) k1 = (Inr (), k2)"
    "read_limited (?p FOLDED_FILE) FOLDED_LIMIT_BYTES (files_at w k2) = Inr folded" "parse_profile folded = Inr profile"
    "0 < fp_total_samples profile"
    "render_flamegraph w input (?p FOLDED_FILE) k2 = (Inr (), k3)"
    "run_perf w [''report'', ''--stdio'', ''--header-only'', ''--input''] (?p PERF_DATA_FILE) (?p ''perf-header.txt'')
        (?p ''perf-header.stderr.log'') k3 = (Inr (), k4)"
    "run_perf_report w input (?p PERF_DATA_FILE) ''hotspots-self.txt'' [''--no-children'', ''--sort'', ''comm,dso,symbol''] k4 = (Inr (), k5)"
    "run_perf_report w input (?p PERF_DATA_FILE) ''hotspots-inclusive.txt'' [''--children'', ''--sort'', ''comm,dso,symbol''] k5 = (Inr (), k6)"
    "run_perf_report w input (?p PERF_DATA_FILE) ''threads.txt'' [''--no-children'', ''--sort'', ''comm,pid''] k6 = (Inr (), k7)"
    "write_environment w input k7 = (Inr (), h')"
    using assms unfolding prepare_files_def Let_def act_Inr look_Inr checked_iff ex_unit by blast
  have keep: "p \<notin> {?p FLAMEGRAPH_FILE, ?p ''flamegraph.stderr.log''} \<Longrightarrow> store_at w k3 p = store_at w k2 p"
    "p \<notin> {?p ''perf-header.txt'', ?p ''perf-header.stderr.log''} \<Longrightarrow> store_at w k4 p = store_at w k3 p"
    "p \<notin> {?p ''hotspots-self.txt'', ?p ''hotspots-self.txt.stderr.log''} \<Longrightarrow> store_at w k5 p = store_at w k4 p"
    "p \<notin> {?p ''hotspots-inclusive.txt'', ?p ''hotspots-inclusive.txt.stderr.log''} \<Longrightarrow> store_at w k6 p = store_at w k5 p"
    "p \<notin> {?p ''threads.txt'', ?p ''threads.txt.stderr.log''} \<Longrightarrow> store_at w k7 p = store_at w k6 p"
    "p \<notin> {?p ENVIRONMENT_FILE} \<Longrightarrow> store_at w h' p = store_at w k7 p" for p
    using steps_keep(1) [OF steps(10)] steps_keep(2) [OF steps(11)] steps_keep(3) [OF steps(12)] steps_keep(3) [OF steps(13)]
      steps_keep(3) [OF steps(14)] steps_keep(4) [OF steps(15)] by simp_all
  have out: "ensure_nonempty (?p FLAMEGRAPH_FILE) (files_at w k3) = Inr ()" "ensure_nonempty (?p ''perf-header.txt'') (files_at w k4) = Inr ()"
    "ensure_nonempty (?p ''hotspots-self.txt'') (files_at w k5) = Inr ()"
    "ensure_nonempty (?p ''hotspots-inclusive.txt'') (files_at w k6) = Inr ()" "ensure_nonempty (?p ''threads.txt'') (files_at w k7) = Inr ()"
    using steps(10-14) by (auto dest: step_outputs)
  show "ensure_nonempty (join_path input [PERF_DATA_FILE]) (files_at w h) = Inr ()"
    "\<exists>capture. load_capture w input (files_at w h) = Inr capture"
    "\<exists>run. run_of w input (files_at w h) = Inr run \<and> validate_run run = Inr ()"
    using steps(1-4) by simp_all
  show "list_all (\<lambda>name. ensure_nonempty (join_path input [name]) (files_at w h') = Inr ())
       [FLAMEGRAPH_FILE, ''perf-header.txt'', ''hotspots-self.txt'', ''hotspots-inclusive.txt'', ''threads.txt'']"
    using out by (simp add: nonempty_iff keep FLAMEGRAPH_FILE_def ENVIRONMENT_FILE_def)
  have "store_at w h' (?p FOLDED_FILE) = store_at w k2 (?p FOLDED_FILE)"
    by (simp add: keep FLAMEGRAPH_FILE_def ENVIRONMENT_FILE_def FOLDED_FILE_def)
  then show "\<exists>folded profile. read_limited (join_path input [FOLDED_FILE]) FOLDED_LIMIT_BYTES (files_at w h') = Inr folded \<and>
       parse_profile folded = Inr profile \<and> 0 < fp_total_samples profile"
    using steps(7-9) read_cong by metis
  show "\<exists>payload. pw_encode_environment w (environment_of w) = Inr payload \<and>
       store_at w h' (join_path input [ENVIRONMENT_FILE]) = Some payload"
    using steps(15)
    by (auto simp: write_environment_def act_Inr checked_iff write_file_def store_at_append err_def with_context_def
        split: option.splits sum.splits)
qed

lemma prepared_directory:
  assumes "prepare w input h = (Inr (), h')"
    and "pw_encode_environment w (environment_of w) = Inr payload"
    and "pw_decode_environment w payload = Inr (environment_of w)"
    and "length payload \<le> CAPTURE_LIMIT_BYTES" "from_utf8 payload = Inr payload"
    and "pw_metadata_error w (join_path input [ENVIRONMENT_FILE]) = None" "pw_read_error w (join_path input [ENVIRONMENT_FILE]) = None"
    and "pw_metadata_error w (join_path input [PROFILE_READY_FILE]) = None"
  shows "\<exists>p. load_prepared w input (files_at w h') = Inr p \<and> pp_environment p = environment_of w \<and>
    0 < fp_total_samples (pp_profile p) \<and> validate_run (pp_run p) = Inr () \<and>
    run_of w input (files_at w h) = Inr (pp_run p) \<and> load_capture w input (files_at w h) = Inr (pp_capture p)"
proof -
  let ?p = "\<lambda>name. join_path input [name]"
  have dir: "pw_is_dir w input" using assms(1) by (simp add: prepare_def ensure_act_Inr)
  obtain h0 h2 where s: "clear_prepared w input h = (Inr (), h0)" "prepare_files w input h0 = (Inr (), h2)"
    "write_file w ''failed to mark the CPU profile as complete'' (marker_path input) (''ready'' @ [CHR 0x0A]) h2 = (Inr (), h')"
    using assms(1) unfolding prepare_def act_Inr ex_unit by blast
  have h': "h' = h2 @ [FileStored (marker_path input) (''ready'' @ [CHR 0x0A])]"
    using s(3) by (auto simp: write_file_def err_def with_context_def split: option.splits)
  have marked: "store_at w h' p = (if p = marker_path input then Some (''ready'' @ [CHR 0x0A]) else store_at w h2 p)" for p
    by (simp add: h' store_at_append)
  have cleared: "p \<notin> join_path input ` (\<lambda>name. [name]) ` set PREPARED_FILES \<Longrightarrow> store_at w h0 p = store_at w h p" for p
    by (rule untouched [OF touches_clear [OF subset_refl] s(1) [unfolded clear_prepared_def]])
  have kept: "p \<notin> prepared_paths input \<Longrightarrow> store_at w h2 p = store_at w h0 p" for p
    by (rule untouched [OF touches_prepare_files s(2)])
  have old: "store_at w h' (?p name) = store_at w h (?p name)" "store_at w h' (?p name) = store_at w h0 (?p name)"
    if "name \<notin> set PREPARED_FILES" for name
  proof -
    have "name \<noteq> PROFILE_READY_FILE" "?p name \<notin> prepared_paths input"
      "?p name \<notin> join_path input ` (\<lambda>name. [name]) ` set PREPARED_FILES"
      using that by (auto simp: prepared_paths_def PREPARED_FILES_def)
    then show "store_at w h' (?p name) = store_at w h (?p name)" "store_at w h' (?p name) = store_at w h0 (?p name)"
      using cleared kept by (simp_all add: marked)
  qed
  have names: "PERF_DATA_FILE \<notin> set PREPARED_FILES" "CAPTURE_FILE \<notin> set PREPARED_FILES" "''result.json'' \<notin> set PREPARED_FILES"
    "''samples.jsonl'' \<notin> set PREPARED_FILES"
    by (simp_all add: PREPARED_FILES_def PROFILE_READY_FILE_def ENVIRONMENT_FILE_def FOLDED_FILE_def FLAMEGRAPH_FILE_def
        PERF_DATA_FILE_def CAPTURE_FILE_def)
  note f = prepared_files_kept [OF s(2)]
  have same: "load_capture w input (files_at w h') = load_capture w input (files_at w h)"
    "load_capture w input (files_at w h') = load_capture w input (files_at w h0)"
    "run_of w input (files_at w h') = run_of w input (files_at w h)" "run_of w input (files_at w h') = run_of w input (files_at w h0)"
    by (rule capture_cong, rule old(1), rule names(2), rule capture_cong, rule old(2), rule names(2),
        rule run_cong, rule dir, rule old(1), rule names(3), rule old(1), rule names(4),
        rule run_cong, rule dir, rule old(2), rule names(3), rule old(2), rule names(4))
  have outputs: "ensure_nonempty (?p name) (files_at w h') = Inr ()"
    if "name \<in> {FLAMEGRAPH_FILE, ''perf-header.txt'', ''hotspots-self.txt'', ''hotspots-inclusive.txt'', ''threads.txt''}" for name
  proof -
    have "store_at w h' (?p name) = store_at w h2 (?p name)"
      using that by (auto simp: marked PROFILE_READY_FILE_def FLAMEGRAPH_FILE_def)
    then have "ensure_nonempty (?p name) (files_at w h') = ensure_nonempty (?p name) (files_at w h2)" by (rule nonempty_cong)
    moreover have "ensure_nonempty (?p name) (files_at w h2) = Inr ()" using f(4) that by auto
    ultimately show ?thesis by simp
  qed
  have perf: "ensure_nonempty (?p PERF_DATA_FILE) (files_at w h') = Inr ()"
    using f(1) nonempty_cong [OF old(2) [OF names(1)]] by simp
  have ready: "ensure_nonempty (?p PROFILE_READY_FILE) (files_at w h') = Inr ()"
    using assms(8) by (simp add: nonempty_iff marked)
  have all: "ensure_all_nonempty input REQUIRED_FILES (files_at w h') = Inr ()"
    using outputs perf ready by (simp add: REQUIRED_FILES_def)
  have env: "load_environment w input (files_at w h') = Inr (environment_of w)"
  proof -
    have "store_at w h' (?p ENVIRONMENT_FILE) = Some payload"
      using f(6) assms(2) by (auto simp: marked ENVIRONMENT_FILE_def PROFILE_READY_FILE_def)
    then have "rf_metadata (files_at w h') (?p ENVIRONMENT_FILE) = Inr (length payload)"
      "rf_read (files_at w h') (?p ENVIRONMENT_FILE) = Inr payload"
      using assms(6,7) by (simp_all add: files_at_def)
    then show ?thesis using assms(3-5)
      by (simp add: load_environment_def read_limited_def io_result_def with_context_def environment_of_def)
  qed
  have "store_at w h' (?p FOLDED_FILE) = store_at w h2 (?p FOLDED_FILE)" by (simp add: marked FOLDED_FILE_def PROFILE_READY_FILE_def)
  then obtain folded profile where fold: "read_limited (?p FOLDED_FILE) FOLDED_LIMIT_BYTES (files_at w h') = Inr folded"
    "parse_profile folded = Inr profile" "0 < fp_total_samples profile"
    using f(5) read_cong by metis
  obtain capture run where run: "load_capture w input (files_at w h') = Inr capture" "run_of w input (files_at w h') = Inr run"
    "validate_run run = Inr ()" using f(2,3) same by auto
  have "load_prepared w input (files_at w h')
      = Inr \<lparr>pp_run = run, pp_capture = capture, pp_environment = environment_of w, pp_profile = profile\<rparr>"
    unfolding load_prepared_def all env fold(1,2) run bind_ok_simps ensure_def using fold(3) by simp
  then show ?thesis using fold(3) run same by auto
qed

text \<open>
  what \<open>prepare\<close> finished, \<open>load_prepared\<close> accepts, with the run and the capture the directory already held,
  the profile of the collapsed stacks and the environment as it was encoded, provided the encoding of the
  environment decodes again, keeps the size limit and the two new files can be read.
\<close>

theorem prepared_loads:
  assumes "prepare w input h = (Inr (), h')"
    and "pw_encode_environment w (environment_of w) = Inr payload"
    and "pw_decode_environment w payload = Inr (environment_of w)"
    and "length payload \<le> CAPTURE_LIMIT_BYTES" "from_utf8 payload = Inr payload"
    and "pw_metadata_error w (join_path input [ENVIRONMENT_FILE]) = None" "pw_read_error w (join_path input [ENVIRONMENT_FILE]) = None"
    and "pw_metadata_error w (join_path input [PROFILE_READY_FILE]) = None"
  shows "\<exists>p. load_prepared w input (files_at w h') = Inr p \<and> pp_environment p = environment_of w \<and>
    0 < fp_total_samples (pp_profile p) \<and> validate_run (pp_run p) = Inr () \<and>
    run_of w input (files_at w h) = Inr (pp_run p) \<and> load_capture w input (files_at w h) = Inr (pp_capture p)"
  using prepared_directory [OF assms] .

section \<open>An example\<close>

text \<open>A directory with a result, a capture and \<open>perf.data\<close>, in a world where nothing fails.\<close>

definition example_input :: fs_path where "example_input = \<lparr>rooted = True, components = [''out'']\<rparr>"

definition example_capture :: capture_metadata where
  "example_capture = \<lparr>cm_schema_version = 1, cm_event = EVENT, cm_frequency_hz = FREQUENCY_HZ, cm_call_graph = CALL_GRAPH,
     cm_duration_ms = 1500\<rparr>"

definition example_world :: "(string \<Rightarrow> environment_metadata result) \<Rightarrow> profile_world" where
  "example_world decode =
     \<lparr>pw_files = (\<lambda>p. if p \<in> join_path example_input ` {[''result.json''], [CAPTURE_FILE], [PERF_DATA_FILE]} then Some ''x'' else None),
      pw_is_dir = (\<lambda>p. True), pw_metadata_error = (\<lambda>p. None), pw_read_error = (\<lambda>p. None),
      pw_remove_error = (\<lambda>h p. None), pw_create_error = (\<lambda>h p. None), pw_write_error = (\<lambda>h p. None),
      pw_tool = (\<lambda>h command. Inr \<lparr>tool_stdout = ''r;p;p 5'', tool_stderr = [], tool_status = ExitStatus True ''0''\<rparr>),
      pw_decode_result = (\<lambda>payload. Inr (example_result ''r'')),
      pw_serde = \<lparr>decode_value = (\<lambda>s. Inl []), decode_record = (\<lambda>v. Inl [])\<rparr>,
      pw_decode_capture = (\<lambda>payload. Inr example_capture), pw_decode_environment = decode,
      pw_encode_environment = (\<lambda>e. Inr ''x''), pw_system_file = (\<lambda>path. None), pw_variable = (\<lambda>name. None),
      pw_output = (\<lambda>program args. None), pw_parallelism = Some 4\<rparr>"

definition example_profile_world :: profile_world where
  "example_profile_world = example_world (\<lambda>payload. Inr (environment_of (example_world (\<lambda>payload. err []))))"

lemma example_environment: "environment_of example_profile_world = environment_of (example_world (\<lambda>payload. err []))"
  by (simp add: environment_of_def example_profile_world_def example_world_def cpu_model_def command_value_def
      runner_image_def system_value_def)

lemma example_answers [simp]:
  "pw_is_dir example_profile_world p" "pw_metadata_error example_profile_world p = None"
  "pw_read_error example_profile_world p = None" "pw_remove_error example_profile_world h p = None"
  "pw_create_error example_profile_world h p = None" "pw_write_error example_profile_world h p = None"
  "pw_tool example_profile_world h c = Inr \<lparr>tool_stdout = ''r;p;p 5'', tool_stderr = [], tool_status = ExitStatus True ''0''\<rparr>"
  "pw_decode_result example_profile_world s = Inr (example_result ''r'')"
  "pw_decode_capture example_profile_world s = Inr example_capture"
  "pw_encode_environment example_profile_world e = Inr ''x''"
  "pw_decode_environment example_profile_world s = Inr (environment_of example_profile_world)"
  by (simp_all add: example_environment) (simp_all add: example_profile_world_def example_world_def)

lemma example_clears: "\<exists>h'. clear_files example_profile_world input names h = (Inr (), h')"
  by (induction names arbitrary: h)
    (auto simp: Let_def bind_act_def remove_file_def return_act_def lift_act_def io_result_def split: option.split)

lemma example_tool:
  "run_to_file_with_handles example_profile_world c target stderr label h
     = (Inr (), h @ [FileStored stderr [], FileStored target ''r;p;p 5''])"
  by (simp add: run_to_file_with_handles_def bind_act_def ensure_act_def look_def nonempty_iff store_at_append)

lemma example_creates: "create_file example_profile_world p h = (Inr (), h @ [FileStored p []])"
  by (simp add: create_file_def)

lemma example_text: "from_utf8 ''x'' = Inr ''x''" "from_utf8 ''r;p;p 5'' = Inr ''r;p;p 5''"
  by (simp_all add: from_utf8_def utf8_ascii)

lemma example_profile: "\<exists>p. parse_profile ''r;p;p 5'' = Inr p \<and> 0 < fp_total_samples p"
proof -
  have l: "lines_of ''r;p;p 5'' = [''r;p;p 5'']" by (simp add: lines_of_def split_char_def strip_cr_def)
  show ?thesis
    by (simp add: parse_profile_def l MAX_FOLDED_LINES_def folded_line_def example_trim add_line_def example_entries(2)
        line_updates_def inclusive_frames_def add_total_def add_stack_def add_self_def add_thread_def add_inclusive_def
        add_kernel_def add_unresolved_leaf_def add_unresolved_stack_def empty_profile_def checked_add_def unresolved_def
        starts_with_def ends_with_def Let_def)
qed

lemma example_runs:
  "\<exists>h'. run_perf example_profile_world args file target stderr h = (Inr (), h')"
  "\<exists>h'. run_perf_report example_profile_world input file name options h = (Inr (), h')"
  "\<exists>h'. collapse_stacks example_profile_world input script folded h = (Inr (), h') \<and> store_at example_profile_world h' folded = Some ''r;p;p 5''"
  "\<exists>h'. write_environment example_profile_world input h = (Inr (), h')"
  by (simp_all add: run_perf_def run_perf_report_def collapse_stacks_def run_to_file_def bind_act_def example_creates
      example_tool store_at_append write_environment_def lift_act_def write_file_def)

lemma example_run:
  assumes "store_at example_profile_world h (join_path input [''result.json'']) = Some ''x''"
    and "store_at example_profile_world h (join_path input [''samples.jsonl'']) = None"
  shows "run_of example_profile_world input (files_at example_profile_world h)
      = Inr \<lparr>rd_source = show_path input, rd_result = example_result ''r'', rd_samples = None\<rparr>"
  using assms
  by (simp add: run_of_def load_run_def files_at_def read_bounded_def read_within_def read_optional_bounded_def
      with_file_name_join Let_def io_result_def RESULT_LIMIT_BYTES_def)

lemma example_flamegraph:
  assumes "store_at example_profile_world h (join_path input [''result.json'']) = Some ''x''"
    and "store_at example_profile_world h (join_path input [''samples.jsonl'']) = None"
  shows "\<exists>h'. render_flamegraph example_profile_world input folded h = (Inr (), h')"
  using example_run [OF assms]
  by (simp add: render_flamegraph_def bind_act_def look_def run_to_file_def example_creates example_tool Let_def)

lemma example_revision_valid: "validate_run \<lparr>rd_source = source, rd_result = example_result ''r'', rd_samples = None\<rparr> = Inr ()"
  using example_passed [of "''r''"] by (simp add: run_passed_def is_ok_iff validate_run_def example_run_def)

definition holds_inputs :: "fs_path \<Rightarrow> file_event list \<Rightarrow> bool" where
  "holds_inputs input h \<longleftrightarrow>
     list_all (\<lambda>name. store_at example_profile_world h (join_path input [name]) = Some ''x'')
       [''result.json'', CAPTURE_FILE, PERF_DATA_FILE] \<and>
     store_at example_profile_world h (join_path input [''samples.jsonl'']) = None"

lemma example_prepares:
  assumes "holds_inputs input h"
  shows "\<exists>h'. prepare_files example_profile_world input h = (Inr (), h')"
proof -
  let ?w = example_profile_world and ?p = "\<lambda>name. join_path input [name]"
  have capture: "load_capture ?w input (files_at ?w h) = Inr example_capture"
    using assms
    by (simp add: load_capture_def read_limited_def files_at_def io_result_def holds_inputs_def CAPTURE_LIMIT_BYTES_def
        example_text with_context_def example_capture_def)
  have perf: "ensure_nonempty (?p PERF_DATA_FILE) (files_at ?w h) = Inr ()"
    using assms by (simp add: nonempty_iff holds_inputs_def)
  note run = example_run [of h input]
  obtain k1 where k1: "run_perf ?w [''script'', ''--fields'', ''sw:-period'', ''--input''] (?p PERF_DATA_FILE) (?p ''perf.script'')
        (?p ''perf-script.stderr.log'') h = (Inr (), k1)" using example_runs(1) by blast
  obtain k2 where k2: "collapse_stacks ?w input (?p ''perf.script'') (?p FOLDED_FILE) k1 = (Inr (), k2)"
    "store_at ?w k2 (?p FOLDED_FILE) = Some ''r;p;p 5''" using example_runs(3) by blast
  have t: "touches {?p FOLDED_FILE, ?p ''collapse.stderr.log''} (collapse_stacks ?w input (?p ''perf.script'') (?p FOLDED_FILE))"
    by (intro touches_intros) simp_all
  have "store_at ?w k2 (?p name) = store_at ?w h (?p name)"
    if "name \<notin> {FOLDED_FILE, ''collapse.stderr.log'', ''perf.script'', ''perf-script.stderr.log''}" for name
    using untouched [OF t k2(1)] steps_keep(2) [OF k1] that by simp
  then have inputs: "store_at ?w k2 (?p ''result.json'') = Some ''x''" "store_at ?w k2 (?p ''samples.jsonl'') = None"
    using assms by (simp_all add: holds_inputs_def FOLDED_FILE_def)
  obtain profile where profile: "parse_profile ''r;p;p 5'' = Inr profile" "0 < fp_total_samples profile"
    using example_profile by blast
  have folded: "bind_ok (read_limited (?p FOLDED_FILE) FOLDED_LIMIT_BYTES (files_at ?w k2)) parse_profile = Inr profile"
    using k2(2) profile(1)
    by (simp add: read_limited_def files_at_def io_result_def FOLDED_LIMIT_BYTES_def example_text with_context_def)
  obtain k3 where k3: "render_flamegraph ?w input (?p FOLDED_FILE) k2 = (Inr (), k3)"
    using example_flamegraph [OF inputs] by blast
  obtain k4 where k4: "run_perf ?w [''report'', ''--stdio'', ''--header-only'', ''--input''] (?p PERF_DATA_FILE) (?p ''perf-header.txt'')
        (?p ''perf-header.stderr.log'') k3 = (Inr (), k4)" using example_runs(1) by blast
  obtain k5 where k5: "run_perf_report ?w input (?p PERF_DATA_FILE) ''hotspots-self.txt'' [''--no-children'', ''--sort'', ''comm,dso,symbol''] k4 = (Inr (), k5)"
    using example_runs(2) by blast
  obtain k6 where k6: "run_perf_report ?w input (?p PERF_DATA_FILE) ''hotspots-inclusive.txt'' [''--children'', ''--sort'', ''comm,dso,symbol''] k5 = (Inr (), k6)"
    using example_runs(2) by blast
  obtain k7 where k7: "run_perf_report ?w input (?p PERF_DATA_FILE) ''threads.txt'' [''--no-children'', ''--sort'', ''comm,pid''] k6 = (Inr (), k7)"
    using example_runs(2) by blast
  obtain k8 where k8: "write_environment ?w input k7 = (Inr (), k8)" using example_runs(4) by blast
  have looks: "look ?w (ensure_nonempty (?p PERF_DATA_FILE)) h = (Inr (), h)" "look ?w (load_capture ?w input) h = (Inr example_capture, h)"
    "look ?w (\<lambda>files. bind_ok (run_of ?w input files) validate_run) h = (Inr (), h)"
    "look ?w (\<lambda>files. bind_ok (read_limited (?p FOLDED_FILE) FOLDED_LIMIT_BYTES files) parse_profile) k2 = (Inr profile, k2)"
    using perf capture folded run assms by (simp_all add: look_def holds_inputs_def example_revision_valid)
  show ?thesis
    unfolding prepare_files_def Let_def
    by (intro exI [of _ k8])
      (simp only: bind_act_def looks k1 k2(1) k3 k4 k5 k6 k7 k8 prod.case sum.case ensure_act_def profile(2) if_True)
qed

lemma example_prepared: "\<exists>h'. prepare example_profile_world example_input [] = (Inr (), h')"
proof -
  let ?w = example_profile_world and ?p = "\<lambda>name. join_path example_input [name]"
  obtain h1 where c: "clear_files ?w example_input PREPARED_FILES [] = (Inr (), h1)" using example_clears by blast
  have keep: "store_at ?w h1 (?p name) = store_at ?w [] (?p name)" if "name \<notin> set PREPARED_FILES" for name
    by (rule untouched [OF touches_clear [OF subset_refl] c]) (use that in auto)
  have "store_at ?w h1 (?p name) = Some ''x''" if "name \<in> {''result.json'', CAPTURE_FILE, PERF_DATA_FILE}" for name
  proof -
    have "name \<notin> set PREPARED_FILES" using that
      by (auto simp: PREPARED_FILES_def PROFILE_READY_FILE_def ENVIRONMENT_FILE_def FOLDED_FILE_def FLAMEGRAPH_FILE_def
          PERF_DATA_FILE_def CAPTURE_FILE_def)
    then show ?thesis using keep that by (auto simp: store_at_def example_profile_world_def example_world_def)
  qed
  moreover have "store_at ?w h1 (?p ''samples.jsonl'') = None"
  proof -
    have "''samples.jsonl'' \<notin> set PREPARED_FILES"
      by (simp add: PREPARED_FILES_def PROFILE_READY_FILE_def ENVIRONMENT_FILE_def FOLDED_FILE_def FLAMEGRAPH_FILE_def)
    then show ?thesis using keep
      by (simp add: store_at_def example_profile_world_def example_world_def CAPTURE_FILE_def PERF_DATA_FILE_def)
  qed
  ultimately have "holds_inputs example_input h1" by (simp add: holds_inputs_def)
  then obtain h2 where "prepare_files ?w example_input h1 = (Inr (), h2)" using example_prepares by blast
  then show ?thesis using c
    by (simp add: prepare_def ensure_act_def clear_prepared_def bind_act_def write_file_def)
qed

theorem prepared_loads_witness:
  "\<exists>h' p. prepare example_profile_world example_input [] = (Inr (), h') \<and>
     load_prepared example_profile_world example_input (files_at example_profile_world h') = Inr p"
proof -
  obtain h' where h': "prepare example_profile_world example_input [] = (Inr (), h')" using example_prepared by blast
  show ?thesis
    using prepared_loads [OF h', of "''x''"] h' by (auto simp: CAPTURE_LIMIT_BYTES_def example_text)
qed

theorem prepare_never_half_done_witness:
  "\<exists>h' h2 content. prepare example_profile_world example_input [] = (Inr (), h') \<and>
     h' = h2 @ [FileStored (marker_path example_input) content]"
proof -
  obtain h' where h': "prepare example_profile_world example_input [] = (Inr (), h')" using example_prepared by blast
  obtain p where p: "load_prepared example_profile_world example_input (files_at example_profile_world h') = Inr p"
    using prepared_directory [OF h', of "''x''"] by (auto simp: CAPTURE_LIMIT_BYTES_def example_text)
  have "store_at example_profile_world [] (marker_path example_input) = None"
    by (simp add: store_at_def example_profile_world_def example_world_def PROFILE_READY_FILE_def CAPTURE_FILE_def
        PERF_DATA_FILE_def)
  then have "h' \<noteq> []" using load_needs_marker [OF p] by auto
  then show ?thesis using prepare_never_half_done [OF h' _ _ p] h' by auto
qed

end
