(* ===== verification/Markdown.thy ===== *)
theory Markdown
  imports ReportFormatFacts
begin

text \<open>
  The Markdown the reports are written in. A document is the list of its lines: \<open>writeln!\<close> appends a line,
  and one whose text ends in a line break appends an empty line after it. A table is sound when its rows
  have as many bars as its header; the lemmas here say which documents have only sound tables.
\<close>

type_synonym doc = "string list"

definition text_of :: "doc \<Rightarrow> string" where
  "text_of d = concat (map (\<lambda>t. t @ [CHR 0x0A]) d)"

definition table_row :: "string list \<Rightarrow> string" where
  "table_row cells = ''| '' @ join_with '' | '' cells @ '' |''"

text \<open>A header, the alignments, the rows and the empty line after a table.\<close>

definition md_table :: "string list \<Rightarrow> string list \<Rightarrow> string list list \<Rightarrow> doc" where
  "md_table header alignments rows = map table_row (header # alignments # rows) @ [[]]"

definition paragraph_of :: "string \<Rightarrow> doc" where
  "paragraph_of t = [t, []]"

section \<open>Sound tables\<close>

definition is_row :: "string \<Rightarrow> bool" where
  "is_row t \<longleftrightarrow> starts_with ''|'' t"

definition bars :: "string \<Rightarrow> nat" where
  "bars t = length (filter (\<lambda>c. c = CHR ''|'') t)"

text \<open>Successive rows have the same number of bars.\<close>

fun tables_sound :: "doc \<Rightarrow> bool" where
  "tables_sound (a # b # d) \<longleftrightarrow> (is_row a \<and> is_row b \<longrightarrow> bars a = bars b) \<and> tables_sound (b # d)"
| "tables_sound d \<longleftrightarrow> True"

text \<open>Text that stays on its line, and text that stays in its cell.\<close>

definition one_line :: "string \<Rightarrow> bool" where
  "one_line t \<longleftrightarrow> list_all (\<lambda>c. c \<noteq> CHR 0x0A \<and> c \<noteq> CHR 0x0D) t"

definition in_cell :: "string \<Rightarrow> bool" where
  "in_cell t \<longleftrightarrow> list_all (\<lambda>c. c \<noteq> CHR 0x0A \<and> c \<noteq> CHR 0x0D \<and> c \<noteq> CHR ''|'') t"

text \<open>A document with sound tables that a further document may follow.\<close>

definition sound_doc :: "doc \<Rightarrow> bool" where
  "sound_doc d \<longleftrightarrow> list_all one_line d \<and> tables_sound d \<and> (d = [] \<or> \<not> is_row (last d))"

named_theorems cell_intros \<open>texts that stay in their cells\<close>
named_theorems doc_intros \<open>documents with sound tables\<close>

lemma one_line_simps [simp]:
  "one_line []" "one_line (c # t) \<longleftrightarrow> c \<noteq> CHR 0x0A \<and> c \<noteq> CHR 0x0D \<and> one_line t"
  "one_line (s @ t) \<longleftrightarrow> one_line s \<and> one_line t"
  by (auto simp: one_line_def)

lemma in_cell_simps [simp]:
  "in_cell []" "in_cell (c # t) \<longleftrightarrow> c \<noteq> CHR 0x0A \<and> c \<noteq> CHR 0x0D \<and> c \<noteq> CHR ''|'' \<and> in_cell t"
  "in_cell (s @ t) \<longleftrightarrow> in_cell s \<and> in_cell t"
  by (auto simp: in_cell_def)

lemma in_cell_one_line: "in_cell t \<Longrightarrow> one_line t"
  by (auto simp: in_cell_def one_line_def list_all_iff)

lemma in_cell_no_bar: "in_cell t \<Longrightarrow> bars t = 0"
  by (auto simp: in_cell_def bars_def list_all_iff)

lemma bars_simps [simp]:
  "bars [] = 0" "bars (c # t) = (if c = CHR ''|'' then 1 else 0) + bars t" "bars (s @ t) = bars s + bars t"
  by (simp_all add: bars_def)

lemma is_row_simps [simp]: "\<not> is_row []" "is_row (c # t) \<longleftrightarrow> c = CHR ''|''"
  by (auto simp: is_row_def starts_with_def)

lemma table_row_is_row [simp]: "is_row (table_row cells)"
  by (simp add: table_row_def)

lemma join_cells:
  assumes "list_all in_cell cells" "cells \<noteq> []"
  shows "bars (join_with '' | '' cells) = length cells - 1" "one_line (join_with '' | '' cells)"
proof -
  have "bars (join_with '' | '' cells) = length cells - 1 \<and> one_line (join_with '' | '' cells)"
    using assms
  proof (induction cells rule: induct_list012)
    case (3 x y zs)
    then show ?case by (simp add: in_cell_no_bar in_cell_one_line)
  qed (simp_all add: in_cell_no_bar in_cell_one_line)
  then show "bars (join_with '' | '' cells) = length cells - 1" "one_line (join_with '' | '' cells)" by simp_all
qed

lemma table_row_line:
  assumes "list_all in_cell cells" "cells \<noteq> []"
  shows "bars (table_row cells) = length cells + 1" "one_line (table_row cells)"
proof -
  have "Suc (length cells - Suc 0) = length cells" using assms(2) by (cases cells) simp_all
  then show "bars (table_row cells) = length cells + 1" "one_line (table_row cells)"
    using join_cells [OF assms] by (simp_all add: table_row_def)
qed

lemma tables_sound_Cons:
  "tables_sound (a # d) \<longleftrightarrow> (d \<noteq> [] \<longrightarrow> is_row a \<and> is_row (hd d) \<longrightarrow> bars a = bars (hd d)) \<and> tables_sound d"
  by (cases d) auto

lemma tables_sound_append:
  "tables_sound d \<Longrightarrow> tables_sound d' \<Longrightarrow> d = [] \<or> \<not> is_row (last d) \<Longrightarrow> tables_sound (d @ d')"
  by (induction d) (auto simp: tables_sound_Cons hd_append split: if_splits)

lemma sound_doc_Nil [doc_intros]: "sound_doc []"
  by (simp add: sound_doc_def)

lemma sound_doc_append [doc_intros]: "sound_doc d \<Longrightarrow> sound_doc d' \<Longrightarrow> sound_doc (d @ d')"
  by (auto simp: sound_doc_def tables_sound_append last_append)

lemma sound_doc_Cons [doc_intros]: "one_line t \<Longrightarrow> \<not> is_row t \<Longrightarrow> sound_doc d \<Longrightarrow> sound_doc (t # d)"
  by (auto simp: sound_doc_def tables_sound_Cons)

lemma sound_doc_paragraph [doc_intros]: "one_line t \<Longrightarrow> \<not> is_row t \<Longrightarrow> sound_doc (paragraph_of t)"
  by (simp add: paragraph_of_def doc_intros)

lemma sound_doc_concat [doc_intros]: "(\<And>d. d \<in> set ds \<Longrightarrow> sound_doc d) \<Longrightarrow> sound_doc (concat ds)"
  by (induction ds) (simp_all add: doc_intros)

lemma sound_rows:
  assumes "list_all (\<lambda>row. length row = n \<and> list_all in_cell row) rows" "0 < n"
  shows "list_all one_line (map table_row rows) \<and> tables_sound (map table_row rows @ [[]])"
  using assms(1)
proof (induction rows)
  case Nil
  then show ?case by simp
next
  case (Cons row rows)
  have r: "row \<noteq> []" "list_all in_cell row" using Cons.prems assms(2) by auto
  show ?case
  proof (cases rows)
    case Nil
    then show ?thesis using table_row_line [OF r(2,1)] by simp
  next
    case (Cons row' rows')
    then have r': "row' \<noteq> []" "list_all in_cell row'" "length row = length row'"
      using Cons.prems assms(2) by auto
    then show ?thesis
      using Cons.IH Cons.prems Cons table_row_line [OF r(2,1)] table_row_line [OF r'(2,1)] by simp
  qed
qed

lemma sound_table [doc_intros]:
  assumes "length header = length alignments" "header \<noteq> []"
    and "list_all in_cell header" "list_all in_cell alignments"
    and "\<And>row. row \<in> set rows \<Longrightarrow> length row = length header \<and> list_all in_cell row"
  shows "sound_doc (md_table header alignments rows)"
proof -
  let ?rows = "header # alignments # rows"
  have "list_all (\<lambda>row. length row = length header \<and> list_all in_cell row) ?rows"
    using assms by (auto simp: list_all_iff)
  then have "list_all one_line (map table_row ?rows) \<and> tables_sound (map table_row ?rows @ [[]])"
    by (rule sound_rows) (use assms(2) in simp)
  then show ?thesis unfolding sound_doc_def md_table_def by (simp del: list.map)
qed

text \<open>The lines of the text are the lines of the document.\<close>

lemma lines_of_doc: "list_all one_line d \<Longrightarrow> lines_of (text_of d) = d"
  unfolding text_of_def
proof (rule lines_of_lines)
  fix t
  assume "list_all one_line d" "t \<in> set d"
  then have "one_line t" by (simp add: list_all_iff)
  then have c: "c \<noteq> CHR 0x0A \<and> c \<noteq> CHR 0x0D" if "c \<in> set t" for c
    using that unfolding one_line_def list_all_iff by blast
  then show "CHR 0x0A \<notin> set t \<and> (t = [] \<or> last t \<noteq> CHR 0x0D)" using last_in_set by blast
qed

lemma sound_text: "sound_doc d \<Longrightarrow> tables_sound (lines_of (text_of d))"
  by (simp add: sound_doc_def lines_of_doc)

section \<open>Texts that stay in a cell\<close>

lemma in_cell_digits: "(\<And>c. c \<in> set t \<Longrightarrow> is_ascii_digit c) \<Longrightarrow> in_cell t"
  unfolding in_cell_def list_all_iff
proof
  fix c
  assume digits: "\<And>c. c \<in> set t \<Longrightarrow> is_ascii_digit c" and c: "c \<in> set t"
  have "\<not> is_ascii_digit CHR 0x0A" "\<not> is_ascii_digit CHR 0x0D" "\<not> is_ascii_digit CHR ''|''" by code_simp+
  then show "c \<noteq> CHR 0x0A \<and> c \<noteq> CHR 0x0D \<and> c \<noteq> CHR ''|''" using digits [OF c] by auto
qed

lemma in_cell_nat [cell_intros]: "in_cell (show_nat n)"
  using show_nat_digits by (rule in_cell_digits)

lemma in_cell_word [cell_intros]: "in_cell (show_word w)"
  by (simp add: show_word_def cell_intros)

lemma in_cell_group: "in_cell (group_digits n i t) \<longleftrightarrow> in_cell t"
  by (induction n i t rule: group_digits.induct) auto

lemma in_cell_grouped [cell_intros]: "in_cell (grouped n)"
  by (simp add: grouped_def Let_def in_cell_group cell_intros)

lemma in_cell_zeros: "in_cell (replicate n CHR ''0'')"
  by (induction n) simp_all

lemma in_cell_pad [cell_intros]: "in_cell t \<Longrightarrow> in_cell (pad_zero n t)"
  by (simp add: pad_zero_def in_cell_zeros)

lemma in_cell_escape_char: "in_cell (escape_char c)"
proof -
  have "{CHR 0x0A, CHR 0x0D, CHR ''|''} \<subseteq> markup" by (simp add: markup_def)
  then have "CHR 0x0A \<notin> set (escape_char c)" "CHR 0x0D \<notin> set (escape_char c)" "CHR ''|'' \<notin> set (escape_char c)"
    using escape_char_safe [of c] by blast+
  then show ?thesis unfolding in_cell_def list_all_iff by metis
qed

lemma in_cell_escape [cell_intros]: "in_cell (escape_table t)"
  by (induction t) (simp_all add: escape_table_def in_cell_escape_char)

lemma in_cell_scenario [cell_intros]: "in_cell (scenario_label spec)" "in_cell (chart_label spec)"
  by (cases spec; simp add: cell_intros)+

lemma in_cell_publisher [cell_intros]: "in_cell (publisher_label spec)"
  by (simp add: publisher_label_def Let_def cell_intros)

lemma in_cell_formats [cell_intros]:
  "in_cell (format_cpu_percent n)" "in_cell (format_mebibytes n)" "in_cell (format_milliseconds n)"
  "in_cell (format_delivery_efficiency n)" "in_cell (format_packets_per_second n)" "in_cell (format_bits_per_second n)"
  by (simp_all add: format_cpu_percent_def format_mebibytes_def format_milliseconds_def format_delivery_efficiency_def
      format_packets_per_second_def format_bits_per_second_def format_decimal_rate_def show_tenths_def cell_intros)

lemma in_cell_optional [cell_intros]: "(\<And>n. in_cell (format n)) \<Longrightarrow> in_cell (format_optional v format)"
  by (cases v) (simp_all add: format_optional_def)

end
