(* ===== verification/Charts.thy ===== *)
theory Charts
  imports Markdown
begin

text \<open>
  The category charts of \<open>src/report.rs\<close> (\<open>render_category_charts\<close>, \<open>render_category_chart\<close>): the scenarios
  of a chart are cut into panels of two to four, every panel with its own axis. The panels show every
  value of every line once and in order, and no check inside can fail.
\<close>

definition CATEGORY_CHART_POINTS :: nat where "CATEGORY_CHART_POINTS = 4"
definition MAX_CHART_SCENARIOS :: nat where "MAX_CHART_SCENARIOS = 12"
definition LINE_COLORS :: "(string \<times> string) list" where
  "LINE_COLORS = [(''Blue'', ''#388BFD''), (''Orange'', ''#B86E00'')]"

record chart_line =
  cl_name :: string
  cl_values :: "u64 list"

section \<open>Panels\<close>

text \<open>The loop that cuts \<open>len\<close> labels into ranges; a single label is never left over.\<close>

function chart_ranges :: "nat \<Rightarrow> nat \<Rightarrow> (nat \<times> nat) list" where
  "chart_ranges start len =
     (if start < len then
        let remaining = len - start;
            size = (if remaining = CATEGORY_CHART_POINTS + 1 then CATEGORY_CHART_POINTS - 1
                    else min remaining CATEGORY_CHART_POINTS) in
        (start, start + size) # chart_ranges (start + size) len
      else [])"
  by pat_completeness auto
termination
  by (relation "measure (\<lambda>(start, len). len - start)") (auto simp: CATEGORY_CHART_POINTS_def)

declare chart_ranges.simps [simp del]

definition quoted :: "string \<Rightarrow> string" where
  "quoted t = [CHR 0x22] @ t @ [CHR 0x22]"

definition write_values :: "u64 list \<Rightarrow> string" where
  "write_values vs = join_with '', '' (map show_word vs)"

definition series_colors :: "chart_line list \<Rightarrow> string" where
  "series_colors series =
     ''Series colors: '' @ join_with ''. '' (map (\<lambda>(s, (color, hex)).
        color @ '' ('' @ [CHR 0x60] @ hex @ [CHR 0x60] @ '') = '' @ cl_name s) (zip series LINE_COLORS)) @ ''.''"

definition code_fence :: string where "code_fence = replicate 3 (CHR 0x60)"

definition chart_block :: "string \<Rightarrow> string \<Rightarrow> string list \<Rightarrow> string \<Rightarrow> u64 \<Rightarrow> chart_line list \<Rightarrow> doc" where
  "chart_block title description labels y_axis maximum series =
     [code_fence @ ''mermaid'', ''---'', ''config:'', ''  themeVariables:'', ''    xyChart:'',
      ''      plotColorPalette: '' @ quoted (join_with '', '' (map snd LINE_COLORS)), ''---'', ''xychart-beta'',
      ''    accTitle: '' @ title, ''    accDescr: '' @ description, ''    title '' @ quoted title,
      ''    x-axis ['' @ join_with '', '' (map quoted labels) @ '']'',
      ''    y-axis '' @ quoted y_axis @ '' 0 --> '' @ show_word maximum]
       @ map (\<lambda>s. ''    line ['' @ write_values (cl_values s) @ '']'') series @ [code_fence, []]"

definition render_category_chart ::
  "string \<Rightarrow> string \<Rightarrow> string list \<Rightarrow> string \<Rightarrow> u64 \<Rightarrow> chart_line list \<Rightarrow> doc result" where
  "render_category_chart title description labels y_axis maximum series =
     ensure (length labels \<ge> 2) ''category line chart needs at least two labels'' (
     ensure (length series \<le> length LINE_COLORS) ''chart has more lines than its color palette'' (
     Inr (paragraph_of description @ paragraph_of (series_colors series)
       @ chart_block title description labels y_axis maximum series)))"

text \<open>The body of the loop over the ranges.\<close>

definition panel_lines :: "nat \<times> nat \<Rightarrow> chart_line list \<Rightarrow> chart_line list result" where
  "panel_lines extent series =
     collect_results (map (\<lambda>s.
       bind_ok (ok_or ''chart series chunk is outside its values'' (get_range (cl_values s) (fst extent) (snd extent)))
         (\<lambda>values. Inr \<lparr>cl_name = cl_name s, cl_values = values\<rparr>)) series)"

definition panel_title :: "string \<Rightarrow> nat \<Rightarrow> nat \<Rightarrow> string" where
  "panel_title title chunk_count chunk_index =
     (if chunk_count = 1 then title
      else title @ '' ('' @ show_nat (chunk_index + 1) @ ''/'' @ show_nat chunk_count @ '')'')"

definition render_panel ::
  "string \<Rightarrow> string \<Rightarrow> string list \<Rightarrow> string \<Rightarrow> u64 \<Rightarrow> chart_line list \<Rightarrow> nat \<Rightarrow> nat \<times> (nat \<times> nat) \<Rightarrow> doc result" where
  "render_panel title description labels y_axis minimum series chunk_count chunk =
     (case chunk of (chunk_index, extent) \<Rightarrow>
        bind_ok (ok_or ''chart label chunk is outside its labels'' (get_range labels (fst extent) (snd extent))) (\<lambda>chart_labels.
        let chart_title = panel_title title chunk_count chunk_index in
        bind_ok (panel_lines extent series) (\<lambda>chart_series.
        let maximum = chart_axis_max (concat (map cl_values chart_series)) minimum in
        render_category_chart chart_title description chart_labels y_axis maximum chart_series)))"

definition omitted_chart :: "string \<Rightarrow> string \<Rightarrow> doc" where
  "omitted_chart title reason =
     paragraph_of (''The '' @ title @ '' chart is omitted because '' @ reason @ ''. The tabular metrics remain available.'')"

definition split_note :: "string \<Rightarrow> nat \<Rightarrow> doc" where
  "split_note title chunk_count =
     paragraph_of (''The '' @ title @ '' chart is split into '' @ show_nat chunk_count
       @ '' panels. Each panel uses its own y-axis scale.'')"

definition render_category_charts ::
  "string \<Rightarrow> string \<Rightarrow> string list \<Rightarrow> string \<Rightarrow> u64 \<Rightarrow> chart_line list \<Rightarrow> doc result" where
  "render_category_charts title description labels y_axis minimum series =
     ensure (labels \<noteq> []) ''chart labels cannot be empty'' (
     ensure (series \<noteq> []) ''chart series cannot be empty'' (
     ensure (list_all (\<lambda>s. length (cl_values s) = length labels) series)
       ''chart series lengths must match chart labels'' (
     if length labels = 1 then Inr (omitted_chart title ''fewer than two scenarios have chartable values'')
     else if length labels > MAX_CHART_SCENARIOS then
       Inr (omitted_chart title (''it contains more than '' @ show_nat MAX_CHART_SCENARIOS @ '' scenarios''))
     else if list_ex (\<lambda>s. list_ex (\<lambda>v. v > MAX_MERMAID_INTEGER) (cl_values s)) series then
       Inr (omitted_chart title (''a value exceeds Mermaid'' @ [CHR 0x27] @ ''s exact-integer range''))
     else
       let ranges = chart_ranges 0 (length labels); chunk_count = length ranges in
       bind_ok (collect_results (map (render_panel title description labels y_axis minimum series chunk_count)
         (List.enumerate 0 ranges))) (\<lambda>panels.
       Inr ((if chunk_count > 1
             then split_note title chunk_count
             else []) @ concat panels)))))"

section \<open>The panels of a chart\<close>

lemma chart_ranges_step:
  "len \<noteq> start + 1 \<Longrightarrow> start < len \<Longrightarrow> \<exists>size. 2 \<le> size \<and> size \<le> 4 \<and> start + size \<le> len \<and> len \<noteq> start + size + 1 \<and>
     chart_ranges start len = (start, start + size) # chart_ranges (start + size) len"
  by (subst chart_ranges.simps) (auto simp: Let_def CATEGORY_CHART_POINTS_def min_def)

lemma chart_ranges_end: "\<not> start < len \<Longrightarrow> chart_ranges start len = []"
  by (subst chart_ranges.simps) simp

lemma chart_ranges_cover:
  assumes "len \<noteq> start + 1" "start \<le> len"
  shows "list_all (\<lambda>(a, b). a + 2 \<le> b \<and> b \<le> a + 4 \<and> b \<le> len) (chart_ranges start len) \<and>
    concat (map (\<lambda>(a, b). [a..<b]) (chart_ranges start len)) = [start..<len]"
  using assms
proof (induction "len - start" arbitrary: start rule: less_induct)
  case less
  show ?case
  proof (cases "start < len")
    case False
    then show ?thesis using less.prems by (simp add: chart_ranges_end)
  next
    case True
    then obtain size where s: "2 \<le> size" "size \<le> 4" "start + size \<le> len" "len \<noteq> start + size + 1"
      "chart_ranges start len = (start, start + size) # chart_ranges (start + size) len"
      using chart_ranges_step less.prems(1) by blast
    have "list_all (\<lambda>(a, b). a + 2 \<le> b \<and> b \<le> a + 4 \<and> b \<le> len) (chart_ranges (start + size) len) \<and>
        concat (map (\<lambda>(a, b). [a..<b]) (chart_ranges (start + size) len)) = [start + size..<len]"
      using less.hyps [of "start + size"] s by simp
    moreover have "[start..<len] = [start..<start + size] @ [start + size..<len]"
      using upt_add_eq_append [of start "start + size" "len - (start + size)"] s(3) by simp
    ultimately show ?thesis using s by simp
  qed
qed

definition part_of :: "'a list \<Rightarrow> nat \<times> nat \<Rightarrow> 'a list" where
  "part_of xs extent = take (snd extent - fst extent) (drop (fst extent) xs)"

lemma part_nth: "snd extent \<le> length xs \<Longrightarrow> part_of xs extent = map (\<lambda>i. xs ! i) [fst extent..<snd extent]"
  by (rule nth_equalityI) (auto simp: part_of_def)

lemma parts_cover:
  assumes "list_all (\<lambda>(a, b). b \<le> length xs) ranges" "concat (map (\<lambda>(a, b). [a..<b]) ranges) = [0..<length xs]"
  shows "concat (map (part_of xs) ranges) = xs"
proof -
  have "map (part_of xs) ranges = map (\<lambda>(a, b). map (\<lambda>i. xs ! i) [a..<b]) ranges"
    using assms(1) by (intro map_cong) (auto simp: part_nth list_all_iff)
  also have "concat \<dots> = map (\<lambda>i. xs ! i) (concat (map (\<lambda>(a, b). [a..<b]) ranges))"
    by (simp add: map_concat comp_def case_prod_unfold)
  also have "\<dots> = xs" unfolding assms(2) by (rule map_nth)
  finally show ?thesis .
qed

text \<open>A panel as it is drawn: its lines and the maximum of its axis.\<close>

definition panel_series :: "chart_line list \<Rightarrow> nat \<times> nat \<Rightarrow> chart_line list" where
  "panel_series series extent = map (\<lambda>s. s\<lparr>cl_values := part_of (cl_values s) extent\<rparr>) series"

definition panel_doc ::
  "string \<Rightarrow> string \<Rightarrow> string list \<Rightarrow> string \<Rightarrow> u64 \<Rightarrow> chart_line list \<Rightarrow> nat \<times> nat \<Rightarrow> doc" where
  "panel_doc title description labels y_axis minimum series extent =
     paragraph_of description @ paragraph_of (series_colors series)
       @ chart_block title description (part_of labels extent) y_axis
           (chart_axis_max (concat (map cl_values (panel_series series extent))) minimum) (panel_series series extent)"

lemma get_range_part: "a \<le> b \<Longrightarrow> b \<le> length xs \<Longrightarrow> get_range xs a b = Some (part_of xs (a, b))"
  by (simp add: get_range_def part_of_def)

lemma panel_lines_exact:
  assumes "list_all (\<lambda>s. snd extent \<le> length (cl_values s)) series" "fst extent \<le> snd extent"
  shows "panel_lines extent series = Inr (panel_series series extent)"
  using assms
  by (cases extent) (auto simp: panel_lines_def collect_results_Inr panel_series_def list_all_iff get_range_part)

lemma series_colors_panel: "series_colors (panel_series series extent) = series_colors series"
proof -
  have "map (\<lambda>(s, (color, hex)). color @ '' ('' @ [CHR 0x60] @ hex @ [CHR 0x60] @ '') = '' @ cl_name s)
      (zip (panel_series series extent) xs)
    = map (\<lambda>(s, (color, hex)). color @ '' ('' @ [CHR 0x60] @ hex @ [CHR 0x60] @ '') = '' @ cl_name s) (zip series xs)" for xs
    by (induction series arbitrary: xs) (simp add: panel_series_def, case_tac xs, auto simp: panel_series_def)
  then show ?thesis by (simp add: series_colors_def)
qed

lemma length_panel_series [simp]: "length (panel_series series extent) = length series"
  by (simp add: panel_series_def)

lemma render_panel_exact:
  assumes "list_all (\<lambda>s. length (cl_values s) = length labels) series" "length series \<le> 2"
    and "a + 2 \<le> b" "b \<le> length labels"
  shows "render_panel title description labels y_axis minimum series n (i, a, b)
    = Inr (panel_doc (panel_title title n i) description labels y_axis minimum series (a, b))"
proof -
  have l: "panel_lines (a, b) series = Inr (panel_series series (a, b))"
    using assms by (intro panel_lines_exact) (auto simp: list_all_iff)
  have "length (part_of labels (a, b)) = b - a" "2 \<le> b - a" using assms(3,4) by (simp_all add: part_of_def)
  then show ?thesis
    using assms get_range_part [of a b labels] l
    by (simp add: render_panel_def render_category_chart_def panel_doc_def Let_def LINE_COLORS_def series_colors_panel)
qed

definition panels_of ::
  "string \<Rightarrow> string \<Rightarrow> string list \<Rightarrow> string \<Rightarrow> u64 \<Rightarrow> chart_line list \<Rightarrow> nat \<Rightarrow> (nat \<times> (nat \<times> nat)) list \<Rightarrow> doc list" where
  "panels_of title description labels y_axis minimum series n =
     map (\<lambda>(i, extent). panel_doc (panel_title title n i) description labels y_axis minimum series extent)"

lemma render_panels_exact:
  assumes "list_all (\<lambda>s. length (cl_values s) = length labels) series" "length series \<le> 2"
    and "list_all (\<lambda>(a, b). a + 2 \<le> b \<and> b \<le> a + 4 \<and> b \<le> length labels) ranges"
  shows "collect_results (map (render_panel title description labels y_axis minimum series n) (List.enumerate k ranges))
      = Inr (panels_of title description labels y_axis minimum series n (List.enumerate k ranges))"
  using assms(3)
proof (induction ranges arbitrary: k)
  case Nil
  then show ?case by (simp add: panels_of_def)
next
  case (Cons extent ranges)
  obtain a b where r: "extent = (a, b)" "a + 2 \<le> b" "b \<le> length labels" using Cons.prems by (cases extent) auto
  then show ?case using Cons render_panel_exact [OF assms(1,2) r(2,3)] by (simp add: panels_of_def)
qed

definition charts_shown :: "string list \<Rightarrow> chart_line list \<Rightarrow> bool" where
  "charts_shown labels series \<longleftrightarrow>
     2 \<le> length labels \<and> length labels \<le> MAX_CHART_SCENARIOS \<and>
     list_all (\<lambda>s. list_all (\<lambda>v. v \<le> MAX_MERMAID_INTEGER) (cl_values s)) series"

text \<open>What the charts are: a remark, or panels whose extents cut labels and values into consecutive parts.\<close>

lemma chart_panels:
  assumes "labels \<noteq> []" "series \<noteq> []" "length series \<le> 2"
    and "list_all (\<lambda>s. length (cl_values s) = length labels) series"
    and "charts_shown labels series"
  defines "ranges \<equiv> chart_ranges 0 (length labels)"
  shows "render_category_charts title description labels y_axis minimum series =
      Inr ((if length ranges > 1
            then split_note title (length ranges) else [])
         @ concat (panels_of title description labels y_axis minimum series (length ranges) (List.enumerate 0 ranges))) \<and>
    list_all (\<lambda>(a, b). a + 2 \<le> b \<and> b \<le> a + 4) ranges \<and> concat (map (part_of labels) ranges) = labels \<and>
    list_all (\<lambda>s. concat (map (part_of (cl_values s)) ranges) = cl_values s) series"
proof -
  have len: "length labels \<noteq> 0 + 1" "0 \<le> length labels" using assms(5) by (auto simp: charts_shown_def)
  note cover = chart_ranges_cover [OF len, folded ranges_def]
  have some: "\<not> list_ex (\<lambda>s. list_ex (\<lambda>v. v > MAX_MERMAID_INTEGER) (cl_values s)) series"
    using assms(5) by (auto simp: charts_shown_def list_all_iff list_ex_iff not_less)
  have render: "render_category_charts title description labels y_axis minimum series
      = Inr ((if length ranges > 1
            then split_note title (length ranges) else [])
         @ concat (panels_of title description labels y_axis minimum series (length ranges) (List.enumerate 0 ranges)))"
    using assms(1-5) some render_panels_exact [OF assms(4,3), of ranges] cover
    by (simp add: render_category_charts_def charts_shown_def Let_def ranges_def)
  have sizes: "list_all (\<lambda>(a, b). a + 2 \<le> b \<and> b \<le> a + 4) ranges" using cover by (auto simp: list_all_iff)
  have b: "list_all (\<lambda>(a, b). b \<le> length labels) ranges" using cover by (auto simp: list_all_iff)
  have "concat (map (part_of labels) ranges) = labels" by (rule parts_cover [OF b]) (use cover in simp)
  moreover have "concat (map (part_of (cl_values s)) ranges) = cl_values s" if "s \<in> set series" for s
  proof (rule parts_cover)
    have "length (cl_values s) = length labels" using assms(4) that by (simp add: list_all_iff)
    then show "list_all (\<lambda>(a, b). b \<le> length (cl_values s)) ranges"
      "concat (map (\<lambda>(a, b). [a..<b]) ranges) = [0..<length (cl_values s)]" using b cover by simp_all
  qed
  ultimately show ?thesis using render sizes by (simp add: list_all_iff)
qed

lemma chart_remark:
  assumes "labels \<noteq> []" "series \<noteq> []" "list_all (\<lambda>s. length (cl_values s) = length labels) series"
    and "\<not> charts_shown labels series"
  shows "\<exists>reason. render_category_charts title description labels y_axis minimum series = Inr (omitted_chart title reason) \<and> one_line reason"
proof -
  consider "length labels = 1" | "length labels \<noteq> 1" "length labels > MAX_CHART_SCENARIOS"
    | "length labels \<noteq> 1" "\<not> length labels > MAX_CHART_SCENARIOS"
      "list_ex (\<lambda>s. list_ex (\<lambda>v. v > MAX_MERMAID_INTEGER) (cl_values s)) series"
  proof -
    have "length labels = 1 \<or> 2 \<le> length labels" using assms(1) by (cases labels rule: remdups_adj.cases) simp_all
    moreover have "\<not> length labels > MAX_CHART_SCENARIOS \<Longrightarrow> 2 \<le> length labels \<Longrightarrow>
        list_ex (\<lambda>s. list_ex (\<lambda>v. v > MAX_MERMAID_INTEGER) (cl_values s)) series"
      using assms(4) by (auto simp: charts_shown_def list_all_iff list_ex_iff not_le)
    ultimately show ?thesis using that by fastforce
  qed
  then show ?thesis
  proof cases
    case 1
    then show ?thesis using assms(1-3)
      by (intro exI [of _ "''fewer than two scenarios have chartable values''"]) (simp add: render_category_charts_def)
  next
    case 2
    then show ?thesis using assms(1-3)
      by (intro exI [of _ "''it contains more than '' @ show_nat MAX_CHART_SCENARIOS @ '' scenarios''"])
        (simp add: render_category_charts_def in_cell_one_line cell_intros)
  next
    case 3
    then show ?thesis using assms(1-3)
      by (intro exI [of _ "''a value exceeds Mermaid'' @ [CHR 0x27] @ ''s exact-integer range''"])
        (simp add: render_category_charts_def)
  qed
qed

section \<open>Sound charts\<close>

lemma one_line_join: "list_all one_line ts \<Longrightarrow> one_line sep \<Longrightarrow> one_line (join_with sep ts)"
  by (induction ts rule: induct_list012) simp_all

lemma one_line_values: "one_line (write_values vs)"
  unfolding write_values_def by (rule one_line_join) (simp_all add: list_all_iff in_cell_one_line cell_intros)

lemma one_line_quoted [simp]: "one_line (quoted t) \<longleftrightarrow> one_line t"
  by (simp add: quoted_def)

definition one_line_chart :: "string \<Rightarrow> string \<Rightarrow> string list \<Rightarrow> string \<Rightarrow> chart_line list \<Rightarrow> bool" where
  "one_line_chart title description labels y_axis series \<longleftrightarrow>
     one_line title \<and> one_line description \<and> \<not> is_row description \<and> list_all one_line labels \<and> one_line y_axis \<and>
     list_all (one_line \<circ> cl_name) series"

lemma sound_colors: "list_all (one_line \<circ> cl_name) series \<Longrightarrow> sound_doc (paragraph_of (series_colors series))"
  unfolding series_colors_def
  by (intro doc_intros)
    (auto simp: LINE_COLORS_def list_all_iff intro!: one_line_join dest!: set_zip_leftD [of _ _ series] elim!: in_set_zipE)

lemma sound_block:
  assumes "one_line_chart title description labels y_axis series"
  shows "sound_doc (chart_block title description labels y_axis maximum series')"
proof -
  have "one_line (join_with '', '' (map quoted labels))"
    using assms by (intro one_line_join) (auto simp: one_line_chart_def list_all_iff)
  moreover have "sound_doc (map (\<lambda>s. ''    line ['' @ write_values (cl_values s) @ '']'') series')"
    by (induction series') (simp_all add: doc_intros one_line_values)
  moreover have "one_line (show_word maximum)" by (simp add: in_cell_one_line cell_intros)
  ultimately show ?thesis using assms
    unfolding chart_block_def one_line_chart_def
    by (intro doc_intros) (simp_all add: code_fence_def numeral_eq_Suc LINE_COLORS_def)
qed

lemma sound_charts:
  assumes "labels \<noteq> []" "series \<noteq> []" "length series \<le> 2"
    and "list_all (\<lambda>s. length (cl_values s) = length labels) series"
    and ol: "one_line_chart title description labels y_axis series"
  shows "\<exists>d. render_category_charts title description labels y_axis minimum series = Inr d \<and> sound_doc d"
proof (cases "charts_shown labels series")
  case False
  then obtain reason where "render_category_charts title description labels y_axis minimum series = Inr (omitted_chart title reason)"
    "one_line reason" using chart_remark [OF assms(1,2,4)] by blast
  then show ?thesis using ol by (auto simp: omitted_chart_def one_line_chart_def intro!: doc_intros)
next
  case True
  let ?ranges = "chart_ranges 0 (length labels)"
  have title: "one_line title" using ol by (simp add: one_line_chart_def)
  have "one_line (panel_title title n i)" for n i
    using title by (simp add: panel_title_def in_cell_one_line cell_intros)
  then have "one_line_chart (panel_title title n i) description (part_of labels extent) y_axis series" for n i extent
    using ol unfolding one_line_chart_def part_of_def list_all_iff
    by (metis in_set_takeD in_set_dropD)
  then have panel: "sound_doc (panel_doc (panel_title title n i) description labels y_axis minimum series extent)" for n i extent
    using ol unfolding panel_doc_def
    by (intro doc_intros sound_colors sound_block) (auto simp: one_line_chart_def)
  have "sound_doc (split_note title n)" for n
    using title unfolding split_note_def by (intro doc_intros) (simp_all add: in_cell_one_line cell_intros)
  then have intro: "sound_doc (if 1 < n then split_note title n else [])" for n by (simp add: sound_doc_Nil)
  show ?thesis
  proof (intro exI conjI)
    show "render_category_charts title description labels y_axis minimum series
        = Inr ((if 1 < length ?ranges then split_note title (length ?ranges) else [])
          @ concat (panels_of title description labels y_axis minimum series (length ?ranges) (List.enumerate 0 ?ranges)))"
      by (rule conjunct1 [OF chart_panels [OF assms(1-4) True]])
    show "sound_doc ((if 1 < length ?ranges then split_note title (length ?ranges) else [])
          @ concat (panels_of title description labels y_axis minimum series (length ?ranges) (List.enumerate 0 ?ranges)))"
      by (intro doc_intros intro) (auto simp: panels_of_def panel)
  qed
qed

end
