(* ===== verification/Report.thy ===== *)
theory Report
  imports Charts RunInputs
begin

text \<open>
  The job summary of \<open>src/report.rs\<close>: \<open>render\<close> loads the inputs, sorts the runs and writes the status, the
  failures, the workload, delivery, discrepancy and telemetry tables and the charts. A section is a document
  of lines; the fixed paragraphs are definitions of their own.
\<close>

section \<open>Status and failures\<close>

definition render_status :: "run_data list \<Rightarrow> load_failure list \<Rightarrow> string option \<Rightarrow> doc" where
  "render_status runs failures artifact_link =
     md_table [''Exact work'', ''Scenarios'', ''Failed inputs'', ''Telemetry'', ''o-sfu revision'']
       [''---'', ''---:'', ''---:'', ''---'', ''---'']
       [[exact_status runs failures, show_nat (length runs), show_nat (length failures), telemetry_status runs,
         escape_table (revision_label runs)]]
     @ paragraph_of (''Completed performance samples: **'' @ pacing_status runs
         @ ''**. A sample is invalid when send lag exceeds one media interval.'')
     @ (case artifact_link of None \<Rightarrow> [] | Some url \<Rightarrow> paragraph_of (''[Download raw results and logs]('' @ url @ '')''))"

definition failure_row :: "load_failure \<Rightarrow> string list" where
  "failure_row failure = [escape_table (lf_source failure), escape_table (lf_error failure)]"

definition render_failures :: "load_failure list \<Rightarrow> doc" where
  "render_failures failures =
     paragraph_of ''## Input failures''
     @ md_table [''Input'', ''Error''] [''---'', ''---'']
         (map failure_row failures)"

section \<open>Workloads\<close>

definition pass_fail :: "bool \<Rightarrow> string" where
  "pass_fail passed = (if passed then ''PASS'' else ''FAIL'')"

definition consumer_text :: string where
  "consumer_text =
     ''Reports count each simultaneous source-to-receiver forwarding relationship as one media ''
       @ ''consumer. Each audio or camera publication creates one consumer for every other peer in ''
       @ ''its room. Publishers do not consume their own publication. A two-RID simulcast camera ''
       @ ''remains one consumer per receiver because each receiver selects one RID.''"

definition consumer_example :: string where
  "consumer_example =
     ''For example, 10 audio publishers among 60 total peers create `10 '' @ [CHR 0xC3, CHR 0x97]
       @ '' (60 - 1) = 590` consumers. The count would be 600 only for 60 listeners separate from ''
       @ ''the 10 publishers. [mediasoup ''
       @ ''documents](https://mediasoup.org/documentation/v3/scalability/) that one single-core ''
       @ ''worker typically handles over roughly 500 consumers depending on host CPU capability. ''
       @ ''That figure is topology context, not a portable capacity threshold.''"

definition payload_text :: string where
  "payload_text =
     ''Rates are deterministic RTP payload only. They exclude RTP headers, SRTP, UDP, IP, RTCP ''
       @ ''and retransmissions. One camera publication contains two RTP streams, one per RID.''"

definition payload_model :: string where
  "payload_model =
     ''Fixed payload sizes approximate average active-media output. Browser VBR, DTX and ''
       @ ''congestion control vary. The profile is a production high-load envelope, not a prediction ''
       @ ''of average meeting bandwidth.''"

definition label_text :: string where
  "label_text =
     ''Tables use hyphenated IDs. Graphs use `S` for smoke, `A` for audio mesh, `V` for video ''
       @ ''gallery and `M` for mixed conference.''"

definition smoke_label_text :: string where
  "smoke_label_text =
     ''- `smoke-2r-50p` or `S 2r/50p` means 2 receivers get 50 packets from one publisher.''"

definition audio_label_text :: string where
  "audio_label_text =
     ''- `audio-mesh-2x12-60s` or `A 2x12/60s` means 2 rooms with 12 peers per room. Every peer ''
       @ ''publishes audio for 60 seconds.''"

definition video_label_text :: string where
  "video_label_text =
     ''- `video-gallery-1x64-10p-60s` or `V 1x64/10p/60s` means 1 room with 64 peers. 10 peers ''
       @ ''per room publish video for 60 seconds.''"

definition mixed_label_text :: string where
  "mixed_label_text =
     ''- `mixed-conference-1x20-5a-4v-10s` or `M 1x20/5a/4v/10s` means 1 room with 20 peers. 5 ''
       @ ''publish audio and the first 4 of those also publish video for 10 seconds.''"

definition render_consumer_context :: doc where
  "render_consumer_context = paragraph_of consumer_text @ paragraph_of consumer_example"

definition workload_row :: "run_data \<Rightarrow> string list" where
  "workload_row run =
     (let r = rd_result run; scenario = res_scenario r in
      [pass_fail (run_passed run), scenario_label scenario, show_word (room_count scenario),
       show_word (peers_per_room scenario), publisher_label scenario, grouped (wp_streams (res_plan r)),
       grouped (wp_routes (res_plan r)), grouped (wp_offered_packets (res_plan r)),
       grouped (wp_expected_deliveries (res_plan r)), show_word (duration_seconds scenario) @ '' s'',
       grouped (res_max_send_lag_ms r) @ '' ms'', pacing_label r, escape_table (res_profile r),
       validation_label run])"

definition render_workloads :: "run_data list \<Rightarrow> doc" where
  "render_workloads runs =
     paragraph_of ''## Workloads'' @ render_consumer_context
     @ md_table
         [''Exact'', ''Scenario'', ''Rooms'', ''Peers/room'', ''Publications/room'', ''Streams'', ''Total media consumers'',
          ''Offered packets'', ''Expected deliveries'', ''Duration'', ''Max send lag'', ''Pacing'', ''Profile'', ''Validation'']
         [''---'', ''---'', ''---:'', ''---:'', ''---:'', ''---:'', ''---:'', ''---:'', ''---:'', ''---:'', ''---:'',
          ''---'', ''---'', ''---'']
         (map workload_row runs)"

section \<open>The media profile\<close>

text \<open>The rates of one stream, from the constants of the model; the checks are those of the code.\<close>

record media_rates =
  mr_packetization_ms :: u32
  mr_seconds :: u32
  mr_low_packets :: u64
  mr_high_packets :: u64
  mr_audio_bps :: u64
  mr_low_bps :: u64
  mr_high_bps :: u64

definition media_rates_of_profile :: "media_rates result" where
  "media_rates_of_profile =
     ensure (1000 mod AUDIO_PACKETS_PER_SECOND = 0) ''audio packet rate must contain whole milliseconds'' (
     ensure (VIDEO_KEYFRAME_INTERVAL mod u64_from VIDEO_FRAMES_PER_SECOND = 0)
       ''video keyframe interval must contain complete seconds'' (
     bind_ok (ok_or ''video keyframe interval is shorter than one second''
       (checked_div VIDEO_KEYFRAME_INTERVAL (u64_from VIDEO_FRAMES_PER_SECOND))) (\<lambda>seconds.
     bind_ok (ok_or ''video profile duration exceeds u32'' (try_to (unat seconds))) (\<lambda>profile_seconds.
     ensure (profile_seconds > 0) ''video profile duration must be positive'' (
     bind_ok (video_packets_per_layer profile_seconds) (\<lambda>(low_packets, high_packets).
     bind_ok (ok_or ''audio payload size exceeds u64'' (try_to AUDIO_PACKET_PAYLOAD_BYTES)) (\<lambda>payload.
     bind_ok (ok_or ''audio profile bitrate overflowed''
       (Option.bind (checked_mul payload (u64_from AUDIO_PACKETS_PER_SECOND)) (\<lambda>bytes. checked_mul bytes 8))) (\<lambda>audio_bps.
     bind_ok (payload_rate_for_profile low_packets VIDEO_LOW_PACKET_PAYLOAD_BYTES profile_seconds) (\<lambda>low_bps.
     bind_ok (payload_rate_for_profile high_packets VIDEO_HIGH_PACKET_PAYLOAD_BYTES profile_seconds) (\<lambda>high_bps.
     Inr \<lparr>mr_packetization_ms = 1000 div AUDIO_PACKETS_PER_SECOND, mr_seconds = profile_seconds,
          mr_low_packets = low_packets, mr_high_packets = high_packets, mr_audio_bps = audio_bps,
          mr_low_bps = low_bps, mr_high_bps = high_bps\<rparr>))))))))))"

definition media_rows :: "media_rates \<Rightarrow> string list list result" where
  "media_rows m =
     bind_ok (format_profile_packet_rate (mr_low_packets m) (mr_seconds m)) (\<lambda>low_rate.
     bind_ok (format_profile_packet_rate (mr_high_packets m) (mr_seconds m)) (\<lambda>high_rate.
     bind_ok (ok_or ''camera profile packet count overflowed'' (checked_add (mr_low_packets m) (mr_high_packets m))) (\<lambda>packets.
     bind_ok (format_profile_packet_rate packets (mr_seconds m)) (\<lambda>camera_rate.
     bind_ok (ok_or ''camera profile bitrate overflowed'' (checked_add (mr_low_bps m) (mr_high_bps m))) (\<lambda>camera_bps.
     Inr
       [[''One Opus audio RTP stream'',
         show_nat AUDIO_PACKET_PAYLOAD_BYTES @ '' B every '' @ show_word (mr_packetization_ms m) @ '' ms'',
         show_word AUDIO_PACKETS_PER_SECOND, grouped (mr_audio_bps m) @ '' bit/s''],
        [''One VP8 low RID RTP stream'',
         show_nat VIDEO_LOW_PACKET_PAYLOAD_BYTES @ '' B packets, '' @ show_word VIDEO_FRAMES_PER_SECOND @ '' fps'',
         low_rate, grouped (mr_low_bps m) @ '' bit/s''],
        [''One VP8 high RID RTP stream'',
         show_nat VIDEO_HIGH_PACKET_PAYLOAD_BYTES @ '' B packets, '' @ show_word VIDEO_FRAMES_PER_SECOND @ '' fps'',
         high_rate, grouped (mr_high_bps m) @ '' bit/s''],
        [''One VP8 camera publication, two RTP streams'', show_word (mr_seconds m) @ ''-second GOP'',
         camera_rate, grouped camera_bps @ '' bit/s'']])))))"

definition audio_model_text :: "media_rates \<Rightarrow> string" where
  "audio_model_text m =
     ''The audio model is continuous active full-band speech at '' @ grouped (mr_audio_bps m) @ '' bit/s with the ''
       @ show_word (mr_packetization_ms m) @ '' ms Opus packetization default. The VP8 profile uses ''
       @ show_word VIDEO_FRAMES_PER_SECOND @ '' frames/s and one keyframe every '' @ show_word (mr_seconds m) @ '' seconds. Each ''
       @ ''first keyframe fragment carries the complete ten-byte VP8 uncompressed prefix with the ''
       @ ''keyframe sync code and 320 by 180 low or 1,280 by 720 high dimensions. Both VP8 RID rates ''
       @ ''form a high-bitrate simulcast stress envelope. The largest RTP payload is ''
       @ show_nat VIDEO_HIGH_PACKET_PAYLOAD_BYTES @ '' B, which leaves 180 B beneath the 1,280 B IPv6 ''
       @ ''effective MTU for transport headers and negotiated RTP extensions. [Opus RTP ''
       @ ''guidance](https://www.rfc-editor.org/rfc/rfc7587.html), [VP8 keyframe ''
       @ ''prefix](https://www.rfc-editor.org/rfc/rfc6386.html#section-9.1), [VP8 RTP ''
       @ ''fragmentation](https://www.rfc-editor.org/rfc/rfc7741.html#section-4.4), [UDP message ''
       @ ''sizing](https://www.rfc-editor.org/rfc/rfc8085.html#section-3.2) and [WebRTC bitrate ''
       @ ''units](https://www.w3.org/TR/webrtc/#dom-rtcrtpencodingparameters-maxbitrate).''"

definition render_media_profile :: "doc result" where
  "render_media_profile =
     bind_ok media_rates_of_profile (\<lambda>m.
     bind_ok (media_rows m) (\<lambda>rows.
     Inr (paragraph_of ''## Per-stream media load'' @ paragraph_of payload_text @ paragraph_of payload_model
       @ md_table [''Media unit'', ''Payload model'', ''RTP packets/s'', ''RTP payload bitrate'']
           [''---'', ''---'', ''---:'', ''---:''] rows
       @ paragraph_of (audio_model_text m))))"

definition render_scenario_legend :: doc where
  "render_scenario_legend =
     paragraph_of ''## Scenario label legend'' @ paragraph_of label_text
       @ [smoke_label_text, audio_label_text, video_label_text] @ paragraph_of mixed_label_text"

section \<open>Delivery\<close>

definition delivery_charts :: "run_data list \<Rightarrow> doc result" where
  "delivery_charts runs =
     (let labels = map (\<lambda>run. chart_label (res_scenario (rd_result run))) runs;
          delivery_rates = map (\<lambda>run. delivery_rate (rd_result run)) runs;
          scheduled_rates = map (\<lambda>run. scheduled_payload_bits_per_second (rd_result run) div 1000) runs;
          observed_rates = map (\<lambda>run. delivered_payload_bits_per_second (rd_result run) div 1000) runs in
      if length runs \<le> MAX_CHART_SCENARIOS then
        bind_ok (render_category_charts ''Observed receiver deliveries per second''
          ''The line compares receiver-observed delivery rates across scenarios.'' labels ''deliveries/s'' 0
          [\<lparr>cl_name = ''observed deliveries'', cl_values = delivery_rates\<rparr>]) (\<lambda>deliveries.
        bind_ok (render_category_charts ''Scheduled sender and receiver-observed RTP payload''
          ''The first line is scheduled sender RTP payload. The second line is receiver-observed RTP payload.''
          labels ''RTP payload kbit/s'' 0
          [\<lparr>cl_name = ''scheduled sender'', cl_values = scheduled_rates\<rparr>,
           \<lparr>cl_name = ''receiver observed'', cl_values = observed_rates\<rparr>]) (\<lambda>payload.
        Inr (deliveries @ payload)))
      else
        Inr (paragraph_of (''Visual charts are omitted when more than '' @ show_nat MAX_CHART_SCENARIOS
          @ '' scenarios are reported.'')))"

definition render_delivery :: "run_data list \<Rightarrow> doc result" where
  "render_delivery runs =
     bind_ok (delivery_charts runs) (\<lambda>charts.
     Inr (paragraph_of ''## Exact delivery'' @ charts
       @ md_table [''Scenario'', ''Expected'', ''Delivered'', ''Delivery rate'', ''Scheduled sender payload'',
            ''Receiver-observed payload'', ''Exact'']
           [''---'', ''---:'', ''---:'', ''---:'', ''---:'', ''---:'', ''---'']
           (map (\<lambda>run. let r = rd_result run in
             [scenario_label (res_scenario r), grouped (wp_expected_deliveries (res_plan r)),
              grouped (res_delivered_packets r), grouped (delivery_rate r) @ ''/s'',
              format_bits_per_second (scheduled_payload_bits_per_second r),
              format_bits_per_second (delivered_payload_bits_per_second r), pass_fail (run_passed run)]) runs)))"

definition render_discrepancies :: "run_data list \<Rightarrow> doc" where
  "render_discrepancies runs =
     paragraph_of ''## Packet discrepancies''
     @ md_table [''Scenario'', ''Missing'', ''Duplicate'', ''Out of order'', ''Unexpected'', ''Payload mismatch'', ''Total'']
         [''---'', ''---:'', ''---:'', ''---:'', ''---:'', ''---:'', ''---:'']
         (map (\<lambda>run. let correctness = res_correctness (rd_result run) in
           [scenario_label (res_scenario (rd_result run)), grouped (missing_packets correctness),
            grouped (duplicate_packets correctness), grouped (out_of_order_packets correctness),
            grouped (unexpected_packets correctness), grouped (payload_mismatches correctness),
            grouped (discrepancy_count correctness)]) runs)"

section \<open>Telemetry\<close>

type_synonym labelled_summary = "string \<times> run_telemetry"

definition run_summaries :: "run_data list \<Rightarrow> labelled_summary list" where
  "run_summaries runs =
     map (\<lambda>run. (scenario_label (res_scenario (rd_result run)),
       telemetry_from_samples (rd_samples run) (res_delivered_packets (rd_result run)))) runs"

definition observed :: "bool \<Rightarrow> string" where
  "observed seen = (if seen then ''yes'' else ''no'')"

definition format_packet_loop_health :: "run_telemetry \<Rightarrow> string" where
  "format_packet_loop_health summary =
     (let numeric = format_optional (rt_packet_loop_delay_ms summary) format_milliseconds;
          unresponsive = rt_packet_loop_unresponsive_samples summary in
      if unresponsive = 0 then numeric
      else ''UNRESPONSIVE ('' @ show_nat unresponsive @ '' '' @ (if unresponsive = 1 then ''sample'' else ''samples'')
        @ '', numeric max '' @ numeric @ '')'')"

text \<open>The charted scenarios: those with an average and a peak; the others are named.\<close>

definition charted_cpu :: "labelled_summary list \<Rightarrow> string list \<Rightarrow> (string \<times> u64 \<times> u64) list" where
  "charted_cpu summaries labels =
     List.map_filter (\<lambda>((_, summary), label).
       case (rt_server_cpu_percent_milli summary, rt_server_cpu_peak_percent_milli summary) of
         (Some average, Some highest) \<Rightarrow> Some (label, rounded_div average 1000, rounded_div highest 1000)
       | _ \<Rightarrow> None) (zip summaries labels)"

definition omitted_cpu :: "labelled_summary list \<Rightarrow> string list \<Rightarrow> string list" where
  "omitted_cpu summaries labels =
     List.map_filter (\<lambda>((_, summary), label).
       if rt_server_cpu_percent_milli summary \<noteq> None \<and> rt_server_cpu_peak_percent_milli summary \<noteq> None
       then None else Some label) (zip summaries labels)"

definition render_cpu_overview :: "labelled_summary list \<Rightarrow> string list \<Rightarrow> doc result" where
  "render_cpu_overview summaries labels =
     ensure (length summaries = length labels) ''CPU chart labels must match telemetry summaries'' (
     let charted = charted_cpu summaries labels; omitted = omitted_cpu summaries labels;
         note = (if omitted \<noteq> [] then paragraph_of
             (''CPU chart requires an interval-weighted average and sampled peak. Omitted scenarios: ''
                @ join_with '', '' omitted @ ''.'') else []) in
     if charted = [] then Inr note
     else
       bind_ok (render_category_charts ''SFU CPU average and peak''
         ''The first line is the whole-window weighted average. The second line is the sampled peak.''
         (map fst charted) ''CPU (%)'' 100
         [\<lparr>cl_name = ''weighted average'', cl_values = map (fst \<circ> snd) charted\<rparr>,
          \<lparr>cl_name = ''sampled peak'', cl_values = map (snd \<circ> snd) charted\<rparr>]) (\<lambda>charts.
       Inr (note @ charts)))"

definition render_metric_table :: "labelled_summary list \<Rightarrow> doc" where
  "render_metric_table summaries =
     paragraph_of ''CPU and counter metrics cover the whole sample window including setup, warmup and drain.''
     @ md_table [''Scenario'', ''SFU CPU avg'', ''SFU CPU peak'', ''Efficiency'', ''Forwarded'', ''Sample egress'',
          ''Loop heartbeat delay'', ''SFU RSS'', ''RTC CPU avg'', ''RTC RSS'']
         [''---'', ''---:'', ''---:'', ''---:'', ''---:'', ''---:'', ''---:'', ''---:'', ''---:'', ''---:'']
         (map (\<lambda>(label, summary).
           [label, format_optional (rt_server_cpu_percent_milli summary) format_cpu_percent,
            format_optional (rt_server_cpu_peak_percent_milli summary) format_cpu_percent,
            format_optional (rt_deliveries_per_server_cpu_second summary) format_delivery_efficiency,
            format_optional (rt_forwarded_packets_per_second summary) format_packets_per_second,
            format_optional (rt_egress_payload_bits_per_second summary) format_bits_per_second,
            format_packet_loop_health summary, format_optional (rt_server_rss_bytes summary) format_mebibytes,
            format_optional (rt_rtc_cpu_percent_milli summary) format_cpu_percent,
            format_optional (rt_rtc_rss_bytes summary) format_mebibytes]) summaries)"

definition issue_rows :: "run_data \<Rightarrow> string list list" where
  "issue_rows run =
     (case rd_samples run of
        None \<Rightarrow> []
      | Some samples \<Rightarrow>
          if ss_unavailable samples > 0 then
            map (\<lambda>error. [scenario_label (res_scenario (rd_result run)), escape_table (rd_source run),
                show_nat (ss_unavailable samples), error])
              (if ss_errors samples = [] then [''unavailable telemetry record''] else map escape_table (ss_errors samples))
          else [])"

definition has_issues :: "run_data \<Rightarrow> bool" where
  "has_issues run \<longleftrightarrow> (case rd_samples run of None \<Rightarrow> False | Some samples \<Rightarrow> ss_unavailable samples > 0)"

definition render_telemetry_issues :: "run_data list \<Rightarrow> doc" where
  "render_telemetry_issues runs =
     (if filter has_issues runs = [] then []
      else paragraph_of ''## Telemetry issues''
        @ md_table [''Scenario'', ''Input'', ''Unavailable'', ''Error''] [''---'', ''---'', ''---:'', ''---'']
            (concat (map issue_rows (filter has_issues runs))))"

definition render_telemetry :: "run_data list \<Rightarrow> doc result" where
  "render_telemetry runs =
     (let summaries = run_summaries runs;
          samples_table = md_table [''Scenario'', ''Samples'', ''Unavailable'', ''Last sample'', ''SFU ticks'', ''RTC ticks'']
            [''---'', ''---:'', ''---:'', ''---:'', ''---'', ''---'']
            (map (\<lambda>(label, summary).
              [label, show_nat (rt_samples summary), show_nat (rt_unavailable summary),
               format_optional (rt_elapsed_ms summary) format_milliseconds, observed (rt_server_ticks_observed summary),
               observed (rt_rtc_ticks_observed summary)]) summaries) in
      bind_ok (if length runs \<le> MAX_CHART_SCENARIOS
               then render_cpu_overview summaries (map (\<lambda>run. chart_label (res_scenario (rd_result run))) runs)
               else Inr []) (\<lambda>overview.
      Inr (paragraph_of ''## Process telemetry''
        @ paragraph_of ''CPU averages are weighted by sample interval. CPU graphs require explicit milli-percent samples.''
        @ samples_table @ overview @ render_metric_table summaries @ render_telemetry_issues runs)))"

section \<open>The report\<close>

text \<open>
  The order of runs and failures. The last key of a run is its \<open>Debug\<close> text, which derived code writes; runs
  with equal keys print the same text.
\<close>

definition report_key :: "(scenario_result \<Rightarrow> string) \<Rightarrow> run_data \<Rightarrow>
    scenario_order \<times> string \<times> string \<times> u64 \<times> u64 \<times> string" where
  "report_key debug run =
     (let r = rd_result run in
      (scenario_key (res_scenario r), res_profile r, rd_source run, res_delivered_packets r, res_elapsed_ms r, debug r))"

definition render_sections :: "run_data list \<Rightarrow> doc result" where
  "render_sections runs =
     (if runs = [] then Inr (paragraph_of ''No valid result files were available.'')
      else
        bind_ok render_media_profile (\<lambda>media_profile.
        bind_ok (render_delivery runs) (\<lambda>delivery.
        bind_ok (if list_ex (\<lambda>run. rd_samples run \<noteq> None) runs then render_telemetry runs else Inr []) (\<lambda>telemetry.
        Inr (render_workloads runs @ media_profile @ render_scenario_legend @ delivery @ render_discrepancies runs
          @ telemetry)))))"

definition render_report ::
  "(scenario_result \<Rightarrow> string) \<Rightarrow> run_data list \<Rightarrow> load_failure list \<Rightarrow> string option \<Rightarrow> string result" where
  "render_report debug runs failures artifact_link =
     (let runs = sort_key (report_key debug) runs;
          failures = sort_key (\<lambda>failure. (lf_source failure, lf_error failure)) failures in
      bind_ok (render_sections runs) (\<lambda>sections.
      let summary = text_of (paragraph_of ''# o-sfu load report'' @ render_status runs failures artifact_link
            @ (if failures \<noteq> [] then render_failures failures else []) @ sections) in
      bind_ok (ensure_summary_size summary) (\<lambda>_. Inr summary)))"

definition render ::
  "(scenario_result \<Rightarrow> string) \<Rightarrow> (fs_path \<Rightarrow> run_data result) \<Rightarrow> fs_path list \<Rightarrow> string option \<Rightarrow> string result" where
  "render debug load inputs artifact_link =
     ensure (inputs \<noteq> []) ''at least one report input is required'' (
     ensure (length inputs \<le> MAX_INPUTS) ''at most 256 report inputs are allowed'' (
     bind_ok (validate_artifact_url artifact_link) (\<lambda>_.
     case load_inputs load inputs of (runs, failures) \<Rightarrow> render_report debug runs failures artifact_link)))"

end
