(* ===== verification/ProfileReport.thy ===== *)
theory ProfileReport
  imports ProfilePrepare Report
begin

text \<open>
  The text of a CPU profile (\<open>src/profile/report.rs\<close>, \<open>render\<close> and the functions below it) as a document of
  lines: overview, runner context, sample modes, rankings, stack paths and diagnostics.
\<close>

section \<open>Overview\<close>

definition overview_row :: "prepared_profile \<Rightarrow> string list" where
  "overview_row report =
     (let r = rd_result (pp_run report); capture = pp_capture report; folded = pp_profile report in
      [if fp_malformed_lines folded = 0 then ''AVAILABLE'' else ''INCOMPLETE'', ''PASS'',
       scenario_label (res_scenario r), grouped (wp_routes (res_plan r)),
       escape_table (case res_o_sfu_revision r of None \<Rightarrow> ''n/a'' | Some revision \<Rightarrow> revision),
       escape_table (cm_event capture), escape_table (cm_call_graph capture),
       show_word (cm_frequency_hz capture) @ '' Hz'', format_duration (cm_duration_ms capture),
       grouped (fp_total_samples folded),
       format_count_percent (fp_unresolved_leaf_samples folded) (fp_total_samples folded)])"

definition environment_rows :: "environment_metadata \<Rightarrow> string list list" where
  "environment_rows environment =
     map (\<lambda>(property, val). [property, escape_table val])
       [(''CPU model'', em_cpu_model environment), (''Logical CPUs'', show_nat (em_logical_cpus environment)),
        (''Kernel'', em_kernel environment), (''perf'', em_perf_version environment),
        (''Inferno'', em_inferno_version environment), (''Rust'', em_rustc_version environment),
        (''Runner image'', em_runner_image environment),
        (''Maximum stack depth'', em_perf_event_max_stack environment)]"

definition render_environment :: "environment_metadata \<Rightarrow> doc" where
  "render_environment environment =
     paragraph_of ''## Runner context''
     @ md_table [''Property'', ''Value''] [''---'', ''---''] (environment_rows environment)"

definition overview_links :: "string option \<Rightarrow> string option \<Rightarrow> doc" where
  "overview_links artifact_link flamegraph_link =
     (case flamegraph_link of
        None \<Rightarrow> []
      | Some url \<Rightarrow>
          let target = (case artifact_link of None \<Rightarrow> url | Some link \<Rightarrow> link) in
          paragraph_of (''[![o-sfu CPU flamegraph]('' @ url @ '')]('' @ target @ '')'')
          @ paragraph_of (''The embedded PNG is a static preview. The artifact retains Inferno's interactive SVG with ''
              @ ''stack search and zoom controls.''))
     @ (case artifact_link of
          Some url \<Rightarrow> paragraph_of (''[Download the interactive flamegraph, perf.data, folded stacks and raw reports]('' @ url @ '')'')
        | None \<Rightarrow> paragraph_of ''The artifact contains `flamegraph.svg`, `perf.data`, folded stacks and raw reports.'')"

definition render_overview :: "prepared_profile \<Rightarrow> string option \<Rightarrow> string option \<Rightarrow> doc" where
  "render_overview report artifact_link flamegraph_link =
     paragraph_of ''# o-sfu CPU profile''
     @ md_table [''Profile'', ''Exact RTC work'', ''Scenario'', ''Total media consumers'', ''o-sfu revision'', ''Event'',
          ''Unwind'', ''Requested frequency'', ''Capture'', ''Samples'', ''Unresolved leaf'']
         [''---'', ''---'', ''---'', ''---:'', ''---'', ''---'', ''---'', ''---:'', ''---:'', ''---:'', ''---:'']
         [overview_row report]
     @ paragraph_of (''This is a dedicated qualitative replay built with frame pointers. Sampling starts after server ''
         @ ''readiness and covers peer setup, warmup, measured traffic and drain. Sampling overhead does not affect the ''
         @ ''authoritative nightly measurements.'')
     @ paragraph_of (''Flamegraph width represents sample share and horizontal position is not time. Stack depth grows ''
         @ ''vertically.'')
     @ overview_links artifact_link flamegraph_link
     @ render_environment (pp_environment report)"

section \<open>Counts\<close>

definition render_count_row :: "string \<Rightarrow> u64 \<Rightarrow> u64 \<Rightarrow> string list" where
  "render_count_row label samples all_samples = [label, grouped samples, format_percent samples all_samples]"

definition ranked_row :: "u64 \<Rightarrow> nat \<times> string \<times> u64 \<Rightarrow> string list" where
  "ranked_row all_samples row =
     (case row of (index, label, samples) \<Rightarrow>
        [show_nat (index + 1), escape_table label, grouped samples, format_percent samples all_samples])"

definition render_ranked :: "string \<Rightarrow> string \<Rightarrow> counts \<Rightarrow> u64 \<Rightarrow> nat \<Rightarrow> bool \<Rightarrow> doc" where
  "render_ranked title name entries all_samples limit is_partition =
     paragraph_of (''## '' @ title)
     @ md_table [''Rank'', name, ''Samples'', ''Share''] [''---:'', ''---'', ''---:'', ''---:'']
         (map (ranked_row all_samples) (List.enumerate 0 (ranked entries limit))
          @ (case remaining_samples entries all_samples limit is_partition of
               None \<Rightarrow> []
             | Some rest \<Rightarrow> [[''Other'', ''Remaining entries'', grouped rest, format_percent rest all_samples]]))"

definition hot_stack_row :: "u64 \<Rightarrow> nat \<times> string \<times> u64 \<Rightarrow> string list" where
  "hot_stack_row all_samples row =
     (case row of (index, stack, samples) \<Rightarrow>
        (case display_stack stack 240 of (thread, shown) \<Rightarrow>
           [show_nat (index + 1), escape_table thread, escape_table shown, grouped samples,
            format_percent samples all_samples]))"

definition render_hot_stacks :: "folded_profile \<Rightarrow> doc" where
  "render_hot_stacks folded =
     paragraph_of ''## Hottest stack paths''
     @ md_table [''Rank'', ''Thread'', ''Leaf-side stack'', ''Samples'', ''Share'']
         [''---:'', ''---'', ''---'', ''---:'', ''---:'']
         (map (hot_stack_row (fp_total_samples folded))
            (List.enumerate 0 (ranked (fp_stack_samples folded) MAX_HOT_STACKS)))"

text \<open>The rows of the sample modes: the first two partition the samples.\<close>

definition mode_rows :: "folded_profile \<Rightarrow> string list list" where
  "mode_rows folded =
     (let all_samples = fp_total_samples folded in
      [render_count_row ''Kernel'' (fp_kernel_samples folded) all_samples,
       render_count_row ''Non-kernel leaf'' (saturating_sub all_samples (fp_kernel_samples folded)) all_samples,
       render_count_row ''Unresolved leaf'' (fp_unresolved_leaf_samples folded) all_samples,
       render_count_row ''Partially symbolized stack'' (fp_unresolved_stack_samples folded) all_samples])"

definition inclusive_samples_shown :: "folded_profile \<Rightarrow> counts" where
  "inclusive_samples_shown folded = filter (\<lambda>(frame, _). informative_inclusive_frame frame) (fp_inclusive_samples folded)"

definition render_breakdown :: "folded_profile \<Rightarrow> doc" where
  "render_breakdown folded =
     (let all_samples = fp_total_samples folded in
      paragraph_of ''## Sample mode''
      @ md_table [''Leaf mode'', ''Samples'', ''Share''] [''---'', ''---:'', ''---:''] (mode_rows folded)
      @ paragraph_of (''Kernel and non-kernel leaf rows partition the samples. Unresolved leaf measures self cost that ''
          @ ''cannot be attributed to a symbol. Partially symbolized stacks can include address-only system-library ''
          @ ''roots and overlap the other rows.'')
      @ render_ranked ''Thread sample share'' ''Thread'' (fp_thread_samples folded) all_samples MAX_ROWS True
      @ paragraph_of ''Self cost attributes each sample to its leaf frame and partitions the sample set.''
      @ render_ranked ''Hottest leaf symbols'' ''Symbol'' (fp_self_samples folded) all_samples MAX_ROWS True
      @ paragraph_of (''Inclusive cost counts a frame once when it appears anywhere in a sampled stack. Rows overlap and ''
          @ ''must not be summed.'')
      @ render_ranked ''Hottest inclusive frames'' ''Frame'' (inclusive_samples_shown folded) all_samples MAX_ROWS False
      @ paragraph_of (''The summary ranking omits unresolved address frames and process bootstrap wrappers. The ''
          @ ''flamegraph and raw perf reports retain them.'')
      @ render_hot_stacks folded)"

text \<open>The count of malformed lines is capped to \<open>u64\<close> before it is grouped.\<close>

definition render_diagnostics :: "folded_profile \<Rightarrow> doc" where
  "render_diagnostics folded =
     (if fp_malformed_lines folded > 0 then
        paragraph_of ''## Profile diagnostics''
        @ paragraph_of (grouped (clamp_to (fp_malformed_lines folded))
            @ '' folded-stack lines were invalid. Valid samples remain reported above.'')
        @ map (\<lambda>diagnostic. ''- '' @ escape_table diagnostic) (fp_diagnostics folded) @ [[]]
      else [])
     @ paragraph_of (''Raw `hotspots-self.txt`, `hotspots-inclusive.txt`, `threads.txt` and `perf-header.txt` retain ''
         @ ''perf's DSO and symbol views.'')"

definition profile_doc :: "prepared_profile \<Rightarrow> string option \<Rightarrow> string option \<Rightarrow> doc" where
  "profile_doc report artifact_link flamegraph_link =
     render_overview report artifact_link flamegraph_link @ render_breakdown (pp_profile report)
     @ render_diagnostics (pp_profile report)"

definition render_profile ::
  "profile_world \<Rightarrow> file_event list \<Rightarrow> fs_path \<Rightarrow> string option \<Rightarrow> string option \<Rightarrow> string result" where
  "render_profile w h input artifact_link flamegraph_link =
     bind_ok (validate_artifact_url artifact_link) (\<lambda>_.
     bind_ok (validate_flamegraph_url flamegraph_link) (\<lambda>_.
     bind_ok (load_prepared w input (files_at w h)) (\<lambda>report.
     let summary = text_of (profile_doc report artifact_link flamegraph_link) in
     bind_ok (ensure_summary_size summary) (\<lambda>_. Inr summary))))"

text \<open>The directory a file is written to: its parent, unless that is the empty path.\<close>

definition parent_directory :: "fs_path \<Rightarrow> fs_path option" where
  "parent_directory target =
     (case path_parent target of None \<Rightarrow> None | Some parent \<Rightarrow> if is_empty_path parent then None else Some parent)"

end
