(* ===== verification/ReportFacts.thy ===== *)
theory ReportFacts
  imports Report
begin

text \<open>
  What holds of every job summary: its tables are sound whatever text the inputs hold, no check inside the
  renderer can fail, and every scenario has its row.
\<close>

section \<open>Sound sections\<close>

lemma sound_mapped_table [doc_intros]:
  assumes "length header = length alignments" "header \<noteq> []"
    and "list_all in_cell header" "list_all in_cell alignments"
    and "\<And>x. x \<in> set xs \<Longrightarrow> length (f x) = length header \<and> list_all in_cell (f x)"
  shows "sound_doc (md_table header alignments (map f xs))"
  using assms(5) by (intro sound_table [OF assms(1-4)]) auto

lemma one_line_texts [simp]:
  "one_line consumer_text" "one_line consumer_example" "one_line payload_text" "one_line payload_model"
  "one_line label_text" "one_line smoke_label_text" "one_line audio_label_text" "one_line video_label_text"
  "one_line mixed_label_text"
  by (simp_all add: consumer_text_def consumer_example_def payload_text_def payload_model_def label_text_def
      smoke_label_text_def audio_label_text_def video_label_text_def mixed_label_text_def)

lemma no_row_texts [simp]:
  "\<not> is_row consumer_text" "\<not> is_row consumer_example" "\<not> is_row payload_text" "\<not> is_row payload_model"
  "\<not> is_row label_text" "\<not> is_row smoke_label_text" "\<not> is_row audio_label_text" "\<not> is_row video_label_text"
  "\<not> is_row mixed_label_text"
  by (simp_all add: consumer_text_def consumer_example_def payload_text_def payload_model_def label_text_def
      smoke_label_text_def audio_label_text_def video_label_text_def mixed_label_text_def)

lemma in_cell_statuses [cell_intros]:
  "in_cell (exact_status runs failures)" "in_cell (telemetry_status runs)" "in_cell (pacing_status runs)"
  "in_cell (pass_fail b)" "in_cell (observed b)" "in_cell (pacing_label r)" "in_cell (validation_label run)"
  by (simp_all add: exact_status_def telemetry_status_def pacing_status_def pass_fail_def observed_def pacing_label_def
      validation_label_def cell_intros split: sum.split)

lemma in_cell_health [cell_intros]: "in_cell (format_packet_loop_health summary)"
  by (simp add: format_packet_loop_health_def Let_def cell_intros)

lemma link_chars_line: "list_all link_char url \<Longrightarrow> one_line url"
proof -
  have "\<not> link_char (CHR 0x0A)" "\<not> link_char (CHR 0x0D)" by code_simp+
  then show "list_all link_char url \<Longrightarrow> one_line url" unfolding one_line_def list_all_iff by metis
qed

lemma accepted_link_line: "validate_artifact_url (Some url) = Inr () \<Longrightarrow> one_line url"
  using accepted_links_safe link_chars_line by blast

lemma sound_status: "validate_artifact_url link = Inr () \<Longrightarrow> sound_doc (render_status runs failures link)"
  unfolding render_status_def
  by (intro doc_intros; cases link) (auto simp: cell_intros in_cell_one_line accepted_link_line intro!: doc_intros)

lemma sound_failures: "sound_doc (render_failures failures)"
  unfolding render_failures_def by (intro doc_intros) (simp_all add: cell_intros failure_row_def)

lemma sound_consumer_context: "sound_doc render_consumer_context"
  unfolding render_consumer_context_def by (intro doc_intros) simp_all

lemma sound_workloads: "sound_doc (render_workloads runs)"
  unfolding render_workloads_def
  by (intro doc_intros sound_consumer_context) (simp_all add: cell_intros workload_row_def Let_def)

lemma sound_legend: "sound_doc render_scenario_legend"
  unfolding render_scenario_legend_def by (intro doc_intros) simp_all

lemma sound_discrepancies: "sound_doc (render_discrepancies runs)"
  unfolding render_discrepancies_def by (intro doc_intros) (simp_all add: cell_intros Let_def)

lemma sound_metric_table:
  "(\<And>s. s \<in> set summaries \<Longrightarrow> in_cell (fst s)) \<Longrightarrow> sound_doc (render_metric_table summaries)"
  unfolding render_metric_table_def by (intro doc_intros) (auto simp: cell_intros)

lemma sound_issues: "sound_doc (render_telemetry_issues runs)"
proof -
  have "length row = 4 \<and> list_all in_cell row" if "row \<in> set (issue_rows run)" for row run
    using that by (auto simp: issue_rows_def cell_intros split: option.splits if_splits)
  then show ?thesis
    unfolding render_telemetry_issues_def
    by (auto intro!: doc_intros)
qed

section \<open>The media profile\<close>

text \<open>The checks of the media profile hold for the constants of the model.\<close>

lemma media_rates_value:
  "media_rates_of_profile = Inr \<lparr>mr_packetization_ms = 20, mr_seconds = 2, mr_low_packets = 61, mr_high_packets = 846,
     mr_audio_bps = 32000, mr_low_bps = 146400, mr_high_bps = 3722400\<rparr>"
  by (simp add: media_rates_of_profile_def model_consts video_packets_per_layer_def plan_mul_def plan_add_def
      checked_mul_def checked_add_def checked_div_def u64_from_def Let_def div_ceil_def payload_rate_for_profile_def try_to_def)


lemma profile_packet_rates:
  "\<exists>s. format_profile_packet_rate 61 2 = Inr s" "\<exists>s. format_profile_packet_rate 846 2 = Inr s"
  "\<exists>s. format_profile_packet_rate 907 2 = Inr s"
  by (simp_all add: format_profile_packet_rate_def checked_mul_def Let_def)

lemma in_cell_packet_rate: "format_profile_packet_rate n seconds = Inr s \<Longrightarrow> in_cell s"
  by (auto simp: format_profile_packet_rate_def checked_iff Let_def show_tenths_def cell_intros split: if_splits)

lemma media_rows_exist: "\<exists>m rows. media_rates_of_profile = Inr m \<and> media_rows m = Inr rows"
  using profile_packet_rates by (auto simp: media_rates_value media_rows_def checked_add_def)

lemma media_rows_cells:
  assumes "media_rows m = Inr rows" "row \<in> set rows"
  shows "length row = 4 \<and> list_all in_cell row"
proof -
  obtain low_rate high_rate packets camera_rate where rates:
    "format_profile_packet_rate (mr_low_packets m) (mr_seconds m) = Inr low_rate"
    "format_profile_packet_rate (mr_high_packets m) (mr_seconds m) = Inr high_rate"
    "format_profile_packet_rate packets (mr_seconds m) = Inr camera_rate"
    "\<exists>a b c d e f g h i. rows = [[''One Opus audio RTP stream'', a, b, c], [''One VP8 low RID RTP stream'', d, low_rate, e],
      [''One VP8 high RID RTP stream'', f, high_rate, g],
      [''One VP8 camera publication, two RTP streams'', h, camera_rate, i]] \<and> list_all in_cell [a, b, c, d, e, f, g, h, i]"
    using assms(1) by (auto simp: media_rows_def checked_iff cell_intros)
  then have "list_all in_cell [low_rate, high_rate, camera_rate]" by (auto dest: in_cell_packet_rate)
  then show ?thesis using rates(4) assms(2) by auto
qed

lemma media_text_line: "one_line (audio_model_text m)" "\<not> is_row (audio_model_text m)"
  by (simp_all add: audio_model_text_def in_cell_one_line cell_intros)

lemma media_profile_sound: "\<exists>d. render_media_profile = Inr d \<and> sound_doc d"
proof -
  obtain m rows where m: "media_rates_of_profile = Inr m" "media_rows m = Inr rows" using media_rows_exist by blast
  have "sound_doc (md_table [''Media unit'', ''Payload model'', ''RTP packets/s'', ''RTP payload bitrate'']
       [''---'', ''---'', ''---:'', ''---:''] rows)"
    by (rule sound_table) (use media_rows_cells [OF m(2)] in simp_all)
  then show ?thesis
    unfolding render_media_profile_def m(1) bind_ok_simps m(2)
    by (auto intro!: exI doc_intros simp: media_text_line)
qed

section \<open>Charts of a report\<close>

lemma delivery_sound:
  assumes "runs \<noteq> []"
  shows "\<exists>d. render_delivery runs = Inr d \<and> sound_doc d"
proof -
  have "\<exists>charts. delivery_charts runs = Inr charts \<and> sound_doc charts"
  proof (cases "length runs \<le> MAX_CHART_SCENARIOS")
    case False
    then show ?thesis
      by (simp add: delivery_charts_def Let_def) (intro doc_intros; simp add: in_cell_one_line cell_intros)
  next
    case True
    let ?labels = "map (\<lambda>run. chart_label (res_scenario (rd_result run))) runs"
    have l: "list_all one_line ?labels" by (simp add: list_all_iff in_cell_one_line cell_intros)
    have "\<exists>d. render_category_charts ''Observed receiver deliveries per second''
        ''The line compares receiver-observed delivery rates across scenarios.'' ?labels ''deliveries/s'' 0
        [\<lparr>cl_name = ''observed deliveries'', cl_values = map (\<lambda>run. delivery_rate (rd_result run)) runs\<rparr>] = Inr d \<and> sound_doc d"
      by (rule sound_charts) (use assms l in \<open>simp_all add: one_line_chart_def\<close>)
    moreover have "\<exists>d. render_category_charts ''Scheduled sender and receiver-observed RTP payload''
        ''The first line is scheduled sender RTP payload. The second line is receiver-observed RTP payload.''
        ?labels ''RTP payload kbit/s'' 0
        [\<lparr>cl_name = ''scheduled sender'', cl_values = map (\<lambda>run. scheduled_payload_bits_per_second (rd_result run) div 1000) runs\<rparr>,
         \<lparr>cl_name = ''receiver observed'', cl_values = map (\<lambda>run. delivered_payload_bits_per_second (rd_result run) div 1000) runs\<rparr>]
        = Inr d \<and> sound_doc d"
      by (rule sound_charts) (use assms l in \<open>simp_all add: one_line_chart_def\<close>)
    ultimately show ?thesis using True by (auto simp: delivery_charts_def Let_def intro: doc_intros)
  qed
  then obtain charts where "delivery_charts runs = Inr charts" "sound_doc charts" by blast
  then show ?thesis
    by (auto simp: render_delivery_def cell_intros Let_def intro!: doc_intros)
qed

lemma charted_labels: "set (map fst (charted_cpu summaries labels)) \<subseteq> set labels"
  by (auto simp: charted_cpu_def List.map_filter_def split: option.splits dest: set_zip_rightD)

lemma omitted_labels: "set (omitted_cpu summaries labels) \<subseteq> set labels"
  by (auto simp: omitted_cpu_def List.map_filter_def split: if_splits dest: set_zip_rightD)

lemma cpu_overview_sound:
  assumes "length summaries = length labels" "list_all one_line labels"
  shows "\<exists>d. render_cpu_overview summaries labels = Inr d \<and> sound_doc d"
proof -
  let ?note = "if omitted_cpu summaries labels \<noteq> [] then paragraph_of
     (''CPU chart requires an interval-weighted average and sampled peak. Omitted scenarios: ''
        @ join_with '', '' (omitted_cpu summaries labels) @ ''.'') else []"
  have "list_all one_line (omitted_cpu summaries labels)" "list_all one_line (map fst (charted_cpu summaries labels))"
    using assms(2) omitted_labels charted_labels unfolding list_all_iff by blast+
  then have remark: "sound_doc ?note" and lines: "list_all one_line (map fst (charted_cpu summaries labels))"
    by (auto simp: one_line_join sound_doc_Nil intro!: doc_intros)
  show ?thesis
  proof (cases "charted_cpu summaries labels = []")
    case True
    then show ?thesis using assms(1) remark by (simp add: render_cpu_overview_def Let_def)
  next
    case False
    have "\<exists>d. render_category_charts ''SFU CPU average and peak''
         ''The first line is the whole-window weighted average. The second line is the sampled peak.''
         (map fst (charted_cpu summaries labels)) ''CPU (%)'' 100
         [\<lparr>cl_name = ''weighted average'', cl_values = map (fst \<circ> snd) (charted_cpu summaries labels)\<rparr>,
          \<lparr>cl_name = ''sampled peak'', cl_values = map (snd \<circ> snd) (charted_cpu summaries labels)\<rparr>] = Inr d \<and> sound_doc d"
      by (rule sound_charts) (use False lines in \<open>simp_all add: one_line_chart_def\<close>)
    then obtain d where d: "render_category_charts ''SFU CPU average and peak''
         ''The first line is the whole-window weighted average. The second line is the sampled peak.''
         (map fst (charted_cpu summaries labels)) ''CPU (%)'' 100
         [\<lparr>cl_name = ''weighted average'', cl_values = map (fst \<circ> snd) (charted_cpu summaries labels)\<rparr>,
          \<lparr>cl_name = ''sampled peak'', cl_values = map (snd \<circ> snd) (charted_cpu summaries labels)\<rparr>] = Inr d" "sound_doc d"
      by blast
    have "render_cpu_overview summaries labels = Inr (?note @ d)"
      using assms(1) False d(1) by (simp only: render_cpu_overview_def Let_def ensure_def if_True if_False bind_ok_simps refl)
    then show ?thesis using sound_doc_append [OF remark d(2)] by blast
  qed
qed

lemma telemetry_sound: "\<exists>d. render_telemetry runs = Inr d \<and> sound_doc d"
proof -
  let ?labels = "map (\<lambda>run. chart_label (res_scenario (rd_result run))) runs"
  have l: "list_all one_line ?labels" by (simp add: list_all_iff in_cell_one_line cell_intros)
  have "\<exists>d. (if length runs \<le> MAX_CHART_SCENARIOS then render_cpu_overview (run_summaries runs) ?labels else Inr []) = Inr d
      \<and> sound_doc d"
    using cpu_overview_sound [of "run_summaries runs" ?labels] l by (simp add: run_summaries_def sound_doc_Nil)
  then obtain overview where o: "(if length runs \<le> MAX_CHART_SCENARIOS then render_cpu_overview (run_summaries runs) ?labels else Inr [])
      = Inr overview" "sound_doc overview" by blast
  have cells: "in_cell (fst s)" if "s \<in> set (run_summaries runs)" for s
    using that by (auto simp: run_summaries_def cell_intros)
  show ?thesis
    unfolding render_telemetry_def Let_def o(1) bind_ok_simps
    by (intro exI conjI, rule refl, intro doc_intros o(2) sound_metric_table sound_issues)
      (use cells in \<open>auto simp: cell_intros\<close>)
qed

lemma sections_sound: "\<exists>d. render_sections runs = Inr d \<and> sound_doc d"
proof (cases "runs = []")
  case True
  then show ?thesis by (simp add: render_sections_def) (intro doc_intros; simp)
next
  case False
  obtain m where m: "render_media_profile = Inr m" "sound_doc m" using media_profile_sound by blast
  obtain d where d: "render_delivery runs = Inr d" "sound_doc d" using delivery_sound [OF False] by blast
  obtain t where "(if list_ex (\<lambda>run. rd_samples run \<noteq> None) runs then render_telemetry runs else Inr []) = Inr t" "sound_doc t"
    using telemetry_sound sound_doc_Nil by (cases "list_ex (\<lambda>run. rd_samples run \<noteq> None) runs") auto
  then show ?thesis using False d sound_workloads sound_legend sound_discrepancies
    unfolding render_sections_def m(1) bind_ok_simps by (simp add: doc_intros m(2))
qed


section \<open>Whole reports\<close>

lemma sort_key_set: "x \<in> set (sort_key f xs) \<longleftrightarrow> x \<in> set xs"
  by simp

lemma report_text:
  assumes "render_report debug runs failures link = Inr t" "validate_artifact_url link = Inr ()"
  shows "\<exists>d sections. t = text_of d \<and> sound_doc d \<and> length t \<le> GITHUB_SUMMARY_LIMIT_BYTES \<and>
    render_sections (sort_key (report_key debug) runs) = Inr sections \<and>
    set sections \<subseteq> set d \<and> (failures \<noteq> [] \<longrightarrow> set (render_failures (sort_key (\<lambda>f. (lf_source f, lf_error f)) failures)) \<subseteq> set d)"
proof -
  obtain sections where s: "render_sections (sort_key (report_key debug) runs) = Inr sections" "sound_doc sections"
    using sections_sound by blast
  let ?failures = "sort_key (\<lambda>f. (lf_source f, lf_error f)) failures"
  let ?d = "paragraph_of ''# o-sfu load report'' @ render_status (sort_key (report_key debug) runs) ?failures link
     @ (if ?failures \<noteq> [] then render_failures ?failures else []) @ sections"
  have t: "t = text_of ?d" "length t \<le> GITHUB_SUMMARY_LIMIT_BYTES"
    using assms(1) s(1) by (auto simp: render_report_def Let_def checked_iff ensure_summary_size_def)
  have f: "sound_doc (if ?failures \<noteq> [] then render_failures ?failures else [])"
    by (simp add: sound_failures sound_doc_Nil)
  have "sound_doc ?d"
    by (intro doc_intros s(2) f sound_status [OF assms(2)]) simp_all
  moreover have "failures \<noteq> [] \<Longrightarrow> ?failures \<noteq> []" by (metis length_0_conv length_sort)
  ultimately show ?thesis using t s(1) by (intro exI [of _ ?d] exI [of _ sections]) auto
qed

lemma render_parts:
  assumes "render debug load inputs link = Inr t"
  shows "validate_artifact_url link = Inr () \<and>
    render_report debug (fst (load_inputs load inputs)) (snd (load_inputs load inputs)) link = Inr t"
  using assms by (auto simp: render_def checked_iff split: prod.splits)

lemma loaded: "input \<in> set inputs \<Longrightarrow>
    (case load input of
       Inr run \<Rightarrow> run \<in> set (fst (load_inputs load inputs))
     | Inl e \<Rightarrow> \<lparr>lf_source = show_path input, lf_error = show_error e\<rparr> \<in> set (snd (load_inputs load inputs)))"
  by (induction inputs) (auto split: sum.splits prod.splits)

text \<open>
  C36: the tables of a report are sound. Whatever the result files, telemetry errors, paths and messages
  contain, in the rendered text every table row has as many cell separators as the row before it, and the
  text fits into the summary.
\<close>

theorem report_tables_sound:
  assumes "render debug load inputs link = Inr t"
  shows "tables_sound (lines_of t) \<and> length t \<le> GITHUB_SUMMARY_LIMIT_BYTES"
  using render_parts [OF assms] report_text sound_text by blast

text \<open>
  a report fails only for its inputs. The single errors are: no input, too many inputs, a link that is
  not accepted, and a text beyond the size limit; no check inside the renderer fails.
\<close>

theorem report_fails_only:
  assumes "render debug load inputs link = Inl e"
  shows "(inputs = [] \<and> e = Anyhow [''at least one report input is required'']) \<or>
    (MAX_INPUTS < length inputs \<and> e = Anyhow [''at most 256 report inputs are allowed'']) \<or>
    (validate_artifact_url link = Inl e) \<or> e = Anyhow [''report exceeds GitHub's one MiB job-summary limit'']"
proof -
  obtain runs failures where l: "load_inputs load inputs = (runs, failures)" by fastforce
  obtain sections where "render_sections (sort_key (report_key debug) runs) = Inr sections" using sections_sound by blast
  then show ?thesis using assms l
    by (auto simp: render_def render_report_def Let_def ensure_def err_def bind_ok_def ensure_summary_size_def
        split: if_splits sum.splits)
qed

text \<open>
  every input is in the report, a loaded run as the workload row of its result and a failed input as a row
  with its path and error.
\<close>

theorem report_retains_inputs:
  assumes "render debug load inputs link = Inr t" "input \<in> set inputs"
  shows "(case load input of
       Inr run \<Rightarrow> table_row (workload_row run)
     | Inl e \<Rightarrow> table_row (failure_row \<lparr>lf_source = show_path input, lf_error = show_error e\<rparr>)) \<in> set (lines_of t)"
proof -
  let ?runs = "fst (load_inputs load inputs)" and ?failures = "snd (load_inputs load inputs)"
  obtain d sections where d: "t = text_of d" "sound_doc d"
    "render_sections (sort_key (report_key debug) ?runs) = Inr sections" "set sections \<subseteq> set d"
    "?failures \<noteq> [] \<longrightarrow> set (render_failures (sort_key (\<lambda>f. (lf_source f, lf_error f)) ?failures)) \<subseteq> set d"
    using render_parts [OF assms(1)] report_text by blast
  have lines: "lines_of t = d" using d(1,2) by (simp add: lines_of_doc sound_doc_def)
  note l = loaded [OF assms(2), of load]
  show ?thesis
  proof (cases "load input")
    case (Inl e)
    let ?f = "\<lparr>lf_source = show_path input, lf_error = show_error e\<rparr>"
    have f: "?f \<in> set ?failures" using l Inl by simp
    then have "table_row (failure_row ?f) \<in> set (render_failures (sort_key (\<lambda>f. (lf_source f, lf_error f)) ?failures))"
      by (simp add: render_failures_def md_table_def)
    then show ?thesis using d(5) f lines Inl by auto
  next
    case (Inr run)
    have r: "run \<in> set ?runs" using l Inr by simp
    then have "sort_key (report_key debug) ?runs \<noteq> []" by (metis length_0_conv length_sort list.set_intros(1) empty_iff empty_set)
    then have "set (render_workloads (sort_key (report_key debug) ?runs)) \<subseteq> set sections"
      using d(3) by (auto simp: render_sections_def checked_iff)
    moreover have "table_row (workload_row run) \<in> set (render_workloads (sort_key (report_key debug) ?runs))"
      using r by (simp add: render_workloads_def md_table_def)
    ultimately show ?thesis using d(4) lines Inr by auto
  qed
qed


section \<open>Examples\<close>

definition bad_path :: fs_path where "bad_path = \<lparr>rooted = False, components = [''out'', ''a|b'']\<rparr>"

definition bad_load :: "fs_path \<Rightarrow> run_data result" where "bad_load p = err ''| not JSON''"

definition bad_report :: doc where
  "bad_report =
     paragraph_of ''# o-sfu load report''
     @ md_table [''Exact work'', ''Scenarios'', ''Failed inputs'', ''Telemetry'', ''o-sfu revision'']
         [''---'', ''---:'', ''---:'', ''---'', ''---''] [[''FAIL'', ''0'', ''1'', ''n/a'', ''n/a'']]
     @ paragraph_of ''Completed performance samples: **n/a**. A sample is invalid when send lag exceeds one media interval.''
     @ paragraph_of ''## Input failures''
     @ md_table [''Input'', ''Error''] [''---'', ''---''] [[''out/a&#124;b'', ''&#124; not JSON'']]
     @ paragraph_of ''No valid result files were available.''"

lemma bad_escapes: "escape_table ''out/a|b'' = ''out/a&#124;b''" "escape_table ''| not JSON'' = ''&#124; not JSON''"
  "escape_table ''n/a'' = ''n/a''"
  by code_simp+

lemma bad_values: "show_nat 0 = ''0''" "show_nat (Suc 0) = ''1''" "revision_label [] = ''n/a''" "show_path bad_path = ''out/a|b''"
  "exact_status [] [f] = ''FAIL''" "telemetry_status [] = ''n/a''" "pacing_status [] = ''n/a''"
  by (simp_all add: show_nat.simps digit_char_def char_of_def bit_Suc_0_iff revision_label_def revision_set_def
      show_path_def bad_path_def exact_status_def telemetry_status_def pacing_status_def)

lemma bad_size: "length (text_of bad_report) \<le> 1024 * 1024"
  by (simp add: bad_report_def text_of_def paragraph_of_def md_table_def table_row_def)

lemma bad_rendered: "render (\<lambda>r. []) bad_load [bad_path] None = Inr (text_of bad_report)"
proof -
  have "load_inputs bad_load [bad_path] = ([], [\<lparr>lf_source = ''out/a|b'', lf_error = ''| not JSON''\<rparr>])"
    by (simp add: bad_load_def err_def bad_values)
  moreover have "ensure_summary_size (text_of bad_report) = Inr ()"
    using bad_size by (simp add: ensure_summary_size_def GITHUB_SUMMARY_LIMIT_BYTES_def ensure_def)
  moreover have "paragraph_of ''# o-sfu load report'' @ render_status [] [\<lparr>lf_source = ''out/a|b'', lf_error = ''| not JSON''\<rparr>] None
      @ render_failures [\<lparr>lf_source = ''out/a|b'', lf_error = ''| not JSON''\<rparr>]
      @ paragraph_of ''No valid result files were available.'' = bad_report"
    by (simp add: render_status_def render_failures_def failure_row_def bad_escapes bad_values bad_report_def paragraph_of_def)
  ultimately show ?thesis
    by (simp add: render_def render_report_def validate_artifact_url_def render_sections_def MAX_INPUTS_def)
qed

theorem report_tables_sound_witness: "tables_sound (lines_of (text_of bad_report))"
  using report_tables_sound [OF bad_rendered] by simp

theorem report_fails_only_witness:
  "\<exists>e. render (\<lambda>r. []) bad_load [] None = Inl e \<and> e = Anyhow [''at least one report input is required'']"
proof -
  have r: "render (\<lambda>r. []) bad_load [] None = Inl (Anyhow [''at least one report input is required''])"
    by (simp add: render_def err_def)
  show ?thesis using report_fails_only [OF r] r by auto
qed

theorem report_retains_inputs_witness:
  "''| out/a&#124;b | &#124; not JSON |'' \<in> set (lines_of (text_of bad_report))"
proof -
  have "table_row (failure_row \<lparr>lf_source = show_path bad_path, lf_error = show_error (Anyhow [''| not JSON''])\<rparr>)
      = ''| out/a&#124;b | &#124; not JSON |''" by code_simp
  moreover have "bad_load bad_path = Inl (Anyhow [''| not JSON''])" by (simp add: bad_load_def err_def)
  ultimately show ?thesis using report_retains_inputs [OF bad_rendered, of bad_path] by simp
qed

end
