(* ===== verification/ProfileRank.thy ===== *)
theory ProfileRank
  imports ProfileFacts "HOL-Library.Multiset"
begin

text \<open>
  What the summary of a profile shows: the entries of a ranking are the largest ones in their order, the row for
  the others carries exactly the samples that are not shown, and a shortened stack keeps the frames next to
  the leaf and its length limit.
\<close>

section \<open>Ranked entries\<close>

lemma sorted_by_rank:
  "counts_ok entries \<Longrightarrow> sorted_wrt ranks_before (sort_key rank_key entries)"
proof -
  assume "counts_ok entries"
  then have "distinct entries" by (simp add: counts_ok_def strict_sorted_iff distinct_map)
  then have "distinct (map rank_key (sort_key rank_key entries))"
    by (simp add: distinct_map inj_on_def rank_key_inject)
  then have "sorted_wrt (<) (map rank_key (sort_key rank_key entries))"
    by (simp add: strict_sorted_iff)
  then show ?thesis by (simp add: sorted_wrt_map rank_key_less)
qed

text \<open>
  A ranking shows as many entries as the limit allows, in descending order of their samples with ties in the
  order of the labels, and every entry it leaves out comes after every entry it shows.
\<close>

theorem ranked_exact:
  assumes "counts_ok entries"
  shows "length (ranked entries limit) = min (length entries) limit \<and>
    set (ranked entries limit) \<subseteq> set entries \<and> sorted_wrt ranks_before (ranked entries limit) \<and>
    (x \<in> set (ranked entries limit) \<and> y \<in> set entries \<and> y \<notin> set (ranked entries limit) \<longrightarrow> ranks_before x y)"
proof -
  let ?s = "sort_key rank_key entries"
  have split: "sorted_wrt ranks_before (take limit ?s @ drop limit ?s)" using sorted_by_rank [OF assms] by simp
  have "ranks_before x y" if "x \<in> set (take limit ?s)" "y \<in> set entries" "y \<notin> set (take limit ?s)"
  proof -
    have "set (take limit ?s) \<union> set (drop limit ?s) = set entries"
      by (metis append_take_drop_id set_append set_sort)
    then have "y \<in> set (drop limit ?s)" using that by blast
    then show ?thesis using split that(1) unfolding sorted_wrt_append by blast
  qed
  moreover have "set (take limit ?s) \<subseteq> set entries" using set_take_subset [of limit ?s] by simp
  ultimately show ?thesis using split unfolding sorted_wrt_append by (auto simp: ranked_def)
qed

section \<open>The row of the others\<close>

lemma sum_of_append [simp]: "sum_of (xs @ ys) = sum_of xs + sum_of ys"
  by (simp add: sum_of_def)

lemma sum_of_sort [simp]: "sum_of (sort_key f entries) = sum_of entries"
proof -
  have "mset (map (\<lambda>entry. unat (snd entry)) (sort_key f entries)) = mset (map (\<lambda>entry. unat (snd entry)) entries)"
    by simp
  then show ?thesis unfolding sum_of_def by (metis sum_mset_sum_list)
qed

lemma shown_sum: "sum_of rows + unat n < 2 ^ 64 \<Longrightarrow>
    unat (fold (\<lambda>(_, count) n. saturating_add n count) rows n) = unat n + sum_of rows"
proof (induction rows arbitrary: n)
  case (Cons row rows)
  obtain label count where row: "row = (label, count)" by (cases row)
  have "unat (saturating_add n count) = unat n + unat count"
    using Cons.prems by (simp add: row unat_sat)
  then show ?case using Cons by (simp add: row)
qed simp

lemma sum_of_pos: "\<forall>entry \<in> set entries. snd entry \<noteq> 0 \<Longrightarrow> 0 < sum_of entries \<longleftrightarrow> entries \<noteq> []"
  by (induction entries) (auto simp: sum_of_def word_eq_unat_iff)

lemma remaining_exact:
  assumes ok: "counts_ok entries" and n: "sum_of entries = unat n"
  shows "remaining_samples entries n limit True =
    (if length entries \<le> limit then None else Some (of_nat (sum_of (drop limit (sort_key rank_key entries)))))"
proof -
  let ?s = "sort_key rank_key entries"
  have split: "sum_of (take limit ?s) + sum_of (drop limit ?s) = unat n"
    using n sum_of_append [of "take limit ?s" "drop limit ?s"] by simp
  then have "sum_of (take limit ?s) + unat (0 :: u64) < 2 ^ 64" using unat_less_2p [of n] by simp
  then have shown: "unat (shown_samples (ranked entries limit)) = sum_of (take limit ?s)"
    using shown_sum [of "take limit ?s" 0] by (simp add: shown_samples_def ranked_def)
  have "\<forall>entry \<in> set (drop limit ?s). snd entry \<noteq> 0"
    using ok set_drop_subset [of limit ?s] by (auto simp: counts_ok_def)
  then have "0 < sum_of (drop limit ?s) \<longleftrightarrow> \<not> length entries \<le> limit" by (simp add: sum_of_pos)
  moreover have "n - shown_samples (ranked entries limit) = of_nat (sum_of (drop limit ?s))"
  proof -
    have "unat (n - shown_samples (ranked entries limit)) = sum_of (drop limit ?s)"
      using shown split by (subst unat_sub) (simp_all add: word_le_nat_alt)
    moreover have "n - shown_samples (ranked entries limit) = of_nat (unat (n - shown_samples (ranked entries limit)))"
      by simp
    ultimately show ?thesis by simp
  qed
  ultimately show ?thesis using shown split
    by (auto simp: remaining_samples_def Let_def word_less_nat_alt)
qed

text \<open>
  In the leaf and thread rankings of a parsed profile the row for the others appears exactly when entries are
  left out, and its samples and those of the shown entries add up to all samples.
\<close>

theorem ranked_rows_partition:
  assumes "parse_profile payload = Inr p" and "entries = fp_self_samples p \<or> entries = fp_thread_samples p"
  shows "(remaining_samples entries (fp_total_samples p) limit True = None \<longleftrightarrow> length entries \<le> limit) \<and>
    sum_of (ranked entries limit) + (case remaining_samples entries (fp_total_samples p) limit True of
       None \<Rightarrow> 0 | Some n \<Rightarrow> unat n) = unat (fp_total_samples p)"
proof -
  have ok: "counts_ok entries" "sum_of entries = unat (fp_total_samples p)"
    using parsed_profile [OF assms(1)] assms(2) by (auto simp: profile_of_def counts_by_def)
  let ?s = "sort_key rank_key entries"
  have split: "sum_of (take limit ?s) + sum_of (drop limit ?s) = unat (fp_total_samples p)"
    using ok(2) sum_of_append [of "take limit ?s" "drop limit ?s"] by simp
  then have "sum_of (drop limit ?s) < 2 ^ 64" using unat_less_2p [of "fp_total_samples p"] by simp
  then have "unat (of_nat (sum_of (drop limit ?s)) :: u64) = sum_of (drop limit ?s)"
    by (simp add: unat_of_nat)
  then show ?thesis unfolding remaining_exact [OF ok] using split by (auto simp: ranked_def)
qed

lemma two_counts: "counts_ok [(''a'', 3), (''b'', 9)]"
  by code_simp

theorem ranked_exact_witness:
  "length (ranked [(''a'', 3), (''b'', 9)] 1) = 1 \<and> sorted_wrt ranks_before (ranked [(''a'', 3), (''b'', 9)] 1)"
  using ranked_exact [OF two_counts, of 1] by simp

theorem ranked_rows_partition_witness:
  "\<exists>p. parse_profile example_folded = Inr p \<and>
     (remaining_samples (fp_self_samples p) (fp_total_samples p) 1 True = None \<longleftrightarrow> length (fp_self_samples p) \<le> 1)"
proof -
  obtain p where p: "parse_profile example_folded = Inr p" using example_parsed by blast
  then show ?thesis using ranked_rows_partition [OF p] by blast
qed

section \<open>Shortened stacks\<close>

lemma chars_count_append [simp]: "chars_count (xs @ ys) = chars_count xs + chars_count ys"
  by (simp add: chars_count_def)

lemma chars_count_Cons [simp]: "chars_count (c # s) = (if is_continuation c then 0 else 1) + chars_count s"
  by (simp add: chars_count_def)

lemma chars_count_Nil [simp]: "chars_count [] = 0"
  by (simp add: chars_count_def)

lemma ascii_arrow [simp]: "\<not> is_continuation CHR '' ''" "\<not> is_continuation CHR ''-''" "\<not> is_continuation CHR ''>''"
  by (simp_all add: is_continuation_def)

lemma chars_count_omitted [simp]: "chars_count OMITTED = 7"
  by code_simp

lemma join_Cons_chars:
  "chars_count (join_with '' -> '' (x # xs)) = chars_count x + (if xs = [] then 0 else 4 + chars_count (join_with '' -> '' xs))"
  by (cases xs) simp_all

text \<open>The kept frames are the last ones of the stack, fit, and no further frame would.\<close>

definition fits :: "nat \<Rightarrow> string list \<Rightarrow> bool" where
  "fits available frames \<longleftrightarrow> chars_count (join_with '' -> '' frames) \<le> available"

lemma keep_frames_kept:
  "len = chars_count (join_with '' -> '' kept) \<Longrightarrow> fits available kept \<Longrightarrow>
     \<exists>k. keep_frames available frames len kept = rev (take k frames) @ kept \<and> k \<le> length frames \<and>
       fits available (rev (take k frames) @ kept) \<and>
       (k < length frames \<longrightarrow> \<not> fits available (rev (take (Suc k) frames) @ kept))"
proof (induction frames arbitrary: len kept)
  case Nil
  then show ?case by simp
next
  case (Cons frame frames)
  let ?next = "len + (if kept = [] then 0 else 4) + chars_count frame"
  have n: "?next = chars_count (join_with '' -> '' (frame # kept))" using Cons.prems(1) by (simp add: join_Cons_chars)
  show ?case
  proof (cases "available < ?next")
    case True
    then have "\<not> fits available (frame # kept)" using n by (simp add: fits_def)
    then show ?thesis using True Cons.prems(2) by (intro exI [of _ 0]) (simp add: Let_def)
  next
    case False
    then have "fits available (frame # kept)" using n by (simp add: fits_def)
    then obtain k where "keep_frames available frames ?next (frame # kept) = rev (take k frames) @ frame # kept"
      "k \<le> length frames" "fits available (rev (take k frames) @ frame # kept)"
      "k < length frames \<longrightarrow> \<not> fits available (rev (take (Suc k) frames) @ frame # kept)"
      using Cons.IH [OF n] by blast
    then show ?thesis using False by (intro exI [of _ "Suc k"]) (simp add: Let_def)
  qed
qed

lemma keep_frames_suffix:
  "\<exists>k. keep_frames available (rev frames) 0 [] = drop k frames \<and> k \<le> length frames \<and>
     fits available (drop k frames) \<and> (0 < k \<longrightarrow> \<not> fits available (drop (k - 1) frames))"
proof -
  have "fits available []" by (simp add: fits_def chars_count_def)
  then obtain k where k: "keep_frames available (rev frames) 0 [] = rev (take k (rev frames))" "k \<le> length frames"
    "fits available (rev (take k (rev frames)))"
    "k < length frames \<longrightarrow> \<not> fits available (rev (take (Suc k) (rev frames)))"
    using keep_frames_kept [of 0 "[]" available "rev frames"] by (auto simp: chars_count_def)
  have r: "rev (take j (rev frames)) = drop (length frames - j) frames" if "j \<le> length frames" for j
    using that by (simp add: rev_take)
  have "length frames - Suc k = length frames - k - 1" by simp
  then show ?thesis using k r [of k] r [of "Suc k"] by (intro exI [of _ "length frames - k"]) auto
qed

lemma take_chars_count: "chars_count (take_chars n s) \<le> n"
  by (induction n s rule: take_chars.induct) (auto simp: chars_count_def split: nat.splits)

text \<open>
  A displayed stack keeps its length limit. It is the whole stack below the thread when that fits; otherwise
  it is the longest run of frames at the leaf side that fits behind the mark of the omission, or the beginning of
  the leaf when not even the leaf fits.
\<close>

theorem display_stack_exact:
  assumes "frames = tl (split_char (CHR '';'') stack)" and "7 \<le> limit" and "display_stack stack limit = (thread, shown)"
  shows "chars_count shown \<le> limit \<and>
    (shown = join_with '' -> '' frames \<or>
     (\<exists>k. 0 < k \<and> k < length frames \<and> shown = OMITTED @ join_with '' -> '' (drop k frames) \<and>
        limit < 7 + chars_count (join_with '' -> '' (drop (k - 1) frames))) \<or>
     (frames \<noteq> [] \<and> shown = OMITTED @ take_chars (limit - 7) (last frames) \<and>
        limit < 7 + chars_count (last frames)))"
proof (cases "chars_count (join_with '' -> '' frames) \<le> limit")
  case True
  then show ?thesis using assms(1,3) by (simp add: display_stack_def Let_def)
next
  case False
  obtain k where k: "keep_frames (limit - 7) (rev frames) 0 [] = drop k frames" "k \<le> length frames"
    "fits (limit - 7) (drop k frames)" "0 < k \<longrightarrow> \<not> fits (limit - 7) (drop (k - 1) frames)"
    using keep_frames_suffix by blast
  have k0: "0 < k" using False k(3) assms(2) by (cases k) (auto simp: fits_def)
  have len: "length OMITTED = 7" by (simp add: OMITTED_def)
  show ?thesis
  proof (cases "drop k frames = []")
    case True
    have some: "frames \<noteq> []" using False by auto
    have "keep_frames (limit - 7) (rev frames) 0 [] = []" using True k(1) by simp
    then have "shown = OMITTED @ take_chars (limit - 7) (last frames)"
      using assms(3) False some unfolding display_stack_def Let_def assms(1) [symmetric] len by simp
    moreover have "k = length frames" using True k(2) by simp
    then have "\<not> fits (limit - 7) [last frames]"
      using k(4) k0 some by (metis (no_types) append_butlast_last_id append_eq_conv_conj length_butlast)
    then have "limit < 7 + chars_count (last frames)" using assms(2) by (simp add: fits_def)
    moreover have "7 + chars_count (take_chars (limit - 7) (last frames)) \<le> limit"
      using take_chars_count [of "limit - 7" "last frames"] assms(2) by linarith
    ultimately show ?thesis using some by simp
  next
    case False2: False
    then have "shown = OMITTED @ join_with '' -> '' (drop k frames)"
      using assms(1,3) False k(1) by (simp add: display_stack_def Let_def len)
    then show ?thesis using k(3,4) k0 False2 assms(2) by (auto simp: fits_def)
  qed
qed

theorem display_stack_exact_witness:
  "chars_count (snd (display_stack ''r;long-root;mid;leaf'' 18)) \<le> 18"
  using display_stack_exact [OF refl, of 18 "''r;long-root;mid;leaf''"] by (cases "display_stack ''r;long-root;mid;leaf'' 18") auto

end
