(* ===== verification/ProfileReportFacts.thy ===== *)
theory ProfileReportFacts
  imports ProfileReport ReportFacts ProfileRank
begin

text \<open>
  What holds of every rendered CPU profile: sound tables whatever symbol names, paths and versions contain; the
  rows of the sample modes and of the two partition rankings account for all samples.
\<close>

lemma in_cell_percent [cell_intros]: "in_cell (format_percent n m)" "in_cell (format_count_percent n m)" "in_cell (format_duration k)"
  by (simp_all add: format_percent_def format_count_percent_def format_duration_def Let_def cell_intros)

lemma sound_environment: "sound_doc (render_environment environment)"
  unfolding render_environment_def by (intro doc_intros) (auto simp: environment_rows_def cell_intros)

lemma accepted_flamegraph_line: "validate_flamegraph_url (Some url) = Inr () \<Longrightarrow> one_line url"
  using accepted_links_safe link_chars_line by blast

lemma sound_links:
  assumes "validate_artifact_url artifact_link = Inr ()" "validate_flamegraph_url flamegraph_link = Inr ()"
  shows "sound_doc (overview_links artifact_link flamegraph_link)"
  using assms unfolding overview_links_def
  by (cases artifact_link; cases flamegraph_link)
    (auto simp: Let_def accepted_link_line accepted_flamegraph_line intro!: doc_intros)

lemma sound_overview:
  assumes "validate_artifact_url artifact_link = Inr ()" "validate_flamegraph_url flamegraph_link = Inr ()"
  shows "sound_doc (render_overview report artifact_link flamegraph_link)"
  unfolding render_overview_def
  by (intro doc_intros sound_environment sound_links assms) (auto simp: overview_row_def Let_def cell_intros)

lemma sound_ranked:
  assumes "one_line title" "in_cell name"
  shows "sound_doc (render_ranked title name entries all_samples limit is_partition)"
proof -
  have rows: "length (ranked_row n row) = 4 \<and> list_all in_cell (ranked_row n row)" for n row
    by (cases row) (simp add: ranked_row_def cell_intros)
  show ?thesis unfolding render_ranked_def
    by (intro sound_doc_append sound_doc_paragraph sound_table)
      (use assms rows in \<open>auto simp: cell_intros split: option.splits\<close>)
qed

lemma sound_hot_stacks: "sound_doc (render_hot_stacks folded)"
proof -
  have rows: "length (hot_stack_row n row) = 5 \<and> list_all in_cell (hot_stack_row n row)" for n row
    by (cases row) (simp add: hot_stack_row_def cell_intros split: prod.split)
  show ?thesis unfolding render_hot_stacks_def
    by (intro sound_doc_append sound_doc_paragraph sound_table) (use rows in auto)
qed

lemma sound_breakdown: "sound_doc (render_breakdown folded)"
  unfolding render_breakdown_def Let_def
  by (intro sound_doc_append sound_doc_paragraph sound_table sound_ranked sound_hot_stacks)
    (auto simp: mode_rows_def render_count_row_def Let_def cell_intros)

lemma not_row_cell: "in_cell t \<Longrightarrow> \<not> is_row s \<Longrightarrow> \<not> is_row (t @ s)"
  by (cases t) simp_all

lemma sound_diagnostics: "sound_doc (render_diagnostics folded)"
proof -
  have "sound_doc (map (\<lambda>diagnostic. ''- '' @ escape_table diagnostic) diagnostics)" for diagnostics
    by (induction diagnostics) (simp_all add: doc_intros in_cell_one_line cell_intros)
  moreover have "\<not> is_row (grouped n @ '' folded-stack lines were invalid. Valid samples remain reported above.'')" for n
    by (rule not_row_cell) (simp_all add: cell_intros)
  ultimately show ?thesis unfolding render_diagnostics_def
    by (auto simp: in_cell_one_line cell_intros intro!: doc_intros)
qed

text \<open>
  the tables of a CPU profile are sound. Whatever symbol names, threads, versions, revisions and
  malformed lines contain, every table row of a rendered text has as many cell separators as the row
  before it, and the text fits into the summary.
\<close>

theorem profile_tables_sound:
  "case render_profile w h input artifact_link flamegraph_link of
     Inl e \<Rightarrow> True
   | Inr t \<Rightarrow> tables_sound (lines_of t) \<and> length t \<le> GITHUB_SUMMARY_LIMIT_BYTES"
proof (cases "render_profile w h input artifact_link flamegraph_link")
  case (Inr t)
  obtain report where r: "validate_artifact_url artifact_link = Inr ()" "validate_flamegraph_url flamegraph_link = Inr ()"
    "t = text_of (profile_doc report artifact_link flamegraph_link)" "length t \<le> GITHUB_SUMMARY_LIMIT_BYTES"
    using Inr by (auto simp: render_profile_def Let_def checked_iff ensure_summary_size_def)
  have "sound_doc (profile_doc report artifact_link flamegraph_link)"
    unfolding profile_doc_def by (intro sound_doc_append sound_overview sound_breakdown sound_diagnostics r(1,2))
  then show ?thesis using sound_text r(3,4) Inr by simp
qed simp

end
