(* ===== verification/Capture.thy ===== *)
theory Capture
  imports ProfilePrepare
begin

text \<open>
  Recording a profile (\<open>src/profile/capture.rs\<close>): stale files are removed, \<open>perf record\<close> is started paused and
  enabled, disabled and stopped over its control pipe, every command acknowledged, and the metadata is written
  when \<open>perf\<close> has exited and its data is there. The pipe, the process and the files answer as functions
  of the history.
\<close>

definition CONTROL_TIMEOUT :: duration where "CONTROL_TIMEOUT = from_secs 10"
definition STOP_TIMEOUT :: duration where "STOP_TIMEOUT = from_secs 20"

datatype perf_effect =
    PerfRemove fs_path | PerfLog fs_path | PerfSpawn child_command | PerfTakeControl | PerfTakeAcks
  | PerfSend string | PerfFlush string | PerfAck duration | PerfClock | PerfClose
  | PerfWait duration | PerfKill | PerfInspect fs_path | PerfMetadata fs_path string

record perf_world =
  pf_removed :: "perf_effect list \<Rightarrow> perf_effect \<Rightarrow> removal"
  pf_done :: "perf_effect list \<Rightarrow> perf_effect \<Rightarrow> unit result"
  pf_pipe :: "perf_effect list \<Rightarrow> perf_effect \<Rightarrow> unit option"
  pf_response :: "perf_effect list \<Rightarrow> perf_effect \<Rightarrow> string result option"
  pf_clock :: "perf_effect list \<Rightarrow> perf_effect \<Rightarrow> instant"
  pf_exit :: "perf_effect list \<Rightarrow> perf_effect \<Rightarrow> exit_status result option"
  pf_size :: "perf_effect list \<Rightarrow> perf_effect \<Rightarrow> nat result"
  pf_encode :: "capture_metadata \<Rightarrow> string result"

record server_profiler =
  sp_control :: bool
  sp_data_path :: fs_path
  sp_metadata_path :: fs_path
  sp_started :: instant

definition asked :: "(perf_effect list \<Rightarrow> perf_effect \<Rightarrow> 'a) \<Rightarrow> perf_effect \<Rightarrow> (perf_effect, 'a) act" where
  "asked reply e = effect (\<lambda>h e. Inr (reply h e)) e"

section \<open>Acknowledgements\<close>

text \<open>\<open>strip(...).unwrap_or(s)\<close>.\<close>

definition stripped :: "(string \<Rightarrow> string option) \<Rightarrow> string \<Rightarrow> string" where
  "stripped strip s = (case strip s of None \<Rightarrow> s | Some t \<Rightarrow> t)"

text \<open>What \<open>read_ack\<close> does with the bytes up to the next line break, or to the end of the pipe.\<close>

definition read_ack :: "string result \<Rightarrow> unit result" where
  "read_ack received =
     bind_ok (with_context ''failed to read a perf acknowledgement'' received) (\<lambda>response.
     ensure (response \<noteq> []) ''perf closed its acknowledgement channel'' (
     ensure (stripped (strip_prefix [CHR 0x00]) (stripped (strip_suffix [CHR 0x00]) (stripped (strip_suffix [CHR 0x0A]) response)) = ''ack'')
       ''perf returned an invalid acknowledgement'' (Inr ())))"

definition send_control :: "perf_world \<Rightarrow> server_profiler \<Rightarrow> string \<Rightarrow> (perf_effect, unit) act" where
  "send_control w profiler command =
     ensure_act (sp_control profiler) ''perf control input is closed'' (
     bind_act (act_context (''failed to send perf '' @ command) (effect (pf_done w) (PerfSend (command @ [CHR 0x0A])))) (\<lambda>_.
     bind_act (act_context (''failed to flush perf '' @ command) (effect (pf_done w) (PerfFlush command))) (\<lambda>_.
     bind_act (asked (pf_response w) (PerfAck CONTROL_TIMEOUT)) (\<lambda>response.
     lift_act (case response of
         None \<Rightarrow> err (''perf did not acknowledge '' @ command @ '' before the deadline'')
       | Some received \<Rightarrow> read_ack received)))))"

section \<open>Starting\<close>

definition remove_stale :: "perf_world \<Rightarrow> fs_path \<Rightarrow> (perf_effect, unit) act" where
  "remove_stale w path =
     bind_act (asked (pf_removed w) (PerfRemove path)) (\<lambda>outcome.
     case outcome of
       Removed \<Rightarrow> return_act ()
     | AlreadyGone \<Rightarrow> return_act ()
     | RemoveFailed e \<Rightarrow> lift_act (Inl (add_context (''failed to remove '' @ show_path path) e)))"

definition record_command :: "u32 \<Rightarrow> fs_path \<Rightarrow> child_command" where
  "record_command server_pid data_path =
     \<lparr>cmd_program = ''perf'',
      cmd_args = [''record'', ''--delay=-1'', ''--control=fd:0,1'', ''--event'', EVENT, ''--freq'', show_word FREQUENCY_HZ,
        ''--call-graph'', CALL_GRAPH, ''--strict-freq'', ''--pid'', show_word server_pid, ''--inherit'', ''--output'',
        show_path data_path], cmd_env = []\<rparr>"

definition start_capture :: "perf_world \<Rightarrow> u32 \<Rightarrow> fs_path \<Rightarrow> (perf_effect, server_profiler) act" where
  "start_capture w server_pid target =
     ensure_act (server_pid > 0) ''o-sfu process has an invalid process id'' (
     let data_path = join_path target [PERF_DATA_FILE]; metadata_path = join_path target [CAPTURE_FILE] in
     bind_act (remove_stale w (join_path target [PROFILE_READY_FILE])) (\<lambda>_.
     bind_act (remove_stale w data_path) (\<lambda>_.
     bind_act (remove_stale w metadata_path) (\<lambda>_.
     bind_act (act_context ''failed to create the perf stderr log''
       (effect (pf_done w) (PerfLog (join_path target [''perf.stderr.log''])))) (\<lambda>_.
     bind_act (act_context ''failed to start perf record''
       (effect (pf_done w) (PerfSpawn (record_command server_pid data_path)))) (\<lambda>_.
     bind_act (effect (\<lambda>h e. ok_or ''perf has no control input'' (pf_pipe w h e)) PerfTakeControl) (\<lambda>_.
     bind_act (effect (\<lambda>h e. ok_or ''perf has no ACK output'' (pf_pipe w h e)) PerfTakeAcks) (\<lambda>_.
     bind_act (asked (pf_clock w) PerfClock) (\<lambda>created.
     let profiler = \<lparr>sp_control = True, sp_data_path = data_path, sp_metadata_path = metadata_path, sp_started = created\<rparr> in
     bind_act (send_control w profiler ''enable'') (\<lambda>_.
     bind_act (asked (pf_clock w) PerfClock) (\<lambda>started.
     return_act (profiler\<lparr>sp_started := started\<rparr>))))))))))))"

section \<open>Finishing\<close>

definition capture_of :: "server_profiler \<Rightarrow> instant \<Rightarrow> capture_metadata" where
  "capture_of profiler disabled_at =
     \<lparr>cm_schema_version = 1, cm_event = EVENT, cm_frequency_hz = FREQUENCY_HZ, cm_call_graph = CALL_GRAPH,
      cm_duration_ms = millis (disabled_at - sp_started profiler)\<rparr>"

definition wait_for_perf :: "perf_world \<Rightarrow> (perf_effect, exit_status) act" where
  "wait_for_perf w =
     bind_act (asked (pf_exit w) (PerfWait STOP_TIMEOUT)) (\<lambda>waited.
     case waited of
       Some status \<Rightarrow> lift_act (with_context ''failed to wait for perf record'' status)
     | None \<Rightarrow>
         bind_act (act_context ''failed to force-stop perf record'' (effect (pf_done w) PerfKill)) (\<lambda>_.
         fail_act ''perf record exceeded its shutdown deadline''))"

text \<open>Everything up to the encoded metadata, then the file.\<close>

definition complete_capture :: "perf_world \<Rightarrow> server_profiler \<Rightarrow> (perf_effect, string) act" where
  "complete_capture w profiler =
     bind_act (send_control w profiler ''disable'') (\<lambda>_.
     bind_act (asked (pf_clock w) PerfClock) (\<lambda>disabled_at.
     bind_act (send_control w profiler ''stop'') (\<lambda>_.
     bind_act (asked (\<lambda>h e. ()) PerfClose) (\<lambda>_.
     bind_act (wait_for_perf w) (\<lambda>status.
     ensure_act (status_success status) (''perf record exited with '' @ show_status status) (
     bind_act (act_context (''failed to inspect '' @ show_path (sp_data_path profiler))
       (effect (pf_size w) (PerfInspect (sp_data_path profiler)))) (\<lambda>data_size.
     ensure_act (data_size > 0) ''perf record produced an empty perf.data'' (
     lift_act (with_context ''failed to encode profile metadata'' (pf_encode w (capture_of profiler disabled_at)))))))))))"

definition finish_capture :: "perf_world \<Rightarrow> server_profiler \<Rightarrow> (perf_effect, unit) act" where
  "finish_capture w profiler =
     bind_act (complete_capture w profiler) (\<lambda>payload.
     act_context (''failed to write '' @ show_path (sp_metadata_path profiler))
       (effect (pf_done w) (PerfMetadata (sp_metadata_path profiler) payload)))"

end
