(* ===== verification/CaptureFacts.thy ===== *)
theory CaptureFacts
  imports Capture
begin

text \<open>
  Capture metadata stands for a complete capture: it is written as the last effect of \<open>finish\<close>, after \<open>perf\<close>
  acknowledged both commands, exited well and left data. Acknowledgements are exactly the frames \<open>perf\<close> sends.
\<close>

section \<open>Acknowledgements\<close>

lemma stripped_suffix: "c \<notin> set t \<Longrightarrow> stripped (strip_suffix [c]) s = t \<longleftrightarrow> s = t \<or> s = t @ [c]"
proof -
  assume c: "c \<notin> set t"
  show "stripped (strip_suffix [c]) s = t \<longleftrightarrow> s = t \<or> s = t @ [c]"
  proof (cases "strip_suffix [c] s")
    case None
    then have "s \<noteq> t @ [c]" using strip_suffix_Some [of "[c]" s t] by auto
    then show ?thesis using None by (simp add: stripped_def)
  next
    case (Some u)
    then have "s = u @ [c]" using strip_suffix_Some by blast
    then show ?thesis using Some c by (auto simp: stripped_def)
  qed
qed

lemma stripped_prefix: "c \<notin> set t \<Longrightarrow> stripped (strip_prefix [c]) s = t \<longleftrightarrow> s = t \<or> s = c # t"
  by (cases s) (auto simp: stripped_def strip_prefix_def starts_with_def)

lemma stripped_zero: "stripped (strip_suffix [CHR 0x00]) s = CHR 0x00 # ''ack'' \<longleftrightarrow> s = CHR 0x00 # ''ack'' \<or> s = CHR 0x00 # ''ack'' @ [CHR 0x00]"
proof (cases "strip_suffix [CHR 0x00] s")
  case None
  then have "s \<noteq> (CHR 0x00 # ''ack'') @ [CHR 0x00]"
    using strip_suffix_Some [of "[CHR 0x00]" s "CHR 0x00 # ''ack''"] by auto
  then show ?thesis using None by (simp add: stripped_def)
next
  case (Some u)
  then have "s = u @ [CHR 0x00]" using strip_suffix_Some by blast
  then show ?thesis using Some by (auto simp: stripped_def)
qed

definition ack_frames :: "string list" where
  "ack_frames = [''ack'', ''ack'' @ [CHR 0x00], CHR 0x00 # ''ack'', CHR 0x00 # ''ack'' @ [CHR 0x00]]"

text \<open>
  the accepted responses are \<open>ack\<close> with an optional zero byte before it, an optional zero byte after it
  and an optional line break at the end, nothing else.
\<close>

theorem acknowledgement_exact:
  "read_ack (Inr response) = Inr () \<longleftrightarrow> (\<exists>frame. frame \<in> set ack_frames \<and> (response = frame \<or> response = frame @ [CHR 0x0A]))"
proof -
  have nl: "stripped (strip_suffix [CHR 0x0A]) response = frame \<longleftrightarrow> response = frame \<or> response = frame @ [CHR 0x0A]"
    if "frame \<in> set ack_frames" for frame
    using that by (intro stripped_suffix) (auto simp: ack_frames_def)
  have empty: "stripped (strip_suffix [CHR 0x0A]) [] = []" "stripped (strip_suffix [CHR 0x00]) [] = []" "stripped (strip_prefix [CHR 0x00]) [] = []"
    by (simp_all add: stripped_def strip_suffix_def strip_prefix_def ends_with_def starts_with_def)
  have "read_ack (Inr response) = Inr () \<longleftrightarrow>
      stripped (strip_prefix [CHR 0x00]) (stripped (strip_suffix [CHR 0x00]) (stripped (strip_suffix [CHR 0x0A]) response)) = ''ack''"
    using empty by (cases "response = []") (simp_all add: read_ack_def checked_iff)
  also have "\<dots> \<longleftrightarrow> stripped (strip_suffix [CHR 0x0A]) response \<in> set ack_frames"
    by (auto simp: stripped_prefix stripped_suffix stripped_zero ack_frames_def)
  also have "\<dots> \<longleftrightarrow> (\<exists>frame. frame \<in> set ack_frames \<and> stripped (strip_suffix [CHR 0x0A]) response = frame)" by blast
  also have "\<dots> \<longleftrightarrow> (\<exists>frame. frame \<in> set ack_frames \<and> (response = frame \<or> response = frame @ [CHR 0x0A]))"
    by (intro ex_cong1 conj_cong refl nl)
  finally show ?thesis .
qed

section \<open>Capture metadata\<close>

definition acknowledged :: "perf_world \<Rightarrow> perf_effect list \<Rightarrow> bool" where
  "acknowledged w h \<longleftrightarrow> (\<exists>received. pf_response w h (PerfAck CONTROL_TIMEOUT) = Some received \<and> read_ack received = Inr ())"

definition control_effects :: "string \<Rightarrow> perf_effect list" where
  "control_effects command = [PerfSend (command @ [CHR 0x0A]), PerfFlush command]"

lemma send_control_Inr:
  "send_control w profiler command h = (Inr (), h') \<longleftrightarrow>
     sp_control profiler \<and> pf_done w h (PerfSend (command @ [CHR 0x0A])) = Inr () \<and>
     pf_done w (h @ [PerfSend (command @ [CHR 0x0A])]) (PerfFlush command) = Inr () \<and>
     acknowledged w (h @ control_effects command) \<and> h' = h @ control_effects command @ [PerfAck CONTROL_TIMEOUT]"
  by (auto simp: send_control_def act_Inr asked_def acknowledged_def control_effects_def err_def split: option.splits)

text \<open>What \<open>finish\<close> performs before the metadata.\<close>

definition finish_effects :: "server_profiler \<Rightarrow> perf_effect list" where
  "finish_effects profiler =
     control_effects ''disable'' @ [PerfAck CONTROL_TIMEOUT, PerfClock] @ control_effects ''stop''
     @ [PerfAck CONTROL_TIMEOUT, PerfClose, PerfWait STOP_TIMEOUT, PerfInspect (sp_data_path profiler)]"

definition writes_metadata :: "perf_effect \<Rightarrow> bool" where
  "writes_metadata e \<longleftrightarrow> (case e of PerfMetadata p payload \<Rightarrow> True | _ \<Rightarrow> False)"

definition quiet :: "(perf_effect, 'a) act \<Rightarrow> bool" where
  "quiet m \<longleftrightarrow> (\<forall>h. \<exists>es. snd (m h) = h @ es \<and> \<not> list_ex writes_metadata es)"

named_theorems quiet_intros \<open>actions that write no metadata\<close>

lemma quiet_pure [quiet_intros]: "quiet (return_act x)" "quiet (lift_act r)" "quiet (fail_act msg)"
  by (simp_all add: quiet_def return_act_def lift_act_def fail_act_def)

lemma quiet_effect [quiet_intros]:
  "\<not> writes_metadata e \<Longrightarrow> quiet (effect world e)" "\<not> writes_metadata e \<Longrightarrow> quiet (asked reply e)"
  by (auto simp: quiet_def effect_def asked_def)

lemma quiet_bind [quiet_intros]:
  assumes "quiet m" "\<And>x. quiet (f x)"
  shows "quiet (bind_act m f)"
  unfolding quiet_def
proof
  fix h
  obtain es where es: "snd (m h) = h @ es" "\<not> list_ex writes_metadata es" using assms(1) unfolding quiet_def by metis
  show "\<exists>es. snd (bind_act m f h) = h @ es \<and> \<not> list_ex writes_metadata es"
  proof (cases "fst (m h)")
    case (Inl e)
    then show ?thesis using es by (cases "m h") (auto simp: bind_act_def)
  next
    case (Inr x)
    obtain es' where "snd (f x (h @ es)) = (h @ es) @ es'" "\<not> list_ex writes_metadata es'"
      using assms(2) [of x] unfolding quiet_def by metis
    then show ?thesis using es Inr by (cases "m h") (auto simp: bind_act_def intro!: exI [of _ "es @ es'"])
  qed
qed

lemma quiet_ensure [quiet_intros]: "quiet m \<Longrightarrow> quiet (ensure_act c msg m)"
  by (simp add: ensure_act_def quiet_intros)

lemma quiet_context [quiet_intros]: "quiet m \<Longrightarrow> quiet (act_context msg m)"
  by (auto simp: quiet_def act_context_def split: prod.split) (metis snd_conv)

lemma quiet_control [quiet_intros]: "quiet (send_control w profiler command)"
  unfolding send_control_def by (intro quiet_intros) (simp_all add: writes_metadata_def)

lemma quiet_wait [quiet_intros]: "quiet (wait_for_perf w)"
proof -
  have "quiet (case waited of
       Some status \<Rightarrow> lift_act (with_context ''failed to wait for perf record'' status)
     | None \<Rightarrow> bind_act (act_context ''failed to force-stop perf record'' (effect (pf_done w) PerfKill)) (\<lambda>_.
         fail_act ''perf record exceeded its shutdown deadline''))" for waited :: "exit_status result option"
    by (cases waited; simp; intro quiet_intros; simp add: writes_metadata_def)
  then show ?thesis unfolding wait_for_perf_def by (intro quiet_intros) (simp_all add: writes_metadata_def)
qed

lemma quiet_complete: "quiet (complete_capture w profiler)"
  unfolding complete_capture_def by (intro quiet_intros) (simp_all add: writes_metadata_def)

definition stop_prefix :: "server_profiler \<Rightarrow> perf_effect list" where
  "stop_prefix profiler = control_effects ''disable'' @ [PerfAck CONTROL_TIMEOUT, PerfClock] @ control_effects ''stop''"

text \<open>What a complete capture is: both commands acknowledged, a successful exit, data, and the encoded metadata.\<close>

definition capture_complete :: "perf_world \<Rightarrow> server_profiler \<Rightarrow> perf_effect list \<Rightarrow> string \<Rightarrow> bool" where
  "capture_complete w profiler h payload \<longleftrightarrow>
     acknowledged w (h @ control_effects ''disable'') \<and> acknowledged w (h @ stop_prefix profiler) \<and>
     (\<exists>status. pf_exit w (h @ stop_prefix profiler @ [PerfAck CONTROL_TIMEOUT, PerfClose]) (PerfWait STOP_TIMEOUT) = Some (Inr status) \<and>
        status_success status) \<and>
     (\<exists>n. pf_size w (h @ stop_prefix profiler @ [PerfAck CONTROL_TIMEOUT, PerfClose, PerfWait STOP_TIMEOUT])
        (PerfInspect (sp_data_path profiler)) = Inr n \<and> 0 < n) \<and>
     pf_encode w (capture_of profiler (pf_clock w (h @ control_effects ''disable'' @ [PerfAck CONTROL_TIMEOUT]) PerfClock)) = Inr payload"

lemma complete_capture_Inr:
  assumes "complete_capture w profiler h = (Inr payload, h')"
  shows "h' = h @ finish_effects profiler \<and> capture_complete w profiler h payload"
  using assms
  by (auto simp: complete_capture_def wait_for_perf_def act_Inr send_control_Inr asked_def checked_iff capture_complete_def
      finish_effects_def stop_prefix_def err_def split: option.splits)

text \<open>
  C39: capture metadata stands for a complete capture. Whatever \<open>finish\<close> returns, when it wrote the metadata file
  then as its last effect, after \<open>perf\<close> acknowledged disabling and stopping, exited successfully within the
  deadline and left data; the duration in it is the time from the enabling to the disabling.
\<close>

theorem metadata_means_complete:
  assumes "finish_capture w profiler h = (r, h @ es)" "PerfMetadata path payload \<in> set es"
  shows "path = sp_metadata_path profiler \<and> es = finish_effects profiler @ [PerfMetadata path payload] \<and>
    capture_complete w profiler h payload"
proof -
  obtain x h1 where c: "complete_capture w profiler h = (x, h1)" by fastforce
  have "snd (complete_capture w profiler h) = h1" by (simp add: c)
  then obtain ds where ds: "h1 = h @ ds" "\<not> list_ex writes_metadata ds" using quiet_complete unfolding quiet_def by metis
  show ?thesis
  proof (cases x)
    case (Inl e)
    then have "es = ds" using assms(1) c ds(1) by (simp add: finish_capture_def bind_act_def)
    then show ?thesis using assms(2) ds(2) by (auto simp: list_ex_iff writes_metadata_def)
  next
    case (Inr written)
    then have w: "h1 = h @ finish_effects profiler" "capture_complete w profiler h written"
      using complete_capture_Inr c by blast+
    then have es: "es = finish_effects profiler @ [PerfMetadata (sp_metadata_path profiler) written]"
      using assms(1) c Inr by (auto simp: finish_capture_def bind_act_def act_context_def effect_def)
    then have "path = sp_metadata_path profiler \<and> payload = written"
      using assms(2) ds w(1) by (auto simp: list_ex_iff writes_metadata_def)
    then show ?thesis using es w(2) by simp
  qed
qed

section \<open>An example\<close>

definition acking_world :: perf_world where
  "acking_world =
     \<lparr>pf_removed = (\<lambda>h e. AlreadyGone), pf_done = (\<lambda>h e. Inr ()), pf_pipe = (\<lambda>h e. Some ()),
      pf_response = (\<lambda>h e. Some (Inr (''ack'' @ [CHR 0x0A]))), pf_clock = (\<lambda>h e. 5000000 * length h),
      pf_exit = (\<lambda>h e. Some (Inr (ExitStatus True ''0''))), pf_size = (\<lambda>h e. Inr 9), pf_encode = (\<lambda>m. Inr ''{}'')\<rparr>"

definition acking_profiler :: server_profiler where
  "acking_profiler = \<lparr>sp_control = True, sp_data_path = \<lparr>rooted = True, components = [''perf.data'']\<rparr>,
     sp_metadata_path = \<lparr>rooted = True, components = [''profile.json'']\<rparr>, sp_started = 0\<rparr>"

lemma ack_accepted: "read_ack (Inr (''ack'' @ [CHR 0x0A])) = Inr ()"
proof -
  have "\<exists>frame. frame \<in> set ack_frames \<and> (''ack'' @ [CHR 0x0A] = frame \<or> ''ack'' @ [CHR 0x0A] = frame @ [CHR 0x0A])"
    by (intro exI [of _ "''ack''"]) (simp add: ack_frames_def)
  then show ?thesis using acknowledgement_exact by blast
qed

lemma acking_finishes:
  "finish_capture acking_world acking_profiler []
     = (Inr (), [] @ (finish_effects acking_profiler @ [PerfMetadata (sp_metadata_path acking_profiler) ''{}'']))"
proof -
  have "send_control acking_world acking_profiler command h
      = (Inr (), h @ control_effects command @ [PerfAck CONTROL_TIMEOUT])" for command h
    using ack_accepted by (simp add: send_control_Inr acknowledged_def acking_world_def acking_profiler_def)
  moreover have "pf_exit acking_world g e = Some (Inr (ExitStatus True ''0''))" "pf_size acking_world g e = Inr 9"
    "pf_encode acking_world m = Inr ''{}''" "pf_done acking_world g e = Inr ()" for g e m
    by (simp_all add: acking_world_def)
  ultimately show ?thesis
    by (simp add: finish_capture_def complete_capture_def bind_act_def asked_def effect_def wait_for_perf_def lift_act_def
        ensure_act_def act_context_def finish_effects_def with_context_def)
qed

theorem metadata_means_complete_witness: "capture_complete acking_world acking_profiler [] ''{}''"
  using metadata_means_complete [OF acking_finishes, of "sp_metadata_path acking_profiler" "''{}''"] by simp

end
