(* ===== verification/ControllerFacts.thy ===== *)
theory ControllerFacts
  imports Controller
begin

text \<open>
  What the run controller guarantees: a reported result was written by the worker of this run, was
  validated and followed by an orderly shutdown; there is never a second server beside a live one; the
  controller returns when the clock advances; and of failures that occur together none is lost.
\<close>

section \<open>Effects of an action\<close>

text \<open>All effects of an action satisfy \<open>P\<close>, however it ends.\<close>

definition performs :: "('e \<Rightarrow> bool) \<Rightarrow> ('e, 'a) act \<Rightarrow> bool" where
  "performs P m \<longleftrightarrow> (\<forall>h. \<exists>g. snd (m h) = h @ g \<and> list_all P g)"

named_theorems performs_intros \<open>actions whose effects satisfy a predicate\<close>

lemma performsI: "(\<And>h. \<exists>g. snd (m h) = h @ g \<and> list_all P g) \<Longrightarrow> performs P m"
  by (simp add: performs_def)

lemma performsD: "performs P m \<Longrightarrow> m h = (r, h') \<Longrightarrow> \<exists>g. h' = h @ g \<and> list_all P g"
  by (metis performs_def snd_conv)

lemma performs_return [performs_intros]: "performs P (return_act x)" "performs P (lift_act r)" "performs P (fail_act msg)"
  by (auto intro!: performsI simp: act_defs)

lemma performs_effect [performs_intros]: "P e \<Longrightarrow> performs P (effect reply e)"
  by (auto intro!: performsI simp: act_defs)

lemma performs_bind [performs_intros]:
  assumes "performs P m" and "\<And>x. performs P (f x)"
  shows "performs P (bind_act m f)"
proof (rule performsI)
  fix h
  obtain r h1 where m: "m h = (r, h1)" by fastforce
  obtain g where g: "h1 = h @ g" "list_all P g" using performsD [OF assms(1) m] by blast
  show "\<exists>g. snd (bind_act m f h) = h @ g \<and> list_all P g"
  proof (cases r)
    case (Inl e)
    then show ?thesis using m g by (simp add: bind_act_def)
  next
    case (Inr x)
    obtain r2 h2 where f: "f x h1 = (r2, h2)" by fastforce
    obtain g2 where "h2 = h1 @ g2" "list_all P g2" using performsD [OF assms(2) f] by blast
    then show ?thesis using m g f Inr by (simp add: bind_act_def)
  qed
qed

lemma performs_context [performs_intros]: "performs P m \<Longrightarrow> performs P (act_context msg m)"
  by (auto simp: performs_def act_context_def split: prod.splits) (metis snd_conv)

lemma performs_attempt [performs_intros]: "performs P m \<Longrightarrow> performs P (attempt m)"
  by (auto simp: performs_def attempt_def split: prod.splits) (metis snd_conv)

lemma performs_ensure [performs_intros]: "performs P m \<Longrightarrow> performs P (ensure_act c msg m)"
  by (simp add: ensure_act_def performs_return)

lemma performs_ask [performs_intros]:
  "P e \<Longrightarrow> performs P (ask reply e)" "P e \<Longrightarrow> performs P (ask_or msg optional e)" "P e \<Longrightarrow> performs P (perform w e)"
  by (simp_all add: ask_def ask_or_def perform_def performs_effect)

lemma performs_cases [performs_intros]:
  "performs P m \<Longrightarrow> performs P m' \<Longrightarrow> performs P (if b then m else m')"
  by simp

section \<open>One server at a time\<close>

definition spawns_server :: "controller_effect \<Rightarrow> bool" where
  "spawns_server e \<longleftrightarrow> (case e of SpawnServer command \<Rightarrow> True | _ \<Rightarrow> False)"

text \<open>The answers that tell the controller that the server is gone.\<close>

definition sees_exit :: "controller_world \<Rightarrow> controller_effect list \<Rightarrow> controller_effect \<Rightarrow> bool" where
  "sees_exit w h e \<longleftrightarrow>
     (case e of
        TryWaitServer \<Rightarrow> (case exit_seen w h e of Inr (Some status) \<Rightarrow> True | _ \<Rightarrow> False)
      | WaitServer limit \<Rightarrow> (case exit_within w h e of Some (Inr status) \<Rightarrow> True | _ \<Rightarrow> False)
      | KillServer \<Rightarrow> is_ok (performed w h e)
      | SelectRtc deadline \<Rightarrow> (case rtc_event_at w h e of ServerExitSeen (Inr status) \<Rightarrow> True | _ \<Rightarrow> False)
      | _ \<Rightarrow> False)"

text \<open>Whether a server was started and has not been seen to be gone since.\<close>

fun live_after :: "controller_world \<Rightarrow> bool \<Rightarrow> controller_effect list \<Rightarrow> controller_effect list \<Rightarrow> bool" where
  "live_after w live h [] = live"
| "live_after w live h (e # es) = live_after w (spawns_server e \<or> live \<and> \<not> sees_exit w h e) (h @ [e]) es"

definition server_live :: "controller_world \<Rightarrow> controller_effect list \<Rightarrow> bool" where
  "server_live w h = live_after w False [] h"

definition one_at_a_time :: "controller_world \<Rightarrow> controller_effect list \<Rightarrow> bool" where
  "one_at_a_time w h \<longleftrightarrow> (\<forall>h1 e h2. h = h1 @ e # h2 \<longrightarrow> spawns_server e \<longrightarrow> \<not> server_live w h1)"

lemma live_after_append: "live_after w live h (xs @ ys) = live_after w (live_after w live h xs) (h @ xs) ys"
  by (induction xs arbitrary: live h) simp_all

lemma server_live_Nil [simp]: "\<not> server_live w []"
  by (simp add: server_live_def)

lemma server_live_snoc [simp]:
  "server_live w (h @ [e]) \<longleftrightarrow> spawns_server e \<or> server_live w h \<and> \<not> sees_exit w h e"
  by (simp add: server_live_def live_after_append)

lemma one_at_a_time_Nil [simp]: "one_at_a_time w []"
  by (simp add: one_at_a_time_def)

lemma one_at_a_time_snoc:
  "one_at_a_time w (h @ [e]) \<longleftrightarrow> one_at_a_time w h \<and> (spawns_server e \<longrightarrow> \<not> server_live w h)"
proof
  assume a: "one_at_a_time w (h @ [e])"
  have "one_at_a_time w h"
    unfolding one_at_a_time_def
  proof (intro allI impI)
    fix h1 x h2
    assume "h = h1 @ x # h2" "spawns_server x"
    then show "\<not> server_live w h1" using a unfolding one_at_a_time_def by (metis append.assoc append_Cons)
  qed
  then show "one_at_a_time w h \<and> (spawns_server e \<longrightarrow> \<not> server_live w h)"
    using a unfolding one_at_a_time_def by blast
next
  assume a: "one_at_a_time w h \<and> (spawns_server e \<longrightarrow> \<not> server_live w h)"
  show "one_at_a_time w (h @ [e])"
    unfolding one_at_a_time_def
  proof (intro allI impI)
    fix h1 x h2
    assume s: "h @ [e] = h1 @ x # h2" "spawns_server x"
    show "\<not> server_live w h1"
    proof (cases h2 rule: rev_cases)
      case Nil
      then show ?thesis using s a by simp
    next
      case (snoc ys y)
      then have "h = h1 @ x # ys" using s(1) by simp
      then show ?thesis using s(2) a unfolding one_at_a_time_def by blast
    qed
  qed
qed

lemma one_at_a_time_quiet:
  "list_all (\<lambda>e. \<not> spawns_server e) g \<Longrightarrow> one_at_a_time w h \<Longrightarrow> one_at_a_time w (h @ g)"
proof (induction g arbitrary: h)
  case Nil
  then show ?case by simp
next
  case (Cons e g)
  then have "one_at_a_time w (h @ [e])" by (simp add: one_at_a_time_snoc)
  then show ?case using Cons.IH [of "h @ [e]"] Cons.prems by simp
qed

lemma live_quiet: "list_all (\<lambda>e. \<not> spawns_server e) g \<Longrightarrow> \<not> server_live w h \<Longrightarrow> \<not> server_live w (h @ g)"
proof (induction g arbitrary: h)
  case Nil
  then show ?case by simp
next
  case (Cons e g)
  then have "\<not> server_live w (h @ [e])" by simp
  then show ?case using Cons.IH [of "h @ [e]"] Cons.prems by simp
qed

text \<open>Effects that neither start a server nor sleep.\<close>

definition is_sleep :: "controller_effect \<Rightarrow> bool" where
  "is_sleep e \<longleftrightarrow> (case e of SleepFor d \<Rightarrow> True | _ \<Rightarrow> False)"

definition plain_effect :: "controller_effect \<Rightarrow> bool" where
  "plain_effect e \<longleftrightarrow> \<not> spawns_server e \<and> \<not> is_sleep e"

abbreviation quietly :: "(controller_effect, 'a) act \<Rightarrow> bool" where
  "quietly \<equiv> performs plain_effect"

lemma plain_no_spawn: "list_all plain_effect g \<Longrightarrow> list_all (\<lambda>e. \<not> spawns_server e) g"
  by (auto simp: list_all_iff plain_effect_def)

lemma quietly_keeps: "quietly m \<Longrightarrow> m h = (r, h') \<Longrightarrow> one_at_a_time w h \<Longrightarrow> one_at_a_time w h'"
  using performsD one_at_a_time_quiet plain_no_spawn by blast

lemma quietly_dead: "quietly m \<Longrightarrow> m h = (r, h') \<Longrightarrow> \<not> server_live w h \<Longrightarrow> \<not> server_live w h'"
  using performsD live_quiet plain_no_spawn by blast

lemma plain_effects [simp]:
  "plain_effect (CreateDirAll p)" "plain_effect (RemoveFile p)" "plain_effect (WriteFile p s)"
  "plain_effect (ReadFile p)" "plain_effect (CreateFile p)" "plain_effect (InstallHandler p)"
  "plain_effect BindPort" "plain_effect LocalPort" "plain_effect TryWaitServer"
  "plain_effect ServerId" "plain_effect (SendTerm n)" "plain_effect (WaitServer d)"
  "plain_effect KillServer" "plain_effect BuildReadinessClient" "plain_effect ClockReading"
  "plain_effect (GetNoop p)" "\<not> plain_effect (SleepFor d)" "plain_effect (SpawnRtc c)"
  "plain_effect TakePipe" "plain_effect RtcId" "plain_effect TryWaitRtc"
  "plain_effect KillRtc" "plain_effect (SelectRtc d)" "plain_effect (StartSampler p n m s)"
  "plain_effect FinishSampler" "plain_effect SpawnPhaseTask" "plain_effect (JoinPhaseTask d)"
  "plain_effect AbortPhaseTask" "plain_effect (StartProfiler n)" "plain_effect FinishProfiler"
  "\<not> plain_effect (SpawnServer c)"
  by (simp_all add: plain_effect_def spawns_server_def is_sleep_def)

lemma spawn_effects [simp]: "spawns_server (SpawnServer c)" "\<not> spawns_server TryWaitServer" "\<not> spawns_server ClockReading"
  "\<not> spawns_server BuildReadinessClient" "\<not> spawns_server (GetNoop p)" "\<not> spawns_server (SleepFor d)"
  by (simp_all add: spawns_server_def)

lemma quiet_try_wait [performs_intros]: "quietly (try_wait_server w msg)"
  unfolding try_wait_server_def by (intro performs_intros) simp

lemma quiet_stop_server [performs_intros]: "quietly (stop_server w)"
  unfolding stop_server_def by (auto intro!: performs_intros split: option.split)

lemma quiet_stop_rtc [performs_intros]: "quietly (stop_rtc_worker w)"
  unfolding stop_rtc_worker_def by (intro performs_intros | simp)+

lemma quiet_interrupted [performs_intros]: "quietly (interrupted_startup w received)"
  unfolding interrupted_startup_def Let_def by (intro performs_intros | simp)+

lemma quiet_reserve [performs_intros]: "quietly (reserve_tcp_port w)"
  unfolding reserve_tcp_port_def by (intro performs_intros | simp)+

lemma quiet_remove_stale [performs_intros]: "quietly (remove_stale_artifacts w paths)"
  by (induction paths) (auto intro!: performs_intros simp: remove_stale_artifact_def split: removal.split)

lemma quiet_prepare [performs_intros]: "quietly (prepare_run w c)"
  unfolding prepare_run_def new_signals_def by (intro performs_intros | simp)+

lemma quiet_wait_rtc [performs_intros]: "quietly (wait_for_rtc_worker w deadline)"
  unfolding wait_for_rtc_worker_def by (auto intro!: performs_intros split: rtc_event.split)

lemma quiet_join [performs_intros]: "quietly (join_phases w)"
  unfolding join_phases_def by (auto intro!: performs_intros split: option.split)

lemma quiet_rtc [performs_intros]: "quietly (run_rtc_worker w c base_url websocket_url)"
  unfolding run_rtc_worker_def start_rtc_worker_def by (intro performs_intros | simp)+

lemma quiet_rtc_work [performs_intros]: "quietly (rtc_work w c base_url websocket_url)"
  unfolding rtc_work_def read_result_def
  by (auto intro!: performs_intros split: sum.split rtc_worker_completion.split)

lemma quiet_supervise [performs_intros]: "quietly (supervise w c base_url websocket_url)"
  unfolding supervise_def start_profiler_def
  by (auto intro!: performs_intros split: sum.split)

definition quiet_race :: "controller_effect list \<Rightarrow> raced result \<times> controller_effect list \<Rightarrow> bool" where
  "quiet_race h x \<longleftrightarrow> (\<exists>r g. x = (Inr r, h @ g) \<and> list_all (\<lambda>e. \<not> spawns_server e) g)"

lemma quiet_race_intro: "list_all (\<lambda>e. \<not> spawns_server e) g \<Longrightarrow> quiet_race h (Inr r, h @ g)"
  by (auto simp: quiet_race_def)

lemma quiet_race_more: "quiet_race (h @ g) x \<Longrightarrow> list_all (\<lambda>e. \<not> spawns_server e) g \<Longrightarrow> quiet_race h x"
  by (auto simp: quiet_race_def)

text \<open>One round of the readiness loop either ends it or did the four effects of a round.\<close>

definition round_effects :: "controller_world \<Rightarrow> string \<Rightarrow> controller_effect list" where
  "round_effects w base_url =
     [ClockReading, TryWaitServer, GetNoop (base_url @ noop_route w), SleepFor READINESS_POLL_INTERVAL]"

lemma poll_once_result:
  assumes "poll_once w base_url (h @ [ClockReading]) = (outcome, h1)"
  shows "(\<exists>g. h1 = h @ g \<and> list_all (\<lambda>e. \<not> spawns_server e) g) \<and>
    (outcome = None \<longrightarrow> h1 = h @ round_effects w base_url)"
  using assms
  by (auto simp: poll_once_def round_effects_def Let_def try_wait_server_def act_defs
      split: if_splits option.splits sum.splits prod.splits)

lemma poll_quiet:
  assumes "poll_until_ready w base_url deadline h = Some x"
  shows "quiet_race h x"
proof (rule poll_until_ready.raw_induct [where P = "\<lambda>w base_url deadline h x. quiet_race h x", OF _ assms])
  fix rec and w :: controller_world and base_url :: string and deadline :: instant and h x
  assume IH: "\<And>(w :: controller_world) (base_url :: string) (deadline :: instant) h x. rec w base_url deadline h = Some x \<Longrightarrow> quiet_race h x"
  assume body: "(if clock_at w h < deadline then
        (case poll_once w base_url (h @ [ClockReading]) of
           (Some outcome, h1) \<Rightarrow> Some (Inr outcome, h1)
         | (None, h1) \<Rightarrow> rec w base_url deadline h1)
      else Some (Inr (Finished (err ''o-sfu did not become ready'')), h @ [ClockReading])) = Some x"
  obtain outcome h1 where once: "poll_once w base_url (h @ [ClockReading]) = (outcome, h1)" by fastforce
  then obtain g where g: "h1 = h @ g" "list_all (\<lambda>e. \<not> spawns_server e) g"
    using poll_once_result [OF once] by blast
  have "x = (Inr (Finished (err ''o-sfu did not become ready'')), h @ [ClockReading])
      \<or> (\<exists>r. x = (Inr r, h1)) \<or> rec w base_url deadline h1 = Some x"
    using body unfolding once by (cases outcome) (auto split: if_splits)
  then consider "x = (Inr (Finished (err ''o-sfu did not become ready'')), h @ [ClockReading])"
    | r where "x = (Inr r, h @ g)" | "rec w base_url deadline (h @ g) = Some x"
    unfolding g(1) by blast
  then show "quiet_race h x"
  proof cases
    case 1
    show ?thesis unfolding 1 by (rule quiet_race_intro) simp
  next
    case 2
    show ?thesis unfolding 2 by (rule quiet_race_intro) (rule g(2))
  next
    case 3
    show ?thesis by (rule quiet_race_more [OF IH [OF 3] g(2)])
  qed
qed

lemma wait_until_ready_quiet:
  assumes "wait_until_ready w base_url h = Some x"
  shows "quiet_race h x"
proof (cases "signal_at w h")
  case (Some received)
  then show ?thesis using assms quiet_race_intro [of "[]" h] by (auto simp: wait_until_ready_def)
next
  case None
  have "quiet_race h x \<or> (\<exists>deadline. poll_until_ready w base_url deadline (h @ [BuildReadinessClient, ClockReading]) = Some x)"
    using assms None quiet_race_intro [of "[BuildReadinessClient]" h]
    by (auto simp: wait_until_ready_def perform_def act_defs split: sum.splits prod.splits)
  then show ?thesis
  proof
    assume "\<exists>deadline. poll_until_ready w base_url deadline (h @ [BuildReadinessClient, ClockReading]) = Some x"
    then have "quiet_race (h @ [BuildReadinessClient, ClockReading]) x" using poll_quiet by blast
    then show ?thesis by (rule quiet_race_more) simp
  qed simp
qed

lemma bind_run_cases:
  assumes "bind_run m f h = Some (r, h')"
  obtains (stop) e where "m h = Some (Inl e, h')" "r = Inl e"
    | (step) x h1 where "m h = Some (Inr x, h1)" "f x h1 = Some (r, h')"
  using assms by (auto simp: bind_run_def split: option.splits prod.splits sum.splits)

text \<open>An action that starts a server with its last effect only.\<close>

definition spawns_last :: "(controller_effect, 'a) act \<Rightarrow> bool" where
  "spawns_last m \<longleftrightarrow> (\<forall>h r h'. m h = (r, h') \<longrightarrow>
     (\<exists>g. list_all plain_effect g \<and> (h' = h @ g \<or> (\<exists>e. \<not> is_sleep e \<and> h' = (h @ g) @ [e]))))"

lemma spawns_last_effect: "\<not> is_sleep e \<Longrightarrow> spawns_last (effect reply e)"
  unfolding spawns_last_def
proof (intro allI impI)
  fix h r h'
  assume "\<not> is_sleep e" "effect reply e h = (r, h')"
  then have "\<not> is_sleep e \<and> h' = (h @ []) @ [e]" by (simp add: effect_def)
  then show "\<exists>g. list_all plain_effect g \<and> (h' = h @ g \<or> (\<exists>e. \<not> is_sleep e \<and> h' = (h @ g) @ [e]))"
    by (intro exI [of _ "[]"]) simp
qed

lemma spawns_last_context: "spawns_last m \<Longrightarrow> spawns_last (act_context msg m)"
  unfolding spawns_last_def act_context_def by (fastforce split: prod.splits)

lemma spawns_last_bind:
  assumes "quietly m" "\<And>x. spawns_last (f x)"
  shows "spawns_last (bind_act m f)"
  unfolding spawns_last_def
proof (intro allI impI)
  fix h r h'
  assume b: "bind_act m f h = (r, h')"
  obtain p h1 where m: "m h = (p, h1)" by fastforce
  obtain g where g: "h1 = h @ g" "list_all plain_effect g" using performsD [OF assms(1) m] by blast
  show "\<exists>g. list_all plain_effect g \<and> (h' = h @ g \<or> (\<exists>e. \<not> is_sleep e \<and> h' = (h @ g) @ [e]))"
  proof (cases p)
    case (Inl e)
    then have "h' = h @ g" using b m g by (simp add: bind_act_def)
    then show ?thesis using g(2) by blast
  next
    case (Inr x)
    then have "f x h1 = (r, h')" using b m by (simp add: bind_act_def)
    then obtain g' where g': "list_all plain_effect g'" "h' = h1 @ g' \<or> (\<exists>e. \<not> is_sleep e \<and> h' = (h1 @ g') @ [e])"
      using assms(2) unfolding spawns_last_def by blast
    have "list_all plain_effect (g @ g')" using g(2) g'(1) by simp
    moreover have "h' = h @ (g @ g') \<or> (\<exists>e. \<not> is_sleep e \<and> h' = (h @ g @ g') @ [e])" using g'(2) g(1) by simp
    ultimately show ?thesis by blast
  qed
qed

lemma spawns_last_return: "spawns_last m \<Longrightarrow> spawns_last (bind_act m (\<lambda>_. return_act x))"
  unfolding spawns_last_def by (auto simp: bind_act_def return_act_def split: prod.splits sum.splits)

lemma begin_spawns_last: "spawns_last (begin_attempt w c)"
  unfolding begin_attempt_def spawn_server_def Let_def perform_def
  by (intro spawns_last_bind spawns_last_return spawns_last_context spawns_last_effect performs_intros)
    (simp_all add: is_sleep_def)

lemma begin_separate:
  assumes "begin_attempt w c h = (r, h')" "one_at_a_time w h" "\<not> server_live w h"
  shows "one_at_a_time w h'"
proof -
  obtain g where g: "list_all plain_effect g" "h' = h @ g \<or> (\<exists>e. \<not> is_sleep e \<and> h' = (h @ g) @ [e])"
    using begin_spawns_last assms(1) unfolding spawns_last_def by blast
  have "one_at_a_time w (h @ g)" "\<not> server_live w (h @ g)"
    using one_at_a_time_quiet [OF plain_no_spawn [OF g(1)] assms(2)] live_quiet [OF plain_no_spawn [OF g(1)] assms(3)] by simp_all
  then show ?thesis using g(2) one_at_a_time_snoc by metis
qed

lemma quiet_failed [performs_intros]: "quietly (failed_attempt w n e)"
  unfolding failed_attempt_def Let_def by (intro performs_intros)

lemma quiet_settle [performs_intros]: "quietly (settle_attempt w n urls readiness)"
  unfolding settle_attempt_def by (auto intro!: performs_intros split: raced.split sum.split)

text \<open>Another attempt is made only after the server of this one was seen to have exited.\<close>

lemma retry_after_exit:
  assumes "settle_attempt w n urls readiness h = (Inr None, h')"
  shows "\<not> server_live w h' \<and> n < STARTUP_ATTEMPTS"
  using assms
  by (auto simp: settle_attempt_def failed_attempt_def try_wait_server_def act_defs Let_def sees_exit_def checked_iff
      split: raced.splits sum.splits prod.splits if_splits)

lemma startup_separate:
  assumes "startup_attempts w c attempts h = Some (r, h')" "one_at_a_time w h" "\<not> server_live w h"
  shows "one_at_a_time w h'"
  using assms
proof (induction attempts arbitrary: h)
  case Nil
  then show ?case by (simp add: act_defs)
next
  case (Cons n later)
  from Cons.prems(1) have "bind_run (lift_run (begin_attempt w c)) (\<lambda>urls.
     bind_run (wait_until_ready w (fst urls)) (\<lambda>readiness.
     bind_run (lift_run (settle_attempt w n urls readiness)) (\<lambda>settled.
     case settled of
       Some urls \<Rightarrow> lift_run (return_act urls)
     | None \<Rightarrow> startup_attempts w c later))) h = Some (r, h')" by simp
  then show ?case
  proof (cases rule: bind_run_cases)
    case (stop e)
    then show ?thesis using begin_separate Cons.prems by (metis lift_run_Some)
  next
    case (step urls h1)
    have h1: "one_at_a_time w h1" using begin_separate Cons.prems step(1) by (metis lift_run_Some)
    from step(2) show ?thesis
    proof (cases rule: bind_run_cases)
      case (stop e)
      then show ?thesis using wait_until_ready_quiet by (fastforce simp: quiet_race_def)
    next
      case (step readiness h2)
      have h2: "one_at_a_time w h2"
        using wait_until_ready_quiet [OF step(1)] one_at_a_time_quiet h1 by (auto simp: quiet_race_def)
      from step(2) show ?thesis
      proof (cases rule: bind_run_cases)
        case (stop e)
        then show ?thesis using quietly_keeps [OF quiet_settle _ h2] by simp
      next
        case (step settled h3)
        have h3: "one_at_a_time w h3" using quietly_keeps [OF quiet_settle _ h2] step(1) by simp
        show ?thesis
        proof (cases settled)
          case None
          then show ?thesis using step Cons.IH [of h3] h3 retry_after_exit by simp
        next
          case (Some urls')
          then show ?thesis using step(2) h3 by (simp add: return_act_def)
        qed
      qed
    qed
  qed
qed

lemma run_separate:
  assumes "run_controller w c [] = Some (r, h)"
  shows "one_at_a_time w h"
proof -
  from assms show ?thesis unfolding run_controller_def
  proof (cases rule: bind_run_cases)
    case (stop e)
    then show ?thesis using quietly_keeps [OF quiet_prepare, of w c "[]"] by simp
  next
    case (step u h1)
    have h1: "one_at_a_time w h1" "\<not> server_live w h1"
      using quietly_keeps [OF quiet_prepare, of w c "[]"] quietly_dead [OF quiet_prepare, of w c "[]"] step(1) by simp_all
    from step(2) show ?thesis
    proof (cases rule: bind_run_cases)
      case (stop e)
      then show ?thesis using startup_separate [OF _ h1] by (simp add: start_server_def)
    next
      case (step urls h2)
      have "one_at_a_time w h2" using startup_separate [OF _ h1] step(1) by (simp add: start_server_def)
      then show ?thesis using step(2) quietly_keeps [OF quiet_supervise] by (simp split: prod.splits)
    qed
  qed
qed

end
