(* ===== verification/ControllerRun.thy ===== *)
theory ControllerRun
  imports ControllerFacts ComparisonFacts
begin

text \<open>
  Whole runs of the controller: what a reported result stands for, that the controller returns, and that
  it reports every failure.
\<close>

section \<open>A reported result\<close>

lemma combine_Inr [checked_iff]:
  "combine_run_and_profile a b = Inr r \<longleftrightarrow> a = Inr r \<and> b = Inr ()"
  "combine_run_and_shutdown a b = Inr r \<longleftrightarrow> a = Inr r \<and> b = Inr ()"
  by (cases a; cases b; simp add: both_failed_def)+

lemma combine_startup_Inr [simp]: "combine_startup_and_shutdown e b \<noteq> Inr urls"
  by (cases b) (simp_all add: both_failed_def)

lemma combine_rtc_completed [checked_iff]:
  "combine_rtc_and_phases a b = Inr CompletedWork \<longleftrightarrow> a = Inr WorkerCompleted \<and> b = Inr ()"
  "combine_rtc_and_telemetry c d = Inr CompletedWork \<longleftrightarrow> c = Inr CompletedWork \<and> d = Inr ()"
proof -
  show "combine_rtc_and_phases a b = Inr CompletedWork \<longleftrightarrow> a = Inr WorkerCompleted \<and> b = Inr ()"
    by (cases "(a, b)" rule: combine_rtc_and_phases.cases) (auto simp: both_failed_def)
  show "combine_rtc_and_telemetry c d = Inr CompletedWork \<longleftrightarrow> c = Inr CompletedWork \<and> d = Inr ()"
    by (cases "(c, d)" rule: combine_rtc_and_telemetry.cases) (auto simp: both_failed_def)
qed




















text \<open>
  C21: the controller never has two servers. At every start of a server each one started before was seen to
  have exited, however the run ends.
\<close>

theorem controller_one_server:
  assumes "run_controller w c [] = Some (r, h)"
  shows "one_at_a_time w h"
  using run_separate [OF assms] .

section \<open>Returning\<close>

definition sleeps :: "controller_effect list \<Rightarrow> nat" where
  "sleeps h = length (filter is_sleep h)"

text \<open>The clock never goes back, and a sleep takes its time.\<close>

definition clock_moves :: "controller_world \<Rightarrow> bool" where
  "clock_moves w \<longleftrightarrow>
     (\<forall>h e. clock_at w h \<le> clock_at w (h @ [e])) \<and>
     (\<forall>h. clock_at w h + READINESS_POLL_INTERVAL \<le> clock_at w (h @ [SleepFor READINESS_POLL_INTERVAL]))"

lemma sleeps_append [simp]: "sleeps (g @ h) = sleeps g + sleeps h"
  by (simp add: sleeps_def)

lemma sleeps_plain [simp]: "list_all plain_effect g \<Longrightarrow> sleeps g = 0"
  by (auto simp: sleeps_def list_all_iff plain_effect_def)

lemma sleeps_single: "sleeps [e] = (if is_sleep e then 1 else 0)"
  by (simp add: sleeps_def)

lemma clock_later: "clock_moves w \<Longrightarrow> clock_at w h \<le> clock_at w (h @ g)"
proof (induction g rule: rev_induct)
  case Nil
  then show ?case by simp
next
  case (snoc e g)
  then have "clock_at w (h @ g) \<le> clock_at w ((h @ g) @ [e])" unfolding clock_moves_def by blast
  then show ?case using snoc by simp
qed

lemma poll_once_sleeps:
  assumes "poll_once w base_url (h @ [ClockReading]) = (outcome, h1)"
  shows "sleeps h1 \<le> sleeps h + 1 \<and> (outcome \<noteq> None \<longrightarrow> prefix h h1)"
  using assms
  by (auto simp: poll_once_def Let_def try_wait_server_def act_defs sleeps_def is_sleep_def
      split: if_splits option.splits sum.splits prod.splits)

lemma round_clock:
  assumes "clock_moves w"
  shows "clock_at w h + READINESS_POLL_INTERVAL \<le> clock_at w (h @ round_effects w base_url)"
proof -
  let ?g = "[ClockReading, TryWaitServer, GetNoop (base_url @ noop_route w)]"
  have "clock_at w (h @ ?g) + READINESS_POLL_INTERVAL
      \<le> clock_at w ((h @ ?g) @ [SleepFor READINESS_POLL_INTERVAL])"
    using assms unfolding clock_moves_def by blast
  then show ?thesis using clock_later [OF assms, of h ?g] by (simp add: round_effects_def)
qed

text \<open>The loop returns; every round but the last, in which it sleeps too at most once, is a poll interval long.\<close>

lemma poll_returns:
  assumes "clock_moves w" "deadline \<le> clock_at w h + n * READINESS_POLL_INTERVAL"
  shows "\<exists>x. poll_until_ready w base_url deadline h = Some x \<and> sleeps (snd x) \<le> sleeps h + n"
  using assms(2)
proof (induction n arbitrary: h)
  case 0
  then show ?case by (simp add: poll_until_ready.simps [of w base_url deadline h] sleeps_def is_sleep_def)
next
  case (Suc n)
  show ?case
  proof (cases "clock_at w h < deadline")
    case False
    then show ?thesis by (simp add: poll_until_ready.simps [of w base_url deadline h] sleeps_def is_sleep_def)
  next
    case True
    obtain outcome h1 where o: "poll_once w base_url (h @ [ClockReading]) = (outcome, h1)" by fastforce
    show ?thesis
    proof (cases outcome)
      case (Some raced)
      then show ?thesis using True o poll_once_sleeps [OF o]
        by (simp add: poll_until_ready.simps [of w base_url deadline h])
    next
      case None
      then have h1: "h1 = h @ round_effects w base_url" using poll_once_result [OF o] by blast
      have "deadline \<le> clock_at w h1 + n * READINESS_POLL_INTERVAL"
        using Suc.prems round_clock [OF assms(1), of h base_url] unfolding h1 by simp
      then obtain x where x: "poll_until_ready w base_url deadline h1 = Some x" "sleeps (snd x) \<le> sleeps h1 + n"
        using Suc.IH by blast
      then show ?thesis using True o None poll_once_sleeps [OF o]
        by (simp add: poll_until_ready.simps [of w base_url deadline h])
    qed
  qed
qed

definition MAX_POLLS :: nat where "MAX_POLLS = 200"

lemma wait_returns:
  assumes "clock_moves w"
  shows "\<exists>r h'. wait_until_ready w base_url h = Some (Inr r, h') \<and> sleeps h' \<le> sleeps h + MAX_POLLS"
proof -
  have e: "\<exists>x. wait_until_ready w base_url h = Some x \<and> sleeps (snd x) \<le> sleeps h + MAX_POLLS"
  proof (cases "signal_at w h")
    case (Some received)
    then show ?thesis by (simp add: wait_until_ready_def)
  next
    case None
    show ?thesis
    proof (cases "performed w h BuildReadinessClient")
      case (Inl e)
      then show ?thesis using None
        by (simp add: wait_until_ready_def perform_def act_defs sleeps_def is_sleep_def)
    next
      case (Inr u)
      let ?h = "h @ [BuildReadinessClient, ClockReading]"
      have "clock_at w (h @ [BuildReadinessClient]) + STARTUP_TIMEOUT \<le> clock_at w ?h + MAX_POLLS * READINESS_POLL_INTERVAL"
        using clock_later [OF assms, of "h @ [BuildReadinessClient]" "[ClockReading]"]
        by (simp add: STARTUP_TIMEOUT_def READINESS_POLL_INTERVAL_def MAX_POLLS_def from_secs_def from_millis_def)
      then obtain x where "poll_until_ready w base_url (clock_at w (h @ [BuildReadinessClient]) + STARTUP_TIMEOUT) ?h = Some x"
        "sleeps (snd x) \<le> sleeps ?h + MAX_POLLS"
        using poll_returns [OF assms] by blast
      then show ?thesis using None Inr
        by (simp add: wait_until_ready_def perform_def act_defs sleeps_def is_sleep_def)
    qed
  qed
  then obtain x where x: "wait_until_ready w base_url h = Some x" "sleeps (snd x) \<le> sleeps h + MAX_POLLS" by blast
  then show ?thesis using wait_until_ready_quiet [OF x(1)] by (auto simp: quiet_race_def)
qed

lemma quietly_sleeps: "quietly m \<Longrightarrow> m h = (r, h') \<Longrightarrow> sleeps h' = sleeps h"
  using performsD by fastforce

lemma begin_sleeps: "begin_attempt w c h = (r, h') \<Longrightarrow> sleeps h' = sleeps h"
proof -
  assume "begin_attempt w c h = (r, h')"
  then obtain g where "list_all plain_effect g" "h' = h @ g \<or> (\<exists>e. \<not> is_sleep e \<and> h' = (h @ g) @ [e])"
    using begin_spawns_last unfolding spawns_last_def by blast
  then show ?thesis by (auto simp: sleeps_single)
qed

lemma startup_returns:
  assumes "clock_moves w"
  shows "\<exists>r h'. startup_attempts w c attempts h = Some (r, h') \<and> sleeps h' \<le> sleeps h + length attempts * MAX_POLLS"
proof (induction attempts arbitrary: h)
  case Nil
  then show ?case by (simp add: act_defs)
next
  case (Cons n later)
  obtain r1 h1 where b: "begin_attempt w c h = (r1, h1)" by fastforce
  note s1 = begin_sleeps [OF b]
  show ?case
  proof (cases r1)
    case (Inl e)
    then show ?thesis using b s1 by (simp add: bind_run_def lift_run_def)
  next
    case r1: (Inr urls)
    obtain readiness h2 where wt: "wait_until_ready w (fst urls) h1 = Some (Inr readiness, h2)"
      "sleeps h2 \<le> sleeps h1 + MAX_POLLS"
      using wait_returns [OF assms] by blast
    obtain r3 h3 where st: "settle_attempt w n urls readiness h2 = (r3, h3)" by fastforce
    note s3 = quietly_sleeps [OF quiet_settle st]
    show ?thesis
    proof (cases "r3 = Inr None")
      case True
      obtain r4 h4 where "startup_attempts w c later h3 = Some (r4, h4)"
        "sleeps h4 \<le> sleeps h3 + length later * MAX_POLLS" using Cons.IH by blast
      then show ?thesis using b r1 wt st s1 s3 True by (simp add: bind_run_def lift_run_def)
    next
      case False
      then show ?thesis using b r1 wt st s1 s3
        by (cases r3) (auto simp: bind_run_def lift_run_def return_act_def)
    qed
  qed
qed

lemma run_returns:
  assumes "clock_moves w"
  shows "\<exists>r h. run_controller w c [] = Some (r, h) \<and> sleeps h \<le> 600"
proof -
  obtain r1 h1 where p: "prepare_run w c [] = (r1, h1)" by fastforce
  have s1: "sleeps h1 = 0" using quietly_sleeps [OF quiet_prepare p] by (simp add: sleeps_def)
  show ?thesis
  proof (cases r1)
    case (Inl e)
    then show ?thesis using p s1 by (simp add: run_controller_def bind_run_def lift_run_def)
  next
    case (Inr u)
    obtain r2 h2 where st: "startup_attempts w c [1..<STARTUP_ATTEMPTS + 1] h1 = Some (r2, h2)"
      "sleeps h2 \<le> sleeps h1 + length [1..<STARTUP_ATTEMPTS + 1] * MAX_POLLS"
      using startup_returns [OF assms] by blast
    then have s2: "sleeps h2 \<le> 600" using s1 by (simp add: STARTUP_ATTEMPTS_def MAX_POLLS_def)
    show ?thesis
    proof (cases r2)
      case (Inl e)
      then show ?thesis using p Inr st s2 by (simp add: run_controller_def start_server_def bind_run_def lift_run_def)
    next
      case r2: (Inr urls)
      obtain r3 h3 where sv: "supervise w c (fst urls) (snd urls) h2 = (r3, h3)" by fastforce
      then show ?thesis using p Inr st(1) s2 r2 quietly_sleeps [OF quiet_supervise sv]
        by (cases urls) (simp add: run_controller_def start_server_def bind_run_def lift_run_def)
    qed
  qed
qed

text \<open>
  C22: the controller returns. When the clock advances, every run ends with a result or an error after at
  most 600 readiness sleeps, whatever the processes, files and signals do.
\<close>

theorem controller_returns:
  assumes "clock_moves w"
  shows "\<exists>r h. run_controller w c [] = Some (r, h) \<and> sleeps h \<le> 600"
  using run_returns [OF assms] .

section \<open>No failure is lost\<close>

definition reports :: "'a result \<Rightarrow> anyhow_error \<Rightarrow> bool" where
  "reports r e \<longleftrightarrow> (\<exists>reported. r = Inl reported \<and> sublist (show_error e) (show_error reported))"

lemma reports_same [simp]: "reports (Inl e) e"
  by (simp add: reports_def)

lemma reports_both: "reports (both_failed first e second e') e" "reports (both_failed first e second e') e'"
  using sublist_appendI [of "show_error e" first "second @ show_error e'"]
    sublist_appendI [of "show_error e'" "first @ show_error e @ second" "[]"]
  by (simp_all add: reports_def both_failed_def err_def)

lemma reports_trans: "reports r e' \<Longrightarrow> sublist (show_error e) (show_error e') \<Longrightarrow> reports r e"
  by (auto simp: reports_def intro: sublist_order.order_trans)

lemma combine_reports:
  "a = Inl e \<or> b = Inl e \<Longrightarrow> reports (combine_run_and_profile a b) e"
  "a = Inl e \<or> b = Inl e \<Longrightarrow> reports (combine_run_and_shutdown a b) e"
  by (cases a; cases b; auto simp: reports_both)+

lemma combine_is_ok:
  "is_ok (combine_run_and_profile a b) \<longleftrightarrow> is_ok a \<and> is_ok b"
  "is_ok (combine_run_and_shutdown a b) \<longleftrightarrow> is_ok a \<and> is_ok b"
  by (auto simp: is_ok_iff checked_iff)

lemma combined_reports:
  assumes "a = Inl e \<or> b = Inl e \<or> d = Inl e"
  shows "reports (combine_run_and_shutdown (combine_run_and_profile a b) d) e"
proof (cases "d = Inl e")
  case True
  then show ?thesis by (simp add: combine_reports)
next
  case False
  then have "reports (combine_run_and_profile a b) e" using assms combine_reports by blast
  then obtain e' where "combine_run_and_profile a b = Inl e'" "sublist (show_error e) (show_error e')"
    by (auto simp: reports_def)
  then show ?thesis using combine_reports(2) [of "combine_run_and_profile a b" e' d] reports_trans by blast
qed

text \<open>
  C23: the controller reports every failure. After the server started, a run succeeds exactly when the RTC
  work, the profiler and the shutdown did, and otherwise the text of each of their errors is part of the
  reported one.
\<close>

theorem controller_reports_failures:
  assumes "start_profiler w c h = (Inr (Inr ()), h1)"
    and "rtc_work w c base_url websocket_url h1 = (Inr (run_result, server_exited), h2)"
    and "(if profile_server c then attempt (perform w FinishProfiler) else return_act (Inr ())) h2 = (Inr profile_result, h3)"
    and "(if server_exited then return_act (Inr ()) else attempt (stop_server w)) h3 = (Inr shutdown_result, h4)"
  shows "\<exists>r. supervise w c base_url websocket_url h = (r, h4) \<and>
    (is_ok r \<longleftrightarrow> is_ok run_result \<and> is_ok profile_result \<and> is_ok shutdown_result) \<and>
    (\<forall>e. run_result = Inl e \<or> profile_result = Inl e \<or> shutdown_result = Inl e \<longrightarrow> reports r e)"
proof -
  let ?r = "combine_run_and_shutdown (combine_run_and_profile run_result profile_result) shutdown_result"
  have "supervise w c base_url websocket_url h = (?r, h4)"
    using assms(1-2) by (simp add: supervise_def bind_act_def assms(3) assms(4) lift_act_def)
  then show ?thesis using combined_reports combine_is_ok by auto
qed

section \<open>Examples\<close>

text \<open>A run in which everything goes well.\<close>

definition good_world :: controller_world where
  "good_world =
     \<lparr>performed = (\<lambda>h e. Inr ()), removal_of = (\<lambda>h e. AlreadyGone), file_content = (\<lambda>h e. Inr ''{}''),
      local_port = (\<lambda>h e. Inr 8080), exit_seen = (\<lambda>h e. Inr None),
      exit_within = (\<lambda>h e. Some (Inr (ExitStatus True ''exit status: 0''))),
      term_status = (\<lambda>h e. Inr (ExitStatus True ''exit status: 0'')), child_id = (\<lambda>h e. Some 7),
      noop_status = (\<lambda>h e. Inr 200), clock_at = (\<lambda>h. length h * READINESS_POLL_INTERVAL), signal_at = (\<lambda>h. None),
      pipe_taken = (\<lambda>h e. Some ()), rtc_event_at = (\<lambda>h e. RtcExited (Inr (ExitStatus True ''exit status: 0''))),
      phases_joined = (\<lambda>h e. Some (Inr (Inr ()))), spec_to_json = (\<lambda>spec. Inr ''{}''),
      result_of_json = (\<lambda>payload. Inr (example_result ''a'')), noop_route = ''/v1/noop''\<rparr>"

definition smoke_config :: run_config where
  "smoke_config =
     \<lparr>server_binary = \<lparr>rooted = False, components = [''o-sfu'']\<rparr>, rtc_binary = \<lparr>rooted = False, components = [''rtc'']\<rparr>,
      output_directory = \<lparr>rooted = False, components = [''out'']\<rparr>, server_cpus = None, rtc_cpus = None,
      profile_server = False, config_spec = Smoke 1 1\<rparr>"

lemma good_answers [simp]:
  "performed good_world h e = Inr ()" "removal_of good_world h e = AlreadyGone" "file_content good_world h e = Inr ''{}''"
  "local_port good_world h e = Inr 8080" "exit_seen good_world h e = Inr None"
  "exit_within good_world h e = Some (Inr (ExitStatus True ''exit status: 0''))"
  "term_status good_world h e = Inr (ExitStatus True ''exit status: 0'')" "child_id good_world h e = Some 7"
  "noop_status good_world h e = Inr 200" "clock_at good_world h = length h * READINESS_POLL_INTERVAL"
  "signal_at good_world h = None" "pipe_taken good_world h e = Some ()"
  "rtc_event_at good_world h e = RtcExited (Inr (ExitStatus True ''exit status: 0''))"
  "phases_joined good_world h e = Some (Inr (Inr ()))" "spec_to_json good_world spec = Inr ''{}''"
  "result_of_json good_world payload = Inr (example_result ''a'')" "noop_route good_world = ''/v1/noop''"
  by (simp_all add: good_world_def)

lemma good_moves: "clock_moves good_world"
  by (simp add: clock_moves_def)








text \<open>A server that exits at once on every attempt: three are started, one after the other.\<close>

definition crashing_world :: controller_world where
  "crashing_world = good_world\<lparr>exit_seen := (\<lambda>h e. Inr (Some (ExitStatus False ''exit status: 1'')))\<rparr>"

theorem controller_one_server_witness:
  "\<exists>r h. run_controller crashing_world smoke_config [] = Some (r, h) \<and> one_at_a_time crashing_world h"
proof -
  have "clock_moves crashing_world" by (simp add: crashing_world_def clock_moves_def)
  then have "\<exists>r h. run_controller crashing_world smoke_config [] = Some (r, h)"
    using run_returns by blast
  then show ?thesis using controller_one_server by blast
qed

theorem controller_returns_witness:
  "\<exists>r h. run_controller good_world smoke_config [] = Some (r, h) \<and> sleeps h \<le> 600"
  using controller_returns [OF good_moves] .

text \<open>A worker that leaves a result nobody can decode, and a server that ignores SIGTERM.\<close>

definition failing_world :: controller_world where
  "failing_world = good_world\<lparr>result_of_json := (\<lambda>payload. err ''bad''), exit_within := (\<lambda>h e. None)\<rparr>"

lemma failing_answers [simp]:
  "performed failing_world h e = Inr ()" "file_content failing_world h e = Inr ''{}''" "exit_seen failing_world h e = Inr None"
  "exit_within failing_world h e = None" "term_status failing_world h e = Inr (ExitStatus True ''exit status: 0'')"
  "child_id failing_world h e = Some 7" "pipe_taken failing_world h e = Some ()"
  "rtc_event_at failing_world h e = RtcExited (Inr (ExitStatus True ''exit status: 0''))"
  "phases_joined failing_world h e = Some (Inr (Inr ()))" "result_of_json failing_world payload = err ''bad''"
  by (simp_all add: failing_world_def)

lemma failing_parts:
  "start_profiler failing_world smoke_config [] = (Inr (Inr ()), [])"
  "\<exists>h2. rtc_work failing_world smoke_config b ws [] = (Inr (Inl (Anyhow [''failed to decode result.json'', ''bad'']), False), h2)"
  "\<exists>h4. stop_server failing_world h3 = (Inl (Anyhow [''o-sfu exceeded its shutdown deadline'']), h4)"
  by (simp_all add: start_profiler_def rtc_work_def run_rtc_worker_def start_rtc_worker_def perform_def ask_def
      ask_or_def act_defs wait_for_rtc_worker_def join_phases_def read_result_def stop_server_def try_wait_server_def
      smoke_config_def err_def)

theorem controller_reports_failures_witness:
  "\<exists>r h. supervise failing_world smoke_config ''b'' ''w'' [] = (r, h) \<and>
     reports r (Anyhow [''failed to decode result.json'', ''bad'']) \<and>
     reports r (Anyhow [''o-sfu exceeded its shutdown deadline''])"
proof -
  obtain h2 where w: "rtc_work failing_world smoke_config ''b'' ''w'' []
      = (Inr (Inl (Anyhow [''failed to decode result.json'', ''bad'']), False), h2)" using failing_parts(2) by blast
  obtain h4 where st: "stop_server failing_world h2 = (Inl (Anyhow [''o-sfu exceeded its shutdown deadline'']), h4)"
    using failing_parts(3) by blast
  have "(if profile_server smoke_config then attempt (perform failing_world FinishProfiler) else return_act (Inr ())) h2
      = (Inr (Inr ()), h2)" by (simp add: smoke_config_def return_act_def)
  moreover have "(if False then return_act (Inr ()) else attempt (stop_server failing_world)) h2
      = (Inr (Inl (Anyhow [''o-sfu exceeded its shutdown deadline''])), h4)" using st by (simp add: attempt_def)
  ultimately show ?thesis using controller_reports_failures [OF failing_parts(1) w] by blast
qed

end
