(* ===== verification/ComparisonReport.thy ===== *)
theory ComparisonReport
  imports Comparison Report
begin

text \<open>
  The text of a revision comparison (\<open>src/comparison.rs\<close>, \<open>render\<close> and the functions below it): the verdicts of
  \<open>judge_comparison\<close>, the issues, and for the paired runs the tables and the graphs with one line per revision.
  Paragraphs, tables and charts are those of the job summary.
\<close>

record pair_metrics =
  pm_pair :: run_pair
  pm_baseline :: run_telemetry
  pm_comparison :: run_telemetry

definition pair_metrics_of :: "run_pair \<Rightarrow> pair_metrics" where
  "pair_metrics_of pair =
     \<lparr>pm_pair = pair, pm_baseline = side_telemetry (pr_baseline pair), pm_comparison = side_telemetry (pr_comparison pair)\<rparr>"

section \<open>Status and issues\<close>

definition comparison_status_row :: "comparison_side \<Rightarrow> comparison_side \<Rightarrow> comparison_verdict \<Rightarrow> string list" where
  "comparison_status_row baseline comparison verdict =
     [pass_fail (cv_exact verdict),
      if cv_workloads_match verdict then ''IDENTICAL'' else ''MISMATCH'',
      if cv_revisions_valid verdict then ''VALID'' else ''INVALID'',
      if cv_performance_valid verdict then ''VALID'' else ''INVALID'',
      show_nat (max (length (cs_runs baseline)) (length (cs_runs comparison))),
      show_nat (length (cs_failures baseline) + length (cs_failures comparison)),
      escape_table (rv_label (side_revision (cs_runs baseline))),
      escape_table (rv_label (side_revision (cs_runs comparison)))]"

definition render_comparison_status ::
  "comparison_side \<Rightarrow> comparison_side \<Rightarrow> comparison_verdict \<Rightarrow> string option \<Rightarrow> doc" where
  "render_comparison_status baseline comparison verdict artifact_link =
     md_table [''Exact work'', ''Workloads'', ''Revisions'', ''Performance samples'', ''Scenarios'', ''Failed inputs'',
         ''Baseline revision'', ''Comparison revision'']
       [''---'', ''---'', ''---'', ''---'', ''---:'', ''---:'', ''---'', ''---'']
       [comparison_status_row baseline comparison verdict]
     @ paragraph_of (''Every delta is comparison minus baseline. CPU time covers setup, warmup, measured work and drain.'')
     @ paragraph_of (''Both revisions use the same hosted runner and CPU affinity. Timing and resource deltas remain ''
         @ ''trend evidence until a dedicated runner provides a controlled testbed.'')
     @ (case artifact_link of None \<Rightarrow> []
        | Some url \<Rightarrow> paragraph_of (''[Download both revisions, telemetry and logs]('' @ url @ '')''))"

definition failure_line :: "string \<Rightarrow> load_failure \<Rightarrow> string" where
  "failure_line role failure =
     ''- '' @ role @ '' input `'' @ escape_table (lf_source failure) @ ''`: '' @ escape_table (lf_error failure)"

definition issue_line :: "string \<Rightarrow> string" where
  "issue_line issue = ''- '' @ escape_table issue"

definition revision_lines :: "revision_info \<Rightarrow> revision_info \<Rightarrow> string list" where
  "revision_lines baseline comparison =
     (if rv_valid baseline then [] else [''- Baseline results do not contain one full revision SHA.''])
     @ (if rv_valid comparison then [] else [''- Comparison results do not contain one full revision SHA.''])
     @ (if rv_valid baseline \<and> rv_valid comparison \<and> rv_label baseline = rv_label comparison
        then [''- Baseline and comparison revisions are identical.''] else [])"

definition render_issues ::
  "comparison_side \<Rightarrow> comparison_side \<Rightarrow> revision_info \<Rightarrow> revision_info \<Rightarrow> run_pairing \<Rightarrow> doc" where
  "render_issues baseline comparison baseline_revision comparison_revision pairing =
     (let revision_issue = (\<not> rv_valid baseline_revision \<or> \<not> rv_valid comparison_revision \<or>
            rv_label baseline_revision = rv_label comparison_revision) in
      if cs_failures baseline = [] \<and> cs_failures comparison = [] \<and> rp_issues pairing = [] \<and> \<not> revision_issue then []
      else paragraph_of ''## Comparison issues'' @ map (failure_line ''Baseline'') (cs_failures baseline)
        @ map (failure_line ''Comparison'') (cs_failures comparison) @ map issue_line (rp_issues pairing)
        @ revision_lines baseline_revision comparison_revision @ [[]])"

section \<open>Workloads and exact delivery\<close>

definition identity_row :: "run_pair \<Rightarrow> string list" where
  "identity_row pair =
     (let r = rd_result (pr_baseline pair) in
      [scenario_label (res_scenario r), escape_table (res_profile r), grouped (wp_routes (res_plan r)),
       grouped (wp_expected_deliveries (res_plan r)), show_word (duration_seconds (res_scenario r)) @ '' s''])"

definition render_workload_identity :: "run_pair list \<Rightarrow> doc" where
  "render_workload_identity pairs =
     paragraph_of ''## Workload identity'' @ render_consumer_context
     @ md_table [''Scenario'', ''Profile'', ''Total media consumers'', ''Expected deliveries'', ''Duration'']
         [''---'', ''---'', ''---:'', ''---:'', ''---:''] (map identity_row pairs)"

definition render_exact_row :: "string \<Rightarrow> run_data \<Rightarrow> string list" where
  "render_exact_row role run =
     (let r = rd_result run; correctness = res_correctness r in
      [scenario_label (res_scenario r), role, grouped (wp_expected_deliveries (res_plan r)),
       grouped (res_delivered_packets r), grouped (missing_packets correctness), grouped (duplicate_packets correctness),
       grouped (out_of_order_packets correctness), grouped (unexpected_packets correctness),
       grouped (payload_mismatches correctness),
       case validate_run run of Inl e \<Rightarrow> escape_table (''FAIL: '' @ show_error e) | Inr _ \<Rightarrow> ''PASS''])"

definition render_exact_delivery :: "run_pair list \<Rightarrow> doc" where
  "render_exact_delivery pairs =
     paragraph_of ''## Exact delivery correctness''
     @ md_table [''Scenario'', ''Variant'', ''Expected'', ''Delivered'', ''Missing'', ''Duplicate'', ''Out of order'',
          ''Unexpected'', ''Payload mismatch'', ''Exact'']
         [''---'', ''---'', ''---:'', ''---:'', ''---:'', ''---:'', ''---:'', ''---:'', ''---:'', ''---'']
         (concat (map (\<lambda>pair. [render_exact_row ''Baseline'' (pr_baseline pair),
            render_exact_row ''Comparison'' (pr_comparison pair)]) pairs))"

section \<open>Graphs\<close>

type_synonym metric_values = "pair_metrics \<Rightarrow> u64 option \<times> u64 option"

definition matched_metrics :: "pair_metrics list \<Rightarrow> pair_metrics list" where
  "matched_metrics metrics = filter (\<lambda>m. pr_workload_matches (pm_pair m)) metrics"

definition metric_label :: "pair_metrics \<Rightarrow> string" where
  "metric_label m = chart_label (res_scenario (rd_result (pr_baseline (pm_pair m))))"

definition paired_points :: "metric_values \<Rightarrow> pair_metrics list \<Rightarrow> (string \<times> u64 \<times> u64) list" where
  "paired_points values_of metrics =
     List.map_filter (\<lambda>m.
       case values_of m of (Some b, Some c) \<Rightarrow> Some (metric_label m, b, c) | _ \<Rightarrow> None) (matched_metrics metrics)"

definition unpaired_labels :: "metric_values \<Rightarrow> pair_metrics list \<Rightarrow> string list" where
  "unpaired_labels values_of metrics =
     List.map_filter (\<lambda>m.
       case values_of m of (Some b, Some c) \<Rightarrow> None | _ \<Rightarrow> Some (metric_label m)) (matched_metrics metrics)"

definition render_paired_lines ::
  "pair_metrics list \<Rightarrow> string \<Rightarrow> string \<Rightarrow> u64 \<Rightarrow> metric_values \<Rightarrow> doc result" where
  "render_paired_lines metrics title y_axis minimum values_of =
     (let paired = paired_points values_of metrics; omitted = unpaired_labels values_of metrics;
          remark = (if omitted \<noteq> [] then paragraph_of
              (''The '' @ title @ '' graph omits scenarios without paired data: '' @ join_with '', '' omitted @ ''.'')
            else []) in
      if paired = [] then Inr (remark @ paragraph_of (''The '' @ title @ '' graph has no paired data.''))
      else
        bind_ok (render_category_charts title ''Two lines compare both revisions on one scenario axis.''
          (map fst paired) y_axis minimum
          [\<lparr>cl_name = ''baseline'', cl_values = map (fst \<circ> snd) paired\<rparr>,
           \<lparr>cl_name = ''comparison'', cl_values = map (snd \<circ> snd) paired\<rparr>]) (\<lambda>charts.
        Inr (remark @ charts)))"

text \<open>Both sides of a metric read by the same function.\<close>

definition from_results :: "(scenario_result \<Rightarrow> u64) \<Rightarrow> metric_values" where
  "from_results read m =
     (Some (read (rd_result (pr_baseline (pm_pair m)))), Some (read (rd_result (pr_comparison (pm_pair m)))))"

definition from_telemetry :: "(run_telemetry \<Rightarrow> u64 option) \<Rightarrow> metric_values" where
  "from_telemetry read m = (read (pm_baseline m), read (pm_comparison m))"

definition render_delivery_graphs :: "pair_metrics list \<Rightarrow> doc result" where
  "render_delivery_graphs metrics =
     bind_ok (render_paired_lines metrics ''Receiver delivery throughput'' ''deliveries/s'' 0
       (from_results delivery_rate)) (\<lambda>deliveries.
     bind_ok (render_paired_lines metrics ''Receiver-observed RTP payload'' ''RTP payload kbit/s'' 0
       (from_results (\<lambda>r. delivered_payload_bits_per_second r div 1000))) (\<lambda>payload.
     Inr (deliveries @ payload)))"

definition render_system_graphs :: "pair_metrics list \<Rightarrow> doc result" where
  "render_system_graphs metrics =
     bind_ok (render_paired_lines metrics ''SFU CPU time per million deliveries'' ''CPU ms / 1M deliveries'' 0
       (from_telemetry (\<lambda>t. map_option (\<lambda>v. div_ceil v 1000) (rt_server_cpu_micros_per_million_deliveries t)))) (\<lambda>cpu_time.
     bind_ok (render_paired_lines metrics ''Generator send lag'' ''max send lag ms'' 0
       (from_results res_max_send_lag_ms)) (\<lambda>lag.
     bind_ok (render_paired_lines metrics ''SFU packet-loop delay'' ''max loop delay ms'' 0
       (from_telemetry rt_packet_loop_delay_ms)) (\<lambda>delay.
     bind_ok (render_paired_lines metrics ''SFU average CPU'' ''CPU (%)'' 100
       (from_telemetry (\<lambda>t. map_option round_milli (rt_server_cpu_percent_milli t)))) (\<lambda>average.
     bind_ok (render_paired_lines metrics ''SFU peak resident memory'' ''RSS MiB'' 0
       (from_telemetry (\<lambda>t. map_option bytes_to_mebibytes (rt_server_rss_bytes t)))) (\<lambda>memory.
     Inr (cpu_time @ lag @ delay @ average @ memory))))))"

definition render_graphs :: "pair_metrics list \<Rightarrow> revision_info \<Rightarrow> revision_info \<Rightarrow> doc result" where
  "render_graphs metrics baseline_revision comparison_revision =
     bind_ok (render_delivery_graphs metrics) (\<lambda>delivery.
     bind_ok (render_system_graphs metrics) (\<lambda>system.
     Inr (paragraph_of ''## Comparison graphs''
       @ paragraph_of (''Every graph uses one scenario axis. The first line is baseline `''
           @ short_revision baseline_revision ''baseline'' @ ''`. The second line is comparison `''
           @ short_revision comparison_revision ''comparison'' @ ''`. Coincident lines mean both plotted values are ''
           @ ''equal and the tables retain both numbers.'')
       @ delivery @ system)))"

section \<open>Deltas\<close>

definition render_metric_row :: "string \<Rightarrow> string \<Rightarrow> u64 option \<times> u64 option \<Rightarrow> (u64 \<Rightarrow> string) \<Rightarrow> string list" where
  "render_metric_row scenario metric values_of_pair format =
     (case values_of_pair of (baseline, comparison) \<Rightarrow>
        [scenario, metric, format_optional baseline format, format_optional comparison format,
         format_delta baseline comparison format])"

definition performance_rows :: "pair_metrics \<Rightarrow> string list list" where
  "performance_rows m =
     (let label = scenario_label (res_scenario (rd_result (pr_baseline (pm_pair m)))) in
      [render_metric_row label ''SFU CPU time per million deliveries''
         (from_telemetry rt_server_cpu_micros_per_million_deliveries m) format_cpu_time,
       render_metric_row label ''Receiver deliveries'' (from_results delivery_rate m) format_deliveries_per_second,
       render_metric_row label ''Receiver-observed RTP payload'' (from_results delivered_payload_bits_per_second m)
         format_bits_per_second,
       render_metric_row label ''Generator max send lag'' (from_results res_max_send_lag_ms m) format_milliseconds,
       render_metric_row label ''Packet-loop max delay'' (from_telemetry rt_packet_loop_delay_ms m) format_milliseconds])"

definition render_performance_table :: "pair_metrics list \<Rightarrow> doc" where
  "render_performance_table metrics =
     paragraph_of ''## Performance deltas''
     @ md_table [''Scenario'', ''Metric'', ''Baseline'', ''Comparison'', ''Delta'']
         [''---'', ''---'', ''---:'', ''---:'', ''---:''] (concat (map performance_rows (matched_metrics metrics)))"

definition resource_rows :: "pair_metrics \<Rightarrow> string list list" where
  "resource_rows m =
     (let label = scenario_label (res_scenario (rd_result (pr_baseline (pm_pair m)))) in
      [render_metric_row label ''SFU CPU average'' (from_telemetry rt_server_cpu_percent_milli m) format_cpu_percent,
       render_metric_row label ''SFU CPU peak'' (from_telemetry rt_server_cpu_peak_percent_milli m) format_cpu_percent,
       render_metric_row label ''SFU RSS peak'' (from_telemetry rt_server_rss_bytes m) format_mebibytes,
       render_metric_row label ''RTC CPU average'' (from_telemetry rt_rtc_cpu_percent_milli m) format_cpu_percent,
       render_metric_row label ''RTC RSS peak'' (from_telemetry rt_rtc_rss_bytes m) format_mebibytes,
       render_metric_row label ''SFU forwarded packets'' (from_telemetry rt_forwarded_packets_per_second m)
         format_packets_per_second,
       render_metric_row label ''SFU sampled egress payload'' (from_telemetry rt_egress_payload_bits_per_second m)
         format_bits_per_second])"

definition render_resource_table :: "pair_metrics list \<Rightarrow> doc" where
  "render_resource_table metrics =
     paragraph_of ''## Resource deltas''
     @ paragraph_of ''CPU averages are weighted by sample interval. RSS and CPU peaks are sampled maxima.''
     @ md_table [''Scenario'', ''Metric'', ''Baseline'', ''Comparison'', ''Delta'']
         [''---'', ''---'', ''---:'', ''---:'', ''---:''] (concat (map resource_rows (matched_metrics metrics)))"

section \<open>The report\<close>

definition render_pairs :: "run_pair list \<Rightarrow> revision_info \<Rightarrow> revision_info \<Rightarrow> doc result" where
  "render_pairs pairs baseline_revision comparison_revision =
     (if pairs = [] then Inr (paragraph_of ''No scenario pair was available for comparison.'')
      else
        let metrics = map pair_metrics_of pairs in
        bind_ok render_media_profile (\<lambda>media_profile.
        bind_ok (render_graphs metrics baseline_revision comparison_revision) (\<lambda>graphs.
        Inr (render_workload_identity pairs @ media_profile @ render_scenario_legend @ render_exact_delivery pairs
          @ graphs @ render_performance_table metrics @ render_resource_table metrics))))"

definition render_sides :: "comparison_side \<Rightarrow> comparison_side \<Rightarrow> string option \<Rightarrow> string result" where
  "render_sides baseline comparison artifact_link =
     (let baseline_revision = side_revision (cs_runs baseline);
          comparison_revision = side_revision (cs_runs comparison);
          pairing = pair_runs (cs_runs baseline) (cs_runs comparison);
          verdict = judge_comparison baseline comparison in
      bind_ok (render_pairs (rp_pairs pairing) baseline_revision comparison_revision) (\<lambda>sections.
      let summary = text_of (paragraph_of ''# o-sfu revision comparison''
            @ render_comparison_status baseline comparison verdict artifact_link
            @ render_issues baseline comparison baseline_revision comparison_revision pairing @ sections) in
      bind_ok (ensure_summary_size summary) (\<lambda>_. Inr summary)))"

definition render_comparison ::
  "(fs_path \<Rightarrow> run_data result) \<Rightarrow> fs_path list \<Rightarrow> fs_path list \<Rightarrow> string option \<Rightarrow> string result" where
  "render_comparison load baseline_inputs comparison_inputs artifact_link =
     ensure (baseline_inputs \<noteq> []) ''baseline inputs are required'' (
     ensure (comparison_inputs \<noteq> []) ''comparison inputs are required'' (
     ensure (length baseline_inputs \<le> MAX_INPUTS) ''at most 256 baseline inputs are allowed'' (
     ensure (length comparison_inputs \<le> MAX_INPUTS) ''at most 256 comparison inputs are allowed'' (
     bind_ok (validate_artifact_url artifact_link) (\<lambda>_.
     render_sides (load_side load baseline_inputs) (load_side load comparison_inputs) artifact_link)))))"

end
