(* ===== verification/ComparisonReportFacts.thy ===== *)
theory ComparisonReportFacts
  imports ComparisonReport ComparisonFacts ReportFacts
begin

text \<open>
  What holds of every comparison text: sound tables, no failing check inside the renderer, the verdict row
  says what the inputs amount to, and every input is accounted for by its rows or by an issue.
\<close>

section \<open>Sound sections\<close>

lemma in_cell_delta [cell_intros]: "(\<And>n. in_cell (format n)) \<Longrightarrow> in_cell (format_delta b c format)"
  by (auto simp: format_delta_def Let_def cell_intros split: option.splits)

lemma in_cell_metric_formats [cell_intros]: "in_cell (format_cpu_time n)" "in_cell (format_deliveries_per_second n)"
  by (simp_all add: format_cpu_time_def format_deliveries_per_second_def cell_intros)

lemma side_revision_full: "rv_valid (side_revision runs) \<Longrightarrow> valid_revision (rv_label (side_revision runs))"
  by (auto simp: side_revision_def split: list.splits bool.splits)

lemma one_line_revision: "valid_revision revision \<Longrightarrow> one_line revision"
proof -
  have "\<not> is_ascii_digit CHR 0x0A" "\<not> is_ascii_digit CHR 0x0D" by code_simp+
  then show "valid_revision revision \<Longrightarrow> one_line revision"
    unfolding valid_revision_def one_line_def list_all_iff by auto
qed

lemma one_line_get_range: "one_line t \<Longrightarrow> get_range t a b = Some s \<Longrightarrow> one_line s"
  by (auto simp: get_range_def one_line_def list_all_iff split: if_splits dest: in_set_takeD in_set_dropD)

lemma short_revision_line:
  "one_line fallback \<Longrightarrow> one_line (short_revision (side_revision runs) fallback)"
  by (auto simp: short_revision_def split: option.splits
      dest: side_revision_full [THEN one_line_revision, THEN one_line_get_range])

lemma sound_lines: "(\<And>t. t \<in> set d \<Longrightarrow> one_line t \<and> \<not> is_row t) \<Longrightarrow> sound_doc d"
  by (induction d) (simp_all add: doc_intros)

lemma sound_comparison_status:
  "validate_artifact_url link = Inr () \<Longrightarrow> sound_doc (render_comparison_status baseline comparison verdict link)"
  unfolding render_comparison_status_def
  by (intro doc_intros; cases link)
    (auto simp: comparison_status_row_def cell_intros accepted_link_line intro!: doc_intros)

lemma one_line_escape [simp]: "one_line (escape_table t)"
  by (simp add: in_cell_one_line cell_intros)

lemma sound_comparison_issues: "sound_doc (render_issues baseline comparison b c pairing)"
proof -
  have "sound_doc (map (failure_line role) failures)" if "one_line role" for role failures
    using that by (intro sound_lines) (auto simp: failure_line_def)
  moreover have "sound_doc (map issue_line issues)" for issues by (intro sound_lines) (auto simp: issue_line_def)
  moreover have "sound_doc (revision_lines b c)" by (intro sound_lines) (auto simp: revision_lines_def split: if_splits)
  ultimately show ?thesis
    unfolding render_issues_def Let_def by (auto intro!: doc_intros)
qed

lemma sound_identity: "sound_doc (render_workload_identity pairs)"
  unfolding render_workload_identity_def
  by (intro doc_intros sound_consumer_context) (simp_all add: cell_intros identity_row_def Let_def)

lemma exact_row_cells: "in_cell role \<Longrightarrow> length (render_exact_row role run) = 10 \<and> list_all in_cell (render_exact_row role run)"
  by (simp add: render_exact_row_def Let_def cell_intros split: sum.split)

lemma sound_exact_delivery: "sound_doc (render_exact_delivery pairs)"
  unfolding render_exact_delivery_def by (intro doc_intros) (auto simp: exact_row_cells)

lemma metric_row_cells:
  "in_cell scenario \<Longrightarrow> in_cell metric \<Longrightarrow> (\<And>n. in_cell (format n)) \<Longrightarrow>
     length (render_metric_row scenario metric values format) = 5 \<and>
     list_all in_cell (render_metric_row scenario metric values format)"
  by (cases "values") (simp add: render_metric_row_def cell_intros)

lemma sound_delta_rows:
  assumes "\<And>m row. row \<in> set (rows m) \<Longrightarrow> length row = 5 \<and> list_all in_cell row"
  shows "sound_doc (md_table [''Scenario'', ''Metric'', ''Baseline'', ''Comparison'', ''Delta'']
    [''---'', ''---'', ''---:'', ''---:'', ''---:''] (concat (map rows ms)))"
  using assms by (intro doc_intros) auto

lemma sound_delta_tables: "sound_doc (render_performance_table metrics)" "sound_doc (render_resource_table metrics)"
proof -
  have rows: "length row = 5 \<and> list_all in_cell row" if "row \<in> set (performance_rows m) \<union> set (resource_rows m)" for row m
    using that by (auto simp: performance_rows_def resource_rows_def Let_def intro!: metric_row_cells [THEN conjunct1]
        metric_row_cells [THEN conjunct2] cell_intros)
  show "sound_doc (render_performance_table metrics)"
    unfolding render_performance_table_def by (intro sound_doc_append sound_doc_paragraph sound_delta_rows) (use rows in auto)
  show "sound_doc (render_resource_table metrics)"
    unfolding render_resource_table_def by (intro sound_doc_append sound_doc_paragraph sound_delta_rows) (use rows in auto)
qed

lemma graph_labels:
  "set (map fst (paired_points values_of metrics)) \<union> set (unpaired_labels values_of metrics) \<subseteq> metric_label ` set metrics"
  by (auto simp: paired_points_def unpaired_labels_def matched_metrics_def List.map_filter_def split: option.splits prod.splits)

lemma sound_paired_lines:
  assumes "one_line title" "one_line y_axis"
  shows "\<exists>d. render_paired_lines metrics title y_axis minimum values_of = Inr d \<and> sound_doc d"
proof -
  let ?paired = "paired_points values_of metrics" and ?omitted = "unpaired_labels values_of metrics"
  let ?remark = "if ?omitted \<noteq> [] then paragraph_of
      (''The '' @ title @ '' graph omits scenarios without paired data: '' @ join_with '', '' ?omitted @ ''.'') else []"
  have "one_line (metric_label m)" for m by (simp add: metric_label_def in_cell_one_line cell_intros)
  then have l: "list_all one_line (map fst ?paired)" "list_all one_line ?omitted"
    using graph_labels [of values_of metrics] unfolding list_all_iff by blast+
  then have remark: "sound_doc ?remark" using assms(1) by (auto simp: one_line_join sound_doc_Nil intro!: doc_intros)
  show ?thesis
  proof (cases "?paired = []")
    case True
    then show ?thesis using sound_doc_append [OF remark] assms(1)
      by (simp add: render_paired_lines_def Let_def sound_doc_paragraph)
  next
    case False
    have "\<exists>d. render_category_charts title ''Two lines compare both revisions on one scenario axis.'' (map fst ?paired) y_axis
        minimum [\<lparr>cl_name = ''baseline'', cl_values = map (fst \<circ> snd) ?paired\<rparr>,
          \<lparr>cl_name = ''comparison'', cl_values = map (snd \<circ> snd) ?paired\<rparr>] = Inr d \<and> sound_doc d"
      by (rule sound_charts) (use False l assms in \<open>simp_all add: one_line_chart_def\<close>)
    then show ?thesis using False sound_doc_append [OF remark]
      by (auto simp: render_paired_lines_def Let_def simp del: append.simps)
  qed
qed

lemma sound_graphs:
  "\<exists>d. render_graphs metrics (side_revision xs) (side_revision ys) = Inr d \<and> sound_doc d"
proof -
  have "\<exists>d. render_delivery_graphs metrics = Inr d \<and> sound_doc d"
  proof -
    obtain d1 where d1: "render_paired_lines metrics ''Receiver delivery throughput'' ''deliveries/s'' 0
       (from_results delivery_rate) = Inr d1" "sound_doc d1"
      using sound_paired_lines [of "''Receiver delivery throughput''" "''deliveries/s''"] by (simp, blast)
    obtain d2 where d2: "render_paired_lines metrics ''Receiver-observed RTP payload'' ''RTP payload kbit/s'' 0
       (from_results (\<lambda>r. delivered_payload_bits_per_second r div 1000)) = Inr d2" "sound_doc d2"
      using sound_paired_lines [of "''Receiver-observed RTP payload''" "''RTP payload kbit/s''"] by (simp, blast)
    show ?thesis unfolding render_delivery_graphs_def d1(1) d2(1) bind_ok_simps
      using sound_doc_append [OF d1(2) d2(2)] by blast
  qed
  then obtain delivery where d: "render_delivery_graphs metrics = Inr delivery" "sound_doc delivery" by blast
  have "\<exists>d. render_system_graphs metrics = Inr d \<and> sound_doc d"
  proof -
    have g: "\<exists>d. render_paired_lines metrics title y_axis minimum values_of = Inr d \<and> sound_doc d"
      if "one_line title \<and> one_line y_axis" for title y_axis minimum values_of
      using that sound_paired_lines by blast
    have bind: "\<exists>d. bind_ok x f = Inr d \<and> sound_doc d"
      if "\<exists>d. x = Inr d \<and> sound_doc d" "\<And>d. sound_doc d \<Longrightarrow> \<exists>e. f d = Inr e \<and> sound_doc e"
      for x :: "doc result" and f using that by auto
    show ?thesis unfolding render_system_graphs_def
      by (intro bind g) (simp_all add: doc_intros)
  qed
  then obtain system where s: "render_system_graphs metrics = Inr system" "sound_doc system" by blast
  show ?thesis unfolding render_graphs_def d(1) s(1) bind_ok_simps
    by (intro exI conjI, rule refl, intro doc_intros d(2) s(2)) (simp_all add: short_revision_line)
qed

lemma pairs_sound: "\<exists>d. render_pairs pairs (side_revision xs) (side_revision ys) = Inr d \<and> sound_doc d"
proof (cases "pairs = []")
  case True
  then show ?thesis by (simp add: render_pairs_def doc_intros)
next
  case False
  obtain m where m: "render_media_profile = Inr m" "sound_doc m" using media_profile_sound by blast
  obtain g where g: "render_graphs (map pair_metrics_of pairs) (side_revision xs) (side_revision ys) = Inr g" "sound_doc g"
    using sound_graphs by blast
  show ?thesis using False unfolding render_pairs_def Let_def m(1) g(1) bind_ok_simps
    by (auto intro!: doc_intros m(2) g(2) sound_identity sound_legend sound_exact_delivery sound_delta_tables)
qed

section \<open>Whole comparisons\<close>

definition comparison_doc :: "comparison_side \<Rightarrow> comparison_side \<Rightarrow> string option \<Rightarrow> doc \<Rightarrow> doc" where
  "comparison_doc baseline comparison link sections =
     paragraph_of ''# o-sfu revision comparison''
     @ render_comparison_status baseline comparison (judge_comparison baseline comparison) link
     @ render_issues baseline comparison (side_revision (cs_runs baseline)) (side_revision (cs_runs comparison))
         (pair_runs (cs_runs baseline) (cs_runs comparison)) @ sections"

lemma comparison_lines:
  assumes "render_comparison load bs cs link = Inr t"
  shows "\<exists>sections. lines_of t = comparison_doc (load_side load bs) (load_side load cs) link sections \<and>
    tables_sound (lines_of t) \<and> length t \<le> GITHUB_SUMMARY_LIMIT_BYTES \<and>
    render_pairs (rp_pairs (pair_runs (cs_runs (load_side load bs)) (cs_runs (load_side load cs))))
      (side_revision (cs_runs (load_side load bs))) (side_revision (cs_runs (load_side load cs))) = Inr sections"
proof -
  let ?b = "load_side load bs" and ?c = "load_side load cs"
  have link: "validate_artifact_url link = Inr ()" and r: "render_sides ?b ?c link = Inr t"
    using assms by (auto simp: render_comparison_def checked_iff)
  obtain sections where s: "render_pairs (rp_pairs (pair_runs (cs_runs ?b) (cs_runs ?c)))
      (side_revision (cs_runs ?b)) (side_revision (cs_runs ?c)) = Inr sections" "sound_doc sections"
    using pairs_sound by blast
  have t: "t = text_of (comparison_doc ?b ?c link sections)" "length t \<le> GITHUB_SUMMARY_LIMIT_BYTES"
    using r s(1) by (auto simp: render_sides_def Let_def checked_iff ensure_summary_size_def comparison_doc_def)
  have "sound_doc (comparison_doc ?b ?c link sections)"
    unfolding comparison_doc_def
    by (intro doc_intros s(2) sound_comparison_issues sound_comparison_status [OF link]) simp_all
  then show ?thesis using t s(1) sound_text by (auto simp: lines_of_doc sound_doc_def)
qed

text \<open>
  the tables of a comparison are sound. Whatever the result files, their revisions, profiles, telemetry
  errors and paths contain, every table row of the rendered text has as many cell separators as the row
  before it, and the text fits into the summary.
\<close>

theorem comparison_tables_sound:
  assumes "render_comparison load bs cs link = Inr t"
  shows "tables_sound (lines_of t) \<and> length t \<le> GITHUB_SUMMARY_LIMIT_BYTES"
  using comparison_lines [OF assms] by blast

text \<open>
  a comparison fails only for its arguments: a side without inputs, a side with more than 256, a link that
  is not accepted, or a text beyond the size limit. Results that cannot be read, paired or compared are
  reported in the text instead.
\<close>

theorem comparison_fails_only:
  assumes "render_comparison load bs cs link = Inl e"
  shows "bs = [] \<or> cs = [] \<or> MAX_INPUTS < length bs \<or> MAX_INPUTS < length cs \<or> validate_artifact_url link = Inl e \<or>
    e = Anyhow [''report exceeds GitHub's one MiB job-summary limit'']"
proof -
  let ?b = "load_side load bs" and ?c = "load_side load cs"
  obtain sections where "render_pairs (rp_pairs (pair_runs (cs_runs ?b) (cs_runs ?c)))
      (side_revision (cs_runs ?b)) (side_revision (cs_runs ?c)) = Inr sections"
    using pairs_sound by blast
  then show ?thesis using assms
    by (auto simp: render_comparison_def render_sides_def Let_def ensure_def err_def bind_ok_def ensure_summary_size_def
        split: if_splits sum.splits)
qed

lemma side_failures: "cs_failures (load_side load inputs) = [] \<longleftrightarrow> list_all (\<lambda>i. is_ok (load i)) inputs"
proof -
  have "snd (load_inputs load inputs) = [] \<longleftrightarrow> list_all (\<lambda>i. is_ok (load i)) inputs"
    by (induction inputs) (auto simp: is_ok_iff split: sum.splits prod.splits)
  moreover have "mset (cs_failures (load_side load inputs)) = mset (snd (load_inputs load inputs))"
    by (simp add: load_side_def split: prod.split)
  ultimately show ?thesis by (metis mset_zero_iff)
qed

text \<open>The runs an input list loads.\<close>

definition loaded_runs :: "(fs_path \<Rightarrow> run_data result) \<Rightarrow> fs_path list \<Rightarrow> run_data list" where
  "loaded_runs load inputs = List.map_filter (\<lambda>i. case load i of Inl e \<Rightarrow> None | Inr run \<Rightarrow> Some run) inputs"

lemma side_runs: "mset (cs_runs (load_side load inputs)) = mset (loaded_runs load inputs)"
proof -
  have "fst (load_inputs load inputs) = loaded_runs load inputs"
    by (induction inputs) (auto simp: loaded_runs_def List.map_filter_def split: sum.splits prod.splits)
  then show ?thesis by (auto simp: load_side_def split: prod.split)
qed

lemma exact_inputs:
  assumes "bs \<noteq> []"
  shows "cv_exact (judge_comparison (load_side load bs) (load_side load cs)) \<longleftrightarrow>
    list_all (\<lambda>i. is_ok (load i)) (bs @ cs) \<and> same_specs (loaded_runs load bs) (loaded_runs load cs) \<and>
    list_all run_passed (loaded_runs load bs @ loaded_runs load cs)"
proof -
  let ?b = "load_side load bs" and ?c = "load_side load cs"
  have b: "mset (cs_runs ?b) = mset (loaded_runs load bs)" and c: "mset (cs_runs ?c) = mset (loaded_runs load cs)"
    by (rule side_runs)+
  have specs: "same_specs (cs_runs ?b) (cs_runs ?c) = same_specs (loaded_runs load bs) (loaded_runs load cs)"
    using mset_eq_imp_distinct_iff [of "map run_spec (cs_runs ?b)" "map run_spec (loaded_runs load bs)"] b c
    by (simp add: same_specs_def)
  have passed: "list_all run_passed (cs_runs ?b @ cs_runs ?c) = list_all run_passed (loaded_runs load bs @ loaded_runs load cs)"
    using mset_eq_setD [OF b] mset_eq_setD [OF c] by (simp add: list_all_iff)
  have some: "list_all (\<lambda>i. is_ok (load i)) bs \<Longrightarrow> cs_runs ?b \<noteq> []"
  proof -
    assume ok: "list_all (\<lambda>i. is_ok (load i)) bs"
    then have "loaded_runs load bs \<noteq> []"
      using assms by (cases bs) (auto simp: loaded_runs_def List.map_filter_def is_ok_iff)
    then show "cs_runs ?b \<noteq> []" using b by auto
  qed
  show ?thesis unfolding exact_iff side_failures specs passed using some by auto
qed

text \<open>
  C26: the verdict of a rendered comparison is the verdict on its inputs. The status row opens with PASS exactly
  when every input of both sides loads, no scenario occurs twice on a side, both sides ran the same
  scenarios, and every run passes its own validation.
\<close>

theorem comparison_verdict_shown:
  assumes "render_comparison load bs cs link = Inr t"
  shows "starts_with ''| PASS |'' (lines_of t ! 4) \<longleftrightarrow>
    list_all (\<lambda>i. is_ok (load i)) (bs @ cs) \<and> distinct (map run_spec (loaded_runs load bs)) \<and>
    mset (map run_spec (loaded_runs load bs)) = mset (map run_spec (loaded_runs load cs)) \<and>
    list_all run_passed (loaded_runs load bs @ loaded_runs load cs)"
proof -
  let ?verdict = "judge_comparison (load_side load bs) (load_side load cs)"
  have bs: "bs \<noteq> []" using assms by (auto simp: render_comparison_def checked_iff)
  have "lines_of t ! 4 = table_row (comparison_status_row (load_side load bs) (load_side load cs) ?verdict)"
    using comparison_lines [OF assms]
    by (auto simp: comparison_doc_def paragraph_of_def render_comparison_status_def md_table_def)
  then have "starts_with ''| PASS |'' (lines_of t ! 4) \<longleftrightarrow> cv_exact ?verdict"
    by (simp add: comparison_status_row_def table_row_def pass_fail_def starts_with_def)
  then show ?thesis unfolding exact_inputs [OF bs] same_specs_def by blast
qed

section \<open>Every input is accounted for\<close>

lemma pair_or_issue:
  assumes "run \<in> set xs" "run_spec run = spec"
  shows "(\<exists>pair \<in> set (fst (pair_spec xs ys spec)). pr_baseline pair = run) \<or>
    (\<exists>reason. scenario_label spec @ reason \<in> set (snd (pair_spec xs ys spec)))"
    "(\<exists>pair \<in> set (fst (pair_spec ys xs spec)). pr_comparison pair = run) \<or>
    (\<exists>reason. scenario_label spec @ reason \<in> set (snd (pair_spec ys xs spec)))"
proof -
  have r: "run \<in> set (filter (\<lambda>run. run_spec run = spec) xs)" using assms by simp
  then show "(\<exists>pair \<in> set (fst (pair_spec xs ys spec)). pr_baseline pair = run) \<or>
    (\<exists>reason. scenario_label spec @ reason \<in> set (snd (pair_spec xs ys spec)))"
    "(\<exists>pair \<in> set (fst (pair_spec ys xs spec)). pr_comparison pair = run) \<or>
    (\<exists>reason. scenario_label spec @ reason \<in> set (snd (pair_spec ys xs spec)))"
    unfolding pair_spec_def Let_def by (auto split: list.splits simp del: set_filter)
qed

lemma paired_or_issue:
  assumes "run \<in> set xs"
  shows "(\<exists>pair \<in> set (rp_pairs (pair_runs xs ys)). pr_baseline pair = run) \<or>
    (\<exists>reason. scenario_label (run_spec run) @ reason \<in> set (rp_issues (pair_runs xs ys)))"
    "(\<exists>pair \<in> set (rp_pairs (pair_runs ys xs)). pr_comparison pair = run) \<or>
    (\<exists>reason. scenario_label (run_spec run) @ reason \<in> set (rp_issues (pair_runs ys xs)))"
proof -
  have "run_spec run \<in> set (paired_specs xs ys)" "run_spec run \<in> set (paired_specs ys xs)"
    using assms by (auto simp: paired_specs_set)
  then show "(\<exists>pair \<in> set (rp_pairs (pair_runs xs ys)). pr_baseline pair = run) \<or>
    (\<exists>reason. scenario_label (run_spec run) @ reason \<in> set (rp_issues (pair_runs xs ys)))"
    "(\<exists>pair \<in> set (rp_pairs (pair_runs ys xs)). pr_comparison pair = run) \<or>
    (\<exists>reason. scenario_label (run_spec run) @ reason \<in> set (rp_issues (pair_runs ys xs)))"
    using pair_or_issue [OF assms refl, of ys] unfolding pair_runs_def Let_def by (simp; blast)+
qed

lemma loaded_side:
  assumes "i \<in> set inputs"
  shows "(case load i of
      Inl e \<Rightarrow> \<lparr>lf_source = show_path i, lf_error = show_error e\<rparr> \<in> set (cs_failures (load_side load inputs))
    | Inr run \<Rightarrow> run \<in> set (cs_runs (load_side load inputs)))"
  using loaded [OF assms, of load] by (auto simp: load_side_def split: sum.splits prod.splits)

lemma issues_shown:
  "f \<in> set (cs_failures b) \<Longrightarrow> failure_line ''Baseline'' f \<in> set (comparison_doc b c link sections)"
  "f \<in> set (cs_failures c) \<Longrightarrow> failure_line ''Comparison'' f \<in> set (comparison_doc b c link sections)"
  "x \<in> set (rp_issues (pair_runs (cs_runs b) (cs_runs c))) \<Longrightarrow> issue_line x \<in> set (comparison_doc b c link sections)"
proof -
  let ?issues = "render_issues b c (side_revision (cs_runs b)) (side_revision (cs_runs c)) (pair_runs (cs_runs b) (cs_runs c))"
  have "set ?issues \<subseteq> set (comparison_doc b c link sections)" by (auto simp: comparison_doc_def)
  moreover have "f \<in> set (cs_failures b) \<Longrightarrow> failure_line ''Baseline'' f \<in> set ?issues"
    "f \<in> set (cs_failures c) \<Longrightarrow> failure_line ''Comparison'' f \<in> set ?issues"
    "x \<in> set (rp_issues (pair_runs (cs_runs b) (cs_runs c))) \<Longrightarrow> issue_line x \<in> set ?issues"
    by (auto simp: render_issues_def Let_def)
  ultimately show
    "f \<in> set (cs_failures b) \<Longrightarrow> failure_line ''Baseline'' f \<in> set (comparison_doc b c link sections)"
    "f \<in> set (cs_failures c) \<Longrightarrow> failure_line ''Comparison'' f \<in> set (comparison_doc b c link sections)"
    "x \<in> set (rp_issues (pair_runs (cs_runs b) (cs_runs c))) \<Longrightarrow> issue_line x \<in> set (comparison_doc b c link sections)"
    by blast+
qed

lemma rows_shown:
  assumes "render_pairs pairs rb rc = Inr sections" "pair \<in> set pairs"
  shows "table_row (render_exact_row ''Baseline'' (pr_baseline pair)) \<in> set sections \<and>
    table_row (render_exact_row ''Comparison'' (pr_comparison pair)) \<in> set sections"
proof -
  have "set (render_exact_delivery pairs) \<subseteq> set sections"
    using assms by (auto simp: render_pairs_def Let_def checked_iff split: if_splits)
  moreover have "table_row (render_exact_row ''Baseline'' (pr_baseline pair)) \<in> set (render_exact_delivery pairs)"
    "table_row (render_exact_row ''Comparison'' (pr_comparison pair)) \<in> set (render_exact_delivery pairs)"
    using assms(2) by (auto simp: render_exact_delivery_def md_table_def image_iff intro!: bexI [of _ pair])
  ultimately show ?thesis by blast
qed

text \<open>What the text says of one input: its failure, its row of exact counts, or an issue with its scenario.\<close>

definition accounted :: "doc \<Rightarrow> string \<Rightarrow> (fs_path \<Rightarrow> run_data result) \<Rightarrow> fs_path \<Rightarrow> bool" where
  "accounted d role load i \<longleftrightarrow>
     (case load i of
        Inl e \<Rightarrow> failure_line role \<lparr>lf_source = show_path i, lf_error = show_error e\<rparr> \<in> set d
      | Inr run \<Rightarrow> table_row (render_exact_row role run) \<in> set d \<or>
          (\<exists>reason. issue_line (scenario_label (run_spec run) @ reason) \<in> set d))"

text \<open>
  C27: no input disappears from a comparison. An input that cannot be read is an issue line with its path and
  error; a loaded run either stands in the exact-delivery table of its side, or an issue names its scenario.
\<close>

theorem comparison_accounts:
  assumes "render_comparison load bs cs link = Inr t"
  shows "list_all (accounted (lines_of t) ''Baseline'' load) bs \<and> list_all (accounted (lines_of t) ''Comparison'' load) cs"
proof -
  let ?b = "load_side load bs" and ?c = "load_side load cs"
  let ?pairing = "pair_runs (cs_runs ?b) (cs_runs ?c)"
  obtain sections where l: "lines_of t = comparison_doc ?b ?c link sections"
    "render_pairs (rp_pairs ?pairing) (side_revision (cs_runs ?b)) (side_revision (cs_runs ?c)) = Inr sections"
    using comparison_lines [OF assms] by blast
  have shown: "set sections \<subseteq> set (lines_of t)" unfolding l(1) comparison_doc_def by auto
  have failed: "f \<in> set (cs_failures ?b) \<Longrightarrow> failure_line ''Baseline'' f \<in> set (lines_of t)"
    "f \<in> set (cs_failures ?c) \<Longrightarrow> failure_line ''Comparison'' f \<in> set (lines_of t)"
    "x \<in> set (rp_issues ?pairing) \<Longrightarrow> issue_line x \<in> set (lines_of t)" for f x
    unfolding l(1) by (rule issues_shown; assumption)+
  note rows = rows_shown [OF l(2)]
  have "accounted (lines_of t) ''Baseline'' load i" if i: "i \<in> set bs" for i
  proof (cases "load i")
    case (Inl e)
    then show ?thesis using loaded_side [OF i, of load] failed(1) by (simp add: accounted_def)
  next
    case (Inr run)
    then have "run \<in> set (cs_runs ?b)" using loaded_side [OF i, of load] by simp
    from paired_or_issue(1) [OF this, of "cs_runs ?c"] show ?thesis
    proof
      assume "\<exists>pair \<in> set (rp_pairs ?pairing). pr_baseline pair = run"
      then show ?thesis using rows shown Inr unfolding accounted_def by auto
    next
      assume "\<exists>reason. scenario_label (run_spec run) @ reason \<in> set (rp_issues ?pairing)"
      then show ?thesis using failed(3) Inr unfolding accounted_def by auto
    qed
  qed
  moreover have "accounted (lines_of t) ''Comparison'' load i" if i: "i \<in> set cs" for i
  proof (cases "load i")
    case (Inl e)
    then show ?thesis using loaded_side [OF i, of load] failed(2) by (simp add: accounted_def)
  next
    case (Inr run)
    then have "run \<in> set (cs_runs ?c)" using loaded_side [OF i, of load] by simp
    from paired_or_issue(2) [OF this, of "cs_runs ?b"] show ?thesis
    proof
      assume "\<exists>pair \<in> set (rp_pairs ?pairing). pr_comparison pair = run"
      then show ?thesis using rows shown Inr unfolding accounted_def by auto
    next
      assume "\<exists>reason. scenario_label (run_spec run) @ reason \<in> set (rp_issues ?pairing)"
      then show ?thesis using failed(3) Inr unfolding accounted_def by auto
    qed
  qed
  ultimately show ?thesis by (simp add: list_all_iff)
qed

section \<open>Examples\<close>

definition unread_path :: fs_path where "unread_path = \<lparr>rooted = False, components = [''a|b'']\<rparr>"

definition unread :: "fs_path \<Rightarrow> run_data result" where "unread p = err ''| not JSON''"

definition unread_comparison :: doc where
  "unread_comparison =
     paragraph_of ''# o-sfu revision comparison''
     @ md_table [''Exact work'', ''Workloads'', ''Revisions'', ''Performance samples'', ''Scenarios'', ''Failed inputs'',
         ''Baseline revision'', ''Comparison revision'']
       [''---'', ''---'', ''---'', ''---'', ''---:'', ''---:'', ''---'', ''---'']
       [[''FAIL'', ''MISMATCH'', ''INVALID'', ''INVALID'', ''0'', ''2'', ''n/a'', ''n/a'']]
     @ paragraph_of (''Every delta is comparison minus baseline. CPU time covers setup, warmup, measured work and drain.'')
     @ paragraph_of (''Both revisions use the same hosted runner and CPU affinity. Timing and resource deltas remain ''
         @ ''trend evidence until a dedicated runner provides a controlled testbed.'')
     @ paragraph_of ''## Comparison issues''
     @ [''- Baseline input `a&#124;b`: &#124; not JSON'', ''- Comparison input `a&#124;b`: &#124; not JSON'',
        ''- Baseline results do not contain one full revision SHA.'',
        ''- Comparison results do not contain one full revision SHA.'', []]
     @ paragraph_of ''No scenario pair was available for comparison.''"

lemma unread_values: "show_nat 0 = ''0''" "show_nat (Suc (Suc 0)) = ''2''" "show_path unread_path = ''a|b''"
  "escape_table ''a|b'' = ''a&#124;b''" "escape_table ''| not JSON'' = ''&#124; not JSON''" "escape_table ''n/a'' = ''n/a''"
  by (simp add: show_nat.simps digit_char_def char_of_def bit_Suc_0_iff, code_simp+)

lemma unread_size: "length (text_of unread_comparison) \<le> 1024 * 1024"
  by (simp add: unread_comparison_def text_of_def paragraph_of_def md_table_def table_row_def)

lemma unread_rendered: "render_comparison unread [unread_path] [unread_path] None = Inr (text_of unread_comparison)"
proof -
  let ?f = "\<lparr>lf_source = ''a|b'', lf_error = ''| not JSON''\<rparr>"
  let ?side = "\<lparr>cs_runs = [], cs_failures = [?f]\<rparr>"
  have side: "load_side unread [unread_path] = ?side"
    by (simp add: load_side_def unread_def err_def unread_values)
  have none: "side_revision [] = \<lparr>rv_label = ''n/a'', rv_valid = False\<rparr>" "pair_runs [] [] = \<lparr>rp_pairs = [], rp_issues = []\<rparr>"
    by (simp_all add: side_revision_def revision_set_def pair_runs_def paired_specs_def Let_def)
  have size: "ensure_summary_size (text_of unread_comparison) = Inr ()"
    using unread_size by (simp add: ensure_summary_size_def GITHUB_SUMMARY_LIMIT_BYTES_def ensure_def)
  have "comparison_doc ?side ?side None (paragraph_of ''No scenario pair was available for comparison.'') = unread_comparison"
    by (simp add: comparison_doc_def render_comparison_status_def comparison_status_row_def judge_comparison_def none
        render_issues_def revision_lines_def failure_line_def unread_values unread_comparison_def paragraph_of_def
        pass_fail_def Let_def)
  then show ?thesis using size
    by (simp add: render_comparison_def render_sides_def comparison_doc_def Let_def side none render_pairs_def
        validate_artifact_url_def MAX_INPUTS_def)
qed

theorem comparison_tables_sound_witness: "tables_sound (lines_of (text_of unread_comparison))"
  using comparison_tables_sound [OF unread_rendered] by simp

theorem comparison_fails_only_witness:
  "\<exists>e. render_comparison unread [] [unread_path] None = Inl e \<and> e = Anyhow [''baseline inputs are required'']"
proof -
  have r: "render_comparison unread [] [unread_path] None = Inl (Anyhow [''baseline inputs are required''])"
    by (simp add: render_comparison_def err_def)
  show ?thesis using comparison_fails_only [OF r] r by auto
qed

theorem comparison_verdict_shown_witness: "\<not> starts_with ''| PASS |'' (lines_of (text_of unread_comparison) ! 4)"
  using comparison_verdict_shown [OF unread_rendered] by (simp add: unread_def err_def is_ok_iff)

theorem comparison_accounts_witness:
  "''- Baseline input `a&#124;b`: &#124; not JSON'' \<in> set (lines_of (text_of unread_comparison))"
  using comparison_accounts [OF unread_rendered]
  by (simp add: accounted_def unread_def err_def failure_line_def unread_values)

end
