(* ===== verification/RtcPeer.thy ===== *)
theory RtcPeer
  imports Scenario
begin

text \<open>
  The RTC peer of \<open>src/client/rtc.rs\<close>: the driver around the sans-IO engine of the \<open>str0m\<close> crate. The engine, the
  socket and the clock answer as functions of the log of what was done and answered so far; the driver's own
  state is a record that every operation returns updated. The loops may run for ever when the engine or the
  clock stands still, so an operation may have no value.
\<close>

section \<open>Loops\<close>

text \<open>A loop whose body says whether to go on, with a new state, or to stop, with a result.\<close>

partial_function (option) loop_run :: "('s \<Rightarrow> ('e, 's + 'a) run) \<Rightarrow> 's \<Rightarrow> ('e, 'a) run" where
  "loop_run body s h =
     (case body s h of
        None \<Rightarrow> None
      | Some (Inl e, h') \<Rightarrow> Some (Inl e, h')
      | Some (Inr (Inl s'), h') \<Rightarrow> loop_run body s' h'
      | Some (Inr (Inr x), h') \<Rightarrow> Some (Inr x, h'))"

definition return_run :: "'a \<Rightarrow> ('e, 'a) run" where
  "return_run x = (\<lambda>h. Some (Inr x, h))"

definition result_run :: "'a result \<Rightarrow> ('e, 'a) run" where
  "result_run r = (\<lambda>h. Some (r, h))"

definition ensure_run :: "bool \<Rightarrow> string \<Rightarrow> ('e, 'a) run \<Rightarrow> ('e, 'a) run" where
  "ensure_run c msg m = (if c then m else result_run (err msg))"

text \<open>An action of the world, with an entry of the log that holds its answer.\<close>

definition logged :: "('e list \<Rightarrow> 'a result) \<Rightarrow> ('a \<Rightarrow> 'e) \<Rightarrow> ('e, 'a) run" where
  "logged reply entry = (\<lambda>h. case reply h of Inl e \<Rightarrow> Some (Inl e, h) | Inr x \<Rightarrow> Some (Inr x, h @ [entry x]))"

section \<open>The engine and its world\<close>

definition RECEIVE_BUFFER_LEN :: nat where "RECEIVE_BUFFER_LEN = 2000"
definition AUDIO_SSRC :: u32 where "AUDIO_SSRC = 0x0f000001"
definition VIDEO_LOW_SSRC :: u32 where "VIDEO_LOW_SSRC = 0x0f000002"
definition VIDEO_HIGH_SSRC :: u32 where "VIDEO_HIGH_SSRC = 0x0f000003"

datatype media_kind = AudioKind | VideoKind
datatype rtp_codec = OpusCodec | Vp8Codec

text \<open>The events the driver distinguishes; a direction is whether it sends.\<close>

datatype engine_event =
    EngineConnected
  | EngineDisconnected
  | MediaAdded string media_kind bool
  | MediaChanged string bool
  | RtpArrived bytes
  | OtherEvent

datatype engine_output = Transmit bytes string | EngineOutput engine_event | TimeoutAt instant

record rtp_write =
  wr_mid :: string
  wr_rid :: "string option"
  wr_payload_type :: u8
  wr_sequence :: u64
  wr_timestamp :: u32
  wr_wallclock :: instant
  wr_marker :: bool
  wr_extensions :: extension_values
  wr_extension_mid :: "string option"
  wr_extension_rid :: "string option"
  wr_payload :: bytes

datatype rtc_entry =
    ClockSeen instant
  | Polled engine_output
  | DatagramSent bytes string
  | TimeoutHandled instant
  | DatagramHandled bytes string
  | SocketWaited duration
  | SocketTried
  | StreamDeclared u32 string "string option"
  | RtpWritten rtp_write
  | OfferAccepted string
  | SocketBound
  | EngineBuilt

text \<open>
  What the engine, the socket and the clock answer. \<open>rw_receive\<close> is \<open>None\<close> when the wait elapsed, \<open>rw_try_receive\<close>
  holds \<open>None\<close> when no datagram waits; \<open>rw_parses\<close> is the conversion of a datagram to the engine's contents.
\<close>

record rtc_world =
  rw_poll :: "rtc_entry list \<Rightarrow> engine_output result"
  rw_send :: "rtc_entry list \<Rightarrow> bytes \<Rightarrow> string \<Rightarrow> unit result"
  rw_handle :: "rtc_entry list \<Rightarrow> rtc_entry \<Rightarrow> unit result"
  rw_clock :: "rtc_entry list \<Rightarrow> instant"
  rw_kind :: "rtc_entry list \<Rightarrow> string \<Rightarrow> media_kind option"
  rw_codec :: "rtc_entry list \<Rightarrow> rtp_codec \<Rightarrow> u8 option"
  rw_stream :: "rtc_entry list \<Rightarrow> string \<Rightarrow> string option \<Rightarrow> bool"
  rw_receive :: "rtc_entry list \<Rightarrow> duration \<Rightarrow> (bytes \<times> string) result option"
  rw_try_receive :: "rtc_entry list \<Rightarrow> (bytes \<times> string) option result"
  rw_mid :: "string \<Rightarrow> string"
  rw_parses :: "bytes \<Rightarrow> bool"
  rw_offer :: "string \<Rightarrow> unit result"
  rw_accept :: "rtc_entry list \<Rightarrow> string \<Rightarrow> string result"
  rw_bind :: "unit result"
  rw_local_addr :: "string result"
  rw_candidate :: "string \<Rightarrow> unit result"
  rw_adds_candidate :: "string \<Rightarrow> bool"

record simulcast_encoding =
  se_rid :: string
  se_max_bitrate :: "u64 option"

text \<open>The fields of \<open>NegotiationUploadSlot\<close> the code reads.\<close>

record upload_slot =
  us_kind :: media_kind
  us_codecs :: "string list"
  us_mid :: string
  us_encodings :: "simulcast_encoding list"

record declared_streams =
  ds_audio :: bool
  ds_video_low :: bool
  ds_video_high :: bool

record rtc_peer =
  rp_connected :: bool
  rp_audio_send_mid :: "string option"
  rp_video_upload_slot :: "upload_slot option"
  rp_declared :: declared_streams
  rp_pending :: "bytes list"
  rp_next_timeout :: instant
  rp_send_origin :: "instant option"

type_synonym 'a rtc_op = "rtc_peer \<Rightarrow> (rtc_entry, 'a \<times> rtc_peer) run"

definition clock_read :: "rtc_world \<Rightarrow> (rtc_entry, instant) run" where
  "clock_read w = logged (\<lambda>h. Inr (rw_clock w h)) ClockSeen"

section \<open>Draining the engine\<close>

definition set_audio :: "bool \<Rightarrow> rtc_peer \<Rightarrow> rtc_peer" where
  "set_audio b p = p\<lparr>rp_declared := (rp_declared p)\<lparr>ds_audio := b\<rparr>\<rparr>"

definition observe_audio_direction :: "string \<Rightarrow> media_kind \<Rightarrow> bool \<Rightarrow> rtc_peer \<Rightarrow> rtc_peer" where
  "observe_audio_direction mid kind sending p =
     (if kind \<noteq> AudioKind then p
      else if sending then
        (if rp_audio_send_mid p \<noteq> Some mid then set_audio False p else p)\<lparr>rp_audio_send_mid := Some mid\<rparr>
      else if rp_audio_send_mid p = Some mid then set_audio False (p\<lparr>rp_audio_send_mid := None\<rparr>)
      else p)"

fun observe_event :: "rtc_world \<Rightarrow> rtc_entry list \<Rightarrow> engine_event \<Rightarrow> rtc_peer \<Rightarrow> rtc_peer result" where
  "observe_event w h EngineConnected p = Inr (p\<lparr>rp_connected := True\<rparr>)"
| "observe_event w h EngineDisconnected p = err ''RTC connection disconnected''"
| "observe_event w h (MediaAdded mid kind sending) p = Inr (observe_audio_direction mid kind sending p)"
| "observe_event w h (MediaChanged mid sending) p =
     Inr (case rw_kind w h mid of None \<Rightarrow> p | Some kind \<Rightarrow> observe_audio_direction mid kind sending p)"
| "observe_event w h (RtpArrived payload) p = Inr (p\<lparr>rp_pending := rp_pending p @ [payload]\<rparr>)"
| "observe_event w h OtherEvent p = Inr p"

definition drain_step :: "rtc_world \<Rightarrow> rtc_peer \<Rightarrow> (rtc_entry, rtc_peer + rtc_peer) run" where
  "drain_step w p =
     bind_run (logged (\<lambda>h. with_context ''failed to drain RTC output'' (rw_poll w h)) Polled) (\<lambda>polled.
     case polled of
       Transmit contents destination \<Rightarrow>
         bind_run (logged (\<lambda>h. with_context ''failed to send an RTC datagram'' (rw_send w h contents destination))
           (\<lambda>_. DatagramSent contents destination)) (\<lambda>_. return_run (Inl p))
     | EngineOutput event \<Rightarrow> (\<lambda>h. bind_run (result_run (observe_event w h event p)) (\<lambda>p'. return_run (Inl p')) h)
     | TimeoutAt timeout_at \<Rightarrow> return_run (Inr (p\<lparr>rp_next_timeout := timeout_at\<rparr>)))"

definition drain_output :: "rtc_world \<Rightarrow> rtc_peer \<Rightarrow> (rtc_entry, rtc_peer) run" where
  "drain_output w = loop_run (drain_step w)"

definition handle_timeout :: "rtc_world \<Rightarrow> string \<Rightarrow> instant \<Rightarrow> rtc_peer \<Rightarrow> (rtc_entry, rtc_peer) run" where
  "handle_timeout w msg at p =
     bind_run (logged (\<lambda>h. with_context msg (rw_handle w h (TimeoutHandled at))) (\<lambda>_. TimeoutHandled at)) (\<lambda>_. drain_output w p)"

definition due_step :: "rtc_world \<Rightarrow> rtc_peer \<Rightarrow> (rtc_entry, rtc_peer + rtc_peer) run" where
  "due_step w p =
     bind_run (clock_read w) (\<lambda>t.
     if rp_next_timeout p \<le> t then
       bind_run (clock_read w) (\<lambda>at. bind_run (handle_timeout w ''failed to apply a due RTC timeout'' at p) (\<lambda>p'.
       return_run (Inl p')))
     else return_run (Inr p))"

definition apply_due_timeouts :: "rtc_world \<Rightarrow> rtc_peer \<Rightarrow> (rtc_entry, rtc_peer) run" where
  "apply_due_timeouts w = loop_run (due_step w)"

section \<open>Receiving\<close>

definition apply_datagram :: "rtc_world \<Rightarrow> bytes \<Rightarrow> string \<Rightarrow> rtc_peer \<Rightarrow> (rtc_entry, rtc_peer) run" where
  "apply_datagram w packet source p =
     ensure_run (length packet \<le> RECEIVE_BUFFER_LEN) ''RTC datagram exceeded its receive buffer'' (
     ensure_run (rw_parses w packet) ''failed to borrow the RTC datagram'' (
     bind_run (clock_read w) (\<lambda>at.
     bind_run (logged (\<lambda>h. with_context ''failed to apply an RTC datagram'' (rw_handle w h (DatagramHandled packet source)))
       (\<lambda>_. DatagramHandled packet source)) (\<lambda>_. drain_output w p))))"

definition wait_for_input :: "rtc_world \<Rightarrow> instant \<Rightarrow> rtc_peer \<Rightarrow> (rtc_entry, rtc_peer) run" where
  "wait_for_input w deadline p =
     bind_run (clock_read w) (\<lambda>t.
     if deadline \<le> t then return_run p
     else if rp_next_timeout p \<le> t then handle_timeout w ''failed to apply an RTC timeout'' t p
     else
       let wait_duration = min (rp_next_timeout p) deadline - t in
       bind_run (logged (\<lambda>h. Inr (rw_receive w h wait_duration)) (\<lambda>_. SocketWaited wait_duration)) (\<lambda>received.
       case received of
         Some r \<Rightarrow>
           bind_run (result_run (with_context ''failed to receive an RTC datagram'' r)) (\<lambda>(packet, source).
           if packet \<noteq> [] then apply_datagram w packet source p else return_run p)
       | None \<Rightarrow>
           bind_run (clock_read w) (\<lambda>t.
           if rp_next_timeout p \<le> t then handle_timeout w ''failed to apply an RTC timeout'' t p
           else return_run p)))"

definition try_read_input :: "rtc_world \<Rightarrow> bool rtc_op" where
  "try_read_input w p =
     bind_run (apply_due_timeouts w p) (\<lambda>p.
     bind_run (logged (\<lambda>h. with_context ''failed to receive an RTC datagram'' (rw_try_receive w h)) (\<lambda>_. SocketTried)) (\<lambda>received.
     case received of
       Some (packet, source) \<Rightarrow>
         if packet \<noteq> [] then bind_run (apply_datagram w packet source p) (\<lambda>p. return_run (True, p))
         else return_run (True, p)
     | None \<Rightarrow> return_run (False, p)))"

definition connect_step :: "rtc_world \<Rightarrow> instant \<Rightarrow> rtc_peer \<Rightarrow> (rtc_entry, rtc_peer + rtc_peer) run" where
  "connect_step w deadline p =
     (if rp_connected p then return_run (Inr p)
      else bind_run (clock_read w) (\<lambda>t.
        if t < deadline then bind_run (wait_for_input w deadline p) (\<lambda>p. return_run (Inl p)) else return_run (Inr p)))"

definition wait_until_connected :: "rtc_world \<Rightarrow> duration \<Rightarrow> unit rtc_op" where
  "wait_until_connected w timeout_window p =
     bind_run (clock_read w) (\<lambda>t.
     bind_run (loop_run (connect_step w (t + timeout_window)) p) (\<lambda>p.
     ensure_run (rp_connected p) ''RTC connection did not become ready'' (return_run ((), p))))"

text \<open>\<open>pending_rtp.pop_front()\<close>.\<close>

definition pop_pending :: "rtc_peer \<Rightarrow> (bytes \<times> rtc_peer) option" where
  "pop_pending p = (case rp_pending p of [] \<Rightarrow> None | payload # rest \<Rightarrow> Some (payload, p\<lparr>rp_pending := rest\<rparr>))"

definition poll_payload_step :: "rtc_world \<Rightarrow> rtc_peer \<Rightarrow> (rtc_entry, rtc_peer + bytes option \<times> rtc_peer) run" where
  "poll_payload_step w p =
     bind_run (try_read_input w p) (\<lambda>(more_input, p).
     if more_input then
       (case pop_pending p of
          Some (payload, p) \<Rightarrow> return_run (Inr (Some payload, p))
        | None \<Rightarrow> return_run (Inl p))
     else return_run (Inr (None, p)))"

definition wait_payload_step ::
  "rtc_world \<Rightarrow> instant \<Rightarrow> rtc_peer \<Rightarrow> (rtc_entry, rtc_peer + bytes option \<times> rtc_peer) run" where
  "wait_payload_step w deadline p =
     bind_run (clock_read w) (\<lambda>t.
     if t < deadline then
       bind_run (wait_for_input w deadline p) (\<lambda>p.
       case pop_pending p of
         Some (payload, p) \<Rightarrow> return_run (Inr (Some payload, p))
       | None \<Rightarrow> return_run (Inl p))
     else return_run (Inr (None, p)))"

definition read_rtp_payload :: "rtc_world \<Rightarrow> duration \<Rightarrow> bytes option rtc_op" where
  "read_rtp_payload w timeout_window p =
     (case pop_pending p of
        Some (payload, p) \<Rightarrow> return_run (Some payload, p)
      | None \<Rightarrow>
          if timeout_window = 0 then loop_run (poll_payload_step w) p
          else bind_run (clock_read w) (\<lambda>t. loop_run (wait_payload_step w (t + timeout_window)) p))"


section \<open>Sending\<close>

definition reset_send_pacing :: "rtc_peer \<Rightarrow> rtc_peer" where
  "reset_send_pacing p = p\<lparr>rp_send_origin := None\<rparr>"

definition set_send_origin :: "instant \<Rightarrow> rtc_peer \<Rightarrow> rtc_peer" where
  "set_send_origin send_origin p = p\<lparr>rp_send_origin := Some send_origin\<rparr>"

text \<open>
  \<open>get_or_insert_with\<close> of the origin. Instants count from the earliest one the platform can represent, so
  \<open>checked_sub\<close> has no result below it.
\<close>

definition send_origin_of :: "rtc_world \<Rightarrow> duration \<Rightarrow> rtc_peer \<Rightarrow> (rtc_entry, instant) run" where
  "send_origin_of w emitted_at p =
     (case rp_send_origin p of
        Some send_origin \<Rightarrow> return_run send_origin
      | None \<Rightarrow>
          bind_run (clock_read w) (\<lambda>t. if emitted_at \<le> t then return_run (t - emitted_at) else clock_read w))"

definition pace_step :: "rtc_world \<Rightarrow> instant \<Rightarrow> rtc_peer \<Rightarrow> (rtc_entry, rtc_peer + rtc_peer) run" where
  "pace_step w send_at p =
     bind_run (clock_read w) (\<lambda>t.
     if t < send_at then bind_run (wait_for_input w send_at p) (\<lambda>p. return_run (Inl p)) else return_run (Inr p))"

definition pace_until :: "rtc_world \<Rightarrow> duration \<Rightarrow> instant rtc_op" where
  "pace_until w emitted_at p =
     bind_run (send_origin_of w emitted_at p) (\<lambda>send_origin.
     let send_at = send_origin + emitted_at in
     bind_run (loop_run (pace_step w send_at) (p\<lparr>rp_send_origin := Some send_origin\<rparr>)) (\<lambda>p.
     return_run (send_at, p)))"

definition declare_stream :: "u32 \<Rightarrow> string \<Rightarrow> string option \<Rightarrow> (rtc_entry, unit) run" where
  "declare_stream ssrc mid stream_rid = logged (\<lambda>h. Inr ()) (\<lambda>_. StreamDeclared ssrc mid stream_rid)"

definition write_rtp :: "rtc_world \<Rightarrow> string \<Rightarrow> rtp_write \<Rightarrow> (rtc_entry, unit) run" where
  "write_rtp w msg packet =
     logged (\<lambda>h. if rw_stream w h (wr_mid packet) (wr_rid packet) then Inr () else err msg) (\<lambda>_. RtpWritten packet)"

definition negotiated :: "'a option \<Rightarrow> string \<Rightarrow> (rtc_entry, 'a) run" where
  "negotiated x msg = result_run (ok_or msg x)"

definition ensure_audio_stream :: "rtc_world \<Rightarrow> string \<Rightarrow> rtc_peer \<Rightarrow> (rtc_entry, rtc_peer) run" where
  "ensure_audio_stream w mid p =
     (if ds_audio (rp_declared p) then return_run p
      else bind_run (declare_stream AUDIO_SSRC mid None) (\<lambda>_.
           bind_run (drain_output w p) (\<lambda>p. return_run (set_audio True p))))"

text \<open>What \<open>send_audio_packet\<close> does once the packet is due.\<close>

definition write_audio_packet :: "rtc_world \<Rightarrow> audio_packet \<Rightarrow> instant \<Rightarrow> nat rtc_op" where
  "write_audio_packet w packet packet_wallclock p =
     bind_run (negotiated (rp_audio_send_mid p) ''audio publication has no negotiated send path'') (\<lambda>mid.
     bind_run (\<lambda>h. negotiated (rw_codec w h OpusCodec) ''Opus was not negotiated'' h) (\<lambda>payload_type.
     bind_run (ensure_audio_stream w mid p) (\<lambda>p.
     let payload_len = length (ap_payload packet) in
     bind_run (write_rtp w ''failed to find the audio RTP stream''
         \<lparr>wr_mid = mid, wr_rid = None, wr_payload_type = payload_type,
          wr_sequence = ucast (ap_sequence_number packet), wr_timestamp = ap_rtp_timestamp packet,
          wr_wallclock = packet_wallclock, wr_marker = False,
          wr_extensions = ap_extension_values packet, wr_extension_mid = None, wr_extension_rid = None,
          wr_payload = ap_payload packet\<rparr>) (\<lambda>_.
     bind_run (drain_output w p) (\<lambda>p.
     bind_run (apply_due_timeouts w p) (\<lambda>p.
     return_run (payload_len, p)))))))"

definition send_audio_packet :: "rtc_world \<Rightarrow> audio_packet \<Rightarrow> nat rtc_op" where
  "send_audio_packet w packet p =
     bind_run (pace_until w (ap_emitted_at packet) p) (\<lambda>(packet_wallclock, p).
     write_audio_packet w packet packet_wallclock p)"

fun layer_declared :: "video_layer \<Rightarrow> declared_streams \<Rightarrow> bool" where
  "layer_declared Low d = ds_video_low d"
| "layer_declared High d = ds_video_high d"

fun declare_layer :: "video_layer \<Rightarrow> declared_streams \<Rightarrow> declared_streams" where
  "declare_layer Low d = d\<lparr>ds_video_low := True\<rparr>"
| "declare_layer High d = d\<lparr>ds_video_high := True\<rparr>"

fun layer_ssrc :: "video_layer \<Rightarrow> u32" where
  "layer_ssrc Low = VIDEO_LOW_SSRC"
| "layer_ssrc High = VIDEO_HIGH_SSRC"

definition ensure_video_stream :: "rtc_world \<Rightarrow> string \<Rightarrow> video_layer \<Rightarrow> rtc_peer \<Rightarrow> (rtc_entry, rtc_peer) run" where
  "ensure_video_stream w mid layer p =
     (if layer_declared layer (rp_declared p) then return_run p
      else bind_run (declare_stream (layer_ssrc layer) mid (Some (rid layer))) (\<lambda>_.
           bind_run (drain_output w p) (\<lambda>p.
           return_run (p\<lparr>rp_declared := declare_layer layer (rp_declared p)\<rparr>))))"

text \<open>\<open>Mid::from\<close> of the engine reads the identifier of the upload slot.\<close>

definition write_video_packet :: "rtc_world \<Rightarrow> video_packet \<Rightarrow> instant \<Rightarrow> nat rtc_op" where
  "write_video_packet w packet packet_wallclock p =
     bind_run (negotiated (map_option (\<lambda>slot. rw_mid w (us_mid slot)) (rp_video_upload_slot p))
         ''camera publication has no negotiated send path'') (\<lambda>mid.
     bind_run (\<lambda>h. negotiated (rw_codec w h Vp8Codec) ''VP8 was not negotiated'' h) (\<lambda>payload_type.
     bind_run (ensure_video_stream w mid (vp_layer packet) p) (\<lambda>p.
     let payload_len = length (vp_payload packet);
         layer_rid = rid (vp_layer packet) in
     bind_run (write_rtp w ''failed to find the video RTP stream''
         \<lparr>wr_mid = mid, wr_rid = Some layer_rid, wr_payload_type = payload_type,
          wr_sequence = ucast (vp_sequence_number packet), wr_timestamp = vp_rtp_timestamp packet,
          wr_wallclock = packet_wallclock, wr_marker = vp_marker packet,
          wr_extensions = vp_extension_values packet, wr_extension_mid = Some mid,
          wr_extension_rid = Some layer_rid, wr_payload = vp_payload packet\<rparr>) (\<lambda>_.
     bind_run (drain_output w p) (\<lambda>p.
     bind_run (apply_due_timeouts w p) (\<lambda>p.
     return_run (payload_len, p)))))))"

definition send_video_packet :: "rtc_world \<Rightarrow> video_packet \<Rightarrow> nat rtc_op" where
  "send_video_packet w packet p =
     bind_run (pace_until w (vp_emitted_at packet) p) (\<lambda>(packet_wallclock, p).
     write_video_packet w packet packet_wallclock p)"

section \<open>Negotiation\<close>

text \<open>\<open>str::replacen(marker, replacement, 1)\<close>.\<close>

fun replace_first :: "string \<Rightarrow> string \<Rightarrow> string \<Rightarrow> string" where
  "replace_first marker replacement [] = (if marker = [] then replacement else [])"
| "replace_first marker replacement (c # cs) =
     (if starts_with marker (c # cs) then replacement @ drop (length marker) (c # cs)
      else c # replace_first marker replacement cs)"

definition crlf :: string where "crlf = [CHR 0x0D, CHR 0x0A]"

definition mid_marker :: "upload_slot \<Rightarrow> string" where
  "mid_marker slot = ''a=mid:'' @ us_mid slot @ crlf"

definition rid_line :: "simulcast_encoding \<Rightarrow> string" where
  "rid_line encoding =
     ''a=rid:'' @ se_rid encoding @ '' send'' @
     (case se_max_bitrate encoding of None \<Rightarrow> [] | Some max_bitrate \<Rightarrow> '' max-br='' @ show_word max_bitrate) @ crlf"

definition send_rids :: "upload_slot \<Rightarrow> string" where
  "send_rids slot =
     concat (map rid_line (us_encodings slot)) @
     ''a=simulcast:send '' @ join_with '';'' (map se_rid (us_encodings slot)) @ crlf"

definition answer_with_simulcast_send_rids :: "string \<Rightarrow> upload_slot \<Rightarrow> string result" where
  "answer_with_simulcast_send_rids answer_sdp slot =
     (if us_encodings slot = [] then err ''VP8 upload slot has no simulcast encodings''
      else if \<not> contains_str (mid_marker slot) answer_sdp then err ''VP8 answer has no upload MID''
      else Inr (replace_first (mid_marker slot) (mid_marker slot @ send_rids slot) answer_sdp))"

definition vp8_slot :: "upload_slot \<Rightarrow> bool" where
  "vp8_slot slot \<longleftrightarrow> us_kind slot = VideoKind \<and> ''VP8'' \<in> set (us_codecs slot)"

definition adopt_upload_slot :: "upload_slot list \<Rightarrow> rtc_peer \<Rightarrow> rtc_peer" where
  "adopt_upload_slot upload_slots p =
     (case find vp8_slot upload_slots of
        None \<Rightarrow> p
      | Some slot \<Rightarrow>
          (case rp_video_upload_slot p of
             None \<Rightarrow> p
           | Some current \<Rightarrow>
               if us_mid current \<noteq> us_mid slot
               then p\<lparr>rp_declared := (rp_declared p)\<lparr>ds_video_low := False, ds_video_high := False\<rparr>\<rparr>
               else p)\<lparr>rp_video_upload_slot := Some slot\<rparr>)"

definition answer_offer :: "rtc_world \<Rightarrow> string \<Rightarrow> upload_slot list \<Rightarrow> string rtc_op" where
  "answer_offer w offer_sdp upload_slots p =
     bind_run (result_run (with_context ''failed to parse the SFU SDP offer'' (rw_offer w offer_sdp))) (\<lambda>_.
     let p = adopt_upload_slot upload_slots p;
         video_slot = rp_video_upload_slot p in
     bind_run (logged (\<lambda>h. with_context ''failed to accept the SFU SDP offer'' (rw_accept w h offer_sdp))
       (\<lambda>_. OfferAccepted offer_sdp)) (\<lambda>answer_sdp.
     bind_run (drain_output w p) (\<lambda>p.
     bind_run (result_run (case video_slot of
         Some slot \<Rightarrow> answer_with_simulcast_send_rids answer_sdp slot
       | None \<Rightarrow> Inr answer_sdp)) (\<lambda>answer.
     return_run (answer, p)))))"

definition bind_peer :: "rtc_world \<Rightarrow> (rtc_entry, rtc_peer) run" where
  "bind_peer w =
     bind_run (logged (\<lambda>h. with_context ''failed to bind RTC UDP socket'' (rw_bind w)) (\<lambda>_. SocketBound)) (\<lambda>_.
     bind_run (result_run (with_context ''failed to read RTC UDP socket address'' (rw_local_addr w))) (\<lambda>local_addr.
     bind_run (clock_read w) (\<lambda>t.
     bind_run (logged (\<lambda>h. Inr ()) (\<lambda>_. EngineBuilt)) (\<lambda>_.
     bind_run (result_run (with_context ''failed to build RTC host candidate'' (rw_candidate w local_addr))) (\<lambda>_.
     ensure_run (rw_adds_candidate w local_addr) ''RTC rejected its host candidate'' (
     drain_output w
       \<lparr>rp_connected = False, rp_audio_send_mid = None, rp_video_upload_slot = None,
        rp_declared = \<lparr>ds_audio = False, ds_video_low = False, ds_video_high = False\<rparr>,
        rp_pending = [], rp_next_timeout = t, rp_send_origin = None\<rparr>))))))"

end
