(* ===== verification/Protocol.thy ===== *)
theory Protocol
  imports RtcPeer
begin

text \<open>
  The peers of \<open>src/client/protocol.rs\<close>: \<open>ProtocolPeer\<close>, which carries out the commands of the signaling core of
  \<open>o_sfu_protocol\<close> while a room is joined, and \<open>LoadPeer\<close>, what is left of it during the measured phase with its
  background signaling task. The core, the WebSocket, the task and the RTC engine answer as functions of one log;
  the RTC peer of \<open>RtcPeer\<close> runs on the part of the log that is its own.
\<close>

section \<open>The core, the WebSocket and the log\<close>

text \<open>Only the initial offer is told apart from the other kinds of negotiation.\<close>

datatype negotiation_kind = InitialOffer | LaterOffer
datatype stream_type = AudioStream | CameraStream

text \<open>The \<open>DownloadStates\<close> of a subscription, the fields the code sets.\<close>

record download_states =
  dl_camera :: "bool option"
  dl_camera_layout :: "video_layout_intent option"

datatype core_call =
    CoreConnect string string "string option"
  | CoreWsOpen
  | CoreWsMessage string
  | CoreTransportReady
  | CoreTimer u32
  | CorePublish stream_type bool
  | CoreSubscribe int download_states
  | CoreAnswer string negotiation_kind string

datatype command =
    ConnectSocket string
  | SendWebSocket string
  | ClosePeerConnection
  | ApplyNegotiation string negotiation_kind string "upload_slot list"
  | ScheduleTimer u32 u32
  | CancelTimer u32
  | CloseWebSocket
  | BeginPendingRequest u32 u32
  | CompletePendingRequest u32
  | EmitStateChange
  | EmitEvent
  | SetAvailableFeatures
  | SetRecordingState

datatype ws_message = TextMessage string | PingMessage bytes | PongMessage | BinaryMessage | CloseMessage | FrameMessage

datatype ws_frame = TextFrame string | PongFrame bytes

text \<open>What the next item of the stream is: none when the peer closed it.\<close>

type_synonym ws_item = "ws_message result option"

datatype signal_entry =
    CoreCalled core_call "command list"
  | WsOpened string
  | WsSent ws_frame
  | WsReceived ws_message
  | WsClosed
  | TimerSlept duration
  | ShutdownSeen
  | TaskJoined
  | RtcEntry rtc_entry

datatype select_event = ShutdownSignalled | SocketItem ws_item

text \<open>\<open>pw_elapsed\<close> says whether the ten seconds of a wait for a signaling frame are over.\<close>

record protocol_world =
  pw_core :: "signal_entry list \<Rightarrow> core_call \<Rightarrow> command list"
  pw_connect :: "signal_entry list \<Rightarrow> string \<Rightarrow> unit result"
  pw_send :: "signal_entry list \<Rightarrow> ws_frame \<Rightarrow> unit result"
  pw_close :: "signal_entry list \<Rightarrow> unit result"
  pw_next :: "signal_entry list \<Rightarrow> ws_item"
  pw_elapsed :: "signal_entry list \<Rightarrow> bool"
  pw_select :: "signal_entry list \<Rightarrow> select_event"
  pw_task_finished :: "signal_entry list \<Rightarrow> bool"
  pw_task_result :: "signal_entry list \<Rightarrow> unit result result"
  pw_rtc :: "signal_entry list \<Rightarrow> rtc_world"

record protocol_peer =
  pp_websocket :: bool
  pp_rtc :: "rtc_peer option"
  pp_timers :: "(u32 \<times> u32) list"
  pp_negotiation_count :: nat

type_synonym 'a signal_run = "(signal_entry, 'a) run"

definition core :: "protocol_world \<Rightarrow> core_call \<Rightarrow> command list signal_run" where
  "core w call = logged (\<lambda>h. Inr (pw_core w h call)) (CoreCalled call)"

definition rtc_entries :: "signal_entry list \<Rightarrow> rtc_entry list" where
  "rtc_entries h = concat (map (\<lambda>e. case e of RtcEntry x \<Rightarrow> [x] | _ \<Rightarrow> []) h)"

definition on_rtc :: "protocol_world \<Rightarrow> (rtc_world \<Rightarrow> (rtc_entry, 'a) run) \<Rightarrow> 'a signal_run" where
  "on_rtc w m =
     (\<lambda>h. case m (pw_rtc w h) (rtc_entries h) of
            None \<Rightarrow> None
          | Some (r, log) \<Rightarrow> Some (r, h @ map RtcEntry (drop (length (rtc_entries h)) log)))"

definition websocket_missing :: string where "websocket_missing = ''protocol WebSocket is not connected''"
definition rtc_missing :: string where "rtc_missing = ''protocol RTC peer is not available''"

definition rtc_mut :: "protocol_peer \<Rightarrow> rtc_peer signal_run" where
  "rtc_mut p = result_run (ok_or rtc_missing (pp_rtc p))"

definition send_frame :: "protocol_world \<Rightarrow> string \<Rightarrow> ws_frame \<Rightarrow> unit signal_run" where
  "send_frame w msg frame = logged (\<lambda>h. with_context msg (pw_send w h frame)) (\<lambda>_. WsSent frame)"

definition close_socket :: "protocol_world \<Rightarrow> string \<Rightarrow> unit signal_run" where
  "close_socket w msg = logged (\<lambda>h. with_context msg (pw_close w h)) (\<lambda>_. WsClosed)"

section \<open>Timers\<close>

text \<open>A \<open>BTreeMap\<close> as the list of its entries in the order of the keys; \<open>min_by_key\<close> takes the first minimum.\<close>

fun insert_timer :: "u32 \<Rightarrow> u32 \<Rightarrow> (u32 \<times> u32) list \<Rightarrow> (u32 \<times> u32) list" where
  "insert_timer timer ms [] = [(timer, ms)]"
| "insert_timer timer ms ((k, v) # rest) =
     (if timer < k then (timer, ms) # (k, v) # rest
      else if timer = k then (timer, ms) # rest
      else (k, v) # insert_timer timer ms rest)"

definition remove_timer :: "u32 \<Rightarrow> (u32 \<times> u32) list \<Rightarrow> (u32 \<times> u32) list" where
  "remove_timer timer timers = filter (\<lambda>(k, v). k \<noteq> timer) timers"

fun next_timer :: "(u32 \<times> u32) list \<Rightarrow> (u32 \<times> u32) option" where
  "next_timer [] = None"
| "next_timer ((k, v) # rest) =
     (case next_timer rest of
        None \<Rightarrow> Some (k, v)
      | Some (k', v') \<Rightarrow> if v' < v then Some (k', v') else Some (k, v))"

section \<open>Running the commands of the core\<close>

definition schedule :: "u32 \<Rightarrow> u32 \<Rightarrow> protocol_peer \<Rightarrow> protocol_peer" where
  "schedule timer ms p = p\<lparr>pp_timers := insert_timer timer ms (pp_timers p)\<rparr>"

definition unschedule :: "u32 \<Rightarrow> protocol_peer \<Rightarrow> protocol_peer" where
  "unschedule timer p = p\<lparr>pp_timers := remove_timer timer (pp_timers p)\<rparr>"

definition apply_negotiation ::
  "protocol_world \<Rightarrow> string \<Rightarrow> negotiation_kind \<Rightarrow> string \<Rightarrow> upload_slot list \<Rightarrow> protocol_peer
     \<Rightarrow> (protocol_peer \<times> command list) signal_run" where
  "apply_negotiation w request_id kind sdp upload_slots p =
     bind_run (if kind = InitialOffer then
         bind_run (on_rtc w bind_peer) (\<lambda>rtc. return_run (p\<lparr>pp_rtc := Some rtc\<rparr>))
       else return_run p) (\<lambda>p.
     bind_run (rtc_mut p) (\<lambda>rtc.
     bind_run (on_rtc w (\<lambda>r. answer_offer r sdp upload_slots rtc)) (\<lambda>(answer, rtc).
     bind_run (core w (CoreAnswer request_id kind answer)) (\<lambda>commands.
     return_run (p\<lparr>pp_rtc := Some rtc, pp_negotiation_count := pp_negotiation_count p + 1\<rparr>, commands)))))"

fun run_command :: "protocol_world \<Rightarrow> command \<Rightarrow> protocol_peer \<Rightarrow> (protocol_peer \<times> command list) signal_run" where
  "run_command w (ConnectSocket url) p =
     bind_run (logged (\<lambda>h. with_context ''failed to connect to the o-sfu WebSocket'' (pw_connect w h url))
       (\<lambda>_. WsOpened url)) (\<lambda>_.
     bind_run (core w CoreWsOpen) (\<lambda>commands. return_run (p\<lparr>pp_websocket := True\<rparr>, commands)))"
| "run_command w (SendWebSocket frame) p =
     ensure_run (pp_websocket p) websocket_missing (
     bind_run (send_frame w ''failed to send an o-sfu signaling frame'' (TextFrame frame)) (\<lambda>_. return_run (p, [])))"
| "run_command w ClosePeerConnection p = return_run (p\<lparr>pp_rtc := None\<rparr>, [])"
| "run_command w (ApplyNegotiation request_id kind sdp upload_slots) p =
     apply_negotiation w request_id kind sdp upload_slots p"
| "run_command w (ScheduleTimer timer ms) p = return_run (schedule timer ms p, [])"
| "run_command w (CancelTimer timer) p = return_run (unschedule timer p, [])"
| "run_command w CloseWebSocket p =
     ensure_run (pp_websocket p) websocket_missing (
     bind_run (close_socket w ''failed to close the o-sfu WebSocket'') (\<lambda>_. return_run (p, [])))"
| "run_command w (BeginPendingRequest timer ms) p = return_run (schedule timer ms p, [])"
| "run_command w (CompletePendingRequest timer) p = return_run (unschedule timer p, [])"
| "run_command w EmitStateChange p = return_run (p, [])"
| "run_command w EmitEvent p = return_run (p, [])"
| "run_command w SetAvailableFeatures p = return_run (p, [])"
| "run_command w SetRecordingState p = return_run (p, [])"

definition command_step ::
  "protocol_world \<Rightarrow> protocol_peer \<times> command list
     \<Rightarrow> (protocol_peer \<times> command list + protocol_peer) signal_run" where
  "command_step w s =
     (case s of
        (p, []) \<Rightarrow> return_run (Inr p)
      | (p, command # pending) \<Rightarrow>
          bind_run (run_command w command p) (\<lambda>(p, more_commands). return_run (Inl (p, pending @ more_commands))))"

definition run_commands :: "protocol_world \<Rightarrow> command list \<Rightarrow> protocol_peer \<Rightarrow> protocol_peer signal_run" where
  "run_commands w commands p = loop_run (command_step w) (p, commands)"

definition call_core :: "protocol_world \<Rightarrow> core_call \<Rightarrow> protocol_peer \<Rightarrow> protocol_peer signal_run" where
  "call_core w call p = bind_run (core w call) (\<lambda>commands. run_commands w commands p)"

section \<open>Reading frames\<close>

text \<open>Between the awaits of a frame's reader its ten seconds may elapse.\<close>

definition within_time :: "protocol_world \<Rightarrow> 'a signal_run \<Rightarrow> 'a signal_run" where
  "within_time w m =
     (\<lambda>h. if pw_elapsed w h then Some (err ''timed out waiting for an o-sfu signaling frame'', h) else m h)"

definition next_message :: "protocol_world \<Rightarrow> string \<Rightarrow> string \<Rightarrow> ws_message signal_run" where
  "next_message w closed failed =
     logged (\<lambda>h. case pw_next w h of None \<Rightarrow> err closed | Some item \<Rightarrow> with_context failed item) WsReceived"

definition read_text_step :: "protocol_world \<Rightarrow> unit \<Rightarrow> (unit + string) signal_run" where
  "read_text_step w s =
     within_time w (
     bind_run (next_message w ''o-sfu closed its signaling WebSocket'' ''failed to read an o-sfu signaling frame'') (\<lambda>message.
     case message of
       TextMessage payload \<Rightarrow> return_run (Inr payload)
     | PingMessage payload \<Rightarrow>
         within_time w (
         bind_run (send_frame w ''failed to answer an o-sfu WebSocket ping'' (PongFrame payload)) (\<lambda>_. return_run (Inl ())))
     | PongMessage \<Rightarrow> return_run (Inl ())
     | _ \<Rightarrow> result_run (err ''o-sfu sent an unexpected WebSocket frame'')))"

definition read_text_message :: "protocol_world \<Rightarrow> string signal_run" where
  "read_text_message w = loop_run (read_text_step w) ()"

definition negotiation_step ::
  "protocol_world \<Rightarrow> nat \<Rightarrow> protocol_peer \<Rightarrow> (protocol_peer + protocol_peer) signal_run" where
  "negotiation_step w expected_count p =
     (if pp_negotiation_count p < expected_count then
        ensure_run (pp_websocket p) websocket_missing (
        bind_run (read_text_message w) (\<lambda>frame.
        bind_run (call_core w (CoreWsMessage frame) p) (\<lambda>p. return_run (Inl p))))
      else return_run (Inr p))"

definition read_until_negotiation :: "protocol_world \<Rightarrow> nat \<Rightarrow> protocol_peer \<Rightarrow> protocol_peer signal_run" where
  "read_until_negotiation w expected_count = loop_run (negotiation_step w expected_count)"

definition accept_next_negotiation :: "protocol_world \<Rightarrow> protocol_peer \<Rightarrow> protocol_peer signal_run" where
  "accept_next_negotiation w p = read_until_negotiation w (pp_negotiation_count p + 1) p"

definition flush_next_timer :: "protocol_world \<Rightarrow> protocol_peer \<Rightarrow> protocol_peer signal_run" where
  "flush_next_timer w p =
     bind_run (result_run (ok_or ''protocol did not schedule its outbound batch'' (next_timer (pp_timers p))))
       (\<lambda>(timer_id, delay_ms).
     bind_run (logged (\<lambda>h. Inr ()) (\<lambda>_. TimerSlept (from_millis (unat delay_ms)))) (\<lambda>_.
     call_core w (CoreTimer timer_id) (unschedule timer_id p)))"

definition publish :: "protocol_world \<Rightarrow> stream_type \<Rightarrow> protocol_peer \<Rightarrow> protocol_peer signal_run" where
  "publish w stream_type p =
     bind_run (call_core w (CorePublish stream_type True) p) (\<lambda>p.
     bind_run (flush_next_timer w p) (\<lambda>p. accept_next_negotiation w p))"

definition publish_audio :: "protocol_world \<Rightarrow> protocol_peer \<Rightarrow> protocol_peer signal_run" where
  "publish_audio w = publish w AudioStream"

definition publish_camera :: "protocol_world \<Rightarrow> protocol_peer \<Rightarrow> protocol_peer signal_run" where
  "publish_camera w = publish w CameraStream"

definition layout_states :: "video_layout_intent \<Rightarrow> download_states" where
  "layout_states camera_layout =
     \<lparr>dl_camera = Some (camera_layout \<noteq> Hidden), dl_camera_layout = Some camera_layout\<rparr>"

fun subscribe_all ::
  "protocol_world \<Rightarrow> (int \<times> video_layout_intent) list \<Rightarrow> protocol_peer \<Rightarrow> protocol_peer signal_run" where
  "subscribe_all w [] p = return_run p"
| "subscribe_all w ((user_id, camera_layout) # layouts) p =
     bind_run (call_core w (CoreSubscribe user_id (layout_states camera_layout)) p) (\<lambda>p. subscribe_all w layouts p)"

definition set_camera_layouts ::
  "protocol_world \<Rightarrow> (int \<times> video_layout_intent) list \<Rightarrow> protocol_peer \<Rightarrow> protocol_peer signal_run" where
  "set_camera_layouts w layouts p =
     bind_run (subscribe_all w layouts p) (\<lambda>p. if layouts \<noteq> [] then flush_next_timer w p else return_run p)"

definition new_protocol_peer :: protocol_peer where
  "new_protocol_peer = \<lparr>pp_websocket = False, pp_rtc = None, pp_timers = [], pp_negotiation_count = 0\<rparr>"

definition connect_peer :: "protocol_world \<Rightarrow> string \<Rightarrow> string \<Rightarrow> string \<Rightarrow> protocol_peer signal_run" where
  "connect_peer w url jwt room_id =
     bind_run (call_core w (CoreConnect url jwt (Some room_id)) new_protocol_peer) (\<lambda>p.
     bind_run (read_until_negotiation w 1 p) (\<lambda>p.
     bind_run (rtc_mut p) (\<lambda>rtc.
     bind_run (on_rtc w (\<lambda>r. wait_until_connected r (from_secs 10) rtc)) (\<lambda>(u, rtc).
     call_core w CoreTransportReady (p\<lparr>pp_rtc := Some rtc\<rparr>)))))"

section \<open>The peer of the measured phase\<close>

record load_peer =
  lp_rtc :: rtc_peer
  lp_signaling_shutdown :: bool
  lp_signaling_task :: bool

definition into_load_peer :: "protocol_peer \<Rightarrow> load_peer result" where
  "into_load_peer p =
     ensure (pp_websocket p) websocket_missing
       (bind_ok (ok_or rtc_missing (pp_rtc p)) (\<lambda>rtc.
        Inr \<lparr>lp_rtc = reset_send_pacing rtc, lp_signaling_shutdown = True, lp_signaling_task = True\<rparr>))"

definition load_reset_send_pacing :: "load_peer \<Rightarrow> load_peer" where
  "load_reset_send_pacing p = p\<lparr>lp_rtc := reset_send_pacing (lp_rtc p)\<rparr>"

definition load_set_send_origin :: "instant \<Rightarrow> load_peer \<Rightarrow> load_peer" where
  "load_set_send_origin send_origin p = p\<lparr>lp_rtc := set_send_origin send_origin (lp_rtc p)\<rparr>"

text \<open>The outer result of joining a task is whether it panicked or was cancelled.\<close>

definition wait_for_signaling :: "protocol_world \<Rightarrow> load_peer \<Rightarrow> load_peer signal_run" where
  "wait_for_signaling w p =
     ensure_run (lp_signaling_task p) ''signaling task is not available'' (
     bind_run (logged (\<lambda>h. with_context ''signaling task failed'' (pw_task_result w h)) (\<lambda>_. TaskJoined)) (\<lambda>r.
     bind_run (result_run r) (\<lambda>_. return_run (p\<lparr>lp_signaling_task := False\<rparr>))))"

definition check_signaling :: "protocol_world \<Rightarrow> load_peer \<Rightarrow> load_peer signal_run" where
  "check_signaling w p =
     (\<lambda>h. if \<not> (lp_signaling_task p \<and> pw_task_finished w h) then return_run p h
          else bind_run (wait_for_signaling w p) (\<lambda>p. result_run (err ''signaling task stopped during fixed work'')) h)"

text \<open>The three operations on packets check the task before and after the RTC peer's own.\<close>

definition checked_rtc ::
  "protocol_world \<Rightarrow> (rtc_world \<Rightarrow> 'a rtc_op) \<Rightarrow> load_peer \<Rightarrow> ('a \<times> load_peer) signal_run" where
  "checked_rtc w op p =
     bind_run (check_signaling w p) (\<lambda>p.
     bind_run (on_rtc w (\<lambda>r. op r (lp_rtc p))) (\<lambda>(payload, rtc).
     bind_run (check_signaling w (p\<lparr>lp_rtc := rtc\<rparr>)) (\<lambda>p. return_run (payload, p))))"

definition load_send_audio_packet :: "protocol_world \<Rightarrow> audio_packet \<Rightarrow> load_peer \<Rightarrow> (nat \<times> load_peer) signal_run" where
  "load_send_audio_packet w packet = checked_rtc w (\<lambda>r. send_audio_packet r packet)"

definition load_send_video_packet :: "protocol_world \<Rightarrow> video_packet \<Rightarrow> load_peer \<Rightarrow> (nat \<times> load_peer) signal_run" where
  "load_send_video_packet w packet = checked_rtc w (\<lambda>r. send_video_packet r packet)"

definition load_read_rtp_payload ::
  "protocol_world \<Rightarrow> duration \<Rightarrow> load_peer \<Rightarrow> (bytes option \<times> load_peer) signal_run" where
  "load_read_rtp_payload w timeout_window = checked_rtc w (\<lambda>r. read_rtp_payload r timeout_window)"

definition close_load_peer :: "protocol_world \<Rightarrow> load_peer \<Rightarrow> load_peer signal_run" where
  "close_load_peer w p =
     bind_run (if lp_signaling_shutdown p then logged (\<lambda>h. Inr ()) (\<lambda>_. ShutdownSeen) else return_run ()) (\<lambda>_.
     wait_for_signaling w (p\<lparr>lp_signaling_shutdown := False\<rparr>))"

section \<open>The signaling task\<close>

definition service_step :: "protocol_world \<Rightarrow> unit \<Rightarrow> (unit + unit) signal_run" where
  "service_step w s =
     (\<lambda>h. case pw_select w h of
        ShutdownSignalled \<Rightarrow>
          bind_run (close_socket w ''failed to close the fixed-work WebSocket'') (\<lambda>_. return_run (Inr ())) h
      | SocketItem item \<Rightarrow>
          bind_run (logged (\<lambda>h. case item of
              None \<Rightarrow> err ''o-sfu closed its fixed-work WebSocket''
            | Some m \<Rightarrow> with_context ''failed to read the fixed-work WebSocket'' m) WsReceived) (\<lambda>message.
          case message of
            PingMessage payload \<Rightarrow>
              bind_run (send_frame w ''failed to answer an o-sfu WebSocket ping'' (PongFrame payload)) (\<lambda>_. return_run (Inl ()))
          | PongMessage \<Rightarrow> return_run (Inl ())
          | TextMessage payload \<Rightarrow> return_run (Inl ())
          | _ \<Rightarrow> result_run (err ''o-sfu sent an unexpected fixed-work WebSocket frame'')) h)"

definition service_signaling :: "protocol_world \<Rightarrow> unit signal_run" where
  "service_signaling w = loop_run (service_step w) ()"

end
