(* ===== verification/Joining.thy ===== *)
theory Joining
  imports Protocol
begin

text \<open>
  How the peers of a room join (\<open>src/client/scenario.rs\<close>): the room is created over HTTP, every peer connects with a
  signed token, cameras get their layouts, the publishers publish one after the other while everyone else accepts the
  negotiation that follows, and the peers become load peers. Peers that act at the same time share nothing but the
  server, whose answers to each of them are a world of its own, so \<open>join_all\<close> is every peer's run on its own log.
\<close>

section \<open>Tokens and rooms\<close>

text \<open>The claims the code sets; the others keep the defaults of the protocol crate.\<close>

record room_claims =
  rc_issuer :: "string option"
  rc_key :: "string option"
  rc_key_seed :: "string option"

record connect_claims =
  cc_room_id :: string
  cc_user_id :: int
  cc_label :: "string option"

record room_request =
  rq_url :: string
  rq_bearer :: string
  rq_forwarded_for :: string

text \<open>
  Signing, the HTTP exchange of a room's creation and the world of each peer. \<open>jw_channel\<close> is the route of the protocol
  crate; sending, the status and the decoded answer may each fail.
\<close>

record join_world =
  jw_sign_room :: "room_claims \<Rightarrow> string \<Rightarrow> string result"
  jw_sign_user :: "connect_claims \<Rightarrow> string \<Rightarrow> string result"
  jw_channel :: string
  jw_send :: "room_request \<Rightarrow> unit result"
  jw_status :: "room_request \<Rightarrow> unit result"
  jw_uuid :: "room_request \<Rightarrow> string result"
  jw_peer :: "nat \<Rightarrow> protocol_world"

definition create_room :: "join_world \<Rightarrow> string \<Rightarrow> u32 \<Rightarrow> string result" where
  "create_room w base_url room_index =
     bind_ok (with_context ''failed to sign room creation claims''
       (jw_sign_room w \<lparr>rc_issuer = Some (ROOM_ISSUER @ ''-'' @ show_word room_index), rc_key = Some ROOM_KEY,
          rc_key_seed = None\<rparr> AUTH_KEY)) (\<lambda>token.
     let request = \<lparr>rq_url = base_url @ jw_channel w, rq_bearer = token, rq_forwarded_for = ''127.0.0.1''\<rparr> in
     bind_ok (with_context ''failed to create the load-test room'' (jw_send w request)) (\<lambda>_.
     bind_ok (with_context ''o-sfu rejected the load-test room'' (jw_status w request)) (\<lambda>_.
     with_context ''failed to decode the room response'' (jw_uuid w request))))"

definition connect_token :: "join_world \<Rightarrow> string \<Rightarrow> int \<Rightarrow> string result" where
  "connect_token w room_id user_id =
     with_context ''failed to sign RTC peer claims''
       (jw_sign_user w \<lparr>cc_room_id = room_id, cc_user_id = user_id, cc_label = Some ''load-peer''\<rparr> ROOM_KEY)"

section \<open>Running all peers\<close>

text \<open>\<open>into_iter().collect::<Result<Vec<_>>>()\<close>: all results, or the first error.\<close>

fun collect :: "'a result list \<Rightarrow> 'a list result" where
  "collect [] = Inr []"
| "collect (r # rs) = bind_ok r (\<lambda>x. bind_ok (collect rs) (\<lambda>xs. Inr (x # xs)))"

text \<open>An outcome is missing when a run does not return; \<open>join_all\<close> waits for all of them.\<close>

type_synonym 'a outcome = "'a result option"

definition bind_out :: "'a outcome \<Rightarrow> ('a \<Rightarrow> 'b outcome) \<Rightarrow> 'b outcome" where
  "bind_out m f = (case m of None \<Rightarrow> None | Some (Inl e) \<Rightarrow> Some (Inl e) | Some (Inr x) \<Rightarrow> f x)"

definition join_all :: "'a outcome list \<Rightarrow> 'a list outcome" where
  "join_all outcomes = map_option collect (those outcomes)"

type_synonym room_peer = "protocol_peer \<times> signal_entry list"

definition peer_run :: "protocol_peer signal_run \<Rightarrow> signal_entry list \<Rightarrow> room_peer outcome" where
  "peer_run m h = map_option (\<lambda>(r, h'). bind_ok r (\<lambda>p. Inr (p, h'))) (m h)"

definition connect_peers :: "join_world \<Rightarrow> string \<Rightarrow> string \<Rightarrow> u32 \<Rightarrow> room_peer list outcome" where
  "connect_peers w websocket_url room_id peer_count =
     bind_out (Some (collect (map (\<lambda>peer_index. connect_token w room_id (int peer_index + 1)) [0..<unat peer_count]))) (\<lambda>tokens.
     join_all (map (\<lambda>(peer_index, token).
       peer_run (connect_peer (jw_peer w peer_index) websocket_url token room_id) []) (enumerate 0 tokens)))"

datatype published_kind = PublishAudio | PublishCamera

definition publish_kind :: "published_kind \<Rightarrow> protocol_world \<Rightarrow> protocol_peer \<Rightarrow> protocol_peer signal_run" where
  "publish_kind kind = (case kind of PublishAudio \<Rightarrow> publish_audio | PublishCamera \<Rightarrow> publish_camera)"

definition accept_others :: "join_world \<Rightarrow> nat \<Rightarrow> room_peer list \<Rightarrow> room_peer list outcome" where
  "accept_others w index peers =
     join_all (map (\<lambda>(peer_index, (peer, h)).
       if peer_index = index then Some (Inr (peer, h))
       else peer_run (accept_next_negotiation (jw_peer w peer_index) peer) h) (enumerate 0 peers))"

definition publish_one :: "join_world \<Rightarrow> published_kind \<Rightarrow> nat \<Rightarrow> room_peer list \<Rightarrow> room_peer list outcome" where
  "publish_one w kind index peers =
     (if index < length peers then
        (case peers ! index of (peer, h) \<Rightarrow>
           bind_out (peer_run (publish_kind kind (jw_peer w index) peer) h) (\<lambda>published.
           accept_others w index (peers[index := published])))
      else Some (err ''publisher is missing''))"

fun publish_each :: "join_world \<Rightarrow> published_kind \<Rightarrow> nat list \<Rightarrow> room_peer list \<Rightarrow> room_peer list outcome" where
  "publish_each w kind [] peers = Some (Inr peers)"
| "publish_each w kind (index # indices) peers =
     bind_out (publish_one w kind index peers) (\<lambda>peers. publish_each w kind indices peers)"

definition publish_sources :: "join_world \<Rightarrow> u32 \<Rightarrow> published_kind \<Rightarrow> room_peer list \<Rightarrow> room_peer list outcome" where
  "publish_sources w publisher_count kind = publish_each w kind [0..<unat publisher_count]"

fun configure_from :: "join_world \<Rightarrow> u32 \<Rightarrow> nat \<Rightarrow> room_peer list \<Rightarrow> room_peer list outcome" where
  "configure_from w publisher_count peer_index [] = Some (Inr [])"
| "configure_from w publisher_count peer_index ((peer, h) # peers) =
     bind_out (peer_run (set_camera_layouts (jw_peer w peer_index) (camera_layouts peer_index publisher_count) peer) h)
       (\<lambda>configured.
     bind_out (configure_from w publisher_count (Suc peer_index) peers) (\<lambda>rest. Some (Inr (configured # rest))))"

definition configure_video_layouts :: "join_world \<Rightarrow> u32 \<Rightarrow> room_peer list \<Rightarrow> room_peer list outcome" where
  "configure_video_layouts w publisher_count peers = configure_from w publisher_count 0 peers"

definition load_peers :: "room_peer list \<Rightarrow> (load_peer \<times> signal_entry list) list outcome" where
  "load_peers peers = Some (collect (map (\<lambda>(peer, h). bind_ok (into_load_peer peer) (\<lambda>l. Inr (l, h))) peers))"

section \<open>The three kinds of room\<close>

definition join_audio_room ::
  "join_world \<Rightarrow> string \<Rightarrow> string \<Rightarrow> u32 \<Rightarrow> u32 \<Rightarrow> (load_peer \<times> signal_entry list) list outcome" where
  "join_audio_room w websocket_url room_id peer_count publisher_count =
     bind_out (connect_peers w websocket_url room_id peer_count) (\<lambda>peers.
     bind_out (publish_sources w publisher_count PublishAudio peers) load_peers)"

definition join_video_room ::
  "join_world \<Rightarrow> string \<Rightarrow> string \<Rightarrow> u32 \<Rightarrow> u32 \<Rightarrow> (load_peer \<times> signal_entry list) list outcome" where
  "join_video_room w websocket_url room_id peer_count publisher_count =
     bind_out (connect_peers w websocket_url room_id peer_count) (\<lambda>peers.
     bind_out (configure_video_layouts w publisher_count peers) (\<lambda>peers.
     bind_out (publish_sources w publisher_count PublishCamera peers) load_peers))"

definition join_mixed_room ::
  "join_world \<Rightarrow> string \<Rightarrow> string \<Rightarrow> u32 \<Rightarrow> u32 \<Rightarrow> u32 \<Rightarrow> (load_peer \<times> signal_entry list) list outcome" where
  "join_mixed_room w websocket_url room_id peer_count audio_publisher_count video_publisher_count =
     bind_out (connect_peers w websocket_url room_id peer_count) (\<lambda>peers.
     bind_out (configure_video_layouts w video_publisher_count peers) (\<lambda>peers.
     bind_out (publish_sources w audio_publisher_count PublishAudio peers) (\<lambda>peers.
     bind_out (publish_sources w video_publisher_count PublishCamera peers) load_peers)))"

end
