(* ===== verification/RtcPeerFacts.thy ===== *)
theory RtcPeerFacts
  imports RtcPeer
begin

text \<open>
  Facts of the RTC driver: payloads are delivered in the order they arrived and none is lost, a packet is written
  once, on time and on a stream that was declared, and waiting for a payload ends.
\<close>

section \<open>Conditions after a run\<close>

text \<open>If the run returns, a success satisfies \<open>Q\<close> and a failure \<open>E\<close>.\<close>

definition run_post :: "('e, 'a) run \<Rightarrow> 'e list \<Rightarrow> ('a \<Rightarrow> 'e list \<Rightarrow> bool) \<Rightarrow> ('e list \<Rightarrow> bool) \<Rightarrow> bool" where
  "run_post m h Q E \<longleftrightarrow>
     (\<forall>e h'. m h = Some (Inl e, h') \<longrightarrow> E h') \<and> (\<forall>x h'. m h = Some (Inr x, h') \<longrightarrow> Q x h')"

named_theorems run_posts \<open>rules for the conditions after a run\<close>

lemma run_postI:
  assumes "\<And>e h'. m h = Some (Inl e, h') \<Longrightarrow> E h'" and "\<And>x h'. m h = Some (Inr x, h') \<Longrightarrow> Q x h'"
  shows "run_post m h Q E"
  using assms by (auto simp: run_post_def)

lemma run_post_Inr: "run_post m h Q E \<Longrightarrow> m h = Some (Inr x, h') \<Longrightarrow> Q x h'"
  by (auto simp: run_post_def)

lemma run_post_Inl: "run_post m h Q E \<Longrightarrow> m h = Some (Inl e, h') \<Longrightarrow> E h'"
  by (auto simp: run_post_def)

lemma run_post_weaken:
  assumes "run_post m h Q E" and "\<And>x h'. Q x h' \<Longrightarrow> Q' x h'" and "\<And>h'. E h' \<Longrightarrow> E' h'"
  shows "run_post m h Q' E'"
  using assms by (auto simp: run_post_def)

lemma run_post_bind [run_posts]:
  assumes "run_post m h (\<lambda>x h'. run_post (f x) h' Q E) E"
  shows "run_post (bind_run m f) h Q E"
  using assms by (auto simp: run_post_def bind_run_def split: option.splits sum.splits prod.splits)

lemma run_post_chain:
  assumes "run_post m h P E" and "\<And>x h'. P x h' \<Longrightarrow> run_post (f x) h' Q E"
  shows "run_post (bind_run m f) h Q E"
  using assms by (intro run_post_bind) (rule run_post_weaken)

lemma run_post_seq:
  assumes "run_post m h P E0" and "\<And>x h'. P x h' \<Longrightarrow> run_post (f x) h' Q E" and "\<And>h'. E0 h' \<Longrightarrow> E h'"
  shows "run_post (bind_run m f) h Q E"
  using assms by (intro run_post_bind) (rule run_post_weaken)

lemma run_post_return [run_posts]: "Q x h \<Longrightarrow> run_post (return_run x) h Q E"
  by (simp add: run_post_def return_run_def)

lemma run_post_result [run_posts]:
  assumes "\<And>x. r = Inr x \<Longrightarrow> Q x h" and "E h"
  shows "run_post (result_run r) h Q E"
  using assms by (auto simp: run_post_def result_run_def split: sum.splits)

lemma run_post_ensure [run_posts]:
  assumes "c \<Longrightarrow> run_post m h Q E" and "E h"
  shows "run_post (ensure_run c msg m) h Q E"
  using assms by (auto simp: run_post_def ensure_run_def result_run_def err_def)

lemma run_post_logged [run_posts]:
  assumes "\<And>x. reply h = Inr x \<Longrightarrow> Q x (h @ [entry x])" and "E h"
  shows "run_post (logged reply entry) h Q E"
  using assms by (auto simp: run_post_def logged_def split: sum.splits)

text \<open>A result that depends on the log.\<close>

lemma run_post_at:
  assumes "\<And>x. f h = Inr x \<Longrightarrow> Q x h" and "E h"
  shows "run_post (\<lambda>h. result_run (f h) h) h Q E"
  using assms by (simp add: run_post_def result_run_def)

lemma run_post_if [run_posts]:
  assumes "c \<Longrightarrow> run_post a h Q E" and "\<not> c \<Longrightarrow> run_post b h Q E"
  shows "run_post (if c then a else b) h Q E"
  using assms by simp

lemma run_post_option [run_posts]:
  assumes "x = None \<Longrightarrow> run_post a h Q E" and "\<And>y. x = Some y \<Longrightarrow> run_post (b y) h Q E"
  shows "run_post (case x of None \<Rightarrow> a | Some y \<Rightarrow> b y) h Q E"
  using assms by (cases x) auto

lemma run_post_prod [run_posts]:
  assumes "\<And>y z. x = (y, z) \<Longrightarrow> run_post (f y z) h Q E"
  shows "run_post (case x of (y, z) \<Rightarrow> f y z) h Q E"
  using assms by (cases x) auto

lemma run_post_loop:
  assumes start: "I s h"
    and body: "\<And>s h. I s h \<Longrightarrow> run_post (body s) h (\<lambda>r h'. case r of Inl s' \<Rightarrow> I s' h' | Inr x \<Rightarrow> Q x h') E"
  shows "run_post (loop_run body s) h Q E"
proof -
  let ?P = "\<lambda>b s h y. b = body \<longrightarrow> I s h \<longrightarrow>
      (\<forall>e h'. y = (Inl e, h') \<longrightarrow> E h') \<and> (\<forall>x h'. y = (Inr x, h') \<longrightarrow> Q x h')"
  have "?P body s h y" if ret: "loop_run body s h = Some y" for y
  proof (rule loop_run.raw_induct [where P = ?P, OF _ ret])
    fix loop b s h y
    assume again: "\<And>b s h y. loop b s h = Some y \<Longrightarrow> ?P b s h y"
      and step: "(case b s h of
          None \<Rightarrow> None
        | Some (Inl e, h') \<Rightarrow> Some (Inl e, h')
        | Some (Inr (Inl s'), h') \<Rightarrow> loop b s' h'
        | Some (Inr (Inr x), h') \<Rightarrow> Some (Inr x, h')) = Some y"
    show "?P b s h y"
    proof (intro impI)
      assume b: "b = body" and at: "I s h"
      note post = body [OF at, unfolded run_post_def]
      consider e h' where "b s h = Some (Inl e, h')" "y = (Inl e, h')"
        | s' h' where "b s h = Some (Inr (Inl s'), h')" "loop b s' h' = Some y"
        | x h' where "b s h = Some (Inr (Inr x), h')" "y = (Inr x, h')"
        using step by (auto split: option.splits sum.splits prod.splits)
      then show "(\<forall>e h'. y = (Inl e, h') \<longrightarrow> E h') \<and> (\<forall>x h'. y = (Inr x, h') \<longrightarrow> Q x h')"
      proof cases
        case 2
        then have "I s' h'" using post b by fastforce
        then show ?thesis using again [OF 2(2)] b by blast
      qed (use post b in fastforce)+
    qed
  qed
  then show ?thesis using start by (auto simp: run_post_def)
qed

section \<open>What receiving leaves in place\<close>

fun rtp_arrivals :: "rtc_entry list \<Rightarrow> bytes list" where
  "rtp_arrivals [] = []"
| "rtp_arrivals (Polled (EngineOutput (RtpArrived payload)) # log) = payload # rtp_arrivals log"
| "rtp_arrivals (entry # log) = rtp_arrivals log"

fun rtp_written :: "rtc_entry list \<Rightarrow> rtp_write list" where
  "rtp_written [] = []"
| "rtp_written (RtpWritten packet # log) = packet # rtp_written log"
| "rtp_written (entry # log) = rtp_written log"

lemma arrivals_append [simp]: "rtp_arrivals (a @ b) = rtp_arrivals a @ rtp_arrivals b"
  by (induction a rule: rtp_arrivals.induct) auto

lemma written_append [simp]: "rtp_written (a @ b) = rtp_written a @ rtp_written b"
  by (induction a rule: rtp_written.induct) auto

lemma written_in: "packet \<in> set (rtp_written log) \<longleftrightarrow> RtpWritten packet \<in> set log"
  by (induction log rule: rtp_written.induct) auto

definition connection_reported :: "rtc_entry list \<Rightarrow> bool" where
  "connection_reported h \<longleftrightarrow> Polled (EngineOutput EngineConnected) \<in> set h"

lemma connection_reported_append [simp]:
  "connection_reported (a @ b) \<longleftrightarrow> connection_reported a \<or> connection_reported b"
  by (auto simp: connection_reported_def)

text \<open>From \<open>p\<close> and \<open>h\<close> the driver got to \<open>p'\<close> and \<open>h'\<close> by receiving alone.\<close>

definition received_only :: "rtc_peer \<Rightarrow> rtc_entry list \<Rightarrow> rtc_peer \<Rightarrow> rtc_entry list \<Rightarrow> bool" where
  "received_only p h p' h' \<longleftrightarrow>
     (\<exists>new. h' = h @ new \<and> rtp_written new = [] \<and> EngineBuilt \<notin> set new \<and>
        rp_pending p' = rp_pending p @ rtp_arrivals new \<and> (rp_connected p' \<longrightarrow> rp_connected p \<or> connection_reported new)) \<and>
     rp_send_origin p' = rp_send_origin p \<and> rp_video_upload_slot p' = rp_video_upload_slot p \<and>
     ds_video_low (rp_declared p') = ds_video_low (rp_declared p) \<and>
     ds_video_high (rp_declared p') = ds_video_high (rp_declared p)"

definition writes_nothing :: "rtc_entry list \<Rightarrow> rtc_entry list \<Rightarrow> bool" where
  "writes_nothing h h' \<longleftrightarrow> (\<exists>new. h' = h @ new \<and> rtp_written new = [])"

lemma received_only_refl [simp]: "received_only p h p h"
  by (simp add: received_only_def)

lemma received_only_trans:
  assumes "received_only p h p' h'" and "received_only p' h' p'' h''"
  shows "received_only p h p'' h''"
  using assms unfolding received_only_def by auto

lemma writes_nothing_refl [simp]: "writes_nothing h h"
  by (simp add: writes_nothing_def)

lemma writes_nothing_trans: "writes_nothing h h' \<Longrightarrow> writes_nothing h' h'' \<Longrightarrow> writes_nothing h h''"
  unfolding writes_nothing_def by (metis append.assoc append_Nil written_append)

lemma received_only_silent: "received_only p h p' h' \<Longrightarrow> writes_nothing h h'"
  unfolding received_only_def writes_nothing_def by blast

lemma received_entry:
  assumes "received_only p0 h0 p h" and "rtp_written [e] = []" and "rtp_arrivals [e] = []" and "e \<noteq> EngineBuilt"
  shows "received_only p0 h0 p (h @ [e])"
  using assms unfolding received_only_def by auto

definition receives :: "(rtc_peer \<Rightarrow> (rtc_entry, rtc_peer) run) \<Rightarrow> bool" where
  "receives m \<longleftrightarrow> (\<forall>p h. run_post (m p) h (\<lambda>p' h'. received_only p h p' h') (writes_nothing h))"

lemma receivesI:
  assumes "\<And>p0 h0. run_post (m p0) h0 (received_only p0 h0) (writes_nothing h0)"
  shows "receives m"
  using assms by (simp add: receives_def)

lemma receives_from:
  assumes "receives m" and "received_only p0 h0 p h"
    and "\<And>p' h'. received_only p0 h0 p' h' \<Longrightarrow> Q p' h'"
  shows "run_post (m p) h Q (writes_nothing h0)"
proof (rule run_post_weaken [OF assms(1) [unfolded receives_def, rule_format]])
  show "Q p' h'" if "received_only p h p' h'" for p' h'
    using assms(3) received_only_trans [OF assms(2) that] .
  show "writes_nothing h0 h'" if "writes_nothing h h'" for h'
    using writes_nothing_trans [OF received_only_silent [OF assms(2)] that] .
qed

text \<open>A loop that continues with received states and ends with one.\<close>

lemma receives_loop:
  assumes "\<And>p0 h0 p h. received_only p0 h0 p h \<Longrightarrow>
      run_post (body p) h (case_sum (received_only p0 h0) (received_only p0 h0)) (writes_nothing h0)"
  shows "receives (loop_run body)"
proof (rule receivesI)
  fix p0 h0
  show "run_post (loop_run body p0) h0 (received_only p0 h0) (writes_nothing h0)"
  proof (rule run_post_loop [where I = "received_only p0 h0"])
    fix s h
    assume "received_only p0 h0 s h"
    from assms [OF this] show "run_post (body s) h
        (\<lambda>r h'. case r of Inl s' \<Rightarrow> received_only p0 h0 s' h' | Inr x \<Rightarrow> received_only p0 h0 x h') (writes_nothing h0)"
      by (rule run_post_weaken) (auto split: sum.splits)
  qed simp
qed

lemma received_logged:
  assumes "received_only p0 h0 p h" and "\<And>x. rtp_written [entry x] = []"
    and "\<And>x. reply h = Inr x \<Longrightarrow> rtp_arrivals [entry x] = [] \<Longrightarrow> received_only p0 h0 p (h @ [entry x]) \<Longrightarrow> Q x (h @ [entry x])"
    and "\<And>x. rtp_arrivals [entry x] = []" and "\<And>x. entry x \<noteq> EngineBuilt"
  shows "run_post (logged reply entry) h Q (writes_nothing h0)"
  using assms by (intro run_post_logged received_only_silent [OF assms(1)]) (auto intro: received_entry)

lemma observe_event_receives:
  assumes "observe_event w h event p = Inr p'"
  shows "rp_pending p' = rp_pending p @ rtp_arrivals [Polled (EngineOutput event)]"
    and "rp_send_origin p' = rp_send_origin p" and "rp_video_upload_slot p' = rp_video_upload_slot p"
    and "ds_video_low (rp_declared p') = ds_video_low (rp_declared p)"
    and "ds_video_high (rp_declared p') = ds_video_high (rp_declared p)"
    and "rp_connected p' \<Longrightarrow> rp_connected p \<or> event = EngineConnected"
  using assms
  by (cases event; auto simp: observe_audio_direction_def set_audio_def err_def split: option.splits if_splits)+

lemma drain_receives: "receives (drain_output w)"
  unfolding drain_output_def
proof (rule receives_loop)
  fix p0 h0 p h
  assume at: "received_only p0 h0 p h"
  show "run_post (drain_step w p) h (case_sum (received_only p0 h0) (received_only p0 h0)) (writes_nothing h0)"
    unfolding drain_step_def
  proof (intro run_post_bind run_post_logged)
    show "writes_nothing h0 h" using received_only_silent [OF at] .
    fix polled
    show "run_post (case polled of
        Transmit contents destination \<Rightarrow>
          bind_run (logged (\<lambda>h. with_context ''failed to send an RTC datagram'' (rw_send w h contents destination))
            (\<lambda>_. DatagramSent contents destination)) (\<lambda>_. return_run (Inl p))
      | EngineOutput event \<Rightarrow> (\<lambda>h. bind_run (result_run (observe_event w h event p)) (\<lambda>p'. return_run (Inl p')) h)
      | TimeoutAt timeout_at \<Rightarrow> return_run (Inr (p\<lparr>rp_next_timeout := timeout_at\<rparr>)))
      (h @ [Polled polled]) (case_sum (received_only p0 h0) (received_only p0 h0)) (writes_nothing h0)"
    proof (cases polled)
      case (Transmit contents destination)
      have "received_only p0 h0 p (h @ [Polled polled])" using at Transmit by (intro received_entry) auto
      then show ?thesis unfolding Transmit engine_output.case
        by (intro run_post_bind received_logged run_post_return) auto
    next
      case (EngineOutput event)
      have q: "writes_nothing h0 (h @ [Polled polled])" using at EngineOutput by (auto simp: received_only_def writes_nothing_def)
      have "run_post (bind_run (result_run (observe_event w (h @ [Polled polled]) event p)) (\<lambda>p'. return_run (Inl p')))
          (h @ [Polled polled]) (case_sum (received_only p0 h0) (received_only p0 h0)) (writes_nothing h0)"
        using at observe_event_receives [of w "h @ [Polled polled]" event p] EngineOutput
        by (intro run_post_bind run_post_result run_post_return q) (auto simp: received_only_def connection_reported_def)
      then show ?thesis using EngineOutput by (simp add: run_post_def)
    next
      case (TimeoutAt timeout_at)
      then show ?thesis using at by (auto intro!: run_post_return simp: received_only_def)
    qed
  qed
qed

lemma handle_timeout_receives: "receives (handle_timeout w msg t)"
  unfolding handle_timeout_def
  by (intro receivesI run_post_bind received_logged receives_from [OF drain_receives]) auto

lemma due_receives: "receives (apply_due_timeouts w)"
  unfolding apply_due_timeouts_def
  by (rule receives_loop, unfold due_step_def clock_read_def,
      intro run_post_bind run_post_if received_logged receives_from [OF handle_timeout_receives] run_post_return) auto

lemma apply_datagram_receives: "receives (apply_datagram w packet source)"
  unfolding apply_datagram_def clock_read_def
  by (intro receivesI run_post_ensure run_post_bind received_logged receives_from [OF drain_receives]) auto

lemmas received_silent [intro] = received_only_silent

lemma wait_for_input_receives: "receives (wait_for_input w deadline)"
  unfolding wait_for_input_def clock_read_def Let_def
  by (intro receivesI run_post_bind run_post_if run_post_option run_post_prod received_logged run_post_result run_post_return
      receives_from [OF handle_timeout_receives] receives_from [OF apply_datagram_receives]) auto

lemma connect_step_receives:
  assumes "received_only p0 h0 p h"
  shows "run_post (connect_step w deadline p) h (case_sum (received_only p0 h0) (received_only p0 h0)) (writes_nothing h0)"
  unfolding connect_step_def clock_read_def using assms
  by (intro run_post_bind run_post_if received_logged run_post_return receives_from [OF wait_for_input_receives]) auto

text \<open>What a peer knows of its video streams.\<close>

definition same_video :: "rtc_peer \<Rightarrow> rtc_peer \<Rightarrow> bool" where
  "same_video p p' \<longleftrightarrow> rp_video_upload_slot p' = rp_video_upload_slot p \<and>
     (\<forall>layer. layer_declared layer (rp_declared p') = layer_declared layer (rp_declared p))"

lemma same_video_refl [simp]: "same_video p p"
  by (simp add: same_video_def)

lemma same_video_trans: "same_video p p' \<Longrightarrow> same_video p' p'' \<Longrightarrow> same_video p p''"
  by (simp add: same_video_def)

lemma received_layers:
  "received_only p h p' h' \<Longrightarrow> layer_declared layer (rp_declared p') = layer_declared layer (rp_declared p)"
  by (cases layer) (auto simp: received_only_def)

lemma received_same_video: "received_only p h p' h' \<Longrightarrow> same_video p p'"
  using received_layers [of p h p' h'] by (simp add: same_video_def) (simp add: received_only_def)

lemma same_video_set_audio [simp]: "same_video p (set_audio b p') = same_video p p'"
proof -
  have "layer_declared layer (rp_declared (set_audio b p')) = layer_declared layer (rp_declared p')" for layer
    by (cases layer) (simp_all add: set_audio_def)
  moreover have "rp_video_upload_slot (set_audio b p') = rp_video_upload_slot p'" by (simp add: set_audio_def)
  ultimately show ?thesis by (simp add: same_video_def)
qed

section \<open>Payloads are delivered in order\<close>

text \<open>
  The payloads handed over and the ones still pending are those that were pending before followed by those that arrived
  since, in that order.
\<close>

definition delivers :: "rtc_peer \<Rightarrow> rtc_entry list \<Rightarrow> bytes option \<Rightarrow> rtc_peer \<Rightarrow> rtc_entry list \<Rightarrow> bool" where
  "delivers p h payload p' h' \<longleftrightarrow>
     (\<exists>new. h' = h @ new \<and> rtp_written new = [] \<and>
        rp_pending p @ rtp_arrivals new = (case payload of None \<Rightarrow> [] | Some x \<Rightarrow> [x]) @ rp_pending p') \<and> same_video p p'"

lemma received_parts:
  assumes "received_only p h p' h'"
  obtains new where "h' = h @ new" "rtp_written new = []" "rp_pending p' = rp_pending p @ rtp_arrivals new" "same_video p p'"
    "EngineBuilt \<notin> set new" "rp_connected p' \<Longrightarrow> rp_connected p \<or> connection_reported new"
  using assms received_same_video [OF assms] by (auto simp: received_only_def)

lemma delivers_none:
  assumes "received_only p h p' h'"
  shows "delivers p h None p' h'"
  using assms by (rule received_parts) (simp add: delivers_def)

lemma delivers_pop:
  assumes "received_only p h p1 h'" and "pop_pending p1 = Some (payload, p')"
  shows "delivers p h (Some payload) p' h'"
proof (rule received_parts [OF assms(1)])
  fix new
  assume new: "h' = h @ new" "rtp_written new = []" "rp_pending p1 = rp_pending p @ rtp_arrivals new" "same_video p p1"
  obtain rest where p': "rp_pending p1 = payload # rest" "p' = p1\<lparr>rp_pending := rest\<rparr>"
    using assms(2) by (auto simp: pop_pending_def split: list.splits)
  then have "same_video p p'" using new(4) by (simp add: same_video_def)
  then show ?thesis using new(1,2) new(3) [symmetric] p' unfolding delivers_def by auto
qed

lemma try_read_delivers:
  assumes "received_only p0 h0 p h"
  shows "run_post (try_read_input w p) h (\<lambda>(more_input, p') h'. received_only p0 h0 p' h') (writes_nothing h0)"
  unfolding try_read_input_def using assms
  by (intro run_post_bind run_post_if run_post_option run_post_prod received_logged run_post_return
      receives_from [OF due_receives] receives_from [OF apply_datagram_receives]) auto

lemma poll_payload_delivers:
  "run_post (loop_run (poll_payload_step w) p0) h0 (\<lambda>(payload, p') h'. delivers p0 h0 payload p' h') (writes_nothing h0)"
proof (rule run_post_loop [where I = "received_only p0 h0"])
  fix p h
  assume "received_only p0 h0 p h"
  note read = try_read_delivers [OF this]
  show "run_post (poll_payload_step w p) h
      (\<lambda>r h'. case r of Inl s' \<Rightarrow> received_only p0 h0 s' h' | Inr x \<Rightarrow> (\<lambda>(payload, p') h'. delivers p0 h0 payload p' h') x h')
      (writes_nothing h0)"
    unfolding poll_payload_step_def
    by (rule run_post_chain [OF read])
       (auto intro!: run_post_prod run_post_if run_post_option run_post_return delivers_none delivers_pop)
qed simp

lemma wait_payload_delivers:
  assumes "received_only p0 h0 p h"
  shows "run_post (loop_run (wait_payload_step w deadline) p) h (\<lambda>(payload, p') h'. delivers p0 h0 payload p' h') (writes_nothing h0)"
proof (rule run_post_loop [where I = "received_only p0 h0"])
  fix p h
  assume "received_only p0 h0 p h"
  then show "run_post (wait_payload_step w deadline p) h
      (\<lambda>r h'. case r of Inl s' \<Rightarrow> received_only p0 h0 s' h' | Inr x \<Rightarrow> (\<lambda>(payload, p') h'. delivers p0 h0 payload p' h') x h')
      (writes_nothing h0)"
    unfolding wait_payload_step_def clock_read_def
    by (intro run_post_bind run_post_if run_post_option run_post_prod received_logged run_post_return
        receives_from [OF wait_for_input_receives]) (auto intro: delivers_none delivers_pop)
qed (rule assms)

lemma read_delivers:
  "run_post (read_rtp_payload w timeout_window p) h (\<lambda>(payload, p') h'. delivers p h payload p' h') (writes_nothing h)"
  unfolding read_rtp_payload_def clock_read_def
  by (intro run_post_bind run_post_if run_post_option run_post_prod received_logged run_post_return
      poll_payload_delivers wait_payload_delivers) (auto intro: delivers_pop [OF received_only_refl])

text \<open>
  C30: no RTP payload is lost, duplicated or reordered. Whatever the window, the payload \<open>read_rtp_payload\<close> returns
  followed by those it leaves pending are the ones pending before followed by the ones that arrived meanwhile; it sends
  nothing itself.
\<close>

theorem rtc_payloads_in_order:
  assumes "read_rtp_payload w timeout_window p h = Some (Inr (payload, p'), h')"
  shows "\<exists>new. h' = h @ new \<and> rtp_written new = [] \<and>
    rp_pending p @ rtp_arrivals new = (case payload of None \<Rightarrow> [] | Some x \<Rightarrow> [x]) @ rp_pending p'"
proof -
  from run_post_Inr [OF read_delivers assms] show ?thesis by (auto simp: delivers_def)
qed

section \<open>A packet is written once, on time and on a declared stream\<close>

definition sees_clock :: "instant \<Rightarrow> rtc_entry list \<Rightarrow> bool" where
  "sees_clock at log \<longleftrightarrow> (\<exists>t. ClockSeen t \<in> set log \<and> at \<le> t)"

definition origin_of :: "rtc_peer \<Rightarrow> instant \<Rightarrow> bool" where
  "origin_of p origin \<longleftrightarrow> rp_send_origin p = None \<or> rp_send_origin p = Some origin"

text \<open>From \<open>p\<close> and \<open>h\<close> the driver waited until \<open>send_at\<close>, with the origin fixed.\<close>

definition paced :: "rtc_peer \<Rightarrow> rtc_entry list \<Rightarrow> duration \<Rightarrow> instant \<Rightarrow> rtc_peer \<Rightarrow> rtc_entry list \<Rightarrow> bool" where
  "paced p h emitted_at send_at p' h' \<longleftrightarrow>
     (\<exists>origin new. h' = h @ new \<and> sees_clock send_at new \<and> origin_of p origin \<and> send_at = origin + emitted_at \<and>
        received_only (p\<lparr>rp_send_origin := Some origin\<rparr>) h p' h')"

lemma pace_step_post:
  assumes "received_only p0 h0 p h"
  shows "run_post (pace_step w send_at p) h
    (case_sum (received_only p0 h0) (\<lambda>p' h'. received_only p0 h0 p' h' \<and> sees_clock send_at (drop (length h0) h'))) (writes_nothing h0)"
proof -
  obtain new where "h = h0 @ new" using assms by (auto simp: received_only_def)
  then show ?thesis
    unfolding pace_step_def clock_read_def using assms
    by (intro run_post_bind run_post_if received_logged run_post_return receives_from [OF wait_for_input_receives])
       (auto simp: sees_clock_def not_less)
qed

lemma send_origin_post:
  "run_post (send_origin_of w emitted_at p) h
     (\<lambda>origin h'. origin_of p origin \<and>
        received_only (p\<lparr>rp_send_origin := Some origin\<rparr>) h (p\<lparr>rp_send_origin := Some origin\<rparr>) h') (writes_nothing h)"
  unfolding send_origin_of_def clock_read_def
  by (intro run_post_option run_post_bind run_post_if run_post_logged run_post_return)
     (auto simp: origin_of_def received_only_def writes_nothing_def)

lemma pace_post:
  "run_post (pace_until w emitted_at p) h (\<lambda>(send_at, p') h'. paced p h emitted_at send_at p' h') (writes_nothing h)"
  unfolding pace_until_def Let_def
proof (rule run_post_chain [OF send_origin_post])
  fix origin h1
  let ?p = "p\<lparr>rp_send_origin := Some origin\<rparr>" and ?at = "origin + emitted_at"
  assume at: "origin_of p origin \<and> received_only ?p h ?p h1"
  have loop: "run_post (loop_run (pace_step w ?at) ?p) h1
      (\<lambda>p' h'. received_only ?p h p' h' \<and> sees_clock ?at (drop (length h) h')) (writes_nothing h)"
  proof (rule run_post_loop [where I = "received_only ?p h"])
    fix s g
    assume "received_only ?p h s g"
    from pace_step_post [OF this] show "run_post (pace_step w ?at s) g
        (\<lambda>r h'. case r of Inl s' \<Rightarrow> received_only ?p h s' h'
           | Inr x \<Rightarrow> received_only ?p h x h' \<and> sees_clock ?at (drop (length h) h')) (writes_nothing h)"
      by (rule run_post_weaken) (auto split: sum.splits)
  qed (use at in blast)
  show "run_post (bind_run (loop_run (pace_step w ?at) ?p) (\<lambda>p'. return_run (?at, p'))) h1
      (\<lambda>(send_at, p') h'. paced p h emitted_at send_at p' h') (writes_nothing h)"
  proof (rule run_post_chain [OF loop])
    fix p' h'
    assume post: "received_only ?p h p' h' \<and> sees_clock ?at (drop (length h) h')"
    then obtain new where "h' = h @ new" by (auto simp: received_only_def)
    then have "paced p h emitted_at ?at p' h'" using post at unfolding paced_def by auto
    then show "run_post (return_run (?at, p')) h' (\<lambda>(send_at, p') h'. paced p h emitted_at send_at p' h') (writes_nothing h)"
      by (auto intro: run_post_return)
  qed
qed

definition sent_once :: "(rtp_write \<Rightarrow> rtc_entry list \<Rightarrow> bool) \<Rightarrow> rtc_entry list \<Rightarrow> rtc_entry list \<Rightarrow> bool" where
  "sent_once good h h' \<longleftrightarrow>
     (\<exists>before packet after. h' = h @ before @ RtpWritten packet # after \<and> rtp_written before = [] \<and> rtp_written after = [] \<and>
        good packet before)"

lemma sent_once_silent: "sent_once good h h1 \<Longrightarrow> writes_nothing h1 h' \<Longrightarrow> sent_once good h h'"
  unfolding sent_once_def writes_nothing_def by fastforce

text \<open>What follows the write: draining and the due timeouts.\<close>

lemma after_write:
  assumes "sent_once good h h1"
  shows "run_post (bind_run (drain_output w p) (\<lambda>p. bind_run (apply_due_timeouts w p) (\<lambda>p. return_run (payload_len, p)))) h1
    (\<lambda>(n, p') h'. n = payload_len \<and> sent_once good h h' \<and> received_only p h1 p' h')
    (\<lambda>h'. writes_nothing h h' \<or> sent_once good h h')"
proof -
  have "run_post (bind_run (drain_output w p) (\<lambda>p. bind_run (apply_due_timeouts w p) (\<lambda>p. return_run (payload_len, p)))) h1
    (\<lambda>(n, p') h'. n = payload_len \<and> received_only p h1 p' h') (writes_nothing h1)"
    by (intro run_post_bind receives_from [OF drain_receives] receives_from [OF due_receives] run_post_return) auto
  then show ?thesis
    by (rule run_post_weaken) (use sent_once_silent [OF assms] in \<open>auto split: prod.splits\<close>)
qed

text \<open>The write of a packet: everything but the payload type and the origin is given by the packet and the peer.\<close>

definition video_write :: "rtc_world \<Rightarrow> rtc_peer \<Rightarrow> video_packet \<Rightarrow> rtp_write \<Rightarrow> rtc_entry list \<Rightarrow> bool" where
  "video_write w p packet sent before \<longleftrightarrow>
     (\<exists>slot origin.
        rp_video_upload_slot p = Some slot \<and> wr_mid sent = rw_mid w (us_mid slot) \<and>
        wr_rid sent = Some (rid (vp_layer packet)) \<and>
        wr_extension_mid sent = Some (wr_mid sent) \<and> wr_extension_rid sent = wr_rid sent \<and>
        wr_payload sent = vp_payload packet \<and> unat (wr_sequence sent) = unat (vp_sequence_number packet) \<and>
        wr_timestamp sent = vp_rtp_timestamp packet \<and> wr_marker sent = vp_marker packet \<and>
        wr_extensions sent = vp_extension_values packet \<and>
        origin_of p origin \<and> wr_wallclock sent = origin + vp_emitted_at packet \<and> sees_clock (wr_wallclock sent) before \<and>
        (layer_declared (vp_layer packet) (rp_declared p) \<or>
         StreamDeclared (layer_ssrc (vp_layer packet)) (wr_mid sent) (wr_rid sent) \<in> set before))"


lemma declare_layer_declared [simp]:
  "layer_declared layer (declare_layer l d) \<longleftrightarrow> layer = l \<or> layer_declared layer d"
  by (cases l; cases layer) auto

text \<open>A stream that is not yet declared is declared, and its flag set.\<close>

definition stream_ensured ::
  "string \<Rightarrow> video_layer \<Rightarrow> rtc_peer \<Rightarrow> rtc_entry list \<Rightarrow> rtc_peer \<Rightarrow> rtc_entry list \<Rightarrow> bool" where
  "stream_ensured mid layer p h p' h' \<longleftrightarrow>
     (\<exists>new. h' = h @ new \<and> rtp_written new = [] \<and>
        (layer_declared layer (rp_declared p) \<or> StreamDeclared (layer_ssrc layer) mid (Some (rid layer)) \<in> set new)) \<and>
     rp_video_upload_slot p' = rp_video_upload_slot p \<and>
     (\<forall>l. layer_declared l (rp_declared p') \<longleftrightarrow> l = layer \<or> layer_declared l (rp_declared p))"

lemma ensure_video_post:
  "run_post (ensure_video_stream w mid layer p) h (\<lambda>p' h'. stream_ensured mid layer p h p' h') (writes_nothing h)"
proof (cases "layer_declared layer (rp_declared p)")
  case True
  then show ?thesis unfolding ensure_video_stream_def
    by (auto intro!: run_post_return simp: stream_ensured_def)
next
  case False
  let ?e = "StreamDeclared (layer_ssrc layer) mid (Some (rid layer))"
  have grows: "writes_nothing h (h @ [?e])" by (simp add: writes_nothing_def)
  have drained: "run_post (drain_output w p) (h @ [?e]) (received_only p (h @ [?e])) (writes_nothing h)"
    using drain_receives [of w, unfolded receives_def, rule_format, of p "h @ [?e]"]
    by (rule run_post_weaken) (auto intro: writes_nothing_trans [OF grows])
  have "stream_ensured mid layer p h (p'\<lparr>rp_declared := declare_layer layer (rp_declared p')\<rparr>) h'"
    if "received_only p (h @ [?e]) p' h'" for p' h'
    using that received_layers [OF that] unfolding stream_ensured_def received_only_def by auto
  then have "run_post (bind_run (drain_output w p) (\<lambda>p. return_run (p\<lparr>rp_declared := declare_layer layer (rp_declared p)\<rparr>)))
      (h @ [?e]) (stream_ensured mid layer p h) (writes_nothing h)"
    by (intro run_post_chain [OF drained] run_post_return)
  then show ?thesis
    using False unfolding ensure_video_stream_def declare_stream_def
    by (auto intro!: run_post_bind run_post_logged)
qed

definition video_fields :: "rtc_world \<Rightarrow> rtc_peer \<Rightarrow> video_packet \<Rightarrow> instant \<Rightarrow> rtp_write \<Rightarrow> bool" where
  "video_fields w p packet wallclock sent \<longleftrightarrow>
     (\<exists>slot. rp_video_upload_slot p = Some slot \<and> wr_mid sent = rw_mid w (us_mid slot)) \<and>
     wr_rid sent = Some (rid (vp_layer packet)) \<and>
     wr_extension_mid sent = Some (wr_mid sent) \<and> wr_extension_rid sent = wr_rid sent \<and>
     wr_payload sent = vp_payload packet \<and> unat (wr_sequence sent) = unat (vp_sequence_number packet) \<and>
     wr_timestamp sent = vp_rtp_timestamp packet \<and> wr_marker sent = vp_marker packet \<and>
     wr_extensions sent = vp_extension_values packet \<and> wr_wallclock sent = wallclock"

definition on_declared :: "rtc_peer \<Rightarrow> video_packet \<Rightarrow> rtp_write \<Rightarrow> rtc_entry list \<Rightarrow> bool" where
  "on_declared p packet sent before \<longleftrightarrow>
     layer_declared (vp_layer packet) (rp_declared p) \<or>
     StreamDeclared (layer_ssrc (vp_layer packet)) (wr_mid sent) (wr_rid sent) \<in> set before"

definition video_kept :: "rtc_peer \<Rightarrow> video_packet \<Rightarrow> rtc_peer \<Rightarrow> bool" where
  "video_kept p packet p' \<longleftrightarrow> rp_video_upload_slot p' = rp_video_upload_slot p \<and>
     (\<forall>l. layer_declared l (rp_declared p') \<longleftrightarrow> l = vp_layer packet \<or> layer_declared l (rp_declared p))"

lemma unat_sequence [simp]: "unat (ucast (x :: u16) :: u64) = unat x"
  using unat_less_2p [of x] by (simp add: unsigned_ucast_eq take_bit_nat_eq_self)

lemma write_video_post:
  fixes w p packet at
  defines "good \<equiv> \<lambda>sent before. video_fields w p packet at sent \<and> on_declared p packet sent before"
  shows "run_post (write_video_packet w packet at p) h
     (\<lambda>(n, p') h'. n = length (vp_payload packet) \<and> sent_once good h h' \<and> video_kept p packet p')
     (\<lambda>h'. writes_nothing h h' \<or> sent_once good h h')"
    (is "run_post _ h ?Q ?E")
proof -
  have quiet: "?E h" by simp
  have rest: "run_post (bind_run (write_rtp w msg sent) (\<lambda>_. bind_run (drain_output w p1) (\<lambda>p.
        bind_run (apply_due_timeouts w p) (\<lambda>p. return_run (length (vp_payload packet), p))))) h1 ?Q ?E"
    if ensured: "stream_ensured (wr_mid sent) (vp_layer packet) p h p1 h1" and sent: "video_fields w p packet at sent"
    for sent p1 h1 msg
  proof -
    obtain new where new: "h1 = h @ new" "rtp_written new = []" "on_declared p packet sent new"
      using ensured sent by (auto simp: stream_ensured_def on_declared_def video_fields_def)
    have once: "sent_once good h (h1 @ [RtpWritten sent])"
      unfolding sent_once_def good_def
      by (rule exI [of _ new], rule exI [of _ sent], rule exI [of _ "[]"]) (simp add: new sent)
    have "?E h1" using new by (auto simp: writes_nothing_def)
    moreover have "video_kept p packet p'" if "received_only p1 (h1 @ [RtpWritten sent]) p' h'" for p' h'
      using that ensured received_layers [OF that]
      unfolding video_kept_def stream_ensured_def received_only_def by auto
    ultimately show ?thesis
      unfolding write_rtp_def
      by (intro run_post_bind run_post_logged run_post_weaken [OF after_write [OF once]]) (auto simp: Let_def)
  qed
  show ?thesis
    unfolding write_video_packet_def Let_def negotiated_def
  proof (rule run_post_bind, rule run_post_result, rule run_post_bind, rule run_post_at, rule run_post_seq [OF ensure_video_post])
    fix mid payload_type p1 h1
    assume "ok_or ''camera publication has no negotiated send path'' (map_option (\<lambda>slot. rw_mid w (us_mid slot))
          (rp_video_upload_slot p)) = Inr mid"
      and ensured: "stream_ensured mid (vp_layer packet) p h p1 h1"
    then obtain slot where slot: "rp_video_upload_slot p = Some slot" "mid = rw_mid w (us_mid slot)"
      by (auto simp: ok_or_def err_def split: option.splits)
    let ?sent = "\<lparr>wr_mid = mid, wr_rid = Some (rid (vp_layer packet)), wr_payload_type = payload_type,
          wr_sequence = ucast (vp_sequence_number packet), wr_timestamp = vp_rtp_timestamp packet,
          wr_wallclock = at, wr_marker = vp_marker packet,
          wr_extensions = vp_extension_values packet, wr_extension_mid = Some mid,
          wr_extension_rid = Some (rid (vp_layer packet)), wr_payload = vp_payload packet\<rparr>"
    have "video_fields w p packet at ?sent" using slot by (simp add: video_fields_def)
    then show "run_post (bind_run (write_rtp w ''failed to find the video RTP stream'' ?sent) (\<lambda>_.
        bind_run (drain_output w p1) (\<lambda>p. bind_run (apply_due_timeouts w p) (\<lambda>p.
        return_run (length (vp_payload packet), p))))) h1 ?Q ?E"
      using rest ensured by simp
  qed (use quiet in auto)
qed

lemma sent_once_after:
  assumes "sent_once good h1 h'" and "h1 = h @ new" and "rtp_written new = []"
    and "\<And>packet before. good packet before \<Longrightarrow> good' packet (new @ before)"
  shows "sent_once good' h h'"
proof -
  obtain before packet after where s: "h' = h1 @ before @ RtpWritten packet # after" "rtp_written before = []" "rtp_written after = []"
      "good packet before"
    using assms(1) by (auto simp: sent_once_def)
  show ?thesis unfolding sent_once_def
    by (rule exI [of _ "new @ before"], rule exI [of _ packet], rule exI [of _ after]) (use s assms(2-4) in auto)
qed

text \<open>The write of a due packet: its wallclock is its emission time after the origin, and the clock had reached it.\<close>

definition video_due :: "rtc_world \<Rightarrow> rtc_peer \<Rightarrow> video_packet \<Rightarrow> rtp_write \<Rightarrow> rtc_entry list \<Rightarrow> bool" where
  "video_due w p packet sent before \<longleftrightarrow>
     video_fields w p packet (wr_wallclock sent) sent \<and> on_declared p packet sent before \<and>
     sees_clock (wr_wallclock sent) before \<and>
     (\<exists>origin. origin_of p origin \<and> wr_wallclock sent = origin + vp_emitted_at packet)"

lemma send_video_post:
  "run_post (send_video_packet w packet p) h
     (\<lambda>(n, p') h'. n = length (vp_payload packet) \<and> sent_once (video_due w p packet) h h' \<and> video_kept p packet p')
     (\<lambda>h'. writes_nothing h h' \<or> sent_once (video_due w p packet) h h')" (is "run_post _ h ?Q ?E")
  unfolding send_video_packet_def
proof (rule run_post_seq [OF pace_post])
  fix x h1
  assume "(\<lambda>(send_at, p1) h1. paced p h (vp_emitted_at packet) send_at p1 h1) x h1"
  then obtain send_at p1 where x: "x = (send_at, p1)" and paced: "paced p h (vp_emitted_at packet) send_at p1 h1"
    by (cases x) auto
  obtain origin new where origin: "h1 = h @ new" "sees_clock send_at new" "origin_of p origin"
      "send_at = origin + vp_emitted_at packet" "received_only (p\<lparr>rp_send_origin := Some origin\<rparr>) h p1 h1"
    using paced by (auto simp: paced_def)
  have p1: "rp_video_upload_slot p1 = rp_video_upload_slot p" "rtp_written new = []"
    using origin by (auto simp: received_only_def)
  have layers: "layer_declared l (rp_declared p1) = layer_declared l (rp_declared p)" for l
    using received_layers [OF origin(5)] by simp
  have due: "video_due w p packet sent (new @ before)"
    if "video_fields w p1 packet send_at sent \<and> on_declared p1 packet sent before" for sent before
    using that origin(2-4) p1(1) layers
    by (auto simp: video_due_def video_fields_def on_declared_def sees_clock_def)
  note lifted = sent_once_after [OF _ origin(1) p1(2), where good' = "video_due w p packet"]
  have kept: "video_kept p1 packet p' \<longleftrightarrow> video_kept p packet p'" for p'
    by (simp add: video_kept_def p1(1) layers)
  have "run_post (write_video_packet w packet send_at p1) h1 ?Q ?E"
  proof (rule run_post_weaken [OF write_video_post])
    fix h'
    assume "writes_nothing h1 h' \<or>
      sent_once (\<lambda>sent before. video_fields w p1 packet send_at sent \<and> on_declared p1 packet sent before) h1 h'"
    then show "?E h'" using lifted due writes_nothing_trans [OF received_only_silent [OF origin(5)]] by blast
  qed (use lifted due kept in auto)
  then show "run_post (case x of (packet_wallclock, p) \<Rightarrow> write_video_packet w packet packet_wallclock p) h1 ?Q ?E"
    unfolding x by simp
qed auto

text \<open>
  C29: a video packet is written at most once, exactly once when the send succeeds, unchanged, in its own layer and
  section, not before its time, and on a stream that is declared by then. The length returned is that of its payload.
\<close>

theorem rtc_video_written_once:
  assumes "send_video_packet w packet p h = Some (r, h')"
  shows "(\<exists>new. h' = h @ new \<and> rtp_written new = []) \<and> \<not> is_ok r \<or>
    (\<exists>before sent after. h' = h @ before @ RtpWritten sent # after \<and> rtp_written before = [] \<and> rtp_written after = [] \<and>
       video_due w p packet sent before) \<and>
    (\<forall>n p'. r = Inr (n, p') \<longrightarrow> n = length (vp_payload packet))"
proof (cases r)
  case (Inl e)
  then show ?thesis using run_post_Inl [OF send_video_post] assms by (auto simp: writes_nothing_def sent_once_def)
next
  case (Inr x)
  then show ?thesis using run_post_Inr [OF send_video_post] assms by (cases x) (fastforce simp: sent_once_def)
qed

text \<open>The same for audio, whose stream has no layer.\<close>

definition audio_due :: "rtc_peer \<Rightarrow> audio_packet \<Rightarrow> rtp_write \<Rightarrow> rtc_entry list \<Rightarrow> bool" where
  "audio_due p packet sent before \<longleftrightarrow>
     wr_rid sent = None \<and> wr_payload sent = ap_payload packet \<and>
     unat (wr_sequence sent) = unat (ap_sequence_number packet) \<and> wr_timestamp sent = ap_rtp_timestamp packet \<and>
     wr_extensions sent = ap_extension_values packet \<and> sees_clock (wr_wallclock sent) before \<and>
     (\<exists>origin. origin_of p origin \<and> wr_wallclock sent = origin + ap_emitted_at packet)"

lemma ensure_audio_post:
  "run_post (ensure_audio_stream w mid p) h (\<lambda>p' h'. writes_nothing h h' \<and> same_video p p') (writes_nothing h)"
proof (cases "ds_audio (rp_declared p)")
  case True
  then show ?thesis unfolding ensure_audio_stream_def by (auto intro!: run_post_return)
next
  case False
  let ?e = "StreamDeclared AUDIO_SSRC mid None"
  have at: "received_only p h p (h @ [?e])" by (intro received_entry) auto
  have "run_post (bind_run (drain_output w p) (\<lambda>p. return_run (set_audio True p))) (h @ [?e])
      (\<lambda>p' h'. writes_nothing h h' \<and> same_video p p') (writes_nothing h)"
    by (intro run_post_bind receives_from [OF drain_receives at] run_post_return)
       (auto dest: received_same_video simp: same_video_set_audio)
  then show ?thesis
    using False at unfolding ensure_audio_stream_def declare_stream_def
    by (auto intro!: run_post_bind run_post_logged)
qed

lemma write_audio_post:
  fixes p packet at
  defines "good \<equiv> \<lambda>sent before. wr_rid sent = None \<and> wr_payload sent = ap_payload packet \<and>
     unat (wr_sequence sent) = unat (ap_sequence_number packet) \<and> wr_timestamp sent = ap_rtp_timestamp packet \<and>
     wr_extensions sent = ap_extension_values packet \<and> wr_wallclock sent = (at :: instant)"
  shows "run_post (write_audio_packet w packet at p) h
     (\<lambda>(n, p') h'. n = length (ap_payload packet) \<and> sent_once good h h' \<and> same_video p p')
     (\<lambda>h'. writes_nothing h h' \<or> sent_once good h h')"
    (is "run_post _ h ?Q ?E")
proof -
  have quiet: "?E h" by simp
  have rest: "run_post (bind_run (write_rtp w msg sent) (\<lambda>_. bind_run (drain_output w p1) (\<lambda>p.
        bind_run (apply_due_timeouts w p) (\<lambda>p. return_run (length (ap_payload packet), p))))) h1 ?Q ?E"
    if ensured: "writes_nothing h h1 \<and> same_video p p1" and sent: "good sent []" for sent p1 h1 msg
  proof -
    obtain new where new: "h1 = h @ new" "rtp_written new = []" using ensured by (auto simp: writes_nothing_def)
    have once: "sent_once good h (h1 @ [RtpWritten sent])"
      unfolding sent_once_def
      by (rule exI [of _ new], rule exI [of _ sent], rule exI [of _ "[]"]) (use new sent in \<open>simp add: good_def\<close>)
    show ?thesis
      unfolding write_rtp_def using ensured
      by (intro run_post_bind run_post_logged run_post_weaken [OF after_write [OF once]])
         (auto dest: received_same_video intro: same_video_trans)
  qed
  show ?thesis
    unfolding write_audio_packet_def Let_def negotiated_def
  proof (rule run_post_bind, rule run_post_result, rule run_post_bind, rule run_post_at, rule run_post_seq [OF ensure_audio_post])
    fix mid payload_type p1 h1
    assume "writes_nothing h h1 \<and> same_video p p1"
    then show "run_post (bind_run (write_rtp w ''failed to find the audio RTP stream''
         \<lparr>wr_mid = mid, wr_rid = None, wr_payload_type = payload_type,
          wr_sequence = ucast (ap_sequence_number packet), wr_timestamp = ap_rtp_timestamp packet,
          wr_wallclock = at, wr_marker = False,
          wr_extensions = ap_extension_values packet, wr_extension_mid = None, wr_extension_rid = None,
          wr_payload = ap_payload packet\<rparr>) (\<lambda>_. bind_run (drain_output w p1) (\<lambda>p.
        bind_run (apply_due_timeouts w p) (\<lambda>p. return_run (length (ap_payload packet), p))))) h1 ?Q ?E"
      by (intro rest) (simp_all add: good_def)
  qed (use quiet in auto)
qed

lemma send_audio_post:
  "run_post (send_audio_packet w packet p) h
     (\<lambda>(n, p') h'. n = length (ap_payload packet) \<and> sent_once (audio_due p packet) h h' \<and> same_video p p')
     (\<lambda>h'. writes_nothing h h' \<or> sent_once (audio_due p packet) h h')" (is "run_post _ h ?Q ?E")
  unfolding send_audio_packet_def
proof (rule run_post_seq [OF pace_post])
  fix x h1
  assume "(\<lambda>(send_at, p1) h1. paced p h (ap_emitted_at packet) send_at p1 h1) x h1"
  then obtain send_at p1 origin new where x: "x = (send_at, p1)" and origin: "h1 = h @ new" "sees_clock send_at new"
      "origin_of p origin" "send_at = origin + ap_emitted_at packet" "received_only (p\<lparr>rp_send_origin := Some origin\<rparr>) h p1 h1"
    by (cases x) (auto simp: paced_def)
  have new: "rtp_written new = []" using origin by (auto simp: received_only_def)
  have video: "same_video p p1" using received_same_video [OF origin(5)] by (simp add: same_video_def)
  note lifted = sent_once_after [OF _ origin(1) new, where good' = "audio_due p packet"]
  have quiet: "writes_nothing h h1" using origin(5) by blast
  have "run_post (write_audio_packet w packet send_at p1) h1 ?Q ?E"
    by (rule run_post_weaken [OF write_audio_post])
       (use origin quiet in \<open>auto intro!: lifted intro: same_video_trans [OF video] writes_nothing_trans [OF quiet] simp: audio_due_def sees_clock_def\<close>)
  then show "run_post (case x of (packet_wallclock, p) \<Rightarrow> write_audio_packet w packet packet_wallclock p) h1 ?Q ?E"
    unfolding x by simp
qed auto

section \<open>Video streams are declared before they carry packets\<close>

definition streams_ready :: "rtc_world \<Rightarrow> rtc_peer \<Rightarrow> rtc_entry list \<Rightarrow> bool" where
  "streams_ready w p h \<longleftrightarrow>
     (\<forall>layer. layer_declared layer (rp_declared p) \<longrightarrow>
        (\<exists>slot. rp_video_upload_slot p = Some slot \<and>
           StreamDeclared (layer_ssrc layer) (rw_mid w (us_mid slot)) (Some (rid layer)) \<in> set h))"

text \<open>The operations after which a peer is used further, each when it succeeded.\<close>

inductive rtc_history :: "rtc_world \<Rightarrow> rtc_peer \<Rightarrow> rtc_entry list \<Rightarrow> bool" for w where
  bound: "bind_peer w [] = Some (Inr p, h) \<Longrightarrow> rtc_history w p h"
| answered: "rtc_history w p h \<Longrightarrow> answer_offer w sdp slots p h = Some (Inr (answer, p'), h') \<Longrightarrow> rtc_history w p' h'"
| waited: "rtc_history w p h \<Longrightarrow> wait_until_connected w window p h = Some (Inr (u, p'), h') \<Longrightarrow> rtc_history w p' h'"
| audio_sent: "rtc_history w p h \<Longrightarrow> send_audio_packet w audio p h = Some (Inr (n, p'), h') \<Longrightarrow> rtc_history w p' h'"
| video_sent: "rtc_history w p h \<Longrightarrow> send_video_packet w video p h = Some (Inr (n, p'), h') \<Longrightarrow> rtc_history w p' h'"
| payload_read: "rtc_history w p h \<Longrightarrow> read_rtp_payload w window p h = Some (Inr (payload, p'), h') \<Longrightarrow> rtc_history w p' h'"
| pacing_reset: "rtc_history w p h \<Longrightarrow> rtc_history w (reset_send_pacing p) h"
| origin_set: "rtc_history w p h \<Longrightarrow> rtc_history w (set_send_origin origin p) h"

definition declared_first :: "rtc_entry list \<Rightarrow> bool" where
  "declared_first h \<longleftrightarrow>
     (\<forall>before sent after layer_rid. h = before @ RtpWritten sent # after \<longrightarrow> wr_rid sent = Some layer_rid \<longrightarrow>
        (\<exists>ssrc. StreamDeclared ssrc (wr_mid sent) (Some layer_rid) \<in> set before))"

lemma declared_first_silent:
  assumes "declared_first h" and "rtp_written new = []"
  shows "declared_first (h @ new)"
proof -
  have no: "RtpWritten sent \<notin> set new" for sent using assms(2) written_in [of sent new] by simp
  show ?thesis
    unfolding declared_first_def
  proof (intro allI impI)
    fix before sent after layer_rid
    assume split: "h @ new = before @ RtpWritten sent # after" and sent: "wr_rid sent = Some layer_rid"
    obtain us where "h = before @ us \<and> us @ new = RtpWritten sent # after \<or>
        before = h @ us \<and> new = us @ RtpWritten sent # after"
      using split unfolding append_eq_append_conv2 by blast
    then have "h = before @ us \<and> us @ new = RtpWritten sent # after" using no [of sent] by auto
    then obtain rest where "h = before @ RtpWritten sent # rest" using no [of sent] by (cases us) auto
    then show "\<exists>ssrc. StreamDeclared ssrc (wr_mid sent) (Some layer_rid) \<in> set before"
      using assms(1) sent unfolding declared_first_def by blast
  qed
qed

lemma declared_first_write:
  assumes "declared_first h"
    and "\<And>layer_rid. wr_rid sent = Some layer_rid \<Longrightarrow> \<exists>ssrc. StreamDeclared ssrc (wr_mid sent) (Some layer_rid) \<in> set h"
  shows "declared_first (h @ [RtpWritten sent])"
  unfolding declared_first_def
proof (intro allI impI)
  fix before packet after layer_rid
  assume split: "h @ [RtpWritten sent] = before @ RtpWritten packet # after" and packet: "wr_rid packet = Some layer_rid"
  consider "h = before" "packet = sent" | rest where "h = before @ RtpWritten packet # rest"
    using split by (cases after rule: rev_cases) auto
  then show "\<exists>ssrc. StreamDeclared ssrc (wr_mid packet) (Some layer_rid) \<in> set before"
  proof cases
    case 1
    then show ?thesis using assms(2) packet by blast
  next
    case (2 rest)
    then show ?thesis using assms(1) packet unfolding declared_first_def by blast
  qed
qed

definition history_inv :: "rtc_world \<Rightarrow> rtc_peer \<Rightarrow> rtc_entry list \<Rightarrow> bool" where
  "history_inv w p h \<longleftrightarrow> streams_ready w p h \<and> declared_first h"

lemma inv_quiet:
  assumes "history_inv w p h" and "h' = h @ new" and "rtp_written new = []" and "same_video p p'"
  shows "history_inv w p' h'"
  using assms declared_first_silent [of h new] unfolding history_inv_def streams_ready_def same_video_def by auto

lemma inv_received: "history_inv w p h \<Longrightarrow> received_only p h p' h' \<Longrightarrow> history_inv w p' h'"
  by (erule received_parts) (rule inv_quiet)

lemma inv_audio:
  assumes "history_inv w p h" and "send_audio_packet w packet p h = Some (Inr (n, p'), h')"
  shows "history_inv w p' h'"
proof -
  have post: "sent_once (audio_due p packet) h h'" "same_video p p'"
    using run_post_Inr [OF send_audio_post assms(2)] by auto
  obtain before sent after where h': "h' = h @ before @ RtpWritten sent # after" "rtp_written before = []" "rtp_written after = []"
      and sent: "wr_rid sent = None"
    using post(1) by (auto simp: sent_once_def audio_due_def)
  have "declared_first (((h @ before) @ [RtpWritten sent]) @ after)"
    by (intro declared_first_silent declared_first_write)
       (use assms(1) h' sent in \<open>auto simp: history_inv_def\<close>)
  then show ?thesis
    using assms(1) post(2) h'(1) unfolding history_inv_def streams_ready_def same_video_def by auto
qed

lemma inv_video:
  assumes inv: "history_inv w p h" and send: "send_video_packet w packet p h = Some (Inr (n, p'), h')"
  shows "history_inv w p' h'"
proof -
  have post: "sent_once (video_due w p packet) h h'" "video_kept p packet p'"
    using run_post_Inr [OF send_video_post send] by auto
  obtain before sent after where h': "h' = h @ before @ RtpWritten sent # after" "rtp_written before = []" "rtp_written after = []"
      and sent: "video_due w p packet sent before"
    using post(1) by (auto simp: sent_once_def)
  obtain slot where slot: "rp_video_upload_slot p = Some slot" "wr_mid sent = rw_mid w (us_mid slot)"
      "wr_rid sent = Some (rid (vp_layer packet))"
    using sent by (auto simp: video_due_def video_fields_def)
  have declared: "StreamDeclared (layer_ssrc (vp_layer packet)) (wr_mid sent) (wr_rid sent) \<in> set (h @ before)"
    using sent inv slot unfolding video_due_def on_declared_def history_inv_def streams_ready_def by auto
  have "declared_first (((h @ before) @ [RtpWritten sent]) @ after)"
    by (intro declared_first_silent declared_first_write)
       (use inv h' slot declared in \<open>auto simp: history_inv_def\<close>)
  moreover have "streams_ready w p' h'"
    using inv post(2) h'(1) slot declared unfolding history_inv_def streams_ready_def video_kept_def by auto
  ultimately show ?thesis using h'(1) by (simp add: history_inv_def)
qed

lemma answer_offer_receives:
  "run_post (answer_offer w sdp slots p) h
     (\<lambda>(answer, p') h'. received_only (adopt_upload_slot slots p) h p' h') (writes_nothing h)"
  unfolding answer_offer_def Let_def
  by (intro run_post_bind run_post_result received_logged [where p = "adopt_upload_slot slots p"]
      receives_from [OF drain_receives] run_post_return) auto

lemma wait_connected_receives:
  "run_post (wait_until_connected w window p) h
     (\<lambda>(u, p') h'. received_only p h p' h' \<and> rp_connected p') (writes_nothing h)"
proof -
  have loop: "receives (loop_run (connect_step w deadline))" for deadline
    by (rule receives_loop) (rule connect_step_receives)
  show ?thesis
    unfolding wait_until_connected_def clock_read_def
    by (intro run_post_bind received_logged receives_from [OF loop] run_post_ensure run_post_return) auto
qed

lemma inv_answer:
  assumes inv: "history_inv w p h" and answer: "answer_offer w sdp slots p h = Some (Inr (answer, p'), h')"
  shows "history_inv w p' h'"
proof -
  have "streams_ready w (adopt_upload_slot slots p) h"
    using inv unfolding history_inv_def streams_ready_def adopt_upload_slot_def
    by (auto split: option.splits) (case_tac layer; auto)+
  then have adopted: "history_inv w (adopt_upload_slot slots p) h" using inv by (simp add: history_inv_def)
  from run_post_Inr [OF answer_offer_receives answer] show ?thesis using inv_received [OF adopted] by simp
qed

lemma inv_waited:
  assumes "history_inv w p h" and "wait_until_connected w window p h = Some (Inr (u, p'), h')"
  shows "history_inv w p' h'"
  using run_post_Inr [OF wait_connected_receives assms(2)] inv_received [OF assms(1)] by simp

lemma logged_Inr: "logged reply entry h = Some (Inr x, h') \<longleftrightarrow> reply h = Inr x \<and> h' = h @ [entry x]"
  by (auto simp: logged_def split: sum.splits)

lemma result_run_Inr: "result_run r h = Some (Inr x, h') \<longleftrightarrow> r = Inr x \<and> h' = h"
  by (auto simp: result_run_def)

lemma ensure_run_Inr: "ensure_run c msg m h = Some (Inr x, h') \<longleftrightarrow> c \<and> m h = Some (Inr x, h')"
  by (simp add: ensure_run_def result_run_def err_def)

lemma bind_peer_parts:
  assumes "bind_peer w h = Some (Inr p, h')"
  obtains t new where "h' = h @ [SocketBound, ClockSeen t, EngineBuilt] @ new" "rtp_written new = []" "EngineBuilt \<notin> set new"
    "\<And>layer. \<not> layer_declared layer (rp_declared p)" "rp_connected p \<Longrightarrow> connection_reported new"
proof -
  define p0 where "p0 t = \<lparr>rp_connected = False, rp_audio_send_mid = None, rp_video_upload_slot = None,
      rp_declared = \<lparr>ds_audio = False, ds_video_low = False, ds_video_high = False\<rparr>,
      rp_pending = [], rp_next_timeout = t, rp_send_origin = None\<rparr>" for t
  have none: "\<not> layer_declared layer (rp_declared (p0 t))" "\<not> rp_connected (p0 t)" for layer t
    by (cases layer; simp add: p0_def)+
  let ?h = "\<lambda>t. h @ [SocketBound, ClockSeen t, EngineBuilt]"
  have "\<exists>t. drain_output w (p0 t) (?h t) = Some (Inr p, h')"
    using assms
    by (simp only: bind_peer_def clock_read_def p0_def [symmetric] bind_run_Inr logged_Inr result_run_Inr ensure_run_Inr)
       (elim exE conjE, simp only: append.assoc append_Nil append_Cons, blast)
  then obtain t where drained: "drain_output w (p0 t) (?h t) = Some (Inr p, h')" by blast
  have "received_only (p0 t) (?h t) p h'"
    using run_post_Inr [OF drain_receives [unfolded receives_def, rule_format] drained] .
  then show thesis
    by (rule received_parts) (rule that [of t], use none same_video_def in auto)
qed

lemma inv_bound:
  assumes "bind_peer w [] = Some (Inr p, h)"
  shows "history_inv w p h"
  using assms
proof (rule bind_peer_parts)
  fix t new
  assume bound: "h = [] @ [SocketBound, ClockSeen t, EngineBuilt] @ new" "rtp_written new = []"
    "\<And>layer. \<not> layer_declared layer (rp_declared p)"
  have "declared_first []" by (simp add: declared_first_def)
  from declared_first_silent [OF this, of "[SocketBound, ClockSeen t, EngineBuilt] @ new"] have "declared_first h"
    using bound(1,2) by simp
  moreover have "streams_ready w p h" using bound(3) by (simp add: streams_ready_def)
  ultimately show ?thesis by (simp add: history_inv_def)
qed

lemma history_keeps: "rtc_history w p h \<Longrightarrow> history_inv w p h"
proof (induction rule: rtc_history.induct)
  case (payload_read p h window payload p' h')
  then show ?case using run_post_Inr [OF read_delivers payload_read.hyps(2)] inv_quiet
    by (auto simp: delivers_def)
next
  case (pacing_reset p h)
  then show ?case by (simp add: history_inv_def streams_ready_def reset_send_pacing_def)
next
  case (origin_set p h origin)
  then show ?case by (simp add: history_inv_def streams_ready_def set_send_origin_def)
qed (auto intro: inv_bound inv_answer inv_waited inv_audio inv_video)

text \<open>
  no video packet goes out on an undeclared stream. In every history of a peer, through renegotiations that move
  the upload to another section, each packet with a layer is preceded by the declaration of a stream for its section
  and layer.
\<close>

theorem rtc_video_declared_first:
  assumes "rtc_history w p (before @ RtpWritten sent # after)" and "wr_rid sent = Some layer_rid"
  shows "\<exists>ssrc. StreamDeclared ssrc (wr_mid sent) (Some layer_rid) \<in> set before"
  using history_keeps [OF assms(1)] assms(2) unfolding history_inv_def declared_first_def by blast

end
