(* ===== verification/ProtocolFacts.thy ===== *)
theory ProtocolFacts
  imports Protocol RtcPeerFacts
begin

text \<open>
  Facts of the protocol peers: every negotiation the core asks for is answered once, a new engine is built for the
  initial offers only, the core hears of a ready transport only after the engine reported its connection, the signaling
  task answers every ping, and no packet passes a load peer whose signaling has stopped.
\<close>

section \<open>Negotiations\<close>

definition is_answer :: "signal_entry \<Rightarrow> bool" where
  "is_answer e \<longleftrightarrow> (\<exists>request_id kind answer commands. e = CoreCalled (CoreAnswer request_id kind answer) commands)"

definition is_offer_answer :: "signal_entry \<Rightarrow> bool" where
  "is_offer_answer e \<longleftrightarrow> (\<exists>request_id answer commands. e = CoreCalled (CoreAnswer request_id InitialOffer answer) commands)"

definition answers :: "signal_entry list \<Rightarrow> nat" where
  "answers log = length (filter is_answer log)"

definition offer_answers :: "signal_entry list \<Rightarrow> nat" where
  "offer_answers log = length (filter is_offer_answer log)"

definition engines_built :: "signal_entry list \<Rightarrow> nat" where
  "engines_built log = length (filter (\<lambda>e. e = RtcEntry EngineBuilt) log)"

text \<open>What the current engine did: the entries since the last one was built.\<close>

definition last_session :: "rtc_entry list \<Rightarrow> rtc_entry list" where
  "last_session log = rev (takeWhile (\<lambda>e. e \<noteq> EngineBuilt) (rev log))"

lemma last_session_append: "EngineBuilt \<notin> set new \<Longrightarrow> last_session (log @ new) = last_session log @ new"
  unfolding last_session_def by (subst rev_append, subst takeWhile_append2) auto

lemma last_session_built: "EngineBuilt \<notin> set new \<Longrightarrow> last_session (log @ EngineBuilt # new) = new"
  unfolding last_session_def by (simp, subst takeWhile_append2) auto

lemma rtc_entries_append [simp]: "rtc_entries (a @ b) = rtc_entries a @ rtc_entries b"
  by (simp add: rtc_entries_def)

lemma rtc_entries_Cons [simp]: "rtc_entries [] = []" "rtc_entries (RtcEntry x # log) = x # rtc_entries log"
  by (simp_all add: rtc_entries_def)

lemma rtc_entries_map [simp]: "rtc_entries (map RtcEntry log) = log"
  by (induction log) (simp_all add: rtc_entries_def)

lemma count_simps [simp]:
  "answers (a @ b) = answers a + answers b" "offer_answers (a @ b) = offer_answers a + offer_answers b"
  "engines_built (a @ b) = engines_built a + engines_built b"
  "answers [] = 0" "offer_answers [] = 0" "engines_built [] = 0"
  "answers (e # a) = (if is_answer e then 1 else 0) + answers a"
  "offer_answers (e # a) = (if is_offer_answer e then 1 else 0) + offer_answers a"
  "engines_built (e # a) = (if e = RtcEntry EngineBuilt then 1 else 0) + engines_built a"
  by (simp_all add: answers_def offer_answers_def engines_built_def)

lemma count_rtc [simp]: "answers (map RtcEntry log) = 0" "offer_answers (map RtcEntry log) = 0"
  by (induction log) (simp_all add: is_answer_def is_offer_answer_def)

lemma engines_rtc: "EngineBuilt \<notin> set log \<Longrightarrow> engines_built (map RtcEntry log) = 0"
  by (induction log) auto

definition session_ok :: "protocol_peer \<Rightarrow> signal_entry list \<Rightarrow> bool" where
  "session_ok p h \<longleftrightarrow>
     (\<forall>rtc. pp_rtc p = Some rtc \<longrightarrow> rp_connected rtc \<longrightarrow> connection_reported (last_session (rtc_entries h)))"

text \<open>From \<open>p\<close> and \<open>h\<close> the peer got to \<open>p'\<close> and \<open>h'\<close>, its count kept and engines built only for offers.\<close>

definition negotiated_only :: "protocol_peer \<Rightarrow> signal_entry list \<Rightarrow> protocol_peer \<Rightarrow> signal_entry list \<Rightarrow> bool" where
  "negotiated_only p h p' h' \<longleftrightarrow>
     (\<exists>new. h' = h @ new \<and> pp_negotiation_count p' = pp_negotiation_count p + answers new \<and>
        engines_built new = offer_answers new) \<and>
     (session_ok p h \<longrightarrow> session_ok p' h')"

lemma negotiated_refl [simp]: "negotiated_only p h p h"
  by (simp add: negotiated_only_def)

lemma negotiated_trans:
  "negotiated_only p h p' h' \<Longrightarrow> negotiated_only p' h' p'' h'' \<Longrightarrow> negotiated_only p h p'' h''"
  unfolding negotiated_only_def by (elim conjE exE) auto

abbreviation negotiates :: "(protocol_peer \<Rightarrow> protocol_peer signal_run) \<Rightarrow> bool" where
  "negotiates m \<equiv> (\<forall>p h. run_post (m p) h (negotiated_only p h) (\<lambda>h. True))"

text \<open>An entry that concerns neither the core's negotiations nor the engine.\<close>

definition plain :: "signal_entry \<Rightarrow> bool" where
  "plain e \<longleftrightarrow> \<not> is_answer e \<and> (\<forall>x. e \<noteq> RtcEntry x)"

lemma plain_entry:
  assumes "plain e" and "pp_negotiation_count p' = pp_negotiation_count p" and "pp_rtc p' = pp_rtc p \<or> pp_rtc p' = None"
  shows "negotiated_only p h p' (h @ [e])"
proof -
  have "rtc_entries [e] = []" using assms(1) by (cases e) (auto simp: plain_def rtc_entries_def)
  moreover have "\<not> is_answer e" "\<not> is_offer_answer e" "e \<noteq> RtcEntry EngineBuilt"
    using assms(1) by (auto simp: plain_def is_answer_def is_offer_answer_def)
  ultimately show ?thesis
    unfolding negotiated_only_def using assms(2,3)
    by (intro conjI exI [of _ "[e]"]) (auto simp: session_ok_def)
qed

lemma on_rtc_post:
  assumes "run_post (m (pw_rtc w h)) (rtc_entries h)
      (\<lambda>x log. \<exists>new. log = rtc_entries h @ new \<and> Q x (h @ map RtcEntry new)) F"
    and "\<And>h'. E h'"
  shows "run_post (on_rtc w m) h Q E"
proof (rule run_postI)
  show "E h'" if "on_rtc w m h = Some (Inl e, h')" for e h' by (rule assms(2))
  fix x h'
  assume "on_rtc w m h = Some (Inr x, h')"
  then obtain log where "m (pw_rtc w h) (rtc_entries h) = Some (Inr x, log)"
      "h' = h @ map RtcEntry (drop (length (rtc_entries h)) log)"
    by (auto simp: on_rtc_def split: option.splits prod.splits)
  then show "Q x h'" using run_post_Inr [OF assms(1)] by fastforce
qed

text \<open>An operation of the current engine.\<close>

lemma session_continues:
  assumes "received_only rtc0 (rtc_entries h) rtc' (rtc_entries h @ new)" and "pp_rtc p = Some rtc"
    and "rp_connected rtc0 \<longleftrightarrow> rp_connected rtc"
  shows "negotiated_only p h (p\<lparr>pp_rtc := Some rtc'\<rparr>) (h @ map RtcEntry new)"
proof -
  have new: "EngineBuilt \<notin> set new" "rp_connected rtc' \<Longrightarrow> rp_connected rtc \<or> connection_reported new"
    using assms(1,3) by (auto simp: received_only_def)
  then have "session_ok (p\<lparr>pp_rtc := Some rtc'\<rparr>) (h @ map RtcEntry new)" if "session_ok p h"
    using that assms(2) last_session_append [OF new(1)] by (auto simp: session_ok_def)
  then show ?thesis
    unfolding negotiated_only_def
    by (intro conjI exI [of _ "map RtcEntry new"]) (auto simp: engines_rtc [OF new(1)])
qed

lemma core_post:
  assumes "\<And>commands. Q commands (h @ [CoreCalled call commands])" and "\<And>h'. E h'"
  shows "run_post (core w call) h Q E"
  unfolding core_def using assms by (intro run_post_logged) auto

lemma adopt_connected [simp]: "rp_connected (adopt_upload_slot slots p) = rp_connected p"
  by (simp add: adopt_upload_slot_def split: option.split)

text \<open>The answer to one offer: one more negotiation, and one engine more exactly for an initial offer.\<close>

lemma apply_negotiation_post:
  "run_post (apply_negotiation w request_id kind sdp slots p) h (\<lambda>(p', commands) h'. negotiated_only p h p' h') (\<lambda>h. True)"
proof -
  define started where "started p1 h1 \<longleftrightarrow> pp_negotiation_count p1 = pp_negotiation_count p \<and>
     (\<exists>new. h1 = h @ new \<and> answers new = 0 \<and> offer_answers new = 0 \<and>
        engines_built new = (if kind = InitialOffer then 1 else 0)) \<and> (session_ok p h \<longrightarrow> session_ok p1 h1)" for p1 h1
  have bound: "run_post (if kind = InitialOffer then bind_run (on_rtc w bind_peer) (\<lambda>rtc. return_run (p\<lparr>pp_rtc := Some rtc\<rparr>))
      else return_run p) h started (\<lambda>h. True)"
  proof (cases "kind = InitialOffer")
    case True
    have "run_post (bind_peer (pw_rtc w h)) (rtc_entries h)
        (\<lambda>rtc log. \<exists>new. log = rtc_entries h @ new \<and> started (p\<lparr>pp_rtc := Some rtc\<rparr>) (h @ map RtcEntry new)) (\<lambda>h. True)"
    proof (rule run_postI)
      fix rtc log
      assume "bind_peer (pw_rtc w h) (rtc_entries h) = Some (Inr rtc, log)"
      then show "\<exists>new. log = rtc_entries h @ new \<and> started (p\<lparr>pp_rtc := Some rtc\<rparr>) (h @ map RtcEntry new)"
      proof (rule bind_peer_parts)
        fix t new
        assume new: "log = rtc_entries h @ [SocketBound, ClockSeen t, EngineBuilt] @ new" "EngineBuilt \<notin> set new"
          "rp_connected rtc \<Longrightarrow> connection_reported new"
        have "last_session ((rtc_entries h @ [SocketBound, ClockSeen t]) @ EngineBuilt # new) = new"
          by (rule last_session_built [OF new(2)])
        then show ?thesis
          using new(3) True engines_rtc [OF new(2)] unfolding started_def new(1)
          by (intro exI [of _ "[SocketBound, ClockSeen t, EngineBuilt] @ new"] conjI)
             (auto simp: session_ok_def is_answer_def is_offer_answer_def)
      qed
    qed simp
    then have "run_post (on_rtc w bind_peer) h (\<lambda>rtc h'. started (p\<lparr>pp_rtc := Some rtc\<rparr>) h') (\<lambda>h. True)"
      by (rule on_rtc_post) simp
    then have "run_post (bind_run (on_rtc w bind_peer) (\<lambda>rtc. return_run (p\<lparr>pp_rtc := Some rtc\<rparr>))) h started (\<lambda>h. True)"
      by (rule run_post_chain) (rule run_post_return)
    then show ?thesis using True by simp
  qed (auto intro!: run_post_return simp: started_def)
  show ?thesis
    unfolding apply_negotiation_def
  proof (rule run_post_chain [OF bound])
    fix p1 h1
    assume started: "started p1 h1"
    show "run_post (bind_run (rtc_mut p1) (\<lambda>rtc.
        bind_run (on_rtc w (\<lambda>r. answer_offer r sdp slots rtc)) (\<lambda>(answer, rtc).
        bind_run (core w (CoreAnswer request_id kind answer)) (\<lambda>commands.
        return_run (p1\<lparr>pp_rtc := Some rtc, pp_negotiation_count := pp_negotiation_count p1 + 1\<rparr>, commands))))) h1
        (\<lambda>(p', commands) h'. negotiated_only p h p' h') (\<lambda>h. True)"
    proof (unfold rtc_mut_def, intro run_post_bind run_post_result on_rtc_post, simp_all only:)
      fix rtc
      assume "ok_or rtc_missing (pp_rtc p1) = Inr rtc"
      then have rtc: "pp_rtc p1 = Some rtc" by (auto simp: ok_or_def err_def split: option.splits)
      show "run_post (answer_offer (pw_rtc w h1) sdp slots rtc) (rtc_entries h1)
          (\<lambda>x log. \<exists>new. log = rtc_entries h1 @ new \<and>
             run_post (case x of (answer, rtc) \<Rightarrow> bind_run (core w (CoreAnswer request_id kind answer)) (\<lambda>commands.
                return_run (p1\<lparr>pp_rtc := Some rtc, pp_negotiation_count := pp_negotiation_count p1 + 1\<rparr>, commands)))
               (h1 @ map RtcEntry new) (\<lambda>(p', commands) h'. negotiated_only p h p' h') (\<lambda>h. True))
          (writes_nothing (rtc_entries h1))"
      proof (rule run_post_weaken [OF answer_offer_receives])
        fix x :: "string \<times> rtc_peer" and log
        assume "(\<lambda>(answer, p') h'. received_only (adopt_upload_slot slots rtc) (rtc_entries h1) p' h') x log"
        then obtain answer rtc' new where x: "x = (answer, rtc')" and log: "log = rtc_entries h1 @ new"
            and received: "received_only (adopt_upload_slot slots rtc) (rtc_entries h1) rtc' (rtc_entries h1 @ new)"
          by (cases x) (auto simp: received_only_def)
        have "negotiated_only p h
            (p1\<lparr>pp_rtc := Some rtc', pp_negotiation_count := pp_negotiation_count p1 + 1\<rparr>)
            (h1 @ map RtcEntry new @ [CoreCalled (CoreAnswer request_id kind answer) commands])" for commands
        proof -
          have step: "negotiated_only p1 h1 (p1\<lparr>pp_rtc := Some rtc'\<rparr>) (h1 @ map RtcEntry new)"
            by (rule session_continues [OF received rtc]) simp
          have built: "engines_built (map RtcEntry new) = 0" using received engines_rtc by (auto simp: received_only_def)
          obtain old where old: "h1 = h @ old" "answers old = 0" "offer_answers old = 0"
              "engines_built old = (if kind = InitialOffer then 1 else 0)"
            using started by (auto simp: started_def)
          show ?thesis
            using started step old built unfolding started_def negotiated_only_def
            by (intro conjI exI [of _ "old @ map RtcEntry new @ [CoreCalled (CoreAnswer request_id kind answer) commands]"])
               (auto simp: is_answer_def is_offer_answer_def session_ok_def rtc_entries_def)
        qed
        then show "\<exists>new. log = rtc_entries h1 @ new \<and>
             run_post (case x of (answer, rtc) \<Rightarrow> bind_run (core w (CoreAnswer request_id kind answer)) (\<lambda>commands.
                return_run (p1\<lparr>pp_rtc := Some rtc, pp_negotiation_count := pp_negotiation_count p1 + 1\<rparr>, commands)))
               (h1 @ map RtcEntry new) (\<lambda>(p', commands) h'. negotiated_only p h p' h') (\<lambda>h. True)"
          using log x by (intro exI [of _ new]) (auto intro!: run_post_bind core_post run_post_return)
      qed simp
    qed
  qed
qed

lemma negotiates_from:
  assumes "negotiates m" and "negotiated_only p0 h0 p h" and "\<And>p' h'. negotiated_only p0 h0 p' h' \<Longrightarrow> Q p' h'"
  shows "run_post (m p) h Q (\<lambda>h. True)"
proof (rule run_post_weaken [OF assms(1) [rule_format]])
  show "Q p' h'" if "negotiated_only p h p' h'" for p' h'
    using assms(3) negotiated_trans [OF assms(2) that] .
qed

lemma negotiated_logged:
  assumes "negotiated_only p0 h0 p h" and "\<And>x. plain (entry x)"
    and "\<And>x. negotiated_only p0 h0 p (h @ [entry x]) \<Longrightarrow> Q x (h @ [entry x])"
  shows "run_post (logged reply entry) h Q (\<lambda>h. True)"
proof (rule run_post_logged)
  fix x
  have "negotiated_only p h p (h @ [entry x])" by (rule plain_entry) (simp_all add: assms(2))
  then show "Q x (h @ [entry x])" using assms(3) negotiated_trans [OF assms(1)] by blast
qed simp

text \<open>An update of the peer that touches neither its count nor its engine, other than dropping it.\<close>

lemma negotiated_update:
  assumes "negotiated_only p0 h0 p h" and "pp_negotiation_count p' = pp_negotiation_count p"
    and "pp_rtc p' = pp_rtc p \<or> pp_rtc p' = None"
  shows "negotiated_only p0 h0 p' h"
  using assms unfolding negotiated_only_def by (auto simp: session_ok_def)

lemma plain_simps [simp]:
  "plain (WsOpened url)" "plain (WsSent frame)" "plain (WsReceived m)" "plain WsClosed" "plain (TimerSlept d)"
  "plain ShutdownSeen" "plain TaskJoined"
  "plain (CoreCalled CoreWsOpen cs)" "plain (CoreCalled (CoreConnect url jwt room) cs)" "plain (CoreCalled (CoreWsMessage received) cs)"
  "plain (CoreCalled CoreTransportReady cs)" "plain (CoreCalled (CoreTimer timer) cs)"
  "plain (CoreCalled (CorePublish stream b) cs)" "plain (CoreCalled (CoreSubscribe user states) cs)"
  by (simp_all add: plain_def is_answer_def)

lemma run_command_post:
  assumes "negotiated_only p0 h0 p h"
  shows "run_post (run_command w command p) h (\<lambda>(p', commands) h'. negotiated_only p0 h0 p' h') (\<lambda>h. True)"
proof (cases command)
  case (ApplyNegotiation request_id kind sdp slots)
  have "run_post (apply_negotiation w request_id kind sdp slots p) h (\<lambda>(p', commands) h'. negotiated_only p0 h0 p' h') (\<lambda>h. True)"
    by (rule run_post_weaken [OF apply_negotiation_post]) (auto intro: negotiated_trans [OF assms])
  then show ?thesis using ApplyNegotiation by simp
qed (auto simp: core_def send_frame_def close_socket_def schedule_def unschedule_def
    intro!: run_post_bind run_post_ensure run_post_return negotiated_logged [OF assms] negotiated_logged
    intro: negotiated_update assms)

lemma run_commands_negotiates: "negotiates (run_commands w commands)"
proof (intro allI)
  fix p0 h0
  show "run_post (run_commands w commands p0) h0 (negotiated_only p0 h0) (\<lambda>h. True)"
    unfolding run_commands_def
  proof (rule run_post_loop [where I = "\<lambda>(p, pending) h. negotiated_only p0 h0 p h"])
    fix s :: "protocol_peer \<times> command list" and h
    assume "(\<lambda>(p, pending) h. negotiated_only p0 h0 p h) s h"
    then obtain p pending where s: "s = (p, pending)" and at: "negotiated_only p0 h0 p h" by (cases s) auto
    show "run_post (command_step w s) h
        (\<lambda>r h'. case r of Inl s' \<Rightarrow> (\<lambda>(p, pending) h. negotiated_only p0 h0 p h) s' h' | Inr x \<Rightarrow> negotiated_only p0 h0 x h')
        (\<lambda>h. True)"
    proof (cases pending)
      case Nil
      then show ?thesis unfolding command_step_def s using at by (auto intro!: run_post_return)
    next
      case (Cons command rest)
      show ?thesis unfolding command_step_def s Cons prod.case list.case
        by (rule run_post_chain [OF run_command_post [OF at]]) (auto intro!: run_post_return)
    qed
  qed simp
qed

lemma call_core_negotiates:
  assumes "\<And>commands. plain (CoreCalled call commands)"
  shows "negotiates (call_core w call)"
  unfolding call_core_def core_def
  by (intro allI run_post_bind negotiated_logged [OF negotiated_refl] negotiates_from [OF run_commands_negotiates] assms)

lemma run_post_within: "run_post m h Q E \<Longrightarrow> E h \<Longrightarrow> run_post (within_time w m) h Q E"
  by (simp add: run_post_def within_time_def err_def)

lemma read_text_plain:
  assumes "negotiated_only p0 h0 p h"
  shows "run_post (read_text_message w) h (\<lambda>text h'. negotiated_only p0 h0 p h') (\<lambda>h. True)"
  unfolding read_text_message_def
proof (rule run_post_loop [where I = "\<lambda>s. negotiated_only p0 h0 p"])
  fix s h
  assume at: "negotiated_only p0 h0 p h"
  show "run_post (read_text_step w s) h
      (\<lambda>r h'. case r of Inl s' \<Rightarrow> negotiated_only p0 h0 p h' | Inr x \<Rightarrow> negotiated_only p0 h0 p h') (\<lambda>h. True)"
    unfolding read_text_step_def next_message_def
  proof (intro run_post_within run_post_bind negotiated_logged [OF at])
    fix message
    assume received: "negotiated_only p0 h0 p (h @ [WsReceived message])"
    show "run_post (case message of
        TextMessage payload \<Rightarrow> return_run (Inr payload)
      | PingMessage payload \<Rightarrow>
          within_time w (
          bind_run (send_frame w ''failed to answer an o-sfu WebSocket ping'' (PongFrame payload)) (\<lambda>_. return_run (Inl ())))
      | PongMessage \<Rightarrow> return_run (Inl ())
      | _ \<Rightarrow> result_run (err ''o-sfu sent an unexpected WebSocket frame'')) (h @ [WsReceived message])
      (\<lambda>r h'. case r of Inl s' \<Rightarrow> negotiated_only p0 h0 p h' | Inr x \<Rightarrow> negotiated_only p0 h0 p h') (\<lambda>h. True)"
      using received
      by (cases message)
         (auto simp: send_frame_def err_def
           intro!: run_post_within run_post_bind run_post_return run_post_result negotiated_logged)
  qed simp_all
qed (rule assms)

lemma read_until_negotiates: "negotiates (read_until_negotiation w expected_count)"
proof (intro allI)
  fix p0 h0
  show "run_post (read_until_negotiation w expected_count p0) h0 (negotiated_only p0 h0) (\<lambda>h. True)"
    unfolding read_until_negotiation_def
  proof (rule run_post_loop [where I = "negotiated_only p0 h0"])
    fix p h
    assume "negotiated_only p0 h0 p h"
    then show "run_post (negotiation_step w expected_count p) h
        (\<lambda>r h'. case r of Inl s' \<Rightarrow> negotiated_only p0 h0 s' h' | Inr x \<Rightarrow> negotiated_only p0 h0 x h') (\<lambda>h. True)"
      unfolding negotiation_step_def
      by (intro run_post_if run_post_ensure run_post_bind run_post_weaken [OF read_text_plain]
          negotiates_from [OF call_core_negotiates] run_post_return) auto
  qed simp
qed

lemma flush_negotiates: "negotiates (flush_next_timer w)"
  unfolding flush_next_timer_def
  by (intro allI run_post_bind run_post_result run_post_prod negotiated_logged [OF negotiated_refl]
      negotiates_from [OF call_core_negotiates]) (auto simp: unschedule_def intro: negotiated_update)

lemma publish_negotiates: "negotiates (publish w stream)"
  unfolding publish_def accept_next_negotiation_def
  by (intro allI run_post_bind negotiates_from [OF call_core_negotiates] negotiates_from [OF flush_negotiates]
      negotiates_from [OF read_until_negotiates]) auto

lemma subscribe_negotiates: "negotiates (subscribe_all w layouts)"
proof (induction layouts)
  case Nil
  then show ?case by (auto intro!: run_post_return)
next
  case (Cons layout layouts)
  then show ?case
    by (cases layout) (auto intro!: run_post_bind negotiates_from [OF call_core_negotiates] negotiates_from [OF Cons])
qed

lemma layouts_negotiates: "negotiates (set_camera_layouts w layouts)"
  unfolding set_camera_layouts_def
  by (intro allI run_post_bind run_post_if run_post_return negotiates_from [OF subscribe_negotiates]
      negotiates_from [OF flush_negotiates]) auto

text \<open>Reading until a negotiation ends with one.\<close>

lemma read_until_reached:
  "run_post (read_until_negotiation w expected_count p) h (\<lambda>p' h'. expected_count \<le> pp_negotiation_count p') (\<lambda>h. True)"
  unfolding read_until_negotiation_def
proof (rule run_post_loop [where I = "\<lambda>p h. True"])
  fix p h
  show "run_post (negotiation_step w expected_count p) h
      (\<lambda>r h'. case r of Inl s' \<Rightarrow> True | Inr x \<Rightarrow> expected_count \<le> pp_negotiation_count x) (\<lambda>h. True)"
    by (rule run_postI) (auto simp: negotiation_step_def ensure_run_def bind_run_Inr return_run_def result_run_def err_def
        split: sum.splits if_splits)
qed simp

lemma publish_steps:
  assumes "publish w stream p h = Some (Inr p', h')"
  obtains commands where "negotiated_only p (h @ [CoreCalled (CorePublish stream True) commands]) p' h'"
    "pp_negotiation_count p < pp_negotiation_count p'"
proof -
  obtain commands p1 h1 p2 h2 where run:
      "run_commands w commands p (h @ [CoreCalled (CorePublish stream True) commands]) = Some (Inr p1, h1)"
      "flush_next_timer w p1 h1 = Some (Inr p2, h2)"
      "read_until_negotiation w (pp_negotiation_count p2 + 1) p2 h2 = Some (Inr p', h')"
    using assms by (auto simp: publish_def accept_next_negotiation_def call_core_def core_def bind_run_Inr logged_Inr)
  have steps: "negotiated_only p (h @ [CoreCalled (CorePublish stream True) commands]) p1 h1"
      "negotiated_only p1 h1 p2 h2" "negotiated_only p2 h2 p' h'"
    using run_post_Inr [OF run_commands_negotiates [rule_format] run(1)] run_post_Inr [OF flush_negotiates [rule_format] run(2)]
      run_post_Inr [OF read_until_negotiates [rule_format] run(3)] by auto
  have "pp_negotiation_count p2 + 1 \<le> pp_negotiation_count p'" using run_post_Inr [OF read_until_reached run(3)] .
  moreover have "pp_negotiation_count p \<le> pp_negotiation_count p2" using steps(1,2) by (auto simp: negotiated_only_def)
  ultimately have grown: "pp_negotiation_count p < pp_negotiation_count p'" by simp
  show thesis using that [OF negotiated_trans [OF steps(1) negotiated_trans [OF steps(2,3)]] grown] .
qed

text \<open>
  publishing is negotiated. When \<open>publish\<close> succeeds, at least one negotiation was answered after the core was told,
  the peer's count grew by exactly the answers the core was given, and a new engine was built for each answered initial
  offer and for nothing else, so later offers keep the connection.
\<close>

theorem publish_negotiated:
  assumes "publish w stream p h = Some (Inr p', h')"
  shows "\<exists>commands new. h' = h @ CoreCalled (CorePublish stream True) commands # new \<and> 0 < answers new \<and>
    pp_negotiation_count p' = pp_negotiation_count p + answers new \<and> engines_built new = offer_answers new"
  using assms
proof (rule publish_steps)
  fix commands
  assume steps: "negotiated_only p (h @ [CoreCalled (CorePublish stream True) commands]) p' h'"
    and grown: "pp_negotiation_count p < pp_negotiation_count p'"
  obtain new where new: "h' = (h @ [CoreCalled (CorePublish stream True) commands]) @ new"
      "pp_negotiation_count p' = pp_negotiation_count p + answers new" "engines_built new = offer_answers new"
    using steps by (auto simp: negotiated_only_def)
  have "0 < answers new" using new(2) grown by simp
  then show ?thesis using new by (intro exI [of _ commands] exI [of _ new]) simp
qed

text \<open>
  the core hears of a ready transport only when there is one. When a peer has joined, it had answered a negotiation
  and the engine built last had reported its connection before \<open>on_transport_ready\<close> was called.
\<close>

theorem connect_announces_connection:
  assumes "connect_peer w url jwt room_id [] = Some (Inr p, h)"
  shows "\<exists>before commands after. h = before @ CoreCalled CoreTransportReady commands # after \<and> 0 < answers before \<and>
    connection_reported (last_session (rtc_entries before)) \<and> engines_built before = offer_answers before"
proof -
  obtain p1 h1 p2 h2 rtc u rtc' h3 commands where run:
      "call_core w (CoreConnect url jwt (Some room_id)) new_protocol_peer [] = Some (Inr p1, h1)"
      "read_until_negotiation w 1 p1 h1 = Some (Inr p2, h2)" "pp_rtc p2 = Some rtc"
      "on_rtc w (\<lambda>r. wait_until_connected r (from_secs 10) rtc) h2 = Some (Inr (u, rtc'), h3)"
      "run_commands w commands (p2\<lparr>pp_rtc := Some rtc'\<rparr>) (h3 @ [CoreCalled CoreTransportReady commands]) = Some (Inr p, h)"
    using assms
    by (auto simp: connect_peer_def call_core_def [of w CoreTransportReady] core_def bind_run_Inr logged_Inr rtc_mut_def result_run_Inr
        ok_or_def err_def split: option.splits)
  have wait: "run_post (on_rtc w (\<lambda>r. wait_until_connected r (from_secs 10) rtc)) h2
      (\<lambda>(u, rtc') h3. negotiated_only p2 h2 (p2\<lparr>pp_rtc := Some rtc'\<rparr>) h3 \<and> rp_connected rtc') (\<lambda>h. True)"
  proof (rule on_rtc_post [OF run_post_weaken [OF wait_connected_receives]])
    fix x :: "unit \<times> rtc_peer" and log
    assume "(\<lambda>(u, rtc') log. received_only rtc (rtc_entries h2) rtc' log \<and> rp_connected rtc') x log"
    then obtain rtc' new where x: "snd x = rtc'" "rp_connected rtc'" "log = rtc_entries h2 @ new"
        "received_only rtc (rtc_entries h2) rtc' (rtc_entries h2 @ new)"
      by (cases x) (auto simp: received_only_def)
    then show "\<exists>new. log = rtc_entries h2 @ new \<and> (\<lambda>(u, rtc') h3. negotiated_only p2 h2 (p2\<lparr>pp_rtc := Some rtc'\<rparr>) h3 \<and>
        rp_connected rtc') x (h2 @ map RtcEntry new)"
      using session_continues [OF x(4) run(3)] by (cases x) auto
  qed simp_all
  note waited = run_post_Inr [OF wait run(4), simplified]
  have joined: "negotiated_only new_protocol_peer [] p1 h1"
    using run_post_Inr [OF call_core_negotiates [rule_format] run(1)] by simp
  have negotiated: "negotiated_only p1 h1 p2 h2"
    using run_post_Inr [OF read_until_negotiates [rule_format] run(2)] .
  have all: "negotiated_only new_protocol_peer [] (p2\<lparr>pp_rtc := Some rtc'\<rparr>) h3"
    using negotiated_trans [OF joined negotiated_trans [OF negotiated conjunct1 [OF waited]]] .
  have "session_ok new_protocol_peer []" by (simp add: session_ok_def new_protocol_peer_def)
  then have session: "connection_reported (last_session (rtc_entries h3))"
    using all waited by (auto simp: negotiated_only_def session_ok_def)
  have "1 \<le> pp_negotiation_count p2" using run_post_Inr [OF read_until_reached run(2)] .
  then have counted: "0 < answers h3" "engines_built h3 = offer_answers h3"
    using all by (auto simp: negotiated_only_def new_protocol_peer_def)
  obtain after where "h = (h3 @ [CoreCalled CoreTransportReady commands]) @ after"
    using run_post_Inr [OF run_commands_negotiates [rule_format] run(5)] by (auto simp: negotiated_only_def)
  then have "h = h3 @ CoreCalled CoreTransportReady commands # after" by simp
  then show ?thesis using session counted by blast
qed

section \<open>The signaling task\<close>

fun pings :: "signal_entry list \<Rightarrow> bytes list" where
  "pings [] = []"
| "pings (WsReceived (PingMessage payload) # log) = payload # pings log"
| "pings (entry # log) = pings log"

fun pongs :: "signal_entry list \<Rightarrow> bytes list" where
  "pongs [] = []"
| "pongs (WsSent (PongFrame payload) # log) = payload # pongs log"
| "pongs (entry # log) = pongs log"

lemma pings_append [simp]: "pings (a @ b) = pings a @ pings b"
  by (induction a rule: pings.induct) auto

lemma pongs_append [simp]: "pongs (a @ b) = pongs a @ pongs b"
  by (induction a rule: pongs.induct) auto

text \<open>So far every ping has its pong and the socket is open.\<close>

definition serviced :: "signal_entry list \<Rightarrow> signal_entry list \<Rightarrow> bool" where
  "serviced h h' \<longleftrightarrow> (\<exists>new. h' = h @ new \<and> pings new = pongs new \<and> WsClosed \<notin> set new)"

definition service_failed :: "signal_entry list \<Rightarrow> signal_entry list \<Rightarrow> bool" where
  "service_failed h h' \<longleftrightarrow>
     (\<exists>new. h' = h @ new \<and> WsClosed \<notin> set new \<and> (pings new = pongs new \<or> (\<exists>payload. pings new = pongs new @ [payload])))"

lemma serviced_failed: "serviced h h' \<Longrightarrow> service_failed h h'"
  by (auto simp: serviced_def service_failed_def)

lemma serviced_ping:
  "serviced h h1 \<Longrightarrow> service_failed h (h1 @ [WsReceived (PingMessage payload)])"
  "serviced h h1 \<Longrightarrow> serviced h (h1 @ [WsReceived (PingMessage payload), WsSent (PongFrame payload)])"
  by (auto simp: serviced_def service_failed_def)

lemma serviced_other:
  "serviced h h1 \<Longrightarrow> (\<And>payload. message \<noteq> PingMessage payload) \<Longrightarrow> serviced h (h1 @ [WsReceived message])"
  by (cases message) (auto simp: serviced_def)

lemma service_step_post:
  assumes at: "serviced h0 h"
  shows "run_post (service_step w s) h
    (case_sum (\<lambda>s. serviced h0) (\<lambda>u h'. \<exists>before. serviced h0 before \<and> h' = before @ [WsClosed])) (service_failed h0)"
    (is "run_post _ h ?Q ?E")
proof (cases "pw_select w h")
  case ShutdownSignalled
  have "run_post (bind_run (close_socket w ''failed to close the fixed-work WebSocket'') (\<lambda>_. return_run (Inr ()))) h ?Q ?E"
    unfolding close_socket_def
    by (intro run_post_bind run_post_logged run_post_return serviced_failed [OF at]) (use at in auto)
  then show ?thesis by (simp add: run_post_def service_step_def ShutdownSignalled)
next
  case (SocketItem item)
  have "run_post (bind_run (logged (\<lambda>h. case item of
              None \<Rightarrow> err ''o-sfu closed its fixed-work WebSocket''
            | Some m \<Rightarrow> with_context ''failed to read the fixed-work WebSocket'' m) WsReceived) (\<lambda>message.
          case message of
            PingMessage payload \<Rightarrow>
              bind_run (send_frame w ''failed to answer an o-sfu WebSocket ping'' (PongFrame payload)) (\<lambda>_. return_run (Inl ()))
          | PongMessage \<Rightarrow> return_run (Inl ())
          | TextMessage payload \<Rightarrow> return_run (Inl ())
          | _ \<Rightarrow> result_run (err ''o-sfu sent an unexpected fixed-work WebSocket frame''))) h ?Q ?E"
  proof (intro run_post_bind run_post_logged serviced_failed [OF at])
    fix message
    show "run_post (case message of
            PingMessage payload \<Rightarrow>
              bind_run (send_frame w ''failed to answer an o-sfu WebSocket ping'' (PongFrame payload)) (\<lambda>_. return_run (Inl ()))
          | PongMessage \<Rightarrow> return_run (Inl ())
          | TextMessage payload \<Rightarrow> return_run (Inl ())
          | _ \<Rightarrow> result_run (err ''o-sfu sent an unexpected fixed-work WebSocket frame'')) (h @ [WsReceived message]) ?Q ?E"
    proof (cases message)
      case (PingMessage payload)
      then show ?thesis
        unfolding send_frame_def using serviced_ping [OF at]
        by (auto intro!: run_post_bind run_post_logged run_post_return)
    qed (auto intro!: run_post_return run_post_result serviced_other [OF at] serviced_failed simp: err_def)
  qed
  then show ?thesis by (simp add: run_post_def service_step_def SocketItem)
qed

text \<open>
  the signaling task answers every ping, in order, with its own payload. However it ends, at most the last ping is
  without a pong, and only after a failure; it succeeds only by closing the socket, once and as its last action.
\<close>

theorem signaling_answers_pings:
  assumes "service_signaling w h = Some (r, h')"
  shows "\<exists>new. h' = h @ new \<and>
    (is_ok r \<and> pings new = pongs new \<and> (\<exists>before. new = before @ [WsClosed] \<and> WsClosed \<notin> set before) \<or>
     \<not> is_ok r \<and> WsClosed \<notin> set new \<and> (pings new = pongs new \<or> (\<exists>payload. pings new = pongs new @ [payload])))"
proof -
  have post: "run_post (service_signaling w) h (\<lambda>u h'. \<exists>before. serviced h before \<and> h' = before @ [WsClosed]) (service_failed h)"
    unfolding service_signaling_def
  proof (rule run_post_loop [where I = "\<lambda>s. serviced h"])
    fix s h1
    assume "serviced h h1"
    from service_step_post [OF this] show "run_post (service_step w s) h1
        (\<lambda>r h'. case r of Inl s' \<Rightarrow> serviced h h' | Inr x \<Rightarrow> \<exists>before. serviced h before \<and> h' = before @ [WsClosed]) (service_failed h)"
      by (rule run_post_weaken) (auto split: sum.splits)
  qed (simp add: serviced_def)
  show ?thesis
  proof (cases r)
    case (Inl e)
    then show ?thesis using run_post_Inl [OF post] assms by (auto simp: service_failed_def)
  next
    case (Inr u)
    then obtain before new where "h' = h @ new @ [WsClosed]" "pings new = pongs new" "WsClosed \<notin> set new"
      using run_post_Inr [OF post] assms by (auto simp: serviced_def)
    then show ?thesis using Inr by (intro exI [of _ "new @ [WsClosed]"]) auto
  qed
qed

section \<open>Packets of a load peer\<close>

text \<open>
  a load peer does nothing once its signaling has stopped. A packet or payload passes exactly when the task is
  running before and after it and the RTC peer's own operation succeeds; when the task had stopped before, the operation
  fails without touching the engine.
\<close>

theorem load_peer_stops_with_signaling:
  assumes "lp_signaling_task p"
  shows "(checked_rtc w op p h = Some (Inr (x, p'), h') \<longleftrightarrow>
      \<not> pw_task_finished w h \<and> \<not> pw_task_finished w h' \<and>
      (\<exists>rtc. on_rtc w (\<lambda>r. op r (lp_rtc p)) h = Some (Inr (x, rtc), h') \<and> p' = p\<lparr>lp_rtc := rtc\<rparr>)) \<and>
    (pw_task_finished w h \<longrightarrow> (\<exists>e new. checked_rtc w op p h = Some (Inl e, h @ new) \<and> rtc_entries new = []))"
proof
  have check: "check_signaling w q g = Some (Inr q', g') \<longleftrightarrow> \<not> pw_task_finished w g \<and> q' = q \<and> g' = g"
    if "lp_signaling_task q" for q q' g g'
    using that by (auto simp: check_signaling_def return_run_def bind_run_Inr result_run_Inr err_def)
  show "checked_rtc w op p h = Some (Inr (x, p'), h') \<longleftrightarrow>
      \<not> pw_task_finished w h \<and> \<not> pw_task_finished w h' \<and>
      (\<exists>rtc. on_rtc w (\<lambda>r. op r (lp_rtc p)) h = Some (Inr (x, rtc), h') \<and> p' = p\<lparr>lp_rtc := rtc\<rparr>)"
    using assms by (auto simp: checked_rtc_def bind_run_Inr check return_run_def)
  show "pw_task_finished w h \<longrightarrow> (\<exists>e new. checked_rtc w op p h = Some (Inl e, h @ new) \<and> rtc_entries new = [])"
    using assms
    by (auto simp: checked_rtc_def check_signaling_def wait_for_signaling_def bind_run_def ensure_run_def logged_def
        result_run_def return_run_def err_def rtc_entries_def split: sum.splits)
qed

end
