(* ===== verification/JoiningFacts.thy ===== *)
theory JoiningFacts
  imports Joining ProtocolFacts
begin

text \<open>
  Facts of joining: every peer answers a negotiation for every publication in its room, and a peer subscribes to exactly
  the cameras, in exactly the layers, that its ledger will expect.
\<close>

section \<open>Outcomes\<close>

lemma bind_out_Inr: "bind_out m f = Some (Inr y) \<longleftrightarrow> (\<exists>x. m = Some (Inr x) \<and> f x = Some (Inr y))"
  by (auto simp: bind_out_def split: option.splits sum.splits)

lemma collect_Inr: "collect rs = Inr xs \<longleftrightarrow> rs = map Inr xs"
  by (induction rs arbitrary: xs) (auto simp: bind_ok_Inr Cons_eq_map_conv)

lemma those_Some: "those xs = Some ys \<longleftrightarrow> xs = map Some ys"
  by (induction xs arbitrary: ys) (auto split: option.splits simp: Cons_eq_map_conv)

lemma join_all_Inr: "join_all outcomes = Some (Inr xs) \<longleftrightarrow> outcomes = map (\<lambda>x. Some (Inr x)) xs"
  by (auto simp: join_all_def collect_Inr those_Some)

lemma peer_run_Inr: "peer_run m h = Some (Inr x) \<longleftrightarrow> m h = Some (Inr (fst x), snd x)"
  by (cases x) (auto simp: peer_run_def bind_ok_Inr)

section \<open>Every publication is negotiated by everyone\<close>

definition answered_more :: "nat \<Rightarrow> room_peer \<Rightarrow> room_peer \<Rightarrow> bool" where
  "answered_more k before after \<longleftrightarrow>
     (\<exists>new. snd after = snd before @ new \<and> k \<le> answers new \<and>
        pp_negotiation_count (fst after) = pp_negotiation_count (fst before) + answers new \<and>
        engines_built new = offer_answers new)"

lemma answered_trans: "answered_more j a b \<Longrightarrow> answered_more k b c \<Longrightarrow> answered_more (j + k) a c"
  unfolding answered_more_def by (elim exE conjE) (rule exI, auto)

lemma answered_refl: "answered_more 0 a a"
  by (auto simp: answered_more_def)

lemma publish_answered:
  assumes "publish_kind kind w p h = Some (Inr p', h')"
  shows "answered_more 1 (p, h) (p', h')"
proof -
  obtain stream where "publish w stream p h = Some (Inr p', h')"
    using assms by (cases kind) (auto simp: publish_kind_def publish_audio_def publish_camera_def)
  then show ?thesis
  proof (rule publish_steps)
    fix commands
    assume steps: "negotiated_only p (h @ [CoreCalled (CorePublish stream True) commands]) p' h'"
      and grown: "pp_negotiation_count p < pp_negotiation_count p'"
    then obtain new where new: "h' = h @ CoreCalled (CorePublish stream True) commands # new"
        "pp_negotiation_count p' = pp_negotiation_count p + answers new" "engines_built new = offer_answers new"
      by (auto simp: negotiated_only_def)
    then show ?thesis using grown unfolding answered_more_def
      by (intro exI [of _ "CoreCalled (CorePublish stream True) commands # new"]) (auto simp: is_answer_def is_offer_answer_def)
  qed
qed

lemma accept_answered:
  assumes "accept_next_negotiation w p h = Some (Inr p', h')"
  shows "answered_more 1 (p, h) (p', h')"
  using run_post_Inr [OF read_until_negotiates [rule_format] assms [unfolded accept_next_negotiation_def]]
    run_post_Inr [OF read_until_reached assms [unfolded accept_next_negotiation_def]]
  by (auto simp: negotiated_only_def answered_more_def)

text \<open>The peer \<open>i\<close> while another one publishes.\<close>

definition accept_one :: "join_world \<Rightarrow> nat \<Rightarrow> nat \<times> room_peer \<Rightarrow> room_peer outcome" where
  "accept_one w index x =
     (case x of (i, (peer, h)) \<Rightarrow>
        if i = index then Some (Inr (peer, h)) else peer_run (accept_next_negotiation (jw_peer w i) peer) h)"

lemma accept_others_answered:
  assumes "accept_others w index peers = Some (Inr peers')"
  shows "length peers' = length peers \<and>
    (\<forall>i<length peers. if i = index then peers' ! i = peers ! i else answered_more 1 (peers ! i) (peers' ! i))"
proof -
  have eq: "map (accept_one w index) (enumerate 0 peers) = map (\<lambda>x. Some (Inr x)) peers'"
    using assms by (simp add: accept_others_def join_all_Inr accept_one_def [abs_def] split_def)
  from arg_cong [OF eq, of length] have len: "length peers' = length peers" by simp
  have "if i = index then peers' ! i = peers ! i else answered_more 1 (peers ! i) (peers' ! i)" if i: "i < length peers" for i
  proof -
    obtain peer h where p: "peers ! i = (peer, h)" by fastforce
    have "accept_one w index (i, peer, h) = Some (Inr (peers' ! i))"
      using arg_cong [OF eq, of "\<lambda>xs. xs ! i"] i len p by (simp add: nth_enumerate_eq)
    then show ?thesis
      using accept_answered [of "jw_peer w i" peer h "fst (peers' ! i)" "snd (peers' ! i)"] p
      by (auto simp: peer_run_Inr accept_one_def split: if_splits)
  qed
  then show ?thesis using len by blast
qed

lemma publish_one_answered:
  assumes "publish_one w kind index peers = Some (Inr peers')"
  shows "list_all2 (answered_more 1) peers peers'"
proof -
  obtain p h where p: "index < length peers" "peers ! index = (p, h)"
    using assms by (cases "peers ! index") (auto simp: publish_one_def err_def split: if_splits)
  then obtain published where run: "publish_kind kind (jw_peer w index) p h = Some (Inr (fst published), snd published)"
      "accept_others w index (peers[index := published]) = Some (Inr peers')"
    using assms by (auto simp: publish_one_def bind_out_Inr peer_run_Inr)
  note others = accept_others_answered [OF run(2)]
  have "answered_more 1 (peers ! i) (peers' ! i)" if "i < length peers" for i
    using others that publish_answered [OF run(1)] p by (cases "i = index") auto
  then show ?thesis using others by (simp add: list_all2_conv_all_nth)
qed

text \<open>
  nobody misses a publication. After \<open>publish_sources\<close> every peer of the room, publisher or not, has answered at
  least as many negotiations as there were publications, and has built engines for initial offers only.
\<close>

theorem publications_negotiated_by_all:
  assumes "publish_sources w publisher_count kind peers = Some (Inr peers')"
  shows "list_all2 (answered_more (unat publisher_count)) peers peers'"
proof -
  have "list_all2 (answered_more (length indices)) peers peers'"
    if "publish_each w kind indices peers = Some (Inr peers')" for indices peers
    using that
  proof (induction indices arbitrary: peers)
    case Nil
    then show ?case by (auto simp: list_all2_conv_all_nth answered_refl)
  next
    case (Cons index indices)
    then obtain peers1 where "publish_one w kind index peers = Some (Inr peers1)"
        "publish_each w kind indices peers1 = Some (Inr peers')"
      by (auto simp: bind_out_Inr)
    then have "list_all2 (answered_more 1) peers peers1" "list_all2 (answered_more (length indices)) peers1 peers'"
      using publish_one_answered Cons.IH by auto
    then have "list_all2 (answered_more (1 + length indices)) peers peers'"
      by (rule list_all2_trans [rotated]) (rule answered_trans)
    then show ?case by simp
  qed
  from this [OF assms [unfolded publish_sources_def]] show ?thesis by simp
qed

section \<open>Subscriptions\<close>

fun subscriptions :: "signal_entry list \<Rightarrow> (int \<times> download_states) list" where
  "subscriptions [] = []"
| "subscriptions (CoreCalled (CoreSubscribe user_id states) commands # log) = (user_id, states) # subscriptions log"
| "subscriptions (entry # log) = subscriptions log"

lemma subscriptions_append [simp]: "subscriptions (a @ b) = subscriptions a @ subscriptions b"
  by (induction a rule: subscriptions.induct) auto

lemma subscriptions_rtc [simp]: "subscriptions (map RtcEntry log) = []"
  by (induction log) auto

text \<open>Runs that subscribe to nothing.\<close>

definition subscribes_nothing :: "'a signal_run \<Rightarrow> bool" where
  "subscribes_nothing m \<longleftrightarrow> (\<forall>h. run_post m h (\<lambda>x h'. subscriptions h' = subscriptions h) (\<lambda>h. True))"

named_theorems no_subscription \<open>runs that subscribe to nothing\<close>

lemma none_bind [no_subscription]:
  assumes "subscribes_nothing m" and "\<And>x. subscribes_nothing (f x)"
  shows "subscribes_nothing (bind_run m f)"
  unfolding subscribes_nothing_def
proof
  fix h
  show "run_post (bind_run m f) h (\<lambda>x h'. subscriptions h' = subscriptions h) (\<lambda>h. True)"
  proof (rule run_post_chain [OF assms(1) [unfolded subscribes_nothing_def, rule_format]])
    fix x h'
    assume "subscriptions h' = subscriptions h"
    then show "run_post (f x) h' (\<lambda>x h''. subscriptions h'' = subscriptions h) (\<lambda>h. True)"
      using assms(2) [of x, unfolded subscribes_nothing_def, rule_format, of h'] by simp
  qed
qed

lemma none_keeps: "subscribes_nothing m \<Longrightarrow> m h = Some (Inr x, h') \<Longrightarrow> subscriptions h' = subscriptions h"
  unfolding subscribes_nothing_def by (auto dest: run_post_Inr)

lemma none_return [no_subscription]: "subscribes_nothing (return_run x)"
  by (auto simp: subscribes_nothing_def intro: run_post_return)

lemma none_result [no_subscription]: "subscribes_nothing (result_run r)"
  by (auto simp: subscribes_nothing_def intro: run_post_result)

lemma none_ensure [no_subscription]: "subscribes_nothing m \<Longrightarrow> subscribes_nothing (ensure_run c msg m)"
  by (auto simp: subscribes_nothing_def intro: run_post_ensure)

lemma none_if [no_subscription]: "subscribes_nothing a \<Longrightarrow> subscribes_nothing b \<Longrightarrow> subscribes_nothing (if c then a else b)"
  by simp

lemma none_prod [no_subscription]: "(\<And>y z. subscribes_nothing (f y z)) \<Longrightarrow> subscribes_nothing (case x of (y, z) \<Rightarrow> f y z)"
  by (cases x) auto

lemma none_logged [no_subscription]:
  "(\<And>x. subscriptions [entry x] = []) \<Longrightarrow> subscribes_nothing (logged reply entry)"
  by (auto simp: subscribes_nothing_def intro: run_post_logged)

lemma none_on_rtc [no_subscription]: "subscribes_nothing (on_rtc w m)"
  unfolding subscribes_nothing_def
  by (intro allI run_postI) (auto simp: on_rtc_def split: option.splits prod.splits)

lemma none_loop:
  assumes "\<And>s. subscribes_nothing (body s)"
  shows "subscribes_nothing (loop_run body s)"
  unfolding subscribes_nothing_def
proof (intro allI)
  fix h
  show "run_post (loop_run body s) h (\<lambda>x h'. subscriptions h' = subscriptions h) (\<lambda>h. True)"
  proof (rule run_post_loop [where I = "\<lambda>s h'. subscriptions h' = subscriptions h"])
    fix s g
    assume "subscriptions g = subscriptions h"
    then show "run_post (body s) g (\<lambda>r h'. case r of Inl s' \<Rightarrow> subscriptions h' = subscriptions h
        | Inr x \<Rightarrow> subscriptions h' = subscriptions h) (\<lambda>h. True)"
      using assms [of s] unfolding subscribes_nothing_def by (auto intro: run_post_weaken split: sum.splits)
  qed simp
qed

lemma none_command [no_subscription]: "subscribes_nothing (run_command w command p)"
  by (cases command)
     (auto simp: core_def send_frame_def close_socket_def apply_negotiation_def rtc_mut_def intro!: no_subscription)

lemma none_commands [no_subscription]: "subscribes_nothing (run_commands w commands p)"
  unfolding run_commands_def command_step_def
  by (intro none_loop no_subscription) (auto intro!: no_subscription split: list.splits)

lemma none_flush [no_subscription]: "subscribes_nothing (flush_next_timer w p)"
  unfolding flush_next_timer_def call_core_def core_def by (intro no_subscription) auto

lemma subscribe_all_exact:
  "subscribe_all w layouts p h = Some (Inr p', h') \<Longrightarrow>
     subscriptions h' = subscriptions h @ map (\<lambda>(user_id, layout). (user_id, layout_states layout)) layouts"
proof (induction layouts arbitrary: p h)
  case Nil
  then show ?case by (simp add: return_run_def)
next
  case (Cons layout layouts)
  obtain user_id camera_layout where l: "layout = (user_id, camera_layout)" by fastforce
  obtain commands p1 h1 where run:
      "run_commands w commands p (h @ [CoreCalled (CoreSubscribe user_id (layout_states camera_layout)) commands]) = Some (Inr p1, h1)"
      "subscribe_all w layouts p1 h1 = Some (Inr p', h')"
    using Cons.prems by (auto simp: l call_core_def core_def bind_run_Inr logged_Inr)
  have "subscriptions h1 = subscriptions h @ [(user_id, layout_states camera_layout)]"
    using none_keeps [OF none_commands run(1)] by simp
  then show ?case using Cons.IH [OF run(2)] l by simp
qed

lemma layouts_exact:
  assumes "set_camera_layouts w layouts p h = Some (Inr p', h')"
  shows "\<exists>new. h' = h @ new \<and> subscriptions new = map (\<lambda>(user_id, layout). (user_id, layout_states layout)) layouts"
proof -
  obtain p1 h1 where run: "subscribe_all w layouts p h = Some (Inr p1, h1)"
      "(if layouts \<noteq> [] then flush_next_timer w p1 else return_run p1) h1 = Some (Inr p', h')"
    using assms by (auto simp: set_camera_layouts_def bind_run_Inr)
  have "subscribes_nothing (if layouts \<noteq> [] then flush_next_timer w p1 else return_run p1)" by (intro no_subscription)
  from none_keeps [OF this run(2)] have "subscriptions h' = subscriptions h1" .
  moreover obtain new where "h' = h @ new"
    using run_post_Inr [OF layouts_negotiates [rule_format] assms] by (auto simp: negotiated_only_def)
  ultimately show ?thesis using subscribe_all_exact [OF run(1)] by (intro exI [of _ new]) auto
qed

lemma configure_from_nth:
  assumes "configure_from w publisher_count k peers = Some (Inr peers')"
  shows "length peers' = length peers \<and>
    (\<forall>i<length peers. set_camera_layouts (jw_peer w (k + i)) (camera_layouts (k + i) publisher_count) (fst (peers ! i)) (snd (peers ! i))
       = Some (Inr (fst (peers' ! i)), snd (peers' ! i)))"
  using assms
proof (induction peers arbitrary: k peers')
  case Nil
  then show ?case by simp
next
  case (Cons peer peers)
  obtain p h where p: "peer = (p, h)" by fastforce
  obtain configured rest where run: "peers' = configured # rest"
      "set_camera_layouts (jw_peer w k) (camera_layouts k publisher_count) p h = Some (Inr (fst configured), snd configured)"
      "configure_from w publisher_count (Suc k) peers = Some (Inr rest)"
    using Cons.prems by (auto simp: p bind_out_Inr peer_run_Inr)
  show ?case using Cons.IH [OF run(3)] run(1,2) p by (auto simp: nth_Cons split: nat.splits)
qed

definition expects :: "u32 option \<Rightarrow> u32 \<Rightarrow> u32 \<Rightarrow> expected_stream \<Rightarrow> u32 \<Rightarrow> bool" where
  "expects featured r n stream s \<longleftrightarrow> source_id r n (unat s) = Inr (es_source stream) \<and>
     es_layer stream = Some (if featured = Some s then High else Low)"

lemma video_streams_subscribed:
  "video_streams_from featured r n i low high sources = Inr streams \<Longrightarrow>
     list_all2 (expects featured r n) streams (filter (\<lambda>s. unat s \<noteq> i) sources)"
proof (induction sources arbitrary: streams)
  case Nil
  then show ?case by simp
next
  case (Cons s sources)
  have "expects featured r n stream s"
    if "source_id r n (unat s) = Inr source" "video_stream source (if featured = Some s then High else Low) packets = Inr stream"
    for source packets stream
    using that new_stream_fresh unfolding video_stream_def expects_def by auto
  then show ?case using Cons by (auto simp: bind_ok_Inr Let_def simp del: if_split_asm)
qed

text \<open>
  C31: a peer asks the server for exactly what its ledger will expect. After the layouts of a room are configured, the
  subscriptions a peer made are, one for one and in order, those of the video streams its ledger expects: the camera of
  that source, as featured exactly when the ledger expects the high layer of it and as a thumbnail otherwise.
\<close>

theorem subscriptions_match_ledger:
  assumes "configure_video_layouts w publisher_count peers = Some (Inr peers')" and "i < length peers"
    and "expected_video_streams r n publisher_count i low high = Inr streams"
  shows "\<exists>new. snd (peers' ! i) = snd (peers ! i) @ new \<and>
    list_all2 (\<lambda>stream subscription. \<exists>s. source_id r n (unat s) = Inr (es_source stream) \<and>
        subscription = (uint (s :: u32) + 1,
          \<lparr>dl_camera = Some True,
           dl_camera_layout = Some (if es_layer stream = Some High then Featured else VisibleThumbnail)\<rparr>))
      streams (subscriptions new)"
proof -
  let ?sources = "filter (\<lambda>s. unat s \<noteq> i) (u32_range publisher_count)"
  let ?layout = "\<lambda>s. if featured_source i publisher_count = Some s then Featured else VisibleThumbnail"
  have "set_camera_layouts (jw_peer w i) (camera_layouts i publisher_count) (fst (peers ! i)) (snd (peers ! i))
      = Some (Inr (fst (peers' ! i)), snd (peers' ! i))"
    using configure_from_nth [OF assms(1) [unfolded configure_video_layouts_def]] assms(2) by simp
  then obtain new where new: "snd (peers' ! i) = snd (peers ! i) @ new"
      "subscriptions new = map (\<lambda>s. (uint s + 1, layout_states (?layout s))) ?sources"
    using layouts_exact by (fastforce simp: camera_layouts_def Let_def)
  have "list_all2 (expects (featured_source i publisher_count) r n) streams ?sources"
    using video_streams_subscribed assms(3) unfolding expected_video_streams_def .
  then have "list_all2 (\<lambda>stream subscription. \<exists>s. source_id r n (unat s) = Inr (es_source stream) \<and>
        subscription = (uint (s :: u32) + 1,
          \<lparr>dl_camera = Some True,
           dl_camera_layout = Some (if es_layer stream = Some High then Featured else VisibleThumbnail)\<rparr>))
      streams (map (\<lambda>s. (uint s + 1, layout_states (?layout s))) ?sources)"
    unfolding list.rel_map by (rule list.rel_mono_strong) (auto simp: layout_states_def expects_def)
  from this [folded new(2)] show ?thesis by (intro exI [of _ new] conjI new(1))
qed

end
