(* ===== verification/RtcPeerRuns.thy ===== *)
theory RtcPeerRuns
  imports RtcPeerFacts
begin

text \<open>
  Runs of the RTC driver: the loops that wait for a deadline end, the answer to an offer names every simulcast
  encoding, and examples of the driver with a concrete engine, one of them of an audio path that moves while its
  stream is being declared.
\<close>

section \<open>Runs that return\<close>

definition ends_always :: "('e, 'a) run \<Rightarrow> bool" where
  "ends_always m \<longleftrightarrow> (\<forall>h. m h \<noteq> None)"

named_theorems returning \<open>runs that return whatever the log\<close>

lemma ends_bind [returning]: "ends_always m \<Longrightarrow> (\<And>x. ends_always (f x)) \<Longrightarrow> ends_always (bind_run m f)"
  by (auto simp: ends_always_def bind_run_def split: option.splits sum.splits)

lemma ends_return [returning]: "ends_always (return_run x)"
  by (simp add: ends_always_def return_run_def)

lemma ends_result [returning]: "ends_always (result_run r)"
  by (simp add: ends_always_def result_run_def)

lemma ends_ensure [returning]: "ends_always m \<Longrightarrow> ends_always (ensure_run c msg m)"
  by (simp add: ends_always_def ensure_run_def result_run_def)

lemma ends_logged [returning]: "ends_always (logged reply entry)"
  by (simp add: ends_always_def logged_def split: sum.splits)

lemma ends_if [returning]: "ends_always a \<Longrightarrow> ends_always b \<Longrightarrow> ends_always (if c then a else b)"
  by simp

lemma ends_option [returning]:
  "ends_always a \<Longrightarrow> (\<And>y. ends_always (b y)) \<Longrightarrow> ends_always (case x of None \<Rightarrow> a | Some y \<Rightarrow> b y)"
  by (cases x) auto

lemma ends_prod [returning]: "(\<And>y z. ends_always (f y z)) \<Longrightarrow> ends_always (case x of (y, z) \<Rightarrow> f y z)"
  by (cases x) auto

lemma loop_run_returns:
  assumes "\<And>s. ends_always (body s)"
    and "\<And>s h s' h'. body s h = Some (Inr (Inl s'), h') \<Longrightarrow> rank h' < (rank h :: nat)"
  shows "ends_always (loop_run body s)"
proof -
  have "loop_run body s h \<noteq> None" for h
  proof (induction "rank h" arbitrary: s h rule: less_induct)
    case less
    obtain r h' where r: "body s h = Some (r, h')" using assms(1) unfolding ends_always_def by fastforce
    consider e where "r = Inl e" | x where "r = Inr (Inr x)" | s' where "r = Inr (Inl s')"
      by (metis sum.exhaust)
    then show ?case
    proof cases
      case (3 s')
      then show ?thesis using less.hyps [OF assms(2) [of s h s' h'], of s'] r
        by (subst loop_run.simps) simp
    qed (subst loop_run.simps, simp add: r)+
  qed
  then show ?thesis by (simp add: ends_always_def)
qed

text \<open>The documented contract of \<open>poll_output\<close>: polled again and again, the engine comes to a timeout.\<close>

definition engine_settles :: "rtc_world \<Rightarrow> (rtc_entry list \<Rightarrow> nat) \<Rightarrow> bool" where
  "engine_settles w rank \<longleftrightarrow>
     (\<forall>h contents destination. rw_poll w h = Inr (Transmit contents destination) \<longrightarrow>
        rank (h @ [Polled (Transmit contents destination), DatagramSent contents destination]) < rank h) \<and>
     (\<forall>h event. rw_poll w h = Inr (EngineOutput event) \<longrightarrow> rank (h @ [Polled (EngineOutput event)]) < rank h)"

lemma drain_returns:
  assumes "engine_settles w rank"
  shows "ends_always (drain_output w p)"
  unfolding drain_output_def
proof (rule loop_run_returns [where rank = rank])
  have "ends_always (\<lambda>h. bind_run (result_run (observe_event w h event p)) (\<lambda>p'. return_run (Inl p')) h)" for event p
    by (simp add: ends_always_def bind_run_def result_run_def return_run_def split: sum.splits)
  then show "ends_always (drain_step w s)" for s
    unfolding drain_step_def by (intro returning) (auto intro!: returning split: engine_output.splits)
  fix s h s' h'
  assume "drain_step w s h = Some (Inr (Inl s'), h')"
  then obtain polled where polled: "rw_poll w h = Inr polled"
      "(case polled of
         Transmit contents destination \<Rightarrow> h' = h @ [Polled polled, DatagramSent contents destination]
       | EngineOutput event \<Rightarrow> h' = h @ [Polled polled]
       | TimeoutAt t \<Rightarrow> False)"
    unfolding drain_step_def bind_run_Inr
    by (fastforce simp: logged_Inr result_run_Inr bind_run_Inr return_run_def checked_iff split: engine_output.splits)
  then show "rank h' < rank h"
    using assms unfolding engine_settles_def by (cases polled) auto
qed

lemma wait_for_input_returns:
  assumes "engine_settles w rank"
  shows "ends_always (wait_for_input w deadline p)"
  unfolding wait_for_input_def clock_read_def Let_def handle_timeout_def apply_datagram_def
  by (intro returning drain_returns [OF assms])

definition clock_passes :: "rtc_world \<Rightarrow> bool" where
  "clock_passes w \<longleftrightarrow> (\<forall>t. \<exists>n. \<forall>h. n \<le> length h \<longrightarrow> t \<le> rw_clock w h)"

text \<open>A loop that first reads the clock and goes on only before its deadline.\<close>

lemma deadline_loop_returns:
  assumes "clock_passes w"
    and "\<And>s. ends_always (body s)"
    and "\<And>s h s' h'. body s h = Some (Inr (Inl s'), h') \<Longrightarrow> rw_clock w h < deadline \<and> length h < length h'"
  shows "ends_always (loop_run body s)"
proof -
  obtain n where n: "\<And>h. n \<le> length h \<Longrightarrow> deadline \<le> rw_clock w h"
    using assms(1) unfolding clock_passes_def by blast
  show ?thesis
  proof (rule loop_run_returns [where rank = "\<lambda>h. n - length h"])
    fix s h s' h'
    assume "body s h = Some (Inr (Inl s'), h')"
    from assms(3) [OF this] n [of h] show "n - length h' < n - length h" by (meson diff_less_mono2 leI less_le_trans not_less)
  qed (rule assms(2))
qed

lemma wait_for_input_grows:
  "wait_for_input w deadline p h = Some (Inr p', h') \<Longrightarrow> length h \<le> length h'"
  using run_post_Inr [OF wait_for_input_receives [unfolded receives_def, rule_format]]
  by (fastforce simp: received_only_def)

text \<open>
  waiting ends. With an engine that settles and a clock that passes every instant, the wait for the connection,
  the pacing of a packet and the read of a payload with a window all return.
\<close>

theorem rtc_waits_return:
  assumes "engine_settles w rank" and "clock_passes w"
  shows "wait_until_connected w window p h \<noteq> None \<and> pace_until w emitted_at p h \<noteq> None \<and>
    (0 < window \<longrightarrow> read_rtp_payload w window p h \<noteq> None)"
proof -
  note waits = wait_for_input_returns [OF assms(1)]
  have connect: "ends_always (loop_run (connect_step w deadline) p)" for deadline p
  proof (rule deadline_loop_returns [OF assms(2)])
    show "ends_always (connect_step w deadline s)" for s
      unfolding connect_step_def clock_read_def by (intro returning waits)
    show "rw_clock w h < deadline \<and> length h < length h'"
      if "connect_step w deadline s h = Some (Inr (Inl s'), h')" for s h s' h'
      using that unfolding connect_step_def clock_read_def
      by (auto simp: bind_run_Inr logged_Inr return_run_def dest!: wait_for_input_grows split: if_splits)
  qed
  have pace: "ends_always (loop_run (pace_step w deadline) p)" for deadline p
  proof (rule deadline_loop_returns [OF assms(2)])
    show "ends_always (pace_step w deadline s)" for s
      unfolding pace_step_def clock_read_def by (intro returning waits)
    show "rw_clock w h < deadline \<and> length h < length h'"
      if "pace_step w deadline s h = Some (Inr (Inl s'), h')" for s h s' h'
      using that unfolding pace_step_def clock_read_def
      by (auto simp: bind_run_Inr logged_Inr return_run_def dest!: wait_for_input_grows split: if_splits)
  qed
  have payload: "ends_always (loop_run (wait_payload_step w deadline) p)" for deadline p
  proof (rule deadline_loop_returns [OF assms(2)])
    show "ends_always (wait_payload_step w deadline s)" for s
      unfolding wait_payload_step_def clock_read_def by (intro returning waits)
    show "rw_clock w h < deadline \<and> length h < length h'"
      if "wait_payload_step w deadline s h = Some (Inr (Inl s'), h')" for s h s' h'
      using that unfolding wait_payload_step_def clock_read_def
      by (auto simp: bind_run_Inr logged_Inr return_run_def dest!: wait_for_input_grows split: if_splits option.splits)
  qed
  have "ends_always (wait_until_connected w window p)"
    unfolding wait_until_connected_def clock_read_def by (intro returning connect)
  moreover have "ends_always (pace_until w emitted_at p)"
    unfolding pace_until_def send_origin_of_def clock_read_def Let_def by (intro returning pace)
  moreover have "ends_always (read_rtp_payload w window p)" if "0 < window"
    using that unfolding read_rtp_payload_def clock_read_def by (auto intro!: returning payload split: option.splits)
  ultimately show ?thesis by (simp add: ends_always_def)
qed

section \<open>The answer to an offer\<close>

lemma starts_with_iff: "starts_with p s \<longleftrightarrow> (\<exists>t. s = p @ t)"
  by (auto simp: starts_with_def) (metis append_take_drop_id)

lemma starts_with_longer: "starts_with p a \<Longrightarrow> starts_with p (a @ b)"
  by (auto simp: starts_with_iff)

lemma starts_with_shorter: "starts_with p (a @ b) \<Longrightarrow> length p \<le> length a \<Longrightarrow> starts_with p a"
  by (simp add: starts_with_def)

lemma split_marker:
  "marker \<noteq> [] \<Longrightarrow> c # before @ marker @ after = (c # before @ butlast marker) @ last marker # after"
  by simp

lemma contains_str_length: "contains_str p s \<Longrightarrow> length p \<le> length s"
  by (induction s) (auto simp: starts_with_iff dest!: arg_cong [where f = length])

lemma contains_str_skip: "contains_str p s \<Longrightarrow> contains_str p (before @ s)"
  by (induction before) auto

lemma contains_str_middle: "contains_str p (before @ p @ after)"
proof (rule contains_str_skip)
  have "starts_with p (p @ after)" by (simp add: starts_with_iff)
  then show "contains_str p (p @ after)" by (cases "p @ after") (simp_all add: starts_with_def)
qed

lemma replace_first_at:
  assumes "marker \<noteq> []" and "\<not> contains_str marker (before @ butlast marker)"
  shows "replace_first marker replacement (before @ marker @ after) = before @ replacement @ after"
  using assms(2)
proof (induction before)
  case Nil
  obtain c cs where "marker = c # cs" using assms(1) by (cases marker) auto
  then show ?case by (auto simp: starts_with_iff)
next
  case (Cons c before)
  have "\<not> starts_with marker (c # before @ marker @ after)"
  proof
    assume "starts_with marker (c # before @ marker @ after)"
    then have "starts_with marker ((c # before @ butlast marker) @ last marker # after)"
      unfolding split_marker [OF assms(1)] .
    moreover have "length marker \<le> length (c # before @ butlast marker)" using assms(1) by (cases marker) auto
    ultimately have "starts_with marker (c # before @ butlast marker)" by (rule starts_with_shorter)
    then show False using Cons.prems by simp
  qed
  then show ?case using Cons by simp
qed

lemma contains_str_first:
  assumes "contains_str marker s" and "marker \<noteq> []"
  shows "\<exists>before after. s = before @ marker @ after \<and> \<not> contains_str marker (before @ butlast marker)"
  using assms(1)
proof (induction s)
  case Nil
  then show ?case using assms(2) by simp
next
  case (Cons c cs)
  show ?case
  proof (cases "starts_with marker (c # cs)")
    case True
    then obtain after where "c # cs = [] @ marker @ after" by (auto simp: starts_with_iff)
    moreover have "\<not> contains_str marker ([] @ butlast marker)"
      using contains_str_length [of marker "butlast marker"] assms(2) by (auto simp: neq_Nil_conv)
    ultimately show ?thesis by blast
  next
    case False
    then obtain before after where cs: "cs = before @ marker @ after" "\<not> contains_str marker (before @ butlast marker)"
      using Cons by auto
    have "\<not> starts_with marker (c # before @ butlast marker)"
    proof
      assume "starts_with marker (c # before @ butlast marker)"
      from starts_with_longer [OF this, of "last marker # after"] show False
        using False cs(1) split_marker [OF assms(2)] by metis
    qed
    then have "\<not> contains_str marker ((c # before) @ butlast marker)" using cs(2) by simp
    then show ?thesis using cs(1) by (intro exI [of _ "c # before"] exI [of _ after]) auto
  qed
qed

text \<open>
  an answer names every simulcast encoding, once, in its own section. The answer is accepted exactly when the slot
  has encodings and the engine's answer has the section of the slot; then right after the first line that opens this
  section stand one line for each encoding and one line that lists them in their order, and nothing else is changed.
\<close>

theorem simulcast_answer_exact:
  "answer_with_simulcast_send_rids answer_sdp slot = Inr answer \<longleftrightarrow>
     us_encodings slot \<noteq> [] \<and>
     (\<exists>before after. answer_sdp = before @ mid_marker slot @ after \<and>
        \<not> contains_str (mid_marker slot) (before @ butlast (mid_marker slot)) \<and>
        answer = before @ mid_marker slot @ concat (map rid_line (us_encodings slot)) @
          ''a=simulcast:send '' @ join_with '';'' (map se_rid (us_encodings slot)) @ crlf @ after)"
  (is "_ \<longleftrightarrow> _ \<and> ?spliced")
proof -
  have marker: "mid_marker slot \<noteq> []" by (simp add: mid_marker_def)
  show ?thesis
  proof
    assume "answer_with_simulcast_send_rids answer_sdp slot = Inr answer"
    then have a: "us_encodings slot \<noteq> []" "contains_str (mid_marker slot) answer_sdp"
      "answer = replace_first (mid_marker slot) (mid_marker slot @ send_rids slot) answer_sdp"
      by (auto simp: answer_with_simulcast_send_rids_def err_def split: if_splits)
    from contains_str_first [OF a(2) marker] show "us_encodings slot \<noteq> [] \<and> ?spliced"
      using a(1,3) replace_first_at [OF marker] by (fastforce simp: send_rids_def)
  next
    assume "us_encodings slot \<noteq> [] \<and> ?spliced"
    then show "answer_with_simulcast_send_rids answer_sdp slot = Inr answer"
      using replace_first_at [OF marker] contains_str_middle
      by (auto simp: answer_with_simulcast_send_rids_def send_rids_def)
  qed
qed


section \<open>Examples\<close>

text \<open>
  An engine that hands over what each datagram holds and otherwise waits, on a socket with a datagram ready; its clock
  counts the entries of the log.
\<close>

definition last_datagram :: "rtc_entry list \<Rightarrow> bytes option" where
  "last_datagram h = (case rev h of DatagramHandled packet source # _ \<Rightarrow> Some packet | _ \<Rightarrow> None)"

definition example_engine :: rtc_world where
  "example_engine =
     \<lparr>rw_poll = (\<lambda>h. Inr (case last_datagram h of None \<Rightarrow> TimeoutAt 1000 | Some packet \<Rightarrow> EngineOutput (RtpArrived packet))),
      rw_send = (\<lambda>h contents destination. Inr ()), rw_handle = (\<lambda>h e. Inr ()), rw_clock = length,
      rw_kind = (\<lambda>h mid. None), rw_codec = (\<lambda>h codec. Some 96),
      rw_stream = (\<lambda>h mid layer_rid. list_ex (\<lambda>e. case e of StreamDeclared ssrc m r \<Rightarrow> m = mid \<and> r = layer_rid | _ \<Rightarrow> False) h),
      rw_receive = (\<lambda>h d. Some (Inr ([7], ''sfu''))), rw_try_receive = (\<lambda>h. Inr (Some ([7], ''sfu''))),
      rw_mid = (\<lambda>s. s), rw_parses = (\<lambda>packet. True), rw_offer = (\<lambda>sdp. Inr ()),
      rw_accept = (\<lambda>h sdp. Inr (''a=mid:v'' @ crlf)), rw_bind = Inr (), rw_local_addr = Inr ''127.0.0.1:9'',
      rw_candidate = (\<lambda>address. Inr ()), rw_adds_candidate = (\<lambda>address. True)\<rparr>"

definition fresh_peer :: rtc_peer where
  "fresh_peer =
     \<lparr>rp_connected = False, rp_audio_send_mid = None, rp_video_upload_slot = None,
      rp_declared = \<lparr>ds_audio = False, ds_video_low = False, ds_video_high = False\<rparr>,
      rp_pending = [], rp_next_timeout = 1, rp_send_origin = None\<rparr>"

definition example_slot :: upload_slot where
  "example_slot = \<lparr>us_kind = VideoKind, us_codecs = [''VP8''], us_mid = ''v'',
     us_encodings = [\<lparr>se_rid = ''lo'', se_max_bitrate = None\<rparr>]\<rparr>"

definition example_video :: video_packet where
  "example_video = \<lparr>vp_emitted_at = 0, vp_rtp_timestamp = 5, vp_sequence_number = 6, vp_marker = True, vp_layer = Low,
     vp_extension_values = \<lparr>audio_level = None, voice_activity = None, frame_mark = None\<rparr>, vp_payload = [1, 2]\<rparr>"

lemmas rtc_steps = loop_run.simps bind_run_def logged_def return_run_def result_run_def ensure_run_def clock_read_def
  drain_output_def drain_step_def observe_event.simps apply_due_timeouts_def due_step_def try_read_input_def
  apply_datagram_def RECEIVE_BUFFER_LEN_def pop_pending_def last_datagram_def

lemma engine_simps [simp]:
  "rw_poll example_engine h = Inr (case last_datagram h of None \<Rightarrow> TimeoutAt 1000 | Some packet \<Rightarrow> EngineOutput (RtpArrived packet))"
  "rw_handle example_engine h e = Inr ()" "rw_clock example_engine h = length h" "rw_codec example_engine h codec = Some 96"
  "rw_stream example_engine h mid layer_rid =
     list_ex (\<lambda>e. case e of StreamDeclared ssrc m r \<Rightarrow> m = mid \<and> r = layer_rid | _ \<Rightarrow> False) h"
  "rw_try_receive example_engine h = Inr (Some ([7], ''sfu''))" "rw_mid example_engine s = s"
  "rw_parses example_engine packet" "rw_offer example_engine sdp = Inr ()"
  "rw_accept example_engine h sdp = Inr (''a=mid:v'' @ crlf)" "rw_bind example_engine = Inr ()"
  "rw_local_addr example_engine = Inr ''127.0.0.1:9''" "rw_candidate example_engine address = Inr ()"
  "rw_adds_candidate example_engine address"
  by (simp_all add: example_engine_def)

lemma example_read:
  "read_rtp_payload example_engine 0 (fresh_peer\<lparr>rp_next_timeout := 1000\<rparr>) [] =
     Some (Inr (Some [7], fresh_peer\<lparr>rp_next_timeout := 1000\<rparr>),
       [ClockSeen 0, SocketTried, ClockSeen 2, DatagramHandled [7] ''sfu'', Polled (EngineOutput (RtpArrived [7])),
        Polled (TimeoutAt 1000)])"
  by (simp add: read_rtp_payload_def poll_payload_step_def rtc_steps fresh_peer_def)


lemma rtc_payloads_in_order_witness:
  "\<exists>new. [ClockSeen 0, SocketTried, ClockSeen 2, DatagramHandled [7] ''sfu'', Polled (EngineOutput (RtpArrived [7])),
       Polled (TimeoutAt 1000)] = [] @ new \<and> rtp_written new = [] \<and>
     rp_pending (fresh_peer\<lparr>rp_next_timeout := 1000\<rparr>) @ rtp_arrivals new =
       (case Some [7] of None \<Rightarrow> [] | Some x \<Rightarrow> [x]) @ rp_pending (fresh_peer\<lparr>rp_next_timeout := 1000\<rparr>)"
  by (rule rtc_payloads_in_order [OF example_read])

definition bound_peer :: rtc_peer where
  "bound_peer = fresh_peer\<lparr>rp_next_timeout := 1000\<rparr>"

definition bound_log :: "rtc_entry list" where
  "bound_log = [SocketBound, ClockSeen 1, EngineBuilt, Polled (TimeoutAt 1000)]"

lemma example_bind: "bind_peer example_engine [] = Some (Inr bound_peer, bound_log)"
  by (simp add: bind_peer_def bound_peer_def bound_log_def rtc_steps fresh_peer_def with_context_def)

definition video_peer :: rtc_peer where
  "video_peer = bound_peer\<lparr>rp_video_upload_slot := Some example_slot\<rparr>"

definition video_log :: "rtc_entry list" where
  "video_log = bound_log @ [OfferAccepted ''offer'', Polled (TimeoutAt 1000)]"

lemma example_answer:
  "\<exists>answer. answer_offer example_engine ''offer'' [example_slot] bound_peer bound_log = Some (Inr (answer, video_peer), video_log)"
proof -
  have slot: "vp8_slot example_slot" "us_encodings example_slot \<noteq> []" "mid_marker example_slot = ''a=mid:v'' @ crlf"
    by (simp_all add: vp8_slot_def example_slot_def mid_marker_def)
  have "contains_str (mid_marker example_slot) (''a=mid:v'' @ crlf)"
    unfolding slot(3) using contains_str_middle [of "''a=mid:v'' @ crlf" "[]" "[]"] by simp
  then show ?thesis
    by (simp add: answer_offer_def adopt_upload_slot_def slot(1,2) answer_with_simulcast_send_rids_def rtc_steps
        bound_peer_def fresh_peer_def video_peer_def video_log_def bound_log_def with_context_def)
qed

definition sent_video :: rtp_write where
  "sent_video = \<lparr>wr_mid = ''v'', wr_rid = Some ''lo'', wr_payload_type = 96, wr_sequence = 6, wr_timestamp = 5,
     wr_wallclock = 6, wr_marker = True, wr_extensions = vp_extension_values example_video, wr_extension_mid = Some ''v'',
     wr_extension_rid = Some ''lo'', wr_payload = [1, 2]\<rparr>"

definition after_video :: "rtc_entry list" where
  "after_video = video_log @ [ClockSeen 6, ClockSeen 7, StreamDeclared VIDEO_LOW_SSRC ''v'' (Some ''lo''),
     Polled (TimeoutAt 1000)] @ RtpWritten sent_video # [Polled (TimeoutAt 1000), ClockSeen 12]"

lemma example_send:
  "\<exists>p'. send_video_packet example_engine example_video video_peer video_log = Some (Inr (2, p'), after_video)"
  by (simp add: send_video_packet_def write_video_packet_def pace_until_def send_origin_of_def pace_step_def
      negotiated_def ok_or_def ensure_video_stream_def declare_stream_def write_rtp_def rtc_steps example_video_def
      example_slot_def video_peer_def bound_peer_def fresh_peer_def video_log_def bound_log_def after_video_def sent_video_def
      with_context_def Let_def)


lemma rtc_video_written_once_witness:
  "\<exists>before sent after. after_video = video_log @ before @ RtpWritten sent # after \<and> rtp_written before = [] \<and>
     rtp_written after = [] \<and> video_due example_engine video_peer example_video sent before"
proof -
  obtain p' where "send_video_packet example_engine example_video video_peer video_log = Some (Inr (2, p'), after_video)"
    using example_send by blast
  from rtc_video_written_once [OF this] show ?thesis by (simp add: is_ok_def)
qed

lemma example_history: "\<exists>p'. rtc_history example_engine p' after_video"
  using rtc_history.intros(1) [OF example_bind] rtc_history.answered rtc_history.video_sent example_answer example_send
  by metis

lemma rtc_video_declared_first_witness:
  "\<exists>ssrc. StreamDeclared ssrc ''v'' (Some ''lo'') \<in> set (video_log @ [ClockSeen 6, ClockSeen 7,
     StreamDeclared VIDEO_LOW_SSRC ''v'' (Some ''lo''), Polled (TimeoutAt 1000)])"
proof -
  obtain p' where p': "rtc_history example_engine p' after_video" using example_history by blast
  then have "rtc_history example_engine p' ((video_log @ [ClockSeen 6, ClockSeen 7,
      StreamDeclared VIDEO_LOW_SSRC ''v'' (Some ''lo''), Polled (TimeoutAt 1000)]) @ RtpWritten sent_video #
      [Polled (TimeoutAt 1000), ClockSeen 12])"
    by (simp add: after_video_def)
  from rtc_video_declared_first [OF this, of "''lo''"] show ?thesis by (simp add: sent_video_def)
qed

lemma example_settles:
  "engine_settles example_engine (\<lambda>h. if last_datagram h = None then 0 else 1)"
  by (auto simp: engine_settles_def last_datagram_def split: option.splits list.splits rtc_entry.splits)

lemma example_clock_passes: "clock_passes example_engine"
  by (auto simp: clock_passes_def)

lemma rtc_waits_return_witness:
  "wait_until_connected example_engine 10 fresh_peer [] \<noteq> None \<and> read_rtp_payload example_engine 10 fresh_peer [] \<noteq> None"
  using rtc_waits_return [OF example_settles example_clock_passes, of 10 fresh_peer "[]"] by simp

section \<open>An audio path that moves\<close>

text \<open>
  \<open>send_audio_packet\<close> sets the flag of the audio stream after it drained the engine. When an event of that drain moves
  the audio to another section, \<open>observe_audio_direction\<close> has cleared the flag by then, and setting it hides that the
  new section has no stream: the next packet is written to a stream that was never declared.
\<close>

definition moving_engine :: rtc_world where
  "moving_engine = example_engine
     \<lparr>rw_poll := (\<lambda>h. Inr (case rev h of
        StreamDeclared ssrc mid layer_rid # _ \<Rightarrow> EngineOutput (MediaAdded ''b'' AudioKind True)
      | _ \<Rightarrow> TimeoutAt 1000))\<rparr>"

definition example_audio :: audio_packet where
  "example_audio = \<lparr>ap_emitted_at = 0, ap_rtp_timestamp = 5, ap_sequence_number = 6,
     ap_extension_values = \<lparr>audio_level = None, voice_activity = None, frame_mark = None\<rparr>, ap_payload = [1, 2]\<rparr>"

definition audio_peer :: rtc_peer where
  "audio_peer = fresh_peer\<lparr>rp_next_timeout := 1000, rp_audio_send_mid := Some ''a''\<rparr>"

lemma moving_simps [simp]:
  "rw_poll moving_engine h = Inr (case rev h of
      StreamDeclared ssrc mid layer_rid # _ \<Rightarrow> EngineOutput (MediaAdded ''b'' AudioKind True)
    | _ \<Rightarrow> TimeoutAt 1000)"
  "rw_clock moving_engine h = length h" "rw_codec moving_engine h codec = Some 96"
  "rw_stream moving_engine h mid layer_rid =
     list_ex (\<lambda>e. case e of StreamDeclared ssrc m r \<Rightarrow> m = mid \<and> r = layer_rid | _ \<Rightarrow> False) h"
  by (simp_all add: moving_engine_def)

lemmas audio_steps = send_audio_packet_def write_audio_packet_def pace_until_def send_origin_of_def pace_step_def
  negotiated_def ok_or_def ensure_audio_stream_def declare_stream_def write_rtp_def rtc_steps observe_audio_direction_def
  set_audio_def with_context_def Let_def

lemma audio_path_moves:
  "\<exists>p1 h1 h2. send_audio_packet moving_engine example_audio audio_peer [] = Some (Inr (2, p1), h1) \<and>
     rp_audio_send_mid p1 = Some ''b'' \<and> StreamDeclared AUDIO_SSRC ''b'' None \<notin> set h1 \<and>
     send_audio_packet moving_engine example_audio p1 h1 = Some (err ''failed to find the audio RTP stream'', h2)"
  by (simp add: audio_steps example_audio_def audio_peer_def fresh_peer_def err_def)

end
