(* ===== verification/ProtocolRuns.thy ===== *)
theory ProtocolRuns
  imports ProtocolFacts RtcPeerRuns
begin

text \<open>
  Examples of the protocol peers against a small core that offers once, then once more after a publication, and an engine
  that reports its connection after the offer: the peer joins and publishes, and its signaling task answers a ping.
\<close>

definition connecting_engine :: rtc_world where
  "connecting_engine = example_engine
     \<lparr>rw_poll := (\<lambda>h. Inr (case rev h of OfferAccepted sdp # _ \<Rightarrow> EngineOutput EngineConnected | _ \<Rightarrow> TimeoutAt 1000))\<rparr>"

lemma connecting_simps [simp]:
  "rw_poll connecting_engine h =
     Inr (case rev h of OfferAccepted sdp # _ \<Rightarrow> EngineOutput EngineConnected | _ \<Rightarrow> TimeoutAt 1000)"
  "rw_clock connecting_engine h = length h" "rw_offer connecting_engine sdp = Inr ()"
  "rw_accept connecting_engine h sdp = Inr (''a=mid:v'' @ crlf)" "rw_bind connecting_engine = Inr ()"
  "rw_local_addr connecting_engine = Inr ''127.0.0.1:9''" "rw_candidate connecting_engine address = Inr ()"
  "rw_adds_candidate connecting_engine address"
  by (simp_all add: connecting_engine_def)

fun example_core :: "core_call \<Rightarrow> command list" where
  "example_core (CoreConnect url jwt room) = [ConnectSocket url]"
| "example_core CoreWsOpen = [SendWebSocket ''hello'', ScheduleTimer 2 9]"
| "example_core (CoreWsMessage frame) =
     [ApplyNegotiation frame (if frame = ''offer'' then InitialOffer else LaterOffer) ''sdp'' [], EmitEvent]"
| "example_core (CorePublish stream b) = [ScheduleTimer 1 5]"
| "example_core (CoreTimer timer) = [SendWebSocket ''batch'']"
| "example_core call = []"

definition example_protocol :: protocol_world where
  "example_protocol =
     \<lparr>pw_core = (\<lambda>h call. example_core call), pw_connect = (\<lambda>h url. Inr ()), pw_send = (\<lambda>h frame. Inr ()),
      pw_close = (\<lambda>h. Inr ()),
      pw_next = (\<lambda>h. Some (Inr (TextMessage (if list_ex (\<lambda>e. e = RtcEntry EngineBuilt) h then ''again'' else ''offer'')))),
      pw_elapsed = (\<lambda>h. False),
      pw_select = (\<lambda>h. if h = [] then SocketItem (Some (Inr (PingMessage [1]))) else ShutdownSignalled),
      pw_task_finished = (\<lambda>h. False), pw_task_result = (\<lambda>h. Inr (Inr ())), pw_rtc = (\<lambda>h. connecting_engine)\<rparr>"

lemma example_protocol_simps [simp]:
  "pw_core example_protocol h call = example_core call" "pw_connect example_protocol h url = Inr ()"
  "pw_send example_protocol h frame = Inr ()" "pw_close example_protocol h = Inr ()"
  "pw_next example_protocol h =
     Some (Inr (TextMessage (if list_ex (\<lambda>e. e = RtcEntry EngineBuilt) h then ''again'' else ''offer'')))"
  "\<not> pw_elapsed example_protocol h"
  "pw_select example_protocol h = (if h = [] then SocketItem (Some (Inr (PingMessage [1]))) else ShutdownSignalled)"
  "\<not> pw_task_finished example_protocol h" "pw_rtc example_protocol h = connecting_engine"
  by (simp_all add: example_protocol_def)

text \<open>Evaluation from the first step on, one step at a time.\<close>

lemma bind_run_step: "m h = Some (Inr x, h') \<Longrightarrow> bind_run m f h = f x h'"
  by (simp add: bind_run_def)

lemma loop_run_step:
  "body s h = Some (Inr r, h') \<Longrightarrow>
     loop_run body s h = (case r of Inl s' \<Rightarrow> loop_run body s' h' | Inr x \<Rightarrow> Some (Inr x, h'))"
  by (subst loop_run.simps) (simp split: sum.split)

lemma logged_step: "reply h = Inr x \<Longrightarrow> logged reply entry h = Some (Inr x, h @ [entry x])"
  by (simp add: logged_def)

lemma return_step: "return_run x h = Some (Inr x, h)"
  by (simp add: return_run_def)

lemma result_step: "result_run r h = Some (r, h)"
  by (simp add: result_run_def)

lemma ensure_step: "c \<Longrightarrow> ensure_run c msg m h = m h"
  by (simp add: ensure_run_def)

lemma on_rtc_step:
  "m (pw_rtc w h) (rtc_entries h) = Some (r, log) \<Longrightarrow>
     on_rtc w m h = Some (r, h @ map RtcEntry (drop (length (rtc_entries h)) log))"
  by (simp add: on_rtc_def)

lemma within_step: "\<not> pw_elapsed w h \<Longrightarrow> within_time w m h = m h"
  by (simp add: within_time_def)

lemma rtc_entries_step [simp]: "rtc_entries (e # log) = (case e of RtcEntry x \<Rightarrow> [x] | _ \<Rightarrow> []) @ rtc_entries log"
  by (simp add: rtc_entries_def)

lemmas signal_steps = bind_run_step loop_run_step logged_step return_step result_step ensure_step on_rtc_step within_step
  clock_read_def drain_output_def drain_step_def observe_event.simps last_datagram_def call_core_def core_def
  run_commands_def command_step_def send_frame_def close_socket_def apply_negotiation_def rtc_mut_def bind_peer_def
  answer_offer_def adopt_upload_slot_def read_until_negotiation_def negotiation_step_def read_text_message_def
  read_text_step_def next_message_def ok_or_def with_context_def schedule_def unschedule_def Let_def

text \<open>The steps of a join.\<close>

definition greeted_peer :: protocol_peer where
  "greeted_peer = \<lparr>pp_websocket = True, pp_rtc = None, pp_timers = [(2, 9)], pp_negotiation_count = 0\<rparr>"

definition greeted_log :: "signal_entry list" where
  "greeted_log = [CoreCalled (CoreConnect ''ws'' ''jwt'' (Some ''room'')) [ConnectSocket ''ws''], WsOpened ''ws'',
     CoreCalled CoreWsOpen [SendWebSocket ''hello'', ScheduleTimer 2 9], WsSent (TextFrame ''hello'')]"

lemma example_greeting:
  "call_core example_protocol (CoreConnect ''ws'' ''jwt'' (Some ''room'')) new_protocol_peer [] = Some (Inr greeted_peer, greeted_log)"
  by (simp add: new_protocol_peer_def signal_steps greeted_peer_def greeted_log_def)

definition connected_rtc :: rtc_peer where
  "connected_rtc = fresh_peer\<lparr>rp_connected := True, rp_next_timeout := 1000\<rparr>"

lemma example_offer:
  "\<exists>log. read_until_negotiation example_protocol 1 greeted_peer greeted_log =
     Some (Inr (greeted_peer\<lparr>pp_rtc := Some connected_rtc, pp_negotiation_count := 1\<rparr>), log)"
  by (simp add: signal_steps greeted_peer_def greeted_log_def connected_rtc_def fresh_peer_def)

lemma example_wait:
  "\<exists>log. on_rtc example_protocol (\<lambda>r. wait_until_connected r (from_secs 10) connected_rtc) h = Some (Inr ((), connected_rtc), log)"
  by (simp add: signal_steps wait_until_connected_def connect_step_def connected_rtc_def fresh_peer_def)

lemma example_ready: "call_core example_protocol CoreTransportReady p h = Some (Inr p, h @ [CoreCalled CoreTransportReady []])"
  by (simp add: signal_steps)

lemma example_connect:
  "\<exists>p h. connect_peer example_protocol ''ws'' ''jwt'' ''room'' [] = Some (Inr (p :: protocol_peer), h)"
proof -
  obtain log where "read_until_negotiation example_protocol 1 greeted_peer greeted_log =
      Some (Inr (greeted_peer\<lparr>pp_rtc := Some connected_rtc, pp_negotiation_count := 1\<rparr>), log)"
    using example_offer by blast
  moreover obtain log' where "on_rtc example_protocol (\<lambda>r. wait_until_connected r (from_secs 10) connected_rtc) log =
      Some (Inr ((), connected_rtc), log')"
    using example_wait by blast
  ultimately show ?thesis
    by (simp add: connect_peer_def bind_run_def example_greeting rtc_mut_def result_step ok_or_def example_ready)
qed

lemma connect_announces_connection_witness:
  "\<exists>p h. connect_peer example_protocol ''ws'' ''jwt'' ''room'' [] = Some (Inr p, h) \<and>
     (\<exists>before commands after. h = before @ CoreCalled CoreTransportReady commands # after \<and> 0 < answers before \<and>
       connection_reported (last_session (rtc_entries before)) \<and> engines_built before = offer_answers before)"
proof -
  obtain p h where run: "connect_peer example_protocol ''ws'' ''jwt'' ''room'' [] = Some (Inr (p :: protocol_peer), h)"
    using example_connect by (elim exE)
  show ?thesis by (rule exI, rule exI, rule conjI [OF run connect_announces_connection [OF run]])
qed

definition joined_peer :: protocol_peer where
  "joined_peer = \<lparr>pp_websocket = True, pp_rtc = Some (fresh_peer\<lparr>rp_connected := True\<rparr>), pp_timers = [],
     pp_negotiation_count = 1\<rparr>"

lemma example_told:
  "call_core example_protocol (CorePublish AudioStream True) joined_peer [RtcEntry EngineBuilt] =
     Some (Inr (joined_peer\<lparr>pp_timers := [(1, 5)]\<rparr>),
       [RtcEntry EngineBuilt, CoreCalled (CorePublish AudioStream True) [ScheduleTimer 1 5]])"
  by (simp add: signal_steps joined_peer_def)

lemma example_flushed:
  "\<exists>log. flush_next_timer example_protocol (joined_peer\<lparr>pp_timers := [(1, 5)]\<rparr>) (RtcEntry EngineBuilt # h) =
     Some (Inr joined_peer, RtcEntry EngineBuilt # log)"
  by (simp add: flush_next_timer_def signal_steps joined_peer_def remove_timer_def)

lemma example_accept:
  "\<exists>p' log. accept_next_negotiation example_protocol joined_peer (RtcEntry EngineBuilt # h) = Some (Inr p', RtcEntry EngineBuilt # log)"
  by (simp add: accept_next_negotiation_def signal_steps joined_peer_def fresh_peer_def)

lemma example_publish:
  "\<exists>p' log. publish example_protocol AudioStream joined_peer [RtcEntry EngineBuilt] = Some (Inr p', RtcEntry EngineBuilt # log)"
proof -
  obtain log where flushed: "flush_next_timer example_protocol (joined_peer\<lparr>pp_timers := [(1, 5)]\<rparr>)
      [RtcEntry EngineBuilt, CoreCalled (CorePublish AudioStream True) [ScheduleTimer 1 5]] =
      Some (Inr joined_peer, RtcEntry EngineBuilt # log)"
    using example_flushed by blast
  obtain p' log' where "accept_next_negotiation example_protocol joined_peer (RtcEntry EngineBuilt # log) =
      Some (Inr p', RtcEntry EngineBuilt # log')"
    using example_accept by blast
  then show ?thesis by (simp add: publish_def bind_run_def example_told flushed)
qed

lemma publish_negotiated_witness:
  "\<exists>p' h'. publish example_protocol AudioStream joined_peer [RtcEntry EngineBuilt] = Some (Inr p', h') \<and>
     (\<exists>commands new. h' = [RtcEntry EngineBuilt] @ CoreCalled (CorePublish AudioStream True) commands # new \<and>
       0 < answers new \<and> pp_negotiation_count p' = pp_negotiation_count joined_peer + answers new \<and>
       engines_built new = offer_answers new)"
proof -
  obtain p' log where run: "publish example_protocol AudioStream joined_peer [RtcEntry EngineBuilt] =
      Some (Inr p', RtcEntry EngineBuilt # log)"
    using example_publish by (elim exE)
  show ?thesis by (rule exI, rule exI, rule conjI [OF run publish_negotiated [OF run]])
qed

lemma example_service:
  "service_signaling example_protocol [] =
     Some (Inr (), [WsReceived (PingMessage [1]), WsSent (PongFrame [1]), WsClosed])"
  by (simp add: service_signaling_def service_step_def signal_steps)

lemma signaling_answers_pings_witness:
  "\<exists>new before. [WsReceived (PingMessage [1]), WsSent (PongFrame [1]), WsClosed] = [] @ new \<and> pings new = pongs new \<and>
     new = before @ [WsClosed]"
  using signaling_answers_pings [OF example_service] by (auto simp: is_ok_def)

definition example_load_peer :: load_peer where
  "example_load_peer = \<lparr>lp_rtc = fresh_peer\<lparr>rp_next_timeout := 1000, rp_pending := [[7]]\<rparr>,
     lp_signaling_shutdown = True, lp_signaling_task = True\<rparr>"

lemma load_peer_stops_with_signaling_witness:
  "\<exists>p'. checked_rtc example_protocol (\<lambda>r. read_rtp_payload r 0) example_load_peer [] = Some (Inr (Some [7], p'), [])"
proof -
  have "on_rtc example_protocol (\<lambda>r. read_rtp_payload r 0 (lp_rtc example_load_peer)) [] =
      Some (Inr (Some [7], (lp_rtc example_load_peer)\<lparr>rp_pending := []\<rparr>), [])"
    by (simp add: on_rtc_def read_rtp_payload_def pop_pending_def example_load_peer_def return_run_def)
  moreover have "lp_signaling_task example_load_peer" by (simp add: example_load_peer_def)
  ultimately show ?thesis
    using load_peer_stops_with_signaling [of example_load_peer example_protocol "\<lambda>r. read_rtp_payload r 0" "[]" "Some [7]" _ "[]"]
    by auto
qed

end
