(* ===== verification/JoiningRuns.thy ===== *)
theory JoiningRuns
  imports JoiningFacts ProtocolRuns
begin

text \<open>Examples of joining: one of two peers publishes, and two cameras subscribe to each other.\<close>

definition example_join :: join_world where
  "example_join =
     \<lparr>jw_sign_room = (\<lambda>claims key. Inr ''token''), jw_sign_user = (\<lambda>claims key. Inr ''token''), jw_channel = ''/v1/channel'',
      jw_send = (\<lambda>request. Inr ()), jw_status = (\<lambda>request. Inr ()), jw_uuid = (\<lambda>request. Inr ''room''),
      jw_peer = (\<lambda>i. example_protocol)\<rparr>"

lemma example_join_peer [simp]: "jw_peer example_join i = example_protocol"
  by (simp add: example_join_def)

definition two_peers :: "room_peer list" where
  "two_peers = [(joined_peer, [RtcEntry EngineBuilt]), (joined_peer, [RtcEntry EngineBuilt])]"

lemma example_publications: "\<exists>peers'. publish_sources example_join 1 PublishAudio two_peers = Some (Inr peers')"
proof -
  obtain p log where p: "publish example_protocol AudioStream joined_peer [RtcEntry EngineBuilt] =
      Some (Inr p, RtcEntry EngineBuilt # log)"
    using example_publish by (elim exE)
  obtain q log' where q: "accept_next_negotiation example_protocol joined_peer [RtcEntry EngineBuilt] =
      Some (Inr q, RtcEntry EngineBuilt # log')"
    using example_accept [of "[]"] by (elim exE)
  have "publish_one example_join PublishAudio 0 two_peers =
      Some (Inr [(p, RtcEntry EngineBuilt # log), (q, RtcEntry EngineBuilt # log')])"
    by (simp add: publish_one_def two_peers_def publish_kind_def publish_audio_def peer_run_def p q bind_out_def bind_ok_def
        accept_others_def join_all_def)
  then show ?thesis by (simp add: publish_sources_def bind_out_def)
qed

lemma publications_negotiated_by_all_witness:
  "\<exists>peers'. publish_sources example_join 1 PublishAudio two_peers = Some (Inr peers') \<and>
     list_all2 (answered_more (unat (1 :: u32))) two_peers peers'"
proof -
  obtain peers' where run: "publish_sources example_join 1 PublishAudio two_peers = Some (Inr peers')"
    using example_publications by (elim exE)
  show ?thesis by (rule exI, rule conjI [OF run publications_negotiated_by_all [OF run]])
qed

definition timed_peer :: protocol_peer where
  "timed_peer = \<lparr>pp_websocket = True, pp_rtc = None, pp_timers = [(1, 5)], pp_negotiation_count = 1\<rparr>"

lemma example_layouts:
  "\<exists>log. set_camera_layouts example_protocol [(user_id, camera_layout)] timed_peer [] =
     Some (Inr (timed_peer\<lparr>pp_timers := []\<rparr>), log)"
  by (simp add: set_camera_layouts_def flush_next_timer_def timed_peer_def signal_steps remove_timer_def)

lemma example_range: "u32_range 2 = [0, 1]"
  by (simp add: u32_range_def upt_rec)

lemma example_featured: "featured_source 0 2 = Some 1" "featured_source (Suc 0) 2 = Some 0"
  by (simp_all add: featured_source_def try_to_def)

lemma example_camera_layouts: "camera_layouts 0 2 = [(2, Featured)]" "camera_layouts (Suc 0) 2 = [(1, Featured)]"
  by (simp_all add: camera_layouts_def example_range example_featured)

lemma example_configured:
  "\<exists>peers'. configure_video_layouts example_join 2 [(timed_peer, []), (timed_peer, [])] = Some (Inr peers')"
proof -
  obtain log where "set_camera_layouts example_protocol [(2, Featured)] timed_peer [] =
      Some (Inr (timed_peer\<lparr>pp_timers := []\<rparr>), log)"
    using example_layouts by blast
  moreover obtain log' where "set_camera_layouts example_protocol [(1, Featured)] timed_peer [] =
      Some (Inr (timed_peer\<lparr>pp_timers := []\<rparr>), log')"
    using example_layouts by blast
  ultimately show ?thesis
    by (simp add: configure_video_layouts_def peer_run_def bind_out_def bind_ok_def example_camera_layouts)
qed

lemma example_expected: "is_ok (expected_video_streams 0 2 2 0 3 5)"
  by (simp add: expected_video_streams_def example_range example_featured source_id_def video_stream_def new_stream_def
      try_to_def checked_mul_def checked_add_def ok_or_def bind_ok_def ensure_def is_ok_def)

lemma subscriptions_match_ledger_witness:
  "\<exists>streams peers' new. expected_video_streams 0 2 2 0 3 5 = Inr streams \<and>
     configure_video_layouts example_join 2 [(timed_peer, []), (timed_peer, [])] = Some (Inr peers') \<and>
     snd (peers' ! 0) = snd ([(timed_peer, []), (timed_peer, [])] ! 0) @ new \<and>
     list_all2 (\<lambda>stream subscription. \<exists>s. source_id 0 2 (unat s) = Inr (es_source stream) \<and>
        subscription = (uint (s :: u32) + 1,
          \<lparr>dl_camera = Some True,
           dl_camera_layout = Some (if es_layer stream = Some High then Featured else VisibleThumbnail)\<rparr>))
      streams (subscriptions new)"
proof -
  obtain streams where streams: "expected_video_streams 0 2 2 0 3 5 = Inr streams"
    using example_expected by (cases "expected_video_streams 0 2 2 0 3 5") (simp_all add: is_ok_def)
  obtain peers' where run: "configure_video_layouts example_join 2 [(timed_peer, []), (timed_peer, [])] = Some (Inr peers')"
    using example_configured by (elim exE)
  show ?thesis
    using subscriptions_match_ledger [OF run _ streams]
    by (intro exI [of _ streams] exI [of _ peers']) (simp add: streams run)
qed

end
