(* ===== verification/DashboardDraw.thy ===== *)
theory DashboardDraw
  imports Dashboard Effects
begin

text \<open>
  Drawing a dashboard (\<open>render_svg_with_limits\<close>, \<open>render_panel\<close>, \<open>draw_segments\<close> and \<open>draw_points\<close> of
  \<open>src/report/dashboard.rs\<close>) as the sequence of calls the code makes of \<open>plotters\<close>. Each call is one
  effect; whether it succeeds is an answer of the world. Fonts, margins and the other constants of the
  style are left to the call they belong to.
\<close>

section \<open>The calls of the drawing library\<close>

record shape_style =
  st_color :: rgb
  st_opacity_percent :: nat
  st_filled :: bool
  st_stroke_width :: nat

text \<open>The entry of a series in the legend: its name and its color.\<close>

type_synonym series_label = "(string \<times> rgb) option"

datatype horizontal = HLeft | HRight

datatype draw_step =
    FillBackground
  | DrawTitle string
  | BuildChart string u64 u64
  | DrawMesh string "u64 \<Rightarrow> string" "u64 \<Rightarrow> string"
  | DrawBoundary "point list"
  | DrawCircles "point list" nat shape_style series_label
  | DrawLine "point list" shape_style series_label
  | DrawLegend
  | DrawPhaseLabel string point horizontal
  | PresentDrawing

text \<open>What the report programs do to the file system; a drawing names the file it belongs to.\<close>

datatype publish_effect =
    CreateDirectory fs_path
  | Drawing fs_path draw_step
  | WriteText fs_path string

type_synonym publish_answer = "publish_effect list \<Rightarrow> publish_effect \<Rightarrow> unit result"

definition draw :: "publish_answer \<Rightarrow> fs_path \<Rightarrow> string \<Rightarrow> draw_step \<Rightarrow> (publish_effect, unit) act" where
  "draw answer svg msg s = act_context msg (effect answer (Drawing svg s))"

section \<open>Series\<close>

definition present_points :: "point option list \<Rightarrow> point list" where
  "present_points vs = List.map_filter id vs"

definition has_values :: "point option list \<Rightarrow> bool" where
  "has_values vs \<longleftrightarrow> list_ex (\<lambda>v. v \<noteq> None) vs"

definition draw_points ::
  "publish_answer \<Rightarrow> fs_path \<Rightarrow> point option list \<Rightarrow> shape_style \<Rightarrow> series_label \<Rightarrow> (publish_effect, bool) act" where
  "draw_points answer svg vs style label =
     (if \<not> has_values vs then return_act False
      else
        bind_act (draw answer svg ''failed to render telemetry points''
            (DrawCircles (present_points vs) 3 (style\<lparr>st_filled := True\<rparr>) label)) (\<lambda>_.
        return_act (label \<noteq> None)))"

text \<open>The loop over the segments; only the first one drawn carries the label.\<close>

fun draw_segment_loop ::
  "publish_answer \<Rightarrow> fs_path \<Rightarrow> shape_style \<Rightarrow> series_label \<Rightarrow> bool \<Rightarrow> point list list \<Rightarrow> (publish_effect, bool) act" where
  "draw_segment_loop answer svg style label labelled [] = return_act labelled"
| "draw_segment_loop answer svg style label labelled (segment # segments) =
     (let shown = (if labelled then None else label) in
      if segment = [] then draw_segment_loop answer svg style label labelled segments
      else if length segment = 1 then
        bind_act (draw answer svg ''failed to render a telemetry point''
            (DrawCircles [hd segment] 4 (style\<lparr>st_filled := True\<rparr>) shown)) (\<lambda>_.
        draw_segment_loop answer svg style label (labelled \<or> label \<noteq> None) segments)
      else
        bind_act (draw answer svg ''failed to render a telemetry series'' (DrawLine segment style shown)) (\<lambda>_.
        draw_segment_loop answer svg style label (labelled \<or> label \<noteq> None) segments))"

definition draw_segments ::
  "publish_answer \<Rightarrow> fs_path \<Rightarrow> point option list \<Rightarrow> shape_style \<Rightarrow> series_label \<Rightarrow> (publish_effect, bool) act" where
  "draw_segments answer svg vs style label =
     draw_segment_loop answer svg style label False (contiguous_segments vs)"

definition solid :: "rgb \<Rightarrow> nat \<Rightarrow> shape_style" where
  "solid color width = \<lparr>st_color = color, st_opacity_percent = 100, st_filled = False, st_stroke_width = width\<rparr>"

definition faint :: "rgb \<Rightarrow> shape_style" where
  "faint color = \<lparr>st_color = color, st_opacity_percent = 25, st_filled = False, st_stroke_width = 1\<rparr>"

definition trend_values :: "chart_series \<Rightarrow> point option list" where
  "trend_values series =
     (if cs_smooth series then moving_average (cs_values series) SMOOTHING_RADIUS else cs_values series)"

definition raw_points :: "chart_series \<Rightarrow> point option list" where
  "raw_points series = (case cs_raw_values series of None \<Rightarrow> cs_values series | Some raw \<Rightarrow> raw)"

text \<open>The body of the loop over the series of a panel: whether it put a label into the legend.\<close>

definition draw_series :: "publish_answer \<Rightarrow> fs_path \<Rightarrow> chart_series \<Rightarrow> (publish_effect, bool) act" where
  "draw_series answer svg series =
     (let vs = trend_values series; label = Some (cs_name series, cs_color series);
          style = solid (cs_color series) 3 in
      bind_act (if cs_smooth series
          then draw_points answer svg (raw_points series) (faint (cs_color series))
            (if \<not> has_values vs then label else None)
          else return_act False) (\<lambda>raw_labelled.
      bind_act (if cs_points_only series then draw_points answer svg vs style label
          else draw_segments answer svg vs style label) (\<lambda>labelled.
      return_act (raw_labelled \<or> labelled))))"

fun draw_all_series :: "publish_answer \<Rightarrow> fs_path \<Rightarrow> bool \<Rightarrow> chart_series list \<Rightarrow> (publish_effect, bool) act" where
  "draw_all_series answer svg has_labels [] = return_act has_labels"
| "draw_all_series answer svg has_labels (series # rest) =
     bind_act (draw_series answer svg series) (\<lambda>labelled. draw_all_series answer svg (has_labels \<or> labelled) rest)"

section \<open>Phases\<close>

fun draw_boundaries :: "publish_answer \<Rightarrow> fs_path \<Rightarrow> u64 \<Rightarrow> u64 \<Rightarrow> phase_marker list \<Rightarrow> (publish_effect, unit) act" where
  "draw_boundaries answer svg elapsed_ms maximum [] = return_act ()"
| "draw_boundaries answer svg elapsed_ms maximum (marker # phases) =
     (if pm_elapsed_ms marker > elapsed_ms then draw_boundaries answer svg elapsed_ms maximum phases
      else
        bind_act (draw answer svg ''failed to render a phase boundary''
            (DrawBoundary [(pm_elapsed_ms marker, 0), (pm_elapsed_ms marker, maximum)])) (\<lambda>_.
        draw_boundaries answer svg elapsed_ms maximum phases))"

definition label_height :: "u64 \<Rightarrow> nat \<Rightarrow> u64" where
  "label_height maximum index =
     (let row = min (case try_to index of None \<Rightarrow> 0 | Some r \<Rightarrow> r) 3;
          height = saturating_sub 96 (saturating_mul row 9) in
      min (max (div_ceil (saturating_mul maximum height) 100) 1) maximum)"

definition label_side :: "u64 \<Rightarrow> u64 \<Rightarrow> horizontal" where
  "label_side marker_ms elapsed_ms =
     (if saturating_mul (ucast marker_ms :: u128) 5 \<ge> saturating_mul (ucast elapsed_ms) 4 then HRight else HLeft)"

fun draw_phase_labels ::
  "publish_answer \<Rightarrow> fs_path \<Rightarrow> u64 \<Rightarrow> u64 \<Rightarrow> nat \<Rightarrow> phase_marker list \<Rightarrow> (publish_effect, unit) act" where
  "draw_phase_labels answer svg elapsed_ms maximum index [] = return_act ()"
| "draw_phase_labels answer svg elapsed_ms maximum index (marker # phases) =
     bind_act (draw answer svg ''failed to render a phase label''
         (DrawPhaseLabel (show_phase (pm_phase marker)) (pm_elapsed_ms marker, label_height maximum index)
           (label_side (pm_elapsed_ms marker) elapsed_ms))) (\<lambda>_.
     draw_phase_labels answer svg elapsed_ms maximum (index + 1) phases)"

section \<open>Panels and dashboards\<close>

definition draw_panel ::
  "publish_answer \<Rightarrow> fs_path \<Rightarrow> panel \<Rightarrow> phase_marker list \<Rightarrow> u64 \<Rightarrow> u64 \<Rightarrow> bool \<Rightarrow> (publish_effect, unit) act" where
  "draw_panel answer svg p phases elapsed_ms maximum show_phase_labels =
     bind_act (draw answer svg ''failed to build telemetry chart''
         (BuildChart (pn_title p) (max elapsed_ms 1) (max maximum 1))) (\<lambda>_.
     bind_act (draw answer svg ''failed to render telemetry chart axes''
         (DrawMesh (unit_label (pn_unit p)) format_milliseconds_as_seconds (format_unit (pn_unit p)))) (\<lambda>_.
     bind_act (draw_boundaries answer svg elapsed_ms maximum phases) (\<lambda>_.
     bind_act (draw_all_series answer svg False (pn_series p)) (\<lambda>has_labels.
     bind_act (if has_labels then draw answer svg ''failed to render telemetry chart legend'' DrawLegend
         else return_act ()) (\<lambda>_.
     if show_phase_labels then
       draw_phase_labels answer svg elapsed_ms maximum 0 (filter (\<lambda>marker. pm_elapsed_ms marker \<le> elapsed_ms) phases)
     else return_act ())))))"

fun draw_panels ::
  "publish_answer \<Rightarrow> fs_path \<Rightarrow> dashboard_limits \<Rightarrow> phase_marker list \<Rightarrow> nat \<Rightarrow> panel list \<Rightarrow> (publish_effect, unit) act" where
  "draw_panels answer svg lim phases index [] = return_act ()"
| "draw_panels answer svg lim phases index (p # ps) =
     bind_act (draw_panel answer svg p phases (dl_elapsed_ms lim)
         (case get_at (dl_panel_maxima lim) index of None \<Rightarrow> 1 | Some m \<Rightarrow> m) (index = 0)) (\<lambda>_.
     draw_panels answer svg lim phases (index + 1) ps)"

text \<open>Five rows of two areas: panels beyond the areas are not drawn.\<close>

definition PANEL_AREAS :: nat where "PANEL_AREAS = 5 * 2"

definition render_svg_with_limits ::
  "publish_answer \<Rightarrow> dashboard_data \<Rightarrow> string \<Rightarrow> fs_path \<Rightarrow> dashboard_limits \<Rightarrow> (publish_effect, unit) act" where
  "render_svg_with_limits answer d title svg lim =
     bind_act (draw answer svg ''failed to fill dashboard background'' FillBackground) (\<lambda>_.
     bind_act (draw answer svg ''failed to render dashboard title'' (DrawTitle title)) (\<lambda>_.
     bind_act (draw_panels answer svg lim (dd_phases d) 0 (take PANEL_AREAS (dd_panels d))) (\<lambda>_.
     draw answer svg ''failed to finish telemetry dashboard'' PresentDrawing)))"

definition render_svg :: "publish_answer \<Rightarrow> dashboard_data \<Rightarrow> string \<Rightarrow> fs_path \<Rightarrow> (publish_effect, unit) act" where
  "render_svg answer d title svg = render_svg_with_limits answer d title svg (limits d)"

end
