(* ===== verification/DashboardPublish.thy ===== *)
theory DashboardPublish
  imports DashboardDraw Report ComparisonReport
begin

text \<open>
  Publishing the dashboards of a report (\<open>write_single\<close>, \<open>write_comparison\<close> and the functions below them in
  \<open>src/report/dashboard.rs\<close>) and writing the reports themselves (\<open>write\<close> of \<open>src/report.rs\<close> and of
  \<open>src/comparison.rs\<close>): which runs get a dashboard, the files they are drawn to, and the text that shows
  them. The file system, the decoders and the order an unstable sort gives to equal keys are fields of a
  record.
\<close>

section \<open>Configuration and assets\<close>

record dashboard_config =
  dc_output_directory :: fs_path
  dc_asset_stem :: string
  dc_public_url_base :: "string option"

datatype revision_role = SingleRole | BaselineRole | ComparisonRole

fun show_role :: "revision_role \<Rightarrow> string" where
  "show_role SingleRole = ''single''"
| "show_role BaselineRole = ''baseline''"
| "show_role ComparisonRole = ''comparison''"

record dashboard_asset =
  da_scenario :: string
  da_role :: revision_role
  da_revision :: string
  da_file_name :: string

record publish_world =
  bw_files :: "publish_effect list \<Rightarrow> report_files"
  bw_answer :: publish_answer
  bw_decode_result :: "string \<Rightarrow> scenario_result result"
  bw_serde :: serde
  bw_sort :: "run_data list \<Rightarrow> run_data list"
  bw_debug :: "scenario_result \<Rightarrow> string"

text \<open>Loading a run, with the files as they are by now.\<close>

definition load_at :: "publish_world \<Rightarrow> publish_effect list \<Rightarrow> fs_path \<Rightarrow> run_data result" where
  "load_at w h = load_run (bw_files w h) (bw_decode_result w) (bw_serde w)"

definition runs_at :: "publish_world \<Rightarrow> publish_effect list \<Rightarrow> fs_path list \<Rightarrow> run_data list" where
  "runs_at w h inputs =
     bw_sort w (List.map_filter (\<lambda>input. case load_at w h input of Inl _ \<Rightarrow> None | Inr run \<Rightarrow> Some run) inputs)"

definition load_runs :: "publish_world \<Rightarrow> fs_path list \<Rightarrow> (publish_effect, run_data list) act" where
  "load_runs w inputs = (\<lambda>h. (Inr (runs_at w h inputs), h))"

section \<open>Valid configurations\<close>

definition load_test_release :: "string list \<Rightarrow> bool" where
  "load_test_release parts =
     (case parts of
        [owner, repository, releases, download, tag] \<Rightarrow>
          valid_repository_component owner \<and> valid_repository_component repository \<and>
          releases = ''releases'' \<and> download = ''download'' \<and> tag = ''load-test-assets''
      | _ \<Rightarrow> False)"

definition validate_public_url_base :: "string \<Rightarrow> unit result" where
  "validate_public_url_base base =
     bind_ok (ok_or ''dashboard URL base must use https://github.com'' (strip_prefix ''https://github.com/'' base)) (\<lambda>path.
     ensure (load_test_release (split_char (CHR ''/'') path))
       ''dashboard URL base must identify the load-test-assets release'' (Inr ()))"

definition stem_char :: "char \<Rightarrow> bool" where
  "stem_char c \<longleftrightarrow> is_ascii_alphanumeric c \<or> c = CHR ''-''"

definition validate_config :: "dashboard_config \<Rightarrow> unit result" where
  "validate_config config =
     ensure (dc_asset_stem config \<noteq> [] \<and> list_all stem_char (dc_asset_stem config))
       ''dashboard asset stem must contain only ASCII letters, digits and hyphens'' (
     case dc_public_url_base config of None \<Rightarrow> Inr () | Some base \<Rightarrow> validate_public_url_base base)"

definition scenario_char :: "char \<Rightarrow> bool" where
  "scenario_char c \<longleftrightarrow> is_ascii_lowercase c \<or> is_ascii_digit c \<or> c = CHR ''-''"

definition valid_scenario_id :: "string \<Rightarrow> bool" where
  "valid_scenario_id s \<longleftrightarrow> s \<noteq> [] \<and> list_all scenario_char s"

definition prepare_output_directory :: "publish_world \<Rightarrow> fs_path \<Rightarrow> (publish_effect, unit) act" where
  "prepare_output_directory w directory =
     act_context (''failed to create dashboard directory '' @ show_path directory)
       (effect (bw_answer w) (CreateDirectory directory))"

section \<open>One dashboard\<close>

definition expected_fanout_milli :: "run_data \<Rightarrow> u64 option" where
  "expected_fanout_milli run =
     (let p = res_plan (rd_result run) in
      if wp_offered_packets p = 0 then None
      else Some (clamp_to (unat ((ucast (wp_expected_deliveries p) * 1000 :: u128) div ucast (wp_offered_packets p)))))"

definition dashboard_of :: "run_data \<Rightarrow> sample_set \<Rightarrow> dashboard_data result" where
  "dashboard_of run samples =
     new_dashboard samples (expected_fanout_milli run) (media_workers (res_server_policy (rd_result run)))"

definition asset_file_name :: "dashboard_config \<Rightarrow> revision_role \<Rightarrow> string \<Rightarrow> string" where
  "asset_file_name config role scenario =
     dc_asset_stem config @ ''-'' @ show_role role @ ''-'' @ scenario @ ''.svg''"

definition shown_revision :: "run_data \<Rightarrow> string" where
  "shown_revision run =
     (case res_o_sfu_revision (rd_result run) of None \<Rightarrow> ''revision unavailable'' | Some revision \<Rightarrow> revision)"

definition write_asset_data ::
  "publish_world \<Rightarrow> run_data \<Rightarrow> dashboard_data \<Rightarrow> revision_role \<Rightarrow> dashboard_config \<Rightarrow> dashboard_limits
     \<Rightarrow> (publish_effect, dashboard_asset) act" where
  "write_asset_data w run d role config lim =
     (let scenario = scenario_label (res_scenario (rd_result run)) in
      ensure_act (valid_scenario_id scenario) ''invalid dashboard scenario ID'' (
      let file_name = asset_file_name config role scenario; revision = shown_revision run in
      bind_act (render_svg_with_limits (bw_answer w) d (scenario @ '' | '' @ show_role role @ '' | '' @ revision)
          (join_path (dc_output_directory config) [file_name]) lim) (\<lambda>_.
      return_act \<lparr>da_scenario = scenario, da_role = role, da_revision = revision, da_file_name = file_name\<rparr>)))"

definition write_asset ::
  "publish_world \<Rightarrow> run_data \<Rightarrow> sample_set \<Rightarrow> revision_role \<Rightarrow> dashboard_config \<Rightarrow> (publish_effect, dashboard_asset) act" where
  "write_asset w run samples role config =
     bind_act (lift_act (dashboard_of run samples)) (\<lambda>d.
     let scenario = scenario_label (res_scenario (rd_result run)) in
     ensure_act (valid_scenario_id scenario) ''invalid dashboard scenario ID'' (
     let file_name = asset_file_name config role scenario; revision = shown_revision run in
     bind_act (render_svg (bw_answer w) d (scenario @ '' | '' @ show_role role @ '' | '' @ revision)
         (join_path (dc_output_directory config) [file_name])) (\<lambda>_.
     return_act \<lparr>da_scenario = scenario, da_role = role, da_revision = revision, da_file_name = file_name\<rparr>)))"

section \<open>The text that shows the dashboards\<close>

definition dashboards_text :: string where
  "dashboards_text =
     ''Each dashboard uses the actual scrape timestamps. CPU, traffic and worker-bitrate panels retain faint raw ''
     @ ''points behind a centered moving average over up to five contiguous samples. Smoothed lines exclude ''
     @ ''phase-crossing intervals while the individual mixed-phase observations remain visible only as points. ''
     @ ''Missing values and counter resets remain gaps. Packet and payload rates use adjacent counter deltas. ''
     @ ''Observed fanout uses adjacent forwarded-local and ingress packet deltas. Expected fanout is the ''
     @ ''whole-workload ratio of planned deliveries to offered packets. Delay, queue and pressure lines are ''
     @ ''per-sample worker maxima. Unavailable scrapes are red points.''"

definition stored_text :: "nat \<Rightarrow> string option \<Rightarrow> string" where
  "stored_text count link =
     (let plural = (if count = 1 then [] else ''s'') in
      case link of
        Some _ \<Rightarrow> ''The workflow artifact contains '' @ show_nat count @ '' Plotters SVG dashboard'' @ plural
          @ '' and the source `samples.jsonl` files.''
      | None \<Rightarrow> ''Generated '' @ show_nat count @ '' Plotters SVG dashboard'' @ plural
          @ '' in the configured output directory.'')"

text \<open>\<open>trim_end_matches\<close> with a text removes every copy of it at the end.\<close>

function trim_end_copies :: "string \<Rightarrow> string \<Rightarrow> string" where
  "trim_end_copies p s =
     (if p = [] then s else case strip_suffix p s of None \<Rightarrow> s | Some t \<Rightarrow> trim_end_copies p t)"
  by pat_completeness auto
termination by (relation "measure (\<lambda>(p, s). length s)") (auto simp: strip_suffix_Some)

declare trim_end_copies.simps [simp del]

definition asset_lines :: "string \<Rightarrow> string option \<Rightarrow> dashboard_asset \<Rightarrow> doc" where
  "asset_lines base link asset =
     (let png = trim_end_copies ''.svg'' (da_file_name asset) @ ''.png'';
          image_url = base @ ''/'' @ png;
          target = (case link of None \<Rightarrow> image_url | Some url \<Rightarrow> url) in
      [''**'' @ show_role (da_role asset) @ ''** `'' @ escape_table (da_revision asset) @ ''`'', [],
       ''[!['' @ show_role (da_role asset) @ '' telemetry dashboard]('' @ image_url @ '')]('' @ target @ '')'', []])"

fun first_seen :: "'a list \<Rightarrow> 'a list \<Rightarrow> 'a list" where
  "first_seen seen [] = seen"
| "first_seen seen (x # xs) = first_seen (if x \<in> set seen then seen else seen @ [x]) xs"

definition scenario_lines :: "string \<Rightarrow> string option \<Rightarrow> dashboard_asset list \<Rightarrow> string \<Rightarrow> doc" where
  "scenario_lines base link assets scenario =
     (let open_scenario = map_option da_scenario (last_of assets);
          opened = (if Some scenario = open_scenario then '' open'' else []) in
      [''<details'' @ opened @ ''>'', ''<summary>'' @ scenario @ ''</summary>'', []]
        @ concat (map (asset_lines base link) (filter (\<lambda>asset. da_scenario asset = scenario) assets))
        @ [''</details>'', []])"

definition render_assets :: "dashboard_asset list \<Rightarrow> string option \<Rightarrow> string option \<Rightarrow> string" where
  "render_assets assets public_url_base link =
     (if assets = [] then []
      else text_of (paragraph_of ''## Telemetry dashboards'' @ paragraph_of dashboards_text
        @ (case public_url_base of
             None \<Rightarrow> paragraph_of (stored_text (length assets) link)
           | Some base \<Rightarrow>
               concat (map (scenario_lines base link assets) (first_seen [] (map da_scenario assets))))))"

section \<open>Dashboards of one revision\<close>

definition unique_scenario :: "run_data list \<Rightarrow> scenario_spec \<Rightarrow> run_data option" where
  "unique_scenario runs scenario =
     (case filter (\<lambda>run. run_spec run = scenario) runs of [run] \<Rightarrow> Some run | _ \<Rightarrow> None)"

definition plotted_samples :: "run_data \<Rightarrow> sample_set option" where
  "plotted_samples run =
     (case rd_samples run of None \<Rightarrow> None | Some samples \<Rightarrow> if ss_samples samples = [] then None else Some samples)"

fun single_loop ::
  "publish_world \<Rightarrow> dashboard_config \<Rightarrow> run_data list \<Rightarrow> dashboard_asset list \<Rightarrow> scenario_spec list \<Rightarrow> run_data list
     \<Rightarrow> (publish_effect, dashboard_asset list) act" where
  "single_loop w config runs assets scenarios [] = return_act assets"
| "single_loop w config runs assets scenarios (candidate # candidates) =
     (let scenario = run_spec candidate in
      if scenario \<in> set scenarios then single_loop w config runs assets scenarios candidates
      else
        case unique_scenario runs scenario of
          None \<Rightarrow> single_loop w config runs assets (scenarios @ [scenario]) candidates
        | Some run \<Rightarrow>
            (case plotted_samples run of
               None \<Rightarrow> single_loop w config runs assets (scenarios @ [scenario]) candidates
             | Some samples \<Rightarrow>
                 bind_act (write_asset w run samples SingleRole config) (\<lambda>asset.
                 single_loop w config runs (assets @ [asset]) (scenarios @ [scenario]) candidates)))"

definition write_single ::
  "publish_world \<Rightarrow> fs_path list \<Rightarrow> dashboard_config \<Rightarrow> string option \<Rightarrow> (publish_effect, string) act" where
  "write_single w inputs config link =
     bind_act (lift_act (validate_config config)) (\<lambda>_.
     bind_act (prepare_output_directory w (dc_output_directory config)) (\<lambda>_.
     bind_act (load_runs w inputs) (\<lambda>runs.
     bind_act (single_loop w config runs [] [] runs) (\<lambda>assets.
     return_act (render_assets assets (dc_public_url_base config) link)))))"

section \<open>Dashboards of a comparison\<close>

definition matching_pair :: "run_data list \<Rightarrow> run_data list \<Rightarrow> scenario_spec \<Rightarrow> (run_data \<times> run_data) option" where
  "matching_pair baseline comparison scenario =
     Option.bind (unique_scenario baseline scenario) (\<lambda>b.
     Option.bind (unique_scenario comparison scenario) (\<lambda>c.
     if workload_matches b c then Some (b, c) else None))"

definition write_pair ::
  "publish_world \<Rightarrow> dashboard_config \<Rightarrow> run_data \<Rightarrow> sample_set \<Rightarrow> run_data \<Rightarrow> sample_set
     \<Rightarrow> (publish_effect, dashboard_asset list) act" where
  "write_pair w config b bs c cs =
     bind_act (lift_act (dashboard_of b bs)) (\<lambda>bd.
     bind_act (lift_act (dashboard_of c cs)) (\<lambda>cd.
     let lim = shared_limits bd cd in
     bind_act (write_asset_data w b bd BaselineRole config lim) (\<lambda>b_asset.
     bind_act (write_asset_data w c cd ComparisonRole config lim) (\<lambda>c_asset.
     return_act [b_asset, c_asset]))))"

fun comparison_loop ::
  "publish_world \<Rightarrow> dashboard_config \<Rightarrow> run_data list \<Rightarrow> run_data list \<Rightarrow> dashboard_asset list \<Rightarrow> scenario_spec list
     \<Rightarrow> run_data list \<Rightarrow> (publish_effect, dashboard_asset list) act" where
  "comparison_loop w config baseline comparison assets scenarios [] = return_act assets"
| "comparison_loop w config baseline comparison assets scenarios (candidate # candidates) =
     (let scenario = run_spec candidate in
      if scenario \<in> set scenarios then comparison_loop w config baseline comparison assets scenarios candidates
      else
        case matching_pair baseline comparison scenario of
          None \<Rightarrow> comparison_loop w config baseline comparison assets (scenarios @ [scenario]) candidates
        | Some (b, c) \<Rightarrow>
            (case (plotted_samples b, plotted_samples c) of
               (Some bs, Some cs) \<Rightarrow>
                 bind_act (write_pair w config b bs c cs) (\<lambda>pair_assets.
                 comparison_loop w config baseline comparison (assets @ pair_assets) (scenarios @ [scenario]) candidates)
             | _ \<Rightarrow> comparison_loop w config baseline comparison assets (scenarios @ [scenario]) candidates))"

definition write_comparison ::
  "publish_world \<Rightarrow> fs_path list \<Rightarrow> fs_path list \<Rightarrow> dashboard_config \<Rightarrow> string option \<Rightarrow> (publish_effect, string) act" where
  "write_comparison w baseline_inputs comparison_inputs config link =
     bind_act (lift_act (validate_config config)) (\<lambda>_.
     bind_act (prepare_output_directory w (dc_output_directory config)) (\<lambda>_.
     bind_act (load_runs w baseline_inputs) (\<lambda>baseline.
     bind_act (load_runs w comparison_inputs) (\<lambda>comparison.
     bind_act (comparison_loop w config baseline comparison [] [] baseline) (\<lambda>assets.
     return_act (render_assets assets (dc_public_url_base config) link))))))"

section \<open>Writing the reports\<close>

definition create_parent :: "publish_world \<Rightarrow> string \<Rightarrow> fs_path \<Rightarrow> (publish_effect, unit) act" where
  "create_parent w msg output =
     (case path_parent output of
        None \<Rightarrow> return_act ()
      | Some parent \<Rightarrow>
          if is_empty_path parent then return_act ()
          else act_context msg (effect (bw_answer w) (CreateDirectory parent)))"

text \<open>A summary with the dashboards behind it, if any are wanted.\<close>

definition with_dashboards ::
  "string \<Rightarrow> (publish_effect, string) act option \<Rightarrow> (publish_effect, string) act" where
  "with_dashboards summary dashboards =
     (case dashboards of
        None \<Rightarrow> return_act summary
      | Some write_dashboards \<Rightarrow>
          bind_act write_dashboards (\<lambda>shown.
          bind_act (lift_act (ensure_summary_size (summary @ shown))) (\<lambda>_.
          return_act (summary @ shown))))"

definition write_report ::
  "publish_world \<Rightarrow> fs_path list \<Rightarrow> fs_path \<Rightarrow> string option \<Rightarrow> dashboard_config option \<Rightarrow> (publish_effect, unit) act" where
  "write_report w inputs output link dashboards =
     bind_act (\<lambda>h. (render (bw_debug w) (load_at w h) inputs link, h)) (\<lambda>summary.
     bind_act (with_dashboards summary (map_option (\<lambda>config. write_single w inputs config link) dashboards)) (\<lambda>summary.
     bind_act (create_parent w ''failed to create the report directory'' output) (\<lambda>_.
     act_context ''failed to write the report'' (effect (bw_answer w) (WriteText output summary)))))"

definition write_comparison_report ::
  "publish_world \<Rightarrow> fs_path list \<Rightarrow> fs_path list \<Rightarrow> fs_path \<Rightarrow> string option \<Rightarrow> dashboard_config option
     \<Rightarrow> (publish_effect, unit) act" where
  "write_comparison_report w baseline_inputs comparison_inputs output link dashboards =
     bind_act (\<lambda>h. (render_comparison (load_at w h) baseline_inputs comparison_inputs link, h)) (\<lambda>summary.
     bind_act (with_dashboards summary
         (map_option (\<lambda>config. write_comparison w baseline_inputs comparison_inputs config link) dashboards)) (\<lambda>summary.
     bind_act (create_parent w ''failed to create the comparison report directory'' output) (\<lambda>_.
     act_context ''failed to write the comparison report'' (effect (bw_answer w) (WriteText output summary)))))"

end
