(* ===== verification/Programs.thy ===== *)
theory Programs
  imports DashboardPublish ProfileReport ControllerRun
begin

text \<open>
  The command line programs (\<open>src/bin\<close>) behind their parsed arguments, which \<open>clap\<close> yields, and the build
  script, which finds the locked revision of o-sfu: the run of a scenario, the report of one revision or of two,
  and the preparation and report of a profile. The RTC worker's program only chains the reading of its
  specification, the first phase and the scenario run.
\<close>

section \<open>Running a scenario\<close>

datatype scenario_command =
    SmokeCommand u32 u32
  | AudioMeshCommand u32 u32 u32
  | VideoGalleryCommand u32 u32 u32 u32
  | MixedConferenceCommand u32 u32 u32 u32 u32

fun command_spec :: "scenario_command \<Rightarrow> scenario_spec result" where
  "command_spec (SmokeCommand receivers packets) = smoke receivers packets"
| "command_spec (AudioMeshCommand rooms peers seconds) = audio_mesh rooms peers seconds"
| "command_spec (VideoGalleryCommand rooms peers publishers seconds) = video_gallery rooms peers publishers seconds"
| "command_spec (MixedConferenceCommand rooms peers audio_publishers video_publishers seconds) =
     mixed_conference rooms peers audio_publishers video_publishers seconds"

record load_arguments =
  la_server_binary :: fs_path
  la_rtc_binary :: fs_path
  la_output :: fs_path
  la_server_cpus :: "string option"
  la_rtc_cpus :: "string option"
  la_profile_server :: bool
  la_scenario :: scenario_command

definition load_program :: "controller_world \<Rightarrow> load_arguments \<Rightarrow> (controller_effect, unit) run" where
  "load_program w cli =
     bind_run (lift_run (lift_act (command_spec (la_scenario cli)))) (\<lambda>spec.
     bind_run (run_controller w
         \<lparr>server_binary = la_server_binary cli, rtc_binary = la_rtc_binary cli, output_directory = la_output cli,
          server_cpus = la_server_cpus cli, rtc_cpus = la_rtc_cpus cli, profile_server = la_profile_server cli,
          config_spec = spec\<rparr>) (\<lambda>_.
     lift_run (return_act ())))"

section \<open>Reports\<close>

record report_arguments =
  ra_input :: "fs_path list"
  ra_baseline_input :: "fs_path list"
  ra_comparison_input :: "fs_path list"
  ra_output :: fs_path
  ra_artifact_url :: "string option"
  ra_dashboard_output :: "fs_path option"
  ra_dashboard_asset_stem :: "string option"
  ra_dashboard_url_base :: "string option"

definition wanted_dashboards :: "report_arguments \<Rightarrow> dashboard_config option" where
  "wanted_dashboards cli =
     (case (ra_dashboard_output cli, ra_dashboard_asset_stem cli) of
        (Some directory, Some stem) \<Rightarrow>
          Some \<lparr>dc_output_directory = directory, dc_asset_stem = stem, dc_public_url_base = ra_dashboard_url_base cli\<rparr>
      | _ \<Rightarrow> None)"

definition report_program :: "publish_world \<Rightarrow> report_arguments \<Rightarrow> (publish_effect, unit) act" where
  "report_program w cli =
     ensure_act ((ra_dashboard_output cli \<noteq> None) = (ra_dashboard_asset_stem cli \<noteq> None))
       ''--dashboard-output and --dashboard-asset-stem must be used together'' (
     ensure_act (ra_dashboard_url_base cli = None \<or> ra_dashboard_output cli \<noteq> None)
       ''--dashboard-url-base requires --dashboard-output'' (
     if ra_input cli \<noteq> [] \<and> ra_baseline_input cli = [] \<and> ra_comparison_input cli = [] then
       write_report w (ra_input cli) (ra_output cli) (ra_artifact_url cli) (wanted_dashboards cli)
     else if ra_input cli = [] \<and> ra_baseline_input cli \<noteq> [] \<and> ra_comparison_input cli \<noteq> [] then
       write_comparison_report w (ra_baseline_input cli) (ra_comparison_input cli) (ra_output cli)
         (ra_artifact_url cli) (wanted_dashboards cli)
     else fail_act ''use either --input or matching --baseline-input and --comparison-input arguments''))"

section \<open>Profiles\<close>

text \<open>
  \<open>make_directory\<close> answers \<open>create_dir_all\<close>, which changes no file of the profile directory.
\<close>

definition write_profile ::
  "profile_world \<Rightarrow> (file_event list \<Rightarrow> fs_path \<Rightarrow> unit result) \<Rightarrow> fs_path \<Rightarrow> fs_path \<Rightarrow> string option \<Rightarrow> string option
     \<Rightarrow> (file_event, unit) act" where
  "write_profile w make_directory input output artifact_link flamegraph_link =
     bind_act (\<lambda>h. (render_profile w h input artifact_link flamegraph_link, h)) (\<lambda>summary.
     bind_act (case parent_directory output of
         None \<Rightarrow> return_act ()
       | Some parent \<Rightarrow>
           act_context ''failed to create the profile report directory'' (\<lambda>h. (make_directory h parent, h))) (\<lambda>_.
     write_file w ''failed to write the profile report'' output summary))"

datatype profile_command =
    PrepareCommand fs_path
  | ReportCommand fs_path fs_path "string option" "string option"

fun profile_program ::
  "profile_world \<Rightarrow> (file_event list \<Rightarrow> fs_path \<Rightarrow> unit result) \<Rightarrow> profile_command \<Rightarrow> (file_event, unit) act" where
  "profile_program w make_directory (PrepareCommand input) = prepare w input"
| "profile_program w make_directory (ReportCommand input output artifact_link flamegraph_link) =
     write_profile w make_directory input output artifact_link flamegraph_link"

section \<open>The locked revision\<close>

text \<open>\<open>str::split\<close> at a non-empty text: the pieces between its occurrences, from the left.\<close>

function split_text :: "string \<Rightarrow> string \<Rightarrow> string \<Rightarrow> string list" where
  "split_text p piece s =
     (case s of
        [] \<Rightarrow> [piece]
      | c # cs \<Rightarrow>
          if p \<noteq> [] \<and> starts_with p s then piece # split_text p [] (drop (length p) s)
          else split_text p (piece @ [c]) cs)"
  by pat_completeness auto
termination by (relation "measure (\<lambda>(p, piece, s). length s)") auto

declare split_text.simps [simp del]

fun find_map :: "('a \<Rightarrow> 'b option) \<Rightarrow> 'a list \<Rightarrow> 'b option" where
  "find_map f [] = None"
| "find_map f (x # xs) = (case f x of Some y \<Rightarrow> Some y | None \<Rightarrow> find_map f xs)"

definition quote :: char where "quote = CHR 0x22"

definition source_revision :: "string \<Rightarrow> string option" where
  "source_revision text =
     Option.bind (strip_prefix (''source = '' @ [quote] @ ''git+https://github.com/ThanhDodeurOdoo/o-sfu'') (trim text))
       (\<lambda>source. Option.bind (strip_suffix [quote] source) (\<lambda>source.
        map_option snd (rsplit_once (CHR ''#'') source)))"

definition package_revision :: "string \<Rightarrow> string option" where
  "package_revision package =
     (if \<not> list_ex (\<lambda>text. trim text = ''name = '' @ [quote] @ ''o-sfu'' @ [quote]) (lines_of package) then None
      else find_map source_revision (lines_of package))"

definition locked_o_sfu_revision :: "string \<Rightarrow> string option" where
  "locked_o_sfu_revision lock = find_map package_revision (split_text ''[[package]]'' [] lock)"

end
