(* ===== verification/DashboardDrawFacts.thy ===== *)
theory DashboardDrawFacts
  imports DashboardDraw DashboardFit
begin

text \<open>
  What a drawn dashboard shows: every observation and every value of a trend exactly once and in order,
  and nothing outside the axes of the chart it is drawn in.
\<close>

section \<open>What the calls draw\<close>

text \<open>The points a call shows of a series.\<close>

fun step_points :: "draw_step \<Rightarrow> point list" where
  "step_points (DrawCircles ps radius style label) = ps"
| "step_points (DrawLine ps style label) = ps"
| "step_points _ = []"

definition drawn :: "draw_step list \<Rightarrow> point list" where
  "drawn steps = concat (map step_points steps)"

definition fits :: "point \<Rightarrow> point \<Rightarrow> bool" where
  "fits axes p \<longleftrightarrow> fst p \<le> fst axes \<and> snd p \<le> snd axes"

text \<open>A call inside a chart with the given ends of its axes.\<close>

fun inside :: "point \<Rightarrow> draw_step \<Rightarrow> bool" where
  "inside axes (DrawBoundary ps) \<longleftrightarrow> list_all (fits axes) ps"
| "inside axes (DrawCircles ps radius style label) \<longleftrightarrow> list_all (fits axes) ps"
| "inside axes (DrawLine ps style label) \<longleftrightarrow> list_all (fits axes) ps"
| "inside axes (DrawPhaseLabel t p side) \<longleftrightarrow> fits axes p"
| "inside axes (DrawMesh label x y) \<longleftrightarrow> True"
| "inside axes DrawLegend \<longleftrightarrow> True"
| "inside axes _ \<longleftrightarrow> False"

text \<open>Every call belongs to the chart built last and stays inside its axes.\<close>

fun within_charts :: "point option \<Rightarrow> draw_step list \<Rightarrow> bool" where
  "within_charts chart [] \<longleftrightarrow> True"
| "within_charts chart (BuildChart t x y # steps) \<longleftrightarrow> within_charts (Some (x, y)) steps"
| "within_charts chart (FillBackground # steps) \<longleftrightarrow> within_charts chart steps"
| "within_charts chart (DrawTitle t # steps) \<longleftrightarrow> within_charts chart steps"
| "within_charts chart (PresentDrawing # steps) \<longleftrightarrow> within_charts chart steps"
| "within_charts chart (s # steps) \<longleftrightarrow> (\<exists>axes. chart = Some axes \<and> inside axes s) \<and> within_charts chart steps"

lemma drawn_simps [simp]:
  "drawn [] = []" "drawn (s # steps) = step_points s @ drawn steps" "drawn (as @ bs) = drawn as @ drawn bs"
  by (simp_all add: drawn_def)

lemma within_inside: "list_all (inside axes) steps \<Longrightarrow> within_charts (Some axes) steps"
proof (induction steps)
  case (Cons s steps)
  then show ?case by (cases s) simp_all
qed simp

lemma within_append:
  "\<forall>chart. within_charts chart as \<Longrightarrow> \<forall>chart. within_charts chart bs \<Longrightarrow> within_charts chart (as @ bs)"
proof -
  have "within_charts c as \<Longrightarrow> \<forall>chart. within_charts chart bs \<Longrightarrow> within_charts c (as @ bs)" for c
    by (induction c as rule: within_charts.induct) auto
  then show "\<forall>chart. within_charts chart as \<Longrightarrow> \<forall>chart. within_charts chart bs \<Longrightarrow> within_charts chart (as @ bs)"
    by blast
qed

section \<open>Actions that draw\<close>

text \<open>
  An action that only draws, all of its calls satisfying a predicate, and the given points unless one of
  the calls fails.
\<close>

definition sketches ::
  "fs_path \<Rightarrow> (draw_step list \<Rightarrow> bool) \<Rightarrow> point list \<Rightarrow> (publish_effect, 'a) act \<Rightarrow> bool" where
  "sketches svg Q ps m \<longleftrightarrow>
     (\<forall>h r h'. m h = (r, h') \<longrightarrow>
        (\<exists>steps. h' = h @ map (Drawing svg) steps \<and> Q steps \<and> (is_ok r \<longrightarrow> drawn steps = ps)))"

text \<open>Predicates that concatenation keeps.\<close>

definition composes :: "(draw_step list \<Rightarrow> bool) \<Rightarrow> bool" where
  "composes Q \<longleftrightarrow> Q [] \<and> (\<forall>as bs. Q as \<longrightarrow> Q bs \<longrightarrow> Q (as @ bs))"

definition charted :: "draw_step list \<Rightarrow> bool" where
  "charted steps \<longleftrightarrow> (\<forall>chart. within_charts chart steps) \<and> PresentDrawing \<notin> set steps"

lemma composes_inside [simp]: "composes (list_all (inside axes))"
  by (simp add: composes_def)

lemma composes_charted [simp]: "composes charted"
  by (auto simp: composes_def charted_def within_append)

named_theorems sketch_intros \<open>actions that draw\<close>

lemma sketchesI:
  "(\<And>h r h'. m h = (r, h') \<Longrightarrow> \<exists>steps. h' = h @ map (Drawing svg) steps \<and> Q steps \<and> (is_ok r \<longrightarrow> drawn steps = ps)) \<Longrightarrow>
     sketches svg Q ps m"
  by (simp add: sketches_def)

lemma sketchesE:
  assumes "sketches svg Q ps m" "m h = (r, h')"
  obtains steps where "h' = h @ map (Drawing svg) steps" "Q steps" "is_ok r \<longrightarrow> drawn steps = ps"
  using assms unfolding sketches_def by blast

lemma sketches_return [sketch_intros]: "composes Q \<Longrightarrow> sketches svg Q [] (return_act x)"
  by (auto simp: sketches_def return_act_def composes_def intro!: exI [of _ "[]"])

lemma sketches_draw: "Q [s] \<Longrightarrow> sketches svg Q (step_points s) (draw answer svg msg s)"
  by (auto simp: sketches_def draw_def act_context_def effect_def intro!: exI [of _ "[s]"])

lemma sketches_bind:
  assumes "composes Q" "sketches svg Q ps m" "\<And>x. sketches svg Q qs (f x)"
  shows "sketches svg Q (ps @ qs) (bind_act m f)"
proof (rule sketchesI)
  fix h r h'
  assume b: "bind_act m f h = (r, h')"
  obtain r1 h1 where m: "m h = (r1, h1)" by fastforce
  from assms(2) m obtain as where as: "h1 = h @ map (Drawing svg) as" "Q as" "is_ok r1 \<longrightarrow> drawn as = ps"
    by (rule sketchesE)
  show "\<exists>steps. h' = h @ map (Drawing svg) steps \<and> Q steps \<and> (is_ok r \<longrightarrow> drawn steps = ps @ qs)"
  proof (cases r1)
    case (Inl e)
    then show ?thesis using b m as by (auto simp: bind_act_def)
  next
    case (Inr x)
    then have f: "f x h1 = (r, h')" using b m by (simp add: bind_act_def)
    from assms(3) this obtain bs where "h' = h1 @ map (Drawing svg) bs" "Q bs" "is_ok r \<longrightarrow> drawn bs = qs"
      by (rule sketchesE)
    then show ?thesis using as Inr assms(1)
      by (intro exI [of _ "as @ bs"]) (auto simp: composes_def)
  qed
qed

text \<open>A call followed by the rest.\<close>

lemma sketches_then:
  assumes "composes Q" "Q [s]" "\<And>x. sketches svg Q qs (f x)" "ps = step_points s @ qs"
  shows "sketches svg Q ps (bind_act (draw answer svg msg s) f)"
  unfolding assms(4) using assms(1) sketches_draw assms(3) by (rule sketches_bind) (rule assms(2))

lemma draw_then:
  "bind_act (draw answer svg msg s) f h = (r, h') \<Longrightarrow>
     (\<exists>e. r = Inl e \<and> h' = h @ [Drawing svg s]) \<or> f () (h @ [Drawing svg s]) = (r, h')"
  by (cases "answer h (Drawing svg s)") (auto simp: bind_act_def draw_def act_context_def effect_def)

lemma sketches_mono: "sketches svg Q ps m \<Longrightarrow> (\<And>steps. Q steps \<Longrightarrow> R steps) \<Longrightarrow> sketches svg R ps m"
  unfolding sketches_def by blast

section \<open>Series\<close>

lemma present_points_simps [simp]:
  "present_points [] = []" "present_points (None # vs) = present_points vs"
  "present_points (Some p # vs) = p # present_points vs"
  by (simp_all add: present_points_def)

lemma set_present_points [simp]: "p \<in> set (present_points vs) \<longleftrightarrow> Some p \<in> set vs"
proof (induction vs)
  case (Cons v vs)
  then show ?case by (cases v) auto
qed simp

lemma no_values: "\<not> has_values vs \<Longrightarrow> present_points vs = []"
proof (induction vs)
  case (Cons v vs)
  then show ?case by (cases v) (simp_all add: has_values_def)
qed simp

lemma concat_segments_from: "concat (segments_from current vs) = current @ present_points vs"
  by (induction current vs rule: segments_from.induct) simp_all

lemma concat_segments: "concat (contiguous_segments vs) = present_points vs"
  by (simp add: contiguous_segments_def concat_segments_from)

lemma sketches_points:
  assumes "\<And>p. Some p \<in> set vs \<Longrightarrow> fits axes p"
  shows "sketches svg (list_all (inside axes)) (present_points vs) (draw_points answer svg vs style label)"
proof (cases "has_values vs")
  case True
  then show ?thesis unfolding draw_points_def
    by (auto intro!: sketches_then sketch_intros simp: list_all_iff assms)
next
  case False
  then show ?thesis by (simp add: draw_points_def no_values sketch_intros)
qed

lemma sketches_segment_loop:
  "(\<And>p. p \<in> set (concat segments) \<Longrightarrow> fits axes p) \<Longrightarrow>
     sketches svg (list_all (inside axes)) (concat segments) (draw_segment_loop answer svg style label labelled segments)"
proof (induction segments arbitrary: labelled)
  case Nil
  then show ?case by (simp add: sketch_intros)
next
  case (Cons segment segments)
  have fit: "list_all (fits axes) segment" using Cons.prems by (auto simp: list_all_iff)
  then have "fits axes (hd segment) \<or> segment = []" by (cases segment) simp_all
  note fit = fit this
  have hd: "length segment = 1 \<Longrightarrow> [hd segment] = segment" by (cases segment) auto
  have "sketches svg (list_all (inside axes)) (concat segments) (draw_segment_loop answer svg style label l segments)" for l
    using Cons.prems by (intro Cons.IH) auto
  then show ?case using fit hd by (auto simp: Let_def intro!: sketches_then)
qed

lemma sketches_segments:
  assumes "\<And>p. Some p \<in> set vs \<Longrightarrow> fits axes p"
  shows "sketches svg (list_all (inside axes)) (present_points vs) (draw_segments answer svg vs style label)"
  unfolding draw_segments_def concat_segments [of vs, symmetric]
  by (rule sketches_segment_loop) (simp add: concat_segments assms del: set_concat)

text \<open>The points a series is to show: the observations behind a smoothed one, and the trend.\<close>

definition series_points :: "chart_series \<Rightarrow> point list" where
  "series_points series =
     (if cs_smooth series then present_points (raw_points series) else []) @ present_points (trend_values series)"

definition panel_points :: "panel \<Rightarrow> point list" where
  "panel_points p = concat (map series_points (pn_series p))"

lemma sketches_series:
  assumes "\<And>p. p \<in> set (series_points series) \<Longrightarrow> fits axes p"
  shows "sketches svg (list_all (inside axes)) (series_points series) (draw_series answer svg series)"
proof -
  have raw: "sketches svg (list_all (inside axes))
      (if cs_smooth series then present_points (raw_points series) else [])
      (if cs_smooth series then draw_points answer svg (raw_points series) style label else return_act False)" for style label
    using assms by (auto simp: series_points_def intro!: sketches_points sketch_intros)
  have trend: "sketches svg (list_all (inside axes)) (present_points (trend_values series))
      (if cs_points_only series then draw_points answer svg (trend_values series) style label
       else draw_segments answer svg (trend_values series) style label)" for style label
    using assms by (auto simp: series_points_def intro!: sketches_points sketches_segments)
  have "sketches svg (list_all (inside axes)) (present_points (trend_values series) @ [])
      (bind_act (if cs_points_only series then draw_points answer svg (trend_values series) style label
        else draw_segments answer svg (trend_values series) style label) (\<lambda>labelled. return_act (b \<or> labelled)))"
    for b style label
    by (rule sketches_bind [OF composes_inside trend]) (simp add: sketch_intros)
  then show ?thesis
    unfolding draw_series_def Let_def series_points_def
    by (intro sketches_bind composes_inside raw) simp
qed

lemma sketches_all_series:
  "(\<And>s p. s \<in> set ss \<Longrightarrow> p \<in> set (series_points s) \<Longrightarrow> fits axes p) \<Longrightarrow>
     sketches svg (list_all (inside axes)) (concat (map series_points ss)) (draw_all_series answer svg b ss)"
proof (induction ss arbitrary: b)
  case Nil
  then show ?case by (simp add: sketch_intros)
next
  case (Cons s ss)
  have "sketches svg (list_all (inside axes)) (series_points s) (draw_series answer svg s)"
    using Cons.prems by (intro sketches_series) auto
  moreover have "sketches svg (list_all (inside axes)) (concat (map series_points ss)) (draw_all_series answer svg b' ss)" for b'
    using Cons.prems by (intro Cons.IH) auto
  ultimately show ?case by (simp add: sketches_bind)
qed

section \<open>Phases and panels\<close>

lemma sketches_boundaries:
  "elapsed_ms \<le> fst axes \<Longrightarrow> maximum \<le> snd axes \<Longrightarrow>
     sketches svg (list_all (inside axes)) [] (draw_boundaries answer svg elapsed_ms maximum phases)"
  by (induction phases) (auto simp: sketch_intros fits_def intro!: sketches_then)

lemma label_height_le: "label_height maximum index \<le> maximum"
  by (simp add: label_height_def Let_def)

lemma sketches_phase_labels:
  "list_all (\<lambda>marker. pm_elapsed_ms marker \<le> fst axes) phases \<Longrightarrow> maximum \<le> snd axes \<Longrightarrow>
     sketches svg (list_all (inside axes)) [] (draw_phase_labels answer svg elapsed_ms maximum index phases)"
  by (induction phases arbitrary: index)
    (auto simp: sketch_intros fits_def intro!: sketches_then order_trans [OF label_height_le])

lemma sketches_panel:
  assumes "\<And>point. point \<in> set (panel_points p) \<Longrightarrow> fits (max elapsed_ms 1, max maximum 1) point"
  shows "sketches svg charted (panel_points p) (draw_panel answer svg p phases elapsed_ms maximum shown)"
proof -
  let ?axes = "(max elapsed_ms 1, max maximum 1)"
  let ?body = "\<lambda>_ :: unit.
     bind_act (draw answer svg ''failed to render telemetry chart axes''
         (DrawMesh (unit_label (pn_unit p)) format_milliseconds_as_seconds (format_unit (pn_unit p)))) (\<lambda>_.
     bind_act (draw_boundaries answer svg elapsed_ms maximum phases) (\<lambda>_.
     bind_act (draw_all_series answer svg False (pn_series p)) (\<lambda>has_labels.
     bind_act (if has_labels then draw answer svg ''failed to render telemetry chart legend'' DrawLegend
         else return_act ()) (\<lambda>_.
     if shown then
       draw_phase_labels answer svg elapsed_ms maximum 0 (filter (\<lambda>marker. pm_elapsed_ms marker \<le> elapsed_ms) phases)
     else return_act ()))))"
  have last: "sketches svg (list_all (inside ?axes)) [] (if shown then
       draw_phase_labels answer svg elapsed_ms maximum 0 (filter (\<lambda>marker. pm_elapsed_ms marker \<le> elapsed_ms) phases)
     else return_act ())"
    by (auto simp: sketch_intros list_all_iff le_max_iff_disj intro!: sketches_phase_labels)
  have legend: "sketches svg (list_all (inside ?axes)) []
      (if b then draw answer svg ''failed to render telemetry chart legend'' DrawLegend else return_act ())" for b
    using sketches_draw [where s = DrawLegend and Q = "list_all (inside ?axes)"] by (simp add: sketch_intros)
  have bounds: "sketches svg (list_all (inside ?axes)) [] (draw_boundaries answer svg elapsed_ms maximum phases)"
    by (rule sketches_boundaries) simp_all
  have drawn_series: "sketches svg (list_all (inside ?axes)) (panel_points p) (draw_all_series answer svg False (pn_series p))"
    unfolding panel_points_def using assms by (intro sketches_all_series) (auto simp: panel_points_def)
  have "sketches svg (list_all (inside ?axes)) (step_points (DrawMesh (unit_label (pn_unit p))
      format_milliseconds_as_seconds (format_unit (pn_unit p))) @ [] @ panel_points p @ [] @ []) (?body x)" for x
    by (intro sketches_bind composes_inside sketches_draw bounds drawn_series legend last) simp
  then have body: "sketches svg (list_all (inside ?axes)) (panel_points p) (?body x)" for x by simp
  show ?thesis
  proof (rule sketchesI)
    fix h r h'
    assume run: "draw_panel answer svg p phases elapsed_ms maximum shown h = (r, h')"
    let ?h = "h @ [Drawing svg (BuildChart (pn_title p) (fst ?axes) (snd ?axes))]"
    consider e where "r = Inl e" "h' = ?h" | "?body () ?h = (r, h')"
      using draw_then [OF run [unfolded draw_panel_def]] by auto
    then show "\<exists>steps. h' = h @ map (Drawing svg) steps \<and> charted steps \<and> (is_ok r \<longrightarrow> drawn steps = panel_points p)"
    proof cases
      case 1
      then show ?thesis
        by (intro exI [of _ "[BuildChart (pn_title p) (fst ?axes) (snd ?axes)]"]) (simp add: charted_def)
    next
      case 2
      with body obtain steps where steps: "h' = ?h @ map (Drawing svg) steps" "list_all (inside ?axes) steps"
        "is_ok r \<longrightarrow> drawn steps = panel_points p"
        by (rule sketchesE)
      then show ?thesis
        by (intro exI [of _ "BuildChart (pn_title p) (fst ?axes) (snd ?axes) # steps"])
          (auto simp: charted_def within_inside list_all_iff)
    qed
  qed
qed

text \<open>A dashboard whose points fit the limits it is drawn with.\<close>

definition panel_top :: "dashboard_limits \<Rightarrow> nat \<Rightarrow> u64" where
  "panel_top lim index = (case get_at (dl_panel_maxima lim) index of None \<Rightarrow> 1 | Some m \<Rightarrow> m)"

lemma sketches_panels:
  "(\<And>i point. i < length ps \<Longrightarrow> point \<in> set (panel_points (ps ! i)) \<Longrightarrow>
      fits (max (dl_elapsed_ms lim) 1, max (panel_top lim (index + i)) 1) point) \<Longrightarrow>
     sketches svg charted (concat (map panel_points ps)) (draw_panels answer svg lim phases index ps)"
proof (induction ps arbitrary: index)
  case Nil
  then show ?case by (simp add: sketch_intros)
next
  case (Cons p ps)
  have "sketches svg charted (panel_points p)
      (draw_panel answer svg p phases (dl_elapsed_ms lim) (panel_top lim index) (index = 0))"
    using Cons.prems [of 0] by (intro sketches_panel) simp
  moreover have "sketches svg charted (concat (map panel_points ps)) (draw_panels answer svg lim phases (index + 1) ps)"
    using Cons.prems [of "Suc i" for i] by (intro Cons.IH) simp
  ultimately show ?case by (simp add: panel_top_def sketches_bind)
qed

lemma sketches_dashboard:
  assumes "\<And>i point. i < length (dd_panels d) \<Longrightarrow> i < PANEL_AREAS \<Longrightarrow> point \<in> set (panel_points (dd_panels d ! i)) \<Longrightarrow>
      fits (max (dl_elapsed_ms lim) 1, max (panel_top lim i) 1) point"
    and "render_svg_with_limits answer d title svg lim h = (r, h')"
  shows "\<exists>steps. h' = h @ map (Drawing svg) steps \<and> within_charts None steps \<and>
      (is_ok r \<longrightarrow> drawn steps = concat (map panel_points (take PANEL_AREAS (dd_panels d))) \<and>
        (\<exists>before. steps = before @ [PresentDrawing] \<and> PresentDrawing \<notin> set before))"
proof -
  let ?points = "concat (map panel_points (take PANEL_AREAS (dd_panels d)))"
  let ?panels = "draw_panels answer svg lim (dd_phases d) 0 (take PANEL_AREAS (dd_panels d))"
  let ?start = "h @ [Drawing svg FillBackground, Drawing svg (DrawTitle title)]"
  let ?present = "draw answer svg ''failed to finish telemetry dashboard'' PresentDrawing"
  have panels: "sketches svg charted ?points ?panels"
    by (rule sketches_panels) (use assms(1) in simp)
  consider e where "r = Inl e" "h' = h @ [Drawing svg FillBackground]" | e where "r = Inl e" "h' = ?start"
    | "bind_act ?panels (\<lambda>_. ?present) ?start = (r, h')"
    using draw_then [OF assms(2) [unfolded render_svg_with_limits_def]] draw_then by fastforce
  then show ?thesis
  proof cases
    case 1
    then show ?thesis by (intro exI [of _ "[FillBackground]"]) simp
  next
    case 2
    then show ?thesis by (intro exI [of _ "[FillBackground, DrawTitle title]"]) simp
  next
    case 3
    obtain r1 h1 where m: "?panels ?start = (r1, h1)" by fastforce
    from panels m obtain steps where steps: "h1 = ?start @ map (Drawing svg) steps" "charted steps"
      "is_ok r1 \<longrightarrow> drawn steps = ?points"
      by (rule sketchesE)
    let ?all = "FillBackground # DrawTitle title # steps"
    have ends: "within_charts None (?all @ tail)" if "\<forall>chart. within_charts chart tail" for tail
      using steps(2) that by (simp add: charted_def within_append)
    show ?thesis
    proof (cases r1)
      case (Inl e)
      then have "r = Inl e" "h' = h @ map (Drawing svg) ?all" using 3 m steps(1) by (auto simp: bind_act_def)
      then show ?thesis using ends [of "[]"] by (intro exI [of _ ?all]) simp
    next
      case (Inr x)
      then have "?present h1 = (r, h')" using 3 m by (simp add: bind_act_def)
      then have "h' = h @ map (Drawing svg) (?all @ [PresentDrawing])"
        using steps(1) by (auto simp: draw_def act_context_def effect_def)
      then show ?thesis using ends [of "[PresentDrawing]"] steps(2,3) Inr
        by (intro exI [of _ "?all @ [PresentDrawing]"]) (auto simp: charted_def)
    qed
  qed
qed

section \<open>Points of a trend\<close>

lemma length_max_each [simp]: "length (max_each xs ys) = length xs"
  by (induction xs ys rule: max_each.induct) simp_all

lemma mean_le:
  assumes "ps \<noteq> []" "\<And>p. p \<in> set ps \<Longrightarrow> snd p \<le> m"
  shows "(of_nat (mean ps) :: u64) \<le> m"
proof -
  have "sum_list (map (\<lambda>p. unat (snd p)) ps) \<le> length (map (\<lambda>p. unat (snd p)) ps) * unat m"
    by (rule sum_list_bound) (use assms(2) in \<open>auto simp: word_le_nat_alt\<close>)
  then have "sum_list (map (\<lambda>p. unat (snd p)) ps) div length ps \<le> length ps * unat m div length ps"
    by (intro div_le_mono) simp
  then have "mean ps \<le> unat m" using assms(1) by (simp add: mean_def)
  moreover from this have "mean ps < 2 ^ 64" using unat_less_2p [of m] by simp
  ultimately show ?thesis by (simp add: word_le_nat_alt unat_of_nat)
qed

lemma smooth_run_fits:
  assumes "\<And>p. p \<in> set run \<Longrightarrow> fits axes p" and "Some p \<in> set (smooth_run radius run)"
  shows "fits axes p"
proof -
  obtain i where i: "i < length run" "p = (fst (run ! i), of_nat (mean (window run radius i)))"
    using assms(2) by (auto simp: smooth_run_def)
  have "set (window run radius i) \<subseteq> set run"
    unfolding window_def by (meson set_drop_subset set_take_subset subset_trans)
  moreover have "window run radius i \<noteq> []" using length_window [OF i(1), of radius] by auto
  ultimately have "of_nat (mean (window run radius i)) \<le> snd axes"
    using assms(1) by (intro mean_le) (auto simp: fits_def)
  moreover have "fst (run ! i) \<le> fst axes" using assms(1) nth_mem [OF i(1)] by (auto simp: fits_def)
  ultimately show ?thesis using i(2) by (simp add: fits_def)
qed

lemma smooth_runs_fits:
  "(\<And>p. Some p \<in> set vs \<Longrightarrow> fits axes p) \<Longrightarrow> Some p \<in> set (smooth_runs radius vs) \<Longrightarrow> fits axes p"
proof (induction radius vs rule: smooth_runs.induct)
  case (3 radius q vs)
  have split: "set vs = Some ` set (leading vs) \<union> set (drop (length (leading vs)) vs)"
    using arg_cong [OF leading_split [of vs], of set] by simp
  have "fits axes p" if "Some p \<in> set (smooth_run radius (q # leading vs))"
    using that by (rule smooth_run_fits [rotated]) (use 3(2) split in auto)
  moreover have "fits axes p" if "Some p \<in> set (smooth_runs radius (drop (length (leading vs)) vs))"
    by (rule 3(1) [OF _ that]) (use 3(2) split in auto)
  ultimately show ?case using 3(3) by auto
qed auto

lemma series_points_fit:
  assumes "\<And>p. Some p \<in> set (drawn_values series) \<Longrightarrow> fits axes p" and "p \<in> set (series_points series)"
  shows "fits axes p"
proof -
  have raw: "Some q \<in> set (raw_points series) \<Longrightarrow> fits axes q" for q
    using assms(1) by (auto simp: raw_points_def drawn_values_def split: option.splits)
  have "Some q \<in> set (trend_values series) \<Longrightarrow> fits axes q" for q
    using assms(1) smooth_runs_fits [of "cs_values series" axes q SMOOTHING_RADIUS]
    by (auto simp: trend_values_def moving_average_exact drawn_values_def split: if_splits)
  then show ?thesis using assms(2) raw by (cases p) (auto simp: series_points_def split: if_splits)
qed

section \<open>A drawn dashboard\<close>

lemma dashboard_areas: "new_dashboard found e n = Inr d \<Longrightarrow> take PANEL_AREAS (dd_panels d) = dd_panels d"
  using dashboard_length [of found e n d] by (simp add: PANEL_AREAS_def)

lemma dashboard_fits:
  assumes "new_dashboard found e n = Inr d" and "new_dashboard found' e' n' = Inr d'"
    and "lim = limits d \<or> lim = shared_limits d d' \<or> lim = shared_limits d' d"
    and i: "i < length (dd_panels d)" "point \<in> set (panel_points (dd_panels d ! i))"
  shows "fits (max (dl_elapsed_ms lim) 1, max (panel_top lim i) 1) point"
proof -
  have "length (dl_panel_maxima lim) = 10"
    using assms(3) dashboard_length [OF assms(1)] dashboard_length [OF assms(2)]
    by (auto simp: limits_def shared_limits_def)
  then have top: "panel_top lim i = dl_panel_maxima lim ! i"
    using i(1) dashboard_length [OF assms(1)] by (simp add: panel_top_def get_at_def)
  obtain series where series: "series \<in> set (pn_series (dd_panels d ! i))" "point \<in> set (series_points series)"
    using i(2) by (auto simp: panel_points_def)
  have "t \<le> dl_elapsed_ms lim \<and> x \<le> dl_panel_maxima lim ! i" if "Some (t, x) \<in> set (drawn_values series)" for t x
    using assms(3) own_limits [OF assms(1) i(1) series(1) that]
      dashboard_points_fit [OF assms(1,2) _ i(1) series(1) that, of lim] by blast
  then have "fits (max (dl_elapsed_ms lim) 1, max (panel_top lim i) 1) p" if "Some p \<in> set (drawn_values series)" for p
    using that by (cases p) (auto simp: fits_def top le_max_iff_disj)
  then show ?thesis using series(2) by (rule series_points_fit)
qed

text \<open>
  C37: a dashboard shows every observation and nothing outside its charts. Whatever calls of the drawing
  library fail, every point, phase boundary and phase label lies within the axes of the chart it is drawn
  in, be the limits its own or shared with another dashboard; and when the dashboard was drawn, the points
  it shows are, panel by panel and series by series, exactly the observations behind each smoothed series
  and the values of each trend, in order, and the file is finished once, after everything else.
\<close>

theorem dashboard_drawn:
  assumes "new_dashboard found e n = Inr d" and "new_dashboard found' e' n' = Inr d'"
    and "lim = limits d \<or> lim = shared_limits d d' \<or> lim = shared_limits d' d"
    and "render_svg_with_limits answer d title svg lim h = (r, h')"
  shows "\<exists>steps. h' = h @ map (Drawing svg) steps \<and> within_charts None steps \<and>
      (is_ok r \<longrightarrow> drawn steps = concat (map panel_points (dd_panels d)) \<and>
        (\<exists>before. steps = before @ [PresentDrawing] \<and> PresentDrawing \<notin> set before))"
  using sketches_dashboard [OF dashboard_fits [OF assms(1-3)] assms(4)] unfolding dashboard_areas [OF assms(1)] by blast

text \<open>The example dashboard, on a disk that accepts everything.\<close>

theorem dashboard_drawn_witness:
  "\<exists>d r steps. new_dashboard demo_set None 1 = Inr d \<and>
     render_svg_with_limits (\<lambda>h e. Inr ()) d ''demo'' (join_path \<lparr>rooted = False, components = []\<rparr> [''demo.svg'']) (limits d) []
       = (r, map (Drawing (join_path \<lparr>rooted = False, components = []\<rparr> [''demo.svg''])) steps) \<and> within_charts None steps"
proof -
  let ?svg = "join_path \<lparr>rooted = False, components = []\<rparr> [''demo.svg'']"
  obtain d where d: "new_dashboard demo_set None 1 = Inr d" using demo_dashboard by blast
  obtain r h' where run: "render_svg_with_limits (\<lambda>h e. Inr ()) d ''demo'' ?svg (limits d) [] = (r, h')" by fastforce
  from dashboard_drawn [OF d d _ run] obtain steps where "h' = map (Drawing ?svg) steps" "within_charts None steps"
    by auto
  then show ?thesis using d run by blast
qed

end
