(* ===== verification/DashboardPublishFacts.thy ===== *)
theory DashboardPublishFacts
  imports DashboardPublish DashboardDrawFacts ReportFormatFacts ComparisonFacts
begin

text \<open>
  What is published: each scenario that one run of a revision represents, and whose telemetry can be
  plotted, gets its dashboard in its own file of the wanted directory, every file is finished before the
  text shows it, and nothing else is written.
\<close>

section \<open>The dashboards to publish\<close>

type_synonym shown_run = "revision_role \<times> run_data"

definition asset_name :: "dashboard_config \<Rightarrow> shown_run \<Rightarrow> string" where
  "asset_name config a = asset_file_name config (fst a) (scenario_label (run_spec (snd a)))"

definition asset_path :: "dashboard_config \<Rightarrow> shown_run \<Rightarrow> fs_path" where
  "asset_path config a = join_path (dc_output_directory config) [asset_name config a]"

definition asset_of :: "dashboard_config \<Rightarrow> shown_run \<Rightarrow> dashboard_asset" where
  "asset_of config a =
     \<lparr>da_scenario = scenario_label (run_spec (snd a)), da_role = fst a, da_revision = shown_revision (snd a),
      da_file_name = asset_name config a\<rparr>"

text \<open>
  The specification: the run that alone has a scenario, whether its telemetry can be plotted, and the
  dashboards of a scenario, of that run or of the two runs with the same workload.
\<close>

definition only_run_of :: "run_data list \<Rightarrow> scenario_spec \<Rightarrow> run_data option" where
  "only_run_of runs scenario =
     (let found = filter (\<lambda>run. res_scenario (rd_result run) = scenario) runs in
      if length found = 1 then Some (hd found) else None)"

definition has_telemetry :: "run_data \<Rightarrow> bool" where
  "has_telemetry run \<longleftrightarrow> (\<exists>samples. rd_samples run = Some samples \<and> ss_samples samples \<noteq> [])"

definition single_pick :: "run_data list \<Rightarrow> scenario_spec \<Rightarrow> shown_run list" where
  "single_pick runs scenario =
     (case only_run_of runs scenario of
        Some run \<Rightarrow> if has_telemetry run then [(SingleRole, run)] else []
      | None \<Rightarrow> [])"

definition comparison_pick :: "run_data list \<Rightarrow> run_data list \<Rightarrow> scenario_spec \<Rightarrow> shown_run list" where
  "comparison_pick baseline comparison scenario =
     (case (only_run_of baseline scenario, only_run_of comparison scenario) of
        (Some b, Some c) \<Rightarrow>
          if workload_matches b c \<and> has_telemetry b \<and> has_telemetry c then [(BaselineRole, b), (ComparisonRole, c)]
          else []
      | _ \<Rightarrow> [])"

lemma unique_only: "unique_scenario runs scenario = only_run_of runs scenario"
  by (auto simp: unique_scenario_def only_run_of_def run_spec_def Let_def length_Suc_conv split: list.split)

lemma plotted_iff: "plotted_samples run = None \<longleftrightarrow> \<not> has_telemetry run"
  by (auto simp: plotted_samples_def has_telemetry_def split: option.split)

lemma matching_only:
  "matching_pair baseline comparison scenario = Some (b, c) \<longleftrightarrow>
     only_run_of baseline scenario = Some b \<and> only_run_of comparison scenario = Some c \<and> workload_matches b c"
  by (auto simp: matching_pair_def unique_only bind_eq_Some_conv)

lemma single_pick_alt:
  "single_pick runs scenario =
     (case unique_scenario runs scenario of
        Some run \<Rightarrow> if plotted_samples run = None then [] else [(SingleRole, run)]
      | None \<Rightarrow> [])"
  by (simp add: single_pick_def unique_only plotted_iff split: option.split)

lemma comparison_pick_alt:
  "comparison_pick baseline comparison scenario =
     (case matching_pair baseline comparison scenario of
        Some (b, c) \<Rightarrow>
          if plotted_samples b = None \<or> plotted_samples c = None then [] else [(BaselineRole, b), (ComparisonRole, c)]
      | None \<Rightarrow> [])"
  by (auto simp: comparison_pick_def matching_pair_def unique_only plotted_iff split: option.split)

text \<open>Each scenario of the runs once, in their order.\<close>

definition shown_runs :: "(scenario_spec \<Rightarrow> shown_run list) \<Rightarrow> run_data list \<Rightarrow> shown_run list" where
  "shown_runs pick runs = concat (map pick (first_seen [] (map run_spec runs)))"

section \<open>What a publication leaves behind\<close>

definition finished_files :: "publish_effect list \<Rightarrow> fs_path list" where
  "finished_files es = List.map_filter (\<lambda>e. case e of Drawing p PresentDrawing \<Rightarrow> Some p | _ \<Rightarrow> None) es"

definition drawn_for :: "dashboard_config \<Rightarrow> shown_run list \<Rightarrow> publish_effect \<Rightarrow> bool" where
  "drawn_for config shown e \<longleftrightarrow> (\<exists>a \<in> set shown. \<exists>s. e = Drawing (asset_path config a) s)"

text \<open>An action that draws the given dashboards and returns the given value unless it fails.\<close>

definition publishes :: "dashboard_config \<Rightarrow> shown_run list \<Rightarrow> 'a \<Rightarrow> (publish_effect, 'a) act \<Rightarrow> bool" where
  "publishes config shown x m \<longleftrightarrow>
     (\<forall>h r h'. m h = (r, h') \<longrightarrow>
        (\<exists>es. h' = h @ es \<and> list_all (drawn_for config shown) es \<and>
           (\<forall>y. r = Inr y \<longrightarrow> y = x \<and> finished_files es = map (asset_path config) shown)))"

lemma finished_files_simps [simp]:
  "finished_files [] = []" "finished_files (as @ bs) = finished_files as @ finished_files bs"
  by (simp_all add: finished_files_def map_filter_def)

lemma finished_steps:
  "finished_files (map (Drawing p) steps) = map (\<lambda>_. p) (filter (\<lambda>s. s = PresentDrawing) steps)"
proof (induction steps)
  case (Cons s steps)
  then show ?case by (cases s) (simp_all add: finished_files_def map_filter_def)
qed simp

lemma drawn_for_append:
  "drawn_for config as e \<Longrightarrow> drawn_for config (as @ bs) e" "drawn_for config bs e \<Longrightarrow> drawn_for config (as @ bs) e"
  by (auto simp: drawn_for_def)

lemma list_all_drawn:
  "list_all (drawn_for config as) es \<Longrightarrow> list_all (drawn_for config (as @ bs)) es"
  "list_all (drawn_for config bs) es \<Longrightarrow> list_all (drawn_for config (as @ bs)) es"
  by (auto simp: list_all_iff drawn_for_append)

lemma publishesI:
  "(\<And>h r h'. m h = (r, h') \<Longrightarrow> \<exists>es. h' = h @ es \<and> list_all (drawn_for config shown) es \<and>
      (\<forall>y. r = Inr y \<longrightarrow> y = x \<and> finished_files es = map (asset_path config) shown)) \<Longrightarrow> publishes config shown x m"
  unfolding publishes_def by blast

lemma publishesE:
  assumes "publishes config shown x m" "m h = (r, h')"
  obtains es where "h' = h @ es" "list_all (drawn_for config shown) es"
    "\<forall>y. r = Inr y \<longrightarrow> y = x \<and> finished_files es = map (asset_path config) shown"
proof -
  from assms(1) have "\<forall>h r h'. m h = (r, h') \<longrightarrow> (\<exists>es. h' = h @ es \<and> list_all (drawn_for config shown) es \<and>
      (\<forall>y. r = Inr y \<longrightarrow> y = x \<and> finished_files es = map (asset_path config) shown))"
    unfolding publishes_def .
  then have "\<exists>es. h' = h @ es \<and> list_all (drawn_for config shown) es \<and>
      (\<forall>y. r = Inr y \<longrightarrow> y = x \<and> finished_files es = map (asset_path config) shown)"
    using assms(2) by (elim allE impE)
  then show thesis by (elim exE conjE) (rule that)
qed

lemma publishes_return: "publishes config [] x (return_act x)"
  by (auto simp: publishes_def return_act_def)

lemma publishes_bind:
  assumes "publishes config as x m" "publishes config bs y (f x)"
  shows "publishes config (as @ bs) y (bind_act m f)"
proof (rule publishesI)
  fix h r h'
  assume b: "bind_act m f h = (r, h')"
  obtain r1 h1 where m: "m h = (r1, h1)" by fastforce
  from assms(1) m obtain es where es: "h1 = h @ es" "list_all (drawn_for config as) es"
    "\<forall>y. r1 = Inr y \<longrightarrow> y = x \<and> finished_files es = map (asset_path config) as"
    by (rule publishesE)
  show "\<exists>es. h' = h @ es \<and> list_all (drawn_for config (as @ bs)) es \<and>
      (\<forall>z. r = Inr z \<longrightarrow> z = y \<and> finished_files es = map (asset_path config) (as @ bs))"
  proof (cases r1)
    case (Inl e)
    then show ?thesis using b m es by (auto simp: bind_act_def list_all_drawn)
  next
    case (Inr z)
    then have "f x h1 = (r, h')" using b m es(3) by (simp add: bind_act_def)
    with assms(2) obtain es' where "h' = h1 @ es'" "list_all (drawn_for config bs) es'"
      "\<forall>z. r = Inr z \<longrightarrow> z = y \<and> finished_files es' = map (asset_path config) bs"
      by (rule publishesE)
    then show ?thesis using es Inr by (intro exI [of _ "es @ es'"]) (auto simp: list_all_drawn)
  qed
qed

text \<open>An early return publishes nothing.\<close>

lemma publishes_fails: "(\<And>h. m h = (Inl e, h)) \<Longrightarrow> publishes config shown x m"
  by (simp add: publishes_def)

lemma publishes_lift:
  assumes "\<And>x. r = Inr x \<Longrightarrow> publishes config shown y (f x)"
  shows "publishes config shown y (bind_act (lift_act r) f)"
proof (cases r)
  case (Inl e)
  then show ?thesis by (intro publishes_fails) (simp add: bind_act_def lift_act_def)
next
  case (Inr x)
  then have "bind_act (lift_act r) f = f x" by (simp add: bind_act_def lift_act_def)
  then show ?thesis using assms Inr by simp
qed

section \<open>One dashboard\<close>

lemma publishes_drawing:
  assumes "new_dashboard found e n = Inr d" and "new_dashboard found' e' n' = Inr d'"
    and "lim = limits d \<or> lim = shared_limits d d' \<or> lim = shared_limits d' d"
  shows "publishes config [a] () (render_svg_with_limits answer d title (asset_path config a) lim)"
proof (rule publishesI)
  fix h r h'
  assume run: "render_svg_with_limits answer d title (asset_path config a) lim h = (r, h')"
  from sketches_dashboard [OF dashboard_fits [OF assms] run] obtain steps where
    steps: "h' = h @ map (Drawing (asset_path config a)) steps"
      "is_ok r \<longrightarrow> (\<exists>before. steps = before @ [PresentDrawing] \<and> PresentDrawing \<notin> set before)"
    by blast
  have "finished_files (map (Drawing (asset_path config a)) steps) = [asset_path config a]" if "r = Inr ()"
    using that steps(2) by (auto simp: finished_steps filter_empty_conv)
  moreover have "list_all (drawn_for config [a]) (map (Drawing (asset_path config a)) steps)"
    by (auto simp: list_all_iff drawn_for_def)
  ultimately show "\<exists>es. h' = h @ es \<and> list_all (drawn_for config [a]) es \<and>
      (\<forall>y. r = Inr y \<longrightarrow> y = () \<and> finished_files es = map (asset_path config) [a])"
    using steps(1) by (intro exI [of _ "map (Drawing (asset_path config a)) steps"]) simp
qed

text \<open>Labels are identifiers, so the check of the identifier never fails.\<close>

lemma show_word_chars: "list_all scenario_char (show_word w)"
  using show_word_digits by (auto simp: list_all_iff scenario_char_def)

lemma literal_scenario_chars:
  "list_all scenario_char ''smoke-r-paudio-mesh-xvideo-gallery-mixed-conference-''"
  by (simp add: scenario_char_def is_ascii_lowercase_def)

lemma scenario_id_valid: "valid_scenario_id (scenario_label scenario)"
  using literal_scenario_chars by (cases scenario) (simp_all add: valid_scenario_id_def show_word_chars)

lemma publishes_asset_data:
  assumes "new_dashboard found e n = Inr d" and "new_dashboard found' e' n' = Inr d'"
    and "lim = limits d \<or> lim = shared_limits d d' \<or> lim = shared_limits d' d"
  shows "publishes config [(role, run)] (asset_of config (role, run)) (write_asset_data w run d role config lim)"
proof -
  let ?a = "(role, run)"
  let ?title = "scenario_label (run_spec run) @ '' | '' @ show_role role @ '' | '' @ shown_revision run"
  have "publishes config ([?a] @ []) (asset_of config ?a)
      (bind_act (render_svg_with_limits (bw_answer w) d ?title (asset_path config ?a) lim) (\<lambda>_. return_act (asset_of config ?a)))"
    by (rule publishes_bind [OF publishes_drawing [OF assms] publishes_return])
  moreover have "write_asset_data w run d role config lim =
      bind_act (render_svg_with_limits (bw_answer w) d ?title (asset_path config ?a) lim) (\<lambda>_. return_act (asset_of config ?a))"
    by (simp add: write_asset_data_def Let_def ensure_act_def scenario_id_valid run_spec_def asset_path_def asset_name_def
        asset_of_def)
  ultimately show ?thesis by simp
qed

text \<open>The two functions that write an asset differ in the limits only.\<close>

lemma write_asset_alt:
  "write_asset w run samples role config =
     bind_act (lift_act (dashboard_of run samples)) (\<lambda>d. write_asset_data w run d role config (limits d))"
  by (simp add: write_asset_def write_asset_data_def render_svg_def)

lemma publishes_asset:
  "publishes config [(role, run)] (asset_of config (role, run)) (write_asset w run samples role config)"
  unfolding write_asset_alt by (rule publishes_lift) (auto simp: dashboard_of_def intro: publishes_asset_data)

lemma publishes_pair:
  "publishes config [(BaselineRole, b), (ComparisonRole, c)]
     [asset_of config (BaselineRole, b), asset_of config (ComparisonRole, c)] (write_pair w config b bs c cs)"
proof -
  have "publishes config ([(BaselineRole, b)] @ [(ComparisonRole, c)] @ [])
      [asset_of config (BaselineRole, b), asset_of config (ComparisonRole, c)] (write_pair w config b bs c cs)"
    unfolding write_pair_def Let_def dashboard_of_def
    by (intro publishes_lift)
      (rule publishes_bind, blast intro: publishes_asset_data, rule publishes_bind, blast intro: publishes_asset_data,
        rule publishes_return)
  then show ?thesis by simp
qed

section \<open>The loops over the runs\<close>

fun unseen :: "'a list \<Rightarrow> 'a list \<Rightarrow> 'a list" where
  "unseen seen [] = []"
| "unseen seen (x # xs) = (if x \<in> set seen then unseen seen xs else x # unseen (seen @ [x]) xs)"

lemma first_seen_unseen: "first_seen seen xs = seen @ unseen seen xs"
  by (induction seen xs rule: first_seen.induct) auto

lemma set_first_seen: "set (first_seen seen xs) = set seen \<union> set xs"
  by (induction seen xs rule: first_seen.induct) auto

lemma distinct_first_seen: "distinct seen \<Longrightarrow> distinct (first_seen seen xs)"
  by (induction seen xs rule: first_seen.induct) auto

lemma publishes_single_loop:
  "publishes config (concat (map (single_pick runs) (unseen scenarios (map run_spec candidates))))
     (assets @ map (asset_of config) (concat (map (single_pick runs) (unseen scenarios (map run_spec candidates)))))
     (single_loop w config runs assets scenarios candidates)"
proof (induction candidates arbitrary: assets scenarios)
  case Nil
  then show ?case by (simp add: publishes_return)
next
  case (Cons candidate candidates)
  let ?scenario = "run_spec candidate"
  let ?rest = "concat (map (single_pick runs) (unseen (scenarios @ [?scenario]) (map run_spec candidates)))"
  show ?case
  proof (cases "?scenario \<in> set scenarios")
    case True
    then show ?thesis using Cons.IH by simp
  next
    case new: False
    show ?thesis
    proof (cases "\<exists>run samples. unique_scenario runs ?scenario = Some run \<and> plotted_samples run = Some samples")
      case True
      then obtain run samples where run: "unique_scenario runs ?scenario = Some run" "plotted_samples run = Some samples"
        by blast
      let ?a = "(SingleRole, run)"
      have "publishes config ([?a] @ ?rest) ((assets @ [asset_of config ?a]) @ map (asset_of config) ?rest)
          (bind_act (write_asset w run samples SingleRole config) (\<lambda>asset.
            single_loop w config runs (assets @ [asset]) (scenarios @ [?scenario]) candidates))"
        by (rule publishes_bind [OF publishes_asset Cons.IH])
      moreover have "single_pick runs ?scenario = [?a]" using run by (simp add: single_pick_alt)
      ultimately show ?thesis using new run by (simp add: Let_def)
    next
      case False
      then have "single_pick runs ?scenario = []"
        and "single_loop w config runs assets scenarios (candidate # candidates)
          = single_loop w config runs assets (scenarios @ [?scenario]) candidates"
        using new by (auto simp: single_pick_alt Let_def split: option.splits)
      then show ?thesis using new Cons.IH by simp
    qed
  qed
qed

lemma publishes_comparison_loop:
  "publishes config (concat (map (comparison_pick baseline comparison) (unseen scenarios (map run_spec candidates))))
     (assets @ map (asset_of config)
        (concat (map (comparison_pick baseline comparison) (unseen scenarios (map run_spec candidates)))))
     (comparison_loop w config baseline comparison assets scenarios candidates)"
proof (induction candidates arbitrary: assets scenarios)
  case Nil
  then show ?case by (simp add: publishes_return)
next
  case (Cons candidate candidates)
  let ?scenario = "run_spec candidate" and ?pick = "comparison_pick baseline comparison"
  let ?rest = "concat (map ?pick (unseen (scenarios @ [?scenario]) (map run_spec candidates)))"
  show ?case
  proof (cases "?scenario \<in> set scenarios")
    case True
    then show ?thesis using Cons.IH by simp
  next
    case new: False
    show ?thesis
    proof (cases "\<exists>b c bs cs. matching_pair baseline comparison ?scenario = Some (b, c) \<and>
        plotted_samples b = Some bs \<and> plotted_samples c = Some cs")
      case True
      then obtain b c bs cs where pair: "matching_pair baseline comparison ?scenario = Some (b, c)"
        "plotted_samples b = Some bs" "plotted_samples c = Some cs"
        by blast
      let ?as = "[(BaselineRole, b), (ComparisonRole, c)]"
      have "publishes config (?as @ ?rest)
          ((assets @ [asset_of config (BaselineRole, b), asset_of config (ComparisonRole, c)]) @ map (asset_of config) ?rest)
          (bind_act (write_pair w config b bs c cs) (\<lambda>pair_assets.
            comparison_loop w config baseline comparison (assets @ pair_assets) (scenarios @ [?scenario]) candidates))"
        by (rule publishes_bind [OF publishes_pair Cons.IH])
      moreover have "?pick ?scenario = ?as" using pair by (simp add: comparison_pick_alt)
      ultimately show ?thesis using new pair by (simp add: Let_def)
    next
      case False
      then have "?pick ?scenario = []"
        and "comparison_loop w config baseline comparison assets scenarios (candidate # candidates)
          = comparison_loop w config baseline comparison assets (scenarios @ [?scenario]) candidates"
        using new by (auto simp: comparison_pick_alt Let_def split: option.splits prod.splits)
      then show ?thesis using new Cons.IH by simp
    qed
  qed
qed

section \<open>Names of files\<close>

lemma asset_name_inject:
  "asset_name config a = asset_name config b \<longleftrightarrow> fst a = fst b \<and> run_spec (snd a) = run_spec (snd b)"
proof
  assume h: "asset_name config a = asset_name config b"
  have "fst a = fst b"
    using h by (cases "fst a"; cases "fst b") (auto simp: asset_name_def asset_file_name_def)
  then have "scenario_label (run_spec (snd a)) = scenario_label (run_spec (snd b))"
    using h by (simp add: asset_name_def asset_file_name_def)
  then show "fst a = fst b \<and> run_spec (snd a) = run_spec (snd b)"
    using \<open>fst a = fst b\<close> labels_distinct by blast
qed (simp add: asset_name_def)

lemma asset_path_inject: "asset_path config a = asset_path config b \<longleftrightarrow> asset_name config a = asset_name config b"
  by (auto simp: asset_path_def join_path_def) (metis fs_path.select_convs(2) fs_path.surjective fs_path.update_convs(2) last_snoc)

text \<open>A name of a valid configuration is one component of a path.\<close>

lemma stem_no_slash: "list_all stem_char s \<Longrightarrow> CHR ''/'' \<notin> set s"
  by (auto simp: list_all_iff stem_char_def is_ascii_alphanumeric_def is_ascii_lowercase_def is_ascii_uppercase_def)

lemma label_no_slash: "CHR ''/'' \<notin> set (scenario_label scenario)"
  using scenario_id_valid [of scenario]
  by (auto simp: valid_scenario_id_def list_all_iff scenario_char_def is_ascii_lowercase_def)

lemma asset_name_no_slash: "validate_config config = Inr () \<Longrightarrow> CHR ''/'' \<notin> set (asset_name config a)"
  using stem_no_slash [of "dc_asset_stem config"] label_no_slash [of "run_spec (snd a)"]
  by (cases "fst a") (auto simp: asset_name_def asset_file_name_def validate_config_def checked_iff)

lemma distinct_picks:
  assumes "\<And>scenario a. a \<in> set (pick scenario) \<Longrightarrow> run_spec (snd a) = scenario"
    and "\<And>scenario. distinct (map fst (pick scenario))" and "distinct scenarios"
  shows "distinct (map (asset_path config) (concat (map pick scenarios)))"
  using assms(3)
proof (induction scenarios)
  case Nil
  then show ?case by simp
next
  case (Cons scenario scenarios)
  have "inj_on (asset_path config) (set (pick scenario))"
    using assms(2) [of scenario] by (auto simp: inj_on_def asset_path_inject asset_name_inject distinct_map)
  then have "distinct (map (asset_path config) (pick scenario))"
    using assms(2) [of scenario] by (simp add: distinct_map)
  moreover have "asset_path config a \<noteq> asset_path config b"
    if "a \<in> set (pick scenario)" "other \<in> set scenarios" "b \<in> set (pick other)" for a b other
    using that Cons.prems assms(1) by (auto simp: asset_path_inject asset_name_inject)
  ultimately show ?case using Cons by auto
qed

lemma unique_spec: "unique_scenario runs scenario = Some run \<Longrightarrow> run_spec run = scenario"
proof -
  assume "unique_scenario runs scenario = Some run"
  then have "filter (\<lambda>run. run_spec run = scenario) runs = [run]"
    by (auto simp: unique_scenario_def split: list.splits)
  then have "run \<in> set (filter (\<lambda>run. run_spec run = scenario) runs)" by simp
  then show ?thesis by simp
qed

lemma single_pick_spec: "a \<in> set (single_pick runs scenario) \<Longrightarrow> run_spec (snd a) = scenario"
  by (cases "unique_scenario runs scenario") (auto simp: single_pick_alt dest: unique_spec split: if_splits)

lemma comparison_pick_spec: "a \<in> set (comparison_pick baseline comparison scenario) \<Longrightarrow> run_spec (snd a) = scenario"
  by (cases "matching_pair baseline comparison scenario")
    (auto simp: comparison_pick_alt matching_pair_def bind_eq_Some_conv dest: unique_spec split: if_splits)

lemma pick_roles:
  "distinct (map fst (single_pick runs scenario))" "distinct (map fst (comparison_pick baseline comparison scenario))"
  by (auto simp: single_pick_alt comparison_pick_alt split: option.splits)

section \<open>A publication\<close>

text \<open>
  What publishing the given dashboards means: everything that happens is the directory being made and the
  files of these dashboards being drawn, each file lies directly in the directory and is of one dashboard
  only, and with the text all of them are finished, in order.
\<close>

definition publication ::
  "dashboard_config \<Rightarrow> shown_run list \<Rightarrow> string option \<Rightarrow> string result \<Rightarrow> publish_effect list \<Rightarrow> bool" where
  "publication config shown link r es \<longleftrightarrow>
     list_all (\<lambda>e. e = CreateDirectory (dc_output_directory config) \<or> drawn_for config shown e) es \<and>
     (es \<noteq> [] \<longrightarrow> list_all (\<lambda>a. CHR ''/'' \<notin> set (asset_name config a)) shown) \<and>
     distinct (map (asset_path config) shown) \<and>
     (\<forall>shown_text. r = Inr shown_text \<longrightarrow>
        finished_files es = map (asset_path config) shown \<and>
        shown_text = render_assets (map (asset_of config) shown) (dc_public_url_base config) link)"

lemma finished_directory [simp]: "finished_files (CreateDirectory d # es) = finished_files es"
  by (simp add: finished_files_def map_filter_def)

lemma publication_run:
  assumes "validate_config config = Inr ()" "distinct (map (asset_path config) shown)"
    and "publishes config shown (map (asset_of config) shown) m"
    and "bind_act m (\<lambda>assets. return_act (render_assets assets (dc_public_url_base config) link))
        (h @ [CreateDirectory (dc_output_directory config)]) = (r, h')"
  shows "\<exists>es. h' = h @ es \<and> publication config shown link r es"
proof -
  let ?made = "CreateDirectory (dc_output_directory config)"
  have "publishes config (shown @ []) (render_assets (map (asset_of config) shown) (dc_public_url_base config) link)
      (bind_act m (\<lambda>assets. return_act (render_assets assets (dc_public_url_base config) link)))"
    by (rule publishes_bind [OF assms(3)]) (rule publishes_return)
  then obtain es where es: "h' = (h @ [?made]) @ es" "list_all (drawn_for config (shown @ [])) es"
    "\<forall>y. r = Inr y \<longrightarrow> y = render_assets (map (asset_of config) shown) (dc_public_url_base config) link \<and>
      finished_files es = map (asset_path config) (shown @ [])"
    using assms(4) by (rule publishesE)
  have "publication config shown link r (?made # es)"
    using es assms(2) asset_name_no_slash [OF assms(1)] by (simp add: publication_def list_all_iff)
  then show ?thesis using es(1) by (intro exI [of _ "?made # es"]) simp
qed

text \<open>Configurations that are refused, and a directory that cannot be made.\<close>

lemma publication_start:
  assumes "bind_act (lift_act (validate_config config)) (\<lambda>_.
      bind_act (prepare_output_directory w (dc_output_directory config)) (\<lambda>_. m)) h = (r, h')"
    and "distinct (map (asset_path config) shown)"
    and "validate_config config = Inr () \<Longrightarrow> m (h @ [CreateDirectory (dc_output_directory config)]) = (r, h') \<Longrightarrow>
      \<exists>es. h' = h @ es \<and> publication config shown link r es"
  shows "\<exists>es. h' = h @ es \<and> publication config shown link r es"
proof (cases "validate_config config")
  case (Inl e)
  then have "r = Inl e" "h' = h" using assms(1) by (auto simp: bind_act_def lift_act_def)
  then show ?thesis using assms(2) by (intro exI [of _ "[]"]) (simp add: publication_def)
next
  case (Inr u)
  let ?made = "CreateDirectory (dc_output_directory config)"
  show ?thesis
  proof (cases "bw_answer w h ?made")
    case (Inl e)
    then have "is_ok r = False" "h' = h @ [?made]"
      using assms(1) Inr by (auto simp: bind_act_def lift_act_def prepare_output_directory_def act_context_def effect_def)
    then show ?thesis using assms(2) asset_name_no_slash Inr
      by (intro exI [of _ "[?made]"]) (auto simp: publication_def list_all_iff)
  next
    case made: (Inr v)
    then have "m (h @ [?made]) = (r, h')"
      using assms(1) Inr by (auto simp: bind_act_def lift_act_def prepare_output_directory_def act_context_def effect_def)
    then show ?thesis using assms(3) Inr by simp
  qed
qed

lemma load_runs_then: "bind_act (load_runs w inputs) f h = f (runs_at w h inputs) h"
  by (simp add: bind_act_def load_runs_def)

lemma dashboards_of_single:
  assumes run: "write_single w inputs config link h = (r, h')"
    and runs: "runs = runs_at w (h @ [CreateDirectory (dc_output_directory config)]) inputs"
  shows "\<exists>es. h' = h @ es \<and> publication config (shown_runs (single_pick runs) runs) link r es"
proof -
  let ?shown = "shown_runs (single_pick runs) runs"
  have dist: "distinct (map (asset_path config) ?shown)"
    unfolding shown_runs_def by (rule distinct_picks [OF single_pick_spec pick_roles(1)]) (simp_all add: distinct_first_seen)
  have drawn: "publishes config ?shown (map (asset_of config) ?shown) (single_loop w config runs [] [] runs)"
    using publishes_single_loop [of config runs "[]" runs "[]" w] by (simp add: shown_runs_def first_seen_unseen)
  show ?thesis
    using run [unfolded write_single_def] dist
    by (rule publication_start)
      (auto simp: load_runs_then runs [symmetric] intro: publication_run [OF _ dist drawn])
qed

lemma dashboards_of_comparison:
  assumes run: "write_comparison w baseline_inputs comparison_inputs config link h = (r, h')"
    and baseline: "baseline = runs_at w (h @ [CreateDirectory (dc_output_directory config)]) baseline_inputs"
    and comparison: "comparison = runs_at w (h @ [CreateDirectory (dc_output_directory config)]) comparison_inputs"
  shows "\<exists>es. h' = h @ es \<and> publication config (shown_runs (comparison_pick baseline comparison) baseline) link r es"
proof -
  let ?shown = "shown_runs (comparison_pick baseline comparison) baseline"
  have dist: "distinct (map (asset_path config) ?shown)"
    unfolding shown_runs_def by (rule distinct_picks [OF comparison_pick_spec pick_roles(2)]) (simp_all add: distinct_first_seen)
  have drawn: "publishes config ?shown (map (asset_of config) ?shown)
      (comparison_loop w config baseline comparison [] [] baseline)"
    using publishes_comparison_loop [of config baseline comparison "[]" baseline "[]" w]
    by (simp add: shown_runs_def first_seen_unseen)
  show ?thesis
    using run [unfolded write_comparison_def] dist
    by (rule publication_start)
      (auto simp: load_runs_then baseline [symmetric] comparison [symmetric] intro: publication_run [OF _ dist drawn])
qed

text \<open>
  C32: the dashboards of a report are exactly those of the scenarios that stand for one run each. Whatever the
  result files hold and whichever call fails, nothing is written but the wanted directory and, directly in
  it, one file per dashboard; and when the text that shows them is returned, every scenario with one run
  (of each side, with the same workload) and telemetry to plot was drawn and finished, once and in the order
  of the runs, and the text shows these files.
\<close>

theorem dashboards_published:
  "(write_single w inputs config link h = (r, h') \<longrightarrow>
      (let runs = runs_at w (h @ [CreateDirectory (dc_output_directory config)]) inputs in
       \<exists>es. h' = h @ es \<and> publication config (shown_runs (single_pick runs) runs) link r es)) \<and>
   (write_comparison w baseline_inputs comparison_inputs config link h = (r, h') \<longrightarrow>
      (let baseline = runs_at w (h @ [CreateDirectory (dc_output_directory config)]) baseline_inputs;
           comparison = runs_at w (h @ [CreateDirectory (dc_output_directory config)]) comparison_inputs in
       \<exists>es. h' = h @ es \<and> publication config (shown_runs (comparison_pick baseline comparison) baseline) link r es))"
  unfolding Let_def by (intro conjI impI; rule dashboards_of_single dashboards_of_comparison; (assumption | rule refl))

section \<open>An example\<close>

definition plotted_serde :: serde where
  "plotted_serde = \<lparr>decode_value = \<lambda>t. Inr (JObject [(''elapsedMs'', JInt 7)]), decode_record = \<lambda>v. Inl ''unknown''\<rparr>"

definition plotted_world :: publish_world where
  "plotted_world =
     \<lparr>bw_files = \<lambda>h. \<lparr>rf_is_dir = \<lambda>p. True, rf_metadata = \<lambda>p. Inr 1, rf_read = \<lambda>p. Inr ''x''\<rparr>,
      bw_answer = \<lambda>h e. Inr (), bw_decode_result = \<lambda>payload. Inr (example_result ''abc''), bw_serde = plotted_serde,
      bw_sort = \<lambda>runs. runs, bw_debug = \<lambda>r. []\<rparr>"

definition plotted_input :: fs_path where
  "plotted_input = \<lparr>rooted = False, components = [''run'']\<rparr>"

definition plotted_run :: run_data where
  "plotted_run =
     \<lparr>rd_source = ''run'', rd_result = example_result ''abc'', rd_samples = Some (parse_samples plotted_serde ''x'')\<rparr>"

definition plotted_config :: dashboard_config where
  "plotted_config =
     \<lparr>dc_output_directory = \<lparr>rooted = True, components = [''tmp'']\<rparr>, dc_asset_stem = ''load'', dc_public_url_base = None\<rparr>"

lemma plotted_loads: "runs_at plotted_world h [plotted_input] = [plotted_run]"
  by (simp add: runs_at_def load_at_def plotted_world_def load_run_def read_bounded_def read_within_def io_result_def
      read_optional_bounded_def RESULT_LIMIT_BYTES_def SAMPLES_LIMIT_BYTES_def from_utf8_def plotted_run_def
      plotted_input_def show_path_def map_filter_def)

lemma plotted_lines: "record_lines ''x'' = [''x'']" by code_simp

lemma plotted_telemetry: "plotted_samples plotted_run \<noteq> None"
proof -
  have "ss_samples (parse_samples plotted_serde ''x'') \<noteq> []"
    by code_simp
  then show ?thesis by (simp add: plotted_samples_def plotted_run_def)
qed

theorem dashboards_published_witness:
  "\<exists>r es. write_single plotted_world [plotted_input] plotted_config None [] = (r, es) \<and>
     publication plotted_config [(SingleRole, plotted_run)] None r es"
proof -
  obtain r es where run: "write_single plotted_world [plotted_input] plotted_config None [] = (r, es)" by fastforce
  have "shown_runs (single_pick [plotted_run]) [plotted_run] = [(SingleRole, plotted_run)]"
    using plotted_telemetry by (simp add: shown_runs_def single_pick_alt unique_scenario_def)
  then show ?thesis using dashboards_published run
    by (fastforce simp: Let_def plotted_loads)
qed

end
