(* ===== verification/ProgramsFacts.thy ===== *)
theory ProgramsFacts
  imports Programs DashboardPublishFacts
begin

text \<open>
  What the programs leave behind: the report program writes its file once, whole, within the limit and after
  every dashboard it shows; the run program starts nothing for a specification that is refused; and the
  build script finds the revision of the package it depends on.
\<close>

section \<open>The text of a report\<close>

definition writes_text :: "publish_effect \<Rightarrow> bool" where
  "writes_text e \<longleftrightarrow> (case e of WriteText p s \<Rightarrow> True | _ \<Rightarrow> False)"

lemma writes_text_simps [simp]:
  "\<not> writes_text (CreateDirectory d)" "\<not> writes_text (Drawing p s)" "writes_text (WriteText p t)"
  by (simp_all add: writes_text_def)

lemma drawn_no_text: "drawn_for config shown e \<Longrightarrow> \<not> writes_text e"
  by (auto simp: drawn_for_def)

lemma publication_no_text: "publication config shown link r es \<Longrightarrow> e \<in> set es \<Longrightarrow> \<not> writes_text e"
  by (auto simp: publication_def list_all_iff dest: drawn_no_text)

text \<open>An action that writes no text.\<close>

definition textless :: "(publish_effect, 'a) act \<Rightarrow> bool" where
  "textless m \<longleftrightarrow> (\<forall>h r h'. m h = (r, h') \<longrightarrow> (\<exists>es. h' = h @ es \<and> (\<forall>e \<in> set es. \<not> writes_text e)))"

lemma textlessE:
  assumes "textless m" "m h = (r, h')"
  obtains es where "h' = h @ es" "\<forall>e \<in> set es. \<not> writes_text e"
  using assms unfolding textless_def by meson

lemma publication_textless:
  assumes "\<And>h r h'. m h = (r, h') \<Longrightarrow> \<exists>es. h' = h @ es \<and> publication config (shown h) link r es"
  shows "textless m"
  unfolding textless_def
proof (intro allI impI)
  fix h r h'
  assume "m h = (r, h')"
  from assms [OF this] obtain es where "h' = h @ es" "publication config (shown h) link r es" by blast
  then show "\<exists>es. h' = h @ es \<and> (\<forall>e \<in> set es. \<not> writes_text e)"
    using publication_no_text by (intro exI [of _ es] conjI ballI)
qed

lemma textless_single: "textless (write_single w inputs config link)"
  by (rule publication_textless) (erule dashboards_of_single [OF _ refl])

lemma textless_comparison: "textless (write_comparison w baseline_inputs comparison_inputs config link)"
  by (rule publication_textless) (erule dashboards_of_comparison [OF _ refl refl])

lemma textless_parent: "textless (create_parent w msg output)"
  by (auto simp: textless_def create_parent_def return_act_def act_context_def effect_def split: option.splits if_splits)

text \<open>How the text was made: a summary, and behind it the text of the dashboards, all of them drawn before.\<close>

definition made_of ::
  "string \<Rightarrow> (publish_effect, string) act option \<Rightarrow> publish_effect list \<Rightarrow> publish_effect list \<Rightarrow> string \<Rightarrow> bool" where
  "made_of summary dashboards h es content \<longleftrightarrow>
     (case dashboards of
        None \<Rightarrow> content = summary
      | Some m \<Rightarrow>
          \<exists>shown drawings. m h = (Inr shown, h @ drawings) \<and> prefix drawings es \<and> content = summary @ shown \<and>
            length content \<le> GITHUB_SUMMARY_LIMIT_BYTES)"

lemma with_dashboards_run:
  assumes "with_dashboards summary dashboards h = (r, h')" and "\<And>m. dashboards = Some m \<Longrightarrow> textless m"
  shows "\<exists>es. h' = h @ es \<and> (\<forall>e \<in> set es. \<not> writes_text e) \<and> (\<forall>content. r = Inr content \<longrightarrow> made_of summary dashboards h es content)"
proof (cases dashboards)
  case None
  then show ?thesis using assms(1) by (auto simp: with_dashboards_def return_act_def made_of_def)
next
  case (Some m)
  obtain r1 h1 where m: "m h = (r1, h1)" by fastforce
  from assms(2) [OF Some] m obtain es where es: "h1 = h @ es" "\<forall>e \<in> set es. \<not> writes_text e" by (rule textlessE)
  have "h' = h1" using assms(1) Some m
    by (auto simp: with_dashboards_def bind_act_def lift_act_def return_act_def split: sum.splits)
  moreover have "made_of summary dashboards h es content" if "r = Inr content" for content
    using assms(1) that Some m es(1)
    by (auto simp: with_dashboards_def act_Inr made_of_def ensure_summary_size_def checked_iff)
  ultimately show ?thesis using es by auto
qed

text \<open>Writing a text: nothing else is written, and the text is written last.\<close>

definition written_last ::
  "publish_world \<Rightarrow> fs_path \<Rightarrow> (publish_effect list \<Rightarrow> string \<Rightarrow> bool) \<Rightarrow> publish_effect list \<Rightarrow> publish_effect list
     \<Rightarrow> unit result \<Rightarrow> bool" where
  "written_last w output made h es r \<longleftrightarrow>
     (\<forall>e \<in> set es. \<not> writes_text e) \<and> \<not> is_ok r \<or>
     (\<exists>before content. es = before @ [WriteText output content] \<and> (\<forall>e \<in> set before. \<not> writes_text e) \<and>
        made before content \<and> (is_ok r \<longleftrightarrow> is_ok (bw_answer w (h @ before) (WriteText output content))))"

lemma written_run:
  assumes "bind_act (with_dashboards summary dashboards) (\<lambda>content.
      bind_act (create_parent w msg output) (\<lambda>_. act_context msg' (effect (bw_answer w) (WriteText output content)))) h = (r, h')"
    and "\<And>m. dashboards = Some m \<Longrightarrow> textless m"
  shows "\<exists>es. h' = h @ es \<and> written_last w output (made_of summary dashboards h) h es r"
proof -
  obtain r1 h1 where d: "with_dashboards summary dashboards h = (r1, h1)" by fastforce
  from with_dashboards_run [OF d assms(2)] obtain as where as: "h1 = h @ as" "\<forall>e \<in> set as. \<not> writes_text e"
    "\<forall>content. r1 = Inr content \<longrightarrow> made_of summary dashboards h as content"
    by blast
  show ?thesis
  proof (cases r1)
    case (Inl e)
    then show ?thesis using assms(1) d as by (auto simp: bind_act_def written_last_def)
  next
    case (Inr content)
    obtain r2 h2 where p: "create_parent w msg output h1 = (r2, h2)" by fastforce
    from textless_parent p obtain bs where bs: "h2 = h1 @ bs" "\<forall>e \<in> set bs. \<not> writes_text e" by (rule textlessE)
    have made: "made_of summary dashboards h (as @ bs) content"
      using as(3) Inr by (auto simp: made_of_def split: option.splits)
    show ?thesis
    proof (cases r2)
      case (Inl e)
      then have "h' = h @ (as @ bs)" "\<not> is_ok r" using assms(1) d p Inr as(1) bs(1) by (auto simp: bind_act_def)
      then show ?thesis using as(2) bs(2) unfolding written_last_def by (intro exI [of _ "as @ bs"]) auto
    next
      case made_parent: (Inr u)
      then have "act_context msg' (effect (bw_answer w) (WriteText output content)) (h @ (as @ bs)) = (r, h')"
        using assms(1) d p Inr as(1) bs(1) by (simp add: bind_act_def)
      then have "h' = h @ ((as @ bs) @ [WriteText output content])"
        and "is_ok r \<longleftrightarrow> is_ok (bw_answer w (h @ (as @ bs)) (WriteText output content))"
        by (auto simp: act_context_def effect_def with_context_def split: sum.splits)
      then show ?thesis using as(2) bs(2) made unfolding written_last_def
        by (intro exI [of _ "(as @ bs) @ [WriteText output content]"]) auto
    qed
  qed
qed

section \<open>The report program\<close>

definition rendered_report :: "publish_world \<Rightarrow> report_arguments \<Rightarrow> publish_effect list \<Rightarrow> string result" where
  "rendered_report w cli h =
     (if ra_input cli \<noteq> [] then render (bw_debug w) (load_at w h) (ra_input cli) (ra_artifact_url cli)
      else render_comparison (load_at w h) (ra_baseline_input cli) (ra_comparison_input cli) (ra_artifact_url cli))"

definition drawn_dashboards :: "publish_world \<Rightarrow> report_arguments \<Rightarrow> (publish_effect, string) act option" where
  "drawn_dashboards w cli =
     map_option (\<lambda>config.
       if ra_input cli \<noteq> [] then write_single w (ra_input cli) config (ra_artifact_url cli)
       else write_comparison w (ra_baseline_input cli) (ra_comparison_input cli) config (ra_artifact_url cli))
     (wanted_dashboards cli)"

text \<open>What the written text holds: the rendered report, within the limit, and the dashboards drawn for it.\<close>

definition report_content ::
  "publish_world \<Rightarrow> report_arguments \<Rightarrow> publish_effect list \<Rightarrow> publish_effect list \<Rightarrow> string \<Rightarrow> bool" where
  "report_content w cli h before content \<longleftrightarrow>
     length content \<le> GITHUB_SUMMARY_LIMIT_BYTES \<and>
     (\<exists>summary. rendered_report w cli h = Inr summary \<and> made_of summary (drawn_dashboards w cli) h before content)"

lemma render_small: "render debug load inputs link = Inr summary \<Longrightarrow> length summary \<le> GITHUB_SUMMARY_LIMIT_BYTES"
  by (auto simp: render_def render_report_def Let_def checked_iff ensure_summary_size_def split: prod.splits)

lemma render_comparison_small:
  "render_comparison load b c link = Inr summary \<Longrightarrow> length summary \<le> GITHUB_SUMMARY_LIMIT_BYTES"
  by (auto simp: render_comparison_def render_sides_def Let_def checked_iff ensure_summary_size_def)

lemma rendered_small: "rendered_report w cli h = Inr summary \<Longrightarrow> length summary \<le> GITHUB_SUMMARY_LIMIT_BYTES"
  by (auto simp: rendered_report_def dest: render_small render_comparison_small split: if_splits)

lemma textless_dashboards: "drawn_dashboards w cli = Some m \<Longrightarrow> textless m"
  by (auto simp: drawn_dashboards_def textless_single textless_comparison)

text \<open>Both modes render at the start and write what they rendered.\<close>

lemma content_run:
  assumes "bind_act (\<lambda>h. (rendered_report w cli h, h)) (\<lambda>summary.
      bind_act (with_dashboards summary (drawn_dashboards w cli)) (\<lambda>content.
      bind_act (create_parent w msg output) (\<lambda>_. act_context msg' (effect (bw_answer w) (WriteText output content))))) h = (r, h')"
  shows "\<exists>es. h' = h @ es \<and> written_last w output (report_content w cli h) h es r"
proof (cases "rendered_report w cli h")
  case (Inl e)
  then show ?thesis using assms by (auto simp: bind_act_def written_last_def)
next
  case (Inr summary)
  then have "bind_act (with_dashboards summary (drawn_dashboards w cli)) (\<lambda>content.
      bind_act (create_parent w msg output) (\<lambda>_. act_context msg' (effect (bw_answer w) (WriteText output content)))) h = (r, h')"
    using assms by (simp add: bind_act_def)
  then have "\<exists>es. h' = h @ es \<and> written_last w output (made_of summary (drawn_dashboards w cli) h) h es r"
    by (rule written_run) (rule textless_dashboards)
  then obtain es where
    es: "h' = h @ es" "written_last w output (made_of summary (drawn_dashboards w cli) h) h es r"
    by blast
  have "report_content w cli h before content" if "made_of summary (drawn_dashboards w cli) h before content" for before content
    using that Inr rendered_small [OF Inr]
    by (auto simp: report_content_def made_of_def split: option.splits)
  then show ?thesis using es unfolding written_last_def by blast
qed

text \<open>
  C33: a report is written once, whole, and last. However a run of the report program ends, it writes no
  text or exactly one, to the wanted file and as the last thing it does; that text is the rendered report,
  followed by the text of the dashboards when some are wanted, all of them drawn before, and is within the
  limit of a job summary; and the program succeeds exactly when it was written.
\<close>

theorem report_written_whole:
  assumes "report_program w cli h = (r, h')"
  shows "\<exists>es. h' = h @ es \<and> written_last w (ra_output cli) (report_content w cli h) h es r"
proof -
  let ?msg = "if ra_input cli \<noteq> [] then ''failed to create the report directory''
    else ''failed to create the comparison report directory''"
  let ?msg' = "if ra_input cli \<noteq> [] then ''failed to write the report'' else ''failed to write the comparison report''"
  let ?writing = "bind_act (\<lambda>h. (rendered_report w cli h, h)) (\<lambda>summary.
      bind_act (with_dashboards summary (drawn_dashboards w cli)) (\<lambda>content.
      bind_act (create_parent w ?msg (ra_output cli)) (\<lambda>_.
      act_context ?msg' (effect (bw_answer w) (WriteText (ra_output cli) content)))))"
  consider e where "r = Inl e" "h' = h" | "?writing h = (r, h')"
    using assms
    by (auto simp: report_program_def ensure_act_def fail_act_def lift_act_def err_def write_report_def
        write_comparison_report_def rendered_report_def drawn_dashboards_def split: if_splits)
  then show ?thesis
  proof cases
    case 1
    then show ?thesis by (intro exI [of _ "[]"]) (simp add: written_last_def)
  next
    case 2
    then show ?thesis by (rule content_run)
  qed
qed

text \<open>The example run, whose report is to have a dashboard.\<close>

theorem report_written_whole_witness:
  "\<exists>r es. report_program plotted_world
     \<lparr>ra_input = [plotted_input], ra_baseline_input = [], ra_comparison_input = [], ra_output = plotted_input,
      ra_artifact_url = None, ra_dashboard_output = Some (dc_output_directory plotted_config),
      ra_dashboard_asset_stem = Some ''load'', ra_dashboard_url_base = None\<rparr> [] = (r, es) \<and>
     written_last plotted_world plotted_input (report_content plotted_world
       \<lparr>ra_input = [plotted_input], ra_baseline_input = [], ra_comparison_input = [], ra_output = plotted_input,
        ra_artifact_url = None, ra_dashboard_output = Some (dc_output_directory plotted_config),
        ra_dashboard_asset_stem = Some ''load'', ra_dashboard_url_base = None\<rparr> []) [] es r"
  using report_written_whole [of plotted_world
     "\<lparr>ra_input = [plotted_input], ra_baseline_input = [], ra_comparison_input = [], ra_output = plotted_input,
      ra_artifact_url = None, ra_dashboard_output = Some (dc_output_directory plotted_config),
      ra_dashboard_asset_stem = Some ''load'', ra_dashboard_url_base = None\<rparr>" "[]"]
  by (metis append_Nil report_arguments.select_convs(4) surj_pair)

section \<open>The locked revision\<close>

lemma find_map_Some: "find_map f xs = Some y \<Longrightarrow> \<exists>x \<in> set xs. f x = Some y"
  by (induction xs) (auto split: option.splits)

text \<open>
  The build script takes the revision from the package of that name: a line of the same package names
  o-sfu's repository and ends in the revision.
\<close>

lemma locked_revision_sound:
  assumes "locked_o_sfu_revision lock = Some revision"
  shows "\<exists>package \<in> set (split_text ''[[package]]'' [] lock).
    (\<exists>entry \<in> set (lines_of package). trim entry = ''name = '' @ [quote] @ ''o-sfu'' @ [quote]) \<and>
    (\<exists>entry \<in> set (lines_of package). \<exists>url. trim entry =
       ''source = '' @ [quote] @ ''git+https://github.com/ThanhDodeurOdoo/o-sfu'' @ url @ ''#'' @ revision @ [quote]) \<and>
    CHR ''#'' \<notin> set revision"
proof -
  obtain package where package: "package \<in> set (split_text ''[[package]]'' [] lock)" "package_revision package = Some revision"
    using find_map_Some assms unfolding locked_o_sfu_revision_def by metis
  obtain entry where entry: "entry \<in> set (lines_of package)" "source_revision entry = Some revision"
    using package(2) find_map_Some unfolding package_revision_def by (metis option.distinct(1))
  obtain source url where "trim entry = (''source = '' @ [quote] @ ''git+https://github.com/ThanhDodeurOdoo/o-sfu'') @ source @ [quote]"
    "source = url @ ''#'' @ revision" "CHR ''#'' \<notin> set revision"
    using entry(2) by (auto simp: source_revision_def bind_eq_Some_conv strip_prefix_Some strip_suffix_Some rsplit_once_Some)
  moreover have "\<exists>entry \<in> set (lines_of package). trim entry = ''name = '' @ [quote] @ ''o-sfu'' @ [quote]"
    using package(2) by (auto simp: package_revision_def list_ex_iff split: if_splits)
  ultimately show ?thesis using package(1) entry(1) by fastforce
qed

end
